(* ===== verification/RelayPrelude.thy ===== *)
theory RelayPrelude
  imports Complex_Main "HOL-Library.Char_ord" "HOL-Library.List_Lexorder"
begin

text \<open>
  Shared vocabulary of the development: the types every component uses, the
  pieces of JavaScript semantics the source relies on (truthiness of optional
  strings, the bounded retry loop around an optimistic write, stable sorting
  with a comparator), the application errors of
  \<^verbatim>\<open>packages/application/src/errors.ts\<close>, and the generic lemmas on lists and
  association lists that the component theories share.
\<close>

section \<open>Types\<close>

text \<open>
  Identifiers are strings. An instant is a number of milliseconds since the epoch.
  The source stores instants as the strings of \<^verbatim>\<open>Date.prototype.toISOString\<close>; those
  strings have one fixed format, so their lexicographic order (used by the SQL
  comparisons) is the order of the instants (used after \<^verbatim>\<open>Date.parse\<close>), and the
  model keeps the instant only.
\<close>

type_synonym ident = string
type_synonym instant = int

section \<open>Collections of facts\<close>

named_theorems table_simps \<open>equations of the SQL table operations\<close>
named_theorems repo_defs \<open>definitions of the repository operations\<close>
named_theorems repo_keys \<open>preservation of the key invariant of the database\<close>
named_theorems pacing_defs \<open>definitions of the producer pacing functions\<close>

section \<open>Application errors\<close>

datatype app_error =
    NotFoundError
  | UnauthorizedError
  | ConflictError
  | CapacityError
  | PlainError
  | CodedError string int

definition error_code :: "app_error \<Rightarrow> string option" where
  "error_code e =
     (case e of
        NotFoundError \<Rightarrow> Some ''not_found''
      | UnauthorizedError \<Rightarrow> Some ''unauthorized''
      | ConflictError \<Rightarrow> Some ''conflict''
      | CapacityError \<Rightarrow> Some ''capacity_exceeded''
      | PlainError \<Rightarrow> None
      | CodedError c _ \<Rightarrow> Some c)"

definition error_status :: "app_error \<Rightarrow> int option" where
  "error_status e =
     (case e of
        NotFoundError \<Rightarrow> Some 404
      | UnauthorizedError \<Rightarrow> Some 401
      | ConflictError \<Rightarrow> Some 409
      | CapacityError \<Rightarrow> Some 503
      | PlainError \<Rightarrow> None
      | CodedError _ s \<Rightarrow> Some s)"

text \<open>A promise settles with a value or rejects with an error.\<close>

type_synonym 'a outcome = "app_error + 'a"

abbreviation resolve :: "'a \<Rightarrow> 'a outcome" where
  "resolve x \<equiv> Inr x"

abbreviation throw :: "app_error \<Rightarrow> 'a outcome" where
  "throw e \<equiv> Inl e"

section \<open>Truthiness\<close>

text \<open>An optional string is falsy when it is absent or empty.\<close>

definition truthy :: "string option \<Rightarrow> bool" where
  "truthy s = (case s of None \<Rightarrow> False | Some x \<Rightarrow> x \<noteq> [])"

lemma truthy_simps [simp]:
  "truthy None = False"
  "truthy (Some x) = (x \<noteq> [])"
  by (simp_all add: truthy_def)

lemma truthyE [elim]:
  assumes "truthy s"
  obtains x where "s = Some x" "x \<noteq> []"
  using assms by (cases s) auto

text \<open>\<^verbatim>\<open>a ?? b\<close> on an optional value.\<close>

definition coalesce :: "'a option \<Rightarrow> 'a \<Rightarrow> 'a" where
  "coalesce a b = (case a of None \<Rightarrow> b | Some x \<Rightarrow> x)"

lemma coalesce_simps [simp]:
  "coalesce None b = b"
  "coalesce (Some x) b = x"
  by (simp_all add: coalesce_def)

section \<open>Bounded retry loops\<close>

text \<open>
  The loops \<^verbatim>\<open>for (attempt = 0; attempt < n; attempt += 1)\<close> around an optimistic
  write: the body of attempt \<open>i\<close> maps the world to a new world and either leaves the
  loop with a result or goes on with the next attempt; when the attempts are used up
  the code after the loop decides.
\<close>

fun retry :: "nat \<Rightarrow> nat \<Rightarrow> (nat \<Rightarrow> 'w \<Rightarrow> 'w \<times> 'r option) \<Rightarrow> 'r \<Rightarrow> 'w \<Rightarrow> 'w \<times> 'r" where
  "retry i 0 body exhausted w = (w, exhausted)"
| "retry i (Suc n) body exhausted w =
     (case body i w of
        (w', Some r) \<Rightarrow> (w', r)
      | (w', None) \<Rightarrow> retry (Suc i) n body exhausted w')"

text \<open>An invariant of the body is an invariant of the loop.\<close>

lemma retry_invariant:
  assumes "\<And>j v. P v \<Longrightarrow> P (fst (body j v))" and "P w"
  shows "P (fst (retry i n body ex w))"
  using assms(2)
proof (induction n arbitrary: i w)
  case 0
  then show ?case by simp
next
  case (Suc n)
  obtain w' q where b: "body i w = (w', q)" by fastforce
  with assms(1)[OF Suc.prems, of i] have "P w'" by simp
  with Suc.IH b show ?case by (cases q) auto
qed

text \<open>A result is the exhausted one or left the body in a world that satisfies the invariant.\<close>

lemma retry_result:
  assumes "\<And>j v. P v \<Longrightarrow> P (fst (body j v))" and "P w"
    and "retry i n body ex w = (w', r)"
  shows "(r = ex \<and> P w') \<or> (\<exists>j v. P v \<and> body j v = (w', Some r))"
  using assms(2,3)
proof (induction n arbitrary: i w)
  case 0
  then show ?case by simp
next
  case (Suc n)
  obtain v q where b: "body i w = (v, q)" by fastforce
  with assms(1)[OF Suc.prems(1), of i] have "P v" by simp
  show ?case
  proof (cases q)
    case None
    with b Suc.prems(2) have "retry (Suc i) n body ex v = (w', r)" by simp
    with \<open>P v\<close> show ?thesis by (rule Suc.IH)
  next
    case (Some s)
    with b Suc.prems show ?thesis by auto
  qed
qed

lemma retry_first:
  assumes "body i w = (w', Some r)"
  shows "retry i (Suc n) body ex w = (w', r)"
  using assms by simp

text \<open>A relation kept by every attempt relates the worlds before and after the loop.\<close>

lemma retry_rel:
  assumes step: "\<And>j v. R v (fst (body j v))" and refl: "\<And>v. R v v"
    and trans: "\<And>u v x. R u v \<Longrightarrow> R v x \<Longrightarrow> R u x"
  shows "R w (fst (retry i n body ex w))"
proof (induction n arbitrary: i w)
  case 0
  then show ?case by (simp add: refl)
next
  case (Suc n)
  obtain w' q where b: "body i w = (w', q)" by fastforce
  with step[of w i] have "R w w'" by simp
  with Suc.IH b trans show ?case by (cases q) fastforce+
qed

section \<open>Sorting with a comparator\<close>

text \<open>
  \<^verbatim>\<open>Array.prototype.sort\<close> is stable: an element goes before the first sorted element
  it compares below. The comparators of the source return numbers.
\<close>

fun js_insert :: "('a \<Rightarrow> 'a \<Rightarrow> rat) \<Rightarrow> 'a \<Rightarrow> 'a list \<Rightarrow> 'a list" where
  "js_insert cmp x [] = [x]"
| "js_insert cmp x (y # ys) = (if cmp x y < 0 then x # y # ys else y # js_insert cmp x ys)"

definition js_sort :: "('a \<Rightarrow> 'a \<Rightarrow> rat) \<Rightarrow> 'a list \<Rightarrow> 'a list" where
  "js_sort cmp xs = foldl (\<lambda>acc x. js_insert cmp x acc) [] xs"

definition js_first :: "'a list \<Rightarrow> 'a option" where
  "js_first xs = (case xs of [] \<Rightarrow> None | x # _ \<Rightarrow> Some x)"

lemma js_first_simps [simp]:
  "js_first [] = None"
  "js_first (x # xs) = Some x"
  by (simp_all add: js_first_def)

lemma js_first_mem: "js_first xs = Some x \<Longrightarrow> x \<in> set xs"
  by (cases xs) auto

lemma js_first_None [simp]: "js_first xs = None \<longleftrightarrow> xs = []"
  by (cases xs) auto

lemma set_js_insert [simp]: "set (js_insert cmp x ys) = insert x (set ys)"
  by (induction ys) auto

lemma set_js_fold: "set (foldl (\<lambda>acc x. js_insert cmp x acc) ys xs) = set xs \<union> set ys"
  by (induction xs arbitrary: ys) auto

lemma set_js_sort [simp]: "set (js_sort cmp xs) = set xs"
  by (simp add: js_sort_def set_js_fold)

lemma length_js_insert [simp]: "length (js_insert cmp x ys) = Suc (length ys)"
  by (induction ys) auto

lemma length_js_fold: "length (foldl (\<lambda>acc x. js_insert cmp x acc) ys xs) = length xs + length ys"
  by (induction xs arbitrary: ys) auto

lemma length_js_sort [simp]: "length (js_sort cmp xs) = length xs"
  by (simp add: js_sort_def length_js_fold)

lemma js_sort_Nil_iff [simp]: "js_sort cmp xs = [] \<longleftrightarrow> xs = []"
  by (metis length_0_conv length_js_sort)

lemma js_sort_Nil [simp]: "js_sort cmp [] = []"
  by simp

text \<open>
  With a transitive total comparator the first element is a least one: the order the
  comparator induces holds between it and every other element.
\<close>

definition cmp_le :: "('a \<Rightarrow> 'a \<Rightarrow> rat) \<Rightarrow> 'a \<Rightarrow> 'a \<Rightarrow> bool" where
  "cmp_le cmp x y \<longleftrightarrow> \<not> cmp y x < 0"

lemma hd_js_insert:
  assumes trans: "\<And>a b c. cmp_le cmp a b \<Longrightarrow> cmp_le cmp b c \<Longrightarrow> cmp_le cmp a c"
    and anti: "\<And>a b. cmp a b < 0 \<Longrightarrow> \<not> cmp b a < 0"
    and hd: "\<forall>y \<in> set ys. cmp_le cmp (hd ys) y"
  shows "\<forall>y \<in> set (js_insert cmp x ys). cmp_le cmp (hd (js_insert cmp x ys)) y"
proof (cases ys)
  case Nil
  have "\<not> cmp x x < 0" using anti[of x x] by blast
  then show ?thesis using Nil by (simp add: cmp_le_def)
next
  case (Cons z zs)
  have refl: "\<not> cmp a a < 0" for a using anti[of a a] by blast
  show ?thesis
  proof (cases "cmp x z < 0")
    case True
    then have xz: "cmp_le cmp x z" using anti by (simp add: cmp_le_def)
    have "cmp_le cmp x y" if "y \<in> set ys" for y
      using trans[OF xz, of y] hd that Cons by auto
    with True Cons refl show ?thesis by (auto simp: cmp_le_def)
  next
    case False
    then have "cmp_le cmp z x" by (simp add: cmp_le_def)
    with False Cons hd show ?thesis by auto
  qed
qed

lemma hd_js_sort:
  assumes trans: "\<And>a b c. cmp_le cmp a b \<Longrightarrow> cmp_le cmp b c \<Longrightarrow> cmp_le cmp a c"
    and anti: "\<And>a b. cmp a b < 0 \<Longrightarrow> \<not> cmp b a < 0"
    and "y \<in> set xs"
  shows "cmp_le cmp (hd (js_sort cmp xs)) y"
proof -
  have "\<forall>y \<in> set (foldl (\<lambda>acc x. js_insert cmp x acc) ys xs).
          cmp_le cmp (hd (foldl (\<lambda>acc x. js_insert cmp x acc) ys xs)) y"
    if "\<forall>y \<in> set ys. cmp_le cmp (hd ys) y" for ys
    using that
  proof (induction xs arbitrary: ys)
    case Nil
    then show ?case by simp
  next
    case (Cons x xs)
    from hd_js_insert[of cmp, OF trans anti Cons.prems] Cons.IH show ?case by simp
  qed
  from this[of "[]"] assms(3) set_js_sort[of cmp xs] show ?thesis
    by (simp add: js_sort_def)
qed

text \<open>A comparator that subtracts keys is transitive and antisymmetric.\<close>

lemma js_first_sort_by_key:
  assumes cmp: "\<And>a b. cmp a b = f a - f b"
    and "js_first (js_sort cmp xs) = Some m" and "y \<in> set xs"
  shows "f m \<le> (f y :: rat)"
proof -
  have "cmp_le cmp (hd (js_sort cmp xs)) y"
    by (rule hd_js_sort) (use assms(3) in \<open>auto simp: cmp_le_def cmp\<close>)
  moreover have "hd (js_sort cmp xs) = m"
    using assms(2) by (cases "js_sort cmp xs") auto
  ultimately show ?thesis by (simp add: cmp_le_def cmp)
qed

section \<open>Association lists\<close>

declare option.map_ident [simp]

declare map_of_eq_Some_iff [simp del] Some_eq_map_of_iff [simp del]

lemma map_add_singleton [simp]:
  "m k = None \<Longrightarrow> [k \<mapsto> v] ++ m = m(k \<mapsto> v)"
  by (auto simp: map_add_def fun_eq_iff split: option.splits)

lemma map_of_snoc:
  "map_of (xs @ [(k, v)]) j = (if map_of xs j = None \<and> j = k then Some v else map_of xs j)"
  by (induction xs) auto

lemma not_mem_keys_iff: "k \<notin> fst ` set xs \<longleftrightarrow> map_of xs k = None"
  by (simp add: map_of_eq_None_iff)

lemma map_of_map_key:
  "map_of (map (\<lambda>(k, v). (k, f k v)) xs) k = map_option (f k) (map_of xs k)"
  by (induction xs) auto

lemma keys_map_pairs [simp]: "map fst (map (\<lambda>(k, v). (k, f k v)) xs) = map fst xs"
  by (induction xs) auto

lemma map_of_filter_key:
  assumes "distinct (map fst xs)"
  shows "map_of (filter (\<lambda>(k, v). P k v) xs) k =
           (case map_of xs k of None \<Rightarrow> None | Some v \<Rightarrow> if P k v then Some v else None)"
  using assms
proof (induction xs)
  case Nil
  then show ?case by simp
next
  case (Cons p xs)
  obtain a b where p: "p = (a, b)" by fastforce
  have "map_of (filter (\<lambda>(k, v). P k v) xs) a = None" if "\<not> P a b"
  proof -
    have "a \<notin> fst ` set xs" using Cons.prems p by auto
    then have "a \<notin> fst ` set (filter (\<lambda>(k, v). P k v) xs)" by auto
    then show ?thesis by (simp only: not_mem_keys_iff)
  qed
  then show ?case using Cons p by auto
qed

lemma distinct_map_filter_fst:
  "distinct (map fst xs) \<Longrightarrow> distinct (map fst (filter P xs))"
  by (induction xs) auto

lemma length_filter_key:
  assumes "distinct (map fst xs)"
  shows "length (filter (\<lambda>(j, v). j = k \<and> P v) xs) =
           (case map_of xs k of None \<Rightarrow> 0 | Some v \<Rightarrow> if P v then 1 else 0)"
  using assms
proof (induction xs)
  case Nil
  then show ?case by simp
next
  case (Cons p xs)
  obtain a b where p: "p = (a, b)" by fastforce
  have "map_of xs a = None" using Cons.prems p
    by (simp add: map_of_eq_None_iff)
  with Cons p show ?case by (auto split: option.splits)
qed

end
