(* ===== verification/RelayTable.thy ===== *)
theory RelayTable
  imports RelayPrelude
begin

text \<open>
  SQL tables of JSON documents, as \<^verbatim>\<open>packages/adapters/src/sqlite-repository.ts\<close> uses
  them: a row has a primary key, a document, the date column the queries sort by, a
  revision and the deletion marker of the tables that have one. The statements of the
  source become the operations below; \<open>compare_and_set_versioned\<close> is its
  \<^verbatim>\<open>#compareAndSetVersioned\<close>. The locale \<open>revisioned_store\<close> is the contract of an
  optimistic store that the services rely on, and the tables are shown to provide it.
\<close>

section \<open>Rows and statements\<close>

record 'a row =
  row_json :: 'a
  row_date :: instant
  row_revision :: nat
  row_pending :: bool

type_synonym 'a table = "(string \<times> 'a row) list"

abbreviation keys_ok :: "'a table \<Rightarrow> bool" where
  "keys_ok t \<equiv> distinct (map fst t)"

definition fresh_row :: "'a \<Rightarrow> instant \<Rightarrow> 'a row" where
  "fresh_row v d = \<lparr>row_json = v, row_date = d, row_revision = 1, row_pending = False\<rparr>"

text \<open>\<^verbatim>\<open>INSERT\<close> without a conflict clause: a taken primary key is a constraint violation.\<close>

definition sql_insert :: "'a table \<Rightarrow> string \<Rightarrow> 'a row \<Rightarrow> 'a table option" where
  "sql_insert t k r = (case map_of t k of None \<Rightarrow> Some (t @ [(k, r)]) | Some _ \<Rightarrow> None)"

text \<open>\<^verbatim>\<open>INSERT ... ON CONFLICT DO NOTHING\<close>, with the number of changed rows.\<close>

definition sql_insert_or_ignore :: "'a table \<Rightarrow> string \<Rightarrow> 'a row \<Rightarrow> 'a table \<times> nat" where
  "sql_insert_or_ignore t k r =
     (case map_of t k of None \<Rightarrow> (t @ [(k, r)], 1) | Some _ \<Rightarrow> (t, 0))"

text \<open>\<^verbatim>\<open>UPDATE ... WHERE\<close> and \<^verbatim>\<open>DELETE ... WHERE\<close>, with the number of changed rows.\<close>

definition sql_update ::
    "'a table \<Rightarrow> (string \<Rightarrow> 'a row \<Rightarrow> bool) \<Rightarrow> ('a row \<Rightarrow> 'a row) \<Rightarrow> 'a table \<times> nat" where
  "sql_update t cond f =
     (map (\<lambda>(k, r). (k, if cond k r then f r else r)) t,
      length (filter (\<lambda>(k, r). cond k r) t))"

definition sql_delete :: "'a table \<Rightarrow> (string \<Rightarrow> 'a row \<Rightarrow> bool) \<Rightarrow> 'a table \<times> nat" where
  "sql_delete t cond =
     (filter (\<lambda>(k, r). \<not> cond k r) t, length (filter (\<lambda>(k, r). cond k r) t))"

definition sql_upsert ::
    "'a table \<Rightarrow> string \<Rightarrow> 'a row \<Rightarrow> ('a row \<Rightarrow> 'a row) \<Rightarrow> 'a table" where
  "sql_upsert t k r f =
     (case map_of t k of
        None \<Rightarrow> t @ [(k, r)]
      | Some _ \<Rightarrow> fst (sql_update t (\<lambda>j _. j = k) f))"

text \<open>
  \<^verbatim>\<open>SELECT json ... ORDER BY ... LIMIT\<close>; a negative limit is no limit in SQLite. Rows
  with equal sort keys keep the table's order.
\<close>

definition sql_limit :: "int \<Rightarrow> 'a list \<Rightarrow> 'a list" where
  "sql_limit n xs = (if n < 0 then xs else take (nat n) xs)"

definition order_asc :: "(string \<times> 'a row \<Rightarrow> instant) \<Rightarrow> 'a table \<Rightarrow> 'a table" where
  "order_asc f t = sort_key f t"

definition order_desc :: "(string \<times> 'a row \<Rightarrow> instant) \<Rightarrow> 'a table \<Rightarrow> 'a table" where
  "order_desc f t = sort_key (\<lambda>p. - f p) t"

definition jsons :: "'a table \<Rightarrow> 'a list" where
  "jsons t = map (\<lambda>p. row_json (snd p)) t"

section \<open>Versioned records and results of atomic writes\<close>

record 'a versioned =
  vr_value :: 'a
  vr_revision :: nat

datatype failure_reason = NotFound | RevisionConflict | InvalidState | DependencyConflict

datatype 'a write_result =
    Applied "'a versioned"
  | Rejected failure_reason "'a versioned option" "string list"

abbreviation versioned :: "'a \<Rightarrow> nat \<Rightarrow> 'a versioned" where
  "versioned v r \<equiv> \<lparr>vr_value = v, vr_revision = r\<rparr>"

fun is_applied :: "'a write_result \<Rightarrow> bool" where
  "is_applied (Applied _) = True"
| "is_applied (Rejected _ _ _) = False"

definition get_json :: "'a table \<Rightarrow> string \<Rightarrow> 'a option" where
  "get_json t k = map_option row_json (map_of t k)"

definition get_versioned :: "'a table \<Rightarrow> string \<Rightarrow> 'a versioned option" where
  "get_versioned t k = map_option (\<lambda>r. versioned (row_json r) (row_revision r)) (map_of t k)"

definition compare_and_set_versioned ::
    "('a \<Rightarrow> 's) \<Rightarrow> 'a table \<Rightarrow> string \<Rightarrow> 'a \<Rightarrow> instant \<Rightarrow> nat \<Rightarrow> 's list \<Rightarrow> 'a table \<times> 'a write_result"
  where
  "compare_and_set_versioned state_of t k v d expected allowed =
     (let (t', changes) =
            sql_update t
              (\<lambda>j r. j = k \<and> row_revision r = expected \<and>
                     (allowed = [] \<or> state_of (row_json r) \<in> set allowed))
              (\<lambda>r. r\<lparr>row_json := v, row_date := d, row_revision := row_revision r + 1\<rparr>)
      in if changes = 1 then (t', Applied (versioned v (expected + 1)))
         else (t',
           case get_versioned t' k of
             None \<Rightarrow> Rejected NotFound None []
           | Some current \<Rightarrow>
               if vr_revision current \<noteq> expected
               then Rejected RevisionConflict (Some current) []
               else Rejected InvalidState (Some current) []))"

section \<open>Lemmas on the statements\<close>

lemma map_of_sql_update [table_simps]:
  "map_of (fst (sql_update t cond f)) k =
     map_option (\<lambda>r. if cond k r then f r else r) (map_of t k)"
  by (simp add: sql_update_def map_of_map_key)

lemma keys_sql_update [simp]: "map fst (fst (sql_update t cond f)) = map fst t"
  by (simp add: sql_update_def case_prod_beta comp_def)

lemma sql_update_none:
  "(\<And>j r. (j, r) \<in> set t \<Longrightarrow> \<not> cond j r) \<Longrightarrow> fst (sql_update t cond f) = t"
  by (induction t) (auto simp: sql_update_def)

lemma sql_update_count_key:
  assumes "keys_ok t"
  shows "snd (sql_update t (\<lambda>j r. j = k \<and> P r) f) =
           (case map_of t k of None \<Rightarrow> 0 | Some r \<Rightarrow> if P r then 1 else 0)"
  using assms by (simp add: sql_update_def length_filter_key)

lemma sql_delete_count_key:
  assumes "keys_ok t"
  shows "snd (sql_delete t (\<lambda>j r. j = k \<and> P r)) =
           (case map_of t k of None \<Rightarrow> 0 | Some r \<Rightarrow> if P r then 1 else 0)"
  using assms by (simp add: sql_delete_def length_filter_key)

lemma map_of_sql_delete [table_simps]:
  assumes "keys_ok t"
  shows "map_of (fst (sql_delete t cond)) k =
           (case map_of t k of None \<Rightarrow> None | Some r \<Rightarrow> if cond k r then None else Some r)"
  using map_of_filter_key[OF assms, of "\<lambda>k r. \<not> cond k r" k]
  by (auto simp: sql_delete_def split: option.splits)

lemma keys_sql_delete: "keys_ok t \<Longrightarrow> keys_ok (fst (sql_delete t cond))"
  by (simp add: sql_delete_def distinct_map_filter_fst)

lemma sql_insert_Some:
  "sql_insert t k r = Some t' \<longleftrightarrow> map_of t k = None \<and> t' = t @ [(k, r)]"
  by (auto simp: sql_insert_def split: option.splits)

lemma sql_insert_None: "sql_insert t k r = None \<longleftrightarrow> map_of t k \<noteq> None"
  by (auto simp: sql_insert_def split: option.splits)

lemma map_of_sql_insert:
  "sql_insert t k r = Some t' \<Longrightarrow> map_of t' = (map_of t)(k \<mapsto> r)"
  by (auto simp: sql_insert_Some)

lemma keys_sql_insert:
  "sql_insert t k r = Some t' \<Longrightarrow> keys_ok t \<Longrightarrow> keys_ok t'"
  by (auto simp: sql_insert_Some map_of_eq_None_iff)

lemma map_of_sql_insert_or_ignore [table_simps]:
  "map_of (fst (sql_insert_or_ignore t k r)) j =
     (if map_of t j = None \<and> j = k then Some r else map_of t j)"
  by (auto simp: sql_insert_or_ignore_def split: option.splits)

lemma keys_sql_insert_or_ignore:
  "keys_ok t \<Longrightarrow> keys_ok (fst (sql_insert_or_ignore t k r))"
  by (auto simp: sql_insert_or_ignore_def map_of_eq_None_iff split: option.splits)

lemma map_of_sql_upsert [table_simps]:
  "map_of (sql_upsert t k r f) =
     (map_of t)(k \<mapsto> (case map_of t k of None \<Rightarrow> r | Some old \<Rightarrow> f old))"
  by (auto simp: sql_upsert_def map_of_sql_update fun_eq_iff split: option.splits)

lemma keys_sql_upsert: "keys_ok t \<Longrightarrow> keys_ok (sql_upsert t k r f)"
  by (auto simp: sql_upsert_def map_of_eq_None_iff split: option.splits)

lemma set_order_asc [simp]: "set (order_asc f t) = set t"
  by (simp add: order_asc_def)

lemma set_order_desc [simp]: "set (order_desc f t) = set t"
  by (simp add: order_desc_def)

lemma set_sql_limit: "set (sql_limit n xs) \<subseteq> set xs"
  by (auto simp: sql_limit_def dest: in_set_takeD)

lemma length_sql_limit: "0 \<le> n \<Longrightarrow> length (sql_limit n xs) \<le> nat n"
  by (simp add: sql_limit_def)

lemma get_versioned_None [simp]: "get_versioned t k = None \<longleftrightarrow> map_of t k = None"
  by (simp add: get_versioned_def)

lemma get_versioned_Some:
  "get_versioned t k = Some x \<longleftrightarrow>
     (\<exists>r. map_of t k = Some r \<and> x = versioned (row_json r) (row_revision r))"
  by (auto simp: get_versioned_def)

lemma get_json_versioned: "get_json t k = map_option vr_value (get_versioned t k)"
  by (simp add: get_json_def get_versioned_def option.map_comp comp_def)

section \<open>The contract of an optimistic store\<close>

text \<open>
  What the services rely on: a read gives the value with its revision; a conditional
  write with the current revision, in a state the caller allows, stores the value and
  bumps the revision; every other write leaves the store as it is and says why.
\<close>

locale revisioned_store =
  fixes get :: "'w \<Rightarrow> 'k \<Rightarrow> 'v versioned option"
    and cas :: "'w \<Rightarrow> 'k \<Rightarrow> 'v \<Rightarrow> nat \<Rightarrow> 'w \<times> 'v write_result"
    and ok :: "'v \<Rightarrow> bool"
    and wf :: "'w \<Rightarrow> bool"
  assumes cas_hit:
    "wf w \<Longrightarrow> get w k = Some (versioned old r) \<Longrightarrow> ok old \<Longrightarrow>
       snd (cas w k new r) = Applied (versioned new (Suc r)) \<and>
       get (fst (cas w k new r)) = (get w)(k \<mapsto> versioned new (Suc r))"
    and cas_missing:
    "wf w \<Longrightarrow> get w k = None \<Longrightarrow> cas w k new r = (w, Rejected NotFound None [])"
    and cas_stale:
    "wf w \<Longrightarrow> get w k = Some (versioned old r') \<Longrightarrow> r' \<noteq> r \<Longrightarrow>
       cas w k new r = (w, Rejected RevisionConflict (Some (versioned old r')) [])"
    and cas_refused:
    "wf w \<Longrightarrow> get w k = Some (versioned old r) \<Longrightarrow> \<not> ok old \<Longrightarrow>
       cas w k new r = (w, Rejected InvalidState (Some (versioned old r)) [])"
    and cas_wf: "wf w \<Longrightarrow> wf (fst (cas w k new r))"
begin

lemma cas_cases:
  assumes "wf w"
  obtains
    (applied) old where "get w k = Some (versioned old r)" "ok old"
      "snd (cas w k new r) = Applied (versioned new (Suc r))"
      "get (fst (cas w k new r)) = (get w)(k \<mapsto> versioned new (Suc r))"
  | (rejected) reason cur where "cas w k new r = (w, Rejected reason cur [])"
proof (cases "get w k")
  case None
  with cas_missing[OF assms] rejected show ?thesis by blast
next
  case (Some x)
  obtain old r' where x: "x = versioned old r'" by (cases x) auto
  show ?thesis
  proof (cases "r' = r \<and> ok old")
    case True
    with Some x cas_hit[OF assms] applied show ?thesis by blast
  next
    case False
    with Some x cas_stale[OF assms] cas_refused[OF assms] rejected show ?thesis by metis
  qed
qed

lemma cas_applied_iff:
  assumes "wf w"
  shows "is_applied (snd (cas w k new r)) \<longleftrightarrow> (\<exists>old. get w k = Some (versioned old r) \<and> ok old)"
proof
  assume "is_applied (snd (cas w k new r))"
  then show "\<exists>old. get w k = Some (versioned old r) \<and> ok old"
    by (cases rule: cas_cases[OF assms, of k r new]) auto
next
  assume "\<exists>old. get w k = Some (versioned old r) \<and> ok old"
  then show "is_applied (snd (cas w k new r))" using cas_hit[OF assms] by fastforce
qed

text \<open>A write that is not applied changes nothing.\<close>

lemma cas_unchanged:
  assumes "wf w" and "\<not> is_applied (snd (cas w k new r))"
  shows "fst (cas w k new r) = w"
  by (cases rule: cas_cases[OF assms(1), of k r new]) (use assms(2) in auto)

text \<open>Other keys keep their value and revision.\<close>

lemma cas_frame:
  assumes "wf w" and "j \<noteq> k"
  shows "get (fst (cas w k new r)) j = get w j"
  by (cases rule: cas_cases[OF assms(1), of k r new]) (use assms(2) in auto)

text \<open>Revisions never go back.\<close>

lemma cas_revision_mono:
  assumes "wf w" and "get w j = Some x"
  shows "\<exists>y. get (fst (cas w k new r)) j = Some y \<and> vr_revision x \<le> vr_revision y"
  by (cases rule: cas_cases[OF assms(1), of k r new]) (use assms(2) in auto)

text \<open>Two writers that read the same revision cannot both succeed: no update is lost.\<close>

lemma no_lost_update:
  assumes "wf w" and "is_applied (snd (cas w k a r))"
  shows "\<not> is_applied (snd (cas (fst (cas w k a r)) k b r))"
proof -
  obtain old where "get w k = Some (versioned old r)" "ok old"
    using assms cas_applied_iff by blast
  with cas_hit[OF assms(1)] have "get (fst (cas w k a r)) k = Some (versioned a (Suc r))"
    by simp
  with cas_applied_iff[OF cas_wf[OF assms(1)]] show ?thesis by simp
qed

text \<open>A write right after a read of the same world is applied when its state is allowed.\<close>

lemma read_then_cas:
  assumes "wf w" and "get w k = Some x" and "ok (vr_value x)"
  shows "snd (cas w k new (vr_revision x)) = Applied (versioned new (Suc (vr_revision x)))"
  using cas_hit[OF assms(1), of k "vr_value x" "vr_revision x" new] assms(2,3) by (cases x) auto

end

section \<open>The tables provide the contract\<close>

definition cas_cond :: "('a \<Rightarrow> 's) \<Rightarrow> nat \<Rightarrow> 's list \<Rightarrow> 'a row \<Rightarrow> bool" where
  "cas_cond s e al r \<longleftrightarrow> row_revision r = e \<and> (al = [] \<or> s (row_json r) \<in> set al)"

definition bump_row :: "'a \<Rightarrow> instant \<Rightarrow> 'a row \<Rightarrow> 'a row" where
  "bump_row v d r = r\<lparr>row_json := v, row_date := d, row_revision := row_revision r + 1\<rparr>"

lemma bump_row_simps [simp]:
  "row_json (bump_row v d r) = v"
  "row_date (bump_row v d r) = d"
  "row_revision (bump_row v d r) = Suc (row_revision r)"
  "row_pending (bump_row v d r) = row_pending r"
  by (simp_all add: bump_row_def)

lemma cas_alt:
  "compare_and_set_versioned s t k v d e al =
     (let u = sql_update t (\<lambda>j r. j = k \<and> cas_cond s e al r) (bump_row v d)
      in (fst u,
          if snd u = 1 then Applied (versioned v (Suc e))
          else case get_versioned (fst u) k of
             None \<Rightarrow> Rejected NotFound None []
           | Some current \<Rightarrow>
               if vr_revision current \<noteq> e then Rejected RevisionConflict (Some current) []
               else Rejected InvalidState (Some current) []))"
  by (simp add: compare_and_set_versioned_def Let_def cas_cond_def bump_row_def [abs_def]
      split: prod.splits)

lemma cas_fst:
  "fst (compare_and_set_versioned s t k v d e al) =
     fst (sql_update t (\<lambda>j r. j = k \<and> cas_cond s e al r) (bump_row v d))"
  by (simp add: cas_alt Let_def)

lemma keys_cas [simp]: "map fst (fst (compare_and_set_versioned s t k v d e al)) = map fst t"
  by (simp add: cas_fst)

lemma map_of_cas [table_simps]:
  "map_of (fst (compare_and_set_versioned s t k v d e al)) j =
     map_option (\<lambda>r. if j = k \<and> cas_cond s e al r then bump_row v d r else r) (map_of t j)"
  by (simp add: cas_fst map_of_sql_update)

lemma cas_snd:
  assumes "keys_ok t"
  shows "snd (compare_and_set_versioned s t k v d e al) =
    (case map_of t k of
       None \<Rightarrow> Rejected NotFound None []
     | Some r \<Rightarrow>
         if row_revision r \<noteq> e
         then Rejected RevisionConflict (Some (versioned (row_json r) (row_revision r))) []
         else if al = [] \<or> s (row_json r) \<in> set al then Applied (versioned v (Suc e))
         else Rejected InvalidState (Some (versioned (row_json r) (row_revision r))) [])"
  using sql_update_count_key[OF assms, of k "cas_cond s e al" "bump_row v d"]
  by (auto simp: cas_alt Let_def get_versioned_def map_of_sql_update cas_cond_def
      split: option.splits)

lemma cas_unchanged_table:
  assumes "keys_ok t"
    and "\<not> is_applied (snd (compare_and_set_versioned s t k v d e al))"
  shows "fst (compare_and_set_versioned s t k v d e al) = t"
  unfolding cas_fst
proof (rule sql_update_none)
  fix j r
  assume "(j, r) \<in> set t"
  with assms(1) have "map_of t j = Some r" by (rule map_of_is_SomeI)
  with assms(2) show "\<not> (j = k \<and> cas_cond s e al r)"
    unfolding cas_snd[OF assms(1)] by (auto simp: cas_cond_def)
qed

interpretation table: revisioned_store
  "\<lambda>t k. get_versioned t k"
  "\<lambda>t k v e. compare_and_set_versioned s t k v d e al"
  "\<lambda>v. al = [] \<or> s v \<in> set al"
  "\<lambda>t. keys_ok t"
  for s :: "'a \<Rightarrow> 's" and d :: instant and al :: "'s list"
proof (unfold_locales, goal_cases)
  case (1 w k old r new)
  then show ?case
    by (auto simp: cas_snd get_versioned_Some get_versioned_def map_of_cas cas_cond_def fun_eq_iff)
next
  case (2 w k new r)
  then show ?case
    by (intro prod_eqI) (simp_all add: cas_unchanged_table cas_snd)
next
  case (3 w k old r' r new)
  then have "snd (compare_and_set_versioned s w k new d r al) =
      Rejected RevisionConflict (Some (versioned old r')) []"
    by (auto simp: cas_snd get_versioned_Some)
  with 3 show ?case by (intro prod_eqI) (simp_all add: cas_unchanged_table)
next
  case (4 w k old r new)
  then have "snd (compare_and_set_versioned s w k new d r al) =
      Rejected InvalidState (Some (versioned old r)) []"
    by (auto simp: cas_snd get_versioned_Some)
  with 4 show ?case by (intro prod_eqI) (simp_all add: cas_unchanged_table)
next
  case (5 w k new r)
  then show ?case by simp
qed

lemmas table_facts =
  map_of_sql_update map_of_sql_delete map_of_sql_insert_or_ignore map_of_sql_upsert map_of_cas

end
