(* ===== verification/RelayDomain.thy ===== *)
theory RelayDomain
  imports RelayPrelude
begin

text \<open>
  The provider-neutral models of \<^verbatim>\<open>packages/domain/src/index.ts\<close>: one record per Zod
  object, one datatype per Zod enum, and for the schemas that constrain their values a
  predicate that states the constraints. Field names carry a prefix for the record they
  belong to. Optional fields are options, nullable instants too. The URL check of Zod is
  library code and is a parameter (\<open>is_url\<close>).
\<close>

section \<open>Identifier and option-value syntax\<close>

definition is_lower :: "char \<Rightarrow> bool" where
  "is_lower c \<longleftrightarrow> 97 \<le> (of_char c :: nat) \<and> (of_char c :: nat) \<le> 122"

definition is_upper :: "char \<Rightarrow> bool" where
  "is_upper c \<longleftrightarrow> 65 \<le> (of_char c :: nat) \<and> (of_char c :: nat) \<le> 90"

definition is_digit :: "char \<Rightarrow> bool" where
  "is_digit c \<longleftrightarrow> 48 \<le> (of_char c :: nat) \<and> (of_char c :: nat) \<le> 57"

definition is_alpha :: "char \<Rightarrow> bool" where
  "is_alpha c \<longleftrightarrow> is_lower c \<or> is_upper c"

definition is_alnum :: "char \<Rightarrow> bool" where
  "is_alnum c \<longleftrightarrow> is_alpha c \<or> is_digit c"

text \<open>\<^verbatim>\<open>/^[a-z][a-z0-9-]*$/\<close> with 1 to 64 characters.\<close>

definition valid_provider_type :: "string \<Rightarrow> bool" where
  "valid_provider_type s \<longleftrightarrow> 1 \<le> length s \<and> length s \<le> 64 \<and>
     (case s of [] \<Rightarrow> False
      | c # cs \<Rightarrow> is_lower c \<and> list_all (\<lambda>x. is_lower x \<or> is_digit x \<or> x = CHR ''-'') cs)"

text \<open>\<^verbatim>\<open>/^[a-zA-Z0-9][a-zA-Z0-9_.+-]*$/\<close> with 1 to 64 characters.\<close>

definition valid_ffmpeg_option_value :: "string \<Rightarrow> bool" where
  "valid_ffmpeg_option_value s \<longleftrightarrow> 1 \<le> length s \<and> length s \<le> 64 \<and>
     (case s of [] \<Rightarrow> False
      | c # cs \<Rightarrow> is_alnum c \<and> list_all (\<lambda>x. is_alnum x \<or> x \<in> set ''_.+-'') cs)"

definition valid_pixel_format :: "string \<Rightarrow> bool" where
  "valid_pixel_format s \<longleftrightarrow> 1 \<le> length s \<and> length s \<le> 64 \<and>
     list_all (\<lambda>x. is_alnum x \<or> x = CHR ''_'') s"

text \<open>
  \<^verbatim>\<open>/^[a-zA-Z]{2,8}(?:[-_][a-zA-Z0-9]{2,8})?$/\<close> with 2 to 16 characters, on the trimmed
  value: the letters before the first separator, then an optional subtag.
\<close>

definition valid_language :: "string \<Rightarrow> bool" where
  "valid_language s \<longleftrightarrow> 2 \<le> length s \<and> length s \<le> 16 \<and>
     (let primary = takeWhile is_alpha s; rest = dropWhile is_alpha s
      in 2 \<le> length primary \<and> length primary \<le> 8 \<and>
         (case rest of [] \<Rightarrow> True
          | c # cs \<Rightarrow> c \<in> set ''-_'' \<and> 2 \<le> length cs \<and> length cs \<le> 8 \<and> list_all is_alnum cs))"

definition in_range :: "int \<Rightarrow> int \<Rightarrow> int \<Rightarrow> bool" where
  "in_range lo hi x \<longleftrightarrow> lo \<le> x \<and> x \<le> hi"

definition optional :: "('a \<Rightarrow> bool) \<Rightarrow> 'a option \<Rightarrow> bool" where
  "optional P x = (case x of None \<Rightarrow> True | Some v \<Rightarrow> P v)"

section \<open>Providers\<close>

datatype auth_mode = UserToken | ApiKey | Delegated

datatype provider_capability =
  CapSearch | CapHierarchy | CapMultipleVersions | CapActivityReporting | CapArtwork |
  CapExternalSubtitles | CapDirectSource

record provider_connection =
  prov_id :: ident
  prov_type :: string
  prov_name :: string
  prov_baseUrl :: string
  prov_authMode :: auth_mode
  prov_secretRef :: string
  prov_userId :: "string option"
  prov_username :: "string option"
  prov_serverName :: "string option"
  prov_serverVersion :: "string option"
  prov_capabilities :: "provider_capability list"
  prov_healthy :: bool
  prov_allowPublicHttp :: "bool option"
  prov_securityNotice :: "string option"
  prov_createdAt :: instant
  prov_updatedAt :: instant

record public_provider_connection =
  pub_id :: ident
  pub_type :: string
  pub_name :: string
  pub_baseUrl :: string
  pub_authMode :: auth_mode
  pub_userId :: "string option"
  pub_username :: "string option"
  pub_serverName :: "string option"
  pub_serverVersion :: "string option"
  pub_capabilities :: "provider_capability list"
  pub_healthy :: bool
  pub_securityNotice :: "string option"
  pub_createdAt :: instant
  pub_updatedAt :: instant

definition publicProvider :: "provider_connection \<Rightarrow> public_provider_connection" where
  "publicProvider p =
     \<lparr>pub_id = prov_id p, pub_type = prov_type p, pub_name = prov_name p,
      pub_baseUrl = prov_baseUrl p, pub_authMode = prov_authMode p,
      pub_userId = prov_userId p, pub_username = prov_username p,
      pub_serverName = prov_serverName p, pub_serverVersion = prov_serverVersion p,
      pub_capabilities = prov_capabilities p, pub_healthy = prov_healthy p,
      pub_securityNotice = prov_securityNotice p, pub_createdAt = prov_createdAt p,
      pub_updatedAt = prov_updatedAt p\<rparr>"

definition UNSAFE_PUBLIC_HTTP_SECURITY_NOTICE :: string where
  "UNSAFE_PUBLIC_HTTP_SECURITY_NOTICE = ''Unsafe public HTTP transport is enabled.''"

definition providerAllowsPublicHttp :: "provider_connection \<Rightarrow> bool" where
  "providerAllowsPublicHttp p =
     coalesce (prov_allowPublicHttp p)
       (prov_securityNotice p = Some UNSAFE_PUBLIC_HTTP_SECURITY_NOTICE)"

definition starts_with :: "string \<Rightarrow> string \<Rightarrow> bool" where
  "starts_with p s \<longleftrightarrow> take (length p) s = p"

definition valid_provider_connection :: "(string \<Rightarrow> bool) \<Rightarrow> provider_connection \<Rightarrow> bool" where
  "valid_provider_connection is_url p \<longleftrightarrow>
     1 \<le> length (prov_id p) \<and> valid_provider_type (prov_type p) \<and>
     1 \<le> length (prov_name p) \<and> length (prov_name p) \<le> 100 \<and>
     is_url (prov_baseUrl p) \<and>
     (starts_with ''http://'' (prov_baseUrl p) \<or> starts_with ''https://'' (prov_baseUrl p)) \<and>
     1 \<le> length (prov_secretRef p)"

record media_source_ref =
  src_providerId :: ident
  src_itemId :: ident
  src_versionId :: "ident option"
  src_sourceFingerprint :: "string option"
  src_audioTrackId :: "ident option"
  src_subtitleTrackId :: "ident option"

definition valid_media_source_ref :: "media_source_ref \<Rightarrow> bool" where
  "valid_media_source_ref s \<longleftrightarrow> 1 \<le> length (src_providerId s) \<and> 1 \<le> length (src_itemId s)"

section \<open>Profiles\<close>

datatype platform_mode = Universal | Pc | Quest | Dual

datatype compatibility_state = Experimental | Verified | Broken | Retired

datatype video_codec = H264 | H265 | AV1 | VideoCopy

datatype decode_mode =
  DecodeAuto | DecodeSoftware | VideoToolbox | D3d11va | Qsv | Vaapi | Cuda

record video_settings =
  vid_codec :: video_codec
  vid_decodeMode :: decode_mode
  vid_profile :: "string option"
  vid_level :: "string option"
  vid_pixelFormat :: string
  vid_width :: int
  vid_height :: int
  vid_frameRate :: int
  vid_bitrateKbps :: int
  vid_maxrateKbps :: int
  vid_bufferKbps :: int
  vid_quality :: "int option"
  vid_preset :: "string option"
  vid_tune :: "string option"
  vid_gop :: int
  vid_bFrames :: int

definition valid_video_settings :: "video_settings \<Rightarrow> bool" where
  "valid_video_settings v \<longleftrightarrow>
     optional valid_ffmpeg_option_value (vid_profile v) \<and>
     optional valid_ffmpeg_option_value (vid_level v) \<and>
     valid_pixel_format (vid_pixelFormat v) \<and>
     in_range 16 7680 (vid_width v) \<and> in_range 16 4320 (vid_height v) \<and>
     in_range 1 120 (vid_frameRate v) \<and> in_range 64 100000 (vid_bitrateKbps v) \<and>
     in_range 64 120000 (vid_maxrateKbps v) \<and> in_range 64 240000 (vid_bufferKbps v) \<and>
     optional (in_range 0 63) (vid_quality v) \<and>
     optional valid_ffmpeg_option_value (vid_preset v) \<and>
     optional valid_ffmpeg_option_value (vid_tune v) \<and>
     in_range 1 600 (vid_gop v) \<and> in_range 0 16 (vid_bFrames v)"

datatype audio_codec = Aac | Opus | Ac3 | AudioCopy

record audio_settings =
  aud_codec :: audio_codec
  aud_channels :: int
  aud_layout :: string
  aud_sampleRate :: int
  aud_bitrateKbps :: int
  aud_defaultLanguage :: "string option"

definition valid_audio_settings :: "audio_settings \<Rightarrow> bool" where
  "valid_audio_settings a \<longleftrightarrow>
     in_range 1 8 (aud_channels a) \<and> valid_ffmpeg_option_value (aud_layout a) \<and>
     in_range 8000 192000 (aud_sampleRate a) \<and> in_range 32 1536 (aud_bitrateKbps a) \<and>
     optional valid_language (aud_defaultLanguage a)"

datatype delivery_method = Hls | Rtsp | MpegtsHttp
datatype container = ContainerMpegts | ContainerFmp4 | ContainerMp4
datatype segment_type = SegMpegts | SegFmp4 | SegNone
datatype playlist_type = PlaylistVod | PlaylistEvent | PlaylistLive
datatype latency_mode = LatencyStandard | LatencyLow

record delivery_settings =
  del_method :: delivery_method
  del_container :: container
  del_segmentType :: segment_type
  del_segmentDuration :: rat
  del_playlistType :: playlist_type
  del_latencyMode :: latency_mode

definition valid_delivery_settings :: "delivery_settings \<Rightarrow> bool" where
  "valid_delivery_settings d \<longleftrightarrow> 1 \<le> del_segmentDuration d \<and> del_segmentDuration d \<le> 30"

datatype passthrough = PassNever | PassCompatible | PassAlways

record processing_settings =
  proc_toneMap :: bool
  proc_burnSubtitles :: bool
  proc_passthrough :: passthrough
  proc_maxWorkers :: int

definition valid_processing_settings :: "processing_settings \<Rightarrow> bool" where
  "valid_processing_settings p \<longleftrightarrow> in_range 1 32 (proc_maxWorkers p)"

record profile =
  prof_profileId :: ident
  prof_name :: string
  prof_description :: "string option"
  prof_platform :: platform_mode
  prof_state :: compatibility_state
  prof_video :: video_settings
  prof_audio :: audio_settings
  prof_delivery :: delivery_settings
  prof_processing :: processing_settings
  prof_disabledReason :: "string option"
  prof_createdAt :: instant
  prof_updatedAt :: instant

definition valid_profile :: "profile \<Rightarrow> bool" where
  "valid_profile p \<longleftrightarrow>
     1 \<le> length (prof_profileId p) \<and> 1 \<le> length (prof_name p) \<and> length (prof_name p) \<le> 120 \<and>
     optional (\<lambda>d. length d \<le> 500) (prof_description p) \<and>
     valid_video_settings (prof_video p) \<and> valid_audio_settings (prof_audio p) \<and>
     valid_delivery_settings (prof_delivery p) \<and> valid_processing_settings (prof_processing p)"

section \<open>Sessions, grants and live channels\<close>

datatype session_kind = Vod | Live

datatype placement_policy = PlaceLocal | PlaceHosted | PlaceAuto

datatype session_state =
  SessionIdle | SessionQueued | SessionStarting | SessionActive | SessionLive |
  SessionError | SessionStopped

record relay_session =
  ses_id :: ident
  ses_name :: string
  ses_kind :: session_kind
  ses_source :: "media_source_ref option"
  ses_liveChannelId :: "ident option"
  ses_profileId :: ident
  ses_platformMode :: platform_mode
  ses_state :: session_state
  ses_durationSeconds :: "rat option"
  ses_pinned :: bool
  ses_reportActivity :: bool
  ses_viewers :: int
  ses_placementPolicy :: placement_policy
  ses_assignedNodeId :: "ident option"
  ses_placementLocked :: bool
  ses_preferredRegion :: "string option"
  ses_ownerId :: "ident option"
  ses_lastPlaybackActivityAt :: "instant option"
  ses_deletionPending :: bool
  ses_outputUrls :: "(string \<times> string) list"
  ses_errorMessage :: "string option"
  ses_createdAt :: instant
  ses_updatedAt :: instant

definition valid_relay_session :: "(string \<Rightarrow> bool) \<Rightarrow> relay_session \<Rightarrow> bool" where
  "valid_relay_session is_url s \<longleftrightarrow>
     1 \<le> length (ses_id s) \<and> 1 \<le> length (ses_name s) \<and> length (ses_name s) \<le> 160 \<and>
     optional valid_media_source_ref (ses_source s) \<and>
     optional (\<lambda>d. 0 < d) (ses_durationSeconds s) \<and> 0 \<le> ses_viewers s \<and>
     optional (\<lambda>x. 1 \<le> length x) (ses_ownerId s) \<and>
     list_all (\<lambda>(_, u). is_url u) (ses_outputUrls s) \<and>
     (ses_kind s = Vod \<longrightarrow> ses_source s \<noteq> None \<and> ses_durationSeconds s \<noteq> None) \<and>
     (ses_kind s = Live \<longrightarrow> truthy (ses_liveChannelId s))"

record playback_grant =
  grant_tokenHash :: string
  grant_sessionId :: ident
  grant_expiresAt :: "instant option"
  grant_revokedAt :: "instant option"
  grant_createdAt :: instant

datatype publisher_state =
  PublisherOffline | PublisherOnline | PublisherReconnecting | PublisherError

record live_channel =
  chan_id :: ident
  chan_ownerId :: "ident option"
  chan_name :: string
  chan_path :: string
  chan_ingestPath :: "string option"
  chan_originNodeId :: "ident option"
  chan_region :: "string option"
  chan_normalizationProfileId :: "ident option"
  chan_normalize :: bool
  chan_publisherState :: publisher_state
  chan_publisherUpdatedAt :: "instant option"
  chan_publishTokenHash :: string
  chan_replacementPublishTokenHash :: "string option"
  chan_publisherReplacementRequestedAt :: "instant option"
  chan_rtmpUrl :: string
  chan_srtUrl :: string
  chan_whipUrl :: string
  chan_backupRtmpUrl :: "string option"
  chan_backupSrtUrl :: "string option"
  chan_createdAt :: instant

record public_live_channel =
  pchan_id :: ident
  pchan_name :: string
  pchan_path :: string
  pchan_ingestPath :: "string option"
  pchan_originNodeId :: "ident option"
  pchan_region :: "string option"
  pchan_normalizationProfileId :: "ident option"
  pchan_normalize :: bool
  pchan_publisherState :: publisher_state
  pchan_publisherUpdatedAt :: "instant option"
  pchan_publisherReplacementRequestedAt :: "instant option"
  pchan_rtmpUrl :: string
  pchan_srtUrl :: string
  pchan_whipUrl :: string
  pchan_backupRtmpUrl :: "string option"
  pchan_backupSrtUrl :: "string option"
  pchan_createdAt :: instant

definition publicLiveChannel :: "live_channel \<Rightarrow> public_live_channel" where
  "publicLiveChannel c =
     \<lparr>pchan_id = chan_id c, pchan_name = chan_name c, pchan_path = chan_path c,
      pchan_ingestPath = chan_ingestPath c, pchan_originNodeId = chan_originNodeId c,
      pchan_region = chan_region c,
      pchan_normalizationProfileId = chan_normalizationProfileId c,
      pchan_normalize = chan_normalize c, pchan_publisherState = chan_publisherState c,
      pchan_publisherUpdatedAt = chan_publisherUpdatedAt c,
      pchan_publisherReplacementRequestedAt = chan_publisherReplacementRequestedAt c,
      pchan_rtmpUrl = chan_rtmpUrl c, pchan_srtUrl = chan_srtUrl c,
      pchan_whipUrl = chan_whipUrl c, pchan_backupRtmpUrl = chan_backupRtmpUrl c,
      pchan_backupSrtUrl = chan_backupSrtUrl c, pchan_createdAt = chan_createdAt c\<rparr>"

section \<open>Cluster nodes, bindings and certificates\<close>

datatype node_role = RoleController | RoleSourceWorker | RoleIngestOrigin | RoleEdge

datatype node_state =
  NodeJoining | NodeOnline | NodeDegraded | NodeDraining | NodeOffline | NodeRevoked

record node_capability =
  cap_encoders :: "string list"
  cap_videoCodecs :: "video_codec list option"
  cap_hardwareDevices :: "string list"
  cap_maxWorkers :: int
  cap_activeWorkers :: int
  cap_queuedWorkers :: int
  cap_cacheBytes :: int
  cap_cacheLimitBytes :: "int option"
  cap_egressMbps :: rat
  cap_providerIds :: "ident list"
  cap_vodProducerVersion :: "int option"

definition valid_node_capability :: "node_capability \<Rightarrow> bool" where
  "valid_node_capability c \<longleftrightarrow>
     0 \<le> cap_maxWorkers c \<and> 0 \<le> cap_activeWorkers c \<and> 0 \<le> cap_queuedWorkers c \<and>
     0 \<le> cap_cacheBytes c \<and> optional (\<lambda>l. 0 \<le> l) (cap_cacheLimitBytes c) \<and>
     0 \<le> cap_egressMbps c \<and>
     (case cap_vodProducerVersion c of None \<Rightarrow> False | Some v \<Rightarrow> 0 \<le> v)"

record cluster_node =
  node_id :: ident
  node_name :: string
  node_roles :: "node_role list"
  node_region :: string
  node_publicUrl :: string
  node_internalUrl :: "string option"
  node_state :: node_state
  node_capabilities :: node_capability
  node_weight :: int
  node_certificateExpiresAt :: "instant option"
  node_lastHeartbeatAt :: instant
  node_createdAt :: instant
  node_updatedAt :: instant

definition valid_cluster_node :: "(string \<Rightarrow> bool) \<Rightarrow> cluster_node \<Rightarrow> bool" where
  "valid_cluster_node is_http_url n \<longleftrightarrow>
     1 \<le> length (node_id n) \<and> 1 \<le> length (node_name n) \<and> length (node_name n) \<le> 120 \<and>
     1 \<le> length (node_roles n) \<and> 1 \<le> length (node_region n) \<and> length (node_region n) \<le> 80 \<and>
     is_http_url (node_publicUrl n) \<and> optional is_http_url (node_internalUrl n) \<and>
     valid_node_capability (node_capabilities n) \<and> in_range 1 100 (node_weight n)"

datatype binding_state = BindingPending | BindingHealthy | BindingDegraded | BindingRevoked

record provider_binding =
  bind_id :: ident
  bind_providerId :: ident
  bind_nodeId :: ident
  bind_secretRef :: string
  bind_reachable :: bool
  bind_state :: binding_state
  bind_deletionPending :: bool
  bind_lastError :: "string option"
  bind_validatedAt :: "instant option"
  bind_createdAt :: instant
  bind_updatedAt :: instant

record public_provider_binding =
  pbind_id :: ident
  pbind_providerId :: ident
  pbind_nodeId :: ident
  pbind_reachable :: bool
  pbind_state :: binding_state
  pbind_deletionPending :: bool
  pbind_lastError :: "string option"
  pbind_validatedAt :: "instant option"
  pbind_createdAt :: instant
  pbind_updatedAt :: instant

definition publicProviderBinding :: "provider_binding \<Rightarrow> public_provider_binding" where
  "publicProviderBinding b =
     \<lparr>pbind_id = bind_id b, pbind_providerId = bind_providerId b, pbind_nodeId = bind_nodeId b,
      pbind_reachable = bind_reachable b, pbind_state = bind_state b,
      pbind_deletionPending = bind_deletionPending b, pbind_lastError = bind_lastError b,
      pbind_validatedAt = bind_validatedAt b, pbind_createdAt = bind_createdAt b,
      pbind_updatedAt = bind_updatedAt b\<rparr>"

record node_certificate =
  cert_nodeId :: ident
  cert_serialNumber :: string
  cert_fingerprintSha256 :: string
  cert_expiresAt :: instant
  cert_revokedAt :: "instant option"
  cert_createdAt :: instant

section \<open>Segment jobs and VOD producers\<close>

datatype job_state =
  JobQueued | JobLeased | JobRunning | JobComplete | JobFailed | JobCancelled

datatype attempt_state = AttemptRunning | AttemptComplete | AttemptFailed | AttemptCancelled

record segment_job_attempt =
  jatt_attempt :: nat
  jatt_nodeId :: ident
  jatt_state :: attempt_state
  jatt_startedAt :: instant
  jatt_completedAt :: "instant option"
  jatt_errorMessage :: "string option"

record segment_job =
  job_id :: ident
  job_contentKey :: string
  job_sessionId :: ident
  job_segmentIndex :: nat
  job_state :: job_state
  job_attempts :: nat
  job_ownerNodeId :: "ident option"
  job_leaseExpiresAt :: "instant option"
  job_startedAt :: "instant option"
  job_completedAt :: "instant option"
  job_errorMessage :: "string option"
  job_workerHistory :: "segment_job_attempt list"
  job_createdAt :: instant
  job_updatedAt :: instant

datatype producer_state =
  ProducerIdle | ProducerStarting | ProducerRunning | ProducerSwitching | ProducerComplete |
  ProducerFailed | ProducerCancelled

datatype buffer_state = CatchingUp | Buffered

record producer_attempt =
  patt_generation :: nat
  patt_nodeId :: ident
  patt_state :: attempt_state
  patt_startSegmentIndex :: int
  patt_startedAt :: instant
  patt_completedAt :: "instant option"
  patt_errorMessage :: "string option"

record vod_producer =
  prod_id :: ident
  prod_sessionId :: ident
  prod_ownerNodeId :: "ident option"
  prod_generation :: nat
  prod_state :: producer_state
  prod_demandedSegmentIndex :: int
  prod_startSegmentIndex :: int
  prod_playbackAnchorSegmentIndex :: "int option"
  prod_playbackAnchorAt :: "instant option"
  prod_lastPublishedSegmentIndex :: "int option"
  prod_bufferState :: "buffer_state option"
  prod_leaseExpiresAt :: "instant option"
  prod_lastDemandAt :: instant
  prod_idleDeadlineAt :: "instant option"
  prod_errorMessage :: "string option"
  prod_workerHistory :: "producer_attempt list"
  prod_createdAt :: instant
  prod_updatedAt :: instant

section \<open>Logs, users and tokens\<close>

datatype log_level = LogDebug | LogInfo | LogWarn | LogError

text \<open>A JSON value; the source types it \<^verbatim>\<open>unknown\<close>.\<close>

datatype json =
    JNull
  | JBool bool
  | JNumber rat
  | JString string
  | JArray "json list"
  | JObject "(string \<times> json) list"

record job_log_entry =
  jlog_id :: ident
  jlog_jobId :: ident
  jlog_sessionId :: "ident option"
  jlog_nodeId :: "ident option"
  jlog_level :: log_level
  jlog_message :: string
  jlog_context :: "(string \<times> json) list"
  jlog_timestamp :: instant

record agent_log_entry =
  alog_id :: ident
  alog_nodeId :: ident
  alog_level :: log_level
  alog_message :: string
  alog_context :: "(string \<times> json) list"
  alog_timestamp :: instant

record edge_route =
  route_sessionId :: ident
  route_nodeId :: ident
  route_publicUrl :: string
  route_reason :: string
  route_expiresAt :: instant

datatype scope = CatalogRead | SessionsCreate | SessionsRead | SessionsControl | ScopeAdmin

datatype user_role = RoleUser | RoleOperator | RoleAdmin | RoleOwner

record user_identity =
  user_id :: ident
  user_providerId :: ident
  user_providerUserId :: ident
  user_displayName :: string
  user_roles :: "user_role list"
  user_defaultProfileId :: "ident option"
  user_allowedProfileIds :: "ident list"
  user_firstSeenAt :: instant
  user_lastSeenAt :: instant

record personal_access_token =
  tok_id :: ident
  tok_name :: string
  tok_tokenHash :: string
  tok_scopes :: "scope list"
  tok_expiresAt :: "instant option"
  tok_lastUsedAt :: "instant option"
  tok_revokedAt :: "instant option"
  tok_createdAt :: instant

section \<open>Public views leak no secret\<close>

lemma publicProvider_ignores_secret:
  "publicProvider (p\<lparr>prov_secretRef := x, prov_allowPublicHttp := y\<rparr>) = publicProvider p"
  by (simp add: publicProvider_def)

lemma publicLiveChannel_ignores_secret:
  "publicLiveChannel (c\<lparr>chan_ownerId := o', chan_publishTokenHash := x,
     chan_replacementPublishTokenHash := y\<rparr>) = publicLiveChannel c"
  by (simp add: publicLiveChannel_def)

lemma publicProviderBinding_ignores_secret:
  "publicProviderBinding (b\<lparr>bind_secretRef := x\<rparr>) = publicProviderBinding b"
  by (simp add: publicProviderBinding_def)

end
