(* ===== verification/RelayRepoCore.thy ===== *)
theory RelayRepoCore
  imports RelayTable RelayDomain
begin

text \<open>
  The repository of \<^verbatim>\<open>packages/adapters/src/sqlite-repository.ts\<close>: the database state
  and the operations on providers, profiles, sessions, playback grants, live channels,
  personal tokens, user identities and settings. Each operation is one
  transaction: it maps the database to the new one and the result the promise settles
  with; an exception rolls the transaction back. The columns that repeat a field of the
  document are read from the document where every statement keeps them equal; the
  columns of the unique index of \<^verbatim>\<open>user_identities\<close>, which the updates do not touch, are
  kept apart in \<open>db_user_columns\<close>.
\<close>

section \<open>The database\<close>

record db =
  db_providers :: "provider_connection table"
  db_profiles :: "profile table"
  db_sessions :: "relay_session table"
  db_grants :: "playback_grant table"
  db_channels :: "live_channel table"
  db_tokens :: "personal_access_token table"
  db_users :: "user_identity table"
  db_user_columns :: "(ident \<times> (ident \<times> ident)) list"
  db_settings :: "string table"
  db_nodes :: "cluster_node table"
  db_jobs :: "segment_job table"
  db_producers :: "vod_producer table"
  db_bindings :: "provider_binding table"
  db_certs :: "node_certificate table"
  db_agent_logs :: "agent_log_entry table"
  db_job_logs :: "job_log_entry table"

definition empty_db :: db where
  "empty_db =
     \<lparr>db_providers = [], db_profiles = [], db_sessions = [], db_grants = [], db_channels = [],
      db_tokens = [], db_users = [], db_user_columns = [], db_settings = [], db_nodes = [],
      db_jobs = [], db_producers = [], db_bindings = [], db_certs = [], db_agent_logs = [],
      db_job_logs = []\<rparr>"

record 'a stored =
  st_value :: 'a
  st_revision :: nat
  st_pending :: bool

definition clamp_limit :: "int \<Rightarrow> int" where
  "clamp_limit n = max 1 (min 1000 n)"

section \<open>Providers\<close>

definition getStoredProvider :: "db \<Rightarrow> ident \<Rightarrow> provider_connection stored option" where
  "getStoredProvider d i =
     map_option
       (\<lambda>r. \<lparr>st_value = row_json r, st_revision = row_revision r, st_pending = row_pending r\<rparr>)
       (map_of (db_providers d) i)"

definition providerDependencies :: "db \<Rightarrow> ident \<Rightarrow> string list" where
  "providerDependencies d i =
     map (\<lambda>k. ''session:'' @ k)
       (sort (map fst (filter (\<lambda>(_, r). map_option src_providerId (ses_source (row_json r)) = Some i)
                         (db_sessions d)))) @
     map (\<lambda>k. ''binding:'' @ k)
       (sort (map fst (filter (\<lambda>(_, r). bind_providerId (row_json r) = i) (db_bindings d))))"

definition createProvider ::
    "db \<Rightarrow> provider_connection \<Rightarrow> db \<times> provider_connection versioned outcome" where
  "createProvider d p =
     (case sql_insert (db_providers d) (prov_id p) (fresh_row p (prov_updatedAt p)) of
        None \<Rightarrow> (d, throw PlainError)
      | Some t \<Rightarrow> (d\<lparr>db_providers := t\<rparr>, resolve (versioned p 1)))"

definition listProviders :: "db \<Rightarrow> provider_connection list" where
  "listProviders d =
     jsons (order_desc (\<lambda>p. row_date (snd p)) (filter (\<lambda>(_, r). \<not> row_pending r) (db_providers d)))"

definition getProvider :: "db \<Rightarrow> ident \<Rightarrow> provider_connection option" where
  "getProvider d i =
     (case getStoredProvider d i of
        None \<Rightarrow> None
      | Some c \<Rightarrow> if st_pending c then None else Some (st_value c))"

definition getVersionedProvider :: "db \<Rightarrow> ident \<Rightarrow> provider_connection versioned option" where
  "getVersionedProvider d i =
     (case getStoredProvider d i of
        None \<Rightarrow> None
      | Some c \<Rightarrow> if st_pending c then None else Some (versioned (st_value c) (st_revision c)))"

definition compareAndSetProvider ::
    "db \<Rightarrow> provider_connection \<Rightarrow> nat \<Rightarrow> db \<times> provider_connection write_result" where
  "compareAndSetProvider d p expected =
     (let (t, changes) =
            sql_update (db_providers d)
              (\<lambda>k r. k = prov_id p \<and> row_revision r = expected \<and> \<not> row_pending r)
              (bump_row p (prov_updatedAt p));
          d' = d\<lparr>db_providers := t\<rparr>
      in if changes = 1 then (d', Applied (versioned p (expected + 1)))
         else (d',
           case getStoredProvider d' (prov_id p) of
             None \<Rightarrow> Rejected NotFound None []
           | Some c \<Rightarrow>
               let record = versioned (st_value c) (st_revision c)
               in if st_revision c \<noteq> expected then Rejected RevisionConflict (Some record) []
                  else Rejected InvalidState (Some record) []))"

definition beginProviderDeletion ::
    "db \<Rightarrow> ident \<Rightarrow> db \<times> provider_connection write_result outcome" where
  "beginProviderDeletion d i =
     (case getStoredProvider d i of
        None \<Rightarrow> (d, resolve (Rejected NotFound None []))
      | Some c \<Rightarrow>
          let record = versioned (st_value c) (st_revision c);
              deps = providerDependencies d i
          in if st_pending c then (d, resolve (Applied record))
             else if deps \<noteq> [] then (d, resolve (Rejected DependencyConflict (Some record) deps))
             else
               let (t, changes) =
                     sql_update (db_providers d)
                       (\<lambda>k r. k = i \<and> row_revision r = st_revision c \<and> \<not> row_pending r)
                       (\<lambda>r. r\<lparr>row_pending := True, row_revision := row_revision r + 1\<rparr>)
               in if changes \<noteq> 1 then (d, throw PlainError)
                  else (d\<lparr>db_providers := t\<rparr>,
                        resolve (Applied (versioned (st_value c) (st_revision c + 1)))))"

datatype 'a delete_result =
    Deleted "'a versioned"
  | NotDeleted failure_reason "'a versioned option" "string list"

definition finalizeProviderDeletion ::
    "db \<Rightarrow> ident \<Rightarrow> nat \<Rightarrow> db \<times> provider_connection delete_result outcome" where
  "finalizeProviderDeletion d i expected =
     (case getStoredProvider d i of
        None \<Rightarrow> (d, resolve (NotDeleted NotFound None []))
      | Some c \<Rightarrow>
          let record = versioned (st_value c) (st_revision c);
              deps = providerDependencies d i
          in if st_revision c \<noteq> expected
             then (d, resolve (NotDeleted RevisionConflict (Some record) []))
             else if \<not> st_pending c then (d, resolve (NotDeleted InvalidState (Some record) []))
             else if deps \<noteq> [] then (d, resolve (NotDeleted DependencyConflict (Some record) deps))
             else
               let (t, changes) =
                     sql_delete (db_providers d)
                       (\<lambda>k r. k = i \<and> row_revision r = expected \<and> row_pending r)
               in if changes \<noteq> 1 then (d, throw PlainError)
                  else (d\<lparr>db_providers := t\<rparr>, resolve (Deleted record)))"

section \<open>Profiles\<close>

definition putProfile :: "db \<Rightarrow> profile \<Rightarrow> db" where
  "putProfile d p =
     d\<lparr>db_profiles :=
         sql_upsert (db_profiles d) (prof_profileId p) (fresh_row p (prof_updatedAt p))
           (\<lambda>r. r\<lparr>row_json := p, row_date := prof_updatedAt p\<rparr>)\<rparr>"

definition deleteProfile :: "db \<Rightarrow> ident \<Rightarrow> db" where
  "deleteProfile d i = d\<lparr>db_profiles := fst (sql_delete (db_profiles d) (\<lambda>k _. k = i))\<rparr>"

definition listProfiles :: "db \<Rightarrow> profile list" where
  "listProfiles d = map (\<lambda>p. row_json (snd p)) (sort_key fst (db_profiles d))"

definition getProfile :: "db \<Rightarrow> ident \<Rightarrow> profile option" where
  "getProfile d i = get_json (db_profiles d) i"

section \<open>Sessions and playback grants\<close>

definition sameMediaSource :: "media_source_ref option \<Rightarrow> media_source_ref option \<Rightarrow> bool" where
  "sameMediaSource a b =
     (case (a, b) of
        (Some x, Some y) \<Rightarrow>
          src_providerId x = src_providerId y \<and> src_itemId x = src_itemId y \<and>
          src_versionId x = src_versionId y \<and> src_sourceFingerprint x = src_sourceFingerprint y \<and>
          src_audioTrackId x = src_audioTrackId y \<and> src_subtitleTrackId x = src_subtitleTrackId y
      | (None, None) \<Rightarrow> True
      | _ \<Rightarrow> False)"

definition sameSessionIdentity :: "relay_session \<Rightarrow> relay_session \<Rightarrow> bool" where
  "sameSessionIdentity a b \<longleftrightarrow>
     ses_id a = ses_id b \<and> ses_kind a = ses_kind b \<and>
     sameMediaSource (ses_source a) (ses_source b) \<and>
     ses_liveChannelId a = ses_liveChannelId b \<and> ses_profileId a = ses_profileId b \<and>
     ses_platformMode a = ses_platformMode b \<and>
     ses_durationSeconds a = ses_durationSeconds b \<and> ses_createdAt a = ses_createdAt b"

definition insert_session_and_grant ::
    "db \<Rightarrow> relay_session \<Rightarrow> playback_grant \<Rightarrow> db \<times> relay_session write_result outcome" where
  "insert_session_and_grant d s g =
     (case sql_insert (db_grants d) (grant_tokenHash g) (fresh_row g (grant_createdAt g)) of
        None \<Rightarrow> (d, throw PlainError)
      | Some gt \<Rightarrow>
          (case sql_insert (db_sessions d) (ses_id s) (fresh_row s (ses_updatedAt s)) of
             None \<Rightarrow> (d, throw PlainError)
           | Some st \<Rightarrow>
               (d\<lparr>db_grants := gt, db_sessions := st\<rparr>, resolve (Applied (versioned s 1)))))"

definition createSessionWithPlaybackGrant ::
    "db \<Rightarrow> relay_session \<Rightarrow> playback_grant \<Rightarrow> nat option \<Rightarrow> db \<times> relay_session write_result outcome"
  where
  "createSessionWithPlaybackGrant d s g expectedLiveChannelRevision =
     (if grant_sessionId g \<noteq> ses_id s then (d, throw PlainError)
      else if truthy (ses_ownerId s) \<and> map_of (db_users d) (the (ses_ownerId s)) = None
      then (d, resolve (Rejected NotFound None []))
      else case ses_kind s of
        Vod \<Rightarrow>
          (if \<not> truthy (map_option src_providerId (ses_source s)) then (d, throw PlainError)
           else case getStoredProvider d (src_providerId (the (ses_source s))) of
             None \<Rightarrow> (d, resolve (Rejected NotFound None []))
           | Some p \<Rightarrow>
               if st_pending p then (d, resolve (Rejected InvalidState None []))
               else insert_session_and_grant d s g)
      | Live \<Rightarrow>
          (if \<not> truthy (ses_liveChannelId s) \<or> expectedLiveChannelRevision = None
           then (d, throw PlainError)
           else case get_versioned (db_channels d) (the (ses_liveChannelId s)) of
             None \<Rightarrow> (d, resolve (Rejected NotFound None []))
           | Some c \<Rightarrow>
               if Some (vr_revision c) \<noteq> expectedLiveChannelRevision
               then (d, resolve (Rejected RevisionConflict None []))
               else insert_session_and_grant d s g))"

definition listSessions :: "db \<Rightarrow> relay_session list" where
  "listSessions d = jsons (order_desc (\<lambda>p. row_date (snd p)) (db_sessions d))"

definition getSession :: "db \<Rightarrow> ident \<Rightarrow> relay_session option" where
  "getSession d i = get_json (db_sessions d) i"

definition getVersionedSession :: "db \<Rightarrow> ident \<Rightarrow> relay_session versioned option" where
  "getVersionedSession d i = get_versioned (db_sessions d) i"

definition compareAndSetSession ::
    "db \<Rightarrow> relay_session \<Rightarrow> nat \<Rightarrow> db \<times> relay_session write_result" where
  "compareAndSetSession d s expected =
     (case getVersionedSession d (ses_id s) of
        None \<Rightarrow> (d, Rejected NotFound None [])
      | Some c \<Rightarrow>
          if vr_revision c \<noteq> expected then (d, Rejected RevisionConflict (Some c) [])
          else if \<not> sameSessionIdentity (vr_value c) s
          then (d, Rejected InvalidState (Some c) [])
          else
            let (t, res) = compare_and_set_versioned (\<lambda>_. ()) (db_sessions d) (ses_id s) s
                             (ses_updatedAt s) expected []
            in (d\<lparr>db_sessions := t\<rparr>, res))"

definition setSessionViewers ::
    "db \<Rightarrow> ident \<Rightarrow> nat \<Rightarrow> int \<Rightarrow> instant \<Rightarrow> db \<times> relay_session write_result outcome" where
  "setSessionViewers d i expected viewers updatedAt =
     (if viewers < 0 then (d, throw PlainError)
      else case getVersionedSession d i of
        None \<Rightarrow> (d, resolve (Rejected NotFound None []))
      | Some c \<Rightarrow>
          if vr_revision c \<noteq> expected then (d, resolve (Rejected RevisionConflict (Some c) []))
          else
            let (d', res) = compareAndSetSession d
                  ((vr_value c)\<lparr>ses_viewers := viewers, ses_updatedAt := updatedAt\<rparr>) expected
            in (d', resolve res))"

definition playback_activity :: "relay_session \<Rightarrow> instant" where
  "playback_activity s = coalesce (ses_lastPlaybackActivityAt s) (ses_createdAt s)"

definition touchSessionPlaybackActivity ::
    "db \<Rightarrow> ident \<Rightarrow> instant \<Rightarrow> instant \<Rightarrow> db \<times> bool" where
  "touchSessionPlaybackActivity d i observedAt touchBefore =
     (let (t, changes) =
            sql_update (db_sessions d)
              (\<lambda>k r. k = i \<and> \<not> ses_deletionPending (row_json r) \<and>
                     playback_activity (row_json r) \<le> touchBefore)
              (\<lambda>r. r\<lparr>row_json := (row_json r)\<lparr>ses_lastPlaybackActivityAt := Some observedAt\<rparr>,
                     row_revision := row_revision r + 1\<rparr>)
      in (d\<lparr>db_sessions := t\<rparr>, changes = 1))"

definition listInactiveSessions :: "db \<Rightarrow> instant \<Rightarrow> int \<Rightarrow> relay_session list" where
  "listInactiveSessions d inactiveBefore limit =
     sql_limit (clamp_limit limit)
       (jsons (order_asc (\<lambda>p. playback_activity (row_json (snd p)))
         (filter (\<lambda>(_, r). \<not> ses_pinned (row_json r) \<and> \<not> ses_deletionPending (row_json r) \<and>
                           playback_activity (row_json r) \<le> inactiveBefore) (db_sessions d))))"

definition listSessionDeletionPending :: "db \<Rightarrow> int \<Rightarrow> relay_session list" where
  "listSessionDeletionPending d limit =
     sql_limit (clamp_limit limit)
       (jsons (order_asc (\<lambda>p. row_date (snd p))
         (filter (\<lambda>(_, r). ses_deletionPending (row_json r)) (db_sessions d))))"

definition revokePlaybackGrants :: "db \<Rightarrow> ident \<Rightarrow> instant \<Rightarrow> db" where
  "revokePlaybackGrants d sessionId revokedAt =
     d\<lparr>db_grants := fst (sql_update (db_grants d)
         (\<lambda>_ r. grant_sessionId (row_json r) = sessionId \<and> grant_revokedAt (row_json r) = None)
         (\<lambda>r. r\<lparr>row_json := (row_json r)\<lparr>grant_revokedAt := Some revokedAt\<rparr>\<rparr>))\<rparr>"

record session_deletion_options =
  sdo_observedAt :: instant
  sdo_inactiveBefore :: "instant option"
  sdo_requireUnpinned :: bool

definition beginSessionDeletion ::
    "db \<Rightarrow> ident \<Rightarrow> session_deletion_options \<Rightarrow> db \<times> relay_session write_result outcome" where
  "beginSessionDeletion d i opts =
     (case getVersionedSession d i of
        None \<Rightarrow> (d, resolve (Rejected NotFound None []))
      | Some c \<Rightarrow>
          if ses_deletionPending (vr_value c) then (d, resolve (Rejected InvalidState (Some c) []))
          else if sdo_requireUnpinned opts \<and> ses_pinned (vr_value c)
          then (d, resolve (Rejected InvalidState (Some c) []))
          else if (case sdo_inactiveBefore opts of None \<Rightarrow> False
                   | Some limit \<Rightarrow> limit < playback_activity (vr_value c))
          then (d, resolve (Rejected InvalidState (Some c) []))
          else
            let v = (vr_value c)\<lparr>ses_state := SessionStopped, ses_deletionPending := True,
                                 ses_updatedAt := sdo_observedAt opts\<rparr>;
                (t, changes) =
                  sql_update (db_sessions d)
                    (\<lambda>k r. k = i \<and> row_revision r = vr_revision c) (bump_row v (ses_updatedAt v))
            in if changes \<noteq> 1 then (d, throw PlainError)
               else (revokePlaybackGrants (d\<lparr>db_sessions := t\<rparr>) i (sdo_observedAt opts),
                     resolve (Applied (versioned v (vr_revision c + 1)))))"

definition deleteSessionAndRevokePlaybackGrants :: "db \<Rightarrow> ident \<Rightarrow> instant \<Rightarrow> db" where
  "deleteSessionAndRevokePlaybackGrants d i revokedAt =
     (let d' = revokePlaybackGrants d i revokedAt
      in d'\<lparr>db_sessions := fst (sql_delete (db_sessions d') (\<lambda>k _. k = i))\<rparr>)"

definition getPlaybackGrant :: "db \<Rightarrow> string \<Rightarrow> playback_grant option" where
  "getPlaybackGrant d h = get_json (db_grants d) h"

section \<open>Live channels\<close>

definition createLiveChannel :: "db \<Rightarrow> live_channel \<Rightarrow> db \<times> live_channel versioned outcome" where
  "createLiveChannel d c =
     (case sql_insert (db_channels d) (chan_id c) (fresh_row c (chan_createdAt c)) of
        None \<Rightarrow> (d, throw PlainError)
      | Some t \<Rightarrow> (d\<lparr>db_channels := t\<rparr>, resolve (versioned c 1)))"

datatype capacity_reason = InstallationLimit | OwnerLimit | OwnerNotFound

definition createLiveChannelWithinCapacity ::
    "db \<Rightarrow> live_channel \<Rightarrow> nat \<Rightarrow> nat \<Rightarrow> db \<times> (capacity_reason + live_channel versioned) outcome"
  where
  "createLiveChannelWithinCapacity d c maxTotal maxPerOwner =
     (if maxTotal \<le> length (db_channels d) then (d, resolve (Inl InstallationLimit))
      else if truthy (chan_ownerId c) \<and> map_of (db_users d) (the (chan_ownerId c)) = None
      then (d, resolve (Inl OwnerNotFound))
      else if truthy (chan_ownerId c) \<and>
              maxPerOwner \<le> length (filter (\<lambda>(_, r). chan_ownerId (row_json r) = chan_ownerId c)
                                     (db_channels d))
      then (d, resolve (Inl OwnerLimit))
      else case sql_insert (db_channels d) (chan_id c) (fresh_row c (chan_createdAt c)) of
        None \<Rightarrow> (d, throw PlainError)
      | Some t \<Rightarrow> (d\<lparr>db_channels := t\<rparr>, resolve (Inr (versioned c 1))))"

definition listLiveChannels :: "db \<Rightarrow> live_channel list" where
  "listLiveChannels d = jsons (order_desc (\<lambda>p. row_date (snd p)) (db_channels d))"

definition getLiveChannel :: "db \<Rightarrow> ident \<Rightarrow> live_channel option" where
  "getLiveChannel d i = get_json (db_channels d) i"

definition getVersionedLiveChannel :: "db \<Rightarrow> ident \<Rightarrow> live_channel versioned option" where
  "getVersionedLiveChannel d i = get_versioned (db_channels d) i"

definition compareAndSetLiveChannel ::
    "db \<Rightarrow> live_channel \<Rightarrow> nat \<Rightarrow> db \<times> live_channel write_result" where
  "compareAndSetLiveChannel d c expected =
     (let (t, res) = compare_and_set_versioned (\<lambda>_. ()) (db_channels d) (chan_id c) c
                       (chan_createdAt c) expected []
      in (d\<lparr>db_channels := t\<rparr>, res))"

definition deleteLiveChannel ::
    "db \<Rightarrow> ident \<Rightarrow> nat \<Rightarrow> db \<times> live_channel write_result outcome" where
  "deleteLiveChannel d i expected =
     (case getVersionedLiveChannel d i of
        None \<Rightarrow> (d, resolve (Rejected NotFound None []))
      | Some c \<Rightarrow>
          if vr_revision c \<noteq> expected then (d, resolve (Rejected RevisionConflict (Some c) []))
          else if chan_publisherState (vr_value c) \<noteq> PublisherOffline
          then (d, resolve (Rejected InvalidState (Some c) []))
          else if \<exists>p \<in> set (db_sessions d). ses_liveChannelId (row_json (snd p)) = Some i
          then (d, resolve (Rejected InvalidState (Some c) []))
          else
            let (t, changes) = sql_delete (db_channels d) (\<lambda>k r. k = i \<and> row_revision r = expected)
            in if changes \<noteq> 1 then (d, throw PlainError)
               else (d\<lparr>db_channels := t\<rparr>, resolve (Applied c)))"

end
