(* ===== verification/RelayRepoAccess.thy ===== *)
theory RelayRepoAccess
  imports RelayRepoCore
begin

text \<open>
  The operations of \<^verbatim>\<open>packages/adapters/src/sqlite-repository.ts\<close> on personal access
  tokens, user identities and settings. An update that would leave the installation
  without an owner is refused by the two \<open>PreservingOwner\<close> transactions.
\<close>

section \<open>Personal access tokens\<close>

text \<open>\<^verbatim>\<open>token_hash\<close> is unique: an upsert that would repeat another token's hash fails.\<close>

definition putPersonalToken :: "db \<Rightarrow> personal_access_token \<Rightarrow> db outcome" where
  "putPersonalToken d t =
     (if \<exists>p \<in> set (db_tokens d). fst p \<noteq> tok_id t \<and> tok_tokenHash (row_json (snd p)) = tok_tokenHash t
      then throw PlainError
      else resolve (d\<lparr>db_tokens :=
             sql_upsert (db_tokens d) (tok_id t) (fresh_row t (tok_createdAt t))
               (\<lambda>r. r\<lparr>row_json := t\<rparr>)\<rparr>))"

definition find_token :: "db \<Rightarrow> string \<Rightarrow> personal_access_token option" where
  "find_token d h =
     js_first (jsons (filter (\<lambda>(_, r). tok_tokenHash (row_json r) = h) (db_tokens d)))"

definition getPersonalToken :: "db \<Rightarrow> string \<Rightarrow> personal_access_token option" where
  "getPersonalToken d h = find_token d h"

record personal_token_use =
  ptu_tokenHash :: string
  ptu_usedAt :: instant
  ptu_touchBefore :: instant

definition token_usable :: "personal_token_use \<Rightarrow> personal_access_token \<Rightarrow> bool" where
  "token_usable u t \<longleftrightarrow>
     tok_tokenHash t = ptu_tokenHash u \<and> tok_revokedAt t = None \<and>
     (case tok_expiresAt t of None \<Rightarrow> True | Some e \<Rightarrow> ptu_usedAt u < e)"

definition touch_token :: "personal_token_use \<Rightarrow> personal_access_token \<Rightarrow> personal_access_token" where
  "touch_token u t =
     (if (case tok_lastUsedAt t of None \<Rightarrow> True | Some l \<Rightarrow> l \<le> ptu_touchBefore u)
      then t\<lparr>tok_lastUsedAt := Some (ptu_usedAt u)\<rparr> else t)"

definition usePersonalToken ::
    "db \<Rightarrow> personal_token_use \<Rightarrow> db \<times> personal_access_token option" where
  "usePersonalToken d u =
     (let hits = filter (\<lambda>(_, r). token_usable u (row_json r)) (db_tokens d);
          t = fst (sql_update (db_tokens d) (\<lambda>_ r. token_usable u (row_json r))
                (\<lambda>r. r\<lparr>row_json := touch_token u (row_json r)\<rparr>))
      in (d\<lparr>db_tokens := t\<rparr>, map_option (touch_token u) (js_first (jsons hits))))"

definition listPersonalTokens :: "db \<Rightarrow> personal_access_token list" where
  "listPersonalTokens d = jsons (order_desc (\<lambda>p. row_date (snd p)) (db_tokens d))"

definition revokePersonalToken :: "db \<Rightarrow> ident \<Rightarrow> instant \<Rightarrow> db" where
  "revokePersonalToken d i revokedAt =
     d\<lparr>db_tokens := fst (sql_update (db_tokens d)
         (\<lambda>k r. k = i \<and> tok_revokedAt (row_json r) = None)
         (\<lambda>r. r\<lparr>row_json := (row_json r)\<lparr>tok_revokedAt := Some revokedAt\<rparr>\<rparr>))\<rparr>"

section \<open>User identities\<close>

definition createUserIdentity ::
    "db \<Rightarrow> user_identity \<Rightarrow> db \<times> user_identity versioned outcome" where
  "createUserIdentity d u =
     (if (user_providerId u, user_providerUserId u) \<in> snd ` set (db_user_columns d)
      then (d, throw PlainError)
      else case sql_insert (db_users d) (user_id u) (fresh_row u (user_lastSeenAt u)) of
        None \<Rightarrow> (d, throw PlainError)
      | Some t \<Rightarrow>
          (d\<lparr>db_users := t,
             db_user_columns := (user_id u, (user_providerId u, user_providerUserId u))
                                # db_user_columns d\<rparr>,
           resolve (versioned u 1)))"

definition versioned_rows :: "'a table \<Rightarrow> 'a versioned list" where
  "versioned_rows t = map (\<lambda>p. versioned (row_json (snd p)) (row_revision (snd p))) t"

definition listUserIdentities :: "db \<Rightarrow> user_identity versioned list" where
  "listUserIdentities d = versioned_rows (order_desc (\<lambda>p. row_date (snd p)) (db_users d))"

definition getUserIdentity :: "db \<Rightarrow> ident \<Rightarrow> user_identity versioned option" where
  "getUserIdentity d i = get_versioned (db_users d) i"

definition compareAndSetUserIdentity ::
    "db \<Rightarrow> user_identity \<Rightarrow> nat \<Rightarrow> db \<times> user_identity write_result" where
  "compareAndSetUserIdentity d u expected =
     (let (t, res) = compare_and_set_versioned (\<lambda>_. ()) (db_users d) (user_id u) u
                       (user_lastSeenAt u) expected []
      in (d\<lparr>db_users := t\<rparr>, res))"

definition is_owner :: "user_identity \<Rightarrow> bool" where
  "is_owner u \<longleftrightarrow> RoleOwner \<in> set (user_roles u)"

definition owner_count :: "db \<Rightarrow> nat" where
  "owner_count d = length (filter (\<lambda>(_, r). is_owner (row_json r)) (db_users d))"

definition compareAndSetUserIdentityPreservingOwner ::
    "db \<Rightarrow> user_identity \<Rightarrow> nat \<Rightarrow> db \<times> user_identity write_result" where
  "compareAndSetUserIdentityPreservingOwner d u expected =
     (case get_versioned (db_users d) (user_id u) of
        None \<Rightarrow> (d, Rejected NotFound None [])
      | Some c \<Rightarrow>
          if vr_revision c \<noteq> expected then (d, Rejected RevisionConflict (Some c) [])
          else if is_owner (vr_value c) \<and> \<not> is_owner u \<and> owner_count d \<le> 1
          then (d, Rejected DependencyConflict (Some c) [''assigned-owner''])
          else compareAndSetUserIdentity d u expected)"

definition owns_session :: "db \<Rightarrow> ident \<Rightarrow> bool" where
  "owns_session d i \<longleftrightarrow> (\<exists>p \<in> set (db_sessions d). ses_ownerId (row_json (snd p)) = Some i)"

definition owns_channel :: "db \<Rightarrow> ident \<Rightarrow> bool" where
  "owns_channel d i \<longleftrightarrow> (\<exists>p \<in> set (db_channels d). chan_ownerId (row_json (snd p)) = Some i)"

definition listUserIdentitiesLastSeenBefore ::
    "db \<Rightarrow> instant \<Rightarrow> int \<Rightarrow> user_identity versioned list" where
  "listUserIdentitiesLastSeenBefore d lastSeenBefore limit =
     sql_limit (clamp_limit limit)
       (versioned_rows (order_asc (\<lambda>p. user_lastSeenAt (row_json (snd p)))
         (sort_key fst
           (filter (\<lambda>(k, r). user_lastSeenAt (row_json r) \<le> lastSeenBefore \<and>
              \<not> (RoleAdmin \<in> set (user_roles (row_json r)) \<or> is_owner (row_json r)) \<and>
              \<not> owns_session d k \<and> \<not> owns_channel d k) (db_users d)))))"

definition deleteUserIdentityPreservingOwner ::
    "db \<Rightarrow> ident \<Rightarrow> nat \<Rightarrow> instant option \<Rightarrow> db \<times> user_identity delete_result outcome" where
  "deleteUserIdentityPreservingOwner d i expected lastSeenBefore =
     (case get_versioned (db_users d) i of
        None \<Rightarrow> (d, resolve (NotDeleted NotFound None []))
      | Some c \<Rightarrow>
          if vr_revision c \<noteq> expected then (d, resolve (NotDeleted RevisionConflict (Some c) []))
          else if (case lastSeenBefore of None \<Rightarrow> False
                   | Some limit \<Rightarrow> limit < user_lastSeenAt (vr_value c))
          then (d, resolve (NotDeleted InvalidState (Some c) []))
          else if is_owner (vr_value c) \<and> owner_count d \<le> 1
          then (d, resolve (NotDeleted DependencyConflict (Some c) [''assigned-owner'']))
          else
            let deps = (if owns_session d i then [''owned-sessions''] else []) @
                       (if owns_channel d i then [''owned-live-channels''] else [])
            in if deps \<noteq> [] then (d, resolve (NotDeleted DependencyConflict (Some c) deps))
               else
                 let (t, changes) =
                       sql_delete (db_users d) (\<lambda>k r. k = i \<and> row_revision r = expected)
                 in if changes \<noteq> 1 then (d, throw PlainError)
                    else (d\<lparr>db_users := t,
                            db_user_columns := filter (\<lambda>(k, _). k \<noteq> i) (db_user_columns d)\<rparr>,
                          resolve (Deleted c)))"

section \<open>Settings\<close>

definition putSetting :: "db \<Rightarrow> string \<Rightarrow> string \<Rightarrow> instant \<Rightarrow> db" where
  "putSetting d k v now =
     d\<lparr>db_settings := sql_upsert (db_settings d) k (fresh_row v now) (bump_row v now)\<rparr>"

definition getSetting :: "db \<Rightarrow> string \<Rightarrow> string option" where
  "getSetting d k = get_json (db_settings d) k"

definition ascii_lower :: "char \<Rightarrow> char" where
  "ascii_lower c = (if is_upper c then char_of ((of_char c :: nat) + 32) else c)"

text \<open>
  \<^verbatim>\<open>LIKE\<close> with the escaped prefix and a final \<^verbatim>\<open>%\<close>: the prefix itself, compared as
  \<^verbatim>\<open>LIKE\<close> compares, without regard to the case of ASCII letters.
\<close>

definition listSettingsByPrefix :: "db \<Rightarrow> string \<Rightarrow> (string \<times> string) list" where
  "listSettingsByPrefix d prefix =
     map (\<lambda>(k, r). (k, row_json r))
       (sort_key fst
         (filter (\<lambda>(k, _). starts_with (map ascii_lower prefix) (map ascii_lower k))
           (db_settings d)))"

definition deleteSetting :: "db \<Rightarrow> string \<Rightarrow> db" where
  "deleteSetting d k = d\<lparr>db_settings := fst (sql_delete (db_settings d) (\<lambda>j _. j = k))\<rparr>"

definition getVersionedSetting :: "db \<Rightarrow> string \<Rightarrow> string versioned option" where
  "getVersionedSetting d k = get_versioned (db_settings d) k"

definition putSettingIfAbsent ::
    "db \<Rightarrow> string \<Rightarrow> string \<Rightarrow> instant \<Rightarrow> db \<times> (bool \<times> string versioned) outcome" where
  "putSettingIfAbsent d k v now =
     (let (t, changes) = sql_insert_or_ignore (db_settings d) k (fresh_row v now);
          d' = d\<lparr>db_settings := t\<rparr>
      in case getVersionedSetting d' k of
           None \<Rightarrow> (d', throw PlainError)
         | Some rec \<Rightarrow> (d', resolve (changes = 1, rec)))"

definition compareAndSetSetting ::
    "db \<Rightarrow> string \<Rightarrow> string \<Rightarrow> nat \<Rightarrow> instant \<Rightarrow> db \<times> string write_result" where
  "compareAndSetSetting d k v expected now =
     (let (t, changes) =
            sql_update (db_settings d) (\<lambda>j r. j = k \<and> row_revision r = expected) (bump_row v now);
          d' = d\<lparr>db_settings := t\<rparr>
      in if changes = 1 then (d', Applied (versioned v (expected + 1)))
         else (d', case getVersionedSetting d' k of
                     Some c \<Rightarrow> Rejected RevisionConflict (Some c) []
                   | None \<Rightarrow> Rejected NotFound None []))"

end
