(* ===== verification/RelayRepoCluster.thy ===== *)
theory RelayRepoCluster
  imports RelayRepoAccess
begin

text \<open>
  The cluster side of \<^verbatim>\<open>packages/adapters/src/sqlite-repository.ts\<close>: nodes and their
  certificates, provider bindings, segment jobs, VOD producers and the bounded logs.
\<close>

section \<open>Nodes\<close>

definition revokeNodeCertificates :: "db \<Rightarrow> ident \<Rightarrow> instant \<Rightarrow> db" where
  "revokeNodeCertificates d nodeId revokedAt =
     d\<lparr>db_certs := fst (sql_update (db_certs d)
         (\<lambda>_ r. cert_nodeId (row_json r) = nodeId \<and> cert_revokedAt (row_json r) = None)
         (\<lambda>r. r\<lparr>row_json := (row_json r)\<lparr>cert_revokedAt := Some revokedAt\<rparr>\<rparr>))\<rparr>"

definition putNodeCertificate :: "db \<Rightarrow> node_certificate \<Rightarrow> db option" where
  "putNodeCertificate d c =
     map_option (\<lambda>t. d\<lparr>db_certs := t\<rparr>)
       (sql_insert (db_certs d) (cert_serialNumber c) (fresh_row c (cert_createdAt c)))"

definition createNode ::
    "db \<Rightarrow> cluster_node \<Rightarrow> node_certificate option \<Rightarrow> db \<times> cluster_node versioned outcome" where
  "createNode d n cert =
     (if (case cert of None \<Rightarrow> False
          | Some c \<Rightarrow> cert_nodeId c \<noteq> node_id n \<or> cert_revokedAt c \<noteq> None)
      then (d, throw PlainError)
      else case sql_insert (db_nodes d) (node_id n) (fresh_row n (node_updatedAt n)) of
        None \<Rightarrow> (d, throw PlainError)
      | Some t \<Rightarrow>
          (case cert of
             None \<Rightarrow> (d\<lparr>db_nodes := t\<rparr>, resolve (versioned n 1))
           | Some c \<Rightarrow>
               (case putNodeCertificate (d\<lparr>db_nodes := t\<rparr>) c of
                  None \<Rightarrow> (d, throw PlainError)
                | Some d' \<Rightarrow> (d', resolve (versioned n 1)))))"

definition cas_node ::
    "db \<Rightarrow> ident \<Rightarrow> cluster_node \<Rightarrow> instant \<Rightarrow> nat \<Rightarrow> node_state list \<Rightarrow> db \<times> cluster_node write_result"
  where
  "cas_node d i n date expected allowed =
     (let (t, res) = compare_and_set_versioned node_state (db_nodes d) i n date expected allowed
      in (d\<lparr>db_nodes := t\<rparr>, res))"

definition ensureLocalNode ::
    "db \<Rightarrow> cluster_node \<Rightarrow> db \<times> cluster_node versioned outcome" where
  "ensureLocalNode d n =
     (case get_versioned (db_nodes d) (node_id n) of
        None \<Rightarrow>
          (case sql_insert (db_nodes d) (node_id n) (fresh_row n (node_updatedAt n)) of
             None \<Rightarrow> (d, throw PlainError)
           | Some t \<Rightarrow> (d\<lparr>db_nodes := t\<rparr>, resolve (versioned n 1)))
      | Some c \<Rightarrow>
          let cur = vr_value c;
              state = (if node_state cur = NodeDraining \<or> node_state cur = NodeRevoked
                       then node_state cur else node_state n);
              expires = (case node_certificateExpiresAt n of
                           Some e \<Rightarrow> Some e | None \<Rightarrow> node_certificateExpiresAt cur);
              ensured = n\<lparr>node_state := state, node_createdAt := node_createdAt cur,
                          node_certificateExpiresAt := expires\<rparr>;
              (d', res) = cas_node d (node_id n) ensured (node_updatedAt ensured) (vr_revision c) []
          in (case res of
                Applied rec \<Rightarrow> (d', resolve rec)
              | Rejected _ _ _ \<Rightarrow> (d, throw PlainError)))"

definition getNode :: "db \<Rightarrow> ident \<Rightarrow> cluster_node option" where
  "getNode d i = get_json (db_nodes d) i"

definition getVersionedNode :: "db \<Rightarrow> ident \<Rightarrow> cluster_node versioned option" where
  "getVersionedNode d i = get_versioned (db_nodes d) i"

record node_heartbeat_update =
  hb_nodeId :: ident
  hb_expectedRevision :: nat
  hb_capabilities :: node_capability
  hb_reportedState :: node_state
  hb_lastHeartbeatAt :: instant
  hb_updatedAt :: instant
  hb_certificateExpiresAt :: "instant option"

definition recordNodeHeartbeat ::
    "db \<Rightarrow> node_heartbeat_update \<Rightarrow> db \<times> cluster_node write_result" where
  "recordNodeHeartbeat d u =
     (case getVersionedNode d (hb_nodeId u) of
        None \<Rightarrow> (d, Rejected NotFound None [])
      | Some c \<Rightarrow>
          if vr_revision c \<noteq> hb_expectedRevision u then (d, Rejected RevisionConflict (Some c) [])
          else
            let cur = vr_value c;
                protectedState = (if node_state cur = NodeDraining \<or> node_state cur = NodeRevoked
                                  then node_state cur else hb_reportedState u);
                n = cur\<lparr>node_capabilities := hb_capabilities u, node_state := protectedState,
                        node_lastHeartbeatAt := hb_lastHeartbeatAt u,
                        node_updatedAt := hb_updatedAt u,
                        node_certificateExpiresAt :=
                          (case hb_certificateExpiresAt u of
                             Some e \<Rightarrow> Some e | None \<Rightarrow> node_certificateExpiresAt cur)\<rparr>
            in cas_node d (node_id n) n (node_updatedAt n) (hb_expectedRevision u) [])"

record node_drain_update =
  dr_nodeId :: ident
  dr_expectedRevision :: nat
  dr_draining :: bool
  dr_updatedAt :: instant

definition setNodeDrain :: "db \<Rightarrow> node_drain_update \<Rightarrow> db \<times> cluster_node write_result" where
  "setNodeDrain d u =
     (case getVersionedNode d (dr_nodeId u) of
        None \<Rightarrow> (d, Rejected NotFound None [])
      | Some c \<Rightarrow>
          if vr_revision c \<noteq> dr_expectedRevision u then (d, Rejected RevisionConflict (Some c) [])
          else if node_state (vr_value c) = NodeRevoked then (d, Rejected InvalidState (Some c) [])
          else
            let cur = vr_value c;
                state = (if dr_draining u then NodeDraining
                         else if node_state cur = NodeDraining then NodeOnline
                         else node_state cur);
                n = cur\<lparr>node_state := state, node_updatedAt := dr_updatedAt u\<rparr>
            in cas_node d (node_id n) n (node_updatedAt n) (dr_expectedRevision u) [])"

record node_operational_update =
  op_nodeId :: ident
  op_expectedRevision :: nat
  op_state :: node_state
  op_updatedAt :: instant

definition setNodeOperationalState ::
    "db \<Rightarrow> node_operational_update \<Rightarrow> db \<times> cluster_node write_result" where
  "setNodeOperationalState d u =
     (case getVersionedNode d (op_nodeId u) of
        None \<Rightarrow> (d, Rejected NotFound None [])
      | Some c \<Rightarrow>
          if vr_revision c \<noteq> op_expectedRevision u then (d, Rejected RevisionConflict (Some c) [])
          else if node_state (vr_value c) = NodeDraining \<or> node_state (vr_value c) = NodeRevoked
          then (d, Rejected InvalidState (Some c) [])
          else
            let n = (vr_value c)\<lparr>node_state := op_state u, node_updatedAt := op_updatedAt u\<rparr>
            in cas_node d (node_id n) n (node_updatedAt n) (op_expectedRevision u)
                 [NodeJoining, NodeOnline, NodeDegraded, NodeOffline])"

definition repoListNodes :: "db \<Rightarrow> cluster_node list" where
  "repoListNodes d = jsons (order_desc (\<lambda>p. row_date (snd p)) (db_nodes d))"

definition node_bindings :: "db \<Rightarrow> ident \<Rightarrow> ident list" where
  "node_bindings d i = map fst (filter (\<lambda>(_, r). bind_nodeId (row_json r) = i) (db_bindings d))"

definition removeNode :: "db \<Rightarrow> ident \<Rightarrow> nat \<Rightarrow> db \<times> cluster_node delete_result outcome" where
  "removeNode d i expected =
     (case getVersionedNode d i of
        None \<Rightarrow> (d, resolve (NotDeleted NotFound None []))
      | Some c \<Rightarrow>
          let deps = map (\<lambda>b. ''binding:'' @ b) (node_bindings d i)
          in if vr_revision c \<noteq> expected
             then (d, resolve (NotDeleted RevisionConflict (Some c) []))
             else if node_state (vr_value c) \<noteq> NodeRevoked
             then (d, resolve (NotDeleted InvalidState (Some c) []))
             else if deps \<noteq> [] then (d, resolve (NotDeleted DependencyConflict (Some c) deps))
             else
               let (t, changes) =
                     sql_delete (db_nodes d) (\<lambda>k r. k = i \<and> row_revision r = expected)
               in if changes \<noteq> 1 then (d, throw PlainError)
                  else (d\<lparr>db_nodes := t\<rparr>, resolve (Deleted c)))"

record node_certificate_rotation =
  rot_nodeId :: ident
  rot_expectedRevision :: nat
  rot_certificate :: node_certificate
  rot_updatedAt :: instant

definition rotateNodeCertificate ::
    "db \<Rightarrow> node_certificate_rotation \<Rightarrow> db \<times> cluster_node write_result outcome" where
  "rotateNodeCertificate d u =
     (if cert_nodeId (rot_certificate u) \<noteq> rot_nodeId u \<or>
         cert_revokedAt (rot_certificate u) \<noteq> None
      then (d, throw PlainError)
      else case getVersionedNode d (rot_nodeId u) of
        None \<Rightarrow> (d, resolve (Rejected NotFound None []))
      | Some c \<Rightarrow>
          if vr_revision c \<noteq> rot_expectedRevision u
          then (d, resolve (Rejected RevisionConflict (Some c) []))
          else if node_state (vr_value c) = NodeRevoked
          then (d, resolve (Rejected InvalidState (Some c) []))
          else
            let n = (vr_value c)\<lparr>node_certificateExpiresAt := Some (cert_expiresAt (rot_certificate u)),
                                 node_updatedAt := rot_updatedAt u\<rparr>;
                (d', res) = cas_node d (rot_nodeId u) n (rot_updatedAt u) (rot_expectedRevision u)
                              [NodeJoining, NodeOnline, NodeDegraded, NodeDraining, NodeOffline]
            in if \<not> is_applied res then (d', resolve res)
               else case putNodeCertificate
                           (revokeNodeCertificates d' (rot_nodeId u) (rot_updatedAt u))
                           (rot_certificate u) of
                 None \<Rightarrow> (d, throw PlainError)
               | Some d'' \<Rightarrow> (d'', resolve res))"

record node_revocation =
  rev_nodeId :: ident
  rev_expectedRevision :: nat
  rev_revokedAt :: instant

definition NODE_REVOKED_BINDING_MESSAGE :: string where
  "NODE_REVOKED_BINDING_MESSAGE =
     ''Node revoked; provider credential cleanup requires administrator acknowledgement''"

definition revoke_bindings_of :: "db \<Rightarrow> ident \<Rightarrow> instant \<Rightarrow> db" where
  "revoke_bindings_of d nodeId revokedAt =
     d\<lparr>db_bindings := fst (sql_update (db_bindings d)
         (\<lambda>_ r. bind_nodeId (row_json r) = nodeId)
         (\<lambda>r. r\<lparr>row_json := (row_json r)\<lparr>bind_reachable := False, bind_state := BindingRevoked,
                   bind_deletionPending := row_pending r,
                   bind_lastError := Some NODE_REVOKED_BINDING_MESSAGE,
                   bind_updatedAt := revokedAt\<rparr>,
                 row_date := revokedAt, row_revision := row_revision r + 1\<rparr>))\<rparr>"

definition revokeNode :: "db \<Rightarrow> node_revocation \<Rightarrow> db \<times> cluster_node write_result" where
  "revokeNode d u =
     (case getVersionedNode d (rev_nodeId u) of
        None \<Rightarrow> (d, Rejected NotFound None [])
      | Some c \<Rightarrow>
          if vr_revision c \<noteq> rev_expectedRevision u then (d, Rejected RevisionConflict (Some c) [])
          else
            let n = (vr_value c)\<lparr>node_state := NodeRevoked, node_updatedAt := rev_revokedAt u\<rparr>;
                (d', res) = cas_node d (rev_nodeId u) n (rev_revokedAt u) (rev_expectedRevision u) []
            in if \<not> is_applied res then (d', res)
               else (revokeNodeCertificates
                       (revoke_bindings_of d' (rev_nodeId u) (rev_revokedAt u))
                       (rev_nodeId u) (rev_revokedAt u), res))"

definition listNodeCertificates :: "db \<Rightarrow> ident \<Rightarrow> node_certificate list" where
  "listNodeCertificates d i =
     jsons (order_desc (\<lambda>p. row_date (snd p))
       (filter (\<lambda>(_, r). cert_nodeId (row_json r) = i) (db_certs d)))"

section \<open>Segment jobs\<close>

definition createSegmentJob ::
    "db \<Rightarrow> segment_job \<Rightarrow> db \<times> (bool \<times> segment_job versioned) outcome" where
  "createSegmentJob d j =
     (let (t, changes) =
            sql_insert_or_ignore (db_jobs d) (job_id j) (fresh_row j (job_updatedAt j))
      in case get_versioned t (job_id j) of
           None \<Rightarrow> (d, throw PlainError)
         | Some rec \<Rightarrow> (d\<lparr>db_jobs := t\<rparr>, resolve (changes = 1, rec)))"

definition getSegmentJob :: "db \<Rightarrow> ident \<Rightarrow> segment_job option" where
  "getSegmentJob d i = get_json (db_jobs d) i"

definition getVersionedSegmentJob :: "db \<Rightarrow> ident \<Rightarrow> segment_job versioned option" where
  "getVersionedSegmentJob d i = get_versioned (db_jobs d) i"

definition compareAndSetSegmentJob ::
    "db \<Rightarrow> segment_job \<Rightarrow> nat \<Rightarrow> job_state list \<Rightarrow> db \<times> segment_job write_result outcome" where
  "compareAndSetSegmentJob d j expected allowed =
     (if allowed = [] then (d, throw PlainError)
      else
        let (t, res) = compare_and_set_versioned job_state (db_jobs d) (job_id j) j
                         (job_updatedAt j) expected allowed
        in (d\<lparr>db_jobs := t\<rparr>, resolve res))"

definition completeSegmentJob ::
    "db \<Rightarrow> segment_job \<Rightarrow> nat \<Rightarrow> db \<times> segment_job write_result outcome" where
  "completeSegmentJob d j expected =
     (if job_state j \<noteq> JobComplete then (d, throw PlainError)
      else compareAndSetSegmentJob d j expected [JobLeased, JobRunning])"

definition cancelSegmentJob ::
    "db \<Rightarrow> segment_job \<Rightarrow> nat \<Rightarrow> db \<times> segment_job write_result outcome" where
  "cancelSegmentJob d j expected =
     (if job_state j \<noteq> JobCancelled then (d, throw PlainError)
      else compareAndSetSegmentJob d j expected [JobQueued, JobLeased, JobRunning, JobFailed])"

definition listSegmentJobs :: "db \<Rightarrow> int \<Rightarrow> segment_job list" where
  "listSegmentJobs d limit = sql_limit limit (jsons (order_desc (\<lambda>p. row_date (snd p)) (db_jobs d)))"

section \<open>VOD producers\<close>

definition createVodProducer ::
    "db \<Rightarrow> vod_producer \<Rightarrow> db \<times> (bool \<times> vod_producer versioned) outcome" where
  "createVodProducer d p =
     (let (t, changes) =
            sql_insert_or_ignore (db_producers d) (prod_sessionId p)
              (fresh_row p (prod_updatedAt p));
          d' = d\<lparr>db_producers := t\<rparr>
      in case get_versioned t (prod_sessionId p) of
           None \<Rightarrow> (d', throw PlainError)
         | Some rec \<Rightarrow> (d', resolve (changes = 1, rec)))"

definition getVodProducer :: "db \<Rightarrow> ident \<Rightarrow> vod_producer option" where
  "getVodProducer d i = get_json (db_producers d) i"

definition getVersionedVodProducer :: "db \<Rightarrow> ident \<Rightarrow> vod_producer versioned option" where
  "getVersionedVodProducer d i = get_versioned (db_producers d) i"

definition listVodProducers :: "db \<Rightarrow> int \<Rightarrow> vod_producer list" where
  "listVodProducers d limit =
     sql_limit limit (jsons (order_desc (\<lambda>p. row_date (snd p)) (db_producers d)))"

definition compareAndSetVodProducer ::
    "db \<Rightarrow> vod_producer \<Rightarrow> nat \<Rightarrow> producer_state list \<Rightarrow> db \<times> vod_producer write_result outcome" where
  "compareAndSetVodProducer d p expected allowed =
     (if allowed = [] then (d, throw PlainError)
      else
        let (t, changes) =
              sql_update (db_producers d)
                (\<lambda>k r. k = prod_sessionId p \<and> row_revision r = expected \<and>
                       prod_state (row_json r) \<in> set allowed)
                (bump_row p (prod_updatedAt p));
            d' = d\<lparr>db_producers := t\<rparr>
        in if changes = 1 then (d', resolve (Applied (versioned p (expected + 1))))
           else (d', resolve
             (case getVersionedVodProducer d' (prod_sessionId p) of
                None \<Rightarrow> Rejected NotFound None []
              | Some c \<Rightarrow>
                  if vr_revision c \<noteq> expected then Rejected RevisionConflict (Some c) []
                  else Rejected InvalidState (Some c) [])))"

section \<open>Provider bindings\<close>

fun strip_trailing_slashes :: "string \<Rightarrow> string" where
  "strip_trailing_slashes [] = []"
| "strip_trailing_slashes (c # cs) =
     (if c = CHR ''/'' \<and> list_all (\<lambda>x. x = CHR ''/'') cs then []
      else c # strip_trailing_slashes cs)"

definition canonicalProviderBaseUrl :: "string \<Rightarrow> string" where
  "canonicalProviderBaseUrl s = strip_trailing_slashes s"

definition providersReferenceSameServer ::
    "provider_connection \<Rightarrow> provider_connection \<Rightarrow> bool" where
  "providersReferenceSameServer a b \<longleftrightarrow>
     prov_id a = prov_id b \<and> prov_type a = prov_type b \<and>
     canonicalProviderBaseUrl (prov_baseUrl a) = canonicalProviderBaseUrl (prov_baseUrl b)"

definition or_keep :: "string option \<Rightarrow> string option \<Rightarrow> string option" where
  "or_keep new old = (if truthy new then new else old)"

definition mergeProviderMetadata ::
    "provider_connection \<Rightarrow> provider_connection \<Rightarrow> provider_connection" where
  "mergeProviderMetadata cur cand =
     cur\<lparr>prov_name := prov_name cand, prov_healthy := prov_healthy cand,
         prov_capabilities := prov_capabilities cand,
         prov_userId := or_keep (prov_userId cand) (prov_userId cur),
         prov_username := or_keep (prov_username cand) (prov_username cur),
         prov_serverName := or_keep (prov_serverName cand) (prov_serverName cur),
         prov_serverVersion := or_keep (prov_serverVersion cand) (prov_serverVersion cur),
         prov_securityNotice := or_keep (prov_securityNotice cand) (prov_securityNotice cur),
         prov_updatedAt := prov_updatedAt cand\<rparr>"

definition BINDING_CLEANUP_PENDING_MESSAGE :: string where
  "BINDING_CLEANUP_PENDING_MESSAGE = ''Provider credential cleanup is pending''"

definition storedProviderBinding :: "provider_binding \<Rightarrow> bool \<Rightarrow> provider_binding" where
  "storedProviderBinding b p = b\<lparr>bind_deletionPending := p\<rparr>"

definition getStoredProviderBinding :: "db \<Rightarrow> ident \<Rightarrow> provider_binding stored option" where
  "getStoredProviderBinding d i =
     map_option
       (\<lambda>r. \<lparr>st_value = storedProviderBinding (row_json r) (row_pending r),
             st_revision = row_revision r, st_pending = row_pending r\<rparr>)
       (map_of (db_bindings d) i)"

datatype binding_create_reason =
  ProviderConflict | ProviderNotFound | ProviderRevisionConflict | ProviderDeleting |
  BindingDeleting | NodeUnavailable | BindingConflict

datatype binding_create_result =
    BindingCreated provider_connection "provider_binding versioned"
  | BindingNotCreated binding_create_reason "provider_connection option"
      "provider_binding versioned option"

definition insert_binding ::
    "db \<Rightarrow> db \<Rightarrow> provider_connection \<Rightarrow> provider_binding \<Rightarrow> db \<times> binding_create_result outcome" where
  "insert_binding rollback d p b =
     (let sb = storedProviderBinding b False
      in case sql_insert (db_bindings d) (bind_id sb) (fresh_row sb (bind_updatedAt sb)) of
           None \<Rightarrow> (rollback, throw PlainError)
         | Some t \<Rightarrow> (d\<lparr>db_bindings := t\<rparr>, resolve (BindingCreated p (versioned sb 1))))"

definition createProviderBinding ::
    "db \<Rightarrow> provider_connection \<Rightarrow> provider_binding \<Rightarrow> nat option \<Rightarrow>
       db \<times> binding_create_result outcome" where
  "createProviderBinding d p b expectedProviderRevision =
     (if bind_providerId b \<noteq> prov_id p then (d, throw PlainError)
      else case getStoredProviderBinding d (bind_id b) of
        Some cb \<Rightarrow>
          (d, resolve (BindingNotCreated (if st_pending cb then BindingDeleting else BindingConflict)
                (map_option st_value (getStoredProvider d (prov_id p)))
                (Some (versioned (st_value cb) (st_revision cb)))))
      | None \<Rightarrow>
          if (case getVersionedNode d (bind_nodeId b) of
                None \<Rightarrow> True
              | Some n \<Rightarrow> node_state (vr_value n) = NodeRevoked \<or>
                           RoleSourceWorker \<notin> set (node_roles (vr_value n)))
          then (d, resolve (BindingNotCreated NodeUnavailable None None))
          else case expectedProviderRevision of
            None \<Rightarrow>
              (case getStoredProvider d (prov_id p) of
                 Some ep \<Rightarrow>
                   (d, resolve (BindingNotCreated
                         (if st_pending ep then ProviderDeleting else ProviderConflict)
                         (Some (st_value ep)) None))
               | None \<Rightarrow>
                   (case sql_insert (db_providers d) (prov_id p) (fresh_row p (prov_updatedAt p)) of
                      None \<Rightarrow> (d, throw PlainError)
                    | Some t \<Rightarrow> insert_binding d (d\<lparr>db_providers := t\<rparr>) p b))
          | Some expected \<Rightarrow>
              (case getStoredProvider d (prov_id p) of
                 None \<Rightarrow> (d, resolve (BindingNotCreated ProviderNotFound None None))
               | Some ep \<Rightarrow>
                   if st_pending ep
                   then (d, resolve (BindingNotCreated ProviderDeleting (Some (st_value ep)) None))
                   else if st_revision ep \<noteq> expected
                   then (d, resolve (BindingNotCreated ProviderRevisionConflict
                               (Some (st_value ep)) None))
                   else if \<not> providersReferenceSameServer (st_value ep) p
                   then (d, resolve (BindingNotCreated ProviderConflict (Some (st_value ep)) None))
                   else
                     let sp = mergeProviderMetadata (st_value ep) p;
                         (t, changes) =
                           sql_update (db_providers d)
                             (\<lambda>k r. k = prov_id sp \<and> row_revision r = expected \<and> \<not> row_pending r)
                             (bump_row sp (prov_updatedAt sp))
                     in if changes \<noteq> 1 then (d, throw PlainError)
                        else insert_binding d (d\<lparr>db_providers := t\<rparr>) sp b))"

definition getProviderBinding :: "db \<Rightarrow> ident \<Rightarrow> bool \<Rightarrow> provider_binding option" where
  "getProviderBinding d i includeDeletionPending =
     (case getStoredProviderBinding d i of
        None \<Rightarrow> None
      | Some c \<Rightarrow> if includeDeletionPending \<or> \<not> st_pending c then Some (st_value c) else None)"

definition getVersionedProviderBinding ::
    "db \<Rightarrow> ident \<Rightarrow> bool \<Rightarrow> provider_binding versioned option" where
  "getVersionedProviderBinding d i includeDeletionPending =
     (case getStoredProviderBinding d i of
        None \<Rightarrow> None
      | Some c \<Rightarrow>
          if includeDeletionPending \<or> \<not> st_pending c
          then Some (versioned (st_value c) (st_revision c)) else None)"

definition compareAndSetProviderBinding ::
    "db \<Rightarrow> provider_binding \<Rightarrow> nat \<Rightarrow> binding_state list \<Rightarrow>
       db \<times> provider_binding write_result outcome" where
  "compareAndSetProviderBinding d b expected allowed =
     (if bind_deletionPending b then (d, throw PlainError)
      else
        let sb = storedProviderBinding b False;
            (t, changes) =
              sql_update (db_bindings d)
                (\<lambda>k r. k = bind_id sb \<and> row_revision r = expected \<and> \<not> row_pending r \<and>
                   bind_providerId (row_json r) = bind_providerId sb \<and>
                   bind_nodeId (row_json r) = bind_nodeId sb \<and>
                   bind_secretRef (row_json r) = bind_secretRef sb \<and>
                   (allowed = [] \<or> bind_state (row_json r) \<in> set allowed))
                (bump_row sb (bind_updatedAt sb));
            d' = d\<lparr>db_bindings := t\<rparr>
        in if changes = 1 then (d', resolve (Applied (versioned sb (expected + 1))))
           else (d', resolve
             (case getStoredProviderBinding d' (bind_id b) of
                None \<Rightarrow> Rejected NotFound None []
              | Some c \<Rightarrow>
                  let record = versioned (st_value c) (st_revision c)
                  in if st_revision c \<noteq> expected then Rejected RevisionConflict (Some record) []
                     else Rejected InvalidState (Some record) [])))"

definition listProviderBindings :: "db \<Rightarrow> ident option \<Rightarrow> bool \<Rightarrow> provider_binding list" where
  "listProviderBindings d providerId includeDeletionPending =
     map (\<lambda>p. storedProviderBinding (row_json (snd p)) (row_pending (snd p)))
       (order_desc (\<lambda>p. row_date (snd p))
         (filter (\<lambda>(_, r). (truthy providerId \<longrightarrow> Some (bind_providerId (row_json r)) = providerId) \<and>
                           (includeDeletionPending \<or> \<not> row_pending r)) (db_bindings d)))"

definition beginProviderBindingDeletion ::
    "db \<Rightarrow> ident \<Rightarrow> instant \<Rightarrow> db \<times> provider_binding write_result outcome" where
  "beginProviderBindingDeletion d i updatedAt =
     (case getStoredProviderBinding d i of
        None \<Rightarrow> (d, resolve (Rejected NotFound None []))
      | Some c \<Rightarrow>
          if st_pending c
          then (d, resolve (Applied (versioned (st_value c) (st_revision c))))
          else
            let pending = (st_value c)\<lparr>bind_reachable := False, bind_state := BindingRevoked,
                            bind_deletionPending := True,
                            bind_lastError := Some BINDING_CLEANUP_PENDING_MESSAGE,
                            bind_updatedAt := updatedAt\<rparr>;
                (t, changes) =
                  sql_update (db_bindings d)
                    (\<lambda>k r. k = i \<and> row_revision r = st_revision c \<and> \<not> row_pending r)
                    (\<lambda>r. (bump_row pending updatedAt r)\<lparr>row_pending := True\<rparr>)
            in if changes \<noteq> 1 then (d, throw PlainError)
               else (d\<lparr>db_bindings := t\<rparr>,
                     resolve (Applied (versioned pending (st_revision c + 1)))))"

definition finalizeProviderBindingDeletion ::
    "db \<Rightarrow> ident \<Rightarrow> nat \<Rightarrow> db \<times> provider_binding delete_result outcome" where
  "finalizeProviderBindingDeletion d i expected =
     (case getStoredProviderBinding d i of
        None \<Rightarrow> (d, resolve (NotDeleted NotFound None []))
      | Some c \<Rightarrow>
          let record = versioned (st_value c) (st_revision c)
          in if st_revision c \<noteq> expected
             then (d, resolve (NotDeleted RevisionConflict (Some record) []))
             else if \<not> st_pending c then (d, resolve (NotDeleted InvalidState (Some record) []))
             else
               let (t, changes) =
                     sql_delete (db_bindings d)
                       (\<lambda>k r. k = i \<and> row_revision r = expected \<and> row_pending r)
               in if changes \<noteq> 1 then (d, throw PlainError)
                  else (d\<lparr>db_bindings := t\<rparr>, resolve (Deleted record)))"

section \<open>Bounded logs\<close>

text \<open>\<^verbatim>\<open>INSERT OR REPLACE\<close>, then the rows of the same owner beyond the newest are deleted.\<close>

definition sql_replace :: "'a table \<Rightarrow> string \<Rightarrow> 'a row \<Rightarrow> 'a table" where
  "sql_replace t k r = fst (sql_delete t (\<lambda>j _. j = k)) @ [(k, r)]"

definition retain_newest :: "('a \<Rightarrow> bool) \<Rightarrow> int \<Rightarrow> 'a table \<Rightarrow> 'a table" where
  "retain_newest mine rows t =
     (let kept = map fst (sql_limit rows
                   (order_desc (\<lambda>p. row_date (snd p)) (filter (\<lambda>(_, r). mine (row_json r)) t)))
      in fst (sql_delete t (\<lambda>k r. mine (row_json r) \<and> k \<notin> set kept)))"

definition putAgentLog :: "db \<Rightarrow> agent_log_entry \<Rightarrow> int \<Rightarrow> db" where
  "putAgentLog d e retentionRows =
     d\<lparr>db_agent_logs :=
         retain_newest (\<lambda>x. alog_nodeId x = alog_nodeId e) retentionRows
           (sql_replace (db_agent_logs d) (alog_id e) (fresh_row e (alog_timestamp e)))\<rparr>"

definition listAgentLogs :: "db \<Rightarrow> ident \<Rightarrow> int \<Rightarrow> agent_log_entry list" where
  "listAgentLogs d nodeId limit =
     sql_limit limit (jsons (order_desc (\<lambda>p. row_date (snd p))
       (filter (\<lambda>(_, r). alog_nodeId (row_json r) = nodeId) (db_agent_logs d))))"

definition putJobLog :: "db \<Rightarrow> job_log_entry \<Rightarrow> int \<Rightarrow> db" where
  "putJobLog d e retentionRows =
     d\<lparr>db_job_logs :=
         retain_newest (\<lambda>x. jlog_jobId x = jlog_jobId e) retentionRows
           (sql_replace (db_job_logs d) (jlog_id e) (fresh_row e (jlog_timestamp e)))\<rparr>"

definition listJobLogs :: "db \<Rightarrow> ident \<Rightarrow> int \<Rightarrow> job_log_entry list" where
  "listJobLogs d jobId limit =
     sql_limit limit (jsons (order_desc (\<lambda>p. row_date (snd p))
       (filter (\<lambda>(_, r). jlog_jobId (row_json r) = jobId) (db_job_logs d))))"

end
