(* ===== verification/RelayRepoOps.thy ===== *)
theory RelayRepoOps
  imports RelayRepoCluster
begin

text \<open>
  The write operations of the repository interface as data: one constructor per method of
  \<^verbatim>\<open>packages/adapters/src/sqlite-repository.ts\<close> that changes the database, with the
  arguments of the call, and \<open>exec_op\<close> runs one. A history of the database is a list of
  them. The lemmas show how every operation changes the tables: primary keys stay
  unique and a changed row has a higher revision (\<open>exec_op_evolves\<close>).
\<close>

section \<open>Operations as data\<close>

datatype catalog_op =
    OpCreateProvider provider_connection
  | OpCasProvider provider_connection nat
  | OpBeginProviderDeletion ident
  | OpFinalizeProviderDeletion ident nat
  | OpPutProfile profile
  | OpDeleteProfile ident

datatype session_op =
    OpCreateSession relay_session playback_grant "nat option"
  | OpCasSession relay_session nat
  | OpSetSessionViewers ident nat int instant
  | OpTouchSession ident instant instant
  | OpBeginSessionDeletion ident session_deletion_options
  | OpDeleteSession ident instant

datatype channel_op =
    OpCreateLiveChannel live_channel
  | OpCreateLiveChannelWithin live_channel nat nat
  | OpCasLiveChannel live_channel nat
  | OpDeleteLiveChannel ident nat

datatype access_op =
    OpPutToken personal_access_token
  | OpUseToken personal_token_use
  | OpRevokeToken ident instant
  | OpCreateUser user_identity
  | OpCasUser user_identity nat
  | OpCasUserPreservingOwner user_identity nat
  | OpDeleteUser ident nat "instant option"

datatype setting_op =
    OpPutSetting string string instant
  | OpDeleteSetting string
  | OpPutSettingIfAbsent string string instant
  | OpCasSetting string string nat instant

datatype node_op =
    OpCreateNode cluster_node "node_certificate option"
  | OpEnsureLocalNode cluster_node
  | OpHeartbeat node_heartbeat_update
  | OpDrain node_drain_update
  | OpOperational node_operational_update
  | OpRemoveNode ident nat
  | OpRotate node_certificate_rotation
  | OpRevokeNode node_revocation

datatype job_op =
    OpCreateJob segment_job
  | OpCasJob segment_job nat "job_state list"
  | OpCompleteJob segment_job nat
  | OpCancelJob segment_job nat
  | OpCreateProducer vod_producer
  | OpCasProducer vod_producer nat "producer_state list"

datatype binding_op =
    OpCreateBinding provider_connection provider_binding "nat option"
  | OpCasBinding provider_binding nat "binding_state list"
  | OpBeginBindingDeletion ident instant
  | OpFinalizeBindingDeletion ident nat

datatype log_op =
    OpPutAgentLog agent_log_entry int
  | OpPutJobLog job_log_entry int

datatype repo_op =
    CatalogOp catalog_op
  | SessionOp session_op
  | ChannelOp channel_op
  | AccessOp access_op
  | SettingOp setting_op
  | NodeOp node_op
  | JobOp job_op
  | BindingOp binding_op
  | LogOp log_op

fun exec_catalog_op :: "catalog_op \<Rightarrow> db \<Rightarrow> db" where
  "exec_catalog_op (OpCreateProvider p) d = fst (createProvider d p)"
| "exec_catalog_op (OpCasProvider p r) d =
     fst (compareAndSetProvider d p r)"
| "exec_catalog_op (OpBeginProviderDeletion i) d =
     fst (beginProviderDeletion d i)"
| "exec_catalog_op (OpFinalizeProviderDeletion i r) d =
     fst (finalizeProviderDeletion d i r)"
| "exec_catalog_op (OpPutProfile p) d =
     putProfile d p"
| "exec_catalog_op (OpDeleteProfile i) d =
     deleteProfile d i"

fun exec_session_op :: "session_op \<Rightarrow> db \<Rightarrow> db" where
  "exec_session_op (OpCreateSession s g r) d = fst (createSessionWithPlaybackGrant d s g r)"
| "exec_session_op (OpCasSession s r) d =
     fst (compareAndSetSession d s r)"
| "exec_session_op (OpSetSessionViewers i r v t) d =
     fst (setSessionViewers d i r v t)"
| "exec_session_op (OpTouchSession i a b) d =
     fst (touchSessionPlaybackActivity d i a b)"
| "exec_session_op (OpBeginSessionDeletion i opts) d =
     fst (beginSessionDeletion d i opts)"
| "exec_session_op (OpDeleteSession i t) d =
     deleteSessionAndRevokePlaybackGrants d i t"

fun exec_channel_op :: "channel_op \<Rightarrow> db \<Rightarrow> db" where
  "exec_channel_op (OpCreateLiveChannel c) d = fst (createLiveChannel d c)"
| "exec_channel_op (OpCreateLiveChannelWithin c m n) d =
     fst (createLiveChannelWithinCapacity d c m n)"
| "exec_channel_op (OpCasLiveChannel c r) d =
     fst (compareAndSetLiveChannel d c r)"
| "exec_channel_op (OpDeleteLiveChannel i r) d =
     fst (deleteLiveChannel d i r)"

fun exec_access_op :: "access_op \<Rightarrow> db \<Rightarrow> db" where
  "exec_access_op (OpPutToken t) d = (case putPersonalToken d t of Inl _ \<Rightarrow> d | Inr d' \<Rightarrow> d')"
| "exec_access_op (OpUseToken u) d =
     fst (usePersonalToken d u)"
| "exec_access_op (OpRevokeToken i t) d =
     revokePersonalToken d i t"
| "exec_access_op (OpCreateUser u) d =
     fst (createUserIdentity d u)"
| "exec_access_op (OpCasUser u r) d =
     fst (compareAndSetUserIdentity d u r)"
| "exec_access_op (OpCasUserPreservingOwner u r) d =
     fst (compareAndSetUserIdentityPreservingOwner d u r)"
| "exec_access_op (OpDeleteUser i r t) d =
     fst (deleteUserIdentityPreservingOwner d i r t)"

fun exec_setting_op :: "setting_op \<Rightarrow> db \<Rightarrow> db" where
  "exec_setting_op (OpPutSetting k v t) d = putSetting d k v t"
| "exec_setting_op (OpDeleteSetting k) d =
     deleteSetting d k"
| "exec_setting_op (OpPutSettingIfAbsent k v t) d =
     fst (putSettingIfAbsent d k v t)"
| "exec_setting_op (OpCasSetting k v r t) d =
     fst (compareAndSetSetting d k v r t)"

fun exec_node_op :: "node_op \<Rightarrow> db \<Rightarrow> db" where
  "exec_node_op (OpCreateNode n c) d = fst (createNode d n c)"
| "exec_node_op (OpEnsureLocalNode n) d =
     fst (ensureLocalNode d n)"
| "exec_node_op (OpHeartbeat u) d =
     fst (recordNodeHeartbeat d u)"
| "exec_node_op (OpDrain u) d =
     fst (setNodeDrain d u)"
| "exec_node_op (OpOperational u) d =
     fst (setNodeOperationalState d u)"
| "exec_node_op (OpRemoveNode i r) d =
     fst (removeNode d i r)"
| "exec_node_op (OpRotate u) d =
     fst (rotateNodeCertificate d u)"
| "exec_node_op (OpRevokeNode u) d =
     fst (revokeNode d u)"

fun exec_job_op :: "job_op \<Rightarrow> db \<Rightarrow> db" where
  "exec_job_op (OpCreateJob j) d = fst (createSegmentJob d j)"
| "exec_job_op (OpCasJob j r al) d =
     fst (compareAndSetSegmentJob d j r al)"
| "exec_job_op (OpCompleteJob j r) d =
     fst (completeSegmentJob d j r)"
| "exec_job_op (OpCancelJob j r) d =
     fst (cancelSegmentJob d j r)"
| "exec_job_op (OpCreateProducer p) d =
     fst (createVodProducer d p)"
| "exec_job_op (OpCasProducer p r al) d =
     fst (compareAndSetVodProducer d p r al)"

fun exec_binding_op :: "binding_op \<Rightarrow> db \<Rightarrow> db" where
  "exec_binding_op (OpCreateBinding p b r) d = fst (createProviderBinding d p b r)"
| "exec_binding_op (OpCasBinding b r al) d =
     fst (compareAndSetProviderBinding d b r al)"
| "exec_binding_op (OpBeginBindingDeletion i t) d =
     fst (beginProviderBindingDeletion d i t)"
| "exec_binding_op (OpFinalizeBindingDeletion i r) d =
     fst (finalizeProviderBindingDeletion d i r)"

fun exec_log_op :: "log_op \<Rightarrow> db \<Rightarrow> db" where
  "exec_log_op (OpPutAgentLog e n) d = putAgentLog d e n"
| "exec_log_op (OpPutJobLog e n) d =
     putJobLog d e n"

fun exec_op :: "repo_op \<Rightarrow> db \<Rightarrow> db" where
  "exec_op (CatalogOp x) d = exec_catalog_op x d"
| "exec_op (SessionOp x) d = exec_session_op x d"
| "exec_op (ChannelOp x) d = exec_channel_op x d"
| "exec_op (AccessOp x) d = exec_access_op x d"
| "exec_op (SettingOp x) d = exec_setting_op x d"
| "exec_op (NodeOp x) d = exec_node_op x d"
| "exec_op (JobOp x) d = exec_job_op x d"
| "exec_op (BindingOp x) d = exec_binding_op x d"
| "exec_op (LogOp x) d = exec_log_op x d"

section \<open>How operations change tables\<close>

text \<open>
  A versioned table evolves when new rows start at revision 1 and a row that stays is
  either untouched or has a higher revision.
\<close>

definition evolves :: "'a table \<Rightarrow> 'a table \<Rightarrow> bool" where
  "evolves t t' \<longleftrightarrow> (keys_ok t \<longrightarrow> keys_ok t' \<and>
     (\<forall>k r'. map_of t' k = Some r' \<longrightarrow>
        (case map_of t k of None \<Rightarrow> row_revision r' = 1
         | Some r \<Rightarrow> r' = r \<or> row_revision r < row_revision r')))"

definition keeps_keys :: "'a table \<Rightarrow> 'a table \<Rightarrow> bool" where
  "keeps_keys t t' \<longleftrightarrow> (keys_ok t \<longrightarrow> keys_ok t')"

lemma evolves_refl [simp]: "evolves t t"
  by (auto simp: evolves_def split: option.splits)

lemma keeps_keys_refl [simp]: "keeps_keys t t"
  by (simp add: keeps_keys_def)

lemma evolves_insert:
  assumes "sql_insert t k (fresh_row v d) = Some t'"
  shows "evolves t t'"
proof -
  from assms have "map_of t k = None" by (simp add: sql_insert_Some)
  with map_of_sql_insert[OF assms] keys_sql_insert[OF assms] show ?thesis
    by (auto simp: evolves_def fresh_row_def split: option.splits if_splits)
qed

lemma evolves_insert_or_ignore [simp]:
  "evolves t (fst (sql_insert_or_ignore t k (fresh_row v d)))"
  by (auto simp: evolves_def table_facts fresh_row_def keys_sql_insert_or_ignore
      split: option.splits if_splits)

lemma evolves_update [simp]:
  "(\<And>r. row_revision (f r) = Suc (row_revision r)) \<Longrightarrow> evolves t (fst (sql_update t cond f))"
  by (auto simp: evolves_def table_facts split: option.splits if_splits)

lemma evolves_upsert [simp]:
  "evolves t (sql_upsert t k (fresh_row v d) (bump_row v d))"
  by (auto simp: evolves_def table_facts fresh_row_def keys_sql_upsert split: option.splits if_splits)

lemma evolves_delete [simp]: "evolves t (fst (sql_delete t cond))"
  by (auto simp: evolves_def table_facts keys_sql_delete split: option.splits if_splits)

lemma evolves_cas [simp]: "evolves t (fst (compare_and_set_versioned s t k v d e al))"
  by (simp add: cas_fst evolves_update)

lemma keeps_keys_simps [simp]:
  "keeps_keys t (fst (sql_update t cond f))"
  "keeps_keys t (fst (sql_delete t cond))"
  "keeps_keys t (sql_upsert t k r f)"
  by (auto simp: keeps_keys_def keys_sql_delete keys_sql_upsert)

lemma keeps_keys_insert: "sql_insert t k r = Some t' \<Longrightarrow> keeps_keys t t'"
  by (auto simp: keeps_keys_def dest: keys_sql_insert)

lemma keeps_keys_insert_updated:
  "sql_insert (fst (sql_update t cond f)) k r = Some t' \<Longrightarrow> keeps_keys t t'"
  by (auto simp: keeps_keys_def dest: keys_sql_insert)

lemma keeps_keys_replace [simp]: "keeps_keys t (retain_newest P n (sql_replace t k r))"
  by (auto simp: keeps_keys_def retain_newest_def sql_replace_def sql_delete_def Let_def
      distinct_map_filter_fst)

definition db_evolves :: "db \<Rightarrow> db \<Rightarrow> bool" where
  "db_evolves d d' \<longleftrightarrow>
     evolves (db_providers d) (db_providers d') \<and> keeps_keys (db_profiles d) (db_profiles d') \<and>
     evolves (db_sessions d) (db_sessions d') \<and> keeps_keys (db_grants d) (db_grants d') \<and>
     evolves (db_channels d) (db_channels d') \<and> keeps_keys (db_tokens d) (db_tokens d') \<and>
     evolves (db_users d) (db_users d') \<and> evolves (db_settings d) (db_settings d') \<and>
     evolves (db_nodes d) (db_nodes d') \<and> evolves (db_jobs d) (db_jobs d') \<and>
     evolves (db_producers d) (db_producers d') \<and> evolves (db_bindings d) (db_bindings d') \<and>
     keeps_keys (db_certs d) (db_certs d') \<and>
     keeps_keys (db_agent_logs d) (db_agent_logs d') \<and>
     keeps_keys (db_job_logs d) (db_job_logs d')"

lemma db_evolves_refl [simp]: "db_evolves d d"
  by (simp add: db_evolves_def)

lemma db_evolves_upd:
  "evolves (db_providers d) t1 \<Longrightarrow> db_evolves d (d\<lparr>db_providers := t1\<rparr>)"
  "keeps_keys (db_profiles d) t2 \<Longrightarrow> db_evolves d (d\<lparr>db_profiles := t2\<rparr>)"
  "evolves (db_sessions d) t3 \<Longrightarrow> db_evolves d (d\<lparr>db_sessions := t3\<rparr>)"
  "evolves (db_sessions d) t3 \<Longrightarrow> keeps_keys (db_grants d) t4 \<Longrightarrow>
     db_evolves d (d\<lparr>db_grants := t4, db_sessions := t3\<rparr>)"
  "evolves (db_sessions d) t3 \<Longrightarrow> keeps_keys (db_grants d) t4 \<Longrightarrow>
     db_evolves d (d\<lparr>db_sessions := t3, db_grants := t4\<rparr>)"
  "evolves (db_channels d) t5 \<Longrightarrow> db_evolves d (d\<lparr>db_channels := t5\<rparr>)"
  "keeps_keys (db_tokens d) t6 \<Longrightarrow> db_evolves d (d\<lparr>db_tokens := t6\<rparr>)"
  "evolves (db_users d) t7 \<Longrightarrow> db_evolves d (d\<lparr>db_users := t7\<rparr>)"
  "evolves (db_users d) t7 \<Longrightarrow> db_evolves d (d\<lparr>db_users := t7, db_user_columns := cols\<rparr>)"
  "evolves (db_settings d) t8 \<Longrightarrow> db_evolves d (d\<lparr>db_settings := t8\<rparr>)"
  by (simp_all add: db_evolves_def)

lemma db_evolves_upd_cluster:
  "evolves (db_nodes d) t1 \<Longrightarrow> db_evolves d (d\<lparr>db_nodes := t1\<rparr>)"
  "evolves (db_nodes d) t1 \<Longrightarrow> keeps_keys (db_certs d) t2 \<Longrightarrow>
     db_evolves d (d\<lparr>db_nodes := t1, db_certs := t2\<rparr>)"
  "evolves (db_nodes d) t1 \<Longrightarrow> evolves (db_bindings d) t3 \<Longrightarrow> keeps_keys (db_certs d) t2 \<Longrightarrow>
     db_evolves d (d\<lparr>db_nodes := t1, db_bindings := t3, db_certs := t2\<rparr>)"
  "evolves (db_jobs d) t4 \<Longrightarrow> db_evolves d (d\<lparr>db_jobs := t4\<rparr>)"
  "evolves (db_producers d) t5 \<Longrightarrow> db_evolves d (d\<lparr>db_producers := t5\<rparr>)"
  "evolves (db_bindings d) t3 \<Longrightarrow> db_evolves d (d\<lparr>db_bindings := t3\<rparr>)"
  "evolves (db_providers d) t6 \<Longrightarrow> evolves (db_bindings d) t3 \<Longrightarrow>
     db_evolves d (d\<lparr>db_providers := t6, db_bindings := t3\<rparr>)"
  "keeps_keys (db_agent_logs d) t7 \<Longrightarrow> db_evolves d (d\<lparr>db_agent_logs := t7\<rparr>)"
  "keeps_keys (db_job_logs d) t8 \<Longrightarrow> db_evolves d (d\<lparr>db_job_logs := t8\<rparr>)"
  by (simp_all add: db_evolves_def)

lemmas db_evolves_intros = db_evolves_upd db_evolves_upd_cluster

lemma evolves_provider_ops [repo_keys]:
  "db_evolves d (fst (createProvider d p))"
  "db_evolves d (fst (compareAndSetProvider d p r))"
  "db_evolves d (fst (beginProviderDeletion d i))"
  "db_evolves d (fst (finalizeProviderDeletion d i r))"
  "db_evolves d (putProfile d q)"
  "db_evolves d (deleteProfile d i)"
  by (auto simp: createProvider_def compareAndSetProvider_def
      beginProviderDeletion_def finalizeProviderDeletion_def putProfile_def deleteProfile_def
      Let_def case_prod_beta intro!: db_evolves_intros
      intro: evolves_insert keeps_keys_insert keeps_keys_insert_updated split: option.splits session_kind.splits write_result.splits)

lemma evolves_insert_session_and_grant [simp]:
  "db_evolves d (fst (insert_session_and_grant d s g))"
  by (auto simp: insert_session_and_grant_def intro!: db_evolves_intros
      intro: evolves_insert keeps_keys_insert keeps_keys_insert_updated split: option.splits)

lemma evolves_session_ops [repo_keys]:
  "db_evolves d (fst (createSessionWithPlaybackGrant d s g q))"
  "db_evolves d (fst (compareAndSetSession d s r))"
  "db_evolves d (fst (setSessionViewers d i r v t))"
  "db_evolves d (fst (touchSessionPlaybackActivity d i t t'))"
  "db_evolves d (fst (beginSessionDeletion d i opts))"
  "db_evolves d (deleteSessionAndRevokePlaybackGrants d i t)"
  by (auto simp: createSessionWithPlaybackGrant_def
      compareAndSetSession_def setSessionViewers_def touchSessionPlaybackActivity_def
      beginSessionDeletion_def revokePlaybackGrants_def deleteSessionAndRevokePlaybackGrants_def
      Let_def case_prod_beta intro!: db_evolves_intros
      intro: evolves_insert keeps_keys_insert keeps_keys_insert_updated split: option.splits session_kind.splits write_result.splits)

lemma evolves_channel_ops [repo_keys]:
  "db_evolves d (fst (createLiveChannel d c))"
  "db_evolves d (fst (createLiveChannelWithinCapacity d c m n))"
  "db_evolves d (fst (compareAndSetLiveChannel d c r))"
  "db_evolves d (fst (deleteLiveChannel d i r))"
  by (auto simp: createLiveChannel_def createLiveChannelWithinCapacity_def
      compareAndSetLiveChannel_def deleteLiveChannel_def
      Let_def case_prod_beta intro!: db_evolves_intros
      intro: evolves_insert keeps_keys_insert keeps_keys_insert_updated split: option.splits session_kind.splits write_result.splits)

lemma evolves_access_ops [repo_keys]:
  "db_evolves d (fst (usePersonalToken d tu))"
  "db_evolves d (revokePersonalToken d i t)"
  "db_evolves d (fst (createUserIdentity d u))"
  "db_evolves d (fst (compareAndSetUserIdentity d u r))"
  "db_evolves d (fst (compareAndSetUserIdentityPreservingOwner d u r))"
  "db_evolves d (fst (deleteUserIdentityPreservingOwner d i r b))"
  by (auto simp: usePersonalToken_def revokePersonalToken_def createUserIdentity_def
      compareAndSetUserIdentity_def compareAndSetUserIdentityPreservingOwner_def
      deleteUserIdentityPreservingOwner_def
      Let_def case_prod_beta intro!: db_evolves_intros
      intro: evolves_insert keeps_keys_insert keeps_keys_insert_updated split: option.splits session_kind.splits write_result.splits)

lemma evolves_setting_ops [repo_keys]:
  "db_evolves d (putSetting d k x t)"
  "db_evolves d (deleteSetting d k)"
  "db_evolves d (fst (putSettingIfAbsent d k x t))"
  "db_evolves d (fst (compareAndSetSetting d k x r t))"
  by (auto simp: putSetting_def deleteSetting_def putSettingIfAbsent_def compareAndSetSetting_def
      Let_def case_prod_beta intro!: db_evolves_intros
      intro: evolves_insert keeps_keys_insert keeps_keys_insert_updated split: option.splits session_kind.splits write_result.splits)

lemma evolves_node_ops [repo_keys]:
  "db_evolves d (fst (createNode d n c))"
  "db_evolves d (fst (ensureLocalNode d n))"
  "db_evolves d (fst (recordNodeHeartbeat d hb))"
  "db_evolves d (fst (setNodeDrain d dr))"
  "db_evolves d (fst (setNodeOperationalState d ou))"
  "db_evolves d (fst (removeNode d i r))"
  by (auto simp: createNode_def putNodeCertificate_def ensureLocalNode_def cas_node_def
      recordNodeHeartbeat_def setNodeDrain_def setNodeOperationalState_def removeNode_def
      Let_def case_prod_beta intro!: db_evolves_intros
      intro: evolves_insert keeps_keys_insert keeps_keys_insert_updated split: option.splits session_kind.splits write_result.splits)

lemma evolves_certificate_ops [repo_keys]:
  "db_evolves d (fst (rotateNodeCertificate d rot))"
  "db_evolves d (fst (revokeNode d rv))"
  by (auto simp: rotateNodeCertificate_def revokeNode_def cas_node_def putNodeCertificate_def
      revokeNodeCertificates_def revoke_bindings_of_def
      Let_def case_prod_beta intro!: db_evolves_intros
      intro: evolves_insert keeps_keys_insert keeps_keys_insert_updated split: option.splits session_kind.splits write_result.splits)

lemma evolves_job_ops [repo_keys]:
  "db_evolves d (fst (createSegmentJob d j))"
  "db_evolves d (fst (compareAndSetSegmentJob d j r al))"
  "db_evolves d (fst (completeSegmentJob d j r))"
  "db_evolves d (fst (cancelSegmentJob d j r))"
  "db_evolves d (fst (createVodProducer d p))"
  "db_evolves d (fst (compareAndSetVodProducer d p r pal))"
  by (auto simp: createSegmentJob_def compareAndSetSegmentJob_def completeSegmentJob_def
      cancelSegmentJob_def createVodProducer_def compareAndSetVodProducer_def
      Let_def case_prod_beta intro!: db_evolves_intros
      intro: evolves_insert keeps_keys_insert keeps_keys_insert_updated split: option.splits session_kind.splits write_result.splits)

lemma evolves_binding_ops [repo_keys]:
  "db_evolves d (fst (createProviderBinding d p b q))"
  "db_evolves d (fst (compareAndSetProviderBinding d b r bal))"
  "db_evolves d (fst (beginProviderBindingDeletion d i t))"
  "db_evolves d (fst (finalizeProviderBindingDeletion d i r))"
  by (auto simp: createProviderBinding_def insert_binding_def compareAndSetProviderBinding_def
      beginProviderBindingDeletion_def finalizeProviderBindingDeletion_def
      Let_def case_prod_beta intro!: db_evolves_intros
      intro: evolves_insert keeps_keys_insert keeps_keys_insert_updated split: option.splits session_kind.splits write_result.splits)

lemma evolves_log_ops [repo_keys]:
  "db_evolves d (putAgentLog d ae n)"
  "db_evolves d (putJobLog d je n)"
  by (auto simp: putAgentLog_def putJobLog_def
      Let_def case_prod_beta intro!: db_evolves_intros
      intro: evolves_insert keeps_keys_insert keeps_keys_insert_updated split: option.splits session_kind.splits write_result.splits)

lemma evolves_putPersonalToken [repo_keys]:
  "putPersonalToken d t = Inr d' \<Longrightarrow> db_evolves d d'"
  by (auto simp: putPersonalToken_def intro!: db_evolves_intros
      intro: evolves_insert keeps_keys_insert keeps_keys_insert_updated split: if_splits)

lemma exec_catalog_op_evolves: "db_evolves d (exec_catalog_op x d)"
  by (cases x) (auto simp: repo_keys split: sum.splits)

lemma exec_session_op_evolves: "db_evolves d (exec_session_op x d)"
  by (cases x) (auto simp: repo_keys split: sum.splits)

lemma exec_channel_op_evolves: "db_evolves d (exec_channel_op x d)"
  by (cases x) (auto simp: repo_keys split: sum.splits)

lemma exec_access_op_evolves: "db_evolves d (exec_access_op x d)"
  by (cases x) (auto simp: repo_keys split: sum.splits)

lemma exec_setting_op_evolves: "db_evolves d (exec_setting_op x d)"
  by (cases x) (auto simp: repo_keys split: sum.splits)

lemma exec_node_op_evolves: "db_evolves d (exec_node_op x d)"
  by (cases x) (auto simp: repo_keys split: sum.splits)

lemma exec_job_op_evolves: "db_evolves d (exec_job_op x d)"
  by (cases x) (auto simp: repo_keys split: sum.splits)

lemma exec_binding_op_evolves: "db_evolves d (exec_binding_op x d)"
  by (cases x) (auto simp: repo_keys split: sum.splits)

lemma exec_log_op_evolves: "db_evolves d (exec_log_op x d)"
  by (cases x) (auto simp: repo_keys split: sum.splits)

lemmas exec_group_evolves =
  exec_catalog_op_evolves exec_session_op_evolves exec_channel_op_evolves exec_access_op_evolves exec_setting_op_evolves exec_node_op_evolves exec_job_op_evolves exec_binding_op_evolves exec_log_op_evolves

lemma exec_op_evolves: "db_evolves d (exec_op x d)"
  by (cases x) (simp_all add: exec_group_evolves)

end
