(* ===== verification/RelayHistory.thy ===== *)
theory RelayHistory
  imports RelayRepoOps
begin

text \<open>
  Histories of repository operations: runs, the uniqueness of the keys along them, which
  tables each group of operations leaves alone, and the absence of lost updates on the
  tables whose rows are never deleted (segment jobs and VOD producers): equal revisions
  at two moments mean that the row did not change in between.
\<close>

section \<open>Histories\<close>

fun run_ops :: "repo_op list \<Rightarrow> db \<Rightarrow> db" where
  "run_ops [] d = d"
| "run_ops (x # xs) d = run_ops xs (exec_op x d)"

lemma run_ops_append [simp]: "run_ops (xs @ ys) d = run_ops ys (run_ops xs d)"
  by (induction xs arbitrary: d) auto

lemma run_ops_invariant:
  assumes "\<And>x d. x \<in> set xs \<Longrightarrow> P d \<Longrightarrow> P (exec_op x d)" and "P d"
  shows "P (run_ops xs d)"
  using assms by (induction xs arbitrary: d) auto

definition keys_unique :: "db \<Rightarrow> bool" where
  "keys_unique d \<longleftrightarrow>
     keys_ok (db_providers d) \<and> keys_ok (db_profiles d) \<and> keys_ok (db_sessions d) \<and>
     keys_ok (db_grants d) \<and> keys_ok (db_channels d) \<and> keys_ok (db_tokens d) \<and>
     keys_ok (db_users d) \<and> keys_ok (db_settings d) \<and> keys_ok (db_nodes d) \<and>
     keys_ok (db_jobs d) \<and> keys_ok (db_producers d) \<and> keys_ok (db_bindings d) \<and>
     keys_ok (db_certs d) \<and> keys_ok (db_agent_logs d) \<and> keys_ok (db_job_logs d)"

lemma keys_unique_empty: "keys_unique empty_db"
  by (simp add: keys_unique_def empty_db_def)

lemma keys_unique_evolves: "db_evolves d d' \<Longrightarrow> keys_unique d \<Longrightarrow> keys_unique d'"
  by (simp add: db_evolves_def keys_unique_def evolves_def keeps_keys_def)

lemma keys_unique_exec: "keys_unique d \<Longrightarrow> keys_unique (exec_op x d)"
  by (rule keys_unique_evolves[OF exec_op_evolves])

lemma keys_unique_run: "keys_unique d \<Longrightarrow> keys_unique (run_ops xs d)"
  by (rule run_ops_invariant) (auto intro: keys_unique_exec)

lemma keys_uniqueD:
  assumes "keys_unique d"
  shows "keys_ok (db_providers d)" "keys_ok (db_sessions d)" "keys_ok (db_grants d)"
    "keys_ok (db_channels d)" "keys_ok (db_users d)" "keys_ok (db_nodes d)" "keys_ok (db_jobs d)"
    "keys_ok (db_producers d)" "keys_ok (db_bindings d)" "keys_ok (db_certs d)"
    "keys_ok (db_settings d)" "keys_ok (db_tokens d)"
  using assms by (simp_all add: keys_unique_def)

section \<open>What each group of operations leaves alone\<close>

lemmas op_splits = option.splits session_kind.splits write_result.splits sum.splits prod.splits

lemma catalog_frame:
  "db_sessions (exec_catalog_op x d) = db_sessions d \<and> db_grants (exec_catalog_op x d) = db_grants d \<and>
   db_channels (exec_catalog_op x d) = db_channels d \<and> db_users (exec_catalog_op x d) = db_users d \<and>
   db_nodes (exec_catalog_op x d) = db_nodes d \<and> db_certs (exec_catalog_op x d) = db_certs d \<and>
   db_jobs (exec_catalog_op x d) = db_jobs d \<and> db_producers (exec_catalog_op x d) = db_producers d \<and>
   db_bindings (exec_catalog_op x d) = db_bindings d"
  by (cases x) (simp_all add: createProvider_def compareAndSetProvider_def beginProviderDeletion_def
      finalizeProviderDeletion_def putProfile_def deleteProfile_def Let_def case_prod_beta
      split: option.split)

lemma insert_session_and_grant_frame:
  "db_providers (fst (insert_session_and_grant d s g)) = db_providers d \<and>
   db_channels (fst (insert_session_and_grant d s g)) = db_channels d \<and>
   db_users (fst (insert_session_and_grant d s g)) = db_users d \<and>
   db_nodes (fst (insert_session_and_grant d s g)) = db_nodes d \<and>
   db_certs (fst (insert_session_and_grant d s g)) = db_certs d \<and>
   db_jobs (fst (insert_session_and_grant d s g)) = db_jobs d \<and>
   db_producers (fst (insert_session_and_grant d s g)) = db_producers d \<and>
   db_bindings (fst (insert_session_and_grant d s g)) = db_bindings d"
  by (simp add: insert_session_and_grant_def split: option.split)

lemma session_frame:
  "db_providers (exec_session_op x d) = db_providers d \<and> db_channels (exec_session_op x d) = db_channels d \<and>
   db_users (exec_session_op x d) = db_users d \<and> db_nodes (exec_session_op x d) = db_nodes d \<and>
   db_certs (exec_session_op x d) = db_certs d \<and> db_jobs (exec_session_op x d) = db_jobs d \<and>
   db_producers (exec_session_op x d) = db_producers d \<and> db_bindings (exec_session_op x d) = db_bindings d"
  by (cases x) (simp_all add: createSessionWithPlaybackGrant_def insert_session_and_grant_frame
      compareAndSetSession_def setSessionViewers_def touchSessionPlaybackActivity_def
      beginSessionDeletion_def revokePlaybackGrants_def deleteSessionAndRevokePlaybackGrants_def
      Let_def case_prod_beta split: option.split session_kind.split)

lemma channel_frame:
  "db_sessions (exec_channel_op x d) = db_sessions d \<and> db_grants (exec_channel_op x d) = db_grants d \<and>
   db_providers (exec_channel_op x d) = db_providers d \<and> db_users (exec_channel_op x d) = db_users d \<and>
   db_nodes (exec_channel_op x d) = db_nodes d \<and> db_certs (exec_channel_op x d) = db_certs d \<and>
   db_jobs (exec_channel_op x d) = db_jobs d \<and> db_producers (exec_channel_op x d) = db_producers d \<and>
   db_bindings (exec_channel_op x d) = db_bindings d"
  by (cases x) (simp_all add: createLiveChannel_def createLiveChannelWithinCapacity_def
      compareAndSetLiveChannel_def deleteLiveChannel_def Let_def case_prod_beta split: option.split)

lemma access_frame:
  "db_sessions (exec_access_op x d) = db_sessions d \<and> db_grants (exec_access_op x d) = db_grants d \<and>
   db_providers (exec_access_op x d) = db_providers d \<and> db_channels (exec_access_op x d) = db_channels d \<and>
   db_nodes (exec_access_op x d) = db_nodes d \<and> db_certs (exec_access_op x d) = db_certs d \<and>
   db_jobs (exec_access_op x d) = db_jobs d \<and> db_producers (exec_access_op x d) = db_producers d \<and>
   db_bindings (exec_access_op x d) = db_bindings d"
  by (cases x) (simp_all add: putPersonalToken_def usePersonalToken_def revokePersonalToken_def
      createUserIdentity_def compareAndSetUserIdentity_def compareAndSetUserIdentityPreservingOwner_def
      deleteUserIdentityPreservingOwner_def Let_def case_prod_beta split: option.split)

lemma setting_frame:
  "db_sessions (exec_setting_op x d) = db_sessions d \<and> db_grants (exec_setting_op x d) = db_grants d \<and>
   db_providers (exec_setting_op x d) = db_providers d \<and> db_channels (exec_setting_op x d) = db_channels d \<and>
   db_users (exec_setting_op x d) = db_users d \<and>
   db_nodes (exec_setting_op x d) = db_nodes d \<and> db_certs (exec_setting_op x d) = db_certs d \<and>
   db_jobs (exec_setting_op x d) = db_jobs d \<and> db_producers (exec_setting_op x d) = db_producers d \<and>
   db_bindings (exec_setting_op x d) = db_bindings d"
  by (cases x) (simp_all add: putSetting_def deleteSetting_def putSettingIfAbsent_def
      compareAndSetSetting_def Let_def case_prod_beta split: option.split)

lemma node_frame:
  "db_sessions (exec_node_op x d) = db_sessions d \<and> db_grants (exec_node_op x d) = db_grants d \<and>
   db_providers (exec_node_op x d) = db_providers d \<and> db_channels (exec_node_op x d) = db_channels d \<and>
   db_users (exec_node_op x d) = db_users d \<and>
   db_jobs (exec_node_op x d) = db_jobs d \<and> db_producers (exec_node_op x d) = db_producers d"
  by (cases x) (auto simp: createNode_def putNodeCertificate_def ensureLocalNode_def cas_node_def
      recordNodeHeartbeat_def setNodeDrain_def setNodeOperationalState_def removeNode_def
      rotateNodeCertificate_def revokeNode_def revokeNodeCertificates_def revoke_bindings_of_def
      Let_def case_prod_beta split: option.split write_result.split)

lemma job_frame:
  "db_sessions (exec_job_op x d) = db_sessions d \<and> db_grants (exec_job_op x d) = db_grants d \<and>
   db_providers (exec_job_op x d) = db_providers d \<and> db_channels (exec_job_op x d) = db_channels d \<and>
   db_users (exec_job_op x d) = db_users d \<and>
   db_nodes (exec_job_op x d) = db_nodes d \<and> db_certs (exec_job_op x d) = db_certs d \<and>
   db_bindings (exec_job_op x d) = db_bindings d"
  by (cases x) (simp_all add: createSegmentJob_def compareAndSetSegmentJob_def completeSegmentJob_def
      cancelSegmentJob_def createVodProducer_def compareAndSetVodProducer_def Let_def case_prod_beta
      split: option.split)

lemma binding_frame:
  "db_sessions (exec_binding_op x d) = db_sessions d \<and> db_grants (exec_binding_op x d) = db_grants d \<and>
   db_channels (exec_binding_op x d) = db_channels d \<and> db_users (exec_binding_op x d) = db_users d \<and>
   db_nodes (exec_binding_op x d) = db_nodes d \<and> db_certs (exec_binding_op x d) = db_certs d \<and>
   db_jobs (exec_binding_op x d) = db_jobs d \<and> db_producers (exec_binding_op x d) = db_producers d"
  by (cases x) (simp_all add: createProviderBinding_def insert_binding_def
      compareAndSetProviderBinding_def beginProviderBindingDeletion_def
      finalizeProviderBindingDeletion_def Let_def case_prod_beta split: option.split)

lemma log_frame:
  "db_sessions (exec_log_op x d) = db_sessions d \<and> db_grants (exec_log_op x d) = db_grants d \<and>
   db_providers (exec_log_op x d) = db_providers d \<and> db_channels (exec_log_op x d) = db_channels d \<and>
   db_users (exec_log_op x d) = db_users d \<and>
   db_nodes (exec_log_op x d) = db_nodes d \<and> db_certs (exec_log_op x d) = db_certs d \<and>
   db_jobs (exec_log_op x d) = db_jobs d \<and> db_producers (exec_log_op x d) = db_producers d \<and>
   db_bindings (exec_log_op x d) = db_bindings d"
  by (cases x) (simp_all add: putAgentLog_def putJobLog_def)

lemmas frames =
  catalog_frame session_frame channel_frame access_frame setting_frame node_frame job_frame
  binding_frame log_frame

section \<open>Jobs and producers only move forward\<close>

text \<open>Every row stays, and is either unchanged or has a higher revision.\<close>

definition advances :: "'a table \<Rightarrow> 'a table \<Rightarrow> bool" where
  "advances t t' \<longleftrightarrow>
     (\<forall>k r. map_of t k = Some r \<longrightarrow>
        (\<exists>r'. map_of t' k = Some r' \<and> (r' = r \<or> row_revision r < row_revision r')))"

lemma advances_refl [simp]: "advances t t"
  by (simp add: advances_def)

lemma advances_trans:
  assumes "advances t u" and "advances u v"
  shows "advances t v"
  unfolding advances_def
proof (intro allI impI)
  fix k r
  assume "map_of t k = Some r"
  then obtain r1 where r1: "map_of u k = Some r1" "r1 = r \<or> row_revision r < row_revision r1"
    using assms(1) by (auto simp: advances_def)
  then obtain r2 where "map_of v k = Some r2" "r2 = r1 \<or> row_revision r1 < row_revision r2"
    using assms(2) by (auto simp: advances_def)
  with r1 show "\<exists>r'. map_of v k = Some r' \<and> (r' = r \<or> row_revision r < row_revision r')" by auto
qed

lemma advances_insert_or_ignore [simp]: "advances t (fst (sql_insert_or_ignore t k r))"
  by (simp add: advances_def table_facts)

lemma advances_update [simp]:
  "(\<And>r. row_revision (f r) = Suc (row_revision r)) \<Longrightarrow> advances t (fst (sql_update t cond f))"
  by (auto simp: advances_def table_facts)

lemma advances_cas [simp]: "advances t (fst (compare_and_set_versioned s t k v d e al))"
  by (simp add: cas_fst)

lemma job_op_advances:
  "advances (db_jobs d) (db_jobs (exec_job_op x d)) \<and>
   advances (db_producers d) (db_producers (exec_job_op x d))"
  by (cases x) (simp_all add: createSegmentJob_def compareAndSetSegmentJob_def completeSegmentJob_def
      cancelSegmentJob_def createVodProducer_def compareAndSetVodProducer_def Let_def case_prod_beta
      split: option.split)

lemma exec_op_advances:
  "advances (db_jobs d) (db_jobs (exec_op x d)) \<and> advances (db_producers d) (db_producers (exec_op x d))"
  by (cases x) (simp_all add: frames job_op_advances)

lemma run_ops_advances:
  "advances (db_jobs d) (db_jobs (run_ops xs d)) \<and>
   advances (db_producers d) (db_producers (run_ops xs d))"
proof (induction xs arbitrary: d)
  case (Cons x xs)
  then show ?case using exec_op_advances[of d x] by (auto intro: advances_trans)
qed simp

lemma same_revision_same_row:
  assumes "advances t t'" and "map_of t k = Some r" and "map_of t' k = Some r'"
    and "row_revision r' = row_revision r"
  shows "r' = r"
  using assms by (fastforce simp: advances_def)

end
