(* ===== verification/RelayReferences.thy ===== *)
theory RelayReferences
  imports RelayHistory
begin

text \<open>
  References between the tables, along every history: a VOD session has its provider, a live
  session its channel, a binding its provider and its node, and a provider that is being
  deleted is named by no VOD session and no binding. Along every history of typed operations
  it has no dependencies at all, so its deletion can always be finalized; an active
  playback grant has its session.
\<close>

section \<open>Typed operations\<close>

text \<open>
  What the TypeScript types and the callers guarantee of the arguments: a live session is
  created without a media source (\<^verbatim>\<open>session-service.ts\<close> builds one only for a VOD), no
  node is created or ensured in the state \<^verbatim>\<open>revoked\<close>, and the states a heartbeat or an
  operational update may report are those of their union types.
\<close>

fun typed_op :: "repo_op \<Rightarrow> bool" where
  "typed_op (SessionOp (OpCreateSession s g r)) = (ses_kind s = Live \<longrightarrow> ses_source s = None)"
| "typed_op (NodeOp (OpCreateNode n c)) = (node_state n \<noteq> NodeRevoked)"
| "typed_op (NodeOp (OpEnsureLocalNode n)) = (node_state n \<noteq> NodeRevoked)"
| "typed_op (NodeOp (OpHeartbeat u)) = (hb_reportedState u \<in> {NodeOnline, NodeDegraded, NodeDraining})"
| "typed_op (NodeOp (OpOperational u)) = (op_state u \<in> {NodeOnline, NodeDegraded, NodeOffline})"
| "typed_op _ = True"

section \<open>Sessions\<close>

lemma sameSessionIdentity_refl [simp]: "sameSessionIdentity s s"
  by (simp add: sameSessionIdentity_def sameMediaSource_def split: option.split)

lemma sameSessionIdentity_upd [simp]:
  "sameSessionIdentity s (s\<lparr>ses_viewers := v, ses_updatedAt := t\<rparr>)"
  "sameSessionIdentity s (s\<lparr>ses_lastPlaybackActivityAt := x\<rparr>)"
  "sameSessionIdentity s (s\<lparr>ses_state := st, ses_deletionPending := b, ses_updatedAt := t\<rparr>)"
  by (simp_all add: sameSessionIdentity_def sameMediaSource_def split: option.split)

lemma sameSessionIdentityD:
  assumes "sameSessionIdentity a b"
  shows "ses_id b = ses_id a" "ses_kind b = ses_kind a" "ses_liveChannelId b = ses_liveChannelId a"
    "map_option src_providerId (ses_source b) = map_option src_providerId (ses_source a)"
  using assms by (auto simp: sameSessionIdentity_def sameMediaSource_def split: option.splits)

definition session_admitted :: "db \<Rightarrow> relay_session \<Rightarrow> bool" where
  "session_admitted d s \<longleftrightarrow>
     (case ses_kind s of
        Vod \<Rightarrow> (\<exists>src p. ses_source s = Some src \<and>
                  map_of (db_providers d) (src_providerId src) = Some p \<and> \<not> row_pending p)
      | Live \<Rightarrow> (\<exists>c. ses_liveChannelId s = Some c \<and> map_of (db_channels d) c \<noteq> None))"

lemma insert_session_and_grant_rows:
  "map_of (db_sessions (fst (insert_session_and_grant d s g))) k = Some r' \<Longrightarrow>
     map_of (db_sessions d) k = Some r' \<or>
     (map_of (db_sessions d) k = None \<and> k = ses_id s \<and> row_json r' = s)"
  by (auto simp: insert_session_and_grant_def sql_insert_Some map_of_snoc fresh_row_def
      split: option.splits if_splits)

lemma create_session_cases:
  obtains (unchanged) "fst (createSessionWithPlaybackGrant d s g q) = d"
  | (inserted) "fst (createSessionWithPlaybackGrant d s g q) = fst (insert_session_and_grant d s g)"
      "grant_sessionId g = ses_id s" "session_admitted d s"
proof (cases "fst (createSessionWithPlaybackGrant d s g q) = d")
  case False
  then have "fst (createSessionWithPlaybackGrant d s g q) = fst (insert_session_and_grant d s g) \<and>
      grant_sessionId g = ses_id s \<and> session_admitted d s"
    unfolding createSessionWithPlaybackGrant_def getStoredProvider_def
    by (auto simp: session_admitted_def get_versioned_def split: option.splits session_kind.splits if_splits)
  then show ?thesis using inserted by blast
qed (rule unchanged)

lemma cas_session_rows:
  assumes "keys_ok (db_sessions d)"
    and "map_of (db_sessions (fst (compareAndSetSession d s e))) k = Some r'"
  shows "\<exists>r. map_of (db_sessions d) k = Some r \<and> sameSessionIdentity (row_json r) (row_json r')"
  using assms
  by (auto simp: compareAndSetSession_def getVersionedSession_def get_versioned_def Let_def
      case_prod_beta map_of_cas split: option.splits if_splits)

lemma session_rows:
  assumes keys: "keys_ok (db_sessions d)"
    and row: "map_of (db_sessions (exec_session_op x d)) k = Some r'"
  shows "(\<exists>r. map_of (db_sessions d) k = Some r \<and> sameSessionIdentity (row_json r) (row_json r')) \<or>
         (\<exists>s g q. x = OpCreateSession s g q \<and> k = ses_id s \<and> row_json r' = s \<and> session_admitted d s)"
proof (cases x)
  case (OpCreateSession s g q)
  show ?thesis
  proof (cases rule: create_session_cases[of d s g q])
    case unchanged
    then show ?thesis using row OpCreateSession by auto
  next
    case inserted
    then show ?thesis
      using insert_session_and_grant_rows[of d s g k r'] row OpCreateSession by auto
  qed
next
  case (OpCasSession s e)
  then show ?thesis using cas_session_rows[OF keys] row by simp
next
  case (OpSetSessionViewers i e v t)
  then show ?thesis using row cas_session_rows[OF keys]
    by (auto simp: setSessionViewers_def Let_def case_prod_beta split: option.splits if_splits)
next
  case (OpTouchSession i a b)
  then show ?thesis using row
    by (auto simp: touchSessionPlaybackActivity_def Let_def case_prod_beta map_of_sql_update
        split: if_splits)
next
  case (OpBeginSessionDeletion i opts)
  then show ?thesis using row
    by (auto simp: beginSessionDeletion_def revokePlaybackGrants_def getVersionedSession_def
        get_versioned_def Let_def case_prod_beta map_of_sql_update
        split: option.splits if_splits)
next
  case (OpDeleteSession i t)
  then show ?thesis using row keys
    by (auto simp: deleteSessionAndRevokePlaybackGrants_def revokePlaybackGrants_def Let_def
        map_of_sql_delete split: option.splits if_splits)
qed

section \<open>Dependencies\<close>

lemma ball_table: "keys_ok t \<Longrightarrow> (\<forall>p \<in> set t. P (fst p) (snd p)) \<longleftrightarrow> (\<forall>k r. map_of t k = Some r \<longrightarrow> P k r)"
  by (fastforce dest: map_of_is_SomeI map_of_SomeD)

definition provider_free :: "db \<Rightarrow> ident \<Rightarrow> bool" where
  "provider_free d i \<longleftrightarrow>
     (\<forall>k r. map_of (db_sessions d) k = Some r \<longrightarrow>
        map_option src_providerId (ses_source (row_json r)) \<noteq> Some i) \<and>
     (\<forall>k r. map_of (db_bindings d) k = Some r \<longrightarrow> bind_providerId (row_json r) \<noteq> i)"

lemma filter_pair_empty:
  "filter (\<lambda>(_, r). P r) t = [] \<longleftrightarrow> (\<forall>p \<in> set t. \<not> P (snd p))"
  by (auto simp: filter_empty_conv)

lemma sort_eq_Nil: "sort xs = [] \<longleftrightarrow> xs = []"
  by (metis set_empty set_sort)

lemma providerDependencies_Nil:
  assumes "keys_ok (db_sessions d)" "keys_ok (db_bindings d)"
  shows "providerDependencies d i = [] \<longleftrightarrow> provider_free d i"
  using ball_table[OF assms(1), of "\<lambda>_ r. map_option src_providerId (ses_source (row_json r)) \<noteq> Some i"]
    ball_table[OF assms(2), of "\<lambda>_ r. bind_providerId (row_json r) \<noteq> i"]
  by (simp add: providerDependencies_def provider_free_def filter_pair_empty sort_eq_Nil)

lemma node_bindings_Nil:
  assumes "keys_ok (db_bindings d)"
  shows "node_bindings d i = [] \<longleftrightarrow> (\<forall>k r. map_of (db_bindings d) k = Some r \<longrightarrow> bind_nodeId (row_json r) \<noteq> i)"
  using ball_table[OF assms, of "\<lambda>_ r. bind_nodeId (row_json r) \<noteq> i"]
  by (simp add: node_bindings_def filter_pair_empty)

section \<open>Providers\<close>

text \<open>
  How one operation treats the row of a provider. A pending row stays as it is until it is
  removed, and it is removed only without dependencies.
\<close>

definition provider_row_step :: "db \<Rightarrow> db \<Rightarrow> ident \<Rightarrow> bool" where
  "provider_row_step d d' k \<longleftrightarrow>
     (case (map_of (db_providers d) k, map_of (db_providers d') k) of
        (None, None) \<Rightarrow> True
      | (None, Some p') \<Rightarrow> \<not> row_pending p'
      | (Some p, None) \<Rightarrow> row_pending p \<and> providerDependencies d k = []
      | (Some p, Some p') \<Rightarrow>
          (row_pending p \<longrightarrow> p' = p) \<and>
          (row_pending p' \<longrightarrow> p' = p \<or> providerDependencies d k = []))"

lemma provider_row_step_same [simp]:
  "map_of (db_providers d') k = map_of (db_providers d) k \<Longrightarrow> provider_row_step d d' k"
  by (simp add: provider_row_step_def split: option.split)

lemma catalog_provider_row:
  assumes "keys_ok (db_providers d)"
  shows "provider_row_step d (exec_catalog_op x d) k"
proof (cases x)
  case (OpCreateProvider p)
  then show ?thesis
    by (auto simp: createProvider_def sql_insert_Some map_of_snoc fresh_row_def provider_row_step_def
        split: option.splits)
next
  case (OpCasProvider p e)
  then show ?thesis
    by (auto simp: compareAndSetProvider_def Let_def case_prod_beta map_of_sql_update
        provider_row_step_def split: option.splits)
next
  case (OpBeginProviderDeletion i)
  then show ?thesis
    by (auto simp: beginProviderDeletion_def getStoredProvider_def Let_def case_prod_beta
        map_of_sql_update provider_row_step_def split: option.splits)
next
  case (OpFinalizeProviderDeletion i e)
  then show ?thesis using assms
    by (auto simp: finalizeProviderDeletion_def getStoredProvider_def Let_def case_prod_beta
        map_of_sql_delete provider_row_step_def split: option.splits)
qed (simp_all add: putProfile_def deleteProfile_def)

lemma insert_binding_cases:
  obtains (unchanged) "fst (insert_binding d0 d1 p b) = d0"
  | (inserted) "map_of (db_bindings d1) (bind_id b) = None"
      "fst (insert_binding d0 d1 p b) = d1\<lparr>db_bindings := db_bindings d1 @
         [(bind_id b, fresh_row (storedProviderBinding b False) (bind_updatedAt b))]\<rparr>"
proof (cases "map_of (db_bindings d1) (bind_id b)")
  case None
  then have "fst (insert_binding d0 d1 p b) = d1\<lparr>db_bindings := db_bindings d1 @
         [(bind_id b, fresh_row (storedProviderBinding b False) (bind_updatedAt b))]\<rparr>"
    by (simp add: insert_binding_def Let_def sql_insert_def storedProviderBinding_def)
  with None show ?thesis by (rule inserted)
next
  case (Some r)
  then show ?thesis
    by (intro unchanged) (simp add: insert_binding_def Let_def sql_insert_def storedProviderBinding_def)
qed

text \<open>The providers table with which a binding of provider \<open>p\<close> is inserted.\<close>

definition binding_providers ::
    "db \<Rightarrow> provider_connection \<Rightarrow> nat option \<Rightarrow> provider_connection table \<Rightarrow> bool" where
  "binding_providers d p q t \<longleftrightarrow>
     (case q of
        None \<Rightarrow> map_of (db_providers d) (prov_id p) = None \<and>
                t = db_providers d @ [(prov_id p, fresh_row p (prov_updatedAt p))]
      | Some e \<Rightarrow>
          (\<exists>r sp. map_of (db_providers d) (prov_id p) = Some r \<and> \<not> row_pending r \<and>
             t = fst (sql_update (db_providers d)
                   (\<lambda>k r. k = prov_id sp \<and> row_revision r = e \<and> \<not> row_pending r)
                   (bump_row sp (prov_updatedAt sp)))))"

lemma create_binding_new_provider:
  assumes "fst (createProviderBinding d p b None) \<noteq> d"
  shows "\<exists>t sp. fst (createProviderBinding d p b None) = fst (insert_binding d (d\<lparr>db_providers := t\<rparr>) sp b) \<and>
           binding_providers d p None t"
  using assms unfolding createProviderBinding_def binding_providers_def getStoredProvider_def sql_insert_def
  by (simp split: option.splits if_splits) blast

lemma create_binding_old_provider:
  assumes "fst (createProviderBinding d p b (Some e)) \<noteq> d"
  shows "\<exists>t sp. fst (createProviderBinding d p b (Some e)) = fst (insert_binding d (d\<lparr>db_providers := t\<rparr>) sp b) \<and>
           binding_providers d p (Some e) t"
proof (cases "map_of (db_providers d) (prov_id p)")
  case None
  with assms show ?thesis
    by (simp add: createProviderBinding_def getStoredProvider_def split: option.splits if_splits)
next
  case (Some r)
  let ?sp = "mergeProviderMetadata (row_json r) p"
  let ?t = "fst (sql_update (db_providers d)
      (\<lambda>k r. k = prov_id ?sp \<and> row_revision r = e \<and> \<not> row_pending r)
      (bump_row ?sp (prov_updatedAt ?sp)))"
  have "fst (createProviderBinding d p b (Some e)) = fst (insert_binding d (d\<lparr>db_providers := ?t\<rparr>) ?sp b)
      \<and> \<not> row_pending r"
    using assms Some
    by (auto simp: createProviderBinding_def getStoredProvider_def Let_def case_prod_beta
        split: option.splits if_splits)
  then show ?thesis using Some by (auto simp: binding_providers_def)
qed

lemma create_binding_checks:
  assumes "fst (createProviderBinding d p b q) \<noteq> d"
  shows "bind_providerId b = prov_id p" "map_of (db_nodes d) (bind_nodeId b) \<noteq> None"
  using assms
  by (auto simp: createProviderBinding_def getVersionedNode_def get_versioned_def
      split: option.splits if_splits)

lemma binding_providers_step:
  assumes "binding_providers d p q t"
  shows "provider_row_step d (d\<lparr>db_providers := t\<rparr>) k"
    and "\<exists>r. map_of t (prov_id p) = Some r \<and> \<not> row_pending r"
  using assms
  by (auto simp: binding_providers_def provider_row_step_def map_of_snoc map_of_sql_update fresh_row_def
      split: option.splits)

lemma create_binding_cases:
  obtains (unchanged) "fst (createProviderBinding d p b q) = d"
  | (created) t where "fst (createProviderBinding d p b q) =
        d\<lparr>db_providers := t, db_bindings := db_bindings d @
           [(bind_id b, fresh_row (storedProviderBinding b False) (bind_updatedAt b))]\<rparr>"
      "map_of (db_bindings d) (bind_id b) = None" "bind_providerId b = prov_id p"
      "map_of (db_nodes d) (bind_nodeId b) \<noteq> None" "binding_providers d p q t"
proof (cases "fst (createProviderBinding d p b q) = d")
  case False
  then obtain t sp where t: "fst (createProviderBinding d p b q) = fst (insert_binding d (d\<lparr>db_providers := t\<rparr>) sp b)"
      "binding_providers d p q t"
    using create_binding_new_provider[of d p b] create_binding_old_provider[of d p b "the q"]
    by (cases q) fastforce+
  show ?thesis
  proof (cases rule: insert_binding_cases[of d "d\<lparr>db_providers := t\<rparr>" sp b])
    case unchanged
    then show ?thesis using t False by simp
  next
    case inserted
    then show ?thesis using created[of t] t create_binding_checks[OF False] by simp
  qed
qed (rule unchanged)

lemma binding_op_provider_row:
  "provider_row_step d (exec_binding_op x d) k"
proof (cases x)
  case (OpCreateBinding p b q)
  show ?thesis
  proof (cases rule: create_binding_cases[of d p b q])
    case unchanged
    then show ?thesis using OpCreateBinding by simp
  next
    case (created t)
    then show ?thesis using binding_providers_step(1)[OF created(5), of k] OpCreateBinding
      by (simp add: provider_row_step_def)
  qed
qed (simp_all add: compareAndSetProviderBinding_def beginProviderBindingDeletion_def
      finalizeProviderBindingDeletion_def Let_def case_prod_beta split: option.split)

lemma exec_provider_row:
  assumes "keys_unique d"
  shows "provider_row_step d (exec_op x d) k"
  using catalog_provider_row[OF keys_uniqueD(1)[OF assms]] binding_op_provider_row
  by (cases x) (simp_all add: frames)

section \<open>Bindings\<close>

text \<open>A binding keeps its identity; a new one has its node and a provider that stays.\<close>

definition same_binding :: "provider_binding \<Rightarrow> provider_binding \<Rightarrow> bool" where
  "same_binding a b \<longleftrightarrow>
     bind_id b = bind_id a \<and> bind_providerId b = bind_providerId a \<and> bind_nodeId b = bind_nodeId a"

lemma same_binding_simps [simp]:
  "same_binding b b"
  "same_binding b (storedProviderBinding b x)"
  "same_binding b ((storedProviderBinding b x)\<lparr>bind_reachable := r, bind_state := st,
     bind_deletionPending := dp, bind_lastError := le, bind_updatedAt := ua\<rparr>)"
  "same_binding b (b\<lparr>bind_reachable := r, bind_state := st,
     bind_deletionPending := dp, bind_lastError := le, bind_updatedAt := ua\<rparr>)"
  by (simp_all add: same_binding_def storedProviderBinding_def)

definition new_binding_row :: "db \<Rightarrow> db \<Rightarrow> ident \<Rightarrow> provider_binding \<Rightarrow> bool" where
  "new_binding_row d d' k b \<longleftrightarrow>
     bind_id b = k \<and> map_of (db_nodes d) (bind_nodeId b) \<noteq> None \<and>
     (\<exists>p. map_of (db_providers d') (bind_providerId b) = Some p \<and> \<not> row_pending p)"

lemma binding_op_rows:
  assumes keys: "keys_ok (db_bindings d)"
    and row: "map_of (db_bindings (exec_binding_op x d)) k = Some r'"
    and ids: "\<And>k r. map_of (db_bindings d) k = Some r \<Longrightarrow> bind_id (row_json r) = k"
  shows "(\<exists>r. map_of (db_bindings d) k = Some r \<and> same_binding (row_json r) (row_json r')) \<or>
         new_binding_row d (exec_binding_op x d) k (row_json r')"
proof (cases x)
  case (OpCreateBinding p b q)
  show ?thesis
  proof (cases rule: create_binding_cases[of d p b q])
    case unchanged
    then show ?thesis using row OpCreateBinding by auto
  next
    case (created t)
    with binding_providers_step(2)[OF created(5)] row OpCreateBinding show ?thesis
      by (auto simp: map_of_snoc fresh_row_def new_binding_row_def storedProviderBinding_def
          split: if_splits)
  qed
next
  case (OpCasBinding b e al)
  with row ids show ?thesis
    by (auto simp: compareAndSetProviderBinding_def Let_def case_prod_beta map_of_sql_update
        same_binding_def storedProviderBinding_def split: option.splits if_splits)
next
  case (OpBeginBindingDeletion i t)
  with row show ?thesis
    by (auto simp: beginProviderBindingDeletion_def getStoredProviderBinding_def Let_def case_prod_beta
        map_of_sql_update split: option.splits if_splits)
next
  case (OpFinalizeBindingDeletion i e)
  with row keys show ?thesis
    by (auto simp: finalizeProviderBindingDeletion_def getStoredProviderBinding_def Let_def
        case_prod_beta map_of_sql_delete split: option.splits if_splits)
qed

lemma node_op_bindings:
  "map_of (db_bindings (exec_node_op x d)) k = Some r' \<Longrightarrow>
     \<exists>r. map_of (db_bindings d) k = Some r \<and> same_binding (row_json r) (row_json r')"
  by (cases x) (auto simp: createNode_def putNodeCertificate_def ensureLocalNode_def cas_node_def
      recordNodeHeartbeat_def setNodeDrain_def setNodeOperationalState_def removeNode_def
      rotateNodeCertificate_def revokeNode_def revokeNodeCertificates_def revoke_bindings_of_def
      Let_def case_prod_beta map_of_sql_update split: option.splits write_result.splits if_splits)

section \<open>Channels and nodes are removed only when nothing refers to them\<close>

lemma channel_removed:
  assumes "keys_ok (db_channels d)" "keys_ok (db_sessions d)"
    and "map_of (db_channels d) k \<noteq> None" "map_of (db_channels (exec_channel_op x d)) k = None"
    and "map_of (db_sessions d) j = Some r"
  shows "ses_liveChannelId (row_json r) \<noteq> Some k"
proof (cases x)
  case (OpDeleteLiveChannel i e)
  with assms have "i = k" and free: "\<not> (\<exists>p \<in> set (db_sessions d). ses_liveChannelId (row_json (snd p)) = Some i)"
    by (auto simp: deleteLiveChannel_def Let_def case_prod_beta map_of_sql_delete
        split: option.splits if_splits)
  then show ?thesis using assms(5)[THEN map_of_SomeD] by fastforce
qed (use assms in \<open>auto simp: createLiveChannel_def createLiveChannelWithinCapacity_def
      compareAndSetLiveChannel_def sql_insert_Some map_of_snoc map_of_cas Let_def case_prod_beta
      split: option.splits if_splits\<close>)

lemma cas_node_keeps_row:
  "map_of (db_nodes (fst (cas_node d i n t e al))) k = None \<longleftrightarrow> map_of (db_nodes d) k = None"
  by (simp add: cas_node_def Let_def case_prod_beta map_of_cas)

lemma node_removed:
  assumes "keys_ok (db_nodes d)"
    and "map_of (db_nodes d) k \<noteq> None" "map_of (db_nodes (exec_node_op x d)) k = None"
  shows "node_bindings d k = []"
proof (cases x)
  case (OpRemoveNode i e)
  with assms show ?thesis
    by (auto simp: removeNode_def getVersionedNode_def Let_def case_prod_beta map_of_sql_delete
        split: option.splits if_splits)
next
  case (OpCreateNode n c)
  with assms show ?thesis
    by (auto simp: createNode_def putNodeCertificate_def sql_insert_Some map_of_snoc
        split: option.splits if_splits)
next
  case (OpEnsureLocalNode n)
  with assms show ?thesis
    by (auto simp: ensureLocalNode_def sql_insert_Some map_of_snoc cas_node_keeps_row Let_def
        case_prod_beta split: option.splits write_result.splits if_splits)
next
  case (OpRotate u)
  with assms show ?thesis
    by (auto simp: rotateNodeCertificate_def putNodeCertificate_def revokeNodeCertificates_def
        cas_node_keeps_row Let_def case_prod_beta split: option.splits if_splits)
qed (use assms in \<open>auto simp: recordNodeHeartbeat_def setNodeDrain_def setNodeOperationalState_def
      revokeNode_def revokeNodeCertificates_def revoke_bindings_of_def cas_node_keeps_row Let_def
      case_prod_beta split: option.splits if_splits\<close>)

section \<open>The invariant\<close>

definition session_ref :: "db \<Rightarrow> ident \<Rightarrow> relay_session \<Rightarrow> bool" where
  "session_ref d k s \<longleftrightarrow>
     ses_id s = k \<and>
     (case ses_kind s of
        Vod \<Rightarrow> (\<exists>src. ses_source s = Some src \<and> map_of (db_providers d) (src_providerId src) \<noteq> None)
      | Live \<Rightarrow> (\<exists>c. ses_liveChannelId s = Some c \<and> map_of (db_channels d) c \<noteq> None))"

definition binding_ref :: "db \<Rightarrow> ident \<Rightarrow> provider_binding \<Rightarrow> bool" where
  "binding_ref d k b \<longleftrightarrow>
     bind_id b = k \<and> map_of (db_providers d) (bind_providerId b) \<noteq> None \<and>
     map_of (db_nodes d) (bind_nodeId b) \<noteq> None"

text \<open>
  \<open>refs_hold\<close> holds along every history. The schema lets a live session carry a media source, which
  the creation does not look at; a typed history has none, and then \<open>refs_ok\<close> holds: a provider
  that is being deleted is named by no session at all.
\<close>

definition provider_unplayed :: "db \<Rightarrow> ident \<Rightarrow> bool" where
  "provider_unplayed d i \<longleftrightarrow>
     (\<forall>k r. map_of (db_sessions d) k = Some r \<longrightarrow> ses_kind (row_json r) = Vod \<longrightarrow>
        map_option src_providerId (ses_source (row_json r)) \<noteq> Some i) \<and>
     (\<forall>k r. map_of (db_bindings d) k = Some r \<longrightarrow> bind_providerId (row_json r) \<noteq> i)"

definition refs_hold :: "db \<Rightarrow> bool" where
  "refs_hold d \<longleftrightarrow> keys_unique d \<and>
     (\<forall>k r. map_of (db_sessions d) k = Some r \<longrightarrow> session_ref d k (row_json r)) \<and>
     (\<forall>k r. map_of (db_bindings d) k = Some r \<longrightarrow> binding_ref d k (row_json r)) \<and>
     (\<forall>k p. map_of (db_providers d) k = Some p \<longrightarrow> row_pending p \<longrightarrow> provider_unplayed d k)"

definition live_sourceless :: "db \<Rightarrow> bool" where
  "live_sourceless d \<longleftrightarrow>
     (\<forall>k r. map_of (db_sessions d) k = Some r \<longrightarrow> ses_kind (row_json r) = Live \<longrightarrow> ses_source (row_json r) = None)"

definition refs_ok :: "db \<Rightarrow> bool" where
  "refs_ok d \<longleftrightarrow> refs_hold d \<and> live_sourceless d"

lemma refs_hold_empty: "refs_hold empty_db"
  by (simp add: refs_hold_def keys_unique_empty) (simp add: empty_db_def)

lemma refs_ok_empty: "refs_ok empty_db"
  using refs_hold_empty by (simp add: refs_ok_def live_sourceless_def empty_db_def)

lemma session_ref_cong:
  assumes "sameSessionIdentity s s'" and "session_ref d k s"
  shows "session_ref d k s'"
proof -
  note same = sameSessionIdentityD[OF assms(1)]
  have "ses_source s' = None \<longleftrightarrow> ses_source s = None"
    using same(4) by (metis option.map_disc_iff)
  with same assms(2) show ?thesis
    by (auto simp: session_ref_def split: session_kind.splits) 
qed

lemma exec_session_group:
  "db_sessions (exec_op x d) \<noteq> db_sessions d \<Longrightarrow> \<exists>y. x = SessionOp y"
  by (cases x) (simp_all add: frames)

lemma exec_binding_group:
  "db_bindings (exec_op x d) \<noteq> db_bindings d \<Longrightarrow> (\<exists>y. x = BindingOp y) \<or> (\<exists>y. x = NodeOp y)"
  by (cases x) (simp_all add: frames)

lemma exec_channel_group:
  "db_channels (exec_op x d) \<noteq> db_channels d \<Longrightarrow> \<exists>y. x = ChannelOp y"
  by (cases x) (simp_all add: frames)

lemma exec_node_group:
  "db_nodes (exec_op x d) \<noteq> db_nodes d \<Longrightarrow> \<exists>y. x = NodeOp y"
  by (cases x) (simp_all add: frames)

text \<open>Rows after one operation: an old one with its identity, or a new one that was admitted.\<close>

lemma exec_session_rows:
  assumes "keys_unique d" and "map_of (db_sessions (exec_op x d)) k = Some r'"
  shows "(\<exists>r. map_of (db_sessions d) k = Some r \<and> sameSessionIdentity (row_json r) (row_json r')) \<or>
         (ses_id (row_json r') = k \<and> session_admitted d (row_json r') \<and>
          db_providers (exec_op x d) = db_providers d \<and> db_channels (exec_op x d) = db_channels d \<and>
          (typed_op x \<longrightarrow> ses_kind (row_json r') = Live \<longrightarrow> ses_source (row_json r') = None))"
proof (cases "db_sessions (exec_op x d) = db_sessions d")
  case True
  then show ?thesis using assms(2) by auto
next
  case False
  then obtain y where y: "x = SessionOp y" using exec_session_group by blast
  have "(\<exists>r. map_of (db_sessions d) k = Some r \<and> sameSessionIdentity (row_json r) (row_json r')) \<or>
      (\<exists>s g q. y = OpCreateSession s g q \<and> k = ses_id s \<and> row_json r' = s \<and> session_admitted d s)"
    by (rule session_rows) (use assms y keys_uniqueD in auto)
  then show ?thesis
  proof
    assume "\<exists>s g q. y = OpCreateSession s g q \<and> k = ses_id s \<and> row_json r' = s \<and> session_admitted d s"
    then obtain s g q where "y = OpCreateSession s g q" "k = ses_id s" "row_json r' = s" "session_admitted d s"
      by blast
    moreover from this have "typed_op x \<longrightarrow> ses_kind s = Live \<longrightarrow> ses_source s = None" using y by simp
    ultimately show ?thesis using session_frame[of y d] y by simp
  qed simp
qed

lemma exec_binding_rows:
  assumes "keys_unique d" and "map_of (db_bindings (exec_op x d)) k = Some r'"
    and "\<And>k r. map_of (db_bindings d) k = Some r \<Longrightarrow> bind_id (row_json r) = k"
  shows "(\<exists>r. map_of (db_bindings d) k = Some r \<and> same_binding (row_json r) (row_json r')) \<or>
         (new_binding_row d (exec_op x d) k (row_json r') \<and> db_nodes (exec_op x d) = db_nodes d)"
proof (cases "db_bindings (exec_op x d) = db_bindings d")
  case True
  then show ?thesis using assms(2) by auto
next
  case False
  then consider (b) y where "x = BindingOp y" | (n) y where "x = NodeOp y"
    using exec_binding_group by blast
  then show ?thesis
  proof cases
    case b
    then show ?thesis using binding_op_rows[OF keys_uniqueD(9)[OF assms(1)], of y k r'] assms(2,3)
        binding_frame[of y d] by simp
  next
    case n
    then show ?thesis using node_op_bindings[of y d k r'] assms(2) by auto
  qed
qed

lemma refs_holdD:
  assumes "refs_hold d"
  shows "keys_unique d"
    and "map_of (db_sessions d) k = Some r \<Longrightarrow> session_ref d k (row_json r)"
    and "map_of (db_bindings d) k = Some b \<Longrightarrow> binding_ref d k (row_json b)"
    and "map_of (db_providers d) k = Some p \<Longrightarrow> row_pending p \<Longrightarrow> provider_unplayed d k"
  using assms by (auto simp: refs_hold_def)

lemma unplayed_free: "live_sourceless d \<Longrightarrow> provider_unplayed d k \<Longrightarrow> provider_free d k"
  unfolding live_sourceless_def provider_unplayed_def provider_free_def
  by (metis (full_types) option.simps(3,8) session_kind.exhaust)

lemma free_unplayed: "provider_free d k \<Longrightarrow> provider_unplayed d k"
  by (simp add: provider_free_def provider_unplayed_def)

lemma refs_okD:
  assumes "refs_ok d"
  shows "keys_unique d"
    and "map_of (db_sessions d) k = Some r \<Longrightarrow> session_ref d k (row_json r)"
    and "map_of (db_bindings d) k = Some b \<Longrightarrow> binding_ref d k (row_json b)"
    and "map_of (db_providers d) k = Some p \<Longrightarrow> row_pending p \<Longrightarrow> provider_free d k"
  using assms unplayed_free by (auto simp: refs_ok_def refs_hold_def)

lemma provider_free_iff:
  "keys_unique d \<Longrightarrow> providerDependencies d i = [] \<longleftrightarrow> provider_free d i"
  by (rule providerDependencies_Nil) (simp_all add: keys_uniqueD)

lemma provider_stays:
  assumes "keys_unique d" and "map_of (db_providers d) i \<noteq> None" and "\<not> provider_free d i"
  shows "map_of (db_providers (exec_op x d)) i \<noteq> None"
  using exec_provider_row[OF assms(1), of x i] assms provider_free_iff[OF assms(1), of i]
  by (auto simp: provider_row_step_def split: option.splits)

lemma channel_stays:
  assumes "keys_unique d" and "map_of (db_channels d) c \<noteq> None"
    and "map_of (db_sessions d) j = Some r" and "ses_liveChannelId (row_json r) = Some c"
  shows "map_of (db_channels (exec_op x d)) c \<noteq> None"
proof (cases "db_channels (exec_op x d) = db_channels d")
  case False
  then obtain y where "x = ChannelOp y" using exec_channel_group by blast
  then show ?thesis
    using channel_removed[OF keys_uniqueD(4,2)[OF assms(1)], of c y j r] assms by auto
qed (use assms in simp)

lemma node_stays:
  assumes "keys_unique d" and "map_of (db_nodes d) i \<noteq> None"
    and "map_of (db_bindings d) j = Some r" and "bind_nodeId (row_json r) = i"
  shows "map_of (db_nodes (exec_op x d)) i \<noteq> None"
proof (cases "db_nodes (exec_op x d) = db_nodes d")
  case False
  then obtain y where "x = NodeOp y" using exec_node_group by blast
  moreover have "node_bindings d i \<noteq> []"
    using node_bindings_Nil[OF keys_uniqueD(9)[OF assms(1)], of i] assms(3,4) by auto
  ultimately show ?thesis using node_removed[OF keys_uniqueD(6)[OF assms(1)], of i y] assms(2) by auto
qed (use assms in simp)

lemma session_ref_exec:
  assumes ok: "refs_hold d"
    and row: "map_of (db_sessions (exec_op x d)) k = Some r'"
  shows "session_ref (exec_op x d) k (row_json r')"
  using exec_session_rows[OF refs_holdD(1)[OF ok] row]
proof
  assume "\<exists>r. map_of (db_sessions d) k = Some r \<and> sameSessionIdentity (row_json r) (row_json r')"
  then obtain r where r: "map_of (db_sessions d) k = Some r"
    and same: "sameSessionIdentity (row_json r) (row_json r')" by blast
  have ref: "session_ref d k (row_json r)" using refs_holdD(2)[OF ok r] .
  have "session_ref (exec_op x d) k (row_json r)"
  proof (cases "ses_kind (row_json r)")
    case Vod
    with ref obtain src where src: "ses_source (row_json r) = Some src"
      "map_of (db_providers d) (src_providerId src) \<noteq> None" "ses_id (row_json r) = k"
      by (auto simp: session_ref_def)
    then have "\<not> provider_free d (src_providerId src)" using r by (auto simp: provider_free_def)
    with src provider_stays[OF refs_holdD(1)[OF ok]] Vod show ?thesis by (simp add: session_ref_def)
  next
    case Live
    with ref obtain c where c: "ses_liveChannelId (row_json r) = Some c"
      "map_of (db_channels d) c \<noteq> None" "ses_id (row_json r) = k"
      by (auto simp: session_ref_def)
    with channel_stays[OF refs_holdD(1)[OF ok] c(2) r c(1)] Live show ?thesis by (simp add: session_ref_def)
  qed
  then show ?thesis by (rule session_ref_cong[OF same])
next
  assume "ses_id (row_json r') = k \<and> session_admitted d (row_json r') \<and>
      db_providers (exec_op x d) = db_providers d \<and> db_channels (exec_op x d) = db_channels d \<and>
      (typed_op x \<longrightarrow> ses_kind (row_json r') = Live \<longrightarrow> ses_source (row_json r') = None)"
  then show ?thesis by (auto simp: session_ref_def session_admitted_def split: session_kind.splits)
qed

lemma binding_ref_exec:
  assumes ok: "refs_hold d" and row: "map_of (db_bindings (exec_op x d)) k = Some r'"
  shows "binding_ref (exec_op x d) k (row_json r')"
proof -
  have ids: "bind_id (row_json r) = j" if "map_of (db_bindings d) j = Some r" for j r
    using refs_holdD(3)[OF ok that] by (simp add: binding_ref_def)
  show ?thesis
    using exec_binding_rows[OF refs_holdD(1)[OF ok] row ids]
  proof
    assume "\<exists>r. map_of (db_bindings d) k = Some r \<and> same_binding (row_json r) (row_json r')"
    then obtain r where r: "map_of (db_bindings d) k = Some r"
      and same: "same_binding (row_json r) (row_json r')" by blast
    have ref: "binding_ref d k (row_json r)" using refs_holdD(3)[OF ok r] .
    then have "\<not> provider_free d (bind_providerId (row_json r))"
      using r by (auto simp: provider_free_def)
    then show ?thesis
      using provider_stays[OF refs_holdD(1)[OF ok], of _ x]
        node_stays[OF refs_holdD(1)[OF ok] _ r, of _ x] ref same
      by (simp add: binding_ref_def same_binding_def)
  next
    assume "new_binding_row d (exec_op x d) k (row_json r') \<and> db_nodes (exec_op x d) = db_nodes d"
    then show ?thesis by (auto simp: new_binding_row_def binding_ref_def)
  qed
qed

lemma pending_unplayed_exec:
  assumes ok: "refs_hold d"
    and p': "map_of (db_providers (exec_op x d)) k = Some p'" "row_pending p'"
  shows "provider_unplayed (exec_op x d) k"
proof -
  note keys = refs_holdD(1)[OF ok]
  have free: "provider_unplayed d k"
    using exec_provider_row[OF keys, of x k] p' provider_free_iff[OF keys, of k] free_unplayed[of d k] refs_holdD(4)[OF ok, of k]
    by (auto simp: provider_row_step_def split: option.splits)
  have ids: "bind_id (row_json r) = j" if "map_of (db_bindings d) j = Some r" for j r
    using refs_holdD(3)[OF ok that] by (simp add: binding_ref_def)
  have "map_option src_providerId (ses_source (row_json r)) \<noteq> Some k"
    if r: "map_of (db_sessions (exec_op x d)) j = Some r" and vod: "ses_kind (row_json r) = Vod" for j r
    using exec_session_rows[OF keys r]
  proof
    assume "\<exists>r0. map_of (db_sessions d) j = Some r0 \<and> sameSessionIdentity (row_json r0) (row_json r)"
    then obtain r0 where "map_of (db_sessions d) j = Some r0"
      and same: "sameSessionIdentity (row_json r0) (row_json r)" by blast
    then have "map_option src_providerId (ses_source (row_json r0)) \<noteq> Some k"
      using free sameSessionIdentityD(2)[OF same] vod by (simp add: provider_unplayed_def)
    then show ?thesis using sameSessionIdentityD(4)[OF same] by simp
  next
    assume "ses_id (row_json r) = j \<and> session_admitted d (row_json r) \<and>
      db_providers (exec_op x d) = db_providers d \<and> db_channels (exec_op x d) = db_channels d \<and>
      (typed_op x \<longrightarrow> ses_kind (row_json r) = Live \<longrightarrow> ses_source (row_json r) = None)"
    then show ?thesis using p' vod by (auto simp: session_admitted_def split: session_kind.splits)
  qed
  moreover have "bind_providerId (row_json r) \<noteq> k"
    if r: "map_of (db_bindings (exec_op x d)) j = Some r" for j r
    using exec_binding_rows[OF keys r ids]
  proof
    assume "\<exists>r0. map_of (db_bindings d) j = Some r0 \<and> same_binding (row_json r0) (row_json r)"
    then obtain r0 where "map_of (db_bindings d) j = Some r0"
      and same: "same_binding (row_json r0) (row_json r)" by blast
    then have "bind_providerId (row_json r0) \<noteq> k" using free by (simp add: provider_unplayed_def)
    then show ?thesis using same by (simp add: same_binding_def)
  next
    assume "new_binding_row d (exec_op x d) j (row_json r) \<and> db_nodes (exec_op x d) = db_nodes d"
    then show ?thesis using p' by (auto simp: new_binding_row_def)
  qed
  ultimately show ?thesis unfolding provider_unplayed_def by blast
qed

lemma refs_hold_exec:
  assumes "refs_hold d"
  shows "refs_hold (exec_op x d)"
  unfolding refs_hold_def
  using keys_unique_exec[OF refs_holdD(1)[OF assms]] session_ref_exec[OF assms]
    binding_ref_exec[OF assms] pending_unplayed_exec[OF assms]
  by blast

lemma refs_hold_run: "refs_hold (run_ops xs empty_db)"
  by (rule run_ops_invariant) (auto intro: refs_hold_empty refs_hold_exec)

lemma live_sourceless_exec:
  assumes keys: "keys_unique d" and old: "live_sourceless d" and typed: "typed_op x"
  shows "live_sourceless (exec_op x d)"
  unfolding live_sourceless_def
proof (intro allI impI)
  fix k r
  assume r: "map_of (db_sessions (exec_op x d)) k = Some r" "ses_kind (row_json r) = Live"
  from exec_session_rows[OF keys r(1)] show "ses_source (row_json r) = None"
  proof
    assume "\<exists>r0. map_of (db_sessions d) k = Some r0 \<and> sameSessionIdentity (row_json r0) (row_json r)"
    then obtain r0 where "map_of (db_sessions d) k = Some r0"
      and same: "sameSessionIdentity (row_json r0) (row_json r)" by blast
    then have "ses_source (row_json r0) = None"
      using old sameSessionIdentityD(2)[OF same] r(2) by (simp add: live_sourceless_def)
    then show ?thesis using sameSessionIdentityD(4)[OF same] by simp
  qed (use typed r(2) in simp)
qed

lemma refs_ok_exec:
  assumes "refs_ok d" and "typed_op x"
  shows "refs_ok (exec_op x d)"
  using assms refs_hold_exec live_sourceless_exec refs_holdD(1) by (simp add: refs_ok_def)

text \<open>The databases a typed history can reach.\<close>

inductive reachable_db :: "db \<Rightarrow> bool" where
  reachable_empty: "reachable_db empty_db"
| reachable_step: "reachable_db d \<Longrightarrow> typed_op x \<Longrightarrow> reachable_db (exec_op x d)"

lemma reachable_run: "reachable_db d \<Longrightarrow> \<forall>x \<in> set xs. typed_op x \<Longrightarrow> reachable_db (run_ops xs d)"
  by (induction xs arbitrary: d) (auto intro: reachable_step)

lemma reachable_refs_ok: "reachable_db d \<Longrightarrow> refs_ok d"
  by (induction rule: reachable_db.induct) (auto intro: refs_ok_empty refs_ok_exec)

section \<open>A provider deletion that has begun can be finished\<close>

lemma begin_provider_deletion_pending:
  assumes "keys_ok (db_providers d)"
    and "beginProviderDeletion d i = (d', resolve (Applied v))"
  shows "\<exists>p. map_of (db_providers d') i = Some p \<and> row_pending p \<and>
             v = versioned (row_json p) (row_revision p)"
proof (cases "map_of (db_providers d) i")
  case None
  with assms(2) show ?thesis by (simp add: beginProviderDeletion_def getStoredProvider_def)
next
  case (Some p)
  with assms(2) sql_update_count_key[OF assms(1), of i "\<lambda>r. row_revision r = row_revision p \<and> \<not> row_pending r"]
  show ?thesis
    by (auto simp: beginProviderDeletion_def getStoredProvider_def Let_def case_prod_beta
        map_of_sql_update split: if_splits)
qed

lemma finalize_pending_provider:
  assumes "refs_ok d" and p: "map_of (db_providers d) i = Some p" "row_pending p"
  shows "snd (finalizeProviderDeletion d i (row_revision p)) =
           resolve (Deleted (versioned (row_json p) (row_revision p)))"
    and "map_of (db_providers (fst (finalizeProviderDeletion d i (row_revision p)))) i = None"
proof -
  note keys = refs_okD(1)[OF assms(1)]
  have deps: "providerDependencies d i = []"
    using refs_okD(4)[OF assms(1) p] provider_free_iff[OF keys] by simp
  have "snd (sql_delete (db_providers d) (\<lambda>k r. k = i \<and> row_revision r = row_revision p \<and> row_pending r)) = 1"
    using sql_delete_count_key[OF keys_uniqueD(1)[OF keys], of i
        "\<lambda>r. row_revision r = row_revision p \<and> row_pending r"] p by simp
  then show "snd (finalizeProviderDeletion d i (row_revision p)) =
        resolve (Deleted (versioned (row_json p) (row_revision p)))"
    and "map_of (db_providers (fst (finalizeProviderDeletion d i (row_revision p)))) i = None"
    using p deps keys_uniqueD(1)[OF keys]
    by (simp_all add: finalizeProviderDeletion_def getStoredProvider_def Let_def case_prod_beta
        map_of_sql_delete)
qed

lemma pending_provider_stays:
  assumes "keys_unique d" and "map_of (db_providers d) i = Some p" "row_pending p"
  shows "(\<exists>ys zs. xs = ys @ zs \<and> map_of (db_providers (run_ops ys d)) i = None) \<or>
         map_of (db_providers (run_ops xs d)) i = Some p"
  using assms
proof (induction xs arbitrary: d)
  case (Cons x xs)
  from exec_provider_row[OF Cons.prems(1), of x i] Cons.prems(2,3)
  consider (gone) "map_of (db_providers (exec_op x d)) i = None"
    | (same) "map_of (db_providers (exec_op x d)) i = Some p"
    by (auto simp: provider_row_step_def split: option.splits)
  then show ?case
  proof cases
    case gone
    then have "map_of (db_providers (run_ops [x] d)) i = None" by simp
    then show ?thesis by (intro disjI1 exI[of _ "[x]"] exI[of _ xs]) simp
  next
    case same
    from Cons.IH[OF keys_unique_exec[OF Cons.prems(1)] same Cons.prems(3)] show ?thesis
    proof
      assume "\<exists>ys zs. xs = ys @ zs \<and> map_of (db_providers (run_ops ys (exec_op x d))) i = None"
      then obtain ys zs where "xs = ys @ zs" "map_of (db_providers (run_ops (x # ys) d)) i = None" by auto
      then show ?thesis by (intro disjI1 exI[of _ "x # ys"] exI[of _ zs]) simp
    qed simp
  qed
qed simp

section \<open>Playback grants\<close>

definition grants_ok :: "db \<Rightarrow> bool" where
  "grants_ok d \<longleftrightarrow>
     (\<forall>k g. map_of (db_grants d) k = Some g \<longrightarrow> grant_revokedAt (row_json g) = None \<longrightarrow>
        map_of (db_sessions d) (grant_sessionId (row_json g)) \<noteq> None)"

lemma revoked_grants:
  "map_of (db_grants (revokePlaybackGrants d i t)) k = Some g \<Longrightarrow> grant_revokedAt (row_json g) = None \<Longrightarrow>
     map_of (db_grants d) k = Some g \<and> grant_sessionId (row_json g) \<noteq> i"
proof -
  assume g: "map_of (db_grants (revokePlaybackGrants d i t)) k = Some g" "grant_revokedAt (row_json g) = None"
  then obtain g0 where g0: "map_of (db_grants d) k = Some g0"
    by (auto simp: revokePlaybackGrants_def map_of_sql_update)
  with g show ?thesis
    by (cases "grant_sessionId (row_json g0) = i \<and> grant_revokedAt (row_json g0) = None")
       (auto simp: revokePlaybackGrants_def map_of_sql_update split: if_splits)
qed

lemma grants_ok_create:
  assumes "grants_ok d"
  shows "grants_ok (fst (createSessionWithPlaybackGrant d s g q))"
proof (cases rule: create_session_cases[of d s g q])
  case unchanged
  then show ?thesis using assms by simp
next
  case inserted
  then show ?thesis using assms unfolding inserted(1)
    by (auto simp: insert_session_and_grant_def sql_insert_Some grants_ok_def map_of_snoc fresh_row_def
        split: option.splits)
qed

lemma cas_session_grants:
  "db_grants (fst (compareAndSetSession d s e)) = db_grants d"
  "map_of (db_sessions (fst (compareAndSetSession d s e))) k = None \<longleftrightarrow> map_of (db_sessions d) k = None"
  by (simp_all add: compareAndSetSession_def Let_def case_prod_beta map_of_cas split: option.split)

lemma grants_ok_cas: "grants_ok d \<Longrightarrow> grants_ok (fst (compareAndSetSession d s e))"
  by (simp add: grants_ok_def cas_session_grants)

lemma grants_ok_session_op:
  assumes "keys_unique d" and "grants_ok d"
  shows "grants_ok (exec_session_op x d)"
proof (cases x)
  case (OpCreateSession s g q)
  then show ?thesis using grants_ok_create[OF assms(2)] by simp
next
  case (OpCasSession s e)
  then show ?thesis using grants_ok_cas[OF assms(2)] by simp
next
  case (OpSetSessionViewers i e v t)
  then show ?thesis using assms(2) grants_ok_cas[OF assms(2)]
    by (simp add: setSessionViewers_def Let_def case_prod_beta split: option.split)
next
  case (OpTouchSession i a b)
  then show ?thesis using assms(2)
    by (simp add: grants_ok_def touchSessionPlaybackActivity_def Let_def case_prod_beta map_of_sql_update)
next
  case (OpBeginSessionDeletion i opts)
  then show ?thesis using assms(2)
    by (auto simp: grants_ok_def beginSessionDeletion_def revokePlaybackGrants_def Let_def case_prod_beta
        map_of_sql_update split: option.split if_splits)
next
  case (OpDeleteSession i t)
  let ?d = "revokePlaybackGrants d i t"
  let ?d' = "?d\<lparr>db_sessions := fst (sql_delete (db_sessions ?d) (\<lambda>k _. k = i))\<rparr>"
  have eq: "exec_session_op x d = ?d'"
    using OpDeleteSession by (simp add: deleteSessionAndRevokePlaybackGrants_def Let_def)
  have sessions: "map_of (db_sessions ?d') j = (if j = i then None else map_of (db_sessions d) j)" for j
    using keys_uniqueD(2)[OF assms(1)]
    by (simp add: revokePlaybackGrants_def map_of_sql_delete split: option.split)
  show ?thesis
    unfolding grants_ok_def eq
  proof (intro allI impI)
    fix k g
    assume "map_of (db_grants ?d') k = Some g" "grant_revokedAt (row_json g) = None"
    then have "map_of (db_grants d) k = Some g" "grant_sessionId (row_json g) \<noteq> i"
      using revoked_grants[of d i t k g] by simp_all
    with assms(2) \<open>grant_revokedAt (row_json g) = None\<close>
    show "map_of (db_sessions ?d') (grant_sessionId (row_json g)) \<noteq> None"
      unfolding sessions by (simp add: grants_ok_def)
  qed
qed

lemma grants_ok_exec:
  assumes "keys_unique d" and "grants_ok d"
  shows "grants_ok (exec_op x d)"
  using grants_ok_session_op[OF assms] assms(2) by (cases x) (simp_all add: frames grants_ok_def)

lemma reachable_grants_ok: "reachable_db d \<Longrightarrow> grants_ok d"
proof (induction rule: reachable_db.induct)
  case reachable_empty
  then show ?case by (simp add: grants_ok_def empty_db_def)
next
  case (reachable_step d x)
  then show ?case using grants_ok_exec refs_okD(1)[OF reachable_refs_ok] by blast
qed

text \<open>The transaction that begins a deletion leaves no active grant of the session.\<close>

lemma begin_session_deletion_revokes:
  assumes "beginSessionDeletion d i opts = (d', resolve (Applied v))"
    and "map_of (db_grants d') k = Some g" and "grant_sessionId (row_json g) = i"
  shows "grant_revokedAt (row_json g) \<noteq> None"
proof -
  from assms(1) obtain d1 where "d' = revokePlaybackGrants d1 i (sdo_observedAt opts)"
    by (auto simp: beginSessionDeletion_def Let_def case_prod_beta split: option.splits if_splits)
  with assms(2,3) revoked_grants[of d1 i "sdo_observedAt opts" k g] show ?thesis by auto
qed

end
