(* ===== verification/RelayNodes.thy ===== *)
theory RelayNodes
  imports RelayReferences
begin

text \<open>
  Cluster nodes and their certificates along every history of typed operations: draining
  and revoked nodes stay so under heartbeats and operational updates, a revocation is
  final, an active certificate belongs to a node that exists and is not revoked, and a
  node has at most one active certificate.
\<close>

section \<open>Rows of the nodes table\<close>

definition node_ids_ok :: "db \<Rightarrow> bool" where
  "node_ids_ok d \<longleftrightarrow> (\<forall>k r. map_of (db_nodes d) k = Some r \<longrightarrow> node_id (row_json r) = k)"

definition active_cert :: "db \<Rightarrow> ident \<Rightarrow> node_certificate \<Rightarrow> bool" where
  "active_cert d s c \<longleftrightarrow>
     (\<exists>r. map_of (db_certs d) s = Some r \<and> row_json r = c \<and> cert_revokedAt c = None)"

definition node_trusted :: "db \<Rightarrow> ident \<Rightarrow> bool" where
  "node_trusted d i \<longleftrightarrow>
     (\<exists>r. map_of (db_nodes d) i = Some r \<and> node_state (row_json r) \<noteq> NodeRevoked)"

definition certs_ok :: "db \<Rightarrow> bool" where
  "certs_ok d \<longleftrightarrow>
     (\<forall>s c. active_cert d s c \<longrightarrow> node_trusted d (cert_nodeId c)) \<and>
     (\<forall>s c s' c'. active_cert d s c \<longrightarrow> active_cert d s' c' \<longrightarrow> cert_nodeId c = cert_nodeId c' \<longrightarrow> s = s')"

lemma cas_node_row:
  "map_of (db_nodes (fst (cas_node d i n t e al))) k =
     map_option (\<lambda>r. if k = i \<and> cas_cond node_state e al r then bump_row n t r else r)
       (map_of (db_nodes d) k)"
  by (simp add: cas_node_def Let_def case_prod_beta map_of_cas)

lemma cas_node_certs [simp]: "db_certs (fst (cas_node d i n t e al)) = db_certs d"
  by (simp add: cas_node_def Let_def case_prod_beta)

lemma active_cert_cong: "db_certs d' = db_certs d \<Longrightarrow> active_cert d' s c = active_cert d s c"
  by (simp add: active_cert_def)

text \<open>
  A step of one node row: the identifier stays, and a revoked node stays revoked while its
  row is there.
\<close>

definition node_row_step :: "cluster_node row \<Rightarrow> cluster_node row \<Rightarrow> bool" where
  "node_row_step r r' \<longleftrightarrow>
     node_id (row_json r') = node_id (row_json r) \<and>
     (node_state (row_json r) = NodeRevoked \<longrightarrow> node_state (row_json r') = NodeRevoked)"

lemma node_row_step_refl [simp]: "node_row_step r r"
  by (simp add: node_row_step_def)

lemma heartbeat_row:
  assumes "node_ids_ok d" and "typed_op (NodeOp (OpHeartbeat u))"
    and "map_of (db_nodes (fst (recordNodeHeartbeat d u))) k = Some r'"
  shows "\<exists>r. map_of (db_nodes d) k = Some r \<and> node_row_step r r' \<and>
             (node_state (row_json r') = NodeRevoked \<longrightarrow> node_state (row_json r) = NodeRevoked)"
  using assms
  by (auto simp: recordNodeHeartbeat_def getVersionedNode_def get_versioned_Some Let_def cas_node_row
      node_ids_ok_def node_row_step_def cas_cond_def split: option.splits if_splits)

lemma drain_row:
  assumes "node_ids_ok d"
    and "map_of (db_nodes (fst (setNodeDrain d u))) k = Some r'"
  shows "\<exists>r. map_of (db_nodes d) k = Some r \<and> node_row_step r r' \<and>
             (node_state (row_json r') = NodeRevoked \<longrightarrow> node_state (row_json r) = NodeRevoked)"
  using assms
  by (auto simp: setNodeDrain_def getVersionedNode_def get_versioned_Some Let_def cas_node_row
      node_ids_ok_def node_row_step_def cas_cond_def split: option.splits if_splits)

lemma operational_row:
  assumes "node_ids_ok d" and "typed_op (NodeOp (OpOperational u))"
    and "map_of (db_nodes (fst (setNodeOperationalState d u))) k = Some r'"
  shows "\<exists>r. map_of (db_nodes d) k = Some r \<and> node_row_step r r' \<and>
             (node_state (row_json r') = NodeRevoked \<longrightarrow> node_state (row_json r) = NodeRevoked)"
  using assms
  by (auto simp: setNodeOperationalState_def getVersionedNode_def get_versioned_Some Let_def cas_node_row
      node_ids_ok_def node_row_step_def cas_cond_def split: option.splits if_splits)

lemma ensure_row:
  assumes "node_ids_ok d" and "node_state n \<noteq> NodeRevoked"
    and "map_of (db_nodes (fst (ensureLocalNode d n))) k = Some r'"
  shows "(\<exists>r. map_of (db_nodes d) k = Some r \<and> node_row_step r r' \<and>
             (node_state (row_json r') = NodeRevoked \<longrightarrow> node_state (row_json r) = NodeRevoked)) \<or>
         (map_of (db_nodes d) k = None \<and> node_id (row_json r') = k \<and> node_state (row_json r') \<noteq> NodeRevoked)"
proof (cases "map_of (db_nodes d) (node_id n)")
  case None
  then show ?thesis using assms
    by (auto simp: ensureLocalNode_def get_versioned_def sql_insert_def map_of_snoc fresh_row_def
        split: if_splits)
next
  case (Some r)
  then show ?thesis using assms
    by (auto simp: ensureLocalNode_def get_versioned_def Let_def case_prod_beta cas_node_row
        node_ids_ok_def node_row_step_def cas_cond_def split: write_result.splits if_splits)
qed

lemma create_node_row:
  assumes "node_state n \<noteq> NodeRevoked"
    and "map_of (db_nodes (fst (createNode d n c))) k = Some r'"
  shows "map_of (db_nodes d) k = Some r' \<or>
         (map_of (db_nodes d) k = None \<and> node_id (row_json r') = k \<and> node_state (row_json r') \<noteq> NodeRevoked)"
  using assms
  by (auto simp: createNode_def putNodeCertificate_def sql_insert_Some map_of_snoc fresh_row_def
      split: option.splits if_splits)

lemma remove_node_row:
  assumes "keys_ok (db_nodes d)" and "map_of (db_nodes (fst (removeNode d i e))) k = Some r'"
  shows "map_of (db_nodes d) k = Some r'"
  using assms
  by (auto simp: removeNode_def getVersionedNode_def Let_def case_prod_beta map_of_sql_delete
      split: option.splits if_splits)

lemma removed_node_revoked:
  assumes "keys_ok (db_nodes d)" and "map_of (db_nodes d) k = Some r"
    and "map_of (db_nodes (fst (removeNode d i e))) k = None"
  shows "node_state (row_json r) = NodeRevoked"
  using assms
  by (auto simp: removeNode_def getVersionedNode_def get_versioned_Some Let_def case_prod_beta
      map_of_sql_delete split: option.splits if_splits)

lemma rotate_row:
  assumes "map_of (db_nodes (fst (rotateNodeCertificate d u))) k = Some r'"
  shows "\<exists>r. map_of (db_nodes d) k = Some r \<and> node_row_step r r' \<and>
             (node_state (row_json r') = NodeRevoked \<longrightarrow> node_state (row_json r) = NodeRevoked)"
proof (cases "getVersionedNode d (rot_nodeId u)")
  case None
  then show ?thesis using assms by (auto simp: rotateNodeCertificate_def split: if_splits)
next
  case (Some c)
  define n where "n = (vr_value c)\<lparr>node_certificateExpiresAt := Some (cert_expiresAt (rot_certificate u)),
                                 node_updatedAt := rot_updatedAt u\<rparr>"
  define d1 where "d1 = fst (cas_node d (rot_nodeId u) n (rot_updatedAt u) (rot_expectedRevision u)
                              [NodeJoining, NodeOnline, NodeDegraded, NodeDraining, NodeOffline])"
  have "db_nodes (fst (rotateNodeCertificate d u)) = db_nodes d \<or>
        db_nodes (fst (rotateNodeCertificate d u)) = db_nodes d1"
    using Some
    by (simp add: rotateNodeCertificate_def Let_def case_prod_beta putNodeCertificate_def
        revokeNodeCertificates_def n_def[symmetric] d1_def[symmetric] split: option.split)
  then show ?thesis
  proof
    assume "db_nodes (fst (rotateNodeCertificate d u)) = db_nodes d1"
    with assms Some show ?thesis
      by (auto simp: d1_def cas_node_row n_def node_row_step_def getVersionedNode_def get_versioned_Some
          split: if_splits)
  qed (use assms in auto)
qed

lemma revoke_row:
  assumes "map_of (db_nodes (fst (revokeNode d u))) k = Some r'"
  shows "\<exists>r. map_of (db_nodes d) k = Some r \<and> node_row_step r r' \<and>
             (node_state (row_json r') = NodeRevoked \<longrightarrow> node_state (row_json r) = NodeRevoked \<or> rev_nodeId u = k)"
  using assms
  by (auto simp: revokeNode_def getVersionedNode_def get_versioned_Some Let_def case_prod_beta
      revokeNodeCertificates_def revoke_bindings_of_def cas_node_row node_row_step_def
      split: option.splits if_splits)

lemma node_op_rows:
  assumes ids: "node_ids_ok d" and keys: "keys_ok (db_nodes d)" and typed: "typed_op (NodeOp x)"
    and row: "map_of (db_nodes (exec_node_op x d)) k = Some r'"
  shows "(\<exists>r. map_of (db_nodes d) k = Some r \<and> node_row_step r r' \<and>
            (node_state (row_json r') = NodeRevoked \<longrightarrow> node_state (row_json r) = NodeRevoked \<or>
               (\<exists>u. x = OpRevokeNode u \<and> rev_nodeId u = k))) \<or>
         (map_of (db_nodes d) k = None \<and> node_id (row_json r') = k \<and> node_state (row_json r') \<noteq> NodeRevoked)"
proof (cases x)
  case (OpCreateNode n c)
  then show ?thesis using create_node_row[of n d c k r'] typed row by auto
next
  case (OpEnsureLocalNode n)
  then show ?thesis using ensure_row[OF ids, of n k r'] typed row by auto
next
  case (OpHeartbeat u)
  then show ?thesis using heartbeat_row[OF ids, of u k r'] typed row by auto
next
  case (OpDrain u)
  then show ?thesis using drain_row[OF ids, of u k r'] row by auto
next
  case (OpOperational u)
  then show ?thesis using operational_row[OF ids, of u k r'] typed row by auto
next
  case (OpRemoveNode i e)
  then show ?thesis using remove_node_row[OF keys, of i e k r'] row by auto
next
  case (OpRotate u)
  then show ?thesis using rotate_row[of d u k r'] row by auto
next
  case (OpRevokeNode u)
  then show ?thesis using revoke_row[of d u k r'] row by auto
qed

lemma node_op_ids:
  assumes "node_ids_ok d" and "keys_ok (db_nodes d)" and "typed_op (NodeOp x)"
  shows "node_ids_ok (exec_node_op x d)"
  unfolding node_ids_ok_def
proof (intro allI impI)
  fix k r'
  assume "map_of (db_nodes (exec_node_op x d)) k = Some r'"
  from node_op_rows[OF assms this] assms(1) show "node_id (row_json r') = k"
    by (auto simp: node_ids_ok_def node_row_step_def)
qed

lemma node_row_removed:
  assumes "keys_ok (db_nodes d)" and r: "map_of (db_nodes d) k = Some r"
    and "map_of (db_nodes (exec_node_op x d)) k = None"
  shows "node_state (row_json r) = NodeRevoked \<and> (\<exists>e. x = OpRemoveNode k e)"
proof (cases x)
  case (OpRemoveNode i e)
  then have "i = k" using assms
    by (auto simp: removeNode_def getVersionedNode_def Let_def case_prod_beta map_of_sql_delete
        split: option.splits if_splits)
  then show ?thesis using removed_node_revoked[OF assms(1) r, of i e] assms(3) OpRemoveNode by simp
next
  case (OpCreateNode n c)
  with assms show ?thesis
    by (auto simp: createNode_def putNodeCertificate_def sql_insert_Some map_of_snoc
        split: option.splits if_splits)
next
  case (OpEnsureLocalNode n)
  with assms show ?thesis
    by (auto simp: ensureLocalNode_def sql_insert_Some map_of_snoc cas_node_row Let_def
        case_prod_beta split: option.splits write_result.splits if_splits)
next
  case (OpRotate u)
  with assms show ?thesis
    by (auto simp: rotateNodeCertificate_def putNodeCertificate_def revokeNodeCertificates_def
        cas_node_row Let_def case_prod_beta split: option.splits if_splits)
qed (use assms in \<open>auto simp: recordNodeHeartbeat_def setNodeDrain_def setNodeOperationalState_def
      revokeNode_def revokeNodeCertificates_def revoke_bindings_of_def cas_node_row Let_def
      case_prod_beta split: option.splits if_splits\<close>)

lemma trusted_stays:
  assumes "node_ids_ok d" and "keys_ok (db_nodes d)" and "typed_op (NodeOp x)" and "node_trusted d i"
    and "\<And>u. x = OpRevokeNode u \<Longrightarrow> rev_nodeId u \<noteq> i"
  shows "node_trusted (exec_node_op x d) i"
proof -
  from assms(4) obtain r where r: "map_of (db_nodes d) i = Some r" "node_state (row_json r) \<noteq> NodeRevoked"
    by (auto simp: node_trusted_def)
  with node_row_removed[OF assms(2) r(1), of x] obtain r' where
    r': "map_of (db_nodes (exec_node_op x d)) i = Some r'" by auto
  from node_op_rows[OF assms(1-3) r'] r assms(5) r' show ?thesis
    by (auto simp: node_trusted_def)
qed

section \<open>Certificates\<close>

lemma certs_okI:
  assumes "\<And>s c. active_cert d s c \<Longrightarrow> node_trusted d (cert_nodeId c)"
    and "\<And>s c s' c'. active_cert d s c \<Longrightarrow> active_cert d s' c' \<Longrightarrow> cert_nodeId c = cert_nodeId c' \<Longrightarrow> s = s'"
  shows "certs_ok d"
  using assms by (simp add: certs_ok_def)

lemma certs_okD:
  assumes "certs_ok d"
  shows "active_cert d s c \<Longrightarrow> node_trusted d (cert_nodeId c)"
    and "active_cert d s c \<Longrightarrow> active_cert d s' c' \<Longrightarrow> cert_nodeId c = cert_nodeId c' \<Longrightarrow> s = s'"
  using assms unfolding certs_ok_def by blast+

text \<open>Fewer active certificates, none of a node that lost its trust: the invariant stays.\<close>

lemma certs_ok_fewer:
  assumes "certs_ok d"
    and "\<And>s c. active_cert d' s c \<Longrightarrow> active_cert d s c \<and> (node_trusted d (cert_nodeId c) \<longrightarrow> node_trusted d' (cert_nodeId c))"
  shows "certs_ok d'"
proof (rule certs_okI)
  show "node_trusted d' (cert_nodeId c)" if "active_cert d' s c" for s c
    using assms(2)[OF that] certs_okD(1)[OF assms(1)] by blast
  show "s = s'" if "active_cert d' s c" "active_cert d' s' c'" "cert_nodeId c = cert_nodeId c'" for s c s' c'
    using assms(2)[OF that(1)] assms(2)[OF that(2)] certs_okD(2)[OF assms(1)] that(3) by blast
qed

text \<open>One certificate is added for a trusted node that has none.\<close>

lemma certs_ok_added:
  assumes "certs_ok d" and "node_trusted d' (cert_nodeId c0)"
    and none: "\<And>s c. active_cert d s c \<Longrightarrow> cert_nodeId c \<noteq> cert_nodeId c0"
    and sub: "\<And>s c. active_cert d' s c \<Longrightarrow> (s = s0 \<and> c = c0) \<or>
      (active_cert d s c \<and> (node_trusted d (cert_nodeId c) \<longrightarrow> node_trusted d' (cert_nodeId c)))"
  shows "certs_ok d'"
proof (rule certs_okI)
  show "node_trusted d' (cert_nodeId c)" if "active_cert d' s c" for s c
    using sub[OF that] certs_okD(1)[OF assms(1)] assms(2) by blast
  show "s = s'" if "active_cert d' s c" "active_cert d' s' c'" "cert_nodeId c = cert_nodeId c'" for s c s' c'
    using sub[OF that(1)] sub[OF that(2)] certs_okD(2)[OF assms(1)] none that(3) by metis
qed

lemma active_cert_put:
  assumes "putNodeCertificate d c0 = Some d'"
  shows "active_cert d' s c \<Longrightarrow> (s = cert_serialNumber c0 \<and> c = c0) \<or> active_cert d s c"
  using assms
  by (auto simp: putNodeCertificate_def sql_insert_Some active_cert_def map_of_snoc fresh_row_def
      split: if_splits)

lemma putNodeCertificate_nodes: "putNodeCertificate d c0 = Some d' \<Longrightarrow> db_nodes d' = db_nodes d"
  by (auto simp: putNodeCertificate_def)

lemma active_cert_revoke:
  "active_cert (revokeNodeCertificates d i t) s c \<longleftrightarrow> active_cert d s c \<and> cert_nodeId c \<noteq> i"
proof
  assume a: "active_cert (revokeNodeCertificates d i t) s c"
  then obtain r where r: "map_of (db_certs d) s = Some r"
    by (auto simp: active_cert_def revokeNodeCertificates_def map_of_sql_update)
  with a show "active_cert d s c \<and> cert_nodeId c \<noteq> i"
    by (cases "cert_nodeId (row_json r) = i \<and> cert_revokedAt (row_json r) = None")
       (auto simp: active_cert_def revokeNodeCertificates_def map_of_sql_update split: if_splits)
next
  assume "active_cert d s c \<and> cert_nodeId c \<noteq> i"
  then show "active_cert (revokeNodeCertificates d i t) s c"
    by (auto simp: active_cert_def revokeNodeCertificates_def map_of_sql_update)
qed

lemma revoke_certs_nodes [simp]: "db_nodes (revokeNodeCertificates d i t) = db_nodes d"
  by (simp add: revokeNodeCertificates_def)

lemma node_trusted_cong: "db_nodes d' = db_nodes d \<Longrightarrow> node_trusted d' i = node_trusted d i"
  by (simp add: node_trusted_def)

lemma other_node_op_certs:
  "db_certs (fst (ensureLocalNode d n)) = db_certs d"
  "db_certs (fst (recordNodeHeartbeat d hb)) = db_certs d"
  "db_certs (fst (setNodeDrain d dr)) = db_certs d"
  "db_certs (fst (setNodeOperationalState d ou)) = db_certs d"
  "db_certs (fst (removeNode d i e)) = db_certs d"
  by (simp_all add: ensureLocalNode_def recordNodeHeartbeat_def setNodeDrain_def
      setNodeOperationalState_def removeNode_def Let_def case_prod_beta split: option.split write_result.split)

lemma certs_ok_create:
  assumes "certs_ok d" and "node_state n \<noteq> NodeRevoked"
  shows "certs_ok (fst (createNode d n c))"
proof -
  let ?d1 = "d\<lparr>db_nodes := db_nodes d @ [(node_id n, fresh_row n (node_updatedAt n))]\<rparr>"
  consider (same) "fst (createNode d n c) = d"
    | (node) "map_of (db_nodes d) (node_id n) = None" "fst (createNode d n c) = ?d1"
    | (cert) c0 d' where "map_of (db_nodes d) (node_id n) = None" "cert_nodeId c0 = node_id n"
        "putNodeCertificate ?d1 c0 = Some d'" "fst (createNode d n c) = d'"
  proof -
    have eq: "fst (createNode d n c) =
        (if (case c of None \<Rightarrow> False | Some c0 \<Rightarrow> cert_nodeId c0 \<noteq> node_id n \<or> cert_revokedAt c0 \<noteq> None)
         then d else if map_of (db_nodes d) (node_id n) \<noteq> None then d
         else case c of None \<Rightarrow> ?d1
              | Some c0 \<Rightarrow> (case putNodeCertificate ?d1 c0 of None \<Rightarrow> d | Some d' \<Rightarrow> d'))"
      by (simp add: createNode_def sql_insert_def split: option.split)
    show ?thesis
    proof (cases "fst (createNode d n c) = d")
      case True
      then show ?thesis by (rule that(1))
    next
      case False
      show ?thesis
      proof (cases c)
        case None
        with False eq have "map_of (db_nodes d) (node_id n) = None" "fst (createNode d n c) = ?d1"
          by (simp_all split: if_splits)
        then show ?thesis by (rule that(2))
      next
        case (Some c0)
        with False eq have *: "map_of (db_nodes d) (node_id n) = None" "cert_nodeId c0 = node_id n"
          "fst (createNode d n c) = (case putNodeCertificate ?d1 c0 of None \<Rightarrow> d | Some d' \<Rightarrow> d')"
          by (simp_all split: if_splits)
        with False obtain d' where "putNodeCertificate ?d1 c0 = Some d'"
          by (cases "putNodeCertificate ?d1 c0") simp_all
        with * show ?thesis by (intro that(3)[of c0 d']) simp_all
      qed
    qed
  qed
  moreover have trusted: "node_trusted ?d1 i" if "node_trusted d i" for i
    using that by (auto simp: node_trusted_def map_of_snoc)
  ultimately show ?thesis
  proof cases
    case same
    then show ?thesis using assms(1) by simp
  next
    case node
    then show ?thesis
      using certs_ok_fewer[OF assms(1), of ?d1] trusted by (simp add: active_cert_def)
  next
    case cert
    have new: "node_trusted ?d1 (node_id n)"
      using cert(1) assms(2) by (simp add: node_trusted_def map_of_snoc fresh_row_def)
    have nodes: "node_trusted d' i = node_trusted ?d1 i" for i
      by (rule node_trusted_cong) (rule putNodeCertificate_nodes[OF cert(3)])
    have none: "cert_nodeId c \<noteq> cert_nodeId c0" if "active_cert d s c" for s c
      using certs_okD(1)[OF assms(1) that] cert(1,2) by (auto simp: node_trusted_def)
    have "certs_ok d'"
      by (rule certs_ok_added[OF assms(1) _ none])
         (use active_cert_put[OF cert(3)] nodes new trusted cert(2) in \<open>auto simp: active_cert_def\<close>)
    then show ?thesis using cert(4) by simp
  qed
qed

lemma rotate_cases:
  obtains (same) "db_certs (fst (rotateNodeCertificate d u)) = db_certs d"
  | (rotated) d1 where "cert_nodeId (rot_certificate u) = rot_nodeId u"
      "node_trusted d (rot_nodeId u)" "db_certs d1 = db_certs d"
      "putNodeCertificate (revokeNodeCertificates d1 (rot_nodeId u) (rot_updatedAt u)) (rot_certificate u)
         = Some (fst (rotateNodeCertificate d u))"
proof (cases "getVersionedNode d (rot_nodeId u)")
  case None
  then show ?thesis by (intro same) (simp add: rotateNodeCertificate_def)
next
  case (Some c)
  define n where "n = (vr_value c)\<lparr>node_certificateExpiresAt := Some (cert_expiresAt (rot_certificate u)),
                                 node_updatedAt := rot_updatedAt u\<rparr>"
  define cs where "cs = cas_node d (rot_nodeId u) n (rot_updatedAt u) (rot_expectedRevision u)
                              [NodeJoining, NodeOnline, NodeDegraded, NodeDraining, NodeOffline]"
  define put where "put = putNodeCertificate
      (revokeNodeCertificates (fst cs) (rot_nodeId u) (rot_updatedAt u)) (rot_certificate u)"
  have eq: "rotateNodeCertificate d u =
      (if cert_nodeId (rot_certificate u) \<noteq> rot_nodeId u \<or> cert_revokedAt (rot_certificate u) \<noteq> None
       then (d, throw PlainError)
       else if vr_revision c \<noteq> rot_expectedRevision u then (d, resolve (Rejected RevisionConflict (Some c) []))
       else if node_state (vr_value c) = NodeRevoked then (d, resolve (Rejected InvalidState (Some c) []))
       else if \<not> is_applied (snd cs) then (fst cs, resolve (snd cs))
       else case put of None \<Rightarrow> (d, throw PlainError) | Some d'' \<Rightarrow> (d'', resolve (snd cs)))"
    unfolding put_def cs_def n_def using Some
    by (simp add: rotateNodeCertificate_def Let_def case_prod_beta)
  have certs: "db_certs (fst cs) = db_certs d" by (simp add: cs_def)
  show ?thesis
  proof (cases "db_certs (fst (rotateNodeCertificate d u)) = db_certs d")
    case True
    then show ?thesis by (rule same)
  next
    case False
    with eq certs obtain d' where "put = Some d'" "fst (rotateNodeCertificate d u) = d'"
      "cert_nodeId (rot_certificate u) = rot_nodeId u" "node_state (vr_value c) \<noteq> NodeRevoked"
      by (cases put) (simp_all split: if_splits)
    moreover from this Some have "node_trusted d (rot_nodeId u)"
      by (auto simp: getVersionedNode_def get_versioned_Some node_trusted_def)
    ultimately show ?thesis by (intro rotated[of "fst cs"]) (simp_all add: certs put_def)
  qed
qed

lemma certs_ok_revoke_certs:
  assumes "certs_ok d"
  shows "certs_ok (revokeNodeCertificates d i t)"
  by (rule certs_ok_fewer[OF assms]) (simp add: active_cert_revoke node_trusted_def)

lemma certs_ok_rotate:
  assumes ok: "certs_ok d" and ids: "node_ids_ok d" and keys: "keys_ok (db_nodes d)"
  shows "certs_ok (fst (rotateNodeCertificate d u))"
proof -
  let ?d' = "fst (rotateNodeCertificate d u)"
  have trusted: "node_trusted ?d' i" if "node_trusted d i" for i
    using trusted_stays[OF ids keys _ that, of "OpRotate u"] by simp
  show ?thesis
  proof (cases rule: rotate_cases[of d u])
    case same
    show ?thesis
      by (intro certs_ok_fewer[OF ok]) (simp add: active_cert_cong[OF same] trusted)
  next
    case (rotated d1)
    let ?d2 = "revokeNodeCertificates d (rot_nodeId u) (rot_updatedAt u)"
    have old: "active_cert (revokeNodeCertificates d1 (rot_nodeId u) (rot_updatedAt u)) s c = active_cert ?d2 s c"
      for s c by (simp add: active_cert_revoke active_cert_cong[OF rotated(3)])
    show ?thesis
    proof (rule certs_ok_added[of ?d2 _ "rot_certificate u" "cert_serialNumber (rot_certificate u)"])
      show "certs_ok ?d2" by (rule certs_ok_revoke_certs[OF ok])
      show "node_trusted ?d' (cert_nodeId (rot_certificate u))"
        using trusted rotated(1,2) by simp
      show "cert_nodeId c \<noteq> cert_nodeId (rot_certificate u)" if "active_cert ?d2 s c" for s c
        using that rotated(1) by (simp add: active_cert_revoke)
      show "(s = cert_serialNumber (rot_certificate u) \<and> c = rot_certificate u) \<or>
          (active_cert ?d2 s c \<and> (node_trusted ?d2 (cert_nodeId c) \<longrightarrow> node_trusted ?d' (cert_nodeId c)))"
        if "active_cert ?d' s c" for s c
        using active_cert_put[OF rotated(4) that] trusted by (auto simp: old node_trusted_def)
    qed
  qed
qed

lemma active_cert_revoked_node:
  "active_cert (revokeNodeCertificates (revoke_bindings_of d i t) i t) s c \<longleftrightarrow>
     active_cert d s c \<and> cert_nodeId c \<noteq> i"
  unfolding active_cert_revoke by (simp add: active_cert_def revoke_bindings_of_def)

lemma revokeNode_cases:
  assumes "keys_ok (db_nodes d)"
  obtains (same) "fst (revokeNode d u) = d"
  | (revoked) "\<And>s c. active_cert (fst (revokeNode d u)) s c \<longleftrightarrow>
         active_cert d s c \<and> cert_nodeId c \<noteq> rev_nodeId u"
proof (cases "getVersionedNode d (rev_nodeId u)")
  case None
  then show ?thesis by (intro same) (simp add: revokeNode_def)
next
  case (Some c)
  define cs where "cs = cas_node d (rev_nodeId u) ((vr_value c)\<lparr>node_state := NodeRevoked,
      node_updatedAt := rev_revokedAt u\<rparr>) (rev_revokedAt u) (rev_expectedRevision u) []"
  have eq: "fst (revokeNode d u) =
      (if vr_revision c \<noteq> rev_expectedRevision u then d
       else if \<not> is_applied (snd cs) then fst cs
       else revokeNodeCertificates (revoke_bindings_of (fst cs) (rev_nodeId u) (rev_revokedAt u))
              (rev_nodeId u) (rev_revokedAt u))"
    unfolding cs_def using Some by (simp add: revokeNode_def Let_def case_prod_beta)
  have certs: "active_cert (fst cs) s x = active_cert d s x" for s x
    by (simp add: active_cert_def cs_def)
  have unchanged: "fst cs = d" if "\<not> is_applied (snd cs)"
    using that assms by (simp add: cs_def cas_node_def Let_def case_prod_beta cas_unchanged_table)
  show ?thesis
  proof (cases "fst (revokeNode d u) = d")
    case False
    with eq unchanged have "fst (revokeNode d u) =
        revokeNodeCertificates (revoke_bindings_of (fst cs) (rev_nodeId u) (rev_revokedAt u))
              (rev_nodeId u) (rev_revokedAt u)"
      by (simp split: if_splits)
    then show ?thesis by (intro revoked) (simp only: active_cert_revoked_node certs)
  qed (rule same)
qed

lemma certs_ok_revoke_node:
  assumes ok: "certs_ok d" and ids: "node_ids_ok d" and keys: "keys_ok (db_nodes d)"
  shows "certs_ok (fst (revokeNode d u))"
proof (cases rule: revokeNode_cases[OF keys, of u, case_names same revoked])
  case same
  then show ?thesis using ok by simp
next
  case revoked
  then show ?thesis
    using trusted_stays[OF ids keys, of "OpRevokeNode u"]
    by (intro certs_ok_fewer[OF ok]) auto
qed

lemma certs_ok_node_op:
  assumes ok: "certs_ok d" and ids: "node_ids_ok d" and keys: "keys_ok (db_nodes d)"
    and typed: "typed_op (NodeOp x)"
  shows "certs_ok (exec_node_op x d)"
proof -
  have rest: "certs_ok (exec_node_op x d)"
    if "db_certs (exec_node_op x d) = db_certs d" "\<And>u. x \<noteq> OpRevokeNode u"
    using trusted_stays[OF ids keys typed] that(2)
    by (intro certs_ok_fewer[OF ok]) (simp add: active_cert_cong[OF that(1)])
  show ?thesis
  proof (cases x)
    case (OpCreateNode n c)
    then show ?thesis using certs_ok_create[OF ok] typed by simp
  next
    case (OpRotate u)
    then show ?thesis using certs_ok_rotate[OF ok ids keys] by simp
  next
    case (OpRevokeNode u)
    then show ?thesis using certs_ok_revoke_node[OF ok ids keys] by simp
  qed (use rest in \<open>simp_all add: other_node_op_certs\<close>)
qed

lemma nodes_ok_exec:
  assumes "keys_unique d" "typed_op x" "node_ids_ok d" "certs_ok d"
  shows "node_ids_ok (exec_op x d) \<and> certs_ok (exec_op x d)"
proof (cases "\<exists>y. x = NodeOp y")
  case True
  then obtain y where "x = NodeOp y" ..
  then show ?thesis
    using node_op_ids[OF assms(3) keys_uniqueD(6)[OF assms(1)]]
      certs_ok_node_op[OF assms(4,3) keys_uniqueD(6)[OF assms(1)]] assms(2) by simp
next
  case False
  then have "db_nodes (exec_op x d) = db_nodes d" "db_certs (exec_op x d) = db_certs d"
    by (cases x; simp add: frames)+
  then show ?thesis using assms(3,4)
    by (simp add: node_ids_ok_def certs_ok_def active_cert_def node_trusted_def)
qed

lemma reachable_nodes_ok: "reachable_db d \<Longrightarrow> node_ids_ok d \<and> certs_ok d"
proof (induction rule: reachable_db.induct)
  case reachable_empty
  then show ?case by (simp add: node_ids_ok_def certs_ok_def active_cert_def empty_db_def)
next
  case (reachable_step d x)
  then show ?case using nodes_ok_exec refs_okD(1)[OF reachable_refs_ok] by blast
qed

section \<open>Revocation is final\<close>

lemma revoked_exec:
  assumes "reachable_db d" and "typed_op x"
    and "map_of (db_nodes d) k = Some r" "node_state (row_json r) = NodeRevoked"
  shows "(\<exists>r'. map_of (db_nodes (exec_op x d)) k = Some r' \<and> node_state (row_json r') = NodeRevoked) \<or>
         (\<exists>e. x = NodeOp (OpRemoveNode k e))"
proof (cases "\<exists>y. x = NodeOp y")
  case True
  then obtain y where y: "x = NodeOp y" ..
  have ids: "node_ids_ok d" and keys: "keys_ok (db_nodes d)"
    using reachable_nodes_ok[OF assms(1)] keys_uniqueD(6)[OF refs_okD(1)[OF reachable_refs_ok[OF assms(1)]]]
    by simp_all
  show ?thesis
  proof (cases "map_of (db_nodes (exec_node_op y d)) k")
    case None
    then show ?thesis using node_row_removed[OF keys assms(3)] y by auto
  next
    case (Some r')
    then show ?thesis
      using node_op_rows[OF ids keys _ Some] assms(2,3,4) y by (auto simp: node_row_step_def)
  qed
next
  case False
  then have "db_nodes (exec_op x d) = db_nodes d" by (cases x) (simp_all add: frames)
  then show ?thesis using assms(3,4) by simp
qed

lemma revoked_run:
  assumes "reachable_db d" and "\<forall>x \<in> set xs. typed_op x \<and> (\<forall>e. x \<noteq> NodeOp (OpRemoveNode k e))"
    and "map_of (db_nodes d) k = Some r" "node_state (row_json r) = NodeRevoked"
  shows "\<exists>r'. map_of (db_nodes (run_ops xs d)) k = Some r' \<and> node_state (row_json r') = NodeRevoked"
  using assms
proof (induction xs arbitrary: d r)
  case (Cons x xs)
  then obtain r' where "map_of (db_nodes (exec_op x d)) k = Some r'" "node_state (row_json r') = NodeRevoked"
    using revoked_exec[of d x k r] by auto
  then show ?case using Cons.IH[of "exec_op x d" r'] Cons.prems reachable_step by simp
qed simp

end
