(* ===== verification/RelayGuards.thy ===== *)
theory RelayGuards
  imports RelayHistory
begin

text \<open>
  Guards inside single transactions of the repository: the installation keeps an owner,
  live channels stay within their limits, a personal token is used only while it is valid
  and never after its revocation, and the bounded logs keep the newest entries.
\<close>

section \<open>Owners\<close>

lemma map_of_all_iff:
  assumes "keys_ok t"
  shows "(\<exists>p \<in> set t. P (row_json (snd p))) \<longleftrightarrow> (\<exists>k r. map_of t k = Some r \<and> P (row_json r))"
proof
  assume "\<exists>p \<in> set t. P (row_json (snd p))"
  then obtain k r where "(k, r) \<in> set t" "P (row_json r)" by force
  with map_of_is_SomeI[OF assms] show "\<exists>k r. map_of t k = Some r \<and> P (row_json r)" by blast
next
  assume "\<exists>k r. map_of t k = Some r \<and> P (row_json r)"
  then obtain k r where "(k, r) \<in> set t" "P (row_json r)" by (auto dest: map_of_SomeD)
  then show "\<exists>p \<in> set t. P (row_json (snd p))" by force
qed

lemma owner_count_pos:
  assumes "keys_ok (db_users d)"
  shows "0 < owner_count d \<longleftrightarrow> (\<exists>k r. map_of (db_users d) k = Some r \<and> is_owner (row_json r))"
proof -
  have "0 < owner_count d \<longleftrightarrow> (\<exists>p \<in> set (db_users d). is_owner (row_json (snd p)))"
    by (force simp: owner_count_def filter_empty_conv)
  then show ?thesis by (simp only: map_of_all_iff[OF assms])
qed

lemma two_owners:
  assumes "keys_ok (db_users d)" and "1 < owner_count d" and "map_of (db_users d) i = Some r"
  shows "\<exists>k s. k \<noteq> i \<and> map_of (db_users d) k = Some s \<and> is_owner (row_json s)"
proof (rule ccontr)
  assume none: "\<not> ?thesis"
  have "filter (\<lambda>(_, s). is_owner (row_json s)) (db_users d) =
        filter (\<lambda>(k, s). k = i \<and> is_owner (row_json s)) (db_users d)"
    using none assms(1) by (intro filter_cong) (auto dest: map_of_is_SomeI)
  then have "owner_count d = length (filter (\<lambda>(k, s). k = i \<and> is_owner (row_json s)) (db_users d))"
    by (simp add: owner_count_def)
  also have "\<dots> \<le> 1" by (simp add: length_filter_key[OF assms(1)] split: option.split)
  finally show False using assms(2) by simp
qed

definition has_owner :: "db \<Rightarrow> bool" where
  "has_owner d \<longleftrightarrow> (\<exists>k r. map_of (db_users d) k = Some r \<and> is_owner (row_json r))"

lemma has_owner_cas_preserving:
  assumes keys: "keys_ok (db_users d)" and "has_owner d"
  shows "has_owner (fst (compareAndSetUserIdentityPreservingOwner d u e))"
proof (cases "map_of (db_users d) (user_id u)")
  case None
  then show ?thesis using assms(2)
    by (simp add: compareAndSetUserIdentityPreservingOwner_def get_versioned_def)
next
  case (Some r)
  show ?thesis
  proof (cases "row_revision r = e \<and> \<not> (is_owner (row_json r) \<and> \<not> is_owner u \<and> owner_count d \<le> 1)")
    case False
    then show ?thesis using assms(2) Some
      by (auto simp: compareAndSetUserIdentityPreservingOwner_def get_versioned_def)
  next
    case True
    then have users: "map_of (db_users (fst (compareAndSetUserIdentityPreservingOwner d u e))) k =
        (if k = user_id u then Some (bump_row u (user_lastSeenAt u) r) else map_of (db_users d) k)" for k
      using Some by (auto simp: compareAndSetUserIdentityPreservingOwner_def compareAndSetUserIdentity_def
          get_versioned_def Let_def case_prod_beta map_of_cas cas_cond_def option.map_ident)
    show ?thesis
    proof (cases "is_owner u")
      case True
      then show ?thesis unfolding has_owner_def users by (intro exI[of _ "user_id u"]) auto
    next
      case False
      have "\<exists>k s. k \<noteq> user_id u \<and> map_of (db_users d) k = Some s \<and> is_owner (row_json s)"
      proof (cases "is_owner (row_json r)")
        case True
        with False \<open>row_revision r = e \<and> _\<close> have "1 < owner_count d" by auto
        then show ?thesis using two_owners[OF keys] Some by blast
      next
        case False
        obtain k s where "map_of (db_users d) k = Some s" "is_owner (row_json s)"
          using assms(2) by (auto simp: has_owner_def)
        moreover from this False Some have "k \<noteq> user_id u" by auto
        ultimately show ?thesis by blast
      qed
      then show ?thesis unfolding has_owner_def users by auto
    qed
  qed
qed

lemma has_owner_delete_preserving:
  assumes keys: "keys_ok (db_users d)" and "has_owner d"
  shows "has_owner (fst (deleteUserIdentityPreservingOwner d i e b))"
proof (cases "db_users (fst (deleteUserIdentityPreservingOwner d i e b)) = db_users d")
  case True
  then show ?thesis using assms(2) by (simp add: has_owner_def)
next
  case False
  then obtain c where c: "get_versioned (db_users d) i = Some c" "\<not> (is_owner (vr_value c) \<and> owner_count d \<le> 1)"
    and eq: "db_users (fst (deleteUserIdentityPreservingOwner d i e b)) =
      fst (sql_delete (db_users d) (\<lambda>k r. k = i \<and> row_revision r = e))"
    by (auto simp: deleteUserIdentityPreservingOwner_def Let_def case_prod_beta split: option.splits if_splits)
  then obtain r where r: "map_of (db_users d) i = Some r" "c = versioned (row_json r) (row_revision r)"
    by (auto simp: get_versioned_Some)
  have "\<exists>k s. k \<noteq> i \<and> map_of (db_users d) k = Some s \<and> is_owner (row_json s)"
  proof (cases "is_owner (row_json r)")
    case True
    then show ?thesis using two_owners[OF keys _ r(1)] c(2) r(2) by auto
  next
    case False
    obtain k s where "map_of (db_users d) k = Some s" "is_owner (row_json s)"
      using assms(2) by (auto simp: has_owner_def)
    moreover from this False r have "k \<noteq> i" by auto
    ultimately show ?thesis by blast
  qed
  then obtain k s where ks: "k \<noteq> i" "map_of (db_users d) k = Some s" "is_owner (row_json s)" by blast
  then have "map_of (fst (sql_delete (db_users d) (\<lambda>k r. k = i \<and> row_revision r = e))) k = Some s"
    by (simp add: map_of_sql_delete[OF keys])
  with ks(3) show ?thesis unfolding has_owner_def eq by blast
qed

text \<open>Every operation but the plain compare-and-set of an identity keeps an owner.\<close>

lemma has_owner_exec:
  assumes keys: "keys_unique d" and "has_owner d" and "\<And>u e. x \<noteq> AccessOp (OpCasUser u e)"
  shows "has_owner (exec_op x d)"
proof (cases "\<exists>y. x = AccessOp y")
  case False
  then have "db_users (exec_op x d) = db_users d" by (cases x) (simp_all add: frames)
  then show ?thesis using assms(2) by (simp add: has_owner_def)
next
  case True
  then obtain y where x: "x = AccessOp y" ..
  show ?thesis
  proof (cases y)
    case (OpCreateUser u)
    obtain k r where "map_of (db_users d) k = Some r" "is_owner (row_json r)"
      using assms(2) by (auto simp: has_owner_def)
    then have "map_of (db_users (fst (createUserIdentity d u))) k = Some r"
      by (auto simp: createUserIdentity_def sql_insert_Some map_of_snoc split: option.splits)
    with \<open>is_owner (row_json r)\<close> show ?thesis using x OpCreateUser by (auto simp: has_owner_def)
  next
    case (OpCasUser u e)
    then show ?thesis using assms(3)[of u e] x by simp
  next
    case (OpCasUserPreservingOwner u e)
    then show ?thesis using has_owner_cas_preserving[OF keys_uniqueD(5)[OF keys] assms(2)] x by simp
  next
    case (OpDeleteUser i e b)
    then show ?thesis using has_owner_delete_preserving[OF keys_uniqueD(5)[OF keys] assms(2)] x by simp
  qed (use assms(2) x in \<open>auto simp: putPersonalToken_def usePersonalToken_def revokePersonalToken_def
        has_owner_def Let_def split: sum.splits\<close>)
qed

section \<open>Capacity of live channels\<close>

definition owned_channels :: "db \<Rightarrow> ident option \<Rightarrow> nat" where
  "owned_channels d i = length (filter (\<lambda>(_, r). chan_ownerId (row_json r) = i) (db_channels d))"

lemma create_channel_within:
  assumes "createLiveChannelWithinCapacity d c maxTotal maxPerOwner = (d', resolve (Inr v))"
  shows "length (db_channels d') = Suc (length (db_channels d))"
    and "length (db_channels d') \<le> maxTotal"
    and "truthy (chan_ownerId c) \<Longrightarrow> owned_channels d' (chan_ownerId c) \<le> maxPerOwner"
    and "truthy (chan_ownerId c) \<Longrightarrow> map_of (db_users d') (the (chan_ownerId c)) \<noteq> None"
    and "map_of (db_channels d) (chan_id c) = None"
    and "map_of (db_channels d') (chan_id c) = Some (fresh_row c (chan_createdAt c))"
  using assms
  by (auto simp: createLiveChannelWithinCapacity_def sql_insert_Some owned_channels_def fresh_row_def
      map_of_snoc split: option.splits if_splits)

lemma create_channel_refused:
  assumes "createLiveChannelWithinCapacity d c maxTotal maxPerOwner = (d', q)" and "\<And>v. q \<noteq> resolve (Inr v)"
  shows "d' = d"
  using assms by (auto simp: createLiveChannelWithinCapacity_def split: option.splits if_splits)

section \<open>Personal tokens\<close>

lemma touch_token_simps [simp]:
  "tok_tokenHash (touch_token u t) = tok_tokenHash t"
  "tok_revokedAt (touch_token u t) = tok_revokedAt t"
  "tok_expiresAt (touch_token u t) = tok_expiresAt t"
  by (simp_all add: touch_token_def)

lemma token_usable_touch [simp]: "token_usable u (touch_token v t) = token_usable u t"
  by (simp add: token_usable_def)

lemma used_token:
  assumes "usePersonalToken d u = (d', Some t)"
  shows "\<exists>p \<in> set (db_tokens d). token_usable u (row_json (snd p)) \<and> t = touch_token u (row_json (snd p))"
proof -
  let ?hits = "filter (\<lambda>(_, r). token_usable u (row_json r)) (db_tokens d)"
  from assms obtain s where s: "js_first (jsons ?hits) = Some s" "t = touch_token u s"
    by (auto simp: usePersonalToken_def Let_def)
  from js_first_mem[OF s(1)] obtain p where "p \<in> set ?hits" "s = row_json (snd p)"
    by (auto simp: jsons_def)
  with s(2) show ?thesis by (intro bexI[of _ p]) auto
qed

lemma unusable_token_stays:
  assumes "keys_ok (db_tokens d)" and "map_of (db_tokens d) i = Some r" and "tok_revokedAt (row_json r) \<noteq> None"
  shows "map_of (db_tokens (fst (usePersonalToken d u))) i = Some r"
  using assms by (auto simp: usePersonalToken_def Let_def map_of_sql_update token_usable_def)

section \<open>Bounded logs\<close>

lemma retained_keys:
  "map fst (retain_newest mine n t) = map fst (filter (\<lambda>(k, r). \<not> (mine (row_json r) \<and>
     k \<notin> set (map fst (sql_limit n (order_desc (\<lambda>p. row_date (snd p)) (filter (\<lambda>(_, r). mine (row_json r)) t)))))) t)"
  by (simp add: retain_newest_def Let_def sql_delete_def)

lemma retained_bound:
  assumes "keys_ok t" and "0 \<le> n"
  shows "length (filter (\<lambda>(_, r). mine (row_json r)) (retain_newest mine n t)) \<le> nat n"
proof -
  let ?kept = "map fst (sql_limit n (order_desc (\<lambda>p. row_date (snd p)) (filter (\<lambda>(_, r). mine (row_json r)) t)))"
  let ?left = "filter (\<lambda>(_, r). mine (row_json r)) (retain_newest mine n t)"
  have "fst ` set ?left \<subseteq> set ?kept"
    by (force simp: retain_newest_def Let_def sql_delete_def)
  then have "card (fst ` set ?left) \<le> card (set ?kept)" by (intro card_mono) auto
  also have "\<dots> \<le> length ?kept" by (rule card_length)
  also have "\<dots> \<le> nat n" using length_sql_limit[OF assms(2)] by simp
  finally have "card (set (map fst ?left)) \<le> nat n" by simp
  moreover have "keys_ok ?left"
    using assms(1) by (simp add: retain_newest_def Let_def sql_delete_def distinct_map_filter_fst)
  ultimately show ?thesis by (metis distinct_card length_map)
qed

text \<open>The other owners' entries stay.\<close>

lemma retained_others:
  "filter (\<lambda>(_, r). \<not> mine (row_json r)) (retain_newest mine n t) = filter (\<lambda>(_, r). \<not> mine (row_json r)) t"
  by (auto simp: retain_newest_def Let_def sql_delete_def intro!: filter_cong)

text \<open>The entries kept are the newest: a dropped entry is not newer than a kept one.\<close>

lemma retained_newest:
  assumes "keys_ok t" and "(k, r) \<in> set (retain_newest mine n t)" "mine (row_json r)"
    and "(k', r') \<in> set t" "mine (row_json r')" "k' \<notin> fst ` set (retain_newest mine n t)"
  shows "row_date r' \<le> row_date r"
proof -
  let ?mine = "filter (\<lambda>(_, r). mine (row_json r)) t"
  let ?sorted = "order_desc (\<lambda>p. row_date (snd p)) ?mine"
  let ?kept = "sql_limit n ?sorted"
  have in_kept: "k \<in> fst ` set ?kept" and "(k, r) \<in> set t"
    using assms(2,3) by (auto simp: retain_newest_def Let_def sql_delete_def)
  have not_kept: "k' \<notin> fst ` set ?kept"
  proof
    assume "k' \<in> fst ` set ?kept"
    then have "(k', r') \<in> set (retain_newest mine n t)"
      using assms(4) by (simp add: retain_newest_def Let_def sql_delete_def)
    then show False using assms(6) by force
  qed
  have in_sorted: "(k', r') \<in> set ?sorted" using assms(4,5) by simp
  have n: "0 \<le> n"
  proof (rule ccontr)
    assume "\<not> 0 \<le> n"
    then have "?kept = ?sorted" by (simp add: sql_limit_def)
    with in_sorted have "(k', r') \<in> set ?kept" by (simp only:)
    then show False using not_kept image_eqI[of k' fst "(k', r')"] by simp
  qed
  have split: "?sorted = ?kept @ drop (nat n) ?sorted" using n by (simp add: sql_limit_def)
  have sorted: "sorted (map (\<lambda>p. - row_date (snd p)) ?sorted)"
    by (simp add: order_desc_def)
  have kr: "(k, r) \<in> set ?kept"
  proof -
    from in_kept obtain s where s: "(k, s) \<in> set ?kept" by auto
    then have "(k, s) \<in> set t" using set_sql_limit[of n ?sorted] by auto
    with \<open>(k, r) \<in> set t\<close> assms(1) have "s = r" by (metis map_of_is_SomeI option.inject)
    with s show ?thesis by simp
  qed
  have "(k', r') \<in> set ?kept \<or> (k', r') \<in> set (drop (nat n) ?sorted)"
    using in_sorted split by (metis Un_iff set_append)
  moreover have "(k', r') \<notin> set ?kept"
    using not_kept image_eqI[of k' fst "(k', r')"] by auto
  ultimately have kr': "(k', r') \<in> set (drop (nat n) ?sorted)" by blast
  have "sorted (map (\<lambda>p. - row_date (snd p)) ?kept @ map (\<lambda>p. - row_date (snd p)) (drop (nat n) ?sorted))"
    using sorted split by (metis map_append)
  then have "- row_date r \<le> - row_date r'"
    using kr kr' unfolding sorted_append by force
  then show ?thesis by simp
qed

end
