(* ===== verification/RelaySamples.thy ===== *)
theory RelaySamples
  imports RelayNodes RelayGuards
begin

text \<open>
  Concrete values the witnesses of the properties use: a provider, a VOD session with its
  grant, a node with its certificate, an owner, a channel, a job, and databases that
  the operations of the repository build from them.
\<close>

definition sample_provider :: provider_connection where
  "sample_provider =
     \<lparr>prov_id = ''p'', prov_type = ''jellyfin'', prov_name = ''Library'', prov_baseUrl = ''http://media'',
      prov_authMode = ApiKey, prov_secretRef = ''secret'', prov_userId = None, prov_username = None,
      prov_serverName = None, prov_serverVersion = None, prov_capabilities = [CapSearch],
      prov_healthy = True, prov_allowPublicHttp = None, prov_securityNotice = None,
      prov_createdAt = 1, prov_updatedAt = 1\<rparr>"

definition sample_source :: media_source_ref where
  "sample_source =
     \<lparr>src_providerId = ''p'', src_itemId = ''i'', src_versionId = None, src_sourceFingerprint = None,
      src_audioTrackId = None, src_subtitleTrackId = None\<rparr>"

definition sample_session :: relay_session where
  "sample_session =
     \<lparr>ses_id = ''s'', ses_name = ''Movie'', ses_kind = Vod, ses_source = Some sample_source,
      ses_liveChannelId = None, ses_profileId = ''f'', ses_platformMode = Universal,
      ses_state = SessionActive, ses_durationSeconds = Some 90, ses_pinned = False,
      ses_reportActivity = False, ses_viewers = 0, ses_placementPolicy = PlaceAuto,
      ses_assignedNodeId = Some ''n'', ses_placementLocked = False, ses_preferredRegion = Some ''eu'',
      ses_ownerId = None, ses_lastPlaybackActivityAt = None, ses_deletionPending = False,
      ses_outputUrls = [], ses_errorMessage = None, ses_createdAt = 2, ses_updatedAt = 2\<rparr>"

definition sample_grant :: playback_grant where
  "sample_grant =
     \<lparr>grant_tokenHash = ''h'', grant_sessionId = ''s'', grant_expiresAt = None,
      grant_revokedAt = None, grant_createdAt = 2\<rparr>"

definition sample_capability :: node_capability where
  "sample_capability =
     \<lparr>cap_encoders = [''libx264''], cap_videoCodecs = None, cap_hardwareDevices = [], cap_maxWorkers = 2,
      cap_activeWorkers = 1, cap_queuedWorkers = 0, cap_cacheBytes = 0, cap_cacheLimitBytes = None,
      cap_egressMbps = 0, cap_providerIds = [''p''], cap_vodProducerVersion = Some 1\<rparr>"

definition sample_node :: "ident \<Rightarrow> string \<Rightarrow> cluster_node" where
  "sample_node i region =
     \<lparr>node_id = i, node_name = ''Node'', node_roles = [RoleSourceWorker, RoleEdge], node_region = region,
      node_publicUrl = ''https://edge'', node_internalUrl = None, node_state = NodeOnline,
      node_capabilities = sample_capability, node_weight = 1, node_certificateExpiresAt = None,
      node_lastHeartbeatAt = 3, node_createdAt = 3, node_updatedAt = 3\<rparr>"

definition sample_cert :: node_certificate where
  "sample_cert =
     \<lparr>cert_nodeId = ''n'', cert_serialNumber = ''c1'', cert_fingerprintSha256 = ''f1'',
      cert_expiresAt = 100, cert_revokedAt = None, cert_createdAt = 3\<rparr>"

definition sample_job :: segment_job where
  "sample_job =
     \<lparr>job_id = ''j'', job_contentKey = ''k'', job_sessionId = ''s'', job_segmentIndex = 4,
      job_state = JobRunning, job_attempts = 1, job_ownerNodeId = Some ''n'',
      job_leaseExpiresAt = Some 50, job_startedAt = Some 5, job_completedAt = None,
      job_errorMessage = None,
      job_workerHistory = [\<lparr>jatt_attempt = 1, jatt_nodeId = ''n'', jatt_state = AttemptRunning,
         jatt_startedAt = 5, jatt_completedAt = None, jatt_errorMessage = None\<rparr>],
      job_createdAt = 5, job_updatedAt = 5\<rparr>"

definition sample_ops :: "repo_op list" where
  "sample_ops =
     [CatalogOp (OpCreateProvider sample_provider),
      SessionOp (OpCreateSession sample_session sample_grant None),
      NodeOp (OpCreateNode (sample_node ''n'' ''eu'') (Some sample_cert)),
      JobOp (OpCreateJob sample_job)]"

definition sample_db :: db where
  "sample_db = run_ops sample_ops empty_db"

lemmas sample_defs =
  sample_provider_def sample_source_def sample_session_def sample_grant_def sample_capability_def
  sample_node_def sample_cert_def sample_job_def

lemma sample_reachable: "reachable_db sample_db"
  unfolding sample_db_def
  by (rule reachable_run[OF reachable_empty]) (simp add: sample_ops_def sample_defs)

lemma sample_rows:
  "map_of (db_providers sample_db) ''p'' = Some (fresh_row sample_provider 1)"
  "map_of (db_sessions sample_db) ''s'' = Some (fresh_row sample_session 2)"
  "map_of (db_nodes sample_db) ''n'' = Some (fresh_row (sample_node ''n'' ''eu'') 3)"
  "map_of (db_jobs sample_db) ''j'' = Some (fresh_row sample_job 5)"
  by code_simp+

end
