(* ===== verification/RelayStoreResults.thy ===== *)
theory RelayStoreResults
  imports RelaySamples
begin

text \<open>
  The properties of the repository: what every history of its operations keeps (references,
  grants, certificates, the last owner), what a deletion that has begun guarantees, and
  the bounds its transactions enforce.
\<close>

lemma pair_result: "snd p = q \<Longrightarrow> p = (fst p, q)"
  by auto

section \<open>References and deletions\<close>

text \<open>C1: In every database the operations of the repository can produce, in any order and with
  any arguments, primary keys are unique, every row of a session and of a binding is stored under
  its own id, every VOD session names a stored provider, every live session a stored channel,
  every provider binding a stored provider and a stored node, and a provider whose deletion
  has begun is named by no VOD session and no binding.\<close>

theorem references_hold: "refs_hold (run_ops xs empty_db)"
  by (rule refs_hold_run)

text \<open>
  The restriction to VOD sessions is needed: the schema lets a live session carry a media source,
  which its creation does not look at, so a live session can name a provider that is being deleted.
  \<^verbatim>\<open>session-service.ts\<close> never builds one; without them no session at all names such a provider.
\<close>

lemma typed_references_hold: "reachable_db d \<Longrightarrow> refs_ok d"
  by (rule reachable_refs_ok)

text \<open>A provider deletion that has begun can always be finished: with the revision the
  row has, the finalisation deletes it, whatever happened since the beginning.\<close>

lemma begun_deletion_finishes:
  assumes "reachable_db d" and "map_of (db_providers d) i = Some p" and "row_pending p"
  shows "finalizeProviderDeletion d i (row_revision p) =
           (fst (finalizeProviderDeletion d i (row_revision p)),
            resolve (Deleted (versioned (row_json p) (row_revision p)))) \<and>
         map_of (db_providers (fst (finalizeProviderDeletion d i (row_revision p)))) i = None"
  using finalize_pending_provider[OF reachable_refs_ok[OF assms(1)] assms(2,3)]
  by (simp add: prod_eq_iff)

definition lone_provider_db :: db where
  "lone_provider_db = run_ops [CatalogOp (OpCreateProvider sample_provider),
                               CatalogOp (OpBeginProviderDeletion ''p'')] empty_db"

lemma lone_provider_facts:
  "reachable_db lone_provider_db"
  "map_of (db_providers lone_provider_db) ''p'' =
     Some (fresh_row sample_provider 1\<lparr>row_revision := 2, row_pending := True\<rparr>)"
proof -
  show "reachable_db lone_provider_db"
    unfolding lone_provider_db_def by (rule reachable_run[OF reachable_empty]) simp
  show "map_of (db_providers lone_provider_db) ''p'' =
     Some (fresh_row sample_provider 1\<lparr>row_revision := 2, row_pending := True\<rparr>)"
    by code_simp
qed

lemma begun_deletion_finishes_witness:
  "map_of (db_providers (fst (finalizeProviderDeletion lone_provider_db ''p'' 2))) ''p'' = None"
  using begun_deletion_finishes[OF lone_provider_facts] by simp

text \<open>A provider whose deletion has begun is frozen: along any further history its row is
  unchanged until the moment it is gone.\<close>

lemma pending_provider_frozen:
  assumes "reachable_db d" and "map_of (db_providers d) i = Some p" and "row_pending p"
  shows "(\<exists>ys zs. xs = ys @ zs \<and> map_of (db_providers (run_ops ys d)) i = None) \<or>
         map_of (db_providers (run_ops xs d)) i = Some p"
  using refs_okD(1)[OF reachable_refs_ok[OF assms(1)]] assms(2,3) by (rule pending_provider_stays)

lemma pending_provider_frozen_witness:
  "map_of (db_providers (run_ops [CatalogOp (OpCasProvider sample_provider 2)] lone_provider_db)) ''p'' =
     Some (fresh_row sample_provider 1\<lparr>row_revision := 2, row_pending := True\<rparr>)"
proof -
  have "map_of (db_providers (run_ops [CatalogOp (OpCasProvider sample_provider 2)] lone_provider_db)) ''p'' \<noteq> None"
    by code_simp
  moreover have "map_of (db_providers lone_provider_db) ''p'' \<noteq> None"
    by (simp add: lone_provider_facts)
  ultimately show ?thesis
    using pending_provider_frozen[OF lone_provider_facts, of "[CatalogOp (OpCasProvider sample_provider 2)]"]
    by (auto simp: Cons_eq_append_conv)
qed

text \<open>Every playback grant that is not revoked belongs to a stored session: deleting a
  session leaves no live grant behind, in every order of operations.\<close>

lemma live_grants_have_sessions:
  assumes "reachable_db d" and "map_of (db_grants d) k = Some g" and "grant_revokedAt (row_json g) = None"
  shows "map_of (db_sessions d) (grant_sessionId (row_json g)) \<noteq> None"
  using reachable_grants_ok[OF assms(1)] assms(2,3) by (simp add: grants_ok_def)

lemma live_grants_have_sessions_witness: "map_of (db_sessions sample_db) ''s'' \<noteq> None"
proof -
  have "map_of (db_grants sample_db) ''h'' = Some (fresh_row sample_grant 2)" by code_simp
  from live_grants_have_sessions[OF sample_reachable this] show ?thesis
    by (simp add: fresh_row_def sample_grant_def)
qed

section \<open>Nodes and certificates\<close>

text \<open>C12: In every reachable database an unrevoked certificate belongs to a stored node that
  is not revoked, and no node has two unrevoked certificates.\<close>

theorem one_trusted_certificate:
  assumes "reachable_db d" and "active_cert d s c"
  shows "node_trusted d (cert_nodeId c) \<and>
         (\<forall>s' c'. active_cert d s' c' \<longrightarrow> cert_nodeId c' = cert_nodeId c \<longrightarrow> s' = s)"
  using certs_okD[of d] reachable_nodes_ok[OF assms(1)] assms(2) by metis

theorem one_trusted_certificate_witness: "node_trusted sample_db ''n''"
proof -
  have "active_cert sample_db ''c1'' sample_cert"
    unfolding active_cert_def by (rule exI[of _ "fresh_row sample_cert 3"]) (code_simp)
  from one_trusted_certificate[OF sample_reachable this] show ?thesis by (simp add: sample_cert_def)
qed

text \<open>C27: A revocation is final: along any history without the removal of the node itself, a
  revoked node stays stored and revoked, whatever heartbeats, drains, operational changes,
  registrations and rotations are tried.\<close>

theorem revocation_is_final:
  assumes "reachable_db d" and "\<forall>x \<in> set xs. typed_op x \<and> (\<forall>e. x \<noteq> NodeOp (OpRemoveNode k e))"
    and "map_of (db_nodes d) k = Some r" and "node_state (row_json r) = NodeRevoked"
  shows "\<exists>r'. map_of (db_nodes (run_ops xs d)) k = Some r' \<and> node_state (row_json r') = NodeRevoked"
  using assms by (rule revoked_run)

definition revoked_node_db :: db where
  "revoked_node_db =
     exec_op (NodeOp (OpRevokeNode \<lparr>rev_nodeId = ''n'', rev_expectedRevision = 1, rev_revokedAt = 9\<rparr>)) sample_db"

definition late_heartbeat :: repo_op where
  "late_heartbeat =
     NodeOp (OpHeartbeat \<lparr>hb_nodeId = ''n'', hb_expectedRevision = 2, hb_capabilities = sample_capability,
       hb_reportedState = NodeOnline, hb_lastHeartbeatAt = 10, hb_updatedAt = 10, hb_certificateExpiresAt = None\<rparr>)"

theorem revocation_is_final_witness:
  "\<exists>r'. map_of (db_nodes (run_ops [late_heartbeat] revoked_node_db)) ''n'' = Some r' \<and>
        node_state (row_json r') = NodeRevoked"
proof (rule revocation_is_final)
  show "reachable_db revoked_node_db"
    unfolding revoked_node_db_def by (rule reachable_step[OF sample_reachable]) simp
  show "\<forall>x \<in> set [late_heartbeat]. typed_op x \<and> (\<forall>e. x \<noteq> NodeOp (OpRemoveNode ''n'' e))"
    by (simp add: late_heartbeat_def)
  show "map_of (db_nodes revoked_node_db) ''n'' =
      Some \<lparr>row_json = (sample_node ''n'' ''eu'')\<lparr>node_state := NodeRevoked, node_updatedAt := 9\<rparr>,
            row_date = 9, row_revision = 2, row_pending = False\<rparr>" by code_simp
qed simp

section \<open>Users, channels and tokens\<close>

text \<open>C38: Once the installation has an owner it keeps one: no operation takes the last owner
  away, except the plain conditional write of a user, which the source keeps for updates
  that do not touch the roles.\<close>

theorem an_owner_remains:
  assumes "keys_unique d" and "has_owner d" and "\<forall>x \<in> set xs. \<forall>u e. x \<noteq> AccessOp (OpCasUser u e)"
  shows "has_owner (run_ops xs d)"
  using assms
proof (induction xs arbitrary: d)
  case (Cons x xs)
  then show ?case using has_owner_exec[of d x] keys_unique_exec[of d x] by simp
qed simp

definition sample_owner :: user_identity where
  "sample_owner =
     \<lparr>user_id = ''o'', user_providerId = ''p'', user_providerUserId = ''po'', user_displayName = ''Owner'',
      user_roles = [RoleOwner], user_defaultProfileId = None, user_allowedProfileIds = [],
      user_firstSeenAt = 1, user_lastSeenAt = 1\<rparr>"

theorem an_owner_remains_witness:
  "has_owner (run_ops [AccessOp (OpDeleteUser ''o'' 1 None)] (run_ops [AccessOp (OpCreateUser sample_owner)] empty_db))"
proof (rule an_owner_remains)
  show "keys_unique (run_ops [AccessOp (OpCreateUser sample_owner)] empty_db)"
    by (rule keys_unique_run) (rule keys_unique_empty)
  have "map_of (db_users (run_ops [AccessOp (OpCreateUser sample_owner)] empty_db)) ''o'' =
      Some (fresh_row sample_owner 1)" by code_simp
  then show "has_owner (run_ops [AccessOp (OpCreateUser sample_owner)] empty_db)"
    unfolding has_owner_def
    by (intro exI[of _ "''o''"] exI[of _ "fresh_row sample_owner 1"])
      (simp add: fresh_row_def sample_owner_def is_owner_def)
qed simp

text \<open>A live channel created under the capacity limits leaves at most the allowed number
  of channels in all and for its owner, its owner exists, and its row was not there before;
  a refused creation changes nothing.\<close>

lemma channel_limits_hold:
  assumes "createLiveChannelWithinCapacity d c maxTotal maxPerOwner = (d', q)"
  shows "(\<forall>v. q = resolve (Inr v) \<longrightarrow>
            length (db_channels d') \<le> maxTotal \<and>
            (truthy (chan_ownerId c) \<longrightarrow> owned_channels d' (chan_ownerId c) \<le> maxPerOwner \<and>
               map_of (db_users d') (the (chan_ownerId c)) \<noteq> None) \<and>
            map_of (db_channels d) (chan_id c) = None \<and>
            map_of (db_channels d') (chan_id c) = Some (fresh_row c (chan_createdAt c))) \<and>
         ((\<nexists>v. q = resolve (Inr v)) \<longrightarrow> d' = d)"
  using create_channel_within[of d c maxTotal maxPerOwner d'] create_channel_refused[OF assms] assms
  by blast

definition sample_channel :: live_channel where
  "sample_channel =
     \<lparr>chan_id = ''ch'', chan_ownerId = None, chan_name = ''Live'', chan_path = ''live'', chan_ingestPath = None,
      chan_originNodeId = None, chan_region = None, chan_normalizationProfileId = None,
      chan_normalize = False, chan_publisherState = PublisherOffline, chan_publisherUpdatedAt = None,
      chan_publishTokenHash = ''t'', chan_replacementPublishTokenHash = None,
      chan_publisherReplacementRequestedAt = None, chan_rtmpUrl = ''r'', chan_srtUrl = ''s'',
      chan_whipUrl = ''w'', chan_backupRtmpUrl = None, chan_backupSrtUrl = None, chan_createdAt = 7\<rparr>"

text \<open>A personal token authenticates only while it is not revoked and not expired at the
  time of use, and the token returned differs from the stored one in its last use at most.\<close>

lemma token_use_is_checked:
  assumes "usePersonalToken d u = (d', Some t)"
  shows "\<exists>k r. (k, r) \<in> set (db_tokens d) \<and> t = touch_token u (row_json r) \<and>
           tok_tokenHash t = ptu_tokenHash u \<and> tok_revokedAt t = None \<and>
           (\<forall>e. tok_expiresAt t = Some e \<longrightarrow> ptu_usedAt u < e)"
proof -
  from used_token[OF assms] obtain p where p: "p \<in> set (db_tokens d)" "token_usable u (row_json (snd p))"
    "t = touch_token u (row_json (snd p))" by blast
  then show ?thesis
    by (intro exI[of _ "fst p"] exI[of _ "snd p"]) (auto simp: token_usable_def)
qed

section \<open>Logs\<close>

text \<open>After a log entry of a job is stored the job has at most as many entries as the
  retention allows, the entries of other jobs are untouched, and no dropped entry is newer
  than a kept one.\<close>

lemma job_log_is_bounded:
  fixes rows :: int and e :: job_log_entry
  assumes "keys_ok (db_job_logs d)" and "0 \<le> rows"
  defines "mine \<equiv> \<lambda>x. jlog_jobId x = jlog_jobId e"
    and "t \<equiv> sql_replace (db_job_logs d) (jlog_id e) (fresh_row e (jlog_timestamp e))"
  shows "length (filter (\<lambda>(_, r). mine (row_json r)) (db_job_logs (putJobLog d e rows))) \<le> nat rows \<and>
         filter (\<lambda>(_, r). \<not> mine (row_json r)) (db_job_logs (putJobLog d e rows)) =
           filter (\<lambda>(_, r). \<not> mine (row_json r)) t \<and>
         (\<forall>k r k' r'. (k, r) \<in> set (db_job_logs (putJobLog d e rows)) \<longrightarrow> mine (row_json r) \<longrightarrow>
            (k', r') \<in> set t \<longrightarrow> mine (row_json r') \<longrightarrow>
            k' \<notin> fst ` set (db_job_logs (putJobLog d e rows)) \<longrightarrow> row_date r' \<le> row_date r)"
proof -
  have keys: "keys_ok t"
    unfolding t_def using assms(1)
    by (auto simp: sql_replace_def keys_sql_delete sql_delete_def distinct_map_filter_fst)
  have put: "db_job_logs (putJobLog d e rows) = retain_newest mine rows t"
    by (simp add: putJobLog_def mine_def t_def)
  show ?thesis
    unfolding put using retained_bound[OF keys assms(2), of mine] retained_others[of mine rows t]
      retained_newest[OF keys, of _ _ mine rows] by blast
qed

definition sample_log :: "ident \<Rightarrow> instant \<Rightarrow> job_log_entry" where
  "sample_log i t =
     \<lparr>jlog_id = i, jlog_jobId = ''j'', jlog_sessionId = None, jlog_nodeId = None, jlog_level = LogInfo,
      jlog_message = ''m'', jlog_context = [], jlog_timestamp = t\<rparr>"

end
