(* ===== verification/RelayRefinement.thy ===== *)
theory RelayRefinement
  imports RelaySamples
begin

text \<open>
  The contract of the segment job table, stated without tables: a map from job ids to versioned
  jobs that every operation reads and writes as a whole. The repository of \<^verbatim>\<open>sqlite-repository.ts\<close>
  refines it: seen through \<open>job_store\<close>, any history of any operations is a run of the map, with the
  same replies.
\<close>

type_synonym job_map = "ident \<Rightarrow> segment_job versioned option"

datatype job_reply =
    JobCreated bool "segment_job versioned"
  | JobWritten "segment_job write_result"
  | JobRefused app_error

section \<open>The specification\<close>

definition spec_write ::
    "(job_state \<Rightarrow> bool) \<Rightarrow> segment_job \<Rightarrow> nat \<Rightarrow> job_map \<Rightarrow> job_map \<times> job_reply" where
  "spec_write ok j e s =
     (case s (job_id j) of
        None \<Rightarrow> (s, JobWritten (Rejected NotFound None []))
      | Some c \<Rightarrow>
          if vr_revision c \<noteq> e then (s, JobWritten (Rejected RevisionConflict (Some c) []))
          else if \<not> ok (job_state (vr_value c)) then (s, JobWritten (Rejected InvalidState (Some c) []))
          else (s(job_id j \<mapsto> versioned j (Suc e)), JobWritten (Applied (versioned j (Suc e)))))"

fun spec_job :: "job_op \<Rightarrow> job_map \<Rightarrow> job_map \<times> job_reply list" where
  "spec_job (OpCreateJob j) s =
     (case s (job_id j) of
        None \<Rightarrow> (s(job_id j \<mapsto> versioned j 1), [JobCreated True (versioned j 1)])
      | Some c \<Rightarrow> (s, [JobCreated False c]))"
| "spec_job (OpCasJob j e al) s =
     (if al = [] then (s, [JobRefused PlainError])
      else apsnd (\<lambda>a. [a]) (spec_write (\<lambda>st. st \<in> set al) j e s))"
| "spec_job (OpCompleteJob j e) s =
     (if job_state j \<noteq> JobComplete then (s, [JobRefused PlainError])
      else apsnd (\<lambda>a. [a]) (spec_write (\<lambda>st. st = JobLeased \<or> st = JobRunning) j e s))"
| "spec_job (OpCancelJob j e) s =
     (if job_state j \<noteq> JobCancelled then (s, [JobRefused PlainError])
      else apsnd (\<lambda>a. [a]) (spec_write (\<lambda>st. st \<noteq> JobComplete \<and> st \<noteq> JobCancelled) j e s))"
| "spec_job (OpCreateProducer p) s = (s, [])"
| "spec_job (OpCasProducer p e al) s = (s, [])"

fun spec_run :: "repo_op list \<Rightarrow> job_map \<Rightarrow> job_map \<times> job_reply list" where
  "spec_run [] s = (s, [])"
| "spec_run (JobOp x # xs) s =
     (let (s', as) = spec_job x s; (s'', bs) = spec_run xs s' in (s'', as @ bs))"
| "spec_run (_ # xs) s = spec_run xs s"

section \<open>The repository, seen through the map\<close>

definition job_store :: "db \<Rightarrow> job_map" where
  "job_store d = getVersionedSegmentJob d"

definition written :: "segment_job write_result outcome \<Rightarrow> job_reply list" where
  "written r = (case r of Inl e \<Rightarrow> [JobRefused e] | Inr w \<Rightarrow> [JobWritten w])"

fun job_replies :: "repo_op \<Rightarrow> db \<Rightarrow> job_reply list" where
  "job_replies (JobOp (OpCreateJob j)) d =
     (case snd (createSegmentJob d j) of
        Inl e \<Rightarrow> [JobRefused e] | Inr (created, c) \<Rightarrow> [JobCreated created c])"
| "job_replies (JobOp (OpCasJob j e al)) d = written (snd (compareAndSetSegmentJob d j e al))"
| "job_replies (JobOp (OpCompleteJob j e)) d = written (snd (completeSegmentJob d j e))"
| "job_replies (JobOp (OpCancelJob j e)) d = written (snd (cancelSegmentJob d j e))"
| "job_replies _ d = []"

fun run_replies :: "repo_op list \<Rightarrow> db \<Rightarrow> job_reply list" where
  "run_replies [] d = []"
| "run_replies (x # xs) d = job_replies x d @ run_replies xs (exec_op x d)"

section \<open>The refinement\<close>

lemma job_store_alt: "job_store d = get_versioned (db_jobs d)"
  by (simp add: job_store_def getVersionedSegmentJob_def fun_eq_iff)

lemma write_refines:
  assumes "keys_ok (db_jobs d)" and "al \<noteq> []" and ok: "\<And>st. ok st \<longleftrightarrow> st \<in> set al"
  shows "apsnd (\<lambda>a. [a]) (spec_write ok j e (job_store d)) =
    (job_store (fst (compareAndSetSegmentJob d j e al)), written (snd (compareAndSetSegmentJob d j e al)))"
proof -
  let ?t = "db_jobs d"
  let ?cas = "compare_and_set_versioned job_state ?t (job_id j) j (job_updatedAt j) e al"
  have stored: "fst (compareAndSetSegmentJob d j e al) = d\<lparr>db_jobs := fst ?cas\<rparr>"
      "snd (compareAndSetSegmentJob d j e al) = resolve (snd ?cas)"
    using assms(2) by (simp_all add: compareAndSetSegmentJob_def case_prod_beta)
  have ok: "ok = (\<lambda>st. st \<in> set al)" using ok by auto
  show ?thesis
  proof (cases "get_versioned ?t (job_id j)")
    case None
    then have "?cas = (?t, Rejected NotFound None [])" using table.cas_missing[OF assms(1)] by blast
    then show ?thesis using None by (simp add: stored written_def spec_write_def job_store_alt get_versioned_def)
  next
    case (Some c)
    then obtain old r where c: "get_versioned ?t (job_id j) = Some (versioned old r)" "c = versioned old r"
      by (cases c) auto
    consider "r \<noteq> e" | "r = e" "job_state old \<notin> set al" | "r = e" "job_state old \<in> set al" by blast
    then show ?thesis
    proof cases
      case 1
      then have "?cas = (?t, Rejected RevisionConflict (Some c) [])"
        using table.cas_stale[OF assms(1) c(1)] c(2) by blast
      then show ?thesis using 1 c by (simp add: stored written_def spec_write_def job_store_alt)
    next
      case 2
      then have "?cas = (?t, Rejected InvalidState (Some c) [])"
        using table.cas_refused[OF assms(1) c(1)] assms(2) c(2) by blast
      then show ?thesis using 2 c by (simp add: stored written_def spec_write_def job_store_alt ok)
    next
      case 3
      then have "snd ?cas = Applied (versioned j (Suc e))"
          "get_versioned (fst ?cas) = (get_versioned ?t)(job_id j \<mapsto> versioned j (Suc e))"
        using table.cas_hit[OF assms(1) c(1)] by blast+
      then show ?thesis using 3 c by (simp add: stored written_def spec_write_def job_store_alt ok)
    qed
  qed
qed

lemma job_step_refines:
  assumes "keys_ok (db_jobs d)"
  shows "spec_job x (job_store d) = (job_store (exec_op (JobOp x) d), job_replies (JobOp x) d)"
proof (cases x)
  case (OpCreateJob j)
  then show ?thesis
    by (auto simp: createSegmentJob_def Let_def case_prod_beta job_store_alt
        get_versioned_def sql_insert_or_ignore_def fresh_row_def fun_eq_iff split: option.splits)
next
  case (OpCasJob j e al)
  then show ?thesis
    using write_refines[OF assms, of al "\<lambda>st. st \<in> set al" j e]
    by (simp add: compareAndSetSegmentJob_def written_def)
next
  case (OpCompleteJob j e)
  then show ?thesis
    using write_refines[OF assms, of "[JobLeased, JobRunning]" "\<lambda>st. st = JobLeased \<or> st = JobRunning" j e]
    by (simp add: completeSegmentJob_def written_def)
next
  case (OpCancelJob j e)
  have "st \<noteq> JobComplete \<and> st \<noteq> JobCancelled \<longleftrightarrow> st \<in> set [JobQueued, JobLeased, JobRunning, JobFailed]" for st
    by (cases st) simp_all
  from write_refines[OF assms _ this, of j e] OpCancelJob show ?thesis
    by (simp add: cancelSegmentJob_def written_def)
qed (simp_all add: job_store_alt createVodProducer_def
      compareAndSetVodProducer_def Let_def case_prod_beta split: option.split)

lemma other_step_refines:
  assumes "\<And>y. x \<noteq> JobOp y"
  shows "spec_run (x # xs) s = spec_run xs s \<and> job_store (exec_op x d) = job_store d \<and> job_replies x d = []"
  using assms by (cases x; blast?) (simp_all add: job_store_alt frames)

text \<open>C2: The table of segment jobs is a versioned map: seen through its reads, any history of
  repository operations acts on the jobs as its job operations act on a map from ids to jobs
  with a revision, and every operation replies as it does on the map.\<close>

theorem jobs_refine_versioned_map:
  assumes "keys_unique d"
  shows "spec_run xs (job_store d) = (job_store (run_ops xs d), run_replies xs d)"
  using assms
proof (induction xs arbitrary: d)
  case Nil
  then show ?case by simp
next
  case (Cons x xs)
  have rest: "spec_run xs (job_store (exec_op x d)) = (job_store (run_ops xs (exec_op x d)), run_replies xs (exec_op x d))"
    by (rule Cons.IH) (rule keys_unique_exec[OF Cons.prems])
  show ?case
  proof (cases "\<exists>y. x = JobOp y")
    case True
    then show ?thesis using rest job_step_refines[of d] Cons.prems by (auto simp: keys_unique_def)
  next
    case False
    then show ?thesis using rest other_step_refines[of x xs "job_store d" d] by simp
  qed
qed

theorem jobs_refine_versioned_map_witness:
  "snd (spec_run [JobOp (OpCancelJob (sample_job\<lparr>job_state := JobCancelled\<rparr>) 1)] (job_store sample_db)) =
     [JobWritten (Applied (versioned (sample_job\<lparr>job_state := JobCancelled\<rparr>) 2))]"
proof -
  let ?x = "JobOp (OpCancelJob (sample_job\<lparr>job_state := JobCancelled\<rparr>) 1)"
  have "run_replies [?x] sample_db = [JobWritten (Applied (versioned (sample_job\<lparr>job_state := JobCancelled\<rparr>) 2))]"
    by code_simp
  then show ?thesis using jobs_refine_versioned_map[of sample_db "[?x]"] sample_reachable
    by (simp add: refs_okD(1)[OF reachable_refs_ok])
qed

end
