(* ===== verification/RelayCoordination.thy ===== *)
theory RelayCoordination
  imports RelayPrelude "HOL-Library.AList"
begin

text \<open>
  The in-memory coordination store, \<^verbatim>\<open>MemoryCoordinationStore\<close> of
  \<^verbatim>\<open>packages/adapters/src/local-infrastructure.ts\<close>: leases with an owner and an expiry,
  values with a time to live, sliding windows of viewers and of segment demands, and the
  listeners of the channels. A JavaScript \<^verbatim>\<open>Map\<close> keeps its insertion order and updates in
  place, which is \<open>AList.update\<close>. Every reading of the clock is an argument; \<open>acquire\<close> and
  \<open>renew\<close> read it twice. The locale \<open>lease_store\<close> is the contract of a lease service,
  with the mutual exclusion its clients rely on, and the store is shown to provide it.
\<close>

section \<open>State\<close>

record lease =
  lease_owner :: ident
  lease_expiresAt :: instant

record stored_value =
  sv_value :: string
  sv_expiresAt :: instant

record segment_demand =
  dem_segmentIndex :: int
  dem_observedAtMs :: instant
  dem_playbackAnchorSegmentIndex :: "int option"
  dem_playbackAnchorObservedAtMs :: "instant option"

type_synonym viewer_set = "(string \<times> instant) list"

text \<open>
  The keys \<^verbatim>\<open>viewers:session:edge:node\<close> and \<^verbatim>\<open>viewers:session:total\<close> of the viewer sets.
\<close>

record coordination =
  co_leases :: "(string \<times> lease) list"
  co_values :: "(string \<times> stored_value) list"
  co_listeners :: "(string \<times> nat list) list"
  co_viewers :: "(string \<times> viewer_set) list"
  co_segmentDemands :: "(ident \<times> (string \<times> segment_demand) list) list"

definition empty_coordination :: coordination where
  "empty_coordination =
     \<lparr>co_leases = [], co_values = [], co_listeners = [], co_viewers = [], co_segmentDemands = []\<rparr>"

section \<open>Leases\<close>

definition acquire ::
    "coordination \<Rightarrow> instant \<Rightarrow> instant \<Rightarrow> string \<Rightarrow> ident \<Rightarrow> int \<Rightarrow> coordination \<times> bool" where
  "acquire st now now' key owner ttlMs =
     (if (case map_of (co_leases st) key of
            None \<Rightarrow> False
          | Some existing \<Rightarrow> lease_expiresAt existing > now \<and> lease_owner existing \<noteq> owner)
      then (st, False)
      else (st\<lparr>co_leases := AList.update key
                 \<lparr>lease_owner = owner, lease_expiresAt = now' + ttlMs\<rparr> (co_leases st)\<rparr>, True))"

definition renew ::
    "coordination \<Rightarrow> instant \<Rightarrow> instant \<Rightarrow> string \<Rightarrow> ident \<Rightarrow> int \<Rightarrow> coordination \<times> bool" where
  "renew st now now' key owner ttlMs =
     (case map_of (co_leases st) key of
        None \<Rightarrow> (st, False)
      | Some existing \<Rightarrow>
          if lease_owner existing \<noteq> owner \<or> lease_expiresAt existing \<le> now then (st, False)
          else (st\<lparr>co_leases := AList.update key
                     (existing\<lparr>lease_expiresAt := now' + ttlMs\<rparr>) (co_leases st)\<rparr>, True))"

definition release :: "coordination \<Rightarrow> string \<Rightarrow> ident \<Rightarrow> coordination" where
  "release st key owner =
     (if map_option lease_owner (map_of (co_leases st) key) = Some owner
      then st\<lparr>co_leases := AList.delete key (co_leases st)\<rparr> else st)"

section \<open>Values with a time to live\<close>

definition set_value :: "coordination \<Rightarrow> instant \<Rightarrow> string \<Rightarrow> string \<Rightarrow> int \<Rightarrow> coordination" where
  "set_value st now key v ttlMs =
     st\<lparr>co_values := AList.update key \<lparr>sv_value = v, sv_expiresAt = now + ttlMs\<rparr> (co_values st)\<rparr>"

definition get_value :: "coordination \<Rightarrow> instant \<Rightarrow> string \<Rightarrow> coordination \<times> string option" where
  "get_value st now key =
     (case map_of (co_values st) key of
        None \<Rightarrow> (st, None)
      | Some s \<Rightarrow>
          if sv_expiresAt s \<le> now
          then (st\<lparr>co_values := AList.delete key (co_values st)\<rparr>, None)
          else (st, Some (sv_value s)))"

definition delete_value :: "coordination \<Rightarrow> string \<Rightarrow> coordination" where
  "delete_value st key = st\<lparr>co_values := AList.delete key (co_values st)\<rparr>"

section \<open>Viewers\<close>

definition edge_key :: "ident \<Rightarrow> ident \<Rightarrow> string" where
  "edge_key session node = ''viewers:'' @ session @ '':edge:'' @ node"

definition total_key :: "ident \<Rightarrow> string" where
  "total_key session = ''viewers:'' @ session @ '':total''"

definition viewer_set :: "coordination \<Rightarrow> string \<Rightarrow> viewer_set" where
  "viewer_set st key = coalesce (map_of (co_viewers st) key) []"

definition live_viewers :: "viewer_set \<Rightarrow> instant \<Rightarrow> viewer_set" where
  "live_viewers vs cutoff = filter (\<lambda>(_, observedAt). \<not> observedAt \<le> cutoff) vs"

text \<open>
  \<^verbatim>\<open>#pruneViewers\<close>: the set object loses the old viewers, and the key goes when the set is
  empty.
\<close>

definition prune_viewers :: "coordination \<Rightarrow> string \<Rightarrow> viewer_set \<Rightarrow> instant \<Rightarrow> coordination" where
  "prune_viewers st key vs cutoff =
     (let rest = live_viewers vs cutoff
      in if rest = [] then st\<lparr>co_viewers := AList.delete key (co_viewers st)\<rparr>
         else st\<lparr>co_viewers := AList.update key rest (co_viewers st)\<rparr>)"

record viewer_input =
  vi_sessionId :: ident
  vi_edgeNodeId :: ident
  vi_viewerHash :: string
  vi_observedAtMs :: instant
  vi_windowMs :: int

definition recordViewer :: "coordination \<Rightarrow> viewer_input \<Rightarrow> coordination \<times> nat \<times> nat" where
  "recordViewer st i =
     (let cutoff = vi_observedAtMs i - vi_windowMs i;
          ek = edge_key (vi_sessionId i) (vi_edgeNodeId i);
          tk = total_key (vi_sessionId i);
          edge = AList.update (vi_viewerHash i) (vi_observedAtMs i) (viewer_set st ek);
          totals = AList.update (vi_viewerHash i) (vi_observedAtMs i) (viewer_set st tk);
          st1 = prune_viewers st ek edge cutoff;
          st2 = prune_viewers st1 tk totals cutoff
      in (st2, length (live_viewers edge cutoff), length (live_viewers totals cutoff)))"

definition countViewers ::
    "coordination \<Rightarrow> ident \<Rightarrow> instant \<Rightarrow> int \<Rightarrow> coordination \<times> nat" where
  "countViewers st session observedAtMs windowMs =
     (case map_of (co_viewers st) (total_key session) of
        None \<Rightarrow> (st, 0)
      | Some vs \<Rightarrow>
          (prune_viewers st (total_key session) vs (observedAtMs - windowMs),
           length (live_viewers vs (observedAtMs - windowMs))))"

section \<open>Segment demands\<close>

record demand_input =
  di_sessionId :: ident
  di_viewerHash :: string
  di_segmentIndex :: int
  di_observedAtMs :: instant
  di_windowMs :: int
  di_playbackDiscontinuity :: bool

definition next_demand :: "demand_input \<Rightarrow> segment_demand option \<Rightarrow> segment_demand" where
  "next_demand i existing =
     (let preserveAnchor =
            (case Option.bind existing dem_playbackAnchorObservedAtMs of
               None \<Rightarrow> False
             | Some seenAt \<Rightarrow> seenAt \<ge> di_observedAtMs i - di_windowMs i);
          base = \<lparr>dem_segmentIndex = di_segmentIndex i, dem_observedAtMs = di_observedAtMs i,
                  dem_playbackAnchorSegmentIndex = None, dem_playbackAnchorObservedAtMs = None\<rparr>
      in if di_playbackDiscontinuity i
         then base\<lparr>dem_playbackAnchorSegmentIndex := Some (di_segmentIndex i),
                   dem_playbackAnchorObservedAtMs := Some (di_observedAtMs i)\<rparr>
         else case existing of
           Some e \<Rightarrow>
             if preserveAnchor
             then base\<lparr>dem_playbackAnchorSegmentIndex := dem_playbackAnchorSegmentIndex e,
                       dem_playbackAnchorObservedAtMs := dem_playbackAnchorObservedAtMs e\<rparr>
             else base
         | None \<Rightarrow> base)"

definition recent_demands ::
    "(string \<times> segment_demand) list \<Rightarrow> instant \<Rightarrow> (string \<times> segment_demand) list" where
  "recent_demands ds cutoff = filter (\<lambda>(_, dm). \<not> dem_observedAtMs dm < cutoff) ds"

definition put_demands ::
    "coordination \<Rightarrow> ident \<Rightarrow> (string \<times> segment_demand) list \<Rightarrow> coordination" where
  "put_demands st session ds =
     st\<lparr>co_segmentDemands :=
         (if ds = [] then AList.delete session (co_segmentDemands st)
          else AList.update session ds (co_segmentDemands st))\<rparr>"

definition recordSegmentDemand :: "coordination \<Rightarrow> demand_input \<Rightarrow> coordination" where
  "recordSegmentDemand st i =
     (let demands = coalesce (map_of (co_segmentDemands st) (di_sessionId i)) [];
          existing = map_of demands (di_viewerHash i);
          demands' = AList.update (di_viewerHash i) (next_demand i existing) demands
      in put_demands st (di_sessionId i)
           (recent_demands demands' (di_observedAtMs i - di_windowMs i)))"

definition listSegmentDemands ::
    "coordination \<Rightarrow> ident \<Rightarrow> instant \<Rightarrow> int \<Rightarrow> coordination \<times> (string \<times> segment_demand) list" where
  "listSegmentDemands st session observedAtMs windowMs =
     (case map_of (co_segmentDemands st) session of
        None \<Rightarrow> (st, [])
      | Some demands \<Rightarrow>
          let recent = recent_demands demands (observedAtMs - windowMs)
          in (put_demands st session recent, recent))"

section \<open>Channels\<close>

text \<open>
  A listener is known by its number; \<open>publish\<close> gives the calls it makes. What a listener
  does when it is called is outside the store.
\<close>

definition publish :: "coordination \<Rightarrow> string \<Rightarrow> string \<Rightarrow> (nat \<times> string) list" where
  "publish st channel payload =
     map (\<lambda>l. (l, payload)) (coalesce (map_of (co_listeners st) channel) [])"

definition subscribe :: "coordination \<Rightarrow> string \<Rightarrow> nat \<Rightarrow> coordination" where
  "subscribe st channel l =
     (let ls = coalesce (map_of (co_listeners st) channel) []
      in st\<lparr>co_listeners := AList.update channel (if l \<in> set ls then ls else ls @ [l])
              (co_listeners st)\<rparr>)"

definition unsubscribe :: "coordination \<Rightarrow> string \<Rightarrow> nat \<Rightarrow> coordination" where
  "unsubscribe st channel l =
     (case map_of (co_listeners st) channel of
        None \<Rightarrow> st
      | Some ls \<Rightarrow> st\<lparr>co_listeners := AList.update channel (removeAll l ls) (co_listeners st)\<rparr>)"

section \<open>The contract of a lease service\<close>

datatype ('k, 'o) lease_event =
    Acquired instant instant 'k 'o int
  | Renewed instant instant 'k 'o int
  | Released 'k 'o

fun event_owner :: "('k, 'o) lease_event \<Rightarrow> 'o" where
  "event_owner (Acquired _ _ _ a _) = a"
| "event_owner (Renewed _ _ _ a _) = a"
| "event_owner (Released _ a) = a"

fun event_before :: "instant \<Rightarrow> ('k, 'o) lease_event \<Rightarrow> bool" where
  "event_before e (Acquired t _ _ _ _) = (t \<le> e)"
| "event_before e (Renewed t _ _ _ _) = (t \<le> e)"
| "event_before e (Released _ _) = True"

text \<open>
  What a client relies on: \<open>holder w k t\<close> is the owner that holds key \<open>k\<close> at time \<open>t\<close> if
  nothing else happens. A lease is granted exactly when nobody else holds the key, a
  granted or renewed lease holds for its time to live, and a refused or foreign operation
  takes nothing away from the holder.
\<close>

locale lease_store =
  fixes holder :: "'w \<Rightarrow> 'k \<Rightarrow> instant \<Rightarrow> 'o option"
    and acq :: "'w \<Rightarrow> instant \<Rightarrow> instant \<Rightarrow> 'k \<Rightarrow> 'o \<Rightarrow> int \<Rightarrow> 'w \<times> bool"
    and ren :: "'w \<Rightarrow> instant \<Rightarrow> instant \<Rightarrow> 'k \<Rightarrow> 'o \<Rightarrow> int \<Rightarrow> 'w \<times> bool"
    and rel :: "'w \<Rightarrow> 'k \<Rightarrow> 'o \<Rightarrow> 'w"
  assumes acq_granted:
      "snd (acq w t t' k a ttl) \<longleftrightarrow> holder w k t = None \<or> holder w k t = Some a"
    and acq_holds:
      "snd (acq w t t' k a ttl) \<Longrightarrow>
         holder (fst (acq w t t' k a ttl)) k s = (if s < t' + ttl then Some a else None)"
    and acq_refused: "\<not> snd (acq w t t' k a ttl) \<Longrightarrow> fst (acq w t t' k a ttl) = w"
    and acq_frame: "j \<noteq> k \<Longrightarrow> holder (fst (acq w t t' k a ttl)) j s = holder w j s"
    and ren_granted: "snd (ren w t t' k a ttl) \<longleftrightarrow> holder w k t = Some a"
    and ren_holds:
      "snd (ren w t t' k a ttl) \<Longrightarrow>
         holder (fst (ren w t t' k a ttl)) k s = (if s < t' + ttl then Some a else None)"
    and ren_refused: "\<not> snd (ren w t t' k a ttl) \<Longrightarrow> fst (ren w t t' k a ttl) = w"
    and ren_frame: "j \<noteq> k \<Longrightarrow> holder (fst (ren w t t' k a ttl)) j s = holder w j s"
    and rel_frees:
      "holder w k s = None \<or> holder w k s = Some a \<Longrightarrow> holder (rel w k a) k s = None"
    and rel_foreign: "holder w k s = Some b \<Longrightarrow> b \<noteq> a \<Longrightarrow> holder (rel w k a) k s = Some b"
    and rel_frame: "j \<noteq> k \<Longrightarrow> holder (rel w k a) j s = holder w j s"
    and holder_earlier: "holder w k s = Some a \<Longrightarrow> t \<le> s \<Longrightarrow> holder w k t = Some a"
begin

fun event_step :: "('k, 'o) lease_event \<Rightarrow> 'w \<Rightarrow> 'w \<times> bool" where
  "event_step (Acquired t t' k a ttl) w = acq w t t' k a ttl"
| "event_step (Renewed t t' k a ttl) w = ren w t t' k a ttl"
| "event_step (Released k a) w = (rel w k a, False)"

fun event_run :: "('k, 'o) lease_event list \<Rightarrow> 'w \<Rightarrow> 'w" where
  "event_run [] w = w"
| "event_run (e # es) w = event_run es (fst (event_step e w))"

text \<open>Nobody else can take the key while it is held.\<close>

lemma step_keeps_holder:
  assumes "holder w k s = Some a" and "event_owner e \<noteq> a" and "event_before s e"
  shows "holder (fst (event_step e w)) k s = Some a"
proof (cases e)
  case (Acquired t t' j b ttl)
  show ?thesis
  proof (cases "j = k")
    case True
    have "holder w k t = Some a" using holder_earlier[OF assms(1), of t] assms(3) Acquired by simp
    then have "\<not> snd (acq w t t' k b ttl)" using acq_granted[of w t t' k b ttl] assms(2) Acquired by simp
    then show ?thesis using acq_refused assms(1) Acquired True by simp
  next
    case False
    then show ?thesis using acq_frame assms(1) Acquired by simp
  qed
next
  case (Renewed t t' j b ttl)
  show ?thesis
  proof (cases "j = k")
    case True
    have "holder w k t = Some a" using holder_earlier[OF assms(1), of t] assms(3) Renewed by simp
    then have "\<not> snd (ren w t t' k b ttl)" using ren_granted[of w t t' k b ttl] assms(2) Renewed by simp
    then show ?thesis using ren_refused assms(1) Renewed True by simp
  next
    case False
    then show ?thesis using ren_frame assms(1) Renewed by simp
  qed
next
  case (Released j b)
  then show ?thesis using rel_foreign rel_frame assms by (cases "j = k") auto
qed

lemma run_keeps_holder:
  assumes "holder w k s = Some a"
    and "\<forall>e \<in> set es. event_owner e \<noteq> a \<and> event_before s e"
  shows "holder (event_run es w) k s = Some a"
  using assms
proof (induction es arbitrary: w)
  case Nil
  then show ?case by simp
next
  case (Cons e es)
  then show ?case using step_keeps_holder[of w k s a e] by simp
qed

text \<open>
  Mutual exclusion: once \<open>a\<close> was granted the key for \<open>ttl\<close>, whatever the others do
  meanwhile, no other owner is granted it before the lease runs out.
\<close>

lemma mutual_exclusion:
  assumes "snd (acq w t t' k a ttl)" and "s < t' + ttl"
    and "\<forall>e \<in> set es. event_owner e \<noteq> a \<and> event_before s e" and "b \<noteq> a"
  shows "\<not> snd (acq (event_run es (fst (acq w t t' k a ttl))) s s' k b ttl')"
proof -
  have "holder (fst (acq w t t' k a ttl)) k s = Some a" using acq_holds assms(1,2) by simp
  from run_keeps_holder[OF this assms(3)] show ?thesis
    using acq_granted assms(4) by simp
qed

text \<open>The holder itself can renew in that time, and a release frees the key for anyone.\<close>

lemma holder_renews:
  assumes "snd (acq w t t' k a ttl)" and "s < t' + ttl"
    and "\<forall>e \<in> set es. event_owner e \<noteq> a \<and> event_before s e"
  shows "snd (ren (event_run es (fst (acq w t t' k a ttl))) s s' k a ttl')"
proof -
  have "holder (fst (acq w t t' k a ttl)) k s = Some a" using acq_holds assms(1,2) by simp
  from run_keeps_holder[OF this assms(3)] show ?thesis using ren_granted by simp
qed

lemma released_then_granted:
  assumes "holder w k t = Some a"
  shows "snd (acq (rel w k a) t t' k b ttl)"
  using acq_granted rel_frees[of w k t a] assms by simp

end

section \<open>The memory store provides it\<close>

definition lease_holder :: "coordination \<Rightarrow> string \<Rightarrow> instant \<Rightarrow> ident option" where
  "lease_holder st k t =
     (case map_of (co_leases st) k of
        None \<Rightarrow> None
      | Some l \<Rightarrow> if t < lease_expiresAt l then Some (lease_owner l) else None)"

lemmas lease_defs = lease_holder_def acquire_def renew_def release_def

lemmas alist_simps = update_conv' delete_conv'

lemma acquire_cases:
  "acquire st t t' k a ttl =
     (if lease_holder st k t = None \<or> lease_holder st k t = Some a
      then (st\<lparr>co_leases := AList.update k
                 \<lparr>lease_owner = a, lease_expiresAt = t' + ttl\<rparr> (co_leases st)\<rparr>, True)
      else (st, False))"
  by (simp add: acquire_def lease_holder_def split: option.split)

lemma renew_refused: "lease_holder st k t \<noteq> Some a \<Longrightarrow> renew st t t' k a ttl = (st, False)"
  by (auto simp: renew_def lease_holder_def split: option.splits)

lemma renew_applied:
  assumes "lease_holder st k t = Some a"
  obtains l where "lease_owner l = a" "lease_expiresAt l = t' + ttl"
    "renew st t t' k a ttl = (st\<lparr>co_leases := AList.update k l (co_leases st)\<rparr>, True)"
proof (cases "map_of (co_leases st) k")
  case None
  with assms show ?thesis by (simp add: lease_holder_def)
next
  case (Some l)
  with assms have "lease_owner l = a" "t < lease_expiresAt l"
    by (simp_all add: lease_holder_def split: if_splits)
  with Some that[of "l\<lparr>lease_expiresAt := t' + ttl\<rparr>"] show ?thesis by (simp add: renew_def)
qed

lemma lease_holder_update:
  "lease_holder (st\<lparr>co_leases := AList.update k l (co_leases st)\<rparr>) j s =
     (if j = k then (if s < lease_expiresAt l then Some (lease_owner l) else None)
      else lease_holder st j s)"
  by (simp add: lease_holder_def alist_simps)

lemma lease_holder_release:
  "lease_holder (release st k a) j s =
     (if j = k \<and> lease_holder st k s = Some a then None else lease_holder st j s)"
  by (cases "map_of (co_leases st) k") (auto simp: lease_holder_def release_def alist_simps)

lemma renew_granted: "snd (renew st t t' k a ttl) \<longleftrightarrow> lease_holder st k t = Some a"
  proof (cases "lease_holder st k t = Some a")
  case True
  then show ?thesis by (rule renew_applied[of _ _ _ _ t' ttl]) (simp add: True)
qed (simp add: renew_refused)

interpretation leases: lease_store lease_holder acquire renew release
proof (unfold_locales, goal_cases)
  case (1 w t t' k a ttl)
  show ?case by (simp add: acquire_cases)
next
  case (2 w t t' k a ttl s)
  then show ?case by (auto simp: acquire_cases lease_holder_update split: if_splits)
next
  case (3 w t t' k a ttl)
  then show ?case by (auto simp: acquire_cases split: if_splits)
next
  case (4 j k w t t' a ttl s)
  then show ?case by (simp add: acquire_cases lease_holder_update)
next
  case (5 w t t' k a ttl)
  show ?case by (rule renew_granted)
next
  case (6 w t t' k a ttl s)
  then have "lease_holder w k t = Some a" by (simp only: renew_granted)
  then show ?case by (rule renew_applied[of _ _ _ _ t' ttl]) (simp add: lease_holder_update)
next
  case (7 w t t' k a ttl)
  then have "lease_holder w k t \<noteq> Some a" by (simp add: renew_granted)
  then show ?case by (simp add: renew_refused)
next
  case (8 j k w t t' a ttl s)
  show ?case
  proof (cases "lease_holder w k t = Some a")
    case True
    then show ?thesis
      by (rule renew_applied[of _ _ _ _ t' ttl]) (use 8 in \<open>simp add: lease_holder_update\<close>)
  qed (simp add: renew_refused)
next
  case (9 w k s a)
  then show ?case
    by (cases "lease_holder w k s") (simp_all add: lease_holder_release)
next
  case (10 w k s b a)
  then show ?case by (simp add: lease_holder_release)
next
  case (11 j k w a s)
  then show ?case by (simp add: lease_holder_release)
next
  case (12 w k s a t)
  then show ?case
    by (cases "map_of (co_leases w) k") (simp_all add: lease_holder_def split: if_splits)
qed

text \<open>Windows.\<close>

lemma live_viewers_update_in:
  assumes "cutoff < t"
  shows "(v, t) \<in> set (live_viewers (AList.update v t vs) cutoff)"
proof -
  have "map_of (AList.update v t vs) v = Some t" by (simp add: update_conv')
  then show ?thesis using assms by (auto simp: live_viewers_def dest: map_of_SomeD)
qed

lemma distinct_live_viewers:
  "distinct (map fst vs) \<Longrightarrow> distinct (map fst (live_viewers vs c))"
  by (simp add: live_viewers_def distinct_map_filter_fst)

lemma map_of_live_viewers:
  assumes "distinct (map fst vs)"
  shows "map_of (live_viewers vs c) v =
           (case map_of vs v of None \<Rightarrow> None | Some t \<Rightarrow> if t \<le> c then None else Some t)"
  using map_of_filter_key[OF assms, of "\<lambda>_ t. \<not> t \<le> c" v]
  by (auto simp: live_viewers_def split: option.splits)

lemma map_of_recent_demands:
  assumes "distinct (map fst ds)"
  shows "map_of (recent_demands ds c) v =
           (case map_of ds v of None \<Rightarrow> None
            | Some dm \<Rightarrow> if dem_observedAtMs dm < c then None else Some dm)"
  using map_of_filter_key[OF assms, of "\<lambda>_ dm. \<not> dem_observedAtMs dm < c" v]
  by (auto simp: recent_demands_def split: option.splits)

lemma edge_key_ne_total [simp]: "edge_key s n \<noteq> total_key s" "total_key s \<noteq> edge_key s n"
  by (simp_all add: edge_key_def total_key_def)

lemma prune_viewers_lookup:
  "map_of (co_viewers (prune_viewers st k vs c)) j =
     (if j = k then (if live_viewers vs c = [] then None else Some (live_viewers vs c))
      else map_of (co_viewers st) j)"
  by (simp add: prune_viewers_def Let_def alist_simps)

lemma viewer_set_prune:
  "viewer_set (prune_viewers st k vs c) j = (if j = k then live_viewers vs c else viewer_set st j)"
  by (simp add: viewer_set_def prune_viewers_lookup)

text \<open>The set of an edge and the total set are distinct lists of viewers in every state.\<close>

definition viewers_ok :: "coordination \<Rightarrow> bool" where
  "viewers_ok st \<longleftrightarrow> (\<forall>k. distinct (map fst (viewer_set st k)))"

lemma viewers_ok_empty: "viewers_ok empty_coordination"
  by (simp add: viewers_ok_def viewer_set_def empty_coordination_def)

lemma viewers_ok_prune:
  "viewers_ok st \<Longrightarrow> distinct (map fst vs) \<Longrightarrow> viewers_ok (prune_viewers st k vs c)"
  by (simp add: viewers_ok_def viewer_set_prune distinct_live_viewers)

lemma viewers_ok_record: "viewers_ok st \<Longrightarrow> viewers_ok (fst (recordViewer st i))"
  by (simp add: recordViewer_def Let_def viewers_ok_prune distinct_update viewers_ok_def
      viewer_set_prune distinct_live_viewers)

lemma viewers_ok_count: "viewers_ok st \<Longrightarrow> viewers_ok (fst (countViewers st s t w))"
proof (cases "map_of (co_viewers st) (total_key s)")
  case (Some vs)
  moreover assume "viewers_ok st"
  moreover from this have "distinct (map fst vs)"
    using Some by (auto simp: viewers_ok_def viewer_set_def dest: spec[of _ "total_key s"])
  ultimately show ?thesis by (simp add: countViewers_def viewers_ok_prune)
qed (simp add: countViewers_def)

lemma map_of_demands_put:
  "map_of (co_segmentDemands (put_demands st s ds)) j =
     (if j = s then (if ds = [] then None else Some ds) else map_of (co_segmentDemands st) j)"
  by (simp add: put_demands_def alist_simps)

definition session_demands :: "coordination \<Rightarrow> ident \<Rightarrow> (string \<times> segment_demand) list" where
  "session_demands st s = coalesce (map_of (co_segmentDemands st) s) []"

lemma session_demands_put:
  "session_demands (put_demands st s ds) j = (if j = s then ds else session_demands st j)"
  by (simp add: session_demands_def map_of_demands_put)

definition demands_ok :: "coordination \<Rightarrow> bool" where
  "demands_ok st \<longleftrightarrow> (\<forall>s. distinct (map fst (session_demands st s)))"

lemma recordSegmentDemand_session:
  "session_demands (recordSegmentDemand st i) j =
     (if j = di_sessionId i
      then recent_demands
             (AList.update (di_viewerHash i)
               (next_demand i (map_of (session_demands st j) (di_viewerHash i)))
               (session_demands st j))
             (di_observedAtMs i - di_windowMs i)
      else session_demands st j)"
  by (simp add: recordSegmentDemand_def Let_def session_demands_put)
     (simp add: session_demands_def)

lemma listSegmentDemands_snd:
  "snd (listSegmentDemands st s t w) = recent_demands (session_demands st s) (t - w)"
  by (simp add: listSegmentDemands_def session_demands_def Let_def recent_demands_def
      split: option.split)

lemma demands_ok_record:
  assumes "demands_ok st"
  shows "demands_ok (recordSegmentDemand st i)"
  using assms
  by (auto simp: demands_ok_def recordSegmentDemand_session recent_demands_def
      distinct_map_filter_fst distinct_update)

text \<open>
  What a viewer's demand is after a report: the report, as long as the window is not
  negative; the other viewers keep theirs while they are in the window.
\<close>

lemma recorded_demand:
  assumes "demands_ok st" and "s = di_sessionId i" and "0 \<le> di_windowMs i"
  shows "map_of (session_demands (recordSegmentDemand st i) s) v =
    (if v = di_viewerHash i
     then Some (next_demand i (map_of (session_demands st s) v))
     else case map_of (session_demands st s) v of
       None \<Rightarrow> None
     | Some dm \<Rightarrow> if dem_observedAtMs dm < di_observedAtMs i - di_windowMs i then None else Some dm)"
proof -
  have "dem_observedAtMs (next_demand i x) = di_observedAtMs i" for x
    by (simp add: next_demand_def Let_def split: option.split)
  moreover have "distinct (map fst (session_demands st s))"
    using assms(1) by (simp add: demands_ok_def)
  ultimately show ?thesis
    using assms(2,3)
    by (auto simp: recordSegmentDemand_session map_of_recent_demands distinct_update alist_simps
        split: option.splits)
qed

end
