(* ===== verification/RelayPacing.thy ===== *)
theory RelayPacing
  imports RelayCoordination RelayDomain "HOL-Library.Multiset"
begin

text \<open>
  Pacing and demand of the persistent VOD producers: the source pacer of
  \<^verbatim>\<open>packages/application/src/vod-source-pacing.ts\<close> and the decisions of
  \<^verbatim>\<open>packages/application/src/vod-producer-coordinator.ts\<close> that do not touch the
  repository: which audience a producer follows, when it is behind its buffer, when it
  switches, when it stalls, how failed starts back off and how many producers a worker
  admits. A handler that awaits is split at the awaits; each part runs to its end without
  interruption. Durations and rates are rationals; where the code tests
  \<^verbatim>\<open>Number.isFinite\<close> the argument is a \<open>jsnum\<close>.
\<close>

section \<open>Numbers that may not be finite\<close>

datatype jsnum = Fin rat | NaN | PInf | NInf

fun is_finite_number :: "jsnum \<Rightarrow> bool" where
  "is_finite_number (Fin _) = True"
| "is_finite_number NaN = False"
| "is_finite_number PInf = False"
| "is_finite_number NInf = False"

section \<open>The source pacer\<close>

record source_pacer =
  pacer_maximumRate :: rat
  pacer_rate :: rat

definition new_pacer :: "jsnum \<Rightarrow> source_pacer outcome" where
  "new_pacer maximumRate =
     (case maximumRate of
        Fin m \<Rightarrow>
          if m < 1 \<or> m > 2 then throw PlainError
          else resolve \<lparr>pacer_maximumRate = m, pacer_rate = m\<rparr>
      | _ \<Rightarrow> throw PlainError)"

definition pacer_state :: "source_pacer \<Rightarrow> buffer_state" where
  "pacer_state p = (if pacer_rate p > 1 then CatchingUp else Buffered)"

definition set_rate :: "source_pacer \<Rightarrow> jsnum \<Rightarrow> source_pacer outcome" where
  "set_rate p r =
     (case r of
        Fin x \<Rightarrow>
          if x < 1 \<or> x > pacer_maximumRate p then throw PlainError
          else resolve (p\<lparr>pacer_rate := x\<rparr>)
      | _ \<Rightarrow> throw PlainError)"

definition pacer_ok :: "source_pacer \<Rightarrow> bool" where
  "pacer_ok p \<longleftrightarrow> 1 \<le> pacer_maximumRate p \<and> pacer_maximumRate p \<le> 2 \<and>
     1 \<le> pacer_rate p \<and> pacer_rate p \<le> pacer_maximumRate p"

section \<open>Buffer arithmetic\<close>

definition vodProducerForwardJoinSegments :: "rat \<Rightarrow> rat \<Rightarrow> int" where
  "vodProducerForwardJoinSegments bufferLowWatermarkMs segmentDurationSeconds =
     max 2 \<lceil>min bufferLowWatermarkMs 10000 / (segmentDurationSeconds * 1000)\<rceil>"

definition isVodProducerDemandCovered :: "int \<Rightarrow> int option \<Rightarrow> int \<Rightarrow> rat \<Rightarrow> rat \<Rightarrow> bool" where
  "isVodProducerDemandCovered start lastPublished demanded lowWatermarkMs segmentDuration =
     (let highWater = coalesce lastPublished start +
                      vodProducerForwardJoinSegments lowWatermarkMs segmentDuration
      in demanded \<ge> start \<and> demanded \<le> highWater)"

definition estimateVodProducerBufferMs :: "int \<Rightarrow> int option \<Rightarrow> rat \<Rightarrow> jsnum \<Rightarrow> jsnum \<Rightarrow> rat" where
  "estimateVodProducerBufferMs anchorIndex lastPublished segmentDuration anchorAtMs observedAtMs =
     (case (lastPublished, anchorAtMs, observedAtMs) of
        (Some published, Fin anchorAt, Fin observedAt) \<Rightarrow>
          (let publishedHeadMs = of_int (max 0 (published + 1)) * segmentDuration * 1000;
               position = of_int anchorIndex * segmentDuration * 1000 + max 0 (observedAt - anchorAt)
           in max 0 (publishedHeadMs - position))
      | _ \<Rightarrow> 0)"

definition vodProducerCatchupRate :: "rat \<Rightarrow> rat \<Rightarrow> rat \<Rightarrow> jsnum \<Rightarrow> rat outcome" where
  "vodProducerCatchupRate bufferMs low high maximumRate =
     (case maximumRate of
        Fin m \<Rightarrow>
          if m < 1 \<or> m > 2 then throw PlainError
          else if m = 1 \<or> bufferMs \<ge> high then resolve 1
          else if bufferMs \<le> low then resolve m
          else
            let deficit = (high - bufferMs) / (high - low)
            in resolve (1 + (m - 1) * min 1 (max 0 deficit))
      | _ \<Rightarrow> throw PlainError)"

section \<open>The state of a coordinator\<close>

record coordinator_options =
  vpo_nodeId :: ident
  vpo_idleTimeoutMs :: int
  vpo_bufferLowWatermarkMs :: rat
  vpo_bufferHighWatermarkMs :: rat
  vpo_maxCatchupRate :: "jsnum option"
  vpo_maxConcurrentProducers :: "nat option"
  vpo_maxConcurrentProducersPerProvider :: "nat option"
  vpo_leaseMs :: "int option"
  vpo_failureRetryMinMs :: "int option"
  vpo_failureRetryMaxMs :: "int option"
  vpo_progressStallTimeoutMs :: "jsnum option"

definition LEASE_MS :: int where "LEASE_MS = 120000"
definition DEMAND_WINDOW_MS :: int where "DEMAND_WINDOW_MS = 30000"
definition FAILURE_RETRY_MIN_MS :: int where "FAILURE_RETRY_MIN_MS = 1000"
definition FAILURE_RETRY_MAX_MS :: int where "FAILURE_RETRY_MAX_MS = 30000"
definition PROGRESS_STALL_MIN_MS :: rat where "PROGRESS_STALL_MIN_MS = 45000"
definition SWITCH_CONFIRM_MS :: int where "SWITCH_CONFIRM_MS = 1000"
definition MAX_SAFE_INTEGER :: nat where "MAX_SAFE_INTEGER = 9007199254740991"

datatype stop_state = StopIdle | StopSwitching | StopCancelled

record switch_candidate =
  cand_index :: int
  cand_viewers :: nat
  cand_observedAtMs :: instant

text \<open>
  \<^verbatim>\<open>ActiveProducer\<close>. The abort controller is the flag \<open>act_aborted\<close>; the waiters are
  numbered; \<open>act_failed\<close> says that \<^verbatim>\<open>failure\<close> is set and \<open>act_progressStallFailure\<close> that
  \<^verbatim>\<open>retryableFailure\<close> is.
\<close>

record active_producer =
  act_generation :: nat
  act_aborted :: bool
  act_owner :: ident
  act_providerId :: ident
  act_startSegmentIndex :: int
  act_playbackAnchorSegmentIndex :: int
  act_playbackAnchorAtMs :: instant
  act_lastAppliedPlaybackAnchorAtMs :: instant
  act_demandedSegmentIndex :: int
  act_lastPublishedSegmentIndex :: "int option"
  act_lastDemandAtMs :: instant
  act_placementLocked :: bool
  act_pacing :: source_pacer
  act_publishedAny :: bool
  act_pendingWaiters :: "nat list"
  act_progressWatchStartedAtMs :: "instant option"
  act_switchCandidate :: "switch_candidate option"
  act_progressStallFailure :: bool
  act_failed :: bool
  act_stopState :: "stop_state option"

record producer_retry =
  retry_failures :: nat
  retry_notBeforeMs :: instant

record coordinator =
  vc_active :: "(ident \<times> active_producer) list"
  vc_reservations :: "(ident \<times> nat) list"
  vc_retries :: "(ident \<times> producer_retry) list"

section \<open>Admission\<close>

definition active_for :: "coordinator \<Rightarrow> ident \<Rightarrow> nat" where
  "active_for c providerId =
     length (filter (\<lambda>(_, a). act_providerId a = providerId) (vc_active c))"

definition reserved_for :: "coordinator \<Rightarrow> ident \<Rightarrow> nat" where
  "reserved_for c providerId = coalesce (map_of (vc_reservations c) providerId) 0"

definition reserved_count :: "coordinator \<Rightarrow> nat" where
  "reserved_count c = sum_list (map snd (vc_reservations c))"

definition reserveProducer ::
    "coordinator_options \<Rightarrow> coordinator \<Rightarrow> ident \<Rightarrow> coordinator \<times> bool" where
  "reserveProducer opts c providerId =
     (let maxConcurrent = coalesce (vpo_maxConcurrentProducers opts) MAX_SAFE_INTEGER;
          maxPerProvider = coalesce (vpo_maxConcurrentProducersPerProvider opts) MAX_SAFE_INTEGER
      in if length (vc_active c) + reserved_count c \<ge> maxConcurrent \<or>
            active_for c providerId + reserved_for c providerId \<ge> maxPerProvider
         then (c, False)
         else (c\<lparr>vc_reservations :=
                   AList.update providerId (reserved_for c providerId + 1) (vc_reservations c)\<rparr>,
               True))"

definition releaseReservation :: "coordinator \<Rightarrow> ident \<Rightarrow> coordinator" where
  "releaseReservation c providerId =
     (let current = reserved_for c providerId
      in c\<lparr>vc_reservations :=
             (if current \<le> 1 then AList.delete providerId (vc_reservations c)
              else AList.update providerId (current - 1) (vc_reservations c))\<rparr>)"

section \<open>Back-off after a failure\<close>

definition retryDelayMs :: "coordinator \<Rightarrow> ident \<Rightarrow> instant \<Rightarrow> int" where
  "retryDelayMs c sessionId now =
     max 0 ((case map_of (vc_retries c) sessionId of
               None \<Rightarrow> 0 | Some r \<Rightarrow> retry_notBeforeMs r) - now)"

definition retry_minimum :: "coordinator_options \<Rightarrow> int" where
  "retry_minimum opts = max 1 (coalesce (vpo_failureRetryMinMs opts) FAILURE_RETRY_MIN_MS)"

definition retry_maximum :: "coordinator_options \<Rightarrow> int" where
  "retry_maximum opts =
     max (retry_minimum opts) (coalesce (vpo_failureRetryMaxMs opts) FAILURE_RETRY_MAX_MS)"

definition recordFailure ::
    "coordinator_options \<Rightarrow> coordinator \<Rightarrow> ident \<Rightarrow> bool \<Rightarrow> instant \<Rightarrow> coordinator" where
  "recordFailure opts c sessionId publishedAny now =
     (let previous = (case map_of (vc_retries c) sessionId of
                        None \<Rightarrow> 0 | Some r \<Rightarrow> retry_failures r);
          failures = (if publishedAny then 1 else previous + 1)
      in c\<lparr>vc_retries := AList.update sessionId
             \<lparr>retry_failures = failures,
              retry_notBeforeMs =
                now + min (retry_maximum opts) (retry_minimum opts * 2 ^ min (failures - 1) 10)\<rparr>
             (vc_retries c)\<rparr>)"

section \<open>The dominant audience\<close>

record dominant_demand =
  dom_index :: int
  dom_viewers :: nat
  dom_currentViewers :: nat
  dom_observedAtMs :: instant
  dom_anchor :: "(int \<times> instant) option"

definition demand_radius :: "rat \<Rightarrow> int" where
  "demand_radius segmentDuration = min 5 (max 2 \<lceil>10 / segmentDuration\<rceil>)"

definition viewers_near :: "segment_demand list \<Rightarrow> int \<Rightarrow> int \<Rightarrow> nat" where
  "viewers_near demands radius i =
     length (filter (\<lambda>dm. \<bar>dem_segmentIndex dm - i\<bar> \<le> radius) demands)"

text \<open>The comparator of the scored demands: more viewers first, then nearer to \<open>target\<close>.\<close>

definition scored_cmp :: "int \<Rightarrow> int \<times> nat \<Rightarrow> int \<times> nat \<Rightarrow> rat" where
  "scored_cmp target l r =
     (if snd r \<noteq> snd l then of_nat (snd r) - of_nat (snd l)
      else of_int (\<bar>fst l - target\<bar> - \<bar>fst r - target\<bar>))"

definition anchor_of :: "segment_demand \<Rightarrow> (int \<times> instant) option" where
  "anchor_of dm =
     (case (dem_playbackAnchorSegmentIndex dm, dem_playbackAnchorObservedAtMs dm) of
        (Some i, Some t) \<Rightarrow> Some (i, t)
      | _ \<Rightarrow> None)"

definition anchor_cmp :: "segment_demand \<Rightarrow> segment_demand \<Rightarrow> rat" where
  "anchor_cmp l r =
     of_int (coalesce (dem_playbackAnchorObservedAtMs r) 0) -
     of_int (coalesce (dem_playbackAnchorObservedAtMs l) 0)"

definition dominantDemand ::
    "segment_demand list \<Rightarrow> instant \<Rightarrow> rat \<Rightarrow> int \<Rightarrow> active_producer option \<Rightarrow> dominant_demand" where
  "dominantDemand demands now segmentDuration requestedIndex active =
     (if demands = []
      then \<lparr>dom_index = requestedIndex, dom_viewers = 1, dom_currentViewers = 0,
            dom_observedAtMs = now, dom_anchor = None\<rparr>
      else
        let radius = demand_radius segmentDuration;
            currentIndex = map_option act_demandedSegmentIndex active;
            scored = map (\<lambda>dm. (dem_segmentIndex dm, viewers_near demands radius (dem_segmentIndex dm)))
                       demands;
            winner = hd (js_sort (scored_cmp (coalesce currentIndex requestedIndex)) scored);
            currentViewers = (case currentIndex of None \<Rightarrow> 0
                              | Some i \<Rightarrow> viewers_near demands radius i);
            anchored = filter (\<lambda>dm. \<bar>dem_segmentIndex dm - fst winner\<bar> \<le> radius \<and>
                         (case anchor_of dm of None \<Rightarrow> False
                          | Some (i, _) \<Rightarrow> \<bar>i - fst winner\<bar> \<le> radius)) demands;
            playbackAnchor = js_first (js_sort anchor_cmp anchored)
        in \<lparr>dom_index = fst winner, dom_viewers = snd winner,
            dom_currentViewers = currentViewers,
            dom_observedAtMs = Max (set (map dem_observedAtMs demands)),
            dom_anchor = Option.bind playbackAnchor anchor_of\<rparr>)"

definition applyPlaybackAnchor :: "active_producer \<Rightarrow> dominant_demand \<Rightarrow> active_producer" where
  "applyPlaybackAnchor a dm =
     (case dom_anchor dm of
        None \<Rightarrow> a
      | Some (i, t) \<Rightarrow>
          if t \<le> act_lastAppliedPlaybackAnchorAtMs a then a
          else a\<lparr>act_playbackAnchorSegmentIndex := i, act_playbackAnchorAtMs := t,
                 act_lastAppliedPlaybackAnchorAtMs := t\<rparr>)"

definition shouldSwitch ::
    "coordinator_options \<Rightarrow> active_producer \<Rightarrow> int \<Rightarrow> nat \<Rightarrow> nat \<Rightarrow> rat \<Rightarrow> bool" where
  "shouldSwitch opts a demandedIndex currentViewers demandedViewers segmentDuration =
     (\<not> isVodProducerDemandCovered (act_startSegmentIndex a) (act_lastPublishedSegmentIndex a)
          demandedIndex (vpo_bufferLowWatermarkMs opts) segmentDuration \<and>
      (currentViewers = 0 \<or> demandedViewers > currentViewers))"

section \<open>Progress\<close>

definition resetProgressWatch :: "active_producer \<Rightarrow> instant \<Rightarrow> active_producer" where
  "resetProgressWatch a observedAtMs =
     a\<lparr>act_progressWatchStartedAtMs :=
         (if act_publishedAny a \<and> act_pendingWaiters a \<noteq> [] \<and>
             pacer_state (act_pacing a) = CatchingUp
          then Some observedAtMs else None)\<rparr>"

definition stall_timeout :: "coordinator_options \<Rightarrow> rat \<Rightarrow> rat" where
  "stall_timeout opts segmentDuration =
     (case vpo_progressStallTimeoutMs opts of
        Some (Fin t) \<Rightarrow> if t > 0 then t else max PROGRESS_STALL_MIN_MS (segmentDuration * 2 * 1000)
      | _ \<Rightarrow> max PROGRESS_STALL_MIN_MS (segmentDuration * 2 * 1000))"

definition progressStalled ::
    "coordinator_options \<Rightarrow> rat \<Rightarrow> active_producer \<Rightarrow> instant \<Rightarrow> bool" where
  "progressStalled opts segmentDuration a observedAtMs =
     (if \<not> act_publishedAny a \<or> act_pendingWaiters a = [] \<or>
         pacer_state (act_pacing a) \<noteq> CatchingUp
      then False
      else case act_progressWatchStartedAtMs a of
        None \<Rightarrow> False
      | Some t \<Rightarrow> of_int (observedAtMs - t) \<ge> stall_timeout opts segmentDuration)"

definition catchup_limit :: "coordinator_options \<Rightarrow> jsnum" where
  "catchup_limit opts = coalesce (vpo_maxCatchupRate opts) (Fin 2)"

definition reconcilePacing ::
    "coordinator_options \<Rightarrow> rat \<Rightarrow> active_producer \<Rightarrow> instant \<Rightarrow> instant \<Rightarrow> active_producer outcome" where
  "reconcilePacing opts segmentDuration a now now' =
     (let bufferMs = estimateVodProducerBufferMs (act_playbackAnchorSegmentIndex a)
            (act_lastPublishedSegmentIndex a) segmentDuration
            (Fin (of_int (act_playbackAnchorAtMs a))) (Fin (of_int now));
          wasCatchingUp = (pacer_state (act_pacing a) = CatchingUp)
      in case vodProducerCatchupRate bufferMs (vpo_bufferLowWatermarkMs opts)
                (vpo_bufferHighWatermarkMs opts) (catchup_limit opts) of
           Inl e \<Rightarrow> throw e
         | Inr rate \<Rightarrow>
             (case set_rate (act_pacing a) (Fin rate) of
                Inl e \<Rightarrow> throw e
              | Inr p \<Rightarrow>
                  let a' = a\<lparr>act_pacing := p\<rparr>
                  in resolve (if \<not> wasCatchingUp \<and> pacer_state p = CatchingUp
                              then resetProgressWatch a' now' else a')))"

section \<open>The periodic refresh of a producer\<close>

text \<open>
  \<^verbatim>\<open>#refreshDemand\<close> in three parts: after the session is read, after the demands are
  listed and after the dominant demand is known. \<open>RefreshStop\<close> is a return that leaves the
  producer aborted or as it is; \<open>RefreshGo\<close> goes on.
\<close>

datatype 'a refresh = RefreshStop active_producer | RefreshGo 'a

definition abort_with :: "active_producer \<Rightarrow> stop_state option \<Rightarrow> active_producer" where
  "abort_with a st =
     a\<lparr>act_aborted := True,
       act_stopState := (case st of None \<Rightarrow> act_stopState a | Some s \<Rightarrow> Some s)\<rparr>"

definition refresh_after_session ::
    "coordinator \<Rightarrow> relay_session option \<Rightarrow> ident \<Rightarrow> active_producer \<Rightarrow>
       coordinator \<times> active_producer refresh" where
  "refresh_after_session c currentSession sessionId a =
     (if (case currentSession of None \<Rightarrow> True | Some s \<Rightarrow> ses_state s = SessionStopped)
      then (c\<lparr>vc_retries := AList.delete sessionId (vc_retries c)\<rparr>,
            RefreshStop (abort_with a (Some StopCancelled)))
      else (c, RefreshGo a))"

definition refresh_after_demands ::
    "coordinator_options \<Rightarrow> segment_demand list \<Rightarrow> instant \<Rightarrow> active_producer \<Rightarrow>
       active_producer refresh" where
  "refresh_after_demands opts demands now a =
     (let latest = Max (set (act_lastDemandAtMs a # map dem_observedAtMs demands));
          a' = a\<lparr>act_lastDemandAtMs := latest\<rparr>
      in if act_pendingWaiters a' = [] \<and> now - latest \<ge> vpo_idleTimeoutMs opts
         then RefreshStop (abort_with a' (Some StopIdle))
         else RefreshGo a')"

definition same_demand ::
    "coordinator_options \<Rightarrow> rat \<Rightarrow> switch_candidate option \<Rightarrow> dominant_demand \<Rightarrow> bool" where
  "same_demand opts segmentDuration candidate dm =
     (case candidate of
        None \<Rightarrow> False
      | Some k \<Rightarrow>
          cand_viewers k = dom_viewers dm \<and>
          \<bar>cand_index k - dom_index dm\<bar> \<le>
            vodProducerForwardJoinSegments (vpo_bufferLowWatermarkMs opts) segmentDuration)"

definition refresh_after_dominant ::
    "coordinator_options \<Rightarrow> rat \<Rightarrow> dominant_demand \<Rightarrow> instant \<Rightarrow> instant \<Rightarrow> instant \<Rightarrow>
       instant \<Rightarrow> active_producer \<Rightarrow> active_producer refresh outcome" where
  "refresh_after_dominant opts segmentDuration dm now now1 now1' now2 a =
     (let switch = shouldSwitch opts a (dom_index dm) (dom_currentViewers dm) (dom_viewers dm)
                     segmentDuration;
          confirmed = (same_demand opts segmentDuration (act_switchCandidate a) dm \<and>
                       (case act_switchCandidate a of None \<Rightarrow> False
                        | Some k \<Rightarrow> now - cand_observedAtMs k \<ge> SWITCH_CONFIRM_MS))
      in if switch \<and> confirmed then resolve (RefreshStop (abort_with a (Some StopSwitching)))
         else
           let a1 = (if switch
                     then a\<lparr>act_switchCandidate :=
                              Some \<lparr>cand_index = dom_index dm, cand_viewers = dom_viewers dm,
                                    cand_observedAtMs = now\<rparr>\<rparr>
                     else (applyPlaybackAnchor (a\<lparr>act_switchCandidate := None\<rparr>) dm)
                            \<lparr>act_demandedSegmentIndex := dom_index dm\<rparr>)
           in case reconcilePacing opts segmentDuration a1 now1 now1' of
                Inl e \<Rightarrow> throw e
              | Inr a2 \<Rightarrow>
                  if progressStalled opts segmentDuration a2 now2
                  then resolve (RefreshStop (abort_with (a2\<lparr>act_progressStallFailure := True\<rparr>) None))
                  else resolve (RefreshGo a2))"

lemmas [pacing_defs] =
  new_pacer_def set_rate_def pacer_state_def vodProducerCatchupRate_def
  estimateVodProducerBufferMs_def isVodProducerDemandCovered_def shouldSwitch_def

section \<open>Rates stay in their bounds\<close>

lemma scaled_bounds:
  fixes m x :: rat
  assumes "1 \<le> m"
  shows "1 \<le> 1 + (m - 1) * min 1 (max 0 x) \<and> 1 + (m - 1) * min 1 (max 0 x) \<le> m"
proof -
  let ?u = "min 1 (max 0 x)"
  have u: "0 \<le> ?u" "?u \<le> 1" by auto
  have "0 \<le> (m - 1) * ?u" using assms u by simp
  moreover have "(m - 1) * ?u \<le> m - 1" using assms u by (simp add: mult_left_le)
  ultimately show ?thesis by linarith
qed

definition linear_rate :: "rat \<Rightarrow> rat \<Rightarrow> rat" where
  "linear_rate m x = 1 + (m - 1) * min 1 (max 0 x)"

lemma catchup_rate_alt:
  assumes "1 \<le> m" "m \<le> 2"
  shows "vodProducerCatchupRate b low high (Fin m) =
    resolve (if m = 1 \<or> high \<le> b then 1 else if b \<le> low then m
             else linear_rate m ((high - b) / (high - low)))"
proof -
  have "\<not> m < 1" "\<not> 2 < m" using assms by simp_all
  then show ?thesis unfolding vodProducerCatchupRate_def linear_rate_def Let_def jsnum.case
    by (simp only: if_False HOL.simp_thms split: if_split) simp
qed

lemma linear_rate_bounds: "1 \<le> m \<Longrightarrow> 1 \<le> linear_rate m x \<and> linear_rate m x \<le> m"
  unfolding linear_rate_def by (rule scaled_bounds)

lemma catchup_rate_bounds:
  assumes "1 \<le> m" "m \<le> 2"
  shows "\<exists>r. vodProducerCatchupRate b low high (Fin m) = resolve r \<and> 1 \<le> r \<and> r \<le> m"
  using linear_rate_bounds[OF assms(1)] assms(1) by (simp add: catchup_rate_alt[OF assms])

lemma catchup_rate_throws:
  "vodProducerCatchupRate b low high m = throw e \<longleftrightarrow>
     e = PlainError \<and> \<not> (\<exists>x. m = Fin x \<and> 1 \<le> x \<and> x \<le> 2)"
  by (cases m) (auto simp: vodProducerCatchupRate_def Let_def)

text \<open>More buffered media never makes the producer read faster.\<close>

lemma catchup_rate_antimono:
  assumes "low \<le> high" and "b \<le> b'"
    and "vodProducerCatchupRate b low high m = resolve r"
    and "vodProducerCatchupRate b' low high m = resolve r'"
  shows "r' \<le> r"
proof (cases m)
  case (Fin x)
  with assms(3) have x: "1 \<le> x" "x \<le> 2"
    by (simp_all add: vodProducerCatchupRate_def Let_def split: if_splits)
  have "(high - b') / (high - low) \<le> (high - b) / (high - low)"
    using assms(1,2) by (simp add: divide_right_mono)
  then have lin: "linear_rate x ((high - b') / (high - low)) \<le> linear_rate x ((high - b) / (high - low))"
    unfolding linear_rate_def using x(1) by (intro add_left_mono mult_left_mono) auto
  show ?thesis
    using assms lin linear_rate_bounds[OF x(1)] x(1) unfolding Fin catchup_rate_alt[OF x]
    by (auto split: if_splits)
qed (use assms(3) in \<open>simp_all add: vodProducerCatchupRate_def\<close>)

lemma new_pacer_ok: "new_pacer m = resolve p \<Longrightarrow> pacer_ok p \<and> m = Fin (pacer_maximumRate p)"
  by (cases m) (auto simp: new_pacer_def pacer_ok_def split: if_splits)

lemma set_rate_ok: "set_rate p r = resolve q \<Longrightarrow> pacer_ok p \<Longrightarrow> pacer_ok q"
  by (cases r) (auto simp: set_rate_def pacer_ok_def split: if_splits)

lemma set_rate_maximum: "set_rate p r = resolve q \<Longrightarrow> pacer_maximumRate q = pacer_maximumRate p"
  by (cases r) (auto simp: set_rate_def split: if_splits)

lemma set_rate_resolves:
  "1 \<le> r \<Longrightarrow> r \<le> pacer_maximumRate p \<Longrightarrow> set_rate p (Fin r) = resolve (p\<lparr>pacer_rate := r\<rparr>)"
  by (simp add: set_rate_def)

text \<open>A producer whose pacer was made with the coordinator's limit.\<close>

definition paced_by :: "coordinator_options \<Rightarrow> active_producer \<Rightarrow> bool" where
  "paced_by opts a \<longleftrightarrow> pacer_ok (act_pacing a) \<and> catchup_limit opts = Fin (pacer_maximumRate (act_pacing a))"

lemma reconcilePacing_resolves:
  assumes "paced_by opts a"
  shows "\<exists>b. reconcilePacing opts seg a now now' = resolve b \<and> paced_by opts b \<and>
             act_generation b = act_generation a \<and> act_demandedSegmentIndex b = act_demandedSegmentIndex a"
proof -
  let ?m = "pacer_maximumRate (act_pacing a)"
  let ?buf = "estimateVodProducerBufferMs (act_playbackAnchorSegmentIndex a)
            (act_lastPublishedSegmentIndex a) seg
            (Fin (of_int (act_playbackAnchorAtMs a))) (Fin (of_int now))"
  from assms have m: "1 \<le> ?m" "?m \<le> 2" "catchup_limit opts = Fin ?m"
    by (auto simp: paced_by_def pacer_ok_def)
  obtain r where r: "vodProducerCatchupRate ?buf (vpo_bufferLowWatermarkMs opts)
      (vpo_bufferHighWatermarkMs opts) (Fin ?m) = resolve r" "1 \<le> r" "r \<le> ?m"
    using catchup_rate_bounds[OF m(1,2)] by blast
  show ?thesis
    using r m assms
    by (simp add: reconcilePacing_def Let_def set_rate_resolves resetProgressWatch_def paced_by_def
        pacer_ok_def)
qed

lemma paced_by_upd [simp]:
  "paced_by opts (a\<lparr>act_switchCandidate := x\<rparr>) = paced_by opts a"
  "paced_by opts (a\<lparr>act_demandedSegmentIndex := i\<rparr>) = paced_by opts a"
  "paced_by opts (applyPlaybackAnchor a dm) = paced_by opts a"
  by (simp_all add: paced_by_def applyPlaybackAnchor_def split: option.split)

lemma refresh_after_dominant_resolves:
  assumes "paced_by opts a"
  shows "\<exists>x. refresh_after_dominant opts seg dm now n1 n1' n2 a = resolve x"
proof -
  have "\<exists>x. (case reconcilePacing opts seg b n1 n1' of Inl e \<Rightarrow> throw e
            | Inr c \<Rightarrow> if progressStalled opts seg c n2
                then resolve (RefreshStop (abort_with (c\<lparr>act_progressStallFailure := True\<rparr>) None))
                else resolve (RefreshGo c)) = resolve x" if "paced_by opts b" for b
    using reconcilePacing_resolves[OF that, of seg n1 n1'] by (elim exE conjE) simp
  then show ?thesis
    using assms unfolding refresh_after_dominant_def Let_def by simp
qed

section \<open>The producer follows the largest audience\<close>

lemma scored_cmp_trans:
  "cmp_le (scored_cmp t) a b \<Longrightarrow> cmp_le (scored_cmp t) b c \<Longrightarrow> cmp_le (scored_cmp t) a c"
  by (cases a; cases b; cases c) (auto simp: cmp_le_def scored_cmp_def not_less split: if_splits)

lemma scored_cmp_anti: "scored_cmp t a b < 0 \<Longrightarrow> \<not> scored_cmp t b a < 0"
  by (cases a; cases b) (auto simp: scored_cmp_def split: if_splits)

lemma winner_best:
  assumes "x \<in> set scored"
  shows "cmp_le (scored_cmp t) (hd (js_sort (scored_cmp t) scored)) x"
  by (rule hd_js_sort[OF scored_cmp_trans scored_cmp_anti assms])

lemma winner_mem:
  "scored \<noteq> [] \<Longrightarrow> hd (js_sort (scored_cmp t) scored) \<in> set scored"
  using hd_in_set[of "js_sort (scored_cmp t) scored"] by simp

text \<open>
  The dominant demand is a reported one, its audience is the largest, and among the
  largest audiences it is one nearest to the position the producer serves.
\<close>

lemma dominantDemand_best:
  fixes active :: "active_producer option" and req :: int and seg :: rat and now :: instant
  assumes "demands \<noteq> []" and "dm \<in> set demands"
  defines "r \<equiv> dominantDemand demands now seg req active"
    and "near \<equiv> viewers_near demands (demand_radius seg)"
    and "target \<equiv> coalesce (map_option act_demandedSegmentIndex active) req"
  shows "dom_index r \<in> dem_segmentIndex ` set demands"
    and "dom_viewers r = near (dom_index r)"
    and "near (dem_segmentIndex dm) \<le> dom_viewers r"
    and "near (dem_segmentIndex dm) = dom_viewers r \<Longrightarrow>
           \<bar>dom_index r - target\<bar> \<le> \<bar>dem_segmentIndex dm - target\<bar>"
proof -
  define scored where "scored = map (\<lambda>d. (dem_segmentIndex d, near (dem_segmentIndex d))) demands"
  define w where "w = hd (js_sort (scored_cmp target) scored)"
  have r: "dom_index r = fst w" "dom_viewers r = snd w"
    using assms(1) by (simp_all add: r_def dominantDemand_def Let_def w_def scored_def near_def target_def)
  have "w \<in> set scored" unfolding w_def by (rule winner_mem) (simp add: scored_def assms(1))
  then show "dom_index r \<in> dem_segmentIndex ` set demands" and viewers: "dom_viewers r = near (dom_index r)"
    by (auto simp: r scored_def)
  have best: "cmp_le (scored_cmp target) w (dem_segmentIndex dm, near (dem_segmentIndex dm))"
    unfolding w_def by (rule winner_best) (use assms(2) in \<open>simp add: scored_def\<close>)
  then show "near (dem_segmentIndex dm) \<le> dom_viewers r"
    by (auto simp: r cmp_le_def scored_cmp_def not_less split: if_splits)
  show "\<bar>dom_index r - target\<bar> \<le> \<bar>dem_segmentIndex dm - target\<bar>"
    if "near (dem_segmentIndex dm) = dom_viewers r"
    using best that by (auto simp: r cmp_le_def scored_cmp_def not_less split: if_splits)
qed

section \<open>Back-off\<close>

text \<open>A history of failures of one session: for each, whether the run had published, and when.\<close>

fun failures_run ::
    "coordinator_options \<Rightarrow> ident \<Rightarrow> (bool \<times> instant) list \<Rightarrow> coordinator \<Rightarrow> coordinator" where
  "failures_run opts s [] c = c"
| "failures_run opts s ((published, t) # fs) c = failures_run opts s fs (recordFailure opts c s published t)"

definition failure_count :: "coordinator \<Rightarrow> ident \<Rightarrow> nat" where
  "failure_count c s = (case map_of (vc_retries c) s of None \<Rightarrow> 0 | Some r \<Rightarrow> retry_failures r)"

definition backoff :: "coordinator_options \<Rightarrow> nat \<Rightarrow> int" where
  "backoff opts n = min (retry_maximum opts) (retry_minimum opts * 2 ^ min (n - 1) 10)"

lemma retry_minimum_pos: "1 \<le> retry_minimum opts"
  by (simp add: retry_minimum_def)

lemma retry_minimum_le_maximum: "retry_minimum opts \<le> retry_maximum opts"
  by (simp add: retry_maximum_def)

lemma backoff_bounds: "retry_minimum opts \<le> backoff opts n \<and> backoff opts n \<le> retry_maximum opts"
proof -
  have "retry_minimum opts * 1 \<le> retry_minimum opts * 2 ^ min (n - 1) 10"
    using retry_minimum_pos[of opts] by (intro mult_left_mono) auto
  then show ?thesis using retry_minimum_le_maximum[of opts] by (simp add: backoff_def)
qed

lemma backoff_mono: "m \<le> n \<Longrightarrow> backoff opts m \<le> backoff opts n"
proof -
  assume "m \<le> n"
  then have "(2::int) ^ min (m - 1) 10 \<le> 2 ^ min (n - 1) 10"
    by (intro power_increasing) auto
  then have "retry_minimum opts * 2 ^ min (m - 1) 10 \<le> retry_minimum opts * 2 ^ min (n - 1) 10"
    using retry_minimum_pos[of opts] by (intro mult_left_mono) auto
  then show ?thesis by (simp add: backoff_def min.coboundedI2)
qed

lemma recordFailure_count:
  "failure_count (recordFailure opts c s published t) s' =
     (if s' = s then (if published then 1 else failure_count c s + 1) else failure_count c s')"
  by (simp add: failure_count_def recordFailure_def Let_def update_conv' split: option.split)

lemma recordFailure_delay:
  "retryDelayMs (recordFailure opts c s published t) s now =
     max 0 (t + backoff opts (failure_count (recordFailure opts c s published t) s) - now)"
  by (simp add: retryDelayMs_def failure_count_def recordFailure_def Let_def backoff_def update_conv'
      split: option.split)

lemma failures_run_append:
  "failures_run opts s (xs @ ys) c = failures_run opts s ys (failures_run opts s xs c)"
  by (induction opts s xs c rule: failures_run.induct) auto

lemma failures_run_count:
  "\<forall>f \<in> set fs. \<not> fst f \<Longrightarrow> failure_count (failures_run opts s fs c) s = failure_count c s + length fs"
  by (induction opts s fs c rule: failures_run.induct) (auto simp: recordFailure_count)

section \<open>Admission keeps the capacity\<close>

text \<open>
  A start holds a reservation from \<open>reserveProducer\<close> until it either installs its active
  producer and releases the reservation in the same uninterrupted block, or fails and
  releases it; a run removes its active producer at its end. The multiset holds the
  providers of the starts under way.
\<close>

definition hand_off :: "coordinator \<Rightarrow> ident \<Rightarrow> active_producer \<Rightarrow> coordinator" where
  "hand_off c sessionId a =
     releaseReservation (c\<lparr>vc_active := AList.update sessionId a (vc_active c)\<rparr>) (act_providerId a)"

definition remove_active :: "coordinator \<Rightarrow> ident \<Rightarrow> coordinator" where
  "remove_active c sessionId = c\<lparr>vc_active := AList.delete sessionId (vc_active c)\<rparr>"

inductive admission ::
    "coordinator_options \<Rightarrow> coordinator \<times> ident multiset \<Rightarrow> coordinator \<times> ident multiset \<Rightarrow> bool"
  for opts :: coordinator_options where
  adm_reserve: "reserveProducer opts c p = (c', True) \<Longrightarrow>
     admission opts (c, starts) (c', add_mset p starts)"
| adm_reject: "reserveProducer opts c p = (c', False) \<Longrightarrow> admission opts (c, starts) (c', starts)"
| adm_hand_off: "act_providerId a \<in># starts \<Longrightarrow>
     admission opts (c, starts) (hand_off c s a, starts - {#act_providerId a#})"
| adm_fail: "p \<in># starts \<Longrightarrow> admission opts (c, starts) (releaseReservation c p, starts - {#p#})"
| adm_remove: "admission opts (c, starts) (remove_active c s, starts)"

inductive_cases admissionE: "admission opts x y"

definition reservations_ok :: "coordinator \<Rightarrow> ident multiset \<Rightarrow> bool" where
  "reservations_ok c starts \<longleftrightarrow>
     distinct (map fst (vc_reservations c)) \<and>
     (\<forall>p. reserved_for c p = count starts p) \<and> reserved_count c = size starts"

definition within_capacity :: "coordinator_options \<Rightarrow> coordinator \<Rightarrow> ident multiset \<Rightarrow> bool" where
  "within_capacity opts c starts \<longleftrightarrow>
     length (vc_active c) + size starts
       \<le> coalesce (vpo_maxConcurrentProducers opts) MAX_SAFE_INTEGER \<and>
     (\<forall>p. active_for c p + count starts p
            \<le> coalesce (vpo_maxConcurrentProducersPerProvider opts) MAX_SAFE_INTEGER)"

definition capacity_ok :: "coordinator_options \<Rightarrow> coordinator \<times> ident multiset \<Rightarrow> bool" where
  "capacity_ok opts x \<longleftrightarrow> reservations_ok (fst x) (snd x) \<and> within_capacity opts (fst x) (snd x)"

lemma sum_update:
  fixes xs :: "('k \<times> nat) list"
  shows "sum_list (map snd (AList.update k v xs)) + coalesce (map_of xs k) 0 = sum_list (map snd xs) + v"
  by (induction xs) auto

lemma sum_delete:
  fixes xs :: "('k \<times> nat) list"
  assumes "distinct (map fst xs)"
  shows "sum_list (map snd (AList.delete k xs)) + coalesce (map_of xs k) 0 = sum_list (map snd xs)"
  using assms
proof (induction xs)
  case (Cons p xs)
  show ?case
  proof (cases "fst p = k")
    case True
    with Cons.prems have "k \<notin> fst ` set xs" by auto
    then show ?thesis using True by (simp add: delete_idem case_prod_beta split: prod.split)
  next
    case False
    with Cons show ?thesis by (cases p) auto
  qed
qed simp

lemma length_alist_update:
  "length (AList.update k v xs) = (if k \<in> fst ` set xs then length xs else Suc (length xs))"
  by (induction xs) auto

lemma length_filter_update:
  "length (filter (\<lambda>(_, a). P a) (AList.update k v xs)) \<le>
     length (filter (\<lambda>(_, a). P a) xs) + (if P v then 1 else 0)"
  by (induction xs) auto

lemma length_filter_delete:
  "length (filter P (AList.delete k xs)) \<le> length (filter P xs)"
  by (induction xs) auto

lemma length_alist_delete: "length (AList.delete k xs) \<le> length xs"
  by (rule length_delete_le)

lemma reserved_for_release:
  assumes "distinct (map fst (vc_reservations c))"
  shows "reserved_for (releaseReservation c p) q = (if q = p then reserved_for c p - 1 else reserved_for c q)"
    and "0 < reserved_for c p \<Longrightarrow> Suc (reserved_count (releaseReservation c p)) = reserved_count c"
    and "distinct (map fst (vc_reservations (releaseReservation c p)))"
proof -
  show "reserved_for (releaseReservation c p) q = (if q = p then reserved_for c p - 1 else reserved_for c q)"
    by (simp add: reserved_for_def releaseReservation_def Let_def update_conv' delete_conv')
  show "distinct (map fst (vc_reservations (releaseReservation c p)))"
    using assms by (simp add: releaseReservation_def Let_def distinct_update distinct_delete)
  show "Suc (reserved_count (releaseReservation c p)) = reserved_count c" if "0 < reserved_for c p"
    using that sum_update[of p "reserved_for c p - 1" "vc_reservations c"]
      sum_delete[OF assms, of p]
    by (auto simp: reserved_count_def reserved_for_def releaseReservation_def Let_def)
qed

lemma release_active [simp]: "vc_active (releaseReservation c p) = vc_active c"
  by (simp add: releaseReservation_def Let_def)

lemma release_active_for [simp]: "active_for (releaseReservation c p) q = active_for c q"
  by (simp add: active_for_def)

lemma reservations_release:
  assumes "reservations_ok c starts" and "p \<in># starts"
  shows "reservations_ok (releaseReservation c p) (starts - {#p#})"
proof -
  from assms have d: "distinct (map fst (vc_reservations c))" and pos: "0 < reserved_for c p"
    by (simp_all add: reservations_ok_def)
  have "Suc (size (starts - {#p#})) = size starts" using assms(2) by (simp add: size_Suc_Diff1)
  with reserved_for_release(1)[OF d, of p] reserved_for_release(3)[OF d, of p]
    reserved_for_release(2)[OF d pos] assms(1)
  show ?thesis by (auto simp: reservations_ok_def)
qed

lemma within_capacity_mono:
  assumes "within_capacity opts c starts"
    and "length (vc_active c') + size starts' \<le> length (vc_active c) + size starts"
    and "\<And>p. active_for c' p + count starts' p \<le> active_for c p + count starts p"
  shows "within_capacity opts c' starts'"
  using assms unfolding within_capacity_def by (meson order_trans)

lemma capacity_hand_off:
  assumes ok: "capacity_ok opts (c, starts)" and p: "act_providerId a \<in># starts"
  shows "capacity_ok opts (hand_off c s a, starts - {#act_providerId a#})"
proof -
  let ?c = "c\<lparr>vc_active := AList.update s a (vc_active c)\<rparr>"
  have "reservations_ok ?c starts"
    using ok by (simp add: capacity_ok_def reservations_ok_def reserved_for_def reserved_count_def)
  then have "reservations_ok (hand_off c s a) (starts - {#act_providerId a#})"
    unfolding hand_off_def by (rule reservations_release[OF _ p])
  moreover have "within_capacity opts (hand_off c s a) (starts - {#act_providerId a#})"
  proof (rule within_capacity_mono)
    show "within_capacity opts c starts" using ok by (simp add: capacity_ok_def)
    have "Suc (size (starts - {#act_providerId a#})) = size starts"
      using p by (simp add: size_Suc_Diff1)
    then show "length (vc_active (hand_off c s a)) + size (starts - {#act_providerId a#})
        \<le> length (vc_active c) + size starts"
      by (simp add: hand_off_def length_alist_update)
    show "active_for (hand_off c s a) q + count (starts - {#act_providerId a#}) q
        \<le> active_for c q + count starts q" for q
      using length_filter_update[of "\<lambda>b. act_providerId b = q" s a "vc_active c"] p
      by (cases "act_providerId a = q") (simp_all add: hand_off_def active_for_def Suc_le_eq)
  qed
  ultimately show ?thesis by (simp add: capacity_ok_def)
qed

lemma capacity_fail:
  assumes "capacity_ok opts (c, starts)" and p: "p \<in># starts"
  shows "capacity_ok opts (releaseReservation c p, starts - {#p#})"
proof -
  have "within_capacity opts (releaseReservation c p) (starts - {#p#})"
  proof (rule within_capacity_mono)
    show "within_capacity opts c starts" using assms by (simp add: capacity_ok_def)
    show "length (vc_active (releaseReservation c p)) + size (starts - {#p#})
        \<le> length (vc_active c) + size starts"
      using p by (simp add: size_Diff_singleton)
  qed simp
  then show ?thesis using assms reservations_release[OF _ p] by (simp add: capacity_ok_def)
qed

lemma capacity_remove:
  assumes "capacity_ok opts (c, starts)"
  shows "capacity_ok opts (remove_active c s, starts)"
proof -
  have "within_capacity opts (remove_active c s) starts"
    by (rule within_capacity_mono[of opts c starts])
       (use assms length_alist_delete[of s "vc_active c"] length_filter_delete in
         \<open>simp_all add: capacity_ok_def remove_active_def active_for_def\<close>)
  moreover have "reservations_ok (remove_active c s) starts"
    using assms by (simp add: capacity_ok_def reservations_ok_def remove_active_def reserved_for_def
        reserved_count_def)
  ultimately show ?thesis by (simp add: capacity_ok_def)
qed

lemma capacity_reserve:
  assumes ok: "capacity_ok opts (c, starts)" and r: "reserveProducer opts c p = (c', True)"
  shows "capacity_ok opts (c', add_mset p starts)"
proof -
  let ?v = "reserved_for c p + 1"
  from r have c': "c' = c\<lparr>vc_reservations := AList.update p ?v (vc_reservations c)\<rparr>"
    and room: "length (vc_active c) + reserved_count c
        < coalesce (vpo_maxConcurrentProducers opts) MAX_SAFE_INTEGER"
      "active_for c p + reserved_for c p
        < coalesce (vpo_maxConcurrentProducersPerProvider opts) MAX_SAFE_INTEGER"
    by (auto simp: reserveProducer_def Let_def split: if_splits)
  have "reservations_ok c' (add_mset p starts)"
    using ok sum_update[of p ?v "vc_reservations c"]
    by (auto simp: c' capacity_ok_def reservations_ok_def reserved_for_def reserved_count_def
        distinct_update update_conv')
  moreover have "within_capacity opts c' (add_mset p starts)"
    using ok room by (auto simp: c' capacity_ok_def reservations_ok_def within_capacity_def active_for_def)
  ultimately show ?thesis by (simp add: capacity_ok_def)
qed

lemma reserve_rejected: "reserveProducer opts c p = (c', False) \<Longrightarrow> c' = c"
  by (auto simp: reserveProducer_def Let_def split: if_splits)

lemma admission_capacity:
  assumes "admission opts x y" and "capacity_ok opts x"
  shows "capacity_ok opts y"
  using assms
  by (induction rule: admission.induct)
     (auto intro: capacity_reserve capacity_hand_off capacity_fail capacity_remove
        dest: reserve_rejected)

lemma admission_run_capacity:
  "(admission opts)\<^sup>*\<^sup>* x y \<Longrightarrow> capacity_ok opts x \<Longrightarrow> capacity_ok opts y"
  by (induction rule: rtranclp_induct) (auto intro: admission_capacity)

lemma capacity_initially:
  "capacity_ok opts (\<lparr>vc_active = [], vc_reservations = [], vc_retries = r\<rparr>, {#})"
  by (simp add: capacity_ok_def reservations_ok_def within_capacity_def reserved_for_def
      reserved_count_def active_for_def)

section \<open>Why a refresh stops a producer\<close>

lemma refresh_after_dominant_stop:
  assumes "refresh_after_dominant opts seg dm now n1 n1' n2 a = resolve (RefreshStop b)"
  shows "(b = abort_with a (Some StopSwitching) \<and>
          shouldSwitch opts a (dom_index dm) (dom_currentViewers dm) (dom_viewers dm) seg \<and>
          (\<exists>k. act_switchCandidate a = Some k \<and> cand_viewers k = dom_viewers dm \<and>
               SWITCH_CONFIRM_MS \<le> now - cand_observedAtMs k)) \<or>
         (act_progressStallFailure b \<and> act_aborted b \<and> act_publishedAny b \<and>
          act_pendingWaiters b \<noteq> [] \<and> pacer_state (act_pacing b) = CatchingUp)"
proof (cases "shouldSwitch opts a (dom_index dm) (dom_currentViewers dm) (dom_viewers dm) seg \<and>
      same_demand opts seg (act_switchCandidate a) dm \<and>
      (case act_switchCandidate a of None \<Rightarrow> False
       | Some k \<Rightarrow> now - cand_observedAtMs k \<ge> SWITCH_CONFIRM_MS)")
  case True
  then show ?thesis
    using assms by (auto simp: refresh_after_dominant_def Let_def same_demand_def split: option.splits)
next
  case False
  have stalled: "act_publishedAny c \<and> act_pendingWaiters c \<noteq> [] \<and> pacer_state (act_pacing c) = CatchingUp"
    if "progressStalled opts seg c n2" for c
    using that by (simp add: progressStalled_def split: if_splits)
  from False assms obtain c where "progressStalled opts seg c n2"
    "b = abort_with (c\<lparr>act_progressStallFailure := True\<rparr>) None"
    unfolding refresh_after_dominant_def Let_def
    by (simp only: if_False split: sum.splits if_splits) auto
  with stalled[of c] show ?thesis by (simp add: abort_with_def)
qed

end
