(* ===== verification/RelayPlaybackResults.thy ===== *)
theory RelayPlaybackResults
  imports RelayCoordination RelayPacing
begin

text \<open>
  The properties of the coordination store and of the pacing, demand and admission logic of
  the producer coordinator.
\<close>

section \<open>Coordination\<close>

text \<open>C18: Mutual exclusion of leases: while a lease granted to one owner has not run out, no
  other owner is granted the same key, whatever the other owners acquire, renew and
  release in between.\<close>

theorem lease_mutual_exclusion:
  assumes "snd (acquire w t t' k a ttl)" and "s < t' + ttl"
    and "\<forall>e \<in> set es. event_owner e \<noteq> a \<and> event_before s e" and "b \<noteq> a"
  shows "\<not> snd (acquire (leases.event_run es (fst (acquire w t t' k a ttl))) s s' k b ttl')"
  using assms by (rule leases.mutual_exclusion)

theorem lease_mutual_exclusion_witness:
  "\<not> snd (acquire (leases.event_run [Released ''k'' ''b'', Acquired 3 3 ''k'' ''b'' 50]
            (fst (acquire empty_coordination 0 0 ''k'' ''a'' 10))) 9 9 ''k'' ''b'' 5)"
  by (rule lease_mutual_exclusion) (simp_all add: acquire_def empty_coordination_def)

text \<open>The holder keeps its lease: until the lease runs out its owner can renew it, and
  once it is released any owner is granted it.\<close>

lemma lease_holder_renews_and_releases:
  assumes "snd (acquire w t t' k a ttl)" and "s < t' + ttl"
    and "\<forall>e \<in> set es. event_owner e \<noteq> a \<and> event_before s e"
  defines "w' \<equiv> leases.event_run es (fst (acquire w t t' k a ttl))"
  shows "snd (renew w' s s' k a ttl') \<and> snd (acquire (release w' k a) s s' k b ttl')"
proof -
  have holder: "lease_holder (fst (acquire w t t' k a ttl)) k s = Some a"
    using leases.acq_holds[OF assms(1)] assms(2) by simp
  have "snd (renew w' s s' k a ttl')"
    unfolding w'_def by (rule leases.holder_renews[OF assms(1-3)])
  moreover have "lease_holder w' k s = Some a"
    unfolding w'_def by (rule leases.run_keeps_holder[OF holder assms(3)])
  then have "snd (acquire (release w' k a) s s' k b ttl')" by (rule leases.released_then_granted)
  ultimately show ?thesis by simp
qed

text \<open>Recording a demand keeps, for every viewer of the session, exactly its last demand,
  drops the demands older than the window, and leaves other sessions alone.\<close>

lemma demand_window:
  assumes "demands_ok st" and "0 \<le> di_windowMs i"
  shows "demands_ok (recordSegmentDemand st i) \<and>
    (\<forall>v. map_of (session_demands (recordSegmentDemand st i) (di_sessionId i)) v =
      (if v = di_viewerHash i
       then Some (next_demand i (map_of (session_demands st (di_sessionId i)) v))
       else case map_of (session_demands st (di_sessionId i)) v of
         None \<Rightarrow> None
       | Some dm \<Rightarrow> if dem_observedAtMs dm < di_observedAtMs i - di_windowMs i then None else Some dm)) \<and>
    (\<forall>s. s \<noteq> di_sessionId i \<longrightarrow> session_demands (recordSegmentDemand st i) s = session_demands st s)"
  using recorded_demand[OF assms(1) refl assms(2)] demands_ok_record[OF assms(1)]
  by (simp add: recordSegmentDemand_session)

lemma demand_window_witness:
  "demands_ok (recordSegmentDemand empty_coordination
     \<lparr>di_sessionId = ''s'', di_viewerHash = ''v'', di_segmentIndex = 3, di_observedAtMs = 10,
      di_windowMs = 5, di_playbackDiscontinuity = False\<rparr>)"
proof -
  have "demands_ok empty_coordination"
    by (simp add: demands_ok_def session_demands_def empty_coordination_def)
  from demand_window[OF this, of "\<lparr>di_sessionId = ''s'', di_viewerHash = ''v'', di_segmentIndex = 3,
      di_observedAtMs = 10, di_windowMs = 5, di_playbackDiscontinuity = False\<rparr>"]
  show ?thesis by simp
qed

text \<open>Viewers are counted once: after a viewer is recorded at an edge, the totals count
  distinct viewers, the new viewer among them when the window is positive, and the count
  reported is the size of the set that is stored.\<close>

lemma viewers_counted_once:
  assumes "viewers_ok st"
  shows "viewers_ok (fst (recordViewer st i)) \<and>
     snd (snd (recordViewer st i)) = length (viewer_set (fst (recordViewer st i)) (total_key (vi_sessionId i))) \<and>
     fst (snd (recordViewer st i)) =
       length (viewer_set (fst (recordViewer st i)) (edge_key (vi_sessionId i) (vi_edgeNodeId i))) \<and>
     (0 < vi_windowMs i \<longrightarrow>
        vi_viewerHash i \<in> fst ` set (viewer_set (fst (recordViewer st i)) (total_key (vi_sessionId i))))"
proof -
  let ?cut = "vi_observedAtMs i - vi_windowMs i" and ?tk = "total_key (vi_sessionId i)"
  have "(vi_viewerHash i, vi_observedAtMs i) \<in>
      set (live_viewers (AList.update (vi_viewerHash i) (vi_observedAtMs i) (viewer_set st ?tk)) ?cut)"
    if "0 < vi_windowMs i"
    using that by (intro live_viewers_update_in) simp
  then show ?thesis
    using viewers_ok_record[OF assms, of i]
    by (force simp: recordViewer_def Let_def viewer_set_prune)
qed

section \<open>Pacing\<close>

text \<open>The catch-up rate stays between real time and the maximum, never rises with the
  buffer, and is rejected exactly for a maximum outside 1 to 2 or not a finite number.\<close>

lemma catchup_rate_in_bounds:
  assumes "low \<le> high" and "b \<le> b'"
  shows "(case m of
            Fin x \<Rightarrow> if 1 \<le> x \<and> x \<le> 2
                     then \<exists>r r'. vodProducerCatchupRate b low high m = resolve r \<and>
                            vodProducerCatchupRate b' low high m = resolve r' \<and>
                            1 \<le> r' \<and> r' \<le> r \<and> r \<le> x
                     else vodProducerCatchupRate b low high m = throw PlainError
          | _ \<Rightarrow> vodProducerCatchupRate b low high m = throw PlainError)"
proof (cases m)
  case (Fin x)
  show ?thesis
  proof (cases "1 \<le> x \<and> x \<le> 2")
    case True
    then obtain r r' where r: "vodProducerCatchupRate b low high m = resolve r" "r \<le> x"
      "vodProducerCatchupRate b' low high m = resolve r'" "1 \<le> r'"
      using catchup_rate_bounds[of x b low high] catchup_rate_bounds[of x b' low high] Fin by auto
    moreover have "r' \<le> r" using catchup_rate_antimono[OF assms r(1,3)] .
    ultimately show ?thesis using Fin True by auto
  next
    case False
    then show ?thesis using Fin catchup_rate_throws[of b low high m PlainError] by auto
  qed
qed (use catchup_rate_throws[of b low high m PlainError] in auto)

text \<open>Refreshing the demand of a running producer never fails on the rate: a producer
  whose pacer was made with the configured maximum always gets a decision, and the pacer
  stays within that maximum.\<close>

lemma refresh_always_decides:
  assumes "paced_by opts a"
  shows "(\<exists>x. refresh_after_dominant opts seg dm now n1 n1' n2 a = resolve x) \<and>
         (\<exists>b. reconcilePacing opts seg a now n1 = resolve b \<and> paced_by opts b \<and>
              act_generation b = act_generation a)"
  using refresh_after_dominant_resolves[OF assms] reconcilePacing_resolves[OF assms] by blast

definition sample_options :: coordinator_options where
  "sample_options =
     \<lparr>vpo_nodeId = ''n'', vpo_idleTimeoutMs = 1000, vpo_bufferLowWatermarkMs = 30, vpo_bufferHighWatermarkMs = 60,
      vpo_maxCatchupRate = Some (Fin (3/2)), vpo_maxConcurrentProducers = Some 1,
      vpo_maxConcurrentProducersPerProvider = Some 1, vpo_leaseMs = None, vpo_failureRetryMinMs = None,
      vpo_failureRetryMaxMs = None, vpo_progressStallTimeoutMs = None\<rparr>"

definition sample_active :: active_producer where
  "sample_active =
     \<lparr>act_generation = 1, act_aborted = False, act_owner = ''o'', act_providerId = ''p'',
      act_startSegmentIndex = 0, act_playbackAnchorSegmentIndex = 0, act_playbackAnchorAtMs = 0,
      act_lastAppliedPlaybackAnchorAtMs = 0, act_demandedSegmentIndex = 0, act_lastPublishedSegmentIndex = None,
      act_lastDemandAtMs = 0, act_placementLocked = False,
      act_pacing = \<lparr>pacer_maximumRate = 3/2, pacer_rate = 1\<rparr>, act_publishedAny = False,
      act_pendingWaiters = [], act_progressWatchStartedAtMs = None, act_switchCandidate = None,
      act_progressStallFailure = False, act_failed = False, act_stopState = None\<rparr>"

lemma refresh_always_decides_witness:
  "\<exists>x. refresh_after_dominant sample_options 6
     \<lparr>dom_index = 4, dom_viewers = 1, dom_currentViewers = 0, dom_observedAtMs = 5, dom_anchor = None\<rparr>
     9 9 9 9 sample_active = resolve x"
proof -
  have "paced_by sample_options sample_active"
    by (simp add: paced_by_def pacer_ok_def catchup_limit_def sample_options_def sample_active_def)
  from refresh_always_decides[OF this] show ?thesis by blast
qed

text \<open>The dominant demand is a best one: it is the index of a recorded demand, no demand
  has more viewers near it, and among those with as many none is nearer to the index the
  producer serves.\<close>

lemma dominant_demand_is_best:
  fixes active :: "active_producer option" and req :: int and seg :: rat and now :: instant
  assumes "dm \<in> set demands"
  defines "r \<equiv> dominantDemand demands now seg req active"
    and "near \<equiv> viewers_near demands (demand_radius seg)"
    and "target \<equiv> coalesce (map_option act_demandedSegmentIndex active) req"
  shows "dom_index r \<in> dem_segmentIndex ` set demands \<and> dom_viewers r = near (dom_index r) \<and>
         near (dem_segmentIndex dm) \<le> dom_viewers r \<and>
         (near (dem_segmentIndex dm) = dom_viewers r \<longrightarrow>
            \<bar>dom_index r - target\<bar> \<le> \<bar>dem_segmentIndex dm - target\<bar>)"
proof -
  have "demands \<noteq> []" using assms(1) by auto
  from dominantDemand_best[OF this assms(1)]
  show ?thesis unfolding r_def near_def target_def by blast
qed

definition sample_demand :: "int \<Rightarrow> segment_demand" where
  "sample_demand i =
     \<lparr>dem_segmentIndex = i, dem_observedAtMs = 5, dem_playbackAnchorSegmentIndex = None,
      dem_playbackAnchorObservedAtMs = None\<rparr>"

lemma dominant_demand_is_best_witness:
  "dom_index (dominantDemand [sample_demand 40, sample_demand 3, sample_demand 4] 9 6 0 None) \<in> {40, 3, 4}"
  using dominant_demand_is_best[of "sample_demand 3" "[sample_demand 40, sample_demand 3, sample_demand 4]" 9 6 0 None]
  by (simp add: sample_demand_def)

text \<open>A running producer is stopped by a refresh for two reasons only: a switch whose
  candidate was seen long enough ago with as many viewers, or a stall, and a stall only of
  a producer that has published, is catching up and has waiters.\<close>

lemma refresh_stop_reasons:
  assumes "refresh_after_dominant opts seg dm now n1 n1' n2 a = resolve (RefreshStop b)"
  shows "(b = abort_with a (Some StopSwitching) \<and>
          shouldSwitch opts a (dom_index dm) (dom_currentViewers dm) (dom_viewers dm) seg \<and>
          (\<exists>k. act_switchCandidate a = Some k \<and> cand_viewers k = dom_viewers dm \<and>
               SWITCH_CONFIRM_MS \<le> now - cand_observedAtMs k)) \<or>
         (act_progressStallFailure b \<and> act_aborted b \<and> act_publishedAny b \<and>
          act_pendingWaiters b \<noteq> [] \<and> pacer_state (act_pacing b) = CatchingUp)"
  using assms by (rule refresh_after_dominant_stop)

section \<open>Failures and admission\<close>

text \<open>The delay after a failure stays within the configured bounds, never shrinks with
  more failures in a row, and a run of failures without a published segment is counted
  in full, while a failure after a published segment counts as the first.\<close>

lemma failure_backoff:
  assumes "\<forall>f \<in> set fs. \<not> fst f"
  shows "failure_count (failures_run opts s fs c) s = failure_count c s + length fs \<and>
         failure_count (recordFailure opts c s True t) s = 1 \<and>
         (\<forall>published now. retryDelayMs (recordFailure opts c s published t) s now =
            max 0 (t + backoff opts (failure_count (recordFailure opts c s published t) s) - now)) \<and>
         (\<forall>m n. m \<le> n \<longrightarrow> retry_minimum opts \<le> backoff opts m \<and> backoff opts m \<le> backoff opts n \<and>
            backoff opts n \<le> retry_maximum opts)"
  using failures_run_count[OF assms] backoff_bounds backoff_mono
  by (simp add: recordFailure_count recordFailure_delay)

text \<open>C39: The admission keeps its limits along every interleaving of reservations, hand-overs,
  failed starts and removals: running producers and starts in progress together never
  exceed the configured number, in all and for each provider.\<close>

theorem admission_keeps_limits:
  assumes "(admission opts)\<^sup>*\<^sup>* (\<lparr>vc_active = [], vc_reservations = [], vc_retries = rs\<rparr>, {#}) (c, starts)"
  shows "length (vc_active c) + size starts
           \<le> coalesce (vpo_maxConcurrentProducers opts) MAX_SAFE_INTEGER \<and>
         (\<forall>p. active_for c p + count starts p
           \<le> coalesce (vpo_maxConcurrentProducersPerProvider opts) MAX_SAFE_INTEGER)"
  using admission_run_capacity[OF assms capacity_initially]
  by (simp add: capacity_ok_def within_capacity_def)

text \<open>One start is reserved and handed over; the coordinator is full and refuses the next.\<close>

theorem admission_keeps_limits_witness:
  "\<exists>c. (admission sample_options)\<^sup>*\<^sup>* (\<lparr>vc_active = [], vc_reservations = [], vc_retries = []\<rparr>, {#}) (c, {#}) \<and>
     vc_active c = [(''s'', sample_active)] \<and> vc_reservations c = [] \<and> active_for c ''p'' \<le> 1 \<and>
     reserveProducer sample_options c ''p'' = (c, False)"
proof -
  let ?c0 = "\<lparr>vc_active = [], vc_reservations = [], vc_retries = []\<rparr>"
  let ?c1 = "\<lparr>vc_active = [], vc_reservations = [(''p'', 1)], vc_retries = []\<rparr>"
  let ?c2 = "hand_off ?c1 ''s'' sample_active"
  have provider: "act_providerId sample_active = ''p''" by (simp add: sample_active_def)
  have "reserveProducer sample_options ?c0 ''p'' = (?c1, True)"
    by (simp add: reserveProducer_def sample_options_def active_for_def reserved_for_def reserved_count_def)
  then have "admission sample_options (?c0, {#}) (?c1, add_mset ''p'' {#})" by (rule adm_reserve)
  moreover have "admission sample_options (?c1, add_mset ''p'' {#}) (?c2, {#})"
    using adm_hand_off[of sample_active "add_mset ''p'' {#}" sample_options ?c1 "''s''"] by (simp add: provider)
  ultimately have run: "(admission sample_options)\<^sup>*\<^sup>* (?c0, {#}) (?c2, {#})" by simp
  have c2: "vc_active ?c2 = [(''s'', sample_active)]" "vc_reservations ?c2 = []"
    by (simp_all add: hand_off_def releaseReservation_def provider reserved_for_def)
  have "active_for ?c2 ''p'' \<le> 1" "length (vc_active ?c2) \<le> 1"
    using admission_keeps_limits[OF run] by (auto simp: sample_options_def)
  moreover have "reserveProducer sample_options ?c2 ''p'' = (?c2, False)"
    unfolding reserveProducer_def c2 by (simp add: sample_options_def)
  ultimately show ?thesis using run c2 by blast
qed

end
