(* ===== verification/RelayProducer.thy ===== *)
theory RelayProducer
  imports RelayPacing RelayHistory
begin

text \<open>
  The persistent VOD producers of
  \<^verbatim>\<open>packages/application/src/vod-producer-coordinator.ts\<close> against the repository: the
  exclusive start, the fenced transitions of a generation, the recovery of expired
  leases. At every \<^verbatim>\<open>await\<close> other actors may run: \<open>env\<close> gives the repository operations
  that happen before each read and between a read and its conditional write. The
  protocol of all actors on a producer row is the step relation \<open>producer_step\<close>.
\<close>

section \<open>Attempts\<close>

definition ACTIVE_STATES :: "producer_state list" where
  "ACTIVE_STATES = [ProducerStarting, ProducerRunning, ProducerSwitching]"

definition STARTABLE_STATES :: "producer_state list" where
  "STARTABLE_STATES =
     [ProducerIdle, ProducerSwitching, ProducerComplete, ProducerFailed, ProducerCancelled]"

text \<open>\<^verbatim>\<open>slice(-n)\<close>\<close>

definition slice_last :: "nat \<Rightarrow> 'a list \<Rightarrow> 'a list" where
  "slice_last n xs = drop (length xs - n) xs"

definition finish_latest ::
    "nat \<Rightarrow> attempt_state \<Rightarrow> string option \<Rightarrow> instant \<Rightarrow> producer_attempt list \<Rightarrow> producer_attempt list" where
  "finish_latest generation st errorMessage now h =
     (if h = [] then h
      else
        let latest = last h
        in if patt_generation latest = generation \<and> patt_state latest = AttemptRunning
           then butlast h @
                [latest\<lparr>patt_state := st, patt_completedAt := Some now,
                        patt_errorMessage := (if truthy errorMessage then errorMessage
                                              else patt_errorMessage latest)\<rparr>]
           else h)"

definition finishAttempt ::
    "vod_producer \<Rightarrow> attempt_state \<Rightarrow> string option \<Rightarrow> instant \<Rightarrow> vod_producer" where
  "finishAttempt p st errorMessage now =
     p\<lparr>prod_workerHistory :=
         slice_last 100 (finish_latest (prod_generation p) st errorMessage now (prod_workerHistory p))\<rparr>"

section \<open>The rows a coordinator writes\<close>

text \<open>The row of a new generation, \<open>nowMs\<close> being the first of the three clock readings.\<close>

definition start_row ::
    "coordinator_options \<Rightarrow> ident \<Rightarrow> int \<Rightarrow> vod_producer option \<Rightarrow> instant \<Rightarrow> instant \<Rightarrow> instant \<Rightarrow> vod_producer"
  where
  "start_row opts sessionId startIndex current nowMs now2 now3 =
     (let generation = (case current of None \<Rightarrow> 0 | Some c \<Rightarrow> prod_generation c) + 1
      in \<lparr>prod_id = sessionId, prod_sessionId = sessionId, prod_ownerNodeId = Some (vpo_nodeId opts),
          prod_generation = generation, prod_state = ProducerStarting,
          prod_demandedSegmentIndex = startIndex, prod_startSegmentIndex = startIndex,
          prod_playbackAnchorSegmentIndex = Some startIndex, prod_playbackAnchorAt = Some nowMs,
          prod_lastPublishedSegmentIndex = None, prod_bufferState = Some CatchingUp,
          prod_leaseExpiresAt = Some (now2 + coalesce (vpo_leaseMs opts) LEASE_MS),
          prod_lastDemandAt = nowMs,
          prod_idleDeadlineAt = Some (now3 + vpo_idleTimeoutMs opts),
          prod_errorMessage = None,
          prod_workerHistory =
            (case current of None \<Rightarrow> [] | Some c \<Rightarrow> prod_workerHistory c) @
            [\<lparr>patt_generation = generation, patt_nodeId = vpo_nodeId opts,
              patt_state = AttemptRunning, patt_startSegmentIndex = startIndex,
              patt_startedAt = nowMs, patt_completedAt = None, patt_errorMessage = None\<rparr>],
          prod_createdAt = (case current of None \<Rightarrow> nowMs | Some c \<Rightarrow> prod_createdAt c),
          prod_updatedAt = nowMs\<rparr>)"

definition update_running :: "instant \<Rightarrow> vod_producer \<Rightarrow> vod_producer" where
  "update_running now p = p\<lparr>prod_state := ProducerRunning, prod_updatedAt := now\<rparr>"

definition update_renewed :: "int \<Rightarrow> instant \<Rightarrow> vod_producer \<Rightarrow> vod_producer" where
  "update_renewed leaseMs now p = p\<lparr>prod_leaseExpiresAt := Some (now + leaseMs), prod_updatedAt := now\<rparr>"

definition update_published :: "int \<Rightarrow> int \<Rightarrow> buffer_state \<Rightarrow> instant \<Rightarrow> vod_producer \<Rightarrow> vod_producer" where
  "update_published leaseMs index pacing now p =
     p\<lparr>prod_state := ProducerRunning, prod_lastPublishedSegmentIndex := Some index,
       prod_bufferState := Some pacing, prod_leaseExpiresAt := Some (now + leaseMs),
       prod_updatedAt := now\<rparr>"

definition update_demand ::
    "coordinator_options \<Rightarrow> active_producer \<Rightarrow> int \<Rightarrow> instant \<Rightarrow> instant \<Rightarrow> vod_producer \<Rightarrow> vod_producer" where
  "update_demand opts a index demandedAt now p =
     p\<lparr>prod_demandedSegmentIndex := index,
       prod_playbackAnchorSegmentIndex := Some (act_playbackAnchorSegmentIndex a),
       prod_playbackAnchorAt := Some (act_playbackAnchorAtMs a),
       prod_bufferState := Some (pacer_state (act_pacing a)),
       prod_lastDemandAt := demandedAt,
       prod_idleDeadlineAt := Some (demandedAt + vpo_idleTimeoutMs opts),
       prod_updatedAt := now\<rparr>"

definition update_complete :: "instant \<Rightarrow> vod_producer \<Rightarrow> vod_producer" where
  "update_complete now p =
     (finishAttempt p AttemptComplete None now)
       \<lparr>prod_state := ProducerComplete, prod_bufferState := Some Buffered,
        prod_ownerNodeId := None, prod_leaseExpiresAt := None, prod_idleDeadlineAt := None,
        prod_updatedAt := now\<rparr>"

fun stop_state_of :: "stop_state option \<Rightarrow> producer_state" where
  "stop_state_of None = ProducerFailed"
| "stop_state_of (Some StopIdle) = ProducerIdle"
| "stop_state_of (Some StopSwitching) = ProducerSwitching"
| "stop_state_of (Some StopCancelled) = ProducerCancelled"

text \<open>
  The end of a run that did not complete: \<open>stopped\<close> is the stop state when the run was
  aborted, and \<open>message\<close> the message when what was thrown is an \<^verbatim>\<open>Error\<close>.
\<close>

definition update_stopped :: "stop_state option \<Rightarrow> string option \<Rightarrow> instant \<Rightarrow> vod_producer \<Rightarrow> vod_producer" where
  "update_stopped stopped message now p =
     (let failed = (stopped = None)
      in (finishAttempt p (if failed then AttemptFailed else AttemptCancelled)
            (if failed then message else None) now)
           \<lparr>prod_state := stop_state_of stopped, prod_ownerNodeId := None,
            prod_leaseExpiresAt := None, prod_idleDeadlineAt := None,
            prod_errorMessage := (if failed then
               Some (case message of Some m \<Rightarrow> take 2000 m | None \<Rightarrow> ''Producer failed'') else None),
            prod_updatedAt := now\<rparr>)"

text \<open>The clean-up of a start that persisted its generation and did not hand it over.\<close>

definition update_abandoned :: "stop_state option \<Rightarrow> instant \<Rightarrow> vod_producer \<Rightarrow> vod_producer" where
  "update_abandoned stopped now p =
     (finishAttempt p AttemptCancelled None now)
       \<lparr>prod_state := stop_state_of (Some (coalesce stopped StopCancelled)), prod_ownerNodeId := None,
        prod_leaseExpiresAt := None, prod_idleDeadlineAt := None, prod_errorMessage := None,
        prod_updatedAt := now\<rparr>"

definition update_recovered :: "instant \<Rightarrow> vod_producer \<Rightarrow> vod_producer" where
  "update_recovered now p =
     (finishAttempt p AttemptFailed (Some ''Recovered expired producer lease'') now)
       \<lparr>prod_state := ProducerIdle, prod_ownerNodeId := None, prod_leaseExpiresAt := None,
        prod_idleDeadlineAt := None, prod_errorMessage := None, prod_updatedAt := now\<rparr>"

section \<open>Fenced transitions\<close>

definition transition_attempt ::
    "(nat \<Rightarrow> repo_op list) \<Rightarrow> (nat \<Rightarrow> instant) \<Rightarrow> ident \<Rightarrow> nat \<Rightarrow>
       (instant \<Rightarrow> vod_producer \<Rightarrow> vod_producer) \<Rightarrow> nat \<Rightarrow> db \<Rightarrow> db \<times> unit outcome option" where
  "transition_attempt env clock sessionId generation update i d =
     (let d1 = run_ops (env (2 * i)) d
      in case getVersionedVodProducer d1 sessionId of
           None \<Rightarrow> (d1, Some (resolve ()))
         | Some current \<Rightarrow>
             if prod_generation (vr_value current) \<noteq> generation then (d1, Some (resolve ()))
             else
               let d2 = run_ops (env (2 * i + 1)) d1;
                   (d3, result) = compareAndSetVodProducer d2 (update (clock i) (vr_value current))
                                    (vr_revision current) ACTIVE_STATES
               in (d3,
                   case result of
                     Inl e \<Rightarrow> Some (throw e)
                   | Inr (Applied _) \<Rightarrow> Some (resolve ())
                   | Inr (Rejected reason _ _) \<Rightarrow>
                       if reason = NotFound \<or> reason = InvalidState then Some (resolve ()) else None))"

definition transition ::
    "(nat \<Rightarrow> repo_op list) \<Rightarrow> (nat \<Rightarrow> instant) \<Rightarrow> ident \<Rightarrow> nat \<Rightarrow>
       (instant \<Rightarrow> vod_producer \<Rightarrow> vod_producer) \<Rightarrow> db \<Rightarrow> db \<times> unit outcome" where
  "transition env clock sessionId generation update d =
     retry 0 5 (transition_attempt env clock sessionId generation update) (throw ConflictError) d"

section \<open>Recovery of expired leases\<close>

definition lease_live :: "vod_producer \<Rightarrow> instant \<Rightarrow> bool" where
  "lease_live p now = (case prod_leaseExpiresAt p of None \<Rightarrow> False | Some t \<Rightarrow> t > now)"

text \<open>One attempt on one listed producer; the result says whether it was recovered.\<close>

definition recover_attempt ::
    "(nat \<Rightarrow> repo_op list) \<Rightarrow> (nat \<Rightarrow> instant) \<Rightarrow> instant \<Rightarrow> ident \<Rightarrow> nat \<Rightarrow> db \<Rightarrow> db \<times> bool outcome option" where
  "recover_attempt env clock now sessionId i d =
     (let d1 = run_ops (env (2 * i)) d
      in case getVersionedVodProducer d1 sessionId of
           None \<Rightarrow> (d1, Some (resolve False))
         | Some current \<Rightarrow>
             if prod_state (vr_value current) \<notin> set ACTIVE_STATES \<or> lease_live (vr_value current) now
             then (d1, Some (resolve False))
             else
               let d2 = run_ops (env (2 * i + 1)) d1;
                   (d3, result) = compareAndSetVodProducer d2 (update_recovered (clock i) (vr_value current))
                                    (vr_revision current) ACTIVE_STATES
               in (d3,
                   case result of
                     Inl e \<Rightarrow> Some (throw e)
                   | Inr (Applied _) \<Rightarrow> Some (resolve True)
                   | Inr (Rejected reason _ _) \<Rightarrow>
                       if reason = NotFound \<or> reason = InvalidState then Some (resolve False) else None))"

fun recover_listed ::
    "(nat \<Rightarrow> nat \<Rightarrow> repo_op list) \<Rightarrow> (nat \<Rightarrow> nat \<Rightarrow> instant) \<Rightarrow> instant \<Rightarrow> vod_producer list \<Rightarrow> nat \<Rightarrow> nat \<Rightarrow>
       db \<Rightarrow> db \<times> nat outcome" where
  "recover_listed env clock now [] j recovered d = (d, resolve recovered)"
| "recover_listed env clock now (p # ps) j recovered d =
     (if prod_state p \<notin> set ACTIVE_STATES \<or> lease_live p now
      then recover_listed env clock now ps (Suc j) recovered d
      else
        let (d', r) = retry 0 5 (recover_attempt (env j) (clock j) now (prod_sessionId p)) (resolve False) d
        in case r of
             Inl e \<Rightarrow> (d', throw e)
           | Inr b \<Rightarrow> recover_listed env clock now ps (Suc j) (if b then recovered + 1 else recovered) d')"

definition recoverExpired ::
    "(nat \<Rightarrow> nat \<Rightarrow> repo_op list) \<Rightarrow> (nat \<Rightarrow> nat \<Rightarrow> instant) \<Rightarrow> instant \<Rightarrow> db \<Rightarrow> db \<times> nat outcome" where
  "recoverExpired env clock now d =
     recover_listed env clock now (listVodProducers d 1000) 0 0 d"

section \<open>The exclusive start\<close>

text \<open>
  What a start sees: the repository, the coordination store and its own coordinator. Other
  actors may change all three at every \<^verbatim>\<open>await\<close>; \<open>se_aborted\<close> is the abort signal at each
  test and \<open>se_stopState\<close> what the stop that aborted it asked for.
\<close>

record start_world =
  sw_db :: db
  sw_co :: coordination
  sw_vc :: coordinator

record start_env =
  se_db :: "nat \<Rightarrow> repo_op list"
  se_co :: "nat \<Rightarrow> coordination \<Rightarrow> coordination"
  se_vc :: "nat \<Rightarrow> coordinator \<Rightarrow> coordinator"
  se_clock :: "nat \<Rightarrow> instant"
  se_aborted :: "nat \<Rightarrow> bool"
  se_stopState :: "stop_state option"

definition interfere :: "start_env \<Rightarrow> nat \<Rightarrow> start_world \<Rightarrow> start_world" where
  "interfere e i w =
     \<lparr>sw_db = run_ops (se_db e i) (sw_db w), sw_co = se_co e i (sw_co w), sw_vc = se_vc e i (sw_vc w)\<rparr>"

record start_exit =
  ex_world :: start_world
  ex_result :: "active_producer option outcome"
  ex_leaseOwned :: bool
  ex_persisted :: "nat option"
  ex_handedOff :: bool

definition lease_key :: "ident \<Rightarrow> string" where
  "lease_key sessionId = ''vod-producer:'' @ sessionId"

definition locked_elsewhere :: "coordinator_options \<Rightarrow> relay_session \<Rightarrow> bool" where
  "locked_elsewhere opts s \<longleftrightarrow>
     ses_placementLocked s \<and> truthy (ses_assignedNodeId s) \<and>
     ses_assignedNodeId s \<noteq> Some (vpo_nodeId opts)"

definition session_provider :: "relay_session \<Rightarrow> ident option" where
  "session_provider s = map_option src_providerId (ses_source s)"

definition new_active ::
    "vod_producer \<Rightarrow> ident \<Rightarrow> ident \<Rightarrow> int \<Rightarrow> bool \<Rightarrow> source_pacer \<Rightarrow> instant \<Rightarrow> instant \<Rightarrow> stop_state option \<Rightarrow>
       active_producer" where
  "new_active row owner providerId startIndex locked pacer anchorAt demandAt stopped =
     \<lparr>act_generation = prod_generation row, act_aborted = False, act_owner = owner,
      act_providerId = providerId, act_startSegmentIndex = startIndex,
      act_playbackAnchorSegmentIndex = startIndex, act_playbackAnchorAtMs = anchorAt,
      act_lastAppliedPlaybackAnchorAtMs = anchorAt, act_demandedSegmentIndex = startIndex,
      act_lastPublishedSegmentIndex = None, act_lastDemandAtMs = demandAt,
      act_placementLocked = locked, act_pacing = pacer, act_publishedAny = False,
      act_pendingWaiters = [], act_progressWatchStartedAtMs = None, act_switchCandidate = None,
      act_progressStallFailure = False, act_failed = False, act_stopState = stopped\<rparr>"

text \<open>
  The last part of the \<^verbatim>\<open>try\<close> block, after the row was read: write the row of the new
  generation and hand over to the run. The result of \<^verbatim>\<open>createVodProducer\<close> has no
  \<^verbatim>\<open>applied\<close> field, so the test after the write looks at the conditional write only.
\<close>

definition store_start ::
    "db \<Rightarrow> vod_producer \<Rightarrow> vod_producer versioned option \<Rightarrow> db \<times> unit outcome" where
  "store_start d row current =
     (case current of
        Some c \<Rightarrow>
          (case compareAndSetVodProducer d row (vr_revision c) STARTABLE_STATES of
             (d', Inl e) \<Rightarrow> (d', throw e)
           | (d', Inr (Applied _)) \<Rightarrow> (d', resolve ())
           | (d', Inr (Rejected _ _ _)) \<Rightarrow> (d', throw ConflictError))
      | None \<Rightarrow>
          (case createVodProducer d row of
             (d', Inl e) \<Rightarrow> (d', throw e)
           | (d', Inr _) \<Rightarrow> (d', resolve ())))"

definition start_write ::
    "coordinator_options \<Rightarrow> start_env \<Rightarrow> relay_session \<Rightarrow> ident \<Rightarrow> int \<Rightarrow> ident \<Rightarrow>
       vod_producer versioned option \<Rightarrow> start_world \<Rightarrow> start_exit" where
  "start_write opts e session providerId startIndex owner current w =
     (let row = start_row opts (ses_id session) startIndex (map_option vr_value current)
                  (se_clock e 2) (se_clock e 3) (se_clock e 4);
          w1 = interfere e 4 w;
          (d, stored) = store_start (sw_db w1) row current;
          w2 = interfere e 5 (w1\<lparr>sw_db := d\<rparr>);
          exit = \<lparr>ex_world = w2, ex_result = resolve None, ex_leaseOwned = True,
                  ex_persisted = Some (prod_generation row), ex_handedOff = False\<rparr>
      in case stored of
           Inl err \<Rightarrow> exit\<lparr>ex_result := throw err, ex_persisted := None\<rparr>
         | Inr _ \<Rightarrow>
             if se_aborted e 3 then exit
             else case new_pacer (catchup_limit opts) of
               Inl err \<Rightarrow> exit\<lparr>ex_result := throw err\<rparr>
             | Inr pacer \<Rightarrow>
                 let a = new_active row owner providerId startIndex (ses_placementLocked session) pacer
                           (se_clock e 2) (se_clock e 5) (se_stopState e)
                 in exit\<lparr>ex_world := w2\<lparr>sw_vc := hand_off (sw_vc w2) (ses_id session) a\<rparr>,
                         ex_result := resolve (Some a), ex_handedOff := True\<rparr>)"

definition start_try ::
    "coordinator_options \<Rightarrow> start_env \<Rightarrow> (db \<Rightarrow> ident \<Rightarrow> relay_session option) \<Rightarrow> relay_session \<Rightarrow> ident \<Rightarrow>
       int \<Rightarrow> ident \<Rightarrow> start_world \<Rightarrow> start_exit" where
  "start_try opts e readSession session providerId startIndex owner w =
     (let w1 = interfere e 0 w;
          (co, leased) = acquire (sw_co w1) (se_clock e 0) (se_clock e 1) (lease_key (ses_id session)) owner
                           (coalesce (vpo_leaseMs opts) LEASE_MS);
          w2 = interfere e 1 (w1\<lparr>sw_co := co\<rparr>);
          leave = (\<lambda>world r. \<lparr>ex_world = world, ex_result = r, ex_leaseOwned = leased,
                             ex_persisted = None, ex_handedOff = False\<rparr>)
      in if \<not> leased \<or> se_aborted e 0 then leave w2 (resolve None)
         else
           let current = readSession (sw_db w2) (ses_id session);
               w3 = interfere e 2 w2
           in if se_aborted e 1 then leave w3 (resolve None)
              else case current of
                None \<Rightarrow> leave w3 (throw NotFoundError)
              | Some s \<Rightarrow>
                  if ses_state s = SessionStopped then leave w3 (throw ConflictError)
                  else if \<not> truthy (session_provider s) then leave w3 (throw CapacityError)
                  else if session_provider s \<noteq> Some providerId then leave w3 (throw ConflictError)
                  else if locked_elsewhere opts s then leave w3 (throw CapacityError)
                  else
                    let row = getVersionedVodProducer (sw_db w3) (ses_id session);
                        w4 = interfere e 3 w3
                    in if se_aborted e 2 then leave w4 (resolve None)
                       else start_write opts e (s\<lparr>ses_id := ses_id session\<rparr>) providerId startIndex owner row w4)"

text \<open>The \<^verbatim>\<open>finally\<close> block; a failing clean-up is ignored.\<close>

definition start_finally ::
    "start_env \<Rightarrow> ident \<Rightarrow> ident \<Rightarrow> ident \<Rightarrow> start_exit \<Rightarrow> start_world" where
  "start_finally e sessionId providerId owner x =
     (if ex_handedOff x then ex_world x
      else
        let w1 = (case ex_persisted x of
                    None \<Rightarrow> ex_world x
                  | Some generation \<Rightarrow>
                      (ex_world x)\<lparr>sw_db := fst (transition (\<lambda>i. se_db e (10 + i)) (\<lambda>i. se_clock e (10 + i))
                         sessionId generation (update_abandoned (se_stopState e)) (sw_db (ex_world x)))\<rparr>);
            w2 = (if ex_leaseOwned x
                  then w1\<lparr>sw_co := release (sw_co w1) (lease_key sessionId) owner\<rparr> else w1)
        in w2\<lparr>sw_vc := releaseReservation (sw_vc w2) providerId\<rparr>)"

definition startExclusive ::
    "coordinator_options \<Rightarrow> start_env \<Rightarrow> (db \<Rightarrow> ident \<Rightarrow> relay_session option) \<Rightarrow> relay_session \<Rightarrow> int \<Rightarrow>
       ident \<Rightarrow> start_world \<Rightarrow> start_world \<times> active_producer option outcome" where
  "startExclusive opts e readSession session startIndex owner w =
     (if \<not> truthy (session_provider session) then (w, throw CapacityError)
      else if locked_elsewhere opts session then (w, throw CapacityError)
      else
        let providerId = the (session_provider session);
            (vc, reserved) = reserveProducer opts (sw_vc w) providerId
        in if \<not> reserved then (w, throw CapacityError)
           else
             let x = start_try opts e readSession session providerId startIndex owner (w\<lparr>sw_vc := vc\<rparr>)
             in (start_finally e (ses_id session) providerId owner x,
                 case ex_result x of
                   Inl err \<Rightarrow> if se_aborted e 4 then resolve None else throw err
                 | Inr r \<Rightarrow> resolve r))"

section \<open>Conditional writes of a producer row\<close>

lemma cas_producer_keys [simp]:
  "map fst (db_producers (fst (compareAndSetVodProducer d p e al))) = map fst (db_producers d)"
  by (simp add: compareAndSetVodProducer_def Let_def case_prod_beta)

lemma cas_producer_row:
  assumes "al \<noteq> []"
  shows "map_of (db_producers (fst (compareAndSetVodProducer d p e al))) k =
    map_option (\<lambda>r. if k = prod_sessionId p \<and> cas_cond prod_state e al r
                    then bump_row p (prod_updatedAt p) r else r) (map_of (db_producers d) k)"
  using assms
  by (simp add: compareAndSetVodProducer_def Let_def case_prod_beta map_of_sql_update cas_cond_def)

lemma cas_producer_result:
  assumes "keys_ok (db_producers d)" and "al \<noteq> []"
  shows "snd (compareAndSetVodProducer d p e al) = resolve
    (case map_of (db_producers d) (prod_sessionId p) of
       None \<Rightarrow> Rejected NotFound None []
     | Some r \<Rightarrow>
         if row_revision r \<noteq> e then Rejected RevisionConflict (Some (versioned (row_json r) (row_revision r))) []
         else if prod_state (row_json r) \<in> set al then Applied (versioned p (Suc e))
         else Rejected InvalidState (Some (versioned (row_json r) (row_revision r))) [])"
  using assms sql_update_count_key[OF assms(1), of "prod_sessionId p"
      "\<lambda>r. row_revision r = e \<and> prod_state (row_json r) \<in> set al" "bump_row p (prod_updatedAt p)"]
  by (auto simp: compareAndSetVodProducer_def Let_def case_prod_beta getVersionedVodProducer_def
      get_versioned_def map_of_sql_update split: option.split)

section \<open>The fence\<close>

text \<open>
  Whatever happens around it, one attempt of a transition changes the row of its session
  only if at that very moment the row is in an active state and of the transition's own
  generation, and then the row becomes the update of itself.
\<close>

definition producer_ids_ok :: "db \<Rightarrow> bool" where
  "producer_ids_ok d \<longleftrightarrow> (\<forall>k r. map_of (db_producers d) k = Some r \<longrightarrow> prod_sessionId (row_json r) = k)"

lemma getVersionedVodProducer_Some:
  "getVersionedVodProducer d s = Some v \<longleftrightarrow>
     (\<exists>r. map_of (db_producers d) s = Some r \<and> v = versioned (row_json r) (row_revision r))"
  by (simp add: getVersionedVodProducer_def get_versioned_Some)

lemma ACTIVE_STATES_ne [simp]: "ACTIVE_STATES \<noteq> []" "STARTABLE_STATES \<noteq> []"
  by (simp_all add: ACTIVE_STATES_def STARTABLE_STATES_def)

text \<open>A row read before some operations and written with its revision after them.\<close>

lemma read_then_cas_row:
  assumes "map_of (db_producers d1) s = Some r1" and "advances (db_producers d1) (db_producers d2)"
    and "prod_sessionId p = s" and "al \<noteq> []"
  shows "map_of (db_producers (fst (compareAndSetVodProducer d2 p (row_revision r1) al))) = map_of (db_producers d2) \<or>
         (map_of (db_producers d2) s = Some r1 \<and> prod_state (row_json r1) \<in> set al \<and>
          map_of (db_producers (fst (compareAndSetVodProducer d2 p (row_revision r1) al))) =
            (map_of (db_producers d2))(s \<mapsto> bump_row p (prod_updatedAt p) r1))"
proof -
  obtain r2 where r2: "map_of (db_producers d2) s = Some r2" "r2 = r1 \<or> row_revision r1 < row_revision r2"
    using assms(1,2) unfolding advances_def by blast
  show ?thesis
  proof (cases "r2 = r1 \<and> prod_state (row_json r1) \<in> set al")
    case True
    then have "map_of (db_producers (fst (compareAndSetVodProducer d2 p (row_revision r1) al))) k =
            ((map_of (db_producers d2))(s \<mapsto> bump_row p (prod_updatedAt p) r1)) k" for k
      using assms(3) r2(1) by (simp add: cas_producer_row[OF assms(4)] cas_cond_def option.map_ident)
    then show ?thesis using True r2(1) by auto
  next
    case False
    then have "\<not> cas_cond prod_state (row_revision r1) al r2"
      using r2(2) assms(4) by (auto simp: cas_cond_def)
    then have "map_of (db_producers (fst (compareAndSetVodProducer d2 p (row_revision r1) al))) k =
        map_of (db_producers d2) k" for k
      using r2(1) assms(3) by (cases "k = s") (simp_all add: cas_producer_row[OF assms(4)] option.map_ident)
    then show ?thesis by auto
  qed
qed

lemma transition_attempt_fenced:
  fixes env :: "nat \<Rightarrow> repo_op list" and i :: nat and d :: db
  defines "d1 \<equiv> run_ops (env (2 * i)) d"
  defines "d2 \<equiv> run_ops (env (2 * i + 1)) d1"
  assumes ids: "producer_ids_ok d1" and keeps: "\<And>t p. prod_sessionId (update t p) = prod_sessionId p"
    and result: "transition_attempt env clock s g update i d = (d', res)"
  shows "d' = d1 \<or> map_of (db_producers d') = map_of (db_producers d2) \<or>
         (\<exists>r. map_of (db_producers d2) s = Some r \<and> prod_generation (row_json r) = g \<and>
              prod_state (row_json r) \<in> set ACTIVE_STATES \<and>
              map_of (db_producers d') = (map_of (db_producers d2))(s \<mapsto>
                bump_row (update (clock i) (row_json r)) (prod_updatedAt (update (clock i) (row_json r))) r))"
proof (cases "getVersionedVodProducer d1 s")
  case None
  then show ?thesis using result by (simp add: transition_attempt_def d1_def[symmetric] Let_def)
next
  case (Some v)
  then obtain r where r: "map_of (db_producers d1) s = Some r" "v = versioned (row_json r) (row_revision r)"
    by (auto simp: getVersionedVodProducer_Some)
  show ?thesis
  proof (cases "prod_generation (row_json r) = g")
    case False
    then show ?thesis using result Some r by (simp add: transition_attempt_def d1_def[symmetric] Let_def)
  next
    case True
    let ?p = "update (clock i) (row_json r)"
    have "d' = fst (compareAndSetVodProducer d2 ?p (row_revision r) ACTIVE_STATES)"
      using result Some r True unfolding d2_def
      by (simp add: transition_attempt_def d1_def[symmetric] Let_def case_prod_beta)
    moreover have "advances (db_producers d1) (db_producers d2)"
      unfolding d2_def using run_ops_advances by simp
    moreover have "prod_sessionId ?p = s" using ids r keeps by (simp add: producer_ids_ok_def)
    ultimately show ?thesis
      using read_then_cas_row[OF r(1), of d2 ?p ACTIVE_STATES] True by auto
  qed
qed

text \<open>Without interference a transition of the current active generation is written at once.\<close>

lemma transition_quiet:
  assumes "keys_ok (db_producers d)" and "map_of (db_producers d) s = Some r"
    and "prod_generation (row_json r) = g" and "prod_state (row_json r) \<in> set ACTIVE_STATES"
    and "prod_sessionId (update (clock 0) (row_json r)) = s"
  shows "snd (transition (\<lambda>_. []) clock s g update d) = resolve ()"
    and "map_of (db_producers (fst (transition (\<lambda>_. []) clock s g update d))) s =
           Some (bump_row (update (clock 0) (row_json r)) (prod_updatedAt (update (clock 0) (row_json r))) r)"
proof -
  let ?p = "update (clock 0) (row_json r)"
  have v: "getVersionedVodProducer d s = Some (versioned (row_json r) (row_revision r))"
    using assms(2) by (simp add: getVersionedVodProducer_Some)
  have res: "snd (compareAndSetVodProducer d ?p (row_revision r) ACTIVE_STATES) =
      resolve (Applied (versioned ?p (Suc (row_revision r))))"
    using assms by (simp add: cas_producer_result)
  have "transition_attempt (\<lambda>_. []) clock s g update 0 d =
      (fst (compareAndSetVodProducer d ?p (row_revision r) ACTIVE_STATES), Some (resolve ()))"
    using v assms(3) res by (simp add: transition_attempt_def Let_def case_prod_beta)
  then have "transition (\<lambda>_. []) clock s g update d =
      (fst (compareAndSetVodProducer d ?p (row_revision r) ACTIVE_STATES), resolve ())"
    using retry_first[of "transition_attempt (\<lambda>_. []) clock s g update" 0 d _ "resolve ()" 4]
    by (simp add: transition_def numeral_eq_Suc)
  then show "snd (transition (\<lambda>_. []) clock s g update d) = resolve ()"
    and "map_of (db_producers (fst (transition (\<lambda>_. []) clock s g update d))) s =
           Some (bump_row ?p (prod_updatedAt ?p) r)"
    using assms by (simp_all add: cas_producer_row cas_cond_def)
qed

section \<open>The protocol on producer rows\<close>

text \<open>
  All actors of all nodes on the producer rows: reads (the set holds every row with its
  revision that some actor has read and may still use), starts from a row or of a new row,
  transitions of a run and recoveries, each a conditional write with a row read earlier.
  The state has two ghost sets: \<open>fin\<close> holds the generations of which some run has come to its end
  and issued the write of it, \<open>late\<close> those of which a run went on to set the state \<^verbatim>\<open>running\<close> after
  that. A run writes its end last, so a generation is in \<open>late\<close> only when two runs share it, which a creation that is lost
  unnoticed makes possible.
\<close>

definition run_update :: "(vod_producer \<Rightarrow> vod_producer) \<Rightarrow> bool" where
  "run_update u \<longleftrightarrow> (\<exists>t. u = update_running t) \<or> (\<exists>ms i b t. u = update_published ms i b t)"

definition note_update :: "(vod_producer \<Rightarrow> vod_producer) \<Rightarrow> bool" where
  "note_update u \<longleftrightarrow> (\<exists>ms t. u = update_renewed ms t) \<or> (\<exists>opts a i dt t. u = update_demand opts a i dt t)"

definition finish_update :: "(vod_producer \<Rightarrow> vod_producer) \<Rightarrow> bool" where
  "finish_update u \<longleftrightarrow>
     (\<exists>t. u = update_complete t) \<or> (\<exists>s m t. u = update_stopped s m t) \<or>
     (\<exists>s t. u = update_abandoned s t)"

type_synonym protocol_state =
  "db \<times> vod_producer versioned set \<times> (ident \<times> nat) set \<times> (ident \<times> nat) set"

inductive producer_step :: "protocol_state \<Rightarrow> protocol_state \<Rightarrow> bool" where
  ps_read: "getVersionedVodProducer d s = Some v \<Longrightarrow>
    producer_step (d, seen, fin, late) (d, insert v seen, fin, late)"
| ps_start: "v \<in> seen \<Longrightarrow>
    row = start_row opts (prod_sessionId (vr_value v)) i (Some (vr_value v)) t t2 t3 \<Longrightarrow>
    producer_step (d, seen, fin, late)
      (fst (compareAndSetVodProducer d row (vr_revision v) STARTABLE_STATES), seen, fin, late)"
| ps_create: "producer_step (d, seen, fin, late)
    (fst (createVodProducer d (start_row opts s i None t t2 t3)), seen, fin, late)"
| ps_note: "v \<in> seen \<Longrightarrow> note_update u \<Longrightarrow>
    producer_step (d, seen, fin, late)
      (fst (compareAndSetVodProducer d (u (vr_value v)) (vr_revision v) ACTIVE_STATES), seen, fin, late)"
| ps_run: "v \<in> seen \<Longrightarrow> run_update u \<Longrightarrow>
    producer_step (d, seen, fin, late)
      (fst (compareAndSetVodProducer d (u (vr_value v)) (vr_revision v) ACTIVE_STATES), seen, fin,
       late \<union> ({(prod_sessionId (vr_value v), prod_generation (vr_value v))} \<inter> fin))"
| ps_finish: "v \<in> seen \<Longrightarrow> finish_update u \<Longrightarrow>
    producer_step (d, seen, fin, late)
      (fst (compareAndSetVodProducer d (u (vr_value v)) (vr_revision v) ACTIVE_STATES), seen,
       insert (prod_sessionId (vr_value v), prod_generation (vr_value v)) fin, late)"
| ps_recover: "v \<in> seen \<Longrightarrow>
    producer_step (d, seen, fin, late)
      (fst (compareAndSetVodProducer d (update_recovered t (vr_value v)) (vr_revision v) ACTIVE_STATES),
       seen, fin, late)"
| ps_other: "db_producers (exec_op x d) = db_producers d \<Longrightarrow>
    producer_step (d, seen, fin, late) (exec_op x d, seen, fin, late)"

inductive_cases producer_stepE: "producer_step x y"

text \<open>
  A row in order: its history ends with the attempt of its generation, the generations
  grow, only the last attempt can be open, and it is open exactly when the row has an
  owner, which is only when the row is starting or running.
\<close>

definition row_running :: "vod_producer \<Rightarrow> bool" where
  "row_running p \<longleftrightarrow> prod_state p = ProducerStarting \<or> prod_state p = ProducerRunning"

definition history_ok :: "producer_attempt list \<Rightarrow> nat \<Rightarrow> bool \<Rightarrow> bool" where
  "history_ok h g running \<longleftrightarrow>
     h \<noteq> [] \<and> patt_generation (last h) = g \<and> sorted_wrt (<) (map patt_generation h) \<and>
     (\<forall>a \<in> set (butlast h). patt_state a \<noteq> AttemptRunning) \<and>
     (patt_state (last h) = AttemptRunning \<longleftrightarrow> running) \<and>
     length h \<le> (if running then 101 else 100)"

definition row_ok :: "vod_producer \<Rightarrow> bool" where
  "row_ok p \<longleftrightarrow> history_ok (prod_workerHistory p) (prod_generation p) (prod_ownerNodeId p \<noteq> None) \<and>
     (prod_ownerNodeId p \<noteq> None \<longrightarrow> row_running p)"

lemma history_ok_alt:
  "history_ok (h @ [b]) g running \<longleftrightarrow>
     patt_generation b = g \<and> (\<forall>a \<in> set h. patt_generation a < g) \<and>
     sorted_wrt (<) (map patt_generation h) \<and> (\<forall>a \<in> set h. patt_state a \<noteq> AttemptRunning) \<and>
     (patt_state b = AttemptRunning \<longleftrightarrow> running) \<and> length h < (if running then 101 else 100)"
  by (auto simp: history_ok_def sorted_wrt_append)

lemma history_ok_snoc:
  assumes "history_ok h g False" and "patt_generation a = Suc g" "patt_state a = AttemptRunning"
  shows "history_ok (h @ [a]) (Suc g) True"
proof (cases h rule: rev_cases)
  case Nil
  then show ?thesis using assms by (simp add: history_ok_def)
next
  case (snoc h0 b)
  then show ?thesis using assms unfolding history_ok_alt snoc
    by (auto simp: history_ok_alt sorted_wrt_append less_SucI)
qed

lemma history_ok_single:
  "patt_generation a = g \<Longrightarrow> patt_state a = AttemptRunning \<Longrightarrow> history_ok [a] g True"
  by (simp add: history_ok_def)

lemma slice_last_snoc:
  "0 < n \<Longrightarrow> slice_last n (xs @ [b]) = slice_last (n - 1) xs @ [b]"
  by (cases "length xs < n") (auto simp: slice_last_def Suc_diff_le)

lemma set_slice_last: "set (slice_last n xs) \<subseteq> set xs"
  by (auto simp: slice_last_def dest: in_set_dropD)

lemma history_ok_slice:
  assumes "patt_generation b = g" "\<forall>a \<in> set h. patt_generation a < g"
    "sorted_wrt (<) (map patt_generation h)"
    "\<forall>a \<in> set h. patt_state a \<noteq> AttemptRunning" "patt_state b \<noteq> AttemptRunning"
  shows "history_ok (slice_last 100 (h @ [b])) g False"
  using assms set_slice_last[of 99 h]
  by (auto simp: slice_last_snoc history_ok_alt slice_last_def drop_map[symmetric] sorted_wrt_drop)

lemma history_ok_finish:
  assumes "history_ok h g running" and "st \<noteq> AttemptRunning"
  shows "history_ok (slice_last 100 (finish_latest g st m now h)) g False"
proof (cases h rule: rev_cases)
  case Nil
  then show ?thesis using assms by (simp add: history_ok_def)
next
  case (snoc h0 b)
  have ok: "patt_generation b = g" "\<forall>a \<in> set h0. patt_generation a < g"
    "sorted_wrt (<) (map patt_generation h0)" "\<forall>a \<in> set h0. patt_state a \<noteq> AttemptRunning"
    using assms(1) by (simp_all add: snoc history_ok_alt)
  show ?thesis
  proof (cases "patt_state b = AttemptRunning")
    case True
    then have "finish_latest g st m now h = h0 @ [b\<lparr>patt_state := st, patt_completedAt := Some now,
        patt_errorMessage := (if truthy m then m else patt_errorMessage b)\<rparr>]"
      using ok(1) by (simp add: snoc finish_latest_def Let_def)
    then show ?thesis using ok assms(2) by (simp add: history_ok_slice)
  next
    case False
    then have "finish_latest g st m now h = h0 @ [b]"
      by (simp add: snoc finish_latest_def Let_def)
    then show ?thesis using ok False by (simp add: history_ok_slice)
  qed
qed

lemmas update_defs =
  update_running_def update_renewed_def update_published_def update_demand_def update_complete_def
  update_stopped_def update_abandoned_def update_recovered_def finishAttempt_def

lemma update_ids:
  "run_update u \<Longrightarrow> prod_sessionId (u p) = prod_sessionId p \<and> prod_generation (u p) = prod_generation p"
  "note_update u \<Longrightarrow> prod_sessionId (u p) = prod_sessionId p \<and> prod_generation (u p) = prod_generation p"
  "finish_update u \<Longrightarrow> prod_sessionId (u p) = prod_sessionId p \<and> prod_generation (u p) = prod_generation p"
  "prod_sessionId (update_recovered t p) = prod_sessionId p \<and>
     prod_generation (update_recovered t p) = prod_generation p"
  by (auto simp: run_update_def note_update_def finish_update_def update_defs Let_def)

lemma row_ok_start:
  assumes "case current of None \<Rightarrow> True | Some c \<Rightarrow> row_ok c \<and> \<not> row_running c"
  shows "row_ok (start_row opts s i current t t2 t3)"
    "prod_ownerNodeId (start_row opts s i current t t2 t3) \<noteq> None"
  using assms
  by (auto simp: start_row_def row_ok_def row_running_def Let_def history_ok_single history_ok_snoc
      split: option.splits)

lemma row_ok_note:
  "note_update u \<Longrightarrow> row_ok p \<Longrightarrow>
     row_ok (u p) \<and> prod_state (u p) = prod_state p \<and> prod_ownerNodeId (u p) = prod_ownerNodeId p"
  by (auto simp: note_update_def row_ok_def row_running_def update_defs)

lemma row_ok_run:
  "run_update u \<Longrightarrow> row_ok p \<Longrightarrow>
     row_ok (u p) \<and> prod_state (u p) = ProducerRunning \<and> prod_ownerNodeId (u p) = prod_ownerNodeId p"
  by (auto simp: run_update_def row_ok_def row_running_def update_defs)

lemma stop_state_of_not_running:
  "stop_state_of x \<noteq> ProducerStarting" "stop_state_of x \<noteq> ProducerRunning"
  by (cases x rule: stop_state_of.cases; simp)+

lemma row_ok_finish: "finish_update u \<Longrightarrow> row_ok p \<Longrightarrow> row_ok (u p) \<and> \<not> row_running (u p)"
  by (auto simp: finish_update_def row_ok_def row_running_def update_defs history_ok_finish
      stop_state_of_not_running Let_def)

lemma row_ok_recovered:
  "row_ok p \<Longrightarrow> row_ok (update_recovered t p) \<and> prod_state (update_recovered t p) = ProducerIdle"
  by (auto simp: row_ok_def row_running_def update_defs history_ok_finish)

text \<open>
  The invariant of the protocol: every row is in order, a row that waits to be switched
  has written its end, a row that starts or runs has an owner unless its generation is
  late, and what an actor has read is either the row as it is or older.
\<close>

definition row_state_ok :: "(ident \<times> nat) set \<Rightarrow> (ident \<times> nat) set \<Rightarrow> vod_producer \<Rightarrow> bool" where
  "row_state_ok fin late p \<longleftrightarrow> row_ok p \<and>
     (prod_state p = ProducerSwitching \<longrightarrow> (prod_sessionId p, prod_generation p) \<in> fin) \<and>
     (row_running p \<longrightarrow> prod_ownerNodeId p \<noteq> None \<or> (prod_sessionId p, prod_generation p) \<in> late)"

lemma row_state_ok_mono:
  "row_state_ok fin late p \<Longrightarrow> fin \<subseteq> fin' \<Longrightarrow> late \<subseteq> late' \<Longrightarrow> row_state_ok fin' late' p"
  by (auto simp: row_state_ok_def)

definition seen_ok :: "db \<Rightarrow> vod_producer versioned \<Rightarrow> bool" where
  "seen_ok d v \<longleftrightarrow>
     (\<exists>r. map_of (db_producers d) (prod_sessionId (vr_value v)) = Some r \<and>
          (v = versioned (row_json r) (row_revision r) \<or> vr_revision v < row_revision r) \<and>
          prod_generation (vr_value v) \<le> prod_generation (row_json r))"

definition protocol_ok :: "protocol_state \<Rightarrow> bool" where
  "protocol_ok st \<longleftrightarrow>
     (let (d, seen, fin, late) = st
      in keys_unique d \<and>
         (\<forall>k r. map_of (db_producers d) k = Some r \<longrightarrow>
            prod_sessionId (row_json r) = k \<and> row_state_ok fin late (row_json r)) \<and>
         (\<forall>v \<in> seen. seen_ok d v))"

text \<open>One conditional write with a row that was read.\<close>

definition row_write :: "db \<Rightarrow> vod_producer versioned \<Rightarrow> vod_producer \<Rightarrow> producer_state list \<Rightarrow> db \<Rightarrow> bool" where
  "row_write d v p al d' \<longleftrightarrow>
     map_of (db_producers d') = map_of (db_producers d) \<or>
     (\<exists>r. map_of (db_producers d) (prod_sessionId (vr_value v)) = Some r \<and>
          v = versioned (row_json r) (row_revision r) \<and> prod_state (row_json r) \<in> set al \<and>
          map_of (db_producers d') = (map_of (db_producers d))
            (prod_sessionId (vr_value v) \<mapsto> bump_row p (prod_updatedAt p) r))"

lemma cas_row_write:
  assumes "seen_ok d v" and "prod_sessionId p = prod_sessionId (vr_value v)" and "al \<noteq> []"
  shows "row_write d v p al (fst (compareAndSetVodProducer d p (vr_revision v) al))"
proof -
  let ?s = "prod_sessionId (vr_value v)" and ?d' = "fst (compareAndSetVodProducer d p (vr_revision v) al)"
  from assms(1) obtain r where r: "map_of (db_producers d) ?s = Some r"
    "v = versioned (row_json r) (row_revision r) \<or> vr_revision v < row_revision r"
    by (auto simp: seen_ok_def)
  show ?thesis
  proof (cases "v = versioned (row_json r) (row_revision r) \<and> prod_state (row_json r) \<in> set al")
    case True
    then have rev: "vr_revision v = row_revision r" by (cases v) auto
    have "map_of (db_producers ?d') k = ((map_of (db_producers d))(?s \<mapsto> bump_row p (prod_updatedAt p) r)) k" for k
      using r(1) rev True by (simp add: cas_producer_row[OF assms(3)] cas_cond_def assms(2) option.map_ident)
    then have "map_of (db_producers ?d') = (map_of (db_producers d))(?s \<mapsto> bump_row p (prod_updatedAt p) r)"
      by (rule ext)
    then show ?thesis unfolding row_write_def using r(1) True by blast
  next
    case False
    then have "\<not> cas_cond prod_state (vr_revision v) al r"
      using r(2) assms(3) by (cases v) (auto simp: cas_cond_def)
    then have "map_of (db_producers ?d') k = map_of (db_producers d) k" for k
      using r(1) by (cases "k = ?s") (simp_all add: cas_producer_row[OF assms(3)] assms(2) option.map_ident)
    then show ?thesis unfolding row_write_def by (intro disjI1 ext)
  qed
qed

lemma protocol_write:
  assumes ok: "protocol_ok (d, seen, fin, late)" and v: "v \<in> seen" and keys: "keys_unique d'"
    and w: "row_write d v p al d'"
    and ids: "prod_sessionId p = prod_sessionId (vr_value v)"
      "prod_generation (vr_value v) \<le> prod_generation p"
    and row: "row_state_ok fin late (vr_value v) \<Longrightarrow> prod_state (vr_value v) \<in> set al \<Longrightarrow>
      row_state_ok fin' late' p"
    and sub: "fin \<subseteq> fin'" "late \<subseteq> late'"
  shows "protocol_ok (d', seen, fin', late')"
proof -
  have old: "prod_sessionId (row_json r) = k" "row_state_ok fin late (row_json r)"
    "row_state_ok fin' late' (row_json r)"
    if "map_of (db_producers d) k = Some r" for k r
    using ok that row_state_ok_mono[OF _ sub] by (auto simp: protocol_ok_def)
  have seen: "seen_ok d x" if "x \<in> seen" for x using ok that by (simp add: protocol_ok_def)
  from w[unfolded row_write_def] show ?thesis
  proof
    assume same: "map_of (db_producers d') = map_of (db_producers d)"
    then have "seen_ok d' x" if "x \<in> seen" for x using seen[OF that] by (simp add: seen_ok_def)
    then show ?thesis using old keys by (simp add: protocol_ok_def same)
  next
    assume "\<exists>r. map_of (db_producers d) (prod_sessionId (vr_value v)) = Some r \<and>
          v = versioned (row_json r) (row_revision r) \<and> prod_state (row_json r) \<in> set al \<and>
          map_of (db_producers d') = (map_of (db_producers d))
            (prod_sessionId (vr_value v) \<mapsto> bump_row p (prod_updatedAt p) r)"
    then obtain r where r: "map_of (db_producers d) (prod_sessionId (vr_value v)) = Some r"
      "v = versioned (row_json r) (row_revision r)" "prod_state (row_json r) \<in> set al"
      and new: "map_of (db_producers d') = (map_of (db_producers d))
            (prod_sessionId (vr_value v) \<mapsto> bump_row p (prod_updatedAt p) r)" by blast
    have val: "vr_value v = row_json r" by (simp add: r(2))
    have "row_state_ok fin' late' p"
      by (rule row) (use old(2)[OF r(1)] r(3) in \<open>simp_all add: val\<close>)
    moreover have "seen_ok d' x" if x: "x \<in> seen" for x
    proof (cases "prod_sessionId (vr_value x) = prod_sessionId (vr_value v)")
      case True
      moreover have "vr_revision x \<le> row_revision r" "prod_generation (vr_value x) \<le> prod_generation (row_json r)"
        using seen[OF x] r(1) True by (auto simp: seen_ok_def)
      ultimately show ?thesis using new ids(2) val by (simp add: seen_ok_def)
    next
      case False
      then show ?thesis using seen[OF x] new by (simp add: seen_ok_def)
    qed
    ultimately show ?thesis
      using old keys ids(1) by (simp add: protocol_ok_def new)
  qed
qed

lemma keys_unique_cas_producer:
  "keys_unique d \<Longrightarrow> keys_unique (fst (compareAndSetVodProducer d p e al))"
  using keys_unique_exec[of d "JobOp (OpCasProducer p e al)"] by simp

lemma keys_unique_create_producer: "keys_unique d \<Longrightarrow> keys_unique (fst (createVodProducer d p))"
  using keys_unique_exec[of d "JobOp (OpCreateProducer p)"] by simp

lemma protocolD:
  assumes "protocol_ok (d, seen, fin, late)"
  shows "keys_unique d" and "v \<in> seen \<Longrightarrow> seen_ok d v"
    and "map_of (db_producers d) k = Some r \<Longrightarrow>
           prod_sessionId (row_json r) = k \<and> row_state_ok fin late (row_json r)"
  using assms by (simp_all add: protocol_ok_def)

lemma create_producer_row:
  "map_of (db_producers (fst (createVodProducer d p))) k =
     (if map_of (db_producers d) k = None \<and> k = prod_sessionId p
      then Some (fresh_row p (prod_updatedAt p)) else map_of (db_producers d) k)"
proof -
  have "db_producers (fst (createVodProducer d p)) =
      fst (sql_insert_or_ignore (db_producers d) (prod_sessionId p) (fresh_row p (prod_updatedAt p)))"
    by (simp add: createVodProducer_def Let_def case_prod_beta split: option.split)
  then show ?thesis by (simp add: map_of_sql_insert_or_ignore)
qed

lemma start_row_ids:
  "prod_sessionId (start_row opts s i current t t2 t3) = s"
  "prod_generation (start_row opts s i current t t2 t3) =
     Suc (case current of None \<Rightarrow> 0 | Some c \<Rightarrow> prod_generation c)"
  "prod_state (start_row opts s i current t t2 t3) = ProducerStarting"
  by (simp_all add: start_row_def Let_def)

lemma protocol_cas:
  assumes ok: "protocol_ok (d, seen, fin, late)" and v: "v \<in> seen"
    and ids: "prod_sessionId p = prod_sessionId (vr_value v)"
      "prod_generation (vr_value v) \<le> prod_generation p"
    and al: "al \<noteq> []" and sub: "fin \<subseteq> fin'" "late \<subseteq> late'"
    and row: "row_state_ok fin late (vr_value v) \<Longrightarrow> prod_state (vr_value v) \<in> set al \<Longrightarrow>
      row_state_ok fin' late' p"
  shows "protocol_ok (fst (compareAndSetVodProducer d p (vr_revision v) al), seen, fin', late')"
  by (rule protocol_write[OF ok v keys_unique_cas_producer[OF protocolD(1)[OF ok]]
        cas_row_write[OF protocolD(2)[OF ok v] ids(1) al] ids row sub])

lemma start_row_state_ok:
  assumes "case current of None \<Rightarrow> True | Some c \<Rightarrow> row_ok c \<and> \<not> row_running c"
  shows "row_state_ok fin late (start_row opts s i current t t2 t3)"
  using row_ok_start[OF assms] by (simp add: row_state_ok_def start_row_ids)

lemma protocol_ok_step:
  assumes "producer_step st st'" and "protocol_ok st"
  shows "protocol_ok st'"
  using assms
proof (induction rule: producer_step.induct)
  case (ps_read d s v seen fin late)
  then obtain r where r: "map_of (db_producers d) s = Some r" "v = versioned (row_json r) (row_revision r)"
    by (auto simp: getVersionedVodProducer_Some)
  have "prod_sessionId (row_json r) = s" using protocolD(3)[OF ps_read(2) r(1)] by simp
  then have "seen_ok d v" using r by (simp add: seen_ok_def)
  then show ?case using ps_read(2) by (simp add: protocol_ok_def)
next
  case (ps_start v seen row opts i t t2 t3 d fin late)
  show ?case
  proof (rule protocol_cas[OF ps_start(3,1)])
    assume "row_state_ok fin late (vr_value v)" "prod_state (vr_value v) \<in> set STARTABLE_STATES"
    then have "row_ok (vr_value v) \<and> \<not> row_running (vr_value v)"
      by (auto simp: row_state_ok_def row_running_def STARTABLE_STATES_def)
    then show "row_state_ok fin late row" unfolding ps_start(2) by (intro start_row_state_ok) simp
  qed (simp_all add: ps_start(2) start_row_ids)
next
  case (ps_create d seen fin late opts s i t t2 t3)
  let ?p = "start_row opts s i None t t2 t3"
  let ?d' = "fst (createVodProducer d ?p)"
  have new: "row_state_ok fin late ?p" by (rule start_row_state_ok) simp
  have "seen_ok ?d' v" if "v \<in> seen" for v
    using protocolD(2)[OF ps_create that] by (auto simp: seen_ok_def create_producer_row)
  moreover have "keys_unique ?d'" by (rule keys_unique_create_producer[OF protocolD(1)[OF ps_create]])
  moreover have "prod_sessionId (row_json r) = k \<and> row_state_ok fin late (row_json r)"
    if "map_of (db_producers ?d') k = Some r" for k r
    using that protocolD(3)[OF ps_create, of k r] new
    by (auto simp: create_producer_row fresh_row_def start_row_ids split: if_splits)
  ultimately show ?case by (simp add: protocol_ok_def)
next
  case (ps_note v seen u d fin late)
  show ?case
  proof (rule protocol_cas[OF ps_note(3,1)])
    assume "row_state_ok fin late (vr_value v)"
    then show "row_state_ok fin late (u (vr_value v))"
      using row_ok_note[OF ps_note(2), of "vr_value v"] update_ids(2)[OF ps_note(2), of "vr_value v"]
      by (auto simp: row_state_ok_def row_running_def)
  qed (simp_all add: update_ids(2)[OF ps_note(2)])
next
  case (ps_run v seen u d fin late)
  show ?case
  proof (rule protocol_cas[OF ps_run(3,1)])
    assume a: "row_state_ok fin late (vr_value v)" "prod_state (vr_value v) \<in> set ACTIVE_STATES"
    then show "row_state_ok fin (late \<union> ({(prod_sessionId (vr_value v), prod_generation (vr_value v))} \<inter> fin))
        (u (vr_value v))"
      using row_ok_run[OF ps_run(2), of "vr_value v"] update_ids(1)[OF ps_run(2), of "vr_value v"]
      by (auto simp: row_state_ok_def row_running_def ACTIVE_STATES_def)
  qed (auto simp: update_ids(1)[OF ps_run(2)])
next
  case (ps_finish v seen u d fin late)
  show ?case
  proof (rule protocol_cas[OF ps_finish(3,1)])
    assume "row_state_ok fin late (vr_value v)"
    then show "row_state_ok (insert (prod_sessionId (vr_value v), prod_generation (vr_value v)) fin) late
        (u (vr_value v))"
      using row_ok_finish[OF ps_finish(2), of "vr_value v"] update_ids(3)[OF ps_finish(2), of "vr_value v"]
      by (simp add: row_state_ok_def)
  qed (auto simp: update_ids(3)[OF ps_finish(2)])
next
  case (ps_recover v seen d fin late t)
  show ?case
  proof (rule protocol_cas[OF ps_recover(2,1)])
    assume "row_state_ok fin late (vr_value v)"
    then show "row_state_ok fin late (update_recovered t (vr_value v))"
      using row_ok_recovered[of "vr_value v" t] by (simp add: row_state_ok_def row_running_def)
  qed (simp_all add: update_ids(4))
next
  case (ps_other x d seen fin late)
  then show ?case using keys_unique_exec[OF protocolD(1)[OF ps_other(2)], of x]
    by (simp add: protocol_ok_def seen_ok_def)
qed

definition protocol_start :: protocol_state where
  "protocol_start = (empty_db, {}, {}, {})"

lemma protocol_ok_start: "protocol_ok protocol_start"
  by (simp add: protocol_ok_def protocol_start_def keys_unique_empty) (simp add: empty_db_def)

lemma protocol_ok_run: "producer_step\<^sup>*\<^sup>* st st' \<Longrightarrow> protocol_ok st \<Longrightarrow> protocol_ok st'"
  by (induction rule: rtranclp_induct) (auto intro: protocol_ok_step)

text \<open>
  Generations only grow, and the attempt of a generation that was superseded can never be
  written again: its row has a greater generation for good.
\<close>

definition generation_of :: "db \<Rightarrow> ident \<Rightarrow> nat" where
  "generation_of d k = (case map_of (db_producers d) k of None \<Rightarrow> 0 | Some r \<Rightarrow> prod_generation (row_json r))"

lemma row_write_generation:
  assumes "row_write d v p al d'" and "prod_generation (vr_value v) \<le> prod_generation p"
  shows "generation_of d k \<le> generation_of d' k"
  using assms(1) unfolding row_write_def
proof
  assume "map_of (db_producers d') = map_of (db_producers d)"
  then show ?thesis by (simp add: generation_of_def)
next
  assume "\<exists>r. map_of (db_producers d) (prod_sessionId (vr_value v)) = Some r \<and>
          v = versioned (row_json r) (row_revision r) \<and> prod_state (row_json r) \<in> set al \<and>
          map_of (db_producers d') = (map_of (db_producers d))
            (prod_sessionId (vr_value v) \<mapsto> bump_row p (prod_updatedAt p) r)"
  then obtain r where r: "map_of (db_producers d) (prod_sessionId (vr_value v)) = Some r"
    "v = versioned (row_json r) (row_revision r)"
    and new: "map_of (db_producers d') = (map_of (db_producers d))
            (prod_sessionId (vr_value v) \<mapsto> bump_row p (prod_updatedAt p) r)" by blast
  have "vr_value v = row_json r" by (simp add: r(2))
  then show ?thesis using assms(2) r(1) new
    by (cases "k = prod_sessionId (vr_value v)") (simp_all add: generation_of_def)
qed

lemma generation_step:
  assumes "producer_step st st'" and "protocol_ok st"
  shows "generation_of (fst st) k \<le> generation_of (fst st') k"
  using assms
proof (induction rule: producer_step.induct)
  case (ps_start v seen row opts i t t2 t3 d fin late)
  have "row_write d v row STARTABLE_STATES (fst (compareAndSetVodProducer d row (vr_revision v) STARTABLE_STATES))"
    by (rule cas_row_write[OF protocolD(2)[OF ps_start(3,1)]]) (simp_all add: ps_start(2) start_row_ids)
  from row_write_generation[OF this] show ?case by (simp add: ps_start(2) start_row_ids)
next
  case (ps_create d seen fin late opts s i t t2 t3)
  then show ?case by (auto simp: generation_of_def create_producer_row split: option.splits)
next
  case (ps_note v seen u d fin late)
  have "row_write d v (u (vr_value v)) ACTIVE_STATES
      (fst (compareAndSetVodProducer d (u (vr_value v)) (vr_revision v) ACTIVE_STATES))"
    by (rule cas_row_write[OF protocolD(2)[OF ps_note(3,1)]]) (simp_all add: update_ids(2)[OF ps_note(2)])
  from row_write_generation[OF this] show ?case by (simp add: update_ids(2)[OF ps_note(2)])
next
  case (ps_run v seen u d fin late)
  have "row_write d v (u (vr_value v)) ACTIVE_STATES
      (fst (compareAndSetVodProducer d (u (vr_value v)) (vr_revision v) ACTIVE_STATES))"
    by (rule cas_row_write[OF protocolD(2)[OF ps_run(3,1)]]) (simp_all add: update_ids(1)[OF ps_run(2)])
  from row_write_generation[OF this] show ?case by (simp add: update_ids(1)[OF ps_run(2)])
next
  case (ps_finish v seen u d fin late)
  have "row_write d v (u (vr_value v)) ACTIVE_STATES
      (fst (compareAndSetVodProducer d (u (vr_value v)) (vr_revision v) ACTIVE_STATES))"
    by (rule cas_row_write[OF protocolD(2)[OF ps_finish(3,1)]]) (simp_all add: update_ids(3)[OF ps_finish(2)])
  from row_write_generation[OF this] show ?case by (simp add: update_ids(3)[OF ps_finish(2)])
next
  case (ps_recover v seen d fin late t)
  have "row_write d v (update_recovered t (vr_value v)) ACTIVE_STATES
      (fst (compareAndSetVodProducer d (update_recovered t (vr_value v)) (vr_revision v) ACTIVE_STATES))"
    by (rule cas_row_write[OF protocolD(2)[OF ps_recover(2,1)]]) (simp_all add: update_ids(4))
  from row_write_generation[OF this] show ?case by (simp add: update_ids(4))
qed (simp_all add: generation_of_def)

lemma generation_run:
  assumes "producer_step\<^sup>*\<^sup>* st st'" and "protocol_ok st"
  shows "generation_of (fst st) k \<le> generation_of (fst st') k"
  using assms
proof (induction rule: rtranclp_induct)
  case (step y z)
  then have "protocol_ok y" using protocol_ok_run by blast
  with generation_step[OF step(2)] step show ?case by (meson order_trans)
qed simp

section \<open>Recovery leaves no expired producer\<close>

definition expired_row :: "db \<Rightarrow> instant \<Rightarrow> ident \<Rightarrow> bool" where
  "expired_row d now k \<longleftrightarrow>
     (\<exists>r. map_of (db_producers d) k = Some r \<and> prod_state (row_json r) \<in> set ACTIVE_STATES \<and>
          \<not> lease_live (row_json r) now)"

abbreviation quiet :: "nat \<Rightarrow> nat \<Rightarrow> repo_op list" where
  "quiet \<equiv> \<lambda>_ _. []"

lemma recover_one:
  fixes clock :: "nat \<Rightarrow> instant" and s :: ident and now :: instant and d :: db
  assumes keys: "keys_ok (db_producers d)" and ids: "producer_ids_ok d"
  defines "w \<equiv> retry 0 5 (recover_attempt (\<lambda>_. []) clock now s) (resolve False) d"
  shows "snd w = resolve (expired_row d now s)"
    and "map_of (db_producers (fst w)) k =
      map_option (\<lambda>r. if k = s \<and> expired_row d now s
        then bump_row (update_recovered (clock 0) (row_json r)) (clock 0) r else r) (map_of (db_producers d) k)"
    and "map fst (db_producers (fst w)) = map fst (db_producers d)"
proof -
  have "snd w = resolve (expired_row d now s) \<and>
    map_of (db_producers (fst w)) k =
      map_option (\<lambda>r. if k = s \<and> expired_row d now s
        then bump_row (update_recovered (clock 0) (row_json r)) (clock 0) r else r) (map_of (db_producers d) k) \<and>
    map fst (db_producers (fst w)) = map fst (db_producers d)"
  proof (cases "expired_row d now s")
    case False
    then have "recover_attempt (\<lambda>_. []) clock now s 0 d = (d, Some (resolve False))"
      by (auto simp: recover_attempt_def Let_def getVersionedVodProducer_def get_versioned_def expired_row_def
          split: option.split)
    then have "w = (d, resolve False)"
      unfolding w_def using retry_first[of "recover_attempt (\<lambda>_. []) clock now s" 0 d d "resolve False" 4]
      by (simp add: numeral_eq_Suc)
    then show ?thesis using False by (simp add: option.map_ident)
  next
    case True
    then obtain r where r: "map_of (db_producers d) s = Some r" "prod_state (row_json r) \<in> set ACTIVE_STATES"
      "\<not> lease_live (row_json r) now" by (auto simp: expired_row_def)
    let ?p = "update_recovered (clock 0) (row_json r)"
    let ?d' = "fst (compareAndSetVodProducer d ?p (row_revision r) ACTIVE_STATES)"
    have sid: "prod_sessionId ?p = s" using ids r(1) update_ids(4) by (simp add: producer_ids_ok_def)
    have "snd (compareAndSetVodProducer d ?p (row_revision r) ACTIVE_STATES) =
        resolve (Applied (versioned ?p (Suc (row_revision r))))"
      using keys r sid by (simp add: cas_producer_result)
    moreover have "getVersionedVodProducer d s = Some (versioned (row_json r) (row_revision r))"
      using r(1) by (simp add: getVersionedVodProducer_Some)
    ultimately have "recover_attempt (\<lambda>_. []) clock now s 0 d = (?d', Some (resolve True))"
      using r(2,3) by (simp add: recover_attempt_def Let_def case_prod_beta)
    then have w: "w = (?d', resolve True)"
      unfolding w_def using retry_first[of "recover_attempt (\<lambda>_. []) clock now s" 0 d ?d' "resolve True" 4]
      by (simp add: numeral_eq_Suc)
    have "prod_updatedAt ?p = clock 0" by (simp add: update_recovered_def)
    then show ?thesis using True r sid
      by (cases "k = s") (simp_all add: w cas_producer_row cas_cond_def option.map_ident)
  qed
  then show "snd w = resolve (expired_row d now s)"
    and "map_of (db_producers (fst w)) k =
      map_option (\<lambda>r. if k = s \<and> expired_row d now s
        then bump_row (update_recovered (clock 0) (row_json r)) (clock 0) r else r) (map_of (db_producers d) k)"
    and "map fst (db_producers (fst w)) = map fst (db_producers d)" by blast+
qed

text \<open>What the loop keeps: a row is the original one, or it is recovered.\<close>

definition recovering :: "db \<Rightarrow> instant \<Rightarrow> db \<Rightarrow> bool" where
  "recovering d0 now d \<longleftrightarrow>
     keys_ok (db_producers d) \<and> producer_ids_ok d \<and>
     (\<forall>k. map_of (db_producers d) k = map_of (db_producers d0) k \<or>
          (expired_row d0 now k \<and>
           (\<exists>r t. map_of (db_producers d0) k = Some r \<and>
             map_of (db_producers d) k = Some (bump_row (update_recovered t (row_json r)) t r))))"

lemma recovered_not_expired:
  assumes "map_of (db_producers d) k = Some (bump_row (update_recovered t p) t' r)"
  shows "\<not> expired_row d now k"
  using assms by (auto simp: expired_row_def update_recovered_def ACTIVE_STATES_def)

lemma recovering_step:
  assumes "recovering d0 now d"
  shows "recovering d0 now (fst (retry 0 5 (recover_attempt (\<lambda>_. []) clock now s) (resolve False) d))"
    (is "recovering d0 now ?d'")
proof -
  have keys: "keys_ok (db_producers d)" and ids: "producer_ids_ok d"
    and rows: "\<And>k. map_of (db_producers d) k = map_of (db_producers d0) k \<or>
          (expired_row d0 now k \<and> (\<exists>r t. map_of (db_producers d0) k = Some r \<and>
             map_of (db_producers d) k = Some (bump_row (update_recovered t (row_json r)) t r)))"
    using assms by (auto simp: recovering_def)
  note one = recover_one[OF keys ids, where clock = clock and now = now and s = s]
  have "producer_ids_ok ?d'"
    using ids by (auto simp: producer_ids_ok_def one(2) update_ids(4))
  moreover have "keys_ok (db_producers ?d')" by (simp only: one(3) keys)
  moreover have "map_of (db_producers ?d') k = map_of (db_producers d0) k \<or>
          (expired_row d0 now k \<and> (\<exists>r t. map_of (db_producers d0) k = Some r \<and>
             map_of (db_producers ?d') k = Some (bump_row (update_recovered t (row_json r)) t r)))" for k
  proof (cases "k = s \<and> expired_row d now s")
    case False
    then have "map_of (db_producers ?d') k = map_of (db_producers d) k"
      unfolding one(2) by (cases "k = s") (simp_all add: option.map_ident)
    then show ?thesis using rows[of k] by simp
  next
    case True
    then have exp: "expired_row d now k" by simp
    then obtain r where r: "map_of (db_producers d) k = Some r" by (auto simp: expired_row_def)
    have same: "map_of (db_producers d) k = map_of (db_producers d0) k"
      using rows[of k] exp recovered_not_expired by blast
    then have "expired_row d0 now k" using exp by (simp add: expired_row_def)
    moreover have "map_of (db_producers ?d') k = Some (bump_row (update_recovered (clock 0) (row_json r)) (clock 0) r)"
      unfolding one(2) using True r by simp
    ultimately show ?thesis using r same by auto
  qed
  ultimately show ?thesis by (simp add: recovering_def)
qed

lemma recover_listed_quiet:
  assumes "recovering d0 now d"
    and "\<And>p. p \<in> set ps \<Longrightarrow> \<exists>r. map_of (db_producers d0) (prod_sessionId p) = Some r \<and> row_json r = p"
  shows "\<exists>n d'. recover_listed quiet clock now ps j m d = (d', resolve n) \<and> recovering d0 now d' \<and>
           (\<forall>p \<in> set ps. \<not> expired_row d' now (prod_sessionId p)) \<and>
           (\<forall>k. \<not> expired_row d now k \<longrightarrow> \<not> expired_row d' now k)"
  using assms
proof (induction ps arbitrary: j m d)
  case Nil
  then show ?case by auto
next
  case (Cons p ps)
  let ?s = "prod_sessionId p"
  obtain r where r: "map_of (db_producers d0) ?s = Some r" "row_json r = p" using Cons.prems(2) by auto
  show ?case
  proof (cases "prod_state p \<notin> set ACTIVE_STATES \<or> lease_live p now")
    case True
    have "\<not> expired_row d now ?s"
    proof
      assume exp: "expired_row d now ?s"
      have "map_of (db_producers d) ?s = map_of (db_producers d0) ?s"
        using Cons.prems(1) exp recovered_not_expired unfolding recovering_def by blast
      then show False using exp r True by (auto simp: expired_row_def)
    qed
    moreover obtain n d' where "recover_listed quiet clock now ps (Suc j) m d = (d', resolve n)"
      "recovering d0 now d'" "\<forall>p \<in> set ps. \<not> expired_row d' now (prod_sessionId p)"
      "\<forall>k. \<not> expired_row d now k \<longrightarrow> \<not> expired_row d' now k"
      using Cons.IH[OF Cons.prems(1), of "Suc j" m] Cons.prems(2) by auto
    ultimately show ?thesis using True by simp
  next
    case False
    define w where "w = retry 0 5 (recover_attempt (\<lambda>_. []) (clock j) now ?s) (resolve False) d"
    have keys: "keys_ok (db_producers d)" and ids: "producer_ids_ok d"
      using Cons.prems(1) by (simp_all add: recovering_def)
    note one = recover_one[OF keys ids, where clock = "clock j" and now = now and s = ?s, folded w_def]
    have rec: "recovering d0 now (fst w)" unfolding w_def by (rule recovering_step[OF Cons.prems(1)])
    have here: "\<not> expired_row (fst w) now ?s"
      using one(2)[of ?s]
      by (cases "expired_row d now ?s")
         (auto simp: expired_row_def update_recovered_def ACTIVE_STATES_def)
    have stays: "\<not> expired_row d now k \<longrightarrow> \<not> expired_row (fst w) now k" for k
    proof (cases "k = ?s")
      case True
      then show ?thesis using here by simp
    next
      case False
      then have "map_of (db_producers (fst w)) k = map_of (db_producers d) k"
        using one(2)[of k] by (simp add: option.map_ident)
      then show ?thesis by (simp add: expired_row_def)
    qed
    obtain b where b: "w = (fst w, resolve b)"
      using one(1) by (intro that[of "expired_row d now ?s"]) (simp add: prod_eq_iff)
    obtain n d' where rest: "recover_listed quiet clock now ps (Suc j) (if b then m + 1 else m) (fst w) = (d', resolve n)"
      "recovering d0 now d'" "\<forall>p \<in> set ps. \<not> expired_row d' now (prod_sessionId p)"
      "\<forall>k. \<not> expired_row (fst w) now k \<longrightarrow> \<not> expired_row d' now k"
      using Cons.IH[OF rec, of "Suc j" "if b then m + 1 else m"] Cons.prems(2) by auto
    have "recover_listed quiet clock now (p # ps) j m d =
        (case w of (d2, x) \<Rightarrow> case x of Inl e \<Rightarrow> (d2, throw e)
         | Inr b \<Rightarrow> recover_listed quiet clock now ps (Suc j) (if b then m + 1 else m) d2)"
      unfolding w_def using False by simp
    also have "\<dots> = recover_listed quiet clock now ps (Suc j) (if b then m + 1 else m) (fst w)"
      by (subst b) simp
    finally have "recover_listed quiet clock now (p # ps) j m d = (d', resolve n)"
      by (simp only: rest(1))
    then show ?thesis using rest here stays by auto
  qed
qed

lemma recovering_refl:
  "keys_ok (db_producers d) \<Longrightarrow> producer_ids_ok d \<Longrightarrow> recovering d now d"
  by (simp add: recovering_def)

lemma listed_producers:
  assumes "p \<in> set (listVodProducers d n)"
  shows "\<exists>k r. (k, r) \<in> set (db_producers d) \<and> row_json r = p"
  using assms set_sql_limit[of n "jsons (order_desc (\<lambda>p. row_date (snd p)) (db_producers d))"]
  by (force simp: listVodProducers_def jsons_def)

lemma all_listed:
  assumes "length (db_producers d) \<le> 1000" and "(k, r) \<in> set (db_producers d)"
  shows "row_json r \<in> set (listVodProducers d 1000)"
proof -
  have "listVodProducers d 1000 = jsons (order_desc (\<lambda>p. row_date (snd p)) (db_producers d))"
    using assms(1) by (simp add: listVodProducers_def sql_limit_def jsons_def order_desc_def)
  then show ?thesis using assms(2) by (force simp: jsons_def)
qed

lemma recoverExpired_quiet:
  assumes keys: "keys_ok (db_producers d)" and ids: "producer_ids_ok d"
    and "length (db_producers d) \<le> 1000"
  shows "\<exists>n d'. recoverExpired quiet clock now d = (d', resolve n) \<and> recovering d now d' \<and>
           (\<forall>k. \<not> expired_row d' now k)"
proof -
  have "\<exists>r. map_of (db_producers d) (prod_sessionId p) = Some r \<and> row_json r = p"
    if p: "p \<in> set (listVodProducers d 1000)" for p
  proof -
    obtain k r where r: "(k, r) \<in> set (db_producers d)" "row_json r = p" using listed_producers[OF p] by blast
    then have "map_of (db_producers d) k = Some r" using map_of_is_SomeI[OF keys] by blast
    moreover from this r(2) ids have "prod_sessionId p = k" by (auto simp: producer_ids_ok_def)
    ultimately show ?thesis using r(2) by blast
  qed
  then obtain n d' where run: "recoverExpired quiet clock now d = (d', resolve n)" "recovering d now d'"
      "\<forall>p \<in> set (listVodProducers d 1000). \<not> expired_row d' now (prod_sessionId p)"
      "\<forall>k. \<not> expired_row d now k \<longrightarrow> \<not> expired_row d' now k"
    using recover_listed_quiet[OF recovering_refl[OF keys ids],
        where ps = "listVodProducers d 1000" and now = now and clock = clock and j = 0 and m = 0]
    unfolding recoverExpired_def by blast
  have "\<not> expired_row d' now k" for k
  proof (cases "expired_row d now k")
    case True
    then obtain r where r: "map_of (db_producers d) k = Some r" by (auto simp: expired_row_def)
    then have "row_json r \<in> set (listVodProducers d 1000)"
      using all_listed[OF assms(3)] map_of_SomeD by fastforce
    moreover have "prod_sessionId (row_json r) = k" using ids r by (simp add: producer_ids_ok_def)
    ultimately show ?thesis using run(3) by blast
  qed (use run(4) in blast)
  with run(1,2) show ?thesis by blast
qed

section \<open>What a start guarantees\<close>

text \<open>A conditional start wrote its row; a start that creates the row may not have.\<close>

lemma store_start_cas:
  assumes "keys_ok (db_producers d)" and "store_start d row (Some c) = (d', resolve ())"
  shows "\<exists>r. map_of (db_producers d) (prod_sessionId row) = Some r \<and> row_revision r = vr_revision c \<and>
             prod_state (row_json r) \<in> set STARTABLE_STATES \<and>
             map_of (db_producers d') = (map_of (db_producers d))(prod_sessionId row \<mapsto> bump_row row (prod_updatedAt row) r)"
proof -
  let ?cas = "compareAndSetVodProducer d row (vr_revision c) STARTABLE_STATES"
  have res: "snd ?cas = resolve
    (case map_of (db_producers d) (prod_sessionId row) of
       None \<Rightarrow> Rejected NotFound None []
     | Some r \<Rightarrow>
         if row_revision r \<noteq> vr_revision c then Rejected RevisionConflict (Some (versioned (row_json r) (row_revision r))) []
         else if prod_state (row_json r) \<in> set STARTABLE_STATES then Applied (versioned row (Suc (vr_revision c)))
         else Rejected InvalidState (Some (versioned (row_json r) (row_revision r))) [])"
    by (rule cas_producer_result[OF assms(1)]) simp
  from assms(2) obtain v where v: "?cas = (d', Inr (Applied v))"
    by (auto simp: store_start_def split: prod.splits sum.splits write_result.splits)
  with res obtain r where r: "map_of (db_producers d) (prod_sessionId row) = Some r"
    "row_revision r = vr_revision c" "prod_state (row_json r) \<in> set STARTABLE_STATES"
    by (auto split: option.splits if_splits)
  have "map_of (db_producers (fst ?cas)) k =
      ((map_of (db_producers d))(prod_sessionId row \<mapsto> bump_row row (prod_updatedAt row) r)) k" for k
    using r by (simp add: cas_producer_row cas_cond_def option.map_ident)
  then have "map_of (db_producers (fst ?cas)) =
      (map_of (db_producers d))(prod_sessionId row \<mapsto> bump_row row (prod_updatedAt row) r)"
    by (rule ext)
  with v r show ?thesis by auto
qed

lemma store_start_create_existing:
  assumes "map_of (db_producers d) (prod_sessionId row) = Some r"
  shows "store_start d row None = (fst (createVodProducer d row), resolve ())"
    and "map_of (db_producers (fst (createVodProducer d row))) = map_of (db_producers d)"
proof -
  have "snd (createVodProducer d row) = resolve (False, versioned (row_json r) (row_revision r))"
    using assms by (simp add: createVodProducer_def sql_insert_or_ignore_def get_versioned_def)
  then show "store_start d row None = (fst (createVodProducer d row), resolve ())"
    by (simp add: store_start_def case_prod_beta)
  show "map_of (db_producers (fst (createVodProducer d row))) = map_of (db_producers d)"
    using assms by (intro ext) (auto simp: create_producer_row)
qed

text \<open>The other actors leave the lease and the reservations of this start alone.\<close>

definition calm :: "start_env \<Rightarrow> ident \<Rightarrow> bool" where
  "calm e sessionId \<longleftrightarrow>
     (\<forall>i st. map_of (co_leases (se_co e i st)) (lease_key sessionId) = map_of (co_leases st) (lease_key sessionId)) \<and>
     (\<forall>i c. vc_reservations (se_vc e i c) = vc_reservations c)"

definition lease_of :: "start_world \<Rightarrow> ident \<Rightarrow> lease option" where
  "lease_of w sessionId = map_of (co_leases (sw_co w)) (lease_key sessionId)"

lemma interfere_calm:
  assumes "calm e s"
  shows "lease_of (interfere e i w) s = lease_of w s"
    "vc_reservations (sw_vc (interfere e i w)) = vc_reservations (sw_vc w)"
  using assms by (simp_all add: calm_def interfere_def lease_of_def)

definition exit_ok :: "start_world \<Rightarrow> ident \<Rightarrow> ident \<Rightarrow> ident \<Rightarrow> start_exit \<Rightarrow> bool" where
  "exit_ok w s providerId owner x \<longleftrightarrow>
     (if ex_handedOff x
      then ex_leaseOwned x \<and>
           (\<exists>a. ex_result x = resolve (Some a) \<and> act_owner a = owner \<and> act_providerId a = providerId \<and>
                map_of (vc_active (sw_vc (ex_world x))) s = Some a) \<and>
           vc_reservations (sw_vc (ex_world x)) = vc_reservations (releaseReservation (sw_vc w) providerId)
      else (\<forall>a. ex_result x \<noteq> resolve (Some a)) \<and>
           vc_reservations (sw_vc (ex_world x)) = vc_reservations (sw_vc w))"

lemma reservations_release_cong:
  "vc_reservations c = vc_reservations c' \<Longrightarrow>
     vc_reservations (releaseReservation c p) = vc_reservations (releaseReservation c' p)"
  by (simp add: releaseReservation_def reserved_for_def Let_def)

lemma hand_off_simps:
  "map_of (vc_active (hand_off c s a)) s = Some a"
  "vc_reservations (hand_off c s a) = vc_reservations (releaseReservation c (act_providerId a))"
  by (simp_all add: hand_off_def update_conv' releaseReservation_def reserved_for_def Let_def)

lemma new_active_simps [simp]:
  "act_owner (new_active row owner p i l pc t t' st) = owner"
  "act_providerId (new_active row owner p i l pc t t' st) = p"
  "act_generation (new_active row owner p i l pc t t' st) = prod_generation row"
  by (simp_all add: new_active_def)

lemma start_write_exit:
  assumes calm: "calm e (ses_id s)"
  shows "exit_ok w (ses_id s) providerId owner (start_write opts e s providerId i owner current w)"
    and "lease_of (ex_world (start_write opts e s providerId i owner current w)) (ses_id s) = lease_of w (ses_id s)"
    and "ex_leaseOwned (start_write opts e s providerId i owner current w)"
proof -
  define row where "row = start_row opts (ses_id s) i (map_option vr_value current)
                  (se_clock e 2) (se_clock e 3) (se_clock e 4)"
  define st where "st = store_start (sw_db (interfere e 4 w)) row current"
  define w2 where "w2 = interfere e 5 ((interfere e 4 w)\<lparr>sw_db := fst st\<rparr>)"
  define a where "a p = new_active row owner providerId i (ses_placementLocked s) p
                           (se_clock e 2) (se_clock e 5) (se_stopState e)" for p
  have eq: "start_write opts e s providerId i owner current w =
    (case snd st of
       Inl err \<Rightarrow> \<lparr>ex_world = w2, ex_result = throw err, ex_leaseOwned = True, ex_persisted = None, ex_handedOff = False\<rparr>
     | Inr _ \<Rightarrow>
         if se_aborted e 3
         then \<lparr>ex_world = w2, ex_result = resolve None, ex_leaseOwned = True,
               ex_persisted = Some (prod_generation row), ex_handedOff = False\<rparr>
         else case new_pacer (catchup_limit opts) of
           Inl err \<Rightarrow> \<lparr>ex_world = w2, ex_result = throw err, ex_leaseOwned = True,
               ex_persisted = Some (prod_generation row), ex_handedOff = False\<rparr>
         | Inr p \<Rightarrow> \<lparr>ex_world = w2\<lparr>sw_vc := hand_off (sw_vc w2) (ses_id s) (a p)\<rparr>, ex_result = resolve (Some (a p)),
               ex_leaseOwned = True, ex_persisted = Some (prod_generation row), ex_handedOff = True\<rparr>)"
    unfolding start_write_def Let_def case_prod_beta row_def st_def w2_def a_def
    by (simp split: sum.split)
  have res: "vc_reservations (sw_vc w2) = vc_reservations (sw_vc w)"
    using interfere_calm(2)[OF calm] by (simp add: w2_def)
  have lease: "lease_of w2 (ses_id s) = lease_of w (ses_id s)"
  proof -
    have "lease_of w2 (ses_id s) = lease_of ((interfere e 4 w)\<lparr>sw_db := fst st\<rparr>) (ses_id s)"
      unfolding w2_def by (rule interfere_calm(1)[OF calm])
    also have "\<dots> = lease_of (interfere e 4 w) (ses_id s)" by (simp add: lease_of_def)
    finally show ?thesis using interfere_calm(1)[OF calm] by simp
  qed
  show "exit_ok w (ses_id s) providerId owner (start_write opts e s providerId i owner current w)"
    unfolding eq using res
    by (auto simp: exit_ok_def hand_off_simps a_def intro: reservations_release_cong split: sum.split)
  show "lease_of (ex_world (start_write opts e s providerId i owner current w)) (ses_id s) = lease_of w (ses_id s)"
    unfolding eq using lease by (auto simp: lease_of_def split: sum.split)
  show "ex_leaseOwned (start_write opts e s providerId i owner current w)"
    unfolding eq by (auto split: sum.split)
qed

text \<open>The whole \<^verbatim>\<open>try\<close> block: what it leaves to the \<^verbatim>\<open>finally\<close> block.\<close>

lemma exit_ok_cong:
  "vc_reservations (sw_vc w) = vc_reservations (sw_vc w') \<Longrightarrow> exit_ok w s p owner x = exit_ok w' s p owner x"
  using reservations_release_cong[of "sw_vc w" "sw_vc w'" p] by (simp add: exit_ok_def)

lemma start_try_exit:
  fixes e :: start_env and s :: relay_session and owner providerId :: ident and w :: start_world
    and opts :: coordinator_options and readSession :: "db \<Rightarrow> ident \<Rightarrow> relay_session option" and i :: int
  assumes calm: "calm e (ses_id s)"
  defines "ms \<equiv> coalesce (vpo_leaseMs opts) LEASE_MS"
    and "x \<equiv> start_try opts e readSession s providerId i owner w"
  shows "exit_ok w (ses_id s) providerId owner x"
    and "ex_leaseOwned x \<Longrightarrow> lease_of (ex_world x) (ses_id s) =
           Some \<lparr>lease_owner = owner, lease_expiresAt = se_clock e 1 + ms\<rparr>"
    and "\<not> ex_leaseOwned x \<Longrightarrow> lease_of (ex_world x) (ses_id s) = lease_of w (ses_id s)"
proof -
  define w1 where "w1 = interfere e 0 w"
  define acq where "acq = acquire (sw_co w1) (se_clock e 0) (se_clock e 1) (lease_key (ses_id s)) owner ms"
  define w2 where "w2 = interfere e 1 (w1\<lparr>sw_co := fst acq\<rparr>)"
  define w3 where "w3 = interfere e 2 w2"
  define w4 where "w4 = interfere e 3 w3"
  define leave where "leave = (\<lambda>world r. \<lparr>ex_world = world, ex_result = r, ex_leaseOwned = snd acq,
                             ex_persisted = None, ex_handedOff = False\<rparr>)"
  define go where "go c = start_write opts e (c\<lparr>ses_id := ses_id s\<rparr>) providerId i owner
      (getVersionedVodProducer (sw_db w3) (ses_id s)) w4" for c :: relay_session
  have eq: "x =
    (if \<not> snd acq \<or> se_aborted e 0 then leave w2 (resolve None)
     else if se_aborted e 1 then leave w3 (resolve None)
     else case readSession (sw_db w2) (ses_id s) of
        None \<Rightarrow> leave w3 (throw NotFoundError)
      | Some c \<Rightarrow>
          if ses_state c = SessionStopped then leave w3 (throw ConflictError)
          else if \<not> truthy (session_provider c) then leave w3 (throw CapacityError)
          else if session_provider c \<noteq> Some providerId then leave w3 (throw ConflictError)
          else if locked_elsewhere opts c then leave w3 (throw CapacityError)
          else if se_aborted e 2 then leave w4 (resolve None) else go c)"
    unfolding x_def start_try_def Let_def case_prod_beta ms_def[symmetric] w1_def[symmetric]
      acq_def[symmetric] w2_def[symmetric] w3_def[symmetric] w4_def[symmetric] go_def leave_def
    by (rule refl)
  note calms = interfere_calm[OF calm]
  have vc: "vc_reservations (sw_vc w2) = vc_reservations (sw_vc w)"
    "vc_reservations (sw_vc w3) = vc_reservations (sw_vc w)" "vc_reservations (sw_vc w4) = vc_reservations (sw_vc w)"
    by (simp_all add: w4_def w3_def w2_def w1_def calms)
  have lease2: "lease_of w2 (ses_id s) = map_of (co_leases (fst acq)) (lease_key (ses_id s))"
    unfolding w2_def calms(1) by (simp add: lease_of_def)
  have lease34: "lease_of w3 (ses_id s) = lease_of w2 (ses_id s)" "lease_of w4 (ses_id s) = lease_of w2 (ses_id s)"
    by (simp_all add: w4_def w3_def calms)
  have granted: "lease_of w2 (ses_id s) = Some \<lparr>lease_owner = owner, lease_expiresAt = se_clock e 1 + ms\<rparr>" if "snd acq"
    using that by (auto simp: lease2 acq_def acquire_cases update_conv' split: if_splits)
  have refused: "lease_of w2 (ses_id s) = lease_of w (ses_id s)" if "\<not> snd acq"
  proof -
    have "fst acq = sw_co w1" using that leases.acq_refused unfolding acq_def by blast
    with calms(1)[of 0 w] show ?thesis unfolding lease2 by (simp add: lease_of_def w1_def)
  qed
  have leaving: "exit_ok w (ses_id s) providerId owner (leave v r)"
    if "vc_reservations (sw_vc v) = vc_reservations (sw_vc w)" "\<And>a. r \<noteq> resolve (Some a)" for v r
    using that by (simp add: exit_ok_def leave_def)
  have wrote: "exit_ok w4 (ses_id s) providerId owner (go c)"
    "lease_of (ex_world (go c)) (ses_id s) = lease_of w4 (ses_id s)" "ex_leaseOwned (go c)" for c
    using start_write_exit[of e "c\<lparr>ses_id := ses_id s\<rparr>"] calm by (simp_all add: go_def)
  have gone: "exit_ok w (ses_id s) providerId owner (go c)" for c
    using wrote(1) exit_ok_cong[OF vc(3)] by blast
  have cases: "(\<exists>v r. x = leave v r \<and> (\<forall>a. r \<noteq> resolve (Some a)) \<and> v \<in> {w2, w3, w4}) \<or>
      (snd acq \<and> (\<exists>c. x = go c))"
    unfolding eq by (simp split: option.split) blast
  show "exit_ok w (ses_id s) providerId owner x"
    using cases leaving gone vc by auto
  show "ex_leaseOwned x \<Longrightarrow> lease_of (ex_world x) (ses_id s) =
           Some \<lparr>lease_owner = owner, lease_expiresAt = se_clock e 1 + ms\<rparr>"
    using cases granted lease34 wrote(2) by (auto simp: leave_def)
  show "\<not> ex_leaseOwned x \<Longrightarrow> lease_of (ex_world x) (ses_id s) = lease_of w (ses_id s)"
    using cases refused lease34 wrote(3) by (auto simp: leave_def)
qed

lemma reserve_then_release:
  assumes "reserveProducer opts c p = (c', True)" and "distinct (map fst (vc_reservations c))"
    and "vc_reservations c'' = vc_reservations c'"
  shows "reserved_for (releaseReservation c'' p) q = reserved_for c q"
proof -
  have c': "vc_reservations c' = AList.update p (reserved_for c p + 1) (vc_reservations c)"
    using assms(1) by (auto simp: reserveProducer_def Let_def split: if_splits)
  then have "distinct (map fst (vc_reservations c''))" using assms(2,3) by (simp add: distinct_update)
  from reserved_for_release(1)[OF this, of p q] show ?thesis
    using assms(3) c' by (simp add: reserved_for_def update_conv')
qed

lemma reserved_for_cong: "vc_reservations c = vc_reservations c' \<Longrightarrow> reserved_for c q = reserved_for c' q"
  by (simp add: reserved_for_def)

lemma startExclusive_outcome:
  fixes e :: start_env and s :: relay_session and owner :: ident
  assumes calm: "calm e (ses_id s)" and distinct: "distinct (map fst (vc_reservations (sw_vc w)))"
    and fresh: "map_option lease_owner (lease_of w (ses_id s)) \<noteq> Some owner"
    and run: "startExclusive opts e readSession s i owner w = (w', r)"
  shows "reserved_for (sw_vc w') q = reserved_for (sw_vc w) q"
    and "r = resolve (Some a) \<Longrightarrow>
           act_owner a = owner \<and> map_of (vc_active (sw_vc w')) (ses_id s) = Some a \<and>
           lease_of w' (ses_id s) = Some \<lparr>lease_owner = owner,
             lease_expiresAt = se_clock e 1 + coalesce (vpo_leaseMs opts) LEASE_MS\<rparr>"
    and "(\<And>a. r \<noteq> resolve (Some a)) \<Longrightarrow> map_option lease_owner (lease_of w' (ses_id s)) \<noteq> Some owner"
proof -
  define p where "p = the (session_provider s)"
  obtain vc ok where vc: "reserveProducer opts (sw_vc w) p = (vc, ok)" by fastforce
  have "reserved_for (sw_vc w') q = reserved_for (sw_vc w) q \<and>
    (\<forall>a. r = resolve (Some a) \<longrightarrow>
       act_owner a = owner \<and> map_of (vc_active (sw_vc w')) (ses_id s) = Some a \<and>
       lease_of w' (ses_id s) = Some \<lparr>lease_owner = owner,
         lease_expiresAt = se_clock e 1 + coalesce (vpo_leaseMs opts) LEASE_MS\<rparr>) \<and>
    ((\<forall>a. r \<noteq> resolve (Some a)) \<longrightarrow> map_option lease_owner (lease_of w' (ses_id s)) \<noteq> Some owner)"
  proof (cases "truthy (session_provider s) \<and> \<not> locked_elsewhere opts s \<and> ok")
    case False
    then have "w' = w \<and> (\<forall>a. r \<noteq> resolve (Some a))"
      using run vc by (auto simp: startExclusive_def Let_def p_def[symmetric] split: if_splits)
    then show ?thesis using fresh by auto
  next
    case True
    define w1 where "w1 = w\<lparr>sw_vc := vc\<rparr>"
    define x where "x = start_try opts e readSession s p i owner w1"
    have w': "w' = start_finally e (ses_id s) p owner x"
      and r: "r = (case ex_result x of Inl err \<Rightarrow> if se_aborted e 4 then resolve None else throw err
                 | Inr r \<Rightarrow> resolve r)"
      using run vc True by (simp_all add: startExclusive_def Let_def p_def[symmetric] w1_def[symmetric] x_def[symmetric])
    note left_by = start_try_exit[OF calm, where opts = opts and readSession = readSession and providerId = p
        and i = i and owner = owner and w = w1, folded x_def]
    have reserved: "reserveProducer opts (sw_vc w) p = (vc, True)" using vc True by simp
    have lease1: "lease_of w1 (ses_id s) = lease_of w (ses_id s)" by (simp add: w1_def lease_of_def)
    show ?thesis
    proof (cases "ex_handedOff x")
      case handed: True
      then have w'x: "w' = ex_world x" by (simp add: w' start_finally_def)
      from left_by(1) handed obtain a where a: "ex_leaseOwned x" "ex_result x = resolve (Some a)" "act_owner a = owner"
        "map_of (vc_active (sw_vc (ex_world x))) (ses_id s) = Some a"
        and res: "vc_reservations (sw_vc (ex_world x)) = vc_reservations (releaseReservation (sw_vc w1) p)"
        by (auto simp: exit_ok_def)
      have "reserved_for (sw_vc w') q = reserved_for (sw_vc w) q"
        using reserve_then_release[OF reserved distinct, of "sw_vc w1" q] reserved_for_cong[OF res, of q]
        by (simp add: w'x w1_def)
      then show ?thesis using a left_by(2)[OF a(1)] r by (simp add: w'x)
    next
      case kept: False
      with left_by(1) have no: "\<And>a. ex_result x \<noteq> resolve (Some a)"
        and res: "vc_reservations (sw_vc (ex_world x)) = vc_reservations (sw_vc w1)"
        by (auto simp: exit_ok_def)
      have co: "sw_co w' = (if ex_leaseOwned x then release (sw_co (ex_world x)) (lease_key (ses_id s)) owner
                            else sw_co (ex_world x))"
        and sw: "sw_vc w' = releaseReservation (sw_vc (ex_world x)) p"
        using kept by (simp_all add: w' start_finally_def Let_def split: option.split)
      have "reserved_for (sw_vc w') q = reserved_for (sw_vc w) q"
        unfolding sw by (rule reserve_then_release[OF reserved distinct]) (simp add: res w1_def)
      moreover have "map_option lease_owner (lease_of w' (ses_id s)) \<noteq> Some owner"
      proof (cases "ex_leaseOwned x")
        case True
        then show ?thesis using left_by(2) unfolding lease_of_def co
          by (simp add: release_def lease_of_def delete_conv')
      next
        case False
        then show ?thesis using left_by(3) fresh lease1 by (simp add: lease_of_def co)
      qed
      moreover have "\<forall>a. r \<noteq> resolve (Some a)" unfolding r using no by (cases "ex_result x") auto
      ultimately show ?thesis by blast
    qed
  qed
  then show "reserved_for (sw_vc w') q = reserved_for (sw_vc w) q"
    and "r = resolve (Some a) \<Longrightarrow>
           act_owner a = owner \<and> map_of (vc_active (sw_vc w')) (ses_id s) = Some a \<and>
           lease_of w' (ses_id s) = Some \<lparr>lease_owner = owner,
             lease_expiresAt = se_clock e 1 + coalesce (vpo_leaseMs opts) LEASE_MS\<rparr>"
    and "(\<And>a. r \<noteq> resolve (Some a)) \<Longrightarrow> map_option lease_owner (lease_of w' (ses_id s)) \<noteq> Some owner"
    by blast+
qed

end
