(* ===== verification/RelayJobs.thy ===== *)
theory RelayJobs
  imports RelayHistory RelayPacing
begin

text \<open>
  The segment jobs of \<^verbatim>\<open>packages/application/src/session-jobs.ts\<close>, for a coordinator that
  has a cluster repository: the optimistic transitions of a job with the writes of other
  actors between every read and write, the distributed generation with its bounded
  attempts, and the choice of remote workers. Metrics, events and log entries are not
  part of the state; the limits of the log are.
\<close>

section \<open>Errors\<close>

text \<open>\<^verbatim>\<open>SegmentJobCancelledError\<close>, and every other error with its class and message.\<close>

datatype job_error = JobCancelledError | JobError app_error string

type_synonym 'a job_outcome = "job_error + 'a"

definition failureKind :: "job_error \<Rightarrow> string" where
  "failureKind e =
     (case e of
        JobError CapacityError _ \<Rightarrow> ''capacity''
      | JobError ConflictError _ \<Rightarrow> ''conflict''
      | JobError NotFoundError _ \<Rightarrow> ''not_found''
      | JobError UnauthorizedError _ \<Rightarrow> ''unauthorized''
      | _ \<Rightarrow> ''error'')"

definition error_message :: "job_error \<Rightarrow> string" where
  "error_message e = (case e of JobCancelledError \<Rightarrow> ''Segment job was cancelled'' | JobError _ m \<Rightarrow> m)"

definition MAX_ATOMIC_WRITE_ATTEMPTS :: nat where
  "MAX_ATOMIC_WRITE_ATTEMPTS = 5"

section \<open>Attempts\<close>

definition finishLatestAttempt ::
    "segment_job \<Rightarrow> attempt_state \<Rightarrow> string option \<Rightarrow> instant \<Rightarrow> segment_job" where
  "finishLatestAttempt j st errorMessage now =
     (let h = job_workerHistory j
      in if h \<noteq> [] \<and> jatt_state (last h) = AttemptRunning
         then j\<lparr>job_workerHistory := butlast h @
                 [(last h)\<lparr>jatt_state := st, jatt_completedAt := Some now,
                           jatt_errorMessage := (if truthy errorMessage then errorMessage
                                                 else jatt_errorMessage (last h))\<rparr>]\<rparr>
         else j)"

definition start_attempt :: "nat \<Rightarrow> ident option \<Rightarrow> ident \<Rightarrow> instant \<Rightarrow> instant \<Rightarrow> segment_job \<Rightarrow> segment_job" where
  "start_attempt attempt owner nodeId now now' j =
     j\<lparr>job_ownerNodeId := owner, job_attempts := attempt,
       job_workerHistory := job_workerHistory j @
         [\<lparr>jatt_attempt = attempt, jatt_nodeId = nodeId, jatt_state = AttemptRunning,
           jatt_startedAt = now, jatt_completedAt = None, jatt_errorMessage = None\<rparr>],
       job_updatedAt := now'\<rparr>"

section \<open>Optimistic loops\<close>

text \<open>
  The loops of the coordinator have one shape: read the job, decide, and write it back with
  its revision; \<open>env (2 * i)\<close> are the operations of others before the read of attempt \<open>i\<close>
  and \<open>env (2 * i + 1)\<close> those before its write. \<open>decide\<close> either ends the loop without a
  write or gives the new document with the states the write allows; \<open>settle\<close> turns the
  result of a write that lost into the end of the loop or another attempt.
\<close>

datatype 'r decision = Leave 'r | Write segment_job "job_state list"

definition job_attempt ::
    "(nat \<Rightarrow> repo_op list) \<Rightarrow> (nat \<Rightarrow> instant) \<Rightarrow> ident \<Rightarrow>
       (instant \<Rightarrow> segment_job versioned option \<Rightarrow> 'r decision) \<Rightarrow>
       (segment_job versioned \<Rightarrow> 'r) \<Rightarrow>
       (segment_job versioned option \<Rightarrow> failure_reason \<Rightarrow> segment_job versioned option \<Rightarrow> 'r option) \<Rightarrow>
       (app_error \<Rightarrow> 'r) \<Rightarrow> nat \<Rightarrow> db \<Rightarrow> db \<times> 'r option" where
  "job_attempt env clock jobId decide applied settle failed i d =
     (let d1 = run_ops (env (2 * i)) d;
          current = getVersionedSegmentJob d1 jobId
      in case decide (clock i) current of
           Leave r \<Rightarrow> (d1, Some r)
         | Write j allowed \<Rightarrow>
             let d2 = run_ops (env (2 * i + 1)) d1;
                 (d3, result) = compareAndSetSegmentJob d2 j
                                  (case current of None \<Rightarrow> 0 | Some c \<Rightarrow> vr_revision c) allowed
             in (d3,
                 case result of
                   Inl e \<Rightarrow> Some (failed e)
                 | Inr (Applied record) \<Rightarrow> Some (applied record)
                 | Inr (Rejected reason cur _) \<Rightarrow> settle current reason cur))"

definition is_terminal :: "job_state \<Rightarrow> bool" where
  "is_terminal st \<longleftrightarrow> st = JobComplete \<or> st = JobFailed \<or> st = JobCancelled"

definition job_lease_live :: "segment_job \<Rightarrow> instant \<Rightarrow> bool" where
  "job_lease_live j now = (case job_leaseExpiresAt j of None \<Rightarrow> False | Some t \<Rightarrow> t > now)"

subsection \<open>Recovery\<close>

definition requeued_job :: "instant \<Rightarrow> segment_job \<Rightarrow> segment_job" where
  "requeued_job now j =
     (finishLatestAttempt j AttemptFailed (Some ''Recovered expired segment job lease'') now)
       \<lparr>job_state := JobQueued, job_ownerNodeId := None, job_leaseExpiresAt := None,
        job_errorMessage := None, job_updatedAt := now\<rparr>"

definition job_expired :: "instant \<Rightarrow> segment_job \<Rightarrow> bool" where
  "job_expired now j \<longleftrightarrow> (job_state j = JobLeased \<or> job_state j = JobRunning) \<and> \<not> job_lease_live j now"

definition recover_decide :: "instant \<Rightarrow> instant \<Rightarrow> segment_job versioned option \<Rightarrow> bool job_outcome decision" where
  "recover_decide now t current =
     (case current of
        None \<Rightarrow> Leave (Inr False)
      | Some c \<Rightarrow> if \<not> job_expired now (vr_value c) then Leave (Inr False)
                  else Write (requeued_job t (vr_value c)) [JobLeased, JobRunning])"

definition recover_settle ::
    "segment_job versioned option \<Rightarrow> failure_reason \<Rightarrow> segment_job versioned option \<Rightarrow> bool job_outcome option" where
  "recover_settle read reason cur =
     (if reason = NotFound \<or> reason = InvalidState then Some (Inr False) else None)"

definition write_failed :: "app_error \<Rightarrow> 'a job_outcome" where
  "write_failed e = Inl (JobError e ''Segment job write was invalid'')"

text \<open>The result says whether the job was requeued.\<close>

definition recover_job ::
    "(nat \<Rightarrow> repo_op list) \<Rightarrow> (nat \<Rightarrow> instant) \<Rightarrow> instant \<Rightarrow> ident \<Rightarrow> db \<Rightarrow> db \<times> bool job_outcome" where
  "recover_job env clock now jobId d =
     retry 0 MAX_ATOMIC_WRITE_ATTEMPTS
       (job_attempt env clock jobId (recover_decide now) (\<lambda>_. Inr True) recover_settle write_failed)
       (Inl (JobError ConflictError ''Segment job recovery conflicted with repeated concurrent updates'')) d"

fun recover_jobs ::
    "(nat \<Rightarrow> nat \<Rightarrow> repo_op list) \<Rightarrow> (nat \<Rightarrow> nat \<Rightarrow> instant) \<Rightarrow> instant \<Rightarrow> segment_job list \<Rightarrow> nat \<Rightarrow> nat \<Rightarrow>
       db \<Rightarrow> db \<times> nat job_outcome" where
  "recover_jobs env clock now [] k recovered d = (d, Inr recovered)"
| "recover_jobs env clock now (j # js) k recovered d =
     (if \<not> job_expired now j then recover_jobs env clock now js (Suc k) recovered d
      else case recover_job (env k) (clock k) now (job_id j) d of
        (d', Inl e) \<Rightarrow> (d', Inl e)
      | (d', Inr b) \<Rightarrow> recover_jobs env clock now js (Suc k) (if b then recovered + 1 else recovered) d')"

definition recoverExpiredJobs ::
    "(nat \<Rightarrow> nat \<Rightarrow> repo_op list) \<Rightarrow> (nat \<Rightarrow> nat \<Rightarrow> instant) \<Rightarrow> instant \<Rightarrow> db \<Rightarrow> db \<times> nat job_outcome" where
  "recoverExpiredJobs env clock now d = recover_jobs env clock now (listSegmentJobs d 1000) 0 0 d"

subsection \<open>Cancellation and manual retry\<close>

definition cancelled_job :: "instant \<Rightarrow> segment_job \<Rightarrow> segment_job" where
  "cancelled_job now j =
     (finishLatestAttempt j AttemptCancelled (Some ''Cancelled by an administrator'') now)
       \<lparr>job_state := JobCancelled, job_leaseExpiresAt := None, job_updatedAt := now\<rparr>"

definition cancel_decide :: "instant \<Rightarrow> segment_job versioned option \<Rightarrow> ident option job_outcome decision" where
  "cancel_decide t current =
     (case current of
        None \<Rightarrow> Leave (Inr None)
      | Some c \<Rightarrow> if is_terminal (job_state (vr_value c)) then Leave (Inr None)
                  else Write (cancelled_job t (vr_value c)) [JobQueued, JobLeased, JobRunning, JobFailed])"

definition cancel_settle ::
    "segment_job versioned option \<Rightarrow> failure_reason \<Rightarrow> segment_job versioned option \<Rightarrow> ident option job_outcome option"
  where
  "cancel_settle read reason cur =
     (if reason = NotFound \<or> reason = InvalidState then Some (Inr None) else None)"

definition other_owner :: "ident option \<Rightarrow> segment_job \<Rightarrow> ident option" where
  "other_owner localNode j =
     (if truthy (job_ownerNodeId j) \<and> job_ownerNodeId j \<noteq> localNode then job_ownerNodeId j else None)"

text \<open>
  The result is the node whose worker is told to stop: the owner, when it is another node.
  The write is \<^verbatim>\<open>cancelSegmentJob\<close>, a conditional write with the four states below.
\<close>

definition cancelJob ::
    "(nat \<Rightarrow> repo_op list) \<Rightarrow> (nat \<Rightarrow> instant) \<Rightarrow> ident option \<Rightarrow> ident \<Rightarrow> db \<Rightarrow> db \<times> ident option job_outcome" where
  "cancelJob env clock localNode jobId d =
     retry 0 MAX_ATOMIC_WRITE_ATTEMPTS
       (job_attempt env clock jobId cancel_decide (\<lambda>record. Inr (other_owner localNode (vr_value record)))
          cancel_settle write_failed)
       (Inl (JobError ConflictError ''Job cancellation conflicted with repeated concurrent updates'')) d"

definition retried_job :: "instant \<Rightarrow> segment_job \<Rightarrow> segment_job" where
  "retried_job now j =
     j\<lparr>job_state := JobQueued, job_attempts := 0, job_ownerNodeId := None,
       job_leaseExpiresAt := None, job_completedAt := None, job_errorMessage := None,
       job_updatedAt := now\<rparr>"

definition job_missing :: "'a job_outcome" where
  "job_missing = Inl (JobError NotFoundError ''Segment job was not found'')"

definition not_retryable :: "'a job_outcome" where
  "not_retryable = Inl (JobError ConflictError ''Only failed or cancelled segment jobs can be retried'')"

definition retry_decide :: "instant \<Rightarrow> segment_job versioned option \<Rightarrow> segment_job job_outcome decision" where
  "retry_decide t current =
     (case current of
        None \<Rightarrow> Leave job_missing
      | Some c \<Rightarrow> if job_state (vr_value c) \<noteq> JobFailed \<and> job_state (vr_value c) \<noteq> JobCancelled
                  then Leave not_retryable
                  else Write (retried_job t (vr_value c)) [JobFailed, JobCancelled])"

definition retry_settle ::
    "segment_job versioned option \<Rightarrow> failure_reason \<Rightarrow> segment_job versioned option \<Rightarrow> segment_job job_outcome option"
  where
  "retry_settle read reason cur =
     (if reason = NotFound then Some job_missing
      else if reason = InvalidState then Some not_retryable else None)"

definition retryJobTransition ::
    "(nat \<Rightarrow> repo_op list) \<Rightarrow> (nat \<Rightarrow> instant) \<Rightarrow> ident \<Rightarrow> db \<Rightarrow> db \<times> segment_job job_outcome" where
  "retryJobTransition env clock jobId d =
     retry 0 MAX_ATOMIC_WRITE_ATTEMPTS
       (job_attempt env clock jobId retry_decide (\<lambda>record. Inr (vr_value record)) retry_settle write_failed)
       (Inl (JobError ConflictError ''Job retry conflicted with repeated concurrent updates'')) d"

subsection \<open>Start, transition, completion and failure\<close>

definition restarted_job :: "segment_job \<Rightarrow> segment_job \<Rightarrow> segment_job" where
  "restarted_job initial cur =
     initial\<lparr>job_attempts := job_attempts cur, job_workerHistory := job_workerHistory cur,
             job_createdAt := job_createdAt cur\<rparr>"

text \<open>
  The first attempt uses the record of the creation, which was read when the creation ran;
  a missing row goes on with the next attempt.
\<close>

definition start_attempts ::
    "(nat \<Rightarrow> repo_op list) \<Rightarrow> segment_job \<Rightarrow> segment_job versioned \<Rightarrow> nat \<Rightarrow> db \<Rightarrow>
       db \<times> segment_job job_outcome option" where
  "start_attempts env initial created i d =
     (let d1 = run_ops (env (2 * i)) d
      in case (if i = 0 then Some created else getVersionedSegmentJob d1 (job_id initial)) of
           None \<Rightarrow> (d1, Some job_missing)
         | Some c \<Rightarrow>
             if job_state (vr_value c) = JobCancelled then (d1, Some (Inl JobCancelledError))
             else
               let d2 = run_ops (env (2 * i + 1)) d1;
                   (d3, result) = compareAndSetSegmentJob d2 (restarted_job initial (vr_value c)) (vr_revision c)
                                    [JobQueued, JobLeased, JobRunning, JobFailed, JobComplete]
               in (d3,
                   case result of
                     Inl e \<Rightarrow> Some (write_failed e)
                   | Inr (Applied record) \<Rightarrow> Some (Inr (vr_value record))
                   | Inr (Rejected reason cur _) \<Rightarrow>
                       if reason = InvalidState
                       then Some (Inl (if map_option (\<lambda>v. job_state (vr_value v)) cur = Some JobCancelled
                                       then JobCancelledError
                                       else JobError ConflictError ''Segment job can no longer be started''))
                       else None))"

definition startJob ::
    "(nat \<Rightarrow> repo_op list) \<Rightarrow> segment_job \<Rightarrow> db \<Rightarrow> db \<times> segment_job job_outcome" where
  "startJob env initial d =
     (case createSegmentJob d initial of
        (d1, Inl e) \<Rightarrow> (d1, write_failed e)
      | (d1, Inr (created, record)) \<Rightarrow>
          if created then (d1, Inr (vr_value record))
          else retry 0 MAX_ATOMIC_WRITE_ATTEMPTS (start_attempts env initial record)
                 (Inl (JobError ConflictError ''Segment job start conflicted with repeated concurrent updates'')) d1)"

definition current_cancelled :: "segment_job versioned option \<Rightarrow> bool" where
  "current_cancelled c = (map_option (\<lambda>v. job_state (vr_value v)) c = Some JobCancelled)"

definition job_inactive :: "'a job_outcome" where
  "job_inactive = Inl (JobError ConflictError ''Segment job is no longer active'')"

definition transition_decide ::
    "(instant \<Rightarrow> segment_job \<Rightarrow> segment_job) \<Rightarrow> instant \<Rightarrow> segment_job versioned option \<Rightarrow>
       segment_job job_outcome decision" where
  "transition_decide update t current =
     (case current of
        None \<Rightarrow> Leave job_missing
      | Some c \<Rightarrow>
          if job_state (vr_value c) = JobCancelled then Leave (Inl JobCancelledError)
          else if job_state (vr_value c) \<noteq> JobLeased \<and> job_state (vr_value c) \<noteq> JobRunning
          then Leave job_inactive
          else Write (update t (vr_value c)) [JobLeased, JobRunning])"

definition transition_settle ::
    "segment_job versioned option \<Rightarrow> failure_reason \<Rightarrow> segment_job versioned option \<Rightarrow> segment_job job_outcome option"
  where
  "transition_settle read reason cur =
     (if reason = NotFound then Some job_missing
      else if reason = InvalidState
      then Some (if current_cancelled cur then Inl JobCancelledError else job_inactive)
      else None)"

definition transitionActiveJob ::
    "(nat \<Rightarrow> repo_op list) \<Rightarrow> (nat \<Rightarrow> instant) \<Rightarrow> ident \<Rightarrow> (instant \<Rightarrow> segment_job \<Rightarrow> segment_job) \<Rightarrow> db \<Rightarrow>
       db \<times> segment_job job_outcome" where
  "transitionActiveJob env clock jobId update d =
     retry 0 MAX_ATOMIC_WRITE_ATTEMPTS
       (job_attempt env clock jobId (transition_decide update) (\<lambda>record. Inr (vr_value record))
          transition_settle write_failed)
       (Inl (JobError ConflictError ''Segment job update conflicted with repeated concurrent updates'')) d"

definition completed_job :: "instant \<Rightarrow> instant \<Rightarrow> segment_job \<Rightarrow> segment_job" where
  "completed_job completedAt now j =
     (finishLatestAttempt j AttemptComplete None now)
       \<lparr>job_state := JobComplete, job_leaseExpiresAt := None, job_completedAt := Some completedAt,
        job_updatedAt := completedAt\<rparr>"

definition complete_decide ::
    "instant \<Rightarrow> instant \<Rightarrow> segment_job versioned option \<Rightarrow> segment_job job_outcome decision" where
  "complete_decide completedAt t current =
     (case current of
        None \<Rightarrow> Leave job_missing
      | Some c \<Rightarrow>
          if job_state (vr_value c) = JobCancelled then Leave (Inl JobCancelledError)
          else if job_state (vr_value c) = JobComplete then Leave (Inr (vr_value c))
          else Write (completed_job completedAt t (vr_value c)) [JobLeased, JobRunning])"

definition complete_settle ::
    "segment_job versioned option \<Rightarrow> failure_reason \<Rightarrow> segment_job versioned option \<Rightarrow> segment_job job_outcome option"
  where
  "complete_settle read reason cur =
     (if reason = NotFound then Some job_missing
      else if reason = InvalidState
      then Some (if current_cancelled cur then Inl JobCancelledError
                 else case cur of
                   Some v \<Rightarrow> if job_state (vr_value v) = JobComplete then Inr (vr_value v)
                             else Inl (JobError ConflictError ''Segment job can no longer complete'')
                 | None \<Rightarrow> Inl (JobError ConflictError ''Segment job can no longer complete''))
      else None)"

text \<open>The write is \<^verbatim>\<open>completeSegmentJob\<close>, a conditional write with the two states of \<open>complete_decide\<close>.\<close>

definition completeJob ::
    "(nat \<Rightarrow> repo_op list) \<Rightarrow> (nat \<Rightarrow> instant) \<Rightarrow> ident \<Rightarrow> instant \<Rightarrow> db \<Rightarrow> db \<times> segment_job job_outcome" where
  "completeJob env clock jobId completedAt d =
     retry 0 MAX_ATOMIC_WRITE_ATTEMPTS
       (job_attempt env clock jobId (complete_decide completedAt) (\<lambda>record. Inr (vr_value record))
          complete_settle write_failed)
       (Inl (JobError ConflictError ''Job completion conflicted with repeated concurrent updates'')) d"

definition failed_job :: "string \<Rightarrow> instant \<Rightarrow> segment_job \<Rightarrow> segment_job" where
  "failed_job message now j =
     (finishLatestAttempt j AttemptFailed (Some message) now)
       \<lparr>job_state := JobFailed, job_errorMessage := Some message, job_updatedAt := now\<rparr>"

definition fail_decide ::
    "string \<Rightarrow> instant \<Rightarrow> segment_job versioned option \<Rightarrow> segment_job job_outcome decision" where
  "fail_decide message t current =
     (case current of
        None \<Rightarrow> Leave job_missing
      | Some c \<Rightarrow>
          if is_terminal (job_state (vr_value c)) then Leave (Inr (vr_value c))
          else Write (failed_job message t (vr_value c)) [JobQueued, JobLeased, JobRunning])"

definition fail_settle ::
    "segment_job versioned option \<Rightarrow> failure_reason \<Rightarrow> segment_job versioned option \<Rightarrow> segment_job job_outcome option"
  where
  "fail_settle read reason cur =
     (if reason = NotFound then Some job_missing
      else if reason = InvalidState
      then Some (case cur of
             Some v \<Rightarrow> Inr (vr_value v)
           | None \<Rightarrow> (case read of Some v \<Rightarrow> Inr (vr_value v) | None \<Rightarrow> job_missing))
      else None)"

definition failJob ::
    "(nat \<Rightarrow> repo_op list) \<Rightarrow> (nat \<Rightarrow> instant) \<Rightarrow> ident \<Rightarrow> string \<Rightarrow> db \<Rightarrow> db \<times> segment_job job_outcome" where
  "failJob env clock jobId message d =
     retry 0 MAX_ATOMIC_WRITE_ATTEMPTS
       (job_attempt env clock jobId (fail_decide message) (\<lambda>record. Inr (vr_value record))
          fail_settle write_failed)
       (Inl (JobError ConflictError ''Job failure update conflicted with repeated concurrent updates'')) d"

section \<open>Remote workers\<close>

definition lower_char :: "char \<Rightarrow> char" where
  "lower_char c = (if is_upper c then char_of ((of_char c :: nat) + 32) else c)"

fun includes_text :: "string \<Rightarrow> string \<Rightarrow> bool" where
  "includes_text p [] = (p = [])"
| "includes_text p (c # cs) = (starts_with p (c # cs) \<or> includes_text p cs)"

definition supportsVideoCodec :: "node_capability \<Rightarrow> video_codec \<Rightarrow> bool" where
  "supportsVideoCodec c codec =
     (if codec = VideoCopy then True
      else case cap_videoCodecs c of
        Some codecs \<Rightarrow> codec \<in> set codecs
      | None \<Rightarrow>
          let names = map (map lower_char) (cap_encoders c)
          in if codec = H264 then \<exists>n \<in> set names. includes_text ''264'' n
             else if codec = H265
             then \<exists>n \<in> set names. includes_text ''265'' n \<or> includes_text ''hevc'' n
             else \<exists>n \<in> set names. includes_text ''av1'' n)"

definition worker_compatible ::
    "(ident \<Rightarrow> bool) \<Rightarrow> profile \<Rightarrow> provider_binding list \<Rightarrow> cluster_node \<Rightarrow> bool" where
  "worker_compatible linked p bindings n \<longleftrightarrow>
     RoleSourceWorker \<in> set (node_roles n) \<and> node_state n = NodeOnline \<and>
     supportsVideoCodec (node_capabilities n) (vid_codec (prof_video p)) \<and>
     (del_method (prof_delivery p) \<noteq> Hls \<or>
        coalesce (cap_vodProducerVersion (node_capabilities n)) 0 \<ge> 1) \<and>
     (\<exists>b \<in> set bindings. bind_nodeId b = node_id n \<and> bind_state b = BindingHealthy \<and>
                          \<not> bind_deletionPending b) \<and>
     linked (node_id n)"

definition worker_load :: "cluster_node \<Rightarrow> rat" where
  "worker_load n =
     of_int (cap_activeWorkers (node_capabilities n)) /
     of_int (max 1 (cap_maxWorkers (node_capabilities n)))"

definition worker_cmp :: "ident option \<Rightarrow> string option \<Rightarrow> cluster_node \<Rightarrow> cluster_node \<Rightarrow> rat" where
  "worker_cmp assigned region l r =
     (if Some (node_id l) = assigned then -1
      else if Some (node_id r) = assigned then 1
      else if truthy region \<and> node_region l \<noteq> node_region r
      then (if Some (node_region l) = region then -1 else 1)
      else worker_load l - worker_load r)"

text \<open>\<^verbatim>\<open>dispatcher\<close> is the \<^verbatim>\<open>connected\<close> method of the dispatcher, when there is one.\<close>

definition remoteCandidates ::
    "(ident \<Rightarrow> bool) option \<Rightarrow> db \<Rightarrow> relay_session \<Rightarrow> profile \<Rightarrow> ident list" where
  "remoteCandidates dispatcher d s p =
     (case (dispatcher, ses_source s) of
        (Some linked, Some src) \<Rightarrow>
          (let bindings = listProviderBindings d (Some (src_providerId src)) False;
               compatible = filter (worker_compatible linked p bindings) (repoListNodes d)
           in map node_id (js_sort (worker_cmp (ses_assignedNodeId s) (ses_preferredRegion s)) compatible))
      | _ \<Rightarrow> [])"

section \<open>Distributed generation\<close>

text \<open>
  What a generation meets: \<open>ge_db k\<close> are the operations of others during its \<open>k\<close>-th call of
  a loop, \<open>ge_remote i\<close> is the error of the \<open>i\<close>-th remote attempt (dispatch, or a worker that
  did not publish the object), \<open>ge_local\<close> that of the local one, and \<open>ge_restored\<close> says
  whether another node published the object in time.
\<close>

record generate_env =
  ge_db :: "nat \<Rightarrow> nat \<Rightarrow> repo_op list"
  ge_clock :: "nat \<Rightarrow> nat \<Rightarrow> instant"
  ge_now :: "nat \<Rightarrow> instant"
  ge_restored :: bool
  ge_remote :: "nat \<Rightarrow> job_error option"
  ge_local :: "job_error option"

record generate_options =
  go_nodeId :: "ident option"
  go_roles :: "node_role list option"

definition finished_update :: "attempt_state \<Rightarrow> string option \<Rightarrow> instant \<Rightarrow> segment_job \<Rightarrow> segment_job" where
  "finished_update st message t j = (finishLatestAttempt j st message t)\<lparr>job_updatedAt := t\<rparr>"

text \<open>
  The loop over the remote attempts: the job as last returned, and the error thrown out of
  the loop or the failure of the last attempt.
\<close>

fun remote_attempts ::
    "generate_env \<Rightarrow> ident list \<Rightarrow> nat \<Rightarrow> nat \<Rightarrow> nat \<Rightarrow> job_error option \<Rightarrow> segment_job \<Rightarrow> db \<Rightarrow>
       db \<times> segment_job \<times> job_error option job_outcome" where
  "remote_attempts e pool 0 i k failure job d = (d, job, Inr failure)"
| "remote_attempts e pool (Suc n) i k failure job d =
     (let node = pool ! (i mod length pool);
          attempt = job_attempts job + 1
      in case transitionActiveJob (ge_db e k) (ge_clock e k) (job_id job)
                (\<lambda>t. start_attempt attempt (Some node) node t t) d of
           (d1, Inl err) \<Rightarrow> (d1, job, Inl err)
         | (d1, Inr job1) \<Rightarrow>
             (case (case ge_remote e i of
                      Some err \<Rightarrow> (d1, Inl err)
                    | None \<Rightarrow> transitionActiveJob (ge_db e (k + 1)) (ge_clock e (k + 1)) (job_id job)
                                (finished_update AttemptComplete None) d1) of
                (d2, Inr job2) \<Rightarrow> (d2, job2, Inr None)
              | (d2, Inl err) \<Rightarrow>
                  (case transitionActiveJob (ge_db e (k + 2)) (ge_clock e (k + 2)) (job_id job)
                          (finished_update AttemptFailed (Some (error_message err))) d2 of
                     (d3, Inl err') \<Rightarrow> (d3, job1, Inl err')
                   | (d3, Inr job3) \<Rightarrow>
                       remote_attempts e pool n (Suc i) (k + 3) (Some err) job3 d3)))"

definition local_attempt ::
    "generate_options \<Rightarrow> generate_env \<Rightarrow> nat \<Rightarrow> segment_job \<Rightarrow> db \<Rightarrow> db \<times> segment_job \<times> unit job_outcome" where
  "local_attempt opts e k job d =
     (if RoleSourceWorker \<notin> set (coalesce (go_roles opts)
            [RoleController, RoleSourceWorker, RoleIngestOrigin, RoleEdge])
      then (d, job, Inl (JobError CapacityError ''No source worker was assigned to this segment''))
      else if job_attempts job \<ge> 3
      then (d, job, Inl (JobError CapacityError ''Segment job exhausted its automatic retry limit''))
      else case transitionActiveJob (ge_db e k) (ge_clock e k) (job_id job)
             (\<lambda>t. start_attempt (job_attempts job + 1) (go_nodeId opts)
                     (coalesce (go_nodeId opts) ''standalone'') t t) d of
           (d1, Inl err) \<Rightarrow> (d1, job, Inl err)
         | (d1, Inr job1) \<Rightarrow>
             (case ge_local e of
                Some err \<Rightarrow> (d1, job1, Inl err)
              | None \<Rightarrow> (d1, finishLatestAttempt job1 AttemptComplete None (ge_now e 3), Inr ())))"

definition run_attempts ::
    "generate_options \<Rightarrow> generate_env \<Rightarrow> (ident \<Rightarrow> bool) option \<Rightarrow> relay_session \<Rightarrow> profile \<Rightarrow> segment_job \<Rightarrow> db \<Rightarrow>
       db \<times> segment_job \<times> unit job_outcome" where
  "run_attempts opts e dispatcher s p job d =
     (let candidates = remoteCandidates dispatcher d s p
      in if candidates = [] then local_attempt opts e 2 job d
         else
           let pool = (if ses_placementLocked s then take 1 candidates else candidates);
               remaining = 3 - job_attempts job
           in if remaining = 0
              then (d, job, Inl (JobError CapacityError ''Segment job exhausted its automatic retry limit''))
              else case remote_attempts e pool remaining 0 2 None job d of
                (d', job', Inl err) \<Rightarrow> (d', job', Inl err)
              | (d', job', Inr None) \<Rightarrow> (d', job', Inr ())
              | (d', job', Inr (Some err)) \<Rightarrow> (d', job', Inl err))"

definition initial_job ::
    "generate_options \<Rightarrow> generate_env \<Rightarrow> relay_session \<Rightarrow> ident \<Rightarrow> string \<Rightarrow> nat \<Rightarrow> segment_job option \<Rightarrow> segment_job" where
  "initial_job opts e s jobId contentKey index previous =
     (let now = ge_now e 1
      in \<lparr>job_id = jobId, job_contentKey = contentKey, job_sessionId = ses_id s, job_segmentIndex = index,
          job_state = JobRunning,
          job_attempts = (case previous of None \<Rightarrow> 0 | Some j \<Rightarrow> job_attempts j),
          job_ownerNodeId = (case ses_assignedNodeId s of Some n \<Rightarrow> Some n | None \<Rightarrow> go_nodeId opts),
          job_leaseExpiresAt = Some (ge_now e 2 + 120000), job_startedAt = Some now,
          job_completedAt = None, job_errorMessage = None,
          job_workerHistory = (case previous of None \<Rightarrow> [] | Some j \<Rightarrow> job_workerHistory j),
          job_createdAt = (case previous of None \<Rightarrow> now | Some j \<Rightarrow> job_createdAt j),
          job_updatedAt = now\<rparr>)"

text \<open>The number that separates the calls of the attempts from the last ones.\<close>

definition generateDistributedSegment ::
    "generate_options \<Rightarrow> generate_env \<Rightarrow> (ident \<Rightarrow> bool) option \<Rightarrow> relay_session \<Rightarrow> profile \<Rightarrow> nat \<Rightarrow> string \<Rightarrow> ident \<Rightarrow>
       string \<Rightarrow> ident \<Rightarrow> db \<Rightarrow> coordination \<Rightarrow> db \<times> coordination \<times> string job_outcome" where
  "generateDistributedSegment opts e dispatcher s p index destination jobId contentKey owner d co =
     (let leaseKey = ''segment:'' @ contentKey;
          (co1, leased) = acquire co (ge_now e 0) (ge_now e 0) leaseKey owner 120000
      in if \<not> leased
         then (d, co1, if ge_restored e then Inr destination
                       else Inl (JobError CapacityError
                              ''Timed out waiting for another node to publish the segment''))
         else
           let d0 = run_ops (ge_db e 0 0) d
           in case startJob (ge_db e 1) (initial_job opts e s jobId contentKey index (getSegmentJob d0 jobId)) d0 of
             (d1, Inl err) \<Rightarrow> (d1, co1, Inl err)
           | (d1, Inr job) \<Rightarrow>
               (case run_attempts opts e dispatcher s p job d1 of
                  (d2, job2, tried) \<Rightarrow>
                    (case (case tried of
                             Inl err \<Rightarrow> (d2, Inl err)
                           | Inr _ \<Rightarrow> (case completeJob (ge_db e 100) (ge_clock e 100) (job_id job2) (ge_now e 4) d2 of
                                        (d3, Inl err) \<Rightarrow> (d3, Inl err)
                                      | (d3, Inr _) \<Rightarrow> (d3, Inr destination))) of
                       (d3, Inr dest) \<Rightarrow> (d3, release co1 leaseKey owner, Inr dest)
                     | (d3, Inl JobCancelledError) \<Rightarrow> (d3, release co1 leaseKey owner, Inl JobCancelledError)
                     | (d3, Inl err) \<Rightarrow>
                         (case failJob (ge_db e 101) (ge_clock e 101) (job_id job2) (error_message err) d3 of
                            (d4, Inl err') \<Rightarrow> (d4, release co1 leaseKey owner, Inl err')
                          | (d4, Inr failed) \<Rightarrow>
                              (d4, release co1 leaseKey owner,
                               Inl (if job_state failed = JobCancelled then JobCancelledError else err))))))"

section \<open>Limits of the log\<close>

definition floor_or :: "int \<Rightarrow> jsnum option \<Rightarrow> int" where
  "floor_or fallback configured =
     (case configured of Some (Fin r) \<Rightarrow> \<lfloor>r\<rfloor> | _ \<Rightarrow> fallback)"

definition jobLogRetentionRows :: "jsnum option \<Rightarrow> int" where
  "jobLogRetentionRows configured = min 50000 (max 100 (floor_or 1000 configured))"

definition jobLogQueryLimit :: "jsnum option \<Rightarrow> int" where
  "jobLogQueryLimit configured = min 1000 (max 1 (floor_or 200 configured))"

definition listLogs :: "jsnum option \<Rightarrow> db \<Rightarrow> ident \<Rightarrow> int option \<Rightarrow> job_log_entry list" where
  "listLogs configured d jobId limit =
     listJobLogs d jobId
       (min (jobLogQueryLimit configured) (max 1 (coalesce limit (jobLogQueryLimit configured))))"

end
