(* ===== verification/RelayJobFacts.thy ===== *)
theory RelayJobFacts
  imports RelayJobs
begin

text \<open>
  Facts about the segment jobs: what a cancellation guarantees against every later write,
  the bound on the attempts, the history of the attempts, the life of the segment lease
  around a generation, and the order in which remote workers are tried.
\<close>

section \<open>A conditional write of a job\<close>

definition job_row :: "db \<Rightarrow> ident \<Rightarrow> segment_job row option" where
  "job_row d i = map_of (db_jobs d) i"

lemma read_job:
  "getVersionedSegmentJob d i = map_option (\<lambda>r. versioned (row_json r) (row_revision r)) (job_row d i)"
  by (simp add: getVersionedSegmentJob_def get_versioned_def job_row_def)

lemma cas_job_row:
  "al \<noteq> [] \<Longrightarrow> job_row (fst (compareAndSetSegmentJob d j e al)) k =
     map_option (\<lambda>r. if k = job_id j \<and> cas_cond job_state e al r
                     then bump_row j (job_updatedAt j) r else r) (job_row d k)"
  by (simp add: compareAndSetSegmentJob_def Let_def case_prod_beta map_of_cas job_row_def)

lemma cas_job_keys [simp]:
  "map fst (db_jobs (fst (compareAndSetSegmentJob d j e al))) = map fst (db_jobs d)"
  by (simp add: compareAndSetSegmentJob_def Let_def case_prod_beta)

lemma cas_job_result:
  assumes "keys_ok (db_jobs d)" and "al \<noteq> []"
  shows "snd (compareAndSetSegmentJob d j e al) = resolve
    (case job_row d (job_id j) of
       None \<Rightarrow> Rejected NotFound None []
     | Some r \<Rightarrow>
         if row_revision r \<noteq> e then Rejected RevisionConflict (Some (versioned (row_json r) (row_revision r))) []
         else if job_state (row_json r) \<in> set al then Applied (versioned j (Suc e))
         else Rejected InvalidState (Some (versioned (row_json r) (row_revision r))) [])"
  using assms by (auto simp: compareAndSetSegmentJob_def Let_def case_prod_beta cas_snd job_row_def
      split: option.split)

lemma job_keys_run: "keys_unique d \<Longrightarrow> keys_ok (db_jobs (run_ops xs d))"
  using keys_unique_run keys_uniqueD(7) by blast

lemma retry_leaves:
  "body 0 w = (w', Some r) \<Longrightarrow> retry 0 MAX_ATOMIC_WRITE_ATTEMPTS body ex w = (w', r)"
  by (simp add: MAX_ATOMIC_WRITE_ATTEMPTS_def eval_nat_numeral)

section \<open>A cancelled job stays cancelled\<close>

definition is_cancelled :: "ident \<Rightarrow> db \<Rightarrow> bool" where
  "is_cancelled i d = (map_option (\<lambda>r. job_state (row_json r)) (job_row d i) = Some JobCancelled)"

lemma is_cancelledE:
  assumes "is_cancelled i d"
  obtains r where "job_row d i = Some r" "job_state (row_json r) = JobCancelled"
  using assms by (auto simp: is_cancelled_def)

text \<open>Only a manual retry writes over a cancelled job: it is the one write that allows that state.\<close>

fun keeps_cancelled :: "ident \<Rightarrow> repo_op \<Rightarrow> bool" where
  "keeps_cancelled i (JobOp (OpCasJob j e al)) = (job_id j = i \<longrightarrow> JobCancelled \<notin> set al)"
| "keeps_cancelled i x = True"

lemma cas_keeps_cancelled:
  assumes "is_cancelled i d" and "job_id j = i \<longrightarrow> JobCancelled \<notin> set al"
  shows "is_cancelled i (fst (compareAndSetSegmentJob d j e al))"
proof (cases "al = []")
  case True
  then show ?thesis using assms(1) by (simp add: compareAndSetSegmentJob_def)
next
  case False
  from assms(1) obtain r where "job_row d i = Some r" "job_state (row_json r) = JobCancelled"
    by (rule is_cancelledE)
  then show ?thesis using assms(2) by (auto simp: is_cancelled_def cas_job_row[OF False] cas_cond_def False)
qed

lemma create_keeps_jobs:
  "job_row d i = Some r \<Longrightarrow> job_row (fst (createSegmentJob d j)) i = Some r"
  by (simp add: createSegmentJob_def Let_def case_prod_beta job_row_def table_facts split: option.split)

lemma exec_keeps_cancelled:
  assumes "is_cancelled i d" and "keeps_cancelled i x"
  shows "is_cancelled i (exec_op x d)"
proof (cases x)
  case (JobOp y)
  show ?thesis
  proof (cases y)
    case (OpCreateJob j)
    then show ?thesis using JobOp assms by (auto simp: is_cancelled_def create_keeps_jobs)
  next
    case (OpCasJob j e al)
    then show ?thesis using JobOp assms by (simp add: cas_keeps_cancelled)
  next
    case (OpCompleteJob j e)
    then show ?thesis using JobOp assms by (simp add: completeSegmentJob_def cas_keeps_cancelled)
  next
    case (OpCancelJob j e)
    then show ?thesis using JobOp assms by (simp add: cancelSegmentJob_def cas_keeps_cancelled)
  qed (use JobOp assms in \<open>simp_all add: is_cancelled_def job_row_def createVodProducer_def
        compareAndSetVodProducer_def Let_def case_prod_beta split: option.split\<close>)
qed (use assms in \<open>simp_all add: is_cancelled_def job_row_def frames\<close>)

lemma run_keeps_cancelled:
  "is_cancelled i d \<Longrightarrow> list_all (keeps_cancelled i) xs \<Longrightarrow> is_cancelled i (run_ops xs d)"
  by (induction xs arbitrary: d) (auto intro: exec_keeps_cancelled)

text \<open>A job read as cancelled, and an attempt whose write meets a cancelled job.\<close>

lemma attempt_reads_cancelled:
  assumes "is_cancelled i (run_ops (env (2 * n)) d)"
    and "\<And>c. job_state (vr_value c) = JobCancelled \<Longrightarrow> decide (clock n) (Some c) = Leave (f c)"
  obtains c where "job_attempt env clock i decide applied settle failed n d =
      (run_ops (env (2 * n)) d, Some (f c))" "job_state (vr_value c) = JobCancelled"
proof -
  from assms(1) obtain r where "job_row (run_ops (env (2 * n)) d) i = Some r"
    "job_state (row_json r) = JobCancelled" by (rule is_cancelledE)
  then show ?thesis
    by (intro that[of "versioned (row_json r) (row_revision r)"])
      (simp_all add: job_attempt_def Let_def read_job assms(2))
qed

lemma attempt_writes_cancelled:
  assumes "keys_unique d" and "decide (clock n) (getVersionedSegmentJob (run_ops (env (2 * n)) d) i) = Write j al"
    and "job_id j = i" and "JobCancelled \<notin> set al" and "al \<noteq> []"
    and "is_cancelled i (run_ops (env (2 * n + 1)) (run_ops (env (2 * n)) d))"
  obtains d' cur reason where "job_attempt env clock i decide applied settle failed n d =
      (d', settle (getVersionedSegmentJob (run_ops (env (2 * n)) d) i) reason cur)"
    "is_cancelled i d'" "reason \<noteq> NotFound" "reason = InvalidState \<Longrightarrow> current_cancelled cur"
    "reason = RevisionConflict \<or> reason = InvalidState"
proof -
  let ?d1 = "run_ops (env (2 * n)) d" and ?e = "case getVersionedSegmentJob (run_ops (env (2 * n)) d) i of
      None \<Rightarrow> 0 | Some c \<Rightarrow> vr_revision c"
  let ?d2 = "run_ops (env (2 * n + 1)) ?d1"
  obtain r where r: "job_row ?d2 i = Some r" "job_state (row_json r) = JobCancelled"
    using assms(6) by (rule is_cancelledE)
  have keys: "keys_ok (db_jobs ?d2)" using job_keys_run[OF keys_unique_run[OF assms(1)]] .
  let ?reason = "if row_revision r \<noteq> ?e then RevisionConflict else InvalidState"
  have "snd (compareAndSetSegmentJob ?d2 j ?e al) =
      resolve (Rejected ?reason (Some (versioned (row_json r) (row_revision r))) [])"
    unfolding cas_job_result[OF keys assms(5)] assms(3) r(1) using r(2) assms(4) by auto
  moreover have "is_cancelled i (fst (compareAndSetSegmentJob ?d2 j ?e al))"
    using assms(4,6) by (simp add: cas_keeps_cancelled)
  moreover have "job_attempt env clock i decide applied settle failed n d =
      (fst (compareAndSetSegmentJob ?d2 j ?e al),
       case snd (compareAndSetSegmentJob ?d2 j ?e al) of
         Inl e \<Rightarrow> Some (failed e)
       | Inr (Applied record) \<Rightarrow> Some (applied record)
       | Inr (Rejected reason cur _) \<Rightarrow> settle (getVersionedSegmentJob ?d1 i) reason cur)"
    unfolding job_attempt_def Let_def assms(2) decision.case case_prod_beta by simp
  ultimately show ?thesis
    by (intro that[of "fst (compareAndSetSegmentJob ?d2 j ?e al)" ?reason
          "Some (versioned (row_json r) (row_revision r))"])
      (simp_all add: current_cancelled_def r)
qed

text \<open>
  The attempts of one call: where its first \<open>k\<close> attempts, all of them refused, lead to. The
  race with a cancellation: it lands before the read of attempt \<open>k\<close>, or between the read of an
  active job and the write, and nobody writes over it until the next read.
\<close>

fun after_tries :: "nat \<Rightarrow> (nat \<Rightarrow> 'w \<Rightarrow> 'w \<times> 'r option) \<Rightarrow> 'w \<Rightarrow> 'w option" where
  "after_tries 0 body w = Some w"
| "after_tries (Suc k) body w =
     (case after_tries k body w of
        None \<Rightarrow> None
      | Some v \<Rightarrow> (case body k v of (v', None) \<Rightarrow> Some v' | (v', Some r) \<Rightarrow> None))"

lemma retry_after_tries:
  "after_tries k body w = Some v \<Longrightarrow> retry 0 (k + n) body ex w = retry k n body ex v"
proof (induction k arbitrary: n v)
  case (Suc k)
  then obtain u where "after_tries k body w = Some u" "body k u = (v, None)"
    by (auto split: option.splits prod.splits)
  with Suc.IH[of u "Suc n"] show ?case by simp
qed simp

definition cancelled_at ::
    "(nat \<Rightarrow> repo_op list) \<Rightarrow> ident \<Rightarrow> (nat \<Rightarrow> db \<Rightarrow> db \<times> 'r option) \<Rightarrow> nat \<Rightarrow> db \<Rightarrow> bool" where
  "cancelled_at env i body k d \<longleftrightarrow>
     keys_unique d \<and> k < MAX_ATOMIC_WRITE_ATTEMPTS \<and>
     (case after_tries k body d of
        None \<Rightarrow> False
      | Some w \<Rightarrow>
          is_cancelled i (run_ops (env (2 * k)) w) \<or>
          ((case job_row (run_ops (env (2 * k)) w) i of
              None \<Rightarrow> False
            | Some r \<Rightarrow> job_id (row_json r) = i \<and> job_state (row_json r) \<in> {JobLeased, JobRunning}) \<and>
           is_cancelled i (run_ops (env (2 * k + 1)) (run_ops (env (2 * k)) w)) \<and>
           list_all (keeps_cancelled i) (env (2 * k + 2))))"

lemma keys_unique_cas_job: "keys_unique d \<Longrightarrow> keys_unique (fst (compareAndSetSegmentJob d j e al))"
  using keys_unique_exec[of d "JobOp (OpCasJob j e al)"] by simp

lemma job_attempt_keys:
  "keys_unique d \<Longrightarrow> keys_unique (fst (job_attempt env clock i decide applied settle failed n d))"
  by (simp add: job_attempt_def Let_def case_prod_beta keys_unique_run keys_unique_cas_job split: decision.split)

lemma after_tries_keys:
  "after_tries k (job_attempt env clock i decide applied settle failed) d = Some w \<Longrightarrow> keys_unique d \<Longrightarrow> keys_unique w"
proof (induction k arbitrary: w)
  case (Suc k)
  then obtain u where "keys_unique u" "job_attempt env clock i decide applied settle failed k u = (w, None)"
    by (auto split: option.splits prod.splits)
  then show ?case using job_attempt_keys[of u env clock i decide applied settle failed k] by simp
qed simp

text \<open>
  The write that races is refused, and the next attempt reads the cancelled job; only when
  there is no next attempt the call ends with what follows its loop.
\<close>

lemma cancelled_at_wins:
  fixes env clock i decide applied settle failed
  defines "body \<equiv> job_attempt env clock i decide applied settle failed"
  assumes at: "cancelled_at env i body k d"
    and active: "\<And>t c. job_id (vr_value c) = i \<Longrightarrow> job_state (vr_value c) \<in> {JobLeased, JobRunning} \<Longrightarrow>
           \<exists>j al. decide t (Some c) = Write j al \<and>
               job_id j = i \<and> JobCancelled \<notin> set al \<and> al \<noteq> []"
    and read: "\<And>t c. job_state (vr_value c) = JobCancelled \<Longrightarrow> decide t (Some c) = Leave (f c)"
    and settle: "\<And>c cur. settle c RevisionConflict cur = None"
      "\<And>c cur. current_cancelled cur \<Longrightarrow> \<exists>v. settle c InvalidState cur = Some v"
  shows "\<exists>d' v. retry 0 MAX_ATOMIC_WRITE_ATTEMPTS body ex d = (d', v) \<and> is_cancelled i d' \<and>
    ((\<exists>c. job_state (vr_value c) = JobCancelled \<and> v = f c) \<or>
     (\<exists>c cur. current_cancelled cur \<and> settle c InvalidState cur = Some v) \<or> (k = 4 \<and> v = ex))"
proof -
  obtain w where w: "after_tries k body d = Some w" and k: "k < 5" and keys: "keys_unique d"
    using at by (auto simp: cancelled_at_def MAX_ATOMIC_WRITE_ATTEMPTS_def split: option.splits)
  have keys_w: "keys_unique w" using after_tries_keys[OF w[unfolded body_def] keys] .
  obtain n where n: "5 = k + Suc n" using k by (metis less_iff_Suc_add add_Suc_right)
  have loop: "retry 0 MAX_ATOMIC_WRITE_ATTEMPTS body ex d = retry k (Suc n) body ex w"
    unfolding MAX_ATOMIC_WRITE_ATTEMPTS_def n by (rule retry_after_tries[OF w])
  have reads: "\<exists>c. body m v = (run_ops (env (2 * m)) v, Some (f c)) \<and> job_state (vr_value c) = JobCancelled"
    if "is_cancelled i (run_ops (env (2 * m)) v)" for m v
    using attempt_reads_cancelled[of i env m v decide clock f applied settle failed, OF that read]
    unfolding body_def by metis
  show ?thesis
  proof (cases "is_cancelled i (run_ops (env (2 * k)) w)")
    case True
    with reads[OF True] show ?thesis unfolding loop by auto
  next
    case False
    then obtain r where r: "job_row (run_ops (env (2 * k)) w) i = Some r" "job_id (row_json r) = i"
      "job_state (row_json r) \<in> {JobLeased, JobRunning}"
      and cancel: "is_cancelled i (run_ops (env (2 * k + 1)) (run_ops (env (2 * k)) w))"
        "list_all (keeps_cancelled i) (env (2 * k + 2))"
      using at w by (auto simp: cancelled_at_def split: option.splits)
    obtain j al where "decide (clock k) (getVersionedSegmentJob (run_ops (env (2 * k)) w) i) = Write j al"
      "job_id j = i" "JobCancelled \<notin> set al" "al \<noteq> []"
      using active[of "versioned (row_json r) (row_revision r)" "clock k"] r(2,3) by (auto simp: read_job r(1))
    from attempt_writes_cancelled[where n = k and d = w and decide = decide and clock = clock and env = env and i = i
        and applied = applied and settle = settle and failed = failed, OF keys_w this cancel(1)]
    obtain d' cur reason where
      first: "body k w = (d', settle (getVersionedSegmentJob (run_ops (env (2 * k)) w) i) reason cur)"
        "is_cancelled i d'" "reason = InvalidState \<Longrightarrow> current_cancelled cur"
        "reason = RevisionConflict \<or> reason = InvalidState"
      unfolding body_def by metis
    show ?thesis
    proof (cases "reason = InvalidState")
      case True
      then obtain v where "settle (getVersionedSegmentJob (run_ops (env (2 * k)) w) i) reason cur = Some v"
        using settle(2) first(3) by blast
      then have "retry k (Suc n) body ex w = (d', v)" using first(1) by simp
      with True first(2,3) \<open>settle _ reason cur = Some v\<close> show ?thesis unfolding loop by blast
    next
      case False
      then have next_try: "retry k (Suc n) body ex w = retry (Suc k) n body ex d'"
        using first(1,4) settle(1) by simp
      show ?thesis
      proof (cases n)
        case 0
        then show ?thesis using next_try n first(2) unfolding loop by simp
      next
        case (Suc m)
        have c: "is_cancelled i (run_ops (env (2 * Suc k)) d')"
          using run_keeps_cancelled[OF first(2) cancel(2)] by simp
        from reads[OF c] obtain x where "body (Suc k) d' = (run_ops (env (2 * Suc k)) d', Some (f x))"
          and x: "job_state (vr_value x) = JobCancelled" by blast
        then have "retry k (Suc n) body ex w = (run_ops (env (2 * Suc k)) d', f x)"
          using next_try Suc by simp
        with c x show ?thesis unfolding loop by blast
      qed
    qed
  qed
qed

lemma job_id_finishLatestAttempt [simp]: "job_id (finishLatestAttempt j st m t) = job_id j"
  by (simp add: finishLatestAttempt_def Let_def)

lemma job_state_finishLatestAttempt [simp]: "job_state (finishLatestAttempt j st m t) = job_state j"
  by (simp add: finishLatestAttempt_def Let_def)

lemma job_attempts_finishLatestAttempt [simp]: "job_attempts (finishLatestAttempt j st m t) = job_attempts j"
  by (simp add: finishLatestAttempt_def Let_def)

lemma job_id_updates [simp]:
  "job_id (requeued_job t j) = job_id j" "job_id (cancelled_job t j) = job_id j"
  "job_id (retried_job t j) = job_id j" "job_id (completed_job t t' j) = job_id j"
  "job_id (failed_job m t j) = job_id j" "job_id (finished_update st msg t j) = job_id j"
  "job_id (start_attempt n own nd t t' j) = job_id j"
  "job_id (restarted_job j j') = job_id j"
  by (simp_all add: requeued_job_def cancelled_job_def retried_job_def completed_job_def
      failed_job_def finished_update_def start_attempt_def restarted_job_def)

lemma current_cancelledE:
  assumes "current_cancelled cur"
  obtains v where "cur = Some v" "job_state (vr_value v) = JobCancelled"
  using assms by (auto simp: current_cancelled_def)

text \<open>The attempts of the calls that write to an active job.\<close>

definition transition_try ::
    "(nat \<Rightarrow> repo_op list) \<Rightarrow> (nat \<Rightarrow> instant) \<Rightarrow> ident \<Rightarrow> (instant \<Rightarrow> segment_job \<Rightarrow> segment_job) \<Rightarrow>
       nat \<Rightarrow> db \<Rightarrow> db \<times> segment_job job_outcome option" where
  "transition_try env clock i update =
     job_attempt env clock i (transition_decide update) (\<lambda>record. Inr (vr_value record)) transition_settle write_failed"

definition complete_try ::
    "(nat \<Rightarrow> repo_op list) \<Rightarrow> (nat \<Rightarrow> instant) \<Rightarrow> ident \<Rightarrow> instant \<Rightarrow> nat \<Rightarrow> db \<Rightarrow> db \<times> segment_job job_outcome option"
  where
  "complete_try env clock i completedAt =
     job_attempt env clock i (complete_decide completedAt) (\<lambda>record. Inr (vr_value record)) complete_settle write_failed"

definition fail_try ::
    "(nat \<Rightarrow> repo_op list) \<Rightarrow> (nat \<Rightarrow> instant) \<Rightarrow> ident \<Rightarrow> string \<Rightarrow> nat \<Rightarrow> db \<Rightarrow> db \<times> segment_job job_outcome option"
  where
  "fail_try env clock i message =
     job_attempt env clock i (fail_decide message) (\<lambda>record. Inr (vr_value record)) fail_settle write_failed"

lemma transition_cancelled:
  assumes "cancelled_at env i (transition_try env clock i update) k d" and "\<And>t j. job_id (update t j) = job_id j"
  shows "\<exists>d' r. transitionActiveJob env clock i update d = (d', r) \<and> is_cancelled i d' \<and>
    (r = Inl JobCancelledError \<or> k = 4 \<and> (\<exists>m. r = Inl (JobError ConflictError m)))"
  using cancelled_at_wins[OF assms(1)[unfolded transition_try_def], where f = "\<lambda>_. Inl JobCancelledError"
      and ex = "Inl (JobError ConflictError ''Segment job update conflicted with repeated concurrent updates'')"]
  unfolding transitionActiveJob_def
  by (fastforce simp: transition_decide_def transition_settle_def assms(2))

lemma complete_cancelled:
  assumes "cancelled_at env i (complete_try env clock i completedAt) k d"
  shows "\<exists>d' r. completeJob env clock i completedAt d = (d', r) \<and> is_cancelled i d' \<and>
    (r = Inl JobCancelledError \<or> k = 4 \<and> (\<exists>m. r = Inl (JobError ConflictError m)))"
  using cancelled_at_wins[OF assms(1)[unfolded complete_try_def], where f = "\<lambda>_. Inl JobCancelledError"
      and ex = "Inl (JobError ConflictError ''Job completion conflicted with repeated concurrent updates'')"]
  unfolding completeJob_def
  by (fastforce simp: complete_decide_def complete_settle_def)

lemma fail_cancelled:
  assumes "cancelled_at env i (fail_try env clock i message) k d"
  shows "\<exists>d' r. failJob env clock i message d = (d', r) \<and> is_cancelled i d' \<and>
    ((\<exists>j. r = Inr j \<and> job_state j = JobCancelled) \<or> k = 4 \<and> (\<exists>m. r = Inl (JobError ConflictError m)))"
  using cancelled_at_wins[OF assms(1)[unfolded fail_try_def], where f = "\<lambda>c. Inr (vr_value c)"
      and ex = "Inl (JobError ConflictError ''Job failure update conflicted with repeated concurrent updates'')"]
  unfolding failJob_def
  by (fastforce simp: fail_decide_def fail_settle_def is_terminal_def elim!: current_cancelledE)

section \<open>Starting a job\<close>

lemma start_cancelled:
  assumes "keys_ok (db_jobs d)" and "is_cancelled (job_id initial) d"
    and "list_all (keeps_cancelled (job_id initial)) (env 0)"
  shows "startJob env initial d = (run_ops (env 0) d, Inl JobCancelledError)"
proof -
  from assms(2) obtain r where r: "job_row d (job_id initial) = Some r" "job_state (row_json r) = JobCancelled"
    by (rule is_cancelledE)
  then have "createSegmentJob d initial = (d, resolve (False, versioned (row_json r) (row_revision r)))"
    by (simp add: createSegmentJob_def sql_insert_or_ignore_def Let_def get_versioned_def job_row_def)
  with r show ?thesis
    by (simp add: startJob_def start_attempts_def Let_def retry_leaves)
qed

section \<open>Histories of attempts\<close>

definition open_attempts :: "segment_job \<Rightarrow> segment_job_attempt list" where
  "open_attempts j = filter (\<lambda>a. jatt_state a = AttemptRunning) (job_workerHistory j)"

lemma finishLatestAttempt_history:
  "job_workerHistory (finishLatestAttempt j st m t) =
     (if job_workerHistory j \<noteq> [] \<and> jatt_state (last (job_workerHistory j)) = AttemptRunning
      then butlast (job_workerHistory j) @
        [(last (job_workerHistory j))\<lparr>jatt_state := st, jatt_completedAt := Some t,
           jatt_errorMessage := (if truthy m then m else jatt_errorMessage (last (job_workerHistory j)))\<rparr>]
      else job_workerHistory j)"
  by (simp add: finishLatestAttempt_def Let_def)

text \<open>A finished attempt is the last one; every other open attempt stays open.\<close>

lemma finish_closes_last:
  assumes "st \<noteq> AttemptRunning" and "job_workerHistory j = h @ [a]"
  shows "open_attempts (finishLatestAttempt j st m t) = filter (\<lambda>a. jatt_state a = AttemptRunning) h"
  using assms by (auto simp: open_attempts_def finishLatestAttempt_history)

lemma start_attempt_history [simp]:
  "job_workerHistory (start_attempt n own nd t t' j) = job_workerHistory j @
     [\<lparr>jatt_attempt = n, jatt_nodeId = nd, jatt_state = AttemptRunning,
       jatt_startedAt = t, jatt_completedAt = None, jatt_errorMessage = None\<rparr>]"
  by (simp add: start_attempt_def)

text \<open>Along one uninterrupted generation at most the current attempt is open.\<close>

lemma start_then_finish_open:
  assumes "st \<noteq> AttemptRunning"
  shows "open_attempts (finished_update st m t' (start_attempt n own nd t0 t0' j)) = open_attempts j"
  using assms by (simp add: open_attempts_def finished_update_def finishLatestAttempt_history)

section \<open>The bound on the attempts\<close>

definition attempts_within :: "ident \<Rightarrow> nat \<Rightarrow> db \<Rightarrow> bool" where
  "attempts_within i b d =
     (case job_row d i of None \<Rightarrow> True
      | Some r \<Rightarrow> job_id (row_json r) = i \<and> job_attempts (row_json r) \<le> b)"

text \<open>No write of others raises the attempts of the job.\<close>

definition job_calm :: "ident \<Rightarrow> (nat \<Rightarrow> repo_op list) \<Rightarrow> bool" where
  "job_calm i env \<longleftrightarrow> (\<forall>k b d. attempts_within i b d \<longrightarrow> attempts_within i b (run_ops (env k) d))"

lemma job_calm_empty: "job_calm i (\<lambda>_. [])"
  by (simp add: job_calm_def)

lemma attempts_within_mono: "attempts_within i b d \<Longrightarrow> b \<le> c \<Longrightarrow> attempts_within i c d"
  by (auto simp: attempts_within_def split: option.splits)

lemma attempts_within_cas:
  assumes "attempts_within i c d" and "job_id j = i" and "job_attempts j \<le> c" and "al \<noteq> []"
  shows "attempts_within i c (fst (compareAndSetSegmentJob d j e al))"
  using assms by (auto simp: attempts_within_def cas_job_row split: option.splits)

lemma cas_job_applied:
  assumes "keys_ok (db_jobs d)" and "al \<noteq> []"
    and "snd (compareAndSetSegmentJob d j e al) = Inr (Applied v)"
  shows "vr_value v = j" and "\<exists>r. job_row (fst (compareAndSetSegmentJob d j e al)) (job_id j) = Some r \<and> row_json r = j"
proof -
  from assms(3) obtain r where r: "job_row d (job_id j) = Some r" "row_revision r = e"
    "job_state (row_json r) \<in> set al" "v = versioned j (Suc e)"
    unfolding cas_job_result[OF assms(1,2)] by (auto split: option.splits if_splits)
  then show "vr_value v = j" by simp
  show "\<exists>r. job_row (fst (compareAndSetSegmentJob d j e al)) (job_id j) = Some r \<and> row_json r = j"
    using r by (simp add: cas_job_row[OF assms(2)] cas_cond_def)
qed

text \<open>What one attempt of an active transition does.\<close>

lemma transition_attempt_within:
  fixes n :: nat and clock :: "nat \<Rightarrow> instant"
  assumes "job_calm i env" and "keys_unique d" and "attempts_within i c d"
    and upd: "\<And>t j. job_id j = i \<Longrightarrow> job_attempts j \<le> c \<Longrightarrow>
                job_id (update t j) = i \<and> job_attempts (update t j) \<le> c"
  defines "out \<equiv> job_attempt env clock i (transition_decide update) (\<lambda>record. Inr (vr_value record))
                   transition_settle write_failed n d"
  shows "keys_unique (fst out) \<and> attempts_within i c (fst out) \<and>
     (\<forall>j. snd out = Some (Inr j) \<longrightarrow>
        job_id j = i \<and> job_attempts j \<le> c \<and> attempts_within i (job_attempts j) (fst out))"
proof -
  let ?d1 = "run_ops (env (2 * n)) d"
  have d1: "keys_unique ?d1" "attempts_within i c ?d1"
    using assms(1-3) keys_unique_run by (auto simp: job_calm_def)
  show ?thesis
  proof (cases "transition_decide update (clock n) (getVersionedSegmentJob ?d1 i)")
    case (Leave v)
    then have "out = (?d1, Some v)" by (simp add: out_def job_attempt_def Let_def)
    moreover have "\<nexists>j. v = Inr j"
      using Leave by (auto simp: transition_decide_def job_missing_def job_inactive_def
          split: option.splits if_splits)
    ultimately show ?thesis using d1 by auto
  next
    case (Write j al)
    let ?d2 = "run_ops (env (2 * n + 1)) ?d1"
    let ?e = "case getVersionedSegmentJob ?d1 i of None \<Rightarrow> 0 | Some c \<Rightarrow> vr_revision c"
    have d2: "keys_unique ?d2" "attempts_within i c ?d2"
      using d1 assms(1) keys_unique_run unfolding job_calm_def by blast+
    obtain r where "job_row ?d1 i = Some r" "j = update (clock n) (row_json r)" and al: "al = [JobLeased, JobRunning]"
      using Write by (auto simp: transition_decide_def read_job split: option.splits if_splits)
    with d1(2) upd have j: "job_id j = i" "job_attempts j \<le> c"
      by (auto simp: attempts_within_def)
    let ?w = "compareAndSetSegmentJob ?d2 j ?e al"
    have out: "out = (fst ?w, case snd ?w of
         Inl e \<Rightarrow> Some (write_failed e)
       | Inr (Applied record) \<Rightarrow> Some (Inr (vr_value record))
       | Inr (Rejected reason cur _) \<Rightarrow> transition_settle (getVersionedSegmentJob ?d1 i) reason cur)"
      unfolding out_def job_attempt_def Let_def Write decision.case case_prod_beta by simp
    have ne: "al \<noteq> []" using al by simp
    have kept: "keys_unique (fst ?w)" "attempts_within i c (fst ?w)"
      using d2 j ne keys_unique_cas_job attempts_within_cas by blast+
    have "job_id v = i \<and> job_attempts v \<le> c \<and> attempts_within i (job_attempts v) (fst ?w)"
      if "snd out = Some (Inr v)" for v
    proof -
      from that out obtain rc where "snd ?w = Inr (Applied rc)" "v = vr_value rc"
        by (auto simp: write_failed_def transition_settle_def job_missing_def job_inactive_def
            split: sum.splits write_result.splits if_splits)
      with cas_job_applied[OF keys_uniqueD(7)[OF d2(1)] ne] j show ?thesis
        by (fastforce simp: attempts_within_def)
    qed
    with kept out show ?thesis by simp
  qed
qed

lemma transition_within:
  assumes "job_calm i env" and "keys_unique d" and "attempts_within i c d"
    and upd: "\<And>t j. job_id j = i \<Longrightarrow> job_attempts j \<le> c \<Longrightarrow>
                job_id (update t j) = i \<and> job_attempts (update t j) \<le> c"
    and run: "transitionActiveJob env clock i update d = (d', r)"
  shows "keys_unique d' \<and> attempts_within i c d' \<and>
     (\<forall>j. r = Inr j \<longrightarrow> job_id j = i \<and> job_attempts j \<le> c \<and> attempts_within i (job_attempts j) d')"
proof -
  let ?body = "job_attempt env clock i (transition_decide update) (\<lambda>record. Inr (vr_value record))
                   transition_settle write_failed"
  have step: "keys_unique (fst (?body n v)) \<and> attempts_within i c (fst (?body n v))"
    if "keys_unique v \<and> attempts_within i c v" for n v
    using transition_attempt_within[where n = n and clock = clock and update = update, OF assms(1) _ _ upd] that
    by blast
  from retry_result[where P = "\<lambda>d. keys_unique d \<and> attempts_within i c d" and body = ?body, OF step _
      run[unfolded transitionActiveJob_def]] assms(2,3)
  have "(\<exists>e. r = Inl e \<and> keys_unique d' \<and> attempts_within i c d') \<or>
        (\<exists>n v. keys_unique v \<and> attempts_within i c v \<and> ?body n v = (d', Some r))"
    by auto
  then show ?thesis
  proof (elim disjE exE conjE)
    fix n v
    assume v: "keys_unique v" "attempts_within i c v" "?body n v = (d', Some r)"
    show ?thesis
      using transition_attempt_within[where n = n and clock = clock and update = update,
          OF assms(1) v(1,2) upd] v(3) by simp
  qed simp
qed

text \<open>The loop over the remote attempts and the local one.\<close>

lemma start_within:
  assumes "job_calm i env" and "keys_unique d" and "attempts_within i (job_attempts job) d"
    and "transitionActiveJob env clock i (\<lambda>t. start_attempt (job_attempts job + 1) own nd t t) d = (d', r)"
  shows "keys_unique d' \<and> attempts_within i (job_attempts job + 1) d' \<and>
     (\<forall>j. r = Inr j \<longrightarrow> job_id j = i \<and> job_attempts j \<le> job_attempts job + 1 \<and>
        attempts_within i (job_attempts j) d')"
  using transition_within[OF assms(1,2) _ _ assms(4), of "job_attempts job + 1"]
    attempts_within_mono[OF assms(3)] by (simp add: start_attempt_def)

lemma finish_within:
  assumes "job_calm i env" and "keys_unique d" and "attempts_within i c d"
    and "transitionActiveJob env clock i (finished_update st m) d = (d', r)"
  shows "keys_unique d' \<and> attempts_within i c d' \<and>
     (\<forall>j. r = Inr j \<longrightarrow> job_id j = i \<and> job_attempts j \<le> c \<and> attempts_within i (job_attempts j) d')"
  using transition_within[OF assms(1,2,3) _ assms(4)] by (simp add: finished_update_def)

lemma remote_attempts_within:
  assumes "\<And>k. job_calm i (ge_db e k)" and "keys_unique d" and "attempts_within i (job_attempts job) d"
    and "job_id job = i" and "n + job_attempts job \<le> B"
    and "remote_attempts e pool n m k failure job d = (d', job', r)"
  shows "attempts_within i B d' \<and> job_attempts job' \<le> B \<and> job_id job' = i \<and> keys_unique d'"
  using assms(2-6)
proof (induction n arbitrary: m k failure job d)
  case 0
  then show ?case using attempts_within_mono by auto
next
  case (Suc n)
  let ?node = "pool ! (m mod length pool)"
  let ?start = "transitionActiveJob (ge_db e k) (ge_clock e k) (job_id job)
      (\<lambda>t. start_attempt (job_attempts job + 1) (Some ?node) ?node t t) d"
  obtain d1 r1 where start: "?start = (d1, r1)" by fastforce
  have w1: "keys_unique d1" "attempts_within i (job_attempts job + 1) d1"
    "\<And>j. r1 = Inr j \<Longrightarrow> job_id j = i \<and> job_attempts j \<le> job_attempts job + 1 \<and> attempts_within i (job_attempts j) d1"
    using start_within[OF assms(1) Suc.prems(1,2) start[unfolded Suc.prems(3)]] by blast+
  have B: "job_attempts job + 1 \<le> B" using Suc.prems(4) by simp
  show ?case
  proof (cases r1)
    case (Inl err)
    with start Suc.prems w1(1,2) B attempts_within_mono show ?thesis by auto
  next
    case (Inr job1)
    note j1 = w1(3)[OF Inr]
    let ?fin = "case ge_remote e m of
                  Some err \<Rightarrow> (d1, Inl err)
                | None \<Rightarrow> transitionActiveJob (ge_db e (k + 1)) (ge_clock e (k + 1)) (job_id job)
                            (finished_update AttemptComplete None) d1"
    obtain d2 r2 where fin: "?fin = (d2, r2)" by fastforce
    have w2: "keys_unique d2 \<and> attempts_within i (job_attempts job + 1) d2 \<and>
      (\<forall>j. r2 = Inr j \<longrightarrow> job_id j = i \<and> job_attempts j \<le> job_attempts job + 1)"
    proof (cases "ge_remote e m")
      case (Some err)
      with fin w1 show ?thesis by auto
    next
      case None
      with fin have "transitionActiveJob (ge_db e (k + 1)) (ge_clock e (k + 1)) i
                            (finished_update AttemptComplete None) d1 = (d2, r2)"
        by (simp add: Suc.prems(3))
      from finish_within[OF assms(1) w1(1,2) this] show ?thesis by blast
    qed
    show ?thesis
    proof (cases r2)
      case (Inr job2)
      with start fin \<open>r1 = Inr job1\<close> Suc.prems(5) have "d' = d2" "job' = job2" by simp_all
      with w2 Inr B attempts_within_mono show ?thesis by fastforce
    next
      case (Inl err)
      obtain d3 r3 where last: "transitionActiveJob (ge_db e (k + 2)) (ge_clock e (k + 2)) (job_id job)
                          (finished_update AttemptFailed (Some (error_message err))) d2 = (d3, r3)"
        by fastforce
      have w3: "keys_unique d3" "attempts_within i (job_attempts job + 1) d3"
        "\<And>j. r3 = Inr j \<Longrightarrow> job_id j = i \<and> job_attempts j \<le> job_attempts job + 1 \<and> attempts_within i (job_attempts j) d3"
        using finish_within[OF assms(1) _ _ last[unfolded Suc.prems(3)]] w2 by blast+
      show ?thesis
      proof (cases r3)
        case (Inl err')
        with start fin last \<open>r1 = Inr job1\<close> \<open>r2 = Inl err\<close> Suc.prems(5)
        have "d' = d3" "job' = job1" by simp_all
        with w3 j1 B attempts_within_mono show ?thesis by fastforce
      next
        case (Inr job3)
        with start fin last \<open>r1 = Inr job1\<close> \<open>r2 = Inl err\<close> Suc.prems(5)
        have "remote_attempts e pool n (Suc m) (k + 3) (Some err) job3 d3 = (d', job', r)" by simp
        from Suc.IH[OF w3(1) _ _ _ this] w3(3)[OF Inr] Suc.prems(4) show ?thesis by simp
      qed
    qed
  qed
qed

lemma local_attempt_within:
  assumes "\<And>k. job_calm i (ge_db e k)" and "keys_unique d" and "attempts_within i (job_attempts job) d"
    and "job_id job = i" and "job_attempts job \<le> 3"
    and "local_attempt opts e k job d = (d', job', r)"
  shows "attempts_within i 3 d' \<and> job_attempts job' \<le> 3 \<and> job_id job' = i \<and> keys_unique d'"
proof (cases "RoleSourceWorker \<notin> set (coalesce (go_roles opts)
            [RoleController, RoleSourceWorker, RoleIngestOrigin, RoleEdge]) \<or> job_attempts job \<ge> 3")
  case True
  with assms attempts_within_mono show ?thesis by (auto simp: local_attempt_def split: if_splits)
next
  case False
  obtain d1 r1 where start: "transitionActiveJob (ge_db e k) (ge_clock e k) i
             (\<lambda>t. start_attempt (job_attempts job + 1) (go_nodeId opts)
                     (coalesce (go_nodeId opts) ''standalone'') t t) d = (d1, r1)" by fastforce
  note w = start_within[OF assms(1-3) start]
  from False have "job_attempts job + 1 \<le> 3" by simp
  with w attempts_within_mono have "attempts_within i 3 d1" by blast
  show ?thesis
  proof (cases r1)
    case (Inl err)
    with start False assms(4,5,6) w \<open>attempts_within i 3 d1\<close> show ?thesis
      by (auto simp: local_attempt_def)
  next
    case (Inr job1)
    with w \<open>job_attempts job + 1 \<le> 3\<close> have "job_id job1 = i" "job_attempts job1 \<le> 3" by auto
    with Inr start False assms(4,6) w \<open>attempts_within i 3 d1\<close> show ?thesis
      by (auto simp: local_attempt_def split: option.splits)
  qed
qed

lemma run_attempts_within:
  assumes "\<And>k. job_calm i (ge_db e k)" and "keys_unique d" and "attempts_within i (job_attempts job) d"
    and "job_id job = i" and "job_attempts job \<le> 3"
    and "run_attempts opts e dispatcher s p job d = (d', job', r)"
  shows "attempts_within i 3 d' \<and> job_attempts job' \<le> 3 \<and> job_id job' = i \<and> keys_unique d'"
proof (cases "remoteCandidates dispatcher d s p = []")
  case True
  with local_attempt_within[OF assms(1-5)] assms(6) show ?thesis
    by (simp add: run_attempts_def Let_def)
next
  case False
  let ?pool = "if ses_placementLocked s then take 1 (remoteCandidates dispatcher d s p)
               else remoteCandidates dispatcher d s p"
  show ?thesis
  proof (cases "3 - job_attempts job = 0")
    case True
    with False assms attempts_within_mono show ?thesis by (auto simp: run_attempts_def Let_def)
  next
    case rem: False
    obtain d1 job1 r1 where ra: "remote_attempts e ?pool (3 - job_attempts job) 0 2 None job d = (d1, job1, r1)"
      by (metis prod_cases3)
    from remote_attempts_within[OF assms(1-4) _ ra, of 3] assms(5)
    have "attempts_within i 3 d1 \<and> job_attempts job1 \<le> 3 \<and> job_id job1 = i \<and> keys_unique d1" by simp
    moreover have "d' = d1 \<and> job' = job1"
      using False rem ra assms(6) by (auto simp: run_attempts_def Let_def split: sum.splits option.splits)
    ultimately show ?thesis by simp
  qed
qed

section \<open>The lease around a generation\<close>

lemma lease_after_release:
  "map_option lease_owner (map_of (co_leases (release co k a)) k) \<noteq> Some a"
  by (auto simp: release_def alist_simps split: if_splits)

text \<open>Every result after the start of the job gives the lease back.\<close>

lemma generate_releases:
  assumes "acquire co (ge_now e 0) (ge_now e 0) (''segment:'' @ key) owner 120000 = (co1, True)"
    and "startJob (ge_db e 1) (initial_job opts e s jobId key index
            (getSegmentJob (run_ops (ge_db e 0 0) d) jobId)) (run_ops (ge_db e 0 0) d) = (d1, Inr job)"
    and "generateDistributedSegment opts e dispatcher s p index dest jobId key owner d co = (d', co', r)"
  shows "co' = release co1 (''segment:'' @ key) owner"
proof -
  obtain d2 job2 tried where run: "run_attempts opts e dispatcher s p job d1 = (d2, job2, tried)"
    by (metis prod_cases3)
  have r: "(case x of (d3, Inr dest) \<Rightarrow> (d3, c, Inr dest)
            | (d3, Inl JobCancelledError) \<Rightarrow> (d3, c, Inl JobCancelledError)
            | (d3, Inl err) \<Rightarrow>
                (case failJob env clock i (error_message err) d3 of
                   (d4, Inl err') \<Rightarrow> (d4, c, Inl err')
                 | (d4, Inr failed) \<Rightarrow>
                     (d4, c, Inl (if job_state failed = JobCancelled then JobCancelledError else err)))) = (d', co', r)
        \<Longrightarrow> co' = c" for x c env clock i
    by (auto split: prod.splits sum.splits job_error.splits)
  show ?thesis
    using assms(3) unfolding generateDistributedSegment_def Let_def assms(1) case_prod_conv assms(2) run
      sum.case not_True_eq_False if_False by (rule r)
qed

text \<open>An error of the start leaves it until it expires.\<close>

lemma generate_start_fails:
  assumes "acquire co (ge_now e 0) (ge_now e 0) (''segment:'' @ key) owner 120000 = (co1, True)"
    and "startJob (ge_db e 1) (initial_job opts e s jobId key index
            (getSegmentJob (run_ops (ge_db e 0 0) d) jobId)) (run_ops (ge_db e 0 0) d) = (d1, Inl err)"
  shows "generateDistributedSegment opts e dispatcher s p index dest jobId key owner d co = (d1, co1, Inl err)"
  using assms by (simp add: generateDistributedSegment_def Let_def)

lemma acquired_lease:
  "acquire co t t k a ttl = (co1, True) \<Longrightarrow>
     map_of (co_leases co1) k = Some \<lparr>lease_owner = a, lease_expiresAt = t + ttl\<rparr>"
  by (auto simp: acquire_cases alist_simps split: if_splits)

section \<open>The order of the remote workers\<close>

lemma remoteCandidates_mem:
  assumes "i \<in> set (remoteCandidates dispatcher d s p)"
  shows "\<exists>linked src n. dispatcher = Some linked \<and> ses_source s = Some src \<and> n \<in> set (repoListNodes d) \<and>
           node_id n = i \<and> worker_compatible linked p (listProviderBindings d (Some (src_providerId src)) False) n"
proof (cases dispatcher)
  case None
  then show ?thesis using assms by (simp add: remoteCandidates_def)
next
  case linked: (Some linked)
  show ?thesis
  proof (cases "ses_source s")
    case None
    then show ?thesis using assms by (simp add: remoteCandidates_def linked)
  next
    case (Some src)
    then show ?thesis using assms linked by (auto simp: remoteCandidates_def Let_def)
  qed
qed

lemma js_insert_hd:
  "hd (js_insert cmp x ys) = (if ys = [] \<or> cmp x (hd ys) < 0 then x else hd ys)"
  by (cases ys) auto

lemma js_insert_ne [simp]: "js_insert cmp x ys \<noteq> []"
  by (cases ys) auto

text \<open>An element that beats every other one and is beaten by none ends up first.\<close>

lemma hd_js_fold_winner:
  assumes "\<And>y. y \<in> set xs \<union> set ys \<Longrightarrow> y \<noteq> w \<Longrightarrow> cmp w y < 0 \<and> \<not> cmp y w < 0"
    and "w \<in> set xs \<or> (ys \<noteq> [] \<and> hd ys = w)"
  shows "hd (foldl (\<lambda>acc x. js_insert cmp x acc) ys xs) = w"
  using assms
proof (induction xs arbitrary: ys)
  case Nil
  then show ?case by simp
next
  case (Cons x xs)
  have "w \<in> set xs \<or> hd (js_insert cmp x ys) = w"
  proof (cases "x = w")
    case True
    have "cmp w (hd ys) < 0 \<or> hd ys = w" if "ys \<noteq> []"
      using Cons.prems(1)[of "hd ys"] that by auto
    then show ?thesis using True by (auto simp: js_insert_hd)
  next
    case False
    then have "w \<in> set xs \<or> (ys \<noteq> [] \<and> hd ys = w)" using Cons.prems(2) by auto
    moreover have "\<not> cmp x w < 0" using Cons.prems(1)[of x] False by simp
    ultimately show ?thesis by (auto simp: js_insert_hd)
  qed
  then show ?case using Cons.IH[of "js_insert cmp x ys"] Cons.prems(1) by auto
qed

lemma hd_js_sort_winner:
  assumes "\<And>y. y \<in> set xs \<Longrightarrow> y \<noteq> w \<Longrightarrow> cmp w y < 0 \<and> \<not> cmp y w < 0" and "w \<in> set xs"
  shows "hd (js_sort cmp xs) = w"
  using hd_js_fold_winner[of xs "[]" w cmp] assms by (simp add: js_sort_def)

text \<open>The assigned node is tried first whenever it is a candidate.\<close>

lemma assigned_first:
  assumes "i \<in> set (remoteCandidates dispatcher d s p)" and "ses_assignedNodeId s = Some i"
    and "inj_on node_id (set (repoListNodes d))"
  shows "hd (remoteCandidates dispatcher d s p) = i"
proof -
  from remoteCandidates_mem[OF assms(1)] obtain linked src w where w: "dispatcher = Some linked"
    "ses_source s = Some src" "w \<in> set (repoListNodes d)" "node_id w = i"
    "worker_compatible linked p (listProviderBindings d (Some (src_providerId src)) False) w" by blast
  let ?ns = "filter (worker_compatible linked p (listProviderBindings d (Some (src_providerId src)) False)) (repoListNodes d)"
  let ?cmp = "worker_cmp (Some i) (ses_preferredRegion s)"
  have "hd (js_sort ?cmp ?ns) = w"
  proof (rule hd_js_sort_winner)
    fix y
    assume "y \<in> set ?ns" "y \<noteq> w"
    then have "node_id y \<noteq> i" using assms(3) w(3,4) by (auto dest: inj_onD)
    then show "?cmp w y < 0 \<and> \<not> ?cmp y w < 0" using w(4) by (simp add: worker_cmp_def)
  qed (use w in simp)
  moreover have "js_sort ?cmp ?ns \<noteq> []"
    using w(3,5) by (auto simp: filter_empty_conv)
  ultimately show ?thesis
    using w(1,2,4) assms(2) by (simp add: remoteCandidates_def Let_def hd_map)
qed

section \<open>What a completed and a retried job look like\<close>

lemma retry_quiet:
  assumes "keys_ok (db_jobs d)" and "job_row d i = Some r" and "job_id (row_json r) = i"
  shows "snd (retryJobTransition (\<lambda>_. []) clock i d) =
     (if job_state (row_json r) = JobFailed \<or> job_state (row_json r) = JobCancelled
      then Inr (retried_job (clock 0) (row_json r)) else not_retryable)"
proof -
  let ?j = "retried_job (clock 0) (row_json r)"
  have "snd (compareAndSetSegmentJob d ?j (row_revision r) [JobFailed, JobCancelled]) =
      Inr (Applied (versioned ?j (Suc (row_revision r))))"
    if "job_state (row_json r) = JobFailed \<or> job_state (row_json r) = JobCancelled"
    using that assms by (auto simp: cas_job_result)
  then show ?thesis
    using assms by (auto simp: retryJobTransition_def MAX_ATOMIC_WRITE_ATTEMPTS_def eval_nat_numeral
        job_attempt_def Let_def read_job retry_decide_def case_prod_beta)
qed

end
