(* ===== verification/RelayWorkResults.thy ===== *)
theory RelayWorkResults
  imports RelayProducer RelayJobFacts RelaySamples RelayPlaybackResults
begin

text \<open>
  The properties of the VOD producers and of the segment jobs: fencing by generation and
  revision, the protocol of the producers, recovery, cancellation, the bound on attempts
  and the life of the segment lease.
\<close>

section \<open>Producers\<close>

text \<open>C28: A transition of a producer is fenced: whatever others write between its read and
  its write, an attempt changes at most the row of its own session, only when that row
  still has the generation of the caller and an active state, and then to the update of
  that very row.\<close>

theorem transition_is_fenced:
  fixes env :: "nat \<Rightarrow> repo_op list" and i :: nat and d :: db
  defines "d1 \<equiv> run_ops (env (2 * i)) d"
  defines "d2 \<equiv> run_ops (env (2 * i + 1)) d1"
  assumes ids: "producer_ids_ok d1" and keeps: "\<And>t p. prod_sessionId (update t p) = prod_sessionId p"
    and result: "transition_attempt env clock s g update i d = (d', res)"
  shows "d' = d1 \<or> map_of (db_producers d') = map_of (db_producers d2) \<or>
         (\<exists>r. map_of (db_producers d2) s = Some r \<and> prod_generation (row_json r) = g \<and>
              prod_state (row_json r) \<in> set ACTIVE_STATES \<and>
              map_of (db_producers d') = (map_of (db_producers d2))(s \<mapsto>
                bump_row (update (clock i) (row_json r)) (prod_updatedAt (update (clock i) (row_json r))) r))"
  using transition_attempt_fenced[of env i d update clock s g d' res] assms by blast

definition sample_row :: vod_producer where
  "sample_row = start_row sample_options ''s'' 0 None 1 1 1"

definition producer_db :: db where
  "producer_db = run_ops [JobOp (OpCreateProducer sample_row)] empty_db"

lemma producer_db_row:
  "map_of (db_producers producer_db) k = (if k = ''s'' then Some (fresh_row sample_row 1) else None)"
proof -
  have "db_producers producer_db = [(''s'', fresh_row sample_row 1)]" by code_simp
  then show ?thesis by simp
qed

theorem transition_is_fenced_witness:
  "snd (transition_attempt (\<lambda>_. []) (\<lambda>_. 5) ''s'' 1 update_running 0 producer_db) = Some (resolve ()) \<and>
   prod_generation (row_json (the (map_of (db_producers
     (fst (transition_attempt (\<lambda>_. []) (\<lambda>_. 5) ''s'' 1 update_running 0 producer_db))) ''s''))) = 1"
proof -
  let ?d' = "fst (transition_attempt (\<lambda>_. []) (\<lambda>_. 5) ''s'' 1 update_running 0 producer_db)"
  have ids: "producer_ids_ok (run_ops ((\<lambda>_. []) (2 * 0)) producer_db)"
    by (simp add: producer_ids_ok_def producer_db_row fresh_row_def sample_row_def start_row_ids)
  have "snd (transition_attempt (\<lambda>_. []) (\<lambda>_. 5) ''s'' 1 update_running 0 producer_db) = Some (resolve ())"
    by code_simp
  moreover have "prod_generation (row_json (the (map_of (db_producers ?d') ''s''))) = 1"
    using transition_is_fenced[where env = "\<lambda>_. []" and i = 0 and d = producer_db and update = update_running
        and clock = "\<lambda>_. 5" and s = "''s''" and g = 1 and d' = ?d'
        and res = "snd (transition_attempt (\<lambda>_. []) (\<lambda>_. 5) ''s'' 1 update_running 0 producer_db)", OF ids]
    by (auto simp: producer_db_row fresh_row_def sample_row_def start_row_ids update_running_def)
  ultimately show ?thesis by simp
qed

text \<open>C9: The producer protocol: in every interleaving of reads, starts, creations, renewals,
  publications, finishes and recoveries by any number of actors and runs, each of which writes
  with a revision it read, however old, every stored producer is stored under its own session,
  its history of attempts is not empty and has strictly increasing generations ending with its
  own, at most the last attempt is open, and it is open exactly while the producer has an owner,
  which it has only while it starts or runs. A producer that starts or runs has an owner, with
  one exception: the generation is in the ghost set \<open>late\<close>, that is, after one run of this session
  and generation had come to its end and issued the write of it, a run of the same session and
  generation went on to publish; two runs can share a generation only through a creation that was lost unnoticed.\<close>

theorem producer_protocol:
  assumes "producer_step\<^sup>*\<^sup>* protocol_start (d, seen, fin, late)" and "map_of (db_producers d) k = Some r"
  shows "prod_sessionId (row_json r) = k \<and> row_ok (row_json r) \<and>
         (row_running (row_json r) \<longrightarrow>
            prod_ownerNodeId (row_json r) \<noteq> None \<or> (k, prod_generation (row_json r)) \<in> late)"
  using protocolD(3)[OF protocol_ok_run[OF assms(1) protocol_ok_start] assms(2)]
  by (auto simp: row_state_ok_def)

lemma producer_db_reached: "producer_step\<^sup>*\<^sup>* protocol_start (producer_db, {}, {}, {})"
proof -
  have "producer_step protocol_start (producer_db, {}, {}, {})"
    using ps_create[of empty_db "{}" "{}" "{}" sample_options "''s''" 0 1 1 1]
    by (simp add: protocol_start_def producer_db_def sample_row_def)
  then show ?thesis by (rule r_into_rtranclp)
qed

theorem producer_protocol_witness: "row_ok sample_row \<and> prod_ownerNodeId sample_row \<noteq> None"
  using producer_protocol[OF producer_db_reached, of "''s''" "fresh_row sample_row 1"]
  by (simp add: producer_db_row fresh_row_def row_running_def sample_row_def start_row_ids)

text \<open>Generations never go back, in every interleaving of the protocol.\<close>

lemma generations_never_decrease:
  assumes "producer_step\<^sup>*\<^sup>* protocol_start (d, seen, fin, late)"
    and "producer_step\<^sup>*\<^sup>* (d, seen, fin, late) (d', seen', fin', late')"
  shows "generation_of d k \<le> generation_of d' k"
  using generation_run[OF assms(2) protocol_ok_run[OF assms(1) protocol_ok_start], of k] by simp

text \<open>C29: Recovery is complete: with no interference and at most a thousand producers, after a
  recovery no active producer has an expired lease, every recovered row is the idle version
  of the row before, and every other row is untouched.\<close>

theorem recovery_is_complete:
  assumes "keys_ok (db_producers d)" and "producer_ids_ok d" and "length (db_producers d) \<le> 1000"
  shows "\<exists>n d'. recoverExpired (\<lambda>_ _. []) clock now d = (d', resolve n) \<and> (\<forall>k. \<not> expired_row d' now k) \<and>
     (\<forall>k. map_of (db_producers d') k = map_of (db_producers d) k \<or>
          (expired_row d now k \<and>
           (\<exists>r t. map_of (db_producers d) k = Some r \<and>
             map_of (db_producers d') k = Some (bump_row (update_recovered t (row_json r)) t r))))"
  using recoverExpired_quiet[OF assms, of clock now] by (auto simp: recovering_def)

theorem recovery_is_complete_witness:
  "\<exists>n d'. recoverExpired (\<lambda>_ _. []) (\<lambda>_ _. 0) 1000000 producer_db = (d', resolve n) \<and>
          (\<forall>k. \<not> expired_row d' 1000000 k)"
proof -
  have rows: "db_producers producer_db = [(''s'', fresh_row sample_row 1)]" by code_simp
  have "producer_ids_ok producer_db"
    by (simp add: producer_ids_ok_def producer_db_row fresh_row_def sample_row_def start_row_ids)
  from recovery_is_complete[OF _ this, of "\<lambda>_ _. 0" 1000000] show ?thesis by (auto simp: rows)
qed

text \<open>C22: A start settles its resources: whatever happens to the session and the producer
  meanwhile, a start that hands its producer over leaves exactly that producer running
  with its lease held, and every other outcome leaves neither its lease nor its
  reservation behind.\<close>

theorem start_settles_resources:
  fixes e :: start_env and s :: relay_session and owner :: ident
  assumes "calm e (ses_id s)" and "distinct (map fst (vc_reservations (sw_vc w)))"
    and "map_option lease_owner (lease_of w (ses_id s)) \<noteq> Some owner"
    and "startExclusive opts e readSession s i owner w = (w', r)"
  shows "(\<forall>q. reserved_for (sw_vc w') q = reserved_for (sw_vc w) q) \<and>
         (\<forall>a. r = resolve (Some a) \<longrightarrow>
            act_owner a = owner \<and> map_of (vc_active (sw_vc w')) (ses_id s) = Some a \<and>
            map_option lease_owner (lease_of w' (ses_id s)) = Some owner) \<and>
         ((\<forall>a. r \<noteq> resolve (Some a)) \<longrightarrow> map_option lease_owner (lease_of w' (ses_id s)) \<noteq> Some owner)"
  using startExclusive_outcome[OF assms] by simp

definition quiet_start :: start_env where
  "quiet_start =
     \<lparr>se_db = \<lambda>_. [], se_co = \<lambda>_ c. c, se_vc = \<lambda>_ c. c, se_clock = \<lambda>_. 5, se_aborted = \<lambda>_. False,
      se_stopState = None\<rparr>"

definition sample_world :: start_world where
  "sample_world =
     \<lparr>sw_db = sample_db, sw_co = empty_coordination,
      sw_vc = \<lparr>vc_active = [], vc_reservations = [], vc_retries = []\<rparr>\<rparr>"

theorem start_settles_resources_witness:
  "map_option lease_owner (lease_of (fst (startExclusive sample_options quiet_start
     (\<lambda>d i. getSession d i) sample_session 0 ''o'' sample_world)) ''s'') = Some ''o''"
proof -
  let ?x = "startExclusive sample_options quiet_start (\<lambda>d i. getSession d i) sample_session 0 ''o'' sample_world"
  have calm: "calm quiet_start (ses_id sample_session)" by (simp add: calm_def quiet_start_def)
  have rows: "getSession sample_db ''s'' = Some sample_session" "db_producers sample_db = []"
    by code_simp+
  have "(case snd ?x of Inl _ \<Rightarrow> False | Inr a \<Rightarrow> a \<noteq> None)"
    by (simp add: startExclusive_def start_try_def start_write_def store_start_def Let_def case_prod_beta rows
        session_provider_def locked_elsewhere_def reserveProducer_def active_for_def reserved_for_def
        reserved_count_def acquire_def interfere_def quiet_start_def sample_world_def sample_options_def
        sample_session_def sample_source_def empty_coordination_def getVersionedVodProducer_def
        get_versioned_def createVodProducer_def sql_insert_or_ignore_def new_pacer_def catchup_limit_def)
  then obtain a where a: "snd ?x = resolve (Some a)" by (auto split: sum.splits)
  have "startExclusive sample_options quiet_start (\<lambda>d i. getSession d i) sample_session 0 ''o'' sample_world =
      (fst ?x, snd ?x)" by simp
  from start_settles_resources[OF calm _ _ this] a show ?thesis
    by (simp add: sample_world_def lease_of_def empty_coordination_def sample_session_def)
qed

text \<open>The creation of a producer row is not checked: when another actor created the row
  after it was read as missing, the start reports success although nothing was stored, so
  two starts can go on with one row.\<close>

lemma lost_creation_goes_unnoticed:
  assumes "map_of (db_producers d) (prod_sessionId row) = Some r"
  shows "snd (store_start d row None) = resolve () \<and>
         map_of (db_producers (fst (store_start d row None))) = map_of (db_producers d)"
  using store_start_create_existing[OF assms] by simp

section \<open>Segment jobs\<close>

text \<open>C21: A cancellation wins over every write it races with: when a job is cancelled in any attempt of
  an update, of a completion or of a failure, before the attempt reads or between its read of the active
  job and its write, and nobody retries the job by hand before the next read, the call leaves the job
  cancelled, and the caller is told so: an update and a completion end with JobCancelledError, a failure
  returns the cancelled job. The exception is a cancellation in the fifth and last attempt, when
  every attempt before was refused: the job stays cancelled, but the caller may get ConflictError.\<close>

theorem cancellation_wins:
  assumes "\<And>t j. job_id (update t j) = job_id j"
  shows "(cancelled_at env i (transition_try env clock i update) k d \<longrightarrow>
       (\<exists>d' r. transitionActiveJob env clock i update d = (d', r) \<and> is_cancelled i d' \<and>
          (r = Inl JobCancelledError \<or> k = 4 \<and> (\<exists>m. r = Inl (JobError ConflictError m))))) \<and>
     (cancelled_at env i (complete_try env clock i completedAt) k d \<longrightarrow>
       (\<exists>d' r. completeJob env clock i completedAt d = (d', r) \<and> is_cancelled i d' \<and>
          (r = Inl JobCancelledError \<or> k = 4 \<and> (\<exists>m. r = Inl (JobError ConflictError m))))) \<and>
     (cancelled_at env i (fail_try env clock i message) k d \<longrightarrow>
       (\<exists>d' r. failJob env clock i message d = (d', r) \<and> is_cancelled i d' \<and>
          ((\<exists>j. r = Inr j \<and> job_state j = JobCancelled) \<or> k = 4 \<and> (\<exists>m. r = Inl (JobError ConflictError m)))))"
  by (intro conjI impI transition_cancelled[where update = update, OF _ assms] complete_cancelled fail_cancelled)

text \<open>Another node renews the job in the first attempt, which refuses it; the cancellation lands in the second.\<close>

definition cancel_in_between :: "nat \<Rightarrow> repo_op list" where
  "cancel_in_between k =
     (if k = 1 then [JobOp (OpCasJob sample_job 1 [JobRunning])]
      else if k = 3 then [JobOp (OpCancelJob (cancelled_job 8 sample_job) 2)] else [])"

lemma cancel_in_between_ok: "cancelled_at cancel_in_between ''j'' (complete_try cancel_in_between (\<lambda>_. 9) ''j'' 9) 1 sample_db"
proof -
  let ?attempt = "complete_try cancel_in_between (\<lambda>_. 9) ''j'' 9"
  have keys: "keys_unique sample_db"
    using refs_okD(1)[OF reachable_refs_ok[OF sample_reachable]] .
  have refused: "snd (?attempt 0 sample_db) = None" by code_simp
  then have first: "after_tries 1 ?attempt sample_db = Some (fst (?attempt 0 sample_db))"
    by (simp add: prod.case_eq_if)
  have "map_option (\<lambda>r. (job_id (row_json r), job_state (row_json r)))
      (job_row (run_ops (cancel_in_between 2) (fst (?attempt 0 sample_db))) ''j'') = Some (''j'', JobRunning)"
    by code_simp
  moreover have "is_cancelled ''j'' (run_ops (cancel_in_between 3) (run_ops (cancel_in_between 2) (fst (?attempt 0 sample_db))))"
    by code_simp
  ultimately show ?thesis using keys first
    by (auto simp: cancelled_at_def MAX_ATOMIC_WRITE_ATTEMPTS_def cancel_in_between_def)
qed

theorem cancellation_wins_witness:
  "\<exists>d'. completeJob cancel_in_between (\<lambda>_. 9) ''j'' 9 sample_db = (d', Inl JobCancelledError) \<and> is_cancelled ''j'' d'"
  using cancellation_wins[of "finished_update AttemptComplete None" cancel_in_between "''j''" "\<lambda>_. 9" 1 sample_db 9]
    cancel_in_between_ok by simp

text \<open>The automatic attempts of a job are bounded: while no other writer raises them, a run
  of remote or local attempts ends with at most three, in the database and in the job the
  caller continues with.\<close>

lemma attempts_are_bounded:
  assumes "\<And>k. job_calm (job_id job) (ge_db e k)" and "keys_unique d"
    and "attempts_within (job_id job) (job_attempts job) d" and "job_attempts job \<le> 3"
    and "run_attempts opts e dispatcher s p job d = (d', job', r)"
  shows "attempts_within (job_id job) 3 d' \<and> job_attempts job' \<le> 3 \<and> job_id job' = job_id job"
  using run_attempts_within[OF assms(1-3) refl assms(4,5)] by simp

definition failing_env :: generate_env where
  "failing_env =
     \<lparr>ge_db = \<lambda>_ _. [], ge_clock = \<lambda>_ _. 7, ge_now = \<lambda>_. 7, ge_restored = False,
      ge_remote = \<lambda>_. Some (JobError PlainError ''worker lost''), ge_local = None\<rparr>"

definition sample_profile :: profile where
  "sample_profile =
     \<lparr>prof_profileId = ''f'', prof_name = ''Profile'', prof_description = None, prof_platform = Universal,
      prof_state = Verified,
      prof_video = \<lparr>vid_codec = H264, vid_decodeMode = DecodeAuto, vid_profile = None, vid_level = None,
        vid_pixelFormat = ''yuv420p'', vid_width = 1280, vid_height = 720, vid_frameRate = 30,
        vid_bitrateKbps = 4000, vid_maxrateKbps = 5000, vid_bufferKbps = 8000, vid_quality = None,
        vid_preset = None, vid_tune = None, vid_gop = 60, vid_bFrames = 0\<rparr>,
      prof_audio = \<lparr>aud_codec = Aac, aud_channels = 2, aud_layout = ''stereo'', aud_sampleRate = 48000,
        aud_bitrateKbps = 160, aud_defaultLanguage = None\<rparr>,
      prof_delivery = \<lparr>del_method = Hls, del_container = ContainerMpegts, del_segmentType = SegMpegts,
        del_segmentDuration = 6, del_playlistType = PlaylistVod, del_latencyMode = LatencyStandard\<rparr>,
      prof_processing = \<lparr>proc_toneMap = False, proc_burnSubtitles = False, proc_passthrough = PassNever,
        proc_maxWorkers = 1\<rparr>,
      prof_disabledReason = None, prof_createdAt = 1, prof_updatedAt = 1\<rparr>"

definition sample_generate :: generate_options where
  "sample_generate = \<lparr>go_nodeId = Some ''n'', go_roles = None\<rparr>"

lemma attempts_are_bounded_witness:
  "job_attempts (fst (snd (run_attempts sample_generate failing_env None sample_session sample_profile sample_job sample_db))) \<le> 3"
proof -
  let ?x = "run_attempts sample_generate failing_env None sample_session sample_profile sample_job sample_db"
  have calm: "job_calm (job_id sample_job) (ge_db failing_env k)" for k
    by (simp add: failing_env_def job_calm_def)
  have keys: "keys_unique sample_db"
    using refs_okD(1)[OF reachable_refs_ok[OF sample_reachable]] .
  have within: "attempts_within (job_id sample_job) (job_attempts sample_job) sample_db"
    by (simp add: attempts_within_def job_row_def sample_job_def sample_rows[unfolded sample_job_def] fresh_row_def)
  have "?x = (fst ?x, fst (snd ?x), snd (snd ?x))" by simp
  from attempts_are_bounded[OF calm keys within _ this] show ?thesis by (simp add: sample_job_def)
qed

text \<open>A crashed attempt is never closed by the next generation: when a job that was left
  running is started again, its open attempt stays open in the history for good, also
  after the new attempt completes the job.\<close>

lemma crashed_attempt_stays_open:
  "open_attempts (completed_job completedAt t (start_attempt n own nd t0 t0' (restarted_job initial cur))) =
     open_attempts cur"
  using start_then_finish_open[of AttemptComplete None t n own nd t0 t0' "restarted_job initial cur"]
  by (simp add: open_attempts_def completed_job_def finished_update_def restarted_job_def)

text \<open>C40: The segment lease is given back by every generation whose job could be started,
  whatever the attempts, the completion and the failure update end with.\<close>

theorem generation_releases_lease:
  assumes "acquire co (ge_now e 0) (ge_now e 0) (''segment:'' @ key) owner 120000 = (co1, True)"
    and "startJob (ge_db e 1) (initial_job opts e s jobId key index
            (getSegmentJob (run_ops (ge_db e 0 0) d) jobId)) (run_ops (ge_db e 0 0) d) = (d1, Inr job)"
    and "generateDistributedSegment opts e dispatcher s p index dest jobId key owner d co = (d', co', r)"
  shows "map_option lease_owner (map_of (co_leases co') (''segment:'' @ key)) \<noteq> Some owner"
  using generate_releases[OF assms] lease_after_release by simp

theorem generation_releases_lease_witness:
  "map_option lease_owner (map_of (co_leases (fst (snd (generateDistributedSegment sample_generate failing_env None
     sample_session sample_profile 4 ''dest'' ''j'' ''k'' ''o'' sample_db empty_coordination)))) ''segment:k'') \<noteq> Some ''o''"
proof -
  let ?x = "generateDistributedSegment sample_generate failing_env None sample_session sample_profile 4
     ''dest'' ''j'' ''k'' ''o'' sample_db empty_coordination"
  let ?a = "acquire empty_coordination (ge_now failing_env 0) (ge_now failing_env 0) (''segment:'' @ ''k'') ''o'' 120000"
  let ?s = "startJob (ge_db failing_env 1) (initial_job sample_generate failing_env sample_session ''j'' ''k'' 4
            (getSegmentJob (run_ops (ge_db failing_env 0 0) sample_db) ''j'')) (run_ops (ge_db failing_env 0 0) sample_db)"
  have "snd ?a" by code_simp
  then have a: "?a = (fst ?a, True)" by (simp add: prod_eq_iff)
  have "(case snd ?s of Inl _ \<Rightarrow> False | Inr _ \<Rightarrow> True)" by code_simp
  then obtain job where s: "?s = (fst ?s, Inr job)" by (auto simp: prod_eq_iff split: sum.splits)
  have "?x = (fst ?x, fst (snd ?x), snd (snd ?x))" by simp
  from generation_releases_lease[OF a s this] show ?thesis by simp
qed

text \<open>A generation that cannot start its job keeps the segment lease: for a cancelled job
  the request fails at once, but the lease stays with the caller for its two minutes, so
  every other request for the segment waits that long.\<close>

lemma cancelled_start_keeps_lease:
  assumes "keys_ok (db_jobs (run_ops (ge_db e 0 0) d))" and "is_cancelled jobId (run_ops (ge_db e 0 0) d)"
    and "list_all (keeps_cancelled jobId) (ge_db e 1 0)"
    and "acquire co (ge_now e 0) (ge_now e 0) (''segment:'' @ key) owner 120000 = (co1, True)"
  shows "\<exists>d'. generateDistributedSegment opts e dispatcher s p index dest jobId key owner d co =
                (d', co1, Inl JobCancelledError) \<and>
              map_of (co_leases co1) (''segment:'' @ key) =
                Some \<lparr>lease_owner = owner, lease_expiresAt = ge_now e 0 + 120000\<rparr>"
proof -
  let ?j = "initial_job opts e s jobId key index (getSegmentJob (run_ops (ge_db e 0 0) d) jobId)"
  have "job_id ?j = jobId" by (simp add: initial_job_def Let_def)
  with start_cancelled[of "run_ops (ge_db e 0 0) d" ?j "ge_db e 1"] assms(1-3)
  have "startJob (ge_db e 1) ?j (run_ops (ge_db e 0 0) d) =
      (run_ops (ge_db e 1 0) (run_ops (ge_db e 0 0) d), Inl JobCancelledError)" by simp
  from generate_start_fails[OF assms(4) this] acquired_lease[OF assms(4)] show ?thesis by blast
qed

text \<open>A manual retry resets exactly a failed or cancelled job: the job is queued with no
  attempts, owner, lease or error, its history is kept, and a job in any other state is
  refused with a conflict.\<close>

lemma retry_resets_job:
  assumes "keys_ok (db_jobs d)" and "job_row d i = Some r" and "job_id (row_json r) = i"
  shows "if job_state (row_json r) = JobFailed \<or> job_state (row_json r) = JobCancelled
         then \<exists>j. snd (retryJobTransition (\<lambda>_. []) clock i d) = Inr j \<and> job_state j = JobQueued \<and>
                job_attempts j = 0 \<and> job_ownerNodeId j = None \<and> job_leaseExpiresAt j = None \<and>
                job_errorMessage j = None \<and> job_workerHistory j = job_workerHistory (row_json r)
         else snd (retryJobTransition (\<lambda>_. []) clock i d) =
                Inl (JobError ConflictError ''Only failed or cancelled segment jobs can be retried'')"
  using retry_quiet[OF assms, of clock] by (simp add: retried_job_def not_retryable_def)

text \<open>Only suitable workers are tried for a segment, the assigned one first: every remote
  candidate is an online, connected source worker with a healthy binding to the provider
  of the session and a suitable encoder, and if the assigned node is a candidate it heads
  the list.\<close>

lemma remote_candidates_are_suitable:
  assumes "i \<in> set (remoteCandidates dispatcher d s p)" and "inj_on node_id (set (repoListNodes d))"
  shows "(\<exists>linked src n. dispatcher = Some linked \<and> ses_source s = Some src \<and> n \<in> set (repoListNodes d) \<and>
            node_id n = i \<and> node_state n = NodeOnline \<and> RoleSourceWorker \<in> set (node_roles n) \<and> linked i \<and>
            supportsVideoCodec (node_capabilities n) (vid_codec (prof_video p)) \<and>
            (\<exists>b \<in> set (listProviderBindings d (Some (src_providerId src)) False).
               bind_nodeId b = i \<and> bind_state b = BindingHealthy)) \<and>
         (ses_assignedNodeId s = Some i \<longrightarrow> hd (remoteCandidates dispatcher d s p) = i)"
proof -
  from remoteCandidates_mem[OF assms(1)] obtain linked src n where n: "dispatcher = Some linked"
    "ses_source s = Some src" "n \<in> set (repoListNodes d)" "node_id n = i"
    "worker_compatible linked p (listProviderBindings d (Some (src_providerId src)) False) n" by blast
  from n(5) n(4) have "node_state n = NodeOnline \<and> RoleSourceWorker \<in> set (node_roles n) \<and> linked i \<and>
      supportsVideoCodec (node_capabilities n) (vid_codec (prof_video p)) \<and>
      (\<exists>b \<in> set (listProviderBindings d (Some (src_providerId src)) False).
         bind_nodeId b = i \<and> bind_state b = BindingHealthy)"
    by (simp add: worker_compatible_def) blast
  with n(1-4) assigned_first[OF assms(1) _ assms(2)] show ?thesis by metis
qed

definition worker_db :: db where
  "worker_db = run_ops [BindingOp (OpCreateBinding sample_provider
     \<lparr>bind_id = ''b'', bind_providerId = ''p'', bind_nodeId = ''n'', bind_secretRef = ''sec'', bind_reachable = True,
      bind_state = BindingHealthy, bind_deletionPending = False, bind_lastError = None,
      bind_validatedAt = None, bind_createdAt = 4, bind_updatedAt = 4\<rparr> (Some 1))] sample_db"

text \<open>The comparator of the remote workers is no order: for two workers in different
  regions, neither of them the preferred one, each is put before the other, so the load
  is ignored between them and the result depends on the order of the rows.\<close>

lemma worker_order_is_contradictory:
  assumes "truthy region" and "node_region l \<noteq> node_region r"
    and "Some (node_region l) \<noteq> region" and "Some (node_region r) \<noteq> region"
    and "Some (node_id l) \<noteq> assigned" and "Some (node_id r) \<noteq> assigned"
  shows "worker_cmp assigned region l r = 1 \<and> worker_cmp assigned region r l = 1"
  using assms by (simp add: worker_cmp_def)

end
