(* ===== verification/RelayRouting.thy ===== *)
theory RelayRouting
  imports RelayJobs
begin

text \<open>
  Routing and placement of \<^verbatim>\<open>packages/application/src/cluster-service.ts\<close>: the built-in, the
  static and the switchable traffic director, and the choice of a node by the cluster
  service for a list of nodes it has read. The SHA-256 digest is a parameter that gives its
  first 32-bit word, the locale comparison of identifiers is one too; scores are rationals
  where the code has doubles. The locale \<open>traffic_director\<close> is the interface the service
  relies on.
\<close>

section \<open>Edges\<close>

record edge_context =
  ec_sessionId :: ident
  ec_affinityKey :: string
  ec_viewerRegion :: "string option"
  ec_preferredRegion :: "string option"

text \<open>The legacy form of a selection is a session with a preferred region.\<close>

datatype edge_request = LegacyRequest ident "string option" | ContextRequest edge_context

fun edgeSelectionContext :: "edge_request \<Rightarrow> edge_context" where
  "edgeSelectionContext (LegacyRequest i region) =
     \<lparr>ec_sessionId = i, ec_affinityKey = i, ec_viewerRegion = None,
      ec_preferredRegion = (if truthy region then region else None)\<rparr>"
| "edgeSelectionContext (ContextRequest c) = c"

definition eligible_edges :: "cluster_node list \<Rightarrow> cluster_node list" where
  "eligible_edges nodes = filter (\<lambda>n. RoleEdge \<in> set (node_roles n) \<and> node_state n = NodeOnline) nodes"

definition in_region :: "string option \<Rightarrow> cluster_node list \<Rightarrow> cluster_node list" where
  "in_region region nodes = (if truthy region then filter (\<lambda>n. Some (node_region n) = region) nodes else [])"

text \<open>The first pool that is not empty.\<close>

definition or_pool :: "'a list \<Rightarrow> 'a list \<Rightarrow> 'a list" where
  "or_pool xs ys = (if xs \<noteq> [] then xs else ys)"

subsection \<open>The built-in director\<close>

definition worker_pressure :: "node_capability \<Rightarrow> rat" where
  "worker_pressure c =
     (if cap_maxWorkers c \<noteq> 0 then of_int (cap_activeWorkers c) / of_int (cap_maxWorkers c) else 0)"

definition cache_pressure :: "node_capability \<Rightarrow> rat" where
  "cache_pressure c =
     (case cap_cacheLimitBytes c of
        None \<Rightarrow> 0
      | Some limit \<Rightarrow> if limit \<noteq> 0 then min 1 (of_int (cap_cacheBytes c) / of_int limit) else 0)"

definition edge_score :: "(string \<Rightarrow> nat) \<Rightarrow> string \<Rightarrow> cluster_node \<Rightarrow> rat" where
  "edge_score digest key n =
     (let c = node_capabilities n
      in of_nat (digest (key @ '':'' @ node_id n)) / 4294967295 * of_int (node_weight n) *
         max (1 / 20) (1 - worker_pressure c) * (1 / (1 + cap_egressMbps c / 100)) *
         max (1 / 4) (1 - cache_pressure c))"

definition builtin_selectEdge ::
    "(string \<Rightarrow> nat) \<Rightarrow> edge_request \<Rightarrow> cluster_node list \<Rightarrow> cluster_node option" where
  "builtin_selectEdge digest request nodes =
     (let c = edgeSelectionContext request;
          eligible = eligible_edges nodes;
          pool = or_pool (in_region (ec_viewerRegion c) eligible)
                   (or_pool (in_region (ec_preferredRegion c) eligible) eligible)
      in if eligible = [] then None
         else js_first (js_sort (\<lambda>l r. edge_score digest (ec_affinityKey c) r - edge_score digest (ec_affinityKey c) l)
                pool))"

subsection \<open>The static director\<close>

record static_options =
  sto_nodeId :: "ident option"
  sto_region :: "string option"

definition static_cmp :: "(ident \<Rightarrow> ident \<Rightarrow> rat) \<Rightarrow> cluster_node \<Rightarrow> cluster_node \<Rightarrow> rat" where
  "static_cmp localeCompare l r =
     (if node_weight r \<noteq> node_weight l then of_int (node_weight r - node_weight l)
      else localeCompare (node_id l) (node_id r))"

definition legacy_region :: "edge_request \<Rightarrow> string option" where
  "legacy_region request = (case request of LegacyRequest _ region \<Rightarrow> region | ContextRequest _ \<Rightarrow> None)"

definition static_selectEdge ::
    "static_options \<Rightarrow> (ident \<Rightarrow> ident \<Rightarrow> rat) \<Rightarrow> edge_request \<Rightarrow> cluster_node list \<Rightarrow> cluster_node option" where
  "static_selectEdge opts localeCompare request nodes =
     (let c = edgeSelectionContext request;
          eligible = eligible_edges nodes
      in if eligible = [] then None
         else if truthy (sto_nodeId opts)
         then (case find (\<lambda>n. Some (node_id n) = sto_nodeId opts) eligible of
                 None \<Rightarrow> None
               | Some selected \<Rightarrow>
                   if truthy (legacy_region request) \<and> Some (node_region selected) \<noteq> legacy_region request
                   then None
                   else if truthy (sto_region opts) \<and> Some (node_region selected) \<noteq> sto_region opts
                   then None
                   else Some selected)
         else
           let configured = in_region (sto_region opts) eligible;
               requested = (if truthy (ec_viewerRegion c) then in_region (ec_viewerRegion c) eligible
                            else in_region (ec_preferredRegion c) eligible)
           in js_first (js_sort (static_cmp localeCompare) (or_pool configured (or_pool requested eligible))))"

subsection \<open>The switchable director\<close>

text \<open>
  A director is one of the two kinds, or another (a webhook), given by its selection; the
  switchable director holds the one that is active.
\<close>

datatype director =
    Builtin
  | Static static_options
  | Other "edge_request \<Rightarrow> cluster_node list \<Rightarrow> cluster_node option"

fun selectEdge ::
    "(string \<Rightarrow> nat) \<Rightarrow> (ident \<Rightarrow> ident \<Rightarrow> rat) \<Rightarrow> director \<Rightarrow> edge_request \<Rightarrow> cluster_node list \<Rightarrow>
       cluster_node option" where
  "selectEdge digest localeCompare Builtin = builtin_selectEdge digest"
| "selectEdge digest localeCompare (Static opts) = static_selectEdge opts localeCompare"
| "selectEdge digest localeCompare (Other f) = f"

record switchable =
  sw_delegate :: director

definition activate :: "switchable \<Rightarrow> director \<Rightarrow> switchable" where
  "activate s next = s\<lparr>sw_delegate := next\<rparr>"

definition switchable_selectEdge ::
    "(string \<Rightarrow> nat) \<Rightarrow> (ident \<Rightarrow> ident \<Rightarrow> rat) \<Rightarrow> switchable \<Rightarrow> edge_request \<Rightarrow> cluster_node list \<Rightarrow>
       cluster_node option" where
  "switchable_selectEdge digest localeCompare s = selectEdge digest localeCompare (sw_delegate s)"

section \<open>The choices of the cluster service\<close>

text \<open>The route of \<^verbatim>\<open>selectEdge\<close> for the nodes the service has listed.\<close>

definition route_for ::
    "(edge_request \<Rightarrow> cluster_node list \<Rightarrow> cluster_node option) \<Rightarrow> cluster_node list \<Rightarrow> ident \<Rightarrow>
       string option \<Rightarrow> string option \<Rightarrow> instant \<Rightarrow> edge_route option" where
  "route_for select nodes sessionId preferredRegion viewerRegion now =
     (case select (ContextRequest
              \<lparr>ec_sessionId = sessionId, ec_affinityKey = sessionId,
               ec_viewerRegion = (if truthy viewerRegion then viewerRegion else None),
               ec_preferredRegion = (if truthy preferredRegion then preferredRegion else None)\<rparr>) nodes of
        None \<Rightarrow> None
      | Some n \<Rightarrow> Some
          \<lparr>route_sessionId = sessionId, route_nodeId = node_id n, route_publicUrl = node_publicUrl n,
           route_reason =
             (if truthy viewerRegion \<and> Some (node_region n) = viewerRegion then ''viewer-region''
              else if truthy preferredRegion \<and> Some (node_region n) = preferredRegion
              then ''preferred-region'' else ''healthy-capacity''),
           route_expiresAt = now + 300000\<rparr>)"

record placement_input =
  pi_policy :: placement_policy
  pi_providerId :: "ident option"
  pi_profile :: profile
  pi_preferredNodeId :: "ident option"
  pi_preferredRegion :: "string option"
  pi_isNodeConnected :: "(ident \<Rightarrow> bool) option"

fun policy_name :: "placement_policy \<Rightarrow> string" where
  "policy_name PlaceLocal = ''local''"
| "policy_name PlaceHosted = ''hosted''"
| "policy_name PlaceAuto = ''auto''"

definition placement_candidate :: "placement_input \<Rightarrow> cluster_node \<Rightarrow> bool" where
  "placement_candidate i n \<longleftrightarrow>
     node_state n = NodeOnline \<and> RoleSourceWorker \<in> set (node_roles n) \<and>
     (case pi_isNodeConnected i of None \<Rightarrow> True | Some linked \<Rightarrow> linked (node_id n))"

definition placement_compatible :: "placement_input \<Rightarrow> cluster_node \<Rightarrow> bool" where
  "placement_compatible i n \<longleftrightarrow>
     supportsVideoCodec (node_capabilities n) (vid_codec (prof_video (pi_profile i))) \<and>
     (del_method (prof_delivery (pi_profile i)) \<noteq> Hls \<or>
        coalesce (cap_vodProducerVersion (node_capabilities n)) 0 \<ge> 1) \<and>
     (truthy (pi_providerId i) \<longrightarrow>
        the (pi_providerId i) \<in> set (cap_providerIds (node_capabilities n)))"

definition previewPlacement :: "cluster_node list \<Rightarrow> placement_input \<Rightarrow> cluster_node option \<times> string" where
  "previewPlacement nodes i =
     (let compatible = filter (placement_compatible i) (filter (placement_candidate i) nodes)
      in if truthy (pi_preferredNodeId i)
         then (case find (\<lambda>n. Some (node_id n) = pi_preferredNodeId i) compatible of
                 None \<Rightarrow> (None, ''preferred-node-unavailable'')
               | Some requested \<Rightarrow> (Some requested, ''preferred-node''))
         else
           let regional = in_region (pi_preferredRegion i) compatible;
               pool = or_pool regional compatible
           in case js_first (js_sort (\<lambda>a b. worker_load a - worker_load b) pool) of
                None \<Rightarrow> (None, ''no-compatible-source-worker'')
              | Some n \<Rightarrow> (Some n, if regional \<noteq> [] then ''preferred-region''
                                   else policy_name (pi_policy i) @ ''-capacity''))"

section \<open>Facts\<close>

lemma find_mem: "find P xs = Some x \<Longrightarrow> x \<in> set xs \<and> P x"
  by (metis find_Some_iff nth_mem)

lemma set_in_region [simp]:
  "n \<in> set (in_region region nodes) \<longleftrightarrow> truthy region \<and> n \<in> set nodes \<and> Some (node_region n) = region"
  by (auto simp: in_region_def)

lemma set_eligible [simp]:
  "n \<in> set (eligible_edges nodes) \<longleftrightarrow>
     n \<in> set nodes \<and> RoleEdge \<in> set (node_roles n) \<and> node_state n = NodeOnline"
  by (auto simp: eligible_edges_def)

lemma or_pool_Nil [simp]: "or_pool xs ys = [] \<longleftrightarrow> xs = [] \<and> ys = []"
  by (simp add: or_pool_def)

lemma or_pool_mem: "n \<in> set (or_pool xs ys) \<Longrightarrow> n \<in> set xs \<or> (xs = [] \<and> n \<in> set ys)"
  by (auto simp: or_pool_def split: if_splits)

lemma or_pool_first: "x \<in> set xs \<Longrightarrow> or_pool xs ys = xs"
  by (auto simp: or_pool_def)

lemma pool_eligible:
  assumes "n \<in> set (or_pool (in_region a (eligible_edges nodes)) (or_pool (in_region b (eligible_edges nodes))
                (eligible_edges nodes)))"
  shows "n \<in> set (eligible_edges nodes)"
  using assms by (auto dest!: or_pool_mem)

text \<open>What a director promises: an online edge among the nodes given to it.\<close>

locale traffic_director =
  fixes select :: "edge_request \<Rightarrow> cluster_node list \<Rightarrow> cluster_node option"
  assumes selects_edge: "select request nodes = Some n \<Longrightarrow> n \<in> set (eligible_edges nodes)"
begin

lemma no_edge: "eligible_edges nodes = [] \<Longrightarrow> select request nodes = None"
  using selects_edge[of request nodes] by (cases "select request nodes") auto

lemma route_to_edge:
  assumes "route_for select nodes s p v now = Some r"
  shows "\<exists>n \<in> set (eligible_edges nodes). route_nodeId r = node_id n \<and> route_publicUrl r = node_publicUrl n \<and>
           (route_reason r = ''viewer-region'' \<longrightarrow> v = Some (node_region n)) \<and>
           (route_reason r = ''preferred-region'' \<longrightarrow> p = Some (node_region n)) \<and>
           route_sessionId r = s \<and> route_expiresAt r = now + 300000"
  using assms selects_edge unfolding route_for_def by (fastforce split: option.splits if_splits)

end

lemma builtin_selects:
  assumes "builtin_selectEdge digest request nodes = Some n"
  shows "n \<in> set (eligible_edges nodes)"
  using assms unfolding builtin_selectEdge_def Let_def
  by (auto split: if_splits dest!: js_first_mem pool_eligible)

lemma static_selects:
  assumes "static_selectEdge opts cmp request nodes = Some n"
  shows "n \<in> set (eligible_edges nodes)"
proof (cases "truthy (sto_nodeId opts)")
  case True
  with assms show ?thesis
    unfolding static_selectEdge_def Let_def by (auto split: if_splits option.splits dest!: find_mem)
next
  case False
  with assms have "n \<in> set (or_pool (in_region (sto_region opts) (eligible_edges nodes))
      (or_pool (if truthy (ec_viewerRegion (edgeSelectionContext request))
                then in_region (ec_viewerRegion (edgeSelectionContext request)) (eligible_edges nodes)
                else in_region (ec_preferredRegion (edgeSelectionContext request)) (eligible_edges nodes))
         (eligible_edges nodes)))"
    unfolding static_selectEdge_def Let_def by (auto split: if_splits dest!: js_first_mem)
  then show ?thesis by (auto dest!: or_pool_mem split: if_splits)
qed

interpretation builtin: traffic_director "builtin_selectEdge digest" for digest
  by unfold_locales (rule builtin_selects)

interpretation static: traffic_director "static_selectEdge opts localeCompare" for opts localeCompare
  by unfold_locales (rule static_selects)

text \<open>
  The built-in director takes an edge with the best score: in the region of the viewer when
  there is an eligible edge, otherwise in the preferred region, otherwise anywhere.
\<close>

lemma js_first_best:
  assumes "js_first (js_sort (\<lambda>l r. f r - f l) pool) = Some n" and "m \<in> set pool"
  shows "f m \<le> (f n :: rat)"
  using js_first_sort_by_key[of "\<lambda>l r. f r - f l" "\<lambda>x. - f x" pool n m] assms by simp

lemma builtin_best:
  assumes "builtin_selectEdge digest (ContextRequest c) nodes = Some n" and "m \<in> set (eligible_edges nodes)"
  defines "score \<equiv> edge_score digest (ec_affinityKey c)"
    and "inside \<equiv> \<lambda>region x. truthy region \<and> Some (node_region x) = region"
  shows "if inside (ec_viewerRegion c) m then inside (ec_viewerRegion c) n \<and> score m \<le> score n
         else if inside (ec_viewerRegion c) n then True
         else if inside (ec_preferredRegion c) m then inside (ec_preferredRegion c) n \<and> score m \<le> score n
         else inside (ec_preferredRegion c) n \<or> score m \<le> score n"
proof -
  let ?e = "eligible_edges nodes"
  let ?pool = "or_pool (in_region (ec_viewerRegion c) ?e) (or_pool (in_region (ec_preferredRegion c) ?e) ?e)"
  have first: "js_first (js_sort (\<lambda>l r. score r - score l) ?pool) = Some n"
    using assms(1) by (simp add: builtin_selectEdge_def Let_def score_def split: if_splits)
  then have n: "n \<in> set ?pool" by (auto dest: js_first_mem)
  have best: "score m \<le> score n" if "m \<in> set ?pool" using js_first_best[OF first that] .
  have region: "x \<in> set (in_region r ?e) \<longleftrightarrow> inside r x \<and> x \<in> set ?e" for r x
    by (auto simp: inside_def)
  show ?thesis
  proof (cases "in_region (ec_viewerRegion c) ?e = []")
    case False
    then have "?pool = in_region (ec_viewerRegion c) ?e" by (simp add: or_pool_def)
    with n best region assms(2) show ?thesis by auto
  next
    case True
    then have no_viewer: "\<not> inside (ec_viewerRegion c) x" if "x \<in> set ?e" for x
      using region[of x "ec_viewerRegion c"] that by auto
    show ?thesis
    proof (cases "in_region (ec_preferredRegion c) ?e = []")
      case False
      with True have pool: "?pool = in_region (ec_preferredRegion c) ?e" by (simp add: or_pool_def)
      with n best region assms(2) no_viewer show ?thesis by auto
    next
      case empty: True
      with True have "?pool = ?e" by (simp add: or_pool_def)
      moreover have "\<not> inside (ec_preferredRegion c) m"
        using empty region[of m "ec_preferredRegion c"] assms(2) by auto
      ultimately show ?thesis using best assms(2) no_viewer n by auto
    qed
  qed
qed

text \<open>With the same nodes a director that is switched on decides as the new one.\<close>

lemma switch_takes_effect:
  "switchable_selectEdge digest cmp (activate s next) request nodes = selectEdge digest cmp next request nodes"
  by (simp add: switchable_selectEdge_def activate_def)

text \<open>A placement names a suitable node; without a requested node it is a least loaded one.\<close>

lemma placement_suitable:
  assumes "previewPlacement nodes i = (Some n, reason)"
  shows "n \<in> set nodes \<and> placement_candidate i n \<and> placement_compatible i n \<and>
         (truthy (pi_preferredNodeId i) \<longrightarrow> Some (node_id n) = pi_preferredNodeId i) \<and>
         (\<not> truthy (pi_preferredNodeId i) \<longrightarrow>
            (\<forall>m \<in> set nodes. placement_candidate i m \<longrightarrow> placement_compatible i m \<longrightarrow>
               node_region m = node_region n \<longrightarrow> worker_load n \<le> worker_load m))"
proof (cases "truthy (pi_preferredNodeId i)")
  case True
  with assms show ?thesis
    by (auto simp: previewPlacement_def Let_def split: option.splits dest!: find_mem)
next
  case False
  let ?c = "filter (placement_compatible i) (filter (placement_candidate i) nodes)"
  let ?pool = "or_pool (in_region (pi_preferredRegion i) ?c) ?c"
  have first: "js_first (js_sort (\<lambda>a b. worker_load a - worker_load b) ?pool) = Some n"
    using assms False by (simp add: previewPlacement_def Let_def split: option.splits)
  then have n: "n \<in> set ?pool" by (auto dest: js_first_mem)
  have mem: "m \<in> set ?pool" if "m \<in> set ?c" "node_region m = node_region n" for m
    using n that by (auto simp: or_pool_def split: if_splits)
  have "worker_load n \<le> worker_load m" if "m \<in> set ?c" "node_region m = node_region n" for m
    using js_first_sort_by_key[of "\<lambda>a b. worker_load a - worker_load b" worker_load, OF _ first mem[OF that]] by simp
  moreover have "n \<in> set ?c" using or_pool_mem[OF n] by auto
  ultimately show ?thesis using False by simp
qed

end
