(* ===== verification/RelayCluster.thy ===== *)
theory RelayCluster
  imports RelayRouting RelayNodes
begin

text \<open>
  The cluster service of \<^verbatim>\<open>packages/application/src/cluster-service.ts\<close> on its nodes, their
  certificates, the provider bindings and the agent logs. Every loop reads a node, decides,
  and writes with the revision it read; \<open>env\<close> gives the writes of others around each
  read. The events and the message of a revocation are the list of effects of a call.
\<close>

section \<open>Effects\<close>

datatype cluster_effect =
    NodeJoined ident string "node_role list"
  | NodeRevokedEvent ident
  | NodeDrainingEvent ident bool
  | NodeLogEvent agent_log_entry
  | RouteSelectedEvent edge_route
  | RevocationMessage ident instant

section \<open>Loops over a node\<close>

definition CLUSTER_WRITE_ATTEMPTS :: nat where
  "CLUSTER_WRITE_ATTEMPTS = 5"

text \<open>
  One attempt: \<open>decide\<close> ends the loop after the read or accepts the node, \<open>write\<close> is the
  conditional write with the reading of the clock, \<open>settle\<close> ends the loop or goes on.
\<close>

definition node_attempt ::
    "(nat \<Rightarrow> repo_op list) \<Rightarrow> (nat \<Rightarrow> instant) \<Rightarrow> ident \<Rightarrow>
       (cluster_node versioned option \<Rightarrow> 'r + cluster_node versioned) \<Rightarrow>
       (cluster_node versioned \<Rightarrow> instant \<Rightarrow> db \<Rightarrow> db \<times> 'x) \<Rightarrow>
       (cluster_node versioned \<Rightarrow> 'x \<Rightarrow> 'r option) \<Rightarrow> nat \<Rightarrow> db \<Rightarrow> db \<times> 'r option" where
  "node_attempt env clock nodeId decide change settle i d =
     (let d1 = run_ops (env (2 * i)) d
      in case decide (getVersionedNode d1 nodeId) of
           Inl r \<Rightarrow> (d1, Some r)
         | Inr c \<Rightarrow>
             let (d2, x) = change c (clock i) (run_ops (env (2 * i + 1)) d1)
             in (d2, settle c x))"

definition node_loop ::
    "(nat \<Rightarrow> repo_op list) \<Rightarrow> (nat \<Rightarrow> instant) \<Rightarrow> ident \<Rightarrow>
       (cluster_node versioned option \<Rightarrow> 'a outcome + cluster_node versioned) \<Rightarrow>
       (cluster_node versioned \<Rightarrow> instant \<Rightarrow> db \<Rightarrow> db \<times> 'x) \<Rightarrow>
       (cluster_node versioned \<Rightarrow> 'x \<Rightarrow> 'a outcome option) \<Rightarrow> db \<Rightarrow> db \<times> 'a outcome" where
  "node_loop env clock nodeId decide change settle d =
     retry 0 CLUSTER_WRITE_ATTEMPTS (node_attempt env clock nodeId decide change settle)
       (throw ConflictError) d"

definition need_node :: "cluster_node versioned option \<Rightarrow> 'a outcome + cluster_node versioned" where
  "need_node current = (case current of None \<Rightarrow> Inl (throw NotFoundError) | Some c \<Rightarrow> Inr c)"

text \<open>The ends of a loop after a write: \<open>invalid\<close> is the one for a node in a state that forbids it.\<close>

definition settle_node ::
    "(cluster_node versioned option \<Rightarrow> 'a outcome option) \<Rightarrow> (cluster_node versioned \<Rightarrow> 'a) \<Rightarrow>
       cluster_node write_result \<Rightarrow> 'a outcome option" where
  "settle_node invalid applied result =
     (case result of
        Applied record \<Rightarrow> Some (resolve (applied record))
      | Rejected reason cur _ \<Rightarrow>
          if reason = NotFound then Some (throw NotFoundError)
          else if reason = InvalidState then invalid cur
          else None)"

subsection \<open>Heartbeats and operational states\<close>

definition heartbeat_decide :: "cluster_node versioned option \<Rightarrow> cluster_node outcome + cluster_node versioned" where
  "heartbeat_decide current =
     (case current of
        None \<Rightarrow> Inl (throw NotFoundError)
      | Some c \<Rightarrow> if node_state (vr_value c) = NodeRevoked then Inl (resolve (vr_value c)) else Inr c)"

definition heartbeat_update ::
    "ident \<Rightarrow> node_capability \<Rightarrow> node_state \<Rightarrow> cluster_node versioned \<Rightarrow> instant \<Rightarrow> node_heartbeat_update" where
  "heartbeat_update i capabilities st c now =
     \<lparr>hb_nodeId = i, hb_expectedRevision = vr_revision c, hb_capabilities = capabilities,
      hb_reportedState = st, hb_lastHeartbeatAt = now, hb_updatedAt = now,
      hb_certificateExpiresAt = None\<rparr>"

definition heartbeat ::
    "(nat \<Rightarrow> repo_op list) \<Rightarrow> (nat \<Rightarrow> instant) \<Rightarrow> ident \<Rightarrow> node_capability \<Rightarrow> node_state \<Rightarrow> db \<Rightarrow>
       db \<times> cluster_node outcome" where
  "heartbeat env clock i capabilities st =
     node_loop env clock i heartbeat_decide
       (\<lambda>c now d. recordNodeHeartbeat d (heartbeat_update i capabilities st c now))
       (\<lambda>c. settle_node (\<lambda>cur. Some (resolve (vr_value (coalesce cur c)))) vr_value)"

definition operational_decide ::
    "(cluster_node \<Rightarrow> node_state option) \<Rightarrow> cluster_node versioned option \<Rightarrow>
       cluster_node option outcome + cluster_node versioned" where
  "operational_decide selectState current =
     (case current of
        None \<Rightarrow> Inl (resolve None)
      | Some c \<Rightarrow> if selectState (vr_value c) = None then Inl (resolve (Some (vr_value c))) else Inr c)"

definition setOperationalState ::
    "(nat \<Rightarrow> repo_op list) \<Rightarrow> (nat \<Rightarrow> instant) \<Rightarrow> (cluster_node \<Rightarrow> node_state option) \<Rightarrow> ident \<Rightarrow> db \<Rightarrow>
       db \<times> cluster_node option outcome" where
  "setOperationalState env clock selectState i =
     node_loop env clock i (operational_decide selectState)
       (\<lambda>c now d. setNodeOperationalState d
          \<lparr>op_nodeId = i, op_expectedRevision = vr_revision c,
           op_state = the (selectState (vr_value c)), op_updatedAt = now\<rparr>)
       (\<lambda>c result.
          case result of
            Applied record \<Rightarrow> Some (resolve (Some (vr_value record)))
          | Rejected reason cur _ \<Rightarrow>
              if reason = NotFound then Some (resolve None)
              else if reason = InvalidState then Some (resolve (Some (vr_value (coalesce cur c))))
              else None)"

text \<open>The two demotions of a silent node; \<open>list_state\<close> picks the one that is tried.\<close>

definition offline_state :: "instant \<Rightarrow> cluster_node \<Rightarrow> node_state option" where
  "offline_state staleBefore n =
     (if node_state n \<noteq> NodeRevoked \<and> node_state n \<noteq> NodeDraining \<and> node_state n \<noteq> NodeOffline \<and>
         node_lastHeartbeatAt n < staleBefore
      then Some NodeOffline else None)"

definition degraded_state :: "instant \<Rightarrow> cluster_node \<Rightarrow> node_state option" where
  "degraded_state degradedBefore n =
     (if node_state n = NodeOnline \<and> node_lastHeartbeatAt n < degradedBefore then Some NodeDegraded else None)"

definition list_state :: "instant \<Rightarrow> instant \<Rightarrow> cluster_node \<Rightarrow> (cluster_node \<Rightarrow> node_state option) option" where
  "list_state degradedBefore staleBefore n =
     (if node_state n \<noteq> NodeRevoked \<and> node_lastHeartbeatAt n < staleBefore \<and> node_state n \<noteq> NodeOffline
      then Some (offline_state staleBefore)
      else if node_state n = NodeOnline \<and> node_lastHeartbeatAt n < degradedBefore
      then Some (degraded_state degradedBefore)
      else None)"

text \<open>
  \<^verbatim>\<open>Promise.all\<close> starts a loop for every listed node; their steps on the database interleave
  with each other and with those of others, which for the loop of node \<open>k\<close> is \<open>env k\<close>. The
  first failure rejects the whole; the other loops run on.
\<close>

fun list_nodes ::
    "(nat \<Rightarrow> nat \<Rightarrow> repo_op list) \<Rightarrow> (nat \<Rightarrow> nat \<Rightarrow> instant) \<Rightarrow> instant \<Rightarrow> instant \<Rightarrow> nat \<Rightarrow> cluster_node list \<Rightarrow>
       db \<Rightarrow> db \<times> cluster_node list outcome" where
  "list_nodes env clock degradedBefore staleBefore k [] d = (d, resolve [])"
| "list_nodes env clock degradedBefore staleBefore k (n # ns) d =
     (case (case list_state degradedBefore staleBefore n of
              None \<Rightarrow> (d, resolve n)
            | Some selectState \<Rightarrow>
                (case setOperationalState (env k) (clock k) selectState (node_id n) d of
                   (d', Inl e) \<Rightarrow> (d', throw e)
                 | (d', Inr updated) \<Rightarrow> (d', resolve (coalesce updated n)))) of
        (d1, Inl e) \<Rightarrow>
          (fst (list_nodes env clock degradedBefore staleBefore (Suc k) ns d1), throw e)
      | (d1, Inr m) \<Rightarrow>
          (case list_nodes env clock degradedBefore staleBefore (Suc k) ns d1 of
             (d2, Inl e) \<Rightarrow> (d2, throw e)
           | (d2, Inr ms) \<Rightarrow> (d2, resolve (m # ms))))"

definition listNodes ::
    "(nat \<Rightarrow> nat \<Rightarrow> repo_op list) \<Rightarrow> (nat \<Rightarrow> nat \<Rightarrow> instant) \<Rightarrow> instant \<Rightarrow> db \<Rightarrow> db \<times> cluster_node list outcome" where
  "listNodes env clock now d = list_nodes env clock (now - 45000) (now - 90000) 0 (repoListNodes d) d"

subsection \<open>Drain, revocation, removal\<close>

definition drain ::
    "(nat \<Rightarrow> repo_op list) \<Rightarrow> (nat \<Rightarrow> instant) \<Rightarrow> ident \<Rightarrow> bool \<Rightarrow> db \<Rightarrow>
       db \<times> cluster_effect list \<times> cluster_node outcome" where
  "drain env clock i draining d =
     (case node_loop env clock i need_node
             (\<lambda>c now d. setNodeDrain d
                \<lparr>dr_nodeId = i, dr_expectedRevision = vr_revision c, dr_draining = draining,
                 dr_updatedAt = now\<rparr>)
             (\<lambda>_. settle_node (\<lambda>_. Some (throw ConflictError)) vr_value) d of
        (d', Inl e) \<Rightarrow> (d', [], throw e)
      | (d', Inr n) \<Rightarrow> (d', [NodeDrainingEvent i draining], resolve n))"

definition revoke ::
    "(nat \<Rightarrow> repo_op list) \<Rightarrow> instant \<Rightarrow> ident \<Rightarrow> db \<Rightarrow> db \<times> cluster_effect list \<times> cluster_node outcome" where
  "revoke env now i d =
     (case node_loop env (\<lambda>_. now) i need_node
             (\<lambda>c now d. revokeNode d \<lparr>rev_nodeId = i, rev_expectedRevision = vr_revision c, rev_revokedAt = now\<rparr>)
             (\<lambda>_. settle_node (\<lambda>_. None) vr_value) d of
        (d', Inl e) \<Rightarrow> (d', [], throw e)
      | (d', Inr n) \<Rightarrow> (d', [RevocationMessage i now, NodeRevokedEvent i], resolve n))"

definition remove_decide :: "cluster_node versioned option \<Rightarrow> unit outcome + cluster_node versioned" where
  "remove_decide current =
     (case current of
        None \<Rightarrow> Inl (throw NotFoundError)
      | Some c \<Rightarrow> if node_state (vr_value c) \<noteq> NodeRevoked then Inl (throw ConflictError) else Inr c)"

definition remove ::
    "(nat \<Rightarrow> repo_op list) \<Rightarrow> ident \<Rightarrow> db \<Rightarrow> db \<times> unit outcome" where
  "remove env i =
     node_loop env (\<lambda>_. 0) i remove_decide
       (\<lambda>c _ d. removeNode d i (vr_revision c))
       (\<lambda>_ result.
          case result of
            Inl e \<Rightarrow> Some (throw e)
          | Inr (Deleted _) \<Rightarrow> Some (resolve ())
          | Inr (NotDeleted reason _ _) \<Rightarrow>
              if reason = NotFound then Some (throw NotFoundError)
              else if reason = InvalidState \<or> reason = DependencyConflict then Some (throw ConflictError)
              else None)"

section \<open>Certificates\<close>

record signed_certificate =
  sc_certificatePem :: string
  sc_caCertificatePem :: string
  sc_expiresAt :: instant
  sc_serialNumber :: string
  sc_fingerprintSha256 :: string

definition certificateState :: "ident \<Rightarrow> signed_certificate \<Rightarrow> instant \<Rightarrow> node_certificate" where
  "certificateState nodeId c createdAt =
     \<lparr>cert_nodeId = nodeId, cert_serialNumber = sc_serialNumber c,
      cert_fingerprintSha256 = sc_fingerprintSha256 c, cert_expiresAt = sc_expiresAt c,
      cert_revokedAt = None, cert_createdAt = createdAt\<rparr>"

definition trusted_decide :: "cluster_node versioned option \<Rightarrow> 'a outcome + cluster_node versioned" where
  "trusted_decide current =
     (case current of
        None \<Rightarrow> Inl (throw NotFoundError)
      | Some c \<Rightarrow> if node_state (vr_value c) = NodeRevoked then Inl (throw NotFoundError) else Inr c)"

text \<open>The request of a certificate for a node, for seven days.\<close>

definition sign_for_node ::
    "(string \<Rightarrow> string \<Rightarrow> int \<Rightarrow> signed_certificate outcome) \<Rightarrow> ident \<Rightarrow> string \<Rightarrow> signed_certificate outcome" where
  "sign_for_node signCsr i csrPem = signCsr (''node:'' @ i) csrPem (7 * 24 * 60 * 60000)"

text \<open>The authority is the function \<^verbatim>\<open>signCsr\<close>, when one is configured.\<close>

definition signNodeCertificate ::
    "(string \<Rightarrow> string \<Rightarrow> int \<Rightarrow> signed_certificate outcome) option \<Rightarrow> ident \<Rightarrow> string \<Rightarrow> db \<Rightarrow>
       signed_certificate outcome" where
  "signNodeCertificate authority i csrPem d =
     (case trusted_decide (getVersionedNode d i) of
        Inl r \<Rightarrow> r
      | Inr _ \<Rightarrow>
          (case authority of
             None \<Rightarrow> throw ConflictError
           | Some signCsr \<Rightarrow> sign_for_node signCsr i csrPem))"

definition activateNodeCertificate ::
    "(nat \<Rightarrow> repo_op list) \<Rightarrow> instant \<Rightarrow> ident \<Rightarrow> signed_certificate \<Rightarrow> db \<Rightarrow> db \<times> signed_certificate outcome" where
  "activateNodeCertificate env rotatedAt i certificate =
     node_loop env (\<lambda>_. rotatedAt) i trusted_decide
       (\<lambda>c now d. rotateNodeCertificate d
          \<lparr>rot_nodeId = i, rot_expectedRevision = vr_revision c,
           rot_certificate = certificateState i certificate now, rot_updatedAt = now\<rparr>)
       (\<lambda>_ result.
          case result of
            Inl e \<Rightarrow> Some (throw e)
          | Inr w \<Rightarrow> settle_node (\<lambda>_. Some (throw NotFoundError)) (\<lambda>_. certificate) w)"

definition normalize_serial :: "string \<Rightarrow> string" where
  "normalize_serial s =
     (let t = dropWhile (\<lambda>c. c = CHR ''0'') (map lower_char (filter (\<lambda>c. c \<noteq> CHR '':'') s))
      in if t = [] then ''0'' else t)"

definition certificateIsActive :: "ident \<Rightarrow> string \<Rightarrow> string option \<Rightarrow> instant \<Rightarrow> db \<Rightarrow> bool" where
  "certificateIsActive nodeId serialNumber fingerprintSha256 now d =
     (case getNode d nodeId of
        None \<Rightarrow> False
      | Some n \<Rightarrow>
          node_state n \<noteq> NodeRevoked \<and>
          (case find (\<lambda>c. if truthy fingerprintSha256
                          then cert_fingerprintSha256 c = map lower_char (the fingerprintSha256)
                          else normalize_serial (cert_serialNumber c) = normalize_serial serialNumber)
                  (listNodeCertificates d nodeId) of
             None \<Rightarrow> False
           | Some c \<Rightarrow> cert_revokedAt c = None \<and> now < cert_expiresAt c))"

section \<open>Local registration and agent logs\<close>

definition registerLocal :: "instant \<Rightarrow> cluster_node \<Rightarrow> db \<Rightarrow> db \<times> cluster_node outcome" where
  "registerLocal now input d =
     (case ensureLocalNode d (input\<lparr>node_createdAt := now, node_lastHeartbeatAt := now, node_updatedAt := now\<rparr>) of
        (d', Inl e) \<Rightarrow> (d', throw e)
      | (d', Inr stored) \<Rightarrow> (d', resolve (vr_value stored)))"

definition agentLogRetentionRows :: "rat option \<Rightarrow> int" where
  "agentLogRetentionRows configured = max 1 \<lfloor>coalesce configured 1000\<rfloor>"

definition agentLogQueryLimit :: "rat option \<Rightarrow> int" where
  "agentLogQueryLimit configured = max 1 \<lfloor>coalesce configured 200\<rfloor>"

definition agent_logs :: "rat option \<Rightarrow> db \<Rightarrow> ident \<Rightarrow> rat option \<Rightarrow> agent_log_entry list" where
  "agent_logs configured d nodeId limit =
     listAgentLogs d nodeId
       (min (agentLogQueryLimit configured)
         (max 1 (case limit of None \<Rightarrow> agentLogQueryLimit configured | Some l \<Rightarrow> \<lfloor>l\<rfloor>)))"

definition recordLog :: "rat option \<Rightarrow> agent_log_entry \<Rightarrow> db \<Rightarrow> db \<times> cluster_effect list" where
  "recordLog configured entry d =
     (putAgentLog d entry (agentLogRetentionRows configured), [NodeLogEvent entry])"

section \<open>Deletion of a provider binding\<close>

definition after_deletion_attempts :: "app_error option \<Rightarrow> 'a outcome" where
  "after_deletion_attempts lastError = throw (coalesce lastError ConflictError)"

text \<open>
  The loops collect the last error instead of leaving with it; \<open>n\<close> attempts are left and
  \<open>env i\<close> happens before attempt \<open>i\<close>.
\<close>

fun begin_binding ::
    "(nat \<Rightarrow> repo_op list) \<Rightarrow> instant \<Rightarrow> ident \<Rightarrow> nat \<Rightarrow> nat \<Rightarrow> app_error option \<Rightarrow> db \<Rightarrow>
       db \<times> provider_binding versioned option outcome" where
  "begin_binding env updatedAt i k 0 lastError d = (d, after_deletion_attempts lastError)"
| "begin_binding env updatedAt i k (Suc n) lastError d =
     (case beginProviderBindingDeletion (run_ops (env k) d) i updatedAt of
        (d', Inl e) \<Rightarrow> begin_binding env updatedAt i (Suc k) n (Some e) d'
      | (d', Inr (Applied record)) \<Rightarrow> (d', resolve (Some record))
      | (d', Inr (Rejected reason _ _)) \<Rightarrow>
          if reason = NotFound then (d', resolve None)
          else begin_binding env updatedAt i (Suc k) n
                 (if reason = InvalidState then Some ConflictError else lastError) d')"

definition beginBindingDeletion ::
    "(nat \<Rightarrow> repo_op list) \<Rightarrow> instant \<Rightarrow> ident \<Rightarrow> db \<Rightarrow> db \<times> provider_binding versioned option outcome" where
  "beginBindingDeletion env updatedAt i = begin_binding env updatedAt i 0 CLUSTER_WRITE_ATTEMPTS None"

text \<open>\<open>env k\<close> happens before the finalisation of attempt \<open>k\<close>, \<open>benv k\<close> in the beginning after it.\<close>

fun finalize_binding ::
    "(nat \<Rightarrow> repo_op list) \<Rightarrow> (nat \<Rightarrow> nat \<Rightarrow> repo_op list) \<Rightarrow> (nat \<Rightarrow> instant) \<Rightarrow> ident \<Rightarrow> nat \<Rightarrow> nat \<Rightarrow> nat \<Rightarrow>
       app_error option \<Rightarrow> db \<Rightarrow> db \<times> unit outcome" where
  "finalize_binding env benv clock i k 0 expectedRevision lastError d = (d, after_deletion_attempts lastError)"
| "finalize_binding env benv clock i k (Suc n) expectedRevision lastError d =
     (case finalizeProviderBindingDeletion (run_ops (env k) d) i expectedRevision of
        (d1, first) \<Rightarrow>
          (case (case first of
                   Inl e \<Rightarrow> Inr (Some e)
                 | Inr (Deleted _) \<Rightarrow> Inl ()
                 | Inr (NotDeleted reason _ _) \<Rightarrow>
                     if reason = NotFound then Inl ()
                     else Inr (if reason = InvalidState then Some ConflictError else None)) of
             Inl _ \<Rightarrow> (d1, resolve ())
           | Inr attemptError \<Rightarrow>
               (case beginBindingDeletion (benv k) (clock k) i d1 of
                  (d2, Inl e) \<Rightarrow> finalize_binding env benv clock i (Suc k) n expectedRevision (Some e) d2
                | (d2, Inr None) \<Rightarrow> (d2, resolve ())
                | (d2, Inr (Some pending)) \<Rightarrow>
                    finalize_binding env benv clock i (Suc k) n (vr_revision pending) attemptError d2)))"

definition finalizeBindingDeletion ::
    "(nat \<Rightarrow> repo_op list) \<Rightarrow> (nat \<Rightarrow> nat \<Rightarrow> repo_op list) \<Rightarrow> (nat \<Rightarrow> instant) \<Rightarrow> ident \<Rightarrow> nat \<Rightarrow> db \<Rightarrow> db \<times> unit outcome" where
  "finalizeBindingDeletion env benv clock i initialRevision =
     finalize_binding env benv clock i 0 CLUSTER_WRITE_ATTEMPTS initialRevision None"

section \<open>Routes and placements\<close>

definition clusterSelectEdge ::
    "(edge_request \<Rightarrow> cluster_node list \<Rightarrow> cluster_node option) \<Rightarrow> (nat \<Rightarrow> nat \<Rightarrow> repo_op list) \<Rightarrow>
       (nat \<Rightarrow> nat \<Rightarrow> instant) \<Rightarrow> instant \<Rightarrow> instant \<Rightarrow> ident \<Rightarrow> string option \<Rightarrow> string option \<Rightarrow> db \<Rightarrow>
       db \<times> cluster_effect list \<times> edge_route option outcome" where
  "clusterSelectEdge select env clock now now' sessionId preferredRegion viewerRegion d =
     (case listNodes env clock now d of
        (d', Inl e) \<Rightarrow> (d', [], throw e)
      | (d', Inr nodes) \<Rightarrow>
          (case route_for select nodes sessionId preferredRegion viewerRegion now' of
             None \<Rightarrow> (d', [], resolve None)
           | Some route \<Rightarrow> (d', [RouteSelectedEvent route], resolve (Some route))))"

definition clusterPreviewPlacement ::
    "(nat \<Rightarrow> nat \<Rightarrow> repo_op list) \<Rightarrow> (nat \<Rightarrow> nat \<Rightarrow> instant) \<Rightarrow> instant \<Rightarrow> placement_input \<Rightarrow> db \<Rightarrow>
       db \<times> (cluster_node option \<times> string) outcome" where
  "clusterPreviewPlacement env clock now i d =
     (case listNodes env clock now d of
        (d', Inl e) \<Rightarrow> (d', throw e)
      | (d', Inr nodes) \<Rightarrow> (d', resolve (previewPlacement nodes i)))"

end
