(* ===== verification/RelayClusterFacts.thy ===== *)
theory RelayClusterFacts
  imports RelayCluster
begin

text \<open>
  Facts about the cluster service: every loop is a history of repository operations, so what
  histories keep holds across it; what a revocation and a rotation leave behind; how the
  listing of the nodes demotes silent ones; the end of a binding deletion.
\<close>

section \<open>Loops are histories\<close>

definition by_history :: "(repo_op \<Rightarrow> bool) \<Rightarrow> db \<Rightarrow> db \<Rightarrow> bool" where
  "by_history Q d d' \<longleftrightarrow> (\<exists>xs. d' = run_ops xs d \<and> (\<forall>x \<in> set xs. Q x))"

lemma by_history_refl [simp]: "by_history Q d d"
  unfolding by_history_def by (rule exI[of _ "[]"]) simp

lemma by_history_trans: "by_history Q d d1 \<Longrightarrow> by_history Q d1 d2 \<Longrightarrow> by_history Q d d2"
  unfolding by_history_def by (metis run_ops_append set_append Un_iff)

lemma by_history_env [intro]: "\<forall>x \<in> set xs. Q x \<Longrightarrow> by_history Q d (run_ops xs d)"
  unfolding by_history_def by blast

lemma by_history_op: "Q x \<Longrightarrow> by_history Q d (exec_op x d)"
  using by_history_env[of "[x]" Q d] by simp

lemma by_history_mono: "by_history Q d d' \<Longrightarrow> (\<And>x. Q x \<Longrightarrow> Q' x) \<Longrightarrow> by_history Q' d d'"
  unfolding by_history_def by blast

lemma reachable_history: "reachable_db d \<Longrightarrow> by_history typed_op d d' \<Longrightarrow> reachable_db d'"
  unfolding by_history_def using reachable_run by blast

text \<open>An attempt that read nothing to write leaves the database after the first interference.\<close>

lemma node_attempt_cases:
  assumes "node_attempt env clock i decide change settle k d = (d', q)"
  obtains (left) r where "decide (getVersionedNode (run_ops (env (2 * k)) d) i) = Inl r"
      "d' = run_ops (env (2 * k)) d" "q = Some r"
  | (wrote) c x where "decide (getVersionedNode (run_ops (env (2 * k)) d) i) = Inr c"
      "change c (clock k) (run_ops (env (2 * k + 1)) (run_ops (env (2 * k)) d)) = (d', x)" "q = settle c x"
  using assms unfolding node_attempt_def Let_def
  by (auto split: sum.splits prod.splits)

lemma node_attempt_history:
  assumes own: "\<And>c t v. by_history Q v (fst (change c t v))" and env: "\<And>j. \<forall>x \<in> set (env j). Q x"
  shows "by_history Q d (fst (node_attempt env clock i decide change settle k d))"
proof -
  obtain d' q where eq: "node_attempt env clock i decide change settle k d = (d', q)" by fastforce
  from eq show ?thesis
  proof (cases rule: node_attempt_cases)
    case (left r)
    then show ?thesis using by_history_env[OF env] eq by simp
  next
    case (wrote c x)
    let ?v = "run_ops (env (2 * k + 1)) (run_ops (env (2 * k)) d)"
    have "by_history Q d ?v"
      by (rule by_history_trans[OF by_history_env[OF env] by_history_env[OF env]])
    moreover have "by_history Q ?v d'" using own[of ?v c "clock k"] wrote(2) by simp
    ultimately show ?thesis using by_history_trans eq by simp
  qed
qed

lemma node_loop_history:
  assumes "\<And>c t v. by_history Q v (fst (change c t v))" and "\<And>j. \<forall>x \<in> set (env j). Q x"
  shows "by_history Q d (fst (node_loop env clock i decide change settle d))"
  unfolding node_loop_def
proof (rule retry_rel[where R = "by_history Q"])
  show "by_history Q v (fst (node_attempt env clock i decide change settle j v))" for j v
    by (rule node_attempt_history[OF assms])
qed (simp, erule (1) by_history_trans)

text \<open>Where a result comes from: exhaustion, the read, or the write of some attempt.\<close>

lemma node_loop_cases:
  assumes own: "\<And>c t v. by_history Q v (fst (change c t v))" and env: "\<And>j. \<forall>x \<in> set (env j). Q x"
    and result: "node_loop env clock i decide change settle d = (d', r)"
  obtains (exhausted) "r = throw ConflictError"
  | (left) "by_history Q d d'" "decide (getVersionedNode d' i) = Inl r"
  | (wrote) v c j v' x where "by_history Q d v" "decide (getVersionedNode v i) = Inr c"
      "by_history Q v v'" "change c (clock j) v' = (d', x)" "settle c x = Some r"
proof -
  have "(r = throw ConflictError \<and> by_history Q d d') \<or>
      (\<exists>j v. by_history Q d v \<and> node_attempt env clock i decide change settle j v = (d', Some r))"
  proof (rule retry_result)
    show "by_history Q d (fst (node_attempt env clock i decide change settle j v))" if "by_history Q d v" for j v
      by (rule by_history_trans[OF that]) (rule node_attempt_history[OF own env])
    show "retry 0 CLUSTER_WRITE_ATTEMPTS (node_attempt env clock i decide change settle) (throw ConflictError) d = (d', r)"
      using result by (simp add: node_loop_def)
  qed simp
  then show thesis
  proof (elim disjE exE conjE)
    fix j v
    assume v: "by_history Q d v" and a: "node_attempt env clock i decide change settle j v = (d', Some r)"
    have start: "by_history Q d (run_ops (env (2 * j)) v)"
      by (rule by_history_trans[OF v]) (rule by_history_env[OF env])
    from a show thesis
    proof (cases rule: node_attempt_cases)
      case (left s)
      then show thesis using that(2) start by simp
    next
      case (wrote c x)
      show thesis
        by (rule that(3)[OF start wrote(1) by_history_env[OF env] wrote(2)]) (simp add: wrote(3))
    qed
  qed (use that(1) in blast)
qed

text \<open>The own writes of the loops.\<close>

lemma node_write_history:
  "Q (NodeOp (OpHeartbeat h)) \<Longrightarrow> by_history Q d (fst (recordNodeHeartbeat d h))"
  "Q (NodeOp (OpDrain w)) \<Longrightarrow> by_history Q d (fst (setNodeDrain d w))"
  "Q (NodeOp (OpOperational s)) \<Longrightarrow> by_history Q d (fst (setNodeOperationalState d s))"
  "Q (NodeOp (OpRevokeNode v)) \<Longrightarrow> by_history Q d (fst (revokeNode d v))"
  "Q (NodeOp (OpRotate t)) \<Longrightarrow> by_history Q d (fst (rotateNodeCertificate d t))"
  "Q (NodeOp (OpRemoveNode i e)) \<Longrightarrow> by_history Q d (fst (removeNode d i e))"
  "Q (NodeOp (OpCreateNode n c)) \<Longrightarrow> by_history Q d (fst (createNode d n c))"
  "Q (NodeOp (OpEnsureLocalNode n)) \<Longrightarrow> by_history Q d (fst (ensureLocalNode d n))"
  by (drule by_history_op[where d = d]; simp)+

section \<open>Revocation\<close>

lemma revokeNode_applied:
  assumes keys: "keys_ok (db_nodes d)" and applied: "revokeNode d u = (d', Applied entry)"
  shows "\<exists>r. map_of (db_nodes d') (rev_nodeId u) = Some r \<and> row_json r = vr_value entry \<and>
             node_state (row_json r) = NodeRevoked"
proof -
  obtain c where c: "getVersionedNode d (rev_nodeId u) = Some c" "vr_revision c = rev_expectedRevision u"
    using applied by (auto simp: revokeNode_def split: option.splits if_splits)
  then obtain r where r: "map_of (db_nodes d) (rev_nodeId u) = Some r" "c = versioned (row_json r) (row_revision r)"
    by (auto simp: getVersionedNode_def get_versioned_Some)
  let ?n = "(vr_value c)\<lparr>node_state := NodeRevoked, node_updatedAt := rev_revokedAt u\<rparr>"
  have snd: "snd (cas_node d (rev_nodeId u) ?n (rev_revokedAt u) (rev_expectedRevision u) []) =
      Applied (versioned ?n (Suc (rev_expectedRevision u)))"
    using r c by (simp add: cas_node_def Let_def case_prod_beta cas_snd[OF keys])
  let ?d1 = "fst (cas_node d (rev_nodeId u) ?n (rev_revokedAt u) (rev_expectedRevision u) [])"
  from applied c snd have eq: "d' = revokeNodeCertificates (revoke_bindings_of ?d1 (rev_nodeId u) (rev_revokedAt u))
      (rev_nodeId u) (rev_revokedAt u)" "entry = versioned ?n (Suc (rev_expectedRevision u))"
    by (simp_all add: revokeNode_def Let_def case_prod_beta)
  have "map_of (db_nodes d') (rev_nodeId u) = Some (bump_row ?n (rev_revokedAt u) r)"
    using r c eq(1) by (simp add: revokeNodeCertificates_def revoke_bindings_of_def cas_node_row cas_cond_def)
  then show ?thesis using eq(2) by simp
qed

lemma revoke_resolved:
  assumes "reachable_db d" and "\<And>j. \<forall>x \<in> set (env j). typed_op x"
    and "revoke env now i d = (d', effects, resolve n)"
  shows "reachable_db d' \<and> effects = [RevocationMessage i now, NodeRevokedEvent i] \<and>
         (\<exists>r. map_of (db_nodes d') i = Some r \<and> row_json r = n \<and> node_state n = NodeRevoked)"
proof -
  let ?change = "\<lambda>c now d. revokeNode d \<lparr>rev_nodeId = i, rev_expectedRevision = vr_revision c, rev_revokedAt = now\<rparr>"
  have own: "by_history typed_op v (fst (?change c t v))" for c t v
    by (rule node_write_history) simp
  have loop: "node_loop env (\<lambda>_. now) i need_node ?change (\<lambda>_. settle_node (\<lambda>_. None) vr_value) d = (d', resolve n)"
    and effects: "effects = [RevocationMessage i now, NodeRevokedEvent i]"
    using assms(3) by (auto simp: revoke_def split: prod.splits sum.splits)
  from own assms(2) loop show ?thesis
  proof (cases rule: node_loop_cases)
    case (wrote v c j v' x)
    then obtain entry where x: "x = Applied entry" "vr_value entry = n"
      by (auto simp: settle_node_def split: write_result.splits if_splits)
    have "reachable_db v'" using assms(1) wrote(1,3) reachable_history by blast
    then have keys: "keys_ok (db_nodes v')" using keys_uniqueD(6) refs_okD(1) reachable_refs_ok by blast
    have "by_history typed_op v' d'" using own[of v' c now] wrote(4) by simp
    with \<open>reachable_db v'\<close> have "reachable_db d'" by (rule reachable_history)
    then show ?thesis using revokeNode_applied[OF keys wrote(4)[unfolded x]] x effects by auto
  qed (auto simp: need_node_def split: option.splits)
qed

text \<open>What a revoked node meets afterwards.\<close>

lemma revoked_locked_out:
  assumes "map_of (db_nodes d) i = Some r" "node_state (row_json r) = NodeRevoked"
  shows "\<not> certificateIsActive i serial fingerprint now d"
    and "signNodeCertificate authority i csr d = throw NotFoundError"
    and "env 0 = [] \<Longrightarrow> heartbeat env clock i capabilities st d = (d, resolve (row_json r))"
    and "env 0 = [] \<Longrightarrow> activateNodeCertificate env t i certificate d = (d, throw NotFoundError)"
proof -
  have read: "getVersionedNode d i = Some (versioned (row_json r) (row_revision r))"
    using assms by (simp add: getVersionedNode_def get_versioned_Some)
  show "\<not> certificateIsActive i serial fingerprint now d"
    using assms by (simp add: certificateIsActive_def getNode_def get_json_versioned get_versioned_def)
  show "signNodeCertificate authority i csr d = throw NotFoundError"
    using read assms by (simp add: signNodeCertificate_def trusted_decide_def)
  show "heartbeat env clock i capabilities st d = (d, resolve (row_json r))" if "env 0 = []"
    using read assms that
    by (simp add: heartbeat_def node_loop_def CLUSTER_WRITE_ATTEMPTS_def eval_nat_numeral
        node_attempt_def heartbeat_decide_def)
  show "activateNodeCertificate env t i certificate d = (d, throw NotFoundError)" if "env 0 = []"
    using read assms that
    by (simp add: activateNodeCertificate_def node_loop_def CLUSTER_WRITE_ATTEMPTS_def eval_nat_numeral
        node_attempt_def trusted_decide_def)
qed

section \<open>Rotation\<close>

lemma active_cert_stored:
  "putNodeCertificate d c = Some d' \<Longrightarrow> cert_revokedAt c = None \<Longrightarrow> active_cert d' (cert_serialNumber c) c"
  by (auto simp: putNodeCertificate_def sql_insert_Some active_cert_def map_of_snoc fresh_row_def)

lemma rotate_applied:
  assumes "rotateNodeCertificate d u = (d', resolve (Applied entry))"
  shows "active_cert d' (cert_serialNumber (rot_certificate u)) (rot_certificate u) \<and>
         (\<forall>s x. active_cert d' s x \<longrightarrow> cert_nodeId x = rot_nodeId u \<longrightarrow>
            s = cert_serialNumber (rot_certificate u) \<and> x = rot_certificate u)"
proof -
  have ids: "cert_nodeId (rot_certificate u) = rot_nodeId u" "cert_revokedAt (rot_certificate u) = None"
    using assms by (auto simp: rotateNodeCertificate_def split: if_splits)
  have "\<exists>d1. putNodeCertificate (revokeNodeCertificates d1 (rot_nodeId u) (rot_updatedAt u)) (rot_certificate u) = Some d'"
    using assms by (auto simp: rotateNodeCertificate_def Let_def case_prod_beta split: if_splits option.splits)
  then obtain d1 where put:
    "putNodeCertificate (revokeNodeCertificates d1 (rot_nodeId u) (rot_updatedAt u)) (rot_certificate u) = Some d'" ..
  show ?thesis
    using active_cert_stored[OF put ids(2)] active_cert_put[OF put] by (auto simp: active_cert_revoke)
qed

lemma certificateState_serial [simp]: "cert_serialNumber (certificateState i c t) = sc_serialNumber c"
  by (simp add: certificateState_def)

lemma activate_resolved:
  assumes "\<And>j. \<forall>x \<in> set (env j). typed_op x"
    and "activateNodeCertificate env t i certificate d = (d', resolve c)"
  shows "c = certificate \<and> by_history typed_op d d' \<and>
         active_cert d' (sc_serialNumber certificate) (certificateState i certificate t) \<and>
         (\<forall>s x. active_cert d' s x \<longrightarrow> cert_nodeId x = i \<longrightarrow>
            s = sc_serialNumber certificate \<and> x = certificateState i certificate t)"
proof -
  let ?u = "\<lambda>c now. \<lparr>rot_nodeId = i, rot_expectedRevision = vr_revision c,
     rot_certificate = certificateState i certificate now, rot_updatedAt = now\<rparr>"
  let ?change = "\<lambda>c now d. rotateNodeCertificate d (?u c now)"
  let ?settle = "\<lambda>_ result. case result of Inl e \<Rightarrow> Some (throw e)
      | Inr w \<Rightarrow> settle_node (\<lambda>_. Some (throw NotFoundError)) (\<lambda>_. certificate) w"
  have own: "by_history typed_op v (fst (?change c t v))" for c t v
    by (rule node_write_history) simp
  have loop: "node_loop env (\<lambda>_. t) i trusted_decide ?change ?settle d = (d', resolve c)"
    using assms(2) by (simp add: activateNodeCertificate_def)
  from own assms(1) loop show ?thesis
  proof (cases rule: node_loop_cases)
    case (wrote v n j v' x)
    then obtain entry where x: "x = resolve (Applied entry)" "c = certificate"
      by (auto simp: settle_node_def split: sum.splits write_result.splits if_splits)
    have "by_history typed_op d d'"
      using by_history_trans[OF by_history_trans[OF wrote(1,3)] own[of v' n t]] wrote(4) by simp
    then show ?thesis
      using rotate_applied[of v' "?u n t" d' entry] wrote(4) x by simp
  qed (auto simp: trusted_decide_def split: option.splits if_splits)
qed

end
