(* ===== verification/RelayListing.thy ===== *)
theory RelayListing
  imports RelayClusterFacts
begin

text \<open>
  The listing of the nodes and the deletion of provider bindings by the cluster service,
  without interference: silent nodes are demoted, no node is brought back, a node listed as
  online has been heard of, and the finalisation of a binding always ends it.
\<close>

section \<open>One demotion\<close>

abbreviation undisturbed :: "nat \<Rightarrow> repo_op list" where
  "undisturbed \<equiv> \<lambda>_. []"

definition demoted_node :: "node_state \<Rightarrow> instant \<Rightarrow> cluster_node \<Rightarrow> cluster_node" where
  "demoted_node st t n = n\<lparr>node_state := st, node_updatedAt := t\<rparr>"

lemma demoted_node_simps [simp]:
  "node_id (demoted_node st t n) = node_id n"
  "node_state (demoted_node st t n) = st"
  "node_updatedAt (demoted_node st t n) = t"
  "node_lastHeartbeatAt (demoted_node st t n) = node_lastHeartbeatAt n"
  by (simp_all add: demoted_node_def)

lemma operational_write:
  fixes st :: node_state and t :: instant and d :: db and i :: ident and r :: "cluster_node row"
  assumes keys: "keys_ok (db_nodes d)" and row: "map_of (db_nodes d) i = Some r"
    and id: "node_id (row_json r) = i"
    and free: "node_state (row_json r) \<noteq> NodeDraining" "node_state (row_json r) \<noteq> NodeRevoked"
  defines "result \<equiv> setNodeOperationalState d
      \<lparr>op_nodeId = i, op_expectedRevision = row_revision r, op_state = st, op_updatedAt = t\<rparr>"
  shows "snd result = Applied (versioned (demoted_node st t (row_json r)) (Suc (row_revision r)))"
    and "map_of (db_nodes (fst result)) k =
           (if k = i then Some (bump_row (demoted_node st t (row_json r)) t r) else map_of (db_nodes d) k)"
    and "keys_ok (db_nodes (fst result))"
proof -
  have allowed: "node_state (row_json r) \<in> {NodeJoining, NodeOnline, NodeDegraded, NodeOffline}"
    using free by (cases "node_state (row_json r)") auto
  have eq: "result = cas_node d i (demoted_node st t (row_json r)) t (row_revision r)
      [NodeJoining, NodeOnline, NodeDegraded, NodeOffline]"
    using row free id unfolding result_def
    by (simp add: setNodeOperationalState_def getVersionedNode_def get_versioned_def Let_def demoted_node_def)
  show "snd result = Applied (versioned (demoted_node st t (row_json r)) (Suc (row_revision r)))"
    using row allowed unfolding eq by (simp add: cas_node_def Let_def case_prod_beta cas_snd[OF keys])
  show "map_of (db_nodes (fst result)) k =
      (if k = i then Some (bump_row (demoted_node st t (row_json r)) t r) else map_of (db_nodes d) k)"
    using row allowed unfolding eq by (auto simp: cas_node_row cas_cond_def)
  show "keys_ok (db_nodes (fst result))"
    unfolding eq using keys by (simp add: cas_node_def Let_def case_prod_beta)
qed

lemma setOperationalState_quiet:
  assumes keys: "keys_ok (db_nodes d)" and row: "map_of (db_nodes d) i = Some r"
    and id: "node_id (row_json r) = i"
    and free: "sel (row_json r) \<noteq> None \<Longrightarrow>
      node_state (row_json r) \<noteq> NodeDraining \<and> node_state (row_json r) \<noteq> NodeRevoked"
  shows "case sel (row_json r) of
           None \<Rightarrow> setOperationalState undisturbed clock sel i d = (d, resolve (Some (row_json r)))
         | Some st \<Rightarrow> \<exists>d'. setOperationalState undisturbed clock sel i d =
               (d', resolve (Some (demoted_node st (clock 0) (row_json r)))) \<and>
             keys_ok (db_nodes d') \<and>
             map_of (db_nodes d') = (map_of (db_nodes d))(i \<mapsto> bump_row (demoted_node st (clock 0) (row_json r)) (clock 0) r)"
proof -
  have read: "getVersionedNode d i = Some (versioned (row_json r) (row_revision r))"
    using row by (simp add: getVersionedNode_def get_versioned_Some)
  show ?thesis
  proof (cases "sel (row_json r)")
    case None
    then show ?thesis using read
      by (simp add: setOperationalState_def node_loop_def CLUSTER_WRITE_ATTEMPTS_def eval_nat_numeral
          node_attempt_def operational_decide_def)
  next
    case (Some st)
    let ?w = "setNodeOperationalState d
        \<lparr>op_nodeId = i, op_expectedRevision = row_revision r, op_state = st, op_updatedAt = clock 0\<rparr>"
    note stored = operational_write[OF keys row id, of st "clock 0"] free[unfolded Some]
    have snd_w: "snd ?w = Applied (versioned (demoted_node st (clock 0) (row_json r)) (Suc (row_revision r)))"
      using stored by simp
    have "node_attempt undisturbed clock i (operational_decide sel)
       (\<lambda>c now d. setNodeOperationalState d
          \<lparr>op_nodeId = i, op_expectedRevision = vr_revision c, op_state = the (sel (vr_value c)), op_updatedAt = now\<rparr>)
       (\<lambda>c result. case result of Applied entry \<Rightarrow> Some (resolve (Some (vr_value entry)))
          | Rejected reason cur x \<Rightarrow>
              if reason = NotFound then Some (resolve None)
              else if reason = InvalidState then Some (resolve (Some (vr_value (coalesce cur c)))) else None) 0 d =
        (fst ?w, Some (resolve (Some (demoted_node st (clock 0) (row_json r)))))"
      using read Some snd_w by (simp add: node_attempt_def operational_decide_def case_prod_beta)
    then have "setOperationalState undisturbed clock sel i d =
        (fst ?w, resolve (Some (demoted_node st (clock 0) (row_json r))))"
      unfolding setOperationalState_def node_loop_def CLUSTER_WRITE_ATTEMPTS_def eval_nat_numeral
      by (rule retry_first)
    moreover have "map_of (db_nodes (fst ?w)) =
        (map_of (db_nodes d))(i \<mapsto> bump_row (demoted_node st (clock 0) (row_json r)) (clock 0) r)"
      using stored by (simp add: fun_eq_iff)
    ultimately show ?thesis using Some stored by simp
  qed
qed

section \<open>The listing\<close>

text \<open>How a row may change: not at all, or from an active state of a silent node to a lower one.\<close>

definition silent_step :: "instant \<Rightarrow> cluster_node row option \<Rightarrow> cluster_node row option \<Rightarrow> bool" where
  "silent_step before q q' \<longleftrightarrow>
     q' = q \<or>
     (\<exists>r t st. q = Some r \<and> q' = Some (bump_row (demoted_node st t (row_json r)) t r) \<and>
        node_state (row_json r) \<in> {NodeJoining, NodeOnline, NodeDegraded} \<and>
        node_lastHeartbeatAt (row_json r) < before \<and> st \<in> {NodeDegraded, NodeOffline})"

definition listed_as :: "db \<Rightarrow> cluster_node \<Rightarrow> bool" where
  "listed_as d n \<longleftrightarrow> (\<exists>r. map_of (db_nodes d) (node_id n) = Some r \<and> row_json r = n)"

lemma list_state_cases:
  assumes "list_state degradedBefore staleBefore n = Some sel" and "staleBefore \<le> degradedBefore"
  shows "case sel n of
           None \<Rightarrow> node_state n = NodeDraining
         | Some st \<Rightarrow> node_state n \<in> {NodeJoining, NodeOnline, NodeDegraded} \<and>
             node_lastHeartbeatAt n < degradedBefore \<and> st \<in> {NodeDegraded, NodeOffline}"
  using assms by (cases "node_state n") (auto simp: list_state_def offline_state_def degraded_state_def split: if_splits)

lemma list_one_quiet:
  assumes keys: "keys_ok (db_nodes d)" and listed: "listed_as d n" and before: "staleBefore \<le> degradedBefore"
    and sel: "list_state degradedBefore staleBefore n = Some sel"
  obtains d' m where "setOperationalState undisturbed clock sel (node_id n) d = (d', resolve (Some m))"
    "keys_ok (db_nodes d')" "listed_as d' m" "node_id m = node_id n" "node_state m \<noteq> NodeOnline"
    "\<And>k. k \<noteq> node_id n \<Longrightarrow> map_of (db_nodes d') k = map_of (db_nodes d) k"
    "silent_step degradedBefore (map_of (db_nodes d) (node_id n)) (map_of (db_nodes d') (node_id n))"
proof -
  obtain r where r: "map_of (db_nodes d) (node_id n) = Some r" "row_json r = n"
    using listed by (auto simp: listed_as_def)
  note cases = list_state_cases[OF sel before]
  have free: "node_state (row_json r) \<noteq> NodeDraining \<and> node_state (row_json r) \<noteq> NodeRevoked"
    if "sel (row_json r) \<noteq> None"
    using cases that r(2) by auto
  have id: "node_id (row_json r) = node_id n" by (simp add: r(2))
  note quiet = setOperationalState_quiet[where clock = clock and sel = sel, OF keys r(1) id free, unfolded r(2)]
  show thesis
  proof (cases "sel n")
    case None
    with quiet have "setOperationalState undisturbed clock sel (node_id n) d = (d, resolve (Some n))" by simp
    then show thesis using that[of d n] None cases keys listed by (simp add: silent_step_def)
  next
    case (Some st)
    with quiet obtain d' where d': "setOperationalState undisturbed clock sel (node_id n) d =
        (d', resolve (Some (demoted_node st (clock 0) n)))" "keys_ok (db_nodes d')"
      "map_of (db_nodes d') = (map_of (db_nodes d))(node_id n \<mapsto> bump_row (demoted_node st (clock 0) n) (clock 0) r)"
      by auto
    show thesis
    proof (rule that[OF d'(1,2)])
      show "listed_as d' (demoted_node st (clock 0) n)" by (simp add: listed_as_def d'(3))
      show "node_state (demoted_node st (clock 0) n) \<noteq> NodeOnline" using Some cases by auto
      show "silent_step degradedBefore (map_of (db_nodes d) (node_id n)) (map_of (db_nodes d') (node_id n))"
        using Some cases r by (auto simp: silent_step_def d'(3))
    qed (simp_all add: d'(3))
  qed
qed

lemma list_nodes_quiet:
  assumes "keys_ok (db_nodes d)" and "staleBefore \<le> degradedBefore"
    and "\<forall>n \<in> set ns. listed_as d n" and "distinct (map node_id ns)"
  shows "\<exists>d' ms. list_nodes (\<lambda>_. undisturbed) clock degradedBefore staleBefore k ns d = (d', resolve ms) \<and>
    map node_id ms = map node_id ns \<and>
    (\<forall>m \<in> set ms. listed_as d' m \<and>
       (node_state m = NodeOnline \<longrightarrow> degradedBefore \<le> node_lastHeartbeatAt m)) \<and>
    (\<forall>i. silent_step degradedBefore (map_of (db_nodes d) i) (map_of (db_nodes d') i)) \<and>
    (\<forall>i. i \<notin> node_id ` set ns \<longrightarrow> map_of (db_nodes d') i = map_of (db_nodes d) i)"
  using assms
proof (induction ns arbitrary: d k)
  case Nil
  then show ?case by (simp add: silent_step_def)
next
  case (Cons n ns)
  have head: "\<exists>d1 m. (case list_state degradedBefore staleBefore n of
              None \<Rightarrow> (d, resolve n)
            | Some sel \<Rightarrow> (case setOperationalState undisturbed (clock k) sel (node_id n) d of
                   (d', Inl e) \<Rightarrow> (d', throw e)
                 | (d', Inr updated) \<Rightarrow> (d', resolve (coalesce updated n)))) = (d1, resolve m) \<and>
      keys_ok (db_nodes d1) \<and> listed_as d1 m \<and> node_id m = node_id n \<and>
      (node_state m = NodeOnline \<longrightarrow> degradedBefore \<le> node_lastHeartbeatAt m) \<and>
      (\<forall>j. j \<noteq> node_id n \<longrightarrow> map_of (db_nodes d1) j = map_of (db_nodes d) j) \<and>
      silent_step degradedBefore (map_of (db_nodes d) (node_id n)) (map_of (db_nodes d1) (node_id n))"
  proof (cases "list_state degradedBefore staleBefore n")
    case None
    have "degradedBefore \<le> node_lastHeartbeatAt n" if "node_state n = NodeOnline"
      using None that by (auto simp: list_state_def split: if_splits)
    then show ?thesis using None Cons.prems by (simp add: silent_step_def)
  next
    case (Some sel)
    have listed: "listed_as d n" using Cons.prems(3) by simp
    show ?thesis
      by (rule list_one_quiet[OF Cons.prems(1) listed Cons.prems(2) Some, of "clock k"]) (simp add: Some)
  qed
  then obtain d1 m where one: "list_nodes (\<lambda>_. undisturbed) clock degradedBefore staleBefore k (n # ns) d =
        (case list_nodes (\<lambda>_. undisturbed) clock degradedBefore staleBefore (Suc k) ns d1 of
             (d2, Inl e) \<Rightarrow> (d2, throw e)
           | (d2, Inr ms) \<Rightarrow> (d2, resolve (m # ms)))"
    and m: "keys_ok (db_nodes d1)" "listed_as d1 m" "node_id m = node_id n"
      "node_state m = NodeOnline \<longrightarrow> degradedBefore \<le> node_lastHeartbeatAt m"
    and same: "\<And>j. j \<noteq> node_id n \<Longrightarrow> map_of (db_nodes d1) j = map_of (db_nodes d) j"
    and step: "silent_step degradedBefore (map_of (db_nodes d) (node_id n)) (map_of (db_nodes d1) (node_id n))"
    by auto
  have others: "node_id x \<noteq> node_id n" if "x \<in> set ns" for x
    using Cons.prems(4) that by (metis distinct.simps(2) image_eqI list.set_map list.simps(9))
  have "\<forall>x \<in> set ns. listed_as d1 x"
    using Cons.prems(3) same others by (simp add: listed_as_def)
  from Cons.IH[OF m(1) Cons.prems(2) this, of "Suc k"] Cons.prems(4)
  obtain d' ms where rest: "list_nodes (\<lambda>_. undisturbed) clock degradedBefore staleBefore (Suc k) ns d1 = (d', resolve ms)"
      "map node_id ms = map node_id ns"
      "\<forall>m \<in> set ms. listed_as d' m \<and> (node_state m = NodeOnline \<longrightarrow> degradedBefore \<le> node_lastHeartbeatAt m)"
      "\<forall>i. silent_step degradedBefore (map_of (db_nodes d1) i) (map_of (db_nodes d') i)"
      "\<forall>i. i \<notin> node_id ` set ns \<longrightarrow> map_of (db_nodes d') i = map_of (db_nodes d1) i"
    by auto
  have kept: "map_of (db_nodes d') (node_id n) = map_of (db_nodes d1) (node_id n)"
    using rest(5) others by (metis imageE)
  have "silent_step degradedBefore (map_of (db_nodes d) i) (map_of (db_nodes d') i)" for i
    using step kept rest(4) same[of i] by (cases "i = node_id n") (auto dest: spec[of _ i])
  moreover have "listed_as d' m" using m(2,3) kept by (simp add: listed_as_def)
  moreover have "map_of (db_nodes d') i = map_of (db_nodes d) i" if "i \<notin> node_id ` set (n # ns)" for i
    using rest(5) same that by simp
  ultimately show ?case using one rest(1-3) m by simp
qed

lemma listNodes_quiet:
  assumes keys: "keys_ok (db_nodes d)" and ids: "node_ids_ok d"
  shows "\<exists>d' ms. listNodes (\<lambda>_. undisturbed) clock now d = (d', resolve ms) \<and>
    node_id ` set ms = dom (map_of (db_nodes d)) \<and>
    (\<forall>m \<in> set ms. listed_as d' m \<and> (node_state m = NodeOnline \<longrightarrow> now - 45000 \<le> node_lastHeartbeatAt m)) \<and>
    (\<forall>i. silent_step (now - 45000) (map_of (db_nodes d) i) (map_of (db_nodes d') i))"
proof -
  let ?rows = "order_desc (\<lambda>p. row_date (snd p)) (db_nodes d)"
  have mem: "map_of (db_nodes d) k = Some r" if "(k, r) \<in> set ?rows" for k r
    using that map_of_is_SomeI[OF keys] by simp
  have id: "node_id (row_json r) = k" if "(k, r) \<in> set ?rows" for k r
    using mem[OF that] ids by (simp add: node_ids_ok_def)
  have ids_rows: "map node_id (repoListNodes d) = map fst ?rows"
    unfolding repoListNodes_def jsons_def by (simp add: id)
  have "\<forall>n \<in> set (repoListNodes d). listed_as d n"
    unfolding repoListNodes_def jsons_def using mem id by (auto simp: listed_as_def)
  moreover have "distinct (map fst ?rows)"
  proof -
    have "mset (map fst ?rows) = mset (map fst (db_nodes d))" by (simp add: order_desc_def)
    then show ?thesis using keys by (metis mset_eq_imp_distinct_iff)
  qed
  then have "distinct (map node_id (repoListNodes d))" by (simp only: ids_rows)
  ultimately obtain d' ms where run: "listNodes (\<lambda>_. undisturbed) clock now d = (d', resolve ms)"
      "map node_id ms = map node_id (repoListNodes d)"
      "\<forall>m \<in> set ms. listed_as d' m \<and> (node_state m = NodeOnline \<longrightarrow> now - 45000 \<le> node_lastHeartbeatAt m)"
      "\<forall>i. silent_step (now - 45000) (map_of (db_nodes d) i) (map_of (db_nodes d') i)"
    unfolding listNodes_def
    using list_nodes_quiet[OF keys, of "now - 90000" "now - 45000" "repoListNodes d" clock 0] by auto
  have "node_id ` set ms = fst ` set ?rows"
    using arg_cong[OF trans[OF run(2) ids_rows], of set] by simp
  then have "node_id ` set ms = dom (map_of (db_nodes d))" by (simp add: dom_map_of_conv_image_fst)
  with run show ?thesis by blast
qed

section \<open>The end of a provider binding\<close>

lemma begin_deletion_row:
  assumes keys: "keys_ok (db_bindings d)" and row: "map_of (db_bindings d) i = Some r"
  obtains d' v r' where "beginProviderBindingDeletion d i t = (d', resolve (Applied v))"
    "map_of (db_bindings d') = (map_of (db_bindings d))(i \<mapsto> r')" "row_pending r'"
    "row_revision r' = vr_revision v" "keys_ok (db_bindings d')"
proof (cases "row_pending r")
  case True
  have "beginProviderBindingDeletion d i t =
      (d, resolve (Applied (versioned (storedProviderBinding (row_json r) True) (row_revision r))))"
    using row True by (simp add: beginProviderBindingDeletion_def getStoredProviderBinding_def)
  then show thesis by (rule that[where r' = r]) (use True row keys in \<open>simp_all add: map_upd_triv\<close>)
next
  case False
  let ?p = "(storedProviderBinding (row_json r) False)\<lparr>bind_reachable := False, bind_state := BindingRevoked,
     bind_deletionPending := True, bind_lastError := Some BINDING_CLEANUP_PENDING_MESSAGE, bind_updatedAt := t\<rparr>"
  let ?hit = "\<lambda>k x. k = i \<and> row_revision x = row_revision r \<and> \<not> row_pending x"
  let ?new = "\<lambda>x. (bump_row ?p t x)\<lparr>row_pending := True\<rparr>"
  let ?u = "sql_update (db_bindings d) ?hit ?new"
  have count: "snd ?u = 1"
    using sql_update_count_key[OF keys, of i "\<lambda>x. row_revision x = row_revision r \<and> \<not> row_pending x" ?new] row False
    by simp
  have begun: "beginProviderBindingDeletion d i t =
      (d\<lparr>db_bindings := fst ?u\<rparr>, resolve (Applied (versioned ?p (row_revision r + 1))))"
    using row False count
    by (simp add: beginProviderBindingDeletion_def getStoredProviderBinding_def Let_def case_prod_beta)
  have rows: "map_of (fst ?u) = (map_of (db_bindings d))(i \<mapsto> ?new r)"
    using row False by (auto simp: map_of_sql_update fun_eq_iff)
  show thesis by (rule that[OF begun, where r' = "?new r"]) (simp_all add: rows keys)
qed

lemma beginBindingDeletion_quiet:
  assumes keys: "keys_ok (db_bindings d)"
  shows "case map_of (db_bindings d) i of
           None \<Rightarrow> beginBindingDeletion undisturbed t i d = (d, resolve None)
         | Some r \<Rightarrow> \<exists>d' v r'. beginBindingDeletion undisturbed t i d = (d', resolve (Some v)) \<and>
             map_of (db_bindings d') = (map_of (db_bindings d))(i \<mapsto> r') \<and> row_pending r' \<and>
             row_revision r' = vr_revision v \<and> keys_ok (db_bindings d')"
proof (cases "map_of (db_bindings d) i")
  case None
  then show ?thesis
    by (simp add: beginBindingDeletion_def CLUSTER_WRITE_ATTEMPTS_def eval_nat_numeral
        beginProviderBindingDeletion_def getStoredProviderBinding_def)
next
  case (Some r)
  obtain d' v r' where "beginProviderBindingDeletion d i t = (d', resolve (Applied v))"
    "map_of (db_bindings d') = (map_of (db_bindings d))(i \<mapsto> r')" "row_pending r'"
    "row_revision r' = vr_revision v" "keys_ok (db_bindings d')"
    by (rule begin_deletion_row[OF keys Some])
  then show ?thesis using Some
    by (simp add: beginBindingDeletion_def CLUSTER_WRITE_ATTEMPTS_def eval_nat_numeral) metis
qed

lemma finalize_pending_binding:
  assumes keys: "keys_ok (db_bindings d)" and row: "map_of (db_bindings d) i = Some r" "row_pending r"
  shows "\<exists>d' v. finalizeProviderBindingDeletion d i (row_revision r) = (d', resolve (Deleted v)) \<and>
    map_of (db_bindings d') = (map_of (db_bindings d))(i := None)"
proof -
  let ?hit = "\<lambda>k x. k = i \<and> row_revision x = row_revision r \<and> row_pending x"
  let ?u = "sql_delete (db_bindings d) ?hit"
  have count: "snd ?u = 1"
    using sql_delete_count_key[OF keys, of i "\<lambda>x. row_revision x = row_revision r \<and> row_pending x"] row by simp
  have "finalizeProviderBindingDeletion d i (row_revision r) =
      (d\<lparr>db_bindings := fst ?u\<rparr>,
       resolve (Deleted (versioned (storedProviderBinding (row_json r) True) (row_revision r))))"
    using row count
    by (simp add: finalizeProviderBindingDeletion_def getStoredProviderBinding_def Let_def case_prod_beta)
  moreover have "map_of (fst ?u) = (map_of (db_bindings d))(i := None)"
    using keys row by (auto simp: map_of_sql_delete fun_eq_iff split: option.splits)
  ultimately show ?thesis by simp
qed

lemma finalize_refused_binding:
  assumes row: "map_of (db_bindings d) i = Some r" and other: "\<not> (row_pending r \<and> row_revision r = e)"
  obtains reason v where "finalizeProviderBindingDeletion d i e = (d, resolve (NotDeleted reason v []))"
    "reason = RevisionConflict \<or> reason = InvalidState"
  using assms that
  by (cases "row_revision r = e") (auto simp: finalizeProviderBindingDeletion_def getStoredProviderBinding_def)

lemma finalizeBindingDeletion_quiet:
  assumes keys: "keys_ok (db_bindings d)"
  shows "\<exists>d'. finalizeBindingDeletion undisturbed (\<lambda>_. undisturbed) clock i e d = (d', resolve ()) \<and>
    map_of (db_bindings d') = (map_of (db_bindings d))(i := None)"
proof (cases "map_of (db_bindings d) i")
  case None
  then show ?thesis
    by (simp add: finalizeBindingDeletion_def CLUSTER_WRITE_ATTEMPTS_def eval_nat_numeral
        finalizeProviderBindingDeletion_def getStoredProviderBinding_def fun_upd_idem)
next
  case (Some r)
  show ?thesis
  proof (cases "row_pending r \<and> row_revision r = e")
    case True
    with finalize_pending_binding[OF keys Some] show ?thesis
      by (auto simp: finalizeBindingDeletion_def CLUSTER_WRITE_ATTEMPTS_def eval_nat_numeral)
  next
    case False
    obtain reason v where first: "finalizeProviderBindingDeletion d i e = (d, resolve (NotDeleted reason v []))"
      "reason = RevisionConflict \<or> reason = InvalidState"
      by (rule finalize_refused_binding[OF Some False])
    from beginBindingDeletion_quiet[OF keys, where i = i and t = "clock 0"] Some
    obtain d1 w r' where begun: "beginBindingDeletion undisturbed (clock 0) i d = (d1, resolve (Some w))"
      "map_of (db_bindings d1) = (map_of (db_bindings d))(i \<mapsto> r')" "row_pending r'"
      "row_revision r' = vr_revision w" "keys_ok (db_bindings d1)"
      by auto
    from finalize_pending_binding[OF begun(5), where i = i and r = r'] begun(2-4)
    obtain d2 x where "finalizeProviderBindingDeletion d1 i (vr_revision w) = (d2, resolve (Deleted x))"
      "map_of (db_bindings d2) = (map_of (db_bindings d))(i := None)" by auto
    with first begun(1) show ?thesis
      by (auto simp: finalizeBindingDeletion_def CLUSTER_WRITE_ATTEMPTS_def eval_nat_numeral)
  qed
qed

end
