(* ===== verification/RelayEnrollment.thy ===== *)
theory RelayEnrollment
  imports RelayClusterFacts RelayCoordination
begin

text \<open>
  Enrolment of nodes by \<^verbatim>\<open>packages/application/src/cluster-service.ts\<close>: join tokens, the
  claim kept in the coordination store, and the steps of \<^verbatim>\<open>enroll\<close> under the lease of the
  token, with the writes of others at every await. The digest, the JSON codec and the
  certificate authority are parameters; that parsing undoes printing is a hypothesis of the
  results. A write to the coordination store may fail, after or before it took effect.
\<close>

section \<open>Claims\<close>

datatype enrollment_status = EnrollmentPending | EnrollmentCompleted

record join_enrollment =
  en_csrSha256 :: string
  en_node :: cluster_node
  en_certificate :: signed_certificate
  en_status :: enrollment_status

record join_claim =
  jc_name :: string
  jc_roles :: "node_role list"
  jc_region :: string
  jc_expiresAt :: instant
  jc_enrollment :: "join_enrollment option"

record enroll_input =
  ei_token :: string
  ei_name :: string
  ei_publicUrl :: string
  ei_internalUrl :: "string option"
  ei_capabilities :: node_capability
  ei_csrPem :: string

record join_platform =
  jp_hash :: "string \<Rightarrow> string"
  jp_stringify :: "join_claim \<Rightarrow> string"
  jp_parse :: "string \<Rightarrow> join_claim"
  jp_signCsr :: "(string \<Rightarrow> string \<Rightarrow> int \<Rightarrow> signed_certificate outcome) option"

definition join_key :: "join_platform \<Rightarrow> string \<Rightarrow> string" where
  "join_key pl token = ''cluster:join:'' @ jp_hash pl token"

text \<open>\<open>secret\<close> is the random part of the token.\<close>

definition createJoinToken ::
    "join_platform \<Rightarrow> string \<Rightarrow> string \<Rightarrow> node_role list \<Rightarrow> string \<Rightarrow> int \<Rightarrow> instant \<Rightarrow> instant \<Rightarrow> coordination \<Rightarrow>
       coordination \<times> string \<times> instant" where
  "createJoinToken pl secret name roles region expiresInSeconds now now' co =
     (let token = ''vrr_join_'' @ secret;
          expiresAt = now + expiresInSeconds * 1000;
          claim = \<lparr>jc_name = name, jc_roles = roles, jc_region = region, jc_expiresAt = expiresAt,
                   jc_enrollment = None\<rparr>
      in (set_value co now' (join_key pl token) (jp_stringify pl claim) (expiresInSeconds * 1000),
          token, expiresAt))"

section \<open>What happens around an enrolment\<close>

text \<open>
  The report of a write to the coordination store: done, or an error, with whether the write
  took effect and whether the store can be read afterwards.
\<close>

datatype set_report = SetDone | SetFailed app_error bool bool

record enroll_env =
  ee_db :: "nat \<Rightarrow> repo_op list"
  ee_co :: "nat \<Rightarrow> coordination \<Rightarrow> coordination"
  ee_clock :: "nat \<Rightarrow> instant"
  ee_set :: "nat \<Rightarrow> set_report"
  ee_owner :: ident
  ee_id :: ident

record join_world =
  jw_db :: db
  jw_co :: coordination

definition disturb :: "enroll_env \<Rightarrow> nat \<Rightarrow> join_world \<Rightarrow> join_world" where
  "disturb e k w = \<lparr>jw_db = run_ops (ee_db e k) (jw_db w), jw_co = ee_co e k (jw_co w)\<rparr>"

definition storeJoinClaim ::
    "join_platform \<Rightarrow> enroll_env \<Rightarrow> nat \<Rightarrow> string \<Rightarrow> join_claim \<Rightarrow> int \<Rightarrow> coordination \<Rightarrow> coordination \<times> unit outcome"
  where
  "storeJoinClaim pl e k key claim ttlMs co =
     (let serialized = jp_stringify pl claim;
          stored = set_value co (ee_clock e k) key serialized (max 1 ttlMs)
      in case ee_set e k of
           SetDone \<Rightarrow> (stored, resolve ())
         | SetFailed err committed readable \<Rightarrow>
             let co1 = ee_co e (Suc k) (if committed then stored else co)
             in if \<not> readable then (co1, throw err)
                else case get_value co1 (ee_clock e (Suc k)) key of
                  (co2, current) \<Rightarrow> (co2, if current = Some serialized then resolve () else throw err))"

definition enrolled_certificate :: "join_enrollment \<Rightarrow> node_certificate \<Rightarrow> bool" where
  "enrolled_certificate en c \<longleftrightarrow>
     cert_serialNumber c = sc_serialNumber (en_certificate en) \<and>
     map lower_char (cert_fingerprintSha256 c) = map lower_char (sc_fingerprintSha256 (en_certificate en))"

text \<open>\<open>d\<close> is the database of the first read, \<open>d'\<close> that of the second.\<close>

definition reconcileEnrollment :: "join_enrollment \<Rightarrow> db \<Rightarrow> db \<Rightarrow> cluster_node option outcome" where
  "reconcileEnrollment en d d' =
     (case getVersionedNode d (node_id (en_node en)) of
        None \<Rightarrow> resolve None
      | Some current \<Rightarrow>
          (case find (enrolled_certificate en) (listNodeCertificates d' (node_id (en_node en))) of
             None \<Rightarrow> throw ConflictError
           | Some c \<Rightarrow>
               if cert_revokedAt c \<noteq> None \<or> cert_expiresAt c \<noteq> sc_expiresAt (en_certificate en) \<or>
                  node_createdAt (vr_value current) \<noteq> node_createdAt (en_node en)
               then throw ConflictError
               else resolve (Some (vr_value current))))"

section \<open>The steps of an enrolment\<close>

definition enrolled_node ::
    "enroll_input \<Rightarrow> join_claim \<Rightarrow> ident \<Rightarrow> instant \<Rightarrow> signed_certificate \<Rightarrow> cluster_node" where
  "enrolled_node input claim i now certificate =
     \<lparr>node_id = i, node_name = (if ei_name input \<noteq> [] then ei_name input else jc_name claim),
      node_roles = jc_roles claim, node_region = jc_region claim, node_publicUrl = ei_publicUrl input,
      node_internalUrl = (if truthy (ei_internalUrl input) then ei_internalUrl input else None),
      node_state = NodeOnline, node_capabilities = ei_capabilities input, node_weight = 100,
      node_certificateExpiresAt = Some (sc_expiresAt certificate), node_lastHeartbeatAt = now,
      node_createdAt = now, node_updatedAt = now\<rparr>"

text \<open>The claim is read, and bound to an enrolment when it has none.\<close>

definition enroll_prepare ::
    "join_platform \<Rightarrow> (string \<Rightarrow> string \<Rightarrow> int \<Rightarrow> signed_certificate outcome) \<Rightarrow> enroll_env \<Rightarrow> enroll_input \<Rightarrow>
       string \<Rightarrow> join_world \<Rightarrow> join_world \<times> (join_claim \<times> join_enrollment) outcome" where
  "enroll_prepare pl signCsr e input key w =
     (case get_value (jw_co w) (ee_clock e 1) key of
        (co1, serialized) \<Rightarrow>
          let w1 = w\<lparr>jw_co := co1\<rparr>;
              claim = jp_parse pl (the serialized);
              csrSha256 = jp_hash pl (ei_csrPem input)
          in if \<not> truthy serialized then (w1, throw ConflictError)
             else case jc_enrollment claim of
               Some en \<Rightarrow>
                 if en_csrSha256 en \<noteq> csrSha256 then (w1, throw ConflictError) else (w1, resolve (claim, en))
             | None \<Rightarrow>
                 if jc_expiresAt claim \<le> ee_clock e 2 then (w1, throw ConflictError)
                 else case sign_for_node signCsr (ee_id e) (ei_csrPem input) of
                   Inl err \<Rightarrow> (disturb e 2 w1, throw err)
                 | Inr certificate \<Rightarrow>
                     let w2 = disturb e 2 w1;
                         en = \<lparr>en_csrSha256 = csrSha256,
                               en_node = enrolled_node input claim (ee_id e) (ee_clock e 3) certificate,
                               en_certificate = certificate, en_status = EnrollmentPending\<rparr>
                     in (case storeJoinClaim pl e 4 key (claim\<lparr>jc_enrollment := Some en\<rparr>)
                                (max 300000 (jc_expiresAt claim - ee_clock e 6)) (jw_co w2) of
                           (co2, Inl err) \<Rightarrow> (w2\<lparr>jw_co := co2\<rparr>, throw err)
                         | (co2, Inr _) \<Rightarrow> (w2\<lparr>jw_co := co2\<rparr>, resolve (claim, en))))"

text \<open>The node of the enrolment is found or created.\<close>

definition enroll_create :: "enroll_env \<Rightarrow> join_enrollment \<Rightarrow> join_world \<Rightarrow> join_world \<times> cluster_node outcome" where
  "enroll_create e en w =
     (let w1 = disturb e 7 w; w2 = disturb e 8 w1
      in case reconcileEnrollment en (jw_db w1) (jw_db w2) of
           Inl err \<Rightarrow> (w2, throw err)
         | Inr (Some n) \<Rightarrow> (w2, resolve n)
         | Inr None \<Rightarrow>
             if en_status en = EnrollmentCompleted then (w1, throw ConflictError)
             else
               let w3 = disturb e 9 w1
               in (case createNode (jw_db w3) (en_node en)
                         (Some (certificateState (node_id (en_node en)) (en_certificate en)
                                  (node_createdAt (en_node en)))) of
                     (d4, Inr stored) \<Rightarrow> (w3\<lparr>jw_db := d4\<rparr>, resolve (vr_value stored))
                   | (d4, Inl err) \<Rightarrow>
                       let w5 = disturb e 10 (w3\<lparr>jw_db := d4\<rparr>); w6 = disturb e 11 w5
                       in (case reconcileEnrollment en (jw_db w5) (jw_db w6) of
                             Inl err' \<Rightarrow> (w6, throw err')
                           | Inr (Some n) \<Rightarrow> (w6, resolve n)
                           | Inr None \<Rightarrow> (w5, throw err))))"

text \<open>A pending enrolment is completed.\<close>

definition enroll_complete ::
    "join_platform \<Rightarrow> enroll_env \<Rightarrow> string \<Rightarrow> join_claim \<Rightarrow> join_enrollment \<Rightarrow> cluster_node \<Rightarrow> join_world \<Rightarrow>
       join_world \<times> cluster_effect list \<times> (cluster_node \<times> signed_certificate) outcome" where
  "enroll_complete pl e key claim en created w =
     (if en_status en = EnrollmentCompleted then (w, [], resolve (created, en_certificate en))
      else
        let w1 = disturb e 12 w
        in (case storeJoinClaim pl e 13 key
                   (claim\<lparr>jc_enrollment := Some (en\<lparr>en_status := EnrollmentCompleted\<rparr>)\<rparr>) 300000 (jw_co w1) of
              (co2, Inl err) \<Rightarrow> (w1\<lparr>jw_co := co2\<rparr>, [], throw err)
            | (co2, Inr _) \<Rightarrow>
                (w1\<lparr>jw_co := co2\<rparr>, [NodeJoined (node_id created) (node_name created) (node_roles created)],
                 resolve (created, en_certificate en))))"

definition enroll_body ::
    "join_platform \<Rightarrow> (string \<Rightarrow> string \<Rightarrow> int \<Rightarrow> signed_certificate outcome) \<Rightarrow> enroll_env \<Rightarrow> enroll_input \<Rightarrow>
       string \<Rightarrow> join_world \<Rightarrow> join_world \<times> cluster_effect list \<times> (cluster_node \<times> signed_certificate) outcome" where
  "enroll_body pl signCsr e input key w =
     (case enroll_prepare pl signCsr e input key w of
        (w1, Inl err) \<Rightarrow> (w1, [], throw err)
      | (w1, Inr (claim, en)) \<Rightarrow>
          (case enroll_create e en w1 of
             (w2, Inl err) \<Rightarrow> (w2, [], throw err)
           | (w2, Inr created) \<Rightarrow> enroll_complete pl e key claim en created w2))"

definition enroll ::
    "join_platform \<Rightarrow> enroll_env \<Rightarrow> enroll_input \<Rightarrow> join_world \<Rightarrow>
       join_world \<times> cluster_effect list \<times> (cluster_node \<times> signed_certificate) outcome" where
  "enroll pl e input w =
     (case jp_signCsr pl of
        None \<Rightarrow> (w, [], throw ConflictError)
      | Some signCsr \<Rightarrow>
          let key = join_key pl (ei_token input);
              consumeLease = key @ '':consume''
          in (case acquire (jw_co w) (ee_clock e 0) (ee_clock e 0) consumeLease (ee_owner e) 60000 of
                (co1, False) \<Rightarrow> (w\<lparr>jw_co := co1\<rparr>, [], throw ConflictError)
              | (co1, True) \<Rightarrow>
                  (case enroll_body pl signCsr e input key (disturb e 0 (w\<lparr>jw_co := co1\<rparr>)) of
                     (w2, effects, r) \<Rightarrow>
                       let w3 = disturb e 15 w2
                       in (w3\<lparr>jw_co := release (jw_co w3) consumeLease (ee_owner e)\<rparr>, effects, r))))"

section \<open>A token enrols one node\<close>

text \<open>Attempts with one token, one after the other.\<close>

fun enroll_run ::
    "join_platform \<Rightarrow> (enroll_env \<times> enroll_input) list \<Rightarrow> join_world \<Rightarrow>
       join_world \<times> (enroll_input \<times> (cluster_node \<times> signed_certificate) outcome) list" where
  "enroll_run pl [] w = (w, [])"
| "enroll_run pl ((e, input) # xs) w =
     (case enroll pl e input w of
        (w1, _, r) \<Rightarrow> (case enroll_run pl xs w1 of (w2, rs) \<Rightarrow> (w2, (input, r) # rs)))"

definition enrollment_identity :: "join_enrollment \<Rightarrow> string \<times> cluster_node \<times> signed_certificate" where
  "enrollment_identity en = (en_csrSha256 en, en_node en, en_certificate en)"

text \<open>The claim under the key is gone, or bound to \<open>s\<close>.\<close>

definition claim_state ::
    "join_platform \<Rightarrow> string \<Rightarrow> (string \<times> cluster_node \<times> signed_certificate) option \<Rightarrow> coordination \<Rightarrow> bool" where
  "claim_state pl key s co \<longleftrightarrow>
     (case map_of (co_values co) key of
        None \<Rightarrow> True
      | Some v \<Rightarrow> map_option enrollment_identity (jc_enrollment (jp_parse pl (sv_value v))) = s)"

text \<open>The others may let the claim run out, but do not write it; their writes of the database are typed.\<close>

definition respectful :: "string \<Rightarrow> enroll_env \<Rightarrow> bool" where
  "respectful key e \<longleftrightarrow>
     (\<forall>k co. map_of (co_values (ee_co e k co)) key = map_of (co_values co) key \<or>
             map_of (co_values (ee_co e k co)) key = None) \<and>
     (\<forall>k. \<forall>x \<in> set (ee_db e k). typed_op x)"

definition parses :: "join_platform \<Rightarrow> bool" where
  "parses pl \<longleftrightarrow> (\<forall>c. jp_parse pl (jp_stringify pl c) = c)"

lemma parsesD [simp]: "parses pl \<Longrightarrow> jp_parse pl (jp_stringify pl c) = c"
  by (simp add: parses_def)

lemma claim_state_env: "respectful key e \<Longrightarrow> claim_state pl key s co \<Longrightarrow> claim_state pl key s (ee_co e k co)"
  unfolding respectful_def claim_state_def by (metis option.simps(4))

lemma claim_state_disturb:
  "respectful key e \<Longrightarrow> claim_state pl key s (jw_co w) \<Longrightarrow> claim_state pl key s (jw_co (disturb e k w))"
  by (simp add: disturb_def claim_state_env)

lemma reachable_disturb: "respectful key e \<Longrightarrow> reachable_db (jw_db w) \<Longrightarrow> reachable_db (jw_db (disturb e k w))"
  by (simp add: disturb_def respectful_def reachable_run)

lemma claim_state_get:
  assumes "claim_state pl key s co" and "get_value co t key = (co', q)"
  shows "claim_state pl key s co' \<and>
    (\<forall>v. q = Some v \<longrightarrow> map_option enrollment_identity (jc_enrollment (jp_parse pl v)) = s)"
  using assms
  by (auto simp: get_value_def claim_state_def alist_simps split: option.splits if_splits)

lemma claim_state_set:
  "parses pl \<Longrightarrow> claim_state pl key (map_option enrollment_identity (jc_enrollment c))
     (set_value co t key (jp_stringify pl c) ttl)"
  by (simp add: claim_state_def set_value_def alist_simps)

lemma claim_state_lease:
  "claim_state pl key s (fst (acquire co t t' k a ttl)) = claim_state pl key s co"
  "claim_state pl key s (release co k a) = claim_state pl key s co"
  by (simp_all add: claim_state_def acquire_def release_def split: option.split)

text \<open>A stored claim is bound afterwards; a claim that could not be stored is bound or as before.\<close>

lemma storeJoinClaim_state:
  assumes "parses pl" and "respectful key e" and "claim_state pl key s co"
    and "storeJoinClaim pl e k key c ttl co = (co', r)"
  shows "claim_state pl key (map_option enrollment_identity (jc_enrollment c)) co' \<or>
         (r \<noteq> resolve () \<and> claim_state pl key s co')"
proof (cases "ee_set e k")
  case SetDone
  then show ?thesis using assms(4) claim_state_set[OF assms(1)] by (auto simp: storeJoinClaim_def Let_def)
next
  case (SetFailed err committed readable)
  let ?new = "map_option enrollment_identity (jc_enrollment c)"
  let ?co1 = "ee_co e (Suc k) (if committed
      then set_value co (ee_clock e k) key (jp_stringify pl c) (max 1 ttl) else co)"
  obtain co2 q where get: "get_value ?co1 (ee_clock e (Suc k)) key = (co2, q)" by fastforce
  have res: "co' = (if readable then co2 else ?co1) \<and>
      r = (if readable \<and> q = Some (jp_stringify pl c) then resolve () else throw err)"
    using assms(4) SetFailed get by (auto simp: storeJoinClaim_def Let_def split: if_splits)
  show ?thesis
  proof (cases committed)
    case True
    then have "claim_state pl key ?new ?co1"
      using claim_state_env[OF assms(2) claim_state_set[OF assms(1)]] by simp
    then show ?thesis using claim_state_get[OF _ get] res by auto
  next
    case False
    then have old: "claim_state pl key s ?co1" using claim_state_env[OF assms(2,3)] by simp
    have "?new = s" if "q = Some (jp_stringify pl c)"
      using claim_state_get[OF old get] that assms(1) by simp
    then show ?thesis using old claim_state_get[OF old get] res by auto
  qed
qed

lemma reconcile_id:
  assumes "reachable_db d" and "reconcileEnrollment en d d' = resolve (Some n)"
  shows "node_id n = node_id (en_node en)"
  using assms reachable_nodes_ok[OF assms(1)]
  by (auto simp: reconcileEnrollment_def getVersionedNode_def get_versioned_Some node_ids_ok_def
      split: option.splits if_splits)

lemma createNode_reachable:
  assumes "reachable_db d" and "node_state n \<noteq> NodeRevoked"
  shows "reachable_db (fst (createNode d n c))"
  using reachable_step[OF assms(1), of "NodeOp (OpCreateNode n c)"] assms(2) by simp

lemma createNode_value: "createNode d n c = (d', resolve stored) \<Longrightarrow> vr_value stored = n"
  by (auto simp: createNode_def split: if_splits option.splits)

text \<open>The three steps, each from a claim state to a claim state.\<close>

definition enrollable :: "(string \<times> cluster_node \<times> signed_certificate) option \<Rightarrow> bool" where
  "enrollable s \<longleftrightarrow> (case s of None \<Rightarrow> True | Some (_, n, _) \<Rightarrow> node_state n \<noteq> NodeRevoked)"

lemma enroll_prepare_state:
  assumes ok: "parses pl" "respectful key e" and world: "claim_state pl key s (jw_co w)" "reachable_db (jw_db w)"
      "enrollable s"
    and run: "enroll_prepare pl signCsr e input key w = (w', r)"
  shows "\<exists>s'. claim_state pl key s' (jw_co w') \<and> reachable_db (jw_db w') \<and> enrollable s' \<and> (s \<noteq> None \<longrightarrow> s' = s) \<and>
    (\<forall>claim en. r = resolve (claim, en) \<longrightarrow>
       s' = Some (enrollment_identity en) \<and> en_csrSha256 en = jp_hash pl (ei_csrPem input))"
proof -
  obtain co1 q where get: "get_value (jw_co w) (ee_clock e 1) key = (co1, q)" by fastforce
  let ?w1 = "w\<lparr>jw_co := co1\<rparr>"
  let ?claim = "jp_parse pl (the q)"
  have w1: "claim_state pl key s (jw_co ?w1)" "reachable_db (jw_db ?w1)"
    using claim_state_get[OF world(1) get] world(2) by simp_all
  have bound: "map_option enrollment_identity (jc_enrollment ?claim) = s" if "truthy q"
    using claim_state_get[OF world(1) get] that by auto
  note stay = exI[of _ s]
  show ?thesis
  proof (cases "truthy q")
    case False
    then show ?thesis using run get w1 world(3) by (intro stay) (auto simp: enroll_prepare_def)
  next
    case True
    show ?thesis
    proof (cases "jc_enrollment ?claim")
      case (Some en)
      then show ?thesis using run get w1 world(3) True bound[OF True]
        by (intro stay) (auto simp: enroll_prepare_def Let_def split: if_splits)
    next
      case None
      then have s: "s = None" using bound[OF True] by simp
      let ?w2 = "disturb e 2 ?w1"
      have w2: "claim_state pl key None (jw_co ?w2)" "reachable_db (jw_db ?w2)"
        using claim_state_disturb[OF ok(2)] reachable_disturb[OF ok(2)] w1 s by auto
      show ?thesis
      proof (cases "jc_expiresAt ?claim \<le> ee_clock e 2 \<or> (\<exists>x. sign_for_node signCsr (ee_id e) (ei_csrPem input) = Inl x)")
        case True
        then show ?thesis using run get w1 w2 s None \<open>truthy q\<close>
          by (intro exI[of _ None]) (auto simp: enroll_prepare_def Let_def enrollable_def split: if_splits)
      next
        case False
        then obtain certificate where sign: "sign_for_node signCsr (ee_id e) (ei_csrPem input) = Inr certificate"
          by (cases "sign_for_node signCsr (ee_id e) (ei_csrPem input)") auto
        let ?en = "\<lparr>en_csrSha256 = jp_hash pl (ei_csrPem input),
             en_node = enrolled_node input ?claim (ee_id e) (ee_clock e 3) certificate,
             en_certificate = certificate, en_status = EnrollmentPending\<rparr>"
        let ?c = "?claim\<lparr>jc_enrollment := Some ?en\<rparr>"
        obtain co2 q2 where store: "storeJoinClaim pl e 4 key ?c (max 300000 (jc_expiresAt ?claim - ee_clock e 6)) (jw_co ?w2) = (co2, q2)"
          by fastforce
        have res: "w' = ?w2\<lparr>jw_co := co2\<rparr> \<and> (q2 = resolve () \<longrightarrow> r = resolve (?claim, ?en)) \<and>
            (q2 \<noteq> resolve () \<longrightarrow> (\<exists>err. r = throw err))"
          using run get None True \<open>truthy q\<close> False sign store by (cases q2) (auto simp: enroll_prepare_def Let_def)
        have new: "enrollable (Some (enrollment_identity ?en))"
          by (simp add: enrollable_def enrollment_identity_def enrolled_node_def)
        from storeJoinClaim_state[OF ok w2(1) store] show ?thesis
        proof
          assume "claim_state pl key (map_option enrollment_identity (jc_enrollment ?c)) co2"
          then show ?thesis using res w2(2) new s
            by (intro exI[of _ "Some (enrollment_identity ?en)"]) (cases q2, auto)
        next
          assume "q2 \<noteq> resolve () \<and> claim_state pl key None co2"
          then show ?thesis using res w2(2) s by (intro exI[of _ None]) (auto simp: enrollable_def)
        qed
      qed
    qed
  qed
qed

lemma enroll_create_state:
  assumes ok: "respectful key e" and world: "claim_state pl key s (jw_co w)" "reachable_db (jw_db w)"
      "node_state (en_node en) \<noteq> NodeRevoked"
    and run: "enroll_create e en w = (w', r)"
  shows "claim_state pl key s (jw_co w') \<and> reachable_db (jw_db w') \<and>
    (\<forall>n. r = resolve n \<longrightarrow> node_id n = node_id (en_node en))"
proof -
  define w1 where "w1 = disturb e 7 w"
  define w2 where "w2 = disturb e 8 w1"
  define w3 where "w3 = disturb e 9 w1"
  let ?cert = "Some (certificateState (node_id (en_node en)) (en_certificate en) (node_createdAt (en_node en)))"
  obtain d4 q where create: "createNode (jw_db w3) (en_node en) ?cert = (d4, q)" by fastforce
  define w5 where "w5 = disturb e 10 (w3\<lparr>jw_db := d4\<rparr>)"
  define w6 where "w6 = disturb e 11 w5"
  define fine where "fine = (\<lambda>v :: join_world. claim_state pl key s (jw_co v) \<and> reachable_db (jw_db v))"
  have step: "fine (disturb e k v)" if "fine v" for k v
    using that claim_state_disturb[OF ok] reachable_disturb[OF ok] by (simp add: fine_def)
  have "fine w" using world by (simp add: fine_def)
  then have w123: "fine w1" "fine w2" "fine w3" by (simp_all add: w1_def w2_def w3_def step)
  have "reachable_db d4" using createNode_reachable[OF _ world(3), of "jw_db w3" ?cert] create w123(3)
    by (simp add: fine_def)
  then have w4: "fine (w3\<lparr>jw_db := d4\<rparr>)" using w123(3) by (simp add: fine_def)
  then have w56: "fine w5" "fine w6" by (simp_all add: w5_def w6_def step)
  have id: "node_id n = node_id (en_node en)" if "fine v" "reconcileEnrollment en (jw_db v) x = resolve (Some n)" for v x n
    using reconcile_id[OF _ that(2)] that(1) by (simp add: fine_def)
  have made: "vr_value stored = en_node en" if "q = resolve stored" for stored
    using createNode_value create that by blast
  have eq: "enroll_create e en w =
      (case reconcileEnrollment en (jw_db w1) (jw_db w2) of
         Inl err \<Rightarrow> (w2, throw err)
       | Inr (Some n) \<Rightarrow> (w2, resolve n)
       | Inr None \<Rightarrow>
           if en_status en = EnrollmentCompleted then (w1, throw ConflictError)
           else (case q of
                   Inr stored \<Rightarrow> (w3\<lparr>jw_db := d4\<rparr>, resolve (vr_value stored))
                 | Inl err \<Rightarrow>
                     (case reconcileEnrollment en (jw_db w5) (jw_db w6) of
                        Inl err' \<Rightarrow> (w6, throw err')
                      | Inr (Some n) \<Rightarrow> (w6, resolve n)
                      | Inr None \<Rightarrow> (w5, throw err))))"
    unfolding enroll_create_def Let_def w1_def[symmetric] w2_def[symmetric] w3_def[symmetric] create
      w5_def[symmetric] w6_def[symmetric] prod.case by (rule refl)
  have "fine w' \<and> (\<forall>n. r = resolve n \<longrightarrow> node_id n = node_id (en_node en))"
  proof (cases "reconcileEnrollment en (jw_db w1) (jw_db w2)")
    case (Inl err)
    then show ?thesis using eq run w123 by simp
  next
    case first: (Inr q1)
    show ?thesis
    proof (cases q1)
      case (Some n)
      then show ?thesis using eq run w123 first id[of w1] by auto
    next
      case None
      show ?thesis
      proof (cases q)
        case (Inr stored)
        then show ?thesis using eq run w123 w4 first None made by (auto split: if_splits)
      next
        case (Inl err)
        show ?thesis
        proof (cases "reconcileEnrollment en (jw_db w5) (jw_db w6)")
          case (Inl err')
          then show ?thesis using eq run w123 w56 first None \<open>q = Inl err\<close> by (auto split: if_splits)
        next
          case (Inr q2)
          then show ?thesis using eq run w123 w56 first None \<open>q = Inl err\<close> id[of w5]
            by (cases q2) (auto split: if_splits)
        qed
      qed
    qed
  qed
  then show ?thesis unfolding fine_def by blast
qed

lemma enroll_complete_state:
  assumes ok: "parses pl" "respectful key e"
    and world: "claim_state pl key (Some (enrollment_identity en)) (jw_co w)" "reachable_db (jw_db w)"
    and run: "enroll_complete pl e key claim en created w = (w', effects, r)"
  shows "claim_state pl key (Some (enrollment_identity en)) (jw_co w') \<and> reachable_db (jw_db w') \<and>
    (\<forall>n c. r = resolve (n, c) \<longrightarrow> n = created \<and> c = en_certificate en)"
proof (cases "en_status en = EnrollmentCompleted")
  case True
  then show ?thesis using world run by (auto simp: enroll_complete_def)
next
  case False
  let ?w1 = "disturb e 12 w"
  let ?c = "claim\<lparr>jc_enrollment := Some (en\<lparr>en_status := EnrollmentCompleted\<rparr>)\<rparr>"
  have w1: "claim_state pl key (Some (enrollment_identity en)) (jw_co ?w1)" "reachable_db (jw_db ?w1)"
    using claim_state_disturb[OF ok(2) world(1)] reachable_disturb[OF ok(2) world(2)] by simp_all
  obtain co2 q where store: "storeJoinClaim pl e 13 key ?c 300000 (jw_co ?w1) = (co2, q)" by fastforce
  have "map_option enrollment_identity (jc_enrollment ?c) = Some (enrollment_identity en)"
    by (simp add: enrollment_identity_def)
  then have "claim_state pl key (Some (enrollment_identity en)) co2"
    using storeJoinClaim_state[OF ok w1(1) store] by auto
  then show ?thesis using run False store w1(2)
    by (cases q) (auto simp: enroll_complete_def Let_def)
qed

lemma enroll_state:
  assumes ok: "parses pl" "respectful (join_key pl (ei_token input)) e"
    and world: "claim_state pl (join_key pl (ei_token input)) s (jw_co w)" "reachable_db (jw_db w)" "enrollable s"
    and run: "enroll pl e input w = (w', effects, r)"
  shows "\<exists>s'. claim_state pl (join_key pl (ei_token input)) s' (jw_co w') \<and> reachable_db (jw_db w') \<and> enrollable s' \<and>
    (s \<noteq> None \<longrightarrow> s' = s) \<and>
    (\<forall>n c. r = resolve (n, c) \<longrightarrow>
       (\<exists>m. s' = Some (jp_hash pl (ei_csrPem input), m, c) \<and> node_id n = node_id m))"
proof -
  let ?key = "join_key pl (ei_token input)"
  let ?lease = "?key @ '':consume''"
  note stay = exI[of _ s]
  obtain co1 g where acq: "acquire (jw_co w) (ee_clock e 0) (ee_clock e 0) ?lease (ee_owner e) 60000 = (co1, g)"
    by fastforce
  have co1: "claim_state pl ?key s co1"
    using world(1) claim_state_lease(1)[of pl ?key s "jw_co w" "ee_clock e 0" "ee_clock e 0" ?lease "ee_owner e" 60000] acq
    by simp
  show ?thesis
  proof (cases "jp_signCsr pl = None \<or> \<not> g")
    case True
    then show ?thesis using run world co1 acq
      by (intro stay) (auto simp: enroll_def Let_def split: option.splits)
  next
    case False
    then obtain signCsr where sign: "jp_signCsr pl = Some signCsr" and g by auto
    let ?w0 = "disturb e 0 (w\<lparr>jw_co := co1\<rparr>)"
    have w0: "claim_state pl ?key s (jw_co ?w0)" "reachable_db (jw_db ?w0)"
      using claim_state_disturb[OF ok(2), of pl s "w\<lparr>jw_co := co1\<rparr>" 0]
        reachable_disturb[OF ok(2), of "w\<lparr>jw_co := co1\<rparr>" 0] co1 world(2) by simp_all
    obtain w1 q1 where prepare: "enroll_prepare pl signCsr e input ?key ?w0 = (w1, q1)" by fastforce
    from enroll_prepare_state[OF ok w0 world(3) prepare] obtain s1 where
      s1: "claim_state pl ?key s1 (jw_co w1)" "reachable_db (jw_db w1)" "enrollable s1" "s \<noteq> None \<longrightarrow> s1 = s"
      "\<forall>claim en. q1 = resolve (claim, en) \<longrightarrow>
         s1 = Some (enrollment_identity en) \<and> en_csrSha256 en = jp_hash pl (ei_csrPem input)"
      by blast
    obtain w2 f2 r2 where body: "enroll_body pl signCsr e input ?key ?w0 = (w2, f2, r2)" by (metis prod_cases3)
    have w2: "claim_state pl ?key s1 (jw_co w2) \<and> reachable_db (jw_db w2) \<and>
        (\<forall>n c. r2 = resolve (n, c) \<longrightarrow>
           (\<exists>m. s1 = Some (jp_hash pl (ei_csrPem input), m, c) \<and> node_id n = node_id m))"
    proof (cases q1)
      case (Inl err)
      then show ?thesis using body prepare s1(1,2) by (auto simp: enroll_body_def)
    next
      case (Inr x)
      obtain claim en where x: "x = (claim, en)" by fastforce
      with s1(5) Inr have s1': "s1 = Some (enrollment_identity en)" "en_csrSha256 en = jp_hash pl (ei_csrPem input)"
        by simp_all
      have online: "node_state (en_node en) \<noteq> NodeRevoked"
        using s1(3) by (simp add: s1' enrollable_def enrollment_identity_def)
      obtain v q where create: "enroll_create e en w1 = (v, q)" by fastforce
      note made = enroll_create_state[OF ok(2) s1(1,2) online create]
      show ?thesis
      proof (cases q)
        case (Inl err)
        then show ?thesis using body prepare Inr x create made by (auto simp: enroll_body_def)
      next
        case (Inr created)
        have complete: "enroll_complete pl e ?key claim en created v = (w2, f2, r2)"
          using body prepare \<open>q1 = Inr x\<close> x create Inr by (simp add: enroll_body_def)
        have "claim_state pl ?key (Some (enrollment_identity en)) (jw_co v)" "reachable_db (jw_db v)"
          using made s1'(1) by simp_all
        note settled = enroll_complete_state[OF ok this complete]
        have "node_id created = node_id (en_node en)" using made Inr by blast
        then have "\<exists>m. s1 = Some (jp_hash pl (ei_csrPem input), m, c) \<and> node_id n = node_id m"
          if "r2 = resolve (n, c)" for n c
          using settled that s1' unfolding enrollment_identity_def by blast
        then show ?thesis using settled s1'(1) by simp
      qed
    qed
    let ?w3 = "disturb e 15 w2"
    have "w' = ?w3\<lparr>jw_co := release (jw_co ?w3) ?lease (ee_owner e)\<rparr>" "r = r2"
      using run sign acq \<open>g\<close> body by (simp_all add: enroll_def Let_def)
    moreover have "claim_state pl ?key s1 (jw_co ?w3)" "reachable_db (jw_db ?w3)"
      using claim_state_disturb[OF ok(2)] reachable_disturb[OF ok(2)] w2 by simp_all
    ultimately show ?thesis using w2 s1(3,4) by (intro exI[of _ s1]) (simp add: claim_state_lease(2))
  qed
qed

text \<open>All the successes of a token name one node, with one certificate and for one request.\<close>

lemma enroll_run_agrees:
  assumes "parses pl" and "\<forall>(e, input) \<in> set xs. ei_token input = token \<and> respectful (join_key pl token) e"
    and "claim_state pl (join_key pl token) s (jw_co w)" and "reachable_db (jw_db w)" and "enrollable s"
    and "enroll_run pl xs w = (w', rs)"
  shows "\<exists>s'. enrollable s' \<and> (s \<noteq> None \<longrightarrow> s' = s) \<and>
    (\<forall>input n c. (input, resolve (n, c)) \<in> set rs \<longrightarrow>
       (\<exists>m. s' = Some (jp_hash pl (ei_csrPem input), m, c) \<and> node_id n = node_id m))"
  using assms(2-)
proof (induction xs arbitrary: s w rs w')
  case Nil
  then show ?case by auto
next
  case (Cons p xs)
  obtain e input where p: "p = (e, input)" by fastforce
  have mine: "ei_token input = token" "respectful (join_key pl token) e" using Cons.prems(1) p by auto
  obtain w1 f r where one: "enroll pl e input w = (w1, f, r)" by (metis prod_cases3)
  obtain w2 rs' where rest: "enroll_run pl xs w1 = (w2, rs')" by fastforce
  have rs: "rs = (input, r) # rs'" using Cons.prems(5) p one rest by simp
  have ok: "respectful (join_key pl (ei_token input)) e" using mine by simp
  have world: "claim_state pl (join_key pl (ei_token input)) s (jw_co w)" using Cons.prems(2) mine by simp
  from enroll_state[OF assms(1) ok world Cons.prems(3,4) one] mine(1)
  obtain s1 where s1: "claim_state pl (join_key pl token) s1 (jw_co w1)" "reachable_db (jw_db w1)" "enrollable s1"
      "s \<noteq> None \<longrightarrow> s1 = s"
      "\<forall>n c. r = resolve (n, c) \<longrightarrow>
         (\<exists>m. s1 = Some (jp_hash pl (ei_csrPem input), m, c) \<and> node_id n = node_id m)" by auto
  have "\<forall>(e, input) \<in> set xs. ei_token input = token \<and> respectful (join_key pl token) e"
    using Cons.prems(1) by simp
  from Cons.IH[OF this s1(1-3) rest] obtain s2 where s2: "enrollable s2" "s1 \<noteq> None \<longrightarrow> s2 = s1"
      "\<forall>input n c. (input, resolve (n, c)) \<in> set rs' \<longrightarrow>
         (\<exists>m. s2 = Some (jp_hash pl (ei_csrPem input), m, c) \<and> node_id n = node_id m)" by blast
  show ?case
  proof (intro exI[of _ s2] conjI allI impI)
    show "enrollable s2" by (rule s2(1))
    show "s2 = s" if "s \<noteq> None" using that s1(4) s2(2) by simp
    fix input' n c
    assume "(input', resolve (n, c)) \<in> set rs"
    then consider "input' = input" "r = resolve (n, c)" | "(input', resolve (n, c)) \<in> set rs'"
      using rs by auto
    then show "\<exists>m. s2 = Some (jp_hash pl (ei_csrPem input'), m, c) \<and> node_id n = node_id m"
    proof cases
      case 1
      then show ?thesis using s1(5) s2(2) by fastforce
    next
      case 2
      then show ?thesis using s2(3) by blast
    qed
  qed
qed

end
