(* ===== verification/RelayEnrollQuiet.thy ===== *)
theory RelayEnrollQuiet
  imports RelayEnrollment
begin

text \<open>
  Enrolment without interference: a valid token enrols its node, and the retry of the request
  finds it again.
\<close>

definition calm_env :: "enroll_env \<Rightarrow> bool" where
  "calm_env e \<longleftrightarrow> (\<forall>k. ee_db e k = []) \<and> (\<forall>k co. ee_co e k co = co) \<and> (\<forall>k. ee_set e k = SetDone)"

lemma calm_disturb [simp]: "calm_env e \<Longrightarrow> disturb e k w = w"
  by (simp add: calm_env_def disturb_def)

lemma calm_store [simp]:
  "calm_env e \<Longrightarrow> storeJoinClaim pl e k key c ttl co =
     (set_value co (ee_clock e k) key (jp_stringify pl c) (max 1 ttl), resolve ())"
  by (simp add: calm_env_def storeJoinClaim_def Let_def)

lemma calm_respectful: "calm_env e \<Longrightarrow> respectful key e"
  by (simp add: calm_env_def respectful_def)

text \<open>The value under a key, as long as it is live.\<close>

definition live_value :: "coordination \<Rightarrow> instant \<Rightarrow> string \<Rightarrow> string \<Rightarrow> bool" where
  "live_value co t key v \<longleftrightarrow> get_value co t key = (co, Some v) \<and> v \<noteq> []"

lemma live_value_set:
  "t < now + ttl \<Longrightarrow> v \<noteq> [] \<Longrightarrow> live_value (set_value co now key v ttl) t key v"
  by (simp add: live_value_def get_value_def set_value_def alist_simps)

lemma live_value_lease:
  "live_value (fst (acquire co t t' k a ttl)) s key v = live_value co s key v"
  "live_value (release co k a) s key v = live_value co s key v"
  by (auto simp: live_value_def get_value_def acquire_def release_def split: option.splits if_splits)

definition bound_claim :: "join_claim \<Rightarrow> enrollment_status \<Rightarrow> join_enrollment \<Rightarrow> join_claim" where
  "bound_claim claim st en = claim\<lparr>jc_enrollment := Some (en\<lparr>en_status := st\<rparr>)\<rparr>"

definition new_enrollment ::
    "join_platform \<Rightarrow> enroll_env \<Rightarrow> enroll_input \<Rightarrow> join_claim \<Rightarrow> signed_certificate \<Rightarrow> join_enrollment" where
  "new_enrollment pl e input claim certificate =
     \<lparr>en_csrSha256 = jp_hash pl (ei_csrPem input),
      en_node = enrolled_node input claim (ee_id e) (ee_clock e 3) certificate,
      en_certificate = certificate, en_status = EnrollmentPending\<rparr>"

definition certificate_of :: "join_enrollment \<Rightarrow> node_certificate" where
  "certificate_of en =
     certificateState (node_id (en_node en)) (en_certificate en) (node_createdAt (en_node en))"

text \<open>The first enrolment.\<close>

lemma enroll_fresh_body:
  assumes "calm_env e" and "live_value (jw_co w) (ee_clock e 1) key v"
    and "jp_parse pl v = claim" and "jc_enrollment claim = None" and "ee_clock e 2 < jc_expiresAt claim"
    and "sign_for_node signCsr (ee_id e) (ei_csrPem input) = resolve certificate"
    and "getVersionedNode (jw_db w) (ee_id e) = None"
    and "createNode (jw_db w) (en_node (new_enrollment pl e input claim certificate))
           (Some (certificate_of (new_enrollment pl e input claim certificate))) = (d', resolve stored)"
  defines "en \<equiv> new_enrollment pl e input claim certificate"
  shows "enroll_body pl signCsr e input key w =
    (\<lparr>jw_db = d',
      jw_co = set_value (set_value (jw_co w) (ee_clock e 4) key (jp_stringify pl (bound_claim claim EnrollmentPending en))
                  (max 1 (max 300000 (jc_expiresAt claim - ee_clock e 6))))
                (ee_clock e 13) key (jp_stringify pl (bound_claim claim EnrollmentCompleted en)) 300000\<rparr>,
     [NodeJoined (ee_id e) (node_name (en_node en)) (jc_roles claim)], resolve (en_node en, certificate))"
proof -
  have get: "get_value (jw_co w) (ee_clock e 1) key = (jw_co w, Some v)" "v \<noteq> []"
    using assms(2) by (simp_all add: live_value_def)
  have en: "en_status en = EnrollmentPending" "node_id (en_node en) = ee_id e" "en_certificate en = certificate"
    "node_roles (en_node en) = jc_roles claim"
    by (simp_all add: en_def new_enrollment_def enrolled_node_def)
  let ?co = "set_value (jw_co w) (ee_clock e 4) key (jp_stringify pl (bound_claim claim EnrollmentPending en))
      (max 1 (max 300000 (jc_expiresAt claim - ee_clock e 6)))"
  have prepare: "enroll_prepare pl signCsr e input key w = (w\<lparr>jw_co := ?co\<rparr>, resolve (claim, en))"
    using assms(1,3-6) get unfolding enroll_prepare_def Let_def en_def[symmetric] new_enrollment_def[symmetric]
    by (simp add: bound_claim_def en_def new_enrollment_def)
  have made: "vr_value stored = en_node en" using createNode_value[OF assms(8)] by (simp add: en_def)
  have create: "enroll_create e en (w\<lparr>jw_co := ?co\<rparr>) = (\<lparr>jw_db = d', jw_co = ?co\<rparr>, resolve (en_node en))"
    using assms(1,7) en(1,2) assms(8)[unfolded en_def[symmetric] certificate_of_def] made
    by (simp add: enroll_create_def Let_def reconcileEnrollment_def)
  show ?thesis
    using assms(1) en prepare create by (simp add: enroll_body_def enroll_complete_def Let_def bound_claim_def)
qed

lemma enroll_from_body:
  assumes "calm_env e" and "jp_signCsr pl = Some signCsr" and "key = join_key pl (ei_token input)"
    and "lease_holder (jw_co w) (key @ '':consume'') (ee_clock e 0) = None"
    and "enroll_body pl signCsr e input key
           (w\<lparr>jw_co := fst (acquire (jw_co w) (ee_clock e 0) (ee_clock e 0) (key @ '':consume'') (ee_owner e) 60000)\<rparr>) =
         (w', effects, r)"
  shows "enroll pl e input w =
    (w'\<lparr>jw_co := release (jw_co w') (key @ '':consume'') (ee_owner e)\<rparr>, effects, r)"
proof -
  have "snd (acquire (jw_co w) (ee_clock e 0) (ee_clock e 0) (key @ '':consume'') (ee_owner e) 60000)"
    using assms(4) by (simp add: acquire_cases)
  then show ?thesis
    using assms(1,2,3,5) by (auto simp: enroll_def Let_def split: prod.splits bool.splits)
qed

text \<open>
  The round trip of an enrolment: the node created for it, with the certificate of its state,
  is what the reconciliation finds, when no certificate of the node was stored before.
\<close>

lemma listed_certificate:
  assumes "createNode d n (Some c) = (d', resolve stored)" and "\<forall>p \<in> set (db_certs d). cert_nodeId (row_json (snd p)) \<noteq> node_id n"
  shows "listNodeCertificates d' (node_id n) = [c]" and "cert_nodeId c = node_id n"
    and "getVersionedNode d' (node_id n) = Some (versioned n 1)"
proof -
  show c: "cert_nodeId c = node_id n" using assms(1) by (auto simp: createNode_def split: if_splits)
  have d': "db_certs d' = db_certs d @ [(cert_serialNumber c, fresh_row c (cert_createdAt c))]"
    "db_nodes d' = db_nodes d @ [(node_id n, fresh_row n (node_updatedAt n))]"
    "map_of (db_nodes d) (node_id n) = None"
    using assms(1) by (auto simp: createNode_def putNodeCertificate_def sql_insert_def split: if_splits option.splits)
  have "filter (\<lambda>(_, r). cert_nodeId (row_json r) = node_id n) (db_certs d) = []"
    using assms(2) by (auto simp: filter_empty_conv)
  then show "listNodeCertificates d' (node_id n) = [c]"
    using c by (simp add: listNodeCertificates_def d'(1) order_desc_def jsons_def fresh_row_def)
  show "getVersionedNode d' (node_id n) = Some (versioned n 1)"
    using d'(3) by (simp add: getVersionedNode_def get_versioned_def d'(2) map_of_snoc fresh_row_def)
qed

lemma reconcile_created:
  assumes "createNode d (en_node en) (Some (certificate_of en)) = (d', resolve stored)"
    and "\<forall>p \<in> set (db_certs d). cert_nodeId (row_json (snd p)) \<noteq> node_id (en_node en)"
  shows "reconcileEnrollment en d' d' = resolve (Some (en_node en))"
  using listed_certificate[OF assms]
  by (simp add: reconcileEnrollment_def certificate_of_def certificateState_def enrolled_certificate_def)

text \<open>The retry of a completed enrolment.\<close>

lemma reconcile_status:
  "reconcileEnrollment (en\<lparr>en_status := st\<rparr>) d d' = reconcileEnrollment en d d'"
proof -
  have "enrolled_certificate (en\<lparr>en_status := st\<rparr>) = enrolled_certificate en"
    by (simp add: enrolled_certificate_def fun_eq_iff)
  then show ?thesis by (simp add: reconcileEnrollment_def split: option.split)
qed

lemma enroll_again_body:
  assumes "calm_env e" and "live_value (jw_co w) (ee_clock e 1) key v"
    and "jp_parse pl v = bound_claim claim EnrollmentCompleted en"
    and "en_csrSha256 en = jp_hash pl (ei_csrPem input)"
    and "reconcileEnrollment en (jw_db w) (jw_db w) = resolve (Some n)"
  shows "enroll_body pl signCsr e input key w = (w, [], resolve (n, en_certificate en))"
proof -
  let ?en = "en\<lparr>en_status := EnrollmentCompleted\<rparr>"
  have get: "get_value (jw_co w) (ee_clock e 1) key = (jw_co w, Some v)" "v \<noteq> []"
    using assms(2) by (simp_all add: live_value_def)
  have prepare: "enroll_prepare pl signCsr e input key w =
      (w, resolve (bound_claim claim EnrollmentCompleted en, ?en))"
    using get assms(3,4) by (simp add: enroll_prepare_def Let_def bound_claim_def)
  have "reconcileEnrollment ?en (jw_db w) (jw_db w) = resolve (Some n)"
    using assms(5) by (simp add: reconcile_status)
  then show ?thesis using assms(1) prepare
    by (simp add: enroll_body_def enroll_create_def enroll_complete_def Let_def)
qed

text \<open>Another request for a bound token.\<close>

lemma enroll_other_body:
  assumes "live_value (jw_co w) (ee_clock e 1) key v"
    and "jp_parse pl v = bound_claim claim st en" and "en_csrSha256 en \<noteq> jp_hash pl (ei_csrPem input)"
  shows "enroll_body pl signCsr e input key w = (w, [], throw ConflictError)"
  using assms by (simp add: enroll_body_def enroll_prepare_def live_value_def Let_def bound_claim_def)

lemma lease_holder_set_value [simp]: "lease_holder (set_value co t key v ttl) k s = lease_holder co k s"
  by (simp add: lease_holder_def set_value_def)

lemma lease_given_back:
  assumes "lease_holder co k t = None"
    and "\<And>u. lease_holder co' k u = lease_holder (fst (acquire co t t' k a ttl)) k u"
  shows "lease_holder (release co' k a) k u = None"
proof -
  have "snd (acquire co t t' k a ttl)" using assms(1) leases.acq_granted by blast
  then have "lease_holder co' k u \<in> {None, Some a}" using leases.acq_holds assms(2) by simp
  then show ?thesis by (auto simp: lease_holder_release)
qed

lemma created_certificate:
  assumes "createNode d n (Some c) = (d', resolve stored)"
  shows "active_cert d' (cert_serialNumber c) c"
proof -
  obtain d1 where "putNodeCertificate d1 c = Some d'" "cert_revokedAt c = None"
    using assms by (auto simp: createNode_def split: if_splits option.splits)
  then show ?thesis by (rule active_cert_stored)
qed

text \<open>A valid token, from its creation to the retry of the request.\<close>

lemma fresh_token_enrols:
  assumes pl: "parses pl" "\<forall>c. jp_stringify pl c \<noteq> []" "jp_signCsr pl = Some signCsr"
    and sign: "sign_for_node signCsr (ee_id e) (ei_csrPem input) = resolve certificate"
    and token: "createJoinToken pl secret name roles region seconds t t' co = (co0, ei_token input, expiresAt)"
    and calm: "calm_env e" "calm_env e'"
    and clock: "ee_clock e 1 < t' + seconds * 1000" "ee_clock e 2 < expiresAt" "ee_clock e' 1 < ee_clock e 13 + 300000"
    and free: "\<And>u. lease_holder co (join_key pl (ei_token input) @ '':consume'') u = None"
    and fresh: "getVersionedNode d (ee_id e) = None" "map_of (db_certs d) (sc_serialNumber certificate) = None"
      "\<forall>p \<in> set (db_certs d). cert_nodeId (row_json (snd p)) \<noteq> ee_id e"
  shows "\<exists>w n. enroll pl e input \<lparr>jw_db = d, jw_co = co0\<rparr> =
             (w, [NodeJoined (ee_id e) (node_name n) roles], resolve (n, certificate)) \<and>
           node_id n = ee_id e \<and> node_state n = NodeOnline \<and>
           getVersionedNode (jw_db w) (ee_id e) = Some (versioned n 1) \<and>
           active_cert (jw_db w) (sc_serialNumber certificate) (certificateState (ee_id e) certificate (node_createdAt n)) \<and>
           (\<forall>retry. ei_token retry = ei_token input \<longrightarrow>
              snd (enroll pl e' retry w) =
                (if jp_hash pl (ei_csrPem retry) = jp_hash pl (ei_csrPem input)
                 then ([], resolve (n, certificate)) else ([], throw ConflictError)))"
proof -
  let ?key = "join_key pl (ei_token input)"
  let ?claim = "\<lparr>jc_name = name, jc_roles = roles, jc_region = region, jc_expiresAt = expiresAt, jc_enrollment = None\<rparr>"
  define en where "en = new_enrollment pl e input ?claim certificate"
  have co0: "co0 = set_value co t' ?key (jp_stringify pl ?claim) (seconds * 1000)"
    using token by (simp add: createJoinToken_def Let_def) auto
  let ?lease = "?key @ '':consume''"
  let ?co1 = "fst (acquire co0 (ee_clock e 0) (ee_clock e 0) ?lease (ee_owner e) 60000)"
  have live: "live_value ?co1 (ee_clock e 1) ?key (jp_stringify pl ?claim)"
    using live_value_set[OF clock(1)] pl(2) by (simp add: live_value_lease co0)
  have leases: "lease_holder co0 k u = lease_holder co k u" for k u
    by (simp add: co0 set_value_def lease_holder_def)
  have ids: "node_id (en_node en) = ee_id e" "node_state (en_node en) = NodeOnline" "node_roles (en_node en) = roles"
    "en_csrSha256 en = jp_hash pl (ei_csrPem input)" "en_certificate en = certificate"
    by (simp_all add: en_def new_enrollment_def enrolled_node_def)
  obtain d' stored where create: "createNode d (en_node en) (Some (certificate_of en)) = (d', resolve stored)"
    using fresh(1,2) ids
    by (simp add: createNode_def putNodeCertificate_def sql_insert_def getVersionedNode_def certificate_of_def
        certificateState_def)
  let ?pending = "set_value ?co1 (ee_clock e 4) ?key (jp_stringify pl (bound_claim ?claim EnrollmentPending en))
      (max 1 (max 300000 (expiresAt - ee_clock e 6)))"
  let ?done = "jp_stringify pl (bound_claim ?claim EnrollmentCompleted en)"
  let ?co2 = "set_value ?pending (ee_clock e 13) ?key ?done 300000"
  have body: "enroll_body pl signCsr e input ?key \<lparr>jw_db = d, jw_co = ?co1\<rparr> =
      (\<lparr>jw_db = d', jw_co = ?co2\<rparr>, [NodeJoined (ee_id e) (node_name (en_node en)) roles],
       resolve (en_node en, certificate))"
    using enroll_fresh_body[OF calm(1), of "\<lparr>jw_db = d, jw_co = ?co1\<rparr>" ?key _ pl ?claim signCsr input certificate d' stored]
      live pl(1) clock(2) sign fresh(1) create
    by (simp add: en_def)
  define w where "w = \<lparr>jw_db = d', jw_co = release ?co2 ?lease (ee_owner e)\<rparr>"
  have first: "enroll pl e input \<lparr>jw_db = d, jw_co = co0\<rparr> =
      (w, [NodeJoined (ee_id e) (node_name (en_node en)) roles], resolve (en_node en, certificate))"
    using enroll_from_body[OF calm(1) pl(3) refl, of "\<lparr>jw_db = d, jw_co = co0\<rparr>"] free body
    by (simp add: leases w_def)
  have unleased: "lease_holder (jw_co w) ?lease u = None" for u
    using lease_given_back[of co0 ?lease "ee_clock e 0" ?co2 "ee_clock e 0" "ee_owner e" 60000 u] free
    by (simp add: w_def leases)
  have retry: "snd (enroll pl e' again w) =
      (if jp_hash pl (ei_csrPem again) = jp_hash pl (ei_csrPem input)
       then ([], resolve (en_node en, certificate)) else ([], throw ConflictError))"
    if same: "ei_token again = ei_token input" for again
  proof -
    let ?w1 = "w\<lparr>jw_co := fst (acquire (jw_co w) (ee_clock e' 0) (ee_clock e' 0) ?lease (ee_owner e') 60000)\<rparr>"
    have live': "live_value (jw_co ?w1) (ee_clock e' 1) ?key ?done"
      using live_value_set[OF clock(3)] pl(2) by (simp add: live_value_lease w_def)
    have found: "reconcileEnrollment en (jw_db ?w1) (jw_db ?w1) = resolve (Some (en_node en))"
      using reconcile_created[OF create] fresh(3) ids(1) by (simp add: w_def)
    have "snd (enroll_body pl signCsr e' again ?key ?w1) =
        (if jp_hash pl (ei_csrPem again) = jp_hash pl (ei_csrPem input)
         then ([], resolve (en_node en, certificate)) else ([], throw ConflictError))"
    proof (cases "jp_hash pl (ei_csrPem again) = jp_hash pl (ei_csrPem input)")
      case True
      then have "en_csrSha256 en = jp_hash pl (ei_csrPem again)" using ids(4) by simp
      from enroll_again_body[OF calm(2) live' parsesD[OF pl(1)] this found] True show ?thesis
        by (simp add: ids(5))
    next
      case False
      then have "en_csrSha256 en \<noteq> jp_hash pl (ei_csrPem again)" using ids(4) by simp
      from enroll_other_body[OF live' parsesD[OF pl(1)] this] False show ?thesis by simp
    qed
    moreover obtain w' f r where "enroll_body pl signCsr e' again ?key ?w1 = (w', f, r)" by (metis prod_cases3)
    ultimately show ?thesis
      using enroll_from_body[OF calm(2) pl(3), of ?key again w w' f r] unleased same by simp
  qed
  have "getVersionedNode (jw_db w) (ee_id e) = Some (versioned (en_node en) 1)"
    using listed_certificate(3)[OF create] fresh(3) ids(1) by (simp add: w_def)
  moreover have "active_cert (jw_db w) (sc_serialNumber certificate)
      (certificateState (ee_id e) certificate (node_createdAt (en_node en)))"
    using created_certificate[OF create] ids(1,5) by (simp add: w_def certificate_of_def)
  ultimately show ?thesis using first ids(1,2) retry by blast
qed

end
