(* ===== verification/RelayClusterResults.thy ===== *)
theory RelayClusterResults
  imports RelayListing RelayEnrollQuiet RelayJobFacts RelaySamples "HOL-Library.Countable"
begin

text \<open>
  The properties of the cluster service: enrolment with a token, revocation and rotation of
  certificates, the listing of the nodes and the routes built on it, placement, and the end
  of a provider binding.
\<close>

section \<open>Enrolment\<close>

text \<open>C4: A join token enrols one node: in any sequence of attempts with one token, under any
  interference that leaves the claim of the token alone, and whatever writes to the
  coordination store report, all the attempts that succeed return a node of the same
  identifier with the same certificate, and were made with requests of the same digest.\<close>

theorem token_enrols_one_node:
  assumes "parses pl" and "\<forall>(e, input) \<in> set xs. ei_token input = token \<and> respectful (join_key pl token) e"
    and "claim_state pl (join_key pl token) None (jw_co w)" and "reachable_db (jw_db w)"
    and "enroll_run pl xs w = (w', rs)"
    and "(input1, resolve (n1, c1)) \<in> set rs" and "(input2, resolve (n2, c2)) \<in> set rs"
  shows "node_id n1 = node_id n2 \<and> c1 = c2 \<and> jp_hash pl (ei_csrPem input1) = jp_hash pl (ei_csrPem input2)"
proof -
  have "enrollable None" by (simp add: enrollable_def)
  from enroll_run_agrees[OF assms(1-4) this assms(5)]
  obtain s :: "(string \<times> cluster_node \<times> signed_certificate) option" where
    "\<forall>input n c. (input, resolve (n, c)) \<in> set rs \<longrightarrow>
       (\<exists>m. s = Some (jp_hash pl (ei_csrPem input), m, c) \<and> node_id n = node_id m)" by blast
  note all = this[rule_format]
  obtain m1 where m1: "s = Some (jp_hash pl (ei_csrPem input1), m1, c1)" "node_id n1 = node_id m1"
    using all[OF assms(6)] by blast
  obtain m2 where m2: "s = Some (jp_hash pl (ei_csrPem input2), m2, c2)" "node_id n2 = node_id m2"
    using all[OF assms(7)] by blast
  show ?thesis using m1(1)[unfolded m2(1)] by (simp add: m1(2) m2(2))
qed

definition sample_certificate :: signed_certificate where
  "sample_certificate =
     \<lparr>sc_certificatePem = ''pem'', sc_caCertificatePem = ''ca'', sc_expiresAt = 900000,
      sc_serialNumber = ''a1'', sc_fingerprintSha256 = ''f''\<rparr>"

text \<open>
  Claims are countable, so there is a codec: the number of a claim in unary. It stands for
  JSON in the witness.
\<close>

instance video_codec :: countable by countable_datatype
instance node_role :: countable by countable_datatype
instance node_state :: countable by countable_datatype
instance enrollment_status :: countable by countable_datatype

instance node_capability_ext :: (countable) countable
  by (rule countable_classI[of "\<lambda>c. to_nat (cap_encoders c, cap_videoCodecs c, cap_hardwareDevices c,
        cap_maxWorkers c, cap_activeWorkers c, cap_queuedWorkers c, cap_cacheBytes c, cap_cacheLimitBytes c,
        cap_egressMbps c, cap_providerIds c, cap_vodProducerVersion c, node_capability.more c)"])
     (simp add: node_capability.equality)

instance cluster_node_ext :: (countable) countable
  by (rule countable_classI[of "\<lambda>n. to_nat (node_id n, node_name n, node_roles n, node_region n, node_publicUrl n,
        node_internalUrl n, node_state n, node_capabilities n, node_weight n, node_certificateExpiresAt n,
        node_lastHeartbeatAt n, node_createdAt n, node_updatedAt n, cluster_node.more n)"])
     (simp add: cluster_node.equality)

instance signed_certificate_ext :: (countable) countable
  by (rule countable_classI[of "\<lambda>c. to_nat (sc_certificatePem c, sc_caCertificatePem c, sc_expiresAt c,
        sc_serialNumber c, sc_fingerprintSha256 c, signed_certificate.more c)"])
     (simp add: signed_certificate.equality)

instance join_enrollment_ext :: (countable) countable
  by (rule countable_classI[of "\<lambda>e. to_nat (en_csrSha256 e, en_node e, en_certificate e, en_status e,
        join_enrollment.more e)"])
     (simp add: join_enrollment.equality)

instance join_claim_ext :: (countable) countable
  by (rule countable_classI[of "\<lambda>c. to_nat (jc_name c, jc_roles c, jc_region c, jc_expiresAt c, jc_enrollment c,
        join_claim.more c)"])
     (simp add: join_claim.equality)

definition sample_platform :: join_platform where
  "sample_platform =
     \<lparr>jp_hash = \<lambda>s. s, jp_stringify = \<lambda>c. replicate (Suc (to_nat c)) CHR ''x'',
      jp_parse = \<lambda>s. from_nat (length s - 1), jp_signCsr = Some (\<lambda>_ _ _. resolve sample_certificate)\<rparr>"

lemma sample_parses: "parses sample_platform"
  by (simp add: parses_def sample_platform_def)

definition sample_input :: "string \<Rightarrow> enroll_input" where
  "sample_input csr =
     \<lparr>ei_token = ''vrr_join_t'', ei_name = ''Edge 1'', ei_publicUrl = ''https://edge'', ei_internalUrl = None,
      ei_capabilities = sample_capability, ei_csrPem = csr\<rparr>"

definition sample_enroll :: "ident \<Rightarrow> enroll_env" where
  "sample_enroll i =
     \<lparr>ee_db = \<lambda>_. [], ee_co = \<lambda>_ co. co, ee_clock = \<lambda>_. 5, ee_set = \<lambda>_. SetDone, ee_owner = i, ee_id = i\<rparr>"

lemma sample_calm: "calm_env (sample_enroll i)"
  by (simp add: calm_env_def sample_enroll_def)

definition join_start :: join_world where
  "join_start =
     \<lparr>jw_db = empty_db,
      jw_co = fst (createJoinToken sample_platform ''t'' ''Edge'' [RoleEdge] ''eu'' 1 0 0 empty_coordination)\<rparr>"

text \<open>C25: A valid token enrols its node, and the enrolment can be retried: without interference,
  for a token that has not run out, a request the authority signs and an identifier and a
  serial number not used before, the enrolment stores the node online with its certificate,
  announces it once and returns it; the same request made again within five minutes returns
  the same node and certificate and announces nothing, and a different request is refused.\<close>

theorem valid_token_enrols:
  assumes pl: "parses pl" "\<forall>c. jp_stringify pl c \<noteq> []" "jp_signCsr pl = Some signCsr"
    and sign: "sign_for_node signCsr (ee_id e) (ei_csrPem input) = resolve certificate"
    and token: "createJoinToken pl secret name roles region seconds t t' co = (co0, ei_token input, expiresAt)"
    and calm: "calm_env e" "calm_env e'"
    and clock: "ee_clock e 1 < t' + seconds * 1000" "ee_clock e 2 < expiresAt" "ee_clock e' 1 < ee_clock e 13 + 300000"
    and free: "\<And>u. lease_holder co (join_key pl (ei_token input) @ '':consume'') u = None"
    and fresh: "getVersionedNode d (ee_id e) = None" "map_of (db_certs d) (sc_serialNumber certificate) = None"
      "\<forall>p \<in> set (db_certs d). cert_nodeId (row_json (snd p)) \<noteq> ee_id e"
  shows "\<exists>w n. enroll pl e input \<lparr>jw_db = d, jw_co = co0\<rparr> =
             (w, [NodeJoined (ee_id e) (node_name n) roles], resolve (n, certificate)) \<and>
           node_id n = ee_id e \<and> node_state n = NodeOnline \<and>
           getVersionedNode (jw_db w) (ee_id e) = Some (versioned n 1) \<and>
           active_cert (jw_db w) (sc_serialNumber certificate) (certificateState (ee_id e) certificate (node_createdAt n)) \<and>
           (\<forall>retry. ei_token retry = ei_token input \<longrightarrow>
              snd (enroll pl e' retry w) =
                (if jp_hash pl (ei_csrPem retry) = jp_hash pl (ei_csrPem input)
                 then ([], resolve (n, certificate)) else ([], throw ConflictError)))"
  using assms by (rule fresh_token_enrols)

lemma sample_ready:
  "\<forall>c. jp_stringify sample_platform c \<noteq> []"
  "jp_signCsr sample_platform = Some (\<lambda>_ _ _. resolve sample_certificate)"
  "sign_for_node (\<lambda>_ _ _. resolve sample_certificate) i csr = resolve sample_certificate"
  "createJoinToken sample_platform ''t'' ''Edge'' [RoleEdge] ''eu'' 1 0 0 empty_coordination =
     (jw_co join_start, ei_token (sample_input csr), 1000)"
  "ee_clock (sample_enroll i) k = 5" "ee_id (sample_enroll i) = i"
  "getVersionedNode empty_db i = None" "db_certs empty_db = []"
  "lease_holder empty_coordination key u = None"
  "join_start = \<lparr>jw_db = empty_db, jw_co = jw_co join_start\<rparr>"
  by (simp_all add: sample_platform_def sign_for_node_def createJoinToken_def Let_def sample_input_def join_start_def
      sample_enroll_def getVersionedNode_def get_versioned_def empty_db_def lease_holder_def empty_coordination_def)

lemma sample_enrolled:
  "\<exists>w n. enroll sample_platform (sample_enroll ''n1'') (sample_input ''csr'') join_start =
       (w, [NodeJoined ''n1'' (node_name n) [RoleEdge]], resolve (n, sample_certificate)) \<and>
     snd (enroll sample_platform (sample_enroll ''n2'') (sample_input ''csr'') w) = ([], resolve (n, sample_certificate))"
  using fresh_token_enrols[OF sample_parses sample_ready(1-4) sample_calm[of "''n1''"] sample_calm[of "''n2''"],
      of "''csr''" empty_db]
  unfolding sample_ready(10)[symmetric] by (auto simp: sample_ready(5-9))

theorem valid_token_enrols_witness:
  "\<exists>w n. enroll sample_platform (sample_enroll ''n1'') (sample_input ''csr'') join_start =
     (w, [NodeJoined ''n1'' (node_name n) [RoleEdge]], resolve (n, sample_certificate)) \<and> node_state n = NodeOnline"
  using valid_token_enrols[OF sample_parses sample_ready(1-4) sample_calm[of "''n1''"] sample_calm[of "''n2''"],
      of "''csr''" empty_db]
  unfolding sample_ready(10)[symmetric] by (auto simp: sample_ready(5-9))

lemma sample_two_attempts:
  "\<exists>w n. enroll_run sample_platform
      [(sample_enroll ''n1'', sample_input ''csr''), (sample_enroll ''n2'', sample_input ''csr'')] join_start =
      (w, [(sample_input ''csr'', resolve (n, sample_certificate)), (sample_input ''csr'', resolve (n, sample_certificate))])"
proof -
  obtain w n where first: "enroll sample_platform (sample_enroll ''n1'') (sample_input ''csr'') join_start =
       (w, [NodeJoined ''n1'' (node_name n) [RoleEdge]], resolve (n, sample_certificate))"
    and "snd (enroll sample_platform (sample_enroll ''n2'') (sample_input ''csr'') w) = ([], resolve (n, sample_certificate))"
    using sample_enrolled by blast
  then obtain w' where "enroll sample_platform (sample_enroll ''n2'') (sample_input ''csr'') w = (w', [], resolve (n, sample_certificate))"
    by (metis prod.collapse)
  with first show ?thesis by simp
qed

theorem token_enrols_one_node_witness:
  "\<exists>w rs n1 n2. enroll_run sample_platform
      [(sample_enroll ''n1'', sample_input ''csr''), (sample_enroll ''n2'', sample_input ''csr'')] join_start = (w, rs) \<and>
     map snd rs = [resolve (n1, sample_certificate), resolve (n2, sample_certificate)] \<and> node_id n1 = node_id n2"
proof -
  let ?xs = "[(sample_enroll ''n1'', sample_input ''csr''), (sample_enroll ''n2'', sample_input ''csr'')]"
  let ?token = "ei_token (sample_input ''csr'')"
  obtain w' n where run: "enroll_run sample_platform ?xs join_start =
      (w', [(sample_input ''csr'', resolve (n, sample_certificate)), (sample_input ''csr'', resolve (n, sample_certificate))])"
    using sample_two_attempts by blast
  have envs: "\<forall>(e, input) \<in> set ?xs. ei_token input = ?token \<and> respectful (join_key sample_platform ?token) e"
    by (simp add: calm_respectful[OF sample_calm])
  have claim: "claim_state sample_platform (join_key sample_platform ?token) None (jw_co join_start)"
    using sample_parses
    by (simp add: join_start_def createJoinToken_def Let_def claim_state_def set_value_def sample_input_def
        empty_coordination_def)
  have db: "reachable_db (jw_db join_start)" by (simp add: join_start_def reachable_empty)
  have "(sample_input ''csr'', resolve (n, sample_certificate)) \<in>
      set [(sample_input ''csr'', resolve (n, sample_certificate)), (sample_input ''csr'', resolve (n, sample_certificate))]"
    by simp
  from token_enrols_one_node[OF sample_parses envs claim db run this this] run show ?thesis by auto
qed

text \<open>Round trip of an enrolment: the node that is created for an enrolment, with the
  certificate of the enrolment, is exactly what a reconciliation of the enrolment reads
  back, when the identifier of the node has no certificates yet.\<close>

lemma created_enrollment_is_found:
  assumes "createNode d (en_node en)
      (Some (certificateState (node_id (en_node en)) (en_certificate en) (node_createdAt (en_node en)))) = (d', resolve stored)"
    and "\<forall>p \<in> set (db_certs d). cert_nodeId (row_json (snd p)) \<noteq> node_id (en_node en)"
  shows "reconcileEnrollment en d' d' = resolve (Some (en_node en))"
  using assms by (intro reconcile_created) (simp_all add: certificate_of_def)

definition sample_enrollment :: join_enrollment where
  "sample_enrollment =
     \<lparr>en_csrSha256 = ''csr'', en_node = sample_node ''m'' ''us'', en_certificate = sample_certificate,
      en_status = EnrollmentPending\<rparr>"

section \<open>Revocation and rotation\<close>

text \<open>C17: A revoked node is locked out for good: once \<^verbatim>\<open>revoke\<close> has returned, under whatever others
  wrote meanwhile and after any later history without the removal of the node, none of its
  certificates is active, no certificate is signed for it and none can be activated, and its
  heartbeats return the revoked node and write nothing.\<close>

theorem revoked_node_is_locked_out:
  assumes "reachable_db d" and "\<And>j. \<forall>x \<in> set (env j). typed_op x"
    and "revoke env now i d = (d', effects, resolve n)"
    and "\<forall>x \<in> set xs. typed_op x \<and> (\<forall>e. x \<noteq> NodeOp (OpRemoveNode i e))"
  defines "later \<equiv> run_ops xs d'"
  shows "\<not> certificateIsActive i serial fingerprint t later \<and>
         signNodeCertificate authority i csr later = throw NotFoundError \<and>
         activateNodeCertificate undisturbed t i certificate later = (later, throw NotFoundError) \<and>
         (\<exists>m. heartbeat undisturbed clock i capabilities st later = (later, resolve m) \<and> node_state m = NodeRevoked)"
proof -
  from revoke_resolved[OF assms(1-3)] obtain r where
    "reachable_db d'" "map_of (db_nodes d') i = Some r" "node_state (row_json r) = NodeRevoked" by blast
  from revoked_run[OF this(1) assms(4) this(2,3)] obtain r' where
    "map_of (db_nodes later) i = Some r'" "node_state (row_json r') = NodeRevoked" by (auto simp: later_def)
  from revoked_locked_out[OF this] this(2) show ?thesis by simp
qed

theorem revoked_node_is_locked_out_witness:
  "\<not> certificateIsActive ''n'' ''c1'' None 5 (run_ops [] (fst (revoke undisturbed 4 ''n'' sample_db)))"
proof -
  let ?x = "revoke undisturbed 4 ''n'' sample_db"
  have "(case snd (snd ?x) of Inl _ \<Rightarrow> False | Inr _ \<Rightarrow> True)" by code_simp
  then obtain n where "?x = (fst ?x, fst (snd ?x), resolve n)" by (auto simp: prod_eq_iff split: sum.splits)
  from revoked_node_is_locked_out[OF sample_reachable _ this, of "[]"] show ?thesis by simp
qed

text \<open>A rotation trusts only the new certificate: when \<^verbatim>\<open>activateNodeCertificate\<close> returns, under
  whatever others wrote meanwhile, the certificate it was given is stored and active, and it
  is the only active one of the node.\<close>

lemma rotation_trusts_only_the_new:
  assumes "\<And>j. \<forall>x \<in> set (env j). typed_op x"
    and "activateNodeCertificate env t i certificate d = (d', resolve c)"
  shows "c = certificate \<and>
         active_cert d' (sc_serialNumber certificate) (certificateState i certificate t) \<and>
         (\<forall>s x. active_cert d' s x \<longrightarrow> cert_nodeId x = i \<longrightarrow>
            s = sc_serialNumber certificate \<and> x = certificateState i certificate t)"
  using activate_resolved[OF assms] by blast

lemma rotation_trusts_only_the_new_witness:
  "active_cert (fst (activateNodeCertificate undisturbed 6 ''n'' sample_certificate sample_db)) ''a1''
     (certificateState ''n'' sample_certificate 6)"
proof -
  let ?x = "activateNodeCertificate undisturbed 6 ''n'' sample_certificate sample_db"
  have "(case snd ?x of Inl _ \<Rightarrow> False | Inr _ \<Rightarrow> True)" by code_simp
  then obtain c where "?x = (fst ?x, resolve c)" by (auto simp: prod_eq_iff split: sum.splits)
  from rotation_trusts_only_the_new[OF _ this] show ?thesis by (simp add: sample_certificate_def)
qed

section \<open>Listing and routing\<close>

text \<open>Listing the nodes only demotes silent ones: without interference every stored node is
  listed once and as it is stored then, a row changes only from joining, online or degraded
  to degraded or offline and only when the node was silent for 45 seconds, and a node
  listed as online was heard of within them.\<close>

lemma listing_only_demotes:
  assumes "keys_ok (db_nodes d)" and "node_ids_ok d"
  shows "\<exists>d' ms. listNodes (\<lambda>_. undisturbed) clock now d = (d', resolve ms) \<and>
    node_id ` set ms = dom (map_of (db_nodes d)) \<and>
    (\<forall>m \<in> set ms. listed_as d' m \<and> (node_state m = NodeOnline \<longrightarrow> now - 45000 \<le> node_lastHeartbeatAt m)) \<and>
    (\<forall>i. silent_step (now - 45000) (map_of (db_nodes d) i) (map_of (db_nodes d') i))"
  using assms by (rule listNodes_quiet)

lemma listing_only_demotes_witness:
  "\<exists>d' ms. listNodes (\<lambda>_. undisturbed) (\<lambda>_ _. 50000) 50000 sample_db = (d', resolve ms) \<and> node_id ` set ms = {''n''} \<and>
     (\<forall>m \<in> set ms. node_state m \<noteq> NodeOnline \<or> 5000 \<le> node_lastHeartbeatAt m)"
proof -
  have rows: "db_nodes sample_db = [(''n'', fresh_row (sample_node ''n'' ''eu'') 3)]" by code_simp
  have "node_ids_ok sample_db" using reachable_nodes_ok[OF sample_reachable] by simp
  from listing_only_demotes[OF _ this, of "\<lambda>_ _. 50000" 50000] show ?thesis
    by (fastforce simp: rows)
qed

definition better_edge :: "(string \<Rightarrow> nat) \<Rightarrow> string \<Rightarrow> string option \<Rightarrow> string option \<Rightarrow> cluster_node \<Rightarrow> cluster_node \<Rightarrow> bool" where
  "better_edge digest key viewer preferred m n \<longleftrightarrow>
     (let inside = \<lambda>region x. truthy region \<and> Some (node_region x) = region
      in if inside viewer m \<noteq> inside viewer n then inside viewer m
         else if \<not> inside viewer n \<and> inside preferred m \<noteq> inside preferred n then inside preferred m
         else edge_score digest key n < edge_score digest key m)"

lemma best_edge:
  assumes "builtin_selectEdge digest (ContextRequest c) nodes = Some n" and "m \<in> set (eligible_edges nodes)"
  shows "\<not> better_edge digest (ec_affinityKey c) (ec_viewerRegion c) (ec_preferredRegion c) m n"
  using builtin_best[OF assms] by (auto simp: better_edge_def split: if_splits)

lemma better_edge_truthy:
  "better_edge digest key (if truthy v then v else None) (if truthy p then p else None) m n =
     better_edge digest key v p m n"
  by (simp add: better_edge_def)

text \<open>A viewer is routed to a live edge: without interference, a route of the built-in director
  leads to a stored node that is an online edge heard of within 45 seconds, and no edge that
  the listing gave was better for the viewer: in the region of the viewer when there is one
  there, else in the preferred region, else anywhere, it has the highest score.\<close>

lemma routed_edge_is_alive:
  assumes "keys_ok (db_nodes d)" and "node_ids_ok d"
    and "clusterSelectEdge (builtin_selectEdge digest) (\<lambda>_. undisturbed) clock now now' s preferred viewer d =
           (d', effects, resolve (Some r))"
  shows "effects = [RouteSelectedEvent r] \<and>
    (\<exists>n. listed_as d' n \<and> route_nodeId r = node_id n \<and> route_publicUrl r = node_publicUrl n \<and>
       node_state n = NodeOnline \<and> RoleEdge \<in> set (node_roles n) \<and> now - 45000 \<le> node_lastHeartbeatAt n \<and>
       (\<forall>m. listed_as d' m \<longrightarrow> node_state m = NodeOnline \<longrightarrow> RoleEdge \<in> set (node_roles m) \<longrightarrow>
          \<not> better_edge digest s viewer preferred m n))"
proof -
  from listNodes_quiet[OF assms(1,2), of clock now] obtain ms where
    list: "listNodes (\<lambda>_. undisturbed) clock now d = (d', resolve ms)" "node_id ` set ms = dom (map_of (db_nodes d))"
      "\<forall>m \<in> set ms. listed_as d' m \<and> (node_state m = NodeOnline \<longrightarrow> now - 45000 \<le> node_lastHeartbeatAt m)"
      "\<forall>i. silent_step (now - 45000) (map_of (db_nodes d) i) (map_of (db_nodes d') i)"
    using assms(3) by (auto simp: clusterSelectEdge_def split: option.splits)
  have r: "route_for (builtin_selectEdge digest) ms s preferred viewer now' = Some r" "effects = [RouteSelectedEvent r]"
    using assms(3) list(1) by (auto simp: clusterSelectEdge_def split: option.splits)
  let ?c = "\<lparr>ec_sessionId = s, ec_affinityKey = s, ec_viewerRegion = (if truthy viewer then viewer else None),
     ec_preferredRegion = (if truthy preferred then preferred else None)\<rparr>"
  obtain n where n: "builtin_selectEdge digest (ContextRequest ?c) ms = Some n"
      "route_nodeId r = node_id n" "route_publicUrl r = node_publicUrl n"
    using r(1) by (auto simp: route_for_def split: option.splits)
  have edge: "n \<in> set (eligible_edges ms)" by (rule builtin_selects[OF n(1)])
  have "m \<in> set ms" if m: "listed_as d' m" for m
  proof -
    obtain row where row: "map_of (db_nodes d') (node_id m) = Some row" "row_json row = m"
      using m by (auto simp: listed_as_def)
    have "map_of (db_nodes d) (node_id m) \<noteq> None"
      using list(4)[rule_format, of "node_id m"] row(1) unfolding silent_step_def by (metis option.distinct(1))
    then have "node_id m \<in> node_id ` set ms" using list(2) by (simp add: domIff)
    then obtain x where x: "x \<in> set ms" "node_id m = node_id x" by (rule imageE)
    obtain other where "map_of (db_nodes d') (node_id x) = Some other" "row_json other = x"
      using list(3) x(1) unfolding listed_as_def by blast
    then have "other = row" using row(1) unfolding x(2) by simp
    then show ?thesis using x(1) row(2) \<open>row_json other = x\<close> by simp
  qed
  then have "\<not> better_edge digest s viewer preferred m n"
    if "listed_as d' m" "node_state m = NodeOnline" "RoleEdge \<in> set (node_roles m)" for m
    using best_edge[OF n(1), of m] that by (simp add: better_edge_truthy)
  then show ?thesis using r(2) n(2,3) edge list(3) by auto
qed

lemma routed_edge_is_alive_witness:
  "\<exists>d' r. clusterSelectEdge (builtin_selectEdge (\<lambda>_. 7)) (\<lambda>_. undisturbed) (\<lambda>_ _. 9) 9 9 ''s'' None (Some ''eu'') sample_db =
      (d', [RouteSelectedEvent r], resolve (Some r)) \<and>
     (\<exists>n. listed_as d' n \<and> route_nodeId r = node_id n \<and> node_state n = NodeOnline)"
proof -
  let ?x = "clusterSelectEdge (builtin_selectEdge (\<lambda>_. 7)) (\<lambda>_. undisturbed) (\<lambda>_ _. 9) 9 9 ''s'' None (Some ''eu'') sample_db"
  have rows: "db_nodes sample_db = [(''n'', fresh_row (sample_node ''n'' ''eu'') 3)]" by code_simp
  have keys: "keys_ok (db_nodes sample_db)" and ids: "node_ids_ok sample_db"
    using reachable_nodes_ok[OF sample_reachable] by (simp_all add: rows)
  have "(case snd (snd ?x) of Inl _ \<Rightarrow> False | Inr q \<Rightarrow> q \<noteq> None)" by code_simp
  then obtain r where "?x = (fst ?x, fst (snd ?x), resolve (Some r))"
    by (auto simp: prod_eq_iff split: sum.splits)
  from routed_edge_is_alive[OF keys ids this] this show ?thesis by (metis prod.collapse)
qed

section \<open>Selection and placement\<close>

text \<open>Sorting and taking the first is a scan for the first least element.\<close>

lemma js_sort_snoc: "js_sort cmp (xs @ [x]) = js_insert cmp x (js_sort cmp xs)"
  by (simp add: js_sort_def)

lemma find_append: "find p (xs @ ys) = (case find p xs of None \<Rightarrow> find p ys | Some x \<Rightarrow> Some x)"
  by (induction xs) auto

lemma js_first_is_find:
  "js_first (js_sort (\<lambda>a b. f a - f b :: rat) xs) = find (\<lambda>x. \<forall>y \<in> set xs. f x \<le> f y) xs"
proof (induction xs rule: rev_induct)
  case Nil
  then show ?case by simp
next
  case (snoc x xs)
  let ?cmp = "\<lambda>a b. f a - f b"
  have first: "js_first (js_sort ?cmp (xs @ [x])) =
      (case js_first (js_sort ?cmp xs) of None \<Rightarrow> Some x | Some h \<Rightarrow> if f x < f h then Some x else Some h)"
    unfolding js_sort_snoc by (cases "js_sort ?cmp xs") auto
  show ?case
  proof (cases "js_first (js_sort ?cmp xs)")
    case None
    then have "xs = []" by simp
    then show ?thesis using first by simp
  next
    case (Some h)
    then have found: "find (\<lambda>z. \<forall>y \<in> set xs. f z \<le> f y) xs = Some h" using snoc.IH by simp
    then have h: "h \<in> set xs" "\<forall>y \<in> set xs. f h \<le> f y" using find_mem[OF found] by auto
    show ?thesis
    proof (cases "f x < f h")
      case True
      then have "find (\<lambda>z. \<forall>y \<in> set (xs @ [x]). f z \<le> f y) xs = None"
        using h by (fastforce simp: find_None_iff)
      moreover have "\<forall>y \<in> set (xs @ [x]). f x \<le> f y" using h(2) True by auto
      ultimately show ?thesis using first Some True by (simp add: find_append)
    next
      case False
      have "(\<forall>y \<in> set (xs @ [x]). f z \<le> f y) = (\<forall>y \<in> set xs. f z \<le> f y)" if "z \<in> set xs" for z
        using h False that by fastforce
      then have "find (\<lambda>z. \<forall>y \<in> set (xs @ [x]). f z \<le> f y) xs = Some h"
        using found find_cong[of xs xs "\<lambda>z. \<forall>y \<in> set (xs @ [x]). f z \<le> f y" "\<lambda>z. \<forall>y \<in> set xs. f z \<le> f y"] by simp
      then show ?thesis using first Some False by (simp add: find_append)
    qed
  qed
qed

text \<open>The selections that sort are scans: the built-in director takes the first edge of its
  pool that no other outscores, and a placement without a requested node the first
  compatible worker of its pool that no other is less loaded than.\<close>

lemma selections_are_scans:
  defines "pool \<equiv> \<lambda>c nodes. or_pool (in_region (ec_viewerRegion c) (eligible_edges nodes))
      (or_pool (in_region (ec_preferredRegion c) (eligible_edges nodes)) (eligible_edges nodes))"
    and "workers \<equiv> \<lambda>i nodes. (let c = filter (placement_compatible i) (filter (placement_candidate i) nodes)
      in or_pool (in_region (pi_preferredRegion i) c) c)"
  shows "builtin_selectEdge digest (ContextRequest c) nodes =
      find (\<lambda>n. \<forall>m \<in> set (pool c nodes).
               edge_score digest (ec_affinityKey c) m \<le> edge_score digest (ec_affinityKey c) n) (pool c nodes) \<and>
    (if truthy (pi_preferredNodeId i) then True
     else fst (previewPlacement nodes i) =
       find (\<lambda>n. \<forall>m \<in> set (workers i nodes). worker_load n \<le> worker_load m) (workers i nodes))"
proof -
  have "js_first (js_sort (\<lambda>l r. f r - f l) xs) = find (\<lambda>n. \<forall>m \<in> set xs. f m \<le> f n) xs"
    for f :: "cluster_node \<Rightarrow> rat" and xs
    using js_first_is_find[of "\<lambda>x. - f x" xs] by simp
  then have "builtin_selectEdge digest (ContextRequest c) nodes =
      find (\<lambda>n. \<forall>m \<in> set (pool c nodes).
               edge_score digest (ec_affinityKey c) m \<le> edge_score digest (ec_affinityKey c) n) (pool c nodes)"
    by (simp add: builtin_selectEdge_def pool_def Let_def in_region_def or_pool_def)
  moreover have "fst (previewPlacement nodes i) =
      find (\<lambda>n. \<forall>m \<in> set (workers i nodes). worker_load n \<le> worker_load m) (workers i nodes)"
    if "\<not> truthy (pi_preferredNodeId i)"
    using that js_first_is_find[of worker_load "workers i nodes"]
    by (simp add: previewPlacement_def workers_def Let_def split: option.split)
  ultimately show ?thesis by simp
qed

lemma selections_are_scans_witness:
  "builtin_selectEdge (\<lambda>_. 7)
     (ContextRequest \<lparr>ec_sessionId = ''s'', ec_affinityKey = ''s'', ec_viewerRegion = Some ''eu'', ec_preferredRegion = None\<rparr>)
     [sample_node ''a'' ''us'', sample_node ''b'' ''eu''] = Some (sample_node ''b'' ''eu'')"
proof -
  let ?c = "\<lparr>ec_sessionId = ''s'', ec_affinityKey = ''s'', ec_viewerRegion = Some ''eu'', ec_preferredRegion = None\<rparr>"
  let ?nodes = "[sample_node ''a'' ''us'', sample_node ''b'' ''eu'']"
  have "or_pool (in_region (ec_viewerRegion ?c) (eligible_edges ?nodes))
      (or_pool (in_region (ec_preferredRegion ?c) (eligible_edges ?nodes)) (eligible_edges ?nodes)) =
    [sample_node ''b'' ''eu'']" by code_simp
  with selections_are_scans[THEN conjunct1, of "\<lambda>_. 7" ?c ?nodes] show ?thesis by simp
qed

section \<open>The end of a provider binding\<close>

text \<open>A finalised binding is gone: without interference \<^verbatim>\<open>finalizeBindingDeletion\<close> always returns and the
  binding is deleted, whatever revision it was called with, also when its deletion was never
  begun: the error that the deletion is not pending is caught, and the deletion is begun and
  finished instead.\<close>

lemma finalisation_always_deletes:
  assumes "keys_ok (db_bindings d)"
  shows "\<exists>d'. finalizeBindingDeletion undisturbed (\<lambda>_. undisturbed) clock i e d = (d', resolve ()) \<and>
    map_of (db_bindings d') = (map_of (db_bindings d))(i := None)"
  using assms by (rule finalizeBindingDeletion_quiet)

definition healthy_binding_db :: db where
  "healthy_binding_db = run_ops [BindingOp (OpCreateBinding sample_provider
     \<lparr>bind_id = ''b'', bind_providerId = ''p'', bind_nodeId = ''n'', bind_secretRef = ''sec'', bind_reachable = True,
      bind_state = BindingHealthy, bind_deletionPending = False, bind_lastError = None,
      bind_validatedAt = None, bind_createdAt = 4, bind_updatedAt = 4\<rparr> (Some 1))] sample_db"

end
