(* ===== verification/RelayWorkers.thy ===== *)
theory RelayWorkers
  imports RelayPrelude
begin

text \<open>
  The transcode workers of \<^verbatim>\<open>SessionService\<close> (\<^verbatim>\<open>packages/application/src/session-service.ts\<close>):
  \<^verbatim>\<open>#acquire\<close>, \<^verbatim>\<open>#release\<close> and the abort listener of a waiting call. A call that waits is woken
  by resolving its promise; its continuation, which counts the worker, runs in a later
  microtask, so it is a step of its own. Calls are numbered; \<open>worker_step\<close> is the
  interleaving of all of them.
\<close>

section \<open>The pool\<close>

text \<open>
  What the queue holds are functions: the wrappers that are pushed, and the \<^verbatim>\<open>resolve\<close> of a
  promise, which the abort listener looks for.
\<close>

datatype waiter = ResolveOf nat | WakeOf nat

fun waiter_call :: "waiter \<Rightarrow> nat" where
  "waiter_call (ResolveOf i) = i"
| "waiter_call (WakeOf i) = i"

record worker_pool =
  wp_active :: nat
  wp_waiters :: "waiter list"
  wp_rejected :: "nat set"
  wp_woken :: "nat list"

definition idle_pool :: worker_pool where
  "idle_pool = \<lparr>wp_active = 0, wp_waiters = [], wp_rejected = {}, wp_woken = []\<rparr>"

datatype admission_reply = WorkerGranted | WorkerQueued | WorkerRefused app_error

definition acquireWorker :: "nat \<Rightarrow> nat \<Rightarrow> worker_pool \<Rightarrow> worker_pool \<times> admission_reply" where
  "acquireWorker maxWorkers i p =
     (if wp_active p < maxWorkers then (p\<lparr>wp_active := wp_active p + 1\<rparr>, WorkerGranted)
      else if length (wp_waiters p) \<ge> maxWorkers * 8 then (p, WorkerRefused CapacityError)
      else (p\<lparr>wp_waiters := wp_waiters p @ [WakeOf i]\<rparr>, WorkerQueued))"

text \<open>\<^verbatim>\<open>indexOf\<close> and \<^verbatim>\<open>splice(index, 1)\<close>.\<close>

fun index_of :: "'a \<Rightarrow> 'a list \<Rightarrow> nat option" where
  "index_of x [] = None"
| "index_of x (y # ys) = (if y = x then Some 0 else map_option Suc (index_of x ys))"

definition splice_out :: "nat option \<Rightarrow> 'a list \<Rightarrow> 'a list" where
  "splice_out k xs = (case k of None \<Rightarrow> xs | Some n \<Rightarrow> take n xs @ drop (Suc n) xs)"

definition abortWaiter :: "nat \<Rightarrow> worker_pool \<Rightarrow> worker_pool" where
  "abortWaiter i p =
     p\<lparr>wp_waiters := splice_out (index_of (ResolveOf i) (wp_waiters p)) (wp_waiters p),
       wp_rejected := insert i (wp_rejected p)\<rparr>"

text \<open>Waking a call whose promise was rejected has no effect.\<close>

definition wake :: "waiter \<Rightarrow> worker_pool \<Rightarrow> worker_pool" where
  "wake x p =
     (if waiter_call x \<in> wp_rejected p then p else p\<lparr>wp_woken := wp_woken p @ [waiter_call x]\<rparr>)"

definition releaseWorker :: "worker_pool \<Rightarrow> worker_pool" where
  "releaseWorker p =
     (let p1 = p\<lparr>wp_active := wp_active p - 1\<rparr>
      in case wp_waiters p1 of
           [] \<Rightarrow> p1
         | x # xs \<Rightarrow> wake x (p1\<lparr>wp_waiters := xs\<rparr>))"

definition resumeWaiter :: "nat \<Rightarrow> worker_pool \<Rightarrow> worker_pool" where
  "resumeWaiter i p = p\<lparr>wp_active := wp_active p + 1, wp_woken := filter (\<lambda>j. j \<noteq> i) (wp_woken p)\<rparr>"

section \<open>Interleavings\<close>

text \<open>\<open>holders\<close> are the calls that have a worker; a call acquires once.\<close>

definition waiting :: "worker_pool \<Rightarrow> nat set" where
  "waiting p = waiter_call ` set (wp_waiters p)"

definition new_call :: "nat \<Rightarrow> worker_pool \<times> nat set \<Rightarrow> bool" where
  "new_call i s = (case s of (p, holders) \<Rightarrow>
     i \<notin> holders \<and> i \<notin> waiting p \<and> i \<notin> set (wp_woken p) \<and> i \<notin> wp_rejected p)"

inductive worker_step :: "nat \<Rightarrow> worker_pool \<times> nat set \<Rightarrow> worker_pool \<times> nat set \<Rightarrow> bool"
  for maxWorkers :: nat where
  granted: "new_call i (p, holders) \<Longrightarrow> acquireWorker maxWorkers i p = (p', WorkerGranted) \<Longrightarrow>
     worker_step maxWorkers (p, holders) (p', insert i holders)"
| queued: "new_call i (p, holders) \<Longrightarrow> acquireWorker maxWorkers i p = (p', WorkerQueued) \<Longrightarrow>
     worker_step maxWorkers (p, holders) (p', holders)"
| refused: "new_call i (p, holders) \<Longrightarrow> acquireWorker maxWorkers i p = (p', WorkerRefused e) \<Longrightarrow>
     worker_step maxWorkers (p, holders) (p', holders)"
| aborted: "i \<in> waiting p \<Longrightarrow> i \<notin> wp_rejected p \<Longrightarrow>
     worker_step maxWorkers (p, holders) (abortWaiter i p, holders)"
| released: "i \<in> holders \<Longrightarrow> worker_step maxWorkers (p, holders) (releaseWorker p, holders - {i})"
| resumed: "i \<in> set (wp_woken p) \<Longrightarrow>
     worker_step maxWorkers (p, holders) (resumeWaiter i p, insert i holders)"

inductive_cases worker_stepE: "worker_step maxWorkers s s'"

text \<open>The schedules in which a woken call goes on before anything else happens.\<close>

definition hand_over :: "worker_pool \<times> nat set \<Rightarrow> worker_pool \<times> nat set" where
  "hand_over s = (case s of (p, holders) \<Rightarrow>
     (case wp_woken p of [] \<Rightarrow> (p, holders) | i # _ \<Rightarrow> (resumeWaiter i p, insert i holders)))"

inductive prompt_step :: "nat \<Rightarrow> worker_pool \<times> nat set \<Rightarrow> worker_pool \<times> nat set \<Rightarrow> bool"
  for maxWorkers :: nat where
  prompt: "worker_step maxWorkers s s' \<Longrightarrow> prompt_step maxWorkers s (hand_over s')"

section \<open>Accounting\<close>

definition pool_ok :: "nat \<Rightarrow> worker_pool \<times> nat set \<Rightarrow> bool" where
  "pool_ok maxWorkers s = (case s of (p, holders) \<Rightarrow>
     finite holders \<and> wp_active p = card holders \<and> length (wp_waiters p) \<le> 8 * maxWorkers \<and>
     (\<forall>x \<in> set (wp_waiters p). \<exists>i. x = WakeOf i) \<and>
     distinct (map waiter_call (wp_waiters p) @ wp_woken p) \<and>
     holders \<inter> (waiting p \<union> set (wp_woken p)) = {} \<and> wp_rejected p \<inter> (holders \<union> set (wp_woken p)) = {})"

lemma index_of_None: "x \<notin> set xs \<Longrightarrow> index_of x xs = None"
  by (induction xs) auto

text \<open>The listener looks for a function that is never pushed: an abort leaves the queue as it is.\<close>

lemma abort_keeps_queue:
  assumes "\<forall>x \<in> set (wp_waiters p). \<exists>i. x = WakeOf i"
  shows "abortWaiter i p = p\<lparr>wp_rejected := insert i (wp_rejected p)\<rparr>"
proof -
  have "ResolveOf i \<notin> set (wp_waiters p)" using assms by auto
  then show ?thesis by (simp add: abortWaiter_def index_of_None splice_out_def)
qed

lemma acquire_results:
  "acquireWorker m i p = (p', WorkerGranted) \<longleftrightarrow>
     wp_active p < m \<and> p' = p\<lparr>wp_active := wp_active p + 1\<rparr>"
  "acquireWorker m i p = (p', WorkerQueued) \<longleftrightarrow>
     m \<le> wp_active p \<and> length (wp_waiters p) < m * 8 \<and> p' = p\<lparr>wp_waiters := wp_waiters p @ [WakeOf i]\<rparr>"
  "acquireWorker m i p = (p', WorkerRefused e) \<longleftrightarrow>
     m \<le> wp_active p \<and> m * 8 \<le> length (wp_waiters p) \<and> p' = p \<and> e = CapacityError"
  by (auto simp: acquireWorker_def)

lemma release_fields:
  "wp_active (releaseWorker p) = wp_active p - 1"
  "wp_waiters (releaseWorker p) = tl (wp_waiters p)"
  "wp_rejected (releaseWorker p) = wp_rejected p"
  "wp_woken (releaseWorker p) = wp_woken p @
     (case wp_waiters p of [] \<Rightarrow> [] | x # _ \<Rightarrow> if waiter_call x \<in> wp_rejected p then [] else [waiter_call x])"
  by (simp_all add: releaseWorker_def wake_def Let_def split: list.split)

lemma pool_ok_idle: "pool_ok m (idle_pool, {})"
  by (simp add: pool_ok_def idle_pool_def waiting_def)

lemma pool_ok_step:
  assumes "worker_step m s s'" and "pool_ok m s"
  shows "pool_ok m s'"
  using assms
proof (cases rule: worker_step.cases)
  case (granted i p holders p')
  then show ?thesis using assms(2) by (auto simp: pool_ok_def acquire_results new_call_def waiting_def)
next
  case (queued i p holders p')
  then show ?thesis using assms(2) by (auto simp: pool_ok_def acquire_results new_call_def waiting_def)
next
  case (refused i p holders p' e)
  then show ?thesis using assms(2) by (simp add: acquire_results)
next
  case (aborted i p holders)
  then have "abortWaiter i p = p\<lparr>wp_rejected := insert i (wp_rejected p)\<rparr>"
    using assms(2) by (intro abort_keeps_queue) (simp add: pool_ok_def)
  then show ?thesis using aborted assms(2) by (auto simp: pool_ok_def waiting_def)
next
  case (released i holders p)
  then show ?thesis using assms(2)
    by (cases "wp_waiters p") (auto simp: pool_ok_def release_fields waiting_def)
next
  case (resumed i p holders)
  then show ?thesis using assms(2) by (auto simp: pool_ok_def resumeWaiter_def waiting_def card_insert_if)
qed

lemma pool_ok_run: "(worker_step m)\<^sup>*\<^sup>* s s' \<Longrightarrow> pool_ok m s \<Longrightarrow> pool_ok m s'"
  by (induction rule: rtranclp_induct) (auto intro: pool_ok_step)

section \<open>The limit\<close>

definition within_limit :: "nat \<Rightarrow> worker_pool \<times> nat set \<Rightarrow> bool" where
  "within_limit maxWorkers s \<longleftrightarrow>
     pool_ok maxWorkers s \<and> wp_woken (fst s) = [] \<and> wp_active (fst s) \<le> maxWorkers"

lemma within_limit_step:
  assumes "prompt_step m s s'" and ok: "within_limit m s"
  shows "within_limit m s'"
proof -
  from assms(1) obtain t where t: "worker_step m s t" "s' = hand_over t" by (auto elim: prompt_step.cases)
  have pool: "pool_ok m t" using pool_ok_step[OF t(1)] ok by (simp add: within_limit_def)
  from t(1) show ?thesis
  proof (cases rule: worker_step.cases)
    case (released i holders p)
    show ?thesis
    proof (cases "wp_woken (releaseWorker p)")
      case Nil
      moreover have "wp_active p - 1 \<le> m" using released(1) ok unfolding within_limit_def by auto
      ultimately show ?thesis
        using released t(2) pool by (simp add: within_limit_def hand_over_def release_fields(1))
    next
      case (Cons j js)
      then have "js = []" using ok released(1) by (auto simp: within_limit_def release_fields split: list.splits if_splits)
      moreover have "wp_active p > 0"
        using ok released by (auto simp: within_limit_def pool_ok_def card_gt_0_iff)
      moreover have "pool_ok m s'"
        using pool_ok_step[OF worker_step.resumed[of j "releaseWorker p" m "holders - {i}"]] pool released t(2) Cons
        by (simp add: hand_over_def)
      ultimately show ?thesis
        using released t(2) ok Cons by (simp add: within_limit_def hand_over_def resumeWaiter_def release_fields)
    qed
  qed (use t pool ok in \<open>auto simp: within_limit_def hand_over_def acquire_results abortWaiter_def\<close>)
qed

lemma within_limit_run: "(prompt_step m)\<^sup>*\<^sup>* s s' \<Longrightarrow> within_limit m s \<Longrightarrow> within_limit m s'"
  by (induction rule: rtranclp_induct) (auto intro: within_limit_step)

lemma within_limit_idle: "within_limit m (idle_pool, {})"
  by (simp add: within_limit_def pool_ok_idle) (simp add: idle_pool_def)

end
