(* ===== verification/RelayGrants.thy ===== *)
theory RelayGrants
  imports RelayHistory
begin

text \<open>
  Playback links of \<^verbatim>\<open>packages/application/src/session-service.ts\<close>: the grant a link stands
  for, links exchanged for one edge, which are signed payloads, and what a request with a
  link plays. Hashes, the JSON and base64url codecs and the format of dates are parameters.
  A handler that reads the repository at several awaits reads the databases \<open>ds 0\<close>, \<open>ds 1\<close>, ...
\<close>

section \<open>Signed payloads\<close>

record edge_payload =
  ep_sessionId :: ident
  ep_grantHash :: string
  ep_edgeNodeId :: ident
  ep_issuedAt :: string
  ep_expiresAt :: "string option"

text \<open>
  \<open>gp_encode\<close> is the base64url of the JSON text, \<open>gp_decode\<close> parses it (\<open>None\<close> when that throws),
  \<open>gp_date\<close> is \<^verbatim>\<open>Date.parse\<close> (\<open>None\<close> for an invalid date).
\<close>

record grant_platform =
  gp_hashToken :: "string \<Rightarrow> string"
  gp_hmac :: "string \<Rightarrow> string \<Rightarrow> string"
  gp_encode :: "json \<Rightarrow> string"
  gp_decode :: "string \<Rightarrow> json option"
  gp_iso :: "instant \<Rightarrow> string"
  gp_date :: "string \<Rightarrow> instant option"

definition EDGE_GRANT_PREFIX :: string where
  "EDGE_GRANT_PREFIX = ''eg1''"

definition EDGE_GRANT_SIGNING_KEY :: string where
  "EDGE_GRANT_SIGNING_KEY = ''playback.edge_grant_signing_key''"

definition payload_json :: "edge_payload \<Rightarrow> json" where
  "payload_json p =
     JObject [(''v'', JNumber 1), (''kind'', JString ''edge-playback''), (''sessionId'', JString (ep_sessionId p)),
       (''grantHash'', JString (ep_grantHash p)), (''edgeNodeId'', JString (ep_edgeNodeId p)),
       (''issuedAt'', JString (ep_issuedAt p)),
       (''expiresAt'', case ep_expiresAt p of None \<Rightarrow> JNull | Some t \<Rightarrow> JString t)]"

definition encodeEdgeGrant :: "grant_platform \<Rightarrow> edge_payload \<Rightarrow> string \<Rightarrow> string" where
  "encodeEdgeGrant pl payload secret =
     (let body = gp_encode pl (payload_json payload)
      in EDGE_GRANT_PREFIX @ ''.'' @ body @ ''.'' @ gp_hmac pl secret body)"

text \<open>\<^verbatim>\<open>split\<close> on one character.\<close>

fun js_split :: "char \<Rightarrow> string \<Rightarrow> string list" where
  "js_split c [] = [[]]"
| "js_split c (x # xs) =
     (if x = c then [] # js_split c xs
      else case js_split c xs of [] \<Rightarrow> [[x]] | y # ys \<Rightarrow> (x # y) # ys)"

definition parseEdgeGrant :: "string \<Rightarrow> (string \<times> string) option" where
  "parseEdgeGrant token =
     (case js_split (CHR ''.'') token of
        [prefix, body, signature] \<Rightarrow>
          if prefix \<noteq> EDGE_GRANT_PREFIX \<or> body = [] \<or> signature = [] then None else Some (body, signature)
      | _ \<Rightarrow> None)"

fun json_field :: "string \<Rightarrow> json \<Rightarrow> json option" where
  "json_field k (JObject entries) = map_of entries k"
| "json_field k _ = None"

fun json_string :: "json option \<Rightarrow> string option" where
  "json_string (Some (JString s)) = Some s"
| "json_string _ = None"

definition decodeEdgeGrantBody :: "grant_platform \<Rightarrow> string \<Rightarrow> edge_payload option" where
  "decodeEdgeGrantBody pl body =
     (case gp_decode pl body of
        None \<Rightarrow> None
      | Some decoded \<Rightarrow>
          if json_field ''v'' decoded \<noteq> Some (JNumber 1) \<or>
             json_field ''kind'' decoded \<noteq> Some (JString ''edge-playback'')
          then None
          else case (json_string (json_field ''sessionId'' decoded), json_string (json_field ''grantHash'' decoded),
                     json_string (json_field ''edgeNodeId'' decoded), json_string (json_field ''issuedAt'' decoded)) of
            (Some s, Some h, Some n, Some t) \<Rightarrow>
              (case json_field ''expiresAt'' decoded of
                 Some JNull \<Rightarrow> Some \<lparr>ep_sessionId = s, ep_grantHash = h, ep_edgeNodeId = n, ep_issuedAt = t,
                                    ep_expiresAt = None\<rparr>
               | Some (JString e) \<Rightarrow> Some \<lparr>ep_sessionId = s, ep_grantHash = h, ep_edgeNodeId = n, ep_issuedAt = t,
                                    ep_expiresAt = Some e\<rparr>
               | _ \<Rightarrow> None)
          | _ \<Rightarrow> None)"

definition safeEqual :: "string \<Rightarrow> string \<Rightarrow> bool" where
  "safeEqual a b \<longleftrightarrow> length a = length b \<and> a = b"

section \<open>Grants\<close>

record playback_options =
  po_nodeId :: "ident option"
  po_roles :: "node_role list option"

definition isEdgeOnly :: "playback_options \<Rightarrow> bool" where
  "isEdgeOnly opts =
     (let roles = coalesce (po_roles opts) [RoleController, RoleSourceWorker, RoleIngestOrigin, RoleEdge]
      in RoleEdge \<in> set roles \<and> RoleSourceWorker \<notin> set roles \<and> RoleController \<notin> set roles)"

definition validPlaybackGrant :: "db \<Rightarrow> string \<Rightarrow> instant \<Rightarrow> playback_grant outcome" where
  "validPlaybackGrant d tokenHash now =
     (case getPlaybackGrant d tokenHash of
        None \<Rightarrow> throw UnauthorizedError
      | Some g \<Rightarrow>
          if grant_revokedAt g \<noteq> None \<or> (case grant_expiresAt g of None \<Rightarrow> False | Some t \<Rightarrow> t \<le> now)
          then throw UnauthorizedError else resolve g)"

text \<open>\<open>fresh\<close> is the random secret, \<open>between\<close> what others write after the key was read as missing.\<close>

definition edgeGrantSigningKey ::
    "repo_op list \<Rightarrow> bool \<Rightarrow> string \<Rightarrow> instant \<Rightarrow> db \<Rightarrow> db \<times> string outcome" where
  "edgeGrantSigningKey between create fresh now d =
     (let existing = getSetting d EDGE_GRANT_SIGNING_KEY
      in if truthy existing then (d, resolve (the existing))
         else if \<not> create then (d, throw UnauthorizedError)
         else case putSettingIfAbsent (run_ops between d) EDGE_GRANT_SIGNING_KEY fresh now of
           (d', Inl e) \<Rightarrow> (d', throw e)
         | (d', Inr (_, record)) \<Rightarrow> (d', resolve (vr_value record)))"

definition createEdgePlaybackGrant ::
    "grant_platform \<Rightarrow> (nat \<Rightarrow> repo_op list) \<Rightarrow> (nat \<Rightarrow> instant) \<Rightarrow> string \<Rightarrow> string \<Rightarrow> ident \<Rightarrow> db \<Rightarrow>
       db \<times> string outcome" where
  "createEdgePlaybackGrant pl env clock fresh token edgeNodeId d =
     (if parseEdgeGrant token \<noteq> None then (d, throw UnauthorizedError)
      else
        let grantHash = gp_hashToken pl token;
            d1 = run_ops (env 0) d
        in case validPlaybackGrant d1 grantHash (clock 0) of
             Inl e \<Rightarrow> (d1, throw e)
           | Inr grant \<Rightarrow>
               let d2 = run_ops (env 1) d1
               in case getSession d2 (grant_sessionId grant) of
                    None \<Rightarrow> (d2, throw NotFoundError)
                  | Some session \<Rightarrow>
                      (case edgeGrantSigningKey (env 3) True fresh (clock 1) (run_ops (env 2) d2) of
                         (d3, Inl e) \<Rightarrow> (d3, throw e)
                       | (d3, Inr secret) \<Rightarrow>
                           (d3, resolve (encodeEdgeGrant pl
                              \<lparr>ep_sessionId = ses_id session, ep_grantHash = grantHash, ep_edgeNodeId = edgeNodeId,
                               ep_issuedAt = gp_iso pl (clock 2),
                               ep_expiresAt = map_option (gp_iso pl) (grant_expiresAt grant)\<rparr> secret))))"

definition resolvePlaybackGrant ::
    "grant_platform \<Rightarrow> playback_options \<Rightarrow> (nat \<Rightarrow> instant) \<Rightarrow> (nat \<Rightarrow> db) \<Rightarrow> string \<Rightarrow> playback_grant outcome" where
  "resolvePlaybackGrant pl opts clock ds token =
     (case parseEdgeGrant token of
        None \<Rightarrow>
          if isEdgeOnly opts then throw UnauthorizedError
          else validPlaybackGrant (ds 0) (gp_hashToken pl token) (clock 1)
      | Some (body, signature) \<Rightarrow>
          (case snd (edgeGrantSigningKey [] False [] 0 (ds 0)) of
             Inl e \<Rightarrow> throw e
           | Inr secret \<Rightarrow>
               if \<not> safeEqual signature (gp_hmac pl secret body) then throw UnauthorizedError
               else case decodeEdgeGrantBody pl body of
                 None \<Rightarrow> throw UnauthorizedError
               | Some payload \<Rightarrow>
                   if isEdgeOnly opts \<and> Some (ep_edgeNodeId payload) \<noteq> po_nodeId opts
                   then throw UnauthorizedError
                   else if truthy (ep_expiresAt payload) \<and>
                           (case gp_date pl (the (ep_expiresAt payload)) of None \<Rightarrow> False | Some t \<Rightarrow> t \<le> clock 0)
                   then throw UnauthorizedError
                   else case validPlaybackGrant (ds 1) (ep_grantHash payload) (clock 1) of
                     Inl e \<Rightarrow> throw e
                   | Inr grant \<Rightarrow>
                       if grant_sessionId grant \<noteq> ep_sessionId payload then throw UnauthorizedError
                       else resolve grant))"

definition playback ::
    "grant_platform \<Rightarrow> playback_options \<Rightarrow> (nat \<Rightarrow> instant) \<Rightarrow> (nat \<Rightarrow> db) \<Rightarrow> string \<Rightarrow>
       (relay_session \<times> profile) outcome" where
  "playback pl opts clock ds token =
     (case resolvePlaybackGrant pl opts clock ds token of
        Inl e \<Rightarrow> throw e
      | Inr grant \<Rightarrow>
          (case getSession (ds 2) (grant_sessionId grant) of
             None \<Rightarrow> throw NotFoundError
           | Some session \<Rightarrow>
               if ses_state session = SessionStopped then throw ConflictError
               else case getProfile (ds 3) (ses_profileId session) of
                 None \<Rightarrow> throw NotFoundError
               | Some p \<Rightarrow> resolve (session, p)))"

definition playbackSession ::
    "grant_platform \<Rightarrow> playback_options \<Rightarrow> (nat \<Rightarrow> instant) \<Rightarrow> (nat \<Rightarrow> db) \<Rightarrow> string \<Rightarrow> relay_session outcome" where
  "playbackSession pl opts clock ds token = map_sum id fst (playback pl opts clock ds token)"

definition resolveLive ::
    "grant_platform \<Rightarrow> playback_options \<Rightarrow> (nat \<Rightarrow> instant) \<Rightarrow> (nat \<Rightarrow> db) \<Rightarrow> string \<Rightarrow> live_channel outcome" where
  "resolveLive pl opts clock ds token =
     (case playback pl opts clock ds token of
        Inl e \<Rightarrow> throw e
      | Inr (session, _) \<Rightarrow>
          if ses_kind session \<noteq> Live \<or> \<not> truthy (ses_liveChannelId session) then throw NotFoundError
          else case getLiveChannel (ds 4) (the (ses_liveChannelId session)) of
            None \<Rightarrow> throw NotFoundError
          | Some channel \<Rightarrow> resolve channel)"

section \<open>Codecs\<close>

text \<open>The documented behaviour of the platform that the links rely on.\<close>

definition codec_ok :: "grant_platform \<Rightarrow> bool" where
  "codec_ok pl \<longleftrightarrow>
     (\<forall>p. gp_decode pl (gp_encode pl (payload_json p)) = Some (payload_json p) \<and>
          gp_encode pl (payload_json p) \<noteq> [] \<and> CHR ''.'' \<notin> set (gp_encode pl (payload_json p))) \<and>
     (\<forall>k b. gp_hmac pl k b \<noteq> [] \<and> CHR ''.'' \<notin> set (gp_hmac pl k b)) \<and>
     (\<forall>t. gp_date pl (gp_iso pl t) = Some t \<and> gp_iso pl t \<noteq> [])"

lemma js_split_no: "c \<notin> set xs \<Longrightarrow> js_split c xs = [xs]"
  by (induction xs) auto

lemma js_split_append: "c \<notin> set xs \<Longrightarrow> js_split c (xs @ c # ys) = xs # js_split c ys"
  by (induction xs) auto

lemma parse_encode:
  assumes "codec_ok pl"
  defines "body p \<equiv> gp_encode pl (payload_json p)"
  shows "parseEdgeGrant (encodeEdgeGrant pl p k) = Some (body p, gp_hmac pl k (body p))"
proof -
  have "js_split (CHR ''.'') (encodeEdgeGrant pl p k) = [EDGE_GRANT_PREFIX, body p, gp_hmac pl k (body p)]"
    using assms by (simp add: encodeEdgeGrant_def Let_def codec_ok_def js_split_append js_split_no EDGE_GRANT_PREFIX_def)
  then show ?thesis using assms by (simp add: parseEdgeGrant_def codec_ok_def)
qed

lemma decode_encode:
  assumes "codec_ok pl"
  shows "decodeEdgeGrantBody pl (gp_encode pl (payload_json p)) = Some p"
proof -
  have "gp_decode pl (gp_encode pl (payload_json p)) = Some (payload_json p)"
    using assms by (simp add: codec_ok_def)
  then have "decodeEdgeGrantBody pl (gp_encode pl (payload_json p)) =
      decodeEdgeGrantBody (pl\<lparr>gp_decode := \<lambda>_. Some (payload_json p)\<rparr>) []"
    by (simp only: decodeEdgeGrantBody_def) simp
  also have "\<dots> = Some p"
    by (cases p) (simp add: decodeEdgeGrantBody_def payload_json_def split: option.split)
  finally show ?thesis .
qed

lemma safeEqual_iff [simp]: "safeEqual a b \<longleftrightarrow> a = b"
  by (auto simp: safeEqual_def)

section \<open>Grants along a history\<close>

text \<open>A grant is never removed; its session and its end do not change and it stays revoked.\<close>

definition grant_evolves :: "playback_grant \<Rightarrow> playback_grant \<Rightarrow> bool" where
  "grant_evolves g g' \<longleftrightarrow>
     grant_sessionId g' = grant_sessionId g \<and> grant_expiresAt g' = grant_expiresAt g \<and>
     (grant_revokedAt g \<noteq> None \<longrightarrow> grant_revokedAt g' \<noteq> None)"

definition grants_kept :: "db \<Rightarrow> db \<Rightarrow> bool" where
  "grants_kept d d' \<longleftrightarrow>
     (\<forall>k g. getPlaybackGrant d k = Some g \<longrightarrow> (\<exists>g'. getPlaybackGrant d' k = Some g' \<and> grant_evolves g g'))"

lemma grant_evolves_refl [simp]: "grant_evolves g g"
  by (simp add: grant_evolves_def)

lemma grants_kept_same: "db_grants d' = db_grants d \<Longrightarrow> grants_kept d d'"
  by (simp add: grants_kept_def getPlaybackGrant_def)

lemma grants_kept_trans: "grants_kept d d' \<Longrightarrow> grants_kept d' d'' \<Longrightarrow> grants_kept d d''"
  unfolding grants_kept_def grant_evolves_def by metis

lemma grant_after_revoke:
  "getPlaybackGrant (revokePlaybackGrants d i t) k =
     map_option (\<lambda>g. if grant_sessionId g = i \<and> grant_revokedAt g = None then g\<lparr>grant_revokedAt := Some t\<rparr> else g)
       (getPlaybackGrant d k)"
  by (simp add: getPlaybackGrant_def get_json_def revokePlaybackGrants_def map_of_sql_update option.map_comp comp_def
      if_distrib cong: if_cong)

lemma grants_kept_revoke: "grants_kept d (revokePlaybackGrants d i t)"
  by (simp add: grants_kept_def grant_after_revoke grant_evolves_def)

lemma grants_kept_insert:
  "sql_insert (db_grants d) k r = Some t \<Longrightarrow> db_grants d' = t \<Longrightarrow> grants_kept d d'"
  by (auto simp: grants_kept_def getPlaybackGrant_def get_json_def map_of_sql_insert sql_insert_Some)

lemma grants_kept_create: "grants_kept d (fst (createSessionWithPlaybackGrant d s g q))"
  by (auto simp: createSessionWithPlaybackGrant_def insert_session_and_grant_def grants_kept_same
      intro: grants_kept_insert split: option.split session_kind.split)

lemma cas_session_same_grants: "db_grants (fst (compareAndSetSession d s e)) = db_grants d"
  by (simp add: compareAndSetSession_def Let_def case_prod_beta split: option.split)

lemma grants_kept_session_op: "grants_kept d (exec_session_op x d)"
proof (cases x)
  case (OpCreateSession s g q)
  then show ?thesis by (simp add: grants_kept_create)
next
  case (OpBeginSessionDeletion i opts)
  have "grants_kept d (revokePlaybackGrants (d\<lparr>db_sessions := t\<rparr>) i u)" for t u
    by (rule grants_kept_trans[OF _ grants_kept_revoke]) (simp add: grants_kept_same)
  then show ?thesis using OpBeginSessionDeletion
    by (simp add: beginSessionDeletion_def Let_def case_prod_beta grants_kept_same split: option.split)
next
  case (OpDeleteSession i t)
  have "grants_kept d ((revokePlaybackGrants d i t)\<lparr>db_sessions := u\<rparr>)" for u
    by (rule grants_kept_trans[OF grants_kept_revoke[of d i t]]) (simp add: grants_kept_same)
  then show ?thesis using OpDeleteSession by (simp add: deleteSessionAndRevokePlaybackGrants_def Let_def)
qed (simp_all add: grants_kept_same cas_session_same_grants setSessionViewers_def touchSessionPlaybackActivity_def
      Let_def case_prod_beta split: option.split)

lemma grants_kept_exec: "grants_kept d (exec_op x d)"
proof (cases x)
  case (SessionOp y)
  then show ?thesis by (simp add: grants_kept_session_op)
qed (simp_all add: grants_kept_same frames)

lemma grants_kept_run: "grants_kept d (run_ops xs d)"
proof (induction xs arbitrary: d)
  case Nil
  then show ?case by (simp add: grants_kept_same)
next
  case (Cons x xs)
  then show ?case using grants_kept_trans[OF grants_kept_exec[of d x]] by simp
qed

text \<open>No session is created with a taken id, so a session without live grants never gets one again.\<close>

definition no_live_grant :: "ident \<Rightarrow> db \<Rightarrow> bool" where
  "no_live_grant i d \<longleftrightarrow>
     (\<forall>k g. getPlaybackGrant d k = Some g \<longrightarrow> grant_sessionId g = i \<longrightarrow> grant_revokedAt g \<noteq> None)"

fun creates_session :: "ident \<Rightarrow> repo_op \<Rightarrow> bool" where
  "creates_session i (SessionOp (OpCreateSession s g q)) = (ses_id s = i)"
| "creates_session i _ = False"

lemma no_live_grant_keep: "no_live_grant i d \<Longrightarrow> db_grants d' = db_grants d \<Longrightarrow> no_live_grant i d'"
  by (simp add: no_live_grant_def getPlaybackGrant_def)

lemma no_live_grant_after_revoke:
  "no_live_grant i (revokePlaybackGrants d j t) \<longleftrightarrow> j = i \<or> no_live_grant i d"
proof -
  have "(\<forall>g. map_option (\<lambda>g. if grant_sessionId g = j \<and> grant_revokedAt g = None
              then g\<lparr>grant_revokedAt := Some t\<rparr> else g) x = Some g \<longrightarrow>
            grant_sessionId g = i \<longrightarrow> grant_revokedAt g \<noteq> None) \<longleftrightarrow>
        j = i \<or> (\<forall>g. x = Some g \<longrightarrow> grant_sessionId g = i \<longrightarrow> grant_revokedAt g \<noteq> None)" for x :: "playback_grant option"
    by (cases x) auto
  then show ?thesis unfolding no_live_grant_def grant_after_revoke by (simp only:) blast
qed

lemmas no_live_grant_revoke = no_live_grant_after_revoke[THEN iffD2, OF disjI2]
lemmas revoke_no_live_grant = no_live_grant_after_revoke[THEN iffD2, OF disjI1, OF refl]

lemma no_live_grant_create:
  assumes "no_live_grant i d" and "ses_id s \<noteq> i"
  shows "no_live_grant i (fst (createSessionWithPlaybackGrant d s g q))"
proof -
  have "no_live_grant i (fst (insert_session_and_grant d s g))" if "grant_sessionId g = ses_id s"
    using assms that
    by (auto simp: insert_session_and_grant_def no_live_grant_def getPlaybackGrant_def get_json_def sql_insert_Some
        fresh_row_def split: option.split if_splits)
  then show ?thesis using assms(1)
    by (auto simp: createSessionWithPlaybackGrant_def split: option.split session_kind.split)
qed

lemma no_live_grant_session_op:
  assumes "no_live_grant i d" and "\<not> creates_session i (SessionOp y)"
  shows "no_live_grant i (exec_session_op y d)"
proof (cases y)
  case (OpCreateSession s g q)
  then show ?thesis using assms by (simp add: no_live_grant_create)
next
  case (OpBeginSessionDeletion j opts)
  have "no_live_grant i (revokePlaybackGrants (d\<lparr>db_sessions := t\<rparr>) j u)" for t u
    by (rule no_live_grant_revoke) (rule no_live_grant_keep[OF assms(1)], simp)
  then show ?thesis using OpBeginSessionDeletion assms(1)
    by (simp add: beginSessionDeletion_def Let_def case_prod_beta split: option.split)
next
  case (OpDeleteSession j t)
  have "no_live_grant i ((revokePlaybackGrants d j t)\<lparr>db_sessions := u\<rparr>)" for u
    by (rule no_live_grant_keep[OF no_live_grant_revoke[OF assms(1), of j t]]) simp
  then show ?thesis using OpDeleteSession by (simp add: deleteSessionAndRevokePlaybackGrants_def Let_def)
qed (auto simp: cas_session_same_grants setSessionViewers_def touchSessionPlaybackActivity_def
      Let_def case_prod_beta intro!: no_live_grant_keep[OF assms(1)] split: option.split)

lemma no_live_grant_exec:
  assumes "no_live_grant i d" and "\<not> creates_session i x"
  shows "no_live_grant i (exec_op x d)"
proof (cases x)
  case (SessionOp y)
  then show ?thesis using no_live_grant_session_op[OF assms(1)] assms(2) by simp
qed (simp_all add: frames no_live_grant_keep[OF assms(1)])

lemma no_live_grant_run:
  "no_live_grant i d \<Longrightarrow> \<forall>x \<in> set xs. \<not> creates_session i x \<Longrightarrow> no_live_grant i (run_ops xs d)"
  by (induction xs arbitrary: d) (simp_all add: no_live_grant_exec)

lemma begun_no_live_grant:
  assumes "beginSessionDeletion d i opts = (d', resolve (Applied c))"
  shows "no_live_grant i d'"
  using assms
  by (auto simp: beginSessionDeletion_def Let_def case_prod_beta revoke_no_live_grant split: option.splits if_splits)

text \<open>Whatever link resolves, its grant is stored and not revoked.\<close>

lemma valid_grant:
  "validPlaybackGrant d h now = resolve g \<longleftrightarrow>
     getPlaybackGrant d h = Some g \<and> grant_revokedAt g = None \<and>
     (case grant_expiresAt g of None \<Rightarrow> True | Some t \<Rightarrow> now < t)"
  by (auto simp: validPlaybackGrant_def split: option.splits)

lemma resolved_grant:
  assumes "resolvePlaybackGrant pl opts clock ds token = resolve g"
  shows "\<exists>k h. k \<le> 1 \<and> validPlaybackGrant (ds k) h (clock 1) = resolve g"
proof (cases "parseEdgeGrant token")
  case None
  then have "validPlaybackGrant (ds 0) (gp_hashToken pl token) (clock 1) = resolve g"
    using assms by (simp add: resolvePlaybackGrant_def split: if_splits)
  then show ?thesis by (intro exI[of _ 0] exI[of _ "gp_hashToken pl token"]) simp
next
  case (Some x)
  then have "\<exists>h. validPlaybackGrant (ds 1) h (clock 1) = resolve g"
    using assms unfolding resolvePlaybackGrant_def by (auto split: prod.splits sum.splits option.splits if_splits)
  then show ?thesis by blast
qed

end
