(* ===== verification/RelayCache.thy ===== *)
theory RelayCache
  imports RelayGrants
begin

text \<open>
  The segment cache of \<^verbatim>\<open>packages/application/src/session-cache.ts\<close>: the key of a segment in the
  object store, the removal of expired and of least recently used files, the inventory and
  the eviction by scope. The file system is a list of files below the directory \<^verbatim>\<open>vod\<close> in
  the order they are visited; the digest and the JSON text are parameters.
\<close>

section \<open>Content keys\<close>

record content_identity =
  ci_pipelineEpoch :: nat
  ci_source :: media_source_ref
  ci_profile :: ident
  ci_profileUpdatedAt :: instant
  ci_index :: nat
  ci_duration :: rat

definition segment_extension :: "profile \<Rightarrow> string" where
  "segment_extension p = (if del_segmentType (prof_delivery p) = SegFmp4 then ''m4s'' else ''ts'')"

text \<open>A session without a source makes the property access throw.\<close>

definition contentKey ::
    "(string \<Rightarrow> string) \<Rightarrow> (content_identity \<Rightarrow> string) \<Rightarrow> relay_session \<Rightarrow> profile \<Rightarrow> nat \<Rightarrow> string outcome" where
  "contentKey sha256 stringify session p index =
     (case ses_source session of
        None \<Rightarrow> throw PlainError
      | Some source \<Rightarrow> resolve
          (''vod/'' @ sha256 (stringify
             \<lparr>ci_pipelineEpoch = 2, ci_source = source, ci_profile = prof_profileId p,
              ci_profileUpdatedAt = prof_updatedAt p, ci_index = index,
              ci_duration = del_segmentDuration (prof_delivery p)\<rparr>) @ ''.'' @ segment_extension p))"

definition ends_with :: "string \<Rightarrow> string \<Rightarrow> bool" where
  "ends_with suffix s \<longleftrightarrow> length suffix \<le> length s \<and> drop (length s - length suffix) s = suffix"

text \<open>\<^verbatim>\<open>replace(/\.m4s$/, '.init.mp4')\<close>.\<close>

definition init_key :: "string \<Rightarrow> string" where
  "init_key key = (if ends_with ''.m4s'' key then take (length key - 4) key @ ''.init.mp4'' else key)"

section \<open>Files\<close>

record cache_file =
  cf_path :: string
  cf_size :: nat
  cf_mtimeMs :: rat

definition expired_file :: "string set \<Rightarrow> rat \<Rightarrow> rat \<Rightarrow> cache_file \<Rightarrow> bool" where
  "expired_file protected now ttl f \<longleftrightarrow> cf_path f \<notin> protected \<and> now - cf_mtimeMs f > ttl"

text \<open>The loop over the files, oldest first: the files it keeps, those it removes, and the total.\<close>

fun evict_oldest :: "string set \<Rightarrow> nat \<Rightarrow> nat \<Rightarrow> cache_file list \<Rightarrow> cache_file list \<times> cache_file list \<times> nat" where
  "evict_oldest protected limit used [] = ([], [], used)"
| "evict_oldest protected limit used (f # fs) =
     (if used \<le> limit then (f # fs, [], used)
      else if cf_path f \<in> protected
      then (case evict_oldest protected limit used fs of (kept, removed, t) \<Rightarrow> (f # kept, removed, t))
      else (case evict_oldest protected limit (used - cf_size f) fs of
              (kept, removed, t) \<Rightarrow> (kept, f # removed, t)))"

definition cleanupExpired ::
    "string set \<Rightarrow> rat \<Rightarrow> rat \<Rightarrow> nat option \<Rightarrow> nat \<Rightarrow> cache_file list \<Rightarrow>
       cache_file list \<times> cache_file list \<times> nat" where
  "cleanupExpired protected now ttl limit scratchBytes visited =
     (let expired = filter (expired_file protected now ttl) visited;
          files = filter (\<lambda>f. \<not> expired_file protected now ttl f) visited;
          used = scratchBytes + sum_list (map cf_size files)
      in case limit of
           None \<Rightarrow> (files, expired, used)
         | Some l \<Rightarrow>
             if l = 0 then (files, expired, used)
             else case evict_oldest protected l used (js_sort (\<lambda>a b. cf_mtimeMs a - cf_mtimeMs b) files) of
               (kept, removed, t) \<Rightarrow> (kept, expired @ removed, t))"

definition cleanup_count :: "cache_file list \<times> cache_file list \<times> nat \<Rightarrow> nat" where
  "cleanup_count r = length (fst (snd r))"

section \<open>Eviction by scope\<close>

record eviction_filter =
  ef_sessionId :: "ident option"
  ef_profileId :: "ident option"
  ef_all :: bool

definition REFERENCE_SUFFIX :: string where
  "REFERENCE_SUFFIX = ''.vrrelay-object.json''"

text \<open>The keys of the inventory: the paths relative to \<^verbatim>\<open>vod\<close>, most recently used first.\<close>

definition cache_inventory :: "cache_file list \<Rightarrow> cache_file list" where
  "cache_inventory visited =
     js_sort (\<lambda>l r. cf_mtimeMs r - cf_mtimeMs l)
       (filter (\<lambda>f. \<not> ends_with ''.part'' (cf_path f) \<and> \<not> ends_with REFERENCE_SUFFIX (cf_path f)) visited)"

definition evicts :: "eviction_filter \<Rightarrow> string \<Rightarrow> bool" where
  "evicts flt key =
     (let parts = js_split (CHR ''/'') key;
          sessionId = parts ! 0;
          profileDirectory = (if length parts > 1 then Some (parts ! 1) else None)
      in (ef_all flt \<or> \<not> truthy (ef_sessionId flt) \<or> Some sessionId = ef_sessionId flt) \<and>
         (ef_all flt \<or> \<not> truthy (ef_profileId flt) \<or>
            (case profileDirectory of
               None \<Rightarrow> False
             | Some dir \<Rightarrow> starts_with (the (ef_profileId flt) @ ''-r'') dir)))"

definition evictCache ::
    "eviction_filter \<Rightarrow> cache_file list \<Rightarrow> (cache_file list \<times> cache_file list) outcome" where
  "evictCache flt visited =
     (if \<not> ef_all flt \<and> \<not> truthy (ef_sessionId flt) \<and> \<not> truthy (ef_profileId flt) then throw PlainError
      else
        let gone = filter (\<lambda>f. evicts flt (cf_path f)) (cache_inventory visited)
        in resolve (filter (\<lambda>f. f \<notin> set gone) visited, gone))"

definition usageBytes :: "nat \<Rightarrow> cache_file list \<Rightarrow> nat" where
  "usageBytes producerBytes visited = sum_list (map cf_size (cache_inventory visited)) + producerBytes"

text \<open>The path of a segment, which \<^verbatim>\<open>segment\<close> and the jobs write below \<^verbatim>\<open>vod\<close>.\<close>

definition segment_key :: "relay_session \<Rightarrow> profile \<Rightarrow> string \<Rightarrow> string" where
  "segment_key session p file = ses_id session @ ''/'' @ prof_profileId p @ ''/'' @ file"

section \<open>Facts\<close>

lemma js_split_nonempty: "js_split c xs \<noteq> []"
  by (induction xs) (auto split: list.split)

lemma evict_oldest_parts:
  assumes "evict_oldest protected limit used fs = (kept, removed, t)"
  shows "set kept \<union> set removed = set fs \<and> (\<forall>f \<in> set removed. cf_path f \<notin> protected)"
  using assms
proof (induction fs arbitrary: used kept removed t)
  case Nil
  then show ?case by simp
next
  case (Cons f fs)
  consider (stop) "used \<le> limit"
    | (keep) "\<not> used \<le> limit" "cf_path f \<in> protected"
    | (drop) "\<not> used \<le> limit" "cf_path f \<notin> protected" by blast
  then show ?case
  proof cases
    case stop
    then show ?thesis using Cons.prems by auto
  next
    case keep
    then obtain kept' where "evict_oldest protected limit used fs = (kept', removed, t)" "kept = f # kept'"
      using Cons.prems by (auto split: prod.splits)
    then show ?thesis using Cons.IH by fastforce
  next
    case drop
    then obtain removed' where
      "evict_oldest protected limit (used - cf_size f) fs = (kept, removed', t)" "removed = f # removed'"
      using Cons.prems by (auto split: prod.splits)
    then show ?thesis using Cons.IH drop(2) by fastforce
  qed
qed

lemma evict_oldest_total:
  assumes "evict_oldest protected limit used fs = (kept, removed, t)" and "sum_list (map cf_size fs) \<le> used"
  shows "t + sum_list (map cf_size fs) = used + sum_list (map cf_size kept) \<and>
         (t \<le> limit \<or> (\<forall>f \<in> set kept. cf_path f \<in> protected))"
  using assms
proof (induction fs arbitrary: used kept removed t)
  case Nil
  then show ?case by simp
next
  case (Cons f fs)
  show ?case
  proof (cases "used \<le> limit")
    case True
    then show ?thesis using Cons.prems by auto
  next
    case False
    show ?thesis
    proof (cases "cf_path f \<in> protected")
      case True
      obtain kept' where "evict_oldest protected limit used fs = (kept', removed, t)" "kept = f # kept'"
        using Cons.prems(1) False True by (auto split: prod.splits)
      then show ?thesis using Cons.IH[of used kept' removed t] Cons.prems(2) True by auto
    next
      case unprotected: False
      obtain removed' where
        "evict_oldest protected limit (used - cf_size f) fs = (kept, removed', t)" "removed = f # removed'"
        using Cons.prems(1) False unprotected by (auto split: prod.splits)
      moreover have "sum_list (map cf_size fs) \<le> used - cf_size f" "cf_size f \<le> used"
        using Cons.prems(2) by auto
      ultimately have "t + sum_list (map cf_size fs) = used - cf_size f + sum_list (map cf_size kept)"
          "t \<le> limit \<or> (\<forall>f \<in> set kept. cf_path f \<in> protected)"
        using Cons.IH[of "used - cf_size f" kept removed' t] by blast+
      then show ?thesis using \<open>cf_size f \<le> used\<close> by simp
    qed
  qed
qed

text \<open>With the files in order of their age, an unprotected file is kept only if no removed one is younger.\<close>

lemma evict_oldest_order:
  assumes "evict_oldest protected limit used fs = (kept, removed, t)"
    and "sorted (map cf_mtimeMs fs)" and "f \<in> set kept" and "cf_path f \<notin> protected" and "g \<in> set removed"
  shows "cf_mtimeMs g \<le> cf_mtimeMs f"
  using assms(1,2,3,5)
proof (induction fs arbitrary: used kept removed t)
  case Nil
  then show ?case by simp
next
  case (Cons x xs)
  show ?case
  proof (cases "used \<le> limit")
    case True
    then show ?thesis using Cons.prems by auto
  next
    case False
    show ?thesis
    proof (cases "cf_path x \<in> protected")
      case True
      obtain kept' where rest: "evict_oldest protected limit used xs = (kept', removed, t)" "kept = x # kept'"
        using Cons.prems(1) False True by (auto split: prod.splits)
      have "f \<in> set kept'" using Cons.prems(3) rest(2) True assms(4) by auto
      then show ?thesis using Cons.IH[OF rest(1)] Cons.prems(2,4) by simp
    next
      case unprotected: False
      obtain removed' where
        rest: "evict_oldest protected limit (used - cf_size x) xs = (kept, removed', t)" "removed = x # removed'"
        using Cons.prems(1) False unprotected by (auto split: prod.splits)
      have "f \<in> set xs" using evict_oldest_parts[OF rest(1)] Cons.prems(3) by auto
      then show ?thesis using Cons.IH[OF rest(1)] Cons.prems rest(2) by auto
    qed
  qed
qed

lemma sorted_js_insert:
  "sorted (map f ys) \<Longrightarrow> sorted (map f (js_insert (\<lambda>a b. f a - f b) x ys))"
  for f :: "'a \<Rightarrow> rat"
  by (induction ys) auto

lemma sorted_js_fold:
  "sorted (map f ys) \<Longrightarrow> sorted (map f (foldl (\<lambda>acc x. js_insert (\<lambda>a b. f a - f b) x acc) ys xs))"
  for f :: "'a \<Rightarrow> rat"
proof (induction xs arbitrary: ys)
  case Nil
  then show ?case by simp
next
  case (Cons x xs)
  from Cons.IH[OF sorted_js_insert[OF Cons.prems]] show ?case by simp
qed

lemma sorted_js_sort: "sorted (map f (js_sort (\<lambda>a b. f a - f b) xs))"
  for f :: "'a \<Rightarrow> rat"
  using sorted_js_fold[of f "[]" xs] by (simp add: js_sort_def)

lemma sum_js_insert: "sum_list (map f (js_insert cmp x ys)) = f x + sum_list (map f ys)"
  for f :: "'a \<Rightarrow> nat"
  by (induction ys) auto

lemma sum_js_fold:
  "sum_list (map f (foldl (\<lambda>acc x. js_insert cmp x acc) ys xs)) = sum_list (map f ys) + sum_list (map f xs)"
  for f :: "'a \<Rightarrow> nat"
  by (induction xs arbitrary: ys) (simp_all add: sum_js_insert)

lemma sum_js_sort: "sum_list (map f (js_sort cmp xs)) = sum_list (map f xs)"
  for f :: "'a \<Rightarrow> nat"
  by (simp add: js_sort_def sum_js_fold)

lemma split_key:
  assumes "CHR ''/'' \<notin> set (ses_id session)" and "CHR ''/'' \<notin> set (prof_profileId p)"
  shows "\<exists>rest. js_split (CHR ''/'') (segment_key session p file) = ses_id session # prof_profileId p # rest"
  using assms by (simp add: segment_key_def js_split_append)

end
