(* ===== verification/RelayPlaylist.thy ===== *)
theory RelayPlaylist
  imports RelayCache
begin

text \<open>
  The VOD output of \<^verbatim>\<open>packages/application/src/session-service.ts\<close>: the playlist, the answer to
  a request for a segment and for the initialization segment. Durations are rationals where
  the code has doubles. What a request meets (the disk, the object store, the origin, the
  producer, a running job) is the environment of the handler.
\<close>

section \<open>Numbers as text\<close>

fun decimal :: "nat \<Rightarrow> string" where
  "decimal n = (if n < 10 then [char_of (48 + n)] else decimal (n div 10) @ [char_of (48 + n mod 10)])"

declare decimal.simps [simp del]

text \<open>\<^verbatim>\<open>toFixed(3)\<close> of a number that is not negative: the nearest multiple of a thousandth, halves up.\<close>

definition toFixed3 :: "rat \<Rightarrow> string" where
  "toFixed3 x =
     (let n = nat \<lfloor>x * 1000 + 1 / 2\<rfloor>; m = n mod 1000
      in decimal (n div 1000) @ ''.'' @ [char_of (48 + m div 100), char_of (48 + m div 10 mod 10), char_of (48 + m mod 10)])"

fun join_lines :: "string list \<Rightarrow> string" where
  "join_lines [] = []"
| "join_lines [x] = x"
| "join_lines (x # y # ys) = x @ [CHR 0x0A] @ join_lines (y # ys)"

section \<open>The playlist\<close>

abbreviation segment_seconds :: "profile \<Rightarrow> rat" where
  "segment_seconds p \<equiv> del_segmentDuration (prof_delivery p)"

definition segment_count :: "rat \<Rightarrow> profile \<Rightarrow> nat" where
  "segment_count durationSeconds p = nat \<lceil>durationSeconds / segment_seconds p\<rceil>"

definition segment_length :: "rat \<Rightarrow> profile \<Rightarrow> nat \<Rightarrow> rat" where
  "segment_length durationSeconds p index =
     min (segment_seconds p) (durationSeconds - of_nat index * segment_seconds p)"

definition segment_uri :: "string option \<Rightarrow> profile \<Rightarrow> nat \<Rightarrow> string" where
  "segment_uri base p index =
     (if truthy base then the base @ ''/'' else ''segment/'') @ decimal index @ ''.'' @ segment_extension p"

definition playlist_head :: "string option \<Rightarrow> profile \<Rightarrow> string list" where
  "playlist_head base p =
     [''#EXTM3U'',
      ''#EXT-X-VERSION:'' @ (if del_segmentType (prof_delivery p) = SegFmp4 then ''7'' else ''3''),
      ''#EXT-X-TARGETDURATION:'' @ decimal (nat \<lceil>segment_seconds p\<rceil>),
      ''#EXT-X-MEDIA-SEQUENCE:0'',
      ''#EXT-X-PLAYLIST-TYPE:VOD'',
      ''#EXT-X-INDEPENDENT-SEGMENTS''] @
     (if del_segmentType (prof_delivery p) = SegFmp4
      then [''#EXT-X-MAP:URI=\"'' @ (if truthy base then the base @ ''/init.mp4'' else ''segment/init.mp4'') @ ''\"'']
      else [])"

definition playlist_lines :: "string option \<Rightarrow> rat \<Rightarrow> profile \<Rightarrow> string list" where
  "playlist_lines base durationSeconds p =
     playlist_head base p @
     concat (map (\<lambda>i. [''#EXTINF:'' @ toFixed3 (segment_length durationSeconds p i) @ '','', segment_uri base p i])
       [0 ..< segment_count durationSeconds p]) @
     [''#EXT-X-ENDLIST'', []]"

text \<open>A missing duration and the duration 0 are both falsy.\<close>

definition has_duration :: "relay_session \<Rightarrow> bool" where
  "has_duration session \<longleftrightarrow> (case ses_durationSeconds session of None \<Rightarrow> False | Some t \<Rightarrow> t \<noteq> 0)"

definition manifest ::
    "grant_platform \<Rightarrow> playback_options \<Rightarrow> (nat \<Rightarrow> instant) \<Rightarrow> (nat \<Rightarrow> db) \<Rightarrow> string \<Rightarrow> string option \<Rightarrow>
       string outcome" where
  "manifest pl opts clock ds token base =
     (case playback pl opts clock ds token of
        Inl e \<Rightarrow> throw e
      | Inr (session, p) \<Rightarrow>
          if ses_kind session \<noteq> Vod \<or> \<not> has_duration session then throw NotFoundError
          else if del_method (prof_delivery p) \<noteq> Hls then throw NotFoundError
          else resolve (join_lines (playlist_lines base (the (ses_durationSeconds session)) p)))"

section \<open>Segments\<close>

datatype activity_event = ActivityStart | ActivityProgress | ActivityStop

datatype segment_effect =
    ActivityReport rat activity_event
  | ActivityFailed
  | DiskHit
  | DiskMiss
  | StoreHit
  | SessionCache bool
  | OriginRequested
  | ProducerEnsured
  | JobJoined
  | JobStarted

record segment_env =
  sg_reported :: bool
  sg_report_fails :: bool
  sg_disk :: bool
  sg_restore :: "nat \<Rightarrow> bool outcome"
  sg_origin :: "unit outcome"
  sg_producers :: bool
  sg_ensure :: "unit outcome"
  sg_inflight :: "string outcome option"
  sg_job :: "string outcome"

definition segment_index_ok :: "rat \<Rightarrow> profile \<Rightarrow> rat \<Rightarrow> bool" where
  "segment_index_ok durationSeconds p index \<longleftrightarrow>
     index = of_int \<lfloor>index\<rfloor> \<and> 0 \<le> index \<and> index * segment_seconds p < durationSeconds"

definition activity_of :: "bool \<Rightarrow> rat \<Rightarrow> profile \<Rightarrow> rat \<Rightarrow> activity_event" where
  "activity_of reported durationSeconds p index =
     (if \<not> reported then ActivityStart
      else if index = of_int (\<lceil>durationSeconds / segment_seconds p\<rceil> - 1) then ActivityStop else ActivityProgress)"

definition node_roles_of :: "playback_options \<Rightarrow> node_role list" where
  "node_roles_of opts = coalesce (po_roles opts) [RoleController, RoleSourceWorker, RoleIngestOrigin, RoleEdge]"

text \<open>What follows the check of the disk and of the object store.\<close>

definition generate_or_fetch ::
    "playback_options \<Rightarrow> segment_env \<Rightarrow> string \<Rightarrow> segment_effect list \<times> string outcome" where
  "generate_or_fetch opts e destination =
     (let published = (case sg_restore e 1 of
            Inl err \<Rightarrow> throw err | Inr found \<Rightarrow> if found then resolve destination else throw PlainError)
      in if isEdgeOnly opts
         then (case sg_origin e of
                 Inl err \<Rightarrow> ([SessionCache False, OriginRequested], throw err)
               | Inr _ \<Rightarrow> ([SessionCache False, OriginRequested], published))
         else if sg_producers e \<and> RoleSourceWorker \<in> set (node_roles_of opts)
         then (case sg_ensure e of
                 Inl err \<Rightarrow> ([SessionCache False, ProducerEnsured], throw err)
               | Inr _ \<Rightarrow> ([SessionCache False, ProducerEnsured], published))
         else case sg_inflight e of
                Some running \<Rightarrow> ([SessionCache False, JobJoined], running)
              | None \<Rightarrow> ([SessionCache False, JobStarted], sg_job e))"

definition serve_segment ::
    "playback_options \<Rightarrow> segment_env \<Rightarrow> string \<Rightarrow> segment_effect list \<times> string outcome" where
  "serve_segment opts e destination =
     (if sg_disk e then ([DiskHit, SessionCache True], resolve destination)
      else case sg_restore e 0 of
        Inl err \<Rightarrow> ([DiskMiss], throw err)
      | Inr True \<Rightarrow> ([DiskMiss, SessionCache True, StoreHit], resolve destination)
      | Inr False \<Rightarrow> apfst (\<lambda>fx. DiskMiss # fx) (generate_or_fetch opts e destination))"

definition segment ::
    "grant_platform \<Rightarrow> playback_options \<Rightarrow> string \<Rightarrow> (nat \<Rightarrow> instant) \<Rightarrow> (nat \<Rightarrow> db) \<Rightarrow> segment_env \<Rightarrow> string \<Rightarrow>
       rat \<Rightarrow> segment_effect list \<times> string outcome" where
  "segment pl opts cacheDir clock ds e token index =
     (case playback pl opts clock ds token of
        Inl err \<Rightarrow> ([], throw err)
      | Inr (session, p) \<Rightarrow>
          if ses_kind session \<noteq> Vod \<or> ses_source session = None \<or> \<not> has_duration session
          then ([], throw NotFoundError)
          else
            let durationSeconds = the (ses_durationSeconds session)
            in if \<not> segment_index_ok durationSeconds p index then ([], throw NotFoundError)
               else
                 let report = ActivityReport (index * segment_seconds p)
                                (activity_of (sg_reported e) durationSeconds p index);
                     destination = cacheDir @ ''/vod/'' @ segment_key session p
                       (decimal (nat \<lfloor>index\<rfloor>) @ ''.'' @ segment_extension p)
                 in apfst (\<lambda>fx. report # (if sg_report_fails e then [ActivityFailed] else []) @ fx)
                      (serve_segment opts e destination))"

text \<open>
  The initialization segment: it is looked for on the disk and in the object store, then
  segment 0 is asked for, then both are tried again. \<open>on_disk k\<close> is the \<open>k\<close>-th look, \<open>restore k\<close>
  the \<open>k\<close>-th restore.
\<close>

definition initSegment ::
    "grant_platform \<Rightarrow> playback_options \<Rightarrow> string \<Rightarrow> (relay_session \<Rightarrow> profile \<Rightarrow> nat \<Rightarrow> string outcome) \<Rightarrow>
       (nat \<Rightarrow> instant) \<Rightarrow> (nat \<Rightarrow> db) \<Rightarrow> (nat \<Rightarrow> bool) \<Rightarrow> (string \<Rightarrow> nat \<Rightarrow> bool outcome) \<Rightarrow>
       (nat \<Rightarrow> instant) \<Rightarrow> (nat \<Rightarrow> db) \<Rightarrow> segment_env \<Rightarrow> string \<Rightarrow> string outcome" where
  "initSegment pl opts cacheDir key clock ds on_disk restore clock' ds' e token =
     (case playback pl opts clock ds token of
        Inl err \<Rightarrow> throw err
      | Inr (session, p) \<Rightarrow>
          if del_segmentType (prof_delivery p) \<noteq> SegFmp4 then throw NotFoundError
          else
            let path = cacheDir @ ''/vod/'' @ segment_key session p ''init.mp4''
            in if on_disk 0 then resolve path
               else case map_sum id init_key (key session p 0) of
                 Inl err \<Rightarrow> throw err
               | Inr initKey \<Rightarrow>
                   (case restore initKey 0 of
                      Inl err \<Rightarrow> throw err
                    | Inr True \<Rightarrow> resolve path
                    | Inr False \<Rightarrow>
                        (case snd (segment pl opts cacheDir clock' ds' e token 0) of
                           Inl err \<Rightarrow> throw err
                         | Inr _ \<Rightarrow>
                             if on_disk 1 then resolve path
                             else case restore initKey 1 of
                               Inl err \<Rightarrow> throw err
                             | Inr True \<Rightarrow> resolve path
                             | Inr False \<Rightarrow> throw NotFoundError)))"

section \<open>The playlist names the segments that are served\<close>

lemma segment_index_of_nat:
  assumes "0 < segment_seconds p" and "0 < t"
  shows "segment_index_ok t p (of_nat i) \<longleftrightarrow> i < segment_count t p"
proof -
  have "of_nat i * segment_seconds p < t \<longleftrightarrow> rat_of_nat i < t / segment_seconds p"
    using assms(1) by (simp add: pos_less_divide_eq)
  also have "\<dots> \<longleftrightarrow> int i < \<lceil>t / segment_seconds p\<rceil>" by (simp add: less_ceiling_iff)
  also have "\<dots> \<longleftrightarrow> i < segment_count t p" by (simp add: segment_count_def zless_nat_eq_int_zless)
  finally show ?thesis by (simp add: segment_index_ok_def)
qed

lemma segment_index_ok_iff:
  assumes "0 < segment_seconds p" and "0 < t"
  shows "segment_index_ok t p index \<longleftrightarrow> (\<exists>i < segment_count t p. index = of_nat i)"
proof
  assume ok: "segment_index_ok t p index"
  then have "0 \<le> \<lfloor>index\<rfloor>" by (simp add: segment_index_ok_def)
  then have index: "index = of_nat (nat \<lfloor>index\<rfloor>)" using ok by (simp add: segment_index_ok_def)
  with ok have "segment_index_ok t p (of_nat (nat \<lfloor>index\<rfloor>))" by simp
  then show "\<exists>i < segment_count t p. index = of_nat i"
    using segment_index_of_nat[OF assms] index by blast
next
  assume "\<exists>i < segment_count t p. index = of_nat i"
  then show "segment_index_ok t p index" using segment_index_of_nat[OF assms] by blast
qed

lemma segment_length_bounds:
  assumes "0 < segment_seconds p" and "0 < t" and "i < segment_count t p"
  shows "0 < segment_length t p i \<and> segment_length t p i \<le> segment_seconds p"
  using assms segment_index_of_nat[OF assms(1,2), of i] by (simp add: segment_length_def segment_index_ok_def)

lemma segment_length_inner:
  assumes "0 < segment_seconds p" and "0 < t" and "Suc i < segment_count t p"
  shows "segment_length t p i = segment_seconds p"
proof -
  have "of_nat (Suc i) * segment_seconds p < t"
    using assms segment_index_of_nat[OF assms(1,2), of "Suc i"] by (simp add: segment_index_ok_def)
  then show ?thesis by (simp add: segment_length_def algebra_simps)
qed

lemma segment_count_pos:
  assumes "0 < segment_seconds p" and "0 < t"
  shows "0 < segment_count t p"
  using segment_index_of_nat[OF assms, of 0] assms by (simp add: segment_index_ok_def)

lemma sum_segment_lengths:
  assumes "0 < segment_seconds p" and "0 < t"
  shows "sum_list (map (segment_length t p) [0 ..< segment_count t p]) = t"
proof -
  obtain n where n: "segment_count t p = Suc n" using segment_count_pos[OF assms] by (cases "segment_count t p") auto
  have "map (segment_length t p) [0 ..< n] = map (\<lambda>_. segment_seconds p) [0 ..< n]"
    using segment_length_inner[OF assms] n by simp
  then have inner: "sum_list (map (segment_length t p) [0 ..< n]) = of_nat n * segment_seconds p"
    by (simp add: map_replicate_const sum_list_replicate)
  have "\<not> segment_index_ok t p (of_nat (Suc n))" using segment_index_of_nat[OF assms, of "Suc n"] n by simp
  then have "t \<le> of_nat (Suc n) * segment_seconds p" by (simp add: segment_index_ok_def not_less)
  then have "segment_length t p n = t - of_nat n * segment_seconds p"
    by (simp add: segment_length_def algebra_simps)
  then show ?thesis by (simp add: n inner)
qed

text \<open>The lines that are no tags and not empty are the URIs of the segments.\<close>

definition is_uri_line :: "string \<Rightarrow> bool" where
  "is_uri_line l \<longleftrightarrow> (case l of [] \<Rightarrow> False | c # _ \<Rightarrow> c \<noteq> CHR ''#'')"

text \<open>The digits of a number, and no line break, are the text of a number.\<close>

lemma digit_no_break: "m < 10 \<Longrightarrow> char_of (48 + m :: nat) \<noteq> CHR 0x0A"
proof
  assume "m < 10" "char_of (48 + m) = CHR 0x0A"
  then have "of_char (char_of (48 + m) :: char) = (of_char (CHR 0x0A) :: nat)" by simp
  with \<open>m < 10\<close> show False by (simp add: of_char_of take_bit_eq_mod)
qed

lemma decimal_no_break: "CHR 0x0A \<notin> set (decimal n)"
proof (induction n rule: decimal.induct)
  case (1 n)
  then show ?case using digit_no_break[of n] digit_no_break[of "n mod 10"]
    by (subst decimal.simps) (simp add: eq_commute)
qed

lemma toFixed3_no_break: "CHR 0x0A \<notin> set (toFixed3 x)"
proof -
  have digits: "m mod 1000 div 100 < 10" "m mod 1000 div 10 mod 10 < 10" "m mod 1000 mod 10 < 10" for m :: nat
    by simp_all
  show ?thesis
    unfolding toFixed3_def Let_def
    using decimal_no_break digits[THEN digit_no_break, THEN not_sym] by simp
qed

lemma playlist_line_no_break:
  assumes "truthy base \<longrightarrow> CHR 0x0A \<notin> set (the base)" and "l \<in> set (playlist_lines base t p)"
  shows "CHR 0x0A \<notin> set l"
  using assms decimal_no_break toFixed3_no_break
  by (auto simp: playlist_lines_def playlist_head_def segment_uri_def segment_extension_def split: if_splits)

lemma playlist_head_tags:
  "l \<in> set (playlist_head base p) \<Longrightarrow> \<not> is_uri_line l \<and> take 8 l \<noteq> ''#EXTINF:''"
  by (auto simp: playlist_head_def is_uri_line_def split: if_splits)

end
