(* ===== verification/RelaySessions.thy ===== *)
theory RelaySessions
  imports RelayPlaylist RelayReferences
begin

text \<open>
  The writes of \<^verbatim>\<open>SessionService\<close> (\<^verbatim>\<open>packages/application/src/session-service.ts\<close>) on sessions:
  the optimistic loop \<^verbatim>\<open>#updateSession\<close> with the updates of \<^verbatim>\<open>control\<close>, \<^verbatim>\<open>recover\<close> and the workers,
  \<^verbatim>\<open>#setSessionViewers\<close>, the activity of the players and the claim of the profile that
  normalises a live channel. \<open>env\<close> gives the writes of others around each read, as in the
  other services. The last part shows that no update writes over a deletion that has begun.
\<close>

definition SESSION_WRITE_ATTEMPTS :: nat where
  "SESSION_WRITE_ATTEMPTS = 5"

section \<open>The update loop\<close>

record session_update =
  su_session :: "relay_session option"
  su_applied :: bool

text \<open>An update throws, leaves the session as it is, or gives the new one.\<close>

type_synonym session_change = "relay_session \<Rightarrow> instant \<Rightarrow> relay_session option outcome"

definition missing_session :: "bool \<Rightarrow> session_update outcome" where
  "missing_session allowMissing =
     (if allowMissing then resolve \<lparr>su_session = None, su_applied = False\<rparr> else throw NotFoundError)"

definition update_attempt ::
    "(nat \<Rightarrow> repo_op list) \<Rightarrow> (nat \<Rightarrow> instant) \<Rightarrow> session_change \<Rightarrow> bool \<Rightarrow> ident \<Rightarrow> nat \<Rightarrow> db \<Rightarrow>
       db \<times> session_update outcome option" where
  "update_attempt env clock update allowMissing sessionId i d =
     (let d1 = run_ops (env (2 * i)) d
      in case getVersionedSession d1 sessionId of
           None \<Rightarrow> (d1, Some (missing_session allowMissing))
         | Some c \<Rightarrow>
             (case update (vr_value c) (clock i) of
                Inl e \<Rightarrow> (d1, Some (throw e))
              | Inr None \<Rightarrow> (d1, Some (resolve \<lparr>su_session = Some (vr_value c), su_applied = False\<rparr>))
              | Inr (Some updated) \<Rightarrow>
                  (case compareAndSetSession (run_ops (env (2 * i + 1)) d1) updated (vr_revision c) of
                     (d2, Applied record) \<Rightarrow>
                       (d2, Some (resolve \<lparr>su_session = Some (vr_value record), su_applied = True\<rparr>))
                   | (d2, Rejected reason _ _) \<Rightarrow>
                       (d2, if reason = NotFound then Some (missing_session allowMissing)
                            else if reason = InvalidState then Some (throw ConflictError) else None))))"

definition updateSession ::
    "(nat \<Rightarrow> repo_op list) \<Rightarrow> (nat \<Rightarrow> instant) \<Rightarrow> session_change \<Rightarrow> bool \<Rightarrow> ident \<Rightarrow> db \<Rightarrow>
       db \<times> session_update outcome" where
  "updateSession env clock update allowMissing sessionId d =
     retry 0 SESSION_WRITE_ATTEMPTS (update_attempt env clock update allowMissing sessionId) (throw ConflictError) d"

section \<open>The updates\<close>

record control_input =
  ctl_pinned :: "bool option"
  ctl_state :: "session_state option"

definition control_change :: "control_input \<Rightarrow> session_change" where
  "control_change input s now =
     (if ses_deletionPending s then throw ConflictError
      else if ctl_state input = Some SessionIdle \<and> ses_kind s \<noteq> Vod then throw ConflictError
      else if ctl_state input = Some SessionLive \<and> ses_kind s \<noteq> Live then throw ConflictError
      else resolve (Some (s\<lparr>ses_pinned := coalesce (ctl_pinned input) (ses_pinned s),
                            ses_state := coalesce (ctl_state input) (ses_state s), ses_updatedAt := now\<rparr>)))"

definition recover_change :: session_change where
  "recover_change s now =
     (if ses_state s \<in> {SessionQueued, SessionStarting, SessionActive}
      then resolve (Some (s\<lparr>ses_state := SessionIdle, ses_updatedAt := now\<rparr>)) else resolve None)"

definition worker_change :: session_change where
  "worker_change s now =
     (if ses_state s = SessionStopped then resolve None
      else resolve (Some (s\<lparr>ses_state := SessionActive, ses_updatedAt := now\<rparr>)))"

text \<open>
  \<^verbatim>\<open>control\<close>: a stop asks the producer to stop (\<open>stop\<close>), forgets the credential and the source
  grants, and reports the end of the playback when one was reported.
\<close>

datatype session_effect =
    StopProducer ident
  | ForgetSource ident
  | ReportStop ident
  | SessionUpdatedEvent ident bool session_state

definition control ::
    "(nat \<Rightarrow> repo_op list) \<Rightarrow> (nat \<Rightarrow> instant) \<Rightarrow> unit outcome \<Rightarrow> bool \<Rightarrow> ident \<Rightarrow> control_input \<Rightarrow> db \<Rightarrow>
       db \<times> session_effect list \<times> relay_session outcome" where
  "control env clock stop reported sessionId input d =
     (case updateSession env clock (control_change input) False sessionId d of
        (d', Inl e) \<Rightarrow> (d', [], throw e)
      | (d', Inr u) \<Rightarrow>
          (case su_session u of
             None \<Rightarrow> (d', [], throw NotFoundError)
           | Some s \<Rightarrow>
               let event = SessionUpdatedEvent sessionId (ses_pinned s) (ses_state s)
               in if ctl_state input = Some SessionStopped
                  then (case stop of
                          Inl e \<Rightarrow> (d', [StopProducer sessionId], throw e)
                        | Inr _ \<Rightarrow>
                            (d', [StopProducer sessionId, ForgetSource sessionId] @
                                 (if reported then [ReportStop sessionId] else []) @ [event], resolve s))
                  else (d', [event], resolve s)))"

text \<open>The part of \<^verbatim>\<open>recover\<close> that resets the sessions a crash left in progress.\<close>

fun reset_sessions ::
    "(nat \<Rightarrow> nat \<Rightarrow> repo_op list) \<Rightarrow> (nat \<Rightarrow> nat \<Rightarrow> instant) \<Rightarrow> nat \<Rightarrow> relay_session list \<Rightarrow> db \<Rightarrow> db \<times> nat outcome" where
  "reset_sessions env clock k [] d = (d, resolve 0)"
| "reset_sessions env clock k (s # ss) d =
     (if ses_state s \<in> {SessionQueued, SessionStarting, SessionActive}
      then (case updateSession (env k) (clock k) recover_change True (ses_id s) d of
              (d', Inl e) \<Rightarrow> (d', throw e)
            | (d', Inr u) \<Rightarrow>
                (case reset_sessions env clock (Suc k) ss d' of
                   (d'', Inl e) \<Rightarrow> (d'', throw e)
                 | (d'', Inr n) \<Rightarrow> (d'', resolve (if su_applied u then Suc n else n))))
      else reset_sessions env clock (Suc k) ss d)"

section \<open>Viewers and activity\<close>

definition viewers_attempt ::
    "(nat \<Rightarrow> repo_op list) \<Rightarrow> (nat \<Rightarrow> instant) \<Rightarrow> int \<Rightarrow> bool \<Rightarrow> ident \<Rightarrow> nat \<Rightarrow> db \<Rightarrow>
       db \<times> relay_session option outcome option" where
  "viewers_attempt env clock viewers allowMissing sessionId i d =
     (let d1 = run_ops (env (2 * i)) d; missing = (if allowMissing then resolve None else throw NotFoundError)
      in case getVersionedSession d1 sessionId of
           None \<Rightarrow> (d1, Some missing)
         | Some c \<Rightarrow>
             (case setSessionViewers (run_ops (env (2 * i + 1)) d1) sessionId (vr_revision c) viewers (clock i) of
                (d2, Inl e) \<Rightarrow> (d2, Some (throw e))
              | (d2, Inr (Applied record)) \<Rightarrow> (d2, Some (resolve (Some (vr_value record))))
              | (d2, Inr (Rejected reason _ _)) \<Rightarrow>
                  (d2, if reason = NotFound then Some missing
                       else if reason = InvalidState then Some (throw ConflictError) else None)))"

definition updateViewers ::
    "(nat \<Rightarrow> repo_op list) \<Rightarrow> (nat \<Rightarrow> instant) \<Rightarrow> int \<Rightarrow> bool \<Rightarrow> ident \<Rightarrow> db \<Rightarrow> db \<times> relay_session option outcome" where
  "updateViewers env clock viewers allowMissing sessionId d =
     retry 0 SESSION_WRITE_ATTEMPTS (viewers_attempt env clock viewers allowMissing sessionId) (throw ConflictError) d"

text \<open>An activity is written when the last one is a minute old; an invalid date is \<open>None\<close>.\<close>

definition recordPlaybackActivity :: "db \<Rightarrow> ident \<Rightarrow> instant option \<Rightarrow> db \<times> unit outcome" where
  "recordPlaybackActivity d sessionId observedAt =
     (case observedAt of
        None \<Rightarrow> (d, throw PlainError)
      | Some t \<Rightarrow> (fst (touchSessionPlaybackActivity d sessionId t (t - 60000)), resolve ()))"

section \<open>The profile of a normalising channel\<close>

definition claim_attempt ::
    "(nat \<Rightarrow> repo_op list) \<Rightarrow> ident \<Rightarrow> ident \<Rightarrow> nat \<Rightarrow> db \<times> live_channel versioned \<Rightarrow>
       (db \<times> live_channel versioned) \<times> nat outcome option" where
  "claim_attempt env channelId profileId i w =
     (case w of (d, stored) \<Rightarrow>
        if truthy (chan_normalizationProfileId (vr_value stored))
        then (w, Some (if chan_normalizationProfileId (vr_value stored) \<noteq> Some profileId then throw ConflictError
                       else resolve (vr_revision stored)))
        else
          (case compareAndSetLiveChannel (run_ops (env (2 * i)) d)
                  ((vr_value stored)\<lparr>chan_normalizationProfileId := Some profileId\<rparr>) (vr_revision stored) of
             (d', Applied record) \<Rightarrow> ((d', record), Some (resolve (vr_revision record)))
           | (d', Rejected reason current _) \<Rightarrow>
               if reason = NotFound then ((d', stored), Some (throw NotFoundError))
               else
                 let d'' = run_ops (if current = None then env (2 * i + 1) else []) d'
                 in case (if current = None then getVersionedLiveChannel d'' channelId else current) of
                      None \<Rightarrow> ((d'', stored), Some (throw NotFoundError))
                    | Some c \<Rightarrow> ((d'', c), None)))"

definition claimLiveNormalizationProfile ::
    "(nat \<Rightarrow> repo_op list) \<Rightarrow> ident \<Rightarrow> ident \<Rightarrow> db \<Rightarrow> db \<times> nat outcome" where
  "claimLiveNormalizationProfile env channelId profileId d =
     (case getVersionedLiveChannel d channelId of
        None \<Rightarrow> (d, throw NotFoundError)
      | Some stored \<Rightarrow>
          if \<not> chan_normalize (vr_value stored) then (d, resolve (vr_revision stored))
          else apfst fst (retry 0 SESSION_WRITE_ATTEMPTS (claim_attempt env channelId profileId)
                 (throw ConflictError) (d, stored)))"

section \<open>A deletion that has begun is final\<close>

text \<open>
  The interleavings of the updates of one session: others write anything that does not take
  the deletion back, an update reads the session and keeps what it read, and later writes
  with the revision it read.
\<close>

fun keeps_deletion :: "ident \<Rightarrow> repo_op \<Rightarrow> bool" where
  "keeps_deletion i (SessionOp (OpCasSession s e)) =
     (ses_id s = i \<longrightarrow> ses_deletionPending s \<and> ses_state s = SessionStopped)"
| "keeps_deletion i x = (\<not> creates_session i x)"

definition service_change :: "session_change \<Rightarrow> bool" where
  "service_change u \<longleftrightarrow> u = recover_change \<or> u = worker_change \<or> (\<exists>input. u = control_change input)"

inductive update_step :: "ident \<Rightarrow> db \<times> relay_session versioned set \<Rightarrow> db \<times> relay_session versioned set \<Rightarrow> bool"
  for i :: ident where
  others: "keeps_deletion i x \<Longrightarrow> update_step i (d, seen) (exec_op x d, seen)"
| reads: "getVersionedSession d i = Some c \<Longrightarrow> update_step i (d, seen) (d, insert c seen)"
| writes: "c \<in> seen \<Longrightarrow> service_change u \<Longrightarrow> u (vr_value c) t = resolve (Some s) \<Longrightarrow>
     update_step i (d, seen) (fst (compareAndSetSession d s (vr_revision c)), seen)"

definition deletion_begun :: "ident \<Rightarrow> db \<Rightarrow> bool" where
  "deletion_begun i d \<longleftrightarrow>
     (case map_of (db_sessions d) i of
        None \<Rightarrow> True
      | Some r \<Rightarrow> ses_deletionPending (row_json r) \<and> ses_state (row_json r) = SessionStopped)"

text \<open>What an update has read is older than the row, or is the row.\<close>

definition reads_ok :: "ident \<Rightarrow> db \<Rightarrow> relay_session versioned set \<Rightarrow> bool" where
  "reads_ok i d seen \<longleftrightarrow>
     (\<forall>c \<in> seen. case map_of (db_sessions d) i of
        None \<Rightarrow> True
      | Some r \<Rightarrow> vr_revision c < row_revision r \<or> c = versioned (row_json r) (row_revision r))"

lemma service_change_live:
  assumes "service_change u" and "u s t = resolve (Some s')"
  shows "\<not> (ses_deletionPending s \<and> ses_state s = SessionStopped) \<and> ses_id s' = ses_id s"
  using assms unfolding service_change_def
  by (auto simp: recover_change_def worker_change_def control_change_def split: if_splits)

text \<open>Without a creation the row of a session is gone for good, untouched, or has a higher revision.\<close>

lemma session_row_later:
  assumes keys: "keys_unique d" and "\<not> creates_session i x"
    and row: "map_of (db_sessions (exec_op x d)) i = Some r'"
  shows "\<exists>r. map_of (db_sessions d) i = Some r \<and> (r' = r \<or> row_revision r < row_revision r')"
proof -
  have old: "\<exists>r. map_of (db_sessions d) i = Some r"
  proof (cases x)
    case (SessionOp y)
    then show ?thesis
      using session_rows[OF keys_uniqueD(2)[OF keys], of y i r'] row assms(2) by auto
  qed (use row in \<open>simp_all add: frames\<close>)
  have "evolves (db_sessions d) (db_sessions (exec_op x d))"
    using exec_op_evolves[of d x] by (simp add: db_evolves_def)
  then show ?thesis using old row keys_uniqueD(2)[OF keys] by (fastforce simp: evolves_def)
qed

lemma keeps_deletion_creates: "keeps_deletion i x \<Longrightarrow> \<not> creates_session i x"
  by (cases "(i, x)" rule: keeps_deletion.cases) auto

lemma cas_session_op: "fst (compareAndSetSession d s e) = exec_op (SessionOp (OpCasSession s e)) d"
  by simp

lemma cas_session_row:
  "map_of (db_sessions (fst (compareAndSetSession d s e))) i =
     (case map_of (db_sessions d) i of
        None \<Rightarrow> None
      | Some r \<Rightarrow> Some (if i = ses_id s \<and> row_revision r = e \<and> sameSessionIdentity (row_json r) s
                        then bump_row s (ses_updatedAt s) r else r))"
proof (cases "map_of (db_sessions d) (ses_id s)")
  case None
  then show ?thesis
    by (auto simp: compareAndSetSession_def getVersionedSession_def get_versioned_def split: option.split)
next
  case (Some r)
  then show ?thesis
    by (auto simp: compareAndSetSession_def getVersionedSession_def get_versioned_def Let_def case_prod_beta
        map_of_cas cas_cond_def split: option.split)
qed

definition sessions_named :: "db \<Rightarrow> bool" where
  "sessions_named d \<longleftrightarrow> (\<forall>k r. map_of (db_sessions d) k = Some r \<longrightarrow> ses_id (row_json r) = k)"

lemma sessions_named_exec:
  assumes keys: "keys_unique d" and named: "sessions_named d"
  shows "sessions_named (exec_op x d)"
  unfolding sessions_named_def
proof (intro allI impI)
  fix k r'
  assume row: "map_of (db_sessions (exec_op x d)) k = Some r'"
  show "ses_id (row_json r') = k"
  proof (cases x)
    case (SessionOp y)
    from session_rows[OF keys_uniqueD(2)[OF keys], of y k r'] row SessionOp
    consider r where "map_of (db_sessions d) k = Some r" "sameSessionIdentity (row_json r) (row_json r')"
      | "k = ses_id (row_json r')" by auto
    then show ?thesis
    proof cases
      case (1 r)
      then show ?thesis using named sameSessionIdentityD(1)[OF 1(2)] unfolding sessions_named_def by simp
    qed simp
  qed (use row named in \<open>simp_all add: frames sessions_named_def\<close>)
qed

lemma sessions_named_run:
  "keys_unique d \<Longrightarrow> sessions_named d \<Longrightarrow> sessions_named (run_ops xs d)"
  by (induction xs arbitrary: d) (simp_all add: sessions_named_exec keys_unique_exec)

lemma viewers_session_row:
  assumes row: "map_of (db_sessions d) i = Some r" and named: "sessions_named d"
  shows "\<exists>r'. map_of (db_sessions (fst (setSessionViewers d j e v t))) i = Some r' \<and>
     ses_deletionPending (row_json r') = ses_deletionPending (row_json r) \<and>
     ses_state (row_json r') = ses_state (row_json r)"
proof (cases "getVersionedSession d j")
  case None
  then show ?thesis using row by (simp add: setSessionViewers_def)
next
  case (Some c)
  let ?s = "(vr_value c)\<lparr>ses_viewers := v, ses_updatedAt := t\<rparr>"
  from Some obtain r0 where r0: "map_of (db_sessions d) j = Some r0" "c = versioned (row_json r0) (row_revision r0)"
    by (auto simp: getVersionedSession_def get_versioned_Some)
  have c: "vr_value c = row_json r" if "i = ses_id ?s"
    using that named r0 row by (simp add: sessions_named_def)
  have "fst (setSessionViewers d j e v t) = d \<or> fst (setSessionViewers d j e v t) = fst (compareAndSetSession d ?s e)"
    using Some by (simp add: setSessionViewers_def Let_def case_prod_beta)
  then show ?thesis
  proof
    assume eq: "fst (setSessionViewers d j e v t) = fst (compareAndSetSession d ?s e)"
    show ?thesis
    proof (cases "i = ses_id ?s \<and> row_revision r = e \<and> sameSessionIdentity (row_json r) ?s")
      case False
      then show ?thesis unfolding eq cas_session_row using row by auto
    next
      case True
      then show ?thesis unfolding eq cas_session_row using row c by simp
    qed
  qed (use row in simp)
qed

lemma reads_ok_exec:
  assumes "keys_unique d" and "reads_ok i d seen" and "\<not> creates_session i x"
  shows "reads_ok i (exec_op x d) seen"
  unfolding reads_ok_def
proof
  fix c
  assume c: "c \<in> seen"
  show "case map_of (db_sessions (exec_op x d)) i of None \<Rightarrow> True
      | Some r \<Rightarrow> vr_revision c < row_revision r \<or> c = versioned (row_json r) (row_revision r)"
  proof (cases "map_of (db_sessions (exec_op x d)) i")
    case (Some r')
    from session_row_later[OF assms(1,3) Some] obtain r where
      r: "map_of (db_sessions d) i = Some r" "r' = r \<or> row_revision r < row_revision r'" by blast
    have "vr_revision c < row_revision r \<or> c = versioned (row_json r) (row_revision r)"
      using assms(2) c r(1) unfolding reads_ok_def by fastforce
    then show ?thesis using Some r(2) by auto
  qed simp
qed

lemma begin_other_row:
  assumes "map_of (db_sessions d) i = Some r" and "ses_deletionPending (row_json r)"
  shows "map_of (db_sessions (fst (beginSessionDeletion d j opts))) i = Some r"
proof (cases "j = i")
  case True
  then show ?thesis using assms by (simp add: beginSessionDeletion_def getVersionedSession_def get_versioned_def)
next
  case False
  then show ?thesis using assms(1)
    by (simp add: beginSessionDeletion_def revokePlaybackGrants_def Let_def case_prod_beta map_of_sql_update
        split: option.split)
qed

lemma deletion_begun_exec:
  assumes keys: "keys_unique d" and begun: "deletion_begun i d" and "keeps_deletion i x" and named: "sessions_named d"
  shows "deletion_begun i (exec_op x d)"
proof (cases "map_of (db_sessions (exec_op x d)) i")
  case None
  then show ?thesis by (simp add: deletion_begun_def)
next
  case (Some r')
  from session_row_later[OF keys keeps_deletion_creates[OF assms(3)] Some] obtain r where
    r: "map_of (db_sessions d) i = Some r" by blast
  then have pending: "ses_deletionPending (row_json r)" "ses_state (row_json r) = SessionStopped"
    using begun by (simp_all add: deletion_begun_def)
  have "ses_deletionPending (row_json r') \<and> ses_state (row_json r') = SessionStopped"
  proof (cases x)
    case (SessionOp y)
    show ?thesis
    proof (cases y)
      case (OpCreateSession s g q)
      have "r' = r"
      proof (cases rule: create_session_cases[of d s g q])
        case unchanged
        then show ?thesis using Some SessionOp OpCreateSession r by simp
      next
        case inserted
        then show ?thesis using insert_session_and_grant_rows[of d s g i r'] Some SessionOp OpCreateSession r by simp
      qed
      then show ?thesis using pending by simp
    next
      case (OpCasSession s e)
      then show ?thesis using Some SessionOp r pending assms(3)
        by (auto simp: cas_session_row split: if_splits)
    next
      case (OpSetSessionViewers j e v t)
      then show ?thesis using Some SessionOp pending viewers_session_row[OF r named, of j e v t] by auto
    next
      case (OpTouchSession j a b)
      let ?f = "\<lambda>r. r\<lparr>row_json := (row_json r)\<lparr>ses_lastPlaybackActivityAt := Some a\<rparr>, row_revision := row_revision r + 1\<rparr>"
      have "\<exists>c. map_of (db_sessions (exec_op x d)) i = Some (if c then ?f r else r)"
        using SessionOp OpTouchSession r
        by (auto simp: touchSessionPlaybackActivity_def Let_def case_prod_beta map_of_sql_update)
      then obtain c where "r' = (if c then ?f r else r)" using Some by auto
      then show ?thesis using pending by (cases c) simp_all
    next
      case (OpBeginSessionDeletion j opts)
      then have "r' = r" using Some SessionOp begin_other_row[OF r pending(1), of j opts] by simp
      then show ?thesis using pending by simp
    next
      case (OpDeleteSession j t)
      have "map_of (db_sessions (exec_op x d)) i = (if i = j then None else map_of (db_sessions d) i)"
        using SessionOp OpDeleteSession keys_uniqueD(2)[OF keys]
        by (simp add: deleteSessionAndRevokePlaybackGrants_def revokePlaybackGrants_def Let_def map_of_sql_delete
            split: option.split)
      then have "r' = r" using Some r by (simp split: if_splits)
      then show ?thesis using pending by simp
    qed
  qed (use Some r pending in \<open>simp_all add: frames\<close>)
  with Some show ?thesis by (simp add: deletion_begun_def)
qed

text \<open>A write that is based on an older state of a session that is being deleted is refused.\<close>

lemma late_write_refused:
  assumes "deletion_begun i d" and "reads_ok i d seen" and "c \<in> seen"
    and "service_change u" and "u (vr_value c) t = resolve (Some s)" and "ses_id s = i"
  shows "fst (compareAndSetSession d s (vr_revision c)) = d"
proof (cases "map_of (db_sessions d) i")
  case None
  then show ?thesis using assms(6) by (simp add: compareAndSetSession_def getVersionedSession_def get_versioned_def)
next
  case (Some r)
  have "vr_revision c < row_revision r \<or> c = versioned (row_json r) (row_revision r)"
    using assms(2,3) Some unfolding reads_ok_def by fastforce
  moreover have "c \<noteq> versioned (row_json r) (row_revision r)"
    using assms(1) Some service_change_live[OF assms(4,5)] by (auto simp: deletion_begun_def)
  ultimately show ?thesis using Some assms(6)
    by (simp add: compareAndSetSession_def getVersionedSession_def get_versioned_def)
qed

definition update_ok :: "ident \<Rightarrow> db \<times> relay_session versioned set \<Rightarrow> bool" where
  "update_ok i s = (case s of (d, seen) \<Rightarrow>
     keys_unique d \<and> sessions_named d \<and> reads_ok i d seen \<and> (\<forall>c \<in> seen. ses_id (vr_value c) = i))"

lemma update_step_ok:
  assumes "update_step i s s'" and "update_ok i s"
  shows "update_ok i s'"
  using assms
proof (cases rule: update_step.cases)
  case (others x d seen)
  then show ?thesis using assms(2) keeps_deletion_creates[OF others(3)]
    by (simp add: update_ok_def keys_unique_exec reads_ok_exec sessions_named_exec)
next
  case (reads d c seen)
  then show ?thesis using assms(2)
    by (auto simp: update_ok_def reads_ok_def sessions_named_def getVersionedSession_def get_versioned_def)
next
  case (writes c seen u t s d)
  let ?x = "SessionOp (OpCasSession s (vr_revision c))"
  have ok: "keys_unique d" "sessions_named d" "reads_ok i d seen" "\<forall>c \<in> seen. ses_id (vr_value c) = i"
    using assms(2) writes(1) by (simp_all add: update_ok_def)
  have "keys_unique (exec_op ?x d)" "sessions_named (exec_op ?x d)" "reads_ok i (exec_op ?x d) seen"
    by (rule keys_unique_exec[OF ok(1)], rule sessions_named_exec[OF ok(1,2)], rule reads_ok_exec[OF ok(1,3)]) simp
  then show ?thesis using writes(2) ok(4) by (simp add: update_ok_def)
qed

lemma update_step_deletion:
  assumes "update_step i s s'" and "update_ok i s" and "deletion_begun i (fst s)"
  shows "deletion_begun i (fst s')"
  using assms
proof (cases rule: update_step.cases)
  case (others x d seen)
  then show ?thesis using assms(2,3) by (simp add: update_ok_def deletion_begun_exec)
next
  case (writes c seen u t s d)
  have "ses_id s = i" using service_change_live[OF writes(4,5)] assms(2) writes(1,3) by (simp add: update_ok_def)
  then show ?thesis using late_write_refused[of i d seen c u t s] writes assms(2,3) by (simp add: update_ok_def)
qed simp

lemma update_run_ok: "(update_step i)\<^sup>*\<^sup>* s s' \<Longrightarrow> update_ok i s \<Longrightarrow> update_ok i s'"
  by (induction rule: rtranclp_induct) (auto dest: update_step_ok)

lemma update_run_deletion:
  assumes "(update_step i)\<^sup>*\<^sup>* s s'" and "update_ok i s" and "deletion_begun i (fst s)"
  shows "deletion_begun i (fst s')"
  using assms(1)
proof (induction rule: rtranclp_induct)
  case base
  then show ?case by (rule assms(3))
next
  case (step y z)
  have "update_ok i y" by (rule update_run_ok[OF step.hyps(1) assms(2)])
  then show ?case using update_step_deletion[OF step.hyps(2)] step.IH by blast
qed

section \<open>The loop takes these steps\<close>

lemma others_run:
  "\<forall>x \<in> set xs. keeps_deletion i x \<Longrightarrow> (update_step i)\<^sup>*\<^sup>* (d, seen) (run_ops xs d, seen)"
proof (induction xs arbitrary: d)
  case Nil
  then show ?case by simp
next
  case (Cons x xs)
  have "update_step i (d, seen) (exec_op x d, seen)" by (rule update_step.others) (use Cons.prems in simp)
  then show ?case using Cons.IH[of "exec_op x d"] Cons.prems by (simp add: converse_rtranclp_into_rtranclp)
qed

lemma update_attempt_steps:
  assumes "service_change u" and env: "\<And>k. \<forall>x \<in> set (env k). keeps_deletion i x"
  shows "\<exists>seen'. (update_step i)\<^sup>*\<^sup>* (d, seen) (fst (update_attempt env clock u allowMissing i k d), seen')"
proof -
  let ?d1 = "run_ops (env (2 * k)) d"
  have start: "(update_step i)\<^sup>*\<^sup>* (d, seen) (?d1, seen)" by (rule others_run[OF env])
  show ?thesis
  proof (cases "getVersionedSession ?d1 i")
    case None
    then show ?thesis using start by (auto simp: update_attempt_def Let_def)
  next
    case (Some c)
    have read: "(update_step i)\<^sup>*\<^sup>* (d, seen) (?d1, insert c seen)"
      using start update_step.reads[OF Some, of seen] by (rule rtranclp.rtrancl_into_rtrancl)
    consider (no) "\<not> (\<exists>s. u (vr_value c) (clock k) = resolve (Some s))"
      | (yes) s where "u (vr_value c) (clock k) = resolve (Some s)" by blast
    then show ?thesis
    proof cases
      case no
      then have "fst (update_attempt env clock u allowMissing i k d) = ?d1"
        using Some by (auto simp: update_attempt_def Let_def split: sum.split option.split)
      then show ?thesis using start by auto
    next
      case yes
      let ?d2 = "run_ops (env (2 * k + 1)) ?d1"
      have "fst (update_attempt env clock u allowMissing i k d) = fst (compareAndSetSession ?d2 s (vr_revision c))"
        using Some yes by (simp add: update_attempt_def Let_def split: prod.split write_result.split)
      moreover have "(update_step i)\<^sup>*\<^sup>* (?d1, insert c seen) (?d2, insert c seen)" by (rule others_run[OF env])
      moreover have "update_step i (?d2, insert c seen) (fst (compareAndSetSession ?d2 s (vr_revision c)), insert c seen)"
        by (rule update_step.writes[OF _ assms(1) yes]) simp
      ultimately show ?thesis using read by (metis rtranclp.rtrancl_into_rtrancl rtranclp_trans)
    qed
  qed
qed

lemma updateSession_steps:
  assumes "service_change u" and "\<And>k. \<forall>x \<in> set (env k). keeps_deletion i x"
  shows "\<exists>seen'. (update_step i)\<^sup>*\<^sup>* (d, seen) (fst (updateSession env clock u allowMissing i d), seen')"
proof -
  have "\<forall>seen. \<exists>seen'. (update_step i)\<^sup>*\<^sup>* (d, seen) (fst (updateSession env clock u allowMissing i d), seen')"
    unfolding updateSession_def
  proof (rule retry_rel[where R = "\<lambda>d d'. \<forall>seen. \<exists>seen'. (update_step i)\<^sup>*\<^sup>* (d, seen) (d', seen')"])
    show "\<forall>seen. \<exists>seen'. (update_step i)\<^sup>*\<^sup>* (v, seen) (fst (update_attempt env clock u allowMissing i j v), seen')" for j v
      using update_attempt_steps[where env = env and k = j, OF assms] by blast
  qed (blast, meson rtranclp_trans)
  then show ?thesis by blast
qed

end
