(* ===== verification/RelayMedia.thy ===== *)
theory RelayMedia
  imports RelayGrants RelayJobs
begin

text \<open>
  What a session plays: the items of a media provider (\<^verbatim>\<open>packages/domain/src/index.ts\<close>), the
  choice of the audio track, the secrets a provider is read with and the node that has
  access to it (\<^verbatim>\<open>packages/application/src/session-service.ts\<close>), over the in-memory secret store
  (\<^verbatim>\<open>packages/adapters/src/secret-stores.ts\<close>).
\<close>

section \<open>Items\<close>

record media_version =
  mv_id :: ident
  mv_name :: string
  mv_container :: "string option"
  mv_videoCodec :: "string option"
  mv_audioCodec :: "string option"
  mv_bitrate :: "nat option"
  mv_width :: "nat option"
  mv_height :: "nat option"
  mv_fingerprint :: "string option"

datatype track_kind = TrackAudio | TrackSubtitle

record media_track =
  mt_id :: ident
  mt_index :: nat
  mt_kind :: track_kind
  mt_title :: string
  mt_language :: "string option"
  mt_codec :: "string option"
  mt_channels :: "nat option"
  mt_external :: "bool option"
  mt_isDefault :: "bool option"
  mt_isForced :: "bool option"

record media_item =
  mi_id :: ident
  mi_providerId :: ident
  mi_name :: string
  mi_kind :: string
  mi_overview :: "string option"
  mi_productionYear :: "int option"
  mi_durationSeconds :: "rat option"
  mi_playbackPositionSeconds :: "rat option"
  mi_playedPercentage :: "rat option"
  mi_imageUrl :: "string option"
  mi_parentId :: "ident option"
  mi_seriesName :: "string option"
  mi_seasonName :: "string option"
  mi_indexNumber :: "nat option"
  mi_parentIndexNumber :: "nat option"
  mi_collectionType :: "string option"
  mi_videoCodec :: "string option"
  mi_audioCodec :: "string option"
  mi_width :: "int option"
  mi_height :: "int option"
  mi_hdr :: "string option"
  mi_versions :: "media_version list option"
  mi_audioTracks :: "media_track list option"
  mi_subtitleTracks :: "media_track list option"

section \<open>The audio track\<close>

definition LANGUAGE_ALIASES :: "(string \<times> string) list" where
  "LANGUAGE_ALIASES =
     [(''ar'', ''ara''), (''cs'', ''ces''), (''da'', ''dan''), (''de'', ''deu''), (''el'', ''ell''), (''en'', ''eng''),
      (''es'', ''spa''), (''fi'', ''fin''), (''fr'', ''fra''), (''he'', ''heb''), (''hu'', ''hun''), (''it'', ''ita''),
      (''ja'', ''jpn''), (''ko'', ''kor''), (''nl'', ''nld''), (''no'', ''nor''), (''pl'', ''pol''), (''pt'', ''por''),
      (''ro'', ''ron''), (''ru'', ''rus''), (''sv'', ''swe''), (''th'', ''tha''), (''tr'', ''tur''), (''uk'', ''ukr''),
      (''vi'', ''vie''), (''zh'', ''zho'')]"

text \<open>The characters \<^verbatim>\<open>trim\<close> removes, as far as they are characters of a \<open>string\<close>.\<close>

definition js_space :: "char \<Rightarrow> bool" where
  "js_space c \<longleftrightarrow> c \<in> {CHR 0x09, CHR 0x0A, CHR 0x0B, CHR 0x0C, CHR 0x0D, CHR 0x20, CHR 0xA0}"

definition js_trim :: "string \<Rightarrow> string" where
  "js_trim s = rev (dropWhile js_space (rev (dropWhile js_space s)))"

definition normalizeLanguage :: "string \<Rightarrow> string" where
  "normalizeLanguage s = map (\<lambda>c. if c = CHR ''_'' then CHR ''-'' else c) (map lower_char (js_trim s))"

definition language_base :: "string \<Rightarrow> string" where
  "language_base s = hd (js_split (CHR ''-'') s)"

definition audioLanguageMatches :: "string option \<Rightarrow> string \<Rightarrow> bool" where
  "audioLanguageMatches trackLanguage preferredLanguage =
     (if \<not> truthy trackLanguage then False
      else
        let preferred = normalizeLanguage preferredLanguage;
            actual = normalizeLanguage (the trackLanguage);
            preferredBase = language_base preferred;
            actualBase = language_base actual
        in preferred = actual \<or> preferredBase = actualBase \<or>
           map_of LANGUAGE_ALIASES preferredBase = Some actualBase \<or>
           map_of LANGUAGE_ALIASES actualBase = Some preferredBase)"

text \<open>\<^verbatim>\<open>a ?? b\<close> where \<^verbatim>\<open>b\<close> may be missing too.\<close>

fun or_else :: "'a option \<Rightarrow> 'a option \<Rightarrow> 'a option" where
  "or_else (Some x) _ = Some x"
| "or_else None y = y"

definition selectDefaultAudioTrack :: "media_item \<Rightarrow> string \<Rightarrow> ident option" where
  "selectDefaultAudioTrack item preferredLanguage =
     (let tracks = coalesce (mi_audioTracks item) []
      in or_else (map_option mt_id (List.find (\<lambda>t. audioLanguageMatches (mt_language t) preferredLanguage) tracks))
           (or_else (map_option mt_id (List.find (\<lambda>t. mt_isDefault t = Some True) tracks))
              (case tracks of [] \<Rightarrow> None | t # _ \<Rightarrow> Some (mt_id t))))"

section \<open>Secrets\<close>

type_synonym secret_store = "(string, string) map"

definition secret_put :: "secret_store \<Rightarrow> string \<Rightarrow> string \<Rightarrow> secret_store" where
  "secret_put st ref v = st(ref \<mapsto> v)"

definition secret_get :: "secret_store \<Rightarrow> string \<Rightarrow> string outcome" where
  "secret_get st ref = (case st ref of None \<Rightarrow> throw PlainError | Some v \<Rightarrow> resolve v)"

definition secret_delete :: "secret_store \<Rightarrow> string \<Rightarrow> secret_store" where
  "secret_delete st ref = st(ref := None)"

definition sessionSourceSecretRef :: "ident \<Rightarrow> string" where
  "sessionSourceSecretRef i = ''session-source:'' @ i"

record ephemeral_credential =
  eph_accessToken :: string
  eph_providerUserId :: ident

text \<open>
  \<^verbatim>\<open>#providerSecret\<close>: the first healthy binding whose secret this node can read, else the secret
  of the provider. \<open>cluster\<close> says whether there is a cluster repository.
\<close>

definition usable_binding :: "provider_binding \<Rightarrow> bool" where
  "usable_binding b \<longleftrightarrow> bind_state b = BindingHealthy \<and> \<not> bind_deletionPending b"

fun first_secret :: "secret_store \<Rightarrow> provider_binding list \<Rightarrow> string option" where
  "first_secret st [] = None"
| "first_secret st (b # bs) =
     (case secret_get st (bind_secretRef b) of Inr v \<Rightarrow> Some v | Inl _ \<Rightarrow> first_secret st bs)"

definition providerSecret :: "bool \<Rightarrow> db \<Rightarrow> secret_store \<Rightarrow> provider_connection \<Rightarrow> string outcome" where
  "providerSecret cluster d st p =
     (let bindings = (if cluster then listProviderBindings d (Some (prov_id p)) False else [])
      in case first_secret st (filter usable_binding bindings) of
           Some v \<Rightarrow> resolve v
         | None \<Rightarrow> secret_get st (prov_secretRef p))"

text \<open>\<open>reachable\<close> is the gateway to other nodes, \<open>None\<close> where there is none.\<close>

definition remoteProviderNode ::
    "(ident \<Rightarrow> bool) option \<Rightarrow> bool \<Rightarrow> ident option \<Rightarrow> db \<Rightarrow> ident \<Rightarrow> ident option" where
  "remoteProviderNode gateway cluster nodeId d providerId =
     (case gateway of
        None \<Rightarrow> None
      | Some reachable \<Rightarrow>
          map_option bind_nodeId (List.find
            (\<lambda>b. usable_binding b \<and> Some (bind_nodeId b) \<noteq> nodeId \<and> reachable (bind_nodeId b))
            (if cluster then listProviderBindings d (Some providerId) False else [])))"

definition providerCredential ::
    "(string \<Rightarrow> json option) \<Rightarrow> bool \<Rightarrow> db \<Rightarrow> secret_store \<Rightarrow> (ident \<Rightarrow> ephemeral_credential option) \<Rightarrow>
       provider_connection \<Rightarrow> relay_session \<Rightarrow> (provider_connection \<times> string) outcome" where
  "providerCredential parse cluster d st ephemeral p s =
     (if \<not> truthy (ses_ownerId s) then map_sum id (\<lambda>v. (p, v)) (providerSecret cluster d st p)
      else case ephemeral (ses_id s) of
        Some c \<Rightarrow> resolve (p\<lparr>prov_userId := Some (eph_providerUserId c)\<rparr>, eph_accessToken c)
      | None \<Rightarrow>
          (case secret_get st (sessionSourceSecretRef (ses_id s)) of
             Inl e \<Rightarrow> throw e
           | Inr text \<Rightarrow>
               (case parse text of
                  None \<Rightarrow> throw PlainError
                | Some JNull \<Rightarrow> throw PlainError
                | Some stored \<Rightarrow>
                    (case (json_string (json_field ''accessToken'' stored), json_string (json_field ''userId'' stored)) of
                       (Some token, Some user) \<Rightarrow> resolve (p\<lparr>prov_userId := Some user\<rparr>, token)
                     | _ \<Rightarrow> throw UnauthorizedError))))"

section \<open>The choice is sound\<close>

lemma find_listed: "List.find P xs = Some x \<Longrightarrow> x \<in> set xs \<and> P x"
  by (induction xs) (auto split: if_splits)

lemma audio_track_is_listed:
  assumes "selectDefaultAudioTrack item lang = Some i"
  shows "\<exists>t \<in> set (coalesce (mi_audioTracks item) []). mt_id t = i"
proof -
  let ?ts = "coalesce (mi_audioTracks item) []"
  have found: "\<exists>t \<in> set ?ts. mt_id t = i" if "map_option mt_id (List.find P ?ts) = Some i" for P
    using that by (auto dest: find_listed)
  have or: "or_else x y = Some i \<Longrightarrow> x = Some i \<or> y = Some i" for x y by (cases x) auto
  have "\<exists>t \<in> set ?ts. mt_id t = i" if "(case ?ts of [] \<Rightarrow> None | t # _ \<Rightarrow> Some (mt_id t)) = Some i"
    using that by (cases ?ts) auto
  then show ?thesis
    using assms found or unfolding selectDefaultAudioTrack_def Let_def by meson
qed

lemma audio_language_symmetric:
  "truthy (Some a) \<Longrightarrow> truthy (Some b) \<Longrightarrow> audioLanguageMatches (Some a) b \<longleftrightarrow> audioLanguageMatches (Some b) a"
  by (auto simp: audioLanguageMatches_def Let_def)

end
