(* ===== verification/RelayCredentials.thy ===== *)
theory RelayCredentials
  imports RelaySessions RelayMedia
begin

text \<open>
  Creation, deletion and recovery of sessions
  (\<^verbatim>\<open>packages/application/src/session-service.ts\<close>) with the credential a user-owned session is
  played with. The credential lives in the secret store, the session in the repository, and
  no transaction spans both: every call on either may fail before or after it took effect,
  and the process may crash there. \<open>call\<close> runs one call under such a fault; a handler numbers its
  calls and asks \<open>f k\<close> for the fault of the \<open>k\<close>-th.
\<close>

section \<open>Calls and faults\<close>

record session_world =
  sw_db :: db
  sw_secrets :: secret_store

datatype fault = Works | FailsBefore app_error | FailsAfter app_error | CrashesBefore | CrashesAfter

datatype 'a reply = Returned 'a | Raised app_error | Crashed

type_synonym ('s, 'a) handler = "'s \<Rightarrow> 's \<times> 'a reply"

type_synonym 'a action = "(session_world, 'a) handler"

fun reply_of :: "'a outcome \<Rightarrow> 'a reply" where
  "reply_of (Inl e) = Raised e"
| "reply_of (Inr x) = Returned x"

fun call :: "fault \<Rightarrow> ('s \<Rightarrow> 's \<times> 'a outcome) \<Rightarrow> ('s, 'a) handler" where
  "call Works m w = apsnd reply_of (m w)"
| "call (FailsBefore e) m w = (w, Raised e)"
| "call (FailsAfter e) m w = (fst (m w), Raised e)"
| "call CrashesBefore m w = (w, Crashed)"
| "call CrashesAfter m w = (fst (m w), Crashed)"

definition and_then :: "('s, 'a) handler \<Rightarrow> ('a \<Rightarrow> ('s, 'b) handler) \<Rightarrow> ('s, 'b) handler" where
  "and_then m k w =
     (case m w of
        (w', Returned x) \<Rightarrow> k x w'
      | (w', Raised e) \<Rightarrow> (w', Raised e)
      | (w', Crashed) \<Rightarrow> (w', Crashed))"

text \<open>A \<^verbatim>\<open>catch\<close> sees errors, not crashes; \<open>quietly\<close> is \<^verbatim>\<open>.catch(() => undefined)\<close>.\<close>

definition on_error :: "('s, 'a) handler \<Rightarrow> (app_error \<Rightarrow> ('s, 'a) handler) \<Rightarrow> ('s, 'a) handler" where
  "on_error m h w = (case m w of (w', Raised e) \<Rightarrow> h e w' | r \<Rightarrow> r)"

definition done_with :: "'a \<Rightarrow> ('s, 'a) handler" where
  "done_with x w = (w, Returned x)"

definition raise :: "app_error \<Rightarrow> ('s, 'a) handler" where
  "raise e w = (w, Raised e)"

definition quietly :: "('s, unit) handler \<Rightarrow> ('s, unit) handler" where
  "quietly m = on_error m (\<lambda>_. done_with ())"

definition on_db :: "(db \<Rightarrow> db \<times> 'a) \<Rightarrow> session_world \<Rightarrow> session_world \<times> 'a" where
  "on_db m w = (case m (sw_db w) of (d, x) \<Rightarrow> (w\<lparr>sw_db := d\<rparr>, x))"

definition on_secrets :: "(secret_store \<Rightarrow> secret_store) \<Rightarrow> session_world \<Rightarrow> session_world \<times> unit outcome" where
  "on_secrets m w = (w\<lparr>sw_secrets := m (sw_secrets w)\<rparr>, resolve ())"

definition write_db :: "(db \<Rightarrow> db) \<Rightarrow> session_world \<Rightarrow> session_world \<times> unit outcome" where
  "write_db m = on_db (\<lambda>d. (m d, resolve ()))"

definition read_db :: "(db \<Rightarrow> 'a) \<Rightarrow> session_world \<Rightarrow> session_world \<times> 'a outcome" where
  "read_db m = on_db (\<lambda>d. (d, resolve (m d)))"

section \<open>Pending credentials\<close>

definition PENDING_PREFIX :: string where
  "PENDING_PREFIX = ''session.sourceCredential.pending.''"

definition pendingKey :: "ident \<Rightarrow> string" where
  "pendingKey i = PENDING_PREFIX @ i"

text \<open>A session that is played with a credential of its own.\<close>

definition owned_vod :: "relay_session option \<Rightarrow> bool" where
  "owned_vod s \<longleftrightarrow> (case s of None \<Rightarrow> False | Some x \<Rightarrow> ses_kind x = Vod \<and> truthy (ses_ownerId x))"

definition reconcilePending :: "(nat \<Rightarrow> fault) \<Rightarrow> ident \<Rightarrow> unit action" where
  "reconcilePending f i =
     and_then (call (f 0) (read_db (\<lambda>d. getSession d i))) (\<lambda>s.
       and_then (if owned_vod s then done_with ()
                 else call (f 1) (on_secrets (\<lambda>st. secret_delete st (sessionSourceSecretRef i)))) (\<lambda>_.
         call (f 2) (write_db (\<lambda>d. deleteSetting d (pendingKey i)))))"

fun reconcile_all :: "(nat \<Rightarrow> nat \<Rightarrow> fault) \<Rightarrow> nat \<Rightarrow> (string \<times> string) list \<Rightarrow> unit action" where
  "reconcile_all f k [] = done_with ()"
| "reconcile_all f k ((key, v) # rs) =
     (let i = drop (length PENDING_PREFIX) key
      in if i = [] \<or> v \<noteq> sessionSourceSecretRef i then raise PlainError
         else and_then (reconcilePending (f k) i) (\<lambda>_. reconcile_all f (Suc k) rs))"

definition recoverPending :: "fault \<Rightarrow> (nat \<Rightarrow> nat \<Rightarrow> fault) \<Rightarrow> nat action" where
  "recoverPending f0 f =
     and_then (call f0 (read_db (\<lambda>d. listSettingsByPrefix d PENDING_PREFIX))) (\<lambda>records.
       and_then (reconcile_all f 0 records) (\<lambda>_. done_with (length records)))"

definition deleteSessionSourceCredential :: "(nat \<Rightarrow> fault) \<Rightarrow> ident \<Rightarrow> unit action" where
  "deleteSessionSourceCredential f i =
     and_then (call (f 0) (on_secrets (\<lambda>st. secret_delete st (sessionSourceSecretRef i)))) (\<lambda>_.
       call (f 1) (write_db (\<lambda>d. deleteSetting d (pendingKey i))))"

section \<open>Creation\<close>

datatype request_target = VodRequest media_source_ref | LiveRequest ident

record create_request =
  cr_target :: request_target
  cr_name :: "string option"
  cr_profileId :: ident
  cr_platformMode :: platform_mode
  cr_pinned :: bool
  cr_reportActivity :: bool
  cr_placementPolicy :: placement_policy
  cr_preferredNodeId :: "ident option"
  cr_placementLocked :: bool
  cr_preferredRegion :: "string option"
  cr_playbackTtlSeconds :: "int option"

definition valid_create_request :: "create_request \<Rightarrow> bool" where
  "valid_create_request r \<longleftrightarrow>
     optional (\<lambda>n. 1 \<le> length n \<and> length n \<le> 160) (cr_name r) \<and>
     optional (in_range 60 31536000) (cr_playbackTtlSeconds r) \<and>
     (case cr_target r of
        VodRequest src \<Rightarrow> valid_media_source_ref src
      | LiveRequest _ \<Rightarrow> cr_name r \<noteq> None \<and> \<not> cr_reportActivity r)"

record create_context =
  ctx_ownerId :: ident
  ctx_providerAccessToken :: "string option"
  ctx_providerUserId :: "ident option"

text \<open>
  What the service is configured with: hashes, the JSON text of a credential, the public
  URL, the item a provider answers, the gateway to the providers of other nodes and the item
  it answers, whether there is a cluster repository, and the id of this node.
\<close>

record session_platform =
  sp_hashToken :: "string \<Rightarrow> string"
  sp_stringify :: "string \<Rightarrow> ident \<Rightarrow> string"
  sp_publicUrl :: string
  sp_item :: "provider_connection \<Rightarrow> string \<Rightarrow> ident \<Rightarrow> media_item outcome"
  sp_gateway :: "(ident \<Rightarrow> bool) option"
  sp_remoteItem :: "ident \<Rightarrow> ident \<Rightarrow> ident \<Rightarrow> media_item outcome"
  sp_cluster :: bool
  sp_nodeId :: "ident option"

definition source_item ::
    "session_platform \<Rightarrow> create_context option \<Rightarrow> provider_connection \<Rightarrow> ident \<Rightarrow> session_world \<Rightarrow> media_item outcome" where
  "source_item pl context connection itemId w =
     (let sourceConnection = (case context of
            None \<Rightarrow> connection | Some c \<Rightarrow> connection\<lparr>prov_userId := ctx_providerUserId c\<rparr>);
          remoteNode = (if context \<noteq> None then None
            else remoteProviderNode (sp_gateway pl) (sp_cluster pl) (sp_nodeId pl) (sw_db w) (prov_id connection))
      in if truthy remoteNode then sp_remoteItem pl (the remoteNode) (prov_id connection) itemId
         else case (case Option.bind context ctx_providerAccessToken of
                      Some token \<Rightarrow> resolve token
                    | None \<Rightarrow> providerSecret (sp_cluster pl) (sw_db w) (sw_secrets w) connection) of
           Inl e \<Rightarrow> throw e
         | Inr secret \<Rightarrow> sp_item pl sourceConnection secret itemId)"

text \<open>The name, the duration and the source of a VOD session.\<close>

definition vod_source ::
    "session_platform \<Rightarrow> create_context option \<Rightarrow> create_request \<Rightarrow> profile \<Rightarrow> media_source_ref \<Rightarrow> session_world \<Rightarrow>
       (string \<times> rat \<times> media_source_ref) outcome" where
  "vod_source pl context input p src w =
     (case getProvider (sw_db w) (src_providerId src) of
        None \<Rightarrow> throw NotFoundError
      | Some connection \<Rightarrow>
          (case source_item pl context connection (src_itemId src) w of
             Inl e \<Rightarrow> throw e
           | Inr item \<Rightarrow>
               (case mi_durationSeconds item of
                  None \<Rightarrow> throw PlainError
                | Some t \<Rightarrow>
                    if t \<le> 0 then throw PlainError
                    else
                      let track = (if truthy (src_audioTrackId src) then None
                            else selectDefaultAudioTrack item (coalesce (aud_defaultLanguage (prof_audio p)) ''eng''))
                      in resolve (coalesce (cr_name input) (mi_name item), t,
                           if truthy track then src\<lparr>src_audioTrackId := track\<rparr> else src))))"

definition new_session ::
    "session_platform \<Rightarrow> create_context option \<Rightarrow> create_request \<Rightarrow> profile \<Rightarrow> ident \<Rightarrow> string \<Rightarrow> instant \<Rightarrow>
       string \<Rightarrow> rat option \<Rightarrow> media_source_ref option \<Rightarrow> relay_session" where
  "new_session pl context input p i token now name durationSeconds src =
     (let live = (case cr_target input of VodRequest _ \<Rightarrow> None | LiveRequest c \<Rightarrow> Some c)
      in \<lparr>ses_id = i, ses_name = name, ses_kind = (if live = None then Vod else Live), ses_source = src,
          ses_liveChannelId = live, ses_profileId = prof_profileId p, ses_platformMode = cr_platformMode input,
          ses_state = (if live = None then SessionIdle else SessionLive), ses_durationSeconds = durationSeconds,
          ses_pinned = cr_pinned input, ses_reportActivity = cr_reportActivity input, ses_viewers = 0,
          ses_placementPolicy = cr_placementPolicy input,
          ses_assignedNodeId = (if truthy (cr_preferredNodeId input) then cr_preferredNodeId input else None),
          ses_placementLocked = cr_placementLocked input,
          ses_preferredRegion = (if truthy (cr_preferredRegion input) then cr_preferredRegion input else None),
          ses_ownerId = map_option ctx_ownerId context, ses_lastPlaybackActivityAt = Some now,
          ses_deletionPending = False,
          ses_outputUrls = [(''primary'', sp_publicUrl pl @ ''/play/'' @ token @ ''/'' @
             (if live = None then ''index.m3u8'' else ''live.m3u8''))],
          ses_errorMessage = None, ses_createdAt = now, ses_updatedAt = now\<rparr>)"

definition new_grant :: "session_platform \<Rightarrow> create_request \<Rightarrow> ident \<Rightarrow> string \<Rightarrow> instant \<Rightarrow> instant \<Rightarrow> playback_grant" where
  "new_grant pl input i token now now' =
     \<lparr>grant_tokenHash = sp_hashToken pl token, grant_sessionId = i,
      grant_expiresAt = (case cr_playbackTtlSeconds input of
         None \<Rightarrow> None | Some ttl \<Rightarrow> if ttl = 0 then None else Some (now' + ttl * 1000)),
      grant_revokedAt = None, grant_createdAt = now\<rparr>"

text \<open>Everything before the first write of a VOD session; a live session claims its channel's profile.\<close>

definition prepare ::
    "session_platform \<Rightarrow> (nat \<Rightarrow> repo_op list) \<Rightarrow> ident \<Rightarrow> string \<Rightarrow> instant \<Rightarrow> create_context option \<Rightarrow>
       create_request \<Rightarrow> session_world \<Rightarrow> session_world \<times> (relay_session \<times> nat option) outcome" where
  "prepare pl env i token now context input w =
     (let vod = (case cr_target input of VodRequest _ \<Rightarrow> True | LiveRequest _ \<Rightarrow> False)
      in if vod \<and> (case context of None \<Rightarrow> False
              | Some c \<Rightarrow> \<not> truthy (ctx_providerAccessToken c) \<or> \<not> truthy (ctx_providerUserId c))
         then (w, throw ConflictError)
         else case getProfile (sw_db w) (cr_profileId input) of
           None \<Rightarrow> (w, throw NotFoundError)
         | Some p \<Rightarrow>
             (case cr_target input of
                VodRequest src \<Rightarrow>
                  (case vod_source pl context input p src w of
                     Inl e \<Rightarrow> (w, throw e)
                   | Inr (name, t, src') \<Rightarrow>
                       (w, resolve (new_session pl context input p i token now name (Some t) (Some src'), None)))
              | LiveRequest c \<Rightarrow>
                  if del_method (prof_delivery p) \<noteq> Hls \<or> del_playlistType (prof_delivery p) \<noteq> PlaylistLive
                  then (w, throw ConflictError)
                  else (case claimLiveNormalizationProfile env c (prof_profileId p) (sw_db w) of
                    (d, Inl e) \<Rightarrow> (w\<lparr>sw_db := d\<rparr>, throw e)
                  | (d, Inr revision) \<Rightarrow>
                      (w\<lparr>sw_db := d\<rparr>,
                       resolve (new_session pl context input p i token now
                         (coalesce (cr_name input) ''Untitled relay'') None None, Some revision)))))"

definition creation_error :: "failure_reason \<Rightarrow> app_error" where
  "creation_error reason = (if reason = NotFound then NotFoundError else ConflictError)"

text \<open>
  \<open>g\<close> gives the faults of the reconciliation. \<open>other\<close> is what another process does just before
  the session is stored.
\<close>

definition create_owned ::
    "(nat \<Rightarrow> fault) \<Rightarrow> (nat \<Rightarrow> fault) \<Rightarrow> (session_world \<Rightarrow> session_world) \<Rightarrow> (string \<times> instant) option \<Rightarrow>
       relay_session \<Rightarrow> playback_grant \<Rightarrow> nat option \<Rightarrow> relay_session action" where
  "create_owned f g other credential s grant revision =
     (let i = ses_id s;
          reconcile = (if credential = None then done_with () else quietly (reconcilePending g i))
      in and_then
           (case credential of
              None \<Rightarrow> done_with ()
            | Some (text, now) \<Rightarrow>
                and_then (call (f 1) (write_db (\<lambda>d. putSetting d (pendingKey i) (sessionSourceSecretRef i) now))) (\<lambda>_.
                  on_error (call (f 2) (on_secrets (\<lambda>st. secret_put st (sessionSourceSecretRef i) text)))
                    (\<lambda>e. and_then reconcile (\<lambda>_. raise e)))) (\<lambda>_.
         and_then
           (on_error (call (f 3) (on_db (\<lambda>d. createSessionWithPlaybackGrant d s grant revision) \<circ> other))
              (\<lambda>e. and_then reconcile (\<lambda>_. raise e))) (\<lambda>created.
         (case created of
            Rejected reason _ _ \<Rightarrow> and_then reconcile (\<lambda>_. raise (creation_error reason))
          | Applied _ \<Rightarrow>
              and_then
                (if credential = None then done_with ()
                 else quietly (call (f 4) (write_db (\<lambda>d. deleteSetting d (pendingKey i))))) (\<lambda>_.
              done_with s)))))"

definition create ::
    "(nat \<Rightarrow> fault) \<Rightarrow> (nat \<Rightarrow> fault) \<Rightarrow> (session_world \<Rightarrow> session_world) \<Rightarrow> session_platform \<Rightarrow>
       (nat \<Rightarrow> repo_op list) \<Rightarrow> ident \<Rightarrow> string \<Rightarrow> (nat \<Rightarrow> instant) \<Rightarrow> create_context option \<Rightarrow>
       create_request \<Rightarrow> relay_session action" where
  "create f g other pl env i token clock context input =
     and_then (call (f 0) (prepare pl env i token (clock 0) context input)) (\<lambda>(s, revision).
       create_owned f g other
         (case (context, cr_target input) of
            (Some c, VodRequest _) \<Rightarrow>
              Some (sp_stringify pl (the (ctx_providerAccessToken c)) (the (ctx_providerUserId c)), clock 2)
          | _ \<Rightarrow> None)
         s (new_grant pl input i token (clock 0) (clock 1)) revision)"

section \<open>Deletion and recovery\<close>

text \<open>
  \<open>stop\<close> are the writes of the producer coordinator when it stops the producer, \<open>f 6\<close> the
  removal of the cached files.
\<close>

definition finalizeSessionDeletion ::
    "(nat \<Rightarrow> fault) \<Rightarrow> repo_op list \<Rightarrow> instant \<Rightarrow> relay_session \<Rightarrow> unit action" where
  "finalizeSessionDeletion f stop now s =
     and_then (call (f 0) (write_db (run_ops stop))) (\<lambda>_.
     and_then (if truthy (ses_ownerId s) then deleteSessionSourceCredential (\<lambda>k. f (k + 3)) (ses_id s)
               else done_with ()) (\<lambda>_.
     and_then (call (f 5) (write_db (\<lambda>d. deleteSessionAndRevokePlaybackGrants d (ses_id s) now))) (\<lambda>_.
     call (f 6) (\<lambda>w. (w, resolve ())))))"

text \<open>\<^verbatim>\<open>delete\<close> is \<^verbatim>\<open>delete\<close> of the service.\<close>

definition deleteSession ::
    "(nat \<Rightarrow> fault) \<Rightarrow> repo_op list \<Rightarrow> (nat \<Rightarrow> instant) \<Rightarrow> ident \<Rightarrow> unit action" where
  "deleteSession f stop clock i =
     and_then (call (f 1) (read_db (\<lambda>d. getSession d i))) (\<lambda>found.
       case found of
         None \<Rightarrow> raise NotFoundError
       | Some s \<Rightarrow>
           if ses_deletionPending s then finalizeSessionDeletion f stop (clock 1) s
           else and_then (call (f 2) (on_db (\<lambda>d. beginSessionDeletion d i
                    \<lparr>sdo_observedAt = clock 0, sdo_inactiveBefore = None, sdo_requireUnpinned = False\<rparr>))) (\<lambda>begun.
             case begun of
               Rejected reason _ _ \<Rightarrow> raise (if reason = NotFound then NotFoundError else ConflictError)
             | Applied c \<Rightarrow> finalizeSessionDeletion f stop (clock 1) (vr_value c)))"

definition deleteIfInactive ::
    "(nat \<Rightarrow> fault) \<Rightarrow> repo_op list \<Rightarrow> (nat \<Rightarrow> instant) \<Rightarrow> instant \<Rightarrow> ident \<Rightarrow> bool action" where
  "deleteIfInactive f stop clock inactiveBefore i =
     and_then (call (f 2) (on_db (\<lambda>d. beginSessionDeletion d i
                \<lparr>sdo_observedAt = clock 0, sdo_inactiveBefore = Some inactiveBefore, sdo_requireUnpinned = True\<rparr>))) (\<lambda>begun.
       case begun of
         Rejected reason _ _ \<Rightarrow>
           if reason = NotFound \<or> reason = InvalidState then done_with False else raise ConflictError
       | Applied c \<Rightarrow>
           and_then (finalizeSessionDeletion f stop (clock 1) (vr_value c)) (\<lambda>_. done_with True))"

fun finalize_all ::
    "(nat \<Rightarrow> nat \<Rightarrow> fault) \<Rightarrow> (nat \<Rightarrow> repo_op list) \<Rightarrow> instant \<Rightarrow> nat \<Rightarrow> relay_session list \<Rightarrow> unit action" where
  "finalize_all f stop now k [] = done_with ()"
| "finalize_all f stop now k (s # ss) =
     and_then (finalizeSessionDeletion (f k) (stop k) now s) (\<lambda>_. finalize_all f stop now (Suc k) ss)"

text \<open>\<^verbatim>\<open>recover\<close> up to the jobs and the producers.\<close>

definition recoverSessions ::
    "fault \<Rightarrow> fault \<Rightarrow> (nat \<Rightarrow> nat \<Rightarrow> fault) \<Rightarrow> (nat \<Rightarrow> nat \<Rightarrow> fault) \<Rightarrow> fault \<Rightarrow> playback_options \<Rightarrow>
       (nat \<Rightarrow> repo_op list) \<Rightarrow> (nat \<Rightarrow> nat \<Rightarrow> repo_op list) \<Rightarrow> (nat \<Rightarrow> nat \<Rightarrow> instant) \<Rightarrow> instant \<Rightarrow> nat action" where
  "recoverSessions f0 f1 fp fd fr opts stop env clock now =
     and_then (if RoleController \<in> set (coalesce (po_roles opts) [RoleController]) then recoverPending f0 fp
               else done_with 0) (\<lambda>n.
     and_then (call f1 (read_db (\<lambda>d. listSessionDeletionPending d 100))) (\<lambda>pending.
     and_then (finalize_all fd stop now 0 pending) (\<lambda>_.
     and_then (call fr (on_db (\<lambda>d. reset_sessions env clock 0 (listSessions d) d))) (\<lambda>m.
     done_with (n + length pending + m)))))"

end
