(* ===== verification/RelayCrashFacts.thy ===== *)
theory RelayCrashFacts
  imports RelayCredentials
begin

text \<open>
  A logic for handlers whose calls may fail or crash, and what each operation of a session does to
  the sessions and the settings, which is all the credentials depend on.
\<close>

section \<open>A logic of calls\<close>

text \<open>
  From a world with \<open>P\<close> the handler returns a value \<open>x\<close> in a world with \<open>Q x\<close>, or raises or crashes in a
  world with \<open>E\<close>. With \<open>E\<close> empty it returns.
\<close>

definition runs ::
    "('s \<Rightarrow> bool) \<Rightarrow> ('s, 'a) handler \<Rightarrow> ('a \<Rightarrow> 's \<Rightarrow> bool) \<Rightarrow> ('s \<Rightarrow> bool) \<Rightarrow> bool" where
  "runs P m Q E \<longleftrightarrow> (\<forall>w. P w \<longrightarrow> (case m w of (w', Returned x) \<Rightarrow> Q x w' | (w', _) \<Rightarrow> E w'))"

lemma runs_and_then:
  assumes "runs P m Q E" and "\<And>x. runs (Q x) (k x) R E"
  shows "runs P (and_then m k) R E"
  using assms unfolding runs_def and_then_def by (fastforce split: prod.splits reply.splits)

lemma runs_on_error:
  assumes "runs P m Q E'" and "\<And>e. runs E' (h e) Q E" and "\<And>w. E' w \<Longrightarrow> E w"
  shows "runs P (on_error m h) Q E"
  using assms unfolding runs_def on_error_def by (fastforce split: prod.splits reply.splits)

lemma runs_quietly:
  assumes "runs P m (\<lambda>_. E) E"
  shows "runs P (quietly m) (\<lambda>_. E) E"
  unfolding quietly_def by (rule runs_on_error[OF assms]) (auto simp: runs_def done_with_def)

lemma runs_done: "(\<And>w. P w \<Longrightarrow> Q x w) \<Longrightarrow> runs P (done_with x) Q E"
  by (simp add: runs_def done_with_def)

lemma runs_raise: "(\<And>w. P w \<Longrightarrow> E w) \<Longrightarrow> runs P (raise e) Q E"
  by (simp add: runs_def raise_def)

lemma runs_weaken:
  "runs P m Q E \<Longrightarrow> (\<And>w. P' w \<Longrightarrow> P w) \<Longrightarrow> (\<And>x w. Q x w \<Longrightarrow> Q' x w) \<Longrightarrow> (\<And>w. E w \<Longrightarrow> E' w) \<Longrightarrow> runs P' m Q' E'"
  unfolding runs_def by (fastforce split: prod.splits reply.splits)

lemma runs_pre: "runs P m Q E \<Longrightarrow> (\<And>w. P' w \<Longrightarrow> P w) \<Longrightarrow> runs P' m Q E"
  by (rule runs_weaken)

text \<open>A call under any fault; a call that works.\<close>

lemma runs_call:
  assumes "\<And>w. P w \<Longrightarrow> E w" and "\<And>w. P w \<Longrightarrow> E (fst (m w))"
    and "\<And>w x. P w \<Longrightarrow> snd (m w) = Inr x \<Longrightarrow> Q x (fst (m w))"
  shows "runs P (call f m) Q E"
  unfolding runs_def
proof (intro allI impI)
  fix w
  assume w: "P w"
  show "case call f m w of (w', Returned x) \<Rightarrow> Q x w' | (w', _) \<Rightarrow> E w'"
  proof (cases f)
    case Works
    then show ?thesis using assms w by (cases "m w"; cases "snd (m w)") (fastforce simp: apsnd_def)+
  qed (use assms w in \<open>auto simp: case_prod_beta\<close>)
qed

lemma runs_works:
  assumes "\<And>w. P w \<Longrightarrow> \<exists>x. snd (m w) = Inr x \<and> Q x (fst (m w))"
  shows "runs P (call Works m) Q E"
  unfolding runs_def
proof (intro allI impI)
  fix w
  assume "P w"
  from assms[OF this] obtain x where "snd (m w) = Inr x" "Q x (fst (m w))" by blast
  then show "case call Works m w of (w', Returned x) \<Rightarrow> Q x w' | (w', _) \<Rightarrow> E w'"
    by (cases "m w") simp
qed

lemma world_ops:
  "sw_db (fst (on_db m w)) = fst (m (sw_db w))" "sw_secrets (fst (on_db m w)) = sw_secrets w"
  "snd (on_db m w) = snd (m (sw_db w))"
  "sw_db (fst (write_db n w)) = n (sw_db w)" "sw_secrets (fst (write_db n w)) = sw_secrets w"
  "snd (write_db n w) = resolve ()"
  "fst (read_db q w) = w" "snd (read_db q w) = resolve (q (sw_db w))"
  "sw_db (fst (on_secrets c w)) = sw_db w" "sw_secrets (fst (on_secrets c w)) = c (sw_secrets w)"
  "snd (on_secrets c w) = resolve ()"
  by (simp_all add: on_db_def write_db_def read_db_def on_secrets_def case_prod_beta)

section \<open>Sessions and settings\<close>

definition db_ok :: "db \<Rightarrow> bool" where
  "db_ok d \<longleftrightarrow> keys_unique d \<and> sessions_named d"

lemma db_ok_exec: "db_ok d \<Longrightarrow> db_ok (exec_op x d)"
  by (simp add: db_ok_def keys_unique_exec sessions_named_exec)

lemma db_ok_run: "db_ok d \<Longrightarrow> db_ok (run_ops xs d)"
  by (rule run_ops_invariant) (auto intro: db_ok_exec)

lemma db_ok_id: "db_ok d \<Longrightarrow> getSession d i = Some s \<Longrightarrow> ses_id s = i"
  by (auto simp: db_ok_def sessions_named_def getSession_def get_json_def)

text \<open>The writes of others that concern neither sessions nor settings.\<close>

fun bystander :: "repo_op \<Rightarrow> bool" where
  "bystander (SessionOp _) = False"
| "bystander (SettingOp _) = False"
| "bystander _ = True"

lemma bystander_settings: "bystander x \<Longrightarrow> db_settings (exec_op x d) = db_settings d"
proof (cases x)
  case (CatalogOp y)
  then show ?thesis
    by (cases y) (simp_all add: createProvider_def compareAndSetProvider_def beginProviderDeletion_def
      finalizeProviderDeletion_def putProfile_def deleteProfile_def Let_def case_prod_beta split: option.split)
next
  case (ChannelOp y)
  then show ?thesis
    by (cases y) (simp_all add: createLiveChannel_def createLiveChannelWithinCapacity_def
      compareAndSetLiveChannel_def deleteLiveChannel_def Let_def case_prod_beta split: option.split)
next
  case (AccessOp y)
  then show ?thesis
    by (cases y) (simp_all add: putPersonalToken_def usePersonalToken_def revokePersonalToken_def
      createUserIdentity_def compareAndSetUserIdentity_def compareAndSetUserIdentityPreservingOwner_def
      deleteUserIdentityPreservingOwner_def Let_def case_prod_beta split: option.split)
next
  case (NodeOp y)
  then show ?thesis
    by (cases y) (auto simp: createNode_def putNodeCertificate_def ensureLocalNode_def cas_node_def
      recordNodeHeartbeat_def setNodeDrain_def setNodeOperationalState_def removeNode_def
      rotateNodeCertificate_def revokeNode_def revokeNodeCertificates_def revoke_bindings_of_def
      Let_def case_prod_beta split: option.split write_result.split)
next
  case (JobOp y)
  then show ?thesis
    by (cases y) (simp_all add: createSegmentJob_def compareAndSetSegmentJob_def completeSegmentJob_def
      cancelSegmentJob_def createVodProducer_def compareAndSetVodProducer_def Let_def case_prod_beta
      split: option.split)
next
  case (BindingOp y)
  then show ?thesis
    by (cases y) (simp_all add: createProviderBinding_def insert_binding_def
      compareAndSetProviderBinding_def beginProviderBindingDeletion_def
      finalizeProviderBindingDeletion_def Let_def case_prod_beta split: option.split)
next
  case (LogOp y)
  then show ?thesis by (cases y) (simp_all add: putAgentLog_def putJobLog_def)
qed simp_all

lemma bystander_sessions: "bystander x \<Longrightarrow> db_sessions (exec_op x d) = db_sessions d"
  by (cases x) (simp_all add: frames)

lemma bystanders:
  "\<forall>x \<in> set xs. bystander x \<Longrightarrow>
     db_sessions (run_ops xs d) = db_sessions d \<and> db_settings (run_ops xs d) = db_settings d"
  by (induction xs arbitrary: d) (simp_all add: bystander_settings bystander_sessions)

lemma setting_view:
  "getSetting (putSetting d k v t) j = (if j = k then Some v else getSetting d j)"
  "getSession (putSetting d k v t) i = getSession d i"
  "getSession (deleteSetting d k) i = getSession d i"
  by (auto simp: putSetting_def deleteSetting_def getSetting_def getSession_def get_json_def map_of_sql_upsert
      fresh_row_def split: option.split)

lemma delete_setting_view:
  "db_ok d \<Longrightarrow> getSetting (deleteSetting d k) j = (if j = k then None else getSetting d j)"
  by (auto simp: db_ok_def deleteSetting_def getSetting_def get_json_def map_of_sql_delete[OF keys_uniqueD(11)]
      split: option.split)

lemma session_settings: "db_settings (exec_session_op x d) = db_settings d"
  by (cases x) (auto simp: createSessionWithPlaybackGrant_def insert_session_and_grant_def
      compareAndSetSession_def setSessionViewers_def touchSessionPlaybackActivity_def
      beginSessionDeletion_def revokePlaybackGrants_def deleteSessionAndRevokePlaybackGrants_def
      Let_def case_prod_beta split: option.split session_kind.split)

lemma session_op_settings: "getSetting (exec_session_op x d) k = getSetting d k"
  by (simp add: getSetting_def session_settings)

lemma create_view:
  "getSession (fst (createSessionWithPlaybackGrant d s g q)) j = getSession d j \<or>
     j = ses_id s \<and> getSession (fst (createSessionWithPlaybackGrant d s g q)) j = Some s \<and> getSession d j = None"
proof (cases rule: create_session_cases[of d s g q])
  case unchanged
  then show ?thesis by simp
next
  case inserted
  then show ?thesis unfolding inserted(1)
    by (auto simp: insert_session_and_grant_def getSession_def get_json_def sql_insert_Some map_of_snoc fresh_row_def
        split: option.split)
qed

lemma created_view:
  assumes "snd (createSessionWithPlaybackGrant d s g q) = resolve (Applied c)"
  shows "getSession (fst (createSessionWithPlaybackGrant d s g q)) (ses_id s) = Some s"
proof -
  have "snd (insert_session_and_grant d s g) = resolve (Applied c) \<and>
      createSessionWithPlaybackGrant d s g q = insert_session_and_grant d s g"
    using assms
    by (auto simp: createSessionWithPlaybackGrant_def get_versioned_def split: if_splits option.splits session_kind.splits)
  then show ?thesis
    by (auto simp: insert_session_and_grant_def getSession_def get_json_def sql_insert_Some map_of_snoc fresh_row_def
        split: option.splits)
qed

lemma delete_view:
  "db_ok d \<Longrightarrow> getSession (deleteSessionAndRevokePlaybackGrants d i t) j = (if j = i then None else getSession d j)"
  by (auto simp: db_ok_def deleteSessionAndRevokePlaybackGrants_def revokePlaybackGrants_def getSession_def get_json_def
      Let_def map_of_sql_delete[OF keys_uniqueD(2)] split: option.split)

definition begun :: "instant \<Rightarrow> relay_session \<Rightarrow> relay_session" where
  "begun t s = s\<lparr>ses_state := SessionStopped, ses_deletionPending := True, ses_updatedAt := t\<rparr>"

lemma begin_view:
  "getSession (fst (beginSessionDeletion d i opts)) j = getSession d j \<or>
     j = i \<and> getSession (fst (beginSessionDeletion d i opts)) j = map_option (begun (sdo_observedAt opts)) (getSession d j)"
proof (cases "map_of (db_sessions d) j")
  case None
  then show ?thesis
    by (simp add: beginSessionDeletion_def revokePlaybackGrants_def getVersionedSession_def get_versioned_def
      getSession_def get_json_def Let_def case_prod_beta map_of_sql_update split: option.split)
next
  case (Some r)
  show ?thesis
  proof (cases "j = i")
    case True
    then show ?thesis using Some
      by (simp add: beginSessionDeletion_def revokePlaybackGrants_def getVersionedSession_def get_versioned_def
        getSession_def get_json_def Let_def case_prod_beta map_of_sql_update begun_def split: option.split)
  next
    case False
    then show ?thesis using Some
      by (simp add: beginSessionDeletion_def revokePlaybackGrants_def getVersionedSession_def get_versioned_def
        getSession_def get_json_def Let_def case_prod_beta map_of_sql_update split: option.split)
  qed
qed

lemma begun_view:
  assumes "snd (beginSessionDeletion d i opts) = resolve (Applied c)"
  shows "getSession (fst (beginSessionDeletion d i opts)) i = Some (vr_value c) \<and> ses_deletionPending (vr_value c)"
  using assms
  by (auto simp: beginSessionDeletion_def revokePlaybackGrants_def getVersionedSession_def get_versioned_def
      getSession_def get_json_def Let_def case_prod_beta map_of_sql_update split: option.splits if_splits)

section \<open>Writes that leave the credentials alone\<close>

definition credential_view :: "db \<Rightarrow> ident \<Rightarrow> (session_kind \<times> ident option \<times> bool) option" where
  "credential_view d i = map_option (\<lambda>s. (ses_kind s, ses_ownerId s, ses_deletionPending s)) (getSession d i)"

definition unaffecting :: "db \<Rightarrow> db \<Rightarrow> bool" where
  "unaffecting d d' \<longleftrightarrow> (db_ok d \<longrightarrow> db_ok d' \<and> getSetting d' = getSetting d \<and> credential_view d' = credential_view d)"

lemma quiet_refl [simp]: "unaffecting d d"
  by (simp add: unaffecting_def)

lemma quiet_trans: "unaffecting d d' \<Longrightarrow> unaffecting d' d'' \<Longrightarrow> unaffecting d d''"
  by (simp add: unaffecting_def)

lemma quiet_bystanders: "\<forall>x \<in> set xs. bystander x \<Longrightarrow> unaffecting d (run_ops xs d)"
  using bystanders[of xs d]
  by (auto simp: unaffecting_def db_ok_run getSetting_def getSession_def credential_view_def fun_eq_iff)

lemma service_change_view:
  "service_change u \<Longrightarrow> u s t = resolve (Some s') \<Longrightarrow>
     ses_id s' = ses_id s \<and> ses_kind s' = ses_kind s \<and> ses_ownerId s' = ses_ownerId s \<and>
     ses_deletionPending s' = ses_deletionPending s"
  unfolding service_change_def
  by (auto simp: recover_change_def worker_change_def control_change_def split: if_splits)

text \<open>The write of an update is based on the state of the same revision.\<close>

lemma quiet_cas:
  assumes "service_change u" and "u (vr_value c) t = resolve (Some s)"
    and read: "getVersionedSession d i = Some c"
  shows "unaffecting d (fst (compareAndSetSession d s (vr_revision c)))"
  unfolding unaffecting_def
proof (intro impI conjI)
  assume ok: "db_ok d"
  let ?d' = "fst (compareAndSetSession d s (vr_revision c))"
  from read obtain r where r: "map_of (db_sessions d) i = Some r" "c = versioned (row_json r) (row_revision r)"
    by (auto simp: getVersionedSession_def get_versioned_Some)
  have view: "ses_id s = i" "ses_kind s = ses_kind (row_json r)" "ses_ownerId s = ses_ownerId (row_json r)"
      "ses_deletionPending s = ses_deletionPending (row_json r)"
    using service_change_view[OF assms(1,2)] ok r by (auto simp: db_ok_def sessions_named_def)
  show "db_ok ?d'" using db_ok_exec[OF ok, of "SessionOp (OpCasSession s (vr_revision c))"] by simp
  show "getSetting ?d' = getSetting d"
    using session_op_settings[of "OpCasSession s (vr_revision c)" d] by (auto simp: fun_eq_iff)
  show "credential_view ?d' = credential_view d"
    using view r
    by (auto simp: fun_eq_iff credential_view_def getSession_def get_json_def cas_session_row split: option.split)
qed

lemma getVersionedSession_same: "db_sessions d' = db_sessions d \<Longrightarrow> getVersionedSession d' i = getVersionedSession d i"
  by (simp add: getVersionedSession_def)

lemma quiet_update_attempt:
  assumes u: "service_change u" and env: "\<And>k. \<forall>x \<in> set (env k). bystander x"
  shows "unaffecting d (fst (update_attempt env clock u allowMissing i k d))"
proof -
  let ?d1 = "run_ops (env (2 * k)) d"
  let ?d2 = "run_ops (env (2 * k + 1)) ?d1"
  have d1: "unaffecting d ?d1" by (rule quiet_bystanders[OF env])
  show ?thesis
  proof (cases "getVersionedSession ?d1 i")
    case None
    then show ?thesis using d1 by (simp add: update_attempt_def)
  next
    case (Some c)
    show ?thesis
    proof (cases "\<exists>s. u (vr_value c) (clock k) = resolve (Some s)")
      case False
      then have "fst (update_attempt env clock u allowMissing i k d) = ?d1"
        using Some by (auto simp: update_attempt_def Let_def split: sum.split option.split)
      then show ?thesis using d1 by simp
    next
      case True
      then obtain s where s: "u (vr_value c) (clock k) = resolve (Some s)" by blast
      have "getVersionedSession ?d2 i = Some c"
        using Some getVersionedSession_same[of ?d2 ?d1 i] bystanders[OF env[of "2 * k + 1"], of ?d1] by simp
      note cas = quiet_cas[OF u s this]
      have "fst (update_attempt env clock u allowMissing i k d) = fst (compareAndSetSession ?d2 s (vr_revision c))"
        using Some s by (simp add: update_attempt_def Let_def split: prod.split write_result.split)
      then show ?thesis using quiet_trans[OF d1 quiet_trans[OF quiet_bystanders[OF env[of "2 * k + 1"], of ?d1] cas]] by simp
    qed
  qed
qed

lemma quiet_update:
  assumes "service_change u" and "\<And>k. \<forall>x \<in> set (env k). bystander x"
  shows "unaffecting d (fst (updateSession env clock u allowMissing i d))"
  unfolding updateSession_def
  by (rule retry_rel[where R = unaffecting])
    (rule quiet_update_attempt[where env = env, OF assms], simp, rule quiet_trans)

lemma quiet_reset:
  assumes "\<And>k j. \<forall>x \<in> set (env k j). bystander x"
  shows "unaffecting d (fst (reset_sessions env clock k ss d))"
proof (induction ss arbitrary: k d)
  case Nil
  then show ?case by simp
next
  case (Cons s ss)
  have recover: "service_change recover_change" by (simp add: service_change_def)
  show ?case
  proof (cases "ses_state s \<in> {SessionQueued, SessionStarting, SessionActive}")
    case False
    then have "reset_sessions env clock k (s # ss) d = reset_sessions env clock (Suc k) ss d" by (simp only: reset_sessions.simps if_False)
    then show ?thesis using Cons.IH by metis
  next
    case True
    obtain d' r where u: "updateSession (env k) (clock k) recover_change True (ses_id s) d = (d', r)" by fastforce
    have q: "unaffecting d d'" using quiet_update[where env = "env k", OF recover assms, where d = d] u by (metis fst_conv)
    obtain d'' r' where rest: "reset_sessions env clock (Suc k) ss d' = (d'', r')" by fastforce
    have "unaffecting d' d''" using Cons.IH[where d = d' and k = "Suc k"] rest by simp
    then have "unaffecting d d''" using q quiet_trans by blast
    moreover have "fst (reset_sessions env clock k (s # ss) d) \<in> {d', d''}"
      using True u rest by (cases r; cases r') simp_all
    ultimately show ?thesis using q by auto
  qed
qed

lemma cas_channel_quiet: "unaffecting d (fst (compareAndSetLiveChannel d c e))"
  using quiet_bystanders[of "[ChannelOp (OpCasLiveChannel c e)]" d] by simp

lemma quiet_claim:
  assumes "\<And>k. \<forall>x \<in> set (env k). bystander x"
  shows "unaffecting d (fst (claimLiveNormalizationProfile env c p d))"
proof -
  let ?body = "claim_attempt env c p"
  have step: "unaffecting (fst w) (fst (fst (?body j w)))" for j w
  proof -
    obtain v stored where w: "w = (v, stored)" by (cases w)
    let ?new = "(vr_value stored)\<lparr>chan_normalizationProfileId := Some p\<rparr>"
    let ?v1 = "fst (compareAndSetLiveChannel (run_ops (env (2 * j)) v) ?new (vr_revision stored))"
    have v1: "unaffecting v ?v1" using quiet_trans[OF quiet_bystanders[OF assms] cas_channel_quiet] .
    have v2: "unaffecting v (run_ops (env (2 * j + 1)) ?v1)" using quiet_trans[OF v1 quiet_bystanders[OF assms]] .
    have "fst (fst (?body j w)) \<in> {v, ?v1, run_ops (env (2 * j + 1)) ?v1}"
      by (auto simp: w claim_attempt_def Let_def split: prod.splits write_result.split option.split)
    then show ?thesis using v1 v2 w by auto
  qed
  have "unaffecting (fst w) (fst (fst (retry 0 SESSION_WRITE_ATTEMPTS ?body ex w)))" for w ex
    by (rule retry_rel[where R = "\<lambda>w w'. unaffecting (fst w) (fst w')"]) (rule step, simp, rule quiet_trans)
  note run = this
  show ?thesis
  proof (cases "getVersionedLiveChannel d c")
    case (Some stored)
    then show ?thesis using run[of "(d, stored)" "throw ConflictError"]
      by (simp add: claimLiveNormalizationProfile_def)
  qed (simp add: claimLiveNormalizationProfile_def)
qed

end
