(* ===== verification/RelayCrashSafety.thy ===== *)
theory RelayCrashSafety
  imports RelayCrashFacts
begin

text \<open>
  The credentials of user-owned sessions survive faults: an invariant that every call of a
  handler keeps wherever the handler stops.
\<close>

section \<open>The invariant\<close>

definition marked :: "db \<Rightarrow> ident \<Rightarrow> bool" where
  "marked d i \<longleftrightarrow> getSetting d (pendingKey i) \<noteq> None"

definition has_secret :: "session_world \<Rightarrow> ident \<Rightarrow> bool" where
  "has_secret w i \<longleftrightarrow> sw_secrets w (sessionSourceSecretRef i) \<noteq> None"

definition owned :: "db \<Rightarrow> ident \<Rightarrow> bool" where
  "owned d i \<longleftrightarrow> owned_vod (getSession d i)"

definition deleting :: "db \<Rightarrow> ident \<Rightarrow> bool" where
  "deleting d i \<longleftrightarrow> (case getSession d i of None \<Rightarrow> False | Some s \<Rightarrow> ses_deletionPending s)"

definition pending_setting :: "string \<Rightarrow> bool" where
  "pending_setting k \<longleftrightarrow> starts_with (map ascii_lower PENDING_PREFIX) (map ascii_lower k)"

definition markers_ok :: "db \<Rightarrow> bool" where
  "markers_ok d \<longleftrightarrow>
     (\<forall>k v. getSetting d k = Some v \<longrightarrow> pending_setting k \<longrightarrow>
        (\<exists>i. i \<noteq> [] \<and> k = pendingKey i \<and> v = sessionSourceSecretRef i))"

text \<open>A secret belongs to an owned session or is marked; an owned session has its secret unless it is being deleted.\<close>

definition credentials_ok :: "session_world \<Rightarrow> bool" where
  "credentials_ok w \<longleftrightarrow>
     db_ok (sw_db w) \<and> markers_ok (sw_db w) \<and>
     (\<forall>i. has_secret w i \<longrightarrow> owned (sw_db w) i \<or> marked (sw_db w) i) \<and>
     (\<forall>i. owned (sw_db w) i \<longrightarrow> \<not> deleting (sw_db w) i \<longrightarrow> has_secret w i)"

lemma pendingKey_inject [simp]: "pendingKey i = pendingKey j \<longleftrightarrow> i = j"
  by (simp add: pendingKey_def)

lemma secretRef_inject [simp]: "sessionSourceSecretRef i = sessionSourceSecretRef j \<longleftrightarrow> i = j"
  by (simp add: sessionSourceSecretRef_def)

lemma view_owned:
  "credential_view d' = credential_view d \<Longrightarrow> owned d' i = owned d i \<and> deleting d' i = deleting d i"
  by (drule fun_cong[of _ _ i])
    (auto simp: credential_view_def owned_def owned_vod_def deleting_def split: option.splits)

lemma quiet_credentials:
  assumes "credentials_ok w" and "unaffecting (sw_db w) d"
  shows "credentials_ok (w\<lparr>sw_db := d\<rparr>)"
  using assms view_owned[of d "sw_db w"]
  unfolding credentials_ok_def unaffecting_def markers_ok_def marked_def has_secret_def by simp

text \<open>One write each.\<close>

lemma mark_session:
  assumes "credentials_ok w" and "i \<noteq> []"
  shows "credentials_ok (w\<lparr>sw_db := putSetting (sw_db w) (pendingKey i) (sessionSourceSecretRef i) t\<rparr>) \<and>
     marked (putSetting (sw_db w) (pendingKey i) (sessionSourceSecretRef i) t) i"
proof -
  let ?d = "putSetting (sw_db w) (pendingKey i) (sessionSourceSecretRef i) t"
  have "db_ok ?d" using db_ok_exec[of "sw_db w" "SettingOp (OpPutSetting (pendingKey i) (sessionSourceSecretRef i) t)"] assms(1)
    by (simp add: credentials_ok_def)
  moreover have "markers_ok ?d" using assms unfolding credentials_ok_def markers_ok_def by (auto simp: setting_view)
  ultimately show ?thesis using assms(1)
    by (auto simp: credentials_ok_def marked_def has_secret_def owned_def deleting_def setting_view)
qed

lemma store_secret:
  assumes "credentials_ok w" and "marked (sw_db w) i"
  shows "credentials_ok (w\<lparr>sw_secrets := secret_put (sw_secrets w) (sessionSourceSecretRef i) v\<rparr>)"
  using assms by (auto simp: credentials_ok_def has_secret_def secret_put_def)

lemma forget_secret:
  assumes "credentials_ok w" and "owned (sw_db w) i \<longrightarrow> deleting (sw_db w) i"
  shows "credentials_ok (w\<lparr>sw_secrets := secret_delete (sw_secrets w) (sessionSourceSecretRef i)\<rparr>)"
  using assms by (auto simp: credentials_ok_def has_secret_def secret_delete_def)

lemma forgotten [simp]:
  "\<not> has_secret (w\<lparr>sw_secrets := secret_delete (sw_secrets w) (sessionSourceSecretRef i)\<rparr>) i"
  by (simp add: has_secret_def secret_delete_def)

lemma unmark_session:
  assumes "credentials_ok w" and "has_secret w i \<longrightarrow> owned (sw_db w) i"
  shows "credentials_ok (w\<lparr>sw_db := deleteSetting (sw_db w) (pendingKey i)\<rparr>)"
proof -
  have ok: "db_ok (sw_db w)" using assms(1) by (simp add: credentials_ok_def)
  have "db_ok (deleteSetting (sw_db w) (pendingKey i))"
    using db_ok_exec[OF ok, of "SettingOp (OpDeleteSetting (pendingKey i))"] by simp
  then show ?thesis using assms
    by (auto simp: credentials_ok_def markers_ok_def marked_def has_secret_def owned_def deleting_def setting_view
        delete_setting_view[OF ok] split: if_splits)
qed

lemma remove_session:
  assumes "credentials_ok w" and "has_secret w i \<longrightarrow> marked (sw_db w) i"
  shows "credentials_ok (w\<lparr>sw_db := deleteSessionAndRevokePlaybackGrants (sw_db w) i t\<rparr>)"
proof -
  let ?x = "OpDeleteSession i t"
  have ok: "db_ok (sw_db w)" using assms(1) by (simp add: credentials_ok_def)
  have "db_ok (exec_op (SessionOp ?x) (sw_db w))" by (rule db_ok_exec[OF ok])
  moreover have "getSetting (exec_session_op ?x (sw_db w)) = getSetting (sw_db w)"
    by (rule ext) (rule session_op_settings)
  moreover have "owned (exec_session_op ?x (sw_db w)) j \<longleftrightarrow> j \<noteq> i \<and> owned (sw_db w) j"
    "deleting (exec_session_op ?x (sw_db w)) j \<longleftrightarrow> j \<noteq> i \<and> deleting (sw_db w) j" for j
    by (auto simp: owned_def owned_vod_def deleting_def delete_view[OF ok])
  ultimately show ?thesis using assms
    by (auto simp: credentials_ok_def markers_ok_def marked_def has_secret_def)
qed

lemma insert_session:
  assumes "credentials_ok w" and "owned_vod (Some s) \<longrightarrow> has_secret w (ses_id s)"
  shows "credentials_ok (w\<lparr>sw_db := fst (createSessionWithPlaybackGrant (sw_db w) s g q)\<rparr>)"
proof -
  let ?x = "OpCreateSession s g q"
  let ?d = "fst (createSessionWithPlaybackGrant (sw_db w) s g q)"
  have ok: "db_ok (sw_db w)" using assms(1) by (simp add: credentials_ok_def)
  have "db_ok ?d" using db_ok_exec[OF ok, of "SessionOp ?x"] by simp
  moreover have "getSetting ?d = getSetting (sw_db w)"
    using session_op_settings[of ?x "sw_db w"] by (auto simp: fun_eq_iff)
  moreover have "(owned (sw_db w) j \<longrightarrow> owned ?d j) \<and> (owned ?d j \<and> \<not> deleting ?d j \<longrightarrow> has_secret w j)" for j
    using create_view[of "sw_db w" s g q j] assms
    by (auto simp: owned_def deleting_def credentials_ok_def owned_vod_def)
  ultimately show ?thesis using assms(1)
    by (auto simp: credentials_ok_def markers_ok_def marked_def has_secret_def)
qed

lemma begin_session:
  assumes "credentials_ok w"
  shows "credentials_ok (w\<lparr>sw_db := fst (beginSessionDeletion (sw_db w) i opts)\<rparr>)"
proof -
  let ?x = "OpBeginSessionDeletion i opts"
  let ?d = "fst (beginSessionDeletion (sw_db w) i opts)"
  have ok: "db_ok (sw_db w)" using assms(1) by (simp add: credentials_ok_def)
  have "db_ok ?d" using db_ok_exec[OF ok, of "SessionOp ?x"] by simp
  moreover have "getSetting ?d = getSetting (sw_db w)"
    using session_op_settings[of ?x "sw_db w"] by (auto simp: fun_eq_iff)
  moreover have "owned ?d j = owned (sw_db w) j \<and> (deleting (sw_db w) j \<longrightarrow> deleting ?d j)" for j
    using begin_view[of "sw_db w" i opts j]
    by (cases "getSession (sw_db w) j") (auto simp: owned_def deleting_def owned_vod_def begun_def)
  ultimately show ?thesis using assms
    by (auto simp: credentials_ok_def markers_ok_def marked_def has_secret_def)
qed

section \<open>Every handler keeps it, wherever it stops\<close>

lemma world_eqs:
  "fst (on_db m w) = w\<lparr>sw_db := fst (m (sw_db w))\<rparr>"
  "fst (write_db n w) = w\<lparr>sw_db := n (sw_db w)\<rparr>"
  "fst (on_secrets c w) = w\<lparr>sw_secrets := c (sw_secrets w)\<rparr>"
  by (simp_all add: on_db_def write_db_def on_secrets_def case_prod_beta)

lemma runs_read:
  assumes "\<And>w. P w \<Longrightarrow> E w"
  shows "runs P (call f (read_db q)) (\<lambda>x w. P w \<and> x = q (sw_db w)) E"
  using assms by (intro runs_call) (auto simp: world_ops)

lemma reconcile_keeps: "runs credentials_ok (reconcilePending f i) (\<lambda>_. credentials_ok) credentials_ok"
  unfolding reconcilePending_def
proof (rule runs_and_then[OF runs_read])
  fix s
  let ?P = "\<lambda>w. credentials_ok w \<and> s = getSession (sw_db w) i"
  let ?Q = "\<lambda>w. credentials_ok w \<and> (has_secret w i \<longrightarrow> owned (sw_db w) i)"
  have "runs ?P (if owned_vod s then done_with ()
       else call (f 1) (on_secrets (\<lambda>st. secret_delete st (sessionSourceSecretRef i)))) (\<lambda>_. ?Q) credentials_ok"
  proof (cases "owned_vod s")
    case True
    then show ?thesis by (simp, intro runs_done) (simp add: owned_def)
  next
    case False
    then show ?thesis
      by (simp, intro runs_call) (auto simp: world_eqs owned_def intro!: forget_secret)
  qed
  then show "runs ?P (and_then (if owned_vod s then done_with ()
       else call (f 1) (on_secrets (\<lambda>st. secret_delete st (sessionSourceSecretRef i)))) (\<lambda>_.
         call (f 2) (write_db (\<lambda>d. deleteSetting d (pendingKey i))))) (\<lambda>_. credentials_ok) credentials_ok"
    by (rule runs_and_then, intro runs_call) (auto simp: world_eqs intro: unmark_session)
qed simp

lemma reconcile_all_keeps: "runs credentials_ok (reconcile_all f k rs) (\<lambda>_. credentials_ok) credentials_ok"
proof (induction rs arbitrary: k)
  case Nil
  then show ?case by (simp add: runs_done)
next
  case (Cons r rs)
  obtain key v where r: "r = (key, v)" by (cases r)
  show ?case
    by (simp add: r Let_def runs_raise) (intro impI runs_and_then[OF reconcile_keeps] Cons.IH)
qed

lemma recover_pending_keeps: "runs credentials_ok (recoverPending f0 f) (\<lambda>_. credentials_ok) credentials_ok"
  unfolding recoverPending_def
  by (rule runs_and_then[OF runs_read], simp)
    (rule runs_and_then[OF runs_weaken[OF reconcile_all_keeps, where Q' = "\<lambda>_. credentials_ok"]], auto intro: runs_done)

lemma create_owned_keeps:
  assumes i: "ses_id s \<noteq> []" and plain: "credential = None \<longleftrightarrow> \<not> owned_vod (Some s)"
  shows "runs credentials_ok (create_owned f g id credential s grant revision) (\<lambda>_. credentials_ok) credentials_ok"
proof -
  let ?i = "ses_id s"
  let ?reconcile = "if credential = None then done_with () else quietly (reconcilePending g ?i)"
  let ?P = "\<lambda>w. credentials_ok w \<and> (owned_vod (Some s) \<longrightarrow> has_secret w ?i)"
  have reconcile: "runs credentials_ok ?reconcile (\<lambda>_. credentials_ok) credentials_ok"
    using runs_quietly[OF reconcile_keeps] by (simp add: runs_done)
  have fail: "runs credentials_ok (and_then ?reconcile (\<lambda>_. raise e)) Q credentials_ok" for e :: app_error and Q
    by (rule runs_and_then[OF reconcile]) (simp add: runs_raise)
  have first: "runs credentials_ok
      (case credential of None \<Rightarrow> done_with ()
       | Some (text, now) \<Rightarrow>
           and_then (call (f 1) (write_db (\<lambda>d. putSetting d (pendingKey ?i) (sessionSourceSecretRef ?i) now))) (\<lambda>_.
             on_error (call (f 2) (on_secrets (\<lambda>st. secret_put st (sessionSourceSecretRef ?i) text)))
               (\<lambda>e. and_then ?reconcile (\<lambda>_. raise e)))) (\<lambda>_. ?P) credentials_ok"
  proof (cases credential)
    case None
    then show ?thesis using plain by (simp add: runs_done)
  next
    case (Some c)
    obtain body now where c: "c = (body, now)" by (cases c)
    let ?M = "\<lambda>w. credentials_ok w \<and> marked (sw_db w) ?i"
    have mark: "runs credentials_ok
        (call (f 1) (write_db (\<lambda>d. putSetting d (pendingKey ?i) (sessionSourceSecretRef ?i) now))) (\<lambda>_. ?M) credentials_ok"
      using mark_session[OF _ i] by (intro runs_call) (auto simp: world_eqs)
    have store: "runs ?M (call (f 2) (on_secrets (\<lambda>st. secret_put st (sessionSourceSecretRef ?i) body))) (\<lambda>_. ?P) credentials_ok"
      using store_secret by (intro runs_call) (auto simp: world_eqs has_secret_def secret_put_def)
    show ?thesis unfolding Some c option.case prod.case
      by (rule runs_and_then[OF mark], rule runs_on_error[OF store]) (use fail Some in auto)
  qed
  have insert: "runs ?P (on_error (call (f 3) (on_db (\<lambda>d. createSessionWithPlaybackGrant d s grant revision) \<circ> id))
       (\<lambda>e. and_then ?reconcile (\<lambda>_. raise e)))
     (\<lambda>created w. credentials_ok w \<and> (\<forall>c. created = Applied c \<longrightarrow> getSession (sw_db w) ?i = Some s)) credentials_ok"
  proof (rule runs_on_error[OF runs_call[where E = credentials_ok]])
    fix w x
    assume w: "?P w" and x: "snd ((on_db (\<lambda>d. createSessionWithPlaybackGrant d s grant revision) \<circ> id) w) = Inr x"
    show "credentials_ok (fst ((on_db (\<lambda>d. createSessionWithPlaybackGrant d s grant revision) \<circ> id) w)) \<and>
        (\<forall>c. x = Applied c \<longrightarrow> getSession (sw_db (fst ((on_db (\<lambda>d. createSessionWithPlaybackGrant d s grant revision) \<circ> id) w))) ?i = Some s)"
      using w x insert_session[of w s grant revision] created_view[of "sw_db w" s grant revision]
      by (auto simp: world_eqs world_ops)
  qed (use fail insert_session in \<open>auto simp: world_eqs\<close>)
  have unmark: "runs (\<lambda>w. credentials_ok w \<and> getSession (sw_db w) ?i = Some s)
      (if credential = None then done_with ()
       else quietly (call (f 4) (write_db (\<lambda>d. deleteSetting d (pendingKey ?i))))) (\<lambda>_. credentials_ok) credentials_ok"
  proof (cases "credential = None")
    case False
    then have "owned_vod (Some s)" using plain by simp
    then have "runs (\<lambda>w. credentials_ok w \<and> getSession (sw_db w) ?i = Some s)
        (quietly (call (f 4) (write_db (\<lambda>d. deleteSetting d (pendingKey ?i))))) (\<lambda>_. credentials_ok) credentials_ok"
      by (intro runs_quietly runs_call) (auto simp: world_eqs owned_def intro: unmark_session)
    then show ?thesis using False by (simp only: if_False)
  qed (auto intro: runs_done)
  show ?thesis
    unfolding create_owned_def Let_def
  proof (rule runs_and_then[OF first], rule runs_and_then[OF insert])
    fix created
    show "runs (\<lambda>w. credentials_ok w \<and> (\<forall>c. created = Applied c \<longrightarrow> getSession (sw_db w) ?i = Some s))
       (case created of
          Applied _ \<Rightarrow> and_then (if credential = None then done_with ()
                 else quietly (call (f 4) (write_db (\<lambda>d. deleteSetting d (pendingKey ?i))))) (\<lambda>_. done_with s)
        | Rejected reason _ _ \<Rightarrow> and_then ?reconcile (\<lambda>_. raise (creation_error reason))) (\<lambda>_. credentials_ok) credentials_ok"
    proof (cases created)
      case (Applied c)
      have "runs (\<lambda>w. credentials_ok w \<and> getSession (sw_db w) ?i = Some s)
         (and_then (if credential = None then done_with ()
                 else quietly (call (f 4) (write_db (\<lambda>d. deleteSetting d (pendingKey ?i))))) (\<lambda>_. done_with s))
         (\<lambda>_. credentials_ok) credentials_ok"
        by (rule runs_and_then[OF unmark]) (simp add: runs_done)
      then show ?thesis using Applied by simp
    next
      case (Rejected reason c b)
      show ?thesis unfolding Rejected write_result.case
        by (rule runs_weaken[OF fail[of "creation_error reason" "\<lambda>_. credentials_ok"]]) auto
    qed
  qed
qed

lemma prepare_result:
  assumes "snd (prepare pl env i token now context input w) = Inr (s, revision)"
  shows "ses_id s = i \<and> ses_ownerId s = map_option ctx_ownerId context \<and>
     (ses_kind s = Vod \<longleftrightarrow> (\<exists>src. cr_target input = VodRequest src))"
  using assms
  by (auto simp: prepare_def new_session_def Let_def split: if_splits option.splits request_target.splits
      sum.splits prod.splits)

lemma prepare_world:
  "fst (prepare pl env i token now context input w) = w \<or>
   (\<exists>c p. fst (prepare pl env i token now context input w) =
      w\<lparr>sw_db := fst (claimLiveNormalizationProfile env c p (sw_db w))\<rparr>)"
proof (cases "\<exists>c p. cr_target input = LiveRequest c \<and> getProfile (sw_db w) (cr_profileId input) = Some p")
  case False
  then show ?thesis
    by (auto simp: prepare_def Let_def split: option.split request_target.split sum.split prod.split)
next
  case True
  then obtain c p where c: "cr_target input = LiveRequest c" "getProfile (sw_db w) (cr_profileId input) = Some p" by blast
  obtain d r where "claimLiveNormalizationProfile env c (prof_profileId p) (sw_db w) = (d, r)" by fastforce
  then have "fst (prepare pl env i token now context input w) = w \<or>
      fst (prepare pl env i token now context input w) =
        w\<lparr>sw_db := fst (claimLiveNormalizationProfile env c (prof_profileId p) (sw_db w))\<rparr>"
    using c by (cases r) (auto simp: prepare_def)
  then show ?thesis by blast
qed

lemma create_keeps:
  assumes "i \<noteq> []" and "\<And>c. ctx = Some c \<Longrightarrow> ctx_ownerId c \<noteq> []" and env: "\<And>k. \<forall>x \<in> set (env k). bystander x"
  shows "runs credentials_ok (create f g id pl env i token clock ctx input) (\<lambda>_. credentials_ok) credentials_ok"
proof -
  let ?facts = "\<lambda>s :: relay_session. ses_id s = i \<and> ses_ownerId s = map_option ctx_ownerId ctx \<and>
     (ses_kind s = Vod \<longleftrightarrow> (\<exists>src. cr_target input = VodRequest src))"
  have ok: "credentials_ok (fst (prepare pl env i token (clock 0) ctx input w))" if "credentials_ok w" for w
    using prepare_world[of pl env i token "clock 0" ctx input w] that
      quiet_credentials[OF that quiet_claim[where env = env, OF env]] by auto
  have prepare: "runs credentials_ok (call (f 0) (prepare pl env i token (clock 0) ctx input))
      (\<lambda>r w. credentials_ok w \<and> ?facts (fst r)) credentials_ok"
    using ok prepare_result by (intro runs_call) (auto split: prod.split)
  show ?thesis
    unfolding create_def
  proof (rule runs_and_then[OF prepare])
    fix r :: "relay_session \<times> nat option"
    obtain s revision where r: "r = (s, revision)" by (cases r)
    let ?c = "case (ctx, cr_target input) of
            (Some c, VodRequest _) \<Rightarrow>
              Some (sp_stringify pl (the (ctx_providerAccessToken c)) (the (ctx_providerUserId c)), clock 2)
          | _ \<Rightarrow> None"
    have "runs credentials_ok (create_owned f g id ?c s gr revision) (\<lambda>_. credentials_ok) credentials_ok"
      if "?facts s" for s gr revision
      by (rule create_owned_keeps)
        (use that assms(1,2) in \<open>auto simp: owned_vod_def split: option.splits request_target.splits\<close>)
    then show "runs (\<lambda>w. credentials_ok w \<and> ?facts (fst r))
       (case r of (s, revision) \<Rightarrow> create_owned f g id ?c s (new_grant pl input i token (clock 0) (clock 1)) revision)
       (\<lambda>_. credentials_ok) credentials_ok"
      by (cases "?facts s") (auto simp: r runs_def)
  qed
qed

text \<open>The session that is finalised: its row is gone or is being deleted, with the same owner.\<close>

definition condemned :: "relay_session \<Rightarrow> session_world \<Rightarrow> bool" where
  "condemned s w \<longleftrightarrow>
     (case getSession (sw_db w) (ses_id s) of
        None \<Rightarrow> True
      | Some r \<Rightarrow> ses_deletionPending r \<and> truthy (ses_ownerId r) = truthy (ses_ownerId s))"

lemma condemned_deleting: "condemned s w \<Longrightarrow> owned (sw_db w) (ses_id s) \<longrightarrow> deleting (sw_db w) (ses_id s)"
  by (auto simp: condemned_def owned_def owned_vod_def deleting_def split: option.splits)

lemma condemned_unowned: "condemned s w \<Longrightarrow> \<not> truthy (ses_ownerId s) \<Longrightarrow> \<not> owned (sw_db w) (ses_id s)"
  by (auto simp: condemned_def owned_def owned_vod_def split: option.splits)

lemma condemned_same: "db_sessions (sw_db w') = db_sessions (sw_db w) \<Longrightarrow> condemned s w' = condemned s w"
  by (simp add: condemned_def getSession_def)

lemma condemned_removed:
  "credentials_ok w \<Longrightarrow> condemned s w \<Longrightarrow>
     condemned s (w\<lparr>sw_db := deleteSessionAndRevokePlaybackGrants (sw_db w) i t\<rparr>)"
  by (simp add: condemned_def delete_view credentials_ok_def)

text \<open>\<open>F\<close> stands for more that the steps keep, here that others are condemned too.\<close>

lemma finalize_keeps:
  assumes stop: "\<forall>x \<in> set stop. bystander x"
  defines "C ss w \<equiv> credentials_ok w \<and> (\<forall>x \<in> set ss. condemned x w)"
  shows "runs (\<lambda>w. C (s # ss) w) (finalizeSessionDeletion f stop now s) (\<lambda>_. C ss) credentials_ok"
proof -
  let ?i = "ses_id s"
  let ?forgotten = "\<lambda>w. has_secret w ?i \<longrightarrow> marked (sw_db w) ?i"
  have same: "C (s # ss) w'" if "C (s # ss) w" "credentials_ok w'" "db_sessions (sw_db w') = db_sessions (sw_db w)" for w w'
    using that condemned_same[OF that(3)] by (simp add: C_def)
  have stopped: "runs (C (s # ss)) (call (f 0) (write_db (run_ops stop))) (\<lambda>_. C (s # ss)) credentials_ok"
  proof (rule runs_call)
    fix w
    assume w: "C (s # ss) w"
    show "credentials_ok w" using w by (simp add: C_def)
    show ok: "credentials_ok (fst (write_db (run_ops stop) w))"
      using quiet_credentials[OF _ quiet_bystanders[OF stop]] w by (simp add: C_def world_eqs)
    show "C (s # ss) (fst (write_db (run_ops stop) w))"
      by (rule same[OF w ok]) (simp add: world_eqs bystanders[OF stop])
  qed
  have forget: "runs (C (s # ss)) (if truthy (ses_ownerId s) then deleteSessionSourceCredential (\<lambda>k. f (k + 3)) ?i
         else done_with ()) (\<lambda>_ w. C (s # ss) w \<and> ?forgotten w) credentials_ok"
  proof (cases "truthy (ses_ownerId s)")
    case False
    have "C (s # ss) w \<Longrightarrow> ?forgotten w" for w
      using condemned_unowned[of s w] False by (auto simp: C_def credentials_ok_def)
    then show ?thesis using False by (auto intro: runs_done)
  next
    case True
    let ?gone = "\<lambda>w. C (s # ss) w \<and> \<not> has_secret w ?i"
    have "runs (C (s # ss)) (call (f 3) (on_secrets (\<lambda>st. secret_delete st (sessionSourceSecretRef ?i))))
        (\<lambda>_. ?gone) credentials_ok"
    proof (rule runs_call)
      fix w
      assume w: "C (s # ss) w"
      show "credentials_ok w" using w by (simp add: C_def)
      let ?w' = "fst (on_secrets (\<lambda>st. secret_delete st (sessionSourceSecretRef ?i)) w)"
      show ok: "credentials_ok ?w'"
        unfolding world_eqs by (rule forget_secret) (use w condemned_deleting[of s w] in \<open>auto simp: C_def\<close>)
      show "?gone ?w'" using same[OF w ok] by (simp add: world_eqs)
    qed
    moreover have "runs ?gone (call (f 4) (write_db (\<lambda>d. deleteSetting d (pendingKey ?i))))
        (\<lambda>_ w. C (s # ss) w \<and> ?forgotten w) credentials_ok"
    proof (rule runs_call)
      fix w
      assume w: "?gone w"
      show "credentials_ok w" using w by (simp add: C_def)
      let ?w' = "fst (write_db (\<lambda>d. deleteSetting d (pendingKey ?i)) w)"
      show ok: "credentials_ok ?w'" using w unmark_session[of w ?i] by (simp add: world_eqs C_def)
      show "C (s # ss) ?w' \<and> ?forgotten ?w'"
        using same[OF conjunct1[OF w] ok] w by (simp add: world_eqs deleteSetting_def has_secret_def)
    qed
    ultimately show ?thesis using True by (simp add: deleteSessionSourceCredential_def runs_and_then)
  qed
  have removed: "runs (\<lambda>w. C (s # ss) w \<and> ?forgotten w)
      (call (f 5) (write_db (\<lambda>d. deleteSessionAndRevokePlaybackGrants d ?i now))) (\<lambda>_. C ss) credentials_ok"
    using remove_session condemned_removed by (intro runs_call) (auto simp: world_eqs C_def)
  have files: "runs (C ss) (call (f 6) (\<lambda>w. (w, resolve ()))) (\<lambda>_. C ss) credentials_ok"
    by (rule runs_call) (auto simp: C_def)
  show ?thesis
    unfolding finalizeSessionDeletion_def
    by (rule runs_and_then[OF stopped], rule runs_and_then[OF forget], rule runs_and_then[OF removed], rule files)
qed

lemma finalize_one_keeps:
  assumes "\<forall>x \<in> set stop. bystander x"
  shows "runs (\<lambda>w. credentials_ok w \<and> condemned s w) (finalizeSessionDeletion f stop now s) (\<lambda>_. credentials_ok) credentials_ok"
  using finalize_keeps[OF assms, where ss = "[]" and s = s] by simp

lemma begin_condemns:
  assumes ok: "credentials_ok w" and applied: "snd (beginSessionDeletion (sw_db w) i opts) = resolve (Applied c)"
  shows "condemned (vr_value c) (w\<lparr>sw_db := fst (beginSessionDeletion (sw_db w) i opts)\<rparr>)"
proof -
  let ?d = "fst (beginSessionDeletion (sw_db w) i opts)"
  have "db_ok ?d"
    using db_ok_exec[of "sw_db w" "SessionOp (OpBeginSessionDeletion i opts)"] ok by (simp add: credentials_ok_def)
  then have "ses_id (vr_value c) = i" using begun_view[OF applied] db_ok_id by blast
  then show ?thesis using begun_view[OF applied] by (simp add: condemned_def)
qed

lemma runs_begin:
  "runs credentials_ok (call f (on_db (\<lambda>d. beginSessionDeletion d i opts)))
     (\<lambda>r w. credentials_ok w \<and> (\<forall>c. r = Applied c \<longrightarrow> condemned (vr_value c) w)) credentials_ok"
  using begin_session begin_condemns by (intro runs_call) (auto simp: world_eqs world_ops)

lemma deletion_keeps:
  assumes "\<forall>x \<in> set stop. bystander x"
  shows "runs credentials_ok (deleteSession f stop clock i) (\<lambda>_. credentials_ok) credentials_ok"
  unfolding deleteSession_def
proof (rule runs_and_then[OF runs_read], assumption)
  fix r
  let ?P = "\<lambda>w. credentials_ok w \<and> r = getSession (sw_db w) i"
  show "runs ?P
     (case r of
         None \<Rightarrow> raise NotFoundError
       | Some s \<Rightarrow>
           if ses_deletionPending s then finalizeSessionDeletion f stop (clock 1) s
           else and_then (call (f 2) (on_db (\<lambda>d. beginSessionDeletion d i
                    \<lparr>sdo_observedAt = clock 0, sdo_inactiveBefore = None, sdo_requireUnpinned = False\<rparr>))) (\<lambda>begun.
             case begun of
               Applied c \<Rightarrow> finalizeSessionDeletion f stop (clock 1) (vr_value c)
             | Rejected reason _ _ \<Rightarrow> raise (if reason = NotFound then NotFoundError else ConflictError)))
     (\<lambda>_. credentials_ok) credentials_ok"
  proof (cases r)
    case None
    then show ?thesis by (auto intro: runs_raise)
  next
    case (Some s)
    have "?P w \<Longrightarrow> ses_deletionPending s \<Longrightarrow> credentials_ok w \<and> condemned s w" for w
      using Some db_ok_id[of "sw_db w" i s] by (auto simp: condemned_def credentials_ok_def split: option.split)
    then have pending: "ses_deletionPending s \<Longrightarrow> runs ?P (finalizeSessionDeletion f stop (clock 1) s) (\<lambda>_. credentials_ok) credentials_ok"
      by (intro runs_weaken[OF finalize_one_keeps[OF assms]]) auto
    have fresh: "runs ?P (and_then (call (f 2) (on_db (\<lambda>d. beginSessionDeletion d i opts))) (\<lambda>begun.
             case begun of
               Applied c \<Rightarrow> finalizeSessionDeletion f stop (clock 1) (vr_value c)
             | Rejected reason _ _ \<Rightarrow> raise (if reason = NotFound then NotFoundError else ConflictError)))
          (\<lambda>_. credentials_ok) credentials_ok" for opts
    proof (rule runs_and_then[OF runs_pre[OF runs_begin]])
      fix b
      show "runs (\<lambda>w. credentials_ok w \<and> (\<forall>c. b = Applied c \<longrightarrow> condemned (vr_value c) w))
        (case b of
           Applied c \<Rightarrow> finalizeSessionDeletion f stop (clock 1) (vr_value c)
         | Rejected reason _ _ \<Rightarrow> raise (if reason = NotFound then NotFoundError else ConflictError)) (\<lambda>_. credentials_ok) credentials_ok"
        by (cases b) (auto intro: runs_raise runs_weaken[OF finalize_one_keeps[OF assms]])
    qed auto
    show ?thesis using Some pending fresh by auto
  qed
qed

lemma expiry_keeps:
  assumes "\<forall>x \<in> set stop. bystander x"
  shows "runs credentials_ok (deleteIfInactive f stop clock inactiveBefore i) (\<lambda>_. credentials_ok) credentials_ok"
  unfolding deleteIfInactive_def
proof (rule runs_and_then[OF runs_begin])
  fix b
  have final: "runs (\<lambda>w. credentials_ok w \<and> condemned s w)
      (and_then (finalizeSessionDeletion f stop (clock 1) s) (\<lambda>_. done_with True)) (\<lambda>_. credentials_ok) credentials_ok" for s
    by (rule runs_and_then[OF finalize_one_keeps[OF assms]]) (auto intro: runs_done)
  show "runs (\<lambda>w. credentials_ok w \<and> (\<forall>c. b = Applied c \<longrightarrow> condemned (vr_value c) w))
    (case b of
       Applied c \<Rightarrow> and_then (finalizeSessionDeletion f stop (clock 1) (vr_value c)) (\<lambda>_. done_with True)
     | Rejected reason _ _ \<Rightarrow>
         if reason = NotFound \<or> reason = InvalidState then done_with False else raise ConflictError)
    (\<lambda>_. credentials_ok) credentials_ok"
    by (cases b) (auto intro: runs_raise runs_done final[simplified])
qed

lemma finalize_all_keeps:
  assumes "\<And>k. \<forall>x \<in> set (stop k). bystander x"
  shows "runs (\<lambda>w. credentials_ok w \<and> (\<forall>s \<in> set ss. condemned s w)) (finalize_all f stop now k ss)
     (\<lambda>_. credentials_ok) credentials_ok"
proof (induction ss arbitrary: k)
  case Nil
  then show ?case by (auto intro: runs_done)
next
  case (Cons s ss)
  show ?case unfolding finalize_all.simps
    by (rule runs_and_then[OF finalize_keeps[OF assms] Cons.IH])
qed

lemma pending_listed:
  "s \<in> set (listSessionDeletionPending d n) \<Longrightarrow> db_ok d \<Longrightarrow> getSession d (ses_id s) = Some s \<and> ses_deletionPending s"
proof -
  assume "s \<in> set (listSessionDeletionPending d n)" and ok: "db_ok d"
  then obtain k r where "(k, r) \<in> set (db_sessions d)" "s = row_json r" "ses_deletionPending s"
    by (auto simp: listSessionDeletionPending_def sql_limit_def jsons_def order_asc_def dest!: in_set_takeD split: if_splits)
  moreover have "keys_ok (db_sessions d)" using ok by (simp add: db_ok_def keys_uniqueD)
  ultimately have "getSession d k = Some s" "ses_deletionPending s" by (simp_all add: getSession_def get_json_def)
  then show ?thesis using db_ok_id[OF ok] by blast
qed

lemma recovery_keeps:
  assumes "\<And>k. \<forall>x \<in> set (stop k). bystander x" and env: "\<And>k j. \<forall>x \<in> set (env k j). bystander x"
  shows "runs credentials_ok (recoverSessions f0 f1 fp fd fr opts stop env clock now) (\<lambda>_. credentials_ok) credentials_ok"
proof -
  let ?n = "if RoleController \<in> set (coalesce (po_roles opts) [RoleController]) then recoverPending f0 fp else done_with 0"
  have first: "runs credentials_ok ?n (\<lambda>_. credentials_ok) credentials_ok"
    using recover_pending_keeps by (auto intro: runs_done)
  have deletions: "runs (\<lambda>w. credentials_ok w \<and> ss = listSessionDeletionPending (sw_db w) 100)
      (finalize_all fd stop now 0 ss) (\<lambda>_. credentials_ok) credentials_ok" for ss
    by (rule runs_weaken[OF finalize_all_keeps[OF assms(1)]])
      (auto simp: condemned_def credentials_ok_def dest!: pending_listed)
  have reset: "runs credentials_ok (call fr (on_db (\<lambda>d. reset_sessions env clock 0 (listSessions d) d))) (\<lambda>_. credentials_ok) credentials_ok"
    using quiet_credentials[OF _ quiet_reset[where env = env, OF env]] by (intro runs_call) (auto simp: world_eqs)
  show ?thesis
    unfolding recoverSessions_def
    by (rule runs_and_then[OF first], rule runs_and_then[OF runs_read], assumption,
        rule runs_and_then[OF deletions], rule runs_and_then[OF reset], auto intro: runs_done)
qed

section \<open>Sequences of calls\<close>

text \<open>The service as it runs: one handler after another, each stopped where its faults say.\<close>

inductive session_call :: "session_world \<Rightarrow> session_world \<Rightarrow> bool" where
  created: "i \<noteq> [] \<Longrightarrow> (\<And>c. ctx = Some c \<Longrightarrow> ctx_ownerId c \<noteq> []) \<Longrightarrow> (\<And>k. \<forall>x \<in> set (env k). bystander x) \<Longrightarrow>
     session_call w (fst (create f g id pl env i token clock ctx input w))"
| deleted: "\<forall>x \<in> set stop. bystander x \<Longrightarrow> session_call w (fst (deleteSession f stop clock i w))"
| expired: "\<forall>x \<in> set stop. bystander x \<Longrightarrow> session_call w (fst (deleteIfInactive f stop clock inactiveBefore i w))"
| recovered: "(\<And>k. \<forall>x \<in> set (stop k). bystander x) \<Longrightarrow> (\<And>k j. \<forall>x \<in> set (env' k j). bystander x) \<Longrightarrow>
     session_call w (fst (recoverSessions f0 f1 fp fd fr opts stop env' clock' now w))"
| updated: "service_change u \<Longrightarrow> (\<And>k. \<forall>x \<in> set (env k). bystander x) \<Longrightarrow>
     session_call w (w\<lparr>sw_db := fst (updateSession env clock u allowMissing i (sw_db w))\<rparr>)"
| others: "bystander x \<Longrightarrow> session_call w (w\<lparr>sw_db := exec_op x (sw_db w)\<rparr>)"

lemma runs_fst: "runs P m (\<lambda>_. Q) Q \<Longrightarrow> P w \<Longrightarrow> Q (fst (m w))"
  unfolding runs_def by (cases "m w"; cases "snd (m w)") fastforce+

lemma session_call_keeps:
  assumes "session_call w w'" and "credentials_ok w"
  shows "credentials_ok w'"
  using assms
proof (cases rule: session_call.cases)
  case (created i ctx env f g pl token clock input)
  then show ?thesis using runs_fst[OF create_keeps[where ctx = ctx and env = env] assms(2)] by blast
next
  case (recovered stop env f0 f1 fp fd fr opts clock now)
  then show ?thesis using runs_fst[OF recovery_keeps[where stop = stop and env = env] assms(2)] by blast
next
  case (updated u env clock allowMissing i)
  then show ?thesis using quiet_credentials[OF assms(2) quiet_update[where env = env]] by blast
next
  case (others x)
  then show ?thesis using quiet_credentials[OF assms(2) quiet_bystanders[of "[x]" "sw_db w"]] by simp
qed (use runs_fst[OF deletion_keeps assms(2)] runs_fst[OF expiry_keeps assms(2)] in blast)+

lemma session_calls_keep: "session_call\<^sup>*\<^sup>* w w' \<Longrightarrow> credentials_ok w \<Longrightarrow> credentials_ok w'"
  by (induction rule: rtranclp_induct) (auto intro: session_call_keeps)

end
