(* ===== verification/RelayCrashRecovery.thy ===== *)
theory RelayCrashRecovery
  imports RelayCrashSafety
begin

text \<open>
  What one recovery of the controller whose calls all work establishes: the markers are worked off, the
  pending deletions are finished, and a credential is stored exactly for the owned sessions.
\<close>

section \<open>What a recovery without faults leaves\<close>

text \<open>The part that is still to be done: \<open>L\<close> are the keys of the markers that may be left.\<close>

definition unsettled :: "string set \<Rightarrow> relay_session table \<Rightarrow> session_world \<Rightarrow> bool" where
  "unsettled L rows w \<longleftrightarrow>
     credentials_ok w \<and> db_sessions (sw_db w) = rows \<and>
     (\<forall>i. has_secret w i \<longrightarrow> owned (sw_db w) i \<or> pendingKey i \<in> L) \<and>
     (\<forall>k. getSetting (sw_db w) k \<noteq> None \<longrightarrow> pending_setting k \<longrightarrow> k \<in> L)"

lemma owned_rows: "db_sessions d' = db_sessions d \<Longrightarrow> owned d' i = owned d i"
  by (simp add: owned_def getSession_def)

lemma reconcile_settles:
  "runs (unsettled (insert (pendingKey i) L) rows) (reconcilePending (\<lambda>_. Works) i) (\<lambda>_. unsettled L rows) E"
  unfolding reconcilePending_def
proof (rule runs_and_then)
  let ?U = "unsettled (insert (pendingKey i) L) rows"
  show "runs ?U (call Works (read_db (\<lambda>d. getSession d i))) (\<lambda>s w. ?U w \<and> s = getSession (sw_db w) i) E"
    by (rule runs_works) (simp add: world_ops)
  fix s
  let ?P = "\<lambda>w. ?U w \<and> s = getSession (sw_db w) i"
  let ?Q = "\<lambda>w. ?U w \<and> (has_secret w i \<longrightarrow> owned (sw_db w) i)"
  have "runs ?P (call Works (on_secrets (\<lambda>st. secret_delete st (sessionSourceSecretRef i)))) (\<lambda>_. ?Q) E"
    if "\<not> owned_vod s"
  proof (rule runs_works)
    fix w
    assume w: "?P w"
    let ?w = "fst (on_secrets (\<lambda>st. secret_delete st (sessionSourceSecretRef i)) w)"
    have "credentials_ok ?w"
      unfolding world_eqs by (rule forget_secret) (use w that in \<open>auto simp: unsettled_def owned_def\<close>)
    then have "?Q ?w" using w
      by (auto simp: unsettled_def world_eqs) (auto simp: has_secret_def secret_delete_def split: if_splits)
    then show "\<exists>x. snd (on_secrets (\<lambda>st. secret_delete st (sessionSourceSecretRef i)) w) = Inr x \<and> ?Q ?w"
      by (simp add: world_ops)
  qed
  then have first: "runs ?P (if owned_vod s then done_with ()
       else call Works (on_secrets (\<lambda>st. secret_delete st (sessionSourceSecretRef i)))) (\<lambda>_. ?Q) E"
    by (auto intro!: runs_done simp: owned_def)
  have "runs ?Q (call Works (write_db (\<lambda>d. deleteSetting d (pendingKey i)))) (\<lambda>_. unsettled L rows) E"
  proof (rule runs_works)
    fix w
    assume w: "?Q w"
    let ?w = "fst (write_db (\<lambda>d. deleteSetting d (pendingKey i)) w)"
    have ok: "credentials_ok ?w" "db_ok (sw_db w)"
      using w unmark_session[of w i] by (simp_all add: world_eqs unsettled_def credentials_ok_def)
    have rows: "db_sessions (sw_db ?w) = db_sessions (sw_db w)" by (simp add: world_eqs deleteSetting_def)
    have "has_secret ?w j \<longrightarrow> owned (sw_db ?w) j \<or> pendingKey j \<in> L" for j
      using w owned_rows[OF rows] by (auto simp: unsettled_def has_secret_def world_ops)
    moreover have "getSetting (sw_db ?w) k \<noteq> None \<longrightarrow> pending_setting k \<longrightarrow> k \<in> L" for k
      using w by (auto simp: unsettled_def world_ops delete_setting_view[OF ok(2)])
    ultimately have "unsettled L rows ?w" using w ok(1) rows by (simp add: unsettled_def)
    then show "\<exists>x. snd (write_db (\<lambda>d. deleteSetting d (pendingKey i)) w) = Inr x \<and> unsettled L rows ?w"
      by (simp add: world_ops)
  qed
  with first show "runs ?P (and_then (if owned_vod s then done_with ()
       else call Works (on_secrets (\<lambda>st. secret_delete st (sessionSourceSecretRef i)))) (\<lambda>_.
         call Works (write_db (\<lambda>d. deleteSetting d (pendingKey i))))) (\<lambda>_. unsettled L rows) E"
    by (rule runs_and_then)
qed

lemma reconcile_all_settles:
  assumes "\<forall>(k, v) \<in> set rs. \<exists>i. i \<noteq> [] \<and> k = pendingKey i \<and> v = sessionSourceSecretRef i"
  shows "runs (unsettled (fst ` set rs) rows) (reconcile_all (\<lambda>_ _. Works) n rs) (\<lambda>_. unsettled {} rows) E"
  using assms
proof (induction rs arbitrary: n)
  case Nil
  then show ?case by (auto intro: runs_done)
next
  case (Cons r rs)
  then obtain i where i: "i \<noteq> []" "r = (pendingKey i, sessionSourceSecretRef i)" by auto
  have rest: "runs (unsettled (fst ` set rs) rows) (reconcile_all (\<lambda>_ _. Works) (Suc n) rs) (\<lambda>_. unsettled {} rows) E"
    using Cons by simp
  have "runs (unsettled (insert (pendingKey i) (fst ` set rs)) rows)
     (and_then (reconcilePending (\<lambda>_. Works) i) (\<lambda>_. reconcile_all (\<lambda>_ _. Works) (Suc n) rs)) (\<lambda>_. unsettled {} rows) E"
    by (rule runs_and_then[OF reconcile_settles rest])
  then show ?case using i by (simp add: pendingKey_def Let_def)
qed

lemma marked_listed:
  assumes "db_ok d"
  shows "(k, v) \<in> set (listSettingsByPrefix d PENDING_PREFIX) \<longleftrightarrow> getSetting d k = Some v \<and> pending_setting k"
proof -
  have keys: "keys_ok (db_settings d)" using assms by (simp add: db_ok_def keys_uniqueD)
  have "getSetting d k = Some v \<longleftrightarrow> (\<exists>r. (k, r) \<in> set (db_settings d) \<and> row_json r = v)"
    using map_of_eq_Some_iff[OF keys] by (auto simp: getSetting_def get_json_def)
  then show ?thesis by (auto simp: listSettingsByPrefix_def pending_setting_def)
qed

lemma recover_pending_settles:
  "runs (\<lambda>w. credentials_ok w \<and> db_sessions (sw_db w) = rows) (recoverPending Works (\<lambda>_ _. Works)) (\<lambda>_. unsettled {} rows) E"
  unfolding recoverPending_def
proof (rule runs_and_then)
  let ?P = "\<lambda>w. credentials_ok w \<and> db_sessions (sw_db w) = rows"
  show "runs ?P (call Works (read_db (\<lambda>d. listSettingsByPrefix d PENDING_PREFIX)))
     (\<lambda>rs w. ?P w \<and> rs = listSettingsByPrefix (sw_db w) PENDING_PREFIX) E"
    by (rule runs_works) (simp add: world_ops)
  fix rs
  let ?Q = "\<lambda>w. ?P w \<and> rs = listSettingsByPrefix (sw_db w) PENDING_PREFIX"
  let ?ok = "\<forall>(k, v) \<in> set rs. \<exists>i. i \<noteq> [] \<and> k = pendingKey i \<and> v = sessionSourceSecretRef i"
  have "?ok \<and> unsettled (fst ` set rs) rows w" if w: "?Q w" for w
  proof
    have ok: "db_ok (sw_db w)" "markers_ok (sw_db w)" using w by (simp_all add: credentials_ok_def)
    then show ?ok using w unfolding markers_ok_def by (auto simp: marked_listed)
    have mem: "(k, v) \<in> set rs \<longleftrightarrow> getSetting (sw_db w) k = Some v \<and> pending_setting k" for k v
      using w marked_listed[OF ok(1)] by simp
    have "k \<in> fst ` set rs \<longleftrightarrow> (\<exists>v. (k, v) \<in> set rs)" for k by (auto intro: rev_image_eqI)
    then have listed: "k \<in> fst ` set rs \<longleftrightarrow> getSetting (sw_db w) k \<noteq> None \<and> pending_setting k" for k
      by (simp add: mem)
    have "pending_setting (pendingKey i)" for i by (simp add: pending_setting_def pendingKey_def starts_with_def)
    then have marks: "marked (sw_db w) i \<Longrightarrow> pendingKey i \<in> fst ` set rs" for i
      using listed by (simp add: marked_def)
    have "\<forall>i. has_secret w i \<longrightarrow> owned (sw_db w) i \<or> marked (sw_db w) i" using w unfolding credentials_ok_def by blast
    then show "unsettled (fst ` set rs) rows w"
      using w listed marks unfolding unsettled_def by blast
  qed
  note start = this
  have "runs ?Q (reconcile_all (\<lambda>_ _. Works) 0 rs) (\<lambda>_. unsettled {} rows) E"
  proof (cases ?ok)
    case True
    then show ?thesis using start by (intro runs_pre[OF reconcile_all_settles]) auto
  next
    case False
    then show ?thesis using start unfolding runs_def by blast
  qed
  then show "runs ?Q (and_then (reconcile_all (\<lambda>_ _. Works) 0 rs) (\<lambda>_. done_with (length rs))) (\<lambda>_. unsettled {} rows) E"
    by (rule runs_and_then) (auto intro: runs_done)
qed

definition tidy :: "session_world \<Rightarrow> bool" where
  "tidy w \<longleftrightarrow>
     credentials_ok w \<and> (\<forall>i. has_secret w i \<longrightarrow> owned (sw_db w) i) \<and>
     (\<forall>k. getSetting (sw_db w) k \<noteq> None \<longrightarrow> \<not> pending_setting k)"

text \<open>Only the sessions of the list are being deleted.\<close>

definition doomed :: "relay_session list \<Rightarrow> session_world \<Rightarrow> bool" where
  "doomed ss w \<longleftrightarrow>
     tidy w \<and> (\<forall>s \<in> set ss. condemned s w) \<and> (\<forall>i. deleting (sw_db w) i \<longrightarrow> i \<in> ses_id ` set ss)"

lemma doomed_same:
  assumes "doomed ss w" and "credentials_ok w'" and "db_sessions (sw_db w') = db_sessions (sw_db w)"
    and "\<And>i. has_secret w' i \<Longrightarrow> has_secret w i"
    and "\<And>k. getSetting (sw_db w') k \<noteq> None \<Longrightarrow> getSetting (sw_db w) k \<noteq> None"
  shows "doomed ss w'"
  using assms(1,2,4,5) condemned_same[OF assms(3)] owned_rows[OF assms(3)] assms(3)
  unfolding doomed_def tidy_def deleting_def getSession_def by metis

lemma finalize_settles:
  assumes stop: "\<forall>x \<in> set stop. bystander x"
  shows "runs (doomed (s # ss)) (finalizeSessionDeletion (\<lambda>_. Works) stop now s) (\<lambda>_. doomed ss) E"
proof -
  let ?i = "ses_id s"
  let ?D = "doomed (s # ss)"
  let ?gone = "\<lambda>w. ?D w \<and> \<not> has_secret w ?i"
  have ok: "?D w \<Longrightarrow> credentials_ok w" for w by (simp add: doomed_def tidy_def)
  have stopped: "runs ?D (call Works (write_db (run_ops stop))) (\<lambda>_. ?D) E"
  proof (rule runs_works)
    fix w
    assume w: "?D w"
    have "credentials_ok (fst (write_db (run_ops stop) w))"
      using quiet_credentials[OF ok[OF w] quiet_bystanders[OF stop]] by (simp add: world_eqs)
    then have "?D (fst (write_db (run_ops stop) w))"
      by (rule doomed_same[OF w]) (simp_all add: world_eqs bystanders[OF stop] has_secret_def getSetting_def)
    then show "\<exists>x. snd (write_db (run_ops stop) w) = Inr x \<and> ?D (fst (write_db (run_ops stop) w))"
      by (simp add: world_ops)
  qed
  have "runs ?D (call Works (on_secrets (\<lambda>st. secret_delete st (sessionSourceSecretRef ?i)))) (\<lambda>_. ?gone) E"
  proof (rule runs_works)
    fix w
    assume w: "?D w"
    let ?w = "fst (on_secrets (\<lambda>st. secret_delete st (sessionSourceSecretRef ?i)) w)"
    have "credentials_ok ?w"
      unfolding world_eqs by (rule forget_secret[OF ok[OF w]]) (use w condemned_deleting[of s w] in \<open>auto simp: doomed_def\<close>)
    then have "?D ?w"
      by (rule doomed_same[OF w])
        (auto simp: world_ops has_secret_def secret_delete_def split: if_splits)
    then show "\<exists>x. snd (on_secrets (\<lambda>st. secret_delete st (sessionSourceSecretRef ?i)) w) = Inr x \<and> ?gone ?w"
      by (simp add: world_eqs world_ops(11))
  qed
  moreover have "runs ?gone (call Works (write_db (\<lambda>d. deleteSetting d (pendingKey ?i)))) (\<lambda>_. ?gone) E"
  proof (rule runs_works)
    fix w
    assume w: "?gone w"
    let ?w = "fst (write_db (\<lambda>d. deleteSetting d (pendingKey ?i)) w)"
    have okw: "credentials_ok w" "db_ok (sw_db w)" using w ok by (auto simp: credentials_ok_def)
    have ok': "credentials_ok ?w" using okw(1) w unmark_session[of w ?i] by (simp add: world_eqs)
    have rows: "db_sessions (sw_db ?w) = db_sessions (sw_db w)" by (simp add: world_eqs deleteSetting_def)
    have settings: "getSetting (sw_db ?w) k \<noteq> None \<Longrightarrow> getSetting (sw_db w) k \<noteq> None" for k
      unfolding world_ops delete_setting_view[OF okw(2)] by (simp split: if_splits)
    have secrets: "has_secret ?w j = has_secret w j" for j by (simp add: has_secret_def world_ops)
    have "?D ?w" by (rule doomed_same[OF conjunct1[OF w] ok' rows]) (use secrets settings in \<open>simp_all only:\<close>)
    then show "\<exists>x. snd (write_db (\<lambda>d. deleteSetting d (pendingKey ?i)) w) = Inr x \<and> ?gone ?w"
      using w by (simp add: world_ops has_secret_def)
  qed
  ultimately have owned: "runs ?D (deleteSessionSourceCredential (\<lambda>_. Works) ?i) (\<lambda>_. ?gone) E"
    unfolding deleteSessionSourceCredential_def by (rule runs_and_then)
  have "?D w \<Longrightarrow> \<not> truthy (ses_ownerId s) \<Longrightarrow> ?gone w" for w
    using condemned_unowned[of s w] by (auto simp: doomed_def tidy_def)
  then have forget: "runs ?D (if truthy (ses_ownerId s) then deleteSessionSourceCredential (\<lambda>_. Works) ?i else done_with ())
      (\<lambda>_. ?gone) E"
    using owned by (auto intro: runs_done)
  have removed: "runs ?gone (call Works (write_db (\<lambda>d. deleteSessionAndRevokePlaybackGrants d ?i now))) (\<lambda>_. doomed ss) E"
  proof (rule runs_works)
    fix w
    assume w: "?gone w"
    let ?w = "fst (write_db (\<lambda>d. deleteSessionAndRevokePlaybackGrants d ?i now) w)"
    have okw: "credentials_ok w" "db_ok (sw_db w)" using w ok by (auto simp: credentials_ok_def)
    have "credentials_ok ?w" using remove_session[OF okw(1), of ?i] w by (simp add: world_eqs)
    moreover have "owned (sw_db ?w) j \<longleftrightarrow> j \<noteq> ?i \<and> owned (sw_db w) j" "deleting (sw_db ?w) j \<longleftrightarrow> j \<noteq> ?i \<and> deleting (sw_db w) j" for j
      by (auto simp: world_ops owned_def owned_vod_def deleting_def delete_view[OF okw(2)])
    moreover have "getSetting (sw_db ?w) = getSetting (sw_db w)"
      using session_op_settings[of "OpDeleteSession ?i now" "sw_db w"] by (auto simp: fun_eq_iff world_ops)
    moreover have "condemned x ?w" if "condemned x w" for x
      using condemned_removed[OF okw(1) that] by (simp add: world_eqs)
    ultimately have "doomed ss ?w"
      using w unfolding doomed_def tidy_def has_secret_def world_ops by auto
    then show "\<exists>x. snd (write_db (\<lambda>d. deleteSessionAndRevokePlaybackGrants d ?i now) w) = Inr x \<and> doomed ss ?w"
      by (simp add: world_ops(6))
  qed
  have files: "runs (doomed ss) (call Works (\<lambda>w. (w, resolve ()))) (\<lambda>_. doomed ss) E"
    by (rule runs_works) simp
  show ?thesis
    unfolding finalizeSessionDeletion_def
    by (rule runs_and_then[OF stopped], rule runs_and_then[OF forget], rule runs_and_then[OF removed], rule files)
qed

lemma finalize_all_settles:
  assumes "\<And>k. \<forall>x \<in> set (stop k). bystander x"
  shows "runs (doomed ss) (finalize_all (\<lambda>_ _. Works) stop now n ss) (\<lambda>_. doomed []) E"
proof (induction ss arbitrary: n)
  case Nil
  then show ?case by (auto intro: runs_done)
next
  case (Cons s ss)
  show ?case unfolding finalize_all.simps by (rule runs_and_then[OF finalize_settles[OF assms] Cons.IH])
qed

definition few_deletions :: "relay_session table \<Rightarrow> bool" where
  "few_deletions rows \<longleftrightarrow> length (filter (\<lambda>(_, r). ses_deletionPending (row_json r)) rows) \<le> 100"

lemma pending_complete:
  assumes ok: "db_ok d" and few: "few_deletions (db_sessions d)" and "deleting d i"
  shows "i \<in> ses_id ` set (listSessionDeletionPending d 100)"
proof -
  let ?pending = "filter (\<lambda>(_, r). ses_deletionPending (row_json r)) (db_sessions d)"
  obtain r where r: "map_of (db_sessions d) i = Some r" "ses_deletionPending (row_json r)"
    using assms(3) by (auto simp: deleting_def getSession_def get_json_def split: option.splits)
  then have "(i, r) \<in> set ?pending" by (auto dest: map_of_SomeD)
  then have "row_json r \<in> set (jsons (order_asc (\<lambda>p. row_date (snd p)) ?pending))"
    by (force simp: jsons_def order_asc_def)
  moreover have "listSessionDeletionPending d 100 = jsons (order_asc (\<lambda>p. row_date (snd p)) ?pending)"
    using few by (simp add: listSessionDeletionPending_def sql_limit_def clamp_limit_def few_deletions_def jsons_def
        order_asc_def)
  moreover have "ses_id (row_json r) = i" using ok r by (simp add: db_ok_def sessions_named_def)
  ultimately show ?thesis by force
qed

lemma quiet_settled:
  assumes "doomed [] w" and "unaffecting (sw_db w) d"
  shows "doomed [] (w\<lparr>sw_db := d\<rparr>)"
proof -
  have ok: "credentials_ok w" using assms(1) by (simp add: doomed_def tidy_def)
  then have d: "getSetting d = getSetting (sw_db w)" "credential_view d = credential_view (sw_db w)"
    using assms(2) by (simp_all add: unaffecting_def credentials_ok_def)
  show ?thesis
    using assms(1) quiet_credentials[OF ok assms(2)] view_owned[OF d(2)]
    by (simp add: doomed_def tidy_def d(1) has_secret_def)
qed

lemma recovery_settles:
  assumes stop: "\<And>k. \<forall>x \<in> set (stop k). bystander x" and env: "\<And>k j. \<forall>x \<in> set (env k j). bystander x"
    and role: "RoleController \<in> set (coalesce (po_roles opts) [RoleController])"
  shows "runs (\<lambda>w. credentials_ok w \<and> few_deletions (db_sessions (sw_db w)))
     (recoverSessions Works Works (\<lambda>_ _. Works) (\<lambda>_ _. Works) Works opts stop env clock now)
     (\<lambda>_. doomed []) (doomed [])"
proof -
  let ?start = "\<lambda>w. credentials_ok w \<and> few_deletions (db_sessions (sw_db w))"
  have "runs ?start (recoverPending Works (\<lambda>_ _. Works)) (\<lambda>_ w. tidy w \<and> few_deletions (db_sessions (sw_db w))) E" for E
    unfolding runs_def
  proof (intro allI impI)
    fix w
    assume "?start w"
    let ?r = "recoverPending Works (\<lambda>_ _. Works) w"
    have "case ?r of (w', Returned x) \<Rightarrow> unsettled {} (db_sessions (sw_db w)) w' | (w', _) \<Rightarrow> E w'"
      using recover_pending_settles[of "db_sessions (sw_db w)" E] \<open>?start w\<close> by (simp add: runs_def)
    then show "case ?r of (w', Returned x) \<Rightarrow> tidy w' \<and> few_deletions (db_sessions (sw_db w')) | (w', _) \<Rightarrow> E w'"
      using \<open>?start w\<close> by (cases ?r; cases "snd ?r") (simp_all add: unsettled_def tidy_def)
  qed
  then have first: "runs ?start (if RoleController \<in> set (coalesce (po_roles opts) [RoleController])
      then recoverPending Works (\<lambda>_ _. Works) else done_with 0)
      (\<lambda>_ w. tidy w \<and> few_deletions (db_sessions (sw_db w))) (doomed [])"
    using role by simp
  have listed: "runs (\<lambda>w. tidy w \<and> few_deletions (db_sessions (sw_db w)))
      (call Works (read_db (\<lambda>d. listSessionDeletionPending d 100))) (\<lambda>ss. doomed ss) (doomed [])"
  proof (rule runs_works)
    fix w
    assume w: "tidy w \<and> few_deletions (db_sessions (sw_db w))"
    then have ok: "db_ok (sw_db w)" by (simp add: tidy_def credentials_ok_def)
    have "condemned s w" if "s \<in> set (listSessionDeletionPending (sw_db w) 100)" for s
      using pending_listed[OF that ok] by (simp add: condemned_def)
    then have "doomed (listSessionDeletionPending (sw_db w) 100) w"
      using w pending_complete[OF ok] by (simp add: doomed_def)
    then show "\<exists>x. snd (read_db (\<lambda>d. listSessionDeletionPending d 100) w) = Inr x \<and>
        doomed x (fst (read_db (\<lambda>d. listSessionDeletionPending d 100) w))"
      by (simp add: world_ops)
  qed
  have reset: "runs (doomed []) (call Works (on_db (\<lambda>d. reset_sessions env clock 0 (listSessions d) d)))
      (\<lambda>_. doomed []) (doomed [])"
    using quiet_settled[OF _ quiet_reset[where env = env, OF env]] by (intro runs_call) (simp_all add: world_eqs)
  show ?thesis
    unfolding recoverSessions_def
    by (rule runs_and_then[OF first], rule runs_and_then[OF listed], rule runs_and_then[OF finalize_all_settles[OF stop]],
        rule runs_and_then[OF reset]) (auto intro: runs_done)
qed

text \<open>A new installation.\<close>

definition fresh_world :: session_world where
  "fresh_world = \<lparr>sw_db = empty_db, sw_secrets = Map.empty\<rparr>"

lemma fresh_credentials: "credentials_ok fresh_world"
  by (simp add: credentials_ok_def fresh_world_def db_ok_def keys_unique_empty sessions_named_def markers_ok_def
      has_secret_def owned_def owned_vod_def getSession_def getSetting_def get_json_def)
    (simp add: empty_db_def)

end
