(* ===== verification/RelaySessionSamples.thy ===== *)
theory RelaySessionSamples
  imports RelayCrashRecovery RelaySamples
begin

text \<open>
  Concrete values for the witnesses of the session service: a codec of links, a profile, a provider's
  item, and the worlds a creation that crashes, one that works and a deletion that crashes leave.
\<close>

section \<open>A codec\<close>

fun char_bits :: "char \<Rightarrow> string" where
  "char_bits (Char b0 b1 b2 b3 b4 b5 b6 b7) =
     map (\<lambda>b. if b then CHR ''t'' else CHR ''f'') [b0, b1, b2, b3, b4, b5, b6, b7]"

fun read_bits :: "string \<Rightarrow> string" where
  "read_bits (c0 # c1 # c2 # c3 # c4 # c5 # c6 # c7 # cs) =
     Char (c0 = CHR ''t'') (c1 = CHR ''t'') (c2 = CHR ''t'') (c3 = CHR ''t'')
       (c4 = CHR ''t'') (c5 = CHR ''t'') (c6 = CHR ''t'') (c7 = CHR ''t'') # read_bits cs"
| "read_bits _ = []"

definition text_bits :: "string \<Rightarrow> string" where
  "text_bits s = concat (map char_bits s)"

lemma read_char: "read_bits (char_bits c @ cs) = c # read_bits cs"
  by (cases c) simp

lemma read_text: "read_bits (text_bits s) = s"
  by (induction s) (simp_all add: text_bits_def read_char)

lemma char_bits_set: "set (char_bits c) \<subseteq> {CHR ''t'', CHR ''f''}"
  by (cases c) auto

lemma text_bits_set: "set (text_bits s) \<subseteq> {CHR ''t'', CHR ''f''}"
  using char_bits_set by (fastforce simp: text_bits_def)

definition write_fields :: "string list \<Rightarrow> string" where
  "write_fields xs = concat (map (\<lambda>s. text_bits s @ ''e'') xs)"

definition read_fields :: "string \<Rightarrow> string list" where
  "read_fields s = map read_bits (butlast (js_split (CHR ''e'') s))"

lemma split_fields: "js_split (CHR ''e'') (write_fields xs) = map text_bits xs @ [[]]"
proof (induction xs)
  case Nil
  then show ?case by (simp add: write_fields_def)
next
  case (Cons x xs)
  have "CHR ''e'' \<notin> set (text_bits x)" using text_bits_set[of x] by auto
  then show ?case using Cons by (simp add: write_fields_def js_split_append)
qed

lemma read_write_fields: "read_fields (write_fields xs) = xs"
  by (simp add: read_fields_def split_fields read_text comp_def)

lemma write_fields_Cons: "write_fields (x # xs) = text_bits x @ CHR ''e'' # write_fields xs"
  by (simp add: write_fields_def)

lemma write_fields_plain: "CHR ''.'' \<notin> set (write_fields xs)"
proof (induction xs)
  case Nil
  then show ?case by (simp add: write_fields_def)
next
  case (Cons x xs)
  have "CHR ''.'' \<notin> set (text_bits x)" using text_bits_set[of x] by auto
  then show ?case using Cons by (simp add: write_fields_Cons)
qed

definition write_payload :: "json \<Rightarrow> string" where
  "write_payload j =
     write_fields (map (\<lambda>k. coalesce (json_string (json_field k j)) []) [''sessionId'', ''grantHash'', ''edgeNodeId'', ''issuedAt''] @
       (case json_string (json_field ''expiresAt'' j) of None \<Rightarrow> [] | Some t \<Rightarrow> [t]))"

definition read_payload :: "string \<Rightarrow> json option" where
  "read_payload x =
     (case read_fields x of
        [s, h, n, t] \<Rightarrow> Some (payload_json \<lparr>ep_sessionId = s, ep_grantHash = h, ep_edgeNodeId = n, ep_issuedAt = t, ep_expiresAt = None\<rparr>)
      | [s, h, n, t, e] \<Rightarrow> Some (payload_json \<lparr>ep_sessionId = s, ep_grantHash = h, ep_edgeNodeId = n, ep_issuedAt = t, ep_expiresAt = Some e\<rparr>)
      | _ \<Rightarrow> None)"

definition write_instant :: "instant \<Rightarrow> string" where
  "write_instant t = (if t < 0 then CHR ''m'' else CHR ''p'') # replicate (nat \<bar>t\<bar>) CHR ''i''"

definition read_instant :: "string \<Rightarrow> instant option" where
  "read_instant x = (case x of [] \<Rightarrow> None | c # cs \<Rightarrow> Some (if c = CHR ''m'' then - int (length cs) else int (length cs)))"

definition sample_codec :: grant_platform where
  "sample_codec =
     \<lparr>gp_hashToken = (\<lambda>t. t), gp_hmac = (\<lambda>k b. text_bits k @ text_bits b @ ''s''), gp_encode = write_payload,
      gp_decode = read_payload, gp_iso = write_instant, gp_date = read_instant\<rparr>"

lemma write_payload_fields:
  "\<exists>xs. write_payload (payload_json p) = write_fields xs \<and> xs \<noteq> [] \<and> read_payload (write_fields xs) = Some (payload_json p)"
proof (cases "ep_expiresAt p")
  case None
  then show ?thesis
    by (intro exI[of _ "[ep_sessionId p, ep_grantHash p, ep_edgeNodeId p, ep_issuedAt p]"])
      (cases p, simp add: write_payload_def payload_json_def read_payload_def read_write_fields)
next
  case (Some e)
  then show ?thesis
    by (intro exI[of _ "[ep_sessionId p, ep_grantHash p, ep_edgeNodeId p, ep_issuedAt p, e]"])
      (cases p, simp add: write_payload_def payload_json_def read_payload_def read_write_fields)
qed

lemma sample_codec_ok: "codec_ok sample_codec"
proof -
  have "read_payload (write_payload (payload_json p)) = Some (payload_json p) \<and> write_payload (payload_json p) \<noteq> [] \<and>
      CHR ''.'' \<notin> set (write_payload (payload_json p))" for p
  proof -
    obtain x xs where "write_payload (payload_json p) = write_fields (x # xs)"
      "read_payload (write_fields (x # xs)) = Some (payload_json p)"
      using write_payload_fields[of p] by (metis neq_Nil_conv)
    then show ?thesis using write_fields_plain[of "x # xs"] by (simp add: write_fields_Cons)
  qed
  moreover have "CHR ''.'' \<notin> set (text_bits k)" for k using text_bits_set[of k] by auto
  moreover have "read_instant (write_instant t) = Some t" for t by (simp add: read_instant_def write_instant_def)
  ultimately show ?thesis by (simp add: codec_ok_def sample_codec_def write_instant_def)
qed

section \<open>Sessions\<close>

lemma sample_named: "keys_unique sample_db" "sessions_named sample_db"
  unfolding sample_db_def
  by (rule keys_unique_run[OF keys_unique_empty])
    (rule sessions_named_run[OF keys_unique_empty], simp add: sessions_named_def empty_db_def)

definition sample_hls_profile :: profile where
  "sample_hls_profile =
     \<lparr>prof_profileId = ''f'', prof_name = ''Profile'', prof_description = None, prof_platform = Universal,
      prof_state = Verified,
      prof_video = \<lparr>vid_codec = H264, vid_decodeMode = DecodeAuto, vid_profile = None, vid_level = None,
        vid_pixelFormat = ''yuv420p'', vid_width = 1280, vid_height = 720, vid_frameRate = 30, vid_bitrateKbps = 3000,
        vid_maxrateKbps = 3000, vid_bufferKbps = 6000, vid_quality = None, vid_preset = None, vid_tune = None,
        vid_gop = 60, vid_bFrames = 0\<rparr>,
      prof_audio = \<lparr>aud_codec = Aac, aud_channels = 2, aud_layout = ''stereo'', aud_sampleRate = 48000,
        aud_bitrateKbps = 128, aud_defaultLanguage = None\<rparr>,
      prof_delivery = \<lparr>del_method = Hls, del_container = ContainerMpegts, del_segmentType = SegMpegts,
        del_segmentDuration = 4, del_playlistType = PlaylistVod, del_latencyMode = LatencyStandard\<rparr>,
      prof_processing = \<lparr>proc_toneMap = False, proc_burnSubtitles = False, proc_passthrough = PassNever,
        proc_maxWorkers = 2\<rparr>,
      prof_disabledReason = None, prof_createdAt = 1, prof_updatedAt = 1\<rparr>"

lemma hls_profile_valid: "valid_profile sample_hls_profile"
  by code_simp

definition sample_item :: media_item where
  "sample_item =
     \<lparr>mi_id = ''i'', mi_providerId = ''p'', mi_name = ''Movie'', mi_kind = ''movie'', mi_overview = None,
      mi_productionYear = None, mi_durationSeconds = Some 90, mi_playbackPositionSeconds = None,
      mi_playedPercentage = None, mi_imageUrl = None, mi_parentId = None, mi_seriesName = None,
      mi_seasonName = None, mi_indexNumber = None, mi_parentIndexNumber = None, mi_collectionType = None,
      mi_videoCodec = None, mi_audioCodec = None, mi_width = None, mi_height = None, mi_hdr = None,
      mi_versions = None,
      mi_audioTracks = Some [\<lparr>mt_id = ''a1'', mt_index = 0, mt_kind = TrackAudio, mt_title = ''French'', mt_language = Some ''fr'',
         mt_codec = None, mt_channels = None, mt_external = None, mt_isDefault = Some True, mt_isForced = None\<rparr>,
        \<lparr>mt_id = ''a2'', mt_index = 1, mt_kind = TrackAudio, mt_title = ''English'', mt_language = Some ''EN_us'',
         mt_codec = None, mt_channels = None, mt_external = None, mt_isDefault = None, mt_isForced = None\<rparr>],
      mi_subtitleTracks = None\<rparr>"

lemma sample_track: "selectDefaultAudioTrack sample_item ''eng'' = Some ''a2''"
  by code_simp

definition sample_owner_user :: user_identity where
  "sample_owner_user =
     \<lparr>user_id = ''o'', user_providerId = ''p'', user_providerUserId = ''po'', user_displayName = ''Owner'',
      user_roles = [RoleOwner], user_defaultProfileId = None, user_allowedProfileIds = [],
      user_firstSeenAt = 1, user_lastSeenAt = 1\<rparr>"

definition sample_service :: session_platform where
  "sample_service =
     \<lparr>sp_hashToken = (\<lambda>t. t), sp_stringify = (\<lambda>a u. a @ '':'' @ u), sp_publicUrl = ''https://relay'',
      sp_item = (\<lambda>_ _ _. resolve sample_item), sp_gateway = None, sp_remoteItem = (\<lambda>_ _ _. throw PlainError),
      sp_cluster = False, sp_nodeId = None\<rparr>"

definition sample_request :: create_request where
  "sample_request =
     \<lparr>cr_target = VodRequest sample_source, cr_name = None, cr_profileId = ''f'', cr_platformMode = Universal,
      cr_pinned = False, cr_reportActivity = True, cr_placementPolicy = PlaceLocal, cr_preferredNodeId = None,
      cr_placementLocked = False, cr_preferredRegion = None, cr_playbackTtlSeconds = None\<rparr>"

definition sample_context :: create_context where
  "sample_context = \<lparr>ctx_ownerId = ''o'', ctx_providerAccessToken = Some ''tk'', ctx_providerUserId = Some ''po''\<rparr>"

definition installed_world :: session_world where
  "installed_world = fresh_world\<lparr>sw_db := run_ops
     [CatalogOp (OpCreateProvider sample_provider), CatalogOp (OpPutProfile sample_hls_profile),
      AccessOp (OpCreateUser sample_owner_user)] empty_db\<rparr>"

definition sample_create :: "(nat \<Rightarrow> fault) \<Rightarrow> session_world \<Rightarrow> session_world" where
  "sample_create f w = fst (create f (\<lambda>_. Works) id sample_service (\<lambda>_. []) ''s'' ''t'' (\<lambda>_. 5) (Some sample_context) sample_request w)"

text \<open>The creation worked; it crashed after the credential was stored; the deletion crashed when it had begun.\<close>

definition created_world :: session_world where
  "created_world = sample_create (\<lambda>_. Works) installed_world"

definition crashed_world :: session_world where
  "crashed_world = sample_create (\<lambda>k. if k = 2 then CrashesAfter else Works) installed_world"

definition deleting_world :: session_world where
  "deleting_world = fst (deleteSession (\<lambda>k. if k = 0 then CrashesBefore else Works) [] (\<lambda>_. 6) ''s'' created_world)"

lemma installed_reached: "session_call\<^sup>*\<^sup>* fresh_world installed_world"
proof -
  let ?w = "\<lambda>xs. fresh_world\<lparr>sw_db := run_ops xs empty_db\<rparr>"
  have step: "session_call (?w xs) (?w (xs @ [x]))" if "bystander x" for xs x
    using session_call.others[OF that, of "?w xs"] by simp
  have start: "?w [] = fresh_world" by (simp add: fresh_world_def)
  have "session_call\<^sup>*\<^sup>* (?w []) (?w ([] @ [CatalogOp (OpCreateProvider sample_provider)]))"
    by (rule r_into_rtranclp) (rule step, simp)
  also have "session_call (?w ([] @ [CatalogOp (OpCreateProvider sample_provider)]))
      (?w (([] @ [CatalogOp (OpCreateProvider sample_provider)]) @ [CatalogOp (OpPutProfile sample_hls_profile)]))"
    by (rule step) simp
  also have "session_call (?w (([] @ [CatalogOp (OpCreateProvider sample_provider)]) @ [CatalogOp (OpPutProfile sample_hls_profile)]))
      (?w ((([] @ [CatalogOp (OpCreateProvider sample_provider)]) @ [CatalogOp (OpPutProfile sample_hls_profile)]) @
        [AccessOp (OpCreateUser sample_owner_user)]))"
    by (rule step) simp
  finally show ?thesis unfolding start installed_world_def by simp
qed

lemma create_reached: "session_call w (sample_create f w)"
  unfolding sample_create_def by (rule session_call.created) (simp_all add: sample_context_def)

lemma created_reached: "session_call\<^sup>*\<^sup>* fresh_world created_world"
  unfolding created_world_def using installed_reached create_reached by (rule rtranclp.rtrancl_into_rtrancl)

lemma crashed_reached: "session_call\<^sup>*\<^sup>* fresh_world crashed_world"
  unfolding crashed_world_def using installed_reached create_reached by (rule rtranclp.rtrancl_into_rtrancl)

lemma deleting_reached: "session_call\<^sup>*\<^sup>* fresh_world deleting_world"
  unfolding deleting_world_def
  by (rule rtranclp.rtrancl_into_rtrancl[OF created_reached]) (rule session_call.deleted, simp)

lemma created_state:
  "map_option (\<lambda>s. (owned_vod (Some s), ses_deletionPending s)) (getSession (sw_db created_world) ''s'') = Some (True, False)"
  by code_simp

lemma crashed_state: "sw_secrets crashed_world (sessionSourceSecretRef ''s'') \<noteq> None"
  "getSession (sw_db crashed_world) ''s'' = None"
  by code_simp+

end
