(* ===== verification/RelayUrl.thy ===== *)
theory RelayUrl
  imports RelayPrelude
begin

text \<open>
  What the source uses of the platform's \<^verbatim>\<open>URL\<close> and \<^verbatim>\<open>URLSearchParams\<close>: the query of a URL
  as a list of name and value pairs, in the \<^verbatim>\<open>application/x-www-form-urlencoded\<close> format. A
  character is a byte of the UTF-8 text. What the parser makes of the part of a URL before
  its query (the scheme, the host, the default path, or a \<^verbatim>\<open>TypeError\<close>) is the argument
  \<open>origin\<close>.
\<close>

section \<open>Splitting and joining\<close>

fun split_on :: "char \<Rightarrow> string \<Rightarrow> string list" where
  "split_on c [] = [[]]"
| "split_on c (x # xs) =
     (if x = c then [] # split_on c xs
      else case split_on c xs of [] \<Rightarrow> [[x]] | p # ps \<Rightarrow> (x # p) # ps)"

fun join_with :: "string \<Rightarrow> string list \<Rightarrow> string" where
  "join_with s [] = []"
| "join_with s [x] = x"
| "join_with s (x # y # ys) = x @ s @ join_with s (y # ys)"

definition before :: "char \<Rightarrow> string \<Rightarrow> string" where
  "before c xs = takeWhile (\<lambda>x. x \<noteq> c) xs"

definition after :: "char \<Rightarrow> string \<Rightarrow> string" where
  "after c xs = drop (Suc (length (before c xs))) xs"

lemma split_on_not_Nil [simp]: "split_on c xs \<noteq> []"
  by (induction xs) (auto split: list.splits)

lemma split_on_none: "c \<notin> set xs \<Longrightarrow> split_on c xs = [xs]"
  by (induction xs) auto

lemma split_on_append:
  "c \<notin> set xs \<Longrightarrow> split_on c (xs @ c # ys) = xs # split_on c ys"
  by (induction xs) auto

lemma split_on_join:
  assumes "\<forall>x \<in> set xs. c \<notin> set x" and "xs \<noteq> []"
  shows "split_on c (join_with [c] xs) = xs"
  using assms
proof (induction xs)
  case (Cons x xs)
  then show ?case by (cases xs) (auto simp: split_on_none split_on_append)
qed simp

lemma split_on_clean: "\<forall>p \<in> set (split_on c xs). c \<notin> set p"
  by (induction xs) (auto split: list.splits)

lemma before_append [simp]: "c \<notin> set xs \<Longrightarrow> before c (xs @ c # ys) = xs"
  unfolding before_def by (induction xs) auto

lemma after_append [simp]: "c \<notin> set xs \<Longrightarrow> after c (xs @ c # ys) = ys"
  by (simp add: after_def)

lemma before_none: "c \<notin> set xs \<Longrightarrow> before c xs = xs"
  unfolding before_def takeWhile_eq_all_conv by metis

lemma after_none: "c \<notin> set xs \<Longrightarrow> after c xs = []"
  by (simp add: after_def before_none)

lemma before_clean: "c \<notin> set (before c xs)"
  by (auto simp: before_def dest: set_takeWhileD)

section \<open>Percent-encoding\<close>

definition code :: "char \<Rightarrow> int" where
  "code c = of_char c"

definition hex_digit :: "int \<Rightarrow> char" where
  "hex_digit n = ''0123456789ABCDEF'' ! nat n"

definition hex_value :: "char \<Rightarrow> int option" where
  "hex_value c =
     (let n = code c
      in if 48 \<le> n \<and> n \<le> 57 then Some (n - 48)
         else if 65 \<le> n \<and> n \<le> 70 then Some (n - 55)
         else if 97 \<le> n \<and> n \<le> 102 then Some (n - 87)
         else None)"

definition unreserved :: "char \<Rightarrow> bool" where
  "unreserved c \<longleftrightarrow>
     (let n = code c
      in 48 \<le> n \<and> n \<le> 57 \<or> 65 \<le> n \<and> n \<le> 90 \<or> 97 \<le> n \<and> n \<le> 122 \<or> c \<in> set ''*-._'')"

definition encode_char :: "char \<Rightarrow> string" where
  "encode_char c =
     (if unreserved c then [c]
      else if c = CHR '' '' then ''+''
      else [CHR ''%'', hex_digit (code c div 16), hex_digit (code c mod 16)])"

definition form_encode :: "string \<Rightarrow> string" where
  "form_encode s = concat (map encode_char s)"

definition escape :: "string \<Rightarrow> char option" where
  "escape cs =
     (case cs of
        a # b # _ \<Rightarrow>
          (case (hex_value a, hex_value b) of
             (Some x, Some y) \<Rightarrow> Some (char_of (16 * x + y))
           | _ \<Rightarrow> None)
      | _ \<Rightarrow> None)"

fun percent_decode :: "string \<Rightarrow> string" where
  "percent_decode [] = []"
| "percent_decode (c # cs) =
     (case (if c = CHR ''%'' then escape cs else None) of
        Some x \<Rightarrow> x # percent_decode (drop 2 cs)
      | None \<Rightarrow> c # percent_decode cs)"

definition form_decode :: "string \<Rightarrow> string" where
  "form_decode s = percent_decode (map (\<lambda>c. if c = CHR ''+'' then CHR '' '' else c) s)"

lemma code_bounds: "0 \<le> code c" "code c < 256"
proof -
  have "code c = int (of_char c)" by (simp add: code_def of_nat_of_char)
  then show "0 \<le> code c" "code c < 256" using nat_of_char_less_256[of c] by simp_all
qed

lemma code_digits: "0 \<le> code c div 16" "code c div 16 < 16" "0 \<le> code c mod 16" "code c mod 16 < 16"
  using code_bounds[of c] by (simp_all add: pos_imp_zdiv_nonneg_iff)

lemma char_of_code [simp]: "char_of (code c) = c"
  by (simp add: code_def)

lemma hex_digits:
  assumes "0 \<le> n" and "n < 16"
  shows "hex_value (hex_digit n) = Some n" "unreserved (hex_digit n)"
proof -
  have "n \<in> set [0..15]" using assms by simp
  then have "n \<in> {0, 1, 2, 3, 4, 5, 6, 7, 8, 9, 10, 11, 12, 13, 14, 15}" by (simp add: upto_rec1)
  then show "hex_value (hex_digit n) = Some n" "unreserved (hex_digit n)"
    by (auto simp: hex_value_def hex_digit_def unreserved_def code_def)
qed

lemma escape_hex: "escape (hex_digit (code c div 16) # hex_digit (code c mod 16) # cs) = Some c"
proof -
  have "escape (hex_digit (code c div 16) # hex_digit (code c mod 16) # cs) =
      Some (char_of (16 * (code c div 16) + code c mod 16))"
    by (simp add: escape_def hex_digits code_digits)
  also have "16 * (code c div 16) + code c mod 16 = code c" by (rule mult_div_mod_eq)
  finally show ?thesis by simp
qed

lemma not_unreserved [simp]:
  "\<not> unreserved (CHR ''%'')" "\<not> unreserved (CHR ''+'')" "\<not> unreserved (CHR ''&'')"
  "\<not> unreserved (CHR ''='')" "\<not> unreserved (CHR ''#'')" "\<not> unreserved (CHR ''?'')" "\<not> unreserved (CHR '':'')"
  by (simp_all add: unreserved_def code_def)

lemma encode_char_clean:
  "x \<in> set (encode_char c) \<Longrightarrow> unreserved x \<or> x = CHR ''%'' \<or> x = CHR ''+''"
  by (auto simp: encode_char_def hex_digits code_digits split: if_splits)

lemma form_encode_clean:
  "x \<in> set (form_encode s) \<Longrightarrow> unreserved x \<or> x = CHR ''%'' \<or> x = CHR ''+''"
  using encode_char_clean by (auto simp: form_encode_def)

lemma form_encode_without [simp]:
  "CHR ''&'' \<notin> set (form_encode s)" "CHR ''='' \<notin> set (form_encode s)" "CHR ''#'' \<notin> set (form_encode s)"
  using form_encode_clean by fastforce+

lemma unreserved_neq: "unreserved x \<Longrightarrow> x \<noteq> CHR ''+'' \<and> x \<noteq> CHR ''%''"
  using not_unreserved(1,2) by blast

lemma form_decode_encode_char:
  "percent_decode (map (\<lambda>c. if c = CHR ''+'' then CHR '' '' else c) (encode_char c) @ rest) =
     c # percent_decode rest"
proof -
  have "hex_digit (code c div 16) \<noteq> CHR ''+''" "hex_digit (code c mod 16) \<noteq> CHR ''+''"
    using unreserved_neq[OF hex_digits(2)] code_digits by blast+
  moreover have "unreserved c \<Longrightarrow> c \<noteq> CHR ''+'' \<and> c \<noteq> CHR ''%''" by (rule unreserved_neq)
  ultimately show ?thesis by (auto simp: encode_char_def escape_hex numeral_2_eq_2)
qed

lemma form_decode_encode [simp]: "form_decode (form_encode s) = s"
proof (induction s)
  case Nil
  then show ?case by (simp add: form_decode_def form_encode_def)
next
  case (Cons c cs)
  have "form_decode (form_encode (c # cs)) =
      percent_decode (map (\<lambda>c. if c = CHR ''+'' then CHR '' '' else c) (encode_char c) @
        map (\<lambda>c. if c = CHR ''+'' then CHR '' '' else c) (form_encode cs))"
    by (simp add: form_decode_def form_encode_def)
  also have "\<dots> = c # cs" unfolding form_decode_encode_char using Cons.IH by (simp add: form_decode_def)
  finally show ?case .
qed

section \<open>The query of a URL\<close>

type_synonym query_params = "(string \<times> string) list"

definition parse_pair :: "string \<Rightarrow> string \<times> string" where
  "parse_pair s = (form_decode (before (CHR ''='') s), form_decode (after (CHR ''='') s))"

definition parse_query :: "string \<Rightarrow> query_params" where
  "parse_query q = map parse_pair (filter (\<lambda>s. s \<noteq> []) (split_on (CHR ''&'') q))"

definition print_pair :: "string \<times> string \<Rightarrow> string" where
  "print_pair p = form_encode (fst p) @ CHR ''='' # form_encode (snd p)"

definition print_query :: "query_params \<Rightarrow> string" where
  "print_query ps = join_with ''&'' (map print_pair ps)"

lemma print_pair_clean [simp]: "CHR ''&'' \<notin> set (print_pair p)" "CHR ''#'' \<notin> set (print_pair p)" "print_pair p \<noteq> []"
  by (simp_all add: print_pair_def)

lemma parse_print_pair [simp]: "parse_pair (print_pair p) = p"
  by (simp add: parse_pair_def print_pair_def)

lemma parse_print_query [simp]: "parse_query (print_query ps) = ps"
proof (cases "ps = []")
  case True
  then show ?thesis by (simp add: parse_query_def print_query_def)
next
  case False
  have "split_on (CHR ''&'') (print_query ps) = map print_pair ps"
    unfolding print_query_def by (rule split_on_join) (use False in auto)
  then show ?thesis by (simp add: parse_query_def comp_def)
qed

text \<open>The operations of \<^verbatim>\<open>URLSearchParams\<close>.\<close>

definition params_delete :: "string \<Rightarrow> query_params \<Rightarrow> query_params" where
  "params_delete k ps = filter (\<lambda>p. fst p \<noteq> k) ps"

definition params_get :: "string \<Rightarrow> query_params \<Rightarrow> string option" where
  "params_get k ps = map_of ps k"

fun params_set :: "string \<Rightarrow> string \<Rightarrow> query_params \<Rightarrow> query_params" where
  "params_set k v [] = [(k, v)]"
| "params_set k v (p # ps) = (if fst p = k then (k, v) # params_delete k ps else p # params_set k v ps)"

section \<open>URLs\<close>

record parsed_url =
  url_origin :: string
  url_params :: query_params
  url_hash :: string

definition parse_url :: "(string \<Rightarrow> string option) \<Rightarrow> string \<Rightarrow> parsed_url option" where
  "parse_url origin u =
     (let rest = before (CHR ''#'') u
      in map_option (\<lambda>o'. \<lparr>url_origin = o', url_params = parse_query (after (CHR ''?'') rest),
                           url_hash = after (CHR ''#'') u\<rparr>)
           (origin (before (CHR ''?'') rest)))"

definition print_url :: "parsed_url \<Rightarrow> string" where
  "print_url p =
     url_origin p @ (if url_params p = [] then [] else CHR ''?'' # print_query (url_params p)) @
     (if url_hash p = [] then [] else CHR ''#'' # url_hash p)"

text \<open>
  The URL parser gives a normal form: what it printed it parses to itself, and the printed
  part before the query contains neither separator.
\<close>

definition origin_ok :: "(string \<Rightarrow> string option) \<Rightarrow> bool" where
  "origin_ok origin \<longleftrightarrow>
     (\<forall>b x. origin b = Some x \<longrightarrow> origin x = Some x \<and> CHR ''?'' \<notin> set x \<and> CHR ''#'' \<notin> set x)"

lemma join_clean: "\<forall>x \<in> set xs. c \<notin> set x \<Longrightarrow> c \<notin> set s \<Longrightarrow> c \<notin> set (join_with s xs)"
  by (induction xs rule: join_with.induct[of _ s]) auto

lemma print_query_clean [simp]: "CHR ''#'' \<notin> set (print_query ps)"
  unfolding print_query_def by (rule join_clean) auto

lemma parse_print_url:
  assumes "origin_ok origin" and "origin b = Some (url_origin p)"
  shows "parse_url origin (print_url p) = Some p"
proof -
  have o: "origin (url_origin p) = Some (url_origin p)" "CHR ''?'' \<notin> set (url_origin p)" "CHR ''#'' \<notin> set (url_origin p)"
    using assms by (auto simp: origin_ok_def)
  let ?q = "if url_params p = [] then [] else CHR ''?'' # print_query (url_params p)"
  have clean: "CHR ''#'' \<notin> set (url_origin p @ ?q)" using o(3) by simp
  have "before (CHR ''#'') (print_url p) = url_origin p @ ?q" "after (CHR ''#'') (print_url p) = url_hash p"
  proof -
    show "before (CHR ''#'') (print_url p) = url_origin p @ ?q"
      using before_append[OF clean, of "url_hash p"] before_none[OF clean]
      by (cases "url_hash p = []") (simp_all add: print_url_def)
    show "after (CHR ''#'') (print_url p) = url_hash p"
      using after_append[OF clean, of "url_hash p"] after_none[OF clean]
      by (cases "url_hash p = []") (simp_all add: print_url_def)
  qed
  moreover have "before (CHR ''?'') (url_origin p @ ?q) = url_origin p"
    "parse_query (after (CHR ''?'') (url_origin p @ ?q)) = url_params p"
    using o(2) parse_print_query[of "url_params p"]
    by (simp_all add: before_none after_none del: parse_print_query) (simp add: parse_query_def)
  ultimately show ?thesis using o(1) by (simp add: parse_url_def Let_def)
qed

lemma params_delete_clean [simp]: "params_get k (params_delete k ps) = None"
  by (induction ps) (auto simp: params_get_def params_delete_def)

lemma params_get_set [simp]: "params_get k (params_set k v ps) = Some v"
  by (induction ps) (auto simp: params_get_def)

lemma params_delete_none: "params_get k ps = None \<Longrightarrow> params_delete k ps = ps"
  unfolding params_delete_def params_get_def by (induction ps) (auto split: if_splits)

lemma params_delete_get_other: "j \<noteq> k \<Longrightarrow> params_get j (params_delete k ps) = params_get j ps"
  by (induction ps) (auto simp: params_get_def params_delete_def)

lemma params_get_set_other: "j \<noteq> k \<Longrightarrow> params_get j (params_set k v ps) = params_get j ps"
proof (induction ps)
  case (Cons p ps)
  then show ?case using params_delete_get_other[of j k ps] by (simp add: params_get_def)
qed (simp add: params_get_def)

lemma params_delete_twice [simp]: "params_delete k (params_delete k ps) = params_delete k ps"
  by (simp add: params_delete_none)

lemma params_set_twice [simp]: "params_set k v (params_set k v ps) = params_set k v ps"
  by (induction ps) (simp_all, simp add: params_delete_def)

end
