(* ===== verification/RelaySessionResults.thy ===== *)
theory RelaySessionResults
  imports RelayWorkers RelaySessionSamples RelayUrl
begin

text \<open>
  The properties of the session service: its transcode workers, playback links and playlists and
  the cache of segments.
\<close>

section \<open>Workers\<close>

text \<open>C30: The count of active transcode workers is exact and the queue is bounded: in every
  interleaving of requests, releases, aborts and wake-ups it is the number of calls that
  hold a worker, and at most eight calls wait per worker.\<close>

theorem workers_accounted:
  assumes "(worker_step maxWorkers)\<^sup>*\<^sup>* (idle_pool, {}) (p, holders)"
  shows "finite holders \<and> wp_active p = card holders \<and> length (wp_waiters p) \<le> 8 * maxWorkers"
  using pool_ok_run[OF assms pool_ok_idle] by (simp add: pool_ok_def)

definition one_busy :: worker_pool where
  "one_busy = idle_pool\<lparr>wp_active := 1\<rparr>"

lemma one_busy_reached: "worker_step 1 (idle_pool, {}) (one_busy, {0})"
  by (rule worker_step.granted[of 0 idle_pool "{}"])
    (simp_all add: new_call_def idle_pool_def waiting_def acquireWorker_def one_busy_def)

theorem workers_accounted_witness: "wp_active one_busy = card {0 :: nat}"
  using workers_accounted[OF r_into_rtranclp[of "worker_step 1", OF one_busy_reached]] by simp

text \<open>When every woken call goes on before another request is handled, no more than
  the configured number of calls hold a worker.\<close>

lemma prompt_workers_within_limit:
  assumes "(prompt_step maxWorkers)\<^sup>*\<^sup>* (idle_pool, {}) (p, holders)"
  shows "card holders \<le> maxWorkers"
  using within_limit_run[OF assms within_limit_idle] by (simp add: within_limit_def pool_ok_def)

lemma prompt_workers_within_limit_witness: "card {0 :: nat} \<le> 1"
proof -
  have "prompt_step 1 (idle_pool, {}) (one_busy, {0})"
    using prompt_step.prompt[OF one_busy_reached] by (simp add: hand_over_def one_busy_def idle_pool_def)
  from prompt_workers_within_limit[OF r_into_rtranclp[of "prompt_step 1", OF this]] show ?thesis .
qed

lemma busy_pool_reached:
  "k \<le> m \<Longrightarrow> (worker_step m)\<^sup>*\<^sup>* (idle_pool, {}) (idle_pool\<lparr>wp_active := k\<rparr>, {..<k})"
proof (induction k)
  case 0
  have "idle_pool\<lparr>wp_active := 0\<rparr> = idle_pool" by (simp add: idle_pool_def)
  then show ?case by simp
next
  case (Suc k)
  have "worker_step m (idle_pool\<lparr>wp_active := k\<rparr>, {..<k}) (idle_pool\<lparr>wp_active := Suc k\<rparr>, insert k {..<k})"
    by (rule worker_step.granted)
      (use Suc.prems in \<open>simp_all add: new_call_def idle_pool_def waiting_def acquireWorker_def\<close>)
  moreover have "insert k {..<k} = {..<Suc k}" by auto
  ultimately show ?case using Suc by (simp add: rtranclp.rtrancl_into_rtrancl)
qed

text \<open>C34: The limit is not kept in general: a released worker is handed to the first waiting call
  only when that call goes on, so a request that comes in between takes it as well, and
  one call more than the limit holds a worker.\<close>

theorem late_wakeup_exceeds_limit:
  assumes "0 < maxWorkers"
  shows "\<exists>p holders. (worker_step maxWorkers)\<^sup>*\<^sup>* (idle_pool, {}) (p, holders) \<and> card holders = maxWorkers + 1"
proof -
  let ?m = maxWorkers
  let ?full = "idle_pool\<lparr>wp_active := ?m\<rparr>" and ?queued = "idle_pool\<lparr>wp_active := ?m, wp_waiters := [WakeOf ?m]\<rparr>"
  let ?woken = "idle_pool\<lparr>wp_active := ?m - 1, wp_woken := [?m]\<rparr>"
  have "(worker_step ?m)\<^sup>*\<^sup>* (idle_pool, {}) (?full, {..<?m})" by (rule busy_pool_reached) simp
  also have "worker_step ?m (?full, {..<?m}) (?queued, {..<?m})"
    by (rule worker_step.queued[of ?m]) (use assms in \<open>simp_all add: new_call_def idle_pool_def waiting_def acquireWorker_def\<close>)
  also have "worker_step ?m (?queued, {..<?m}) (releaseWorker ?queued, {..<?m} - {0})"
    by (rule worker_step.released) (use assms in simp)
  also have "releaseWorker ?queued = ?woken" by (simp add: releaseWorker_def wake_def idle_pool_def)
  also have "worker_step ?m (?woken, {..<?m} - {0}) (?woken\<lparr>wp_active := ?m\<rparr>, insert (Suc ?m) ({..<?m} - {0}))"
    by (rule worker_step.granted) (use assms in \<open>simp_all add: new_call_def idle_pool_def waiting_def acquireWorker_def\<close>)
  also have "worker_step ?m (?woken\<lparr>wp_active := ?m\<rparr>, insert (Suc ?m) ({..<?m} - {0}))
      (resumeWaiter ?m (?woken\<lparr>wp_active := ?m\<rparr>), insert ?m (insert (Suc ?m) ({..<?m} - {0})))"
    by (rule worker_step.resumed) simp
  finally have "(worker_step ?m)\<^sup>*\<^sup>* (idle_pool, {})
      (resumeWaiter ?m (?woken\<lparr>wp_active := ?m\<rparr>), insert ?m (insert (Suc ?m) ({..<?m} - {0})))" .
  moreover have "card (insert ?m (insert (Suc ?m) ({..<?m} - {0}))) = ?m + 1"
    using assms by (simp add: card_insert_if)
  ultimately show ?thesis by blast
qed

theorem late_wakeup_exceeds_limit_witness:
  "\<exists>p holders. (worker_step 2)\<^sup>*\<^sup>* (idle_pool, {}) (p, holders) \<and> card holders = 3"
  using late_wakeup_exceeds_limit[of 2] by simp

text \<open>An aborted call is never taken out of the queue, because the listener looks for a function
  that was not pushed: a worker that is released can be handed to a call that is gone, and
  then a live call waits although nobody holds a worker and nobody is about to.\<close>

lemma aborted_waiter_loses_wakeup:
  "\<exists>p i. (worker_step 1)\<^sup>*\<^sup>* (idle_pool, {}) (p, {}) \<and> wp_waiters p = [WakeOf i] \<and> i \<notin> wp_rejected p \<and>
     wp_active p = 0 \<and> wp_woken p = []"
proof -
  let ?p = "\<lambda>ws rs. one_busy\<lparr>wp_waiters := ws, wp_rejected := rs\<rparr>"
  have step: "worker_step 1 (?p ws {}, {0}) (?p (ws @ [WakeOf i]) {}, {0})"
    if "length ws < 8" "0 < i" "i \<notin> waiter_call ` set ws" for ws i
    by (rule worker_step.queued[of i])
      (use that in \<open>simp_all add: new_call_def one_busy_def idle_pool_def waiting_def acquireWorker_def\<close>)
  have busy: "?p [] {} = one_busy" by (simp add: one_busy_def idle_pool_def)
  have "(worker_step 1)\<^sup>*\<^sup>* (idle_pool, {}) (?p [] {}, {0})" using one_busy_reached busy by auto
  also have "worker_step 1 (?p [] {}, {0}) (?p [WakeOf 1] {}, {0})" using step[of "[]" 1] by simp
  also have "worker_step 1 (?p [WakeOf 1] {}, {0}) (?p [WakeOf 1, WakeOf 2] {}, {0})" using step[of "[WakeOf 1]" 2] by simp
  also have "worker_step 1 (?p [WakeOf 1, WakeOf 2] {}, {0}) (abortWaiter 1 (?p [WakeOf 1, WakeOf 2] {}), {0})"
    by (rule worker_step.aborted) (simp_all add: waiting_def)
  also have "abortWaiter 1 (?p [WakeOf 1, WakeOf 2] {}) = ?p [WakeOf 1, WakeOf 2] {1}"
    by (simp add: abortWaiter_def splice_out_def)
  also have "worker_step 1 (?p [WakeOf 1, WakeOf 2] {1}, {0}) (releaseWorker (?p [WakeOf 1, WakeOf 2] {1}), {0} - {0})"
    by (rule worker_step.released) simp
  finally have "(worker_step 1)\<^sup>*\<^sup>* (idle_pool, {}) (releaseWorker (?p [WakeOf 1, WakeOf 2] {1}), {})" by simp
  then show ?thesis
    by (intro exI[of _ "releaseWorker (?p [WakeOf 1, WakeOf 2] {1})"] exI[of _ 2])
      (simp add: release_fields one_busy_def idle_pool_def)
qed

section \<open>Playback links\<close>

text \<open>What the creation of an edge link leaves behind: the key in the settings and the grant.\<close>

lemma signing_key_stored:
  assumes "edgeGrantSigningKey between may_create fresh now d = (d', resolve secret)"
  shows "getSetting d' EDGE_GRANT_SIGNING_KEY = Some secret \<and> grants_kept d d'"
proof (cases "truthy (getSetting d EDGE_GRANT_SIGNING_KEY)")
  case True
  then show ?thesis using assms
    by (cases "getSetting d EDGE_GRANT_SIGNING_KEY") (auto simp: edgeGrantSigningKey_def Let_def grants_kept_same)
next
  case False
  then have "may_create" and
    put: "\<exists>b record. putSettingIfAbsent (run_ops between d) EDGE_GRANT_SIGNING_KEY fresh now = (d', resolve (b, record)) \<and>
      secret = vr_value record"
    using assms by (auto simp: edgeGrantSigningKey_def Let_def split: if_splits prod.splits sum.splits)
  then obtain b rc where
    stored: "putSettingIfAbsent (run_ops between d) EDGE_GRANT_SIGNING_KEY fresh now = (d', resolve (b, rc))"
      "secret = vr_value rc" by blast
  then have "getVersionedSetting d' EDGE_GRANT_SIGNING_KEY = Some rc"
    by (auto simp: putSettingIfAbsent_def Let_def case_prod_beta split: option.splits)
  then have "getSetting d' EDGE_GRANT_SIGNING_KEY = Some secret"
    using stored(2) by (auto simp: getVersionedSetting_def getSetting_def get_versioned_def get_json_def)
  moreover have "grants_kept d (exec_op (SettingOp (OpPutSettingIfAbsent EDGE_GRANT_SIGNING_KEY fresh now)) (run_ops between d))"
    by (rule grants_kept_trans[OF grants_kept_run grants_kept_exec])
  ultimately show ?thesis using stored(1) by simp
qed

lemma stored_session_id: "sessions_named d \<Longrightarrow> getSession d i = Some s \<Longrightarrow> ses_id s = i"
  by (auto simp: sessions_named_def getSession_def get_json_def)

lemma created_edge_link:
  assumes made: "createEdgePlaybackGrant pl env clock fresh token n d = (d1, resolve link)"
    and ok: "keys_unique d" "sessions_named d"
  shows "\<exists>secret g issued. getSetting d1 EDGE_GRANT_SIGNING_KEY = Some secret \<and>
     getPlaybackGrant (run_ops (env 0) d) (gp_hashToken pl token) = Some g \<and>
     grants_kept (run_ops (env 0) d) d1 \<and>
     link = encodeEdgeGrant pl \<lparr>ep_sessionId = grant_sessionId g, ep_grantHash = gp_hashToken pl token,
       ep_edgeNodeId = n, ep_issuedAt = issued, ep_expiresAt = map_option (gp_iso pl) (grant_expiresAt g)\<rparr> secret"
proof -
  let ?d1 = "run_ops (env 0) d" and ?h = "gp_hashToken pl token"
  let ?d2 = "run_ops (env 1) ?d1"
  from made obtain g where g: "validPlaybackGrant ?d1 ?h (clock 0) = resolve g"
    by (auto simp: createEdgePlaybackGrant_def Let_def split: if_splits sum.splits)
  with made obtain s where s: "getSession ?d2 (grant_sessionId g) = Some s"
    by (auto simp: createEdgePlaybackGrant_def Let_def split: if_splits option.splits)
  with made g obtain secret where
    key: "edgeGrantSigningKey (env 3) True fresh (clock 1) (run_ops (env 2) ?d2) = (d1, resolve secret)"
      and link: "link = encodeEdgeGrant pl \<lparr>ep_sessionId = ses_id s, ep_grantHash = ?h, ep_edgeNodeId = n,
        ep_issuedAt = gp_iso pl (clock 2), ep_expiresAt = map_option (gp_iso pl) (grant_expiresAt g)\<rparr> secret"
    by (auto simp: createEdgePlaybackGrant_def Let_def split: if_splits prod.splits sum.splits)
  have "ses_id s = grant_sessionId g"
    using stored_session_id[OF _ s] sessions_named_run keys_unique_run ok by blast
  moreover have "grants_kept ?d1 d1"
    using signing_key_stored[OF key] grants_kept_run grants_kept_trans by blast
  ultimately show ?thesis using g link signing_key_stored[OF key] by (auto simp: valid_grant)
qed

text \<open>C19: A link exchanged for an edge stands for the link it was made from: at any later state
  with the same signing key it resolves on that edge, and on a node with another role,
  exactly as the hash of the original does, and no other edge accepts it.\<close>

theorem edge_link_stands_for_original:
  assumes pl: "codec_ok pl"
    and made: "createEdgePlaybackGrant pl env clock fresh token n d = (d1, resolve link)"
    and ok: "keys_unique d" "sessions_named d"
    and same_key: "getSetting (ds 0) EDGE_GRANT_SIGNING_KEY = getSetting d1 EDGE_GRANT_SIGNING_KEY"
    and key: "truthy (getSetting d1 EDGE_GRANT_SIGNING_KEY)"
    and later: "ds 1 = run_ops ops d1" and time: "t 0 \<le> t 1"
  shows "resolvePlaybackGrant pl opts t ds link =
     (if isEdgeOnly opts \<and> po_nodeId opts \<noteq> Some n then throw UnauthorizedError
      else validPlaybackGrant (ds 1) (gp_hashToken pl token) (t 1))"
proof -
  let ?h = "gp_hashToken pl token"
  from created_edge_link[OF made ok] obtain secret g issued where
    secret: "getSetting d1 EDGE_GRANT_SIGNING_KEY = Some secret" and
    g: "getPlaybackGrant (run_ops (env 0) d) ?h = Some g" and
    kept: "grants_kept (run_ops (env 0) d) d1" and
    link: "link = encodeEdgeGrant pl \<lparr>ep_sessionId = grant_sessionId g, ep_grantHash = ?h, ep_edgeNodeId = n,
       ep_issuedAt = issued, ep_expiresAt = map_option (gp_iso pl) (grant_expiresAt g)\<rparr> secret" by blast
  have "grants_kept (run_ops (env 0) d) (ds 1)" using kept later grants_kept_run grants_kept_trans by metis
  then obtain g1 where g1: "getPlaybackGrant (ds 1) ?h = Some g1" "grant_sessionId g1 = grant_sessionId g"
      "grant_expiresAt g1 = grant_expiresAt g"
    using g unfolding grants_kept_def grant_evolves_def by blast
  have signing: "snd (edgeGrantSigningKey [] False [] 0 (ds 0)) = resolve secret"
    using key secret same_key by (simp add: edgeGrantSigningKey_def)
  have iso: "gp_date pl (gp_iso pl x) = Some x" "truthy (Some (gp_iso pl x))" for x
    using pl by (simp_all add: codec_ok_def)
  show ?thesis
  proof (cases "grant_expiresAt g")
    case None
    then show ?thesis
      using g1 by (auto simp: resolvePlaybackGrant_def link parse_encode[OF pl] decode_encode[OF pl] signing
          validPlaybackGrant_def)
  next
    case (Some x)
    then show ?thesis
      using g1 iso time
      by (auto simp: resolvePlaybackGrant_def link parse_encode[OF pl] decode_encode[OF pl] signing
          validPlaybackGrant_def)
  qed
qed

theorem edge_link_stands_for_original_witness:
  "\<exists>d1 link. createEdgePlaybackGrant sample_codec (\<lambda>_. []) (\<lambda>_. 4) ''key'' ''h'' ''e'' sample_db = (d1, resolve link) \<and>
     resolvePlaybackGrant sample_codec \<lparr>po_nodeId = Some ''e'', po_roles = Some [RoleEdge]\<rparr> (\<lambda>_. 5) (\<lambda>_. d1) link =
       resolve sample_grant"
proof -
  let ?made = "createEdgePlaybackGrant sample_codec (\<lambda>_. []) (\<lambda>_. 4) ''key'' ''h'' ''e'' sample_db"
  let ?d1 = "fst ?made"
  have "case snd ?made of Inl _ \<Rightarrow> False | Inr _ \<Rightarrow> True" by code_simp
  then obtain link where made: "?made = (?d1, resolve link)" by (cases ?made; cases "snd ?made") auto
  have key: "getSetting ?d1 EDGE_GRANT_SIGNING_KEY = Some ''key''" by code_simp
  have grant: "validPlaybackGrant ?d1 (gp_hashToken sample_codec ''h'') 5 = resolve sample_grant" by code_simp
  have "resolvePlaybackGrant sample_codec \<lparr>po_nodeId = Some ''e'', po_roles = Some [RoleEdge]\<rparr> (\<lambda>_. 5) (\<lambda>_. ?d1) link =
     (if isEdgeOnly \<lparr>po_nodeId = Some ''e'', po_roles = Some [RoleEdge]\<rparr> \<and>
         po_nodeId \<lparr>po_nodeId = Some ''e'', po_roles = Some [RoleEdge]\<rparr> \<noteq> Some ''e'' then throw UnauthorizedError
      else validPlaybackGrant ?d1 (gp_hashToken sample_codec ''h'') 5)"
    by (rule edge_link_stands_for_original[OF sample_codec_ok made sample_named, where ops = "[]"]) (simp_all add: key)
  then show ?thesis using made grant by (intro exI[of _ ?d1] exI[of _ link]) simp
qed

text \<open>C20: Links of a deleted session stay dead: once a deletion has begun, no link, original or
  exchanged, resolves to the session at any later state, however requests interleave with
  other writes, as long as no session is created with its id.\<close>

theorem deleted_links_stay_dead:
  assumes "beginSessionDeletion d i opts = (d', resolve (Applied c))"
    and "\<And>k. \<exists>xs. (\<forall>x \<in> set xs. \<not> creates_session i x) \<and> ds k = run_ops xs d'"
    and "resolvePlaybackGrant pl popts clock ds token = resolve g"
  shows "grant_sessionId g \<noteq> i"
proof -
  obtain k h where "validPlaybackGrant (ds k) h (clock 1) = resolve g" using resolved_grant[OF assms(3)] by blast
  then have g: "getPlaybackGrant (ds k) h = Some g" "grant_revokedAt g = None" by (simp_all add: valid_grant)
  obtain xs where "\<forall>x \<in> set xs. \<not> creates_session i x" "ds k = run_ops xs d'" using assms(2)[of k] by blast
  then have "no_live_grant i (ds k)" using no_live_grant_run[OF begun_no_live_grant[OF assms(1)]] by simp
  then show ?thesis using g unfolding no_live_grant_def by blast
qed

theorem deleted_links_stay_dead_witness:
  "let d' = fst (beginSessionDeletion
       (exec_op (SessionOp (OpCreateSession (sample_session\<lparr>ses_id := ''s2''\<rparr>)
          (sample_grant\<lparr>grant_sessionId := ''s2'', grant_tokenHash := ''h2''\<rparr>) None)) sample_db) ''s''
       \<lparr>sdo_observedAt = 6, sdo_inactiveBefore = None, sdo_requireUnpinned = False\<rparr>)
   in \<exists>g. resolvePlaybackGrant sample_codec \<lparr>po_nodeId = None, po_roles = None\<rparr> (\<lambda>_. 7) (\<lambda>_. d') ''h2'' = resolve g \<and>
     grant_sessionId g \<noteq> ''s''"
proof -
  let ?d = "exec_op (SessionOp (OpCreateSession (sample_session\<lparr>ses_id := ''s2''\<rparr>)
          (sample_grant\<lparr>grant_sessionId := ''s2'', grant_tokenHash := ''h2''\<rparr>) None)) sample_db"
  let ?begun = "beginSessionDeletion ?d ''s'' \<lparr>sdo_observedAt = 6, sdo_inactiveBefore = None, sdo_requireUnpinned = False\<rparr>"
  let ?d' = "fst ?begun"
  let ?resolved = "resolvePlaybackGrant sample_codec \<lparr>po_nodeId = None, po_roles = None\<rparr> (\<lambda>_. 7) (\<lambda>_. ?d') ''h2''"
  have "case snd ?begun of Inr (Applied _) \<Rightarrow> True | _ \<Rightarrow> False" by code_simp
  then obtain c where begun: "?begun = (?d', resolve (Applied c))"
    by (cases ?begun; cases "snd ?begun") (auto split: write_result.splits)
  have "case ?resolved of Inl _ \<Rightarrow> False | Inr _ \<Rightarrow> True" by code_simp
  then obtain g where resolved: "?resolved = resolve g" by (cases ?resolved) auto
  have "\<exists>xs. (\<forall>x \<in> set xs. \<not> creates_session ''s'' x) \<and> ?d' = run_ops xs ?d'" by (intro exI[of _ "[]"]) simp
  from deleted_links_stay_dead[OF begun this resolved] resolved show ?thesis by (simp only: Let_def) blast
qed

section \<open>Playlists\<close>

text \<open>The tag that announces the length of a segment, to the thousandth of a second.\<close>

definition extinf_line :: "rat \<Rightarrow> string" where
  "extinf_line x = ''#EXTINF:'' @ toFixed3 x @ '',''"

lemma join_lines_with: "join_lines ls = join_with [CHR 0x0A] ls"
  by (induction ls rule: join_lines.induct) simp_all

text \<open>C24: The playlist and the segments agree: split at its line breaks, a playlist that is served is
  a head of tags, then for each of the indexes 0, 1, ..., n - 1, in order, one \<^verbatim>\<open>#EXTINF\<close> tag with the
  length of that segment to the thousandth of a second and the URI of that segment, then the end tag
  and the empty line behind the last break; the head has no URI and no \<^verbatim>\<open>#EXTINF\<close> tag, so no other
  segment is listed. The lengths the tags print are positive, at most the segment duration, and add up
  to the duration of the session. The handler of segments goes on exactly for these indexes and
  answers every other number with NotFoundError. The base of the URIs, when one is given, has no line
  break and does not start as a tag.\<close>

theorem playlist_matches_segments:
  assumes "playback pl opts clock ds token = resolve (session, p)"
    and "manifest pl opts clock ds token base = resolve playlist"
    and source: "ses_source session = Some source" and "0 < t" and "ses_durationSeconds session = Some t"
    and "valid_profile p" and base: "truthy base \<longrightarrow> is_uri_line (the base) \<and> CHR 0x0A \<notin> set (the base)"
  shows "\<exists>head lengths.
     split_on (CHR 0x0A) playlist =
       head @ concat (map (\<lambda>i. [extinf_line (lengths ! i), segment_uri base p i]) [0 ..< length lengths]) @
       [''#EXT-X-ENDLIST'', []] \<and>
     (\<forall>l \<in> set head. \<not> is_uri_line l \<and> take 8 l \<noteq> ''#EXTINF:'') \<and>
     (\<forall>i < length lengths. is_uri_line (segment_uri base p i)) \<and>
     sum_list lengths = t \<and> (\<forall>x \<in> set lengths. 0 < x \<and> x \<le> del_segmentDuration (prof_delivery p)) \<and>
     (\<forall>index e. snd (segment pl opts cacheDir clock ds e token index) =
        (if index \<in> of_nat ` {..<length lengths}
         then snd (serve_segment opts e (cacheDir @ ''/vod/'' @ segment_key session p
                (decimal (nat \<lfloor>index\<rfloor>) @ ''.'' @ segment_extension p)))
         else throw NotFoundError))"
proof -
  have seconds: "0 < segment_seconds p"
    using assms(6) by (simp add: valid_profile_def valid_delivery_settings_def)
  have kind: "ses_kind session = Vod" "playlist = join_lines (playlist_lines base t p)"
    using assms(1,2,5) by (auto simp: manifest_def split: if_splits)
  let ?lengths = "map (segment_length t p) [0 ..< segment_count t p]"
  have "\<forall>l \<in> set (playlist_lines base t p). CHR 0x0A \<notin> set l" using playlist_line_no_break base by blast
  moreover have "playlist_lines base t p \<noteq> []" by (simp add: playlist_lines_def)
  ultimately have "split_on (CHR 0x0A) playlist = playlist_lines base t p"
    unfolding kind(2) join_lines_with by (rule split_on_join)
  moreover have listed: "map (\<lambda>i. [extinf_line (?lengths ! i), segment_uri base p i]) [0 ..< length ?lengths] =
      map (\<lambda>i. [''#EXTINF:'' @ toFixed3 (segment_length t p i) @ '','', segment_uri base p i]) [0 ..< segment_count t p]"
    by (intro map_cong) (simp_all add: extinf_line_def)
  ultimately have lines: "split_on (CHR 0x0A) playlist = playlist_head base p @
      concat (map (\<lambda>i. [extinf_line (?lengths ! i), segment_uri base p i]) [0 ..< length ?lengths]) @
      [''#EXT-X-ENDLIST'', []]"
    unfolding playlist_lines_def listed by -
  have uri: "is_uri_line (segment_uri base p i)" for i
    using base by (auto simp: is_uri_line_def segment_uri_def split: list.splits)
  have lengths: "sum_list ?lengths = t" "\<forall>x \<in> set ?lengths. 0 < x \<and> x \<le> segment_seconds p"
    using sum_segment_lengths[OF seconds assms(4)] segment_length_bounds[OF seconds assms(4)] by auto
  have "segment_index_ok t p index \<longleftrightarrow> index \<in> of_nat ` {..<length ?lengths}" for index
    unfolding segment_index_ok_iff[OF seconds assms(4)] by auto
  then have "snd (segment pl opts cacheDir clock ds e token index) =
        (if index \<in> of_nat ` {..<length ?lengths}
         then snd (serve_segment opts e (cacheDir @ ''/vod/'' @ segment_key session p
                (decimal (nat \<lfloor>index\<rfloor>) @ ''.'' @ segment_extension p)))
         else throw NotFoundError)" for index e
    using assms(1,4,5) source kind(1) by (simp add: segment_def has_duration_def Let_def)
  with lines lengths uri playlist_head_tags show ?thesis
    by (intro exI[of _ "playlist_head base p"] exI[of _ ?lengths]) blast
qed

definition playing_db :: db where
  "playing_db = exec_op (CatalogOp (OpPutProfile sample_hls_profile)) sample_db"

lemma playing:
  "playback sample_codec \<lparr>po_nodeId = None, po_roles = None\<rparr> (\<lambda>_. 7) (\<lambda>_. playing_db) ''h'' = resolve (sample_session, sample_hls_profile)"
  by code_simp

theorem playlist_matches_segments_witness:
  "snd (segment sample_codec \<lparr>po_nodeId = None, po_roles = None\<rparr> ''cache'' (\<lambda>_. 7) (\<lambda>_. playing_db)
      \<lparr>sg_reported = True, sg_report_fails = False, sg_disk = True, sg_restore = (\<lambda>_. resolve False), sg_origin = resolve (),
       sg_producers = False, sg_ensure = resolve (), sg_inflight = None, sg_job = throw PlainError\<rparr> ''h'' (1 / 2)) = throw NotFoundError"
proof -
  let ?opts = "\<lparr>po_nodeId = None, po_roles = None\<rparr>"
  have "manifest sample_codec ?opts (\<lambda>_. 7) (\<lambda>_. playing_db) ''h'' None =
      resolve (join_lines (playlist_lines None 90 sample_hls_profile))"
    unfolding manifest_def playing by (simp add: sample_session_def sample_hls_profile_def has_duration_def)
  from playlist_matches_segments[OF playing this, of sample_source 90 "''cache''"] hls_profile_valid
  obtain lengths :: "rat list" where agree: "snd (segment sample_codec ?opts ''cache'' (\<lambda>_. 7) (\<lambda>_. playing_db) e ''h'' index) =
        (if index \<in> of_nat ` {..<length lengths}
         then snd (serve_segment ?opts e (''cache'' @ ''/vod/'' @ segment_key sample_session sample_hls_profile
                (decimal (nat \<lfloor>index\<rfloor>) @ ''.'' @ segment_extension sample_hls_profile)))
         else throw NotFoundError)" for index e
    by (simp add: sample_session_def) blast
  have "(1 / 2 :: rat) \<notin> of_nat ` {..<length lengths}"
  proof
    assume "(1 / 2 :: rat) \<in> of_nat ` {..<length lengths}"
    then obtain k where "(1 / 2 :: rat) = of_nat k" by blast
    then have "of_nat (2 * k) = (1 :: rat)" by simp
    then have "2 * k = 1" by (metis of_nat_1 of_nat_eq_iff)
    then show False by presburger
  qed
  then show ?thesis using agree by simp
qed

section \<open>The cache\<close>

text \<open>The cleanup of the cache keeps what is protected and removes what has expired; with a
  limit the total ends within it or only protected files are left, the total that is reported is
  that of the kept files, and no file is kept while a younger one is removed to make room.\<close>

lemma cleanup_keeps_the_recent:
  assumes "cleanupExpired protected now ttl limit scratch visited = (kept, removed, used)"
  shows "set kept \<union> set removed = set visited \<and>
    (\<forall>f \<in> set visited. cf_path f \<in> protected \<longrightarrow> f \<in> set kept \<and> f \<notin> set removed) \<and>
    (\<forall>f \<in> set visited. expired_file protected now ttl f \<longrightarrow> f \<in> set removed) \<and>
    used = scratch + sum_list (map cf_size kept) \<and>
    (\<forall>l. limit = Some l \<and> 0 < l \<longrightarrow> used \<le> l \<or> (\<forall>f \<in> set kept. cf_path f \<in> protected)) \<and>
    (\<forall>f \<in> set kept. \<forall>g \<in> set removed. cf_path f \<notin> protected \<and> \<not> expired_file protected now ttl g \<longrightarrow>
       cf_mtimeMs g \<le> cf_mtimeMs f)"
proof -
  let ?files = "filter (\<lambda>f. \<not> expired_file protected now ttl f) visited"
  let ?expired = "filter (expired_file protected now ttl) visited"
  let ?used = "scratch + sum_list (map cf_size ?files)"
  let ?sorted = "js_sort (\<lambda>a b. cf_mtimeMs a - cf_mtimeMs b) ?files"
  have expired: "f \<in> set ?expired \<Longrightarrow> cf_path f \<notin> protected" for f by (simp add: expired_file_def)
  show ?thesis
  proof (cases "limit = None \<or> limit = Some 0")
    case True
    then have "kept = ?files" "removed = ?expired" "used = ?used"
      using assms by (auto simp: cleanupExpired_def Let_def)
    then show ?thesis using True expired by auto
  next
    case False
    then obtain l where l: "limit = Some l" "0 < l" by (cases limit) auto
    obtain evicted where run: "evict_oldest protected l ?used ?sorted = (kept, evicted, used)" "removed = ?expired @ evicted"
      using assms l by (auto simp: cleanupExpired_def Let_def split: prod.splits)
    have files: "set ?sorted = set ?files" by simp
    have parts: "set kept \<union> set evicted = set ?files" "\<forall>f \<in> set evicted. cf_path f \<notin> protected"
      using evict_oldest_parts[OF run(1)] files by auto
    have "sum_list (map cf_size ?sorted) \<le> ?used" by (simp add: sum_js_sort)
    from evict_oldest_total[OF run(1) this]
    have total: "used + sum_list (map cf_size ?files) = ?used + sum_list (map cf_size kept)"
        "used \<le> l \<or> (\<forall>f \<in> set kept. cf_path f \<in> protected)"
      unfolding sum_js_sort by blast+
    have order: "\<forall>f \<in> set kept. \<forall>g \<in> set evicted. cf_path f \<notin> protected \<longrightarrow> cf_mtimeMs g \<le> cf_mtimeMs f"
      using evict_oldest_order[OF run(1) sorted_js_sort] by blast
    have "used = scratch + sum_list (map cf_size kept)" using total(1) by simp
    moreover have "set kept \<union> set removed = set visited" using parts(1) run(2) by auto
    moreover have "f \<in> set kept \<and> f \<notin> set removed" if "f \<in> set visited" "cf_path f \<in> protected" for f
    proof -
      have fresh: "\<not> expired_file protected now ttl f" using that(2) by (simp add: expired_file_def)
      have "f \<in> set kept \<union> set evicted" using parts(1) that(1) fresh by simp
      moreover have "f \<notin> set evicted" using parts(2) that(2) by blast
      ultimately show ?thesis using run(2) fresh by simp
    qed
    moreover have "f \<in> set removed" if "f \<in> set visited" "expired_file protected now ttl f" for f
      using that run(2) by simp
    moreover have "cf_mtimeMs g \<le> cf_mtimeMs f"
      if "f \<in> set kept" "g \<in> set removed" "cf_path f \<notin> protected" "\<not> expired_file protected now ttl g" for f g
    proof -
      have "g \<in> set evicted" using that(2,4) run(2) by simp
      then show ?thesis using order that(1,3) by blast
    qed
    ultimately show ?thesis using total(2) l by blast
  qed
qed

definition sample_file :: "string \<Rightarrow> nat \<Rightarrow> rat \<Rightarrow> cache_file" where
  "sample_file path n t = \<lparr>cf_path = path, cf_size = n, cf_mtimeMs = t\<rparr>"

definition sample_files :: "cache_file list" where
  "sample_files = [sample_file ''b'' 6 90, sample_file ''p'' 5 80, sample_file ''a'' 3 70, sample_file ''x'' 9 20]"

lemma sample_cleanup:
  "cleanupExpired {''p''} 100 50 (Some 10) 0 sample_files =
     ([sample_file ''p'' 5 80], [sample_file ''x'' 9 20, sample_file ''a'' 3 70, sample_file ''b'' 6 90], 5)"
  by (simp add: cleanupExpired_def sample_files_def sample_file_def expired_file_def js_sort_def)

lemma cleanup_keeps_the_recent_witness: "(5 :: nat) = 0 + sum_list (map cf_size [sample_file ''p'' 5 80])"
  using cleanup_keeps_the_recent[OF sample_cleanup] by blast

text \<open>Eviction by profile finds nothing: the segments of a session lie below the identifier of the
  profile itself, while the eviction looks for directories that begin with the identifier and \<open>-r\<close>,
  so a request that names a profile removes none of its segments.\<close>

lemma profile_eviction_misses:
  assumes "CHR ''/'' \<notin> set (ses_id session)" and "CHR ''/'' \<notin> set (prof_profileId p)"
    and "\<not> ef_all flt" and "ef_profileId flt = Some (prof_profileId p)" and "prof_profileId p \<noteq> []"
  shows "\<not> evicts flt (segment_key session p file)"
proof -
  obtain rest where "js_split (CHR ''/'') (segment_key session p file) = ses_id session # prof_profileId p # rest"
    using split_key[OF assms(1,2)] by blast
  then show ?thesis using assms by (simp add: evicts_def starts_with_def)
qed

end
