(* ===== verification/RelayOrphans.thy ===== *)
theory RelayOrphans
  imports RelayCrashRecovery
begin

text \<open>
  A credential in the secret store without a session and without a marker is lost: no handler of
  the session service, the recovery included, ever touches it again, wherever the handler stops,
  unless a session with the same id is created.
\<close>

section \<open>A lost credential\<close>

definition lost_credential :: "ident \<Rightarrow> string \<Rightarrow> session_world \<Rightarrow> bool" where
  "lost_credential i c w \<longleftrightarrow>
     db_ok (sw_db w) \<and> markers_ok (sw_db w) \<and> getSession (sw_db w) i = None \<and> \<not> marked (sw_db w) i \<and>
     sw_secrets w (sessionSourceSecretRef i) = Some c"

abbreviation leaves_lost :: "ident \<Rightarrow> string \<Rightarrow> 'a action \<Rightarrow> bool" where
  "leaves_lost i c m \<equiv> runs (lost_credential i c) m (\<lambda>_. lost_credential i c) (lost_credential i c)"

lemma lost_quiet:
  assumes "lost_credential i c w" and "unaffecting (sw_db w) d"
  shows "lost_credential i c (w\<lparr>sw_db := d\<rparr>)"
proof -
  have "db_ok d" "getSetting d = getSetting (sw_db w)" "credential_view d = credential_view (sw_db w)"
    using assms by (simp_all add: lost_credential_def unaffecting_def)
  moreover from this have "credential_view d i = credential_view (sw_db w) i" by simp
  then have "getSession d i = None" using assms(1) by (simp add: lost_credential_def credential_view_def)
  ultimately show ?thesis using assms(1) by (simp add: lost_credential_def markers_ok_def marked_def)
qed

lemma lost_secrets:
  "lost_credential i c w \<Longrightarrow> j \<noteq> i \<Longrightarrow>
     lost_credential i c (w\<lparr>sw_secrets := secret_put (sw_secrets w) (sessionSourceSecretRef j) v\<rparr>) \<and>
     lost_credential i c (w\<lparr>sw_secrets := secret_delete (sw_secrets w) (sessionSourceSecretRef j)\<rparr>)"
  by (simp add: lost_credential_def secret_put_def secret_delete_def)

lemma lost_unmark: "lost_credential i c w \<Longrightarrow> lost_credential i c (w\<lparr>sw_db := deleteSetting (sw_db w) k\<rparr>)"
  using db_ok_exec[of "sw_db w" "SettingOp (OpDeleteSetting k)"]
  by (auto simp: lost_credential_def markers_ok_def marked_def setting_view delete_setting_view split: if_splits)

lemma lost_mark:
  assumes "lost_credential i c w" and "j \<noteq> i" "j \<noteq> []"
  shows "lost_credential i c (w\<lparr>sw_db := putSetting (sw_db w) (pendingKey j) (sessionSourceSecretRef j) t\<rparr>)"
proof -
  let ?d = "putSetting (sw_db w) (pendingKey j) (sessionSourceSecretRef j) t"
  have "db_ok ?d"
    using db_ok_exec[of "sw_db w" "SettingOp (OpPutSetting (pendingKey j) (sessionSourceSecretRef j) t)"] assms(1)
    by (simp add: lost_credential_def)
  moreover have "markers_ok ?d"
    using assms unfolding lost_credential_def markers_ok_def by (auto simp: setting_view)
  ultimately show ?thesis using assms by (simp add: lost_credential_def marked_def setting_view)
qed

lemma lost_session_op:
  assumes "lost_credential i c w" and "getSession (exec_session_op x (sw_db w)) i = None"
  shows "lost_credential i c (w\<lparr>sw_db := exec_session_op x (sw_db w)\<rparr>)"
  using assms db_ok_exec[of "sw_db w" "SessionOp x"] session_op_settings[of x "sw_db w"]
  by (simp add: lost_credential_def markers_ok_def marked_def)

lemma lost_delete:
  assumes "lost_credential i c w"
  shows "lost_credential i c (w\<lparr>sw_db := deleteSessionAndRevokePlaybackGrants (sw_db w) j t\<rparr>)"
  using lost_session_op[OF assms, of "OpDeleteSession j t"] assms delete_view[of "sw_db w" j t i]
  by (simp add: lost_credential_def)

lemma lost_create:
  assumes "lost_credential i c w" and "ses_id s \<noteq> i"
  shows "lost_credential i c (w\<lparr>sw_db := fst (createSessionWithPlaybackGrant (sw_db w) s g q)\<rparr>)"
  using lost_session_op[OF assms(1), of "OpCreateSession s g q"] assms create_view[of "sw_db w" s g q i]
  by (auto simp: lost_credential_def)

lemma lost_begin:
  assumes "lost_credential i c w"
  shows "lost_credential i c (w\<lparr>sw_db := fst (beginSessionDeletion (sw_db w) j opts)\<rparr>)"
  using lost_session_op[OF assms(1), of "OpBeginSessionDeletion j opts"] assms begin_view[of "sw_db w" j opts i]
  by (auto simp: lost_credential_def)

section \<open>The handlers leave it alone\<close>

lemma leaves_reconcile:
  assumes "j \<noteq> i"
  shows "leaves_lost i c (reconcilePending f j)"
  unfolding reconcilePending_def
proof (rule runs_and_then[OF runs_read])
  fix s
  let ?P = "\<lambda>w. lost_credential i c w \<and> s = getSession (sw_db w) j"
  have "runs ?P (if owned_vod s then done_with ()
       else call (f 1) (on_secrets (\<lambda>st. secret_delete st (sessionSourceSecretRef j)))) (\<lambda>_. lost_credential i c) (lost_credential i c)"
    using lost_secrets[OF _ assms] by (auto intro!: runs_done runs_call simp: world_eqs)
  then show "runs ?P (and_then (if owned_vod s then done_with ()
       else call (f 1) (on_secrets (\<lambda>st. secret_delete st (sessionSourceSecretRef j)))) (\<lambda>_.
         call (f 2) (write_db (\<lambda>d. deleteSetting d (pendingKey j))))) (\<lambda>_. lost_credential i c) (lost_credential i c)"
    by (rule runs_and_then, intro runs_call) (auto simp: world_eqs intro: lost_unmark)
qed simp

lemma leaves_reconcile_all:
  assumes "\<forall>(k, v) \<in> set rs. drop (length PENDING_PREFIX) k \<noteq> i"
  shows "leaves_lost i c (reconcile_all f n rs)"
  using assms
proof (induction rs arbitrary: n)
  case Nil
  then show ?case by (simp add: runs_done)
next
  case (Cons r rs)
  obtain key v where r: "r = (key, v)" by (cases r)
  have other: "drop (length PENDING_PREFIX) key \<noteq> i" using Cons.prems r by simp
  have rest: "leaves_lost i c (reconcile_all f (Suc n) rs)" using Cons by simp
  show ?case
    by (simp add: r Let_def runs_raise) (intro impI runs_and_then[OF leaves_reconcile[OF other]] rest)
qed

lemma leaves_recover_pending: "leaves_lost i c (recoverPending f0 f)"
  unfolding recoverPending_def
proof (rule runs_and_then[OF runs_read], assumption)
  fix rs
  let ?P = "\<lambda>w. lost_credential i c w \<and> rs = listSettingsByPrefix (sw_db w) PENDING_PREFIX"
  let ?other = "\<forall>(k, v) \<in> set rs. drop (length PENDING_PREFIX) k \<noteq> i"
  have "?other" if w: "?P w" for w
  proof -
    have "db_ok (sw_db w)" using w by (simp add: lost_credential_def)
    from marked_listed[OF this] w show ?thesis
      unfolding lost_credential_def markers_ok_def marked_def by (fastforce simp: pendingKey_def)
  qed
  then have "runs ?P (reconcile_all f 0 rs) (\<lambda>_. lost_credential i c) (lost_credential i c)"
    using runs_pre[OF leaves_reconcile_all[of rs i c f 0], of ?P] by (cases ?other) (auto simp: runs_def)
  then show "runs ?P (and_then (reconcile_all f 0 rs) (\<lambda>_. done_with (length rs))) (\<lambda>_. lost_credential i c) (lost_credential i c)"
    by (rule runs_and_then) (auto intro: runs_done)
qed

lemma leaves_create_owned:
  assumes "ses_id s \<noteq> i" "ses_id s \<noteq> []"
  shows "leaves_lost i c (create_owned f g id credential s grant revision)"
proof -
  let ?reconcile = "if credential = None then done_with () else quietly (reconcilePending g (ses_id s))"
  have reconcile: "leaves_lost i c ?reconcile"
    using runs_quietly[OF leaves_reconcile[OF assms(1)]] by (simp add: runs_done)
  have fail: "runs (lost_credential i c) (and_then ?reconcile (\<lambda>_. raise e)) Q (lost_credential i c)" for e :: app_error and Q
    by (rule runs_and_then[OF reconcile]) (simp add: runs_raise)
  have first: "leaves_lost i c
      (case credential of None \<Rightarrow> done_with ()
       | Some (text, now) \<Rightarrow>
           and_then (call (f 1) (write_db (\<lambda>d. putSetting d (pendingKey (ses_id s)) (sessionSourceSecretRef (ses_id s)) now))) (\<lambda>_.
             on_error (call (f 2) (on_secrets (\<lambda>st. secret_put st (sessionSourceSecretRef (ses_id s)) text)))
               (\<lambda>e. and_then ?reconcile (\<lambda>_. raise e))))"
  proof (cases credential)
    case None
    then show ?thesis by (simp add: runs_done)
  next
    case (Some x)
    obtain body now where x: "x = (body, now)" by (cases x)
    have mark: "leaves_lost i c
        (call (f 1) (write_db (\<lambda>d. putSetting d (pendingKey (ses_id s)) (sessionSourceSecretRef (ses_id s)) now)))"
      using lost_mark[OF _ assms] by (intro runs_call) (auto simp: world_eqs)
    have store: "leaves_lost i c (call (f 2) (on_secrets (\<lambda>st. secret_put st (sessionSourceSecretRef (ses_id s)) body)))"
      using lost_secrets[OF _ assms(1)] by (intro runs_call) (auto simp: world_eqs)
    show ?thesis unfolding Some x option.case prod.case
      by (rule runs_and_then[OF mark], rule runs_on_error[OF store]) (use fail Some in auto)
  qed
  have insert: "leaves_lost i c (on_error (call (f 3) (on_db (\<lambda>d. createSessionWithPlaybackGrant d s grant revision) \<circ> id))
       (\<lambda>e. and_then ?reconcile (\<lambda>_. raise e)))"
    by (rule runs_on_error[OF runs_call[where E = "lost_credential i c"]])
      (use fail lost_create[OF _ assms(1)] in \<open>auto simp: world_eqs\<close>)
  have unmark: "leaves_lost i c (if credential = None then done_with ()
       else quietly (call (f 4) (write_db (\<lambda>d. deleteSetting d (pendingKey (ses_id s))))))"
    by (auto intro!: runs_done runs_quietly runs_call simp: world_eqs lost_unmark)
  show ?thesis
    unfolding create_owned_def Let_def
  proof (rule runs_and_then[OF first], rule runs_and_then[OF insert])
    fix created
    show "leaves_lost i c
       (case created of
          Applied _ \<Rightarrow> and_then (if credential = None then done_with ()
                 else quietly (call (f 4) (write_db (\<lambda>d. deleteSetting d (pendingKey (ses_id s)))))) (\<lambda>_. done_with s)
        | Rejected reason _ _ \<Rightarrow> and_then ?reconcile (\<lambda>_. raise (creation_error reason)))"
    proof (cases created)
      case (Applied x)
      show ?thesis unfolding Applied write_result.case
        by (rule runs_and_then[OF unmark]) (simp add: runs_done)
    next
      case (Rejected reason x y)
      show ?thesis unfolding Rejected write_result.case by (rule fail)
    qed
  qed
qed

lemma leaves_create:
  assumes "j \<noteq> i" "j \<noteq> []" and env: "\<And>k. \<forall>x \<in> set (env k). bystander x"
  shows "leaves_lost i c (create f g id pl env j token clock ctx input)"
  unfolding create_def
proof (rule runs_and_then)
  have ok: "lost_credential i c (fst (prepare pl env j token (clock 0) ctx input w))" if "lost_credential i c w" for w
    using prepare_world[of pl env j token "clock 0" ctx input w] that
      lost_quiet[OF that quiet_claim[where env = env, OF env]] by auto
  show "runs (lost_credential i c) (call (f 0) (prepare pl env j token (clock 0) ctx input))
      (\<lambda>r w. lost_credential i c w \<and> ses_id (fst r) = j) (lost_credential i c)"
    using ok prepare_result by (intro runs_call) (auto split: prod.split)
  fix r :: "relay_session \<times> nat option"
  obtain s revision where r: "r = (s, revision)" by (cases r)
  have "leaves_lost i c (create_owned f g id credential s gr revision)" if "ses_id s = j" for credential gr
    by (rule leaves_create_owned) (use that assms in simp_all)
  then show "runs (\<lambda>w. lost_credential i c w \<and> ses_id (fst r) = j)
     (case r of (s, revision) \<Rightarrow> create_owned f g id
        (case (ctx, cr_target input) of
            (Some c, VodRequest _) \<Rightarrow>
              Some (sp_stringify pl (the (ctx_providerAccessToken c)) (the (ctx_providerUserId c)), clock 2)
          | _ \<Rightarrow> None) s (new_grant pl input j token (clock 0) (clock 1)) revision)
     (\<lambda>_. lost_credential i c) (lost_credential i c)"
    by (cases "ses_id s = j") (auto simp: r runs_def)
qed

lemma leaves_finalize:
  assumes stop: "\<forall>x \<in> set stop. bystander x" and other: "ses_id s \<noteq> i"
  shows "leaves_lost i c (finalizeSessionDeletion f stop now s)"
proof -
  have stopped: "leaves_lost i c (call (f 0) (write_db (run_ops stop)))"
    using lost_quiet[OF _ quiet_bystanders[OF stop]] by (intro runs_call) (auto simp: world_eqs)
  have secret: "leaves_lost i c (call (f 3) (on_secrets (\<lambda>st. secret_delete st (sessionSourceSecretRef (ses_id s)))))"
    using lost_secrets[OF _ other] by (intro runs_call) (auto simp: world_eqs)
  have unmark: "leaves_lost i c (call (f 4) (write_db (\<lambda>d. deleteSetting d (pendingKey (ses_id s)))))"
    using lost_unmark by (intro runs_call) (auto simp: world_eqs)
  have forget: "leaves_lost i c (if truthy (ses_ownerId s) then deleteSessionSourceCredential (\<lambda>k. f (k + 3)) (ses_id s)
         else done_with ())"
    using runs_and_then[OF secret unmark] by (simp add: deleteSessionSourceCredential_def runs_done)
  have removed: "leaves_lost i c (call (f 5) (write_db (\<lambda>d. deleteSessionAndRevokePlaybackGrants d (ses_id s) now)))"
    using lost_delete by (intro runs_call) (auto simp: world_eqs)
  have files: "leaves_lost i c (call (f 6) (\<lambda>w. (w, resolve ())))" by (rule runs_call) auto
  show ?thesis
    unfolding finalizeSessionDeletion_def
    by (rule runs_and_then[OF stopped], rule runs_and_then[OF forget], rule runs_and_then[OF removed], rule files)
qed

lemma leaves_begin:
  "runs (lost_credential i c) (call f (on_db (\<lambda>d. beginSessionDeletion d j opts)))
     (\<lambda>r w. lost_credential i c w \<and> (\<forall>x. r = Applied x \<longrightarrow> ses_id (vr_value x) \<noteq> i)) (lost_credential i c)"
proof (rule runs_call)
  fix w r
  assume w: "lost_credential i c w" and "snd (on_db (\<lambda>d. beginSessionDeletion d j opts) w) = Inr r"
  then have r: "snd (beginSessionDeletion (sw_db w) j opts) = resolve r" by (simp add: world_ops)
  let ?w = "fst (on_db (\<lambda>d. beginSessionDeletion d j opts) w)"
  have after: "lost_credential i c ?w" using lost_begin[OF w] by (simp add: world_eqs)
  have "ses_id (vr_value x) \<noteq> i" if "r = Applied x" for x
  proof -
    have "getSession (sw_db ?w) j = Some (vr_value x)" using begun_view[of "sw_db w" j opts x] r that by (simp add: world_ops)
    then show ?thesis using after db_ok_id[of "sw_db ?w" j "vr_value x"] by (auto simp: lost_credential_def)
  qed
  with after show "lost_credential i c ?w \<and> (\<forall>x. r = Applied x \<longrightarrow> ses_id (vr_value x) \<noteq> i)" by blast
qed (auto simp: world_eqs lost_begin)

lemma leaves_deletion:
  assumes stop: "\<forall>x \<in> set stop. bystander x"
  shows "leaves_lost i c (deleteSession f stop clock j)"
  unfolding deleteSession_def
proof (rule runs_and_then[OF runs_read], assumption)
  fix r
  let ?P = "\<lambda>w. lost_credential i c w \<and> r = getSession (sw_db w) j"
  have fresh: "runs ?P (and_then (call (f 2) (on_db (\<lambda>d. beginSessionDeletion d j opts))) (\<lambda>begun.
             case begun of
               Applied x \<Rightarrow> finalizeSessionDeletion f stop (clock 1) (vr_value x)
             | Rejected reason _ _ \<Rightarrow> raise (if reason = NotFound then NotFoundError else ConflictError)))
          (\<lambda>_. lost_credential i c) (lost_credential i c)" for opts
  proof (rule runs_and_then[OF runs_pre[OF leaves_begin]])
    fix b
    show "runs (\<lambda>w. lost_credential i c w \<and> (\<forall>x. b = Applied x \<longrightarrow> ses_id (vr_value x) \<noteq> i))
        (case b of
           Applied x \<Rightarrow> finalizeSessionDeletion f stop (clock 1) (vr_value x)
         | Rejected reason _ _ \<Rightarrow> raise (if reason = NotFound then NotFoundError else ConflictError))
        (\<lambda>_. lost_credential i c) (lost_credential i c)"
    proof (cases b)
      case (Applied x)
      then show ?thesis using leaves_finalize[OF stop, of "vr_value x" i c f "clock 1"]
        by (cases "ses_id (vr_value x) = i") (auto simp: runs_def)
    qed (auto intro: runs_raise)
  qed auto
  show "runs ?P
     (case r of
         None \<Rightarrow> raise NotFoundError
       | Some s \<Rightarrow>
           if ses_deletionPending s then finalizeSessionDeletion f stop (clock 1) s
           else and_then (call (f 2) (on_db (\<lambda>d. beginSessionDeletion d j
                    \<lparr>sdo_observedAt = clock 0, sdo_inactiveBefore = None, sdo_requireUnpinned = False\<rparr>))) (\<lambda>begun.
             case begun of
               Applied x \<Rightarrow> finalizeSessionDeletion f stop (clock 1) (vr_value x)
             | Rejected reason _ _ \<Rightarrow> raise (if reason = NotFound then NotFoundError else ConflictError)))
     (\<lambda>_. lost_credential i c) (lost_credential i c)"
  proof (cases r)
    case None
    then show ?thesis by (auto intro: runs_raise)
  next
    case (Some s)
    have "?P w \<Longrightarrow> ses_id s \<noteq> i" for w
      using Some db_ok_id[of "sw_db w" j s] by (auto simp: lost_credential_def)
    then have pending: "runs ?P (finalizeSessionDeletion f stop (clock 1) s) (\<lambda>_. lost_credential i c) (lost_credential i c)"
      using runs_pre[OF leaves_finalize[OF stop, of s i c f "clock 1"], of ?P] by (cases "ses_id s = i") (auto simp: runs_def)
    show ?thesis
    proof (cases "ses_deletionPending s")
      case True
      show ?thesis using pending unfolding Some option.case if_P[OF True] .
    next
      case False
      show ?thesis using fresh unfolding Some option.case if_not_P[OF False] .
    qed
  qed
qed

lemma leaves_expiry:
  assumes stop: "\<forall>x \<in> set stop. bystander x"
  shows "leaves_lost i c (deleteIfInactive f stop clock inactiveBefore j)"
  unfolding deleteIfInactive_def
proof (rule runs_and_then[OF leaves_begin])
  fix b
  show "runs (\<lambda>w. lost_credential i c w \<and> (\<forall>x. b = Applied x \<longrightarrow> ses_id (vr_value x) \<noteq> i))
    (case b of
       Applied x \<Rightarrow> and_then (finalizeSessionDeletion f stop (clock 1) (vr_value x)) (\<lambda>_. done_with True)
     | Rejected reason _ _ \<Rightarrow>
         if reason = NotFound \<or> reason = InvalidState then done_with False else raise ConflictError)
    (\<lambda>_. lost_credential i c) (lost_credential i c)"
  proof (cases b)
    case (Applied x)
    have "runs (lost_credential i c) (and_then (finalizeSessionDeletion f stop (clock 1) (vr_value x)) (\<lambda>_. done_with True))
        (\<lambda>_. lost_credential i c) (lost_credential i c)" if "ses_id (vr_value x) \<noteq> i"
      by (rule runs_and_then[OF leaves_finalize[OF stop that]]) (simp add: runs_done)
    then show ?thesis using Applied by (cases "ses_id (vr_value x) = i") (auto simp: runs_def)
  qed (auto intro: runs_raise runs_done)
qed

lemma leaves_finalize_all:
  assumes "\<And>k. \<forall>x \<in> set (stop k). bystander x" and "\<forall>s \<in> set ss. ses_id s \<noteq> i"
  shows "leaves_lost i c (finalize_all f stop now k ss)"
  using assms(2)
proof (induction ss arbitrary: k)
  case Nil
  then show ?case by (simp add: runs_done)
next
  case (Cons s ss)
  then have rest: "leaves_lost i c (finalize_all f stop now (Suc k) ss)" and "ses_id s \<noteq> i" by simp_all
  then show ?case unfolding finalize_all.simps
    using runs_and_then[OF leaves_finalize[OF assms(1)] rest] by blast
qed

lemma leaves_recovery:
  assumes stop: "\<And>k. \<forall>x \<in> set (stop k). bystander x" and env: "\<And>k j. \<forall>x \<in> set (env k j). bystander x"
  shows "leaves_lost i c (recoverSessions f0 f1 fp fd fr opts stop env clock now)"
proof -
  have first: "leaves_lost i c (if RoleController \<in> set (coalesce (po_roles opts) [RoleController]) then recoverPending f0 fp
      else done_with 0)"
    using leaves_recover_pending by (auto intro: runs_done)
  have deletions: "runs (\<lambda>w. lost_credential i c w \<and> ss = listSessionDeletionPending (sw_db w) 100)
      (finalize_all fd stop now 0 ss) (\<lambda>_. lost_credential i c) (lost_credential i c)" for ss
  proof (cases "\<forall>s \<in> set ss. ses_id s \<noteq> i")
    case True
    then show ?thesis by (intro runs_pre[OF leaves_finalize_all[OF stop]]) auto
  next
    case False
    then have "\<forall>w. \<not> (lost_credential i c w \<and> ss = listSessionDeletionPending (sw_db w) 100)"
      by (auto simp: lost_credential_def dest: pending_listed)
    then show ?thesis unfolding runs_def by blast
  qed
  have reset: "leaves_lost i c (call fr (on_db (\<lambda>d. reset_sessions env clock 0 (listSessions d) d)))"
    using lost_quiet[OF _ quiet_reset[where env = env, OF env]] by (intro runs_call) (auto simp: world_eqs)
  show ?thesis
    unfolding recoverSessions_def
    by (rule runs_and_then[OF first], rule runs_and_then[OF runs_read], assumption,
        rule runs_and_then[OF deletions], rule runs_and_then[OF reset], auto intro: runs_done)
qed

section \<open>Later calls\<close>

text \<open>The calls of the session service of \<open>session_call\<close>, no creation with the id \<open>i\<close> among them.\<close>

inductive later_call :: "ident \<Rightarrow> session_world \<Rightarrow> session_world \<Rightarrow> bool" for i :: ident where
  later_created: "j \<noteq> [] \<Longrightarrow> j \<noteq> i \<Longrightarrow> (\<And>k. \<forall>x \<in> set (env k). bystander x) \<Longrightarrow>
     later_call i w (fst (create f g id pl env j token clock ctx input w))"
| later_deleted: "\<forall>x \<in> set stop. bystander x \<Longrightarrow> later_call i w (fst (deleteSession f stop clock j w))"
| later_expired: "\<forall>x \<in> set stop. bystander x \<Longrightarrow> later_call i w (fst (deleteIfInactive f stop clock inactiveBefore j w))"
| later_recovered: "(\<And>k. \<forall>x \<in> set (stop k). bystander x) \<Longrightarrow> (\<And>k j. \<forall>x \<in> set (env' k j). bystander x) \<Longrightarrow>
     later_call i w (fst (recoverSessions f0 f1 fp fd fr opts stop env' clock' now w))"
| later_updated: "service_change u \<Longrightarrow> (\<And>k. \<forall>x \<in> set (env k). bystander x) \<Longrightarrow>
     later_call i w (w\<lparr>sw_db := fst (updateSession env clock u allowMissing j (sw_db w))\<rparr>)"
| later_others: "bystander x \<Longrightarrow> later_call i w (w\<lparr>sw_db := exec_op x (sw_db w)\<rparr>)"

lemma later_call_leaves:
  assumes "later_call i w w'" and "lost_credential i c w"
  shows "lost_credential i c w'"
  using assms
proof (cases rule: later_call.cases)
  case (later_created j env f g pl token clock ctx input)
  then show ?thesis using runs_fst[OF leaves_create[where env = env] assms(2)] by blast
next
  case (later_recovered stop env f0 f1 fp fd fr opts clock now)
  then show ?thesis using runs_fst[OF leaves_recovery[where stop = stop and env = env] assms(2)] by blast
next
  case (later_updated u env clock allowMissing j)
  then show ?thesis using lost_quiet[OF assms(2) quiet_update[where env = env]] by blast
next
  case (later_others x)
  then show ?thesis using lost_quiet[OF assms(2) quiet_bystanders[of "[x]" "sw_db w"]] by simp
qed (use runs_fst[OF leaves_deletion assms(2)] runs_fst[OF leaves_expiry assms(2)] in blast)+

lemma later_calls_leave: "(later_call i)\<^sup>*\<^sup>* w w' \<Longrightarrow> lost_credential i c w \<Longrightarrow> lost_credential i c w'"
  by (induction rule: rtranclp_induct) (auto intro: later_call_leaves)

end
