(* ===== verification/RelayCredentialResults.thy ===== *)
theory RelayCredentialResults
  imports RelaySessionSamples RelayOrphans
begin

text \<open>
  The properties of the writes on sessions: creation, deletion, recovery, and the credentials of
  user-owned sessions under faults.
\<close>

section \<open>Creation\<close>

lemma vod_source_typed:
  assumes "vod_source pl context input p src w = resolve (name, t, src')" and "valid_media_source_ref src"
  shows "0 < t \<and> valid_media_source_ref src' \<and> (\<forall>n. cr_name input = Some n \<longrightarrow> name = n)"
  using assms
  by (auto simp: vod_source_def valid_media_source_ref_def Let_def split: option.splits sum.splits if_splits)

lemma new_session_typed:
  assumes "i \<noteq> []" and "\<And>c. context = Some c \<Longrightarrow> ctx_ownerId c \<noteq> []"
    and url: "\<And>path. is_url (sp_publicUrl pl @ ''/play/'' @ token @ path)"
    and "optional valid_media_source_ref src" and "optional (\<lambda>t. 0 < t) t"
    and "case cr_target input of VodRequest _ \<Rightarrow> src \<noteq> None \<and> t \<noteq> None | LiveRequest c \<Rightarrow> c \<noteq> []"
  shows "valid_relay_session is_url (new_session pl context input p i token now name t src) \<longleftrightarrow>
     1 \<le> length name \<and> length name \<le> 160"
proof -
  have "is_url (sp_publicUrl pl @ ''/play/'' @ token @ ''/index.m3u8'')" "is_url (sp_publicUrl pl @ ''/play/'' @ token @ ''/live.m3u8'')"
    by (rule url)+
  then show ?thesis
    using assms by (cases "cr_target input"; cases "context")
      (auto simp: valid_relay_session_def new_session_def Suc_le_eq optional_def Let_def)
qed

text \<open>C37: Created sessions are well typed: from a valid request, with a provider that answers sources and a public
  address that makes URLs, the session that is created satisfies the schema of sessions, except that
  a VOD session without a name takes the name of the item, whose length nothing bounds.\<close>

theorem created_session_is_typed:
  assumes made: "snd (prepare pl env i token now context input w) = resolve (s, revision)"
    and valid: "valid_create_request input" and "i \<noteq> []" and live: "cr_target input \<noteq> LiveRequest []"
    and "\<And>c. context = Some c \<Longrightarrow> ctx_ownerId c \<noteq> []" and "\<And>path. is_url (sp_publicUrl pl @ ''/play/'' @ token @ path)"
  shows "(valid_relay_session is_url s \<longleftrightarrow> 1 \<le> length (ses_name s) \<and> length (ses_name s) \<le> 160) \<and>
     (cr_name input \<noteq> None \<longrightarrow> valid_relay_session is_url s)"
proof -
  have named: "cr_name input = Some n \<Longrightarrow> 1 \<le> length n \<and> length n \<le> 160" for n
    using valid by (simp add: valid_create_request_def optional_def)
  have "\<exists>p name t src. s = new_session pl context input p i token now name t src \<and>
      optional valid_media_source_ref src \<and> optional (\<lambda>t. 0 < t) t \<and>
      (case cr_target input of VodRequest _ \<Rightarrow> src \<noteq> None \<and> t \<noteq> None | LiveRequest c \<Rightarrow> c \<noteq> []) \<and>
      (\<forall>n. cr_name input = Some n \<longrightarrow> name = n)"
  proof (cases "cr_target input")
    case (VodRequest src)
    then have "valid_media_source_ref src" using valid by (simp add: valid_create_request_def)
    moreover obtain p name t src' where
      "vod_source pl context input p src w = resolve (name, t, src')"
      "s = new_session pl context input p i token now name (Some t) (Some src')"
      using made VodRequest by (auto simp: prepare_def Let_def split: if_splits option.splits sum.splits)
    ultimately show ?thesis using VodRequest vod_source_typed
      by (intro exI[of _ p] exI[of _ name] exI[of _ "Some t"] exI[of _ "Some src'"]) (simp add: optional_def)
  next
    case (LiveRequest c)
    then obtain p where
      "s = new_session pl context input p i token now (coalesce (cr_name input) ''Untitled relay'') None None"
      using made by (auto simp: prepare_def Let_def split: if_splits option.splits sum.splits prod.splits)
    then show ?thesis using LiveRequest live
      by (intro exI[of _ p] exI[of _ "coalesce (cr_name input) ''Untitled relay''"] exI[of _ None]) (simp add: optional_def)
  qed
  then obtain p name t src where s: "s = new_session pl context input p i token now name t src"
    and typed: "optional valid_media_source_ref src" "optional (\<lambda>t. 0 < t) t"
      "case cr_target input of VodRequest _ \<Rightarrow> src \<noteq> None \<and> t \<noteq> None | LiveRequest c \<Rightarrow> c \<noteq> []"
    and name: "\<forall>n. cr_name input = Some n \<longrightarrow> name = n" by blast
  have "valid_relay_session is_url s \<longleftrightarrow> 1 \<le> length name \<and> length name \<le> 160"
    unfolding s by (rule new_session_typed) (use assms(3,5,6) typed in simp_all)
  moreover have "ses_name s = name" by (simp add: s new_session_def Let_def)
  ultimately show ?thesis using name named by auto
qed

theorem created_session_is_typed_witness:
  "\<exists>s. snd (prepare sample_service (\<lambda>_. []) ''s'' ''t'' 5 (Some sample_context) sample_request installed_world) = resolve (s, None) \<and>
     ses_name s = ''Movie'' \<and> valid_relay_session (starts_with ''https://'') s"
proof -
  let ?r = "prepare sample_service (\<lambda>_. []) ''s'' ''t'' 5 (Some sample_context) sample_request installed_world"
  have "(case snd ?r of Inl _ \<Rightarrow> None | Inr (s, q) \<Rightarrow> Some (ses_name s, q)) = Some (''Movie'', None)" by code_simp
  then obtain s where s: "snd ?r = resolve (s, None)" "ses_name s = ''Movie''" by (auto split: sum.splits)
  have "valid_create_request sample_request" by code_simp
  then have "valid_relay_session (starts_with ''https://'') s \<longleftrightarrow> 1 \<le> length (ses_name s) \<and> length (ses_name s) \<le> 160"
    using created_session_is_typed[OF s(1), of "starts_with ''https://''"]
    by (simp add: sample_request_def sample_context_def sample_service_def starts_with_def)
  then show ?thesis using s by simp
qed

section \<open>Writes on sessions\<close>

text \<open>C13: A deletion that has begun is final: whatever updates of the service (control, recovery, workers) read
  the session before and write after, interleaved with any writes of others that do not take
  the deletion back, the session stays marked and stopped, or is gone.\<close>

theorem deletion_is_final:
  assumes "(update_step i)\<^sup>*\<^sup>* (d, {}) (d1, seen)" and "keys_unique d" "sessions_named d"
    and "beginSessionDeletion d1 i opts = (d2, resolve (Applied c))"
    and "(update_step i)\<^sup>*\<^sup>* (d2, seen) (d3, seen')"
    and "service_change u" and "\<And>k. \<forall>x \<in> set (env k). keeps_deletion i x"
  shows "deletion_begun i (fst (updateSession env clock u allowMissing i d3))"
proof -
  have "update_ok i (d1, seen)"
    by (rule update_run_ok[OF assms(1)]) (simp add: update_ok_def assms(2,3) reads_ok_def)
  moreover have "update_step i (d1, seen) (exec_op (SessionOp (OpBeginSessionDeletion i opts)) d1, seen)"
    by (rule update_step.others) simp
  ultimately have ok: "update_ok i (d2, seen)" using update_run_ok[OF r_into_rtranclp[of "update_step i"]] assms(4) by fastforce
  have begun: "deletion_begun i d2"
    using assms(4)
    by (auto simp: deletion_begun_def beginSessionDeletion_def revokePlaybackGrants_def Let_def case_prod_beta
        map_of_sql_update getVersionedSession_def get_versioned_def split: option.splits if_splits)
  obtain s where "(update_step i)\<^sup>*\<^sup>* (d3, seen') (fst (updateSession env clock u allowMissing i d3), s)"
    using updateSession_steps[where env = env and d = d3, OF assms(6,7)] by blast
  then have "(update_step i)\<^sup>*\<^sup>* (d2, seen) (fst (updateSession env clock u allowMissing i d3), s)"
    using assms(5) by (meson rtranclp_trans)
  from update_run_deletion[OF this ok] begun show ?thesis by simp
qed

theorem deletion_is_final_witness:
  "deletion_begun ''s'' (fst (updateSession (\<lambda>_. []) (\<lambda>_. 8) worker_change False ''s''
     (fst (beginSessionDeletion sample_db ''s'' \<lparr>sdo_observedAt = 6, sdo_inactiveBefore = None, sdo_requireUnpinned = False\<rparr>))))"
proof -
  let ?begun = "beginSessionDeletion sample_db ''s'' \<lparr>sdo_observedAt = 6, sdo_inactiveBefore = None, sdo_requireUnpinned = False\<rparr>"
  have "case snd ?begun of Inr (Applied _) \<Rightarrow> True | _ \<Rightarrow> False" by code_simp
  then obtain c where begun: "?begun = (fst ?begun, resolve (Applied c))"
    by (cases ?begun; cases "snd ?begun") (auto split: write_result.splits)
  show ?thesis
    by (rule deletion_is_final[OF rtranclp.rtrancl_refl sample_named begun rtranclp.rtrancl_refl])
      (simp_all add: service_change_def)
qed

section \<open>Credentials\<close>

text \<open>C3: Credentials follow their sessions: after any sequence of creations, deletions, expiries, updates and
  recoveries of a new installation, each of whose calls may fail or crash before or after it
  took effect, a stored credential belongs to an owned session or is listed for recovery, and
  an owned session that is not being deleted has its credential.\<close>

theorem credentials_follow_sessions:
  assumes "session_call\<^sup>*\<^sup>* fresh_world w"
  shows "(\<forall>i. sw_secrets w (sessionSourceSecretRef i) \<noteq> None \<longrightarrow>
           owned_vod (getSession (sw_db w) i) \<or> getSetting (sw_db w) (pendingKey i) \<noteq> None) \<and>
     (\<forall>i s. getSession (sw_db w) i = Some s \<and> owned_vod (Some s) \<and> \<not> ses_deletionPending s \<longrightarrow>
           sw_secrets w (sessionSourceSecretRef i) \<noteq> None)"
  using session_calls_keep[OF assms fresh_credentials]
  unfolding credentials_ok_def has_secret_def owned_def marked_def deleting_def by (auto split: option.splits)

theorem credentials_follow_sessions_witness:
  "\<exists>s. getSession (sw_db created_world) ''s'' = Some s \<and> owned_vod (Some s) \<and>
     sw_secrets created_world (sessionSourceSecretRef ''s'') \<noteq> None"
proof -
  obtain s where "getSession (sw_db created_world) ''s'' = Some s" "owned_vod (Some s)" "\<not> ses_deletionPending s"
    using created_state by auto
  then show ?thesis using credentials_follow_sessions[OF created_reached] by blast
qed

text \<open>C5: A recovery repairs: after any such sequence, one recovery of the controller whose calls work
  leaves exactly the credentials of the owned sessions, no entry to recover, and no session whose
  deletion is pending, if no more than one page of deletions was pending.\<close>

theorem recovery_repairs_credentials:
  assumes "session_call\<^sup>*\<^sup>* fresh_world w" and "few_deletions (db_sessions (sw_db w))"
    and "\<And>k. \<forall>x \<in> set (stop k). bystander x" and "\<And>k j. \<forall>x \<in> set (env k j). bystander x"
    and "RoleController \<in> set (coalesce (po_roles opts) [RoleController])"
    and "recoverSessions Works Works (\<lambda>_ _. Works) (\<lambda>_ _. Works) Works opts stop env clock now w = (w', r)"
  shows "(\<forall>i. sw_secrets w' (sessionSourceSecretRef i) \<noteq> None \<longleftrightarrow> owned_vod (getSession (sw_db w') i)) \<and>
     (\<forall>i. getSetting (sw_db w') (pendingKey i) = None) \<and>
     (\<forall>i s. getSession (sw_db w') i = Some s \<longrightarrow> \<not> ses_deletionPending s)"
proof -
  have "credentials_ok w" by (rule session_calls_keep[OF assms(1) fresh_credentials])
  then have "doomed [] w'"
    using runs_fst[OF recovery_settles[where stop = stop and env = env, OF assms(3,4,5)], of w clock now] assms(2,6) by simp
  moreover have "pending_setting (pendingKey i)" for i
    by (simp add: pending_setting_def pendingKey_def starts_with_def)
  ultimately show ?thesis
    unfolding doomed_def tidy_def credentials_ok_def has_secret_def owned_def deleting_def
    by (auto split: option.splits)
qed

theorem recovery_repairs_credentials_witness:
  "sw_secrets crashed_world (sessionSourceSecretRef ''s'') \<noteq> None \<and>
   sw_secrets (fst (recoverSessions Works Works (\<lambda>_ _. Works) (\<lambda>_ _. Works) Works \<lparr>po_nodeId = None, po_roles = None\<rparr>
     (\<lambda>_. []) (\<lambda>_ _. []) (\<lambda>_ _. 9) 9 crashed_world)) (sessionSourceSecretRef ''s'') = None"
proof -
  let ?r = "recoverSessions Works Works (\<lambda>_ _. Works) (\<lambda>_ _. Works) Works \<lparr>po_nodeId = None, po_roles = None\<rparr>
     (\<lambda>_. []) (\<lambda>_ _. []) (\<lambda>_ _. 9) 9 crashed_world"
  have few: "few_deletions (db_sessions (sw_db crashed_world))"
    and gone: "getSession (sw_db (fst ?r)) ''s'' = None" by code_simp+
  have "(\<forall>i. sw_secrets (fst ?r) (sessionSourceSecretRef i) \<noteq> None \<longleftrightarrow> owned_vod (getSession (sw_db (fst ?r)) i)) \<and>
     (\<forall>i. getSetting (sw_db (fst ?r)) (pendingKey i) = None) \<and>
     (\<forall>i s. getSession (sw_db (fst ?r)) i = Some s \<longrightarrow> \<not> ses_deletionPending s)"
    by (rule recovery_repairs_credentials[OF crashed_reached few, where r = "snd ?r"]) simp_all
  then have "sw_secrets (fst ?r) (sessionSourceSecretRef ''s'') \<noteq> None \<longleftrightarrow> owned_vod (getSession (sw_db (fst ?r)) ''s'')" by blast
  then have "sw_secrets (fst ?r) (sessionSourceSecretRef ''s'') = None" using gone by (simp add: owned_vod_def)
  then show ?thesis using crashed_state(1) by simp
qed

text \<open>C36: Only the controller may finish a deletion, but every node does: a worker that recovers while the
  deletion of a user-owned session is pending removes the session and its marker from the database, and
  deletes the credential from its own secret store; the credential in the store of the controller stays
  behind without session and without marker, and no later history of the controller's session
  service, recoveries under any faults included, removes or changes it, as long as no session with the
  same id is created.\<close>

theorem worker_recovery_orphans_credential:
  assumes ok: "credentials_ok w" and pending: "listSessionDeletionPending (sw_db w) 100 = [s]"
    and owner: "truthy (ses_ownerId s)"
    and secret: "sw_secrets w (sessionSourceSecretRef (ses_id s)) = Some credential"
    and stop: "\<And>k. \<forall>x \<in> set (stop k). bystander x" and env: "\<And>k j. \<forall>x \<in> set (env k j). bystander x"
    and worker: "po_roles opts = Some [RoleSourceWorker]"
    and recovered: "recoverSessions Works Works fp (\<lambda>_ _. Works) Works opts stop env clock now
      \<lparr>sw_db = sw_db w, sw_secrets = own_secrets\<rparr> = (v, r)"
  defines "w' \<equiv> w\<lparr>sw_db := sw_db v\<rparr>"
  shows "sw_secrets v = secret_delete own_secrets (sessionSourceSecretRef (ses_id s)) \<and>
     getSession (sw_db w') (ses_id s) = None \<and> getSetting (sw_db w') (pendingKey (ses_id s)) = None \<and>
     \<not> credentials_ok w' \<and>
     (\<forall>w''. (later_call (ses_id s))\<^sup>*\<^sup>* w' w'' \<longrightarrow>
        sw_secrets w'' (sessionSourceSecretRef (ses_id s)) = Some credential)"
proof -
  let ?i = "ses_id s"
  let ?d1 = "run_ops (stop 0) (sw_db w)"
  let ?d2 = "deleteSetting ?d1 (pendingKey ?i)"
  let ?d3 = "deleteSessionAndRevokePlaybackGrants ?d2 ?i now"
  let ?d4 = "fst (reset_sessions env clock 0 (listSessions ?d3) ?d3)"
  have "db_ok (sw_db w)" using ok by (simp add: credentials_ok_def)
  then have d1: "db_ok ?d1" by (rule db_ok_run)
  then have d2: "db_ok ?d2" using db_ok_exec[of ?d1 "SettingOp (OpDeleteSetting (pendingKey ?i))"] by simp
  then have d3: "db_ok ?d3" using db_ok_exec[of ?d2 "SessionOp (OpDeleteSession ?i now)"] by simp
  have v: "sw_db v = ?d4" "sw_secrets v = secret_delete own_secrets (sessionSourceSecretRef ?i)"
    using recovered worker pending owner
    by (auto simp: recoverSessions_def and_then_def done_with_def read_db_def write_db_def on_db_def on_secrets_def
        finalizeSessionDeletion_def deleteSessionSourceCredential_def case_prod_beta split: reply.splits prod.splits)
  have q: "unaffecting ?d3 ?d4" by (rule quiet_reset[where env = env, OF env])
  have settings: "getSetting ?d3 k = (if k = pendingKey ?i then None else getSetting (sw_db w) k)" for k
    using session_op_settings[of "OpDeleteSession ?i now" ?d2 k] delete_setting_view[OF d1, of _ k] bystanders[OF stop, of 0 "sw_db w"]
    by (simp add: getSetting_def)
  then have settings4: "getSetting ?d4 k = (if k = pendingKey ?i then None else getSetting (sw_db w) k)" for k
    using q d3 by (simp add: unaffecting_def)
  have "credential_view ?d4 ?i = credential_view ?d3 ?i" using q d3 by (simp add: unaffecting_def)
  then have gone: "getSession ?d4 ?i = None" by (simp add: credential_view_def delete_view[OF d2])
  have "markers_ok (sw_db w)" using ok by (simp add: credentials_ok_def)
  then have "markers_ok ?d4" unfolding markers_ok_def settings4 by simp
  moreover have "db_ok ?d4" using q d3 by (simp add: unaffecting_def)
  ultimately have lost: "lost_credential ?i credential w'"
    using gone settings4 secret by (simp add: lost_credential_def marked_def w'_def v)
  then have "\<not> credentials_ok w'"
    unfolding credentials_ok_def has_secret_def owned_def lost_credential_def by (auto simp: owned_vod_def)
  with lost later_calls_leave[OF _ lost] v(2) show ?thesis
    by (simp add: lost_credential_def marked_def)
qed

theorem worker_recovery_orphans_credential_witness:
  "let v = fst (recoverSessions Works Works (\<lambda>_ _. Works) (\<lambda>_ _. Works) Works
       \<lparr>po_nodeId = Some ''n'', po_roles = Some [RoleSourceWorker]\<rparr> (\<lambda>_. []) (\<lambda>_ _. []) (\<lambda>_ _. 9) 9
       \<lparr>sw_db = sw_db deleting_world, sw_secrets = Map.empty\<rparr>);
     w = deleting_world\<lparr>sw_db := sw_db v\<rparr>;
     w' = fst (recoverSessions Works Works (\<lambda>_ _. Works) (\<lambda>_ _. Works) Works
       \<lparr>po_nodeId = None, po_roles = None\<rparr> (\<lambda>_. []) (\<lambda>_ _. []) (\<lambda>_ _. 10) 10 w)
   in \<not> credentials_ok w \<and>
      sw_secrets w' (sessionSourceSecretRef ''s'') = sw_secrets deleting_world (sessionSourceSecretRef ''s'') \<and>
      sw_secrets w' (sessionSourceSecretRef ''s'') \<noteq> None"
proof -
  let ?opts = "\<lparr>po_nodeId = Some ''n'', po_roles = Some [RoleSourceWorker]\<rparr>"
  let ?r = "recoverSessions Works Works (\<lambda>_ _. Works) (\<lambda>_ _. Works) Works ?opts (\<lambda>_. []) (\<lambda>_ _. []) (\<lambda>_ _. 9) 9
       \<lparr>sw_db = sw_db deleting_world, sw_secrets = Map.empty\<rparr>"
  let ?w = "deleting_world\<lparr>sw_db := sw_db (fst ?r)\<rparr>"
  let ?w' = "fst (recoverSessions Works Works (\<lambda>_ _. Works) (\<lambda>_ _. Works) Works
       \<lparr>po_nodeId = None, po_roles = None\<rparr> (\<lambda>_. []) (\<lambda>_ _. []) (\<lambda>_ _. 10) 10 ?w)"
  have "map ses_id (listSessionDeletionPending (sw_db deleting_world) 100) = [''s'']"
    "map (\<lambda>s. truthy (ses_ownerId s)) (listSessionDeletionPending (sw_db deleting_world) 100) = [True]"
    and "sw_secrets deleting_world (sessionSourceSecretRef ''s'') \<noteq> None" by code_simp+
  then obtain s c where s: "listSessionDeletionPending (sw_db deleting_world) 100 = [s]" "ses_id s = ''s''" "truthy (ses_ownerId s)"
    and c: "sw_secrets deleting_world (sessionSourceSecretRef (ses_id s)) = Some c"
    by auto
  have ok: "credentials_ok deleting_world" by (rule session_calls_keep[OF deleting_reached fresh_credentials])
  have later: "(later_call (ses_id s))\<^sup>*\<^sup>* ?w ?w'" by (rule r_into_rtranclp, rule later_recovered) simp_all
  from worker_recovery_orphans_credential[OF ok s(1,3) c, where opts = ?opts and stop = "\<lambda>_. []" and
      env = "\<lambda>_ _. []" and fp = "\<lambda>_ _. Works" and own_secrets = Map.empty and v = "fst ?r" and r = "snd ?r"]
  have "\<not> credentials_ok ?w" "\<forall>w''. (later_call (ses_id s))\<^sup>*\<^sup>* ?w w'' \<longrightarrow> sw_secrets w'' (sessionSourceSecretRef (ses_id s)) = Some c"
    by simp_all
  then show ?thesis using later c s(2) by (simp add: Let_def)
qed

end
