(* ===== verification/RelayNormalizer.thy ===== *)
theory RelayNormalizer
  imports RelayPlaylist "HOL-Library.AList"
begin

text \<open>
  The processes that normalise live channels
  (\<^verbatim>\<open>packages/adapters/src/ffmpeg-live-normalizer.ts\<close>) and the choice of the video encoder
  (\<^verbatim>\<open>packages/adapters/src/ffmpeg-encoder.ts\<close>). A JavaScript \<^verbatim>\<open>Map\<close> is an association list with
  its insertion order; a supervised process is a number. \<^verbatim>\<open>start\<close> waits for the process, so it
  is split where it waits: \<open>spawn\<close> up to there, then \<open>started\<close> or \<open>failed\<close>, and other calls run
  between them. The events of a normalizer are these steps.
\<close>

section \<open>The encoder\<close>

datatype encoder_backend = Software | Videotoolbox | Nvenc | Qsv | Vaapi | Amf

datatype encoder_preference = AutoEncoder | PreferEncoder encoder_backend

fun encoders :: "video_codec \<Rightarrow> encoder_backend \<Rightarrow> string option" where
  "encoders H264 b =
     Some (case b of Software \<Rightarrow> ''libx264'' | Videotoolbox \<Rightarrow> ''h264_videotoolbox'' | Nvenc \<Rightarrow> ''h264_nvenc''
           | Qsv \<Rightarrow> ''h264_qsv'' | Vaapi \<Rightarrow> ''h264_vaapi'' | Amf \<Rightarrow> ''h264_amf'')"
| "encoders H265 b =
     Some (case b of Software \<Rightarrow> ''libx265'' | Videotoolbox \<Rightarrow> ''hevc_videotoolbox'' | Nvenc \<Rightarrow> ''hevc_nvenc''
           | Qsv \<Rightarrow> ''hevc_qsv'' | Vaapi \<Rightarrow> ''hevc_vaapi'' | Amf \<Rightarrow> ''hevc_amf'')"
| "encoders AV1 b =
     (case b of Software \<Rightarrow> Some ''libsvtav1'' | Nvenc \<Rightarrow> Some ''av1_nvenc'' | Qsv \<Rightarrow> Some ''av1_qsv''
      | Amf \<Rightarrow> Some ''av1_amf'' | _ \<Rightarrow> None)"
| "encoders VideoCopy b = None"

definition automaticOrder :: "encoder_backend list" where
  "automaticOrder = [Software, Videotoolbox, Nvenc, Qsv, Vaapi, Amf]"

fun first_available :: "video_codec \<Rightarrow> string list \<Rightarrow> encoder_backend list \<Rightarrow> string outcome" where
  "first_available codec available [] = throw PlainError"
| "first_available codec available (b # bs) =
     (case encoders codec b of
        Some e \<Rightarrow> if e \<in> set available then resolve e else first_available codec available bs
      | None \<Rightarrow> first_available codec available bs)"

definition resolveFfmpegVideoEncoder :: "video_codec \<Rightarrow> encoder_preference \<Rightarrow> string list \<Rightarrow> string outcome" where
  "resolveFfmpegVideoEncoder codec preference available =
     (if codec = VideoCopy then resolve ''copy''
      else case preference of
        AutoEncoder \<Rightarrow>
          if available = [] then (case encoders codec Software of Some e \<Rightarrow> resolve e | None \<Rightarrow> throw PlainError)
          else first_available codec available automaticOrder
      | PreferEncoder b \<Rightarrow>
          (case encoders codec b of
             None \<Rightarrow> throw PlainError
           | Some e \<Rightarrow> if available \<noteq> [] \<and> e \<notin> set available then throw PlainError else resolve e))"

section \<open>The command line\<close>

definition js_int :: "int \<Rightarrow> string" where
  "js_int n = (if n < 0 then CHR ''-'' # decimal (nat (- n)) else decimal (nat n))"

fun audio_codec_text :: "audio_codec \<Rightarrow> string" where
  "audio_codec_text Aac = ''aac''"
| "audio_codec_text Opus = ''opus''"
| "audio_codec_text Ac3 = ''ac3''"
| "audio_codec_text AudioCopy = ''copy''"

definition option_args :: "string \<Rightarrow> string option \<Rightarrow> string list" where
  "option_args flag v = (if truthy v then [flag, the v] else [])"

definition video_filter :: "video_settings \<Rightarrow> string" where
  "video_filter v =
     ''scale='' @ js_int (vid_width v) @ '':'' @ js_int (vid_height v) @ '':force_original_aspect_ratio=decrease'' @
     '',pad='' @ js_int (vid_width v) @ '':'' @ js_int (vid_height v) @ '':(ow-iw)/2:(oh-ih)/2'' @
     '',fps='' @ js_int (vid_frameRate v) @ '',format='' @ vid_pixelFormat v"

definition liveNormalizerArgs ::
    "string \<Rightarrow> string \<Rightarrow> profile \<Rightarrow> encoder_preference \<Rightarrow> string list \<Rightarrow> string list outcome" where
  "liveNormalizerArgs sourceUrl destinationUrl p preference available =
     (case resolveFfmpegVideoEncoder (vid_codec (prof_video p)) preference available of
        Inl e \<Rightarrow> throw e
      | Inr encoder \<Rightarrow>
          let v = prof_video p; a = prof_audio p
          in resolve
            ([''-hide_banner'', ''-loglevel'', ''warning'', ''-rtsp_transport'', ''tcp'', ''-i'', sourceUrl,
              ''-map'', ''0:v:0'', ''-map'', ''0:a:0?'', ''-vf'', video_filter v, ''-c:v'', encoder] @
             option_args ''-profile:v'' (vid_profile v) @ option_args ''-level:v'' (vid_level v) @
             option_args ''-preset'' (vid_preset v) @
             [''-b:v'', js_int (vid_bitrateKbps v) @ ''k'', ''-maxrate'', js_int (vid_maxrateKbps v) @ ''k'',
              ''-bufsize'', js_int (vid_bufferKbps v) @ ''k'', ''-g'', js_int (vid_gop v),
              ''-keyint_min'', js_int (vid_gop v), ''-bf'', js_int (vid_bFrames v), ''-sc_threshold'', ''0'',
              ''-c:a'', audio_codec_text (aud_codec a), ''-b:a'', js_int (aud_bitrateKbps a) @ ''k'',
              ''-ar'', js_int (aud_sampleRate a), ''-ac'', js_int (aud_channels a),
              ''-f'', ''rtsp'', ''-rtsp_transport'', ''tcp'', destinationUrl]))"

section \<open>The processes\<close>

record normalizer_options =
  no_maxConcurrent :: "nat option"
  no_maxConcurrentPerOwner :: "nat option"
  no_restartBackoffMinMs :: "int option"
  no_restartBackoffMaxMs :: "int option"
  no_videoEncoder :: encoder_preference
  no_availableEncoders :: "string list"

record normalizer =
  nz_processes :: "(ident \<times> nat) list"
  nz_owners :: "(ident \<times> string) list"
  nz_restartFailures :: "(ident \<times> nat) list"
  nz_restartNotBefore :: "(ident \<times> instant) list"
  nz_recentErrors :: "(ident \<times> string) list"

definition no_processes :: normalizer where
  "no_processes = \<lparr>nz_processes = [], nz_owners = [], nz_restartFailures = [], nz_restartNotBefore = [],
                   nz_recentErrors = []\<rparr>"

definition nz_running :: "normalizer \<Rightarrow> ident \<Rightarrow> bool" where
  "nz_running n c \<longleftrightarrow> map_of (nz_processes n) c \<noteq> None"

definition owner_key :: "ident option \<Rightarrow> string" where
  "owner_key ownerId = coalesce ownerId ''__unowned__''"

definition owner_processes :: "normalizer \<Rightarrow> string \<Rightarrow> nat" where
  "owner_processes n owner = length (filter (\<lambda>p. snd p = owner) (nz_owners n))"

definition canStart :: "normalizer_options \<Rightarrow> instant \<Rightarrow> ident \<Rightarrow> ident option \<Rightarrow> normalizer \<Rightarrow> bool" where
  "canStart opts now c ownerId n \<longleftrightarrow>
     (if nz_running n c then True
      else if coalesce (no_maxConcurrent opts) 2 \<le> length (nz_processes n) then False
      else if coalesce (no_maxConcurrentPerOwner opts) 9007199254740991 \<le> owner_processes n (owner_key ownerId)
      then False
      else coalesce (map_of (nz_restartNotBefore n) c) 0 \<le> now)"

definition restart_delay :: "normalizer_options \<Rightarrow> nat \<Rightarrow> int" where
  "restart_delay opts failures =
     min (coalesce (no_restartBackoffMaxMs opts) 60000)
         (coalesce (no_restartBackoffMinMs opts) 1000 * 2 ^ min (failures - 1) 10)"

definition restartFailure :: "normalizer_options \<Rightarrow> ident \<Rightarrow> instant \<Rightarrow> instant \<Rightarrow> normalizer \<Rightarrow> normalizer" where
  "restartFailure opts c startedAt now n =
     (let failures = (if 30000 \<le> now - startedAt then 1
                      else coalesce (map_of (nz_restartFailures n) c) 0 + 1)
      in n\<lparr>nz_restartFailures := AList.update c failures (nz_restartFailures n),
           nz_restartNotBefore := AList.update c (now + restart_delay opts failures) (nz_restartNotBefore n)\<rparr>)"

text \<open>\<^verbatim>\<open>stop\<close>: what it forgets before it waits for the process, and the process it waits for.\<close>

definition nz_stop :: "ident \<Rightarrow> normalizer \<Rightarrow> normalizer \<times> nat option" where
  "nz_stop c n =
     (n\<lparr>nz_processes := AList.delete c (nz_processes n), nz_owners := AList.delete c (nz_owners n),
        nz_restartFailures := AList.delete c (nz_restartFailures n),
        nz_restartNotBefore := AList.delete c (nz_restartNotBefore n)\<rparr>,
      map_of (nz_processes n) c)"

text \<open>\<^verbatim>\<open>start\<close> from the test of its limits to where it waits for the process \<open>process\<close>.\<close>

definition nz_spawn ::
    "normalizer_options \<Rightarrow> instant \<Rightarrow> ident \<Rightarrow> ident option \<Rightarrow> string \<Rightarrow> string \<Rightarrow> profile \<Rightarrow> nat \<Rightarrow>
       normalizer \<Rightarrow> normalizer \<times> string list outcome" where
  "nz_spawn opts now c ownerId sourceUrl destinationUrl p process n =
     (if \<not> canStart opts now c ownerId n then (n, throw PlainError)
      else case liveNormalizerArgs sourceUrl destinationUrl p (no_videoEncoder opts) (no_availableEncoders opts) of
        Inl e \<Rightarrow> (n, throw e)
      | Inr args \<Rightarrow>
          (n\<lparr>nz_processes := AList.update c process (nz_processes n),
             nz_owners := AList.update c (owner_key ownerId) (nz_owners n)\<rparr>, resolve args))"

definition nz_started :: "ident \<Rightarrow> normalizer \<Rightarrow> normalizer" where
  "nz_started c n = n\<lparr>nz_recentErrors := AList.delete c (nz_recentErrors n)\<rparr>"

text \<open>A failed start and an unexpected exit: only the process that is still the channel's counts.\<close>

definition nz_failed ::
    "normalizer_options \<Rightarrow> ident \<Rightarrow> nat \<Rightarrow> instant \<Rightarrow> instant \<Rightarrow> string \<Rightarrow> normalizer \<Rightarrow> normalizer" where
  "nz_failed opts c process startedAt now message n =
     (if map_of (nz_processes n) c \<noteq> Some process then n
      else restartFailure opts c startedAt now
        (n\<lparr>nz_processes := AList.delete c (nz_processes n), nz_owners := AList.delete c (nz_owners n),
           nz_recentErrors := AList.update c message (nz_recentErrors n)\<rparr>))"

datatype nz_event =
    NzStop ident
  | NzSpawn instant ident "ident option" string string profile nat
  | NzStarted ident
  | NzFailed ident nat instant instant string

fun nz_exec :: "normalizer_options \<Rightarrow> nz_event \<Rightarrow> normalizer \<Rightarrow> normalizer" where
  "nz_exec opts (NzStop c) n = fst (nz_stop c n)"
| "nz_exec opts (NzSpawn now c owner src dst p process) n = fst (nz_spawn opts now c owner src dst p process n)"
| "nz_exec opts (NzStarted c) n = nz_started c n"
| "nz_exec opts (NzFailed c process startedAt now message) n = nz_failed opts c process startedAt now message n"

abbreviation nz_run :: "normalizer_options \<Rightarrow> nz_event list \<Rightarrow> normalizer \<Rightarrow> normalizer" where
  "nz_run opts es n \<equiv> fold (nz_exec opts) es n"

text \<open>
  The whole \<^verbatim>\<open>start\<close>: a process the channel has is stopped first, and the stop may fail; what
  others do while it waits are the events \<open>during\<close>. The process answers that it runs, or a message.
\<close>

definition nz_start ::
    "normalizer_options \<Rightarrow> (nat \<Rightarrow> nz_event list) \<Rightarrow> (nat \<Rightarrow> instant) \<Rightarrow> unit outcome \<Rightarrow> string option \<Rightarrow>
       ident \<Rightarrow> ident option \<Rightarrow> string \<Rightarrow> string \<Rightarrow> profile \<Rightarrow> nat \<Rightarrow> normalizer \<Rightarrow> normalizer \<times> unit outcome" where
  "nz_start opts during clock stopped failure c ownerId sourceUrl destinationUrl p process n =
     (let n1 = (if nz_running n c then nz_run opts (during 0) (fst (nz_stop c n)) else n)
      in case (if nz_running n c then stopped else resolve ()) of
           Inl e \<Rightarrow> (n1, throw e)
         | Inr _ \<Rightarrow>
             (case nz_spawn opts (clock 0) c ownerId sourceUrl destinationUrl p process n1 of
                (n2, Inl e) \<Rightarrow> (n2, throw e)
              | (n2, Inr args) \<Rightarrow>
                  let n3 = nz_run opts (during 1) n2
                  in (case failure of
                        None \<Rightarrow> (nz_started c n3, resolve ())
                      | Some message \<Rightarrow> (nz_failed opts c process (clock 0) (clock 1) message n3, throw PlainError))))"

section \<open>Facts\<close>

lemmas nz_defs = nz_stop_def nz_spawn_def nz_started_def nz_failed_def restartFailure_def

text \<open>
  The channels with a process are the channels with an owner, within the limits. A channel
  keeps its owner.
\<close>

definition normalizer_ok :: "normalizer_options \<Rightarrow> (ident \<Rightarrow> ident option) \<Rightarrow> normalizer \<Rightarrow> bool" where
  "normalizer_ok opts own n \<longleftrightarrow>
     nz_owners n = map (\<lambda>p. (fst p, owner_key (own (fst p)))) (nz_processes n) \<and>
     distinct (map fst (nz_processes n)) \<and>
     length (nz_processes n) \<le> coalesce (no_maxConcurrent opts) 2 \<and>
     (\<forall>owner. owner_processes n owner \<le> coalesce (no_maxConcurrentPerOwner opts) 9007199254740991)"

fun owned_event :: "(ident \<Rightarrow> ident option) \<Rightarrow> nz_event \<Rightarrow> bool" where
  "owned_event own (NzSpawn now c owner src dst p process) \<longleftrightarrow> owner = own c"
| "owned_event own e \<longleftrightarrow> True"

lemma update_new: "k \<notin> fst ` set xs \<Longrightarrow> AList.update k v xs = xs @ [(k, v)]"
  by (induction xs) auto

lemma update_owner: "k \<in> fst ` set xs \<Longrightarrow> AList.update k (f k) (map (\<lambda>p. (fst p, f (fst p))) xs) =
    map (\<lambda>p. (fst p, f (fst p))) xs"
  by (induction xs) auto

lemma update_keys: "k \<in> fst ` set xs \<Longrightarrow> map fst (AList.update k v xs) = map fst xs"
  by (induction xs) auto

lemma delete_owner: "AList.delete k (map (\<lambda>p. (fst p, f (fst p))) xs) =
    map (\<lambda>p. (fst p, f (fst p))) (AList.delete k xs)"
  by (induction xs) (auto simp: AList.delete_eq)

lemma length_delete: "length (AList.delete k xs) \<le> length xs"
  by (simp add: AList.delete_eq)

lemma owners_delete: "length (filter P (AList.delete k xs)) \<le> length (filter P xs)"
  by (induction xs) (auto simp: AList.delete_eq)

lemma map_keys_fst:
  assumes "map fst xs = map fst ys"
  shows "map (\<lambda>p. (fst p, f (fst p))) xs = map (\<lambda>p. (fst p, f (fst p))) ys"
proof -
  have "map (\<lambda>c. (c, f c)) (map fst xs) = map (\<lambda>c. (c, f c)) (map fst ys)" by (simp only: assms)
  then show ?thesis by (simp add: comp_def)
qed

lemma nz_running_iff: "nz_running n c \<longleftrightarrow> c \<in> fst ` set (nz_processes n)"
  by (simp add: nz_running_def map_of_eq_None_iff)

lemma normalizer_ok_remove:
  assumes "normalizer_ok opts own n" and "nz_processes n' = AList.delete c (nz_processes n)"
    and "nz_owners n' = AList.delete c (nz_owners n)"
  shows "normalizer_ok opts own n'"
proof -
  have "owner_processes n' owner \<le> owner_processes n owner" for owner
    unfolding owner_processes_def assms(3) by (rule owners_delete)
  moreover have "length (nz_processes n') \<le> length (nz_processes n)" unfolding assms(2) by (rule length_delete)
  moreover have "nz_owners n' = map (\<lambda>p. (fst p, owner_key (own (fst p)))) (nz_processes n')"
    unfolding assms(2,3) using assms(1)
    by (simp add: normalizer_ok_def delete_owner[of c "\<lambda>c. owner_key (own c)"])
  moreover have "distinct (map fst (nz_processes n'))"
    unfolding assms(2) using assms(1) by (simp add: normalizer_ok_def distinct_delete)
  ultimately show ?thesis using assms(1) unfolding normalizer_ok_def by (meson le_trans)
qed

lemma nz_spawn_cases:
  obtains (refused) e where "nz_spawn opts now c owner src dst p process n = (n, throw e)"
  | (spawned) args where "canStart opts now c owner n"
      "nz_spawn opts now c owner src dst p process n =
        (n\<lparr>nz_processes := AList.update c process (nz_processes n),
           nz_owners := AList.update c (owner_key owner) (nz_owners n)\<rparr>, resolve args)"
  by (cases "canStart opts now c owner n";
      cases "liveNormalizerArgs src dst p (no_videoEncoder opts) (no_availableEncoders opts)")
    (auto simp: nz_spawn_def)

lemma normalizer_ok_spawn:
  assumes ok: "normalizer_ok opts own n"
  shows "normalizer_ok opts own (fst (nz_spawn opts now c (own c) src dst p process n))"
proof (cases rule: nz_spawn_cases[of opts now c "own c" src dst p process n])
  case refused
  then show ?thesis using ok by simp
next
  case (spawned args)
  let ?n = "fst (nz_spawn opts now c (own c) src dst p process n)"
  show ?thesis
  proof (cases "nz_running n c")
    case True
    have "map fst (nz_processes ?n) = map fst (nz_processes n)" "nz_owners ?n = nz_owners n"
      using True ok unfolding nz_running_iff
      by (simp_all add: spawned update_keys normalizer_ok_def update_owner[of c _ "\<lambda>c. owner_key (own c)"])
    then show ?thesis using ok map_keys_fst[of "nz_processes ?n" "nz_processes n" "\<lambda>c. owner_key (own c)"]
      by (auto simp: normalizer_ok_def owner_processes_def dest: arg_cong[where f = length])
  next
    case False
    then have new: "c \<notin> fst ` set (nz_processes n)" by (simp add: nz_running_iff)
    moreover have "fst ` set (nz_owners n) = fst ` set (nz_processes n)"
      using ok by (simp add: normalizer_ok_def image_image)
    ultimately have "nz_processes ?n = nz_processes n @ [(c, process)]"
      "nz_owners ?n = nz_owners n @ [(c, owner_key (own c))]"
      by (simp_all add: spawned update_new)
    moreover have "length (nz_processes n) < coalesce (no_maxConcurrent opts) 2"
      "owner_processes n (owner_key (own c)) < coalesce (no_maxConcurrentPerOwner opts) 9007199254740991"
      using spawned(1) False by (auto simp: canStart_def split: if_splits)
    ultimately show ?thesis using ok new by (auto simp: normalizer_ok_def owner_processes_def)
  qed
qed

lemma restartFailure_processes [simp]:
  "nz_processes (restartFailure opts c a b n) = nz_processes n" "nz_owners (restartFailure opts c a b n) = nz_owners n"
  by (simp_all add: restartFailure_def Let_def)

lemma normalizer_ok_exec:
  assumes "normalizer_ok opts own n" and "owned_event own e"
  shows "normalizer_ok opts own (nz_exec opts e n)"
proof (cases e)
  case (NzStop c)
  then show ?thesis using normalizer_ok_remove[OF assms(1), of _ c] by (simp add: nz_stop_def)
next
  case (NzSpawn now c owner src dst p process)
  then show ?thesis using normalizer_ok_spawn[OF assms(1)] assms(2) by simp
next
  case (NzStarted c)
  then have "nz_processes (nz_exec opts e n) = nz_processes n" "nz_owners (nz_exec opts e n) = nz_owners n"
    by (simp_all add: nz_started_def)
  then show ?thesis using assms(1) unfolding normalizer_ok_def owner_processes_def by metis
next
  case (NzFailed c process startedAt now message)
  show ?thesis
  proof (cases "map_of (nz_processes n) c = Some process")
    case True
    then show ?thesis using NzFailed
      by (intro normalizer_ok_remove[OF assms(1), of _ c]) (simp_all add: nz_failed_def)
  qed (use NzFailed assms(1) in \<open>simp add: nz_failed_def\<close>)
qed

lemma normalizer_ok_run:
  "normalizer_ok opts own n \<Longrightarrow> \<forall>e \<in> set es. owned_event own e \<Longrightarrow> normalizer_ok opts own (nz_run opts es n)"
  by (induction es arbitrary: n) (simp_all add: normalizer_ok_exec)

lemma normalizer_ok_start: "normalizer_ok opts own no_processes"
  by (simp add: normalizer_ok_def no_processes_def owner_processes_def)

section \<open>Backoff\<close>

text \<open>While a channel is not stopped and no start comes after its backoff, it is not started.\<close>

fun leaves_alone :: "ident \<Rightarrow> instant \<Rightarrow> nz_event \<Rightarrow> bool" where
  "leaves_alone c t (NzStop d) \<longleftrightarrow> d \<noteq> c"
| "leaves_alone c t (NzSpawn now d owner src dst p process) \<longleftrightarrow> (d = c \<longrightarrow> now < t)"
| "leaves_alone c t e \<longleftrightarrow> True"

definition backing_off :: "ident \<Rightarrow> instant \<Rightarrow> normalizer \<Rightarrow> bool" where
  "backing_off c t n \<longleftrightarrow> \<not> nz_running n c \<and> map_of (nz_restartNotBefore n) c = Some t"

lemma map_of_alist [simp]:
  "map_of (AList.update k v xs) j = (if j = k then Some v else map_of xs j)"
  "map_of (AList.delete k xs) j = (if j = k then None else map_of xs j)"
  by (simp_all add: update_conv' delete_conv')

lemma backing_off_exec:
  assumes "backing_off c t n" and "leaves_alone c t e"
  shows "backing_off c t (nz_exec opts e n)"
proof (cases e)
  case (NzSpawn now d owner src dst p process)
  show ?thesis
  proof (cases rule: nz_spawn_cases[of opts now d owner src dst p process n])
    case refused
    then show ?thesis using assms(1) NzSpawn by simp
  next
    case (spawned args)
    have "d \<noteq> c"
    proof
      assume "d = c"
      then show False using spawned(1) assms NzSpawn by (auto simp: backing_off_def canStart_def split: if_splits)
    qed
    then show ?thesis using assms(1) NzSpawn spawned(2) by (simp add: backing_off_def nz_running_def)
  qed
next
  case (NzFailed d process startedAt now message)
  show ?thesis
  proof (cases "map_of (nz_processes n) d = Some process")
    case True
    then have "d \<noteq> c" using assms(1) by (auto simp: backing_off_def nz_running_def)
    then show ?thesis using NzFailed assms(1)
      by (simp add: nz_failed_def backing_off_def nz_running_def restartFailure_def Let_def)
  qed (use NzFailed assms(1) in \<open>simp add: nz_failed_def\<close>)
qed (use assms in \<open>simp_all add: nz_stop_def nz_started_def backing_off_def nz_running_def\<close>)

lemma backing_off_run:
  "backing_off c t n \<Longrightarrow> \<forall>e \<in> set es. leaves_alone c t e \<Longrightarrow> backing_off c t (nz_run opts es n)"
  by (induction es arbitrary: n) (simp_all add: backing_off_exec)

lemma failure_backs_off:
  assumes "map_of (nz_processes n) c = Some process"
  shows "\<exists>failures. map_of (nz_restartFailures (nz_failed opts c process s now m n)) c = Some failures \<and>
    failures = (if 30000 \<le> now - s then 1 else coalesce (map_of (nz_restartFailures n) c) 0 + 1) \<and>
    backing_off c (now + restart_delay opts failures) (nz_failed opts c process s now m n)"
  using assms by (simp add: nz_failed_def restartFailure_def Let_def backing_off_def nz_running_def)

end
