(* ===== verification/RelayLive.thy ===== *)
theory RelayLive
  imports RelayCredentials RelayUrl RelayNormalizer
begin

text \<open>
  The live-channel service (\<^verbatim>\<open>packages/application/src/live-service.ts\<close>): the credentials of the
  publishers, the claim of a publisher's slot, the reconciliation with the paths the media
  server reports, and the normalizers. \<open>hash\<close> is the token hash, \<open>origin\<close> what the URL parser
  makes of the part of a URL before its query. What others write is the environment: \<open>env k\<close>
  runs before the \<open>k\<close>-th call on the repository.
\<close>

section \<open>Options and publisher URLs\<close>

record live_options =
  lo_publicUrl :: string
  lo_rtmpUrl :: string
  lo_srtUrl :: string
  lo_whipUrl :: string
  lo_hlsUrl :: string
  lo_internalRtspUrl :: string
  lo_backupRtmpUrl :: "string option"
  lo_backupSrtUrl :: "string option"
  lo_allowUnauthenticatedInternalRead :: bool
  lo_maxChannelsTotal :: "nat option"
  lo_maxChannelsPerOwner :: "nat option"

record publisher_details =
  pd_publishToken :: string
  pd_rtmpUrl :: string
  pd_srtUrl :: string
  pd_whipUrl :: string
  pd_backupRtmpUrl :: "string option"
  pd_backupSrtUrl :: "string option"

text \<open>\<^verbatim>\<open>...(x ? { key: f x } : {})\<close>\<close>

definition when_given :: "string option \<Rightarrow> (string \<Rightarrow> 'a) \<Rightarrow> 'a option" where
  "when_given x f = (if truthy x then map_option f x else None)"

definition rtmp_url :: "string \<Rightarrow> string \<Rightarrow> string" where
  "rtmp_url base ingestPath = base @ ''/'' @ ingestPath"

definition srt_url :: "string \<Rightarrow> string \<Rightarrow> string" where
  "srt_url base ingestPath = base @ ''?streamid=publish:'' @ ingestPath"

definition whip_url :: "string \<Rightarrow> string \<Rightarrow> string" where
  "whip_url base ingestPath = base @ ''/'' @ ingestPath @ ''/whip''"

definition PUBLISH_USER :: string where
  "PUBLISH_USER = ''vrrelay-publish''"

definition publisherConnectionDetails :: "live_options \<Rightarrow> string \<Rightarrow> string \<Rightarrow> publisher_details" where
  "publisherConnectionDetails opts ingestPath token =
     (let rtmp = (\<lambda>base. rtmp_url base ingestPath @ ''?user='' @ PUBLISH_USER @ ''&pass='' @ token);
          srt = (\<lambda>base. srt_url base ingestPath @ '':'' @ PUBLISH_USER @ '':'' @ token @ ''&pkt_size=1316'')
      in \<lparr>pd_publishToken = token, pd_rtmpUrl = rtmp (lo_rtmpUrl opts), pd_srtUrl = srt (lo_srtUrl opts),
          pd_whipUrl = whip_url (lo_whipUrl opts) ingestPath @ ''?token='' @ token,
          pd_backupRtmpUrl = when_given (lo_backupRtmpUrl opts) rtmp,
          pd_backupSrtUrl = when_given (lo_backupSrtUrl opts) srt\<rparr>)"

definition ingest_path :: "live_channel \<Rightarrow> string" where
  "ingest_path c = coalesce (chan_ingestPath c) (chan_path c)"

section \<open>Removing credentials\<close>

definition clean_params :: "query_params \<Rightarrow> query_params" where
  "clean_params ps =
     (let ps' = params_delete ''token'' (params_delete ''pass'' (params_delete ''user'' ps))
      in case params_get ''streamid'' ps' of
           None \<Rightarrow> ps'
         | Some streamId \<Rightarrow>
             if take 8 streamId = ''publish:''
             then params_set ''streamid'' (''publish:'' @ (split_on (CHR '':'') streamId ! 1)) ps'
             else ps')"

definition removePublisherCredential :: "(string \<Rightarrow> string option) \<Rightarrow> string \<Rightarrow> string option" where
  "removePublisherCredential origin u =
     map_option (\<lambda>p. print_url (p\<lparr>url_params := clean_params (url_params p)\<rparr>)) (parse_url origin u)"

text \<open>A backup URL is only touched when it is there; an invalid URL is a \<^verbatim>\<open>TypeError\<close>.\<close>

definition clean_backup :: "(string \<Rightarrow> string option) \<Rightarrow> string option \<Rightarrow> string option option" where
  "clean_backup origin u =
     (if truthy u then map_option Some (removePublisherCredential origin (the u)) else Some u)"

definition sanitizeLiveChannel :: "(string \<Rightarrow> string option) \<Rightarrow> live_channel \<Rightarrow> live_channel option" where
  "sanitizeLiveChannel origin c =
     (case (removePublisherCredential origin (chan_rtmpUrl c), removePublisherCredential origin (chan_srtUrl c),
            removePublisherCredential origin (chan_whipUrl c), clean_backup origin (chan_backupRtmpUrl c),
            clean_backup origin (chan_backupSrtUrl c)) of
        (Some rtmp, Some srt, Some whip, Some backupRtmp, Some backupSrt) \<Rightarrow>
          Some (c\<lparr>chan_rtmpUrl := rtmp, chan_srtUrl := srt, chan_whipUrl := whip,
                  chan_backupRtmpUrl := backupRtmp, chan_backupSrtUrl := backupSrt\<rparr>)
      | _ \<Rightarrow> None)"

definition publicChannel ::
    "(string \<Rightarrow> string option) \<Rightarrow> live_options \<Rightarrow> live_channel \<Rightarrow> public_live_channel outcome" where
  "publicChannel origin opts c =
     (case sanitizeLiveChannel origin c of
        None \<Rightarrow> throw PlainError
      | Some s \<Rightarrow>
          let ingestPath = ingest_path s
          in resolve (publicLiveChannel
            (s\<lparr>chan_rtmpUrl := rtmp_url (lo_rtmpUrl opts) ingestPath,
               chan_srtUrl := srt_url (lo_srtUrl opts) ingestPath,
               chan_whipUrl := whip_url (lo_whipUrl opts) ingestPath,
               chan_backupRtmpUrl := (if truthy (lo_backupRtmpUrl opts)
                 then when_given (lo_backupRtmpUrl opts) (\<lambda>b. rtmp_url b ingestPath) else chan_backupRtmpUrl s),
               chan_backupSrtUrl := (if truthy (lo_backupSrtUrl opts)
                 then when_given (lo_backupSrtUrl opts) (\<lambda>b. srt_url b ingestPath) else chan_backupSrtUrl s)\<rparr>)))"

fun outcomes :: "'a outcome list \<Rightarrow> 'a list outcome" where
  "outcomes [] = resolve []"
| "outcomes (x # xs) =
     (case x of Inl e \<Rightarrow> throw e | Inr y \<Rightarrow> (case outcomes xs of Inl e \<Rightarrow> throw e | Inr ys \<Rightarrow> resolve (y # ys)))"

definition list_channels ::
    "(string \<Rightarrow> string option) \<Rightarrow> live_options \<Rightarrow> ident option \<Rightarrow> db \<Rightarrow> public_live_channel list outcome" where
  "list_channels origin opts ownerFilter d =
     outcomes (map (publicChannel origin opts)
       (filter (\<lambda>c. ownerFilter = None \<or> chan_ownerId c = ownerFilter) (listLiveChannels d)))"

section \<open>Creation\<close>

record live_request =
  lr_name :: string
  lr_preferredRegion :: "string option"
  lr_normalize :: bool

definition selectOrigin :: "cluster_node list \<Rightarrow> string option \<Rightarrow> ident option \<times> string option" where
  "selectOrigin nodes preferredRegion =
     (let origins = filter (\<lambda>n. RoleIngestOrigin \<in> set (node_roles n) \<and> node_state n = NodeOnline) nodes;
          selected = (case (if truthy preferredRegion
                            then find (\<lambda>n. Some (node_region n) = preferredRegion) origins else None) of
                        None \<Rightarrow> js_first origins | Some n \<Rightarrow> Some n)
      in case selected of
           Some n \<Rightarrow> (Some (node_id n), Some (node_region n))
         | None \<Rightarrow> (None, if truthy preferredRegion then preferredRegion else None))"

definition new_channel ::
    "live_options \<Rightarrow> (string \<Rightarrow> string) \<Rightarrow> live_request \<Rightarrow> ident option \<Rightarrow> ident option \<times> string option \<Rightarrow>
       ident \<Rightarrow> string \<Rightarrow> string \<Rightarrow> instant \<Rightarrow> live_channel" where
  "new_channel opts hash input ownerId source_node i pathToken publishToken now =
     (let path = ''live-'' @ pathToken; ingestPath = (if lr_normalize input then path @ ''-ingest'' else path)
      in \<lparr>chan_id = i, chan_ownerId = when_given ownerId id, chan_name = lr_name input, chan_path = path,
          chan_ingestPath = (if lr_normalize input then Some ingestPath else None),
          chan_originNodeId = when_given (fst source_node) id, chan_region = when_given (snd source_node) id,
          chan_normalizationProfileId = None, chan_normalize = lr_normalize input,
          chan_publisherState = PublisherOffline, chan_publisherUpdatedAt = None,
          chan_publishTokenHash = hash publishToken, chan_replacementPublishTokenHash = None,
          chan_publisherReplacementRequestedAt = None,
          chan_rtmpUrl = rtmp_url (lo_rtmpUrl opts) ingestPath,
          chan_srtUrl = srt_url (lo_srtUrl opts) ingestPath,
          chan_whipUrl = whip_url (lo_whipUrl opts) ingestPath,
          chan_backupRtmpUrl = when_given (lo_backupRtmpUrl opts) (\<lambda>b. rtmp_url b ingestPath),
          chan_backupSrtUrl = when_given (lo_backupSrtUrl opts) (\<lambda>b. srt_url b ingestPath),
          chan_createdAt = now\<rparr>)"

definition create_channel ::
    "(nat \<Rightarrow> repo_op list) \<Rightarrow> live_options \<Rightarrow> (string \<Rightarrow> string) \<Rightarrow> bool \<Rightarrow> live_request \<Rightarrow> ident option \<Rightarrow>
       ident \<Rightarrow> string \<Rightarrow> string \<Rightarrow> instant \<Rightarrow> db \<Rightarrow> db \<times> (public_live_channel \<times> publisher_details) outcome" where
  "create_channel env opts hash clustered input ownerId i pathToken publishToken now d =
     (let d1 = (if clustered then run_ops (env 0) d else d);
          c = new_channel opts hash input ownerId
                (selectOrigin (if clustered then repoListNodes d1 else []) (lr_preferredRegion input))
                i pathToken publishToken now
      in case createLiveChannelWithinCapacity (run_ops (env 1) d1) c
                (coalesce (lo_maxChannelsTotal opts) 32) (coalesce (lo_maxChannelsPerOwner opts) 4) of
           (d2, Inl e) \<Rightarrow> (d2, throw e)
         | (d2, Inr (Inl OwnerNotFound)) \<Rightarrow> (d2, throw ConflictError)
         | (d2, Inr (Inl OwnerLimit)) \<Rightarrow> (d2, throw CapacityError)
         | (d2, Inr (Inl InstallationLimit)) \<Rightarrow> (d2, throw CapacityError)
         | (d2, Inr (Inr record)) \<Rightarrow>
             (d2, resolve (publicLiveChannel c, publisherConnectionDetails opts (ingest_path c) publishToken)))"

section \<open>Replacement credentials\<close>

definition MAX_LIVE_CHANNEL_WRITE_ATTEMPTS :: nat where
  "MAX_LIVE_CHANNEL_WRITE_ATTEMPTS = 5"

text \<open>The record to go on with after a refused write: the one the refusal gave, or a new read.\<close>

definition current_or_read ::
    "repo_op list \<Rightarrow> ident \<Rightarrow> live_channel versioned option \<Rightarrow> db \<Rightarrow> db \<times> live_channel versioned option" where
  "current_or_read others i current d =
     (case current of
        Some c \<Rightarrow> (d, Some c)
      | None \<Rightarrow> let d' = run_ops others d in (d', getVersionedLiveChannel d' i))"

definition issue_replacement :: "string \<Rightarrow> instant \<Rightarrow> live_channel \<Rightarrow> live_channel" where
  "issue_replacement replacementHash now c =
     c\<lparr>chan_replacementPublishTokenHash := Some replacementHash, chan_publisherReplacementRequestedAt := Some now\<rparr>"

definition replace_attempt ::
    "(nat \<Rightarrow> repo_op list) \<Rightarrow> (nat \<Rightarrow> instant) \<Rightarrow> (string \<Rightarrow> string option) \<Rightarrow> live_options \<Rightarrow> string \<Rightarrow> ident \<Rightarrow>
       nat \<Rightarrow> db \<times> live_channel versioned \<Rightarrow> (db \<times> live_channel versioned) \<times> public_live_channel outcome option" where
  "replace_attempt env clock origin opts replacementHash i k w =
     (case w of (d, stored) \<Rightarrow>
        (case compareAndSetLiveChannel (run_ops (env (2 * k + 1)) d)
                (issue_replacement replacementHash (clock k) (vr_value stored)) (vr_revision stored) of
           (d', Applied record) \<Rightarrow> ((d', record), Some (publicChannel origin opts (vr_value record)))
         | (d', Rejected reason current _) \<Rightarrow>
             if reason = NotFound then ((d', stored), Some (throw NotFoundError))
             else (case current_or_read (env (2 * k + 2)) i current d' of
                     (d'', None) \<Rightarrow> ((d'', stored), Some (throw ConflictError))
                   | (d'', Some c) \<Rightarrow> ((d'', c), None))))"

definition replacePublisher ::
    "(nat \<Rightarrow> repo_op list) \<Rightarrow> (nat \<Rightarrow> instant) \<Rightarrow> (string \<Rightarrow> string option) \<Rightarrow> live_options \<Rightarrow> (string \<Rightarrow> string) \<Rightarrow>
       string \<Rightarrow> ident \<Rightarrow> db \<Rightarrow> db \<times> (public_live_channel \<times> publisher_details) outcome" where
  "replacePublisher env clock origin opts hash publishToken i d =
     (let d0 = run_ops (env 0) d
      in case getVersionedLiveChannel d0 i of
           None \<Rightarrow> (d0, throw NotFoundError)
         | Some stored \<Rightarrow>
             let publisher = publisherConnectionDetails opts (ingest_path (vr_value stored)) publishToken;
                 (w, r) = retry 0 MAX_LIVE_CHANNEL_WRITE_ATTEMPTS
                   (replace_attempt env clock origin opts (hash publishToken) i) (throw ConflictError) (d0, stored)
             in (fst w, case r of Inl e \<Rightarrow> throw e | Inr channel \<Rightarrow> resolve (channel, publisher)))"

section \<open>The publisher's slot\<close>

datatype publisher_credential = PrimaryCredential | ReplacementCredential

datatype auth_reason = BadToken | ReplacementPending | ActivePublisher | MissingChannel | TooManyConflicts

datatype publisher_auth =
    AuthAccepted publisher_credential
  | AuthRejected "publisher_credential option" auth_reason

fun accepted :: "publisher_auth \<Rightarrow> bool" where
  "accepted (AuthAccepted _) = True"
| "accepted (AuthRejected _ _) = False"

definition check_claim :: "string \<Rightarrow> live_channel \<Rightarrow> publisher_auth" where
  "check_claim tokenHash c =
     (let replacementMatches = Some tokenHash = chan_replacementPublishTokenHash c;
          primaryMatches = (tokenHash = chan_publishTokenHash c)
      in if \<not> replacementMatches \<and> \<not> primaryMatches then AuthRejected None BadToken
         else if primaryMatches \<and> truthy (chan_replacementPublishTokenHash c)
         then AuthRejected (Some PrimaryCredential) ReplacementPending
         else if \<not> replacementMatches \<and> chan_publisherState c \<in> {PublisherOnline, PublisherReconnecting}
         then AuthRejected (Some PrimaryCredential) ActivePublisher
         else AuthAccepted (if replacementMatches then ReplacementCredential else PrimaryCredential))"

definition promoteReplacementPublisher :: "live_channel \<Rightarrow> string \<Rightarrow> live_channel" where
  "promoteReplacementPublisher c replacementHash =
     c\<lparr>chan_replacementPublishTokenHash := None, chan_publisherReplacementRequestedAt := None,
       chan_publishTokenHash := replacementHash\<rparr>"

definition claimed_channel :: "string \<Rightarrow> instant \<Rightarrow> live_channel \<Rightarrow> live_channel" where
  "claimed_channel tokenHash now c =
     (if Some tokenHash = chan_replacementPublishTokenHash c then promoteReplacementPublisher c tokenHash else c)
       \<lparr>chan_publisherState := PublisherReconnecting, chan_publisherUpdatedAt := Some now\<rparr>"

definition slot_attempt ::
    "(nat \<Rightarrow> repo_op list) \<Rightarrow> (nat \<Rightarrow> instant) \<Rightarrow> string \<Rightarrow> ident \<Rightarrow> nat \<Rightarrow>
       db \<times> live_channel versioned \<Rightarrow> (db \<times> live_channel versioned) \<times> publisher_auth option" where
  "slot_attempt env clock tokenHash i k w =
     (case w of (d, stored) \<Rightarrow>
        (case check_claim tokenHash (vr_value stored) of
           AuthRejected c reason \<Rightarrow> (w, Some (AuthRejected c reason))
         | AuthAccepted credential \<Rightarrow>
             (case compareAndSetLiveChannel (run_ops (env (2 * k + 1)) d)
                     (claimed_channel tokenHash (clock k) (vr_value stored)) (vr_revision stored) of
                (d', Applied record) \<Rightarrow> ((d', record), Some (AuthAccepted credential))
              | (d', Rejected reason current _) \<Rightarrow>
                  if reason = NotFound then ((d', stored), Some (AuthRejected (Some credential) MissingChannel))
                  else (case current_or_read (env (2 * k + 2)) i current d' of
                          (d'', None) \<Rightarrow> ((d'', stored), Some (AuthRejected None TooManyConflicts))
                        | (d'', Some c) \<Rightarrow> ((d'', c), None)))))"

definition claimPublisherSlot ::
    "(nat \<Rightarrow> repo_op list) \<Rightarrow> (nat \<Rightarrow> instant) \<Rightarrow> ident \<Rightarrow> string \<Rightarrow> db \<Rightarrow> db \<times> publisher_auth" where
  "claimPublisherSlot env clock i tokenHash d =
     (let d0 = run_ops (env 0) d
      in case getVersionedLiveChannel d0 i of
           None \<Rightarrow> (d0, AuthRejected None TooManyConflicts)
         | Some stored \<Rightarrow>
             apfst fst (retry 0 MAX_LIVE_CHANNEL_WRITE_ATTEMPTS (slot_attempt env clock tokenHash i)
               (AuthRejected None TooManyConflicts) (d0, stored)))"

record mtx_request =
  mtx_action :: string
  mtx_path :: string
  mtx_protocol :: "string option"
  mtx_user :: "string option"
  mtx_password :: "string option"
  mtx_token :: "string option"

definition internal_rtsp :: "live_options \<Rightarrow> mtx_request \<Rightarrow> bool" where
  "internal_rtsp opts r \<longleftrightarrow>
     lo_allowUnauthenticatedInternalRead opts \<and> mtx_protocol r = Some ''rtsp'' \<and>
     \<not> truthy (mtx_user r) \<and> \<not> truthy (mtx_password r) \<and> \<not> truthy (mtx_token r)"

definition authorizeMediaMtx ::
    "(nat \<Rightarrow> repo_op list) \<Rightarrow> (nat \<Rightarrow> instant) \<Rightarrow> live_options \<Rightarrow> (string \<Rightarrow> string) \<Rightarrow> mtx_request \<Rightarrow> string \<Rightarrow>
       db \<Rightarrow> db \<times> bool" where
  "authorizeMediaMtx env clock opts hash r readToken d =
     (let d0 = run_ops (env 0) d; channels = listLiveChannels d0
      in if mtx_action r = ''read'' \<or> mtx_action r = ''playback''
         then (d0, if internal_rtsp opts r
                   then \<exists>c \<in> set channels. chan_normalize c \<and> chan_ingestPath c = Some (mtx_path r)
                   else mtx_user r = Some ''vrrelay-read'' \<and>
                        (mtx_password r = Some readToken \<or> mtx_token r = Some readToken))
         else if mtx_action r \<noteq> ''publish'' then (d0, False)
         else if internal_rtsp opts r
         then (d0, \<exists>c \<in> set channels. chan_normalize c \<and> chan_path c = mtx_path r)
         else if mtx_user r \<noteq> Some PUBLISH_USER then (d0, False)
         else
           let supplied = coalesce (mtx_password r) (coalesce (mtx_token r) []);
               tokenHash = (if supplied = [] then [] else hash supplied)
           in case find (\<lambda>c. ingest_path c = mtx_path r) channels of
                None \<Rightarrow> (d0, False)
              | Some c \<Rightarrow>
                  if tokenHash = [] \<or>
                     tokenHash \<noteq> chan_publishTokenHash c \<and> Some tokenHash \<noteq> chan_replacementPublishTokenHash c
                  then (d0, False)
                  else apsnd accepted (claimPublisherSlot (\<lambda>k. env (Suc k)) clock (chan_id c) tokenHash d0))"

section \<open>Scrubbing persisted credentials\<close>

definition scrub_attempt ::
    "(nat \<Rightarrow> repo_op list) \<Rightarrow> (string \<Rightarrow> string option) \<Rightarrow> ident \<Rightarrow> nat \<Rightarrow>
       db \<times> live_channel versioned \<Rightarrow> (db \<times> live_channel versioned) \<times> unit outcome option" where
  "scrub_attempt env origin i k w =
     (case w of (d, stored) \<Rightarrow>
        (case sanitizeLiveChannel origin (vr_value stored) of
           None \<Rightarrow> (w, Some (throw PlainError))
         | Some sanitized \<Rightarrow>
             if sanitized = vr_value stored then (w, Some (resolve ()))
             else (case compareAndSetLiveChannel (run_ops (env (2 * k + 1)) d) sanitized (vr_revision stored) of
                     (d', Applied _) \<Rightarrow> ((d', stored), Some (resolve ()))
                   | (d', Rejected reason current _) \<Rightarrow>
                       if reason = NotFound then ((d', stored), Some (resolve ()))
                       else (case current_or_read (env (2 * k + 2)) i current d' of
                               (d'', None) \<Rightarrow> ((d'', stored), Some (resolve ()))
                             | (d'', Some c) \<Rightarrow> ((d'', c), None)))))"

definition scrub_channel ::
    "(nat \<Rightarrow> repo_op list) \<Rightarrow> (string \<Rightarrow> string option) \<Rightarrow> ident \<Rightarrow> db \<Rightarrow> db \<times> unit outcome" where
  "scrub_channel env origin i d =
     (let d0 = run_ops (env 0) d
      in case getVersionedLiveChannel d0 i of
           None \<Rightarrow> (d0, resolve ())
         | Some stored \<Rightarrow> apfst fst (retry 0 3 (scrub_attempt env origin i) (resolve ()) (d0, stored)))"

fun scrub_listed ::
    "(nat \<Rightarrow> nat \<Rightarrow> repo_op list) \<Rightarrow> (string \<Rightarrow> string option) \<Rightarrow> nat \<Rightarrow> live_channel list \<Rightarrow> db \<Rightarrow> db \<times> unit outcome" where
  "scrub_listed env origin j [] d = (d, resolve ())"
| "scrub_listed env origin j (c # cs) d =
     (case scrub_channel (env j) origin (chan_id c) d of
        (d', Inl e) \<Rightarrow> (d', throw e)
      | (d', Inr _) \<Rightarrow> scrub_listed env origin (Suc j) cs d')"

definition scrubPersistedPublisherCredentials ::
    "(nat \<Rightarrow> nat \<Rightarrow> repo_op list) \<Rightarrow> (string \<Rightarrow> string option) \<Rightarrow> db \<Rightarrow> db \<times> unit outcome" where
  "scrubPersistedPublisherCredentials env origin d = scrub_listed env origin 0 (listLiveChannels d) d"

section \<open>Reconciliation with the media server\<close>

datatype live_event =
    PublisherConnected ident string
  | PublisherDisconnected ident string
  | NormalizerFailed ident
  | ChannelDeleted ident string

text \<open>The service's world; there is no normalizer on a node that does not normalise.\<close>

record live_world =
  lw_db :: db
  lw_normalizer :: "normalizer option"
  lw_events :: "live_event list"

text \<open>What a managed process does: what a stop answers, how a start ends, what happens meanwhile.\<close>

record supervision =
  su_during :: "nat \<Rightarrow> nz_event list"
  su_clock :: "nat \<Rightarrow> instant"
  su_stopped :: "unit outcome"
  su_failure :: "string option"
  su_process :: nat

definition ownsChannel :: "relay_session \<Rightarrow> ident \<Rightarrow> bool" where
  "ownsChannel s channelId \<longleftrightarrow>
     ses_kind s = Live \<and> ses_liveChannelId s = Some channelId \<and> ses_state s \<noteq> SessionStopped"

definition normalizationProfile :: "(nat \<Rightarrow> repo_op list) \<Rightarrow> live_channel \<Rightarrow> db \<Rightarrow> db \<times> profile option" where
  "normalizationProfile env c d =
     (let d1 = run_ops (env 2) d
      in if truthy (chan_normalizationProfileId c) then (d1, getProfile d1 (the (chan_normalizationProfileId c)))
         else case find (\<lambda>s. ownsChannel s (chan_id c)) (listSessions d1) of
           None \<Rightarrow> (d1, None)
         | Some s \<Rightarrow> let d2 = run_ops (env 3) d1 in (d2, getProfile d2 (ses_profileId s)))"

definition stop_normalizer :: "supervision \<Rightarrow> ident \<Rightarrow> normalizer \<Rightarrow> normalizer \<times> unit outcome" where
  "stop_normalizer su i n = (case nz_stop i n of (n', p) \<Rightarrow> (n', if p = None then resolve () else su_stopped su))"

definition normalise_channel ::
    "(nat \<Rightarrow> repo_op list) \<Rightarrow> live_options \<Rightarrow> normalizer_options \<Rightarrow> supervision \<Rightarrow> bool \<Rightarrow> live_channel \<Rightarrow>
       live_world \<Rightarrow> live_world \<times> unit outcome" where
  "normalise_channel env opts nopts su online c w =
     (case lw_normalizer w of
        None \<Rightarrow> (w, resolve ())
      | Some n \<Rightarrow>
          if \<not> chan_normalize c then (w, resolve ())
          else case normalizationProfile env c (lw_db w) of
            (d, None) \<Rightarrow>
              if nz_running n (chan_id c)
              then (case stop_normalizer su (chan_id c) n of (n', r) \<Rightarrow> (w\<lparr>lw_db := d, lw_normalizer := Some n'\<rparr>, r))
              else (w\<lparr>lw_db := d\<rparr>, resolve ())
          | (d, Some p) \<Rightarrow>
              if online \<and> \<not> nz_running n (chan_id c) \<and> canStart nopts (su_clock su 0) (chan_id c) (chan_ownerId c) n
              then (case nz_start nopts (su_during su) (su_clock su) (su_stopped su) (su_failure su)
                           (chan_id c) (chan_ownerId c)
                           (rtmp_url (lo_internalRtspUrl opts) (ingest_path c))
                           (rtmp_url (lo_internalRtspUrl opts) (chan_path c)) p (su_process su) n of
                      (n', Inr _) \<Rightarrow> (w\<lparr>lw_db := d, lw_normalizer := Some n'\<rparr>, resolve ())
                    | (n', Inl _) \<Rightarrow>
                        (w\<lparr>lw_db := d, lw_normalizer := Some n',
                           lw_events := lw_events w @ [NormalizerFailed (chan_id c)]\<rparr>, resolve ()))
              else if \<not> online \<and> nz_running n (chan_id c)
              then (case stop_normalizer su (chan_id c) n of (n', r) \<Rightarrow> (w\<lparr>lw_db := d, lw_normalizer := Some n'\<rparr>, r))
              else (w\<lparr>lw_db := d\<rparr>, resolve ()))"

definition path_state :: "string list \<Rightarrow> live_channel \<Rightarrow> publisher_state" where
  "path_state ready c = (if ingest_path c \<in> set ready then PublisherOnline else PublisherOffline)"

definition reconcile_channel ::
    "(nat \<Rightarrow> repo_op list) \<Rightarrow> live_options \<Rightarrow> normalizer_options \<Rightarrow> supervision \<Rightarrow> instant \<Rightarrow> string list \<Rightarrow> ident \<Rightarrow>
       live_world \<Rightarrow> live_world \<times> unit outcome" where
  "reconcile_channel env opts nopts su now ready i w =
     (let d0 = run_ops (env 0) (lw_db w)
      in case getVersionedLiveChannel d0 i of
           None \<Rightarrow> (w\<lparr>lw_db := d0\<rparr>, resolve ())
         | Some stored \<Rightarrow>
             let c = vr_value stored; state = path_state ready c; online = (state = PublisherOnline)
             in if chan_publisherState c \<noteq> state
                then (case compareAndSetLiveChannel (run_ops (env 1) d0)
                             (c\<lparr>chan_publisherState := state, chan_publisherUpdatedAt := Some now\<rparr>)
                             (vr_revision stored) of
                        (d1, Applied record) \<Rightarrow>
                          normalise_channel env opts nopts su online (vr_value record)
                            (w\<lparr>lw_db := d1, lw_events := lw_events w @
                               [(if online then PublisherConnected else PublisherDisconnected)
                                  (chan_id (vr_value record)) (chan_path (vr_value record))]\<rparr>)
                      | (d1, Rejected _ _ _) \<Rightarrow> (w\<lparr>lw_db := d1\<rparr>, resolve ()))
                else normalise_channel env opts nopts su online c (w\<lparr>lw_db := d0\<rparr>))"

fun reconcile_listed ::
    "(nat \<Rightarrow> nat \<Rightarrow> repo_op list) \<Rightarrow> live_options \<Rightarrow> normalizer_options \<Rightarrow> (ident \<Rightarrow> supervision) \<Rightarrow> (nat \<Rightarrow> instant) \<Rightarrow>
       string list \<Rightarrow> nat \<Rightarrow> live_channel list \<Rightarrow> live_world \<Rightarrow> live_world \<times> unit outcome" where
  "reconcile_listed env opts nopts su clock ready j [] w = (w, resolve ())"
| "reconcile_listed env opts nopts su clock ready j (c # cs) w =
     (case reconcile_channel (env j) opts nopts (su (chan_id c)) (clock j) ready (chan_id c) w of
        (w', Inl e) \<Rightarrow> (w', throw e)
      | (w', Inr _) \<Rightarrow> reconcile_listed env opts nopts su clock ready (Suc j) cs w')"

definition reconcilePublisherPaths ::
    "(nat \<Rightarrow> nat \<Rightarrow> repo_op list) \<Rightarrow> live_options \<Rightarrow> normalizer_options \<Rightarrow> (ident \<Rightarrow> supervision) \<Rightarrow> (nat \<Rightarrow> instant) \<Rightarrow>
       string list \<Rightarrow> live_world \<Rightarrow> live_world \<times> unit outcome" where
  "reconcilePublisherPaths env opts nopts su clock ready w =
     reconcile_listed env opts nopts su clock ready 0 (listLiveChannels (lw_db w)) w"

section \<open>Deletion and shutdown\<close>

definition has_sessions :: "ident \<Rightarrow> db \<Rightarrow> bool" where
  "has_sessions i d \<longleftrightarrow> (\<exists>s \<in> set (listSessions d). ses_liveChannelId s = Some i)"

definition delete_channel ::
    "(nat \<Rightarrow> repo_op list) \<Rightarrow> supervision \<Rightarrow> ident \<Rightarrow> live_world \<Rightarrow> live_world \<times> unit outcome" where
  "delete_channel env su i w =
     (let d0 = run_ops (env 0) (lw_db w); d1 = run_ops (env 1) d0
      in case getVersionedLiveChannel d0 i of
           None \<Rightarrow> (w\<lparr>lw_db := d0\<rparr>, throw NotFoundError)
         | Some stored \<Rightarrow>
             if chan_publisherState (vr_value stored) \<noteq> PublisherOffline then (w\<lparr>lw_db := d0\<rparr>, throw ConflictError)
             else if has_sessions i d1 then (w\<lparr>lw_db := d1\<rparr>, throw ConflictError)
             else
               (case (case lw_normalizer w of
                        None \<Rightarrow> (None, resolve ())
                      | Some n \<Rightarrow> (case stop_normalizer su i n of (n', r) \<Rightarrow> (Some n', r))) of
                  (n', Inl e) \<Rightarrow> (w\<lparr>lw_db := d1, lw_normalizer := n'\<rparr>, throw e)
                | (n', Inr _) \<Rightarrow>
                    (case deleteLiveChannel (run_ops (env 2) d1) i (vr_revision stored) of
                       (d2, Inl e) \<Rightarrow> (w\<lparr>lw_db := d2, lw_normalizer := n'\<rparr>, throw e)
                     | (d2, Inr (Applied _)) \<Rightarrow>
                         (w\<lparr>lw_db := d2, lw_normalizer := n',
                            lw_events := lw_events w @ [ChannelDeleted i (chan_name (vr_value stored))]\<rparr>, resolve ())
                     | (d2, Inr (Rejected reason current _)) \<Rightarrow>
                         (w\<lparr>lw_db := d2, lw_normalizer := n'\<rparr>,
                          throw (if reason = NotFound then NotFoundError else ConflictError)))))"

text \<open>All normalizers are asked to stop; one failure makes the shutdown fail after the others stopped.\<close>

definition stop_live :: "(ident \<Rightarrow> supervision) \<Rightarrow> live_world \<Rightarrow> live_world \<times> unit outcome" where
  "stop_live su w =
     (case lw_normalizer w of
        None \<Rightarrow> (w, resolve ())
      | Some n \<Rightarrow>
          let ids = map chan_id (listLiveChannels (lw_db w));
              failed = (\<exists>i \<in> set ids. nz_running n i \<and> su_stopped (su i) \<noteq> resolve ())
          in (w\<lparr>lw_normalizer := Some (fold (\<lambda>i n. fst (nz_stop i n)) ids n)\<rparr>,
              if failed then throw PlainError else resolve ()))"

end
