(* ===== verification/RelayLiveFacts.thy ===== *)
theory RelayLiveFacts
  imports RelayLive
begin

text \<open>
  The interleavings of the requests on one live channel. Every handler of the service reads
  the channel and later writes, with the revision it read, what it makes of that record; the
  writes are the cases of \<open>channel_write\<close>, and \<open>channel_step\<close> is one step of any mixture of
  requests and of operations of others. The log says who was admitted to the publisher's slot
  and what the media server reported. A stale write is refused, so every write that counts is
  made from the current record: that is what the locale of the revisioned store gives.
\<close>

section \<open>Writing what was read\<close>

context revisioned_store begin

definition current_or_older :: "'w \<Rightarrow> 'k \<Rightarrow> 'v versioned \<Rightarrow> bool" where
  "current_or_older w k c \<longleftrightarrow>
     (case get w k of None \<Rightarrow> True | Some x \<Rightarrow> vr_revision c < vr_revision x \<or> c = x)"

lemma write_what_was_read:
  assumes "wf w" and "current_or_older w k c"
  obtains (applied) "get w k = Some c" "ok (vr_value c)"
      "snd (cas w k new (vr_revision c)) = Applied (versioned new (Suc (vr_revision c)))"
      "get (fst (cas w k new (vr_revision c))) = (get w)(k \<mapsto> versioned new (Suc (vr_revision c)))"
  | (refused) reason cur where "cas w k new (vr_revision c) = (w, Rejected reason cur [])"
  using assms(1)
proof (cases rule: cas_cases[where k = k and r = "vr_revision c" and new = new])
  case (applied old)
  then have "c = versioned old (vr_revision c)" using assms(2) by (simp add: current_or_older_def)
  then have "get w k = Some c" "vr_value c = old" using applied(1) by (cases c; simp)+
  then show ?thesis using applied that(1) by simp
next
  case (rejected reason cur)
  then show ?thesis by (rule that(2))
qed

end

section \<open>The rows of the channels\<close>

definition channels_named :: "db \<Rightarrow> bool" where
  "channels_named d \<longleftrightarrow> (\<forall>k r. map_of (db_channels d) k = Some r \<longrightarrow> chan_id (row_json r) = k)"

lemma cas_channel_table:
  "fst (compareAndSetLiveChannel d c e) =
     d\<lparr>db_channels := fst (compare_and_set_versioned (\<lambda>_. ()) (db_channels d) (chan_id c) c (chan_createdAt c) e [])\<rparr>"
  "snd (compareAndSetLiveChannel d c e) =
     snd (compare_and_set_versioned (\<lambda>_. ()) (db_channels d) (chan_id c) c (chan_createdAt c) e [])"
  by (simp_all add: compareAndSetLiveChannel_def split: prod.split)

lemma create_channel_rows:
  "map_of (db_channels (fst (createLiveChannel d c))) k =
     (if map_of (db_channels d) k = None \<and> k = chan_id c then Some (fresh_row c (chan_createdAt c))
      else map_of (db_channels d) k)"
  by (auto simp: createLiveChannel_def sql_insert_def split: option.split)

lemma create_channel_within_rows:
  "map_of (db_channels (fst (createLiveChannelWithinCapacity d c m n))) k = map_of (db_channels d) k \<or>
   k = chan_id c \<and>
     map_of (db_channels (fst (createLiveChannelWithinCapacity d c m n))) k = Some (fresh_row c (chan_createdAt c))"
  by (auto simp: createLiveChannelWithinCapacity_def sql_insert_def split: option.split)

lemma delete_channel_rows:
  assumes "keys_ok (db_channels d)"
  shows "map_of (db_channels (fst (deleteLiveChannel d j e))) k = map_of (db_channels d) k \<or>
    k = j \<and> map_of (db_channels (fst (deleteLiveChannel d j e))) k = None"
  by (auto simp: deleteLiveChannel_def Let_def case_prod_beta map_of_sql_delete[OF assms] split: option.split)

lemma channel_row_source:
  assumes keys: "keys_unique d" and row: "map_of (db_channels (exec_op x d)) k = Some r'"
  shows "map_of (db_channels d) k = Some r' \<or> chan_id (row_json r') = k"
proof (cases "db_channels (exec_op x d) = db_channels d")
  case False
  then obtain y where x: "x = ChannelOp y" using exec_channel_group by blast
  show ?thesis
  proof (cases y)
    case (OpCreateLiveChannel c)
    then show ?thesis using row x by (auto simp: create_channel_rows fresh_row_def split: if_splits)
  next
    case (OpCreateLiveChannelWithin c m n)
    then show ?thesis using row x create_channel_within_rows[of d c m n k] by (auto simp: fresh_row_def)
  next
    case (OpCasLiveChannel c e)
    then show ?thesis using row x by (auto simp: cas_channel_table map_of_cas split: if_splits)
  next
    case (OpDeleteLiveChannel j e)
    then show ?thesis using row x delete_channel_rows[OF keys_uniqueD(4)[OF keys], of j e k] by auto
  qed
qed (use row in simp)

lemma channels_named_exec: "keys_unique d \<Longrightarrow> channels_named d \<Longrightarrow> channels_named (exec_op x d)"
  unfolding channels_named_def using channel_row_source by blast

lemma channels_named_run: "keys_unique d \<Longrightarrow> channels_named d \<Longrightarrow> channels_named (run_ops xs d)"
  by (induction xs arbitrary: d) (simp_all add: channels_named_exec keys_unique_exec)

lemma read_channel_id:
  "channels_named d \<Longrightarrow> getVersionedLiveChannel d i = Some c \<Longrightarrow> chan_id (vr_value c) = i"
  by (auto simp: channels_named_def getVersionedLiveChannel_def get_versioned_Some)

lemma cas_channel_op: "fst (compareAndSetLiveChannel d c e) = exec_op (ChannelOp (OpCasLiveChannel c e)) d"
  by simp

lemma cas_channel_keys:
  "keys_unique d \<Longrightarrow> keys_unique (fst (compareAndSetLiveChannel d c e))"
  "keys_unique d \<Longrightarrow> channels_named d \<Longrightarrow> channels_named (fst (compareAndSetLiveChannel d c e))"
  unfolding cas_channel_op by (simp_all add: keys_unique_exec channels_named_exec del: exec_op.simps)

section \<open>Steps\<close>

datatype channel_write =
    IssueReplacement string instant
  | ClaimSlot string instant
  | ReportPath bool instant
  | ScrubUrls
  | ChooseProfile ident

datatype slot_event = Issued string | Admitted string publisher_credential | WentOnline | WentOffline

fun written_channel :: "(string \<Rightarrow> string option) \<Rightarrow> channel_write \<Rightarrow> live_channel \<Rightarrow> live_channel option" where
  "written_channel origin (IssueReplacement h t) c = Some (issue_replacement h t c)"
| "written_channel origin (ClaimSlot h t) c =
     (if accepted (check_claim h c) then Some (claimed_channel h t c) else None)"
| "written_channel origin (ReportPath on t) c =
     (let s = (if on then PublisherOnline else PublisherOffline)
      in if chan_publisherState c = s then None
         else Some (c\<lparr>chan_publisherState := s, chan_publisherUpdatedAt := Some t\<rparr>))"
| "written_channel origin ScrubUrls c = sanitizeLiveChannel origin c"
| "written_channel origin (ChooseProfile p) c = Some (c\<lparr>chan_normalizationProfileId := Some p\<rparr>)"

fun admitted_as :: "string \<Rightarrow> publisher_auth \<Rightarrow> slot_event list" where
  "admitted_as h (AuthAccepted credential) = [Admitted h credential]"
| "admitted_as h (AuthRejected _ _) = []"

fun slot_events :: "channel_write \<Rightarrow> live_channel \<Rightarrow> slot_event list" where
  "slot_events (IssueReplacement h t) c = [Issued h]"
| "slot_events (ClaimSlot h t) c = admitted_as h (check_claim h c)"
| "slot_events (ReportPath on t) c = [if on then WentOnline else WentOffline]"
| "slot_events _ c = []"

fun keeps_channel :: "ident \<Rightarrow> repo_op \<Rightarrow> bool" where
  "keeps_channel i (ChannelOp (OpCreateLiveChannel c)) \<longleftrightarrow> chan_id c \<noteq> i"
| "keeps_channel i (ChannelOp (OpCreateLiveChannelWithin c m n)) \<longleftrightarrow> chan_id c \<noteq> i"
| "keeps_channel i (ChannelOp (OpCasLiveChannel c e)) \<longleftrightarrow> chan_id c \<noteq> i"
| "keeps_channel i x \<longleftrightarrow> True"

type_synonym channel_world = "db \<times> live_channel versioned set \<times> slot_event list"

inductive channel_step ::
    "(string \<Rightarrow> string option) \<Rightarrow> (channel_write \<Rightarrow> bool) \<Rightarrow> ident \<Rightarrow> channel_world \<Rightarrow> channel_world \<Rightarrow> bool"
  for origin :: "string \<Rightarrow> string option" and permitted :: "channel_write \<Rightarrow> bool" and i :: ident where
  others: "keeps_channel i x \<Longrightarrow> channel_step origin permitted i (d, seen, evs) (exec_op x d, seen, evs)"
| reads: "getVersionedLiveChannel d i = Some c \<Longrightarrow>
     channel_step origin permitted i (d, seen, evs) (d, insert c seen, evs)"
| writes: "c \<in> seen \<Longrightarrow> permitted w \<Longrightarrow> written_channel origin w (vr_value c) = Some v \<Longrightarrow>
     channel_step origin permitted i (d, seen, evs)
       (fst (compareAndSetLiveChannel d v (vr_revision c)), seen,
        if is_applied (snd (compareAndSetLiveChannel d v (vr_revision c)))
        then evs @ slot_events w (vr_value c) else evs)"

definition read_ok :: "db \<Rightarrow> ident \<Rightarrow> live_channel versioned \<Rightarrow> bool" where
  "read_ok d i c \<longleftrightarrow>
     (case getVersionedLiveChannel d i of None \<Rightarrow> True | Some x \<Rightarrow> vr_revision c < vr_revision x \<or> c = x)"

definition channel_ok :: "ident \<Rightarrow> channel_world \<Rightarrow> bool" where
  "channel_ok i s = (case s of (d, seen, evs) \<Rightarrow>
     keys_unique d \<and> channels_named d \<and> (\<forall>c \<in> seen. chan_id (vr_value c) = i \<and> read_ok d i c))"

lemma write_keeps_id: "written_channel origin w c = Some v \<Longrightarrow> chan_id v = chan_id c"
  by (cases w) (auto simp: issue_replacement_def claimed_channel_def promoteReplacementPublisher_def
      sanitizeLiveChannel_def Let_def split: if_splits option.splits)

text \<open>Others leave the record of the channel as it is, or delete it.\<close>

lemma others_channel:
  assumes keys: "keys_unique d" and keeps: "keeps_channel i x"
  shows "map_of (db_channels (exec_op x d)) i = map_of (db_channels d) i \<or>
    map_of (db_channels (exec_op x d)) i = None"
proof (cases "db_channels (exec_op x d) = db_channels d")
  case False
  then obtain y where x: "x = ChannelOp y" using exec_channel_group by blast
  show ?thesis
  proof (cases y)
    case (OpCreateLiveChannel c)
    then show ?thesis using keeps x by (auto simp: create_channel_rows)
  next
    case (OpCreateLiveChannelWithin c m n)
    then show ?thesis using keeps x create_channel_within_rows[of d c m n i] by auto
  next
    case (OpCasLiveChannel c e)
    then show ?thesis using keeps x by (auto simp: cas_channel_table map_of_cas)
  next
    case (OpDeleteLiveChannel j e)
    then show ?thesis using x delete_channel_rows[OF keys_uniqueD(4)[OF keys], of j e i] by auto
  qed
qed simp

lemma others_read:
  assumes "keys_unique d" and "keeps_channel i x"
  shows "getVersionedLiveChannel (exec_op x d) i = getVersionedLiveChannel d i \<or>
    getVersionedLiveChannel (exec_op x d) i = None"
  using others_channel[OF assms] by (auto simp: getVersionedLiveChannel_def get_versioned_def)

text \<open>A write that counts is made from the record as it is.\<close>

lemma channel_write_cases:
  assumes keys: "keys_unique d" and id: "chan_id v = i" and read: "read_ok d i c"
  obtains (applied) "getVersionedLiveChannel d i = Some c"
      "snd (compareAndSetLiveChannel d v (vr_revision c)) = Applied (versioned v (Suc (vr_revision c)))"
      "getVersionedLiveChannel (fst (compareAndSetLiveChannel d v (vr_revision c))) i =
         Some (versioned v (Suc (vr_revision c)))"
  | (refused) "fst (compareAndSetLiveChannel d v (vr_revision c)) = d"
      "\<not> is_applied (snd (compareAndSetLiveChannel d v (vr_revision c)))"
proof -
  let ?t = "db_channels d"
  let ?cas = "compare_and_set_versioned (\<lambda>_. ()) ?t i v (chan_createdAt v) (vr_revision c) []"
  have ok: "keys_ok ?t" by (rule keys_uniqueD(4)[OF keys])
  have "table.current_or_older ?t i c"
    using read by (simp add: table.current_or_older_def read_ok_def getVersionedLiveChannel_def)
  with ok show ?thesis
  proof (cases rule: table.write_what_was_read[where s = "\<lambda>_. ()" and d = "chan_createdAt v" and new = v and al = "[]"])
    case applied
    show ?thesis
    proof (rule that(1))
      show "getVersionedLiveChannel (fst (compareAndSetLiveChannel d v (vr_revision c))) i =
          Some (versioned v (Suc (vr_revision c)))"
        using applied(4) id by (simp add: cas_channel_table getVersionedLiveChannel_def)
    qed (use applied id in \<open>simp_all add: cas_channel_table getVersionedLiveChannel_def\<close>)
  next
    case (refused reason cur)
    then show ?thesis using that(2) id by (simp add: cas_channel_table)
  qed
qed

lemma channel_step_cases:
  assumes step: "channel_step origin permitted i (d, seen, evs) (d', seen', evs')" and ok: "channel_ok i (d, seen, evs)"
  obtains (quiet) "evs' = evs"
      "getVersionedLiveChannel d' i = getVersionedLiveChannel d i \<or> getVersionedLiveChannel d' i = None"
  | (written) w c v where "permitted w" "getVersionedLiveChannel d i = Some c"
      "written_channel origin w (vr_value c) = Some v"
      "getVersionedLiveChannel d' i = Some (versioned v (Suc (vr_revision c)))"
      "evs' = evs @ slot_events w (vr_value c)"
  using step
proof (cases rule: channel_step.cases)
  case (others x)
  then show ?thesis using others_read[of d i x] ok that(1) by (simp add: channel_ok_def)
next
  case (reads c)
  then show ?thesis using that(1) by simp
next
  case (writes c w v)
  have "keys_unique d" "chan_id v = i" "read_ok d i c"
    using ok writes(4) write_keeps_id[OF writes(6)] by (simp_all add: channel_ok_def)
  then show ?thesis
  proof (cases rule: channel_write_cases)
    case applied
    then show ?thesis using writes that(2)[of w c v] by simp
  next
    case refused
    then show ?thesis using writes that(1) by simp
  qed
qed

lemma read_ok_later:
  assumes "read_ok d i c" and "getVersionedLiveChannel d' i = None \<or>
    (\<exists>x. getVersionedLiveChannel d' i = Some x \<and>
       (\<exists>y. getVersionedLiveChannel d i = Some y \<and> (x = y \<or> vr_revision y < vr_revision x)))"
  shows "read_ok d' i c"
  using assms by (auto simp: read_ok_def)

lemma channel_step_ok:
  assumes step: "channel_step origin permitted i s s'" and ok: "channel_ok i s"
  shows "channel_ok i s'"
proof -
  obtain d seen evs d' seen' evs' where s: "s = (d, seen, evs)" "s' = (d', seen', evs')" by (cases s; cases s') auto
  have old: "keys_unique d" "channels_named d" "\<And>c. c \<in> seen \<Longrightarrow> chan_id (vr_value c) = i \<and> read_ok d i c"
    using ok by (simp_all add: channel_ok_def s)
  have keys: "keys_unique d'" "channels_named d'"
    using step old(1,2) unfolding s
    by (cases rule: channel_step.cases; simp add: keys_unique_exec channels_named_exec cas_channel_keys)+
  have later: "read_ok d' i c" if "read_ok d i c" for c
    using step[unfolded s] ok[unfolded s]
  proof (cases rule: channel_step_cases)
    case quiet
    show ?thesis
      by (rule read_ok_later[OF that]) (use quiet(2) in \<open>cases "getVersionedLiveChannel d' i"; auto\<close>)
  next
    case (written w x v)
    show ?thesis by (rule read_ok_later[OF that]) (simp add: written)
  qed
  have "chan_id (vr_value c) = i \<and> read_ok d' i c" if c: "c \<in> seen'" for c
  proof (cases "c \<in> seen")
    case True
    then show ?thesis using old(3) later by blast
  next
    case False
    have "d' = d \<and> getVersionedLiveChannel d i = Some c"
      using step[unfolded s] c False by (cases rule: channel_step.cases) auto
    then show ?thesis using read_channel_id[OF old(2)] by (simp add: read_ok_def)
  qed
  then show ?thesis using keys by (simp add: channel_ok_def s)
qed

lemma channel_run_ok: "(channel_step origin permitted i)\<^sup>*\<^sup>* s s' \<Longrightarrow> channel_ok i s \<Longrightarrow> channel_ok i s'"
  by (induction rule: rtranclp_induct) (auto dest: channel_step_ok)

section \<open>A token that is out\<close>

definition token_out :: "string \<Rightarrow> live_channel \<Rightarrow> bool" where
  "token_out h c \<longleftrightarrow>
     chan_replacementPublishTokenHash c \<noteq> Some h \<and>
     (chan_publishTokenHash c = h \<longrightarrow> truthy (chan_replacementPublishTokenHash c))"

fun issues_other :: "string \<Rightarrow> channel_write \<Rightarrow> bool" where
  "issues_other h (IssueReplacement h' t) \<longleftrightarrow> h' \<noteq> h \<and> h' \<noteq> []"
| "issues_other h w \<longleftrightarrow> True"

lemma token_out_write:
  assumes "token_out h c" and "issues_other h w" and "written_channel origin w c = Some v"
  shows "token_out h v \<and> Admitted h credential \<notin> set (slot_events w c)"
proof (cases w)
  case (ClaimSlot h' t)
  have h': "h' \<noteq> h" using assms ClaimSlot
    by (auto simp: token_out_def check_claim_def Let_def split: if_splits)
  have "Admitted h credential \<notin> set (admitted_as h' a)" for a using h' by (cases a) auto
  then show ?thesis using assms ClaimSlot h'
    by (auto simp: token_out_def claimed_channel_def promoteReplacementPublisher_def split: if_splits)
qed (use assms in \<open>auto simp: token_out_def issue_replacement_def sanitizeLiveChannel_def Let_def
    split: if_splits option.splits\<close>)

definition token_out_of :: "string \<Rightarrow> ident \<Rightarrow> db \<Rightarrow> bool" where
  "token_out_of h i d \<longleftrightarrow>
     (case getVersionedLiveChannel d i of None \<Rightarrow> True | Some x \<Rightarrow> token_out h (vr_value x))"

lemma token_out_step:
  assumes step: "channel_step origin (issues_other h) i (d, seen, evs) (d', seen', evs')"
    and ok: "channel_ok i (d, seen, evs)" and out: "token_out_of h i d"
  shows "token_out_of h i d' \<and> (Admitted h cr \<in> set evs' \<longrightarrow> Admitted h cr \<in> set evs)"
  using step ok
proof (cases rule: channel_step_cases)
  case quiet
  then show ?thesis using out by (auto simp: token_out_of_def)
next
  case (written w c v)
  then show ?thesis using out token_out_write[of h "vr_value c" w origin v cr] by (simp add: token_out_of_def)
qed

lemma token_out_run:
  assumes run: "(channel_step origin (issues_other h) i)\<^sup>*\<^sup>* s s'"
    and ok: "channel_ok i s" and out: "token_out_of h i (fst s)"
  shows "token_out_of h i (fst s') \<and> (Admitted h cr \<in> set (snd (snd s')) \<longrightarrow> Admitted h cr \<in> set (snd (snd s)))"
  using run
proof (induction rule: rtranclp_induct)
  case base
  then show ?case using out by simp
next
  case (step y z)
  obtain d seen evs d' seen' evs' where yz: "y = (d, seen, evs)" "z = (d', seen', evs')" by (cases y; cases z) auto
  have "channel_ok i y" by (rule channel_run_ok[OF step.hyps(1) ok])
  then show ?case using step.IH token_out_step[of origin h i d seen evs d' seen' evs' cr] step.hyps(2)
    by (simp add: yz)
qed

section \<open>Turns\<close>

text \<open>
  The slot of a publisher as an automaton: whether it is taken, the token of the channel and the
  token that waits to replace it. The channel's own token is admitted to a free slot only, and not
  while another waits; a waiting token is admitted once, at any time, and is the channel's own from
  then on. The slot is free after the media server reported that the path is gone, and taken after
  an admission and while the path is reported ready.
\<close>

type_synonym publisher_slot = "bool \<times> string \<times> string option"

fun turns :: "publisher_slot \<Rightarrow> slot_event list \<Rightarrow> publisher_slot option" where
  "turns s [] = Some s"
| "turns (taken, own, waiting) (Issued h # es) = turns (taken, own, Some h) es"
| "turns (taken, own, waiting) (Admitted h PrimaryCredential # es) =
     (if taken \<or> h \<noteq> own \<or> truthy waiting \<or> waiting = Some h then None else turns (True, own, waiting) es)"
| "turns (taken, own, waiting) (Admitted h ReplacementCredential # es) =
     (if waiting \<noteq> Some h then None else turns (True, h, None) es)"
| "turns (taken, own, waiting) (WentOnline # es) = turns (True, own, waiting) es"
| "turns (taken, own, waiting) (WentOffline # es) = turns (False, own, waiting) es"

definition slot_taken :: "live_channel \<Rightarrow> bool" where
  "slot_taken c \<longleftrightarrow> chan_publisherState c \<in> {PublisherOnline, PublisherReconnecting}"

definition slot_status :: "live_channel \<Rightarrow> publisher_slot" where
  "slot_status c = (slot_taken c, chan_publishTokenHash c, chan_replacementPublishTokenHash c)"

lemma turns_append: "turns b (xs @ ys) = (case turns b xs of None \<Rightarrow> None | Some b' \<Rightarrow> turns b' ys)"
  by (induction b xs rule: turns.induct) auto

lemma turns_write:
  assumes "written_channel origin w c = Some v"
  shows "turns (slot_status c) (slot_events w c) = Some (slot_status v)"
  using assms
  by (cases w)
    (auto simp: slot_status_def slot_taken_def check_claim_def claimed_channel_def promoteReplacementPublisher_def
      issue_replacement_def sanitizeLiveChannel_def Let_def split: if_splits option.splits)

text \<open>A token that was let in is not let in again before the path is gone or the token is issued anew.\<close>

lemma turns_keeps_out:
  assumes "turns (True, own, waiting) ys = Some s" and "waiting \<noteq> Some h"
    and "WentOffline \<notin> set ys" "Issued h \<notin> set ys"
  shows "\<exists>own' waiting'. s = (True, own', waiting') \<and> waiting' \<noteq> Some h"
  using assms
proof (induction "(True, own, waiting)" ys arbitrary: own waiting rule: turns.induct)
  case (1 own waiting)
  then show ?case by auto
next
  case (2 own waiting h' es)
  then show ?case by auto
next
  case (3 own waiting h' es)
  then show ?case by (simp split: if_splits)
next
  case (4 own waiting h' es)
  then show ?case by (simp split: if_splits)
qed simp_all

lemma turns_race:
  assumes "turns s (xs @ Admitted h a # ys @ Admitted h b # zs) \<noteq> None"
  shows "WentOffline \<in> set ys \<or> Issued h \<in> set ys"
proof (rule ccontr)
  assume no: "\<not> (WentOffline \<in> set ys \<or> Issued h \<in> set ys)"
  obtain taken own waiting where x: "turns s xs = Some (taken, own, waiting)"
    and tail: "turns (taken, own, waiting) (Admitted h a # ys @ Admitted h b # zs) \<noteq> None"
    using assms by (auto simp: turns_append split: option.splits)
  obtain own' waiting' where y: "turns (True, own', waiting') (ys @ Admitted h b # zs) \<noteq> None" "waiting' \<noteq> Some h"
    using tail by (cases a) (auto split: if_splits)
  then obtain s' where s': "turns (True, own', waiting') ys = Some s'" "turns s' (Admitted h b # zs) \<noteq> None"
    by (auto simp: turns_append split: option.splits)
  with turns_keeps_out[OF s'(1) y(2)] no show False by (cases b) auto
qed

definition turn_ok :: "publisher_slot \<Rightarrow> ident \<Rightarrow> db \<Rightarrow> slot_event list \<Rightarrow> bool" where
  "turn_ok b i d es \<longleftrightarrow>
     (case getVersionedLiveChannel d i of
        None \<Rightarrow> turns b es \<noteq> None
      | Some x \<Rightarrow> turns b es = Some (slot_status (vr_value x)))"

lemma turn_step:
  assumes step: "channel_step origin permitted i (d, seen, evs) (d', seen', evs')"
    and ok: "channel_ok i (d, seen, evs)" and turn: "turn_ok b i d evs"
  shows "turn_ok b i d' evs'"
  using step ok
proof (cases rule: channel_step_cases)
  case quiet
  then show ?thesis using turn by (auto simp: turn_ok_def slot_status_def split: option.splits)
next
  case (written w c v)
  then show ?thesis using turn turns_write[OF written(3)] by (simp add: turn_ok_def turns_append)
qed

lemma turn_run:
  assumes run: "(channel_step origin permitted i)\<^sup>*\<^sup>* s s'" and ok: "channel_ok i s"
    and turn: "turn_ok b i (fst s) (snd (snd s))"
  shows "turn_ok b i (fst s') (snd (snd s'))"
  using run
proof (induction rule: rtranclp_induct)
  case base
  then show ?case by (rule turn)
next
  case (step y z)
  obtain d seen evs d' seen' evs' where yz: "y = (d, seen, evs)" "z = (d', seen', evs')" by (cases y; cases z) auto
  have "channel_ok i y" by (rule channel_run_ok[OF step.hyps(1) ok])
  then show ?case using step.IH turn_step[of origin permitted i d seen evs d' seen' evs' b] step.hyps(2)
    by (simp add: yz)
qed

section \<open>The handlers take these steps\<close>

lemma others_channel_run:
  "\<forall>x \<in> set xs. keeps_channel i x \<Longrightarrow>
     (channel_step origin permitted i)\<^sup>*\<^sup>* (d, seen, evs) (run_ops xs d, seen, evs)"
proof (induction xs arbitrary: d)
  case (Cons x xs)
  have "channel_step origin permitted i (d, seen, evs) (exec_op x d, seen, evs)"
    by (rule channel_step.others) (use Cons.prems in simp)
  then show ?case using Cons.IH[of "exec_op x d"] Cons.prems by (simp add: converse_rtranclp_into_rtranclp)
qed simp

lemma cas_channel_unchanged:
  assumes "keys_unique d" and "\<not> is_applied (snd (compareAndSetLiveChannel d v e))"
  shows "fst (compareAndSetLiveChannel d v e) = d"
  using cas_unchanged_table[OF keys_uniqueD(4)[OF assms(1)] assms(2)[unfolded cas_channel_table]]
  by (simp add: cas_channel_table)

text \<open>The record a refused write reports is the stored one.\<close>

lemma refusal_reports:
  assumes "keys_unique d" and "compareAndSetLiveChannel d v e = (d', Rejected reason (Some c) ids)"
  shows "getVersionedLiveChannel d' (chan_id v) = Some c"
proof -
  have "d' = d" using cas_channel_unchanged[OF assms(1), of v e] assms(2) by simp
  moreover have "snd (compareAndSetLiveChannel d v e) = Rejected reason (Some c) ids" using assms(2) by simp
  ultimately show ?thesis
    unfolding cas_channel_table cas_snd[OF keys_uniqueD(4)[OF assms(1)]]
    by (auto simp: getVersionedLiveChannel_def get_versioned_def split: option.splits if_splits)
qed

lemma current_or_read_steps:
  assumes env: "\<forall>x \<in> set others. keeps_channel i x"
    and current: "\<And>c. current = Some c \<Longrightarrow> getVersionedLiveChannel d i = Some c"
    and "current_or_read others i current d = (d', r)"
  shows "\<exists>seen'. (channel_step origin permitted i)\<^sup>*\<^sup>* (d, seen, evs) (d', seen', evs) \<and>
    (\<forall>c. r = Some c \<longrightarrow> c \<in> seen')"
proof -
  have steps: "(channel_step origin permitted i)\<^sup>*\<^sup>* (d, seen, evs) (d', seen, evs) \<and>
      (\<forall>c. r = Some c \<longrightarrow> getVersionedLiveChannel d' i = Some c)"
    using assms(3) current others_channel_run[OF env, of origin permitted d seen evs]
    by (auto simp: current_or_read_def Let_def split: option.splits)
  show ?thesis
  proof (cases r)
    case None
    then show ?thesis using steps by auto
  next
    case (Some c)
    then have "channel_step origin permitted i (d', seen, evs) (d', insert c seen, evs)"
      using steps by (simp add: channel_step.reads)
    then have "(channel_step origin permitted i)\<^sup>*\<^sup>* (d, seen, evs) (d', insert c seen, evs)"
      using steps by (blast intro: rtranclp.rtrancl_into_rtrancl)
    then show ?thesis using Some by (intro exI[of _ "insert c seen"]) simp
  qed
qed

text \<open>A write of a handler, with what others do before it and the read after a refusal.\<close>

lemma write_steps:
  assumes c: "c \<in> seen" and "permitted w" and "written_channel origin w (vr_value c) = Some v"
    and env: "\<forall>x \<in> set others. keeps_channel i x"
    and "compareAndSetLiveChannel (run_ops others d) v (vr_revision c) = (d', res)"
  shows "(channel_step origin permitted i)\<^sup>*\<^sup>* (d, seen, evs)
    (d', seen, if is_applied res then evs @ slot_events w (vr_value c) else evs)"
  using others_channel_run[OF env, of origin permitted d seen evs]
    channel_step.writes[where permitted = permitted, OF c assms(2,3), of i "run_ops others d" evs] assms(5)
  by (simp add: rtranclp.rtrancl_into_rtrancl)

lemma slot_attempt_steps:
  assumes ok: "channel_ok i (d, seen, evs)" and c: "c \<in> seen" and "\<And>t. permitted (ClaimSlot h t)"
    and env: "\<And>k. \<forall>x \<in> set (env k). keeps_channel i x"
    and run: "slot_attempt env clock h i k (d, c) = ((d', c'), r)"
  shows "\<exists>seen'. (channel_step origin permitted i)\<^sup>*\<^sup>* (d, seen, evs)
      (d', seen', evs @ (case r of None \<Rightarrow> [] | Some a \<Rightarrow> admitted_as h a)) \<and> (r = None \<longrightarrow> c' \<in> seen')"
proof (cases "check_claim h (vr_value c)")
  case (AuthRejected a b)
  then have "d' = d" "r = Some (AuthRejected a b)" using run by (simp_all add: slot_attempt_def)
  then show ?thesis by auto
next
  case (AuthAccepted credential)
  let ?v = "claimed_channel h (clock k) (vr_value c)"
  obtain d1 res where cas: "compareAndSetLiveChannel (run_ops (env (2 * k + 1)) d) ?v (vr_revision c) = (d1, res)"
    by fastforce
  have v: "written_channel origin (ClaimSlot h (clock k)) (vr_value c) = Some ?v" using AuthAccepted by simp
  have steps: "(channel_step origin permitted i)\<^sup>*\<^sup>* (d, seen, evs)
      (d1, seen, if is_applied res then evs @ [Admitted h credential] else evs)"
    using write_steps[where permitted = permitted and evs = evs, OF c assms(3) v env cas] AuthAccepted
    by (cases "is_applied res") simp_all
  have id: "chan_id ?v = i" using ok c write_keeps_id[OF v] by (simp add: channel_ok_def)
  show ?thesis
  proof (cases res)
    case (Applied x)
    then have "d' = d1" "r = Some (AuthAccepted credential)" using run AuthAccepted cas
      by (simp_all add: slot_attempt_def)
    then show ?thesis using steps Applied by auto
  next
    case (Rejected reason current ids)
    show ?thesis
    proof (cases "reason = NotFound")
      case True
      then have "d' = d1" "r = Some (AuthRejected (Some credential) MissingChannel)"
        using run AuthAccepted cas Rejected by (simp_all add: slot_attempt_def)
      then show ?thesis using steps Rejected by auto
    next
      case False
      obtain d2 x where cur: "current_or_read (env (2 * k + 2)) i current d1 = (d2, x)" by fastforce
      have "keys_unique (run_ops (env (2 * k + 1)) d)" using ok by (simp add: channel_ok_def keys_unique_run)
      then have current: "current = Some y \<Longrightarrow> getVersionedLiveChannel d1 i = Some y" for y
        using refusal_reports[of _ ?v "vr_revision c" d1 reason y ids] cas Rejected id by simp
      obtain seen' where rest: "(channel_step origin permitted i)\<^sup>*\<^sup>* (d1, seen, evs) (d2, seen', evs)"
        "\<forall>y. x = Some y \<longrightarrow> y \<in> seen'"
        using current_or_read_steps[OF env current cur] by blast
      have "(channel_step origin permitted i)\<^sup>*\<^sup>* (d, seen, evs) (d2, seen', evs)"
        using steps rest(1) Rejected by (simp add: rtranclp_trans)
      moreover have "d' = d2" "(case r of None \<Rightarrow> [] | Some a \<Rightarrow> admitted_as h a) = []" "r = None \<longrightarrow> x = Some c'"
        using run AuthAccepted cas Rejected False cur by (auto simp: slot_attempt_def split: option.splits)
      ultimately show ?thesis using rest(2) by auto
    qed
  qed
qed

lemma slot_retry_steps:
  assumes "\<And>t. permitted (ClaimSlot h t)" and env: "\<And>k. \<forall>x \<in> set (env k). keeps_channel i x"
    and "channel_ok i (d, seen, evs)" and "c \<in> seen"
    and "retry k n (slot_attempt env clock h i) (AuthRejected None TooManyConflicts) (d, c) = (w, a)"
  shows "\<exists>seen'. (channel_step origin permitted i)\<^sup>*\<^sup>* (d, seen, evs) (fst w, seen', evs @ admitted_as h a)"
  using assms(3-5)
proof (induction n arbitrary: k d seen c)
  case 0
  then show ?case by auto
next
  case (Suc n)
  obtain d1 c1 r where b: "slot_attempt env clock h i k (d, c) = ((d1, c1), r)" by (metis prod.exhaust)
  from slot_attempt_steps[where permitted = permitted, OF Suc.prems(1,2) assms(1) env b] obtain seen1 where
    first: "(channel_step origin permitted i)\<^sup>*\<^sup>* (d, seen, evs)
        (d1, seen1, evs @ (case r of None \<Rightarrow> [] | Some a \<Rightarrow> admitted_as h a))" "r = None \<longrightarrow> c1 \<in> seen1" by blast
  show ?case
  proof (cases r)
    case None
    then have "channel_ok i (d1, seen1, evs)" using channel_run_ok[OF first(1) Suc.prems(1)] by simp
    then obtain seen' where "(channel_step origin permitted i)\<^sup>*\<^sup>* (d1, seen1, evs) (fst w, seen', evs @ admitted_as h a)"
      using Suc.IH[of d1 seen1 c1 "Suc k"] first(2) Suc.prems(3) None b by auto
    then show ?thesis using first(1) None by (auto intro: rtranclp_trans)
  next
    case (Some x)
    then show ?thesis using first(1) Suc.prems(3) b by auto
  qed
qed

lemma claim_steps:
  assumes "\<And>t. permitted (ClaimSlot h t)" and env: "\<And>k. \<forall>x \<in> set (env k). keeps_channel i x"
    and ok: "channel_ok i (d, seen, evs)"
    and run: "claimPublisherSlot env clock i h d = (d', a)"
  shows "\<exists>seen'. (channel_step origin permitted i)\<^sup>*\<^sup>* (d, seen, evs) (d', seen', evs @ admitted_as h a)"
proof -
  let ?d0 = "run_ops (env 0) d"
  have start: "(channel_step origin permitted i)\<^sup>*\<^sup>* (d, seen, evs) (?d0, seen, evs)"
    by (rule others_channel_run[OF env])
  show ?thesis
  proof (cases "getVersionedLiveChannel ?d0 i")
    case None
    then have "d' = ?d0" "admitted_as h a = []" using run by (auto simp: claimPublisherSlot_def)
    then show ?thesis using start by auto
  next
    case (Some c)
    have read: "(channel_step origin permitted i)\<^sup>*\<^sup>* (d, seen, evs) (?d0, insert c seen, evs)"
      using start channel_step.reads[OF Some, of origin permitted seen evs] by (rule rtranclp.rtrancl_into_rtrancl)
    have ok1: "channel_ok i (?d0, insert c seen, evs)" by (rule channel_run_ok[OF read ok])
    obtain w where "retry 0 MAX_LIVE_CHANNEL_WRITE_ATTEMPTS (slot_attempt env clock h i)
        (AuthRejected None TooManyConflicts) (?d0, c) = (w, a)" "d' = fst w"
      using run Some by (auto simp: claimPublisherSlot_def apfst_def map_prod_def split: prod.splits)
    then show ?thesis
      using slot_retry_steps[where permitted = permitted, OF assms(1) env ok1 insertI1] read
      by (meson rtranclp_trans)
  qed
qed

text \<open>A replacement that was issued is in the record.\<close>

lemma replace_attempt_issues:
  assumes "chan_id (vr_value c) = i" and "keys_unique d"
    and "replace_attempt env clock origin opts h i k (d, c) = ((d', c'), Some (resolve r))"
  shows "\<exists>x. getVersionedLiveChannel d' i = Some x \<and> chan_replacementPublishTokenHash (vr_value x) = Some h"
proof -
  let ?d = "run_ops (env (2 * k + 1)) d" and ?v = "issue_replacement h (clock k) (vr_value c)"
  obtain x where cas: "compareAndSetLiveChannel ?d ?v (vr_revision c) = (d', Applied x)"
    using assms(3)
    by (auto simp: replace_attempt_def split: prod.splits write_result.splits if_splits option.splits)
  have keys: "keys_ok (db_channels ?d)" using keys_unique_run[OF assms(2)] by (rule keys_uniqueD(4))
  have id: "chan_id ?v = i" using assms(1) by (simp add: issue_replacement_def)
  have "is_applied (snd (compareAndSetLiveChannel ?d ?v (vr_revision c)))" using cas by simp
  then obtain y where "get_versioned (db_channels ?d) i = Some (versioned y (vr_revision c))"
    unfolding cas_channel_table id using table.cas_applied_iff[OF keys, of "\<lambda>_. ()"] by blast
  then have "getVersionedLiveChannel (fst (compareAndSetLiveChannel ?d ?v (vr_revision c))) i =
      Some (versioned ?v (Suc (vr_revision c)))"
    using table.cas_hit[OF keys, of i y "vr_revision c" "[]" "\<lambda>_. ()" ?v "chan_createdAt ?v"] id
    by (simp add: cas_channel_table getVersionedLiveChannel_def)
  then show ?thesis using cas by (simp add: issue_replacement_def)
qed

end
