(* ===== verification/RelayLiveResults.thy ===== *)
theory RelayLiveResults
  imports RelayLiveFacts RelaySessionSamples
begin

text \<open>
  The properties of live channels: who is admitted to a publisher's slot, what scrubbing and
  reconciliation leave behind, and the limits of the normalizers.
\<close>

section \<open>A sample channel\<close>

definition sample_hash :: "string \<Rightarrow> string" where
  "sample_hash t = ''h'' @ t"

definition sample_live_options :: live_options where
  "sample_live_options =
     \<lparr>lo_publicUrl = ''http://r'', lo_rtmpUrl = ''rtmp://r'', lo_srtUrl = ''srt://r'', lo_whipUrl = ''http://r'',
      lo_hlsUrl = ''http://r'', lo_internalRtspUrl = ''rtsp://r'', lo_backupRtmpUrl = None,
      lo_backupSrtUrl = None, lo_allowUnauthenticatedInternalRead = True,
      lo_maxChannelsTotal = None, lo_maxChannelsPerOwner = None\<rparr>"

definition sample_live_channel :: live_channel where
  "sample_live_channel =
     new_channel sample_live_options sample_hash \<lparr>lr_name = ''l'', lr_preferredRegion = None, lr_normalize = True\<rparr>
       None (None, None) ''c'' ''p'' ''one'' 0"

definition sample_live_db :: db where
  "sample_live_db = run_ops [ChannelOp (OpCreateLiveChannel sample_live_channel)] empty_db"

text \<open>A URL parser that keeps the part before the query.\<close>

definition sample_origin :: "string \<Rightarrow> string option" where
  "sample_origin b = (if CHR ''?'' \<in> set b \<or> CHR ''#'' \<in> set b then None else Some b)"

lemma sample_origin_ok: "origin_ok sample_origin"
  by (auto simp: origin_ok_def sample_origin_def)

lemma sample_live_ok: "channel_ok ''c'' (sample_live_db, {}, [])"
proof -
  have "keys_unique sample_live_db" "channels_named sample_live_db"
    unfolding sample_live_db_def
    by (rule keys_unique_run[OF keys_unique_empty], rule channels_named_run[OF keys_unique_empty])
      (simp add: channels_named_def empty_db_def)
  then show ?thesis by (simp add: channel_ok_def)
qed

section \<open>Publishers\<close>

lemma applied_value:
  assumes "keys_unique d" and "compareAndSetLiveChannel d v e = (d', Applied x)"
  shows "vr_value x = v"
proof -
  have "snd (compareAndSetLiveChannel d v e) = Applied x" using assms(2) by simp
  then show ?thesis unfolding cas_channel_table cas_snd[OF keys_uniqueD(4)[OF assms(1)]]
    by (auto split: option.splits if_splits)
qed

lemma replacePublisher_issues:
  assumes keys: "keys_unique d" "channels_named d"
    and run: "replacePublisher env clock origin opts hash token i d = (d', resolve r)"
  shows "\<exists>x. getVersionedLiveChannel d' i = Some x \<and> chan_replacementPublishTokenHash (vr_value x) = Some (hash token)"
proof -
  let ?d0 = "run_ops (env 0) d" and ?body = "replace_attempt env clock origin opts (hash token) i"
  obtain c where c: "getVersionedLiveChannel ?d0 i = Some c"
    using run by (auto simp: replacePublisher_def Let_def split: option.splits)
  then obtain w channel where loop: "retry 0 MAX_LIVE_CHANNEL_WRITE_ATTEMPTS ?body (throw ConflictError) (?d0, c) = (w, resolve channel)"
    and w: "d' = fst w"
    using run by (auto simp: replacePublisher_def Let_def split: prod.splits sum.splits)
  let ?P = "\<lambda>w. keys_unique (fst w) \<and> channels_named (fst w) \<and> chan_id (vr_value (snd w)) = i"
  have step: "?P (fst (?body k v))" if P: "?P v" for k v
  proof -
    obtain d1 s where v: "v = (d1, s)" by fastforce
    let ?d = "run_ops (env (2 * k + 1)) d1" and ?n = "issue_replacement (hash token) (clock k) (vr_value s)"
    have ok: "keys_unique ?d" "channels_named ?d" using P v by (simp_all add: keys_unique_run channels_named_run)
    obtain d2 res where cas: "compareAndSetLiveChannel ?d ?n (vr_revision s) = (d2, res)" by fastforce
    then have ok2: "keys_unique d2" "channels_named d2" using cas_channel_keys[OF ok(1)] ok(2) by (metis fst_conv)+
    show ?thesis
    proof (cases res)
      case (Applied x)
      have "vr_value x = ?n" by (rule applied_value[OF ok(1) cas[unfolded Applied]])
      then show ?thesis using P v cas Applied ok2 by (simp add: replace_attempt_def issue_replacement_def)
    next
      case (Rejected reason cur ids)
      show ?thesis
      proof (cases cur)
        case None
        let ?e = "run_ops (env (2 * k + 2)) d2"
        have e: "keys_unique ?e" "channels_named ?e" using ok2 by (simp_all add: keys_unique_run channels_named_run)
        show ?thesis using None P v cas Rejected ok2 e read_channel_id[OF e(2), of i]
          by (auto simp: replace_attempt_def current_or_read_def Let_def split: option.splits)
      next
        case (Some y)
        then have "chan_id (vr_value y) = i"
          using refusal_reports[OF ok(1), of ?n "vr_revision s" d2 reason y ids] cas Rejected read_channel_id[OF ok2(2)] P v
          by (simp add: issue_replacement_def)
        then show ?thesis using Some P v cas Rejected ok2 by (simp add: replace_attempt_def current_or_read_def)
      qed
    qed
  qed
  have "?P (?d0, c)"
    using keys c read_channel_id[OF channels_named_run[OF keys]] by (simp add: keys_unique_run channels_named_run)
  then obtain k v where v: "?P v" "?body k v = (w, Some (resolve channel))"
    using retry_result[of ?P ?body "(?d0, c)", OF step _ loop] by auto
  obtain d1 s where "v = (d1, s)" by fastforce
  then show ?thesis
    using replace_attempt_issues[of s i d1 env clock origin opts "hash token" k d' "snd w" channel] v w by simp
qed

text \<open>C10: A replaced publisher stays out: once replacement credentials were issued for a channel,
  no interleaving of requests admits any other token that is not issued again, whether it was the
  channel's own or an earlier replacement, and a later claim with it is rejected.\<close>

theorem replaced_publisher_stays_out:
  assumes issued: "replacePublisher env clock origin opts hash token i d = (d1, resolve r)"
    and ok: "keys_unique d" "channels_named d" "channel_ok i (d1, seen, [])"
    and run: "(channel_step origin (issues_other h) i)\<^sup>*\<^sup>* (d1, seen, []) (d2, seen2, admitted)"
    and other: "hash token \<noteq> h" "hash token \<noteq> []"
    and env: "\<And>k. \<forall>x \<in> set (env2 k). keeps_channel i x"
  shows "(\<forall>credential. Admitted h credential \<notin> set admitted) \<and>
     \<not> accepted (snd (claimPublisherSlot env2 clock2 i h d2))"
proof -
  obtain x where "getVersionedLiveChannel d1 i = Some x" "chan_replacementPublishTokenHash (vr_value x) = Some (hash token)"
    using replacePublisher_issues[OF ok(1,2) issued] by blast
  then have out: "token_out_of h i d1" using other by (simp add: token_out_of_def token_out_def)
  obtain d3 a where claim: "claimPublisherSlot env2 clock2 i h d2 = (d3, a)" by fastforce
  obtain seen3 where "(channel_step origin (issues_other h) i)\<^sup>*\<^sup>* (d2, seen2, admitted) (d3, seen3, admitted @ admitted_as h a)"
    using claim_steps[where permitted = "issues_other h", OF _ env channel_run_ok[OF run ok(3)] claim] by auto
  with run have "(channel_step origin (issues_other h) i)\<^sup>*\<^sup>* (d1, seen, []) (d3, seen3, admitted @ admitted_as h a)"
    by (rule rtranclp_trans)
  from token_out_run[OF this ok(3)] out have "Admitted h credential \<notin> set (admitted @ admitted_as h a)" for credential
    by simp
  then show ?thesis using claim by (cases a) auto
qed

text \<open>C11: Publishers take turns: in every interleaving of requests on a channel, the channel's own
  token is admitted only while the slot is free and no other token waits to replace it, where the
  slot is free after the media server reported the path gone; a replacement token is admitted once
  for each time it is issued, and is the channel's own token from then on. So when one token is
  admitted twice, the path was reported gone or the token was issued anew in between: two clients
  that race with the same token cannot both get in.\<close>

theorem publishers_take_turns:
  assumes ok: "channel_ok i (d, seen, [])" and "getVersionedLiveChannel d i = Some c"
    and run: "(channel_step origin permitted i)\<^sup>*\<^sup>* (d, seen, []) (d', seen', slots)"
  shows "turns (slot_status (vr_value c)) slots \<noteq> None \<and>
     (case getVersionedLiveChannel d' i of
        None \<Rightarrow> True
      | Some c' \<Rightarrow> turns (slot_status (vr_value c)) slots = Some (slot_status (vr_value c'))) \<and>
     (\<forall>xs h a ys b zs. slots = xs @ Admitted h a # ys @ Admitted h b # zs \<longrightarrow>
        WentOffline \<in> set ys \<or> Issued h \<in> set ys)"
proof -
  have "turn_ok (slot_status (vr_value c)) i d []" using assms(2) by (simp add: turn_ok_def)
  then have after: "turn_ok (slot_status (vr_value c)) i d' slots" using turn_run[OF run ok] by simp
  then have some: "turns (slot_status (vr_value c)) slots \<noteq> None"
    by (cases "getVersionedLiveChannel d' i") (simp_all add: turn_ok_def)
  have "WentOffline \<in> set ys \<or> Issued h \<in> set ys" if "slots = xs @ Admitted h a # ys @ Admitted h b # zs" for xs h a ys b zs
    by (rule turns_race) (use some that in simp)
  with some after show ?thesis by (simp add: turn_ok_def split: option.splits)
qed

definition replaced_db :: db where
  "replaced_db = fst (replacePublisher (\<lambda>_. []) (\<lambda>_. 5) sample_origin sample_live_options sample_hash ''two'' ''c'' sample_live_db)"

definition replaced_answer :: "public_live_channel \<times> publisher_details" where
  "replaced_answer =
     (case snd (replacePublisher (\<lambda>_. []) (\<lambda>_. 5) sample_origin sample_live_options sample_hash ''two'' ''c'' sample_live_db) of
        Inr r \<Rightarrow> r | Inl _ \<Rightarrow> undefined)"

lemma replaced_run:
  "replacePublisher (\<lambda>_. []) (\<lambda>_. 5) sample_origin sample_live_options sample_hash ''two'' ''c'' sample_live_db =
     (replaced_db, resolve replaced_answer)"
proof -
  have "\<not> isl (snd (replacePublisher (\<lambda>_. []) (\<lambda>_. 5) sample_origin sample_live_options sample_hash ''two'' ''c'' sample_live_db))"
    by code_simp
  then show ?thesis unfolding replaced_db_def replaced_answer_def
    by (intro prod_eqI) (auto split: sum.split simp: isl_def)
qed

lemma replaced_row:
  "replaced_db = exec_op (ChannelOp (OpCasLiveChannel (issue_replacement ''htwo'' 5 sample_live_channel) 1)) sample_live_db"
  by code_simp

lemma replaced_ok: "channel_ok ''c'' (replaced_db, {}, [])"
proof -
  have "keys_unique sample_live_db" "channels_named sample_live_db"
    using sample_live_ok by (simp_all add: channel_ok_def)
  then show ?thesis unfolding channel_ok_def replaced_row
    by (simp add: keys_unique_exec channels_named_exec del: exec_op.simps)
qed

theorem replaced_publisher_stays_out_witness:
  "\<exists>seen d2. (channel_step sample_origin (issues_other ''hone'') ''c'')\<^sup>*\<^sup>* (replaced_db, {}, [])
      (d2, seen, [Admitted ''htwo'' ReplacementCredential]) \<and>
     \<not> accepted (snd (claimPublisherSlot (\<lambda>_. []) (\<lambda>_. 9) ''c'' ''hone'' d2))"
proof -
  let ?claim = "claimPublisherSlot (\<lambda>_. []) (\<lambda>_. 7) ''c'' ''htwo'' replaced_db"
  have "snd ?claim = AuthAccepted ReplacementCredential" by code_simp
  then have claim: "?claim = (fst ?claim, AuthAccepted ReplacementCredential)" by (simp add: prod_eq_iff)
  obtain seen where run: "(channel_step sample_origin (issues_other ''hone'') ''c'')\<^sup>*\<^sup>* (replaced_db, {}, [])
      (fst ?claim, seen, [Admitted ''htwo'' ReplacementCredential])"
    using claim_steps[where permitted = "issues_other ''hone''" and origin = sample_origin, OF _ _ replaced_ok claim] by auto
  have "keys_unique sample_live_db" "channels_named sample_live_db" using sample_live_ok by (simp_all add: channel_ok_def)
  from replaced_publisher_stays_out[OF replaced_run this replaced_ok run, of "\<lambda>_. []" "\<lambda>_. 9"]
  have "\<not> accepted (snd (claimPublisherSlot (\<lambda>_. []) (\<lambda>_. 9) ''c'' ''hone'' (fst ?claim)))"
    by (simp add: sample_hash_def)
  then show ?thesis using run by blast
qed

lemma replaced_reached:
  "\<exists>seen. (channel_step sample_origin (\<lambda>_. True) ''c'')\<^sup>*\<^sup>* (sample_live_db, {}, [])
     (replaced_db, seen, [Issued ''htwo''])"
proof -
  let ?c = "versioned sample_live_channel 1" and ?v = "issue_replacement ''htwo'' 5 sample_live_channel"
  have c: "getVersionedLiveChannel sample_live_db ''c'' = Some ?c" by code_simp
  have "is_applied (snd (compareAndSetLiveChannel sample_live_db ?v 1))" by code_simp
  then have "channel_step sample_origin (\<lambda>_. True) ''c'' (sample_live_db, {?c}, []) (replaced_db, {?c}, [Issued ''htwo''])"
    using channel_step.writes[of ?c "{?c}" "\<lambda>_. True" "IssueReplacement ''htwo'' 5" sample_origin ?v "''c''" sample_live_db "[]"]
    by (simp add: replaced_row)
  then show ?thesis
    using channel_step.reads[OF c, of sample_origin "\<lambda>_. True" "{}" "[]"]
    by (meson rtranclp.rtrancl_into_rtrancl rtranclp.rtrancl_refl)
qed

theorem publishers_take_turns_witness:
  "\<exists>seen d2. (channel_step sample_origin (\<lambda>_. True) ''c'')\<^sup>*\<^sup>* (sample_live_db, {}, [])
      (d2, seen, [Issued ''htwo'', Admitted ''htwo'' ReplacementCredential]) \<and>
     turns (False, ''hone'', None) [Issued ''htwo'', Admitted ''htwo'' ReplacementCredential] =
       Some (True, ''htwo'', None) \<and>
     turns (False, ''hone'', None) [Issued ''htwo'', Admitted ''htwo'' ReplacementCredential,
       Admitted ''htwo'' ReplacementCredential] = None"
proof -
  let ?claim = "claimPublisherSlot (\<lambda>_. []) (\<lambda>_. 7) ''c'' ''htwo'' replaced_db"
  let ?slots = "[Issued ''htwo'', Admitted ''htwo'' ReplacementCredential]"
  have "snd ?claim = AuthAccepted ReplacementCredential" by code_simp
  then have claim: "?claim = (fst ?claim, AuthAccepted ReplacementCredential)" by (simp add: prod_eq_iff)
  obtain seen1 where first: "(channel_step sample_origin (\<lambda>_. True) ''c'')\<^sup>*\<^sup>* (sample_live_db, {}, [])
      (replaced_db, seen1, [Issued ''htwo''])" using replaced_reached by blast
  obtain seen where "(channel_step sample_origin (\<lambda>_. True) ''c'')\<^sup>*\<^sup>* (replaced_db, seen1, [Issued ''htwo''])
      (fst ?claim, seen, ?slots)"
    using claim_steps[where permitted = "\<lambda>_. True" and origin = sample_origin, OF _ _
        channel_run_ok[OF first sample_live_ok] claim] by auto
  with first have run: "(channel_step sample_origin (\<lambda>_. True) ''c'')\<^sup>*\<^sup>* (sample_live_db, {}, []) (fst ?claim, seen, ?slots)"
    by (rule rtranclp_trans)
  have c: "getVersionedLiveChannel sample_live_db ''c'' = Some (versioned sample_live_channel 1)" by code_simp
  have start: "slot_status sample_live_channel = (False, ''hone'', None)" by code_simp
  obtain c' where c': "getVersionedLiveChannel (fst ?claim) ''c'' = Some c'" "slot_status (vr_value c') = (True, ''htwo'', None)"
  proof -
    have "map_option (\<lambda>c. slot_status (vr_value c)) (getVersionedLiveChannel (fst ?claim) ''c'') = Some (True, ''htwo'', None)"
      by code_simp
    then show ?thesis using that by auto
  qed
  show ?thesis
    using publishers_take_turns[OF sample_live_ok c run] run start c' by auto
qed

section \<open>Scrubbing\<close>

text \<open>A URL without the credentials of a publisher.\<close>

definition credential_free :: "(string \<Rightarrow> string option) \<Rightarrow> string \<Rightarrow> bool" where
  "credential_free origin u \<longleftrightarrow>
     (case parse_url origin u of
        None \<Rightarrow> False
      | Some p \<Rightarrow>
          (\<forall>k \<in> {''user'', ''pass'', ''token''}. params_get k (url_params p) = None) \<and>
          (case params_get ''streamid'' (url_params p) of
             None \<Rightarrow> True
           | Some s \<Rightarrow> take 8 s = ''publish:'' \<longrightarrow> CHR '':'' \<notin> set (drop 8 s)))"

definition stripped :: "query_params \<Rightarrow> query_params" where
  "stripped ps = params_delete ''token'' (params_delete ''pass'' (params_delete ''user'' ps))"

lemma stripped_keys: "k \<in> {''user'', ''pass'', ''token''} \<Longrightarrow> params_get k (stripped ps) = None"
  by (auto simp: stripped_def params_delete_get_other)

lemma stripped_same:
  "\<forall>k \<in> {''user'', ''pass'', ''token''}. params_get k ps = None \<Longrightarrow> stripped ps = ps"
  by (simp add: stripped_def params_delete_none)

lemma second_part: "CHR '':'' \<notin> set (split_on (CHR '':'') s ! 1)" if "take 8 s = ''publish:''"
proof -
  have s: "s = ''publish'' @ CHR '':'' # drop 8 s" using append_take_drop_id[of 8 s] that by simp
  have "split_on (CHR '':'') s = ''publish'' # split_on (CHR '':'') (drop 8 s)"
    by (subst s) (rule split_on_append, simp)
  then have "split_on (CHR '':'') s ! 1 \<in> set (split_on (CHR '':'') s)"
    by (intro nth_mem) (cases "split_on (CHR '':'') (drop 8 s)"; simp)
  then show ?thesis using split_on_clean[of "CHR '':''" s] by blast
qed

lemma clean_params_facts:
  "k \<in> {''user'', ''pass'', ''token''} \<Longrightarrow> params_get k (clean_params ps) = None"
  "params_get ''streamid'' (clean_params ps) = Some s \<Longrightarrow> take 8 s = ''publish:'' \<Longrightarrow> CHR '':'' \<notin> set (drop 8 s)"
  using stripped_keys[of k ps] second_part
  by (auto simp: clean_params_def Let_def params_get_set_other simp flip: stripped_def split: option.splits if_splits)

lemma clean_params_twice: "clean_params (clean_params ps) = clean_params ps"
proof -
  have same: "stripped (clean_params ps) = clean_params ps"
    by (intro stripped_same ballI clean_params_facts(1))
  show ?thesis
  proof (cases "params_get ''streamid'' (clean_params ps)")
    case None
    then show ?thesis using same by (simp add: clean_params_def[of "clean_params ps"] Let_def flip: stripped_def)
  next
    case (Some s)
    show ?thesis
    proof (cases "take 8 s = ''publish:''")
      case False
      then show ?thesis using same Some by (simp add: clean_params_def[of "clean_params ps"] Let_def flip: stripped_def)
    next
      case True
      obtain s0 where s0: "params_get ''streamid'' (stripped ps) = Some s0"
        using Some by (auto simp: clean_params_def Let_def simp flip: stripped_def split: option.splits if_splits)
      have pre: "take 8 s0 = ''publish:''"
        using Some True s0 by (auto simp: clean_params_def Let_def simp flip: stripped_def split: if_splits)
      let ?x = "split_on (CHR '':'') s0 ! 1"
      have c: "clean_params ps = params_set ''streamid'' (''publish:'' @ ?x) (stripped ps)"
        using s0 pre by (simp add: clean_params_def Let_def flip: stripped_def)
      then have s: "s = ''publish:'' @ ?x" using Some by simp
      have "split_on (CHR '':'') s ! 1 = ?x"
        using split_on_append[of "CHR '':''" "''publish''" ?x] split_on_none[OF second_part[OF pre]] s by simp
      then have "clean_params (clean_params ps) = params_set ''streamid'' (''publish:'' @ ?x) (clean_params ps)"
        using same Some True by (simp add: clean_params_def[of "clean_params ps"] Let_def flip: stripped_def)
      then show ?thesis by (simp add: c)
    qed
  qed
qed

lemma removed_is_clean:
  assumes "origin_ok origin" and "removePublisherCredential origin u = Some v"
  shows "credential_free origin v" "removePublisherCredential origin v = Some v"
proof -
  obtain p where p: "parse_url origin u = Some p" "v = print_url (p\<lparr>url_params := clean_params (url_params p)\<rparr>)"
    using assms(2) by (auto simp: removePublisherCredential_def)
  let ?p = "p\<lparr>url_params := clean_params (url_params p)\<rparr>"
  have "\<exists>b. origin b = Some (url_origin p)" using p(1) by (auto simp: parse_url_def Let_def)
  then have parsed: "parse_url origin v = Some ?p" using parse_print_url[OF assms(1), of _ ?p] p(2) by auto
  show "credential_free origin v"
    using clean_params_facts[where ps = "url_params p"] by (auto simp: credential_free_def parsed split: option.split)
  show "removePublisherCredential origin v = Some v"
    unfolding removePublisherCredential_def parsed by (simp add: clean_params_twice p(2))
qed

definition urls_clean :: "(string \<Rightarrow> string option) \<Rightarrow> live_channel \<Rightarrow> bool" where
  "urls_clean origin c \<longleftrightarrow>
     (\<forall>u \<in> set [chan_rtmpUrl c, chan_srtUrl c, chan_whipUrl c]. credential_free origin u) \<and>
     (\<forall>u. chan_backupRtmpUrl c = Some u \<or> chan_backupSrtUrl c = Some u \<longrightarrow> u = [] \<or> credential_free origin u)"

lemma removed_not_empty:
  "origin_ok origin \<Longrightarrow> removePublisherCredential origin u = Some v \<Longrightarrow> credential_free origin v"
  by (rule removed_is_clean)

lemma clean_backup_twice:
  assumes "origin_ok origin" and "clean_backup origin u = Some v"
  shows "clean_backup origin v = Some v" "v = Some x \<Longrightarrow> x = [] \<or> credential_free origin x"
  using assms removed_is_clean[OF assms(1)]
  by (auto simp: clean_backup_def split: if_splits)

lemma sanitized_is_clean:
  assumes "origin_ok origin" and "sanitizeLiveChannel origin c = Some s"
  shows "urls_clean origin s" "sanitizeLiveChannel origin s = Some s"
proof -
  obtain rtmp srt whip a b where r: "removePublisherCredential origin (chan_rtmpUrl c) = Some rtmp"
    "removePublisherCredential origin (chan_srtUrl c) = Some srt"
    "removePublisherCredential origin (chan_whipUrl c) = Some whip"
    "clean_backup origin (chan_backupRtmpUrl c) = Some a" "clean_backup origin (chan_backupSrtUrl c) = Some b"
    and s: "s = c\<lparr>chan_rtmpUrl := rtmp, chan_srtUrl := srt, chan_whipUrl := whip,
                  chan_backupRtmpUrl := a, chan_backupSrtUrl := b\<rparr>"
    using assms(2) by (auto simp: sanitizeLiveChannel_def split: option.splits)
  show "sanitizeLiveChannel origin s = Some s"
    using r(1-3)[THEN removed_is_clean(2)[OF assms(1)]] r(4,5)[THEN clean_backup_twice(1)[OF assms(1)]]
    by (simp add: s sanitizeLiveChannel_def)
  show "urls_clean origin s"
    using r(1-3)[THEN removed_is_clean(1)[OF assms(1)]] clean_backup_twice(2)[OF assms(1) r(4)]
      clean_backup_twice(2)[OF assms(1) r(5)]
    by (simp add: s urls_clean_def)
qed

text \<open>One channel and the whole list, when nobody else writes.\<close>

definition cleanable :: "(string \<Rightarrow> string option) \<Rightarrow> db \<Rightarrow> bool" where
  "cleanable origin d \<longleftrightarrow> (\<forall>c \<in> set (listLiveChannels d). sanitizeLiveChannel origin c \<noteq> None)"

lemma set_listLiveChannels: "set (listLiveChannels d) = (\<lambda>p. row_json (snd p)) ` set (db_channels d)"
  by (simp add: listLiveChannels_def jsons_def)

lemma channel_listed:
  assumes "keys_unique d"
  shows "c \<in> set (listLiveChannels d) \<longleftrightarrow> (\<exists>k r. map_of (db_channels d) k = Some r \<and> row_json r = c)"
  unfolding set_listLiveChannels using map_of_eq_Some_iff[OF keys_uniqueD(4)[OF assms]] by force

lemma cas_current_channel:
  assumes "keys_unique d" and "channels_named d" and row: "map_of (db_channels d) i = Some r"
    and "chan_id v = i"
  shows "snd (compareAndSetLiveChannel d v (row_revision r)) = Applied (versioned v (Suc (row_revision r)))"
    "map_of (db_channels (fst (compareAndSetLiveChannel d v (row_revision r)))) =
       (map_of (db_channels d))(i \<mapsto> bump_row v (chan_createdAt v) r)"
  using assms(4) row unfolding cas_channel_table cas_snd[OF keys_uniqueD(4)[OF assms(1)]]
  by (auto simp: fun_eq_iff map_of_cas cas_cond_def)

lemma scrub_one:
  assumes keys: "keys_unique d" "channels_named d" and row: "map_of (db_channels d) i = Some r"
    and s: "sanitizeLiveChannel origin (row_json r) = Some s"
  obtains (same) "s = row_json r" "scrub_channel (\<lambda>_. []) origin i d = (d, resolve ())"
  | (written) d' where "scrub_channel (\<lambda>_. []) origin i d = (d', resolve ())"
      "keys_unique d'" "channels_named d'"
      "map_of (db_channels d') = (map_of (db_channels d))(i \<mapsto> bump_row s (chan_createdAt s) r)"
proof (cases "s = row_json r")
  case True
  moreover have "scrub_channel (\<lambda>_. []) origin i d = (d, resolve ())"
    using row s True by (simp add: scrub_channel_def getVersionedLiveChannel_def get_versioned_def
        scrub_attempt_def numeral_3_eq_3)
  ultimately show ?thesis by (rule that(1))
next
  case False
  have id: "chan_id s = i" using s keys(2) row write_keeps_id[of origin ScrubUrls "row_json r" s]
    by (simp add: channels_named_def)
  obtain d' res where cas: "compareAndSetLiveChannel d s (row_revision r) = (d', res)" by fastforce
  note w = cas_current_channel[OF keys row id] cas_channel_keys[OF keys(1)]
  have "scrub_channel (\<lambda>_. []) origin i d = (d', resolve ())"
    using row s False cas w(1) by (simp add: scrub_channel_def getVersionedLiveChannel_def get_versioned_def
        scrub_attempt_def numeral_3_eq_3)
  moreover have "keys_unique d'" "channels_named d'"
    "map_of (db_channels d') = (map_of (db_channels d))(i \<mapsto> bump_row s (chan_createdAt s) r)"
    using w(2) w(3)[of s "row_revision r"] w(4)[OF keys(2), of s "row_revision r"] cas by simp_all
  ultimately show ?thesis by (rule that(2))
qed

lemma scrub_rest:
  assumes o: "origin_ok origin" and "keys_unique d" "channels_named d"
    and "\<forall>k r. map_of (db_channels d) k = Some r \<longrightarrow> sanitizeLiveChannel origin (row_json r) \<noteq> None"
  shows "\<exists>d'. scrub_listed (\<lambda>_ _. []) origin j cs d = (d', resolve ()) \<and> keys_unique d' \<and>
    dom (map_of (db_channels d')) = dom (map_of (db_channels d)) \<and>
    (\<forall>k r. map_of (db_channels d') k = Some r \<longrightarrow>
       map_of (db_channels d) k = Some r \<and> k \<notin> chan_id ` set cs \<or> sanitizeLiveChannel origin (row_json r) = Some (row_json r))"
  using assms(2-4)
proof (induction cs arbitrary: d j)
  case Nil
  then show ?case by auto
next
  case (Cons c cs)
  let ?i = "chan_id c"
  have "\<exists>d1. scrub_channel (\<lambda>_. []) origin ?i d = (d1, resolve ()) \<and> keys_unique d1 \<and> channels_named d1 \<and>
      dom (map_of (db_channels d1)) = dom (map_of (db_channels d)) \<and>
      (\<forall>k r. map_of (db_channels d1) k = Some r \<longrightarrow>
         map_of (db_channels d) k = Some r \<and> k \<noteq> ?i \<or> sanitizeLiveChannel origin (row_json r) = Some (row_json r))"
  proof (cases "map_of (db_channels d) ?i")
    case None
    then have "scrub_channel (\<lambda>_. []) origin ?i d = (d, resolve ())"
      by (simp add: scrub_channel_def getVersionedLiveChannel_def get_versioned_def)
    then show ?thesis using Cons.prems(1,2) None by auto
  next
    case (Some r)
    then obtain s where s: "sanitizeLiveChannel origin (row_json r) = Some s" using Cons.prems(3) by blast
    show ?thesis
    proof (rule scrub_one[OF Cons.prems(1,2) Some s])
      assume "s = row_json r" "scrub_channel (\<lambda>_. []) origin ?i d = (d, resolve ())"
      then show ?thesis using Cons.prems(1,2) s Some by (intro exI[of _ d]) auto
    next
      fix d1
      assume "scrub_channel (\<lambda>_. []) origin ?i d = (d1, resolve ())" "keys_unique d1" "channels_named d1"
        "map_of (db_channels d1) = (map_of (db_channels d))(?i \<mapsto> bump_row s (chan_createdAt s) r)"
      then show ?thesis using sanitized_is_clean(2)[OF o s] Some by (intro exI[of _ d1]) auto
    qed
  qed
  then obtain d1 where d1: "scrub_channel (\<lambda>_. []) origin ?i d = (d1, resolve ())" "keys_unique d1" "channels_named d1"
    "dom (map_of (db_channels d1)) = dom (map_of (db_channels d))"
    "\<And>k r. map_of (db_channels d1) k = Some r \<Longrightarrow>
       map_of (db_channels d) k = Some r \<and> k \<noteq> ?i \<or> sanitizeLiveChannel origin (row_json r) = Some (row_json r)" by blast
  have "\<forall>k r. map_of (db_channels d1) k = Some r \<longrightarrow> sanitizeLiveChannel origin (row_json r) \<noteq> None"
    using d1(5) Cons.prems(3) by fastforce
  from Cons.IH[OF d1(2,3) this, of "Suc j"] obtain d' where
    d': "scrub_listed (\<lambda>_ _. []) origin (Suc j) cs d1 = (d', resolve ())" "keys_unique d'"
    "dom (map_of (db_channels d')) = dom (map_of (db_channels d1))"
    "\<And>k r. map_of (db_channels d') k = Some r \<Longrightarrow>
       map_of (db_channels d1) k = Some r \<and> k \<notin> chan_id ` set cs \<or> sanitizeLiveChannel origin (row_json r) = Some (row_json r)"
    by blast
  show ?case
  proof (intro exI[of _ d'] conjI allI impI)
    show "scrub_listed (\<lambda>_ _. []) origin j (c # cs) d = (d', resolve ())" using d1(1) d'(1) by simp
    show "keys_unique d'" by (rule d'(2))
    show "dom (map_of (db_channels d')) = dom (map_of (db_channels d))" using d'(3) d1(4) by simp
    fix k r
    assume "map_of (db_channels d') k = Some r"
    from d'(4)[OF this] d1(5)[of k r]
    show "map_of (db_channels d) k = Some r \<and> k \<notin> chan_id ` set (c # cs) \<or>
        sanitizeLiveChannel origin (row_json r) = Some (row_json r)" by auto
  qed
qed

lemma scrub_clean_rest:
  assumes "\<forall>k r. map_of (db_channels d) k = Some r \<longrightarrow> sanitizeLiveChannel origin (row_json r) = Some (row_json r)"
  shows "scrub_listed (\<lambda>_ _. []) origin j cs d = (d, resolve ())"
proof (induction cs arbitrary: j)
  case (Cons c cs)
  have "scrub_channel (\<lambda>_. []) origin (chan_id c) d = (d, resolve ())"
  proof (cases "map_of (db_channels d) (chan_id c)")
    case None
    then show ?thesis by (simp add: scrub_channel_def getVersionedLiveChannel_def get_versioned_def)
  next
    case (Some r)
    then show ?thesis using assms by (simp add: scrub_channel_def getVersionedLiveChannel_def get_versioned_def
        scrub_attempt_def numeral_3_eq_3)
  qed
  then show ?case using Cons.IH by simp
qed simp

text \<open>C31: Scrubbing removes every persisted publisher credential: when the stored URLs are valid
  and nobody else writes, it succeeds, keeps every channel, leaves no user, password or token
  parameter and no credential in a stream id, and a second run changes nothing.\<close>

theorem scrubbing_removes_credentials:
  assumes "origin_ok origin" and keys: "keys_unique d" "channels_named d" and "cleanable origin d"
  shows "\<exists>d'. scrubPersistedPublisherCredentials (\<lambda>_ _. []) origin d = (d', resolve ()) \<and>
     (\<forall>i. getLiveChannel d' i = None \<longleftrightarrow> getLiveChannel d i = None) \<and>
     (\<forall>c \<in> set (listLiveChannels d'). urls_clean origin c) \<and>
     scrubPersistedPublisherCredentials (\<lambda>_ _. []) origin d' = (d', resolve ())"
proof -
  have clean: "\<forall>k r. map_of (db_channels d) k = Some r \<longrightarrow> sanitizeLiveChannel origin (row_json r) \<noteq> None"
    using assms(4) channel_listed[OF keys(1)] unfolding cleanable_def by blast
  obtain d' where d': "scrubPersistedPublisherCredentials (\<lambda>_ _. []) origin d = (d', resolve ())" "keys_unique d'"
    "dom (map_of (db_channels d')) = dom (map_of (db_channels d))"
    "\<And>k r. map_of (db_channels d') k = Some r \<Longrightarrow> map_of (db_channels d) k = Some r \<and> k \<notin> chan_id ` set (listLiveChannels d) \<or>
       sanitizeLiveChannel origin (row_json r) = Some (row_json r)"
    using scrub_rest[OF assms(1) keys clean, of 0 "listLiveChannels d"]
    unfolding scrubPersistedPublisherCredentials_def by blast
  have listed: "k \<in> chan_id ` set (listLiveChannels d)" if row: "map_of (db_channels d) k = Some r" for k r
  proof (rule image_eqI)
    show "k = chan_id (row_json r)" using row keys(2) by (simp add: channels_named_def)
    show "row_json r \<in> set (listLiveChannels d)" unfolding channel_listed[OF keys(1)] using row by blast
  qed
  have all: "sanitizeLiveChannel origin (row_json r) = Some (row_json r)" if "map_of (db_channels d') k = Some r" for k r
    using d'(4)[OF that] listed by blast
  have "urls_clean origin c" if c: "c \<in> set (listLiveChannels d')" for c
  proof -
    obtain k r where r: "map_of (db_channels d') k = Some r" "row_json r = c"
      using c unfolding channel_listed[OF d'(2)] by blast
    from sanitized_is_clean(1)[OF assms(1) all[OF r(1)]] r(2) show ?thesis by simp
  qed
  moreover have "scrubPersistedPublisherCredentials (\<lambda>_ _. []) origin d' = (d', resolve ())"
    unfolding scrubPersistedPublisherCredentials_def by (rule scrub_clean_rest) (use all in blast)
  moreover have "getLiveChannel d' i = None \<longleftrightarrow> getLiveChannel d i = None" for i
  proof -
    have "map_of (db_channels d') i = None \<longleftrightarrow> map_of (db_channels d) i = None" by (metis d'(3) domIff)
    then show ?thesis unfolding getLiveChannel_def get_json_def option.map_disc_iff .
  qed
  ultimately show ?thesis using d'(1) by blast
qed

definition leaky_channel :: live_channel where
  "leaky_channel = sample_live_channel
     \<lparr>chan_rtmpUrl := ''rtmp://r/p?user=u&pass=one&x=1'', chan_srtUrl := ''srt://r?streamid=publish:p:u:one''\<rparr>"

definition leaky_db :: db where
  "leaky_db = run_ops [ChannelOp (OpCreateLiveChannel leaky_channel)] empty_db"

lemma leaky_db_ok: "keys_unique leaky_db" "channels_named leaky_db" "cleanable sample_origin leaky_db"
proof -
  show "keys_unique leaky_db" "channels_named leaky_db"
    unfolding leaky_db_def
    by (rule keys_unique_run[OF keys_unique_empty], rule channels_named_run[OF keys_unique_empty])
      (simp add: channels_named_def empty_db_def)
  have "listLiveChannels leaky_db = [leaky_channel]" by code_simp
  moreover have "Option.is_none (sanitizeLiveChannel sample_origin leaky_channel) = False" by code_simp
  ultimately show "cleanable sample_origin leaky_db" by (simp add: cleanable_def Option.is_none_def)
qed

theorem scrubbing_removes_credentials_witness:
  "\<not> urls_clean sample_origin leaky_channel \<and>
   (\<exists>d'. scrubPersistedPublisherCredentials (\<lambda>_ _. []) sample_origin leaky_db = (d', resolve ()) \<and>
      (\<forall>c \<in> set (listLiveChannels d'). urls_clean sample_origin c) \<and>
      scrubPersistedPublisherCredentials (\<lambda>_ _. []) sample_origin d' = (d', resolve ()))"
proof -
  have "credential_free sample_origin (chan_rtmpUrl leaky_channel) = False" by code_simp
  then have "\<not> urls_clean sample_origin leaky_channel" by (simp add: urls_clean_def)
  then show ?thesis using scrubbing_removes_credentials[OF sample_origin_ok leaky_db_ok] by blast
qed

section \<open>Reconciliation\<close>

definition profile_of :: "db \<Rightarrow> live_channel \<Rightarrow> profile option" where
  "profile_of d c = snd (normalizationProfile (\<lambda>_. []) c d)"

definition settled_channel :: "string list \<Rightarrow> live_world \<Rightarrow> live_channel \<Rightarrow> bool" where
  "settled_channel ready w c \<longleftrightarrow>
     chan_publisherState c = path_state ready c \<and>
     (case lw_normalizer w of
        None \<Rightarrow> True
      | Some n \<Rightarrow> chan_normalize c \<and> nz_running n (chan_id c) \<longrightarrow>
          ingest_path c \<in> set ready \<and> profile_of (lw_db w) c \<noteq> None)"

text \<open>Processes that answer a stop and are left alone by others.\<close>

definition obedient :: "supervision \<Rightarrow> bool" where
  "obedient su \<longleftrightarrow> su_stopped su = resolve () \<and> su_during su = (\<lambda>_. [])"

lemma normalizationProfile_same: "fst (normalizationProfile (\<lambda>_. []) c d) = d"
  by (simp add: normalizationProfile_def split: option.split)

lemma normalizationProfile_eq: "normalizationProfile (\<lambda>_. []) c d = (d, profile_of d c)"
  using normalizationProfile_same[of c d] by (simp add: profile_of_def prod_eq_iff)

lemma nz_stop_running [simp]: "nz_running (fst (nz_stop i n)) j \<longleftrightarrow> j \<noteq> i \<and> nz_running n j"
  by (auto simp: nz_running_def nz_stop_def)

lemma restartFailure_running [simp]: "nz_running (restartFailure opts c s t n) j = nz_running n j"
  by (simp add: nz_running_def)

lemma nz_start_frame:
  assumes "\<not> nz_running n i" and "j \<noteq> i"
  shows "nz_running (fst (nz_start opts (\<lambda>_. []) clock stopped failure i owner src dst p q n)) j = nz_running n j"
  using assms by (auto simp: nz_start_def nz_spawn_def nz_started_def nz_failed_def restartFailure_def Let_def nz_running_def
      split: option.split sum.split)

definition normalised :: "bool \<Rightarrow> live_channel \<Rightarrow> live_world \<Rightarrow> live_world \<Rightarrow> bool" where
  "normalised online c w w' \<longleftrightarrow>
    lw_db w' = lw_db w \<and> (lw_normalizer w' = None \<longleftrightarrow> lw_normalizer w = None) \<and>
    (\<forall>n n'. lw_normalizer w = Some n \<longrightarrow> lw_normalizer w' = Some n' \<longrightarrow>
       (\<forall>j. j \<noteq> chan_id c \<longrightarrow> nz_running n' j = nz_running n j) \<and>
       (chan_normalize c \<and> nz_running n' (chan_id c) \<longrightarrow> online \<and> profile_of (lw_db w) c \<noteq> None))"

lemma normalisedD:
  assumes "normalised online c w w'"
  shows "lw_db w' = lw_db w" "lw_normalizer w' = None \<longleftrightarrow> lw_normalizer w = None"
    and "lw_normalizer w = Some n \<Longrightarrow> lw_normalizer w' = Some n' \<Longrightarrow> j \<noteq> chan_id c \<Longrightarrow> nz_running n' j = nz_running n j"
    and "lw_normalizer w = Some n \<Longrightarrow> lw_normalizer w' = Some n' \<Longrightarrow> chan_normalize c \<Longrightarrow> nz_running n' (chan_id c) \<Longrightarrow>
       online \<and> profile_of (lw_db w) c \<noteq> None"
  using assms unfolding normalised_def by blast+

lemma normalise_quiet:
  assumes "obedient su"
  shows "\<exists>w'. normalise_channel (\<lambda>_. []) opts nopts su online c w = (w', resolve ()) \<and> normalised online c w w'"
proof (cases "lw_normalizer w")
  case None
  then show ?thesis by (simp add: normalise_channel_def normalised_def)
next
  case (Some n)
  let ?i = "chan_id c"
  have stop: "stop_normalizer su ?i n = (fst (nz_stop ?i n), resolve ())"
    using assms by (simp add: stop_normalizer_def obedient_def nz_stop_def)
  show ?thesis
  proof (cases "chan_normalize c")
    case False
    then show ?thesis using Some by (simp add: normalise_channel_def normalised_def)
  next
    case norm: True
    show ?thesis
    proof (cases "profile_of (lw_db w) c")
      case None
      then show ?thesis using Some norm stop
        by (cases "nz_running n ?i") (simp_all add: normalise_channel_def normalised_def normalizationProfile_eq)
    next
      case (Some p)
      let ?start = "nz_start nopts (su_during su) (su_clock su) (su_stopped su) (su_failure su) ?i (chan_ownerId c)
           (rtmp_url (lo_internalRtspUrl opts) (ingest_path c)) (rtmp_url (lo_internalRtspUrl opts) (chan_path c)) p
           (su_process su) n"
      obtain n' r where st: "?start = (n', r)" by fastforce
      have frame: "nz_running n' j = nz_running n j" if "\<not> nz_running n ?i" "j \<noteq> ?i" for j
      proof -
        have "su_during su = (\<lambda>_. [])" using assms by (simp add: obedient_def)
        then have "nz_running (fst ?start) j = nz_running n j" using nz_start_frame[OF that] by simp
        then show ?thesis using st by simp
      qed
      show ?thesis
      proof (cases "online \<and> \<not> nz_running n ?i \<and> canStart nopts (su_clock su 0) ?i (chan_ownerId c) n")
        case True
        then show ?thesis using \<open>lw_normalizer w = Some n\<close> norm Some st frame
          by (cases r) (simp_all add: normalise_channel_def normalised_def normalizationProfile_eq)
      next
        case False
        show ?thesis
        proof (cases "\<not> online \<and> nz_running n ?i")
          case True
          then show ?thesis using \<open>lw_normalizer w = Some n\<close> norm Some stop
            by (simp add: normalise_channel_def normalised_def normalizationProfile_eq)
        next
          case idle: False
          have "normalise_channel (\<lambda>_. []) opts nopts su online c w = (w, resolve ())"
            using \<open>lw_normalizer w = Some n\<close> norm Some False idle
            by (cases online; cases "nz_running n ?i") (simp_all add: normalise_channel_def normalised_def normalizationProfile_eq)
          then show ?thesis using \<open>lw_normalizer w = Some n\<close> Some idle by (auto simp: normalised_def)
        qed
      qed
    qed
  qed
qed

lemma profile_of_same:
  assumes "db_sessions d' = db_sessions d" and "db_profiles d' = db_profiles d"
    and "chan_id c' = chan_id c" and "chan_normalizationProfileId c' = chan_normalizationProfileId c"
  shows "profile_of d' c' = profile_of d c"
  using assms by (simp add: profile_of_def normalizationProfile_def listSessions_def getProfile_def split: option.split)

text \<open>What one pass leaves of a world, up to the channels it has not reached.\<close>

definition pass_over :: "string list \<Rightarrow> ident set \<Rightarrow> live_world \<Rightarrow> live_world \<Rightarrow> bool" where
  "pass_over ready ids w w' \<longleftrightarrow>
     keys_unique (lw_db w') \<and> channels_named (lw_db w') \<and>
     db_sessions (lw_db w') = db_sessions (lw_db w) \<and> db_profiles (lw_db w') = db_profiles (lw_db w) \<and>
     map fst (db_channels (lw_db w')) = map fst (db_channels (lw_db w)) \<and>
     (lw_normalizer w' = None \<longleftrightarrow> lw_normalizer w = None) \<and>
     (\<forall>k. k \<notin> ids \<longrightarrow> map_of (db_channels (lw_db w')) k = map_of (db_channels (lw_db w)) k \<and>
        (\<forall>n n'. lw_normalizer w = Some n \<longrightarrow> lw_normalizer w' = Some n' \<longrightarrow> nz_running n' k = nz_running n k)) \<and>
     (\<forall>k \<in> ids. \<forall>r. map_of (db_channels (lw_db w')) k = Some r \<longrightarrow> settled_channel ready w' (row_json r))"

lemma channel_id_row: "channels_named d \<Longrightarrow> map_of (db_channels d) k = Some r \<Longrightarrow> chan_id (row_json r) = k"
  by (simp add: channels_named_def)

lemma pass_over_normalise:
  assumes keys: "keys_unique (lw_db w1)" "channels_named (lw_db w1)"
    and same: "db_sessions (lw_db w1) = db_sessions (lw_db w)" "db_profiles (lw_db w1) = db_profiles (lw_db w)"
      "map fst (db_channels (lw_db w1)) = map fst (db_channels (lw_db w))" "lw_normalizer w1 = lw_normalizer w"
      "\<And>k. k \<noteq> i \<Longrightarrow> map_of (db_channels (lw_db w1)) k = map_of (db_channels (lw_db w)) k"
    and row: "map_of (db_channels (lw_db w1)) i = Some r" "row_json r = c" "chan_publisherState c = path_state ready c"
    and "obedient su" and online: "online \<longleftrightarrow> path_state ready c = PublisherOnline"
  shows "\<exists>w'. normalise_channel (\<lambda>_. []) opts nopts su online c w1 = (w', resolve ()) \<and> pass_over ready {i} w w'"
proof -
  have id: "chan_id c = i" using channel_id_row[OF keys(2) row(1)] row(2) by simp
  obtain w' where run: "normalise_channel (\<lambda>_. []) opts nopts su online c w1 = (w', resolve ())"
    and n: "normalised online c w1 w'"
    using normalise_quiet[OF \<open>obedient su\<close>, of opts nopts online c w1] by blast
  note w' = normalisedD[OF n]
  have settled: "settled_channel ready w' c"
  proof (cases "lw_normalizer w'")
    case None
    then show ?thesis using row(3) by (simp add: settled_channel_def)
  next
    case (Some n')
    then obtain n where "lw_normalizer w1 = Some n" using w'(2) by auto
    then have "chan_normalize c \<and> nz_running n' (chan_id c) \<longrightarrow> online \<and> profile_of (lw_db w1) c \<noteq> None"
      using w'(4)[OF _ Some] by blast
    moreover have "online \<longleftrightarrow> ingest_path c \<in> set ready" unfolding online by (simp add: path_state_def)
    ultimately show ?thesis unfolding settled_channel_def using row(3) Some w'(1) by simp
  qed
  have rest: "nz_running n' k = nz_running n k"
    if "k \<noteq> i" "lw_normalizer w = Some n" "lw_normalizer w' = Some n'" for k n n'
    using w'(3)[of n n' k] that same(4) id by simp
  have "pass_over ready {i} w w'"
    unfolding pass_over_def w'(1)
  proof (intro conjI allI impI ballI)
    show "keys_unique (lw_db w1)" "channels_named (lw_db w1)" by (rule keys)+
    show "db_sessions (lw_db w1) = db_sessions (lw_db w)" "db_profiles (lw_db w1) = db_profiles (lw_db w)"
      "map fst (db_channels (lw_db w1)) = map fst (db_channels (lw_db w))" by (rule same)+
    show "(lw_normalizer w' = None) = (lw_normalizer w = None)" using w'(2) same(4) by simp
  next
    fix k n n'
    assume "k \<notin> {i}" "lw_normalizer w = Some n" "lw_normalizer w' = Some n'"
    then show "nz_running n' k = nz_running n k" using rest by simp
  next
    fix k
    assume "k \<notin> {i}"
    then show "map_of (db_channels (lw_db w1)) k = map_of (db_channels (lw_db w)) k" using same(5) by simp
  next
    fix k r'
    assume "k \<in> {i}" "map_of (db_channels (lw_db w1)) k = Some r'"
    then show "settled_channel ready w' (row_json r')" using row settled by simp
  qed
  then show ?thesis using run by blast
qed

lemma reconcile_one:
  assumes keys: "keys_unique (lw_db w)" "channels_named (lw_db w)" and "obedient su"
  shows "\<exists>w'. reconcile_channel (\<lambda>_. []) opts nopts su now ready i w = (w', resolve ()) \<and> pass_over ready {i} w w'"
proof (cases "map_of (db_channels (lw_db w)) i")
  case None
  then have "reconcile_channel (\<lambda>_. []) opts nopts su now ready i w = (w, resolve ())"
    by (simp add: reconcile_channel_def getVersionedLiveChannel_def get_versioned_def)
  then show ?thesis using keys None by (simp add: pass_over_def)
next
  case (Some r)
  let ?c = "row_json r" and ?s = "path_state ready (row_json r)"
  let ?online = "?s = PublisherOnline"
  have id: "chan_id ?c = i" by (rule channel_id_row[OF keys(2) Some])
  have read: "getVersionedLiveChannel (lw_db w) i = Some (versioned ?c (row_revision r))"
    using Some by (simp add: getVersionedLiveChannel_def get_versioned_def)
  show ?thesis
  proof (cases "chan_publisherState ?c = ?s")
    case True
    have "reconcile_channel (\<lambda>_. []) opts nopts su now ready i w =
        normalise_channel (\<lambda>_. []) opts nopts su ?online ?c w"
      using read True by (simp add: reconcile_channel_def Let_def)
    moreover have "\<exists>w'. normalise_channel (\<lambda>_. []) opts nopts su ?online ?c w = (w', resolve ()) \<and> pass_over ready {i} w w'"
      by (rule pass_over_normalise[OF keys _ _ _ _ _ Some _ True \<open>obedient su\<close>]) simp_all
    ultimately show ?thesis by simp
  next
    case False
    let ?v = "?c\<lparr>chan_publisherState := ?s, chan_publisherUpdatedAt := Some now\<rparr>"
    have v: "chan_id ?v = i" using id by simp
    obtain d' res where cas: "compareAndSetLiveChannel (lw_db w) ?v (row_revision r) = (d', res)" by fastforce
    note c = cas_current_channel[OF keys Some v] cas_channel_keys(1)[OF keys(1), of ?v "row_revision r"]
      cas_channel_keys(2)[OF keys, of ?v "row_revision r"] cas_channel_table(1)[of "lw_db w" ?v "row_revision r"]
    let ?w = "w\<lparr>lw_db := d', lw_events := lw_events w @ [(if ?online then PublisherConnected else PublisherDisconnected)
                 (chan_id ?v) (chan_path ?v)]\<rparr>"
    have "reconcile_channel (\<lambda>_. []) opts nopts su now ready i w =
        normalise_channel (\<lambda>_. []) opts nopts su ?online ?v ?w"
      using read False cas c(1) by (simp add: reconcile_channel_def Let_def)
    moreover have "\<exists>w'. normalise_channel (\<lambda>_. []) opts nopts su ?online ?v ?w = (w', resolve ()) \<and> pass_over ready {i} w w'"
    proof (rule pass_over_normalise[where r = "bump_row ?v (chan_createdAt ?v) r"])
      show "keys_unique (lw_db ?w)" "channels_named (lw_db ?w)" using c(3,4) cas by simp_all
      show "db_sessions (lw_db ?w) = db_sessions (lw_db w)" "db_profiles (lw_db ?w) = db_profiles (lw_db w)"
        "map fst (db_channels (lw_db ?w)) = map fst (db_channels (lw_db w))" using c(5) cas by simp_all
      show "map_of (db_channels (lw_db ?w)) k = map_of (db_channels (lw_db w)) k" if "k \<noteq> i" for k
        using c(2) cas that by simp
      show "map_of (db_channels (lw_db ?w)) i = Some (bump_row ?v (chan_createdAt ?v) r)" using c(2) cas by simp
      show "chan_publisherState ?v = path_state ready ?v" by (simp add: path_state_def ingest_path_def)
      show "?online \<longleftrightarrow> path_state ready ?v = PublisherOnline" by (simp add: path_state_def ingest_path_def)
    qed (use \<open>obedient su\<close> in simp_all)
    ultimately show ?thesis by simp
  qed
qed

lemma settled_same:
  assumes "settled_channel ready w c"
    and "db_sessions (lw_db w') = db_sessions (lw_db w)" "db_profiles (lw_db w') = db_profiles (lw_db w)"
    and "lw_normalizer w' = None \<longleftrightarrow> lw_normalizer w = None"
    and "\<And>n n'. lw_normalizer w = Some n \<Longrightarrow> lw_normalizer w' = Some n' \<Longrightarrow>
       nz_running n' (chan_id c) = nz_running n (chan_id c)"
  shows "settled_channel ready w' c"
proof (cases "lw_normalizer w'")
  case None
  then show ?thesis using assms(1) by (simp add: settled_channel_def)
next
  case (Some n')
  then obtain n where n: "lw_normalizer w = Some n" using assms(4) by auto
  show ?thesis
    using assms(1) assms(5)[OF n Some] profile_of_same[OF assms(2,3), of c c] n Some
    by (simp add: settled_channel_def)
qed

lemma pass_over_trans:
  assumes first: "pass_over ready I w w1" and second: "pass_over ready J w1 w2"
  shows "pass_over ready (I \<union> J) w w2"
  unfolding pass_over_def
proof (intro conjI allI impI ballI)
  show "keys_unique (lw_db w2)" "channels_named (lw_db w2)" using second by (simp_all add: pass_over_def)
  show "db_sessions (lw_db w2) = db_sessions (lw_db w)" "db_profiles (lw_db w2) = db_profiles (lw_db w)"
    "map fst (db_channels (lw_db w2)) = map fst (db_channels (lw_db w))"
    "(lw_normalizer w2 = None) = (lw_normalizer w = None)" using first second by (simp_all add: pass_over_def)
next
  fix k
  assume "k \<notin> I \<union> J"
  then show "map_of (db_channels (lw_db w2)) k = map_of (db_channels (lw_db w)) k"
    using first second by (simp add: pass_over_def)
next
  fix k n n'
  assume k: "k \<notin> I \<union> J" and n: "lw_normalizer w = Some n" "lw_normalizer w2 = Some n'"
  have "lw_normalizer w1 \<noteq> None" using first n(1) by (simp add: pass_over_def)
  then obtain n1 where n1: "lw_normalizer w1 = Some n1" by blast
  have "nz_running n1 k = nz_running n k" using first k n n1 unfolding pass_over_def by blast
  moreover have "nz_running n' k = nz_running n1 k" using second k n n1 unfolding pass_over_def by blast
  ultimately show "nz_running n' k = nz_running n k" by simp
next
  fix k r
  assume k: "k \<in> I \<union> J" and r: "map_of (db_channels (lw_db w2)) k = Some r"
  show "settled_channel ready w2 (row_json r)"
  proof (cases "k \<in> J")
    case True
    then show ?thesis using second r by (simp add: pass_over_def)
  next
    case False
    then have r1: "map_of (db_channels (lw_db w1)) k = Some r" using second r by (simp add: pass_over_def)
    then have s1: "settled_channel ready w1 (row_json r)" using first k False by (simp add: pass_over_def)
    have "channels_named (lw_db w1)" using first by (simp add: pass_over_def)
    then have id: "chan_id (row_json r) = k" using r1 by (rule channel_id_row)
    show ?thesis
    proof (rule settled_same[OF s1])
      show "db_sessions (lw_db w2) = db_sessions (lw_db w1)" "db_profiles (lw_db w2) = db_profiles (lw_db w1)"
        "(lw_normalizer w2 = None) = (lw_normalizer w1 = None)" using second by (simp_all add: pass_over_def)
      show "nz_running n' (chan_id (row_json r)) = nz_running n (chan_id (row_json r))"
        if "lw_normalizer w1 = Some n" "lw_normalizer w2 = Some n'" for n n'
        using second that False unfolding id pass_over_def by blast
    qed
  qed
qed

lemma reconcile_rest:
  assumes "keys_unique (lw_db w)" "channels_named (lw_db w)" and obedient: "\<And>i. obedient (su i)"
  shows "\<exists>w'. reconcile_listed (\<lambda>_ _. []) opts nopts su clock ready j cs w = (w', resolve ()) \<and>
    pass_over ready (chan_id ` set cs) w w'"
  using assms(1,2)
proof (induction cs arbitrary: w j)
  case Nil
  then show ?case by (simp add: pass_over_def)
next
  case (Cons c cs)
  obtain w1 where w1: "reconcile_channel (\<lambda>_. []) opts nopts (su (chan_id c)) (clock j) ready (chan_id c) w = (w1, resolve ())"
    "pass_over ready {chan_id c} w w1"
    using reconcile_one[OF Cons.prems obedient] by blast
  then have "keys_unique (lw_db w1)" "channels_named (lw_db w1)" by (simp_all add: pass_over_def)
  then obtain w2 where w2: "reconcile_listed (\<lambda>_ _. []) opts nopts su clock ready (Suc j) cs w1 = (w2, resolve ())"
    "pass_over ready (chan_id ` set cs) w1 w2"
    using Cons.IH by blast
  show ?case using w1(1) w2(1) pass_over_trans[OF w1(2) w2(2)] by simp
qed

text \<open>C23: Reconciliation converges: undisturbed, with processes that stop when asked, one pass
  succeeds, keeps the channels, leaves every channel online exactly when the media server reports its
  ingest path ready, and leaves no normalizer running for a channel without a publisher or a profile.\<close>

theorem reconciliation_converges:
  assumes keys: "keys_unique (lw_db w)" "channels_named (lw_db w)" and obedient: "\<And>i. obedient (su i)"
  shows "\<exists>w'. reconcilePublisherPaths (\<lambda>_ _. []) opts nopts su clock ready w = (w', resolve ()) \<and>
     map fst (db_channels (lw_db w')) = map fst (db_channels (lw_db w)) \<and>
     (\<forall>c \<in> set (listLiveChannels (lw_db w')). settled_channel ready w' c)"
proof -
  obtain w' where w': "reconcilePublisherPaths (\<lambda>_ _. []) opts nopts su clock ready w = (w', resolve ())"
    "pass_over ready (chan_id ` set (listLiveChannels (lw_db w))) w w'"
    using reconcile_rest[where su = su and cs = "listLiveChannels (lw_db w)" and j = 0, OF keys obedient]
    unfolding reconcilePublisherPaths_def by blast
  have ok: "keys_unique (lw_db w')" "map fst (db_channels (lw_db w')) = map fst (db_channels (lw_db w))"
    using w'(2) by (simp_all add: pass_over_def)
  have "settled_channel ready w' c" if "c \<in> set (listLiveChannels (lw_db w'))" for c
  proof -
    obtain k r where r: "map_of (db_channels (lw_db w')) k = Some r" "row_json r = c"
      using \<open>c \<in> _\<close> unfolding channel_listed[OF ok(1)] by blast
    have "map_of (db_channels (lw_db w)) k \<noteq> None"
      using r(1) arg_cong[OF ok(2), where f = set] by (simp add: map_of_eq_None_iff) (metis map_of_SomeD fst_conv image_eqI)
    then obtain r0 where r0: "map_of (db_channels (lw_db w)) k = Some r0" by blast
    have "k \<in> chan_id ` set (listLiveChannels (lw_db w))"
    proof (rule image_eqI)
      show "k = chan_id (row_json r0)" using channel_id_row[OF keys(2) r0] by simp
      show "row_json r0 \<in> set (listLiveChannels (lw_db w))" unfolding channel_listed[OF keys(1)] using r0 by blast
    qed
    then show ?thesis using w'(2) r by (auto simp: pass_over_def)
  qed
  then show ?thesis using w'(1) ok(2) by blast
qed

definition obedient_process :: supervision where
  "obedient_process = \<lparr>su_during = (\<lambda>_. []), su_clock = (\<lambda>_. 9), su_stopped = resolve (), su_failure = None, su_process = 1\<rparr>"

definition sample_normalizer_options :: normalizer_options where
  "sample_normalizer_options =
     \<lparr>no_maxConcurrent = None, no_maxConcurrentPerOwner = None, no_restartBackoffMinMs = None,
      no_restartBackoffMaxMs = None, no_videoEncoder = AutoEncoder, no_availableEncoders = []\<rparr>"

definition quiet_world :: live_world where
  "quiet_world = \<lparr>lw_db = sample_live_db, lw_normalizer = Some no_processes, lw_events = []\<rparr>"

theorem reconciliation_converges_witness:
  "\<exists>w'. reconcilePublisherPaths (\<lambda>_ _. []) sample_live_options sample_normalizer_options (\<lambda>_. obedient_process) (\<lambda>_. 8)
        [''live-p-ingest''] quiet_world = (w', resolve ()) \<and>
     (\<forall>c \<in> set (listLiveChannels (lw_db w')). settled_channel [''live-p-ingest''] w' c)"
proof -
  have "keys_unique (lw_db quiet_world)" "channels_named (lw_db quiet_world)"
    using sample_live_ok by (simp_all add: channel_ok_def quiet_world_def)
  from reconciliation_converges[OF this, of "\<lambda>_. obedient_process"] show ?thesis
    by (fastforce simp: obedient_def obedient_process_def)
qed

section \<open>Normalizers\<close>

text \<open>C32: The normalizers stay within their limits: whatever the order of starts, stops, failures and
  exits, there are never more processes than the installation allows, nor more of one owner than an
  owner is allowed.\<close>

theorem normalizers_within_limits:
  assumes "\<forall>e \<in> set es. owned_event own e"
  shows "length (nz_processes (nz_run opts es no_processes)) \<le> coalesce (no_maxConcurrent opts) 2 \<and>
     length (filter (\<lambda>p. owner_key (own (fst p)) = owner) (nz_processes (nz_run opts es no_processes)))
       \<le> coalesce (no_maxConcurrentPerOwner opts) 9007199254740991"
proof -
  let ?n = "nz_run opts es no_processes"
  have ok: "normalizer_ok opts own ?n" by (rule normalizer_ok_run[OF normalizer_ok_start assms])
  have "filter (\<lambda>p. snd p = owner) (nz_owners ?n) =
      map (\<lambda>p. (fst p, owner_key (own (fst p)))) (filter (\<lambda>p. owner_key (own (fst p)) = owner) (nz_processes ?n))"
    using ok by (simp add: normalizer_ok_def filter_map comp_def)
  then have "owner_processes ?n owner = length (filter (\<lambda>p. owner_key (own (fst p)) = owner) (nz_processes ?n))"
    by (simp add: owner_processes_def)
  then show ?thesis using ok unfolding normalizer_ok_def by metis
qed

lemma sample_args:
  "\<exists>args. liveNormalizerArgs src dst sample_hls_profile (no_videoEncoder sample_normalizer_options)
      (no_availableEncoders sample_normalizer_options) = resolve args"
  by (simp add: liveNormalizerArgs_def resolveFfmpegVideoEncoder_def sample_normalizer_options_def
      sample_hls_profile_def Let_def)

lemma sample_spawn:
  assumes "canStart sample_normalizer_options now c owner n"
  shows "nz_exec sample_normalizer_options (NzSpawn now c owner src dst sample_hls_profile process) n =
    n\<lparr>nz_processes := AList.update c process (nz_processes n),
       nz_owners := AList.update c (owner_key owner) (nz_owners n)\<rparr>"
  using assms sample_args[of src dst] by (auto simp: nz_spawn_def)

lemma sample_refused:
  "\<not> canStart sample_normalizer_options now c owner n \<Longrightarrow>
    nz_exec sample_normalizer_options (NzSpawn now c owner src dst sample_hls_profile process) n = n"
  by (simp add: nz_spawn_def)

lemma sample_limits:
  "no_maxConcurrent sample_normalizer_options = None" "no_maxConcurrentPerOwner sample_normalizer_options = None"
  by (simp_all add: sample_normalizer_options_def)

lemmas sample_starts = canStart_def sample_limits no_processes_def nz_running_def owner_processes_def
  owner_key_def

definition sample_spawns :: "nz_event list" where
  "sample_spawns = map (\<lambda>c. NzSpawn 5 c (Some ''u'') ''in'' ''out'' sample_hls_profile 1) [''a'', ''b'', ''c'']"

theorem normalizers_within_limits_witness:
  "map fst (nz_processes (nz_run sample_normalizer_options sample_spawns no_processes)) = [''a'', ''b''] \<and>
   length (nz_processes (nz_run sample_normalizer_options sample_spawns no_processes)) \<le> 2"
proof -
  have "\<forall>e \<in> set sample_spawns. owned_event (\<lambda>_. Some ''u'') e" by (simp add: sample_spawns_def)
  from normalizers_within_limits[OF this, of sample_normalizer_options "''u''"]
  have "length (nz_processes (nz_run sample_normalizer_options sample_spawns no_processes)) \<le> 2"
    by (simp add: sample_normalizer_options_def)
  moreover have "map fst (nz_processes (nz_run sample_normalizer_options sample_spawns no_processes)) = [''a'', ''b'']"
    unfolding sample_spawns_def
    by (simp add: sample_spawn sample_refused sample_starts del: nz_exec.simps)
  ultimately show ?thesis by simp
qed

text \<open>C33: A normalizer that failed backs off: after the failure of a channel's process no start of the
  channel spawns a process before its delay is over, unless it is stopped. The delay is the configured
  minimum after the first failure, or after the failure of a run of at least thirty seconds; it doubles
  with every further quick failure, ten times at most, and never exceeds the configured maximum.\<close>

theorem failed_normalizer_backs_off:
  fixes opts :: normalizer_options and failures :: nat and now startedAt delay :: int
  defines "minimum \<equiv> coalesce (no_restartBackoffMinMs opts) 1000"
  defines "maximum \<equiv> coalesce (no_restartBackoffMaxMs opts) 60000"
  assumes "map_of (nz_processes n) c = Some process"
    and "failures = (if 30000 \<le> now - startedAt then 1 else coalesce (map_of (nz_restartFailures n) c) 0 + 1)"
    and "delay = min maximum (minimum * 2 ^ min (failures - 1) 10)"
    and "\<forall>e \<in> set es. leaves_alone c (now + delay) e"
  shows "\<not> nz_running (nz_run opts es (nz_failed opts c process startedAt now message n)) c \<and>
     map_of (nz_restartFailures (nz_failed opts c process startedAt now message n)) c = Some failures \<and>
     map_of (nz_restartNotBefore (nz_failed opts c process startedAt now message n)) c = Some (now + delay)"
proof -
  have delay: "delay = restart_delay opts failures"
    using assms(5) by (simp add: restart_delay_def minimum_def maximum_def)
  let ?n = "nz_failed opts c process startedAt now message n"
  obtain k where k: "map_of (nz_restartFailures ?n) c = Some k"
    "k = failures" "backing_off c (now + restart_delay opts k) ?n"
    using failure_backs_off[OF assms(3), of opts startedAt now message] unfolding assms(4) by blast
  have "backing_off c (now + delay) (nz_run opts es ?n)"
    by (rule backing_off_run) (use k assms(6) delay in simp_all)
  moreover have "map_of (nz_restartNotBefore ?n) c = Some (now + delay)"
    by (simp add: delay assms(3,4) nz_failed_def restartFailure_def Let_def)
  ultimately show ?thesis using k by (simp add: backing_off_def)
qed

theorem failed_normalizer_backs_off_witness:
  "\<not> nz_running (nz_run sample_normalizer_options [NzSpawn 1500 ''a'' None ''in'' ''out'' sample_hls_profile 2]
      (nz_failed sample_normalizer_options ''a'' 1 500 700 ''gone''
        (nz_run sample_normalizer_options [NzSpawn 500 ''a'' None ''in'' ''out'' sample_hls_profile 1] no_processes))) ''a''"
proof -
  let ?n = "nz_run sample_normalizer_options [NzSpawn 500 ''a'' None ''in'' ''out'' sample_hls_profile 1] no_processes"
  have "map_of (nz_processes ?n) ''a'' = Some 1" "map_of (nz_restartFailures ?n) ''a'' = None"
    by (simp_all add: sample_spawn sample_starts del: nz_exec.simps)
  then show ?thesis
    using failed_normalizer_backs_off[of ?n "''a''" 1 1 700 500 1000 sample_normalizer_options
        "[NzSpawn 1500 ''a'' None ''in'' ''out'' sample_hls_profile 2]" "''gone''"]
    by (simp add: sample_normalizer_options_def)
qed

end
