(* ===== verification/RelayProviders.thy ===== *)
theory RelayProviders
  imports RelayCrashFacts
begin

text \<open>
  The provider service (\<^verbatim>\<open>packages/application/src/provider-service.ts\<close>): connections, their
  credentials in the secret store, their deletion in two phases, bindings to nodes, and how a
  request to a provider finds its way. A handler numbers its calls on the repository and the
  secret store; before the \<open>k\<close>-th others run the operations \<open>fst (f k)\<close> and it meets the fault
  \<open>snd (f k)\<close>. What the provider answers is an argument.
\<close>

section \<open>Calls between the writes of others\<close>

type_synonym call_env = "nat \<Rightarrow> repo_op list \<times> fault"

definition meanwhile :: "repo_op list \<Rightarrow> session_world \<Rightarrow> session_world" where
  "meanwhile xs w = w\<lparr>sw_db := run_ops xs (sw_db w)\<rparr>"

definition called :: "repo_op list \<times> fault \<Rightarrow> (session_world \<Rightarrow> session_world \<times> 'a outcome) \<Rightarrow> 'a action" where
  "called c m w = call (snd c) m (meanwhile (fst c) w)"

text \<open>A \<^verbatim>\<open>try\<close> whose \<^verbatim>\<open>catch\<close> takes note that there was no answer.\<close>

definition tried :: "'a action \<Rightarrow> 'a option action" where
  "tried m = on_error (and_then m (\<lambda>x. done_with (Some x))) (\<lambda>_. done_with None)"

section \<open>Connections\<close>

record provider_identity =
  idn_userId :: "string option"
  idn_username :: "string option"
  idn_accessToken :: string
  idn_serverName :: "string option"
  idn_serverVersion :: "string option"

record provider_request =
  pq_type :: string
  pq_name :: string
  pq_authMode :: auth_mode
  pq_allowPublicHttp :: bool
  pq_normalizedBaseUrl :: string
  pq_securityNotice :: "string option"

definition truthy_part :: "string option \<Rightarrow> string option" where
  "truthy_part x = (if truthy x then x else None)"

definition identity_part :: "provider_identity option \<Rightarrow> (provider_identity \<Rightarrow> string option) \<Rightarrow> string option" where
  "identity_part identity f = (case identity of None \<Rightarrow> None | Some i \<Rightarrow> truthy_part (f i))"

definition new_connection ::
    "provider_request \<Rightarrow> provider_capability list \<Rightarrow> provider_identity option \<Rightarrow> ident \<Rightarrow> instant \<Rightarrow> provider_connection" where
  "new_connection input capabilities identity i now =
     \<lparr>prov_id = i, prov_type = pq_type input, prov_name = pq_name input, prov_baseUrl = pq_normalizedBaseUrl input,
      prov_authMode = pq_authMode input, prov_secretRef = ''provider:'' @ i,
      prov_userId = identity_part identity idn_userId, prov_username = identity_part identity idn_username,
      prov_serverName = identity_part identity idn_serverName,
      prov_serverVersion = identity_part identity idn_serverVersion,
      prov_capabilities = capabilities, prov_healthy = (identity \<noteq> None),
      prov_allowPublicHttp = Some (pq_allowPublicHttp input),
      prov_securityNotice = truthy_part (pq_securityNotice input),
      prov_createdAt = now, prov_updatedAt = now\<rparr>"

text \<open>
  The \<^verbatim>\<open>catch\<close> of a creation: what the repository says now decides whether the row was written;
  the staged credential is dropped only when it says that it was not.
\<close>

definition drop_staged :: "repo_op list \<times> fault \<Rightarrow> provider_identity option \<Rightarrow> string \<Rightarrow> unit action" where
  "drop_staged c identity ref =
     (if identity = None then done_with () else called c (on_secrets (\<lambda>st. secret_delete st ref)))"

definition settle_creation ::
    "call_env \<Rightarrow> provider_connection \<Rightarrow> provider_identity option \<Rightarrow> app_error \<Rightarrow> public_provider_connection action" where
  "settle_creation f c identity e =
     and_then (tried (called (f 2) (read_db (\<lambda>d. getProvider d (prov_id c))))) (\<lambda>answer.
       case answer of
         None \<Rightarrow> raise e
       | Some None \<Rightarrow> and_then (drop_staged (f 3) identity (prov_secretRef c)) (\<lambda>_. raise e)
       | Some (Some p) \<Rightarrow>
           if prov_secretRef p = prov_secretRef c then done_with (publicProvider p)
           else and_then (drop_staged (f 3) identity (prov_secretRef c)) (\<lambda>_. raise e))"

text \<open>\<open>login\<close> is what the provider answers to the authentication, which a delegated provider is not asked for.\<close>

definition create_connection ::
    "call_env \<Rightarrow> provider_request \<Rightarrow> provider_capability list \<Rightarrow> provider_identity outcome \<Rightarrow> ident \<Rightarrow> instant \<Rightarrow>
       public_provider_connection action" where
  "create_connection f input capabilities login i now =
     (case (if pq_authMode input = Delegated then resolve None else map_sum id Some login) of
        Inl e \<Rightarrow> raise e
      | Inr identity \<Rightarrow>
          let c = new_connection input capabilities identity i now
          in and_then (case identity of
                         None \<Rightarrow> done_with ()
                       | Some x \<Rightarrow> called (f 0) (on_secrets (\<lambda>st. secret_put st (prov_secretRef c) (idn_accessToken x))))
               (\<lambda>_. on_error
                  (and_then (called (f 1) (on_db (\<lambda>d. createProvider d c))) (\<lambda>_. done_with (publicProvider c)))
                  (settle_creation f c identity)))"

definition list_connections :: "db \<Rightarrow> public_provider_connection list" where
  "list_connections d = map publicProvider (listProviders d)"

section \<open>Deletion\<close>

definition MAX_PROVIDER_WRITE_ATTEMPTS :: nat where
  "MAX_PROVIDER_WRITE_ATTEMPTS = 5"

fun begin_deletion :: "call_env \<Rightarrow> nat \<Rightarrow> nat \<Rightarrow> ident \<Rightarrow> provider_connection versioned option action" where
  "begin_deletion f k 0 i = raise ConflictError"
| "begin_deletion f k (Suc n) i =
     and_then (called (f k) (on_db (\<lambda>d. beginProviderDeletion d i))) (\<lambda>r.
       case r of
         Applied record \<Rightarrow> done_with (Some record)
       | Rejected reason _ _ \<Rightarrow>
           (case reason of
              NotFound \<Rightarrow> done_with None
            | DependencyConflict \<Rightarrow> raise ConflictError
            | InvalidState \<Rightarrow> raise ConflictError
            | RevisionConflict \<Rightarrow> begin_deletion f (Suc k) n i))"

definition try_finalize :: "repo_op list \<times> fault \<Rightarrow> ident \<Rightarrow> nat \<Rightarrow> bool action" where
  "try_finalize c i expectedRevision =
     on_error
       (and_then (called c (on_db (\<lambda>d. finalizeProviderDeletion d i expectedRevision))) (\<lambda>r.
          case r of
            Deleted _ \<Rightarrow> done_with True
          | NotDeleted reason _ _ \<Rightarrow>
              if reason = NotFound then done_with True
              else if reason = DependencyConflict then raise ConflictError
              else done_with False))
       (\<lambda>e. if e = ConflictError then raise e else done_with False)"

fun finalize_deletion :: "(nat \<Rightarrow> call_env) \<Rightarrow> nat \<Rightarrow> nat \<Rightarrow> ident \<Rightarrow> nat \<Rightarrow> unit action" where
  "finalize_deletion f j 0 i expectedRevision = raise ConflictError"
| "finalize_deletion f j (Suc n) i expectedRevision =
     and_then (try_finalize (f j 0) i expectedRevision) (\<lambda>finished.
       if finished then done_with ()
       else and_then (begin_deletion (f j) 1 MAX_PROVIDER_WRITE_ATTEMPTS i) (\<lambda>pending.
         case pending of
           None \<Rightarrow> done_with ()
         | Some p \<Rightarrow> finalize_deletion f (Suc j) n i (vr_revision p)))"

definition delete_connection :: "(nat \<Rightarrow> call_env) \<Rightarrow> ident \<Rightarrow> unit action" where
  "delete_connection f i =
     and_then (begin_deletion (f 0) 0 MAX_PROVIDER_WRITE_ATTEMPTS i) (\<lambda>deleting.
       case deleting of
         None \<Rightarrow> done_with ()
       | Some c \<Rightarrow>
           and_then (called (f 1 0) (on_secrets (\<lambda>st. secret_delete st (prov_secretRef (vr_value c))))) (\<lambda>_.
             finalize_deletion f 2 MAX_PROVIDER_WRITE_ATTEMPTS i (vr_revision c)))"

section \<open>Health\<close>

fun mark_healthy :: "call_env \<Rightarrow> (nat \<Rightarrow> instant) \<Rightarrow> nat \<Rightarrow> nat \<Rightarrow> ident \<Rightarrow> unit action" where
  "mark_healthy f clock k 0 i = raise ConflictError"
| "mark_healthy f clock k (Suc n) i =
     and_then (called (f (2 * k)) (read_db (\<lambda>d. getVersionedProvider d i))) (\<lambda>current.
       case current of
         None \<Rightarrow> raise NotFoundError
       | Some c \<Rightarrow>
           and_then (called (f (2 * k + 1)) (on_db (\<lambda>d. apsnd resolve (compareAndSetProvider d
             ((vr_value c)\<lparr>prov_healthy := True, prov_updatedAt := clock k\<rparr>) (vr_revision c))))) (\<lambda>r.
             case r of
               Applied _ \<Rightarrow> done_with ()
             | Rejected reason _ _ \<Rightarrow>
                 if reason = NotFound then raise NotFoundError
                 else if reason = InvalidState then raise ConflictError
                 else mark_healthy f clock (Suc k) n i))"

section \<open>The way to a provider\<close>

text \<open>
  \<open>clustered\<close> says whether the repository has bindings; \<open>connected\<close> is the gateway to other
  nodes, if there is one. The result is the node that is asked, or the connection and the
  secret the provider is asked with.
\<close>

record provider_options =
  pv_nodeId :: "ident option"
  pv_gateway :: "(ident \<Rightarrow> bool) option"
  pv_clustered :: bool

definition remoteBinding :: "provider_options \<Rightarrow> db \<Rightarrow> ident \<Rightarrow> provider_binding option" where
  "remoteBinding opts d i =
     (case pv_gateway opts of
        None \<Rightarrow> None
      | Some reachable \<Rightarrow>
          if \<not> pv_clustered opts then None
          else List.find (\<lambda>b. bind_state b = BindingHealthy \<and> \<not> bind_deletionPending b \<and>
                 Some (bind_nodeId b) \<noteq> pv_nodeId opts \<and> reachable (bind_nodeId b))
               (listProviderBindings d (Some i) False))"

definition local_candidates :: "provider_options \<Rightarrow> provider_binding list \<Rightarrow> provider_binding list" where
  "local_candidates opts bs =
     filter (\<lambda>b. Some (bind_nodeId b) = pv_nodeId opts \<and> bind_state b = BindingHealthy \<and> \<not> bind_deletionPending b) bs @
     filter (\<lambda>b. Some (bind_nodeId b) \<noteq> pv_nodeId opts \<and> bind_state b = BindingHealthy \<and> \<not> bind_deletionPending b) bs"

definition localSecretRef :: "provider_options \<Rightarrow> db \<Rightarrow> secret_store \<Rightarrow> provider_connection \<Rightarrow> string" where
  "localSecretRef opts d st p =
     (if \<not> pv_clustered opts then prov_secretRef p
      else case List.find (\<lambda>b. st (bind_secretRef b) \<noteq> None)
                  (local_candidates opts (listProviderBindings d (Some (prov_id p)) False)) of
        Some b \<Rightarrow> bind_secretRef b
      | None \<Rightarrow> prov_secretRef p)"

datatype provider_way = AskNode ident | AskProvider provider_connection string

definition provider_request_way ::
    "provider_options \<Rightarrow> ident \<Rightarrow> session_world \<Rightarrow> provider_way outcome" where
  "provider_request_way opts i w =
     (case getProvider (sw_db w) i of
        None \<Rightarrow> throw NotFoundError
      | Some p \<Rightarrow>
          (case remoteBinding opts (sw_db w) i of
             Some b \<Rightarrow> resolve (AskNode (bind_nodeId b))
           | None \<Rightarrow>
               (case secret_get (sw_secrets w) (localSecretRef opts (sw_db w) (sw_secrets w) p) of
                  Inl e \<Rightarrow> throw e
                | Inr secret \<Rightarrow> resolve (AskProvider p secret))))"

text \<open>Requests of a user to a provider with delegated login carry the user's own token.\<close>

definition delegated_way :: "ident \<Rightarrow> string \<Rightarrow> string \<Rightarrow> db \<Rightarrow> provider_way outcome" where
  "delegated_way i accessToken userId d =
     (case getProvider d i of
        None \<Rightarrow> throw NotFoundError
      | Some p \<Rightarrow>
          if prov_authMode p \<noteq> Delegated then throw ConflictError
          else resolve (AskProvider (p\<lparr>prov_userId := Some userId\<rparr>) accessToken))"

text \<open>\<open>answer\<close> is what the node or the provider answers to the validation.\<close>

definition validate_connection ::
    "call_env \<Rightarrow> (nat \<Rightarrow> instant) \<Rightarrow> provider_options \<Rightarrow> (provider_way \<Rightarrow> unit outcome) \<Rightarrow> ident \<Rightarrow> unit action" where
  "validate_connection f clock opts answer i w =
     (case provider_request_way opts i w of
        Inl e \<Rightarrow> (w, Raised e)
      | Inr way \<Rightarrow>
          (case answer way of
             Inl e \<Rightarrow> (w, Raised e)
           | Inr _ \<Rightarrow> mark_healthy f clock 0 MAX_PROVIDER_WRITE_ATTEMPTS i w))"

definition authenticate_user ::
    "call_env \<Rightarrow> (nat \<Rightarrow> instant) \<Rightarrow> (provider_connection \<Rightarrow> provider_identity outcome) \<Rightarrow> ident \<Rightarrow>
       provider_identity action" where
  "authenticate_user f clock login i w =
     (case getProvider (sw_db w) i of
        None \<Rightarrow> (w, Raised NotFoundError)
      | Some p \<Rightarrow>
          if prov_authMode p \<noteq> Delegated then (w, Raised ConflictError)
          else case login p of
            Inl e \<Rightarrow> (w, Raised e)
          | Inr identity \<Rightarrow>
              and_then (mark_healthy f clock 0 MAX_PROVIDER_WRITE_ATTEMPTS i) (\<lambda>_. done_with identity) w)"

section \<open>Bindings\<close>

definition sameServer :: "provider_connection \<Rightarrow> provider_connection \<Rightarrow> bool" where
  "sameServer current candidate \<longleftrightarrow>
     prov_id current = prov_id candidate \<and> prov_type current = prov_type candidate \<and>
     canonicalProviderBaseUrl (prov_baseUrl current) = canonicalProviderBaseUrl (prov_baseUrl candidate) \<and>
     providerAllowsPublicHttp current = providerAllowsPublicHttp candidate"

definition bindingMatchesAttempt ::
    "provider_binding \<Rightarrow> provider_binding \<Rightarrow> provider_connection option \<Rightarrow> provider_connection \<Rightarrow> bool" where
  "bindingMatchesAttempt current candidate provider candidateProvider \<longleftrightarrow>
     (case provider of
        None \<Rightarrow> False
      | Some p \<Rightarrow>
          \<not> bind_deletionPending current \<and> sameServer p candidateProvider \<and> bind_id current = bind_id candidate \<and>
          bind_providerId current = bind_providerId candidate \<and> bind_nodeId current = bind_nodeId candidate)"

definition binding_secret_ref :: "ident \<Rightarrow> string \<Rightarrow> string" where
  "binding_secret_ref bindingId nonce = ''provider-binding:'' @ bindingId @ '':'' @ nonce"

definition authenticated_connection ::
    "provider_request \<Rightarrow> provider_capability list \<Rightarrow> provider_identity \<Rightarrow> ident \<Rightarrow> string \<Rightarrow> instant \<Rightarrow> provider_connection" where
  "authenticated_connection input capabilities x i secretRef now =
     \<lparr>prov_id = i, prov_type = pq_type input, prov_name = pq_name input, prov_baseUrl = pq_normalizedBaseUrl input,
      prov_authMode = pq_authMode input, prov_secretRef = secretRef,
      prov_userId = truthy_part (idn_userId x), prov_username = truthy_part (idn_username x),
      prov_serverName = idn_serverName x, prov_serverVersion = idn_serverVersion x,
      prov_capabilities = capabilities, prov_healthy = True,
      prov_allowPublicHttp = Some (pq_allowPublicHttp input),
      prov_securityNotice = truthy_part (pq_securityNotice input),
      prov_createdAt = now, prov_updatedAt = now\<rparr>"

definition new_binding :: "ident \<Rightarrow> ident \<Rightarrow> ident \<Rightarrow> string \<Rightarrow> instant \<Rightarrow> provider_binding" where
  "new_binding bindingId providerId nodeId secretRef now =
     \<lparr>bind_id = bindingId, bind_providerId = providerId, bind_nodeId = nodeId, bind_secretRef = secretRef,
      bind_reachable = True, bind_state = BindingHealthy, bind_deletionPending = False, bind_lastError = None,
      bind_validatedAt = Some now, bind_createdAt = now, bind_updatedAt = now\<rparr>"

fun binding_refusal :: "binding_create_reason \<Rightarrow> app_error" where
  "binding_refusal ProviderNotFound = NotFoundError"
| "binding_refusal _ = ConflictError"

type_synonym binding_answer = "public_provider_connection \<times> provider_binding"

definition drop_secret :: "repo_op list \<times> fault \<Rightarrow> string \<Rightarrow> unit action" where
  "drop_secret c ref = called c (on_secrets (\<lambda>st. secret_delete st ref))"

text \<open>The \<^verbatim>\<open>try\<close> of \<^verbatim>\<open>createBinding\<close>: the transaction, and an answer that another attempt gave already.\<close>

definition insert_attempt ::
    "call_env \<Rightarrow> provider_connection \<Rightarrow> provider_binding \<Rightarrow> nat option \<Rightarrow> binding_answer action" where
  "insert_attempt f p b creation =
     and_then (called (f 1) (on_db (\<lambda>d. createProviderBinding d p b creation))) (\<lambda>r.
       case r of
         BindingCreated provider record \<Rightarrow> done_with (publicProvider provider, vr_value record)
       | BindingNotCreated reason provider existing \<Rightarrow>
           (case existing of
              Some x \<Rightarrow>
                if bindingMatchesAttempt (vr_value x) b provider p
                then and_then (if bind_secretRef (vr_value x) \<noteq> bind_secretRef b
                               then drop_secret (f 2) (bind_secretRef b) else done_with ())
                       (\<lambda>_. done_with (publicProvider (the provider), vr_value x))
                else and_then (drop_secret (f 2) (bind_secretRef b)) (\<lambda>_. raise (binding_refusal reason))
            | None \<Rightarrow> and_then (drop_secret (f 2) (bind_secretRef b)) (\<lambda>_. raise (binding_refusal reason))))"

text \<open>Its \<^verbatim>\<open>catch\<close>: what the repository says now decides whether the attempt took effect.\<close>

definition settle_attempt ::
    "call_env \<Rightarrow> provider_connection \<Rightarrow> provider_binding \<Rightarrow> app_error \<Rightarrow> binding_answer action" where
  "settle_attempt f p b e =
     and_then (tried (and_then (called (f 3) (read_db (\<lambda>d. getProviderBinding d (bind_id b) False))) (\<lambda>currentBinding.
                 and_then (called (f 4) (read_db (\<lambda>d. getProvider d (prov_id p)))) (\<lambda>currentProvider.
                   done_with (currentBinding, currentProvider))))) (\<lambda>answer.
       case answer of
         None \<Rightarrow> raise e
       | Some (Some x, provider) \<Rightarrow>
           if bindingMatchesAttempt x b provider p
           then and_then (if bind_secretRef x \<noteq> bind_secretRef b then drop_secret (f 5) (bind_secretRef b)
                          else done_with ())
                  (\<lambda>_. done_with (publicProvider (the provider), x))
           else and_then (if bind_secretRef x \<noteq> bind_secretRef b then drop_secret (f 5) (bind_secretRef b)
                          else done_with ()) (\<lambda>_. raise e)
       | Some (None, provider) \<Rightarrow> and_then (drop_secret (f 5) (bind_secretRef b)) (\<lambda>_. raise e))"

text \<open>\<open>creation\<close> is the revision the provider must have, or nothing when the provider is new.\<close>

definition create_binding ::
    "call_env \<Rightarrow> provider_request \<Rightarrow> provider_capability list \<Rightarrow> provider_identity outcome \<Rightarrow> ident \<Rightarrow> ident \<Rightarrow> ident \<Rightarrow>
       string \<Rightarrow> nat option \<Rightarrow> instant \<Rightarrow> bool \<Rightarrow> binding_answer action" where
  "create_binding f input capabilities login nodeId providerId bindingId nonce creation now clustered =
     (case login of
        Inl e \<Rightarrow> raise e
      | Inr x \<Rightarrow>
          if \<not> clustered then raise PlainError
          else
            let secretRef = binding_secret_ref bindingId nonce;
                p = authenticated_connection input capabilities x providerId secretRef now;
                b = new_binding bindingId providerId nodeId secretRef now
            in and_then (called (f 0) (on_secrets (\<lambda>st. secret_put st secretRef (idn_accessToken x)))) (\<lambda>_.
                 on_error (insert_attempt f p b creation) (settle_attempt f p b)))"

definition remove_binding :: "call_env \<Rightarrow> ident \<Rightarrow> bool \<Rightarrow> unit action" where
  "remove_binding f bindingId clustered =
     and_then (if clustered then called (f 0) (read_db (\<lambda>d. getProviderBinding d bindingId True)) else done_with None) (\<lambda>binding.
       case binding of
         None \<Rightarrow> raise NotFoundError
       | Some b \<Rightarrow>
           if \<not> bind_deletionPending b then raise ConflictError
           else drop_secret (f 1) (bind_secretRef b))"

end
