(* ===== verification/RelayProviderFacts.thy ===== *)
theory RelayProviderFacts
  imports RelayProviders RelayReferences
begin

text \<open>
  A visible connection has its credential, whatever call of the provider service fails or
  crashes: the invariant, what the operations of others do to it, and every handler as a run of
  calls that keep it.
\<close>

section \<open>Others\<close>

text \<open>Operations of others do not create or rewrite connections, nor create bindings.\<close>

fun plain_op :: "repo_op \<Rightarrow> bool" where
  "plain_op (CatalogOp (OpCreateProvider p)) = False"
| "plain_op (CatalogOp (OpCasProvider p e)) = False"
| "plain_op (BindingOp (OpCreateBinding p b q)) = False"
| "plain_op x = True"

definition later_provider :: "db \<Rightarrow> db \<Rightarrow> bool" where
  "later_provider d d' \<longleftrightarrow>
     (\<forall>k r'. map_of (db_providers d') k = Some r' \<longrightarrow>
        (\<exists>r. map_of (db_providers d) k = Some r \<and> row_json r' = row_json r \<and> (row_pending r \<longrightarrow> row_pending r')))"

definition same_ref :: "provider_binding \<Rightarrow> provider_binding \<Rightarrow> bool" where
  "same_ref a b \<longleftrightarrow> bind_secretRef b = bind_secretRef a"

lemma same_ref_simps [simp]:
  "same_ref b b"
  "same_ref b (storedProviderBinding b x)"
  "same_ref b ((storedProviderBinding b x)\<lparr>bind_reachable := r, bind_state := st,
     bind_deletionPending := dp, bind_lastError := le, bind_updatedAt := ua\<rparr>)"
  "same_ref b (b\<lparr>bind_reachable := r, bind_state := st,
     bind_deletionPending := dp, bind_lastError := le, bind_updatedAt := ua\<rparr>)"
  by (simp_all add: same_ref_def storedProviderBinding_def)

definition later_bindings :: "db \<Rightarrow> db \<Rightarrow> bool" where
  "later_bindings d d' \<longleftrightarrow>
     (\<forall>k r'. map_of (db_bindings d') k = Some r' \<longrightarrow>
        (\<exists>r. map_of (db_bindings d) k = Some r \<and> same_ref (row_json r) (row_json r')))"

lemma later_refl [simp]:
  "db_providers d' = db_providers d \<Longrightarrow> later_provider d d'"
  "db_bindings d' = db_bindings d \<Longrightarrow> later_bindings d d'"
  by (simp_all add: later_provider_def later_bindings_def)

lemma later_trans:
  "later_provider d d1 \<Longrightarrow> later_provider d1 d2 \<Longrightarrow> later_provider d d2"
  "later_bindings d d1 \<Longrightarrow> later_bindings d1 d2 \<Longrightarrow> later_bindings d d2"
  unfolding later_provider_def later_bindings_def same_ref_def by metis+

lemma begin_deletion_later: "later_provider d (fst (beginProviderDeletion d i))"
  by (auto simp: later_provider_def beginProviderDeletion_def getStoredProvider_def Let_def case_prod_beta
      map_of_sql_update split: option.splits if_splits)

lemma finalize_deletion_later:
  assumes "keys_unique d"
  shows "later_provider d (fst (finalizeProviderDeletion d i e))"
  using keys_uniqueD(1)[OF assms]
  by (auto simp: later_provider_def finalizeProviderDeletion_def getStoredProvider_def Let_def case_prod_beta
      map_of_sql_delete split: option.splits if_splits)

lemma deletion_bindings [simp]:
  "db_bindings (fst (beginProviderDeletion d i)) = db_bindings d"
  "db_bindings (fst (finalizeProviderDeletion d i e)) = db_bindings d"
  by (simp_all add: beginProviderDeletion_def finalizeProviderDeletion_def Let_def case_prod_beta split: option.split)

lemma plain_provider_later:
  assumes "keys_unique d" and "plain_op x"
  shows "later_provider d (exec_op x d)"
proof (cases x)
  case (CatalogOp y)
  then show ?thesis using assms begin_deletion_later finalize_deletion_later[OF assms(1)]
    by (cases y) (simp_all add: putProfile_def deleteProfile_def)
next
  case (BindingOp y)
  then show ?thesis using assms(2)
    by (cases y) (simp_all add: compareAndSetProviderBinding_def beginProviderBindingDeletion_def
        finalizeProviderBindingDeletion_def Let_def case_prod_beta split: option.split)
qed (simp_all add: frames)

lemma revoke_bindings_refs:
  "map_of (db_bindings (revoke_bindings_of d n t)) k = Some r' \<Longrightarrow>
     \<exists>r. map_of (db_bindings d) k = Some r \<and> same_ref (row_json r) (row_json r')"
  by (auto simp: revoke_bindings_of_def Let_def case_prod_beta map_of_sql_update split: if_splits)

lemma node_op_refs:
  assumes row: "map_of (db_bindings (exec_node_op x d)) k = Some r'"
  shows "\<exists>r. map_of (db_bindings d) k = Some r \<and> same_ref (row_json r) (row_json r')"
proof (cases "\<exists>u. x = OpRevokeNode u")
  case True
  then obtain u where "x = OpRevokeNode u" by blast
  then have "db_bindings (exec_node_op x d) = db_bindings d \<or>
      db_bindings (exec_node_op x d) = db_bindings (revoke_bindings_of d (rev_nodeId u) (rev_revokedAt u))"
    by (simp add: revokeNode_def revokeNodeCertificates_def revoke_bindings_of_def Let_def case_prod_beta cas_node_def
        split: option.split)
  then show ?thesis using row revoke_bindings_refs by (metis same_ref_simps(1))
next
  case False
  then have "db_bindings (exec_node_op x d) = db_bindings d"
    by (cases x) (simp_all add: createNode_def putNodeCertificate_def ensureLocalNode_def cas_node_def
      recordNodeHeartbeat_def setNodeDrain_def setNodeOperationalState_def removeNode_def
      rotateNodeCertificate_def revokeNodeCertificates_def
      Let_def case_prod_beta split: option.split write_result.split)
  then show ?thesis using row by simp
qed

lemma plain_bindings_later:
  assumes keys: "keys_unique d" and "plain_op x"
  shows "later_bindings d (exec_op x d)"
proof (cases x)
  case (BindingOp y)
  have "\<exists>r. map_of (db_bindings d) k = Some r \<and> same_ref (row_json r) (row_json r')"
    if row: "map_of (db_bindings (exec_binding_op y d)) k = Some r'" for k r'
  proof (cases y)
    case (OpCreateBinding p b q)
    then show ?thesis using assms(2) BindingOp by simp
  next
    case (OpCasBinding b e al)
    with row show ?thesis
      by (auto simp: compareAndSetProviderBinding_def Let_def case_prod_beta map_of_sql_update
          storedProviderBinding_def same_ref_def split: option.splits if_splits)
  next
    case (OpBeginBindingDeletion i t)
    with row show ?thesis
      by (auto simp: beginProviderBindingDeletion_def getStoredProviderBinding_def Let_def
          case_prod_beta map_of_sql_update split: option.splits if_splits)
  next
    case (OpFinalizeBindingDeletion i e)
    with row keys_uniqueD[OF keys] show ?thesis
      by (auto simp: finalizeProviderBindingDeletion_def getStoredProviderBinding_def Let_def
          case_prod_beta map_of_sql_delete split: option.splits if_splits)
  qed
  then show ?thesis using BindingOp by (simp add: later_bindings_def)
next
  case (NodeOp y)
  then show ?thesis using node_op_refs[of y d] by (simp add: later_bindings_def)
next
  case (CatalogOp y)
  then show ?thesis using assms(2) by (cases y) (simp_all add: putProfile_def deleteProfile_def)
qed (simp_all add: frames)

section \<open>The invariant\<close>

definition node_login_ref :: "string \<Rightarrow> bool" where
  "node_login_ref s \<longleftrightarrow> starts_with ''provider-binding:'' s"

definition own_ref :: "ident \<Rightarrow> string" where
  "own_ref i = ''provider:'' @ i"

definition refs_named :: "db \<Rightarrow> bool" where
  "refs_named d \<longleftrightarrow>
     (\<forall>k r. map_of (db_providers d) k = Some r \<longrightarrow>
        prov_id (row_json r) = k \<and> (prov_secretRef (row_json r) = own_ref k \<or> node_login_ref (prov_secretRef (row_json r)))) \<and>
     (\<forall>k r. map_of (db_bindings d) k = Some r \<longrightarrow> node_login_ref (bind_secretRef (row_json r)))"

text \<open>A visible connection with a credential of its own; a credential without a connection.\<close>

definition owed :: "db \<Rightarrow> ident \<Rightarrow> bool" where
  "owed d i \<longleftrightarrow>
     (\<exists>r. map_of (db_providers d) i = Some r \<and> \<not> row_pending r \<and> prov_authMode (row_json r) \<noteq> Delegated \<and>
          prov_secretRef (row_json r) = own_ref i)"

definition orphaned :: "ident \<Rightarrow> session_world \<Rightarrow> bool" where
  "orphaned i w \<longleftrightarrow> map_of (db_providers (sw_db w)) i = None \<and> sw_secrets w (own_ref i) \<noteq> None"

text \<open>\<open>lost\<close> are identifiers whose credential has no connection.\<close>

definition providers_ok :: "ident set \<Rightarrow> session_world \<Rightarrow> bool" where
  "providers_ok lost w \<longleftrightarrow>
     keys_unique (sw_db w) \<and> refs_named (sw_db w) \<and> (\<forall>i. owed (sw_db w) i \<longrightarrow> sw_secrets w (own_ref i) \<noteq> None) \<and>
     (\<forall>i \<in> lost. orphaned i w)"

lemma refs_differ: "node_login_ref s \<Longrightarrow> s \<noteq> own_ref i"
  by (auto simp: node_login_ref_def own_ref_def starts_with_def)

lemma own_ref_eq [simp]: "own_ref i = own_ref j \<longleftrightarrow> i = j"
  by (simp add: own_ref_def)

lemma later_named:
  assumes "refs_named d" and "later_provider d d'" and "later_bindings d d'"
  shows "refs_named d'"
  unfolding refs_named_def
proof (intro conjI allI impI)
  fix k r'
  assume "map_of (db_providers d') k = Some r'"
  then obtain r where "map_of (db_providers d) k = Some r" "row_json r' = row_json r"
    using assms(2) by (auto simp: later_provider_def)
  then show "prov_id (row_json r') = k"
    "prov_secretRef (row_json r') = own_ref k \<or> node_login_ref (prov_secretRef (row_json r'))"
    using assms(1) by (simp_all add: refs_named_def)
next
  fix k r'
  assume "map_of (db_bindings d') k = Some r'"
  then obtain r where "map_of (db_bindings d) k = Some r" "same_ref (row_json r) (row_json r')"
    using assms(3) by (auto simp: later_bindings_def)
  then show "node_login_ref (bind_secretRef (row_json r'))" using assms(1) by (simp add: refs_named_def same_ref_def)
qed

lemma later_owed:
  assumes "later_provider d d'" and "owed d' i"
  shows "owed d i"
proof -
  obtain r' where r': "map_of (db_providers d') i = Some r'" "\<not> row_pending r'" "prov_authMode (row_json r') \<noteq> Delegated"
    "prov_secretRef (row_json r') = own_ref i" using assms(2) by (auto simp: owed_def)
  then obtain r where r: "map_of (db_providers d) i = Some r" "row_json r' = row_json r" "row_pending r \<longrightarrow> row_pending r'"
    using assms(1) unfolding later_provider_def by blast
  have "\<not> row_pending r" using r(3) r'(2) by blast
  then show ?thesis unfolding owed_def using r r' by auto
qed

lemma plain_run_later:
  assumes "keys_unique d" and "\<forall>x \<in> set xs. plain_op x"
  shows "later_provider d (run_ops xs d)" "later_bindings d (run_ops xs d)"
proof -
  have "later_provider d (run_ops xs d) \<and> later_bindings d (run_ops xs d)"
    using assms
  proof (induction xs arbitrary: d)
    case (Cons x xs)
    have "later_provider d (exec_op x d)" "later_bindings d (exec_op x d)"
      using Cons.prems plain_provider_later plain_bindings_later by simp_all
    moreover have "later_provider (exec_op x d) (run_ops xs (exec_op x d)) \<and> later_bindings (exec_op x d) (run_ops xs (exec_op x d))"
      by (rule Cons.IH) (use Cons.prems keys_unique_exec in simp_all)
    ultimately show ?case unfolding run_ops.simps using later_trans by blast
  qed simp
  then show "later_provider d (run_ops xs d)" "later_bindings d (run_ops xs d)" by blast+
qed

section \<open>Calls\<close>

definition stable :: "(session_world \<Rightarrow> bool) \<Rightarrow> bool" where
  "stable P \<longleftrightarrow> (\<forall>w xs. P w \<longrightarrow> (\<forall>x \<in> set xs. plain_op x) \<longrightarrow> P (meanwhile xs w))"

definition plain_env :: "call_env \<Rightarrow> bool" where
  "plain_env f \<longleftrightarrow> (\<forall>k. \<forall>x \<in> set (fst (f k)). plain_op x)"

lemma meanwhile_simps [simp]:
  "sw_db (meanwhile xs w) = run_ops xs (sw_db w)" "sw_secrets (meanwhile xs w) = sw_secrets w"
  by (simp_all add: meanwhile_def)

lemma stable_ok: "stable (providers_ok lost)"
  unfolding stable_def
proof (intro allI impI)
  fix w xs
  assume w: "providers_ok lost w" and xs: "\<forall>x \<in> set xs. plain_op x"
  then have keys: "keys_unique (sw_db w)" by (simp add: providers_ok_def)
  note later = plain_run_later[OF keys xs]
  have "refs_named (run_ops xs (sw_db w))" by (rule later_named[OF _ later]) (use w in \<open>simp add: providers_ok_def\<close>)
  moreover have "sw_secrets w (own_ref i) \<noteq> None" if "owed (run_ops xs (sw_db w)) i" for i
  proof -
    have "owed (sw_db w) i" by (rule later_owed[OF later(1) that])
    then show ?thesis using w unfolding providers_ok_def by blast
  qed
  moreover have "orphaned i (meanwhile xs w)" if "i \<in> lost" for i
  proof -
    have "orphaned i w" using w that by (simp add: providers_ok_def)
    moreover have "map_of (db_providers (run_ops xs (sw_db w))) i = None" if "map_of (db_providers (sw_db w)) i = None"
      using later(1) that unfolding later_provider_def by (metis not_None_eq option.distinct(1))
    ultimately show ?thesis by (simp add: orphaned_def)
  qed
  ultimately show "providers_ok lost (meanwhile xs w)" using keys_unique_run[OF keys] by (simp add: providers_ok_def)
qed

lemma stable_conj: "stable P \<Longrightarrow> stable Q \<Longrightarrow> stable (\<lambda>w. P w \<and> Q w)"
  by (simp add: stable_def)

lemma stable_secrets: "stable (\<lambda>w. P (sw_secrets w))"
  by (simp add: stable_def)

text \<open>The credential of \<open>i\<close> may go: no visible connection needs it, and it is not one of the lost.\<close>

definition free_ref :: "ident set \<Rightarrow> ident \<Rightarrow> session_world \<Rightarrow> bool" where
  "free_ref lost i w \<longleftrightarrow> providers_ok lost w \<and> \<not> owed (sw_db w) i \<and> i \<notin> lost"

lemma free_ref_ok [simp, intro]: "free_ref lost i w \<Longrightarrow> providers_ok lost w"
  by (simp add: free_ref_def)

lemma stable_free: "stable (free_ref lost i)"
  unfolding stable_def
proof (intro allI impI)
  fix w xs
  assume w: "free_ref lost i w" and xs: "\<forall>x \<in> set xs. plain_op x"
  then have "providers_ok lost (meanwhile xs w)" using stable_ok by (simp add: stable_def free_ref_def)
  moreover have "keys_unique (sw_db w)" using w by (simp add: providers_ok_def free_ref_def)
  then have "\<not> owed (run_ops xs (sw_db w)) i"
    using w later_owed plain_run_later(1)[OF _ xs] unfolding free_ref_def by blast
  ultimately show "free_ref lost i (meanwhile xs w)" using w by (simp add: free_ref_def)
qed

lemma runs_called:
  assumes "stable P" and "\<forall>x \<in> set (fst c). plain_op x" and "runs P (call (snd c) m) Q E"
  shows "runs P (called c m) Q E"
  unfolding runs_def
proof (intro allI impI)
  fix w
  assume "P w"
  then have w: "P (meanwhile (fst c) w)" using assms(1,2) unfolding stable_def by blast
  then have "case call (snd c) m (meanwhile (fst c) w) of (w', Returned x) \<Rightarrow> Q x w' | (w', _) \<Rightarrow> E w'"
    by (rule assms(3)[unfolded runs_def, rule_format])
  then show "case called c m w of (w', Returned x) \<Rightarrow> Q x w' | (w', _) \<Rightarrow> E w'" by (simp only: called_def)
qed

lemma runs_tried:
  assumes "runs P m (\<lambda>x. Q (Some x)) E" and "\<And>w. E w \<Longrightarrow> Q None w"
  shows "runs P (tried m) Q E"
  unfolding tried_def
proof (rule runs_on_error[where E' = E])
  show "runs P (and_then m (\<lambda>x. done_with (Some x))) Q E"
    by (rule runs_and_then[OF assms(1)]) (auto simp: runs_def done_with_def)
  show "runs E (done_with None) Q E" for e :: app_error by (rule runs_done) (rule assms(2))
qed

text \<open>A secret that is put or dropped, and a read.\<close>

lemma put_ok: "providers_ok lost w \<Longrightarrow> providers_ok lost (w\<lparr>sw_secrets := secret_put (sw_secrets w) ref v\<rparr>)"
  by (auto simp: providers_ok_def secret_put_def orphaned_def)

lemma drop_ok:
  assumes "providers_ok lost w" and "\<And>i. owed (sw_db w) i \<or> i \<in> lost \<Longrightarrow> ref \<noteq> own_ref i"
  shows "providers_ok lost (w\<lparr>sw_secrets := secret_delete (sw_secrets w) ref\<rparr>)"
  using assms by (auto simp: providers_ok_def secret_delete_def orphaned_def)

lemma drop_free: "free_ref lost i w \<Longrightarrow> free_ref lost i (w\<lparr>sw_secrets := secret_delete (sw_secrets w) (own_ref i)\<rparr>)"
  using drop_ok[of lost w "own_ref i"] by (auto simp: free_ref_def)

lemma drop_binding: "providers_ok lost w \<Longrightarrow> node_login_ref ref \<Longrightarrow>
    providers_ok lost (w\<lparr>sw_secrets := secret_delete (sw_secrets w) ref\<rparr>)"
  by (rule drop_ok) (simp_all add: refs_differ)

lemma runs_called_read:
  assumes "stable P" and "\<forall>x \<in> set (fst c). plain_op x" and "\<And>w. P w \<Longrightarrow> Q (g (sw_db w)) w" and "\<And>w. P w \<Longrightarrow> E w"
  shows "runs P (called c (read_db g)) Q E"
  by (rule runs_called[OF assms(1,2)], rule runs_call) (use assms(3,4) in \<open>auto simp: read_db_def on_db_def\<close>)

lemma runs_secret:
  assumes "stable P" and "\<forall>x \<in> set (fst c). plain_op x" and "\<And>w. P w \<Longrightarrow> Q () (w\<lparr>sw_secrets := g (sw_secrets w)\<rparr>)"
    and "\<And>w. P w \<Longrightarrow> E w" and "\<And>w. P w \<Longrightarrow> E (w\<lparr>sw_secrets := g (sw_secrets w)\<rparr>)"
  shows "runs P (called c (on_secrets g)) Q E"
  by (rule runs_called[OF assms(1,2)], rule runs_call) (use assms(3-5) in \<open>auto simp: on_secrets_def\<close>)

lemma runs_write:
  assumes "stable P" and "\<forall>x \<in> set (fst c). plain_op x"
    and "\<And>w x. P w \<Longrightarrow> snd (g (sw_db w)) = Inr x \<Longrightarrow> Q x (w\<lparr>sw_db := fst (g (sw_db w))\<rparr>)"
    and "\<And>w. P w \<Longrightarrow> E w" and "\<And>w. P w \<Longrightarrow> E (w\<lparr>sw_db := fst (g (sw_db w))\<rparr>)"
  shows "runs P (called c (on_db g)) Q E"
  by (rule runs_called[OF assms(1,2)], rule runs_call)
    (use assms(3-5) in \<open>auto simp: on_db_def case_prod_beta\<close>)

section \<open>Creation\<close>

definition ready :: "ident set \<Rightarrow> provider_connection \<Rightarrow> session_world \<Rightarrow> bool" where
  "ready lost c w \<longleftrightarrow> providers_ok lost w \<and> (prov_authMode c = Delegated \<or> sw_secrets w (own_ref (prov_id c)) \<noteq> None)"

lemma stable_ready: "stable (ready lost c)"
  using stable_conj[OF stable_ok[of lost] stable_secrets[of "\<lambda>s. prov_authMode c = Delegated \<or> s (own_ref (prov_id c)) \<noteq> None"]]
  by (simp add: ready_def [abs_def])

lemma create_provider_ok:
  assumes "ready lost c w" and "prov_secretRef c = own_ref (prov_id c)" and "prov_id c \<notin> lost"
  shows "ready lost c (w\<lparr>sw_db := fst (createProvider (sw_db w) c)\<rparr>)"
proof (cases "map_of (db_providers (sw_db w)) (prov_id c)")
  case (Some r)
  then show ?thesis using assms(1) by (simp add: createProvider_def sql_insert_def)
next
  case None
  let ?d = "fst (createProvider (sw_db w) c)"
  have d: "db_providers ?d = db_providers (sw_db w) @ [(prov_id c, fresh_row c (prov_updatedAt c))]"
    "db_bindings ?d = db_bindings (sw_db w)" using None by (simp_all add: createProvider_def sql_insert_def)
  have ok: "keys_unique (sw_db w)" "refs_named (sw_db w)" "\<And>i. owed (sw_db w) i \<Longrightarrow> sw_secrets w (own_ref i) \<noteq> None"
    using assms(1) by (simp_all add: ready_def providers_ok_def)
  have "keys_unique ?d" using keys_unique_exec[OF ok(1), of "CatalogOp (OpCreateProvider c)"] by simp
  moreover have "refs_named ?d" using ok(2) assms(2) None
    by (auto simp: refs_named_def d map_of_snoc fresh_row_def split: if_splits)
  moreover have "sw_secrets w (own_ref i) \<noteq> None" if o: "owed ?d i" for i
  proof (cases "i = prov_id c")
    case True
    then show ?thesis using o assms(1) None by (auto simp: owed_def d map_of_snoc fresh_row_def ready_def)
  next
    case False
    then have "owed (sw_db w) i" using o by (auto simp: owed_def d map_of_snoc split: if_splits)
    then show ?thesis by (rule ok(3))
  qed
  moreover have "orphaned i (w\<lparr>sw_db := ?d\<rparr>)" if "i \<in> lost" for i
    using assms(1,3) that by (auto simp: ready_def providers_ok_def orphaned_def d map_of_snoc)
  ultimately show ?thesis using assms(1) by (simp add: ready_def providers_ok_def)
qed

lemma not_owed:
  "getProvider d i = None \<Longrightarrow> \<not> owed d i"
  "getProvider d i = Some p \<Longrightarrow> prov_secretRef p \<noteq> own_ref i \<Longrightarrow> \<not> owed d i"
  by (auto simp: owed_def getProvider_def getStoredProvider_def)

lemma runs_keeps: "(\<And>w. P w \<Longrightarrow> P' w) \<Longrightarrow> runs P' m Q E \<Longrightarrow> runs P m Q E"
  by (simp add: runs_def)

abbreviation keeps_ok :: "ident set \<Rightarrow> 'a action \<Rightarrow> bool" where
  "keeps_ok lost m \<equiv> runs (providers_ok lost) m (\<lambda>_. providers_ok lost) (providers_ok lost)"

lemma runs_free: "runs (free_ref lost i) m (\<lambda>_. free_ref lost i) (free_ref lost i) \<Longrightarrow> runs (free_ref lost i) m (\<lambda>_. providers_ok lost) (providers_ok lost)"
  by (erule runs_weaken) auto

lemma drop_staged_ok:
  assumes "plain_env f" and "ref = own_ref i"
  shows "runs (free_ref lost i) (drop_staged (f k) identity ref) (\<lambda>_. free_ref lost i) (free_ref lost i)"
proof (cases "identity = None")
  case True
  then show ?thesis by (simp add: drop_staged_def runs_def done_with_def)
next
  case False
  have "runs (free_ref lost i) (called (f k) (on_secrets (\<lambda>st. secret_delete st ref))) (\<lambda>_. free_ref lost i) (free_ref lost i)"
    by (rule runs_secret[OF stable_free]) (use assms drop_free in \<open>auto simp: plain_env_def\<close>)
  then show ?thesis unfolding drop_staged_def if_not_P[OF False] .
qed

lemma drop_and_raise:
  assumes "runs P m (\<lambda>_. E) E"
  shows "runs P (and_then m (\<lambda>_. raise e)) Q E"
  by (rule runs_and_then[OF assms]) (rule runs_raise)

lemma runs_if:
  assumes "b \<Longrightarrow> runs P m Q E" and "\<not> b \<Longrightarrow> runs P m' Q E"
  shows "runs P (if b then m else m') Q E"
  using assms by (cases b) simp_all

lemma create_settles:
  assumes env: "plain_env f" and c: "prov_secretRef c = own_ref (prov_id c)" "prov_id c \<notin> lost"
  shows "runs (ready lost c) (settle_creation f c identity e) (\<lambda>_. providers_ok lost) (providers_ok lost)"
  unfolding settle_creation_def
proof (rule runs_and_then)
  let ?i = "prov_id c"
  let ?Q = "\<lambda>answer w. providers_ok lost w \<and> (case answer of
      None \<Rightarrow> True
    | Some current \<Rightarrow> (case current of None \<Rightarrow> \<not> owed (sw_db w) ?i
        | Some p \<Rightarrow> prov_secretRef p \<noteq> own_ref ?i \<longrightarrow> \<not> owed (sw_db w) ?i))"
  show "runs (ready lost c) (tried (called (f 2) (read_db (\<lambda>d. getProvider d ?i)))) ?Q (providers_ok lost)"
  proof (rule runs_tried)
    show "runs (ready lost c) (called (f 2) (read_db (\<lambda>d. getProvider d ?i))) (\<lambda>x. ?Q (Some x)) (providers_ok lost)"
      by (rule runs_called_read[OF stable_ready])
        (use env in \<open>auto simp: plain_env_def ready_def split: option.split dest: not_owed\<close>)
  qed simp
  have drop: "runs P (and_then (drop_staged (f 3) identity (prov_secretRef c)) (\<lambda>_. raise e)) (\<lambda>_. providers_ok lost) (providers_ok lost)"
    if "\<And>w. P w \<Longrightarrow> free_ref lost ?i w" for P
    by (rule runs_keeps[OF that], assumption, rule drop_and_raise) (rule runs_free[OF drop_staged_ok[OF env c(1)]])
  show "runs (?Q answer) (case answer of
         None \<Rightarrow> raise e
       | Some None \<Rightarrow> and_then (drop_staged (f 3) identity (prov_secretRef c)) (\<lambda>_. raise e)
       | Some (Some p) \<Rightarrow>
           if prov_secretRef p = prov_secretRef c then done_with (publicProvider p)
           else and_then (drop_staged (f 3) identity (prov_secretRef c)) (\<lambda>_. raise e)) (\<lambda>_. providers_ok lost) (providers_ok lost)" for answer
  proof (cases answer)
    case None
    then show ?thesis by (simp add: runs_def raise_def)
  next
    case (Some current)
    show ?thesis
    proof (cases current)
      case None
      show ?thesis unfolding Some None option.case by (rule drop) (use c in \<open>simp add: free_ref_def\<close>)
    next
      case p: (Some p)
      show ?thesis unfolding Some p option.case
      proof (rule runs_if)
        show "runs (\<lambda>w. providers_ok lost w \<and> (prov_secretRef p \<noteq> own_ref ?i \<longrightarrow> \<not> owed (sw_db w) ?i))
            (done_with (publicProvider p)) (\<lambda>_. providers_ok lost) (providers_ok lost)" by (simp add: runs_def done_with_def)
      next
        assume "prov_secretRef p \<noteq> prov_secretRef c"
        then show "runs (\<lambda>w. providers_ok lost w \<and> (prov_secretRef p \<noteq> own_ref ?i \<longrightarrow> \<not> owed (sw_db w) ?i))
            (and_then (drop_staged (f 3) identity (prov_secretRef c)) (\<lambda>_. raise e)) (\<lambda>_. providers_ok lost) (providers_ok lost)"
          by (intro drop) (use c in \<open>simp add: free_ref_def\<close>)
      qed
    qed
  qed
qed

lemma create_connection_keeps:
  assumes env: "plain_env f" and "i \<notin> lost"
  shows "keeps_ok lost (create_connection f input capabilities login i now)"
proof (cases "if pq_authMode input = Delegated then resolve None else map_sum id Some login")
  case (Inl e)
  then show ?thesis by (simp add: create_connection_def runs_raise)
next
  case (Inr identity)
  let ?c = "new_connection input capabilities identity i now"
  have c: "prov_id ?c = i" "prov_secretRef ?c = own_ref (prov_id ?c)" by (simp_all add: new_connection_def own_ref_def)
  have put: "runs (providers_ok lost) (case identity of None \<Rightarrow> done_with ()
      | Some x \<Rightarrow> called (f 0) (on_secrets (\<lambda>st. secret_put st (prov_secretRef ?c) (idn_accessToken x))))
      (\<lambda>_. ready lost ?c) (providers_ok lost)"
  proof (cases identity)
    case None
    then have "prov_authMode ?c = Delegated" using Inr
      by (auto simp: new_connection_def split: if_splits) (cases login; simp)+
    then show ?thesis using None by (auto simp: ready_def intro!: runs_done)
  next
    case (Some x)
    have "runs (providers_ok lost) (called (f 0) (on_secrets (\<lambda>st. secret_put st (prov_secretRef ?c) (idn_accessToken x))))
        (\<lambda>_. ready lost ?c) (providers_ok lost)"
      by (rule runs_secret[OF stable_ok])
        (use env c put_ok in \<open>auto simp: plain_env_def ready_def secret_put_def\<close>)
    then show ?thesis using Some by simp
  qed
  have insert: "runs (ready lost ?c) (and_then (called (f 1) (on_db (\<lambda>d. createProvider d ?c))) (\<lambda>_. done_with (publicProvider ?c)))
      (\<lambda>_. providers_ok lost) (ready lost ?c)"
  proof (rule runs_and_then)
    show "runs (ready lost ?c) (called (f 1) (on_db (\<lambda>d. createProvider d ?c))) (\<lambda>_. ready lost ?c) (ready lost ?c)"
      by (rule runs_write[OF stable_ready])
        (use assms c create_provider_ok[of lost ?c] in \<open>auto simp: plain_env_def\<close>)
    show "runs (ready lost ?c) (done_with (publicProvider ?c)) (\<lambda>_. providers_ok lost) (ready lost ?c)"
      for x :: "provider_connection versioned" by (rule runs_done) (simp add: ready_def)
  qed
  show ?thesis
    unfolding create_connection_def Inr sum.case Let_def
  proof (rule runs_and_then[OF put])
    show "runs (ready lost ?c) (on_error
        (and_then (called (f 1) (on_db (\<lambda>d. createProvider d ?c))) (\<lambda>_. done_with (publicProvider ?c)))
        (settle_creation f ?c identity)) (\<lambda>_. providers_ok lost) (providers_ok lost)" for x :: unit
      by (rule runs_on_error[OF insert create_settles[OF env c(2)]]) (use assms c(1) in \<open>auto simp: ready_def\<close>)
  qed
qed

end
