(* ===== verification/RelayProviderHistory.thy ===== *)
theory RelayProviderHistory
  imports RelayProviderFacts
begin

text \<open>
  The other handlers of the provider service keep the invariant: deletion, health, bindings; the
  histories of a service, and what a deletion achieves.
\<close>

section \<open>Deletion\<close>

lemma providers_ok_later:
  assumes w: "providers_ok lost w" and d: "keys_unique d" "later_provider (sw_db w) d" "later_bindings (sw_db w) d"
  shows "providers_ok lost (w\<lparr>sw_db := d\<rparr>)"
proof -
  have "refs_named d" by (rule later_named[OF _ d(2,3)]) (use w in \<open>simp add: providers_ok_def\<close>)
  moreover have "sw_secrets w (own_ref i) \<noteq> None" if "owed d i" for i
    using later_owed[OF d(2) that] w unfolding providers_ok_def by blast
  moreover have "orphaned i (w\<lparr>sw_db := d\<rparr>)" if "i \<in> lost" for i
  proof -
    have "orphaned i w" using w that by (simp add: providers_ok_def)
    moreover have "map_of (db_providers d) i = None" if "map_of (db_providers (sw_db w)) i = None"
      using d(2) that unfolding later_provider_def by (metis not_None_eq option.distinct(1))
    ultimately show ?thesis by (simp add: orphaned_def)
  qed
  ultimately show ?thesis using d(1) by (simp add: providers_ok_def)
qed

lemma named_row:
  assumes "providers_ok lost w" and "map_of (db_providers (sw_db w)) i = Some r"
  shows "prov_id (row_json r) = i" "prov_secretRef (row_json r) = own_ref i \<or> node_login_ref (prov_secretRef (row_json r))"
    "i \<notin> lost"
  using assms by (auto simp: providers_ok_def refs_named_def orphaned_def)

lemma begin_deletion_keys: "keys_unique d \<Longrightarrow> keys_unique (fst (beginProviderDeletion d i))"
  using keys_unique_exec[of d "CatalogOp (OpBeginProviderDeletion i)"] by simp

lemma finalize_deletion_keys: "keys_unique d \<Longrightarrow> keys_unique (fst (finalizeProviderDeletion d i e))"
  using keys_unique_exec[of d "CatalogOp (OpFinalizeProviderDeletion i e)"] by simp

lemma begin_ok: "providers_ok lost w \<Longrightarrow> providers_ok lost (w\<lparr>sw_db := fst (beginProviderDeletion (sw_db w) i)\<rparr>)"
  by (rule providers_ok_later) (auto simp: providers_ok_def begin_deletion_later intro: begin_deletion_keys)

lemma finalize_ok: "providers_ok lost w \<Longrightarrow> providers_ok lost (w\<lparr>sw_db := fst (finalizeProviderDeletion (sw_db w) i e)\<rparr>)"
  by (rule providers_ok_later) (auto simp: providers_ok_def intro: finalize_deletion_later finalize_deletion_keys)

lemma begun_row:
  assumes "snd (beginProviderDeletion d i) = resolve (Applied c)"
  shows "\<exists>r. map_of (db_providers (fst (beginProviderDeletion d i))) i = Some r \<and> row_pending r \<and>
           row_json r = vr_value c \<and> row_revision r = vr_revision c"
  using assms
  by (auto simp: beginProviderDeletion_def getStoredProvider_def Let_def case_prod_beta map_of_sql_update
      split: option.splits if_splits)

text \<open>What a deletion that has begun knows: the row is marked, or gone already.\<close>

definition marked_for_deletion :: "ident set \<Rightarrow> ident \<Rightarrow> provider_connection \<Rightarrow> session_world \<Rightarrow> bool" where
  "marked_for_deletion lost i p w \<longleftrightarrow>
     free_ref lost i w \<and> (prov_secretRef p = own_ref i \<or> node_login_ref (prov_secretRef p))"

lemma stable_begun: "stable (marked_for_deletion lost i p)"
  using stable_free[of lost i] unfolding stable_def marked_for_deletion_def by blast

lemma begin_keeps:
  assumes env: "plain_env f"
  shows "runs (providers_ok lost) (begin_deletion f k n i)
     (\<lambda>r w. case r of None \<Rightarrow> providers_ok lost w | Some c \<Rightarrow> marked_for_deletion lost i (vr_value c) w) (providers_ok lost)"
proof (induction n arbitrary: k)
  case 0
  show ?case by (simp add: runs_raise)
next
  case (Suc n)
  let ?Q = "\<lambda>r w. providers_ok lost w \<and> (\<forall>c. r = Applied c \<longrightarrow> marked_for_deletion lost i (vr_value c) w)"
  have applied: "marked_for_deletion lost i (vr_value c) (w\<lparr>sw_db := fst (beginProviderDeletion (sw_db w) i)\<rparr>)"
    if w: "providers_ok lost w" and c: "snd (beginProviderDeletion (sw_db w) i) = resolve (Applied c)" for w c
  proof -
    have ok: "providers_ok lost (w\<lparr>sw_db := fst (beginProviderDeletion (sw_db w) i)\<rparr>)" by (rule begin_ok[OF w])
    obtain r where r: "map_of (db_providers (fst (beginProviderDeletion (sw_db w) i))) i = Some r" "row_pending r"
      "row_json r = vr_value c" using begun_row[OF c] by blast
    then have "\<not> owed (fst (beginProviderDeletion (sw_db w) i)) i" by (auto simp: owed_def)
    moreover have "i \<notin> lost" "prov_secretRef (vr_value c) = own_ref i \<or> node_login_ref (prov_secretRef (vr_value c))"
      using named_row[OF ok, of i r] r by simp_all
    ultimately show ?thesis using ok by (simp add: marked_for_deletion_def free_ref_def)
  qed
  have step: "runs (providers_ok lost) (called (f k) (on_db (\<lambda>d. beginProviderDeletion d i))) ?Q (providers_ok lost)"
    by (rule runs_write[OF stable_ok]) (use env applied begin_ok in \<open>auto simp: plain_env_def\<close>)
  show ?case unfolding begin_deletion.simps
  proof (rule runs_and_then[OF step])
    show "runs (?Q r) (case r of Applied record \<Rightarrow> done_with (Some record)
       | Rejected reason _ _ \<Rightarrow>
           (case reason of
              NotFound \<Rightarrow> done_with None
            | DependencyConflict \<Rightarrow> raise ConflictError
            | InvalidState \<Rightarrow> raise ConflictError
            | RevisionConflict \<Rightarrow> begin_deletion f (Suc k) n i))
        (\<lambda>r w. case r of None \<Rightarrow> providers_ok lost w | Some c \<Rightarrow> marked_for_deletion lost i (vr_value c) w) (providers_ok lost)" for r
    proof (cases r)
      case (Applied c)
      then show ?thesis by (auto simp: runs_def done_with_def marked_for_deletion_def)
    next
      case (Rejected reason x deps)
      then show ?thesis using runs_pre[OF Suc.IH[of "Suc k"]] by (cases reason) (auto simp: runs_def done_with_def raise_def)
    qed
  qed
qed

lemma try_keeps:
  assumes "\<forall>x \<in> set (fst c). plain_op x"
  shows "keeps_ok lost (try_finalize c i e)"
  unfolding try_finalize_def
proof (rule runs_on_error)
  have step: "keeps_ok lost (called c (on_db (\<lambda>d. finalizeProviderDeletion d i e)))"
    by (rule runs_write[OF stable_ok assms]) (auto intro: finalize_ok)
  show "keeps_ok lost (and_then (called c (on_db (\<lambda>d. finalizeProviderDeletion d i e))) (\<lambda>r.
          case r of Deleted _ \<Rightarrow> done_with True
          | NotDeleted reason _ _ \<Rightarrow>
              if reason = NotFound then done_with True
              else if reason = DependencyConflict then raise ConflictError
              else done_with False))"
    by (rule runs_and_then[OF step]) (auto simp: runs_def done_with_def raise_def split: delete_result.split)
  show "keeps_ok lost (if e = ConflictError then raise e else done_with False)" for e
    by (simp add: runs_def done_with_def raise_def)
qed

lemma runs_optional:
  assumes "runs P m Q E" and "runs P k Q E"
  shows "runs P (if b then k else m) Q E"
  using assms by (cases b) simp_all

lemma finalize_deletion_keeps:
  assumes "\<And>j. plain_env (f j)"
  shows "keeps_ok lost (finalize_deletion f j n i e)"
proof (induction n arbitrary: j e)
  case 0
  show ?case by (simp add: runs_raise)
next
  case (Suc n)
  have first: "\<forall>x \<in> set (fst (f j 0)). plain_op x" using assms[of j] by (simp add: plain_env_def)
  show ?case unfolding finalize_deletion.simps
  proof (rule runs_and_then[OF try_keeps[OF first]], rule runs_optional)
    show "keeps_ok lost (done_with ())" by (rule runs_done)
    show "keeps_ok lost (and_then (begin_deletion (f j) 1 MAX_PROVIDER_WRITE_ATTEMPTS i) (\<lambda>pending.
         case pending of None \<Rightarrow> done_with () | Some p \<Rightarrow> finalize_deletion f (Suc j) n i (vr_revision p)))"
    proof (rule runs_and_then[OF begin_keeps[OF assms]])
      show "runs (\<lambda>w. case pending of None \<Rightarrow> providers_ok lost w | Some c \<Rightarrow> marked_for_deletion lost i (vr_value c) w)
          (case pending of None \<Rightarrow> done_with () | Some p \<Rightarrow> finalize_deletion f (Suc j) n i (vr_revision p))
          (\<lambda>_. providers_ok lost) (providers_ok lost)" for pending
      proof (cases pending)
        case None
        then show ?thesis by (simp add: runs_def done_with_def)
      next
        case (Some p)
        then show ?thesis unfolding Some option.case by (intro runs_pre[OF Suc.IH[of "Suc j" "vr_revision p"]]) (simp add: marked_for_deletion_def free_ref_def)
      qed
    qed
  qed
qed

lemma drop_secret_keeps:
  assumes "plain_env f" and "node_login_ref ref"
  shows "keeps_ok lost (drop_secret (f k) ref)"
  unfolding drop_secret_def
  by (rule runs_secret[OF stable_ok]) (use assms drop_binding in \<open>auto simp: plain_env_def\<close>)

lemma delete_keeps:
  assumes env: "\<And>j. plain_env (f j)"
  shows "keeps_ok lost (delete_connection f i)"
  unfolding delete_connection_def
proof (rule runs_and_then[OF begin_keeps[OF env]])
  show "runs (\<lambda>w. case deleting of None \<Rightarrow> providers_ok lost w | Some c \<Rightarrow> marked_for_deletion lost i (vr_value c) w)
      (case deleting of None \<Rightarrow> done_with ()
       | Some c \<Rightarrow>
           and_then (called (f 1 0) (on_secrets (\<lambda>st. secret_delete st (prov_secretRef (vr_value c))))) (\<lambda>_.
             finalize_deletion f 2 MAX_PROVIDER_WRITE_ATTEMPTS i (vr_revision c)))
      (\<lambda>_. providers_ok lost) (providers_ok lost)" for deleting
  proof (cases deleting)
    case None
    then show ?thesis by (simp add: runs_def done_with_def)
  next
    case (Some c)
    have dropped: "providers_ok lost (w\<lparr>sw_secrets := secret_delete (sw_secrets w) (prov_secretRef (vr_value c))\<rparr>)"
      if "marked_for_deletion lost i (vr_value c) w" for w
      using that drop_free[of lost i w] drop_binding[of lost w] by (auto simp: marked_for_deletion_def)
    have "runs (marked_for_deletion lost i (vr_value c))
        (called (f 1 0) (on_secrets (\<lambda>st. secret_delete st (prov_secretRef (vr_value c)))))
        (\<lambda>_. providers_ok lost) (providers_ok lost)"
      by (rule runs_secret[OF stable_begun]) (use env[of 1] dropped in \<open>auto simp: plain_env_def marked_for_deletion_def\<close>)
    then show ?thesis unfolding Some option.case by (rule runs_and_then) (rule finalize_deletion_keeps[OF env])
  qed
qed

section \<open>Health\<close>

text \<open>The row, if it is still there, is the connection that was read.\<close>

definition as_read :: "ident set \<Rightarrow> ident \<Rightarrow> provider_connection \<Rightarrow> session_world \<Rightarrow> bool" where
  "as_read lost i p w \<longleftrightarrow>
     providers_ok lost w \<and> prov_id p = i \<and> (\<forall>r. map_of (db_providers (sw_db w)) i = Some r \<longrightarrow> row_json r = p)"

lemma stable_as_read: "stable (as_read lost i p)"
  unfolding stable_def
proof (intro allI impI)
  fix w xs
  assume w: "as_read lost i p w" and xs: "\<forall>x \<in> set xs. plain_op x"
  then have "providers_ok lost (meanwhile xs w)" using stable_ok[of lost] by (simp add: stable_def as_read_def)
  moreover have "keys_unique (sw_db w)" using w by (simp add: providers_ok_def as_read_def)
  then have "row_json r = p" if "map_of (db_providers (run_ops xs (sw_db w))) i = Some r" for r
    using w that plain_run_later(1)[OF _ xs] unfolding later_provider_def as_read_def by metis
  ultimately show "as_read lost i p (meanwhile xs w)" using w by (simp add: as_read_def)
qed

lemma cas_health_ok:
  assumes w: "as_read lost i p w"
  shows "providers_ok lost (w\<lparr>sw_db := fst (compareAndSetProvider (sw_db w) (p\<lparr>prov_healthy := h, prov_updatedAt := t\<rparr>) e)\<rparr>)"
proof -
  let ?p = "p\<lparr>prov_healthy := h, prov_updatedAt := t\<rparr>"
  let ?d = "fst (compareAndSetProvider (sw_db w) ?p e)"
  have rows: "map_of (db_providers ?d) k = map_option (\<lambda>r. if k = i \<and> row_revision r = e \<and> \<not> row_pending r
      then bump_row ?p t r else r) (map_of (db_providers (sw_db w)) k)" "db_bindings ?d = db_bindings (sw_db w)" for k
    using w by (simp_all add: as_read_def compareAndSetProvider_def Let_def case_prod_beta map_of_sql_update)
  have ok: "providers_ok lost w" "prov_id p = i" "\<And>r. map_of (db_providers (sw_db w)) i = Some r \<Longrightarrow> row_json r = p"
    using w by (simp_all add: as_read_def)
  have "keys_unique ?d"
    using keys_unique_exec[of "sw_db w" "CatalogOp (OpCasProvider ?p e)"] ok(1) by (simp add: providers_ok_def)
  moreover have "prov_id (row_json r') = k \<and> (prov_secretRef (row_json r') = own_ref k \<or> node_login_ref (prov_secretRef (row_json r')))"
    if r': "map_of (db_providers ?d) k = Some r'" for k r'
  proof -
    obtain r where r: "map_of (db_providers (sw_db w)) k = Some r"
      "r' = (if k = i \<and> row_revision r = e \<and> \<not> row_pending r then bump_row ?p t r else r)"
      using r' by (auto simp: rows)
    note n = named_row(1,2)[OF ok(1) r(1)]
    show ?thesis
    proof (cases "k = i")
      case True
      with r(1) have "row_json r = p" using ok(3) by simp
      then show ?thesis using n r(2) True by (simp add: bump_row_def)
    qed (use n r(2) in simp)
  qed
  then have "refs_named ?d"
    using ok(1) by (simp add: refs_named_def rows(2) providers_ok_def)
  moreover have "sw_secrets w (own_ref j) \<noteq> None" if "owed ?d j" for j
  proof -
    have "owed (sw_db w) j" using that ok(3) by (auto simp: owed_def rows bump_row_def split: if_splits)
    then show ?thesis using ok(1) unfolding providers_ok_def by blast
  qed
  moreover have "orphaned j (w\<lparr>sw_db := ?d\<rparr>)" if "j \<in> lost" for j
    using ok(1) that by (simp add: providers_ok_def orphaned_def rows)
  ultimately show ?thesis by (simp add: providers_ok_def)
qed

lemma versioned_provider_row:
  "getVersionedProvider d i = Some c \<Longrightarrow> \<exists>r. map_of (db_providers d) i = Some r \<and> row_json r = vr_value c"
  by (auto simp: getVersionedProvider_def getStoredProvider_def split: option.splits if_splits)

lemma health_keeps:
  assumes env: "plain_env f"
  shows "keeps_ok lost (mark_healthy f clock k n i)"
proof (induction n arbitrary: k)
  case 0
  show ?case by (simp add: runs_raise)
next
  case (Suc n)
  let ?Q = "\<lambda>current w. providers_ok lost w \<and> (\<forall>c. current = Some c \<longrightarrow> as_read lost i (vr_value c) w)"
  have found: "as_read lost i (vr_value c) w"
    if w: "providers_ok lost w" and c: "getVersionedProvider (sw_db w) i = Some c" for w c
  proof -
    obtain r where r: "map_of (db_providers (sw_db w)) i = Some r" "row_json r = vr_value c"
      using versioned_provider_row[OF c] by blast
    then show ?thesis using w named_row(1)[OF w r(1)] by (simp add: as_read_def)
  qed
  have read: "runs (providers_ok lost) (called (f (2 * k)) (read_db (\<lambda>d. getVersionedProvider d i))) ?Q (providers_ok lost)"
    by (rule runs_called_read[OF stable_ok]) (use env found in \<open>auto simp: plain_env_def\<close>)
  show ?case unfolding mark_healthy.simps
  proof (rule runs_and_then[OF read])
    fix current
    let ?next = "\<lambda>c. and_then (called (f (2 * k + 1)) (on_db (\<lambda>d. apsnd resolve (compareAndSetProvider d
             ((vr_value c)\<lparr>prov_healthy := True, prov_updatedAt := clock k\<rparr>) (vr_revision c))))) (\<lambda>r.
             case r of
               Applied _ \<Rightarrow> done_with ()
             | Rejected reason _ _ \<Rightarrow>
                 if reason = NotFound then raise NotFoundError
                 else if reason = InvalidState then raise ConflictError
                 else mark_healthy f clock (Suc k) n i)"
    show "runs (?Q current) (case current of None \<Rightarrow> raise NotFoundError | Some c \<Rightarrow> ?next c)
        (\<lambda>_. providers_ok lost) (providers_ok lost)"
    proof (cases current)
      case None
      then show ?thesis by (simp add: runs_def raise_def)
    next
      case (Some c)
      have cas: "runs (as_read lost i (vr_value c)) (called (f (2 * k + 1)) (on_db (\<lambda>d. apsnd resolve (compareAndSetProvider d
             ((vr_value c)\<lparr>prov_healthy := True, prov_updatedAt := clock k\<rparr>) (vr_revision c))))) (\<lambda>_. providers_ok lost)
             (providers_ok lost)"
        by (rule runs_write[OF stable_as_read])
          (use env cas_health_ok in \<open>auto simp: plain_env_def as_read_def\<close>)
      have "runs (as_read lost i (vr_value c)) (?next c) (\<lambda>_. providers_ok lost) (providers_ok lost)"
      proof (rule runs_and_then[OF cas])
        show "keeps_ok lost (case r of Applied _ \<Rightarrow> done_with ()
             | Rejected reason _ _ \<Rightarrow>
                 if reason = NotFound then raise NotFoundError
                 else if reason = InvalidState then raise ConflictError
                 else mark_healthy f clock (Suc k) n i)" for r :: "provider_connection write_result"
          using Suc.IH[of "Suc k"] by (cases r) (simp_all add: runs_raise runs_done)
      qed
      then show ?thesis unfolding Some option.case by (rule runs_pre) simp
    qed
  qed
qed

section \<open>Bindings\<close>

definition same_login :: "provider_connection \<Rightarrow> provider_connection \<Rightarrow> bool" where
  "same_login p q \<longleftrightarrow> prov_id q = prov_id p \<and> prov_secretRef q = prov_secretRef p \<and> prov_authMode q = prov_authMode p"

lemma same_login_simps [simp]: "same_login p p" "same_login p (mergeProviderMetadata p q)"
  by (simp_all add: same_login_def mergeProviderMetadata_def)

lemma insert_binding_rows:
  "db_providers (fst (insert_binding d0 d p b)) \<in> {db_providers d0, db_providers d}"
  "map_of (db_bindings (fst (insert_binding d0 d p b))) k = Some r' \<Longrightarrow>
     map_of (db_bindings d0) k = Some r' \<or> map_of (db_bindings d) k = Some r' \<or> same_ref b (row_json r')"
  by (auto simp: insert_binding_def Let_def sql_insert_def map_of_snoc fresh_row_def split: option.splits if_splits)

lemma created_binding_providers:
  assumes "map_of (db_providers (fst (createProviderBinding d p b e))) k = Some r'"
  shows "(\<exists>r. map_of (db_providers d) k = Some r \<and> (r' = r \<or>
            (\<not> row_pending r \<and> \<not> row_pending r' \<and>
             (\<exists>ep. map_of (db_providers d) (prov_id p) = Some ep \<and> k = prov_id (row_json ep) \<and> same_login (row_json ep) (row_json r'))))) \<or>
         (map_of (db_providers d) k = None \<and> k = prov_id p \<and> row_json r' = p)"
proof -
  let ?d = "fst (createProviderBinding d p b e)"
  consider (same) "db_providers ?d = db_providers d"
    | (new) t where "map_of (db_providers d) (prov_id p) = None" "db_providers ?d = db_providers d @ [(prov_id p, fresh_row p t)]"
    | (merged) ep sp x t where "map_of (db_providers d) (prov_id p) = Some ep" "sp = mergeProviderMetadata (row_json ep) p"
        "db_providers ?d = fst (sql_update (db_providers d) (\<lambda>k r. k = prov_id sp \<and> row_revision r = x \<and> \<not> row_pending r) (bump_row sp t))"
  proof (cases "map_of (db_providers d) (prov_id p)")
    case None
    then have "db_providers ?d = db_providers d \<or> db_providers ?d = db_providers d @ [(prov_id p, fresh_row p (prov_updatedAt p))]"
      using insert_binding_rows(1)[of d "d\<lparr>db_providers := db_providers d @ [(prov_id p, fresh_row p (prov_updatedAt p))]\<rparr>" p b]
      by (auto simp: createProviderBinding_def getStoredProvider_def sql_insert_def split: option.split)
    then show ?thesis using new[OF None] same by blast
  next
    case (Some ep)
    let ?sp = "mergeProviderMetadata (row_json ep) p"
    let ?t = "\<lambda>x. fst (sql_update (db_providers d) (\<lambda>k r. k = prov_id ?sp \<and> row_revision r = x \<and> \<not> row_pending r)
       (bump_row ?sp (prov_updatedAt ?sp)))"
    have "db_providers ?d = db_providers d \<or> (\<exists>x. db_providers ?d = ?t x)"
    proof (cases e)
      case None
      then show ?thesis using Some
        by (simp add: createProviderBinding_def getStoredProvider_def split: option.split)
    next
      case e: (Some x)
      then show ?thesis using Some insert_binding_rows(1)[of d "d\<lparr>db_providers := ?t x\<rparr>" ?sp b]
        by (auto simp: createProviderBinding_def getStoredProvider_def Let_def case_prod_beta split: option.split)
    qed
    then show ?thesis using merged[OF Some refl] same by blast
  qed
  then show ?thesis
  proof cases
    case same
    then show ?thesis using assms by simp
  next
    case new
    then show ?thesis using assms by (auto simp: map_of_snoc fresh_row_def split: if_splits)
  next
    case merged
    have login: "same_login (row_json ep) sp" "prov_id sp = prov_id (row_json ep)"
      using merged(2) by (simp_all add: mergeProviderMetadata_def same_login_def)
    have row: "map_option (\<lambda>r. if k = prov_id sp \<and> row_revision r = x \<and> \<not> row_pending r
        then bump_row sp t r else r) (map_of (db_providers d) k) = Some r'"
      using assms unfolding merged(3) map_of_sql_update .
    then obtain r where r: "map_of (db_providers d) k = Some r"
      "r' = (if k = prov_id sp \<and> row_revision r = x \<and> \<not> row_pending r then bump_row sp t r else r)"
      by (cases "map_of (db_providers d) k") auto
    then show ?thesis using merged(1) login by (cases "r' = r") (auto simp: bump_row_def split: if_splits)
  qed
qed

lemma created_binding_bindings:
  "map_of (db_bindings (fst (createProviderBinding d p b e))) k = Some r' \<Longrightarrow>
     map_of (db_bindings d) k = Some r' \<or> same_ref b (row_json r')"
  by (auto simp: createProviderBinding_def Let_def case_prod_beta sql_insert_def
      dest!: insert_binding_rows(2) split: option.splits if_splits)

lemma create_binding_ok:
  assumes w: "providers_ok lost w" and refs: "node_login_ref (prov_secretRef p)" "node_login_ref (bind_secretRef b)"
    and p: "prov_id p \<notin> lost"
  shows "providers_ok lost (w\<lparr>sw_db := fst (createProviderBinding (sw_db w) p b e)\<rparr>)"
proof -
  let ?d = "fst (createProviderBinding (sw_db w) p b e)"
  have rows: "(\<exists>r. map_of (db_providers (sw_db w)) k = Some r \<and>
      (r' = r \<or> (\<not> row_pending r \<and> \<not> row_pending r' \<and> same_login (row_json r) (row_json r')))) \<or>
      (map_of (db_providers (sw_db w)) k = None \<and> k = prov_id p \<and> row_json r' = p)"
    if r': "map_of (db_providers ?d) k = Some r'" for k r'
    using created_binding_providers[OF r']
  proof (elim disjE exE conjE)
    fix r ep
    assume r: "map_of (db_providers (sw_db w)) k = Some r" "\<not> row_pending r" "\<not> row_pending r'"
      and ep: "map_of (db_providers (sw_db w)) (prov_id p) = Some ep" "k = prov_id (row_json ep)" "same_login (row_json ep) (row_json r')"
    have "k = prov_id p" using named_row(1)[OF w ep(1)] ep(2) by simp
    then show ?thesis using r ep by simp
  qed auto
  have "keys_unique ?d"
    using keys_unique_exec[of "sw_db w" "BindingOp (OpCreateBinding p b e)"] w by (simp add: providers_ok_def)
  moreover have "refs_named ?d" unfolding refs_named_def
  proof (intro conjI allI impI)
    fix k r'
    assume r': "map_of (db_providers ?d) k = Some r'"
    show "prov_id (row_json r') = k" "prov_secretRef (row_json r') = own_ref k \<or> node_login_ref (prov_secretRef (row_json r'))"
      using rows[OF r'] refs(1) named_row(1,2)[OF w, of k] by (auto simp: same_login_def)
  next
    fix k r'
    assume r': "map_of (db_bindings ?d) k = Some r'"
    show "node_login_ref (bind_secretRef (row_json r'))"
      using created_binding_bindings[OF r'] w refs(2) by (auto simp: providers_ok_def refs_named_def same_ref_def)
  qed
  moreover have "sw_secrets w (own_ref j) \<noteq> None" if j: "owed ?d j" for j
  proof -
    obtain r' where r': "map_of (db_providers ?d) j = Some r'" "\<not> row_pending r'" "prov_authMode (row_json r') \<noteq> Delegated"
      "prov_secretRef (row_json r') = own_ref j" using j by (auto simp: owed_def)
    have "owed (sw_db w) j" using rows[OF r'(1)] r'(2-4) refs(1) refs_differ
      by (auto simp: owed_def same_login_def)
    then show ?thesis using w unfolding providers_ok_def by blast
  qed
  moreover have "orphaned j (w\<lparr>sw_db := ?d\<rparr>)" if j: "j \<in> lost" for j
  proof -
    have "orphaned j w" using w j by (simp add: providers_ok_def)
    then have "map_of (db_providers ?d) j = None" using rows[of j] p j by (cases "map_of (db_providers ?d) j") (auto simp: orphaned_def)
    then show ?thesis using \<open>orphaned j w\<close> by (simp add: orphaned_def)
  qed
  ultimately show ?thesis by (simp add: providers_ok_def)
qed

lemma insert_attempt_keeps:
  assumes env: "plain_env f" and p: "node_login_ref (prov_secretRef p)" "prov_id p \<notin> lost" and b: "node_login_ref (bind_secretRef b)"
  shows "keeps_ok lost (insert_attempt f p b e)"
proof -
  have written: "keeps_ok lost (called (f 1) (on_db (\<lambda>d. createProviderBinding d p b e)))"
    by (rule runs_write[OF stable_ok]) (use env create_binding_ok[OF _ p(1) b p(2)] in \<open>auto simp: plain_env_def\<close>)
  note drop = drop_secret_keeps[OF env b]
  have drop_or_not: "keeps_ok lost (if c then drop_secret (f k) (bind_secretRef b) else done_with ())" for c k
    by (rule runs_if) (auto intro: drop runs_done)
  have give_up: "keeps_ok lost (and_then (drop_secret (f k) (bind_secretRef b)) (\<lambda>_. raise x))" for k x
    by (rule drop_and_raise[OF drop])
  show ?thesis unfolding insert_attempt_def
  proof (rule runs_and_then[OF written])
    fix r
    show "keeps_ok lost (case r of
         BindingCreated provider record \<Rightarrow> done_with (publicProvider provider, vr_value record)
       | BindingNotCreated reason provider existing \<Rightarrow>
           (case existing of
              Some x \<Rightarrow>
                if bindingMatchesAttempt (vr_value x) b provider p
                then and_then (if bind_secretRef (vr_value x) \<noteq> bind_secretRef b
                               then drop_secret (f 2) (bind_secretRef b) else done_with ())
                       (\<lambda>_. done_with (publicProvider (the provider), vr_value x))
                else and_then (drop_secret (f 2) (bind_secretRef b)) (\<lambda>_. raise (binding_refusal reason))
            | None \<Rightarrow> and_then (drop_secret (f 2) (bind_secretRef b)) (\<lambda>_. raise (binding_refusal reason))))"
    proof (cases r)
      case (BindingCreated provider stored)
      then show ?thesis by (simp add: runs_done)
    next
      case (BindingNotCreated reason provider existing)
      show ?thesis
      proof (cases existing)
        case None
        show ?thesis unfolding BindingNotCreated None binding_create_result.case option.case by (rule give_up)
      next
        case (Some x)
        show ?thesis unfolding BindingNotCreated Some binding_create_result.case option.case
          by (intro runs_if runs_and_then[OF drop_or_not] runs_done give_up)
      qed
    qed
  qed
qed

lemma settle_attempt_keeps:
  assumes env: "plain_env f" and b: "node_login_ref (bind_secretRef b)"
  shows "keeps_ok lost (settle_attempt f p b e)"
proof -
  note drop = drop_secret_keeps[OF env b]
  have drop_or_not: "keeps_ok lost (if c then drop_secret (f k) (bind_secretRef b) else done_with ())" for c k
    by (rule runs_if) (auto intro: drop runs_done)
  have give_up: "keeps_ok lost (and_then (drop_secret (f k) (bind_secretRef b)) (\<lambda>_. raise x))" for k x
    by (rule drop_and_raise[OF drop])
  have read: "keeps_ok lost (called (f k) (read_db g))" for k and g :: "db \<Rightarrow> 'c"
    by (rule runs_called_read[OF stable_ok]) (use env in \<open>auto simp: plain_env_def\<close>)
  have answers: "keeps_ok lost (and_then (called (f 3) (read_db (\<lambda>d. getProviderBinding d (bind_id b) False))) (\<lambda>currentBinding.
                 and_then (called (f 4) (read_db (\<lambda>d. getProvider d (prov_id p)))) (\<lambda>currentProvider.
                   done_with (currentBinding, currentProvider))))"
    by (rule runs_and_then[OF read], rule runs_and_then[OF read], rule runs_done)
  show ?thesis unfolding settle_attempt_def
  proof (rule runs_and_then)
    show "keeps_ok lost (tried (and_then (called (f 3) (read_db (\<lambda>d. getProviderBinding d (bind_id b) False))) (\<lambda>currentBinding.
                 and_then (called (f 4) (read_db (\<lambda>d. getProvider d (prov_id p)))) (\<lambda>currentProvider.
                   done_with (currentBinding, currentProvider)))))"
      by (rule runs_tried[OF answers])
    fix answer
    show "keeps_ok lost (case answer of
         None \<Rightarrow> raise e
       | Some (Some x, provider) \<Rightarrow>
           if bindingMatchesAttempt x b provider p
           then and_then (if bind_secretRef x \<noteq> bind_secretRef b then drop_secret (f 5) (bind_secretRef b)
                          else done_with ())
                  (\<lambda>_. done_with (publicProvider (the provider), x))
           else and_then (if bind_secretRef x \<noteq> bind_secretRef b then drop_secret (f 5) (bind_secretRef b)
                          else done_with ()) (\<lambda>_. raise e)
       | Some (None, provider) \<Rightarrow> and_then (drop_secret (f 5) (bind_secretRef b)) (\<lambda>_. raise e))"
    proof (cases answer)
      case None
      then show ?thesis by (simp add: runs_raise)
    next
      case (Some a)
      obtain current provider where a: "a = (current, provider)" by fastforce
      show ?thesis
      proof (cases current)
        case None
        show ?thesis unfolding Some a None option.case prod.case by (rule give_up)
      next
        case c: (Some x)
        show ?thesis unfolding Some a c option.case prod.case
          by (intro runs_if runs_and_then[OF drop_or_not] runs_done runs_raise)
      qed
    qed
  qed
qed

lemma node_login: "node_login_ref (binding_secret_ref i n)"
  by (simp add: node_login_ref_def binding_secret_ref_def starts_with_def)

lemma create_binding_keeps:
  assumes env: "plain_env f" and "providerId \<notin> lost"
  shows "keeps_ok lost (create_binding f input capabilities login nodeId providerId bindingId nonce creation now clustered)"
proof (cases login)
  case (Inl e)
  then show ?thesis by (simp add: create_binding_def runs_raise)
next
  case (Inr x)
  let ?ref = "binding_secret_ref bindingId nonce"
  let ?p = "authenticated_connection input capabilities x providerId ?ref now"
  let ?b = "new_binding bindingId providerId nodeId ?ref now"
  have refs: "node_login_ref (prov_secretRef ?p)" "prov_id ?p \<notin> lost" "node_login_ref (bind_secretRef ?b)"
    using assms(2) by (simp_all add: authenticated_connection_def new_binding_def node_login)
  have put: "keeps_ok lost (called (f 0) (on_secrets (\<lambda>st. secret_put st ?ref (idn_accessToken x))))"
    by (rule runs_secret[OF stable_ok]) (use env put_ok in \<open>auto simp: plain_env_def\<close>)
  have "keeps_ok lost (and_then (called (f 0) (on_secrets (\<lambda>st. secret_put st ?ref (idn_accessToken x)))) (\<lambda>_.
                 on_error (insert_attempt f ?p ?b creation) (settle_attempt f ?p ?b)))"
    by (rule runs_and_then[OF put], rule runs_on_error[OF insert_attempt_keeps[OF env refs] settle_attempt_keeps[OF env refs(3)]])
  then show ?thesis by (simp add: create_binding_def Inr Let_def runs_raise)
qed

lemma stored_binding_ref:
  assumes "providers_ok lost w" and "getProviderBinding (sw_db w) i p = Some b"
  shows "node_login_ref (bind_secretRef b)"
proof -
  obtain r where r: "map_of (db_bindings (sw_db w)) i = Some r" "bind_secretRef b = bind_secretRef (row_json r)"
    using assms(2) by (auto simp: getProviderBinding_def getStoredProviderBinding_def storedProviderBinding_def split: option.splits if_splits)
  then show ?thesis using assms(1) by (simp add: providers_ok_def refs_named_def)
qed

lemma stable_login: "stable (\<lambda>w. providers_ok lost w \<and> Q)"
  using stable_ok[of lost] by (simp add: stable_def)

lemma remove_binding_keeps:
  assumes env: "plain_env f"
  shows "keeps_ok lost (remove_binding f i clustered)"
proof -
  let ?Q = "\<lambda>binding w. providers_ok lost w \<and> (\<forall>b. binding = Some b \<longrightarrow> node_login_ref (bind_secretRef b))"
  have found: "runs (providers_ok lost) (if clustered then called (f 0) (read_db (\<lambda>d. getProviderBinding d i True)) else done_with None)
      ?Q (providers_ok lost)"
  proof (rule runs_if)
    show "runs (providers_ok lost) (called (f 0) (read_db (\<lambda>d. getProviderBinding d i True))) ?Q (providers_ok lost)"
      by (rule runs_called_read[OF stable_ok]) (use env in \<open>auto simp: plain_env_def intro: stored_binding_ref\<close>)
  qed (simp add: runs_done)
  show ?thesis unfolding remove_binding_def
  proof (rule runs_and_then[OF found])
    fix binding
    show "runs (?Q binding) (case binding of
         None \<Rightarrow> raise NotFoundError
       | Some b \<Rightarrow> if \<not> bind_deletionPending b then raise ConflictError else drop_secret (f 1) (bind_secretRef b))
       (\<lambda>_. providers_ok lost) (providers_ok lost)"
    proof (cases binding)
      case None
      then show ?thesis by (simp add: runs_def raise_def)
    next
      case (Some b)
      show ?thesis
      proof (cases "node_login_ref (bind_secretRef b)")
        case True
        have "keeps_ok lost (if \<not> bind_deletionPending b then raise ConflictError else drop_secret (f 1) (bind_secretRef b))"
          by (intro runs_if runs_raise drop_secret_keeps[OF env True])
        then show ?thesis unfolding Some option.case by (rule runs_pre) simp
      next
        case False
        then show ?thesis by (simp add: Some runs_def)
      qed
    qed
  qed
qed

section \<open>Histories\<close>

text \<open>
  One call of the service after another, each with any faults and with operations of others
  between its own calls. \<open>created\<close> is the set of identifiers that connections are created with.
\<close>

inductive provider_call :: "ident set \<Rightarrow> session_world \<Rightarrow> session_world \<Rightarrow> bool" for created where
  call_create: "plain_env f \<Longrightarrow> i \<in> created \<Longrightarrow>
    create_connection f input capabilities login i now w = (w', a) \<Longrightarrow> provider_call created w w'"
| call_delete: "(\<And>j. plain_env (g j)) \<Longrightarrow> delete_connection g i w = (w', b) \<Longrightarrow> provider_call created w w'"
| call_health: "plain_env f \<Longrightarrow> mark_healthy f clock 0 MAX_PROVIDER_WRITE_ATTEMPTS i w = (w', b) \<Longrightarrow> provider_call created w w'"
| call_bind: "plain_env f \<Longrightarrow> i \<in> created \<Longrightarrow>
    create_binding f input capabilities login nodeId i bindingId nonce creation now clustered w = (w', c) \<Longrightarrow>
    provider_call created w w'"
| call_unbind: "plain_env f \<Longrightarrow> remove_binding f bindingId clustered w = (w', b) \<Longrightarrow> provider_call created w w'"
| call_others: "\<forall>x \<in> set xs. plain_op x \<Longrightarrow> provider_call created w (meanwhile xs w)"
| call_secrets: "(\<And>i. ref \<noteq> own_ref i) \<Longrightarrow> provider_call created w (w\<lparr>sw_secrets := (sw_secrets w)(ref := v)\<rparr>)"

lemma runs_world: "keeps_ok lost m \<Longrightarrow> providers_ok lost w \<Longrightarrow> m w = (w', a) \<Longrightarrow> providers_ok lost w'"
  by (cases a) (auto simp: runs_def split: prod.splits)

lemma call_keeps:
  assumes "provider_call created w w'" and w: "providers_ok lost w" and lost: "created \<inter> lost = {}"
  shows "providers_ok lost w'"
  using assms(1)
proof cases
  case (call_create f i input capabilities login now a)
  then have "i \<notin> lost" using lost by blast
  then show ?thesis using runs_world[OF create_connection_keeps[OF call_create(1)] w call_create(3)] by blast
next
  case (call_delete g i b)
  show ?thesis by (rule runs_world[OF delete_keeps[OF call_delete(1)] w call_delete(2)])
next
  case (call_health f clock i b)
  show ?thesis by (rule runs_world[OF health_keeps[OF call_health(1)] w call_health(2)])
next
  case (call_bind f i input capabilities login nodeId bindingId nonce creation now clustered c)
  then have "i \<notin> lost" using lost by blast
  then show ?thesis using runs_world[OF create_binding_keeps[OF call_bind(1)] w call_bind(3)] by blast
next
  case (call_unbind f bindingId clustered b)
  show ?thesis by (rule runs_world[OF remove_binding_keeps[OF call_unbind(1)] w call_unbind(2)])
next
  case (call_others xs)
  then show ?thesis using stable_ok[of lost] w by (simp add: stable_def)
next
  case (call_secrets ref v)
  then show ?thesis using w by (auto simp: providers_ok_def orphaned_def)
qed

lemma calls_keep:
  assumes "(provider_call created)\<^sup>*\<^sup>* w w'" and "providers_ok lost w" and "created \<inter> lost = {}"
  shows "providers_ok lost w'"
  using assms by (induction rule: rtranclp_induct) (auto intro: call_keeps)

end
