(* ===== verification/RelayProviderResults.thy ===== *)
theory RelayProviderResults
  imports RelayProviderHistory RelayCrashRecovery RelaySamples
begin

text \<open>
  The properties of the provider service: connections keep their credentials under faults,
  deletions complete, and the credential a lost creation leaves behind.
\<close>

section \<open>Connections and credentials\<close>

lemma fresh_providers_ok: "providers_ok {} fresh_world"
proof -
  have "refs_named empty_db" "\<And>i. \<not> owed empty_db i" by (simp_all add: refs_named_def owed_def empty_db_def)
  then show ?thesis by (simp add: providers_ok_def fresh_world_def keys_unique_empty)
qed

text \<open>C6: A visible connection has its credential: after any sequence of creations, deletions, health updates and
  bindings of a new installation, each of whose calls may fail or crash before or after it took
  effect, with operations of others in between, a request to a visible connection with a
  login of its own is sent to a node or to the provider, with a stored secret; it never fails
  for want of the credential.\<close>

theorem connections_keep_credentials:
  assumes run: "(provider_call created)\<^sup>*\<^sup>* fresh_world w"
    and p: "getProvider (sw_db w) i = Some p" "prov_authMode p \<noteq> Delegated" "prov_secretRef p = ''provider:'' @ i"
  shows "\<exists>way. provider_request_way opts i w = resolve way \<and>
     (\<forall>q secret. way = AskProvider q secret \<longrightarrow> q = p \<and> (\<exists>ref. sw_secrets w ref = Some secret))"
proof -
  have ok: "providers_ok {} w" by (rule calls_keep[OF run fresh_providers_ok]) simp
  have "owed (sw_db w) i" using p by (auto simp: owed_def getProvider_def getStoredProvider_def own_ref_def split: option.splits if_splits)
  then have own: "sw_secrets w (prov_secretRef p) \<noteq> None"
    using ok p(3) unfolding providers_ok_def own_ref_def by metis
  show ?thesis
  proof (cases "remoteBinding opts (sw_db w) i")
    case (Some b)
    then show ?thesis using p(1) by (simp add: provider_request_way_def)
  next
    case None
    let ?ref = "localSecretRef opts (sw_db w) (sw_secrets w) p"
    have "sw_secrets w ?ref \<noteq> None"
      using own by (auto simp: localSecretRef_def find_Some_iff split: option.split)
    then obtain secret where "sw_secrets w ?ref = Some secret" by blast
    then show ?thesis using p(1) None by (auto simp: provider_request_way_def secret_get_def)
  qed
qed

definition sample_provider_request :: provider_request where
  "sample_provider_request =
     \<lparr>pq_type = ''jellyfin'', pq_name = ''Library'', pq_authMode = ApiKey, pq_allowPublicHttp = False,
      pq_normalizedBaseUrl = ''https://media'', pq_securityNotice = None\<rparr>"

definition sample_identity :: provider_identity where
  "sample_identity =
     \<lparr>idn_userId = Some ''u'', idn_username = Some ''ann'', idn_accessToken = ''key'', idn_serverName = None,
      idn_serverVersion = None\<rparr>"

abbreviation calm_calls :: call_env where
  "calm_calls \<equiv> \<lambda>_. ([], Works)"

definition sample_connection :: provider_connection where
  "sample_connection = new_connection sample_provider_request [] (Some sample_identity) ''p'' 5"

definition connected_world :: session_world where
  "connected_world = \<lparr>sw_db = exec_op (CatalogOp (OpCreateProvider sample_connection)) empty_db,
     sw_secrets = Map.empty(''provider:p'' \<mapsto> ''key'')\<rparr>"

lemma calm_plain: "plain_env calm_calls"
  by (simp add: plain_env_def)

lemma create_calm:
  assumes "pq_authMode input \<noteq> Delegated" and "map_of (db_providers (sw_db w)) i = None"
    and c: "c = new_connection input capabilities (Some x) i now"
  shows "create_connection calm_calls input capabilities (resolve x) i now w =
    (w\<lparr>sw_db := fst (createProvider (sw_db w) c), sw_secrets := secret_put (sw_secrets w) (''provider:'' @ i) (idn_accessToken x)\<rparr>,
     Returned (publicProvider c))"
proof -
  have "prov_id c = i" "prov_secretRef c = ''provider:'' @ i" by (simp_all add: c new_connection_def)
  then show ?thesis using assms(1,2) unfolding create_connection_def Let_def
    by (simp add: and_then_def called_def on_secrets_def meanwhile_def on_error_def done_with_def on_db_def
        createProvider_def sql_insert_def flip: c)
qed

lemma connected_created:
  "create_connection calm_calls sample_provider_request [] (resolve sample_identity) ''p'' 5 fresh_world =
     (connected_world, Returned (publicProvider sample_connection))"
  by (subst create_calm[OF _ _ refl])
    (simp_all add: sample_provider_request_def fresh_world_def empty_db_def connected_world_def sample_connection_def
      sample_identity_def secret_put_def)

lemma connected_run: "(provider_call {''p''})\<^sup>*\<^sup>* fresh_world connected_world"
  using call_create[OF calm_plain _ connected_created, of "{''p''}"] by auto

lemma connected_row: "map_of (db_providers (sw_db connected_world)) ''p'' = Some (fresh_row sample_connection 5)"
  by (simp add: connected_world_def createProvider_def sql_insert_def empty_db_def sample_connection_def new_connection_def)

lemma sample_connection_simps [simp]:
  "prov_authMode sample_connection = ApiKey" "prov_secretRef sample_connection = ''provider:p''" "prov_id sample_connection = ''p''"
  by (simp_all add: sample_connection_def new_connection_def sample_provider_request_def)

theorem connections_keep_credentials_witness:
  "\<exists>p. getProvider (sw_db connected_world) ''p'' = Some p \<and>
     provider_request_way \<lparr>pv_nodeId = None, pv_gateway = None, pv_clustered = False\<rparr> ''p'' connected_world =
       resolve (AskProvider p ''key'')"
proof -
  have p: "getProvider (sw_db connected_world) ''p'' = Some sample_connection"
    by (simp add: getProvider_def getStoredProvider_def connected_row fresh_row_def)
  have key: "sw_secrets connected_world ''provider:p'' = Some ''key''" by (simp add: connected_world_def)
  from connections_keep_credentials[OF connected_run p, of "\<lparr>pv_nodeId = None, pv_gateway = None, pv_clustered = False\<rparr>"]
  obtain way where "provider_request_way \<lparr>pv_nodeId = None, pv_gateway = None, pv_clustered = False\<rparr> ''p'' connected_world = resolve way"
    by auto
  then show ?thesis using p key
    by (simp add: provider_request_way_def remoteBinding_def localSecretRef_def secret_get_def)
qed

section \<open>Deletions\<close>

text \<open>A marked row stays as it is, or goes.\<close>

lemma plain_gone:
  assumes "keys_unique d" and "\<forall>x \<in> set xs. plain_op x" and "map_of (db_providers d) i = None"
  shows "map_of (db_providers (run_ops xs d)) i = None"
  using plain_run_later(1)[OF assms(1,2)] assms(3) unfolding later_provider_def
  by (metis not_None_eq option.distinct(1))

text \<open>The operations that create a connection with the id \<open>i\<close>; once it is gone, no other brings it back.\<close>

fun creates_provider :: "ident \<Rightarrow> repo_op \<Rightarrow> bool" where
  "creates_provider i (CatalogOp (OpCreateProvider p)) \<longleftrightarrow> prov_id p = i"
| "creates_provider i (BindingOp (OpCreateBinding p b None)) \<longleftrightarrow> prov_id p = i"
| "creates_provider i x \<longleftrightarrow> False"

lemma gone_filter: "map_of t i = None \<Longrightarrow> map_of (filter P t) i = None"
  by (auto simp: map_of_eq_None_iff)

lemma gone_catalog:
  "map_of (db_providers d) i = None \<Longrightarrow> \<not> creates_provider i (CatalogOp x) \<Longrightarrow>
     map_of (db_providers (exec_catalog_op x d)) i = None"
  by (cases x) (auto simp: createProvider_def sql_insert_Some map_of_snoc compareAndSetProvider_def
      beginProviderDeletion_def finalizeProviderDeletion_def getStoredProvider_def putProfile_def deleteProfile_def
      sql_delete_def Let_def case_prod_beta map_of_sql_update gone_filter
      split: option.splits if_splits)

lemma gone_binding:
  assumes "map_of (db_providers d) i = None" and "\<not> creates_provider i (BindingOp x)"
  shows "map_of (db_providers (exec_binding_op x d)) i = None"
proof (cases x)
  case (OpCreateBinding p b q)
  show ?thesis
  proof (cases rule: create_binding_cases[of d p b q])
    case unchanged
    then show ?thesis using assms(1) OpCreateBinding by simp
  next
    case (created t)
    have "map_of t i = None"
      using created(5) assms OpCreateBinding
      by (cases q) (auto simp: binding_providers_def map_of_snoc map_of_sql_update)
    then show ?thesis using created(1) OpCreateBinding by simp
  qed
qed (use assms in \<open>simp_all add: compareAndSetProviderBinding_def beginProviderBindingDeletion_def
      finalizeProviderBindingDeletion_def Let_def case_prod_beta split: option.split\<close>)

lemma gone_exec:
  "map_of (db_providers d) i = None \<Longrightarrow> \<not> creates_provider i x \<Longrightarrow> map_of (db_providers (exec_op x d)) i = None"
  by (cases x) (simp_all add: frames gone_catalog gone_binding)

lemma gone_run:
  "map_of (db_providers d) i = None \<Longrightarrow> \<forall>x \<in> set xs. \<not> creates_provider i x \<Longrightarrow>
     map_of (db_providers (run_ops xs d)) i = None"
  by (induction xs arbitrary: d) (simp_all add: gone_exec)

lemma marked_later:
  assumes keys: "keys_unique d" and others: "\<forall>x \<in> set xs. \<not> creates_provider i x"
    and p: "map_of (db_providers d) i = Some p" "row_pending p"
  shows "map_of (db_providers (run_ops xs d)) i \<in> {None, Some p}"
  using pending_provider_stays[OF keys p, of xs]
proof (elim disjE exE conjE)
  fix ys zs
  assume xs: "xs = ys @ zs" and gone: "map_of (db_providers (run_ops ys d)) i = None"
  have "map_of (db_providers (run_ops zs (run_ops ys d))) i = None"
    by (rule gone_run[OF gone]) (use others xs in simp)
  then show ?thesis by (simp add: xs run_ops_append)
qed simp

lemma refs_ok_run: "refs_ok d \<Longrightarrow> \<forall>x \<in> set xs. typed_op x \<Longrightarrow> refs_ok (run_ops xs d)"
  by (induction xs arbitrary: d) (auto intro: refs_ok_exec)

lemma finalize_marked:
  assumes refs: "refs_ok d" and row: "map_of (db_providers d) i \<in> {None, Some p}" "row_pending p"
  shows "\<exists>d' x. finalizeProviderDeletion d i (row_revision p) = (d', resolve x) \<and>
     ((\<exists>r. x = Deleted r) \<or> x = NotDeleted NotFound None []) \<and> map_of (db_providers d') i = None"
proof (cases "map_of (db_providers d) i")
  case None
  then show ?thesis by (simp add: finalizeProviderDeletion_def getStoredProvider_def)
next
  case (Some q)
  then have "map_of (db_providers d) i = Some p" using row(1) by simp
  from finalize_pending_provider[OF refs this row(2)] show ?thesis
    by (cases "finalizeProviderDeletion d i (row_revision p)") auto
qed

definition typed_others :: "ident \<Rightarrow> (nat \<Rightarrow> nat \<Rightarrow> repo_op list) \<Rightarrow> bool" where
  "typed_others i env \<longleftrightarrow> (\<forall>j k. \<forall>x \<in> set (env j k). typed_op x \<and> \<not> creates_provider i x)"

abbreviation working :: "(nat \<Rightarrow> nat \<Rightarrow> repo_op list) \<Rightarrow> nat \<Rightarrow> call_env" where
  "working env \<equiv> \<lambda>j k. (env j k, Works)"

lemma begin_working:
  "begin_deletion f k (Suc n) i w =
     (let d = run_ops xs (sw_db w)
      in case map_of (db_providers d) i of
           None \<Rightarrow> (w\<lparr>sw_db := d\<rparr>, Returned None)
         | Some p \<Rightarrow>
             if row_pending p \<or> providerDependencies d i = []
             then (w\<lparr>sw_db := fst (beginProviderDeletion d i)\<rparr>,
                   Returned (Some (versioned (row_json p) (row_revision p + (if row_pending p then 0 else 1)))))
             else (w\<lparr>sw_db := d\<rparr>, Raised ConflictError))"
  if "keys_unique (sw_db w)" and f: "f k = (xs, Works)"
proof -
  let ?d = "run_ops xs (sw_db w)"
  have keys: "keys_ok (db_providers ?d)" using keys_uniqueD(1)[OF keys_unique_run[OF that(1)]] .
  show ?thesis
  proof (cases "map_of (db_providers ?d) i")
    case None
    then show ?thesis using f
      by (simp add: and_then_def called_def meanwhile_def on_db_def beginProviderDeletion_def getStoredProvider_def
          done_with_def Let_def)
  next
    case (Some p)
    have "snd (sql_update (db_providers ?d) (\<lambda>k r. k = i \<and> row_revision r = row_revision p \<and> \<not> row_pending r)
        (\<lambda>r. r\<lparr>row_pending := True, row_revision := row_revision r + 1\<rparr>)) = 1" if "\<not> row_pending p"
      using sql_update_count_key[OF keys, of i "\<lambda>r. row_revision r = row_revision p \<and> \<not> row_pending r"] Some that by simp
    then show ?thesis using Some f
      by (auto simp: and_then_def called_def meanwhile_def on_db_def beginProviderDeletion_def getStoredProvider_def
          done_with_def raise_def Let_def case_prod_beta)
  qed
qed

lemma begun_reachable: "reachable_db d \<Longrightarrow> reachable_db (fst (beginProviderDeletion d i))"
  using reachable_step[of d "CatalogOp (OpBeginProviderDeletion i)"] by simp

lemma finalize_working:
  assumes refs: "refs_ok (sw_db w)" and row: "map_of (db_providers (sw_db w)) i \<in> {None, Some p}" "row_pending p"
    and others: "\<forall>x \<in> set (env j 0). typed_op x \<and> \<not> creates_provider i x"
  shows "\<exists>d'. finalize_deletion (working env) j (Suc n) i (row_revision p) w = (w\<lparr>sw_db := d'\<rparr>, Returned ()) \<and>
     map_of (db_providers d') i = None"
proof -
  let ?d = "run_ops (env j 0) (sw_db w)"
  have keys: "keys_unique (sw_db w)" by (rule refs_okD(1)[OF refs])
  have later: "map_of (db_providers ?d) i \<in> {None, Some p}"
    using row(1)
  proof (elim insertE)
    assume "map_of (db_providers (sw_db w)) i = None"
    then show ?thesis using gone_run others by simp
  next
    assume "map_of (db_providers (sw_db w)) i = Some p"
    then show ?thesis using marked_later[OF keys] others row(2) by simp
  qed simp
  have "refs_ok ?d" by (rule refs_ok_run[OF refs]) (use others in simp)
  from finalize_marked[OF this later row(2)] show ?thesis
    by (auto simp: and_then_def try_finalize_def on_error_def called_def meanwhile_def on_db_def done_with_def)
qed

text \<open>C14: A deletion completes: from any reachable database, also one that a crashed deletion left marked, and
  whatever others do to the database between its calls, races with health checks, new bindings, new
  sessions and other deletions of the same connection included, a deletion whose calls work
  removes the row and its credential, unless the connection is not marked and still in use: then it
  changes nothing and reports the conflict. Two things are asked of the others: they do not create
  a connection with the very id that is being deleted, and a live session they create has no media
  source, which the type of the repository's argument allows but no caller passes.\<close>

theorem deletion_completes:
  assumes reach: "reachable_db (sw_db w)" and env: "typed_others i env"
    and run: "delete_connection (working env) i w = (w', r)" and d: "d = run_ops (env 0 0) (sw_db w)"
  shows "case map_of (db_providers d) i of
      None \<Rightarrow> r = Returned () \<and> w' = w\<lparr>sw_db := d\<rparr>
    | Some p \<Rightarrow>
        if row_pending p \<or> providerDependencies d i = []
        then r = Returned () \<and> map_of (db_providers (sw_db w')) i = None \<and> sw_secrets w' (prov_secretRef (row_json p)) = None
        else r = Raised ConflictError \<and> w' = w\<lparr>sw_db := d\<rparr>"
proof -
  have keys: "keys_unique (sw_db w)" by (rule refs_okD(1)[OF reachable_refs_ok[OF reach]])
  have attempts: "MAX_PROVIDER_WRITE_ATTEMPTS = Suc 4" by (simp add: MAX_PROVIDER_WRITE_ATTEMPTS_def)
  note started = begin_working[where f = "working env 0" and k = 0 and n = 4 and i = i, OF keys refl, folded d attempts]
  have e: "\<forall>x \<in> set (env j k). typed_op x \<and> \<not> creates_provider i x" for j k using env by (simp add: typed_others_def)
  show ?thesis
  proof (cases "map_of (db_providers d) i")
    case None
    then show ?thesis using run started by (simp add: delete_connection_def and_then_def done_with_def)
  next
    case (Some p)
    show ?thesis
    proof (cases "row_pending p \<or> providerDependencies d i = []")
      case False
      then show ?thesis using run started Some by (simp add: delete_connection_def and_then_def)
    next
      case True
      let ?d1 = "fst (beginProviderDeletion d i)"
      let ?c = "versioned (row_json p) (row_revision p + (if row_pending p then 0 else 1))"
      define w2 where "w2 = (meanwhile (env 1 0) (w\<lparr>sw_db := ?d1\<rparr>))
        \<lparr>sw_secrets := secret_delete (sw_secrets w) (prov_secretRef (row_json p))\<rparr>"
      have reach_d: "reachable_db d" using reachable_run[OF reach] e d by simp
      have "snd (beginProviderDeletion d i) = resolve (Applied ?c)"
        using True Some keys_uniqueD(1)[OF refs_okD(1)[OF reachable_refs_ok[OF reach_d]]]
          sql_update_count_key[of "db_providers d" i "\<lambda>r. row_revision r = row_revision p \<and> \<not> row_pending r"
             "\<lambda>r. r\<lparr>row_pending := True, row_revision := row_revision r + 1\<rparr>"]
        by (auto simp: beginProviderDeletion_def getStoredProvider_def Let_def case_prod_beta)
      from begun_row[OF this] obtain q where q: "map_of (db_providers ?d1) i = Some q" "row_pending q"
        "row_revision q = vr_revision ?c" by blast
      have refs: "refs_ok (sw_db w2)" and "map_of (db_providers (sw_db w2)) i \<in> {None, Some q}"
      proof -
        have reach1: "reachable_db ?d1" by (rule begun_reachable[OF reach_d])
        have "reachable_db (run_ops (env 1 0) ?d1)" using reachable_run[OF reach1] e by simp
        then show "refs_ok (sw_db w2)" by (simp add: w2_def reachable_refs_ok)
        show "map_of (db_providers (sw_db w2)) i \<in> {None, Some q}"
          using marked_later[OF refs_okD(1)[OF reachable_refs_ok[OF reach1]] _ q(1,2), of "env 1 0"] e by (simp add: w2_def)
      qed
      from finalize_working[OF this q(2), of env 2 4] e obtain d' where
        fin: "finalize_deletion (working env) 2 MAX_PROVIDER_WRITE_ATTEMPTS i (vr_revision ?c) w2 = (w2\<lparr>sw_db := d'\<rparr>, Returned ())"
        "map_of (db_providers d') i = None" by (auto simp: attempts q(3))
      have "delete_connection (working env) i w = finalize_deletion (working env) 2 MAX_PROVIDER_WRITE_ATTEMPTS i (vr_revision ?c) w2"
        using started Some True
        by (simp add: delete_connection_def and_then_def called_def on_secrets_def w2_def meanwhile_def)
      then have "w' = w2\<lparr>sw_db := d'\<rparr>" "r = Returned ()" using run fin(1) by simp_all
      then show ?thesis using fin(2) True Some by (simp add: w2_def secret_delete_def)
    qed
  qed
qed

text \<open>A deletion that crashed before it reached the secret store; the next one resumes.\<close>

definition half_deleted_world :: session_world where
  "half_deleted_world = connected_world\<lparr>sw_db := exec_op (CatalogOp (OpBeginProviderDeletion ''p'')) (sw_db connected_world)\<rparr>"

lemma connected_reachable: "reachable_db (sw_db connected_world)"
  unfolding connected_world_def session_world.simps by (rule reachable_step[OF reachable_empty]) simp

lemma half_deleted_reachable: "reachable_db (sw_db half_deleted_world)"
  using reachable_step[OF connected_reachable, of "CatalogOp (OpBeginProviderDeletion ''p'')"]
  by (simp add: half_deleted_world_def)

lemma connected_unused: "providerDependencies (sw_db connected_world) ''p'' = []"
  by (simp add: providerDependencies_def connected_world_def createProvider_def sql_insert_def empty_db_def)

lemma begin_connected:
  assumes "f k = ([], Works)"
  shows "begin_deletion f k (Suc n) ''p'' connected_world =
     (half_deleted_world, Returned (Some (versioned sample_connection 2)))"
  using begin_working[where xs = "[]" and f = f and k = k and n = n and i = "''p''" and w = connected_world]
    refs_okD(1)[OF reachable_refs_ok[OF connected_reachable]] connected_row connected_unused assms
  by (simp add: half_deleted_world_def fresh_row_def)

lemma half_deleted_run:
  "delete_connection (\<lambda>j k. ([], if j = 1 then CrashesBefore else Works)) ''p'' connected_world = (half_deleted_world, Crashed)"
  using begin_connected[of "\<lambda>k. ([], Works)" 0 4]
  by (simp add: delete_connection_def and_then_def MAX_PROVIDER_WRITE_ATTEMPTS_def called_def meanwhile_def eval_nat_numeral
      del: begin_deletion.simps finalize_deletion.simps)

lemma half_deleted_row:
  "map_of (db_providers (sw_db half_deleted_world)) ''p'' = Some ((fresh_row sample_connection 5)\<lparr>row_pending := True, row_revision := 2\<rparr>)"
proof -
  have "snd (beginProviderDeletion (sw_db connected_world) ''p'') = resolve (Applied (versioned sample_connection 2))"
    using connected_row connected_unused
      sql_update_count_key[OF keys_uniqueD(1)[OF refs_okD(1)[OF reachable_refs_ok[OF connected_reachable]]], of "''p''" "\<lambda>r. row_revision r = 1 \<and> \<not> row_pending r"]
    by (simp add: beginProviderDeletion_def getStoredProvider_def Let_def case_prod_beta fresh_row_def)
  then show ?thesis
    using connected_row connected_unused
    by (simp add: half_deleted_world_def beginProviderDeletion_def getStoredProvider_def Let_def case_prod_beta map_of_sql_update
        fresh_row_def split: if_splits)
qed

theorem deletion_completes_witness:
  "sw_secrets half_deleted_world ''provider:p'' = Some ''key'' \<and>
   (let (w, r) = delete_connection (working (\<lambda>_ _. [])) ''p'' half_deleted_world
    in r = Returned () \<and> map_of (db_providers (sw_db w)) ''p'' = None \<and> sw_secrets w ''provider:p'' = None)"
proof -
  obtain w r where run: "delete_connection (working (\<lambda>_ _. [])) ''p'' half_deleted_world = (w, r)" by fastforce
  have "sw_secrets half_deleted_world ''provider:p'' = Some ''key''" by (simp add: half_deleted_world_def connected_world_def)
  then show ?thesis
    using deletion_completes[OF half_deleted_reachable _ run refl] run half_deleted_row by (simp add: typed_others_def fresh_row_def)
qed

section \<open>A reported deletion\<close>

definition row_gone :: "ident \<Rightarrow> session_world \<Rightarrow> bool" where
  "row_gone i w \<longleftrightarrow> keys_unique (sw_db w) \<and> map_of (db_providers (sw_db w)) i = None"

abbreviation keyed :: "session_world \<Rightarrow> bool" where
  "keyed w \<equiv> keys_unique (sw_db w)"

lemma stable_keyed: "stable keyed"
  by (simp add: stable_def keys_unique_run)

lemma begin_reports:
  assumes env: "plain_env f"
  shows "runs keyed (begin_deletion f k n i) (\<lambda>r w. keyed w \<and> (r = None \<longrightarrow> row_gone i w)) keyed"
proof (induction n arbitrary: k)
  case 0
  show ?case by (simp add: runs_raise)
next
  case (Suc n)
  let ?Q = "\<lambda>r w. keyed w \<and> (\<forall>x y. r = Rejected NotFound x y \<longrightarrow> row_gone i w)"
  have missing: "row_gone i (w\<lparr>sw_db := fst (beginProviderDeletion (sw_db w) i)\<rparr>)"
    if "keyed w" "snd (beginProviderDeletion (sw_db w) i) = resolve (Rejected NotFound x y)" for w x y
    using that by (auto simp: row_gone_def beginProviderDeletion_def getStoredProvider_def Let_def case_prod_beta
        split: option.splits if_splits)
  have step: "runs keyed (called (f k) (on_db (\<lambda>d. beginProviderDeletion d i))) ?Q keyed"
    by (rule runs_write[OF stable_keyed]) (use env missing begin_deletion_keys in \<open>auto simp: plain_env_def\<close>)
  show ?case unfolding begin_deletion.simps
  proof (rule runs_and_then[OF step])
    show "runs (?Q r) (case r of Applied q \<Rightarrow> done_with (Some q)
       | Rejected reason _ _ \<Rightarrow>
           (case reason of
              NotFound \<Rightarrow> done_with None
            | DependencyConflict \<Rightarrow> raise ConflictError
            | InvalidState \<Rightarrow> raise ConflictError
            | RevisionConflict \<Rightarrow> begin_deletion f (Suc k) n i))
        (\<lambda>r w. keyed w \<and> (r = None \<longrightarrow> row_gone i w)) keyed" for r
    proof (cases r)
      case (Applied c)
      then show ?thesis by (auto simp: runs_def done_with_def)
    next
      case (Rejected reason x deps)
      then show ?thesis using runs_pre[OF Suc.IH[of "Suc k"]] by (cases reason) (auto simp: runs_def done_with_def raise_def)
    qed
  qed
qed

lemma try_reports:
  assumes "\<forall>x \<in> set (fst c). plain_op x"
  shows "runs keyed (try_finalize c i e) (\<lambda>b w. keyed w \<and> (b \<longrightarrow> row_gone i w)) keyed"
  unfolding try_finalize_def
proof (rule runs_on_error)
  let ?Q = "\<lambda>r w. keyed w \<and> ((\<exists>x. r = Deleted x) \<or> (\<exists>x y. r = NotDeleted NotFound x y) \<longrightarrow> row_gone i w)"
  have gone: "row_gone i (w\<lparr>sw_db := fst (finalizeProviderDeletion (sw_db w) i e)\<rparr>)"
    if w: "keyed w" and r: "snd (finalizeProviderDeletion (sw_db w) i e) = resolve r"
      "(\<exists>x. r = Deleted x) \<or> (\<exists>x y. r = NotDeleted NotFound x y)" for w r
    using r keys_uniqueD(1)[OF w] finalize_deletion_keys[OF w, of i e]
    by (auto simp: row_gone_def finalizeProviderDeletion_def getStoredProvider_def Let_def case_prod_beta
        map_of_sql_delete simp del: map_of_eq_Some_iff split: option.splits if_splits)
  have step: "runs keyed (called c (on_db (\<lambda>d. finalizeProviderDeletion d i e))) ?Q keyed"
  proof (rule runs_write[OF stable_keyed assms])
    show "?Q r (w\<lparr>sw_db := fst (finalizeProviderDeletion (sw_db w) i e)\<rparr>)"
      if "keyed w" and "snd (finalizeProviderDeletion (sw_db w) i e) = resolve r" for w r
      using gone[OF that] finalize_deletion_keys[OF that(1)] by simp
  qed (auto intro: finalize_deletion_keys)
  show "runs keyed (and_then (called c (on_db (\<lambda>d. finalizeProviderDeletion d i e))) (\<lambda>r.
          case r of Deleted _ \<Rightarrow> done_with True
          | NotDeleted reason _ _ \<Rightarrow>
              if reason = NotFound then done_with True
              else if reason = DependencyConflict then raise ConflictError
              else done_with False)) (\<lambda>b w. keyed w \<and> (b \<longrightarrow> row_gone i w)) keyed"
    by (rule runs_and_then[OF step]) (auto simp: runs_def done_with_def raise_def split: delete_result.split)
  show "runs keyed (if e = ConflictError then raise e else done_with False) (\<lambda>b w. keyed w \<and> (b \<longrightarrow> row_gone i w)) keyed" for e
    by (simp add: runs_def done_with_def raise_def)
qed

lemma finalize_reports:
  assumes "\<And>j. plain_env (f j)"
  shows "runs keyed (finalize_deletion f j n i e) (\<lambda>_. row_gone i) keyed"
proof (induction n arbitrary: j e)
  case 0
  show ?case by (simp add: runs_raise)
next
  case (Suc n)
  have first: "\<forall>x \<in> set (fst (f j 0)). plain_op x" using assms[of j] by (simp add: plain_env_def)
  have again: "runs keyed (and_then (begin_deletion (f j) 1 MAX_PROVIDER_WRITE_ATTEMPTS i) (\<lambda>pending.
         case pending of None \<Rightarrow> done_with () | Some p \<Rightarrow> finalize_deletion f (Suc j) n i (vr_revision p))) (\<lambda>_. row_gone i) keyed"
  proof (rule runs_and_then[OF begin_reports[OF assms]])
    show "runs (\<lambda>w. keyed w \<and> (pending = None \<longrightarrow> row_gone i w))
        (case pending of None \<Rightarrow> done_with () | Some p \<Rightarrow> finalize_deletion f (Suc j) n i (vr_revision p))
        (\<lambda>_. row_gone i) keyed" for pending
    proof (cases pending)
      case None
      then show ?thesis by (simp add: runs_def done_with_def)
    next
      case (Some p)
      show ?thesis unfolding Some option.case by (rule runs_pre[OF Suc.IH]) simp
    qed
  qed
  show ?case unfolding finalize_deletion.simps
  proof (rule runs_and_then[OF try_reports[OF first]], rule runs_if)
    show "runs (\<lambda>w. keyed w \<and> (finished \<longrightarrow> row_gone i w)) (done_with ()) (\<lambda>_. row_gone i) keyed"
      if "finished" for finished using that by (simp add: runs_def done_with_def)
    show "runs (\<lambda>w. keyed w \<and> (finished \<longrightarrow> row_gone i w))
      (and_then (begin_deletion (f j) 1 MAX_PROVIDER_WRITE_ATTEMPTS i) (\<lambda>pending.
         case pending of None \<Rightarrow> done_with () | Some p \<Rightarrow> finalize_deletion f (Suc j) n i (vr_revision p))) (\<lambda>_. row_gone i) keyed"
      for finished by (rule runs_pre[OF again]) simp
  qed
qed

text \<open>A deletion that reports success has deleted: whatever calls failed, also after they took effect, and
  whatever others did, the row of the connection is gone when the service answers.\<close>

lemma reported_deletion_deleted:
  assumes env: "\<And>j. plain_env (f j)" and "keys_unique (sw_db w)" and "delete_connection f i w = (w', Returned ())"
  shows "getStoredProvider (sw_db w') i = None"
proof -
  have "runs keyed (delete_connection f i) (\<lambda>_. row_gone i) keyed"
    unfolding delete_connection_def
  proof (rule runs_and_then[OF begin_reports[OF env]])
    fix deleting :: "provider_connection versioned option"
    show "runs (\<lambda>w. keyed w \<and> (deleting = None \<longrightarrow> row_gone i w))
      (case deleting of None \<Rightarrow> done_with ()
       | Some c \<Rightarrow>
           and_then (called (f 1 0) (on_secrets (\<lambda>st. secret_delete st (prov_secretRef (vr_value c))))) (\<lambda>_.
             finalize_deletion f 2 MAX_PROVIDER_WRITE_ATTEMPTS i (vr_revision c))) (\<lambda>_. row_gone i) keyed"
    proof (cases deleting)
      case None
      then show ?thesis by (simp add: runs_def done_with_def)
    next
      case (Some c)
      have "runs keyed (called (f 1 0) (on_secrets (\<lambda>st. secret_delete st (prov_secretRef (vr_value c))))) (\<lambda>_. keyed) keyed"
        by (rule runs_secret[OF stable_keyed]) (use env[of 1] in \<open>auto simp: plain_env_def\<close>)
      then have "runs keyed (and_then (called (f 1 0) (on_secrets (\<lambda>st. secret_delete st (prov_secretRef (vr_value c))))) (\<lambda>_.
             finalize_deletion f 2 MAX_PROVIDER_WRITE_ATTEMPTS i (vr_revision c))) (\<lambda>_. row_gone i) keyed"
        by (rule runs_and_then) (rule finalize_reports[OF env])
      then show ?thesis unfolding Some option.case by (rule runs_pre) simp
    qed
  qed
  then show ?thesis using assms(2,3) by (force simp: runs_def row_gone_def getStoredProvider_def)
qed

lemma reported_deletion_deleted_witness:
  "let f = (\<lambda>j k. ([], if j = 2 \<and> k = 0 then FailsAfter PlainError else Works))
   in case delete_connection f ''p'' connected_world of (w, r) \<Rightarrow>
        r = Returned () \<and> getStoredProvider (sw_db w) ''p'' = None"
proof -
  let ?f = "\<lambda>(j :: nat) (k :: nat). ([], if j = 2 \<and> k = 0 then FailsAfter PlainError else Works) :: repo_op list \<times> fault"
  let ?w = "half_deleted_world\<lparr>sw_secrets := secret_delete (sw_secrets half_deleted_world) ''provider:p''\<rparr>"
  let ?d = "fst (finalizeProviderDeletion (sw_db half_deleted_world) ''p'' 2)"
  have keys: "keys_unique (sw_db connected_world)" by (rule refs_okD(1)[OF reachable_refs_ok[OF connected_reachable]])
  have gone: "map_of (db_providers ?d) ''p'' = None" "snd (finalizeProviderDeletion (sw_db half_deleted_world) ''p'' 2) \<noteq> throw ConflictError"
    using finalize_pending_provider[OF reachable_refs_ok[OF half_deleted_reachable] half_deleted_row] by simp_all
  have attempts: "MAX_PROVIDER_WRITE_ATTEMPTS = Suc 4" by (simp add: MAX_PROVIDER_WRITE_ATTEMPTS_def)
  have "try_finalize (?f 2 0) ''p'' 2 ?w = (?w\<lparr>sw_db := ?d\<rparr>, Returned False)"
    by (simp add: try_finalize_def on_error_def and_then_def called_def meanwhile_def on_db_def done_with_def case_prod_beta)
  moreover have "begin_deletion (?f 2) 1 (Suc 4) ''p'' (?w\<lparr>sw_db := ?d\<rparr>) = (?w\<lparr>sw_db := ?d\<rparr>, Returned None)"
    using begin_working[where xs = "[]" and f = "?f 2" and k = 1 and n = 4 and i = "''p''" and w = "?w\<lparr>sw_db := ?d\<rparr>"] gone(1)
      finalize_deletion_keys[OF refs_okD(1)[OF reachable_refs_ok[OF half_deleted_reachable]]] by simp
  ultimately have "finalize_deletion ?f 2 (Suc 4) ''p'' 2 ?w = (?w\<lparr>sw_db := ?d\<rparr>, Returned ())"
    by (simp only: finalize_deletion.simps and_then_def done_with_def attempts prod.case reply.case option.case if_False)
  then have run: "delete_connection ?f ''p'' connected_world = (?w\<lparr>sw_db := ?d\<rparr>, Returned ())"
    using begin_connected[of "?f 0" 0 4]
    by (simp add: delete_connection_def and_then_def attempts called_def meanwhile_def on_secrets_def
        del: begin_deletion.simps finalize_deletion.simps)
  from reported_deletion_deleted[OF _ keys run] show ?thesis using run by (simp add: plain_env_def)
qed

section \<open>The credential of a lost creation\<close>

text \<open>C35: No reconciliation repairs a lost creation: when a creation stores its credential and then crashes
  before the row is written, or fails there and cannot read the outcome, the credential stays
  without a connection through every later call of the service, deletions of that very identifier
  included, as long as no connection is created with the identifier again.\<close>

theorem lost_creation_orphans_credential:
  assumes before: "(provider_call created0)\<^sup>*\<^sup>* fresh_world w" and "getStoredProvider (sw_db w) i = None"
    and lost: "snd (f 1) = CrashesBefore \<or> (snd (f 1) = FailsBefore e \<and> snd (f 2) = FailsBefore e2)"
    and calls: "plain_env f" "snd (f 0) = Works" and login: "pq_authMode input \<noteq> Delegated" "login = resolve x"
    and run: "create_connection f input capabilities login i now w = (w1, a)"
    and after: "(provider_call created)\<^sup>*\<^sup>* w1 w2" and "i \<notin> created"
  shows "(\<forall>c. a \<noteq> Returned c) \<and> getStoredProvider (sw_db w2) i = None \<and> sw_secrets w2 (''provider:'' @ i) \<noteq> None"
proof -
  have ok: "providers_ok {} w" by (rule calls_keep[OF before fresh_providers_ok]) simp
  then have keys: "keys_unique (sw_db w)" by (simp add: providers_ok_def)
  have plain: "\<forall>x \<in> set (fst (f k)). plain_op x" for k using calls(1) by (simp add: plain_env_def)
  define v where "v = w\<lparr>sw_db := run_ops (fst (f 0)) (sw_db w), sw_secrets := secret_put (sw_secrets w) (''provider:'' @ i) (idn_accessToken x)\<rparr>"
  have "providers_ok {} (meanwhile (fst (f 0)) w)" using stable_ok[of "{}"] ok plain by (simp add: stable_def)
  from put_ok[OF this, of "''provider:'' @ i" "idn_accessToken x"] have "providers_ok {} v" by (simp add: v_def meanwhile_def)
  moreover have "orphaned i v"
    using plain_gone[OF keys plain, of i 0] assms(2) by (simp add: orphaned_def v_def own_ref_def secret_put_def getStoredProvider_def)
  ultimately have v: "providers_ok {i} v" by (simp add: providers_ok_def)
  have v1: "providers_ok {i} (meanwhile (fst (f 1)) v)" "providers_ok {i} (meanwhile (fst (f 2)) (meanwhile (fst (f 1)) v))"
    using stable_ok[of "{i}"] v plain by (simp_all add: stable_def)
  have "\<exists>b. (w1, a) \<in> {(meanwhile (fst (f 1)) v, Crashed), (meanwhile (fst (f 2)) (meanwhile (fst (f 1)) v), Raised b)}"
    using run lost calls(2) login
    by (auto simp: create_connection_def new_connection_def Let_def and_then_def called_def on_secrets_def meanwhile_def
        on_error_def settle_creation_def tried_def done_with_def raise_def v_def)
  then have w1: "providers_ok {i} w1" "\<forall>c. a \<noteq> Returned c" using v1 by auto
  have "providers_ok {i} w2" by (rule calls_keep[OF after w1(1)]) (use assms(10) in simp)
  then have "orphaned i w2" by (simp add: providers_ok_def)
  then show ?thesis using w1(2) by (simp add: orphaned_def own_ref_def getStoredProvider_def)
qed

theorem lost_creation_orphans_credential_witness:
  "let w1 = fst (create_connection (\<lambda>k. ([], if k = 1 then CrashesBefore else Works)) sample_provider_request []
               (resolve sample_identity) ''p'' 5 fresh_world);
       w2 = fst (delete_connection (working (\<lambda>_ _. [])) ''p'' w1)
   in getStoredProvider (sw_db w2) ''p'' = None \<and> sw_secrets w2 ''provider:p'' \<noteq> None"
proof -
  let ?f = "\<lambda>k :: nat. ([], if k = 1 then CrashesBefore else Works) :: repo_op list \<times> fault"
  obtain w1 a where create: "create_connection ?f sample_provider_request [] (resolve sample_identity) ''p'' 5 fresh_world = (w1, a)"
    by fastforce
  obtain w2 b where delete: "delete_connection (working (\<lambda>_ _. [])) ''p'' w1 = (w2, b)" by fastforce
  have later: "(provider_call {})\<^sup>*\<^sup>* w1 w2"
    by (rule r_into_rtranclp, rule call_delete[OF _ delete]) (simp add: plain_env_def)
  have "getStoredProvider (sw_db fresh_world) ''p'' = None" by (simp add: fresh_world_def empty_db_def getStoredProvider_def)
  from lost_creation_orphans_credential[where e = PlainError and ?e2.0 = PlainError, OF rtranclp.rtrancl_refl this _ _ _ _ refl create later]
  show ?thesis using create delete by (simp add: plain_env_def sample_provider_request_def)
qed

end
