(* ===== verification/RelayAuth.thy ===== *)
theory RelayAuth
  imports RelayProviders "HOL-Library.AList"
begin

text \<open>
  The authentication of the relay (\<^verbatim>\<open>apps/relay/src/auth.ts\<close>): recovery password, sign-in through a
  provider, browser sessions, personal tokens, users. The browser sessions live in memory, the
  credential of each in the secret store, and a setting that is written before and
  deleted after the credential lets a restart find it. SHA-256, argon2 and the JSON codec are
  parameters.
\<close>

section \<open>Browser sessions and principals\<close>

datatype auth_method = JellyfinLogin | RecoveryLogin

record browser_session =
  bs_csrfToken :: string
  bs_expiresAt :: instant
  bs_authMethod :: auth_method
  bs_identityId :: "ident option"
  bs_providerId :: "ident option"
  bs_providerUserId :: "ident option"
  bs_secretRef :: "string option"
  bs_credentialSettingKey :: "string option"

record persisted_credential =
  pc_identityId :: ident
  pc_secretRef :: string
  pc_expiresAt :: instant

datatype principal_kind = JellyfinSession | RecoverySession | PersonalToken

record principal =
  pr_kind :: principal_kind
  pr_id :: "ident option"
  pr_displayName :: "string option"
  pr_roles :: "user_role list"
  pr_scopes :: "scope list"
  pr_csrfToken :: "string option"
  pr_providerId :: "ident option"
  pr_providerUserId :: "ident option"
  pr_secretRef :: "string option"

fun roleScopes :: "user_role \<Rightarrow> scope list" where
  "roleScopes RoleUser = [CatalogRead, SessionsCreate, SessionsRead, SessionsControl]"
| "roleScopes RoleOperator = [CatalogRead, SessionsCreate, SessionsRead, SessionsControl]"
| "roleScopes RoleAdmin = [ScopeAdmin]"
| "roleScopes RoleOwner = [ScopeAdmin]"

text \<open>\<open>parse\<close> is \<^verbatim>\<open>JSON.parse\<close> with the \<^verbatim>\<open>typeof\<close> tests: a field that is no string, no finite number is nothing.\<close>

record partial_credential =
  pt_identityId :: "string option"
  pt_secretRef :: "string option"
  pt_expiresAt :: "instant option"

record auth_platform =
  ap_hashToken :: "string \<Rightarrow> string"
  ap_stringify :: "persisted_credential \<Rightarrow> string"
  ap_parse :: "string \<Rightarrow> partial_credential option"
  ap_parseConfiguration :: "string \<Rightarrow> ident outcome"
  ap_argon2 :: "string \<Rightarrow> string"
  ap_verify :: "string \<Rightarrow> string \<Rightarrow> bool"
  ap_secrets :: bool
  ap_providers :: bool

record auth_world =
  aw_sessions :: "(string \<times> browser_session) list"
  aw_world :: session_world

text \<open>A call of the repository, the secret store or the provider service; a change of \<^verbatim>\<open>#sessions\<close>.\<close>

definition outside :: "'a action \<Rightarrow> (auth_world, 'a) handler" where
  "outside m a = (case m (aw_world a) of (w, r) \<Rightarrow> (a\<lparr>aw_world := w\<rparr>, r))"

definition on_sessions :: "((string \<times> browser_session) list \<Rightarrow> (string \<times> browser_session) list) \<Rightarrow> (auth_world, unit) handler" where
  "on_sessions g a = (a\<lparr>aw_sessions := g (aw_sessions a)\<rparr>, Returned ())"

section \<open>Set-up\<close>

definition PASSWORD_KEY :: string where
  "PASSWORD_KEY = ''admin.passwordHash''"

definition SIGN_IN_CONFIGURATION_KEY :: string where
  "SIGN_IN_CONFIGURATION_KEY = ''auth.signInConfiguration''"

definition BROWSER_CREDENTIAL_SETTING_PREFIX :: string where
  "BROWSER_CREDENTIAL_SETTING_PREFIX = ''auth.browserCredential.''"

definition configured :: "db \<Rightarrow> bool" where
  "configured d \<longleftrightarrow> truthy (getSetting d PASSWORD_KEY)"

definition initialize :: "auth_platform \<Rightarrow> call_env \<Rightarrow> instant \<Rightarrow> string \<Rightarrow> unit action" where
  "initialize pl f now password =
     and_then (called (f 0) (read_db (\<lambda>d. getSetting d PASSWORD_KEY))) (\<lambda>stored.
       if truthy stored then raise PlainError
       else and_then (called (f 1) (on_db (\<lambda>d. putSettingIfAbsent d PASSWORD_KEY (ap_argon2 pl password) now)))
              (\<lambda>(inserted, _). if inserted then done_with () else raise PlainError))"

definition sign_in_configuration :: "auth_platform \<Rightarrow> db \<Rightarrow> ident option outcome" where
  "sign_in_configuration pl d =
     (case getSetting d SIGN_IN_CONFIGURATION_KEY of
        None \<Rightarrow> resolve None
      | Some s \<Rightarrow> if s = [] then resolve None else map_sum id Some (ap_parseConfiguration pl s))"

text \<open>\<open>text'\<close> is the JSON text of a configuration that the schema accepts.\<close>

definition configure :: "repo_op list \<times> fault \<Rightarrow> instant \<Rightarrow> string \<Rightarrow> unit action" where
  "configure c now text' = called c (write_db (\<lambda>d. putSetting d SIGN_IN_CONFIGURATION_KEY text' now))"

section \<open>Credentials of browser sessions\<close>

definition browser_ref :: "string \<Rightarrow> string" where
  "browser_ref tokenHash = ''browser-session:'' @ tokenHash"

definition browser_key :: "string \<Rightarrow> string" where
  "browser_key tokenHash = BROWSER_CREDENTIAL_SETTING_PREFIX @ tokenHash"

definition is_token_hash :: "string \<Rightarrow> bool" where
  "is_token_hash h \<longleftrightarrow> length h = 64 \<and> list_all (\<lambda>c. c \<in> set ''0123456789abcdef'') h"

definition read_persisted :: "auth_platform \<Rightarrow> string \<times> string \<Rightarrow> (string \<times> persisted_credential) outcome" where
  "read_persisted pl kv =
     (case ap_parse pl (snd kv) of
        None \<Rightarrow> throw PlainError
      | Some c \<Rightarrow>
          let tokenHash = drop (length BROWSER_CREDENTIAL_SETTING_PREFIX) (fst kv)
          in case (pt_identityId c, pt_expiresAt c) of
               (Some i, Some e) \<Rightarrow>
                 if is_token_hash tokenHash \<and> i \<noteq> [] \<and> pt_secretRef c = Some (browser_ref tokenHash)
                 then resolve (fst kv, \<lparr>pc_identityId = i, pc_secretRef = browser_ref tokenHash, pc_expiresAt = e\<rparr>)
                 else throw PlainError
             | _ \<Rightarrow> throw PlainError)"

fun read_all_persisted :: "auth_platform \<Rightarrow> (string \<times> string) list \<Rightarrow> (string \<times> persisted_credential) list outcome" where
  "read_all_persisted pl [] = resolve []"
| "read_all_persisted pl (kv # kvs) =
     (case read_persisted pl kv of
        Inl e \<Rightarrow> throw e
      | Inr c \<Rightarrow> map_sum id (\<lambda>cs. c # cs) (read_all_persisted pl kvs))"

definition persistedBrowserCredentials ::
    "auth_platform \<Rightarrow> repo_op list \<times> fault \<Rightarrow> (auth_world, (string \<times> persisted_credential) list) handler" where
  "persistedBrowserCredentials pl c =
     outside (called c (on_db (\<lambda>d. (d, read_all_persisted pl (listSettingsByPrefix d BROWSER_CREDENTIAL_SETTING_PREFIX)))))"

definition deletePersistedBrowserCredential ::
    "auth_platform \<Rightarrow> call_env \<Rightarrow> string \<Rightarrow> string \<Rightarrow> (auth_world, unit) handler" where
  "deletePersistedBrowserCredential pl f key secretRef =
     and_then (if ap_secrets pl then outside (called (f 0) (on_secrets (\<lambda>st. secret_delete st secretRef))) else done_with ())
       (\<lambda>_. outside (called (f 1) (write_db (\<lambda>d. deleteSetting d key))))"

text \<open>
  Many deletions: of a restart, up to the first error; of a cleanup, each on its own; of a user
  (\<^verbatim>\<open>Promise.all\<close>), each whether or not another failed, and then the first error.
\<close>

fun delete_until_error ::
    "auth_platform \<Rightarrow> (nat \<Rightarrow> call_env) \<Rightarrow> nat \<Rightarrow> (string \<times> string) list \<Rightarrow> (auth_world, unit) handler" where
  "delete_until_error pl f k [] = done_with ()"
| "delete_until_error pl f k ((key, ref) # cs) =
     and_then (deletePersistedBrowserCredential pl (f k) key ref) (\<lambda>_. delete_until_error pl f (Suc k) cs)"

fun delete_quietly ::
    "auth_platform \<Rightarrow> (nat \<Rightarrow> call_env) \<Rightarrow> nat \<Rightarrow> (string \<times> string) list \<Rightarrow> (auth_world, unit) handler" where
  "delete_quietly pl f k [] = done_with ()"
| "delete_quietly pl f k ((key, ref) # cs) =
     and_then (quietly (deletePersistedBrowserCredential pl (f k) key ref)) (\<lambda>_. delete_quietly pl f (Suc k) cs)"

definition settled :: "('s, unit) handler \<Rightarrow> ('s, app_error option) handler" where
  "settled m = on_error (and_then m (\<lambda>_. done_with None)) (\<lambda>e. done_with (Some e))"

definition fail_with :: "app_error option \<Rightarrow> ('s, unit) handler" where
  "fail_with e = (case e of None \<Rightarrow> done_with () | Some x \<Rightarrow> raise x)"

fun all_settled :: "('s, unit) handler list \<Rightarrow> ('s, unit) handler" where
  "all_settled [] = done_with ()"
| "all_settled (m # ms) =
     and_then (settled m) (\<lambda>e. and_then (settled (all_settled ms)) (\<lambda>e'. fail_with (case e of None \<Rightarrow> e' | Some _ \<Rightarrow> e)))"

definition delete_all ::
    "auth_platform \<Rightarrow> (nat \<Rightarrow> call_env) \<Rightarrow> (string \<times> string) list \<Rightarrow> (auth_world, unit) handler" where
  "delete_all pl f cs =
     all_settled (map (\<lambda>(k, (key, ref)). deletePersistedBrowserCredential pl (f k) key ref) (enumerate 0 cs))"

section \<open>Signing in\<close>

definition login_recovery :: "auth_platform \<Rightarrow> string \<Rightarrow> string \<Rightarrow> instant \<Rightarrow> string \<Rightarrow> (auth_world, string) handler" where
  "login_recovery pl token csrfToken now password a =
     (case getSetting (sw_db (aw_world a)) PASSWORD_KEY of
        None \<Rightarrow> (a, Raised UnauthorizedError)
      | Some h \<Rightarrow>
          if h = [] \<or> \<not> ap_verify pl h password then (a, Raised UnauthorizedError)
          else (a\<lparr>aw_sessions := AList.update (ap_hashToken pl token)
                  \<lparr>bs_csrfToken = csrfToken, bs_expiresAt = now + 12 * 60 * 60 * 1000, bs_authMethod = RecoveryLogin,
                   bs_identityId = None, bs_providerId = None, bs_providerUserId = None, bs_secretRef = None,
                   bs_credentialSettingKey = None\<rparr> (aw_sessions a)\<rparr>, Returned token))"

record login_identity =
  li_identityId :: ident
  li_providerId :: ident
  li_providerUserId :: ident
  li_displayName :: string
  li_observedAt :: instant

definition new_identity :: "login_identity \<Rightarrow> user_identity" where
  "new_identity x =
     \<lparr>user_id = li_identityId x, user_providerId = li_providerId x, user_providerUserId = li_providerUserId x,
      user_displayName = li_displayName x, user_roles = [RoleUser], user_defaultProfileId = None,
      user_allowedProfileIds = [], user_firstSeenAt = li_observedAt x, user_lastSeenAt = li_observedAt x\<rparr>"

definition refreshed :: "login_identity \<Rightarrow> user_identity \<Rightarrow> user_identity" where
  "refreshed x u = u\<lparr>user_displayName := li_displayName x, user_lastSeenAt := li_observedAt x\<rparr>"

text \<open>The row to refresh, or the row that this attempt created.\<close>

definition create_or_reread ::
    "call_env \<Rightarrow> nat \<Rightarrow> login_identity \<Rightarrow> (user_identity versioned + user_identity versioned) action" where
  "create_or_reread f k x =
     on_error
       (and_then (called (f k) (on_db (\<lambda>d. createUserIdentity d (new_identity x)))) (\<lambda>r. done_with (Inl r)))
       (\<lambda>e. and_then (called (f (k + 1)) (read_db (\<lambda>d. getUserIdentity d (li_identityId x)))) (\<lambda>r.
          case r of None \<Rightarrow> raise e | Some c \<Rightarrow> done_with (Inr c)))"

definition sign_in_conflict :: app_error where
  "sign_in_conflict = CodedError ''sign_in_conflict'' 409"

fun refresh_identity ::
    "call_env \<Rightarrow> nat \<Rightarrow> nat \<Rightarrow> login_identity \<Rightarrow> user_identity versioned option \<Rightarrow> user_identity versioned action" where
  "refresh_identity f k 0 x current = raise sign_in_conflict"
| "refresh_identity f k (Suc n) x current =
     and_then (case current of None \<Rightarrow> create_or_reread f k x | Some c \<Rightarrow> done_with (Inr c)) (\<lambda>row.
       case row of
         Inl c \<Rightarrow> done_with c
       | Inr c \<Rightarrow>
           and_then (called (f (k + 2)) (on_db (\<lambda>d. apsnd resolve
               (compareAndSetUserIdentity d (refreshed x (vr_value c)) (vr_revision c))))) (\<lambda>updated.
             case updated of
               Applied r \<Rightarrow> done_with r
             | Rejected _ (Some u) _ \<Rightarrow>
                 if li_observedAt x \<le> user_lastSeenAt (vr_value u) then done_with u
                 else refresh_identity f (k + 3) n x (Some u)
             | Rejected _ None _ \<Rightarrow> refresh_identity f (k + 3) n x None))"

definition refreshIdentityAfterLogin :: "call_env \<Rightarrow> login_identity \<Rightarrow> user_identity versioned action" where
  "refreshIdentityAfterLogin f x =
     and_then (called (f 0) (read_db (\<lambda>d. getUserIdentity d (li_identityId x)))) (refresh_identity f 1 5 x)"

definition persisted_credential_of :: "ident \<Rightarrow> string \<Rightarrow> instant \<Rightarrow> persisted_credential" where
  "persisted_credential_of identityId tokenHash expiresAt =
     \<lparr>pc_identityId = identityId, pc_secretRef = browser_ref tokenHash, pc_expiresAt = expiresAt\<rparr>"

definition browser_session_of :: "login_identity \<Rightarrow> string \<Rightarrow> string \<Rightarrow> instant \<Rightarrow> browser_session" where
  "browser_session_of x tokenHash csrfToken expiresAt =
     \<lparr>bs_csrfToken = csrfToken, bs_expiresAt = expiresAt, bs_authMethod = JellyfinLogin,
      bs_identityId = Some (li_identityId x), bs_providerId = Some (li_providerId x),
      bs_providerUserId = Some (li_providerUserId x), bs_secretRef = Some (browser_ref tokenHash),
      bs_credentialSettingKey = Some (browser_key tokenHash)\<rparr>"

text \<open>The credential operation of a sign-in.\<close>

definition store_credential ::
    "auth_platform \<Rightarrow> call_env \<Rightarrow> instant \<Rightarrow> login_identity \<Rightarrow> string \<Rightarrow> string \<Rightarrow> string \<Rightarrow> instant \<Rightarrow> (auth_world, unit) handler" where
  "store_credential pl f now x tokenHash csrfToken accessToken expiresAt =
     on_error
       (and_then (outside (called (f 0) (write_db (\<lambda>d. putSetting d (browser_key tokenHash)
           (ap_stringify pl (persisted_credential_of (li_identityId x) tokenHash expiresAt)) now)))) (\<lambda>_.
        and_then (outside (called (f 1) (on_secrets (\<lambda>st. secret_put st (browser_ref tokenHash) accessToken)))) (\<lambda>_.
          on_sessions (AList.update tokenHash (browser_session_of x tokenHash csrfToken expiresAt)))))
       (\<lambda>e. and_then (quietly (deletePersistedBrowserCredential pl (\<lambda>k. f (2 + k)) (browser_key tokenHash) (browser_ref tokenHash)))
              (\<lambda>_. raise e))"

text \<open>\<^verbatim>\<open>[...new Set(xs)]\<close> keeps the first occurrence of each element.\<close>

definition js_distinct :: "'a list \<Rightarrow> 'a list" where
  "js_distinct xs = rev (remdups (rev xs))"

definition principalFromIdentity :: "user_identity \<Rightarrow> string \<Rightarrow> string option \<Rightarrow> principal" where
  "principalFromIdentity u csrfToken secretRef =
     \<lparr>pr_kind = JellyfinSession, pr_id = Some (user_id u), pr_displayName = Some (user_displayName u),
      pr_roles = user_roles u, pr_scopes = js_distinct (concat (map roleScopes (user_roles u))),
      pr_csrfToken = Some csrfToken, pr_providerId = Some (user_providerId u),
      pr_providerUserId = Some (user_providerUserId u), pr_secretRef = (if truthy secretRef then secretRef else None)\<rparr>"

text \<open>What the environment gives to a sign-in: the token, the CSRF token, the clock.\<close>

record login_draw =
  ld_token :: string
  ld_csrfToken :: string
  ld_now :: instant
  ld_later :: instant

text \<open>\<open>answer\<close> is what the provider answers to the credentials of the user.\<close>

definition login_jellyfin ::
    "auth_platform \<Rightarrow> (nat \<Rightarrow> call_env) \<Rightarrow> (nat \<Rightarrow> instant) \<Rightarrow> (provider_connection \<Rightarrow> provider_identity outcome) \<Rightarrow>
       string \<Rightarrow> login_draw \<Rightarrow> (auth_world, string \<times> principal) handler" where
  "login_jellyfin pl f clock answer username r =
     (if \<not> ap_providers pl \<or> \<not> ap_secrets pl then raise (CodedError ''sign_in_unavailable'' 503)
      else and_then (outside (called (f 0 0) (on_db (\<lambda>d. (d, sign_in_configuration pl d))))) (\<lambda>stored.
        case stored of
          None \<Rightarrow> raise (CodedError ''sign_in_not_configured'' 409)
        | Some providerId \<Rightarrow>
            and_then (outside (authenticate_user (f 1) clock answer providerId)) (\<lambda>identity.
              if \<not> truthy (idn_userId identity) then raise UnauthorizedError
              else
                let tokenHash = ap_hashToken pl (ld_token r);
                    userId = the (idn_userId identity);
                    expiresAt = ld_now r + 12 * 60 * 60 * 1000;
                    x = \<lparr>li_identityId = ap_hashToken pl (providerId @ char_of (0 :: nat) # userId), li_providerId = providerId,
                         li_providerUserId = userId, li_displayName = coalesce (idn_username identity) username,
                         li_observedAt = ld_later r\<rparr>
                in and_then (outside (refreshIdentityAfterLogin (f 2) x)) (\<lambda>u.
                   and_then (store_credential pl (f 3) (ld_later r) x tokenHash (ld_csrfToken r) (idn_accessToken identity) expiresAt) (\<lambda>_.
                     done_with (ld_token r, principalFromIdentity (vr_value u) (ld_csrfToken r) (Some (browser_ref tokenHash))))))))"

section \<open>Requests\<close>

definition assertScopes :: "principal \<Rightarrow> scope list \<Rightarrow> unit outcome" where
  "assertScopes p required =
     (if ScopeAdmin \<in> set (pr_scopes p) then resolve ()
      else if list_ex (\<lambda>s. s \<notin> set (pr_scopes p)) required then throw UnauthorizedError
      else resolve ())"

definition recovery_principal :: "string \<Rightarrow> principal" where
  "recovery_principal csrfToken =
     \<lparr>pr_kind = RecoverySession, pr_id = Some ''local-recovery-owner'', pr_displayName = Some ''Recovery owner'',
      pr_roles = [RoleOwner], pr_scopes = [ScopeAdmin], pr_csrfToken = Some csrfToken, pr_providerId = None,
      pr_providerUserId = None, pr_secretRef = None\<rparr>"

definition browserPrincipal :: "db \<Rightarrow> browser_session \<Rightarrow> principal outcome" where
  "browserPrincipal d s =
     (if bs_authMethod s = RecoveryLogin then resolve (recovery_principal (bs_csrfToken s))
      else case (if truthy (bs_identityId s) then getUserIdentity d (the (bs_identityId s)) else None) of
        None \<Rightarrow> throw UnauthorizedError
      | Some u \<Rightarrow> resolve (principalFromIdentity (vr_value u) (bs_csrfToken s) (bs_secretRef s)))"

definition token_principal :: "personal_access_token \<Rightarrow> principal" where
  "token_principal t =
     \<lparr>pr_kind = PersonalToken, pr_id = Some (tok_id t), pr_displayName = None, pr_roles = [], pr_scopes = tok_scopes t,
      pr_csrfToken = None, pr_providerId = None, pr_providerUserId = None, pr_secretRef = None\<rparr>"

definition with_scopes :: "scope list \<Rightarrow> principal outcome \<Rightarrow> principal outcome" where
  "with_scopes required p =
     (case p of Inl e \<Rightarrow> throw e | Inr q \<Rightarrow> (case assertScopes q required of Inl e \<Rightarrow> throw e | Inr _ \<Rightarrow> resolve q))"

definition live_session :: "auth_platform \<Rightarrow> instant \<Rightarrow> string option \<Rightarrow> auth_world \<Rightarrow> browser_session option" where
  "live_session pl now cookie a =
     (if \<not> truthy cookie then None
      else case map_of (aw_sessions a) (ap_hashToken pl (the cookie)) of
        None \<Rightarrow> None
      | Some s \<Rightarrow> if now < bs_expiresAt s then Some s else None)"

definition authenticate ::
    "auth_platform \<Rightarrow> instant \<Rightarrow> string option \<Rightarrow> string option \<Rightarrow> scope list \<Rightarrow> auth_world \<Rightarrow> auth_world \<times> principal outcome" where
  "authenticate pl now cookie authorization required a =
     (case live_session pl now cookie a of
        Some s \<Rightarrow> (a, with_scopes required (browserPrincipal (sw_db (aw_world a)) s))
      | None \<Rightarrow>
          (case authorization of
             None \<Rightarrow> (a, throw UnauthorizedError)
           | Some h \<Rightarrow>
               if \<not> starts_with ''Bearer '' h then (a, throw UnauthorizedError)
               else
                 (case usePersonalToken (sw_db (aw_world a))
                        \<lparr>ptu_tokenHash = ap_hashToken pl (drop 7 h), ptu_usedAt = now, ptu_touchBefore = now - 60000\<rparr> of
                    (d, used) \<Rightarrow>
                      (a\<lparr>aw_world := (aw_world a)\<lparr>sw_db := d\<rparr>\<rparr>,
                       case used of None \<Rightarrow> throw UnauthorizedError
                       | Some t \<Rightarrow> with_scopes required (resolve (token_principal t))))))"

record public_principal =
  pp_id :: string
  pp_displayName :: string
  pp_authMethod :: principal_kind
  pp_roles :: "user_role list"
  pp_permissions :: "scope list"
  pp_providerId :: "ident option"

definition publicPrincipal :: "principal \<Rightarrow> public_principal" where
  "publicPrincipal p =
     \<lparr>pp_id = coalesce (pr_id p) [], pp_displayName = coalesce (pr_displayName p) ''API client'',
      pp_authMethod = pr_kind p, pp_roles = pr_roles p, pp_permissions = pr_scopes p,
      pp_providerId = (if truthy (pr_providerId p) then pr_providerId p else None)\<rparr>"

definition requireCsrf :: "string option \<Rightarrow> principal \<Rightarrow> unit outcome" where
  "requireCsrf header p =
     (if pr_kind p = PersonalToken then resolve ()
      else if \<not> truthy (pr_csrfToken p) \<or> header \<noteq> pr_csrfToken p then throw UnauthorizedError
      else resolve ())"

definition credential :: "auth_platform \<Rightarrow> principal \<Rightarrow> secret_store \<Rightarrow> string outcome" where
  "credential pl p st =
     (if pr_kind p \<noteq> JellyfinSession \<or> \<not> truthy (pr_secretRef p) \<or> \<not> ap_secrets pl
      then throw (CodedError ''catalog_unavailable'' 403)
      else secret_get st (the (pr_secretRef p)))"

definition credential_pair :: "browser_session \<Rightarrow> (string \<times> string) option" where
  "credential_pair s =
     (if truthy (bs_secretRef s) \<and> truthy (bs_credentialSettingKey s)
      then Some (the (bs_credentialSettingKey s), the (bs_secretRef s)) else None)"

definition logout :: "auth_platform \<Rightarrow> call_env \<Rightarrow> string option \<Rightarrow> (auth_world, unit) handler" where
  "logout pl f token a =
     (if \<not> truthy token then (a, Returned ())
      else
        let h = ap_hashToken pl (the token)
        in and_then (on_sessions (AList.delete h)) (\<lambda>_.
             case Option.bind (map_of (aw_sessions a) h) credential_pair of
               None \<Rightarrow> done_with ()
             | Some (key, ref) \<Rightarrow> quietly (deletePersistedBrowserCredential pl f key ref)) a)"

section \<open>Users\<close>

record user_update =
  uu_roles :: "user_role list"
  uu_allowedProfileIds :: "ident list"
  uu_defaultProfileId :: "ident option"

definition updated_user :: "user_update \<Rightarrow> user_identity \<Rightarrow> user_identity" where
  "updated_user u c =
     (let v = c\<lparr>user_roles := js_distinct (uu_roles u), user_allowedProfileIds := js_distinct (uu_allowedProfileIds u)\<rparr>
      in if truthy (uu_defaultProfileId u) then v\<lparr>user_defaultProfileId := uu_defaultProfileId u\<rparr>
         else if user_allowedProfileIds v = [] then v\<lparr>user_defaultProfileId := None\<rparr>
         else v)"

definition revision_conflict :: app_error where
  "revision_conflict = CodedError ''revision_conflict'' 409"

definition updateUser :: "call_env \<Rightarrow> ident \<Rightarrow> nat \<Rightarrow> user_update \<Rightarrow> user_identity versioned action" where
  "updateUser f i expectedRevision u =
     and_then (called (f 0) (read_db (\<lambda>d. getUserIdentity d i))) (\<lambda>current.
       case current of
         None \<Rightarrow> raise (CodedError ''not_found'' 404)
       | Some c \<Rightarrow>
           if vr_revision c \<noteq> expectedRevision then raise revision_conflict
           else
             let v = updated_user u (vr_value c)
             in if truthy (user_defaultProfileId v) \<and> the (user_defaultProfileId v) \<notin> set (user_allowedProfileIds v)
                then raise (CodedError ''invalid_profile_access'' 409)
                else and_then (called (f 1) (on_db (\<lambda>d. apsnd resolve (compareAndSetUserIdentityPreservingOwner d v expectedRevision))))
                  (\<lambda>r. case r of
                     Applied x \<Rightarrow> done_with x
                   | Rejected reason _ _ \<Rightarrow>
                       if reason = DependencyConflict then raise (CodedError ''last_owner'' 409) else raise revision_conflict))"

definition hasActiveBrowserSession :: "ident \<Rightarrow> instant \<Rightarrow> auth_world \<Rightarrow> bool" where
  "hasActiveBrowserSession i now a \<longleftrightarrow>
     list_ex (\<lambda>(_, s). bs_identityId s = Some i \<and> now < bs_expiresAt s) (aw_sessions a)"

text \<open>The credential operation of a deletion.\<close>

definition remove_user_sessions ::
    "auth_platform \<Rightarrow> (nat \<Rightarrow> call_env) \<Rightarrow> ident \<Rightarrow> (auth_world, unit) handler" where
  "remove_user_sessions pl f i a =
     (let mine = filter (\<lambda>(_, s). bs_identityId s = Some i) (aw_sessions a);
          secretRefs = map (\<lambda>(_, s). the (bs_secretRef s)) (filter (\<lambda>(_, s). truthy (bs_secretRef s)) mine)
      in and_then (on_sessions (filter (\<lambda>(_, s). bs_identityId s \<noteq> Some i))) (\<lambda>_.
         and_then (persistedBrowserCredentials pl (f 0 0)) (\<lambda>all.
           let persisted = map (\<lambda>(key, c). (key, pc_secretRef c)) (filter (\<lambda>(_, c). pc_identityId c = i) all)
           in and_then (delete_all pl (\<lambda>k. f (Suc k)) persisted) (\<lambda>_.
                if ap_secrets pl
                then all_settled (map (\<lambda>(k, ref). outside (called (f 0 (Suc k)) (on_secrets (\<lambda>st. secret_delete st ref))))
                       (enumerate 0 (filter (\<lambda>ref. ref \<notin> snd ` set persisted) secretRefs)))
                else done_with ()))) a)"

definition deletion_error :: "failure_reason \<Rightarrow> string list \<Rightarrow> app_error" where
  "deletion_error reason dependencies =
     (if reason = NotFound then CodedError ''not_found'' 404
      else if reason = RevisionConflict then revision_conflict
      else if ''assigned-owner'' \<in> set dependencies then CodedError ''last_owner'' 409
      else CodedError ''user_has_owned_resources'' 409)"

definition deleteUser ::
    "auth_platform \<Rightarrow> repo_op list \<times> fault \<Rightarrow> (nat \<Rightarrow> call_env) \<Rightarrow> instant \<Rightarrow> ident \<Rightarrow> nat \<Rightarrow> ident option \<Rightarrow> instant option \<Rightarrow>
       (auth_world, bool) handler" where
  "deleteUser pl c f now i expectedRevision requesterId lastSeenBefore a =
     (if requesterId = Some i then (a, Raised (CodedError ''cannot_delete_self'' 409))
      else if lastSeenBefore \<noteq> None \<and> hasActiveBrowserSession i now a then (a, Returned False)
      else and_then (outside (called c (on_db (\<lambda>d. deleteUserIdentityPreservingOwner d i expectedRevision lastSeenBefore)))) (\<lambda>r.
        case r of
          Deleted _ \<Rightarrow> and_then (remove_user_sessions pl f i) (\<lambda>_. done_with True)
        | NotDeleted reason _ dependencies \<Rightarrow>
            if lastSeenBefore \<noteq> None \<and> (reason = InvalidState \<or> reason = RevisionConflict) then done_with False
            else raise (deletion_error reason dependencies)) a)"

section \<open>Personal tokens\<close>

definition new_token :: "auth_platform \<Rightarrow> ident \<Rightarrow> string \<Rightarrow> string \<Rightarrow> scope list \<Rightarrow> instant option \<Rightarrow> instant \<Rightarrow> personal_access_token" where
  "new_token pl i token name scopes expiresAt now =
     \<lparr>tok_id = i, tok_name = name, tok_tokenHash = ap_hashToken pl token, tok_scopes = scopes, tok_expiresAt = expiresAt,
      tok_lastUsedAt = None, tok_revokedAt = None, tok_createdAt = now\<rparr>"

definition createPersonalToken ::
    "auth_platform \<Rightarrow> ident \<Rightarrow> string \<Rightarrow> string \<Rightarrow> scope list \<Rightarrow> instant option \<Rightarrow> instant \<Rightarrow> db \<Rightarrow> (db \<times> string) outcome" where
  "createPersonalToken pl i drawn name scopes expiresAt now d =
     map_sum id (\<lambda>d'. (d', ''vrr_'' @ drawn)) (putPersonalToken d (new_token pl i (''vrr_'' @ drawn) name scopes expiresAt now))"

section \<open>Cleanup and recovery\<close>

fun drop_expired ::
    "auth_platform \<Rightarrow> (nat \<Rightarrow> call_env) \<Rightarrow> (nat \<Rightarrow> instant) \<Rightarrow> nat \<Rightarrow> (string \<times> browser_session) list \<Rightarrow> (auth_world, unit) handler" where
  "drop_expired pl f clock k [] = done_with ()"
| "drop_expired pl f clock k ((h, s) # ss) =
     (if clock k < bs_expiresAt s then drop_expired pl f clock (Suc k) ss
      else and_then (on_sessions (AList.delete h)) (\<lambda>_.
           and_then (case credential_pair s of None \<Rightarrow> done_with ()
                     | Some (key, ref) \<Rightarrow> quietly (deletePersistedBrowserCredential pl (f k) key ref)) (\<lambda>_.
             drop_expired pl f clock (Suc k) ss)))"

definition activeSettingKeys :: "(string \<times> browser_session) list \<Rightarrow> string list" where
  "activeSettingKeys ss = map the (filter truthy (map (\<lambda>(_, s). bs_credentialSettingKey s) ss))"

definition drop_inactive ::
    "auth_platform \<Rightarrow> call_env \<Rightarrow> (nat \<Rightarrow> call_env) \<Rightarrow> (auth_world, unit) handler" where
  "drop_inactive pl c f a =
     and_then (persistedBrowserCredentials pl (c 0)) (\<lambda>all.
       delete_quietly pl f 0 (map (\<lambda>(key, x). (key, pc_secretRef x))
         (filter (\<lambda>(key, _). key \<notin> set (activeSettingKeys (aw_sessions a))) all))) a"

definition cleanup ::
    "auth_platform \<Rightarrow> (nat \<Rightarrow> call_env) \<Rightarrow> call_env \<Rightarrow> (nat \<Rightarrow> call_env) \<Rightarrow> (nat \<Rightarrow> instant) \<Rightarrow> (auth_world, unit) handler" where
  "cleanup pl f c g clock a =
     and_then (drop_expired pl f clock 0 (aw_sessions a)) (\<lambda>_. drop_inactive pl c g) a"

definition recover_auth ::
    "auth_platform \<Rightarrow> call_env \<Rightarrow> (nat \<Rightarrow> call_env) \<Rightarrow> (auth_world, unit) handler" where
  "recover_auth pl c f =
     and_then (persistedBrowserCredentials pl (c 0)) (\<lambda>all.
       delete_until_error pl f 0 (map (\<lambda>(key, x). (key, pc_secretRef x)) all))"

end
