(* ===== verification/RelayAuthFacts.thy ===== *)
theory RelayAuthFacts
  imports RelayAuth RelayProviderHistory
begin

text \<open>
  The credentials of browser sessions under faults: which settings and secrets belong to them,
  the invariant between sessions, settings and secrets, and every handler as a run of calls
  that keep it.
\<close>

section \<open>Settings with the prefix\<close>

definition browser_prefixed :: "string \<Rightarrow> bool" where
  "browser_prefixed k \<longleftrightarrow> starts_with (map ascii_lower BROWSER_CREDENTIAL_SETTING_PREFIX) (map ascii_lower k)"

lemma browser_key_prefixed [simp]: "browser_prefixed (browser_key h)"
  by (simp add: browser_prefixed_def browser_key_def starts_with_def)

lemma browser_key_eq [simp]: "browser_key h = browser_key h' \<longleftrightarrow> h = h'"
  by (simp add: browser_key_def)

lemma browser_ref_eq [simp]: "browser_ref h = browser_ref h' \<longleftrightarrow> h = h'"
  by (simp add: browser_ref_def)

fun leaves_credentials :: "repo_op \<Rightarrow> bool" where
  "leaves_credentials (SettingOp (OpPutSetting k v t)) = (\<not> browser_prefixed k)"
| "leaves_credentials (SettingOp (OpDeleteSetting k)) = (\<not> browser_prefixed k)"
| "leaves_credentials (SettingOp (OpPutSettingIfAbsent k v t)) = (\<not> browser_prefixed k)"
| "leaves_credentials (SettingOp (OpCasSetting k v r t)) = (\<not> browser_prefixed k)"
| "leaves_credentials x = True"

lemma leaves_setting:
  assumes "keys_unique d" and "leaves_credentials x" and "browser_prefixed k"
  shows "map_of (db_settings (exec_op x d)) k = map_of (db_settings d) k"
proof (cases x)
  case (SettingOp y)
  then show ?thesis using assms
    by (cases y; cases "map_of (db_settings d) k") (auto simp: putSetting_def deleteSetting_def putSettingIfAbsent_def compareAndSetSetting_def
        sql_insert_or_ignore_def Let_def case_prod_beta map_of_sql_upsert map_of_sql_update map_of_snoc
        map_of_sql_delete[OF keys_uniqueD(11)] split: option.split if_splits)
next
  case (SessionOp y)
  then show ?thesis by (simp add: session_settings)
qed (simp_all add: bystander_settings del: exec_op.simps)

definition same_credentials :: "db \<Rightarrow> db \<Rightarrow> bool" where
  "same_credentials d d' \<longleftrightarrow>
     (keys_unique d \<longrightarrow> keys_unique d' \<and> (\<forall>k. browser_prefixed k \<longrightarrow> map_of (db_settings d') k = map_of (db_settings d) k))"

lemma same_credentials_refl [simp]: "same_credentials d d"
  by (simp add: same_credentials_def)

lemma same_credentials_trans: "same_credentials d d' \<Longrightarrow> same_credentials d' d'' \<Longrightarrow> same_credentials d d''"
  by (simp add: same_credentials_def)

lemma leaves_same: "leaves_credentials x \<Longrightarrow> same_credentials d (exec_op x d)"
  using keys_unique_exec leaves_setting by (simp add: same_credentials_def)

lemma leaves_run: "\<forall>x \<in> set xs. leaves_credentials x \<Longrightarrow> same_credentials d (run_ops xs d)"
  by (induction xs arbitrary: d) (auto intro: same_credentials_trans leaves_same)

lemma same_setting: "same_credentials d d' \<Longrightarrow> keys_unique d \<Longrightarrow> browser_prefixed k \<Longrightarrow> getSetting d' k = getSetting d k"
  by (simp add: same_credentials_def getSetting_def get_json_def)

lemma delete_setting_same:
  "keys_unique d \<Longrightarrow> getSetting (deleteSetting d k) j = (if j = k then None else getSetting d j)"
  by (auto simp: deleteSetting_def getSetting_def get_json_def map_of_sql_delete[OF keys_uniqueD(11)] split: option.splits)

lemma setting_keys: "keys_unique d \<Longrightarrow> keys_unique (putSetting d k v t)" "keys_unique d \<Longrightarrow> keys_unique (deleteSetting d k)"
  using keys_unique_exec[of d "SettingOp (OpPutSetting k v t)"] keys_unique_exec[of d "SettingOp (OpDeleteSetting k)"] by simp_all

section \<open>The invariant\<close>

text \<open>What the parameters promise: JSON round trips, hexadecimal digests of 32 bytes, a secret store.\<close>

definition platform_ok :: "auth_platform \<Rightarrow> bool" where
  "platform_ok pl \<longleftrightarrow>
     (\<forall>c. ap_parse pl (ap_stringify pl c) =
        Some \<lparr>pt_identityId = Some (pc_identityId c), pt_secretRef = Some (pc_secretRef c), pt_expiresAt = Some (pc_expiresAt c)\<rparr>) \<and>
     (\<forall>t. is_token_hash (ap_hashToken pl t)) \<and> ap_secrets pl"

definition entry_ok :: "auth_platform \<Rightarrow> string \<Rightarrow> string \<Rightarrow> bool" where
  "entry_ok pl k v \<longleftrightarrow>
     (\<exists>h i e. k = browser_key h \<and> v = ap_stringify pl (persisted_credential_of i h e) \<and> is_token_hash h \<and> i \<noteq> [])"

definition recovery_entry :: "browser_session \<Rightarrow> bool" where
  "recovery_entry s \<longleftrightarrow>
     bs_authMethod s = RecoveryLogin \<and> bs_identityId s = None \<and> bs_secretRef s = None \<and> bs_credentialSettingKey s = None"

definition jellyfin_entry :: "string \<Rightarrow> ident \<Rightarrow> browser_session \<Rightarrow> bool" where
  "jellyfin_entry h i s \<longleftrightarrow>
     bs_authMethod s = JellyfinLogin \<and> bs_identityId s = Some i \<and> i \<noteq> [] \<and> bs_secretRef s = Some (browser_ref h) \<and>
     bs_credentialSettingKey s = Some (browser_key h)"

definition session_ok :: "auth_platform \<Rightarrow> session_world \<Rightarrow> string \<times> browser_session \<Rightarrow> bool" where
  "session_ok pl w p \<longleftrightarrow>
     recovery_entry (snd p) \<or>
     (\<exists>i e. jellyfin_entry (fst p) i (snd p) \<and> sw_secrets w (browser_ref (fst p)) \<noteq> None \<and>
        getSetting (sw_db w) (browser_key (fst p)) = Some (ap_stringify pl (persisted_credential_of i (fst p) e)))"

definition live :: "auth_world \<Rightarrow> string set" where
  "live a = {h. \<exists>s. (h, s) \<in> set (aw_sessions a) \<and> bs_authMethod s = JellyfinLogin}"

text \<open>\<open>gone\<close> are digests of tokens without a session that needs a credential.\<close>

definition auth_ok :: "auth_platform \<Rightarrow> string set \<Rightarrow> auth_world \<Rightarrow> bool" where
  "auth_ok pl gone a \<longleftrightarrow>
     keys_unique (sw_db (aw_world a)) \<and>
     (\<forall>k v. browser_prefixed k \<longrightarrow> getSetting (sw_db (aw_world a)) k = Some v \<longrightarrow> entry_ok pl k v) \<and>
     (\<forall>h. sw_secrets (aw_world a) (browser_ref h) \<noteq> None \<longrightarrow> getSetting (sw_db (aw_world a)) (browser_key h) \<noteq> None) \<and>
     distinct (map fst (aw_sessions a)) \<and> (\<forall>p \<in> set (aw_sessions a). session_ok pl (aw_world a) p) \<and>
     gone \<inter> live a = {}"

lemma auth_okD:
  assumes "auth_ok pl gone a"
  shows "keys_unique (sw_db (aw_world a))"
    "browser_prefixed k \<Longrightarrow> getSetting (sw_db (aw_world a)) k = Some v \<Longrightarrow> entry_ok pl k v"
    "sw_secrets (aw_world a) (browser_ref h) = Some v \<Longrightarrow> \<exists>x. getSetting (sw_db (aw_world a)) (browser_key h) = Some x"
    "distinct (map fst (aw_sessions a))"
    "p \<in> set (aw_sessions a) \<Longrightarrow> session_ok pl (aw_world a) p"
    "p \<in> set (aw_sessions a) \<Longrightarrow> bs_authMethod (snd p) = JellyfinLogin \<Longrightarrow> fst p \<notin> gone"
  using assms by (force simp: auth_ok_def live_def)+

text \<open>Only the settings with the prefix and the secrets of browser sessions matter.\<close>

lemma auth_ok_same:
  assumes ok: "auth_ok pl gone a" and same: "same_credentials (sw_db (aw_world a)) (sw_db w)"
    and secrets: "\<And>h. sw_secrets w (browser_ref h) = sw_secrets (aw_world a) (browser_ref h)"
  shows "auth_ok pl gone (a\<lparr>aw_world := w\<rparr>)"
proof -
  have keys: "keys_unique (sw_db (aw_world a))" by (rule auth_okD(1)[OF ok])
  have settings: "getSetting (sw_db w) k = getSetting (sw_db (aw_world a)) k" if "browser_prefixed k" for k
    by (rule same_setting[OF same keys that])
  have "keys_unique (sw_db w)" using same keys by (simp add: same_credentials_def)
  moreover have "session_ok pl w p" if "p \<in> set (aw_sessions a)" for p
    using auth_okD(5)[OF ok that] by (simp add: session_ok_def settings secrets)
  ultimately show ?thesis using ok by (simp add: auth_ok_def settings secrets live_def)
qed

lemma auth_ok_less: "auth_ok pl gone a \<Longrightarrow> gone' \<subseteq> gone \<Longrightarrow> auth_ok pl gone' a"
  by (auto simp: auth_ok_def)

section \<open>Calls\<close>

definition holds_meanwhile :: "(auth_world \<Rightarrow> bool) \<Rightarrow> bool" where
  "holds_meanwhile P \<longleftrightarrow>
     (\<forall>a xs. P a \<longrightarrow> (\<forall>x \<in> set xs. leaves_credentials x) \<longrightarrow> P (a\<lparr>aw_world := meanwhile xs (aw_world a)\<rparr>))"

definition quiet_call :: "repo_op list \<times> fault \<Rightarrow> bool" where
  "quiet_call c \<longleftrightarrow> (\<forall>x \<in> set (fst c). leaves_credentials x)"

definition quiet_env :: "call_env \<Rightarrow> bool" where
  "quiet_env f \<longleftrightarrow> (\<forall>k. quiet_call (f k))"

lemma quiet_envD [simp]: "quiet_env f \<Longrightarrow> quiet_call (f k)"
  by (simp add: quiet_env_def)

lemma runs_outside:
  assumes "holds_meanwhile P" and "quiet_call c"
    and "\<And>a. P a \<Longrightarrow> E a" and "\<And>a. P a \<Longrightarrow> E (a\<lparr>aw_world := fst (m (aw_world a))\<rparr>)"
    and "\<And>a x. P a \<Longrightarrow> snd (m (aw_world a)) = Inr x \<Longrightarrow> Q x (a\<lparr>aw_world := fst (m (aw_world a))\<rparr>)"
  shows "runs P (outside (called c m)) Q E"
  unfolding runs_def
proof (intro allI impI)
  fix a
  assume "P a"
  define v where "v = meanwhile (fst c) (aw_world a)"
  have P: "P (a\<lparr>aw_world := v\<rparr>)" using assms(1,2) \<open>P a\<close> unfolding holds_meanwhile_def quiet_call_def v_def by blast
  note E = assms(3)[OF P] assms(4)[OF P] and Q = assms(5)[OF P]
  show "case outside (called c m) a of (a', Returned x) \<Rightarrow> Q x a' | (a', _) \<Rightarrow> E a'"
  proof (cases "snd c")
    case Works
    show ?thesis
    proof (cases "snd (m v)")
      case (Inl e)
      then show ?thesis using E(2) Works by (simp add: outside_def called_def case_prod_beta flip: v_def)
    next
      case (Inr x)
      then show ?thesis using Q[of x] Works by (simp add: outside_def called_def case_prod_beta flip: v_def)
    qed
  qed (use E in \<open>simp_all add: outside_def called_def flip: v_def\<close>)
qed

lemma holds_meanwhile_ok: "holds_meanwhile (auth_ok pl gone)"
  unfolding holds_meanwhile_def
proof (intro allI impI)
  fix a xs
  assume ok: "auth_ok pl gone a" and xs: "\<forall>x \<in> set xs. leaves_credentials x"
  show "auth_ok pl gone (a\<lparr>aw_world := meanwhile xs (aw_world a)\<rparr>)"
    by (rule auth_ok_same[OF ok]) (simp_all add: leaves_run[OF xs])
qed

abbreviation keeps_auth :: "auth_platform \<Rightarrow> string set \<Rightarrow> (auth_world, 'a) handler \<Rightarrow> bool" where
  "keeps_auth pl gone m \<equiv> runs (auth_ok pl gone) m (\<lambda>_. auth_ok pl gone) (auth_ok pl gone)"

text \<open>An action that touches neither credentials nor secrets.\<close>

definition aside :: "'a action \<Rightarrow> bool" where
  "aside m \<longleftrightarrow> (\<forall>w. same_credentials (sw_db w) (sw_db (fst (m w))) \<and> sw_secrets (fst (m w)) = sw_secrets w)"

lemma keeps_aside:
  assumes "aside m"
  shows "keeps_auth pl gone (outside m)"
  unfolding runs_def
proof (intro allI impI)
  fix a
  assume ok: "auth_ok pl gone a"
  have "auth_ok pl gone (a\<lparr>aw_world := fst (m (aw_world a))\<rparr>)"
    by (rule auth_ok_same[OF ok]) (use assms in \<open>simp_all add: aside_def\<close>)
  then show "case outside m a of (a', Returned x) \<Rightarrow> auth_ok pl gone a' | (a', _) \<Rightarrow> auth_ok pl gone a'"
    by (cases "m (aw_world a)") (auto simp: outside_def split: reply.split)
qed

lemma aside_done: "aside (done_with x)" "aside (raise e)"
  by (simp_all add: aside_def done_with_def raise_def)

lemma aside_and_then:
  assumes "aside m" and "\<And>x. aside (k x)"
  shows "aside (and_then m k)"
  unfolding aside_def
proof
  fix w :: session_world
  obtain w' r where m: "m w = (w', r)" by fastforce
  have 1: "same_credentials (sw_db w) (sw_db w')" "sw_secrets w' = sw_secrets w"
    using assms(1) m unfolding aside_def by (metis fst_conv)+
  show "same_credentials (sw_db w) (sw_db (fst (and_then m k w))) \<and> sw_secrets (fst (and_then m k w)) = sw_secrets w"
  proof (cases r)
    case (Returned x)
    have "same_credentials (sw_db w') (sw_db (fst (k x w')))" "sw_secrets (fst (k x w')) = sw_secrets w'"
      using assms(2)[of x] unfolding aside_def by blast+
    then show ?thesis using 1 same_credentials_trans m Returned by (auto simp: and_then_def)
  qed (use 1 m in \<open>simp_all add: and_then_def\<close>)
qed

lemma aside_on_error:
  assumes "aside m" and "\<And>x. aside (k x)"
  shows "aside (on_error m k)"
  unfolding aside_def
proof
  fix w :: session_world
  obtain w' r where m: "m w = (w', r)" by fastforce
  have 1: "same_credentials (sw_db w) (sw_db w')" "sw_secrets w' = sw_secrets w"
    using assms(1) m unfolding aside_def by (metis fst_conv)+
  show "same_credentials (sw_db w) (sw_db (fst (on_error m k w))) \<and> sw_secrets (fst (on_error m k w)) = sw_secrets w"
  proof (cases r)
    case (Raised x)
    have "same_credentials (sw_db w') (sw_db (fst (k x w')))" "sw_secrets (fst (k x w')) = sw_secrets w'"
      using assms(2)[of x] unfolding aside_def by blast+
    then show ?thesis using 1 same_credentials_trans m Raised by (auto simp: on_error_def)
  qed (use 1 m in \<open>simp_all add: on_error_def\<close>)
qed

lemma aside_call:
  assumes "quiet_call c" and "\<And>d. same_credentials d (fst (g d))"
  shows "aside (called c (on_db g))"
  unfolding aside_def
proof
  fix w :: session_world
  have same: "same_credentials (sw_db w) (run_ops (fst c) (sw_db w))" using assms(1) leaves_run by (simp add: quiet_call_def)
  have "same_credentials (sw_db w) (fst (g (run_ops (fst c) (sw_db w))))"
    by (rule same_credentials_trans[OF same assms(2)])
  then show "same_credentials (sw_db w) (sw_db (fst (called c (on_db g) w))) \<and>
      sw_secrets (fst (called c (on_db g) w)) = sw_secrets w"
    using same by (cases "snd c") (simp_all add: called_def on_db_def case_prod_beta)
qed

lemma aside_read: "quiet_call c \<Longrightarrow> aside (called c (read_db g))"
  unfolding read_db_def by (rule aside_call) simp_all

section \<open>Single changes\<close>

lemma same_session:
  assumes "session_ok pl w p"
    and "bs_authMethod (snd p) = JellyfinLogin \<Longrightarrow>
       (sw_secrets w' (browser_ref (fst p)) \<noteq> None \<or> sw_secrets w (browser_ref (fst p)) = None) \<and>
       getSetting (sw_db w') (browser_key (fst p)) = getSetting (sw_db w) (browser_key (fst p))"
  shows "session_ok pl w' p"
  using assms by (auto simp: session_ok_def jellyfin_entry_def)

lemma drop_secret_ok:
  assumes ok: "auth_ok pl gone a" and h: "h \<in> gone"
  shows "auth_ok pl gone (a\<lparr>aw_world := (aw_world a)\<lparr>sw_secrets := secret_delete (sw_secrets (aw_world a)) (browser_ref h)\<rparr>\<rparr>)"
proof -
  let ?w = "(aw_world a)\<lparr>sw_secrets := secret_delete (sw_secrets (aw_world a)) (browser_ref h)\<rparr>"
  have "session_ok pl ?w p" if p: "p \<in> set (aw_sessions a)" for p
  proof (rule same_session[OF auth_okD(5)[OF ok p]])
    assume "bs_authMethod (snd p) = JellyfinLogin"
    then have "fst p \<noteq> h" using auth_okD(6)[OF ok p] h by auto
    then show "(sw_secrets ?w (browser_ref (fst p)) \<noteq> None \<or> sw_secrets (aw_world a) (browser_ref (fst p)) = None) \<and>
       getSetting (sw_db ?w) (browser_key (fst p)) = getSetting (sw_db (aw_world a)) (browser_key (fst p))"
      by (auto simp: secret_delete_def)
  qed
  then show ?thesis using ok by (auto simp: auth_ok_def live_def secret_delete_def)
qed

lemma drop_setting_ok:
  assumes ok: "auth_ok pl gone a" and h: "h \<in> gone" and no: "sw_secrets (aw_world a) (browser_ref h) = None"
  shows "auth_ok pl gone (a\<lparr>aw_world := (aw_world a)\<lparr>sw_db := deleteSetting (sw_db (aw_world a)) (browser_key h)\<rparr>\<rparr>)"
proof -
  let ?w = "(aw_world a)\<lparr>sw_db := deleteSetting (sw_db (aw_world a)) (browser_key h)\<rparr>"
  note keys = auth_okD(1)[OF ok]
  have "session_ok pl ?w p" if p: "p \<in> set (aw_sessions a)" for p
  proof (rule same_session[OF auth_okD(5)[OF ok p]])
    assume "bs_authMethod (snd p) = JellyfinLogin"
    then have "fst p \<noteq> h" using auth_okD(6)[OF ok p] h by auto
    then show "(sw_secrets ?w (browser_ref (fst p)) \<noteq> None \<or> sw_secrets (aw_world a) (browser_ref (fst p)) = None) \<and>
       getSetting (sw_db ?w) (browser_key (fst p)) = getSetting (sw_db (aw_world a)) (browser_key (fst p))"
      by (auto simp: delete_setting_same[OF keys])
  qed
  then show ?thesis using ok no setting_keys(2)[OF keys]
    by (auto simp: auth_ok_def live_def delete_setting_same[OF keys] split: if_splits)
qed

lemma put_setting_ok:
  assumes ok: "auth_ok pl gone a" and h: "h \<in> gone" and new: "is_token_hash h" "i \<noteq> []"
  shows "auth_ok pl gone (a\<lparr>aw_world := (aw_world a)\<lparr>sw_db :=
    putSetting (sw_db (aw_world a)) (browser_key h) (ap_stringify pl (persisted_credential_of i h e)) t\<rparr>\<rparr>)"
proof -
  let ?w = "(aw_world a)\<lparr>sw_db := putSetting (sw_db (aw_world a)) (browser_key h) (ap_stringify pl (persisted_credential_of i h e)) t\<rparr>"
  note keys = auth_okD(1)[OF ok]
  have "session_ok pl ?w p" if p: "p \<in> set (aw_sessions a)" for p
  proof (rule same_session[OF auth_okD(5)[OF ok p]])
    assume "bs_authMethod (snd p) = JellyfinLogin"
    then have "fst p \<noteq> h" using auth_okD(6)[OF ok p] h by auto
    then show "(sw_secrets ?w (browser_ref (fst p)) \<noteq> None \<or> sw_secrets (aw_world a) (browser_ref (fst p)) = None) \<and>
       getSetting (sw_db ?w) (browser_key (fst p)) = getSetting (sw_db (aw_world a)) (browser_key (fst p))"
      by (auto simp: setting_view)
  qed
  moreover have "entry_ok pl (browser_key h) (ap_stringify pl (persisted_credential_of i h e))" using new by (auto simp: entry_ok_def)
  ultimately show ?thesis using ok setting_keys(1)[OF keys]
    by (auto simp: auth_ok_def live_def setting_view split: if_splits)
qed

lemma put_secret_ok:
  assumes ok: "auth_ok pl gone a" and "getSetting (sw_db (aw_world a)) (browser_key h) \<noteq> None"
  shows "auth_ok pl gone (a\<lparr>aw_world := (aw_world a)\<lparr>sw_secrets := secret_put (sw_secrets (aw_world a)) (browser_ref h) v\<rparr>\<rparr>)"
proof -
  let ?w = "(aw_world a)\<lparr>sw_secrets := secret_put (sw_secrets (aw_world a)) (browser_ref h) v\<rparr>"
  have "session_ok pl ?w p" if p: "p \<in> set (aw_sessions a)" for p
    by (rule same_session[OF auth_okD(5)[OF ok p]]) (auto simp: secret_put_def)
  then show ?thesis using ok assms(2) by (auto simp: auth_ok_def live_def secret_put_def)
qed

lemma set_update: "distinct (map fst xs) \<Longrightarrow> set (AList.update h s xs) = insert (h, s) {p \<in> set xs. fst p \<noteq> h}"
  by (induction xs) (auto simp: image_iff)

lemma add_session_ok:
  assumes ok: "auth_ok pl gone a" and s: "session_ok pl (aw_world a) (h, s)"
  shows "auth_ok pl (gone - {h}) (a\<lparr>aw_sessions := AList.update h s (aw_sessions a)\<rparr>)"
  using ok s set_update[OF auth_okD(4)[OF ok]] distinct_update[OF auth_okD(4)[OF ok]]
  by (auto simp: auth_ok_def live_def)

lemma drop_sessions_ok:
  assumes ok: "auth_ok pl gone a"
    and h: "\<And>p. p \<in> set (aw_sessions a) \<Longrightarrow> Q p \<Longrightarrow> bs_authMethod (snd p) = JellyfinLogin \<Longrightarrow> fst p \<notin> also_gone"
  shows "auth_ok pl (gone \<union> also_gone) (a\<lparr>aw_sessions := filter Q (aw_sessions a)\<rparr>)"
  using ok h by (fastforce simp: auth_ok_def live_def distinct_map_filter)

lemma delete_as_filter: "AList.delete h ss = filter (\<lambda>p. fst p \<noteq> h) ss"
  by (induction ss) auto

section \<open>Deletions\<close>

text \<open>What a handler can see of the credentials.\<close>

definition login_view :: "auth_world \<Rightarrow> (string \<times> browser_session) list \<times> (string \<Rightarrow> string option) \<times> (string \<Rightarrow> string option)" where
  "login_view a = (aw_sessions a, (\<lambda>h. sw_secrets (aw_world a) (browser_ref h)),
     (\<lambda>h. getSetting (sw_db (aw_world a)) (browser_key h)))"

lemma holds_meanwhile_view: "holds_meanwhile (\<lambda>a. auth_ok pl gone a \<and> R (login_view a))"
  unfolding holds_meanwhile_def
proof (intro allI impI)
  fix a xs
  assume a: "auth_ok pl gone a \<and> R (login_view a)" and xs: "\<forall>x \<in> set xs. leaves_credentials x"
  have "auth_ok pl gone (a\<lparr>aw_world := meanwhile xs (aw_world a)\<rparr>)"
    using holds_meanwhile_ok[of pl gone] a xs unfolding holds_meanwhile_def by blast
  moreover have "login_view (a\<lparr>aw_world := meanwhile xs (aw_world a)\<rparr>) = login_view a"
    using same_setting[OF leaves_run[OF xs] auth_okD(1)[OF conjunct1[OF a]]] by (simp add: login_view_def fun_eq_iff)
  ultimately show "auth_ok pl gone (a\<lparr>aw_world := meanwhile xs (aw_world a)\<rparr>) \<and>
      R (login_view (a\<lparr>aw_world := meanwhile xs (aw_world a)\<rparr>))" using a by simp
qed

definition dropped :: "string \<Rightarrow> auth_world \<Rightarrow> bool" where
  "dropped h a \<longleftrightarrow> sw_secrets (aw_world a) (browser_ref h) = None \<and> getSetting (sw_db (aw_world a)) (browser_key h) = None"

lemma delete_one_keeps:
  assumes pl: "ap_secrets pl" and env: "quiet_env f" and h: "h \<in> gone"
  shows "runs (auth_ok pl gone) (deletePersistedBrowserCredential pl f (browser_key h) (browser_ref h))
     (\<lambda>_ a. auth_ok pl gone a \<and> dropped h a) (auth_ok pl gone)"
proof -
  let ?Q = "\<lambda>a. auth_ok pl gone a \<and> (\<lambda>(ss, s, k). s h = None) (login_view a)"
  have secret: "runs (auth_ok pl gone) (outside (called (f 0) (on_secrets (\<lambda>st. secret_delete st (browser_ref h)))))
      (\<lambda>_. ?Q) (auth_ok pl gone)"
    by (rule runs_outside[OF holds_meanwhile_ok quiet_envD[OF env]])
      (use drop_secret_ok[OF _ h] in \<open>auto simp: on_secrets_def login_view_def secret_delete_def\<close>)
  have setting: "runs ?Q (outside (called (f 1) (write_db (\<lambda>d. deleteSetting d (browser_key h)))))
      (\<lambda>_ a. auth_ok pl gone a \<and> dropped h a) (auth_ok pl gone)"
  proof (rule runs_outside[OF holds_meanwhile_view quiet_envD[OF env]])
    fix a x
    assume a: "?Q a"
    then have no: "sw_secrets (aw_world a) (browser_ref h) = None" by (simp add: login_view_def)
    show "auth_ok pl gone a" using a by simp
    show ok: "auth_ok pl gone (a\<lparr>aw_world := fst (write_db (\<lambda>d. deleteSetting d (browser_key h)) (aw_world a))\<rparr>)"
      using drop_setting_ok[OF _ h no] a by (simp add: write_db_def on_db_def)
    show "auth_ok pl gone (a\<lparr>aw_world := fst (write_db (\<lambda>d. deleteSetting d (browser_key h)) (aw_world a))\<rparr>) \<and>
        dropped h (a\<lparr>aw_world := fst (write_db (\<lambda>d. deleteSetting d (browser_key h)) (aw_world a))\<rparr>)"
      using ok no delete_setting_same[OF auth_okD(1)[OF conjunct1[OF a]]] by (simp add: dropped_def write_db_def on_db_def)
  qed
  show ?thesis
    unfolding deletePersistedBrowserCredential_def if_P[OF pl] by (rule runs_and_then[OF secret setting])
qed

lemma delete_one_keeps':
  "ap_secrets pl \<Longrightarrow> quiet_env f \<Longrightarrow> h \<in> gone \<Longrightarrow>
     keeps_auth pl gone (deletePersistedBrowserCredential pl f (browser_key h) (browser_ref h))"
  by (rule runs_weaken[OF delete_one_keeps]) auto

definition pairs_of :: "string set \<Rightarrow> (string \<times> string) list \<Rightarrow> bool" where
  "pairs_of gone cs \<longleftrightarrow> (\<forall>p \<in> set cs. \<exists>h \<in> gone. p = (browser_key h, browser_ref h))"

lemma pairs_of_simps [simp]:
  "pairs_of gone []"
  "pairs_of gone (p # cs) \<longleftrightarrow> (\<exists>h \<in> gone. p = (browser_key h, browser_ref h)) \<and> pairs_of gone cs"
  by (auto simp: pairs_of_def)

lemma all_settled_keeps:
  assumes "\<And>m. m \<in> set ms \<Longrightarrow> runs P m (\<lambda>_. P) P"
  shows "runs P (all_settled ms) (\<lambda>_. P) P"
  using assms
proof (induction ms)
  case Nil
  show ?case by (simp add: runs_done)
next
  case (Cons m ms)
  have settled: "runs P (settled n) (\<lambda>_. P) P" if n: "runs P n (\<lambda>_. P) P" for n :: "('a, unit) handler"
  proof -
    have "runs P (and_then n (\<lambda>_. done_with None)) (\<lambda>_. P) P" for x :: "app_error option"
      by (rule runs_and_then[OF n]) (rule runs_done)
    then show ?thesis unfolding settled_def by (rule runs_on_error) (auto intro: runs_done)
  qed
  have fails: "runs P (fail_with e) (\<lambda>_. P) P" for e
    by (cases e) (simp_all add: fail_with_def runs_done runs_raise)
  show ?case unfolding all_settled.simps
    by (rule runs_and_then[OF settled[OF Cons.prems]], simp, rule runs_and_then[OF settled[OF Cons.IH[OF Cons.prems]] fails]) simp
qed

lemma delete_all_keeps:
  assumes pl: "ap_secrets pl" and env: "\<And>k. quiet_env (f k)" and cs: "pairs_of gone cs"
  shows "keeps_auth pl gone (delete_all pl f cs)"
  unfolding delete_all_def
proof (rule all_settled_keeps)
  fix m
  assume "m \<in> set (map (\<lambda>(k, (key, ref)). deletePersistedBrowserCredential pl (f k) key ref) (enumerate 0 cs))"
  then obtain k key ref where m: "m = deletePersistedBrowserCredential pl (f k) key ref" and kr: "(k, (key, ref)) \<in> set (enumerate 0 cs)"
    by auto
  have "(key, ref) \<in> set cs" using kr nth_mem[of k cs] by (auto simp: in_set_enumerate_eq)
  then obtain h where "h \<in> gone" "key = browser_key h" "ref = browser_ref h" using cs unfolding pairs_of_def by blast
  then show "keeps_auth pl gone m" unfolding m using delete_one_keeps'[OF pl env] by blast
qed

lemma delete_quietly_keeps:
  assumes pl: "ap_secrets pl" and env: "\<And>k. quiet_env (f k)"
  shows "pairs_of gone cs \<Longrightarrow> keeps_auth pl gone (delete_quietly pl f k cs)"
proof (induction cs arbitrary: k)
  case Nil
  show ?case by (simp add: runs_done)
next
  case (Cons p cs)
  then obtain h where h: "h \<in> gone" "p = (browser_key h, browser_ref h)" by auto
  show ?case unfolding h(2) delete_quietly.simps
    by (rule runs_and_then[OF runs_quietly[OF delete_one_keeps'[OF pl env h(1)]]]) (use Cons in simp)
qed

lemma delete_until_error_keeps:
  assumes pl: "ap_secrets pl" and env: "\<And>k. quiet_env (f k)"
  shows "pairs_of gone cs \<Longrightarrow> keeps_auth pl gone (delete_until_error pl f k cs)"
proof (induction cs arbitrary: k)
  case Nil
  show ?case by (simp add: runs_done)
next
  case (Cons p cs)
  then obtain h where h: "h \<in> gone" "p = (browser_key h, browser_ref h)" by auto
  show ?case unfolding h(2) delete_until_error.simps
    by (rule runs_and_then[OF delete_one_keeps'[OF pl env h(1)]]) (use Cons in simp)
qed

end
