(* ===== verification/RelayAuthHistory.thy ===== *)
theory RelayAuthHistory
  imports RelayAuthFacts
begin

text \<open>
  The handlers of the authentication keep the credentials in order; the histories of an
  installation: sign-ins, sign-outs, deletions of users, cleanups and restarts.
\<close>

section \<open>Listed credentials\<close>

lemma read_entry:
  assumes pl: "platform_ok pl" and "is_token_hash h" and "i \<noteq> []"
  shows "read_persisted pl (browser_key h, ap_stringify pl (persisted_credential_of i h e)) =
    resolve (browser_key h, persisted_credential_of i h e)"
  using assms
  by (simp add: read_persisted_def platform_ok_def persisted_credential_of_def browser_key_def)

definition listed :: "auth_platform \<Rightarrow> (string \<times> persisted_credential) list \<Rightarrow> auth_world \<Rightarrow> bool" where
  "listed pl cs a \<longleftrightarrow>
     (\<forall>p \<in> set cs. \<exists>h i e. p = (browser_key h, persisted_credential_of i h e) \<and>
        getSetting (sw_db (aw_world a)) (browser_key h) = Some (ap_stringify pl (persisted_credential_of i h e))) \<and>
     (\<forall>h. getSetting (sw_db (aw_world a)) (browser_key h) \<noteq> None \<longrightarrow> browser_key h \<in> fst ` set cs)"

lemma read_all_entries:
  assumes pl: "platform_ok pl" and "\<forall>p \<in> set kvs. entry_ok pl (fst p) (snd p)"
  shows "\<exists>cs. read_all_persisted pl kvs = resolve cs \<and> map fst cs = map fst kvs \<and>
    (\<forall>p \<in> set cs. \<exists>h i e. p = (browser_key h, persisted_credential_of i h e) \<and>
       (browser_key h, ap_stringify pl (persisted_credential_of i h e)) \<in> set kvs)"
  using assms(2)
proof (induction kvs)
  case (Cons kv kvs)
  then obtain cs where cs: "read_all_persisted pl kvs = resolve cs" "map fst cs = map fst kvs"
    "\<forall>p \<in> set cs. \<exists>h i e. p = (browser_key h, persisted_credential_of i h e) \<and>
       (browser_key h, ap_stringify pl (persisted_credential_of i h e)) \<in> set kvs" by auto
  from Cons.prems obtain h i e where kv: "kv = (browser_key h, ap_stringify pl (persisted_credential_of i h e))"
    and new: "is_token_hash h" "i \<noteq> []" by (cases kv) (auto simp: entry_ok_def)
  let ?cs = "(browser_key h, persisted_credential_of i h e) # cs"
  have "read_all_persisted pl (kv # kvs) = resolve ?cs" "map fst ?cs = map fst (kv # kvs)"
    using cs(1,2) read_entry[OF pl new] by (simp_all add: kv)
  moreover have "\<forall>p \<in> set ?cs. \<exists>h i e. p = (browser_key h, persisted_credential_of i h e) \<and>
       (browser_key h, ap_stringify pl (persisted_credential_of i h e)) \<in> set (kv # kvs)"
    using cs(3) by (fastforce simp: kv)
  ultimately show ?case by blast
qed simp

lemma listed_settings:
  assumes "keys_unique d"
  shows "(k, v) \<in> set (listSettingsByPrefix d BROWSER_CREDENTIAL_SETTING_PREFIX) \<longleftrightarrow>
    browser_prefixed k \<and> getSetting d k = Some v"
proof -
  have keys: "keys_ok (db_settings d)" by (rule keys_uniqueD(11)[OF assms])
  show ?thesis
    using map_of_eq_Some_iff[OF keys] by (auto simp: listSettingsByPrefix_def browser_prefixed_def getSetting_def get_json_def image_iff)
qed

lemma persisted_listed:
  assumes pl: "platform_ok pl" and ok: "auth_ok pl gone a"
  shows "\<exists>cs. read_all_persisted pl (listSettingsByPrefix (sw_db (aw_world a)) BROWSER_CREDENTIAL_SETTING_PREFIX) = resolve cs \<and>
    listed pl cs a"
proof -
  let ?kvs = "listSettingsByPrefix (sw_db (aw_world a)) BROWSER_CREDENTIAL_SETTING_PREFIX"
  note settings = listed_settings[OF auth_okD(1)[OF ok]]
  have "\<forall>p \<in> set ?kvs. entry_ok pl (fst p) (snd p)"
    using settings auth_okD(2)[OF ok] by (metis prod.collapse)
  from read_all_entries[OF pl this] obtain cs where cs: "read_all_persisted pl ?kvs = resolve cs" "map fst cs = map fst ?kvs"
    "\<forall>p \<in> set cs. \<exists>h i e. p = (browser_key h, persisted_credential_of i h e) \<and>
       (browser_key h, ap_stringify pl (persisted_credential_of i h e)) \<in> set ?kvs" by blast
  have "browser_key h \<in> fst ` set cs" if h: "getSetting (sw_db (aw_world a)) (browser_key h) \<noteq> None" for h
  proof -
    obtain v where "(browser_key h, v) \<in> set ?kvs" using h settings[of "browser_key h"] by auto
    then have "browser_key h \<in> set (map fst ?kvs)" by force
    then show ?thesis using cs(2) by (metis set_map)
  qed
  then have "listed pl cs a" using cs(3) settings unfolding listed_def by blast
  then show ?thesis using cs(1) by blast
qed

lemma persisted_runs:
  assumes pl: "platform_ok pl" and c: "quiet_call c"
  shows "runs (\<lambda>a. auth_ok pl gone a \<and> R (login_view a)) (persistedBrowserCredentials pl c)
     (\<lambda>cs a. auth_ok pl gone a \<and> R (login_view a) \<and> listed pl cs a) (auth_ok pl gone)"
  unfolding persistedBrowserCredentials_def
proof (rule runs_outside[OF holds_meanwhile_view c])
  fix a cs
  assume a: "auth_ok pl gone a \<and> R (login_view a)"
  let ?m = "on_db (\<lambda>d. (d, read_all_persisted pl (listSettingsByPrefix d BROWSER_CREDENTIAL_SETTING_PREFIX)))"
  have same: "a\<lparr>aw_world := fst (?m (aw_world a))\<rparr> = a" by (simp add: on_db_def)
  show "auth_ok pl gone a" "auth_ok pl gone (a\<lparr>aw_world := fst (?m (aw_world a))\<rparr>)" using a same by simp_all
  assume "snd (?m (aw_world a)) = resolve cs"
  then have "listed pl cs a" using persisted_listed[OF pl conjunct1[OF a]] by (auto simp: on_db_def)
  then show "auth_ok pl gone (a\<lparr>aw_world := fst (?m (aw_world a))\<rparr>) \<and>
      R (login_view (a\<lparr>aw_world := fst (?m (aw_world a))\<rparr>)) \<and> listed pl cs (a\<lparr>aw_world := fst (?m (aw_world a))\<rparr>)"
    using a same by simp
qed

section \<open>Signing in\<close>

definition signed_in :: "auth_world \<Rightarrow> string \<Rightarrow> browser_session \<Rightarrow> string \<Rightarrow> bool" where
  "signed_in a h s token \<longleftrightarrow> map_of (aw_sessions a) h = Some s \<and> sw_secrets (aw_world a) (browser_ref h) = Some token"

lemma store_keeps:
  assumes pl: "platform_ok pl" and env: "quiet_env f" and h: "is_token_hash h" and x: "li_identityId x \<noteq> []"
  shows "runs (auth_ok pl {h}) (store_credential pl f now x h csrf token e)
     (\<lambda>_ a. auth_ok pl {} a \<and> signed_in a h (browser_session_of x h csrf e) token) (auth_ok pl {})"
proof -
  let ?R = "\<lambda>_ :: unit. \<lambda>a. auth_ok pl {} a \<and> signed_in a h (browser_session_of x h csrf e) token"
  let ?v = "ap_stringify pl (persisted_credential_of (li_identityId x) h e)"
  let ?Q1 = "\<lambda>a. auth_ok pl {h} a \<and> (\<lambda>(ss, s, k). k h = Some ?v) (login_view a)"
  let ?Q2 = "\<lambda>a. auth_ok pl {h} a \<and> (\<lambda>(ss, s, k). k h = Some ?v \<and> s h = Some token) (login_view a)"
  have secrets: "ap_secrets pl" using pl by (simp add: platform_ok_def)
  have setting: "runs (auth_ok pl {h}) (outside (called (f 0) (write_db (\<lambda>d. putSetting d (browser_key h) ?v now)))) (\<lambda>_. ?Q1) (auth_ok pl {h})"
  proof (rule runs_outside[OF holds_meanwhile_ok quiet_envD[OF env]])
    fix a x'
    assume a: "auth_ok pl {h} a"
    then show ok: "auth_ok pl {h} (a\<lparr>aw_world := fst (write_db (\<lambda>d. putSetting d (browser_key h) ?v now) (aw_world a))\<rparr>)"
      using put_setting_ok[OF a _ h x] by (simp add: write_db_def on_db_def)
    show "auth_ok pl {h} (a\<lparr>aw_world := fst (write_db (\<lambda>d. putSetting d (browser_key h) ?v now) (aw_world a))\<rparr>) \<and>
      (\<lambda>(ss, s, k). k h = Some ?v) (login_view (a\<lparr>aw_world := fst (write_db (\<lambda>d. putSetting d (browser_key h) ?v now) (aw_world a))\<rparr>))"
      using ok by (simp add: login_view_def write_db_def on_db_def setting_view)
  qed
  have secret: "runs ?Q1 (outside (called (f 1) (on_secrets (\<lambda>st. secret_put st (browser_ref h) token)))) (\<lambda>_. ?Q2) (auth_ok pl {h})"
  proof (rule runs_outside[OF holds_meanwhile_view quiet_envD[OF env]])
    fix a x'
    assume a: "?Q1 a"
    then show "auth_ok pl {h} a" by simp
    have k: "getSetting (sw_db (aw_world a)) (browser_key h) = Some ?v" using a by (simp add: login_view_def)
    show ok: "auth_ok pl {h} (a\<lparr>aw_world := fst (on_secrets (\<lambda>st. secret_put st (browser_ref h) token) (aw_world a))\<rparr>)"
      using put_secret_ok[OF conjunct1[OF a], of h] k by (simp add: on_secrets_def)
    show "auth_ok pl {h} (a\<lparr>aw_world := fst (on_secrets (\<lambda>st. secret_put st (browser_ref h) token) (aw_world a))\<rparr>) \<and>
       (\<lambda>(ss, s, k). k h = Some ?v \<and> s h = Some token) (login_view (a\<lparr>aw_world := fst (on_secrets (\<lambda>st. secret_put st (browser_ref h) token) (aw_world a))\<rparr>))"
      using ok k by (simp add: login_view_def on_secrets_def secret_put_def)
  qed
  have session: "runs ?Q2 (on_sessions (AList.update h (browser_session_of x h csrf e))) ?R (auth_ok pl {h})"
    unfolding runs_def
  proof (intro allI impI)
    fix a
    assume a: "?Q2 a"
    have "session_ok pl (aw_world a) (h, browser_session_of x h csrf e)"
      using a x by (auto simp: session_ok_def jellyfin_entry_def browser_session_of_def login_view_def)
    from add_session_ok[OF conjunct1[OF a] this]
    show "case on_sessions (AList.update h (browser_session_of x h csrf e)) a of
        (a', Returned u) \<Rightarrow> ?R u a' | (a', _) \<Rightarrow> auth_ok pl {h} a'"
      using a by (simp add: on_sessions_def signed_in_def update_conv login_view_def)
  qed
  have tried: "runs (auth_ok pl {h}) (and_then (outside (called (f 0) (write_db (\<lambda>d. putSetting d (browser_key h) ?v now)))) (\<lambda>_.
        and_then (outside (called (f 1) (on_secrets (\<lambda>st. secret_put st (browser_ref h) token)))) (\<lambda>_.
          on_sessions (AList.update h (browser_session_of x h csrf e))))) ?R (auth_ok pl {h})"
    by (rule runs_and_then[OF setting runs_and_then[OF secret session]])
  have env2: "quiet_env (\<lambda>k. f (2 + k))" using env by (simp add: quiet_env_def)
  have caught: "runs (auth_ok pl {h}) (and_then (quietly (deletePersistedBrowserCredential pl (\<lambda>k. f (2 + k)) (browser_key h) (browser_ref h)))
      (\<lambda>_. raise e')) ?R (auth_ok pl {})" for e' :: app_error
  proof -
    have "runs (auth_ok pl {h}) (and_then (quietly (deletePersistedBrowserCredential pl (\<lambda>k. f (2 + k)) (browser_key h) (browser_ref h)))
      (\<lambda>_. raise e')) ?R (auth_ok pl {h})"
      by (rule runs_and_then[OF runs_quietly[OF delete_one_keeps'[OF secrets env2]]]) (auto intro: runs_raise)
    then show ?thesis by (rule runs_weaken) (auto intro: auth_ok_less)
  qed
  show ?thesis unfolding store_credential_def
    by (rule runs_on_error[OF tried caught]) (auto intro: auth_ok_less)
qed

lemma users_same:
  "same_credentials d (fst (createUserIdentity d u))"
  "same_credentials d (fst (compareAndSetUserIdentity d u r))"
  "same_credentials d (fst (compareAndSetUserIdentityPreservingOwner d u r))"
  "same_credentials d (fst (deleteUserIdentityPreservingOwner d i r l))"
  using leaves_same[of "AccessOp (OpCreateUser u)" d] leaves_same[of "AccessOp (OpCasUser u r)" d]
    leaves_same[of "AccessOp (OpCasUserPreservingOwner u r)" d] leaves_same[of "AccessOp (OpDeleteUser i r l)" d]
  by simp_all

lemma refresh_aside:
  assumes env: "quiet_env f"
  shows "aside (refresh_identity f k n x current)"
proof (induction n arbitrary: k current)
  case 0
  show ?case by (simp add: aside_done)
next
  case (Suc n)
  have create: "aside (create_or_reread f k x)" unfolding create_or_reread_def
    by (intro aside_on_error aside_and_then aside_call aside_read quiet_envD[OF env] users_same aside_done)
      (auto simp: aside_done split: option.split)
  have cas: "aside (called (f (k + 2)) (on_db (\<lambda>d. apsnd resolve (compareAndSetUserIdentity d u r))))" for u r
    by (rule aside_call[OF quiet_envD[OF env]]) (simp add: users_same)
  show ?case unfolding refresh_identity.simps
  proof (rule aside_and_then)
    show "aside (case current of None \<Rightarrow> create_or_reread f k x | Some c \<Rightarrow> done_with (Inr c))"
      using create by (simp add: aside_done split: option.split)
    fix row
    show "aside (case row of
         Inl c \<Rightarrow> done_with c
       | Inr c \<Rightarrow>
           and_then (called (f (k + 2)) (on_db (\<lambda>d. apsnd resolve
               (compareAndSetUserIdentity d (refreshed x (vr_value c)) (vr_revision c))))) (\<lambda>updated.
             case updated of
               Applied r \<Rightarrow> done_with r
             | Rejected _ (Some u) _ \<Rightarrow>
                 if li_observedAt x \<le> user_lastSeenAt (vr_value u) then done_with u
                 else refresh_identity f (k + 3) n x (Some u)
             | Rejected _ None _ \<Rightarrow> refresh_identity f (k + 3) n x None))"
    proof (cases row)
      case (Inr c)
      show ?thesis unfolding Inr sum.case
        by (rule aside_and_then[OF cas]) (auto simp: aside_done Suc.IH split: write_result.split option.split)
    qed (simp add: aside_done)
  qed
qed

lemma health_aside:
  assumes env: "quiet_env f"
  shows "aside (mark_healthy f clock k n i)"
proof (induction n arbitrary: k)
  case 0
  show ?case by (simp add: aside_done)
next
  case (Suc n)
  have cas: "aside (called (f (2 * k + 1)) (on_db (\<lambda>d. apsnd resolve (compareAndSetProvider d p r))))" for p r
    by (rule aside_call[OF quiet_envD[OF env]]) (use leaves_same[of "CatalogOp (OpCasProvider p r)"] in simp)
  have next_step: "aside (and_then (called (f (2 * k + 1)) (on_db (\<lambda>d. apsnd resolve (compareAndSetProvider d p r)))) (\<lambda>r.
             case r of
               Applied _ \<Rightarrow> done_with ()
             | Rejected reason _ _ \<Rightarrow>
                 if reason = NotFound then raise NotFoundError
                 else if reason = InvalidState then raise ConflictError
                 else mark_healthy f clock (Suc k) n i))" for p r
    by (rule aside_and_then[OF cas]) (auto simp: aside_done Suc.IH split: write_result.split)
  show ?case unfolding mark_healthy.simps
    by (rule aside_and_then[OF aside_read[OF quiet_envD[OF env]]])
      (use next_step in \<open>auto simp: aside_done split: option.split\<close>)
qed

lemma authenticate_aside:
  assumes env: "quiet_env f"
  shows "aside (authenticate_user f clock answer i)"
proof -
  have step: "aside (and_then (mark_healthy f clock 0 MAX_PROVIDER_WRITE_ATTEMPTS i) (\<lambda>_. done_with identity))" for identity :: provider_identity
    by (rule aside_and_then[OF health_aside[OF env] aside_done(1)])
  show ?thesis unfolding aside_def
  proof
    fix w :: session_world
    show "same_credentials (sw_db w) (sw_db (fst (authenticate_user f clock answer i w))) \<and>
        sw_secrets (fst (authenticate_user f clock answer i w)) = sw_secrets w"
      using step unfolding aside_def authenticate_user_def by (auto split: option.split sum.split)
  qed
qed

lemma runs_aside:
  assumes "aside m" and "\<And>w w' x. m w = (w', Returned x) \<Longrightarrow> K x"
  shows "runs (auth_ok pl gone) (outside m) (\<lambda>x a. auth_ok pl gone a \<and> K x) (auth_ok pl gone)"
  unfolding runs_def
proof (intro allI impI)
  fix a
  assume "auth_ok pl gone a"
  then have "case outside m a of (a', Returned x) \<Rightarrow> auth_ok pl gone a' | (a', _) \<Rightarrow> auth_ok pl gone a'"
    using keeps_aside[OF assms(1), of pl gone] by (simp only: runs_def)
  then show "case outside m a of (a', Returned x) \<Rightarrow> auth_ok pl gone a' \<and> K x | (a', _) \<Rightarrow> auth_ok pl gone a'"
    using assms(2) by (auto simp: outside_def split: prod.splits reply.splits)
qed

lemma runs_option:
  assumes "runs P m Q E" and "\<And>x. runs P (k x) Q E"
  shows "runs P (case v of None \<Rightarrow> m | Some x \<Rightarrow> k x) Q E"
  using assms by (cases v) simp_all

lemma authenticate_answers: "authenticate_user f clock answer i w = (w', Returned x) \<Longrightarrow> \<exists>p. answer p = resolve x"
  by (auto simp: authenticate_user_def and_then_def done_with_def split: option.splits sum.splits prod.splits reply.splits if_splits)

text \<open>What a sign-in gives: a session, and the credential that the provider answered.\<close>

definition login_result ::
    "auth_platform \<Rightarrow> (provider_connection \<Rightarrow> provider_identity outcome) \<Rightarrow> login_draw \<Rightarrow> string \<times> principal \<Rightarrow> auth_world \<Rightarrow> bool" where
  "login_result pl answer r tp a \<longleftrightarrow>
     (\<exists>x q identity u. answer q = resolve identity \<and>
        signed_in a (ap_hashToken pl (ld_token r)) (browser_session_of x (ap_hashToken pl (ld_token r)) (ld_csrfToken r)
          (ld_now r + 12 * 60 * 60 * 1000)) (idn_accessToken identity) \<and>
        tp = (ld_token r, principalFromIdentity u (ld_csrfToken r) (Some (browser_ref (ap_hashToken pl (ld_token r))))))"

lemma login_keeps:
  assumes pl: "platform_ok pl" and env: "\<And>k. quiet_env (f k)" and h: "h = ap_hashToken pl (ld_token r)"
  shows "runs (auth_ok pl {h}) (login_jellyfin pl f clock answer username r)
     (\<lambda>tp a. auth_ok pl {} a \<and> login_result pl answer r tp a) (auth_ok pl {})"
proof -
  let ?R = "\<lambda>tp a. auth_ok pl {} a \<and> login_result pl answer r tp a"
  have hash: "is_token_hash (ap_hashToken pl t)" "ap_hashToken pl t \<noteq> []" for t
  proof -
    show h: "is_token_hash (ap_hashToken pl t)" using pl by (simp add: platform_ok_def)
    show "ap_hashToken pl t \<noteq> []" using h by (auto simp: is_token_hash_def)
  qed
  have less: "runs (auth_ok pl {h}) m Q (auth_ok pl {})" if "runs (auth_ok pl {h}) m Q (auth_ok pl {h})" for m :: "(auth_world, 'x) handler" and Q
    by (rule runs_weaken[OF that]) (auto intro: auth_ok_less)
  have stop: "runs (auth_ok pl {h}) (raise e) ?R (auth_ok pl {})" for e
    by (rule runs_raise) (auto intro: auth_ok_less)
  have config: "aside (called (f 0 0) (on_db (\<lambda>d. (d, sign_in_configuration pl d))))"
    by (rule aside_call[OF quiet_envD[OF env]]) simp
  have refresh: "aside (refreshIdentityAfterLogin (f 2) x)" for x
    unfolding refreshIdentityAfterLogin_def
    by (rule aside_and_then[OF aside_read[OF quiet_envD[OF env]] refresh_aside[OF env]])
  have provider: "runs (auth_ok pl {h}) (outside (authenticate_user (f 1) clock answer i))
      (\<lambda>x a. auth_ok pl {h} a \<and> (\<exists>q. answer q = resolve x)) (auth_ok pl {})" for i
    by (rule less[OF runs_aside[OF authenticate_aside[OF env]]]) (rule authenticate_answers)
  have stored: "runs (auth_ok pl {h}) (and_then (store_credential pl (f 3) (ld_later r) x (ap_hashToken pl (ld_token r)) (ld_csrfToken r)
        (idn_accessToken identity) (ld_now r + 12 * 60 * 60 * 1000)) (\<lambda>_.
           done_with (ld_token r, principalFromIdentity u (ld_csrfToken r) (Some (browser_ref (ap_hashToken pl (ld_token r)))))))
     ?R (auth_ok pl {})" if "li_identityId x \<noteq> []" "answer q = resolve identity" for x u identity q
    unfolding h by (rule runs_and_then[OF store_keeps[OF pl env hash(1) that(1)]], rule runs_done)
      (use that(2) in \<open>auto simp: login_result_def\<close>)
  have identified: "runs (\<lambda>a. auth_ok pl {h} a \<and> (\<exists>q. answer q = resolve identity))
     (if \<not> truthy (idn_userId identity) then raise UnauthorizedError
      else
        let tokenHash = ap_hashToken pl (ld_token r);
            userId = the (idn_userId identity);
            expiresAt = ld_now r + 12 * 60 * 60 * 1000;
            x = \<lparr>li_identityId = ap_hashToken pl (providerId @ char_of (0 :: nat) # userId), li_providerId = providerId,
                 li_providerUserId = userId, li_displayName = coalesce (idn_username identity) username,
                 li_observedAt = ld_later r\<rparr>
        in and_then (outside (refreshIdentityAfterLogin (f 2) x)) (\<lambda>u.
           and_then (store_credential pl (f 3) (ld_later r) x tokenHash (ld_csrfToken r) (idn_accessToken identity) expiresAt) (\<lambda>_.
             done_with (ld_token r, principalFromIdentity (vr_value u) (ld_csrfToken r) (Some (browser_ref tokenHash))))))
     ?R (auth_ok pl {})" for identity providerId
  proof (cases "\<exists>q. answer q = resolve identity")
    case True
    then obtain q where q: "answer q = resolve identity" by blast
    show ?thesis unfolding Let_def
      by (rule runs_pre[where P = "auth_ok pl {h}"], rule runs_if[OF stop],
        rule runs_and_then[OF less[OF keeps_aside[OF refresh]] stored[OF _ q]]) (use hash in simp_all)
  qed (simp add: runs_def)
  show ?thesis unfolding login_jellyfin_def
    by (rule runs_if[OF stop], rule runs_and_then[OF less[OF keeps_aside[OF config]]], rule runs_option[OF stop],
      rule runs_and_then[OF provider identified])
qed

section \<open>Signing out\<close>

lemma runs_from: "(\<And>a. P a \<Longrightarrow> runs (\<lambda>b. b = a) m Q E) \<Longrightarrow> runs P m Q E"
  by (simp add: runs_def)

lemma runs_same: "(\<And>a. P a \<Longrightarrow> m a = n a) \<Longrightarrow> runs P m Q E \<longleftrightarrow> runs P n Q E"
  by (simp add: runs_def)

lemma session_pair:
  assumes "auth_ok pl gone a" and "(h, s) \<in> set (aw_sessions a)" and "credential_pair s = Some p"
  shows "p = (browser_key h, browser_ref h)"
  using auth_okD(5)[OF assms(1,2)] assms(3)
  by (auto simp: session_ok_def recovery_entry_def jellyfin_entry_def credential_pair_def split: if_splits)

lemma drop_session_runs:
  "runs (auth_ok pl gone) (on_sessions (AList.delete h)) (\<lambda>_. auth_ok pl (insert h gone)) E"
  unfolding runs_def
proof (intro allI impI)
  fix a
  assume "auth_ok pl gone a"
  from drop_sessions_ok[OF this, of "\<lambda>p. fst p \<noteq> h" "{h}"]
  show "case on_sessions (AList.delete h) a of (a', Returned x) \<Rightarrow> auth_ok pl (insert h gone) a' | (a', _) \<Rightarrow> E a'"
    by (simp add: on_sessions_def delete_as_filter)
qed

lemma delete_pair_keeps:
  assumes pl: "platform_ok pl" and env: "quiet_env f" and p: "\<And>p. pair = Some p \<Longrightarrow> p = (browser_key h, browser_ref h)"
  shows "runs (auth_ok pl (insert h gone)) (case pair of None \<Rightarrow> done_with ()
      | Some (key, ref) \<Rightarrow> quietly (deletePersistedBrowserCredential pl f key ref)) (\<lambda>_. auth_ok pl gone) (auth_ok pl gone)"
proof (cases pair)
  case None
  then show ?thesis by (auto simp: runs_def done_with_def intro: auth_ok_less)
next
  case (Some q)
  have "keeps_auth pl (insert h gone) (quietly (deletePersistedBrowserCredential pl f (browser_key h) (browser_ref h)))"
    by (rule runs_quietly[OF delete_one_keeps'[OF _ env]]) (use pl in \<open>simp_all add: platform_ok_def\<close>)
  then have "runs (auth_ok pl (insert h gone)) (quietly (deletePersistedBrowserCredential pl f (browser_key h) (browser_ref h)))
      (\<lambda>_. auth_ok pl gone) (auth_ok pl gone)"
    by (rule runs_weaken) (auto intro: auth_ok_less)
  then show ?thesis using p[OF Some] by (simp add: Some)
qed

lemma logout_keeps:
  assumes pl: "platform_ok pl" and env: "quiet_env f"
  shows "keeps_auth pl {} (logout pl f token)"
proof (rule runs_from)
  fix a
  assume a: "auth_ok pl {} a"
  show "runs (\<lambda>b. b = a) (logout pl f token) (\<lambda>_. auth_ok pl {}) (auth_ok pl {})"
  proof (cases "truthy token")
    case False
    then show ?thesis using a by (simp add: runs_def logout_def)
  next
    case True
    let ?h = "ap_hashToken pl (the token)"
    let ?pair = "Option.bind (map_of (aw_sessions a) ?h) credential_pair"
    have "p = (browser_key ?h, browser_ref ?h)" if pair: "?pair = Some p" for p
    proof -
      obtain s where "map_of (aw_sessions a) ?h = Some s" "credential_pair s = Some p"
        using pair unfolding bind_eq_Some_conv by blast
      then show ?thesis using session_pair[OF a] map_of_SomeD by fast
    qed
    from delete_pair_keeps[OF pl env this]
    have "runs (auth_ok pl {}) (and_then (on_sessions (AList.delete ?h)) (\<lambda>_. case ?pair of None \<Rightarrow> done_with ()
      | Some (key, ref) \<Rightarrow> quietly (deletePersistedBrowserCredential pl f key ref))) (\<lambda>_. auth_ok pl {}) (auth_ok pl {})"
      by (rule runs_and_then[OF drop_session_runs])
    then show ?thesis using a True by (simp add: runs_def logout_def Let_def)
  qed
qed

section \<open>Deletion of a user\<close>

definition no_sessions_of :: "ident \<Rightarrow> auth_world \<Rightarrow> bool" where
  "no_sessions_of i a \<longleftrightarrow> (\<forall>p \<in> set (aw_sessions a). bs_identityId (snd p) \<noteq> Some i)"

lemma stringify_inj:
  assumes "platform_ok pl" and "ap_stringify pl c = ap_stringify pl c'"
  shows "c = c'"
proof -
  have "ap_parse pl (ap_stringify pl c) = ap_parse pl (ap_stringify pl c')" using assms(2) by simp
  then show ?thesis using assms(1) by (simp add: platform_ok_def)
qed

lemma entries_of_identity:
  assumes pl: "platform_ok pl" and ok: "auth_ok pl {} a" and none: "no_sessions_of i a" and cs: "listed pl cs a"
  shows "pairs_of (- live a) (map (\<lambda>(key, c). (key, pc_secretRef c)) (filter (\<lambda>(_, c). pc_identityId c = i) cs))"
  unfolding pairs_of_def
proof
  fix p
  assume "p \<in> set (map (\<lambda>(key, c). (key, pc_secretRef c)) (filter (\<lambda>(_, c). pc_identityId c = i) cs))"
  then obtain key c where c: "(key, c) \<in> set cs" "pc_identityId c = i" "p = (key, pc_secretRef c)" by auto
  then obtain h j e where h: "key = browser_key h" "c = persisted_credential_of j h e"
    "getSetting (sw_db (aw_world a)) (browser_key h) = Some (ap_stringify pl c)" using cs unfolding listed_def by fastforce
  have "h \<notin> live a"
  proof
    assume "h \<in> live a"
    then obtain s where s: "(h, s) \<in> set (aw_sessions a)" "bs_authMethod s = JellyfinLogin" by (auto simp: live_def)
    then obtain j' e' where j': "bs_identityId s = Some j'" "ap_stringify pl c = ap_stringify pl (persisted_credential_of j' h e')"
      using auth_okD(5)[OF ok s(1)] h(3) by (auto simp: session_ok_def jellyfin_entry_def recovery_entry_def)
    have "pc_identityId c = j'" using stringify_inj[OF pl j'(2)] by (simp add: persisted_credential_of_def)
    then show False using none s(1) j'(1) c(2) by (force simp: no_sessions_of_def)
  qed
  then show "\<exists>h \<in> - live a. p = (browser_key h, browser_ref h)" using c(3) h by (auto simp: persisted_credential_of_def)
qed

end
