(* ===== verification/RelayAuthRemoval.thy ===== *)
theory RelayAuthRemoval
  imports RelayAuthHistory
begin

text \<open>
  Deletions of many credentials: of a user, of a cleanup, of a restart. With \<open>b\<close> the calls may
  fail; without it they all work, and then nothing is raised.
\<close>

section \<open>Calls that may or may not fail\<close>

definition env_ok :: "bool \<Rightarrow> call_env \<Rightarrow> bool" where
  "env_ok b f \<longleftrightarrow> quiet_env f \<and> (b \<or> (\<forall>k. snd (f k) = Works))"

lemma env_okD: "env_ok b f \<Longrightarrow> quiet_env f" "env_ok b f \<Longrightarrow> quiet_call (f k)" "env_ok b f \<Longrightarrow> \<not> b \<Longrightarrow> snd (f k) = Works"
  by (auto simp: env_ok_def)

lemma runs_outside_if:
  assumes "holds_meanwhile P" and "quiet_call c" and "b \<or> snd c = Works"
    and E: "\<And>a. P a \<Longrightarrow> E a" "\<And>a. P a \<Longrightarrow> E (a\<lparr>aw_world := fst (m (aw_world a))\<rparr>)"
    and Q: "\<And>a. P a \<Longrightarrow> \<exists>x. snd (m (aw_world a)) = Inr x \<and> Q x (a\<lparr>aw_world := fst (m (aw_world a))\<rparr>)"
  shows "runs P (outside (called c m)) Q (\<lambda>a. b \<and> E a)"
proof (cases b)
  case True
  have "runs P (outside (called c m)) Q E"
  proof (rule runs_outside[OF assms(1,2)])
    fix a x
    assume a: "P a"
    then show "E a" "E (a\<lparr>aw_world := fst (m (aw_world a))\<rparr>)" using E by auto
    assume "snd (m (aw_world a)) = Inr x"
    then show "Q x (a\<lparr>aw_world := fst (m (aw_world a))\<rparr>)" using Q[OF a] by auto
  qed
  then show ?thesis using True by simp
next
  case False
  then have c: "snd c = Works" using assms(3) by simp
  show ?thesis unfolding runs_def
  proof (intro allI impI)
    fix a
    assume "P a"
    define v where "v = meanwhile (fst c) (aw_world a)"
    have "P (a\<lparr>aw_world := v\<rparr>)" using assms(1,2) \<open>P a\<close> unfolding holds_meanwhile_def quiet_call_def v_def by blast
    from Q[OF this] obtain x where "snd (m v) = Inr x" "Q x (a\<lparr>aw_world := fst (m v)\<rparr>)" by auto
    then show "case outside (called c m) a of (a', Returned x) \<Rightarrow> Q x a' | (a', _) \<Rightarrow> b \<and> E a'"
      using c by (simp add: outside_def called_def case_prod_beta flip: v_def)
  qed
qed

text \<open>The sessions are \<open>ss\<close>, the settings some of \<open>ks\<close>, and the credentials of \<open>hs\<close> are gone.\<close>

abbreviation setting_of :: "auth_world \<Rightarrow> string \<Rightarrow> string option" where
  "setting_of a \<equiv> \<lambda>h. getSetting (sw_db (aw_world a)) (browser_key h)"

definition cleared ::
    "auth_platform \<Rightarrow> string set \<Rightarrow> (string \<times> browser_session) list \<Rightarrow> (string \<Rightarrow> string option) \<Rightarrow> string set \<Rightarrow> auth_world \<Rightarrow> bool" where
  "cleared pl gone ss ks hs a \<longleftrightarrow>
     auth_ok pl gone a \<and> (\<lambda>(ss', s, k). ss' = ss \<and> map_le k ks \<and> (\<forall>h \<in> hs. s h = None \<and> k h = None)) (login_view a)"

lemma cleared_iff:
  "cleared pl gone ss ks hs a \<longleftrightarrow>
     auth_ok pl gone a \<and> aw_sessions a = ss \<and> map_le (setting_of a) ks \<and> (\<forall>h \<in> hs. dropped h a)"
  by (simp add: cleared_def login_view_def dropped_def)

lemma holds_meanwhile_cleared: "holds_meanwhile (cleared pl gone ss ks hs)"
  unfolding cleared_def by (rule holds_meanwhile_view)

lemma delete_one_clears:
  assumes pl: "ap_secrets pl" and env: "env_ok b f" and h: "h \<in> gone"
  shows "runs (cleared pl gone ss ks hs) (deletePersistedBrowserCredential pl f (browser_key h) (browser_ref h))
     (\<lambda>_. cleared pl gone ss ks (insert h hs)) (\<lambda>a. b \<and> cleared pl gone ss ks hs a)"
proof -
  let ?P = "cleared pl gone ss ks hs"
  let ?R = "\<lambda>(ss', s, k). (ss' = ss \<and> map_le k ks \<and> (\<forall>h \<in> hs. s h = None \<and> k h = None)) \<and> s h = None"
  let ?Q = "\<lambda>a. auth_ok pl gone a \<and> ?R (login_view a)"
  have works: "b \<or> snd (f k) = Works" for k using env_okD(3)[OF env] by blast
  have secret: "runs ?P (outside (called (f 0) (on_secrets (\<lambda>st. secret_delete st (browser_ref h))))) (\<lambda>_. ?Q) (\<lambda>a. b \<and> ?P a)"
  proof (rule runs_outside_if[OF holds_meanwhile_cleared env_okD(2)[OF env] works])
    fix a
    assume a: "?P a"
    let ?a = "a\<lparr>aw_world := fst (on_secrets (\<lambda>st. secret_delete st (browser_ref h)) (aw_world a))\<rparr>"
    show "?P a" by (rule a)
    have ok: "auth_ok pl gone ?a" using drop_secret_ok[OF _ h] a by (simp add: cleared_def on_secrets_def)
    show "?P ?a" "\<exists>x. snd (on_secrets (\<lambda>st. secret_delete st (browser_ref h)) (aw_world a)) = Inr x \<and> ?Q ?a"
      using ok a by (auto simp: cleared_def login_view_def on_secrets_def secret_delete_def)
  qed
  have setting: "runs ?Q (outside (called (f 1) (write_db (\<lambda>d. deleteSetting d (browser_key h)))))
      (\<lambda>_. cleared pl gone ss ks (insert h hs)) (\<lambda>a. b \<and> ?P a)"
  proof (rule runs_outside_if[OF holds_meanwhile_view env_okD(2)[OF env] works])
    fix a
    assume a: "?Q a"
    let ?a = "a\<lparr>aw_world := fst (write_db (\<lambda>d. deleteSetting d (browser_key h)) (aw_world a))\<rparr>"
    have no: "sw_secrets (aw_world a) (browser_ref h) = None" using a by (simp add: login_view_def)
    show "?P a" using a by (auto simp: cleared_def login_view_def)
    have "auth_ok pl gone ?a" using drop_setting_ok[OF _ h no] a by (simp add: write_db_def on_db_def)
    then have all: "cleared pl gone ss ks (insert h hs) ?a"
      unfolding cleared_def using a no delete_setting_same[OF auth_okD(1)[OF conjunct1[OF a]]]
      by (auto simp: login_view_def write_db_def on_db_def map_le_def dom_def)
    then show "?P ?a" by (auto simp: cleared_def)
    show "\<exists>x. snd (write_db (\<lambda>d. deleteSetting d (browser_key h)) (aw_world a)) = Inr x \<and> cleared pl gone ss ks (insert h hs) ?a"
      using all by (simp add: write_db_def on_db_def)
  qed
  show ?thesis
    unfolding deletePersistedBrowserCredential_def if_P[OF pl] by (rule runs_and_then[OF secret setting])
qed

text \<open>The same when the error is swallowed: the credential is gone if the calls worked.\<close>

lemma delete_quiet_one_clears:
  assumes pl: "ap_secrets pl" and env: "env_ok b f" and h: "h \<in> gone"
  shows "runs (cleared pl gone ss ks hs) (quietly (deletePersistedBrowserCredential pl f (browser_key h) (browser_ref h)))
     (\<lambda>_. cleared pl gone ss ks (if b then hs else insert h hs)) (\<lambda>a. b \<and> cleared pl gone ss ks hs a)"
proof (cases b)
  case True
  have "runs (cleared pl gone ss ks hs) (deletePersistedBrowserCredential pl f (browser_key h) (browser_ref h))
     (\<lambda>_. cleared pl gone ss ks hs) (cleared pl gone ss ks hs)"
    by (rule runs_weaken[OF delete_one_clears[OF pl env h, of ss ks hs]]) (auto simp: cleared_iff)
  from runs_quietly[OF this] show ?thesis using True by simp
next
  case False
  have "runs (cleared pl gone ss ks hs) (deletePersistedBrowserCredential pl f (browser_key h) (browser_ref h))
     (\<lambda>_. cleared pl gone ss ks (insert h hs)) (\<lambda>_. False)"
    using delete_one_clears[OF pl env h, of ss ks hs] False by simp
  from runs_on_error[OF this, of "\<lambda>_. done_with ()" "\<lambda>_. False"] show ?thesis
    using False by (simp add: quietly_def) (simp add: runs_def)
qed

lemma delete_quietly_clears:
  assumes pl: "ap_secrets pl" and env: "\<And>k. env_ok b (f k)"
  shows "set hs' \<subseteq> gone \<Longrightarrow> runs (cleared pl gone ss ks hs) (delete_quietly pl f k (map (\<lambda>h. (browser_key h, browser_ref h)) hs'))
     (\<lambda>_. cleared pl gone ss ks (if b then hs else set hs' \<union> hs)) (\<lambda>a. b \<and> cleared pl gone ss ks hs a)"
proof (induction hs' arbitrary: k hs)
  case Nil
  show ?case by (simp add: runs_done)
next
  case (Cons h hs')
  then have h: "h \<in> gone" and sub: "set hs' \<subseteq> gone" by auto
  have rest: "runs (cleared pl gone ss ks (if b then hs else insert h hs))
      (delete_quietly pl f (Suc k) (map (\<lambda>h. (browser_key h, browser_ref h)) hs'))
     (\<lambda>_. cleared pl gone ss ks (if b then hs else set (h # hs') \<union> hs)) (\<lambda>a. b \<and> cleared pl gone ss ks hs a)"
    using Cons.IH[OF sub, of "if b then hs else insert h hs" "Suc k"] by (cases b) simp_all
  show ?case unfolding list.map delete_quietly.simps
    by (rule runs_and_then[OF delete_quiet_one_clears[OF pl env h] rest])
qed

lemma delete_until_error_clears:
  assumes pl: "ap_secrets pl" and env: "\<And>k. env_ok b (f k)"
  shows "set hs' \<subseteq> gone \<Longrightarrow> runs (cleared pl gone ss ks hs) (delete_until_error pl f k (map (\<lambda>h. (browser_key h, browser_ref h)) hs'))
     (\<lambda>_. cleared pl gone ss ks (set hs' \<union> hs)) (\<lambda>a. b \<and> cleared pl gone ss ks hs a)"
proof (induction hs' arbitrary: k hs)
  case Nil
  show ?case by (simp add: runs_done)
next
  case (Cons h hs')
  then have h: "h \<in> gone" and sub: "set hs' \<subseteq> gone" by auto
  have rest: "runs (cleared pl gone ss ks (insert h hs))
      (delete_until_error pl f (Suc k) (map (\<lambda>h. (browser_key h, browser_ref h)) hs'))
     (\<lambda>_. cleared pl gone ss ks (set (h # hs') \<union> hs)) (\<lambda>a. b \<and> cleared pl gone ss ks hs a)"
    by (rule runs_weaken[OF Cons.IH[OF sub, of "insert h hs" "Suc k"]]) (auto simp: cleared_iff)
  show ?case unfolding list.map delete_until_error.simps
    by (rule runs_and_then[OF delete_one_clears[OF pl env h] rest])
qed

text \<open>\<^verbatim>\<open>Promise.all\<close>: when it returns, every one has worked.\<close>

lemma settled_clears:
  assumes "runs P m (\<lambda>_. Q) (\<lambda>a. b \<and> P a)"
  shows "runs P (settled m) (\<lambda>e. if e = None then Q else (\<lambda>a. b \<and> P a)) (\<lambda>a. b \<and> P a)"
  unfolding settled_def
  by (rule runs_on_error[where E' = "\<lambda>a. b \<and> P a", OF runs_and_then[OF assms runs_done]])
    (auto simp: runs_def done_with_def)

lemma all_settled_clears:
  assumes "\<And>h m hs. (h, m) \<in> set ms \<Longrightarrow> runs (D hs) m (\<lambda>_. D (insert h hs)) (\<lambda>a. b \<and> D hs a)"
    and less: "\<And>hs hs' a. D hs a \<Longrightarrow> hs' \<subseteq> hs \<Longrightarrow> D hs' a"
  shows "runs (D hs) (all_settled (map snd ms)) (\<lambda>_. D (fst ` set ms \<union> hs)) (\<lambda>a. b \<and> D hs a)"
  using assms(1)
proof (induction ms arbitrary: hs)
  case Nil
  show ?case by (simp add: runs_done)
next
  case (Cons p ms)
  obtain h m where p: "p = (h, m)" by (cases p)
  have one: "runs (D hs) m (\<lambda>_. D (insert h hs)) (\<lambda>a. b \<and> D hs a)" by (rule Cons.prems) (simp add: p)
  have others: "runs (D hs') (all_settled (map snd ms)) (\<lambda>_. D (fst ` set ms \<union> hs')) (\<lambda>a. b \<and> D hs' a)" for hs'
    by (rule Cons.IH) (use Cons.prems in auto)
  have fails: "runs (if e' = None then D (fst ` set ms \<union> hs') else (\<lambda>a. b \<and> D hs' a))
      (fail_with (case e of None \<Rightarrow> e' | Some _ \<Rightarrow> e)) (\<lambda>_. D (fst ` set (p # ms) \<union> hs)) (\<lambda>a. b \<and> D hs a)"
    if "hs \<subseteq> hs'" "e = None \<Longrightarrow> h \<in> hs'" "e \<noteq> None \<Longrightarrow> b" for e e' hs'
  proof -
    have "fst ` set (p # ms) \<union> hs \<subseteq> fst ` set ms \<union> hs'" if "e = None" using \<open>hs \<subseteq> hs'\<close> \<open>e = None \<Longrightarrow> h \<in> hs'\<close> that by (auto simp: p)
    then have "D (fst ` set (p # ms) \<union> hs) a" if "e = None" "D (fst ` set ms \<union> hs') a" for a using less that by blast
    moreover have "D hs a" if "D hs' a" for a using less[OF that \<open>hs \<subseteq> hs'\<close>] .
    moreover have "D hs a" if "D (fst ` set ms \<union> hs') a" for a using less[OF that] \<open>hs \<subseteq> hs'\<close> by blast
    ultimately show ?thesis using \<open>e \<noteq> None \<Longrightarrow> b\<close>
      by (cases e; cases e') (auto simp: fail_with_def simp del: image_insert intro!: runs_done runs_raise)
  qed
  have rest: "runs (if e = None then D (insert h hs) else (\<lambda>a. b \<and> D hs a))
      (and_then (settled (all_settled (map snd ms))) (\<lambda>e'. fail_with (case e of None \<Rightarrow> e' | Some _ \<Rightarrow> e)))
      (\<lambda>_. D (fst ` set (p # ms) \<union> hs)) (\<lambda>a. b \<and> D hs a)" for e
  proof (cases e)
    case None
    have "runs (D (insert h hs)) (settled (all_settled (map snd ms)))
        (\<lambda>e'. if e' = None then D (fst ` set ms \<union> insert h hs) else (\<lambda>a. b \<and> D (insert h hs) a)) (\<lambda>a. b \<and> D hs a)"
      by (rule runs_weaken[OF settled_clears[OF others[of "insert h hs"]]]) (auto intro: less)
    from runs_and_then[OF this fails[of "insert h hs" None]] show ?thesis using None by auto
  next
    case (Some x)
    show ?thesis
    proof (cases b)
      case True
      have "runs (D hs) (settled (all_settled (map snd ms)))
          (\<lambda>e'. if e' = None then D (fst ` set ms \<union> hs) else (\<lambda>a. b \<and> D hs a)) (\<lambda>a. b \<and> D hs a)"
        by (rule settled_clears[OF others])
      from runs_and_then[OF this fails[of hs "Some x"]] show ?thesis using Some True by auto
    qed (simp add: Some runs_def)
  qed
  show ?case using runs_and_then[OF settled_clears[OF one] rest] by (simp add: p)
qed

end
