(* ===== verification/RelayAuthCleanup.thy ===== *)
theory RelayAuthCleanup
  imports RelayAuthRemoval
begin

text \<open>
  Deletion of a user, cleanup and recovery after a restart, under any faults and without
  faults; the histories of an installation.
\<close>

section \<open>Reading the credentials\<close>

lemma all_gone: "auth_ok pl {} a \<Longrightarrow> auth_ok pl (- live a) a"
  by (auto simp: auth_ok_def)

lemma live_sessions: "aw_sessions a = aw_sessions a' \<Longrightarrow> live a = live a'"
  by (simp add: live_def)

lemma cleared_less: "cleared pl gone ss ks hs a \<Longrightarrow> gone' \<subseteq> gone \<Longrightarrow> hs' \<subseteq> hs \<Longrightarrow> cleared pl gone' ss ks hs' a"
  using auth_ok_less by (auto simp: cleared_iff)

lemma cleared_start: "auth_ok pl gone a \<Longrightarrow> cleared pl gone (aw_sessions a) (setting_of a) {} a"
  by (simp add: cleared_iff)

lemma persisted_clears:
  assumes pl: "platform_ok pl" and c: "quiet_call c" and b: "b \<or> snd c = Works"
  shows "runs (cleared pl gone ss ks hs) (persistedBrowserCredentials pl c)
     (\<lambda>cs a. cleared pl gone ss ks hs a \<and> listed pl cs a) (\<lambda>a. b \<and> cleared pl gone ss ks hs a)"
  unfolding persistedBrowserCredentials_def
proof (rule runs_outside_if[OF holds_meanwhile_cleared c b])
  fix a
  assume a: "cleared pl gone ss ks hs a"
  let ?m = "on_db (\<lambda>d. (d, read_all_persisted pl (listSettingsByPrefix d BROWSER_CREDENTIAL_SETTING_PREFIX)))"
  have same: "a\<lparr>aw_world := fst (?m (aw_world a))\<rparr> = a" by (simp add: on_db_def)
  show "cleared pl gone ss ks hs a" "cleared pl gone ss ks hs (a\<lparr>aw_world := fst (?m (aw_world a))\<rparr>)" using a same by simp_all
  have "auth_ok pl gone a" using a by (simp add: cleared_def)
  from persisted_listed[OF pl this]
  show "\<exists>cs. snd (?m (aw_world a)) = Inr cs \<and>
      cleared pl gone ss ks hs (a\<lparr>aw_world := fst (?m (aw_world a))\<rparr>) \<and> listed pl cs (a\<lparr>aw_world := fst (?m (aw_world a))\<rparr>)"
    using a same by (auto simp: on_db_def)
qed

definition chosen :: "auth_world \<Rightarrow> (string \<times> persisted_credential \<Rightarrow> bool) \<Rightarrow> (string \<times> persisted_credential) list \<Rightarrow> string list \<Rightarrow> bool" where
  "chosen a Q cs hs \<longleftrightarrow>
     map (\<lambda>(key, c). (key, pc_secretRef c)) (filter Q cs) = map (\<lambda>h. (browser_key h, browser_ref h)) hs \<and>
     (\<forall>h \<in> set hs. \<exists>c. (browser_key h, c) \<in> set cs \<and> Q (browser_key h, c)) \<and>
     (\<forall>h c. (browser_key h, c) \<in> set cs \<longrightarrow> Q (browser_key h, c) \<longrightarrow> h \<in> set hs)"

lemma listed_chosen:
  assumes "listed pl cs a"
  shows "\<exists>hs. chosen a Q cs hs"
proof -
  let ?P = "\<lambda>cs. \<forall>p \<in> set cs. \<exists>h i e. p = (browser_key h, persisted_credential_of i h e)"
  have "\<exists>hs. chosen a Q cs hs" if "?P cs" for cs
    using that
  proof (induction cs)
    case Nil
    show ?case by (rule exI[of _ "[]"]) (simp add: chosen_def)
  next
    case (Cons p cs)
    then obtain hs h i e where hs: "chosen a Q cs hs" "p = (browser_key h, persisted_credential_of i h e)" by auto
    have ref: "pc_secretRef (persisted_credential_of i h e) = browser_ref h" by (simp add: persisted_credential_of_def)
    have "chosen a Q (p # cs) (if Q p then h # hs else hs)"
      using hs by (auto simp: chosen_def ref)
    then show ?case by blast
  qed
  moreover have "?P cs" using assms unfolding listed_def by blast
  ultimately show ?thesis by blast
qed

section \<open>Cleanup\<close>

definition unexpired :: "(nat \<Rightarrow> instant) \<Rightarrow> string \<times> browser_session \<Rightarrow> bool" where
  "unexpired clock p \<longleftrightarrow> (\<exists>k. clock k < bs_expiresAt (snd p))"

definition sweeping :: "auth_platform \<Rightarrow> (nat \<Rightarrow> instant) \<Rightarrow> (string \<times> browser_session) list \<Rightarrow> auth_world \<Rightarrow> bool" where
  "sweeping pl clock ss a \<longleftrightarrow>
     auth_ok pl {} a \<and> (\<forall>p \<in> set (aw_sessions a). p \<in> set ss \<or> unexpired clock p) \<and>
     (\<forall>p \<in> set ss. \<forall>q. credential_pair (snd p) = Some q \<longrightarrow> q = (browser_key (fst p), browser_ref (fst p)))"

lemma sweeping_start: "auth_ok pl {} a \<Longrightarrow> sweeping pl clock (aw_sessions a) a"
  using session_pair unfolding sweeping_def by fastforce

lemma drop_pair_runs:
  assumes pl: "platform_ok pl" and env: "env_ok b f" and p: "\<And>q. pair = Some q \<Longrightarrow> q = (browser_key h, browser_ref h)"
  shows "runs (\<lambda>a. auth_ok pl {h} a \<and> aw_sessions a = ss) (case pair of None \<Rightarrow> done_with ()
      | Some (key, ref) \<Rightarrow> quietly (deletePersistedBrowserCredential pl f key ref))
      (\<lambda>_ a. auth_ok pl {} a \<and> aw_sessions a = ss) (\<lambda>a. b \<and> auth_ok pl {} a)"
proof (cases pair)
  case None
  then show ?thesis by (auto simp: runs_def done_with_def intro: auth_ok_less)
next
  case (Some q)
  have secrets: "ap_secrets pl" using pl by (simp add: platform_ok_def)
  show ?thesis
  proof (rule runs_from)
    fix a
    assume a: "auth_ok pl {h} a \<and> aw_sessions a = ss"
    have "runs (cleared pl {h} ss (setting_of a) {}) (quietly (deletePersistedBrowserCredential pl f (browser_key h) (browser_ref h)))
      (\<lambda>_. cleared pl {h} ss (setting_of a) (if b then {} else insert h {})) (\<lambda>a'. b \<and> cleared pl {h} ss (setting_of a) {} a')"
      by (rule delete_quiet_one_clears[OF secrets env]) simp
    then have "runs (\<lambda>a'. a' = a) (quietly (deletePersistedBrowserCredential pl f (browser_key h) (browser_ref h)))
      (\<lambda>_ a. auth_ok pl {} a \<and> aw_sessions a = ss) (\<lambda>a. b \<and> auth_ok pl {} a)"
      by (rule runs_weaken) (use a in \<open>auto simp: cleared_iff intro: auth_ok_less\<close>)
    then show "runs (\<lambda>a'. a' = a) (case pair of None \<Rightarrow> done_with ()
      | Some (key, ref) \<Rightarrow> quietly (deletePersistedBrowserCredential pl f key ref))
      (\<lambda>_ a. auth_ok pl {} a \<and> aw_sessions a = ss) (\<lambda>a. b \<and> auth_ok pl {} a)"
      using p[OF Some] by (simp add: Some)
  qed
qed

lemma drop_expired_runs:
  assumes pl: "platform_ok pl" and env: "\<And>k. env_ok b (f k)"
  shows "runs (sweeping pl clock ss) (drop_expired pl f clock k ss) (\<lambda>_. sweeping pl clock []) (\<lambda>a. b \<and> auth_ok pl {} a)"
proof (induction ss arbitrary: k)
  case Nil
  show ?case by (simp add: runs_done)
next
  case (Cons p ss)
  obtain h s where p: "p = (h, s)" by (cases p)
  show ?case unfolding p drop_expired.simps
  proof (rule runs_if)
    assume "clock k < bs_expiresAt s"
    then have "unexpired clock p" by (auto simp: unexpired_def p)
    then show "runs (sweeping pl clock ((h, s) # ss)) (drop_expired pl f clock (Suc k) ss) (\<lambda>_. sweeping pl clock []) (\<lambda>a. b \<and> auth_ok pl {} a)"
      by (intro runs_pre[OF Cons.IH]) (auto simp: sweeping_def p)
  next
    show "runs (sweeping pl clock ((h, s) # ss)) (and_then (on_sessions (AList.delete h)) (\<lambda>_.
        and_then (case credential_pair s of None \<Rightarrow> done_with ()
            | Some (key, ref) \<Rightarrow> quietly (deletePersistedBrowserCredential pl (f k) key ref)) (\<lambda>_.
          drop_expired pl f clock (Suc k) ss))) (\<lambda>_. sweeping pl clock []) (\<lambda>a. b \<and> auth_ok pl {} a)"
    proof (rule runs_from)
      fix a
      assume a: "sweeping pl clock ((h, s) # ss) a"
      let ?ss = "AList.delete h (aw_sessions a)"
      have ok: "auth_ok pl {} a" using a by (simp add: sweeping_def)
      have drop: "runs (\<lambda>a'. a' = a) (on_sessions (AList.delete h)) (\<lambda>_ a'. auth_ok pl {h} a' \<and> aw_sessions a' = ?ss)
          (\<lambda>a. b \<and> auth_ok pl {} a)"
        using drop_sessions_ok[OF ok, of "\<lambda>p. fst p \<noteq> h" "{h}"] by (simp add: runs_def on_sessions_def delete_as_filter)
      have pair: "runs (\<lambda>a'. auth_ok pl {h} a' \<and> aw_sessions a' = ?ss) (case credential_pair s of None \<Rightarrow> done_with ()
            | Some (key, ref) \<Rightarrow> quietly (deletePersistedBrowserCredential pl (f k) key ref))
          (\<lambda>_. sweeping pl clock ss) (\<lambda>a. b \<and> auth_ok pl {} a)"
      proof (rule runs_weaken[OF drop_pair_runs[OF pl env, of _ h ?ss]])
        show "q = (browser_key h, browser_ref h)" if "credential_pair s = Some q" for q
          using a that by (cases q) (simp add: sweeping_def)
        show "sweeping pl clock ss a'" if "auth_ok pl {} a' \<and> aw_sessions a' = ?ss" for a'
          using a that by (auto simp: sweeping_def delete_as_filter)
      qed
      show "runs (\<lambda>a'. a' = a) (and_then (on_sessions (AList.delete h)) (\<lambda>_.
        and_then (case credential_pair s of None \<Rightarrow> done_with ()
            | Some (key, ref) \<Rightarrow> quietly (deletePersistedBrowserCredential pl (f k) key ref)) (\<lambda>_.
          drop_expired pl f clock (Suc k) ss))) (\<lambda>_. sweeping pl clock []) (\<lambda>a. b \<and> auth_ok pl {} a)"
        by (rule runs_and_then[OF drop runs_and_then[OF pair Cons.IH]])
    qed
  qed
qed

text \<open>The credentials that are left belong to sessions.\<close>

definition only_live :: "auth_world \<Rightarrow> bool" where
  "only_live a \<longleftrightarrow> (\<forall>h. setting_of a h \<noteq> None \<or> sw_secrets (aw_world a) (browser_ref h) \<noteq> None \<longrightarrow> h \<in> live a)"

lemma active_live:
  assumes ok: "auth_ok pl gone a"
  shows "browser_key h \<in> set (activeSettingKeys (aw_sessions a)) \<longleftrightarrow> h \<in> live a"
proof
  assume "browser_key h \<in> set (activeSettingKeys (aw_sessions a))"
  then obtain h' s where s: "(h', s) \<in> set (aw_sessions a)" "bs_credentialSettingKey s = Some (browser_key h)"
    by (auto simp: activeSettingKeys_def truthy_def split: option.splits)
  then show "h \<in> live a" using auth_okD(5)[OF ok s(1)]
    by (auto simp: session_ok_def recovery_entry_def jellyfin_entry_def live_def)
next
  assume "h \<in> live a"
  then obtain s where s: "(h, s) \<in> set (aw_sessions a)" "bs_authMethod s = JellyfinLogin" by (auto simp: live_def)
  then have "bs_credentialSettingKey s = Some (browser_key h)" using auth_okD(5)[OF ok s(1)]
    by (auto simp: session_ok_def recovery_entry_def jellyfin_entry_def)
  moreover have "browser_key h \<noteq> []" by (simp add: browser_key_def BROWSER_CREDENTIAL_SETTING_PREFIX_def)
  ultimately show "browser_key h \<in> set (activeSettingKeys (aw_sessions a))"
    using s(1) by (force simp: activeSettingKeys_def truthy_def)
qed

lemma drop_inactive_runs:
  assumes pl: "platform_ok pl" and c: "env_ok b c" and env: "\<And>k. env_ok b (f k)" and ok: "auth_ok pl {} a"
  shows "runs (\<lambda>a'. a' = a) (drop_inactive pl c f)
     (\<lambda>_ a'. auth_ok pl {} a' \<and> aw_sessions a' = aw_sessions a \<and> (b \<or> only_live a')) (\<lambda>a. b \<and> auth_ok pl {} a)"
proof -
  have secrets: "ap_secrets pl" using pl by (simp add: platform_ok_def)
  let ?C = "cleared pl (- live a) (aw_sessions a)"
  let ?Q = "\<lambda>(key, _). key \<notin> set (activeSettingKeys (aw_sessions a))"
  have works: "b \<or> snd (c 0) = Works" using env_okD(3)[OF c] by blast
  have listing: "runs (\<lambda>a'. a' = a) (persistedBrowserCredentials pl (c 0))
      (\<lambda>cs a'. ?C (setting_of a) {} a' \<and> listed pl cs a') (\<lambda>a. b \<and> auth_ok pl {} a)"
    by (rule runs_weaken[OF persisted_clears[OF pl env_okD(2)[OF c] works, of "- live a" "aw_sessions a" "setting_of a" "{}"]])
      (use cleared_start[OF all_gone[OF ok]] in \<open>auto simp: cleared_iff intro: auth_ok_less\<close>)
  have deleting: "runs (\<lambda>a'. ?C (setting_of a) {} a' \<and> listed pl cs a')
      (delete_quietly pl f 0 (map (\<lambda>(key, x). (key, pc_secretRef x)) (filter ?Q cs)))
      (\<lambda>_ a'. auth_ok pl {} a' \<and> aw_sessions a' = aw_sessions a \<and> (b \<or> only_live a')) (\<lambda>a. b \<and> auth_ok pl {} a)" for cs
  proof (rule runs_from)
    fix a1
    assume a1: "?C (setting_of a) {} a1 \<and> listed pl cs a1"
    then have ok1: "auth_ok pl (- live a) a1" and ss1: "aw_sessions a1 = aw_sessions a" by (simp_all add: cleared_iff)
    obtain hs where hs: "chosen a1 ?Q cs hs" using listed_chosen a1 by blast
    have gone: "set hs \<subseteq> - live a"
      using hs active_live[OF ok1] live_sessions[OF ss1] ss1 by (auto simp: chosen_def)
    have none: "only_live a'" if a': "?C (setting_of a1) (set hs) a'" for a'
    proof -
      have ok': "auth_ok pl (- live a) a'" and ss': "aw_sessions a' = aw_sessions a" using a' by (simp_all add: cleared_iff)
      have "h \<in> live a'" if h: "setting_of a' h \<noteq> None" for h
      proof -
        have "setting_of a1 h \<noteq> None" using a' h by (auto simp: cleared_iff map_le_def dom_def)
        then obtain cr where cr: "(browser_key h, cr) \<in> set cs" using a1 by (fastforce simp: listed_def)
        have "h \<notin> set hs" using a' h by (auto simp: cleared_iff dropped_def)
        then have "browser_key h \<in> set (activeSettingKeys (aw_sessions a))" using hs cr by (auto simp: chosen_def)
        then show ?thesis using active_live[OF ok'] ss' by simp
      qed
      then show ?thesis using auth_okD(3)[OF ok'] unfolding only_live_def by force
    qed
    have "runs (?C (setting_of a1) {}) (delete_quietly pl f 0 (map (\<lambda>h. (browser_key h, browser_ref h)) hs))
       (\<lambda>_. ?C (setting_of a1) (if b then {} else set hs \<union> {})) (\<lambda>a'. b \<and> ?C (setting_of a1) {} a')"
      by (rule delete_quietly_clears[OF secrets env gone])
    then show "runs (\<lambda>a'. a' = a1) (delete_quietly pl f 0 (map (\<lambda>(key, x). (key, pc_secretRef x)) (filter ?Q cs)))
      (\<lambda>_ a'. auth_ok pl {} a' \<and> aw_sessions a' = aw_sessions a \<and> (b \<or> only_live a')) (\<lambda>a. b \<and> auth_ok pl {} a)"
      unfolding conjunct1[OF hs[unfolded chosen_def]]
      by (rule runs_weaken)
        (use cleared_start[OF ok1] ss1 none in \<open>auto simp: cleared_iff intro: auth_ok_less split: if_splits\<close>)
  qed
  from runs_and_then[OF listing deleting] show ?thesis by (simp add: runs_def drop_inactive_def)
qed

lemma cleanup_runs:
  assumes pl: "platform_ok pl" and f: "\<And>k. env_ok b (f k)" and c: "env_ok b c" and g: "\<And>k. env_ok b (g k)"
  shows "runs (auth_ok pl {}) (cleanup pl f c g clock)
     (\<lambda>_ a. auth_ok pl {} a \<and> (\<forall>p \<in> set (aw_sessions a). unexpired clock p) \<and> (b \<or> only_live a)) (\<lambda>a. b \<and> auth_ok pl {} a)"
proof (rule runs_from)
  fix a
  assume a: "auth_ok pl {} a"
  have expired: "runs (\<lambda>a'. a' = a) (drop_expired pl f clock 0 (aw_sessions a)) (\<lambda>_. sweeping pl clock []) (\<lambda>a. b \<and> auth_ok pl {} a)"
    by (rule runs_pre[OF drop_expired_runs[OF pl f]]) (simp add: sweeping_start[OF a])
  have inactive: "runs (sweeping pl clock []) (drop_inactive pl c g)
     (\<lambda>_ a. auth_ok pl {} a \<and> (\<forall>p \<in> set (aw_sessions a). unexpired clock p) \<and> (b \<or> only_live a)) (\<lambda>a. b \<and> auth_ok pl {} a)"
  proof (rule runs_from)
    fix a1
    assume a1: "sweeping pl clock [] a1"
    then have ok: "auth_ok pl {} a1" by (simp add: sweeping_def)
    show "runs (\<lambda>a'. a' = a1) (drop_inactive pl c g)
     (\<lambda>_ a. auth_ok pl {} a \<and> (\<forall>p \<in> set (aw_sessions a). unexpired clock p) \<and> (b \<or> only_live a)) (\<lambda>a. b \<and> auth_ok pl {} a)"
      by (rule runs_weaken[OF drop_inactive_runs[OF pl c g ok]]) (use a1 in \<open>auto simp: sweeping_def\<close>)
  qed
  from runs_and_then[OF expired inactive] show "runs (\<lambda>a'. a' = a) (cleanup pl f c g clock)
     (\<lambda>_ a. auth_ok pl {} a \<and> (\<forall>p \<in> set (aw_sessions a). unexpired clock p) \<and> (b \<or> only_live a)) (\<lambda>a. b \<and> auth_ok pl {} a)"
    by (simp add: runs_def cleanup_def)
qed

section \<open>Recovery after a restart\<close>

lemma recover_runs:
  assumes pl: "platform_ok pl" and c: "env_ok b c" and env: "\<And>k. env_ok b (f k)"
  shows "runs (\<lambda>a. auth_ok pl {} a \<and> aw_sessions a = []) (recover_auth pl c f)
     (\<lambda>_ a. auth_ok pl {} a \<and> aw_sessions a = [] \<and> only_live a) (\<lambda>a. b \<and> auth_ok pl {} a)"
proof (rule runs_from)
  fix a
  assume a: "auth_ok pl {} a \<and> aw_sessions a = []"
  then have ok: "auth_ok pl UNIV a" by (auto simp: auth_ok_def live_def)
  have secrets: "ap_secrets pl" using pl by (simp add: platform_ok_def)
  have works: "b \<or> snd (c 0) = Works" using env_okD(3)[OF c] by blast
  let ?C = "cleared pl UNIV []"
  have listing: "runs (\<lambda>a'. a' = a) (persistedBrowserCredentials pl (c 0))
      (\<lambda>cs a'. ?C (setting_of a) {} a' \<and> listed pl cs a') (\<lambda>a. b \<and> auth_ok pl {} a)"
    by (rule runs_weaken[OF persisted_clears[OF pl env_okD(2)[OF c] works, of UNIV "[]" "setting_of a" "{}"]])
      (use cleared_start[OF ok] a in \<open>auto simp: cleared_iff intro: auth_ok_less\<close>)
  have deleting: "runs (\<lambda>a'. ?C (setting_of a) {} a' \<and> listed pl cs a')
      (delete_until_error pl f 0 (map (\<lambda>(key, x). (key, pc_secretRef x)) cs))
      (\<lambda>_ a'. auth_ok pl {} a' \<and> aw_sessions a' = [] \<and> only_live a') (\<lambda>a. b \<and> auth_ok pl {} a)" for cs
  proof (rule runs_from)
    fix a1
    assume a1: "?C (setting_of a) {} a1 \<and> listed pl cs a1"
    then have ok1: "auth_ok pl UNIV a1" "aw_sessions a1 = []" by (simp_all add: cleared_iff)
    obtain hs where hs: "chosen a1 (\<lambda>_. True) cs hs" using listed_chosen a1 by blast
    have none: "only_live a'" if a': "?C (setting_of a1) (set hs) a'" for a'
    proof -
      have "setting_of a' h = None" for h
      proof (rule ccontr)
        assume h: "setting_of a' h \<noteq> None"
        then have "setting_of a1 h \<noteq> None" using a' by (auto simp: cleared_iff map_le_def dom_def)
        then obtain cr where "(browser_key h, cr) \<in> set cs" using a1 by (fastforce simp: listed_def)
        then have "h \<in> set hs" using hs by (simp add: chosen_def) blast
        then show False using a' h by (auto simp: cleared_iff dropped_def)
      qed
      moreover have "auth_ok pl UNIV a'" using a' by (simp add: cleared_iff)
      ultimately show ?thesis using auth_okD(3)[of pl UNIV a'] unfolding only_live_def by fastforce
    qed
    have "runs (?C (setting_of a1) {}) (delete_until_error pl f 0 (map (\<lambda>h. (browser_key h, browser_ref h)) hs))
       (\<lambda>_. ?C (setting_of a1) (set hs \<union> {})) (\<lambda>a'. b \<and> ?C (setting_of a1) {} a')"
      by (rule delete_until_error_clears[OF secrets env]) simp
    then have "runs (\<lambda>a'. a' = a1) (delete_until_error pl f 0 (map (\<lambda>h. (browser_key h, browser_ref h)) hs))
      (\<lambda>_ a'. auth_ok pl {} a' \<and> aw_sessions a' = [] \<and> only_live a') (\<lambda>a. b \<and> auth_ok pl {} a)"
      by (rule runs_weaken) (use cleared_start[OF ok1(1)] ok1(2) none in \<open>auto simp: cleared_iff intro: auth_ok_less\<close>)
    then show "runs (\<lambda>a'. a' = a1) (delete_until_error pl f 0 (map (\<lambda>(key, x). (key, pc_secretRef x)) cs))
      (\<lambda>_ a'. auth_ok pl {} a' \<and> aw_sessions a' = [] \<and> only_live a') (\<lambda>a. b \<and> auth_ok pl {} a)"
      using hs by (simp add: chosen_def)
  qed
  from runs_and_then[OF listing deleting]
  show "runs (\<lambda>a'. a' = a) (recover_auth pl c f) (\<lambda>_ a. auth_ok pl {} a \<and> aw_sessions a = [] \<and> only_live a) (\<lambda>a. b \<and> auth_ok pl {} a)"
    by (simp add: recover_auth_def)
qed

section \<open>Deletion of a user\<close>

text \<open>No session and no stored credential of the user is left.\<close>

definition no_credentials_of :: "auth_platform \<Rightarrow> ident \<Rightarrow> auth_world \<Rightarrow> bool" where
  "no_credentials_of pl i a \<longleftrightarrow>
     (\<forall>h e. setting_of a h \<noteq> Some (ap_stringify pl (persisted_credential_of i h e)))"

lemma forget_refs_runs:
  assumes "quiet_call (c k)" and env: "env_ok b c" and refs: "\<forall>ref \<in> set refs. \<exists>h \<in> gone. ref = browser_ref h"
  shows "runs (cleared pl gone ss ks hs)
      (all_settled (map (\<lambda>(k, ref). outside (called (c (Suc k)) (on_secrets (\<lambda>st. secret_delete st ref)))) (enumerate 0 refs)))
      (\<lambda>_. cleared pl gone ss ks hs) (\<lambda>a. b \<and> cleared pl gone ss ks hs a)"
proof -
  let ?m = "\<lambda>(k, ref). outside (called (c (Suc k)) (on_secrets (\<lambda>st. secret_delete st ref)))"
  let ?ms = "map (\<lambda>p. ((), ?m p)) (enumerate 0 refs)"
  have one: "runs (cleared pl gone ss ks hs) m (\<lambda>_. cleared pl gone ss ks hs) (\<lambda>a. b \<and> cleared pl gone ss ks hs a)"
    if um: "(u, m) \<in> set ?ms" for u m
  proof -
    obtain k ref where m: "m = outside (called (c (Suc k)) (on_secrets (\<lambda>st. secret_delete st ref)))"
      and kr: "(k, ref) \<in> set (enumerate 0 refs)" using um by auto
    have "ref \<in> set refs" using kr nth_mem[of k refs] by (auto simp: in_set_enumerate_eq)
    then obtain h where h: "h \<in> gone" "ref = browser_ref h" using refs by blast
    have works: "b \<or> snd (c k) = Works" for k using env_okD(3)[OF env] by blast
    show ?thesis unfolding m h(2)
    proof (rule runs_outside_if[OF holds_meanwhile_cleared env_okD(2)[OF env] works])
      fix a
      assume a: "cleared pl gone ss ks hs a"
      let ?a = "a\<lparr>aw_world := fst (on_secrets (\<lambda>st. secret_delete st (browser_ref h)) (aw_world a))\<rparr>"
      show "cleared pl gone ss ks hs a" by (rule a)
      have "auth_ok pl gone ?a" using drop_secret_ok[OF _ h(1)] a by (simp add: cleared_def on_secrets_def)
      then show "cleared pl gone ss ks hs ?a" using a by (auto simp: cleared_def login_view_def on_secrets_def secret_delete_def)
      then show "\<exists>x. snd (on_secrets (\<lambda>st. secret_delete st (browser_ref h)) (aw_world a)) = Inr x \<and> cleared pl gone ss ks hs ?a"
        by (simp add: on_secrets_def)
    qed
  qed
  have "map snd ?ms = map ?m (enumerate 0 refs)" by simp
  then show ?thesis using all_settled_clears[of ?ms "\<lambda>_. cleared pl gone ss ks hs" b] one by metis
qed

lemma delete_all_clears:
  assumes pl: "ap_secrets pl" and env: "\<And>k. env_ok b (f k)" and hs': "set hs' \<subseteq> gone"
  shows "runs (cleared pl gone ss ks {}) (delete_all pl f (map (\<lambda>h. (browser_key h, browser_ref h)) hs'))
     (\<lambda>_. cleared pl gone ss ks (set hs')) (\<lambda>a. b \<and> cleared pl gone ss ks {} a)"
proof -
  let ?ms = "map (\<lambda>(k, h). (h, deletePersistedBrowserCredential pl (f k) (browser_key h) (browser_ref h))) (enumerate 0 hs')"
  have one: "runs (cleared pl gone ss ks hs) m (\<lambda>_. cleared pl gone ss ks (insert h hs)) (\<lambda>a. b \<and> cleared pl gone ss ks hs a)"
    if hm: "(h, m) \<in> set ?ms" for h m hs
  proof -
    obtain k where m: "m = deletePersistedBrowserCredential pl (f k) (browser_key h) (browser_ref h)"
      and k: "(k, h) \<in> set (enumerate 0 hs')" using hm by auto
    have "h \<in> set hs'" using k nth_mem[of k hs'] by (auto simp: in_set_enumerate_eq)
    then show ?thesis unfolding m by (intro delete_one_clears[OF pl env]) (use hs' in blast)
  qed
  have "fst ` set ?ms = set (map snd (enumerate 0 hs'))"
    by (simp only: set_map image_image case_prod_beta fst_conv)
  then have "fst ` set ?ms = set hs'" by (simp only: map_snd_enumerate)
  moreover have "map snd ?ms = map (\<lambda>(k, (key, ref)). deletePersistedBrowserCredential pl (f k) key ref)
      (enumerate 0 (map (\<lambda>h. (browser_key h, browser_ref h)) hs'))"
    by (rule nth_equalityI) (auto simp: nth_enumerate_eq)
  ultimately show ?thesis
    using all_settled_clears[of ?ms "cleared pl gone ss ks" b "{}", OF one] cleared_less by (fastforce simp: delete_all_def)
qed

end
