(* ===== verification/RelayAuthCalls.thy ===== *)
theory RelayAuthCalls
  imports RelayAuthCleanup
begin

text \<open>
  Deletion of a user, with its sessions and credentials, and the histories of an installation:
  sign-ins, sign-outs, deletions, cleanups and restarts, with operations of others in between.
\<close>

section \<open>Deletion of a user\<close>

lemma entry_identity:
  assumes pl: "platform_ok pl" and cs: "listed pl cs a"
    and h: "setting_of a h = Some (ap_stringify pl (persisted_credential_of i h e))"
  shows "\<exists>c. (browser_key h, c) \<in> set cs \<and> pc_identityId c = i"
proof -
  have "browser_key h \<in> fst ` set cs" using cs h by (simp add: listed_def)
  then obtain c where c: "(browser_key h, c) \<in> set cs" by force
  then obtain h' j e' where "(browser_key h, c) = (browser_key h', persisted_credential_of j h' e')"
    "setting_of a h' = Some (ap_stringify pl (persisted_credential_of j h' e'))" using cs unfolding listed_def by blast
  then have "c = persisted_credential_of i h e" using h stringify_inj[OF pl, of c "persisted_credential_of i h e"] by auto
  then show ?thesis using c by (auto simp: persisted_credential_of_def)
qed

lemma removed_refs:
  assumes ok: "auth_ok pl {} a" and ref: "ref \<in> set (map (\<lambda>(_, s). the (bs_secretRef s))
      (filter (\<lambda>(_, s). truthy (bs_secretRef s)) (filter (\<lambda>(_, s). bs_identityId s = Some i) (aw_sessions a))))"
  shows "\<exists>h \<in> - live (a\<lparr>aw_sessions := filter (\<lambda>(_, s). bs_identityId s \<noteq> Some i) (aw_sessions a)\<rparr>). ref = browser_ref h"
proof -
  obtain h s where s: "(h, s) \<in> set (aw_sessions a)" "bs_identityId s = Some i" "ref = the (bs_secretRef s)"
    using ref by auto
  have "ref = browser_ref h"
    using auth_okD(5)[OF ok s(1)] s(2,3) by (auto simp: session_ok_def recovery_entry_def jellyfin_entry_def)
  moreover have "h \<notin> live (a\<lparr>aw_sessions := filter (\<lambda>(_, s). bs_identityId s \<noteq> Some i) (aw_sessions a)\<rparr>)"
  proof
    assume "h \<in> live (a\<lparr>aw_sessions := filter (\<lambda>(_, s). bs_identityId s \<noteq> Some i) (aw_sessions a)\<rparr>)"
    then obtain s' where s': "(h, s') \<in> set (aw_sessions a)" "bs_identityId s' \<noteq> Some i" by (auto simp: live_def)
    then show False using s(1,2) eq_key_imp_eq_value[OF auth_okD(4)[OF ok] s(1) s'(1)] by simp
  qed
  ultimately show ?thesis by blast
qed

lemma remove_user_runs:
  assumes pl: "platform_ok pl" and f: "\<And>k. env_ok b (f k)"
  shows "runs (auth_ok pl {}) (remove_user_sessions pl f i)
     (\<lambda>_ a. auth_ok pl {} a \<and> no_sessions_of i a \<and> no_credentials_of pl i a)
     (\<lambda>a. b \<and> auth_ok pl {} a \<and> no_sessions_of i a)"
proof (rule runs_from)
  fix a
  assume ok: "auth_ok pl {} a"
  have secrets: "ap_secrets pl" using pl by (simp add: platform_ok_def)
  have works: "b \<or> snd (f 0 0) = Works" using env_okD(3)[OF f] by blast
  let ?keep = "\<lambda>(_ :: string, s). bs_identityId s \<noteq> Some i"
  let ?ss = "filter ?keep (aw_sessions a)"
  let ?a = "a\<lparr>aw_sessions := ?ss\<rparr>"
  let ?refs = "map (\<lambda>(_, s). the (bs_secretRef s))
      (filter (\<lambda>(_, s). truthy (bs_secretRef s)) (filter (\<lambda>(_, s). bs_identityId s = Some i) (aw_sessions a)))"
  let ?Q = "\<lambda>(_, c). pc_identityId c = i"
  let ?E = "\<lambda>a. b \<and> auth_ok pl {} a \<and> no_sessions_of i a"
  let ?R = "\<lambda>_ a. auth_ok pl {} a \<and> no_sessions_of i a \<and> no_credentials_of pl i a"
  let ?C = "cleared pl (- live ?a) ?ss"
  have none: "no_sessions_of i a'" if "aw_sessions a' = ?ss" for a' using that by (auto simp: no_sessions_of_def)
  have out: "auth_ok pl {} a' \<and> no_sessions_of i a'" if "?C ks hs a'" for ks hs a'
    using that none auth_ok_less by (auto simp: cleared_iff)
  have ok1: "auth_ok pl {} ?a" using drop_sessions_ok[OF ok, of ?keep "{}"] by simp
  have removing: "runs (\<lambda>a'. a' = a) (on_sessions (filter ?keep)) (\<lambda>_. ?C (setting_of a) {}) ?E"
    using cleared_start[OF all_gone[OF ok1]] by (simp add: runs_def on_sessions_def)
  have listing: "runs (?C (setting_of a) {}) (persistedBrowserCredentials pl (f 0 0))
      (\<lambda>cs a'. ?C (setting_of a) {} a' \<and> listed pl cs a') ?E"
    by (rule runs_weaken[OF persisted_clears[OF pl env_okD(2)[OF f] works, of "- live ?a" ?ss "setting_of a" "{}"]]) (use out in auto)
  have deleting: "runs (\<lambda>a'. ?C (setting_of a) {} a' \<and> listed pl cs a')
     (let persisted = map (\<lambda>(key, c). (key, pc_secretRef c)) (filter ?Q cs)
      in and_then (delete_all pl (\<lambda>k. f (Suc k)) persisted) (\<lambda>_.
           if ap_secrets pl
           then all_settled (map (\<lambda>(k, ref). outside (called (f 0 (Suc k)) (on_secrets (\<lambda>st. secret_delete st ref))))
                  (enumerate 0 (filter (\<lambda>ref. ref \<notin> snd ` set persisted) ?refs)))
           else done_with ())) ?R ?E" for cs
  proof (rule runs_from)
    fix a1
    assume a1: "?C (setting_of a) {} a1 \<and> listed pl cs a1"
    then have ok': "auth_ok pl {} a1" "no_sessions_of i a1" "aw_sessions a1 = ?ss"
      using out by (auto simp: cleared_iff)
    obtain hs where hs: "chosen a1 ?Q cs hs" using listed_chosen a1 by blast
    have same: "live a1 = live ?a" using live_sessions[of a1 ?a] ok'(3) by simp
    have gone: "set hs \<subseteq> - live ?a"
    proof
      fix h
      assume "h \<in> set hs"
      then obtain c where "(browser_key h, c) \<in> set cs" "pc_identityId c = i" using hs by (auto simp: chosen_def)
      then have "(browser_key h, pc_secretRef c) \<in> set (map (\<lambda>(key, c). (key, pc_secretRef c)) (filter ?Q cs))" by force
      moreover have "pairs_of (- live a1) (map (\<lambda>(key, c). (key, pc_secretRef c)) (filter ?Q cs))"
        by (rule entries_of_identity[OF pl ok'(1,2)]) (use a1 in simp)
      ultimately show "h \<in> - live ?a" using same unfolding pairs_of_def by fastforce
    qed
    have over: "?R () a'" if a': "?C (setting_of a1) (set hs) a'" for a'
    proof -
      have "setting_of a' h \<noteq> Some (ap_stringify pl (persisted_credential_of i h e))" for h e
      proof
        assume h: "setting_of a' h = Some (ap_stringify pl (persisted_credential_of i h e))"
        then have "setting_of a1 h = Some (ap_stringify pl (persisted_credential_of i h e))"
          using a' by (auto simp: cleared_iff map_le_def dom_def)
        from entry_identity[OF pl _ this, of cs] have "h \<in> set hs" using a1 hs by (auto simp: chosen_def)
        then show False using a' h by (auto simp: cleared_iff dropped_def)
      qed
      then show ?thesis using out[OF a'] by (simp add: no_credentials_of_def)
    qed
    have start: "?C (setting_of a1) {} a1" using a1 by (simp add: cleared_iff)
    have all: "runs (\<lambda>a'. a' = a1) (delete_all pl (\<lambda>k. f (Suc k)) (map (\<lambda>h. (browser_key h, browser_ref h)) hs))
        (\<lambda>_. ?C (setting_of a1) (set hs)) ?E"
      by (rule runs_weaken[OF delete_all_clears[OF secrets f gone, of ?ss "setting_of a1"]]) (use start out in auto)
    let ?kept = "filter (\<lambda>ref. ref \<notin> snd ` set (map (\<lambda>(key, c). (key, pc_secretRef c)) (filter ?Q cs))) ?refs"
    have kept: "\<forall>ref \<in> set ?kept. \<exists>h \<in> - live ?a. ref = browser_ref h" using removed_refs[OF ok] by auto
    have last: "runs (?C (setting_of a1) (set hs))
        (if ap_secrets pl
           then all_settled (map (\<lambda>(k, ref). outside (called (f 0 (Suc k)) (on_secrets (\<lambda>st. secret_delete st ref))))
                  (enumerate 0 ?kept))
           else done_with ()) ?R ?E"
      unfolding if_P[OF secrets]
      by (rule runs_weaken[OF forget_refs_runs[OF env_okD(2)[OF f] f kept]]) (use over out in auto)
    show "runs (\<lambda>a'. a' = a1) (let persisted = map (\<lambda>(key, c). (key, pc_secretRef c)) (filter ?Q cs)
      in and_then (delete_all pl (\<lambda>k. f (Suc k)) persisted) (\<lambda>_.
           if ap_secrets pl
           then all_settled (map (\<lambda>(k, ref). outside (called (f 0 (Suc k)) (on_secrets (\<lambda>st. secret_delete st ref))))
                  (enumerate 0 (filter (\<lambda>ref. ref \<notin> snd ` set persisted) ?refs)))
           else done_with ())) ?R ?E"
      unfolding Let_def using runs_and_then[OF all last] hs by (simp add: chosen_def)
  qed
  from runs_and_then[OF removing runs_and_then[OF listing deleting]]
  show "runs (\<lambda>a'. a' = a) (remove_user_sessions pl f i) ?R ?E"
    by (simp add: runs_def remove_user_sessions_def Let_def)
qed

lemma delete_user_runs:
  assumes pl: "platform_ok pl" and c: "quiet_call c" and f: "\<And>k. quiet_env (f k)"
  shows "runs (auth_ok pl {}) (deleteUser pl c f now i revision requester lastSeen)
     (\<lambda>deleted a. auth_ok pl {} a \<and> (deleted \<longrightarrow> no_sessions_of i a \<and> no_credentials_of pl i a)) (auth_ok pl {})"
proof (rule runs_from)
  fix a
  assume a: "auth_ok pl {} a"
  let ?R = "\<lambda>deleted a. auth_ok pl {} a \<and> (deleted \<longrightarrow> no_sessions_of i a \<and> no_credentials_of pl i a)"
  have f': "env_ok True (f k)" for k using f by (simp add: env_ok_def)
  let ?call = "outside (called c (on_db (\<lambda>d. deleteUserIdentityPreservingOwner d i revision lastSeen)))"
  have ask: "runs (auth_ok pl {}) ?call (\<lambda>_. auth_ok pl {}) (auth_ok pl {})"
    by (rule keeps_aside[OF aside_call[OF c]]) (simp add: users_same)
  have remove: "runs (auth_ok pl {}) (and_then (remove_user_sessions pl f i) (\<lambda>_. done_with True)) ?R (auth_ok pl {})"
  proof (rule runs_and_then)
    show "runs (auth_ok pl {}) (remove_user_sessions pl f i) (\<lambda>_. ?R True) (auth_ok pl {})"
      by (rule runs_weaken[OF remove_user_runs[where i = i, OF pl f']]) auto
  qed (rule runs_done)
  let ?after = "\<lambda>r :: user_identity delete_result. case r of
          Deleted _ \<Rightarrow> and_then (remove_user_sessions pl f i) (\<lambda>_. done_with True)
        | NotDeleted reason _ dependencies \<Rightarrow>
            if lastSeen \<noteq> None \<and> (reason = InvalidState \<or> reason = RevisionConflict) then done_with False
            else raise (deletion_error reason dependencies)"
  have "runs (auth_ok pl {}) (?after r) ?R (auth_ok pl {})" for r
    using remove by (cases r) (auto simp: runs_done runs_raise)
  from runs_and_then[OF ask this] have act: "runs (\<lambda>a'. a' = a) (and_then ?call ?after) ?R (auth_ok pl {})"
    by (rule runs_pre) (use a in simp)
  show "runs (\<lambda>a'. a' = a) (deleteUser pl c f now i revision requester lastSeen) ?R (auth_ok pl {})"
  proof (cases "requester = Some i \<or> lastSeen \<noteq> None \<and> hasActiveBrowserSession i now a")
    case True
    then show ?thesis using a by (auto simp: runs_def deleteUser_def)
  next
    case False
    then have n: "requester \<noteq> Some i" "\<not> (lastSeen \<noteq> None \<and> hasActiveBrowserSession i now a)" by blast+
    have same: "deleteUser pl c f now i revision requester lastSeen a = and_then ?call ?after a"
      by (simp only: deleteUser_def if_not_P[OF n(1)] if_not_P[OF n(2)])
    show ?thesis by (rule iffD2[OF runs_same act]) (simp only: same)
  qed
qed

section \<open>Histories\<close>

text \<open>
  One handler after another, each with any faults and with operations of others between its own
  calls; \<open>call_store\<close> and \<open>call_remove\<close> are the credential operations of a sign-in and of a deletion
  whose earlier calls other handlers have interrupted. A restart loses the sessions. A token is new:
  no session has its digest.
\<close>

inductive auth_call :: "auth_platform \<Rightarrow> auth_world \<Rightarrow> auth_world \<Rightarrow> bool" for pl where
  call_recovery: "login_recovery pl token csrf now password a = (a', r) \<Longrightarrow> auth_call pl a a'"
| call_login: "(\<And>k. quiet_env (f k)) \<Longrightarrow> ap_hashToken pl (ld_token d) \<notin> live a \<Longrightarrow>
    login_jellyfin pl f clock answer username d a = (a', r') \<Longrightarrow> auth_call pl a a'"
| call_store: "quiet_env g \<Longrightarrow> h = ap_hashToken pl token \<Longrightarrow> h \<notin> live a \<Longrightarrow> li_identityId x \<noteq> [] \<Longrightarrow>
    store_credential pl g now x h csrf secret expiresAt a = (a', r'') \<Longrightarrow> auth_call pl a a'"
| call_request: "authenticate pl now cookie authorization required a = (a', p) \<Longrightarrow> auth_call pl a a'"
| call_logout: "quiet_env g \<Longrightarrow> logout pl g cookie a = (a', r'') \<Longrightarrow> auth_call pl a a'"
| call_delete_user: "quiet_call c \<Longrightarrow> (\<And>k. quiet_env (f k)) \<Longrightarrow>
    deleteUser pl c f now i revision requester lastSeen a = (a', b) \<Longrightarrow> auth_call pl a a'"
| call_remove: "(\<And>k. quiet_env (f k)) \<Longrightarrow> remove_user_sessions pl f i a = (a', r'') \<Longrightarrow> auth_call pl a a'"
| call_cleanup: "(\<And>k. quiet_env (f k)) \<Longrightarrow> quiet_env g \<Longrightarrow> (\<And>k. quiet_env (f' k)) \<Longrightarrow>
    cleanup pl f g f' clock a = (a', r'') \<Longrightarrow> auth_call pl a a'"
| call_restart: "quiet_env g \<Longrightarrow> (\<And>k. quiet_env (f k)) \<Longrightarrow>
    recover_auth pl g f (a\<lparr>aw_sessions := []\<rparr>) = (a', r'') \<Longrightarrow> auth_call pl a a'"
| call_others: "\<forall>x \<in> set xs. leaves_credentials x \<Longrightarrow> auth_call pl a (a\<lparr>aw_world := meanwhile xs (aw_world a)\<rparr>)"
| call_secrets: "(\<And>h. ref \<noteq> browser_ref h) \<Longrightarrow>
    auth_call pl a (a\<lparr>aw_world := (aw_world a)\<lparr>sw_secrets := (sw_secrets (aw_world a))(ref := v)\<rparr>\<rparr>)"

lemma runs_step:
  assumes "runs P m Q E" and "P a" and "m a = (a', r)" and "\<And>x a. Q x a \<Longrightarrow> I a" and "\<And>a. E a \<Longrightarrow> I a"
  shows "I a'"
proof -
  have run: "case (a', r) of (a', Returned x) \<Rightarrow> Q x a' | (a', _) \<Rightarrow> E a'"
    using assms(1)[unfolded runs_def, rule_format, OF assms(2)] by (simp only: assms(3))
  show ?thesis
  proof (cases r)
    case (Returned x)
    show ?thesis by (rule assms(4)[of x]) (use run Returned in simp)
  qed (rule assms(5), use run in simp)+
qed

lemma recovery_login_keeps:
  assumes a: "auth_ok pl {} a" and step: "login_recovery pl token csrf now password a = (a', r)"
  shows "auth_ok pl {} a'"
proof -
  let ?s = "\<lparr>bs_csrfToken = csrf, bs_expiresAt = now + 12 * 60 * 60 * 1000, bs_authMethod = RecoveryLogin,
                   bs_identityId = None, bs_providerId = None, bs_providerUserId = None, bs_secretRef = None,
                   bs_credentialSettingKey = None\<rparr>"
  have "session_ok pl (aw_world a) (ap_hashToken pl token, ?s)" by (simp add: session_ok_def recovery_entry_def)
  from add_session_ok[OF a this] show ?thesis
    using a step by (auto simp: login_recovery_def split: option.splits if_splits)
qed

lemma request_keeps:
  assumes a: "auth_ok pl {} a" and step: "authenticate pl now cookie authorization required a = (a', p)"
  shows "auth_ok pl {} a'"
proof -
  have same: "same_credentials d (fst (usePersonalToken d u))" for d u
    using leaves_same[of "AccessOp (OpUseToken u)" d] by simp
  have "auth_ok pl {} (a\<lparr>aw_world := (aw_world a)\<lparr>sw_db := fst (usePersonalToken (sw_db (aw_world a)) u)\<rparr>\<rparr>)" for u
    by (rule auth_ok_same[OF a]) (simp_all add: same)
  then show ?thesis using a step
    by (auto simp: authenticate_def split: option.splits if_splits prod.splits) (metis fst_conv)+
qed

lemma auth_call_keeps:
  assumes pl: "platform_ok pl" and step: "auth_call pl a a'" and a: "auth_ok pl {} a"
  shows "auth_ok pl {} a'"
proof -
  have quiet: "env_ok True g" if "quiet_env g" for g using that by (simp add: env_ok_def)
  have new: "auth_ok pl {h} a" if "h \<notin> live a" for h using a that by (auto simp: auth_ok_def)
  have hash: "is_token_hash (ap_hashToken pl t)" for t using pl by (simp add: platform_ok_def)
  show ?thesis using step
  proof cases
    case (call_recovery token csrf now password r)
    then show ?thesis using recovery_login_keeps[OF a] by blast
  next
    case (call_login f d clock answer username r')
    show ?thesis by (rule runs_step[OF login_keeps[OF pl call_login(1) refl] new[OF call_login(2)] call_login(3)]) auto
  next
    case (call_store g h token x now csrf secret expiresAt r'')
    show ?thesis
      by (rule runs_step[OF store_keeps[OF pl call_store(1) _ call_store(4)] new[OF call_store(3)] call_store(5)])
        (auto simp: hash call_store(2))
  next
    case (call_request now cookie authorization required p)
    then show ?thesis using request_keeps[OF a] by blast
  next
    case (call_logout g cookie r'')
    show ?thesis by (rule runs_step[OF logout_keeps[OF pl call_logout(1)] a call_logout(2)])
  next
    case (call_delete_user c f now i revision requester lastSeen b)
    show ?thesis by (rule runs_step[OF delete_user_runs[OF pl call_delete_user(1,2)] a call_delete_user(3)]) auto
  next
    case (call_remove f i r'')
    show ?thesis by (rule runs_step[OF remove_user_runs[OF pl quiet[OF call_remove(1)]] a call_remove(2)]) auto
  next
    case (call_cleanup f g f' clock r'')
    show ?thesis
      by (rule runs_step[OF cleanup_runs[OF pl quiet[OF call_cleanup(1)] quiet[OF call_cleanup(2)] quiet[OF call_cleanup(3)]] a call_cleanup(4)]) auto
  next
    case (call_restart g f r'')
    have "auth_ok pl {} (a\<lparr>aw_sessions := []\<rparr>)" using drop_sessions_ok[OF a, of "\<lambda>_. False" "{}"] by simp
    then show ?thesis
      by (intro runs_step[OF recover_runs[OF pl quiet[OF call_restart(1)] quiet[OF call_restart(2)]] _ call_restart(3), where I = "auth_ok pl {}"]) auto
  next
    case (call_others xs)
    then show ?thesis using holds_meanwhile_ok[of pl "{}"] a unfolding holds_meanwhile_def by blast
  next
    case (call_secrets ref v)
    show ?thesis unfolding call_secrets(1) by (rule auth_ok_same[OF a]) (use call_secrets(2) in auto)
  qed
qed

lemma auth_calls_keep:
  assumes "platform_ok pl" and "(auth_call pl)\<^sup>*\<^sup>* a a'" and "auth_ok pl {} a"
  shows "auth_ok pl {} a'"
  using assms(2,3) by (induction rule: rtranclp_induct) (auto intro: auth_call_keeps[OF assms(1)])

end
