(* ===== verification/RelayAuthResults.thy ===== *)
theory RelayAuthResults
  imports RelayAuthCalls RelayCrashRecovery
begin

text \<open>
  The properties of the authentication: sign-ins and their credentials under faults, cleanup,
  deleted users, what a sign-in gives and what a request may do.
\<close>

section \<open>A platform\<close>

text \<open>A concrete codec: lengths and times in unary.\<close>

definition unary :: "nat \<Rightarrow> string" where
  "unary n = replicate n CHR ''1''"

definition unary_stringify :: "persisted_credential \<Rightarrow> string" where
  "unary_stringify c =
     unary (length (pc_identityId c)) @ CHR '':'' # pc_identityId c @
     unary (length (pc_secretRef c)) @ CHR '':'' # pc_secretRef c @
     (if pc_expiresAt c < 0 then ''-'' else ''+'') @ unary (nat \<bar>pc_expiresAt c\<bar>)"

definition unary_field :: "string \<Rightarrow> string \<times> string" where
  "unary_field s =
     (let n = length (takeWhile (\<lambda>c. c = CHR ''1'') s); rest = drop (Suc n) s in (take n rest, drop n rest))"

definition unary_parse :: "string \<Rightarrow> partial_credential option" where
  "unary_parse s =
     (let (i, s') = unary_field s; (ref, s'') = unary_field s'; n = int (length (tl s''))
      in Some \<lparr>pt_identityId = Some i, pt_secretRef = Some ref, pt_expiresAt = Some (if hd s'' = CHR ''-'' then - n else n)\<rparr>)"

lemma unary_field_app: "unary_field (unary (length x) @ CHR '':'' # x @ y) = (x, y)"
proof -
  have "takeWhile (\<lambda>c. c = CHR ''1'') (unary n @ CHR '':'' # z) = unary n" for n z
    by (simp add: unary_def takeWhile_append)
  then have "length (takeWhile (\<lambda>c. c = CHR ''1'') (unary (length x) @ CHR '':'' # x @ y)) = length x" by (simp add: unary_def)
  then show ?thesis by (simp add: unary_field_def Let_def unary_def)
qed

definition unary_platform :: auth_platform where
  "unary_platform =
     \<lparr>ap_hashToken = (\<lambda>_. replicate 64 CHR ''0''), ap_stringify = unary_stringify, ap_parse = unary_parse,
      ap_parseConfiguration = resolve, ap_argon2 = id, ap_verify = (=), ap_secrets = True, ap_providers = True\<rparr>"

lemma unary_ok: "platform_ok unary_platform"
proof -
  have "unary_parse (unary_stringify c) = Some \<lparr>pt_identityId = Some (pc_identityId c), pt_secretRef = Some (pc_secretRef c),
      pt_expiresAt = Some (pc_expiresAt c)\<rparr>" for c
    unfolding unary_parse_def unary_stringify_def unary_field_app Let_def prod.case
    by (simp add: unary_field_app unary_def)
  moreover have "is_token_hash (replicate 64 CHR ''0'')" by (simp add: is_token_hash_def list_all_iff)
  ultimately show ?thesis by (simp add: platform_ok_def unary_platform_def)
qed

abbreviation no_faults :: call_env where
  "no_faults \<equiv> \<lambda>_. ([], Works)"

lemma calm_quiet: "quiet_env no_faults" "quiet_call ([], Works)"
  by (simp_all add: quiet_env_def quiet_call_def)

section \<open>Sign-ins and their credentials\<close>

definition fresh_auth :: auth_world where
  "fresh_auth = \<lparr>aw_sessions = [], aw_world = fresh_world\<rparr>"

lemma fresh_auth_ok: "auth_ok pl {} fresh_auth"
  by (simp add: auth_ok_def fresh_auth_def fresh_world_def empty_db_def getSetting_def get_json_def live_def
      keys_unique_empty[unfolded empty_db_def])

lemma live_session_entry:
  "live_session pl now (Some t) a = Some s \<Longrightarrow> (ap_hashToken pl t, s) \<in> set (aw_sessions a) \<and> now < bs_expiresAt s"
  by (auto simp: live_session_def split: option.splits if_splits dest: map_of_SomeD)

text \<open>C7: A session that is signed in has its credential, and no credential is lost sight of: after any
  history of sign-ins, requests, sign-outs, deletions of users, cleanups and restarts of a new
  installation, each of whose calls may fail or crash before or after it took effect, with
  operations of others in between, every Jellyfin session that a cookie stands for has its token in
  the secret store, and every stored token is listed by the settings that a restart reads, all of
  which can be read.\<close>

theorem sign_ins_keep_credentials:
  assumes pl: "platform_ok pl" and run: "(auth_call pl)\<^sup>*\<^sup>* fresh_auth a"
  shows "(\<forall>t s now. live_session pl now (Some t) a = Some s \<longrightarrow> bs_authMethod s = JellyfinLogin \<longrightarrow>
        bs_secretRef s = Some (browser_ref (ap_hashToken pl t)) \<and> sw_secrets (aw_world a) (browser_ref (ap_hashToken pl t)) \<noteq> None) \<and>
     (\<exists>cs. read_all_persisted pl (listSettingsByPrefix (sw_db (aw_world a)) BROWSER_CREDENTIAL_SETTING_PREFIX) = resolve cs \<and>
        (\<forall>h. sw_secrets (aw_world a) (browser_ref h) \<noteq> None \<longrightarrow>
           (\<exists>c. (browser_key h, c) \<in> set cs \<and> pc_secretRef c = browser_ref h)))"
proof -
  have ok: "auth_ok pl {} a" by (rule auth_calls_keep[OF pl run fresh_auth_ok])
  obtain cs where cs: "read_all_persisted pl (listSettingsByPrefix (sw_db (aw_world a)) BROWSER_CREDENTIAL_SETTING_PREFIX) = resolve cs"
    "listed pl cs a" using persisted_listed[OF pl ok] by blast
  have "\<exists>c. (browser_key h, c) \<in> set cs \<and> pc_secretRef c = browser_ref h" if h: "sw_secrets (aw_world a) (browser_ref h) \<noteq> None" for h
  proof -
    have "browser_key h \<in> fst ` set cs" using cs(2) h auth_okD(3)[OF ok] by (fastforce simp: listed_def)
    then obtain c where c: "(browser_key h, c) \<in> set cs" by force
    then obtain h' i e where "(browser_key h, c) = (browser_key h', persisted_credential_of i h' e)"
      using cs(2) unfolding listed_def by blast
    then show ?thesis using c by (auto simp: persisted_credential_of_def)
  qed
  moreover have "bs_secretRef s = Some (browser_ref (ap_hashToken pl t)) \<and> sw_secrets (aw_world a) (browser_ref (ap_hashToken pl t)) \<noteq> None"
    if s: "live_session pl now (Some t) a = Some s" "bs_authMethod s = JellyfinLogin" for t s now
  proof -
    have "session_ok pl (aw_world a) (ap_hashToken pl t, s)" using auth_okD(5)[OF ok] live_session_entry[OF s(1)] by blast
    then show ?thesis using s(2) by (auto simp: session_ok_def recovery_entry_def jellyfin_entry_def)
  qed
  ultimately show ?thesis using cs(1) by blast
qed

definition sample_login :: login_identity where
  "sample_login = \<lparr>li_identityId = ''ann@p'', li_providerId = ''p'', li_providerUserId = ''ann'', li_displayName = ''Ann'', li_observedAt = 7\<rparr>"

text \<open>Ann has signed in; her token is \<^verbatim>\<open>t\<close>.\<close>

definition ann_stored :: "auth_world \<times> unit reply" where
  "ann_stored = store_credential unary_platform no_faults 7 sample_login (replicate 64 CHR ''0'') ''csrf'' ''key'' 20 fresh_auth"

lemma ann_call: "auth_call unary_platform fresh_auth (fst ann_stored)"
  by (rule call_store[OF calm_quiet(1), of _ _ "''t''" _ sample_login 7 "''csrf''" "''key''" 20 _ "snd ann_stored"])
    (simp_all add: ann_stored_def unary_platform_def live_def fresh_auth_def sample_login_def)

lemma ann_run: "(auth_call unary_platform)\<^sup>*\<^sup>* fresh_auth (fst ann_stored)"
  using ann_call by blast

lemma ann_session: "live_session unary_platform 8 (Some ''t'') (fst ann_stored) =
    Some (browser_session_of sample_login (replicate 64 CHR ''0'') ''csrf'' 20)"
  by (simp add: ann_stored_def store_credential_def on_error_def and_then_def outside_def called_def write_db_def on_db_def
      meanwhile_def on_secrets_def on_sessions_def fresh_auth_def live_session_def truthy_def unary_platform_def browser_session_of_def)

theorem sign_ins_keep_credentials_witness:
  "\<exists>s. live_session unary_platform 8 (Some ''t'') (fst ann_stored) = Some s \<and>
     sw_secrets (aw_world (fst ann_stored)) (browser_ref (replicate 64 CHR ''0'')) \<noteq> None"
  using sign_ins_keep_credentials[OF unary_ok ann_run, THEN conjunct1, rule_format, OF ann_session] ann_session
  by (simp add: browser_session_of_def unary_platform_def)

section \<open>Cleanup and recovery\<close>

definition calm_call :: "call_env \<Rightarrow> bool" where
  "calm_call f \<longleftrightarrow> quiet_env f \<and> (\<forall>k. snd (f k) = Works)"

lemma faultless_env: "calm_call f \<Longrightarrow> env_ok False f"
  by (simp add: calm_call_def env_ok_def)

lemma runs_total:
  assumes "runs P m Q (\<lambda>a. False \<and> E a)" and "P a"
  shows "\<exists>a' x. m a = (a', Returned x) \<and> Q x a'"
proof -
  have "case m a of (a', Returned x) \<Rightarrow> Q x a' | (a', _) \<Rightarrow> False \<and> E a'"
    using assms(1)[unfolded runs_def, rule_format, OF assms(2)] .
  then show ?thesis by (cases "m a"; cases "snd (m a)") auto
qed

text \<open>C15: Cleanup and recovery repair: after any such history, a cleanup whose calls work ends without an
  error and leaves no token and no setting but those of sessions that have not run out; after a
  restart, a recovery whose calls work ends without an error and leaves none.\<close>

theorem cleanup_leaves_live:
  assumes pl: "platform_ok pl" and run: "(auth_call pl)\<^sup>*\<^sup>* fresh_auth a"
    and env: "\<And>k. calm_call (f k)" "calm_call g" "\<And>k. calm_call (f' k)"
  shows "(\<exists>a'. cleanup pl f g f' (\<lambda>_. now) a = (a', Returned ()) \<and>
       (\<forall>h. sw_secrets (aw_world a') (browser_ref h) \<noteq> None \<or> getSetting (sw_db (aw_world a')) (browser_key h) \<noteq> None \<longrightarrow>
          (\<exists>s. map_of (aw_sessions a') h = Some s \<and> now < bs_expiresAt s))) \<and>
     (\<exists>a'. recover_auth pl g f (a\<lparr>aw_sessions := []\<rparr>) = (a', Returned ()) \<and>
       (\<forall>h. sw_secrets (aw_world a') (browser_ref h) = None \<and> getSetting (sw_db (aw_world a')) (browser_key h) = None))"
proof -
  have ok: "auth_ok pl {} a" by (rule auth_calls_keep[OF pl run fresh_auth_ok])
  have f: "env_ok False (f k)" "env_ok False g" "env_ok False (f' k)" for k using env faultless_env by auto
  have "\<exists>a' x. cleanup pl f g f' (\<lambda>_. now) a = (a', Returned x) \<and>
      (auth_ok pl {} a' \<and> (\<forall>p \<in> set (aw_sessions a'). unexpired (\<lambda>_. now) p) \<and> (False \<or> only_live a'))"
    by (rule runs_total[OF cleanup_runs[OF pl f] ok])
  then obtain a' where a': "cleanup pl f g f' (\<lambda>_. now) a = (a', Returned ())" "auth_ok pl {} a'"
    "\<forall>p \<in> set (aw_sessions a'). now < bs_expiresAt (snd p)" "only_live a'"
    by (auto simp: unexpired_def)
  have kept: "\<exists>s. map_of (aw_sessions a') h = Some s \<and> now < bs_expiresAt s"
    if h: "sw_secrets (aw_world a') (browser_ref h) \<noteq> None \<or> getSetting (sw_db (aw_world a')) (browser_key h) \<noteq> None" for h
  proof -
    have "h \<in> live a'" using a'(4) h unfolding only_live_def by blast
    then obtain s where s: "(h, s) \<in> set (aw_sessions a')" by (auto simp: live_def)
    then have "map_of (aw_sessions a') h = Some s" using auth_okD(4)[OF a'(2)] by simp
    then show ?thesis using a'(3) s by force
  qed
  have "auth_ok pl {} (a\<lparr>aw_sessions := []\<rparr>)" using drop_sessions_ok[OF ok, of "\<lambda>_. False" "{}"] by simp
  then have start: "auth_ok pl {} (a\<lparr>aw_sessions := []\<rparr>) \<and> aw_sessions (a\<lparr>aw_sessions := []\<rparr>) = []" by simp
  have "\<exists>a' x. recover_auth pl g f (a\<lparr>aw_sessions := []\<rparr>) = (a', Returned x) \<and>
      (auth_ok pl {} a' \<and> aw_sessions a' = [] \<and> only_live a')"
    by (rule runs_total[OF recover_runs[OF pl f(2,1)] start])
  then have "\<exists>a'. recover_auth pl g f (a\<lparr>aw_sessions := []\<rparr>) = (a', Returned ()) \<and>
       (\<forall>h. sw_secrets (aw_world a') (browser_ref h) = None \<and> getSetting (sw_db (aw_world a')) (browser_key h) = None)"
    by (auto simp: only_live_def live_def)
  then show ?thesis using a'(1) kept by blast
qed

lemma faultless_calm: "calm_call no_faults"
  by (simp add: calm_call_def calm_quiet)

text \<open>At time 30 Ann's session has expired.\<close>

theorem cleanup_leaves_live_witness:
  "\<exists>a'. cleanup unary_platform (\<lambda>_. no_faults) no_faults (\<lambda>_. no_faults) (\<lambda>_. 8) (fst ann_stored) = (a', Returned ())"
  using cleanup_leaves_live[OF unary_ok ann_run, of "\<lambda>_. no_faults" no_faults "\<lambda>_. no_faults" 8] faultless_calm by blast

section \<open>Deleted users\<close>

text \<open>C8: A deleted user is out: when a deletion reports success, after any such history and whatever
  calls it survived, no cookie stands for a session of the user, no setting names the user, and
  every stored token belongs to another user.\<close>

theorem deleted_user_is_out:
  assumes pl: "platform_ok pl" and run: "(auth_call pl)\<^sup>*\<^sup>* fresh_auth a" and quiet: "quiet_call c" "\<And>k. quiet_env (f k)"
    and gone: "deleteUser pl c f now i revision requester lastSeen a = (a', Returned True)"
  shows "(\<forall>t t' s. live_session pl t (Some t') a' = Some s \<longrightarrow> bs_identityId s \<noteq> Some i) \<and>
     (\<forall>h e. getSetting (sw_db (aw_world a')) (browser_key h) \<noteq> Some (ap_stringify pl (persisted_credential_of i h e))) \<and>
     (\<forall>h. sw_secrets (aw_world a') (browser_ref h) \<noteq> None \<longrightarrow>
        (\<exists>j e. j \<noteq> i \<and> getSetting (sw_db (aw_world a')) (browser_key h) = Some (ap_stringify pl (persisted_credential_of j h e))))"
proof -
  have ok: "auth_ok pl {} a" by (rule auth_calls_keep[OF pl run fresh_auth_ok])
  have "case deleteUser pl c f now i revision requester lastSeen a of
      (a', Returned deleted) \<Rightarrow> auth_ok pl {} a' \<and> (deleted \<longrightarrow> no_sessions_of i a' \<and> no_credentials_of pl i a')
    | (a', _) \<Rightarrow> auth_ok pl {} a'"
    using delete_user_runs[where now = now and i = i and revision = revision and requester = requester and lastSeen = lastSeen,
      OF pl quiet, unfolded runs_def, rule_format, OF ok] .
  then have a': "auth_ok pl {} a'" "no_sessions_of i a'" "no_credentials_of pl i a'" using gone by simp_all
  have "\<exists>j e. j \<noteq> i \<and> getSetting (sw_db (aw_world a')) (browser_key h) = Some (ap_stringify pl (persisted_credential_of j h e))"
    if h: "sw_secrets (aw_world a') (browser_ref h) \<noteq> None" for h
  proof -
    obtain v where v: "getSetting (sw_db (aw_world a')) (browser_key h) = Some v" using auth_okD(3)[OF a'(1)] h by blast
    obtain j e where je: "v = ap_stringify pl (persisted_credential_of j h e)"
      using auth_okD(2)[OF a'(1) browser_key_prefixed v] by (auto simp: entry_ok_def)
    have "j \<noteq> i" using v a'(3) je by (auto simp: no_credentials_of_def)
    then show ?thesis using v je by auto
  qed
  moreover have "bs_identityId s \<noteq> Some i" if "live_session pl t (Some t') a' = Some s" for t t' s
    using live_session_entry[OF that, THEN conjunct1] a'(2) unfolding no_sessions_of_def by fastforce
  ultimately show ?thesis using a'(3) unfolding no_credentials_of_def by blast
qed

text \<open>The administrator deletes Ann while she is signed in.\<close>

definition ann_user :: user_identity where
  "ann_user = new_identity sample_login"

definition ann_known :: auth_world where
  "ann_known = (fst ann_stored)\<lparr>aw_world := meanwhile [AccessOp (OpCreateUser ann_user)] (aw_world (fst ann_stored))\<rparr>"

lemma ann_known_run: "(auth_call unary_platform)\<^sup>*\<^sup>* fresh_auth ann_known"
  using ann_run call_others[of "[AccessOp (OpCreateUser ann_user)]" unary_platform "fst ann_stored"]
  by (simp add: ann_known_def)

lemma ann_known_view:
  "aw_sessions ann_known = [(replicate 64 CHR ''0'', browser_session_of sample_login (replicate 64 CHR ''0'') ''csrf'' 20)]"
  "db_users (sw_db (aw_world ann_known)) = [(''ann@p'', fresh_row ann_user 7)]"
  "db_sessions (sw_db (aw_world ann_known)) = []" "db_channels (sw_db (aw_world ann_known)) = []"
  "db_tokens (sw_db (aw_world ann_known)) = []"
  by (simp_all add: ann_known_def ann_stored_def store_credential_def on_error_def and_then_def outside_def called_def write_db_def
      on_db_def meanwhile_def on_secrets_def on_sessions_def fresh_auth_def fresh_world_def empty_db_def createUserIdentity_def
      putSetting_def sql_upsert_def sql_insert_def ann_user_def new_identity_def sample_login_def del: replicate.simps)

lemma ann_session_known:
  "live_session unary_platform 8 (Some ''t'') ann_known = Some (browser_session_of sample_login (replicate 64 CHR ''0'') ''csrf'' 20)"
  by (simp add: live_session_def ann_known_view(1) unary_platform_def browser_session_of_def del: replicate.simps)

lemma ann_deleted:
  "\<exists>a'. deleteUser unary_platform ([], Works) (\<lambda>_. no_faults) 8 ''ann@p'' 1 (Some ''admin'') None ann_known = (a', Returned True)"
proof -
  let ?d = "sw_db (aw_world ann_known)"
  obtain d c where d: "deleteUserIdentityPreservingOwner ?d ''ann@p'' 1 None = (d, resolve (Deleted c))"
    by (simp add: deleteUserIdentityPreservingOwner_def get_versioned_def ann_known_view owns_session_def owns_channel_def
        is_owner_def ann_user_def new_identity_def fresh_row_def sql_delete_def)
  let ?a = "ann_known\<lparr>aw_world := (aw_world ann_known)\<lparr>sw_db := d\<rparr>\<rparr>"
  have "auth_ok unary_platform {} ann_known" by (rule auth_calls_keep[OF unary_ok ann_known_run fresh_auth_ok])
  then have "auth_ok unary_platform {} ?a"
    by (rule auth_ok_same) (use users_same(4)[of ?d "''ann@p''" 1 None] d in simp_all)
  from runs_total[OF remove_user_runs[where f = "\<lambda>_. no_faults" and i = "''ann@p''", OF unary_ok faultless_env[OF faultless_calm]] this]
  obtain a' where "remove_user_sessions unary_platform (\<lambda>_. no_faults) ''ann@p'' ?a = (a', Returned ())" by auto
  then show ?thesis using d
    by (simp add: deleteUser_def and_then_def outside_def called_def on_db_def meanwhile_def done_with_def)
qed

theorem deleted_user_is_out_witness:
  "\<exists>a'. deleteUser unary_platform ([], Works) (\<lambda>_. no_faults) 8 ''ann@p'' 1 (Some ''admin'') None ann_known = (a', Returned True) \<and>
     (\<forall>s. live_session unary_platform 8 (Some ''t'') a' = Some s \<longrightarrow> bs_identityId s \<noteq> Some ''ann@p'')"
proof -
  obtain a' where a': "deleteUser unary_platform ([], Works) (\<lambda>_. no_faults) 8 ''ann@p'' 1 (Some ''admin'') None ann_known = (a', Returned True)"
    using ann_deleted by blast
  from deleted_user_is_out[OF unary_ok ann_known_run calm_quiet(2) calm_quiet(1) a'] show ?thesis using a' by blast
qed

section \<open>Requests\<close>

lemma set_js_distinct [simp]: "set (js_distinct xs) = set xs"
  by (simp add: js_distinct_def)

lemma with_scopes_resolve:
  "with_scopes required q = resolve p \<longleftrightarrow>
     q = resolve p \<and> (ScopeAdmin \<in> set (pr_scopes p) \<or> set required \<subseteq> set (pr_scopes p))"
  by (auto simp: with_scopes_def assertScopes_def list_ex_iff split: sum.splits if_splits)

lemma bearer_header:
  assumes "starts_with ''Bearer '' h"
  shows "h = ''Bearer '' @ drop 7 h"
proof -
  have "length ''Bearer '' = 7" by simp
  then have "take 7 h = ''Bearer ''" using assms unfolding starts_with_def by (simp only:)
  then show ?thesis using append_take_drop_id[of 7 h] by (simp only:)
qed

lemma token_was_used:
  assumes "usePersonalToken d u = (d', Some t)"
  shows "\<exists>k r. (k, r) \<in> set (db_tokens d) \<and> token_usable u (row_json r) \<and> tok_scopes t = tok_scopes (row_json r)"
proof -
  obtain t' where t': "js_first (jsons (filter (\<lambda>(_, r). token_usable u (row_json r)) (db_tokens d))) = Some t'" "t = touch_token u t'"
    using assms by (auto simp: usePersonalToken_def Let_def)
  from js_first_mem[OF t'(1)] obtain k r where "(k, r) \<in> set (db_tokens d)" "token_usable u (row_json r)" "t' = row_json r"
    by (auto simp: jsons_def)
  then show ?thesis using t'(2) by (auto simp: touch_token_def)
qed

lemma live_session_facts:
  "live_session pl now cookie a = Some s \<Longrightarrow>
     \<exists>t. cookie = Some t \<and> map_of (aw_sessions a) (ap_hashToken pl t) = Some s \<and> now < bs_expiresAt s"
  by (auto simp: live_session_def truthy_def split: if_splits option.splits)

text \<open>C16: A request may do what its caller was granted and no more: when a request is let through, its
  principal has every scope that was asked for or is an administrator, and its scopes are those of
  the roles the user has now, for a browser session that the cookie names and that has not run out,
  those of a stored token that the header names, that is not revoked and has not run out, or those of
  an administrator, for a recovery session that the cookie names and that has not run out.\<close>

theorem access_within_grants:
  assumes auth: "authenticate pl now cookie authorization required a = (a', resolve p)"
  shows "(ScopeAdmin \<in> set (pr_scopes p) \<or> set required \<subseteq> set (pr_scopes p)) \<and>
     (case pr_kind p of
        JellyfinSession \<Rightarrow>
          (\<exists>t s i u. cookie = Some t \<and> map_of (aw_sessions a) (ap_hashToken pl t) = Some s \<and> now < bs_expiresAt s \<and>
             bs_authMethod s \<noteq> RecoveryLogin \<and> bs_identityId s = Some i \<and> getUserIdentity (sw_db (aw_world a)) i = Some u \<and>
             set (pr_scopes p) = (\<Union>r \<in> set (user_roles (vr_value u)). set (roleScopes r)))
      | RecoverySession \<Rightarrow>
          (\<exists>t s. cookie = Some t \<and> map_of (aw_sessions a) (ap_hashToken pl t) = Some s \<and> now < bs_expiresAt s \<and>
             bs_authMethod s = RecoveryLogin \<and> pr_scopes p = [ScopeAdmin])
      | PersonalToken \<Rightarrow>
          (\<exists>token k r. authorization = Some (''Bearer '' @ token) \<and> (k, r) \<in> set (db_tokens (sw_db (aw_world a))) \<and>
             tok_tokenHash (row_json r) = ap_hashToken pl token \<and> tok_revokedAt (row_json r) = None \<and>
             (\<forall>e. tok_expiresAt (row_json r) = Some e \<longrightarrow> now < e) \<and> pr_scopes p = tok_scopes (row_json r)))"
proof (cases "live_session pl now cookie a")
  case (Some s)
  then have p: "browserPrincipal (sw_db (aw_world a)) s = resolve p"
    and scopes: "ScopeAdmin \<in> set (pr_scopes p) \<or> set required \<subseteq> set (pr_scopes p)"
    using auth by (auto simp: authenticate_def with_scopes_resolve)
  then show ?thesis using live_session_facts[OF Some]
    by (auto simp: browserPrincipal_def recovery_principal_def principalFromIdentity_def truthy_def split: if_splits option.splits)
next
  case None
  then obtain h where h: "authorization = Some h" "starts_with ''Bearer '' h"
    using auth by (auto simp: authenticate_def split: option.splits if_splits)
  let ?u = "\<lparr>ptu_tokenHash = ap_hashToken pl (drop 7 h), ptu_usedAt = now, ptu_touchBefore = now - 60000\<rparr>"
  obtain d t where t: "usePersonalToken (sw_db (aw_world a)) ?u = (d, Some t)" "p = token_principal t"
    and scopes: "ScopeAdmin \<in> set (pr_scopes p) \<or> set required \<subseteq> set (pr_scopes p)"
    using auth None h by (auto simp: authenticate_def with_scopes_resolve split: prod.splits option.splits)
  from token_was_used[OF t(1)] obtain k r where r: "(k, r) \<in> set (db_tokens (sw_db (aw_world a)))" "token_usable ?u (row_json r)"
    "tok_scopes t = tok_scopes (row_json r)" by blast
  have "\<exists>token k r. authorization = Some (''Bearer '' @ token) \<and> (k, r) \<in> set (db_tokens (sw_db (aw_world a))) \<and>
             tok_tokenHash (row_json r) = ap_hashToken pl token \<and> tok_revokedAt (row_json r) = None \<and>
             (\<forall>e. tok_expiresAt (row_json r) = Some e \<longrightarrow> now < e) \<and> pr_scopes p = tok_scopes (row_json r)"
    by (rule exI[of _ "drop 7 h"], rule exI[of _ k], rule exI[of _ r])
      (use r h(1) bearer_header[OF h(2)] t(2) in \<open>auto simp: token_usable_def token_principal_def\<close>)
  then show ?thesis using scopes t(2) by (simp add: token_principal_def)
qed

lemma ann_browses:
  "authenticate unary_platform 8 (Some ''t'') None [CatalogRead] ann_known =
     (ann_known, resolve (principalFromIdentity ann_user ''csrf'' (Some (browser_ref (replicate 64 CHR ''0'')))))"
proof -
  have "getUserIdentity (sw_db (aw_world ann_known)) ''ann@p'' = Some (versioned ann_user 1)"
    by (simp add: getUserIdentity_def get_versioned_def ann_known_view fresh_row_def)
  then show ?thesis
    by (simp add: authenticate_def ann_session_known browserPrincipal_def browser_session_of_def sample_login_def with_scopes_resolve
        principalFromIdentity_def ann_user_def new_identity_def js_distinct_def del: replicate.simps)
qed

theorem access_within_grants_witness:
  "\<exists>p. authenticate unary_platform 8 (Some ''t'') None [CatalogRead] ann_known = (ann_known, resolve p) \<and>
     (ScopeAdmin \<in> set (pr_scopes p) \<or> set [CatalogRead] \<subseteq> set (pr_scopes p))"
  using access_within_grants[OF ann_browses] ann_browses by blast

section \<open>Signing in\<close>

text \<open>C26: A sign-in is usable: whatever calls failed on the way, when it returns, its token stands for a
  session until it runs out, its principal passes the CSRF check with the token of the session, and
  its credential is the access token that the provider answered.\<close>

theorem sign_in_is_usable:
  assumes pl: "platform_ok pl" and run: "(auth_call pl)\<^sup>*\<^sup>* fresh_auth a" and quiet: "\<And>k. quiet_env (f k)"
    and new: "ap_hashToken pl (ld_token r) \<notin> live a"
    and login: "login_jellyfin pl f clock answer username r a = (a', Returned (token, p))" and t: "t < ld_now r + 12 * 60 * 60 * 1000"
    and some: "token \<noteq> []" and csrf: "ld_csrfToken r \<noteq> []"
  shows "\<exists>q identity s. answer q = resolve identity \<and> live_session pl t (Some token) a' = Some s \<and>
     requireCsrf (Some (bs_csrfToken s)) p = resolve () \<and>
     credential pl p (sw_secrets (aw_world a')) = resolve (idn_accessToken identity)"
proof -
  have ok: "auth_ok pl {} a" by (rule auth_calls_keep[OF pl run fresh_auth_ok])
  let ?h = "ap_hashToken pl (ld_token r)"
  have start: "auth_ok pl {?h} a" using ok new by (auto simp: auth_ok_def)
  have "login_result pl answer r (token, p) a'"
    using login_keeps[where f = f and r = r and clock = clock and answer = answer and username = username,
      OF pl quiet refl, unfolded runs_def, rule_format, OF start] login by simp
  then obtain x q identity u where q: "answer q = resolve identity"
    "signed_in a' ?h (browser_session_of x ?h (ld_csrfToken r) (ld_now r + 12 * 60 * 60 * 1000)) (idn_accessToken identity)"
    "token = ld_token r" "p = principalFromIdentity u (ld_csrfToken r) (Some (browser_ref ?h))"
    unfolding login_result_def by blast
  have secrets: "ap_secrets pl" using pl by (simp add: platform_ok_def)
  have ref: "browser_ref ?h \<noteq> []" by (simp add: browser_ref_def)
  have "live_session pl t (Some token) a' = Some (browser_session_of x ?h (ld_csrfToken r) (ld_now r + 12 * 60 * 60 * 1000))"
    using q t some by (simp add: live_session_def truthy_def signed_in_def browser_session_of_def)
  moreover have "requireCsrf (Some (ld_csrfToken r)) p = resolve ()"
    using csrf by (simp add: requireCsrf_def q(4) principalFromIdentity_def truthy_def)
  moreover have "credential pl p (sw_secrets (aw_world a')) = resolve (idn_accessToken identity)"
    using q(2) ref secrets by (simp add: credential_def q(4) principalFromIdentity_def truthy_def secret_get_def signed_in_def)
  ultimately show ?thesis using q(1) by (auto simp: browser_session_of_def)
qed

definition library_provider :: provider_connection where
  "library_provider =
     new_connection \<lparr>pq_type = ''jellyfin'', pq_name = ''Library'', pq_authMode = Delegated, pq_allowPublicHttp = False,
       pq_normalizedBaseUrl = ''https://media'', pq_securityNotice = None\<rparr> [] None ''p'' 5"

definition set_up :: "repo_op list" where
  "set_up = [CatalogOp (OpCreateProvider library_provider), SettingOp (OpPutSetting SIGN_IN_CONFIGURATION_KEY ''p'' 5)]"

definition set_up_auth :: auth_world where
  "set_up_auth = fresh_auth\<lparr>aw_world := meanwhile set_up (aw_world fresh_auth)\<rparr>"

lemma set_up_run: "(auth_call unary_platform)\<^sup>*\<^sup>* fresh_auth set_up_auth"
proof -
  have "\<not> browser_prefixed SIGN_IN_CONFIGURATION_KEY"
    by (simp add: browser_prefixed_def starts_with_def SIGN_IN_CONFIGURATION_KEY_def BROWSER_CREDENTIAL_SETTING_PREFIX_def ascii_lower_def is_upper_def)
  then show ?thesis using call_others[of set_up unary_platform fresh_auth] by (auto simp: set_up_auth_def set_up_def)
qed

definition ann_answer :: provider_identity where
  "ann_answer = \<lparr>idn_userId = Some ''ann'', idn_username = Some ''Ann'', idn_accessToken = ''key'', idn_serverName = None,
     idn_serverVersion = None\<rparr>"

definition ann_draw :: login_draw where
  "ann_draw = \<lparr>ld_token = ''t'', ld_csrfToken = ''csrf'', ld_now = 6, ld_later = 7\<rparr>"

lemma set_up_view:
  "db_providers (sw_db (aw_world set_up_auth)) = [(''p'', fresh_row library_provider 5)]"
  "db_users (sw_db (aw_world set_up_auth)) = []" "db_user_columns (sw_db (aw_world set_up_auth)) = []"
  by (simp_all add: set_up_auth_def set_up_def meanwhile_def fresh_auth_def fresh_world_def empty_db_def createProvider_def
      sql_insert_def putSetting_def library_provider_def new_connection_def)

lemma ann_authenticated:
  "\<exists>w. authenticate_user no_faults (\<lambda>_. 6) (\<lambda>_. resolve ann_answer) ''p'' (aw_world set_up_auth) = (w, Returned ann_answer) \<and>
     db_users (sw_db w) = [] \<and> db_user_columns (sw_db w) = []"
proof -
  let ?d = "sw_db (aw_world set_up_auth)"
  have row: "getProvider ?d ''p'' = Some library_provider" "getVersionedProvider ?d ''p'' = Some (versioned library_provider 1)"
    by (simp_all add: getProvider_def getVersionedProvider_def getStoredProvider_def set_up_view fresh_row_def)
  have "prov_id library_provider = ''p''" "prov_authMode library_provider = Delegated"
    by (simp_all add: library_provider_def new_connection_def)
  moreover have "\<exists>d. compareAndSetProvider ?d (library_provider\<lparr>prov_healthy := True, prov_updatedAt := 6\<rparr>) 1 =
      (d, Applied (versioned (library_provider\<lparr>prov_healthy := True, prov_updatedAt := 6\<rparr>) 2)) \<and> db_users d = [] \<and> db_user_columns d = []"
    using calculation(1) by (simp add: compareAndSetProvider_def set_up_view sql_update_def fresh_row_def Let_def)
  moreover have attempts: "MAX_PROVIDER_WRITE_ATTEMPTS = Suc 4" by (simp add: MAX_PROVIDER_WRITE_ATTEMPTS_def)
  ultimately show ?thesis using row unfolding authenticate_user_def attempts mark_healthy.simps(2)
    by (auto simp: and_then_def called_def read_db_def on_db_def meanwhile_def done_with_def)
qed

lemma new_user_created:
  assumes "db_users (sw_db w) = []" and "db_user_columns (sw_db w) = []"
  shows "\<exists>w' u. refreshIdentityAfterLogin no_faults x w = (w', Returned u)"
proof -
  have five: "(5 :: nat) = Suc 4" by simp
  show ?thesis using assms unfolding refreshIdentityAfterLogin_def five refresh_identity.simps(2)
    by (simp add: and_then_def on_error_def called_def read_db_def on_db_def meanwhile_def done_with_def
      create_or_reread_def getUserIdentity_def get_versioned_def createUserIdentity_def sql_insert_def)
qed

lemma store_works: "\<exists>a'. store_credential unary_platform (\<lambda>_. ([], Works)) now x h csrf token e a = (a', Returned ())"
  by (simp add: store_credential_def on_error_def and_then_def outside_def called_def write_db_def on_db_def
      meanwhile_def on_secrets_def on_sessions_def)

lemma ann_logs_in:
  "\<exists>a' p. login_jellyfin unary_platform (\<lambda>_. no_faults) (\<lambda>_. 6) (\<lambda>_. resolve ann_answer) ''ann'' ann_draw set_up_auth =
     (a', Returned (''t'', p))"
proof -
  have config: "sign_in_configuration unary_platform (sw_db (aw_world set_up_auth)) = resolve (Some ''p'')"
    by (simp add: sign_in_configuration_def set_up_auth_def set_up_def meanwhile_def setting_view unary_platform_def)
  obtain w where w: "authenticate_user no_faults (\<lambda>_. 6) (\<lambda>_. resolve ann_answer) ''p'' (aw_world set_up_auth) = (w, Returned ann_answer)"
    "db_users (sw_db w) = []" "db_user_columns (sw_db w) = []" using ann_authenticated by blast
  have flags: "ap_providers unary_platform" "ap_secrets unary_platform" by (simp_all add: unary_platform_def)
  have ann: "truthy (idn_userId ann_answer)" "ld_token ann_draw = ''t''" by (simp_all add: ann_answer_def ann_draw_def)
  let ?x = "\<lparr>li_identityId = ap_hashToken unary_platform (''p'' @ char_of (0 :: nat) # the (idn_userId ann_answer)), li_providerId = ''p'',
      li_providerUserId = the (idn_userId ann_answer), li_displayName = coalesce (idn_username ann_answer) ''ann'',
      li_observedAt = ld_later ann_draw\<rparr>"
  obtain w' u where u: "refreshIdentityAfterLogin no_faults ?x w = (w', Returned u)" using new_user_created[OF w(2,3)] by blast
  obtain a' where a': "store_credential unary_platform no_faults (ld_later ann_draw) ?x (ap_hashToken unary_platform ''t'') (ld_csrfToken ann_draw)
      (idn_accessToken ann_answer) (ld_now ann_draw + 12 * 60 * 60 * 1000) (set_up_auth\<lparr>aw_world := w'\<rparr>) = (a', Returned ())"
    using store_works by blast
  have configured: "outside (called ([], Works) (on_db (\<lambda>d. (d, sign_in_configuration unary_platform d)))) set_up_auth =
      (set_up_auth, Returned (Some ''p''))"
    by (simp add: outside_def called_def on_db_def meanwhile_def config)
  have "outside (authenticate_user no_faults (\<lambda>_. 6) (\<lambda>_. resolve ann_answer) ''p'') set_up_auth = (set_up_auth\<lparr>aw_world := w\<rparr>, Returned ann_answer)"
    "outside (refreshIdentityAfterLogin no_faults ?x) (set_up_auth\<lparr>aw_world := w\<rparr>) = (set_up_auth\<lparr>aw_world := w'\<rparr>, Returned u)"
    using w(1) u by (simp_all only: outside_def prod.case) simp_all
  then show ?thesis using configured flags ann a' unfolding login_jellyfin_def Let_def
    by (simp add: and_then_def done_with_def del: append.simps)
qed

text \<open>Ann's first sign-in.\<close>

theorem sign_in_is_usable_witness:
  "\<exists>a' p s. login_jellyfin unary_platform (\<lambda>_. no_faults) (\<lambda>_. 6) (\<lambda>_. resolve ann_answer) ''ann'' ann_draw set_up_auth =
     (a', Returned (''t'', p)) \<and> live_session unary_platform 8 (Some ''t'') a' = Some s \<and>
     credential unary_platform p (sw_secrets (aw_world a')) = resolve ''key''"
proof -
  obtain a' p where a': "login_jellyfin unary_platform (\<lambda>_. no_faults) (\<lambda>_. 6) (\<lambda>_. resolve ann_answer) ''ann'' ann_draw set_up_auth =
     (a', Returned (''t'', p))" using ann_logs_in by blast
  have new: "ap_hashToken unary_platform (ld_token ann_draw) \<notin> live set_up_auth"
    by (simp add: live_def set_up_auth_def fresh_auth_def)
  from sign_in_is_usable[OF unary_ok set_up_run calm_quiet(1) new a', of 8] show ?thesis
    using a' by (auto simp: ann_draw_def ann_answer_def)
qed

end
