(* ===== verification/Spec2Isabelle.thy ===== *)
theory Spec2Isabelle
  imports RelayStoreResults RelayRefinement RelayPlaybackResults RelayWorkResults RelayClusterResults
    RelaySessionResults RelayCredentialResults RelayLiveResults RelayProviderResults RelayAuthResults
begin

text \<open>
  VRRelay is a media relay: providers hold media, sessions play it, profiles say how it is
  transcoded, nodes do the work, viewers hold playback grants. This library models the core
  of its TypeScript code and proves what makes it correct.

  \<^bold>\<open>Parts and theories.\<close>
  \<^item> \<open>RelayPrelude\<close>: identifiers, instants (milliseconds), the error classes of
    \<^verbatim>\<open>packages/application/src/errors.ts\<close>, the JavaScript operations the source uses
    (truthiness, \<open>??\<close>, stable sorting with a comparator) and \<open>retry\<close>, the bounded loop
    around every optimistic write.
  \<^item> \<open>RelayDomain\<close>: the schemas of \<^verbatim>\<open>packages/domain/src/index.ts\<close> as records and datatypes,
    their constraints as predicates.
  \<^item> \<open>RelayTable\<close>, \<open>RelayRepoCore\<close>, \<open>RelayRepoAccess\<close>, \<open>RelayRepoCluster\<close>: the repository of
    \<^verbatim>\<open>packages/adapters/src/sqlite-repository.ts\<close>; a table is an association list of rows
    with a revision, the database a record of tables, every operation one function from
    the database to the new one and its result. \<open>RelayRepoOps\<close> lists the writes as data and
    runs one with \<open>exec_op\<close>.
  \<^item> \<open>RelayHistory\<close>, \<open>RelayReferences\<close>, \<open>RelayNodes\<close>, \<open>RelayGuards\<close>: what every history of
    writes keeps: keys and revisions, the references between the tables, nodes and their
    certificates, the last owner and the limits.
  \<^item> \<open>RelayCoordination\<close>: \<^verbatim>\<open>MemoryCoordinationStore\<close> of
    \<^verbatim>\<open>packages/adapters/src/local-infrastructure.ts\<close>: leases, values, viewers, demands,
    channels.
  \<^item> \<open>RelayPacing\<close>, \<open>RelayProducer\<close>: the persistent VOD producers of
    \<^verbatim>\<open>packages/application/src/vod-producer-coordinator.ts\<close>: which audience a producer
    follows, how it is paced, when it switches or stalls, how starts are admitted, fenced
    by generations and recovered.
  \<^item> \<open>RelayJobs\<close>, \<open>RelayJobFacts\<close>: the segment jobs of
    \<^verbatim>\<open>packages/application/src/session-jobs.ts\<close>: start, transition, completion, failure,
    cancellation, retry, recovery, the choice of workers and the generation of a segment
    under its lease.
  \<^item> \<open>RelayRouting\<close>, \<open>RelayCluster\<close>, \<open>RelayClusterFacts\<close>, \<open>RelayListing\<close>, \<open>RelayEnrollment\<close>,
    \<open>RelayEnrollQuiet\<close>: the cluster service of \<^verbatim>\<open>packages/application/src/cluster-service.ts\<close>:
    the traffic directors, routes and placement; the loops that write a node (heartbeat,
    drain, revocation, removal, rotation, the demotions of a listing); the deletion of
    bindings; enrolment by join tokens.
  \<^item> \<open>RelayWorkers\<close>, \<open>RelayGrants\<close>, \<open>RelayCache\<close>, \<open>RelayPlaylist\<close>, \<open>RelaySessions\<close>,
    \<open>RelayMedia\<close>, \<open>RelayCredentials\<close>: the session service of
    \<^verbatim>\<open>packages/application/src/session-service.ts\<close> and its cache (\<^verbatim>\<open>session-cache.ts\<close>): the
    transcode workers, playback links, the removal of cached files, playlists and segments,
    the update loops on sessions, the choice of tracks and secrets, and creation, deletion and
    recovery with a fault at every call. \<open>RelayCrashFacts\<close>, \<open>RelayCrashSafety\<close> and
    \<open>RelayCrashRecovery\<close> reason about those faults, \<open>RelayOrphans\<close> about a credential that no call
    touches any more.
  \<^item> \<open>RelayUrl\<close>, \<open>RelayNormalizer\<close>, \<open>RelayLive\<close>, \<open>RelayLiveFacts\<close>: query strings and
    percent-encoding as \<^verbatim>\<open>URL\<close> and \<^verbatim>\<open>URLSearchParams\<close> have them; the live normalizer and the
    encoders (\<^verbatim>\<open>packages/adapters/src/ffmpeg-live-normalizer.ts\<close>, \<^verbatim>\<open>ffmpeg-encoder.ts\<close>); the live service
    of \<^verbatim>\<open>packages/application/src/live-service.ts\<close>: channels, the admission of publishers and
    their replacement, the reconciliation with the media server; the interleavings of the
    requests on one channel.
  \<^item> \<open>RelayProviders\<close>, \<open>RelayProviderFacts\<close>, \<open>RelayProviderHistory\<close>: the provider service of
    \<^verbatim>\<open>packages/application/src/provider-service.ts\<close>: connections and their credentials, bindings and
    deletion, every call under a fault, and the way a request takes, whose reads are one step without
    faults; histories of its calls.
  \<^item> \<open>RelayAuth\<close>: the authentication of \<^verbatim>\<open>apps/relay/src/auth.ts\<close>: sign-in by password and through a
    provider, browser sessions in memory with their tokens in the secret store and a setting for
    each, requests, users, personal tokens, cleanup, recovery. \<open>RelayAuthFacts\<close>,
    \<open>RelayAuthHistory\<close>, \<open>RelayAuthRemoval\<close>, \<open>RelayAuthCleanup\<close>, \<open>RelayAuthCalls\<close>: the invariant between
    sessions, settings and tokens, that every handler keeps it under faults, and the histories
    \<open>auth_call\<close>; the queue of credential operations makes them the order of the steps.
  \<^item> \<open>RelaySamples\<close>, \<open>RelaySessionSamples\<close>: concrete values for the witnesses.
    \<open>RelayStoreResults\<close>, \<open>RelayRefinement\<close>, \<open>RelayPlaybackResults\<close>, \<open>RelayWorkResults\<close>,
    \<open>RelayClusterResults\<close>, \<open>RelaySessionResults\<close>, \<open>RelayCredentialResults\<close>,
    \<open>RelayLiveResults\<close>, \<open>RelayProviderResults\<close>, \<open>RelayAuthResults\<close>: the properties.

  \<^bold>\<open>Conventions.\<close> A field that may be undefined is an option. An exception is the \<open>Inl\<close> of an
  \<open>outcome\<close> with the error class, and of a \<open>job_outcome\<close> with the message too, where the
  message is stored. A transaction is atomic. A handler that awaits is cut at its awaits, and
  what other actors do there is an argument: a function from the number of the point to the
  list of repository operations run there (\<open>2 * i\<close> before the \<open>i\<close>-th read, \<open>2 * i + 1\<close> between
  that read and its conditional write), so that a theorem quantified over it holds for every
  interleaving. The readings of the clock are arguments; two readings inside one expression
  are one. Hashes, URLs and the connection table of the dispatcher are parameters.
  In the theories on credentials a call may also fail or crash: \<open>call\<close> runs it under a fault,
  \<open>runs P m Q E\<close> says that a handler returns with \<open>Q\<close> or stops with \<open>E\<close>. The calls of \<open>session_call\<close>
  share one secret store, that of the controller; what a source worker with a store of its own does
  to it is a property of its own. The release of a lease in \<open>start_finally\<close> does not fail; the source
  ignores a failure, and the lease then runs out. A character is a byte: \<open>percent_decode\<close> keeps bytes
  that are no UTF-8, which the platform replaces.
  Documents are stored as values: the JSON text is not modelled, and a column that repeats a
  field of the document is read from the document.

  \<^bold>\<open>Contracts.\<close> \<open>revisioned_store\<close> is the optimistic store every service relies on, shown of the
  SQL tables; \<open>lease_store\<close> is the lease service, shown of the memory store; mutual exclusion
  is proved once from its laws; \<open>traffic_director\<close> is what the routes rely on, shown of both
  directors. \<open>producer_step\<close> is the protocol of all actors on the producer rows, \<open>admission\<close>
  the one of the reservations, \<open>reachable_db\<close> the databases the typed writes can produce; the references between the tables hold
  for all writes.
  \<open>worker_step\<close> and \<open>update_step\<close> are the interleavings of the workers and of the updates of one
  session, \<open>session_call\<close> the handlers of a session service one after another.
  \<open>spec_job\<close> is the specification of the job table, a map without rows or columns.

  \<^bold>\<open>Results.\<close> \<open>RelayStoreResults\<close>: the store keeps references, grants, certificates and
  owners along every history and its transactions enforce their bounds. \<open>RelayRefinement\<close>:
  the job table refines its specification, replies included. \<open>RelayPlaybackResults\<close>: leases
  exclude each other, demands and viewers are counted per viewer, pacing stays in its
  bounds, admission keeps its limits. \<open>RelayWorkResults\<close>: producer writes are fenced and
  their protocol keeps the history of attempts, with the generations that two runs share told apart, recovery is complete, a start settles its
  lease and its reservation; cancellations win their races in every attempt, attempts are bounded, the segment
  lease is released, workers are suitable. \<open>RelayClusterResults\<close>: a token enrols one node,
  retries and half-failed writes included, a valid token does enrol one; a revoked node is
  locked out and a rotated certificate distrusted; a listing only demotes silent nodes, a
  route leads to a live edge. \<open>RelaySessionResults\<close>: the count of workers is exact, a link
  exchanged for an edge stands for its original, links of deleted sessions stay dead, the text of the
  playlist lists the segments that are served with their lengths, the cache keeps what is protected and recent.
  \<open>RelayCredentialResults\<close>: created sessions are typed, a deletion that has begun is final, and
  the credentials of user-owned sessions survive failing and crashing calls and are repaired by
  one recovery. \<open>RelayLiveResults\<close>: a replaced publisher stays out, publishers take turns, no
  credential survives the scrubbing of a URL, a reconciliation reaches its fixed point, the
  normalizers keep their limits and back off. \<open>RelayProviderResults\<close>: a visible connection has
  its credential whatever call failed, a deletion completes and can be resumed.
  \<open>RelayAuthResults\<close>: a session that is signed in has its token and no token is lost sight of, a
  cleanup leaves the tokens of live sessions, a deleted user is out, a request may do what its
  caller was granted, a sign-in is usable.

  \<^bold>\<open>Behaviour the source probably does not intend.\<close> A creation of a producer row that is lost
  goes unnoticed, a crashed attempt stays open, a cancelled start keeps its lease, the order
  of workers is contradictory, a finalisation deletes a binding whose deletion was never
  begun; a late wake-up exceeds the limit of workers, an aborted request stays in their queue
  and swallows a wake-up, an eviction by profile misses the segments, a worker that
  finishes the deletion of a session leaves the credential of the controller behind, and the
  credential of a lost creation of a connection is never reconciled.

  \<^bold>\<open>Bounds.\<close> Every retry loop has the bound of the source (5 attempts, 3 attempts of a job), so
  no fuel is chosen; a recovery lists at most 1000 rows, as the source does.

  \<^bold>\<open>Not modelled.\<close> The PostgreSQL and Redis adapters (their behaviour is that of external
  servers; they implement the interfaces modelled here), ffmpeg and Jellyfin adapters,
  object stores, cryptography, the HTTP server and the agent transport, the web application.
  Of the modelled files: audit events, compatibility results and migrations of the SQLite
  repository; the request side of the producer coordinator (\<^verbatim>\<open>ensure\<close>, waiting, \<^verbatim>\<open>stop\<close>) and
  the streaming loop of \<^verbatim>\<open>#run\<close>, whose writes are modelled; remote execution and log
  redaction of the segment jobs; metrics and health reports of the cluster service; the runtime
  figures, source proxies and viewer counts of the session service.
\<close>

end
